(* ===== verification/Prelude.thy ===== *)
theory Prelude
  imports Complex_Main
begin

text \<open>
  Shared vocabulary of the development: the Go library functions the panel uses on
  strings and integers, the relational operations behind its database calls, and the
  fact collections the component theories extend.

  Strings are byte lists (\<open>string\<close>), as Go strings are; the functions below cover the
  single-character separators and the ASCII white space the panel's inputs use.
\<close>

named_theorems frame_simps \<open>what an operation leaves unchanged\<close>
named_theorems msg_defs \<open>definitions of the command wrappers\<close>

section \<open>Integers\<close>

text \<open>Go's \<open>int64\<close> arithmetic wraps: the value of an operation is read back in two's
  complement.\<close>

definition i64 :: "int \<Rightarrow> int" where
  "i64 x = signed_take_bit 63 x"

lemma i64_id: "- (2 ^ 63) \<le> x \<Longrightarrow> x < 2 ^ 63 \<Longrightarrow> i64 x = x"
  by (simp add: i64_def signed_take_bit_int_eq_self)

lemma i64_range: "- (2 ^ 63) \<le> i64 x \<and> i64 x < 2 ^ 63"
  unfolding i64_def
  using signed_take_bit_int_greater_eq_minus_exp [of 63 x] signed_take_bit_int_less_exp [of 63 x]
  by simp

section \<open>Decimal text\<close>

definition is_digit :: "char \<Rightarrow> bool" where
  "is_digit c \<longleftrightarrow> (48::nat) \<le> of_char c \<and> of_char c \<le> (57::nat)"

definition digit_val :: "char \<Rightarrow> nat" where
  "digit_val c = of_char c - 48"

definition digit :: "nat \<Rightarrow> char" where
  "digit n = char_of (48 + n)"

fun dec :: "nat \<Rightarrow> string" where
  "dec n = (if n < 10 then [digit n] else dec (n div 10) @ [digit (n mod 10)])"

declare dec.simps [simp del]

text \<open>\<open>fmt.Sprintf("%d", x)\<close> and \<open>strconv.FormatInt(x, 10)\<close>.\<close>

definition itoa :: "int \<Rightarrow> string" where
  "itoa x = (if x < 0 then CHR ''-'' # dec (nat (- x)) else dec (nat x))"

fun undec :: "nat \<Rightarrow> string \<Rightarrow> nat option" where
  "undec acc [] = Some acc"
| "undec acc (c # cs) = (if is_digit c then undec (acc * 10 + digit_val c) cs else None)"

text \<open>\<open>strconv.ParseInt(s, 10, 64)\<close>: an optional sign, at least one digit, in range.\<close>

definition unsigned_int :: "string \<Rightarrow> int option" where
  "unsigned_int s = (if s = [] then None else map_option int (undec 0 s))"

definition parse_int :: "string \<Rightarrow> int option" where
  "parse_int s =
     (let r = (case s of
                 [] \<Rightarrow> None
               | c # cs \<Rightarrow> if c = CHR ''-'' then map_option uminus (unsigned_int cs)
                          else if c = CHR ''+'' then unsigned_int cs
                          else unsigned_int s)
      in case r of None \<Rightarrow> None
         | Some x \<Rightarrow> if - (2 ^ 63) \<le> x \<and> x < 2 ^ 63 then Some x else None)"

lemma of_char_digit [simp]: "n < 10 \<Longrightarrow> of_char (digit n) = (48 + n :: nat)"
  by (simp add: digit_def)

lemma is_digit_digit [simp]: "n < 10 \<Longrightarrow> is_digit (digit n)"
  by (simp add: is_digit_def)

lemma digit_val_digit [simp]: "n < 10 \<Longrightarrow> digit_val (digit n) = n"
  by (simp add: digit_val_def)

lemma dec_nonempty [simp]: "dec n \<noteq> []"
  by (subst dec.simps) simp

lemma dec_digits: "c \<in> set (dec n) \<Longrightarrow> is_digit c"
proof (induction n rule: dec.induct)
  case (1 n)
  then show ?case
    by (cases "n < 10") (auto simp: dec.simps [of n])
qed

lemma undec_append:
  "undec acc (xs @ ys) = (case undec acc xs of None \<Rightarrow> None | Some a \<Rightarrow> undec a ys)"
  by (induction acc xs rule: undec.induct) auto

lemma undec_dec [simp]: "undec 0 (dec n) = Some n"
proof (induction n rule: dec.induct)
  case (1 n)
  show ?case
  proof (cases "n < 10")
    case True
    then show ?thesis by (subst dec.simps) simp
  next
    case False
    with "1.IH" have "undec 0 (dec (n div 10)) = Some (n div 10)" by simp
    then have "undec 0 (dec (n div 10) @ [digit (n mod 10)]) = Some (n div 10 * 10 + n mod 10)"
      by (simp only: undec_append option.case undec.simps) simp
    with False show ?thesis
      by (subst dec.simps) (simp only: if_False div_mult_mod_eq)
  qed
qed

lemma dec_inj: "dec m = dec n \<Longrightarrow> m = n"
  by (drule arg_cong [where f = "undec 0"]) simp

lemma not_digit_minus [simp]: "\<not> is_digit (CHR ''-'')" "\<not> is_digit (CHR ''+'')"
    "\<not> is_digit (CHR ''_'')" "\<not> is_digit (CHR '','')"
  by (simp_all add: is_digit_def)

lemma itoa_nonempty [simp]: "itoa x \<noteq> []"
  by (simp add: itoa_def)

lemma itoa_chars: "c \<in> set (itoa x) \<Longrightarrow> is_digit c \<or> c = CHR ''-''"
  by (auto simp: itoa_def dest: dec_digits split: if_splits)

lemma itoa_no_sep: "CHR ''_'' \<notin> set (itoa x)" "CHR '','' \<notin> set (itoa x)"
  using itoa_chars [of "CHR ''_''" x] itoa_chars [of "CHR '',''" x] by auto

lemma hd_dec_digit: "is_digit (hd (dec n))"
  by (rule dec_digits [of _ n]) (simp add: hd_in_set)

lemma itoa_inj [simp]: "itoa x = itoa y \<longleftrightarrow> x = y"
proof
  assume eq: "itoa x = itoa y"
  have neg: "CHR ''-'' # dec m \<noteq> dec n" for m n
  proof
    assume "CHR ''-'' # dec m = dec n"
    then have "hd (dec n) = CHR ''-''" by (metis list.sel(1))
    with hd_dec_digit [of n] show False by simp
  qed
  from eq show "x = y"
    by (auto simp: itoa_def neg neg [symmetric] dest!: dec_inj split: if_splits)
qed simp

lemma parse_int_itoa:
  assumes "- (2 ^ 63) \<le> x" and "x < 2 ^ 63"
  shows "parse_int (itoa x) = Some x"
proof (cases "x < 0")
  case True
  then show ?thesis
    using assms by (simp add: itoa_def parse_int_def unsigned_int_def)
next
  case False
  obtain c cs where d: "dec (nat x) = c # cs" by (cases "dec (nat x)") auto
  then have "is_digit c" using hd_dec_digit [of "nat x"] by simp
  then have "c \<noteq> CHR ''-''" and "c \<noteq> CHR ''+''" by auto
  with False d assms show ?thesis
    using undec_dec [of "nat x"] by (simp add: itoa_def parse_int_def unsigned_int_def)
qed

end
