(* ===== verification/Tables.thy ===== *)
theory Tables
  imports Prelude
begin

text \<open>
  The relational operations behind the panel's database calls. A table is the list of its
  rows in primary-key order (the key is auto-incremented, so a new row goes last):
  \<^item> \<open>DB.Where(p).First\<close> is \<open>first_where\<close>, \<open>None\<close> for \<open>ErrRecordNotFound\<close>;
  \<^item> \<open>DB.Where(p).Find\<close>, \<open>Count\<close>, \<open>Updates\<close> and \<open>Delete\<close> are \<open>find_where\<close>,
    \<open>count_where\<close>, \<open>update_where\<close> and \<open>delete_where\<close>;
  \<^item> \<open>DB.Create\<close> is \<open>insert_row\<close>, the key already set.

  The locale \<open>keyed_table\<close> is the interface the services rely on: a table of a database
  state, reached by a getter and a field update, whose rows have a key. It is interpreted
  on every table of the panel's database in \<open>Panel_Data\<close>.
\<close>

definition first_where :: "('a \<Rightarrow> bool) \<Rightarrow> 'a list \<Rightarrow> 'a option" where
  "first_where p t = find p t"

definition find_where :: "('a \<Rightarrow> bool) \<Rightarrow> 'a list \<Rightarrow> 'a list" where
  "find_where p t = filter p t"

definition count_where :: "('a \<Rightarrow> bool) \<Rightarrow> 'a list \<Rightarrow> int" where
  "count_where p t = int (length (filter p t))"

definition update_where :: "('a \<Rightarrow> bool) \<Rightarrow> ('a \<Rightarrow> 'a) \<Rightarrow> 'a list \<Rightarrow> 'a list" where
  "update_where p f t = map (\<lambda>r. if p r then f r else r) t"

definition delete_where :: "('a \<Rightarrow> bool) \<Rightarrow> 'a list \<Rightarrow> 'a list" where
  "delete_where p t = filter (\<lambda>r. \<not> p r) t"

definition insert_row :: "'a \<Rightarrow> 'a list \<Rightarrow> 'a list" where
  "insert_row r t = t @ [r]"

text \<open>\<open>ORDER BY k\<close>, ties in primary-key order.\<close>

definition order_by :: "('a \<Rightarrow> int) \<Rightarrow> 'a list \<Rightarrow> 'a list" where
  "order_by k t = sort_key k t"

text \<open>\<open>SELECT COALESCE(MAX(c), 0)\<close>.\<close>

definition max_or_zero :: "('a \<Rightarrow> int) \<Rightarrow> 'a list \<Rightarrow> int" where
  "max_or_zero c t = (case t of [] \<Rightarrow> 0 | r # rs \<Rightarrow> foldl (\<lambda>m x. max m (c x)) (c r) rs)"

lemma first_where_Some: "first_where p t = Some r \<Longrightarrow> r \<in> set t \<and> p r"
  by (auto simp: first_where_def find_Some_iff)

lemma first_where_None: "first_where p t = None \<longleftrightarrow> (\<forall>r \<in> set t. \<not> p r)"
  by (auto simp: first_where_def find_None_iff)

lemma first_where_cong: "(\<And>r. r \<in> set t \<Longrightarrow> p r = q r) \<Longrightarrow> first_where p t = first_where q t"
  by (simp add: first_where_def cong: find_cong)

lemma set_find_where [simp]: "set (find_where p t) = {r \<in> set t. p r}"
  by (simp add: find_where_def)

lemma set_update_where: "set (update_where p f t) = (\<lambda>r. if p r then f r else r) ` set t"
  by (simp add: update_where_def)

lemma set_delete_where [simp]: "set (delete_where p t) = {r \<in> set t. \<not> p r}"
  by (simp add: delete_where_def)

lemma set_insert_row [simp]: "set (insert_row r t) = insert r (set t)"
  by (auto simp: insert_row_def)

lemma set_order_by [simp]: "set (order_by k t) = set t"
  by (simp add: order_by_def)

lemma length_order_by [simp]: "length (order_by k t) = length t"
  by (simp add: order_by_def)

lemma count_where_zero: "count_where p t = 0 \<longleftrightarrow> (\<forall>r \<in> set t. \<not> p r)"
  by (auto simp: count_where_def filter_empty_conv)

lemma count_where_pos: "0 < count_where p t \<longleftrightarrow> (\<exists>r \<in> set t. p r)"
  by (auto simp: count_where_def filter_empty_conv)

lemma count_where_nonneg [simp]: "0 \<le> count_where p t"
  by (simp add: count_where_def)

lemma count_insert_row: "count_where p (insert_row r t) = count_where p t + (if p r then 1 else 0)"
  by (simp add: count_where_def insert_row_def)

lemma count_delete_where: "count_where p (delete_where q t) \<le> count_where p t"
  by (induction t) (auto simp: count_where_def delete_where_def)

lemma count_update_where:
  "(\<And>r. r \<in> set t \<Longrightarrow> q r \<Longrightarrow> p (f r) = p r) \<Longrightarrow> count_where p (update_where q f t) = count_where p t"
  by (induction t) (auto simp: count_where_def update_where_def)

lemma update_where_id [simp]: "update_where p (\<lambda>r. r) t = t"
  by (simp add: update_where_def)

lemma update_where_none: "(\<And>r. r \<in> set t \<Longrightarrow> \<not> p r) \<Longrightarrow> update_where p f t = t"
  by (induction t) (auto simp: update_where_def)

lemma max_or_zero_ge: "r \<in> set t \<Longrightarrow> c r \<le> max_or_zero c t"
proof -
  have acc: "m \<le> foldl (\<lambda>m x. max m (c x)) m rs" for m rs
  proof (induction rs arbitrary: m)
    case (Cons a rs)
    have "m \<le> max m (c a)" by simp
    also note Cons.IH
    finally show ?case by simp
  qed simp
  have el: "x \<in> set rs \<Longrightarrow> c x \<le> foldl (\<lambda>m x. max m (c x)) m rs" for x m rs
    by (induction rs arbitrary: m) (auto intro: order_trans [OF _ acc])
  assume "r \<in> set t"
  then show ?thesis
    by (cases t) (auto simp: max_or_zero_def intro: acc el)
qed

text \<open>Updating the rows of a list of keys one at a time, with an idempotent change, changes
  the rows whose key is in the list.\<close>

lemma fold_update_where:
  assumes "\<And>r. key (g r) = key r" and "\<And>r. g (g r) = g r"
  shows "fold (\<lambda>k. update_where (\<lambda>r. key r = k) g) ks t = map (\<lambda>r. if key r \<in> set ks then g r else r) t"
proof (induction ks arbitrary: t)
  case (Cons k ks)
  have "fold (\<lambda>k. update_where (\<lambda>r. key r = k) g) (k # ks) t =
      map (\<lambda>r. if key r \<in> set ks then g r else r) (update_where (\<lambda>r. key r = k) g t)"
    by (simp only: fold.simps comp_apply Cons.IH)
  also have "\<dots> = map (\<lambda>r. if key r \<in> set (k # ks) then g r else r) t"
    using assms by (auto simp: update_where_def)
  finally show ?case .
qed (simp add: update_where_def)

lemma key_selected:
  assumes "distinct (map key t)" and "r \<in> set t"
  shows "key r \<in> set (map key (find_where p t)) \<longleftrightarrow> p r"
  using assms by (auto simp: distinct_map dest: inj_onD)

section \<open>The interface of a keyed table\<close>

locale keyed_table =
  fixes get :: "'d \<Rightarrow> 'r list"
    and upd :: "('r list \<Rightarrow> 'r list) \<Rightarrow> 'd \<Rightarrow> 'd"
    and key :: "'r \<Rightarrow> int"
  assumes get_upd: "get (upd f d) = f (get d)"
begin

text \<open>Rows are found by key, and keys are unique.\<close>

abbreviation by_key :: "int \<Rightarrow> 'd \<Rightarrow> 'r option" where
  "by_key k d \<equiv> first_where (\<lambda>r. key r = k) (get d)"

abbreviation keys_unique :: "'d \<Rightarrow> bool" where
  "keys_unique d \<equiv> distinct (map key (get d))"

lemma by_key_Some: "by_key k d = Some r \<Longrightarrow> r \<in> set (get d) \<and> key r = k"
  by (rule first_where_Some)

lemma by_key_None: "by_key k d = None \<longleftrightarrow> (\<forall>r \<in> set (get d). key r \<noteq> k)"
  by (rule first_where_None)

lemma by_key_unique:
  assumes u: "keys_unique d" and r: "r \<in> set (get d)"
  shows "by_key (key r) d = Some r"
proof (cases "by_key (key r) d")
  case None
  with r show ?thesis by (simp only: by_key_None) blast
next
  case (Some r')
  then have "r' \<in> set (get d)" and "key r' = key r" using by_key_Some by blast+
  with u r have "r' = r"
    unfolding distinct_map by (metis inj_onD)
  with Some show ?thesis by (simp only:)
qed

lemma by_key_insert:
  "by_key k (upd (insert_row r) d) =
     (case by_key k d of None \<Rightarrow> if key r = k then Some r else None | Some r' \<Rightarrow> Some r')"
proof -
  have "find p (t @ [r]) = (case find p t of None \<Rightarrow> if p r then Some r else None | Some r' \<Rightarrow> Some r')"
    for p :: "'r \<Rightarrow> bool" and t
    by (induction t) auto
  then show ?thesis
    by (simp add: get_upd first_where_def insert_row_def)
qed

lemma by_key_update:
  "(\<And>r. key (f r) = key r) \<Longrightarrow>
   by_key k (upd (update_where (\<lambda>r. key r = j) f) d) =
     map_option (\<lambda>r. if k = j then f r else r) (by_key k d)"
proof -
  assume kf: "\<And>r. key (f r) = key r"
  have "find (\<lambda>r. key r = k) (map (\<lambda>r. if key r = j then f r else r) t) =
      map_option (\<lambda>r. if k = j then f r else r) (find (\<lambda>r. key r = k) t)" for t
    by (induction t) (auto simp: kf)
  then show ?thesis
    by (simp add: get_upd first_where_def update_where_def)
qed

lemma by_key_delete:
  "by_key k (upd (delete_where (\<lambda>r. key r = j)) d) = (if k = j then None else by_key k d)"
proof -
  have "find (\<lambda>r. key r = k) (filter (\<lambda>r. key r \<noteq> j) t) =
      (if k = j then None else find (\<lambda>r. key r = k) t)" for t
    by (induction t) auto
  then show ?thesis
    by (simp add: get_upd first_where_def delete_where_def)
qed

lemma keys_unique_insert:
  "keys_unique d \<Longrightarrow> by_key (key r) d = None \<Longrightarrow> keys_unique (upd (insert_row r) d)"
  by (auto simp: get_upd insert_row_def by_key_None)

lemma keys_unique_update:
  "(\<And>r. key (f r) = key r) \<Longrightarrow> keys_unique d \<Longrightarrow> keys_unique (upd (update_where p f) d)"
  by (simp add: get_upd update_where_def comp_def if_distrib cong: if_cong)

lemma keys_unique_delete: "keys_unique d \<Longrightarrow> keys_unique (upd (delete_where p) d)"
  by (simp add: get_upd delete_where_def distinct_map_filter)

end

section \<open>Loops and preorders\<close>

text \<open>A reflexive and transitive relation holds along a loop when it holds along each turn.\<close>

locale step_preorder =
  fixes R :: "'s \<Rightarrow> 's \<Rightarrow> bool"
  assumes R_refl: "R s s" and R_trans: "R s t \<Longrightarrow> R t u \<Longrightarrow> R s u"
begin

lemma R_fold: "(\<And>x t. x \<in> set xs \<Longrightarrow> R t (step x t)) \<Longrightarrow> R s (fold step xs s)"
  by (induction xs arbitrary: s) (auto intro: R_refl R_trans)

lemma R_step: "R t u \<Longrightarrow> R s t \<Longrightarrow> R s u"
  by (rule R_trans)

end

end
