(* ===== verification/Panel_Data.thy ===== *)
theory Panel_Data
  imports Tables
begin

text \<open>
  The panel's data model (go-backend/model) and its database: one record per table with the
  columns of the Go struct, and the record \<open>db\<close> of all tables. \<open>seq\<close> holds the
  next auto-increment key of each table. Integers of the schema are \<open>int\<close> (the
  arithmetic the Go code does on them is wrapped where it is done), \<open>*int64\<close> columns
  are \<open>int option\<close>, \<open>float64\<close> is \<open>rat\<close>. Columns that no operation on these
  tables reads or writes are left out; of Xray only what accounts, permissions and accounting
  touch is here, and \<open>Xray_Data\<close> has the full rows of inbounds, clients and certificates.
\<close>

record Forward =
  f_ID :: int
  f_UserId :: int
  f_UserName :: string
  f_Name :: string
  f_TunnelId :: int
  f_RouteId :: int
  f_InPort :: int
  f_OutPort :: int
  f_RemoteAddr :: string
  f_Strategy :: string
  f_ListenIp :: string
  f_InterfaceName :: string
  f_InFlow :: int
  f_OutFlow :: int
  f_CreatedTime :: int
  f_UpdatedTime :: int
  f_Status :: int
  f_Inx :: int

record ForwardRoutePort =
  p_ID :: int
  p_ForwardId :: int
  p_RouteId :: int
  p_HopOrder :: int
  p_NodeId :: int
  p_RelayPort :: int
  p_CreatedTime :: int
  p_UpdatedTime :: int

record Node =
  n_ID :: int
  n_Name :: string
  n_Secret :: string
  n_Ip :: string
  n_EntryIps :: string
  n_ServerIp :: string
  n_PortSta :: int
  n_PortEnd :: int
  n_GroupName :: string
  n_CreatedTime :: int
  n_UpdatedTime :: int
  n_Status :: int
  n_Inx :: int
  n_Version :: string
  n_XrayStatus :: int

record Tunnel =
  t_ID :: int
  t_Name :: string
  t_TrafficRatio :: rat
  t_InNodeId :: int
  t_InIp :: string
  t_OutNodeId :: int
  t_OutIp :: string
  t_Type :: int
  t_Protocol :: string
  t_Flow :: int
  t_TcpListenAddr :: string
  t_UdpListenAddr :: string
  t_InterfaceName :: string
  t_CreatedTime :: int
  t_UpdatedTime :: int
  t_Status :: int
  t_Inx :: int

record User =
  u_ID :: int
  u_User :: string
  u_RoleId :: int
  u_ExpTime :: int
  u_Flow :: int
  u_InFlow :: int
  u_OutFlow :: int
  u_XrayFlow :: int
  u_XrayInFlow :: int
  u_XrayOutFlow :: int
  u_FlowResetType :: int
  u_FlowResetDay :: int
  u_Num :: int
  u_GostEnabled :: int
  u_XrayEnabled :: int
  u_Status :: int
  u_Pwd :: string
  u_CreatedTime :: int
  u_UpdatedTime :: int

record UserTunnel =
  ut_ID :: int
  ut_UserId :: int
  ut_TunnelId :: int
  ut_SpeedId :: "int option"
  ut_Num :: int
  ut_Flow :: int
  ut_InFlow :: int
  ut_OutFlow :: int
  ut_FlowResetType :: int
  ut_FlowResetDay :: int
  ut_ExpTime :: int
  ut_Status :: int

record UserNode =
  un_ID :: int
  un_UserId :: int
  un_NodeId :: int
  un_XrayEnabled :: int
  un_GostEnabled :: int

record SpeedLimit =
  sl_ID :: int
  sl_Name :: string
  sl_Speed :: int
  sl_TunnelId :: int
  sl_TunnelName :: string
  sl_CreatedTime :: int
  sl_UpdatedTime :: int
  sl_Status :: int

record Route =
  r_ID :: int
  r_Name :: string
  r_Protocol :: string
  r_TcpListenAddr :: string
  r_UdpListenAddr :: string
  r_InterfaceName :: string
  r_CreatedTime :: int
  r_UpdatedTime :: int
  r_Status :: int
  r_Inx :: int

record RouteHop =
  h_ID :: int
  h_RouteId :: int
  h_HopOrder :: int
  h_NodeId :: int
  h_NodeIp :: string
  h_CreatedTime :: int
  h_UpdatedTime :: int

record XrayInbound =
  xi_ID :: int
  xi_NodeId :: int
  xi_Tag :: string
  xi_Enable :: int

record XrayClient =
  xc_ID :: int
  xc_InboundId :: int
  xc_UserId :: int
  xc_Email :: string
  xc_TotalTraffic :: int
  xc_UpTraffic :: int
  xc_DownTraffic :: int
  xc_Enable :: int

record StatisticsFlow =
  sf_ID :: int
  sf_UserId :: int
  sf_Flow :: int
  sf_TotalFlow :: int
  sf_Time :: string
  sf_CreatedTime :: int

record StatisticsForwardFlow =
  ff_ForwardId :: int
  ff_InFlow :: int
  ff_OutFlow :: int
  ff_RecordTime :: int

record StatisticsXrayFlow =
  xf_InboundId :: int
  xf_UpFlow :: int
  xf_DownFlow :: int
  xf_RecordTime :: int

record StatisticsUserFlow =
  uf_UserId :: int
  uf_GostFlow :: int
  uf_XrayFlow :: int
  uf_RecordTime :: int

record MonitorLatency =
  ml_ForwardId :: int
  ml_NodeId :: int
  ml_RecordTime :: int

record ViteConfig =
  vc_Name :: string
  vc_Value :: string

text \<open>The tables, and for each its next key. The keys of the snapshot tables are not used.\<close>

datatype table_name = T_forward | T_forward_route_port | T_node | T_tunnel | T_user
  | T_user_tunnel | T_user_node | T_speed_limit | T_route | T_route_hop | T_statistics_flow

record db =
  forwards :: "Forward list"
  route_ports :: "ForwardRoutePort list"
  nodes :: "Node list"
  tunnels :: "Tunnel list"
  users :: "User list"
  user_tunnels :: "UserTunnel list"
  user_nodes :: "UserNode list"
  speed_limits :: "SpeedLimit list"
  routes :: "Route list"
  route_hops :: "RouteHop list"
  xray_inbounds :: "XrayInbound list"
  xray_clients :: "XrayClient list"
  statistics_flows :: "StatisticsFlow list"
  forward_flows :: "StatisticsForwardFlow list"
  xray_flows :: "StatisticsXrayFlow list"
  user_flows :: "StatisticsUserFlow list"
  monitor_latencies :: "MonitorLatency list"
  vite_configs :: "ViteConfig list"
  seq :: "table_name \<Rightarrow> int"

definition empty_db :: db where
  "empty_db = \<lparr>forwards = [], route_ports = [], nodes = [], tunnels = [], users = [],
     user_tunnels = [], user_nodes = [], speed_limits = [], routes = [], route_hops = [],
     xray_inbounds = [], xray_clients = [], statistics_flows = [], forward_flows = [],
     xray_flows = [], user_flows = [], monitor_latencies = [], vite_configs = [], seq = (\<lambda>_. 1)\<rparr>"

definition next_key :: "table_name \<Rightarrow> db \<Rightarrow> int" where
  "next_key t d = seq d t"

definition bump_key :: "table_name \<Rightarrow> db \<Rightarrow> db" where
  "bump_key t d = d\<lparr>seq := (seq d)(t := seq d t + 1)\<rparr>"

section \<open>The tables as keyed tables\<close>

interpretation forward_tbl: keyed_table forwards forwards_update f_ID
  by unfold_locales simp

interpretation route_port_tbl: keyed_table route_ports route_ports_update p_ID
  by unfold_locales simp

interpretation node_tbl: keyed_table nodes nodes_update n_ID
  by unfold_locales simp

interpretation tunnel_tbl: keyed_table tunnels tunnels_update t_ID
  by unfold_locales simp

interpretation user_tbl: keyed_table users users_update u_ID
  by unfold_locales simp

interpretation user_tunnel_tbl: keyed_table user_tunnels user_tunnels_update ut_ID
  by unfold_locales simp

interpretation user_node_tbl: keyed_table user_nodes user_nodes_update un_ID
  by unfold_locales simp

interpretation speed_limit_tbl: keyed_table speed_limits speed_limits_update sl_ID
  by unfold_locales simp

interpretation route_tbl: keyed_table routes routes_update r_ID
  by unfold_locales simp

interpretation route_hop_tbl: keyed_table route_hops route_hops_update h_ID
  by unfold_locales simp

interpretation xray_client_tbl: keyed_table xray_clients xray_clients_update xc_ID
  by unfold_locales simp

interpretation statistics_flow_tbl: keyed_table statistics_flows statistics_flows_update sf_ID
  by unfold_locales simp

section \<open>Look-ups by primary key\<close>

text \<open>\<open>DB.First(&row, id)\<close>.\<close>

definition firstForward :: "db \<Rightarrow> int \<Rightarrow> Forward option" where
  "firstForward d k = first_where (\<lambda>f. f_ID f = k) (forwards d)"

definition firstTunnel :: "db \<Rightarrow> int \<Rightarrow> Tunnel option" where
  "firstTunnel d k = first_where (\<lambda>t. t_ID t = k) (tunnels d)"

definition firstUser :: "db \<Rightarrow> int \<Rightarrow> User option" where
  "firstUser d k = first_where (\<lambda>u. u_ID u = k) (users d)"

definition firstUserTunnel :: "db \<Rightarrow> int \<Rightarrow> UserTunnel option" where
  "firstUserTunnel d k = first_where (\<lambda>ut. ut_ID ut = k) (user_tunnels d)"

definition firstRoute :: "db \<Rightarrow> int \<Rightarrow> Route option" where
  "firstRoute d k = first_where (\<lambda>r. r_ID r = k) (routes d)"

definition firstSpeedLimit :: "db \<Rightarrow> int \<Rightarrow> SpeedLimit option" where
  "firstSpeedLimit d k = first_where (\<lambda>s. sl_ID s = k) (speed_limits d)"

text \<open>\<open>GetNodeById\<close> of service/node.go: \<open>nil\<close> when there is no such node.\<close>

definition GetNodeById :: "db \<Rightarrow> int \<Rightarrow> Node option" where
  "GetNodeById d k = first_where (\<lambda>n. n_ID n = k) (nodes d)"

text \<open>\<open>getUserTunnel\<close> of service/forward.go.\<close>

definition getUserTunnel :: "db \<Rightarrow> int \<Rightarrow> int \<Rightarrow> UserTunnel option" where
  "getUserTunnel d userId tunnelId =
     first_where (\<lambda>ut. ut_UserId ut = userId \<and> ut_TunnelId ut = tunnelId) (user_tunnels d)"

section \<open>Inserts\<close>

text \<open>\<open>DB.Create(&row)\<close>: the row gets the next key of its table.\<close>

definition insertForward :: "Forward \<Rightarrow> db \<Rightarrow> db" where
  "insertForward f d =
     bump_key T_forward (forwards_update (insert_row (f\<lparr>f_ID := next_key T_forward d\<rparr>)) d)"

definition insertRoutePort :: "ForwardRoutePort \<Rightarrow> db \<Rightarrow> db" where
  "insertRoutePort p d = bump_key T_forward_route_port
     (route_ports_update (insert_row (p\<lparr>p_ID := next_key T_forward_route_port d\<rparr>)) d)"

definition insertRoute :: "Route \<Rightarrow> db \<Rightarrow> db" where
  "insertRoute r d =
     bump_key T_route (routes_update (insert_row (r\<lparr>r_ID := next_key T_route d\<rparr>)) d)"

definition insertRouteHop :: "RouteHop \<Rightarrow> db \<Rightarrow> db" where
  "insertRouteHop h d =
     bump_key T_route_hop (route_hops_update (insert_row (h\<lparr>h_ID := next_key T_route_hop d\<rparr>)) d)"

definition insertTunnel :: "Tunnel \<Rightarrow> db \<Rightarrow> db" where
  "insertTunnel t d =
     bump_key T_tunnel (tunnels_update (insert_row (t\<lparr>t_ID := next_key T_tunnel d\<rparr>)) d)"

definition insertNode :: "Node \<Rightarrow> db \<Rightarrow> db" where
  "insertNode n d =
     bump_key T_node (nodes_update (insert_row (n\<lparr>n_ID := next_key T_node d\<rparr>)) d)"

definition insertUserTunnel :: "UserTunnel \<Rightarrow> db \<Rightarrow> db" where
  "insertUserTunnel ut d = bump_key T_user_tunnel
     (user_tunnels_update (insert_row (ut\<lparr>ut_ID := next_key T_user_tunnel d\<rparr>)) d)"

definition insertSpeedLimit :: "SpeedLimit \<Rightarrow> db \<Rightarrow> db" where
  "insertSpeedLimit s d = bump_key T_speed_limit
     (speed_limits_update (insert_row (s\<lparr>sl_ID := next_key T_speed_limit d\<rparr>)) d)"

definition insertUser :: "User \<Rightarrow> db \<Rightarrow> db" where
  "insertUser u d = bump_key T_user (users_update (insert_row (u\<lparr>u_ID := next_key T_user d\<rparr>)) d)"

text \<open>The table \<open>user_node\<close> has a unique index on user and node: a second row for a pair is
  refused.\<close>

definition insertUserNode :: "UserNode \<Rightarrow> db \<Rightarrow> db" where
  "insertUserNode un d =
     (if list_ex (\<lambda>x. un_UserId x = un_UserId un \<and> un_NodeId x = un_NodeId un) (user_nodes d) then d
      else bump_key T_user_node
        (user_nodes_update (insert_row (un\<lparr>un_ID := next_key T_user_node d\<rparr>)) d))"

definition insertStatisticsFlow :: "StatisticsFlow \<Rightarrow> db \<Rightarrow> db" where
  "insertStatisticsFlow s d = bump_key T_statistics_flow
     (statistics_flows_update (insert_row (s\<lparr>sf_ID := next_key T_statistics_flow d\<rparr>)) d)"

section \<open>Rows found\<close>

lemma firstForward_Some: "firstForward d k = Some f \<Longrightarrow> f \<in> set (forwards d) \<and> f_ID f = k"
  unfolding firstForward_def by (rule forward_tbl.by_key_Some)

lemma firstTunnel_Some: "firstTunnel d k = Some t \<Longrightarrow> t \<in> set (tunnels d) \<and> t_ID t = k"
  unfolding firstTunnel_def by (rule tunnel_tbl.by_key_Some)

lemma firstUser_Some: "firstUser d k = Some u \<Longrightarrow> u \<in> set (users d) \<and> u_ID u = k"
  unfolding firstUser_def by (rule user_tbl.by_key_Some)

lemma firstUserTunnel_Some:
  "firstUserTunnel d k = Some ut \<Longrightarrow> ut \<in> set (user_tunnels d) \<and> ut_ID ut = k"
  unfolding firstUserTunnel_def by (rule user_tunnel_tbl.by_key_Some)

lemma firstRoute_Some: "firstRoute d k = Some r \<Longrightarrow> r \<in> set (routes d) \<and> r_ID r = k"
  unfolding firstRoute_def by (rule route_tbl.by_key_Some)

lemma GetNodeById_Some: "GetNodeById d k = Some n \<Longrightarrow> n \<in> set (nodes d) \<and> n_ID n = k"
  unfolding GetNodeById_def by (rule node_tbl.by_key_Some)

lemma getUserTunnel_Some:
  "getUserTunnel d u t = Some ut \<Longrightarrow>
     ut \<in> set (user_tunnels d) \<and> ut_UserId ut = u \<and> ut_TunnelId ut = t"
  unfolding getUserTunnel_def by (rule first_where_Some)

end
