(* ===== verification/Gost_Config.thy ===== *)
theory Gost_Config
  imports Go_Text Panel_Data
begin

text \<open>
  The configuration builders of go-backend/pkg/gost.go: the JSON objects the panel sends to
  a node, as records. An absent JSON key is \<open>None\<close>; the metadata objects, which the code
  only ever builds with fixed contents, are the flags \<open>hd_sniffing\<close>,
  \<open>ls_keepAlive\<close> and \<open>c_quicMeta\<close>.
\<close>

record ForwarderNode =
  fn_name :: string
  fn_addr :: string

record ForwarderConfig =
  fw_nodes :: "ForwarderNode list"
  fw_strategy :: string
  fw_maxFails :: int
  fw_failTimeout :: string

record HandlerConfig =
  hd_type :: string
  hd_chain :: "string option"
  hd_sniffing :: bool

record ListenerConfig =
  ls_type :: string
  ls_keepAlive :: bool

record ServiceConfig =
  s_name :: string
  s_addr :: string
  s_interface :: "string option"
  s_limiter :: "string option"
  s_handler :: HandlerConfig
  s_listener :: ListenerConfig
  s_forwarder :: "ForwarderConfig option"

record ChainConfig =
  c_name :: string
  c_hopName :: string
  c_nodeName :: string
  c_addr :: string
  c_connector :: string
  c_dialer :: string
  c_quicMeta :: bool
  c_interface :: "string option"

record LimiterConfig =
  lm_name :: string
  lm_limits :: "string list"

section \<open>Addresses and names\<close>

text \<open>\<open>formatListenAddr\<close>; \<open>formatRemoteAddr\<close> of service/forward.go has the same body.\<close>

definition formatListenAddr :: "string \<Rightarrow> int \<Rightarrow> string" where
  "formatListenAddr ip port =
     (if contains_str ip '':'' then ''['' @ ip @ '']:'' @ itoa port
      else ip @ '':'' @ itoa port)"

definition formatRemoteAddr :: "string \<Rightarrow> int \<Rightarrow> string" where
  "formatRemoteAddr ip port =
     (if contains_str ip '':'' then ''['' @ ip @ '']:'' @ itoa port
      else ip @ '':'' @ itoa port)"

definition splitListenIPs :: "string \<Rightarrow> string list" where
  "splitListenIPs listenAddr =
     (if \<not> contains_str listenAddr '','' then [listenAddr]
      else (let result = filter (\<lambda>p. p \<noteq> []) (map trim_space (split_on (CHR '','') listenAddr))
            in if result = [] then [listenAddr] else result))"

text \<open>\<open>fmt.Sprintf("%s_%d", name, i)\<close>.\<close>

definition suffixed :: "string \<Rightarrow> nat \<Rightarrow> string" where
  "suffixed name i = name @ ''_'' @ itoa (int i)"

definition buildMultiIPServiceNames :: "string \<Rightarrow> string \<Rightarrow> string list" where
  "buildMultiIPServiceNames name listenIp =
     (let ips = splitListenIPs listenIp
      in if length ips \<le> 1 then [name @ ''_tcp'', name @ ''_udp'']
         else concat (map (\<lambda>i. [suffixed name i @ ''_tcp'', suffixed name i @ ''_udp''])
                        [0..<length ips]))"

section \<open>Builders\<close>

definition createLimiterData :: "int \<Rightarrow> string \<Rightarrow> LimiterConfig" where
  "createLimiterData name speed =
     \<lparr>lm_name = itoa name, lm_limits = [''$ '' @ speed @ ''MB '' @ speed @ ''MB'']\<rparr>"

definition buildForwarder :: "string \<Rightarrow> string \<Rightarrow> ForwarderConfig" where
  "buildForwarder remoteAddr strategy =
     (let addrs = split_on (CHR '','') remoteAddr
      in \<lparr>fw_nodes = map (\<lambda>(i, addr). \<lparr>fn_name = ''node_'' @ itoa (int i + 1),
                                       fn_addr = trim_space addr\<rparr>)
                        (zip [0..<length addrs] addrs),
          fw_strategy = (if strategy = [] then ''fifo'' else strategy),
          fw_maxFails = 1, fw_failTimeout = ''600s''\<rparr>)"

definition applyHandlerSniffing :: "HandlerConfig \<Rightarrow> string \<Rightarrow> bool \<Rightarrow> HandlerConfig" where
  "applyHandlerSniffing handler protocol sniff =
     (if \<not> sniff \<or> protocol \<noteq> ''tcp'' then handler else handler\<lparr>hd_sniffing := True\<rparr>)"

definition ifname :: "string \<Rightarrow> string option" where
  "ifname interfaceName = (if interfaceName \<noteq> [] then Some interfaceName else None)"

definition buildServiceConfig ::
  "string \<Rightarrow> int \<Rightarrow> int option \<Rightarrow> string \<Rightarrow> string \<Rightarrow> int \<Rightarrow> Tunnel \<Rightarrow> string \<Rightarrow> string \<Rightarrow> bool
     \<Rightarrow> ServiceConfig" where
  "buildServiceConfig name inPort limiter remoteAddr protocol fwdType tunnel strategy
     interfaceName sniff =
     \<lparr>s_name = name @ ''_'' @ protocol,
      s_addr = (if protocol = ''tcp'' then formatListenAddr (t_TcpListenAddr tunnel) inPort
                else formatListenAddr (t_UdpListenAddr tunnel) inPort),
      s_interface = ifname interfaceName,
      s_limiter = map_option itoa limiter,
      s_handler = applyHandlerSniffing
        \<lparr>hd_type = protocol,
         hd_chain = (if fwdType \<noteq> 1 then Some (name @ ''_chains'') else None),
         hd_sniffing = False\<rparr> protocol sniff,
      s_listener = \<lparr>ls_type = protocol, ls_keepAlive = (protocol = ''udp'')\<rparr>,
      s_forwarder = (if fwdType = 1 then Some (buildForwarder remoteAddr strategy) else None)\<rparr>"

text \<open>The chain of a multi-IP service: the name without its numeric suffix.\<close>

definition baseChainName :: "string \<Rightarrow> string" where
  "baseChainName name =
     (case last_index (CHR ''_'') name of
        None \<Rightarrow> name
      | Some idx \<Rightarrow>
          if 0 < idx \<and> list_all is_digit (drop (Suc idx) name) then take idx name else name)"

definition buildServiceConfigWithIP ::
  "string \<Rightarrow> int \<Rightarrow> int option \<Rightarrow> string \<Rightarrow> string \<Rightarrow> int \<Rightarrow> Tunnel \<Rightarrow> string \<Rightarrow> string \<Rightarrow> string
     \<Rightarrow> bool \<Rightarrow> ServiceConfig" where
  "buildServiceConfigWithIP name inPort limiter remoteAddr protocol fwdType tunnel strategy
     interfaceName listenIp sniff =
     \<lparr>s_name = name @ ''_'' @ protocol,
      s_addr = formatListenAddr listenIp inPort,
      s_interface = ifname interfaceName,
      s_limiter = map_option itoa limiter,
      s_handler = applyHandlerSniffing
        \<lparr>hd_type = protocol,
         hd_chain = (if fwdType \<noteq> 1 then Some (baseChainName name @ ''_chains'') else None),
         hd_sniffing = False\<rparr> protocol sniff,
      s_listener = \<lparr>ls_type = protocol, ls_keepAlive = (protocol = ''udp'')\<rparr>,
      s_forwarder = (if fwdType = 1 then Some (buildForwarder remoteAddr strategy) else None)\<rparr>"

definition buildServices ::
  "string \<Rightarrow> int \<Rightarrow> int option \<Rightarrow> string \<Rightarrow> int \<Rightarrow> Tunnel \<Rightarrow> string \<Rightarrow> string \<Rightarrow> bool
     \<Rightarrow> ServiceConfig list" where
  "buildServices name inPort limiter remoteAddr fwdType tunnel strategy interfaceName sniff =
     (let listenIps = splitListenIPs (t_TcpListenAddr tunnel)
      in if length listenIps \<le> 1
         then map (\<lambda>proto. buildServiceConfig name inPort limiter remoteAddr proto fwdType tunnel
                             strategy interfaceName sniff) [''tcp'', ''udp'']
         else concat (map (\<lambda>(i, ip).
                map (\<lambda>proto. buildServiceConfigWithIP (suffixed name i) inPort limiter remoteAddr
                       proto fwdType tunnel strategy interfaceName (trim_space ip) sniff)
                  [''tcp'', ''udp''])
              (zip [0..<length listenIps] listenIps)))"

definition buildRemoteService ::
  "string \<Rightarrow> int \<Rightarrow> string \<Rightarrow> string \<Rightarrow> string \<Rightarrow> string \<Rightarrow> ServiceConfig" where
  "buildRemoteService name outPort remoteAddr protocol strategy interfaceName =
     \<lparr>s_name = name @ ''_tls'',
      s_addr = '':'' @ itoa outPort,
      s_interface = ifname interfaceName,
      s_limiter = None,
      s_handler = \<lparr>hd_type = ''relay'', hd_chain = None, hd_sniffing = False\<rparr>,
      s_listener = \<lparr>ls_type = protocol, ls_keepAlive = False\<rparr>,
      s_forwarder = Some (buildForwarder remoteAddr strategy)\<rparr>"

definition buildExactChainData ::
  "string \<Rightarrow> string \<Rightarrow> string \<Rightarrow> string \<Rightarrow> ChainConfig" where
  "buildExactChainData chainName remoteAddr protocol interfaceName =
     \<lparr>c_name = chainName,
      c_hopName = ''hop-'' @ chainName,
      c_nodeName = ''node-'' @ chainName,
      c_addr = remoteAddr,
      c_connector = ''relay'',
      c_dialer = protocol,
      c_quicMeta = (protocol = ''quic''),
      c_interface = ifname interfaceName\<rparr>"

definition buildChainData :: "string \<Rightarrow> string \<Rightarrow> string \<Rightarrow> string \<Rightarrow> ChainConfig" where
  "buildChainData name remoteAddr protocol interfaceName =
     \<lparr>c_name = name @ ''_chains'',
      c_hopName = ''hop-'' @ name,
      c_nodeName = ''node-'' @ name,
      c_addr = remoteAddr,
      c_connector = ''relay'',
      c_dialer = protocol,
      c_quicMeta = (protocol = ''quic''),
      c_interface = ifname interfaceName\<rparr>"

definition buildRouteEntryServices ::
  "string \<Rightarrow> int \<Rightarrow> int option \<Rightarrow> string \<Rightarrow> string \<Rightarrow> string \<Rightarrow> string \<Rightarrow> ServiceConfig list" where
  "buildRouteEntryServices name inPort limiter listenAddr chainName routeProtocol interfaceName =
     map (\<lambda>proto.
       \<lparr>s_name = name @ ''_'' @ proto,
        s_addr = formatListenAddr listenAddr inPort,
        s_interface = ifname interfaceName,
        s_limiter = map_option itoa limiter,
        s_handler = \<lparr>hd_type = proto, hd_chain = Some chainName, hd_sniffing = False\<rparr>,
        s_listener = \<lparr>ls_type = proto, ls_keepAlive = (proto = ''udp'')\<rparr>,
        s_forwarder = None\<rparr>) [''tcp'', ''udp'']"

definition buildRouteRelayService ::
  "string \<Rightarrow> int \<Rightarrow> string \<Rightarrow> string \<Rightarrow> string \<Rightarrow> string \<Rightarrow> string \<Rightarrow> ServiceConfig" where
  "buildRouteRelayService name relayPort chainName routeProtocol interfaceName remoteAddr
     strategy =
     \<lparr>s_name = name,
      s_addr = '':'' @ itoa relayPort,
      s_interface = ifname interfaceName,
      s_limiter = None,
      s_handler = \<lparr>hd_type = ''relay'', hd_chain = (if chainName \<noteq> [] then Some chainName else None),
                   hd_sniffing = False\<rparr>,
      s_listener = \<lparr>ls_type = routeProtocol, ls_keepAlive = False\<rparr>,
      s_forwarder = (if remoteAddr \<noteq> [] then Some (buildForwarder remoteAddr strategy) else None)\<rparr>"

section \<open>Service names\<close>

text \<open>\<open>buildServiceName\<close>, \<open>routeChainName\<close> and \<open>routeRelayServiceName\<close> of
  service/forward.go.\<close>

definition buildServiceName :: "int \<Rightarrow> int \<Rightarrow> UserTunnel option \<Rightarrow> string" where
  "buildServiceName forwardId userId userTunnel =
     itoa forwardId @ ''_'' @ itoa userId @ ''_'' @
     itoa (case userTunnel of None \<Rightarrow> 0 | Some ut \<Rightarrow> ut_ID ut)"

definition routeChainName :: "string \<Rightarrow> int \<Rightarrow> string" where
  "routeChainName serviceName segmentOrder =
     serviceName @ ''_route_'' @ itoa segmentOrder @ ''_chains''"

definition routeRelayServiceName :: "string \<Rightarrow> int \<Rightarrow> string" where
  "routeRelayServiceName serviceName hopOrder =
     serviceName @ ''_route_'' @ itoa hopOrder @ ''_tls''"

lemma splitListenIPs_single: "\<not> contains_str a '','' \<Longrightarrow> splitListenIPs a = [a]"
  by (simp add: splitListenIPs_def)

lemma buildServices_names:
  "map s_name (buildServices name inPort limiter remoteAddr fwdType tunnel strategy ifn sniff) =
     buildMultiIPServiceNames name (t_TcpListenAddr tunnel)"
proof (cases "length (splitListenIPs (t_TcpListenAddr tunnel)) \<le> 1")
  case True
  then show ?thesis
    by (simp add: buildServices_def buildMultiIPServiceNames_def buildServiceConfig_def)
next
  case False
  let ?ips = "splitListenIPs (t_TcpListenAddr tunnel)"
  have "map s_name (concat (map (\<lambda>(i, ip).
          map (\<lambda>proto. buildServiceConfigWithIP (suffixed name i) inPort limiter remoteAddr
                 proto fwdType tunnel strategy ifn (trim_space ip) sniff)
            [''tcp'', ''udp'']) (zip is xs))) =
      concat (map (\<lambda>i. [suffixed name i @ ''_tcp'', suffixed name i @ ''_udp'']) is)"
    if "length is = length xs" for "is" and xs :: "string list"
    using that by (induction "is" xs rule: list_induct2) (auto simp: buildServiceConfigWithIP_def)
  from this [of "[0..<length ?ips]" ?ips] False show ?thesis
    by (simp add: buildServices_def buildMultiIPServiceNames_def Let_def)
qed

lemma suffixed_digits: "list_all is_digit (itoa (int i))"
  by (auto simp: list_all_iff itoa_def dest: dec_digits)

lemma baseChainName_suffixed: "name \<noteq> [] \<Longrightarrow> baseChainName (suffixed name i) = name"
proof -
  assume "name \<noteq> []"
  have "last_index (CHR ''_'') (suffixed name i) = Some (length name)"
    using itoa_no_sep(1) [of "int i"] by (simp add: suffixed_def last_index_append)
  moreover have "drop (Suc (length name)) (suffixed name i) = itoa (int i)"
    and "take (length name) (suffixed name i) = name"
    by (simp_all add: suffixed_def)
  ultimately show ?thesis
    using \<open>name \<noteq> []\<close> suffixed_digits by (simp add: baseChainName_def)
qed

text \<open>The chain every service of a tunnel forward goes through is the chain the panel creates
  for it.\<close>

lemma buildServices_chain:
  assumes "name \<noteq> []" and "fwdType \<noteq> 1"
    and "s \<in> set (buildServices name inPort limiter remoteAddr fwdType tunnel strategy ifn sniff)"
  shows "hd_chain (s_handler s) = Some (c_name (buildChainData name addr protocol ifn'))"
  using assms
  by (auto simp: buildServices_def Let_def buildServiceConfig_def buildServiceConfigWithIP_def
      applyHandlerSniffing_def buildChainData_def baseChainName_suffixed split: if_splits)

lemma buildServiceName_inj:
  "buildServiceName f u ut = buildServiceName f' u' ut' \<Longrightarrow>
     f = f' \<and> u = u' \<and> (case ut of None \<Rightarrow> 0 | Some x \<Rightarrow> ut_ID x) =
       (case ut' of None \<Rightarrow> 0 | Some x \<Rightarrow> ut_ID x)"
proof -
  have parts: "split_on (CHR ''_'') (itoa a @ ''_'' @ itoa b @ ''_'' @ itoa c) =
      [itoa a, itoa b, itoa c]" for a b c
    using itoa_no_sep(1) by (simp add: split_on_sep split_on_no_sep)
  assume "buildServiceName f u ut = buildServiceName f' u' ut'"
  then have "split_on (CHR ''_'') (buildServiceName f u ut) =
      split_on (CHR ''_'') (buildServiceName f' u' ut')" by simp
  then show ?thesis unfolding buildServiceName_def parts by simp
qed

lemma buildServiceName_nonempty [simp]: "buildServiceName f u ut \<noteq> []"
  by (simp add: buildServiceName_def)

end
