(* ===== verification/Panel_World.thy ===== *)
theory Panel_World
  imports Gost_Config
begin

text \<open>
  The panel's world and its command channel. A handler runs in an environment \<open>'n env\<close>
  and maps a world to a result and a world.

  \<^item> \<open>wdb\<close> is the database; \<open>wops\<close> counts the write statements issued so far, so
    that \<open>db_ok\<close> can let any one of them fail (a failed statement changes nothing).
  \<^item> \<open>wnet\<close> is the state of the nodes, of any type \<open>'n\<close>: what a node does with a
    command is the parameter \<open>transport\<close>, which answers a message or lets the request
    time out. \<open>Node_Socket\<close> instantiates it with the node program of go-node.
  \<^item> \<open>wsent\<close> is the list of commands sent, oldest first.

  \<open>bcryptHash\<close>, \<open>bcryptMatches\<close> and \<open>captchaVerify\<close> stand for the packages bcrypt and captcha,
  \<open>md5_hex\<close> for crypto/md5 with the digest in hexadecimal.

  One handler call reads the clock as one instant, \<open>now\<close>.
\<close>

text \<open>The commands of go-backend/pkg/gost.go and pkg/xray.go the services send.\<close>

datatype msg =
    AddService_msg "ServiceConfig list"
  | UpdateService_msg "ServiceConfig list"
  | UpdateForwarder_msg "(string \<times> ForwarderConfig) list"
  | DeleteService_msg "string list"
  | PauseService_msg "string list"
  | ResumeService_msg "string list"
  | AddChains_msg ChainConfig
  | UpdateChains_msg string ChainConfig
  | DeleteChains_msg string
  | AddLimiters_msg LimiterConfig
  | UpdateLimiters_msg string LimiterConfig
  | DeleteLimiters_msg string
  | GetServiceNames_msg
  | TcpPing_msg string int
  | VRemoveClient_msg string string
  | VRemoveInbound_msg string

text \<open>The data of a reply: the service names of \<open>GetServiceNames\<close>, or something the
  panel does not read.\<close>

datatype reply_data = Service_names "string list" | Other_data

record GostResponse =
  g_Msg :: string
  g_Data :: "reply_data option"

record 'n env =
  now :: int
  nodeSessions :: "int \<Rightarrow> bool"
  transport :: "int \<Rightarrow> msg \<Rightarrow> 'n \<Rightarrow> GostResponse option \<times> 'n"
  ShouldSniffNode :: "int \<Rightarrow> bool"
  db_ok :: "nat \<Rightarrow> bool"
  text_eq :: "string \<Rightarrow> string \<Rightarrow> bool"
  LookupIP :: "string \<Rightarrow> string list option"
  bcryptHash :: "string \<Rightarrow> string option"
  bcryptMatches :: "string \<Rightarrow> string \<Rightarrow> bool"
  md5_hex :: "string \<Rightarrow> string"
  captchaVerify :: "string \<Rightarrow> string \<Rightarrow> bool"

record 'n world =
  wdb :: db
  wops :: nat
  wnet :: 'n
  wsent :: "(int \<times> msg) list"

section \<open>Database writes\<close>

definition db_write :: "'n env \<Rightarrow> (db \<Rightarrow> db) \<Rightarrow> 'n world \<Rightarrow> bool \<times> 'n world" where
  "db_write e f w =
     (let w1 = w\<lparr>wops := Suc (wops w)\<rparr>
      in if db_ok e (wops w) then (True, w1\<lparr>wdb := f (wdb w1)\<rparr>) else (False, w1))"

text \<open>A write whose error the code ignores.\<close>

definition db_exec :: "'n env \<Rightarrow> (db \<Rightarrow> db) \<Rightarrow> 'n world \<Rightarrow> 'n world" where
  "db_exec e f w = snd (db_write e f w)"

section \<open>Sending commands\<close>

text \<open>\<open>SendMsg\<close> of pkg/ws.go: a node without a session is offline, a missing answer is a
  timeout, and an empty message in an answer counts as \<open>OK\<close> (\<open>readNodeMessages\<close>).\<close>

definition SendMsg :: "'n env \<Rightarrow> int \<Rightarrow> msg \<Rightarrow> 'n world \<Rightarrow> GostResponse \<times> 'n world" where
  "SendMsg e nodeId m w =
     (if \<not> nodeSessions e nodeId then (\<lparr>g_Msg = ''node offline'', g_Data = None\<rparr>, w)
      else (let (r, net) = transport e nodeId m (wnet w);
                w1 = w\<lparr>wnet := net, wsent := wsent w @ [(nodeId, m)]\<rparr>
            in case r of
                 None \<Rightarrow> (\<lparr>g_Msg = ''timeout'', g_Data = None\<rparr>, w1)
               | Some result \<Rightarrow>
                   (if g_Msg result = [] then result\<lparr>g_Msg := ''OK''\<rparr> else result, w1)))"

definition AddLimiters :: "'n env \<Rightarrow> int \<Rightarrow> int \<Rightarrow> string \<Rightarrow> 'n world \<Rightarrow> GostResponse \<times> 'n world" where
  [msg_defs]: "AddLimiters e nodeId name speed =
     SendMsg e nodeId (AddLimiters_msg (createLimiterData name speed))"

definition UpdateLimiters :: "'n env \<Rightarrow> int \<Rightarrow> int \<Rightarrow> string \<Rightarrow> 'n world \<Rightarrow> GostResponse \<times> 'n world" where
  [msg_defs]: "UpdateLimiters e nodeId name speed =
     SendMsg e nodeId (UpdateLimiters_msg (itoa name) (createLimiterData name speed))"

definition DeleteLimiters :: "'n env \<Rightarrow> int \<Rightarrow> int \<Rightarrow> 'n world \<Rightarrow> GostResponse \<times> 'n world" where
  [msg_defs]: "DeleteLimiters e nodeId name = SendMsg e nodeId (DeleteLimiters_msg (itoa name))"

definition AddService ::
  "'n env \<Rightarrow> int \<Rightarrow> string \<Rightarrow> int \<Rightarrow> int option \<Rightarrow> string \<Rightarrow> int \<Rightarrow> Tunnel \<Rightarrow> string \<Rightarrow> string
     \<Rightarrow> 'n world \<Rightarrow> GostResponse \<times> 'n world" where
  [msg_defs]: "AddService e nodeId name inPort limiter remoteAddr fwdType tunnel strategy ifn =
     SendMsg e nodeId (AddService_msg (buildServices name inPort limiter remoteAddr fwdType tunnel
       strategy ifn (ShouldSniffNode e nodeId)))"

definition UpdateService ::
  "'n env \<Rightarrow> int \<Rightarrow> string \<Rightarrow> int \<Rightarrow> int option \<Rightarrow> string \<Rightarrow> int \<Rightarrow> Tunnel \<Rightarrow> string \<Rightarrow> string
     \<Rightarrow> 'n world \<Rightarrow> GostResponse \<times> 'n world" where
  [msg_defs]: "UpdateService e nodeId name inPort limiter remoteAddr fwdType tunnel strategy ifn =
     SendMsg e nodeId (UpdateService_msg (buildServices name inPort limiter remoteAddr fwdType
       tunnel strategy ifn (ShouldSniffNode e nodeId)))"

definition UpdateForwarder ::
  "'n env \<Rightarrow> int \<Rightarrow> string \<Rightarrow> string \<Rightarrow> string \<Rightarrow> 'n world \<Rightarrow> GostResponse \<times> 'n world" where
  [msg_defs]: "UpdateForwarder e nodeId name remoteAddr strategy =
     (let forwarder = buildForwarder remoteAddr strategy
      in SendMsg e nodeId (UpdateForwarder_msg
           (map (\<lambda>proto. (name @ ''_'' @ proto, forwarder)) [''tcp'', ''udp''])))"

definition UpdateRemoteForwarder ::
  "'n env \<Rightarrow> int \<Rightarrow> string \<Rightarrow> string \<Rightarrow> string \<Rightarrow> 'n world \<Rightarrow> GostResponse \<times> 'n world" where
  [msg_defs]: "UpdateRemoteForwarder e nodeId name remoteAddr strategy =
     SendMsg e nodeId (UpdateForwarder_msg [(name @ ''_tls'', buildForwarder remoteAddr strategy)])"

definition DeleteService :: "'n env \<Rightarrow> int \<Rightarrow> string \<Rightarrow> 'n world \<Rightarrow> GostResponse \<times> 'n world" where
  [msg_defs]: "DeleteService e nodeId name =
     SendMsg e nodeId (DeleteService_msg [name @ ''_tcp'', name @ ''_udp''])"

definition DeleteServiceMultiIP ::
  "'n env \<Rightarrow> int \<Rightarrow> string \<Rightarrow> string \<Rightarrow> 'n world \<Rightarrow> GostResponse \<times> 'n world" where
  [msg_defs]: "DeleteServiceMultiIP e nodeId name listenIp =
     SendMsg e nodeId (DeleteService_msg (buildMultiIPServiceNames name listenIp))"

definition AddRemoteService ::
  "'n env \<Rightarrow> int \<Rightarrow> string \<Rightarrow> int \<Rightarrow> string \<Rightarrow> string \<Rightarrow> string \<Rightarrow> string
     \<Rightarrow> 'n world \<Rightarrow> GostResponse \<times> 'n world" where
  [msg_defs]: "AddRemoteService e nodeId name outPort remoteAddr protocol strategy ifn =
     SendMsg e nodeId (AddService_msg
       [buildRemoteService name outPort remoteAddr protocol strategy ifn])"

definition UpdateRemoteService ::
  "'n env \<Rightarrow> int \<Rightarrow> string \<Rightarrow> int \<Rightarrow> string \<Rightarrow> string \<Rightarrow> string \<Rightarrow> string
     \<Rightarrow> 'n world \<Rightarrow> GostResponse \<times> 'n world" where
  [msg_defs]: "UpdateRemoteService e nodeId name outPort remoteAddr protocol strategy ifn =
     SendMsg e nodeId (UpdateService_msg
       [buildRemoteService name outPort remoteAddr protocol strategy ifn])"

definition DeleteRemoteService ::
  "'n env \<Rightarrow> int \<Rightarrow> string \<Rightarrow> 'n world \<Rightarrow> GostResponse \<times> 'n world" where
  [msg_defs]: "DeleteRemoteService e nodeId name =
     SendMsg e nodeId (DeleteService_msg [name @ ''_tls''])"

definition PauseService :: "'n env \<Rightarrow> int \<Rightarrow> string \<Rightarrow> 'n world \<Rightarrow> GostResponse \<times> 'n world" where
  [msg_defs]: "PauseService e nodeId name =
     SendMsg e nodeId (PauseService_msg [name @ ''_tcp'', name @ ''_udp''])"

definition ResumeService :: "'n env \<Rightarrow> int \<Rightarrow> string \<Rightarrow> 'n world \<Rightarrow> GostResponse \<times> 'n world" where
  [msg_defs]: "ResumeService e nodeId name =
     SendMsg e nodeId (ResumeService_msg [name @ ''_tcp'', name @ ''_udp''])"

definition PauseServiceMultiIP ::
  "'n env \<Rightarrow> int \<Rightarrow> string \<Rightarrow> string \<Rightarrow> 'n world \<Rightarrow> GostResponse \<times> 'n world" where
  [msg_defs]: "PauseServiceMultiIP e nodeId name listenIp =
     SendMsg e nodeId (PauseService_msg (buildMultiIPServiceNames name listenIp))"

definition ResumeServiceMultiIP ::
  "'n env \<Rightarrow> int \<Rightarrow> string \<Rightarrow> string \<Rightarrow> 'n world \<Rightarrow> GostResponse \<times> 'n world" where
  [msg_defs]: "ResumeServiceMultiIP e nodeId name listenIp =
     SendMsg e nodeId (ResumeService_msg (buildMultiIPServiceNames name listenIp))"

definition PauseRemoteService ::
  "'n env \<Rightarrow> int \<Rightarrow> string \<Rightarrow> 'n world \<Rightarrow> GostResponse \<times> 'n world" where
  [msg_defs]: "PauseRemoteService e nodeId name =
     SendMsg e nodeId (PauseService_msg [name @ ''_tls''])"

definition ResumeRemoteService ::
  "'n env \<Rightarrow> int \<Rightarrow> string \<Rightarrow> 'n world \<Rightarrow> GostResponse \<times> 'n world" where
  [msg_defs]: "ResumeRemoteService e nodeId name =
     SendMsg e nodeId (ResumeService_msg [name @ ''_tls''])"

definition AddChains ::
  "'n env \<Rightarrow> int \<Rightarrow> string \<Rightarrow> string \<Rightarrow> string \<Rightarrow> string \<Rightarrow> 'n world \<Rightarrow> GostResponse \<times> 'n world" where
  [msg_defs]: "AddChains e nodeId name remoteAddr protocol ifn =
     SendMsg e nodeId (AddChains_msg (buildChainData name remoteAddr protocol ifn))"

definition UpdateChains ::
  "'n env \<Rightarrow> int \<Rightarrow> string \<Rightarrow> string \<Rightarrow> string \<Rightarrow> string \<Rightarrow> 'n world \<Rightarrow> GostResponse \<times> 'n world" where
  [msg_defs]: "UpdateChains e nodeId name remoteAddr protocol ifn =
     SendMsg e nodeId (UpdateChains_msg (name @ ''_chains'')
       (buildChainData name remoteAddr protocol ifn))"

definition DeleteChains :: "'n env \<Rightarrow> int \<Rightarrow> string \<Rightarrow> 'n world \<Rightarrow> GostResponse \<times> 'n world" where
  [msg_defs]: "DeleteChains e nodeId name =
     SendMsg e nodeId (DeleteChains_msg (name @ ''_chains''))"

definition GetServiceNames :: "'n env \<Rightarrow> int \<Rightarrow> 'n world \<Rightarrow> GostResponse \<times> 'n world" where
  [msg_defs]: "GetServiceNames e nodeId = SendMsg e nodeId GetServiceNames_msg"

definition AddRouteChain ::
  "'n env \<Rightarrow> int \<Rightarrow> string \<Rightarrow> string \<Rightarrow> string \<Rightarrow> string \<Rightarrow> 'n world \<Rightarrow> GostResponse \<times> 'n world" where
  [msg_defs]: "AddRouteChain e nodeId chainName remoteAddr protocol ifn =
     SendMsg e nodeId (AddChains_msg (buildExactChainData chainName remoteAddr protocol ifn))"

definition UpdateRouteChain ::
  "'n env \<Rightarrow> int \<Rightarrow> string \<Rightarrow> string \<Rightarrow> string \<Rightarrow> string \<Rightarrow> 'n world \<Rightarrow> GostResponse \<times> 'n world" where
  [msg_defs]: "UpdateRouteChain e nodeId chainName remoteAddr protocol ifn =
     SendMsg e nodeId (UpdateChains_msg chainName
       (buildExactChainData chainName remoteAddr protocol ifn))"

definition DeleteRouteChain ::
  "'n env \<Rightarrow> int \<Rightarrow> string \<Rightarrow> 'n world \<Rightarrow> GostResponse \<times> 'n world" where
  [msg_defs]: "DeleteRouteChain e nodeId chainName =
     SendMsg e nodeId (DeleteChains_msg chainName)"

definition AddRouteEntryService ::
  "'n env \<Rightarrow> int \<Rightarrow> string \<Rightarrow> int \<Rightarrow> int option \<Rightarrow> string \<Rightarrow> string \<Rightarrow> string \<Rightarrow> string
     \<Rightarrow> 'n world \<Rightarrow> GostResponse \<times> 'n world" where
  [msg_defs]: "AddRouteEntryService e nodeId name inPort limiter listenAddr chainName protocol ifn =
     SendMsg e nodeId (AddService_msg
       (buildRouteEntryServices name inPort limiter listenAddr chainName protocol ifn))"

definition AddRouteRelayService ::
  "'n env \<Rightarrow> int \<Rightarrow> string \<Rightarrow> int \<Rightarrow> string \<Rightarrow> string \<Rightarrow> string \<Rightarrow> 'n world
     \<Rightarrow> GostResponse \<times> 'n world" where
  [msg_defs]: "AddRouteRelayService e nodeId name relayPort chainName protocol ifn =
     SendMsg e nodeId (AddService_msg
       [buildRouteRelayService name relayPort chainName protocol ifn [] []])"

definition AddRouteTerminalService ::
  "'n env \<Rightarrow> int \<Rightarrow> string \<Rightarrow> int \<Rightarrow> string \<Rightarrow> string \<Rightarrow> string \<Rightarrow> string \<Rightarrow> 'n world
     \<Rightarrow> GostResponse \<times> 'n world" where
  [msg_defs]: "AddRouteTerminalService e nodeId name relayPort remoteAddr protocol strategy ifn =
     SendMsg e nodeId (AddService_msg
       [buildRouteRelayService name relayPort [] protocol ifn remoteAddr strategy])"

definition DeleteRouteServices ::
  "'n env \<Rightarrow> int \<Rightarrow> string list \<Rightarrow> 'n world \<Rightarrow> GostResponse \<times> 'n world" where
  [msg_defs]: "DeleteRouteServices e nodeId services =
     SendMsg e nodeId (DeleteService_msg services)"

definition PauseRouteServices ::
  "'n env \<Rightarrow> int \<Rightarrow> string list \<Rightarrow> 'n world \<Rightarrow> GostResponse \<times> 'n world" where
  [msg_defs]: "PauseRouteServices e nodeId services =
     SendMsg e nodeId (PauseService_msg services)"

definition ResumeRouteServices ::
  "'n env \<Rightarrow> int \<Rightarrow> string list \<Rightarrow> 'n world \<Rightarrow> GostResponse \<times> 'n world" where
  [msg_defs]: "ResumeRouteServices e nodeId services =
     SendMsg e nodeId (ResumeService_msg services)"

definition XrayRemoveClient ::
  "'n env \<Rightarrow> int \<Rightarrow> string \<Rightarrow> string \<Rightarrow> 'n world \<Rightarrow> GostResponse \<times> 'n world" where
  [msg_defs]: "XrayRemoveClient e nodeId tag email =
     SendMsg e nodeId (VRemoveClient_msg tag email)"

definition XrayRemoveInbound ::
  "'n env \<Rightarrow> int \<Rightarrow> string \<Rightarrow> 'n world \<Rightarrow> GostResponse \<times> 'n world" where
  [msg_defs]: "XrayRemoveInbound e nodeId tag = SendMsg e nodeId (VRemoveInbound_msg tag)"

section \<open>Reading answers\<close>

text \<open>\<open>isGostSuccess\<close>, \<open>gostResultMessage\<close>, \<open>gostDeleteError\<close> of
  service/forward.go and \<open>isGostAlreadyExists\<close> of service/reconcile.go; a nil pointer is
  \<open>None\<close>, and an empty error text is \<open>None\<close>.\<close>

definition gostSuccessMsg :: string where "gostSuccessMsg = ''OK''"

definition gostNotFoundMsg :: string where "gostNotFoundMsg = ''not found''"

definition isGostSuccess :: "GostResponse option \<Rightarrow> bool" where
  "isGostSuccess result = (case result of None \<Rightarrow> False | Some r \<Rightarrow> g_Msg r = gostSuccessMsg)"

definition isGostAlreadyExists :: "GostResponse option \<Rightarrow> bool" where
  "isGostAlreadyExists result =
     (case result of None \<Rightarrow> False | Some r \<Rightarrow> contains_str (g_Msg r) ''already exists'')"

definition gostResultMessage :: "GostResponse option \<Rightarrow> string" where
  "gostResultMessage result =
     (case result of None \<Rightarrow> ''no response from node'' | Some r \<Rightarrow> g_Msg r)"

definition gostDeleteError :: "GostResponse option \<Rightarrow> string" where
  "gostDeleteError result =
     (if isGostSuccess result then []
      else (let msg = gostResultMessage result
            in if contains_str msg gostNotFoundMsg then [] else msg))"

section \<open>Frames\<close>

text \<open>Writing leaves the nodes alone, sending leaves the database alone.\<close>

lemma db_write_net [frame_simps]:
  "wnet (snd (db_write e f w)) = wnet w" "wsent (snd (db_write e f w)) = wsent w"
  by (simp_all add: db_write_def Let_def)

lemma db_exec_net [frame_simps]: "wnet (db_exec e f w) = wnet w" "wsent (db_exec e f w) = wsent w"
  by (simp_all add: db_exec_def frame_simps)

lemma db_write_db:
  "db_write e f w = (ok, w') \<Longrightarrow> wdb w' = (if ok then f (wdb w) else wdb w)"
  by (auto simp: db_write_def Let_def split: if_splits)

lemma wdb_db_write [simp]:
  "wdb (snd (db_write e f w)) = (if fst (db_write e f w) then f (wdb w) else wdb w)"
  by (simp add: db_write_def Let_def)

lemma db_exec_db: "wdb (db_exec e f w) = f (wdb w) \<or> wdb (db_exec e f w) = wdb w"
  by (simp add: db_exec_def db_write_def Let_def)

lemma db_exec_ok [simp]: "db_ok e = (\<lambda>_. True) \<Longrightarrow> wdb (db_exec e f w) = f (wdb w)"
  by (simp add: db_exec_def db_write_def Let_def)

lemma SendMsg_db [frame_simps]:
  "wdb (snd (SendMsg e n m w)) = wdb w" "wops (snd (SendMsg e n m w)) = wops w"
  by (simp_all add: SendMsg_def Let_def split: prod.split option.split)

lemma SendMsg_sent:
  "wsent (snd (SendMsg e n m w)) = wsent w @ (if nodeSessions e n then [(n, m)] else [])"
  by (simp add: SendMsg_def Let_def split: prod.split option.split)

lemma SendMsg_msg_nonempty [simp]: "g_Msg (fst (SendMsg e n m w)) \<noteq> []"
  by (simp add: SendMsg_def Let_def split: prod.split option.split)

lemma SendMsg_offline: "\<not> nodeSessions e n \<Longrightarrow> snd (SendMsg e n m w) = w"
  by (simp add: SendMsg_def)

end
