(* ===== verification/Panel_Reply.thy ===== *)
theory Panel_Reply
  imports Panel_World
begin

text \<open>
  The answers of the panel's services. \<open>dto.R\<close> is \<open>reply\<close>: \<open>dto.Err(msg)\<close> is
  \<open>Err\<close> with one constructor per cause, grouped by component (two messages that word the
  same cause differently share one), \<open>dto.Ok(data)\<close> is \<open>Ok\<close> and
  \<open>dto.OkMsg()\<close> is \<open>OkMsg\<close>. An error text the code computes as a Go string is a
  \<open>string\<close>, empty for success.
\<close>

datatype access_err =
    SsrfBlocked string
  | UserNotFound
  | AccountExpired
  | AccountDisabled
  | NoTunnelPermission
  | TunnelPermissionDisabled
  | TunnelPermissionExpired
  | UserFlowUsedUp
  | TunnelFlowUsedUp
  | UserForwardQuota int
  | TunnelForwardQuota int
  | EntryNodeForbidden
  | ExitNodeForbidden

datatype port_err =
    EntryPortUnavailable int
  | EntryPortsFull
  | ExitPortsFull
  | EntryNodeNotFound
  | ExitNodeNotFound
  | RoutePortUnavailable int
  | RouteEntryFull
  | RouteNodeFull int

datatype forward_err =
    TunnelOrRouteRequired
  | ForwardNotFound
  | ForwardCreateFailed
  | ForwardUpdateFailed
  | ForwardDeleteFailed
  | OldTunnelNotFound
  | NewConfigFailed string
  | PauseFailed string
  | RemotePauseFailed string
  | ResumeFailed string
  | RemoteResumeFailed string
  | OrderEmpty
  | OrderNotOwn

datatype route_err =
    RouteAdminOnly
  | RouteIdRequired
  | RouteNotFound
  | RouteDisabled
  | RouteTooShort
  | RouteInvalidNode
  | RouteDuplicateNode
  | RouteNodeNotFound
  | RouteNameExists
  | RouteInUse
  | RouteSaveFailed
  | RouteDeleteFailed
  | RoutePortsNotFound
  | RouteForwardSaveFailed
  | RouteForwardDeleteFailed

datatype tunnel_err =
    TunnelNotFound
  | TunnelDisabled
  | TunnelNameExists
  | TunnelNeedsExitNode
  | TunnelSameNode
  | TunnelSaveFailed
  | TunnelInUse
  | UserTunnelExists
  | UserTunnelNotFound
  | UserTunnelSaveFailed
  | SpeedLimitNotFound
  | SpeedLimitInUse
  | SpeedLimitSaveFailed

datatype user_err =
    CaptchaMissing
  | CaptchaWrong
  | WrongCredentials
  | UserStopped
  | PasswordTooShort
  | UserNameExists
  | UserSaveFailed
  | AdminProtected
  | WrongPassword

datatype err =
    AccessErr access_err
  | PortErr port_err
  | ForwardErr forward_err
  | RouteErr route_err
  | TunnelErr tunnel_err
  | UserErr user_err
  | GostErr string

datatype payload =
    Done
  | Created_tunnel Tunnel
  | Created_route Route
  | Created_user_tunnel UserTunnel
  | Created_speed_limit SpeedLimit
  | Logged_in User bool

datatype reply = Ok payload | OkMsg | Err err

definition is_err :: "reply \<Rightarrow> bool" where
  "is_err r = (case r of Err _ \<Rightarrow> True | _ \<Rightarrow> False)"

lemma is_err_simps [simp]: "is_err (Err x)" "\<not> is_err (Ok p)" "\<not> is_err OkMsg"
  by (simp_all add: is_err_def)

section \<open>Transactions\<close>

text \<open>
  \<open>tx := DB.Begin(); ...; tx.Commit()\<close>. Each statement comes with the error its failure is
  reported as, \<open>None\<close> when the code ignores it. A reported failure rolls the database back,
  and so does a failed commit.
\<close>

fun tx_steps :: "'n env \<Rightarrow> (err option \<times> (db \<Rightarrow> db)) list \<Rightarrow> 'n world \<Rightarrow> err option \<times> 'n world" where
  "tx_steps e [] w = (None, w)"
| "tx_steps e ((er, f) # ss) w =
     (let (ok, w1) = db_write e f w
      in if ok \<or> er = None then tx_steps e ss w1 else (er, w1))"

definition transaction ::
  "'n env \<Rightarrow> (err option \<times> (db \<Rightarrow> db)) list \<Rightarrow> err \<Rightarrow> 'n world \<Rightarrow> err option \<times> 'n world" where
  "transaction e steps commitErr w =
     (case tx_steps e steps w of
        (Some er, w1) \<Rightarrow> (Some er, w1\<lparr>wdb := wdb w\<rparr>)
      | (None, w1) \<Rightarrow>
          (let (ok, w2) = db_write e (\<lambda>d. d) w1
           in if ok then (None, w2) else (Some commitErr, w2\<lparr>wdb := wdb w\<rparr>)))"

lemma tx_steps_net [frame_simps]:
  "wnet (snd (tx_steps e ss w)) = wnet w" "wsent (snd (tx_steps e ss w)) = wsent w"
  by (induction ss arbitrary: w) (auto simp: Let_def case_prod_beta frame_simps)

lemma transaction_net [frame_simps]:
  "wnet (snd (transaction e ss ce w)) = wnet w" "wsent (snd (transaction e ss ce w)) = wsent w"
proof -
  obtain r w1 where t: "tx_steps e ss w = (r, w1)" by (cases "tx_steps e ss w")
  then have "wnet w1 = wnet w" "wsent w1 = wsent w"
    using tx_steps_net [of e ss w] by simp_all
  with t show "wnet (snd (transaction e ss ce w)) = wnet w"
    "wsent (snd (transaction e ss ce w)) = wsent w"
    by (auto simp: transaction_def Let_def case_prod_beta frame_simps split: option.split)
qed

lemma transaction_Some: "transaction e ss ce w = (Some er, w') \<Longrightarrow> wdb w' = wdb w"
  by (auto simp: transaction_def Let_def case_prod_beta split: prod.splits option.splits if_splits)

lemma tx_steps_None:
  "list_all (\<lambda>s. fst s \<noteq> None) ss \<Longrightarrow> tx_steps e ss w = (None, w') \<Longrightarrow>
     wdb w' = fold (\<lambda>s. snd s) ss (wdb w)"
  by (induction ss arbitrary: w) (auto simp: Let_def case_prod_beta split: if_splits)

lemma transaction_None:
  "list_all (\<lambda>s. fst s \<noteq> None) ss \<Longrightarrow> transaction e ss ce w = (None, w') \<Longrightarrow>
     wdb w' = fold (\<lambda>s. snd s) ss (wdb w)"
proof -
  assume all: "list_all (\<lambda>s. fst s \<noteq> None) ss" and t: "transaction e ss ce w = (None, w')"
  from t obtain w1 where s: "tx_steps e ss w = (None, w1)"
    and c: "db_write e (\<lambda>d. d) w1 = (True, w')"
    by (auto simp: transaction_def Let_def split: prod.splits option.splits if_splits)
  from db_write_db [OF c] tx_steps_None [OF all s] show ?thesis by simp
qed

lemma tx_steps_append:
  "tx_steps e (a @ b) w =
     (case tx_steps e a w of (Some er, w1) \<Rightarrow> (Some er, w1) | (None, w1) \<Rightarrow> tx_steps e b w1)"
  by (induction a arbitrary: w) (auto simp: Let_def case_prod_beta split: option.split)

lemma transaction_split:
  assumes "transaction e (a @ b) ce w = (None, w')" and "list_all (\<lambda>s. fst s \<noteq> None) b"
  shows "\<exists>w1. tx_steps e a w = (None, w1) \<and> wdb w' = fold (\<lambda>s. snd s) b (wdb w1)"
proof -
  from assms(1) obtain w2 where s: "tx_steps e (a @ b) w = (None, w2)"
    and c: "db_write e (\<lambda>d. d) w2 = (True, w')"
    by (auto simp: transaction_def Let_def split: prod.splits option.splits if_splits)
  from s obtain w1 where a: "tx_steps e a w = (None, w1)" and b: "tx_steps e b w1 = (None, w2)"
    by (auto simp: tx_steps_append split: prod.splits option.splits)
  from a tx_steps_None [OF assms(2) b] db_write_db [OF c] show ?thesis by simp
qed

text \<open>What holds of the database after every statement holds after the transaction.\<close>

lemma tx_steps_inv:
  "(\<And>s d. s \<in> set ss \<Longrightarrow> P d \<Longrightarrow> P (snd s d)) \<Longrightarrow> P (wdb w) \<Longrightarrow> P (wdb (snd (tx_steps e ss w)))"
proof (induction ss arbitrary: w)
  case (Cons s ss)
  obtain er f where s: "s = (er, f)" by (cases s)
  have f: "P (f d)" if "P d" for d using Cons.prems(1) [of s d] that s by simp
  have "P (wdb (snd (db_write e f w)))" using f Cons.prems(2) by simp
  then have "P (wdb (snd (tx_steps e ss (snd (db_write e f w)))))"
    using Cons.IH Cons.prems(1) by simp
  with \<open>P (wdb (snd (db_write e f w)))\<close> show ?case
    by (simp add: s Let_def case_prod_beta del: wdb_db_write)
qed simp

lemma transaction_inv:
  assumes "\<And>s d. s \<in> set ss \<Longrightarrow> P d \<Longrightarrow> P (snd s d)" and "P (wdb w)"
  shows "P (wdb (snd (transaction e ss ce w)))"
proof -
  obtain r w1 where t: "tx_steps e ss w = (r, w1)" by (cases "tx_steps e ss w")
  have "P (wdb w1)" using tx_steps_inv [of ss P w e] assms t by simp
  then show ?thesis using t assms(2)
    by (auto simp: transaction_def Let_def case_prod_beta split: option.split)
qed

section \<open>Constants\<close>

text \<open>Constants of service/forward.go and service/flow.go.\<close>

definition adminRoleId :: int where "adminRoleId = 0"
definition tunnelTypePortForward :: int where "tunnelTypePortForward = 1"
definition tunnelTypeTunnelForward :: int where "tunnelTypeTunnelForward = 2"
definition forwardStatusActive :: int where "forwardStatusActive = 1"
definition forwardStatusPaused :: int where "forwardStatusPaused = 0"
definition forwardStatusError :: int where "forwardStatusError = -1"
definition tunnelStatusActive :: int where "tunnelStatusActive = 1"
definition bytesToGB :: int where "bytesToGB = 1024 * 1024 * 1024"

lemmas panel_consts = adminRoleId_def tunnelTypePortForward_def tunnelTypeTunnelForward_def
  forwardStatusActive_def forwardStatusPaused_def forwardStatusError_def tunnelStatusActive_def
  bytesToGB_def

end
