(* ===== verification/Ports.thy ===== *)
theory Ports
  imports Panel_Reply
begin

text \<open>
  Port allocation of service/forward.go: which ports of a node are in use
  (\<open>getAllUsedPortsOnNode\<close>), the search for a free one (\<open>allocatePortForNode\<close>,
  \<open>allocatePorts\<close>) and the route variants with ports reserved along the way. The abstract
  view is \<open>occupies d n p k\<close>: forward \<open>k\<close> listens on port \<open>p\<close> of node \<open>n\<close>.
\<close>

definition not_excluded :: "int option \<Rightarrow> int \<Rightarrow> bool" where
  "not_excluded excludeForwardId k =
     (case excludeForwardId of None \<Rightarrow> True | Some x \<Rightarrow> k \<noteq> x)"

definition getAllUsedPortsOnNode :: "db \<Rightarrow> int \<Rightarrow> int option \<Rightarrow> int list" where
  "getAllUsedPortsOnNode d nodeId excludeForwardId =
     (let inTunnelIds = map t_ID (find_where (\<lambda>t. t_InNodeId t = nodeId) (tunnels d));
          entry = map f_InPort (find_where (\<lambda>f. f_TunnelId f \<in> set inTunnelIds
                    \<and> not_excluded excludeForwardId (f_ID f)) (forwards d));
          outTunnelIds = map t_ID (find_where (\<lambda>t. t_OutNodeId t = nodeId) (tunnels d));
          exit = map f_OutPort (find_where (\<lambda>f. f_TunnelId f \<in> set outTunnelIds
                    \<and> not_excluded excludeForwardId (f_ID f)) (forwards d));
          routeEntry = concat (map (\<lambda>f. map (\<lambda>h. f_InPort f)
                    (find_where (\<lambda>h. h_RouteId h = f_RouteId f \<and> h_HopOrder h = 0
                        \<and> h_NodeId h = nodeId) (route_hops d)))
                    (find_where (\<lambda>f. not_excluded excludeForwardId (f_ID f)) (forwards d)));
          relay = map p_RelayPort (find_where (\<lambda>p. p_NodeId p = nodeId
                    \<and> not_excluded excludeForwardId (p_ForwardId p)) (route_ports d))
      in filter (\<lambda>p. p \<noteq> 0) (entry @ exit @ routeEntry @ relay))"

text \<open>The loop \<open>for port := sta; port <= end; port++\<close> that returns the first good port.\<close>

function find_port :: "(int \<Rightarrow> bool) \<Rightarrow> int \<Rightarrow> int \<Rightarrow> int option" where
  "find_port good port end =
     (if port \<le> end then if good port then Some port else find_port good (port + 1) end else None)"
  by pat_completeness auto
termination
  by (relation "measure (\<lambda>(good, port, end). nat (end + 1 - port))") auto

declare find_port.simps [simp del]

definition allocatePortForNode :: "db \<Rightarrow> int \<Rightarrow> int option \<Rightarrow> int option" where
  "allocatePortForNode d nodeId excludeForwardId =
     (case GetNodeById d nodeId of
        None \<Rightarrow> None
      | Some node \<Rightarrow>
          (let usedPorts = getAllUsedPortsOnNode d nodeId excludeForwardId
           in find_port (\<lambda>port. port \<notin> set usedPorts) (n_PortSta node) (n_PortEnd node)))"

definition isInPortAvailable :: "db \<Rightarrow> Tunnel \<Rightarrow> int \<Rightarrow> int option \<Rightarrow> bool" where
  "isInPortAvailable d tunnel port excludeForwardId =
     (case GetNodeById d (t_InNodeId tunnel) of
        None \<Rightarrow> False
      | Some inNode \<Rightarrow>
          \<not> (port < n_PortSta inNode \<or> port > n_PortEnd inNode)
          \<and> port \<notin> set (getAllUsedPortsOnNode d (t_InNodeId tunnel) excludeForwardId))"

definition allocatePorts ::
  "db \<Rightarrow> Tunnel \<Rightarrow> int option \<Rightarrow> int option \<Rightarrow> err + int \<times> int" where
  "allocatePorts d tunnel specifiedInPort excludeForwardId =
     (let entry = (case specifiedInPort of
            Some port \<Rightarrow> if isInPortAvailable d tunnel port excludeForwardId then Inr port
                        else Inl (PortErr (EntryPortUnavailable port))
          | None \<Rightarrow> (case allocatePortForNode d (t_InNodeId tunnel) excludeForwardId of
                None \<Rightarrow> Inl (PortErr EntryPortsFull) | Some p \<Rightarrow> Inr p))
      in case entry of
           Inl er \<Rightarrow> Inl er
         | Inr inPort \<Rightarrow>
             if t_Type tunnel = tunnelTypeTunnelForward
             then (case allocatePortForNode d (t_OutNodeId tunnel) excludeForwardId of
                     None \<Rightarrow> Inl (PortErr ExitPortsFull) | Some p \<Rightarrow> Inr (inPort, p))
             else Inr (inPort, 0))"

section \<open>Route forwards\<close>

text \<open>\<open>reserved\<close> is the nested map of the ports taken so far, as a list of pairs.\<close>

definition isRoutePortAvailable ::
  "db \<Rightarrow> int \<Rightarrow> int \<Rightarrow> int option \<Rightarrow> (int \<times> int) list \<Rightarrow> bool" where
  "isRoutePortAvailable d nodeId port excludeForwardId reserved =
     (case GetNodeById d nodeId of
        None \<Rightarrow> False
      | Some node \<Rightarrow>
          \<not> (port < n_PortSta node \<or> port > n_PortEnd node)
          \<and> (nodeId, port) \<notin> set reserved
          \<and> port \<notin> set (getAllUsedPortsOnNode d nodeId excludeForwardId))"

definition allocateRoutePortForNode ::
  "db \<Rightarrow> int \<Rightarrow> int option \<Rightarrow> (int \<times> int) list \<Rightarrow> int option" where
  "allocateRoutePortForNode d nodeId excludeForwardId reserved =
     (case GetNodeById d nodeId of
        None \<Rightarrow> None
      | Some node \<Rightarrow>
          find_port (\<lambda>port. isRoutePortAvailable d nodeId port excludeForwardId reserved)
            (n_PortSta node) (n_PortEnd node))"

definition reserveRoutePort :: "(int \<times> int) list \<Rightarrow> int \<Rightarrow> int \<Rightarrow> (int \<times> int) list" where
  "reserveRoutePort reserved nodeId port = (nodeId, port) # reserved"

fun allocate_relays ::
  "db \<Rightarrow> int \<Rightarrow> int option \<Rightarrow> (int \<times> int) list \<Rightarrow> RouteHop list \<Rightarrow> err + ForwardRoutePort list" where
  "allocate_relays d routeId excl reserved [] = Inr []"
| "allocate_relays d routeId excl reserved (hop # hops) =
     (case allocateRoutePortForNode d (h_NodeId hop) excl reserved of
        None \<Rightarrow> Inl (PortErr (RouteNodeFull (h_NodeId hop)))
      | Some p \<Rightarrow>
          (case allocate_relays d routeId excl (reserveRoutePort reserved (h_NodeId hop) p) hops of
             Inl er \<Rightarrow> Inl er
           | Inr ports \<Rightarrow>
               Inr (\<lparr>p_ID = 0, p_ForwardId = 0, p_RouteId = routeId, p_HopOrder = h_HopOrder hop,
                     p_NodeId = h_NodeId hop, p_RelayPort = p, p_CreatedTime = 0,
                     p_UpdatedTime = 0\<rparr> # ports)))"

definition allocateRouteForwardPorts ::
  "db \<Rightarrow> Route \<Rightarrow> RouteHop list \<Rightarrow> int option \<Rightarrow> int option \<Rightarrow> err + int \<times> ForwardRoutePort list" where
  "allocateRouteForwardPorts d route hops specifiedInPort excludeForwardId =
     (case hops of
        entryHop # hop1 # rest \<Rightarrow>
          (let n0 = h_NodeId entryHop;
               entry = (case specifiedInPort of
                  Some port \<Rightarrow> if isRoutePortAvailable d n0 port excludeForwardId [] then Inr port
                              else Inl (PortErr (RoutePortUnavailable port))
                | None \<Rightarrow> (case allocateRoutePortForNode d n0 excludeForwardId [] of
                      None \<Rightarrow> Inl (PortErr RouteEntryFull) | Some p \<Rightarrow> Inr p))
           in case entry of
                Inl er \<Rightarrow> Inl er
              | Inr inPort \<Rightarrow>
                  (case allocate_relays d (r_ID route) excludeForwardId
                          (reserveRoutePort [] n0 inPort) (hop1 # rest) of
                     Inl er \<Rightarrow> Inl er
                   | Inr ports \<Rightarrow> Inr (inPort, ports)))
      | _ \<Rightarrow> Inl (RouteErr RouteTooShort))"

section \<open>The abstract view\<close>

definition occupies_entry :: "db \<Rightarrow> int \<Rightarrow> int \<Rightarrow> Forward \<Rightarrow> bool" where
  "occupies_entry d n p f \<longleftrightarrow> f_InPort f = p \<and>
     ((\<exists>t \<in> set (tunnels d). t_ID t = f_TunnelId f \<and> t_InNodeId t = n) \<or>
      (\<exists>h \<in> set (route_hops d). h_RouteId h = f_RouteId f \<and> h_HopOrder h = 0 \<and> h_NodeId h = n))"

definition occupies_exit :: "db \<Rightarrow> int \<Rightarrow> int \<Rightarrow> Forward \<Rightarrow> bool" where
  "occupies_exit d n p f \<longleftrightarrow> f_OutPort f = p \<and>
     (\<exists>t \<in> set (tunnels d). t_ID t = f_TunnelId f \<and> t_OutNodeId t = n)"

definition occupies :: "db \<Rightarrow> int \<Rightarrow> int \<Rightarrow> int \<Rightarrow> bool" where
  "occupies d n p k \<longleftrightarrow> p \<noteq> 0 \<and>
     ((\<exists>f \<in> set (forwards d). f_ID f = k \<and> (occupies_entry d n p f \<or> occupies_exit d n p f)) \<or>
      (\<exists>rp \<in> set (route_ports d). p_ForwardId rp = k \<and> p_NodeId rp = n \<and> p_RelayPort rp = p))"

text \<open>No two forwards share a port of a node.\<close>

definition ports_exclusive :: "db \<Rightarrow> bool" where
  "ports_exclusive d \<longleftrightarrow> (\<forall>n p k k'. occupies d n p k \<longrightarrow> occupies d n p k' \<longrightarrow> k = k')"

lemma used_iff:
  "p \<in> set (getAllUsedPortsOnNode d n excl) \<longleftrightarrow> (\<exists>k. not_excluded excl k \<and> occupies d n p k)"
proof -
  let ?in = "set (map t_ID (find_where (\<lambda>t. t_InNodeId t = n) (tunnels d)))"
  let ?out = "set (map t_ID (find_where (\<lambda>t. t_OutNodeId t = n) (tunnels d)))"
  have entry: "p \<in> set (map f_InPort (find_where (\<lambda>f. f_TunnelId f \<in> ?in \<and>
        not_excluded excl (f_ID f)) (forwards d))) \<longleftrightarrow>
      (\<exists>f \<in> set (forwards d). not_excluded excl (f_ID f) \<and> f_InPort f = p \<and>
         (\<exists>t \<in> set (tunnels d). t_ID t = f_TunnelId f \<and> t_InNodeId t = n))"
    by (auto simp: image_iff) metis+
  have exit: "p \<in> set (map f_OutPort (find_where (\<lambda>f. f_TunnelId f \<in> ?out \<and>
        not_excluded excl (f_ID f)) (forwards d))) \<longleftrightarrow>
      (\<exists>f \<in> set (forwards d). not_excluded excl (f_ID f) \<and> occupies_exit d n p f)"
    by (auto simp: image_iff occupies_exit_def) metis+
  have route: "p \<in> set (concat (map (\<lambda>f. map (\<lambda>h. f_InPort f)
        (find_where (\<lambda>h. h_RouteId h = f_RouteId f \<and> h_HopOrder h = 0 \<and> h_NodeId h = n)
          (route_hops d))) (find_where (\<lambda>f. not_excluded excl (f_ID f)) (forwards d)))) \<longleftrightarrow>
      (\<exists>f \<in> set (forwards d). not_excluded excl (f_ID f) \<and> f_InPort f = p \<and>
         (\<exists>h \<in> set (route_hops d). h_RouteId h = f_RouteId f \<and> h_HopOrder h = 0 \<and>
            h_NodeId h = n))"
    by auto
  have relay: "p \<in> set (map p_RelayPort (find_where (\<lambda>rp. p_NodeId rp = n \<and>
        not_excluded excl (p_ForwardId rp)) (route_ports d))) \<longleftrightarrow>
      (\<exists>rp \<in> set (route_ports d). not_excluded excl (p_ForwardId rp) \<and> p_NodeId rp = n \<and>
         p_RelayPort rp = p)"
    by auto
  have "p \<in> set (getAllUsedPortsOnNode d n excl) \<longleftrightarrow> p \<noteq> 0 \<and>
      ((\<exists>f \<in> set (forwards d). not_excluded excl (f_ID f) \<and>
          (occupies_entry d n p f \<or> occupies_exit d n p f)) \<or>
       (\<exists>rp \<in> set (route_ports d). not_excluded excl (p_ForwardId rp) \<and> p_NodeId rp = n \<and>
          p_RelayPort rp = p))"
    unfolding getAllUsedPortsOnNode_def Let_def set_filter set_append mem_Collect_eq Un_iff
      entry exit route relay occupies_entry_def by blast
  also have "\<dots> \<longleftrightarrow> (\<exists>k. not_excluded excl k \<and> occupies d n p k)"
    unfolding occupies_def by blast
  finally show ?thesis .
qed

lemma not_excluded_simps [simp]:
  "not_excluded None k" "not_excluded (Some x) k \<longleftrightarrow> k \<noteq> x"
  by (simp_all add: not_excluded_def)

section \<open>The search\<close>

lemma find_port_Some:
  "find_port good lo hi = Some p \<Longrightarrow>
     lo \<le> p \<and> p \<le> hi \<and> good p \<and> (\<forall>q. lo \<le> q \<and> q < p \<longrightarrow> \<not> good q)"
proof (induction good lo hi rule: find_port.induct)
  case (1 good port "end")
  show ?case
  proof (cases "port \<le> end \<and> \<not> good port")
    case True
    with "1.prems" have r: "find_port good (port + 1) end = Some p"
      by (simp add: find_port.simps [of good port "end"])
    with "1.IH" True have ih: "port + 1 \<le> p \<and> p \<le> end \<and> good p \<and>
        (\<forall>q. port + 1 \<le> q \<and> q < p \<longrightarrow> \<not> good q)" by blast
    moreover have "\<not> good q" if "port \<le> q" "q < p" for q
      using that ih True by (cases "q = port") auto
    ultimately show ?thesis by auto
  next
    case False
    with "1.prems" show ?thesis
      by (auto simp: find_port.simps [of good port "end"] split: if_splits)
  qed
qed

lemma find_port_None: "find_port good lo hi = None \<longleftrightarrow> (\<forall>q. lo \<le> q \<and> q \<le> hi \<longrightarrow> \<not> good q)"
proof (induction good lo hi rule: find_port.induct)
  case (1 good port "end")
  show ?case
  proof (cases "port \<le> end \<and> \<not> good port")
    case True
    then have "find_port good port end = None \<longleftrightarrow> find_port good (port + 1) end = None"
      by (simp add: find_port.simps [of good port "end"])
    also have "\<dots> \<longleftrightarrow> (\<forall>q. port + 1 \<le> q \<and> q \<le> end \<longrightarrow> \<not> good q)"
      using "1.IH" True by blast
    also have "\<dots> \<longleftrightarrow> (\<forall>q. port \<le> q \<and> q \<le> end \<longrightarrow> \<not> good q)"
      using True by (metis zless_add1_eq add1_zle_eq order_le_less)
    finally show ?thesis .
  next
    case False
    then show ?thesis by (auto simp: find_port.simps [of good port "end"])
  qed
qed

section \<open>What allocation returns\<close>

text \<open>Port \<open>p\<close> is good for forward \<open>excl\<close> (or a new one) on node \<open>n\<close>: in the node's range
  and held by no other forward.\<close>

definition free_port :: "db \<Rightarrow> int \<Rightarrow> int option \<Rightarrow> int \<Rightarrow> bool" where
  "free_port d n excl p \<longleftrightarrow>
     (\<exists>node. GetNodeById d n = Some node \<and> n_PortSta node \<le> p \<and> p \<le> n_PortEnd node) \<and>
     (\<forall>k. not_excluded excl k \<longrightarrow> \<not> occupies d n p k)"

lemma allocatePortForNode_Some:
  assumes "allocatePortForNode d n excl = Some p"
  shows "free_port d n excl p" and "\<And>q. free_port d n excl q \<Longrightarrow> p \<le> q"
proof -
  from assms obtain node where node: "GetNodeById d n = Some node"
    and f: "find_port (\<lambda>port. port \<notin> set (getAllUsedPortsOnNode d n excl))
              (n_PortSta node) (n_PortEnd node) = Some p"
    by (auto simp: allocatePortForNode_def Let_def split: option.splits)
  from find_port_Some [OF f] have r: "n_PortSta node \<le> p" "p \<le> n_PortEnd node"
    and free: "\<forall>k. not_excluded excl k \<longrightarrow> \<not> occupies d n p k"
    and least: "\<And>q. n_PortSta node \<le> q \<Longrightarrow> q < p \<Longrightarrow> \<exists>k. not_excluded excl k \<and> occupies d n q k"
    by (auto simp: used_iff)
  from node r free show "free_port d n excl p" by (auto simp: free_port_def)
  show "p \<le> q" if "free_port d n excl q" for q
  proof (rule ccontr)
    assume "\<not> p \<le> q"
    with that node least [of q] show False by (auto simp: free_port_def)
  qed
qed

lemma allocatePortForNode_None:
  "allocatePortForNode d n excl = None \<longleftrightarrow> (\<forall>p. \<not> free_port d n excl p)"
  unfolding allocatePortForNode_def free_port_def
  by (cases "GetNodeById d n") (auto simp: Let_def used_iff find_port_None)

lemma isInPortAvailable_iff:
  "isInPortAvailable d t p excl \<longleftrightarrow> free_port d (t_InNodeId t) excl p"
  unfolding isInPortAvailable_def free_port_def
  by (cases "GetNodeById d (t_InNodeId t)") (auto simp: used_iff)

lemma isRoutePortAvailable_iff:
  "isRoutePortAvailable d n p excl reserved \<longleftrightarrow> free_port d n excl p \<and> (n, p) \<notin> set reserved"
  unfolding isRoutePortAvailable_def free_port_def
  by (cases "GetNodeById d n") (auto simp: used_iff)

lemma allocateRoutePortForNode_Some:
  "allocateRoutePortForNode d n excl reserved = Some p \<Longrightarrow>
     free_port d n excl p \<and> (n, p) \<notin> set reserved"
  unfolding allocateRoutePortForNode_def
  by (cases "GetNodeById d n") (auto simp: isRoutePortAvailable_iff dest!: find_port_Some)

lemma allocatePorts_Inr:
  "allocatePorts d t sp excl = Inr (i, out) \<Longrightarrow>
     free_port d (t_InNodeId t) excl i \<and> (\<forall>p. sp = Some p \<longrightarrow> i = p) \<and>
     (if t_Type t = tunnelTypeTunnelForward then free_port d (t_OutNodeId t) excl out else out = 0)"
  by (auto simp: allocatePorts_def Let_def isInPortAvailable_iff
      dest!: allocatePortForNode_Some split: option.splits if_splits)

lemma allocate_relays_Inr:
  "allocate_relays d r excl reserved hops = Inr ports \<Longrightarrow>
     map p_NodeId ports = map h_NodeId hops \<and> map p_HopOrder ports = map h_HopOrder hops \<and>
     (\<forall>rp \<in> set ports. p_RouteId rp = r \<and> free_port d (p_NodeId rp) excl (p_RelayPort rp) \<and>
        (p_NodeId rp, p_RelayPort rp) \<notin> set reserved) \<and>
     distinct (map (\<lambda>rp. (p_NodeId rp, p_RelayPort rp)) ports)"
proof (induction d r excl reserved hops arbitrary: ports rule: allocate_relays.induct)
  case (1 d routeId excl reserved)
  then show ?case by simp
next
  case (2 d routeId excl reserved hop hops)
  from "2.prems" obtain p rest
    where p: "allocateRoutePortForNode d (h_NodeId hop) excl reserved = Some p"
      and rest: "allocate_relays d routeId excl (reserveRoutePort reserved (h_NodeId hop) p) hops = Inr rest"
      and ports: "ports = \<lparr>p_ID = 0, p_ForwardId = 0, p_RouteId = routeId, p_HopOrder = h_HopOrder hop,
                     p_NodeId = h_NodeId hop, p_RelayPort = p, p_CreatedTime = 0,
                     p_UpdatedTime = 0\<rparr> # rest"
    by (auto split: option.splits sum.splits)
  show ?case
    using "2.IH" [OF p rest] allocateRoutePortForNode_Some [OF p] unfolding ports
    by (auto simp: reserveRoutePort_def)
qed

lemma allocateRouteForwardPorts_Inr:
  assumes "allocateRouteForwardPorts d route hops sp excl = Inr (i, ports)"
  shows "\<exists>h0 hs. hops = h0 # hs \<and> hs \<noteq> [] \<and> free_port d (h_NodeId h0) excl i \<and>
     (\<forall>p. sp = Some p \<longrightarrow> i = p) \<and>
     map p_NodeId ports = map h_NodeId hs \<and> map p_HopOrder ports = map h_HopOrder hs \<and>
     (\<forall>rp \<in> set ports. p_RouteId rp = r_ID route \<and>
        free_port d (p_NodeId rp) excl (p_RelayPort rp)) \<and>
     distinct ((h_NodeId h0, i) # map (\<lambda>rp. (p_NodeId rp, p_RelayPort rp)) ports)"
proof -
  from assms obtain h0 h1 rest where hops: "hops = h0 # h1 # rest"
    by (auto simp: allocateRouteForwardPorts_def split: list.splits)
  from assms have entry: "free_port d (h_NodeId h0) excl i \<and> (\<forall>p. sp = Some p \<longrightarrow> i = p)"
    and relays: "allocate_relays d (r_ID route) excl (reserveRoutePort [] (h_NodeId h0) i)
        (h1 # rest) = Inr ports"
    unfolding hops
    by (auto simp: allocateRouteForwardPorts_def Let_def isRoutePortAvailable_iff
        dest!: allocateRoutePortForNode_Some split: option.splits sum.splits if_splits
        simp del: allocate_relays.simps)
  from allocate_relays_Inr [OF relays] entry hops show ?thesis
    by (auto simp: reserveRoutePort_def)
qed

section \<open>Keeping ports exclusive\<close>

text \<open>A write that only changes what forward \<open>k\<close> holds, and gives it ports no other forward
  holds, keeps them exclusive.\<close>

lemma ports_exclusive_change:
  assumes inv: "ports_exclusive d"
    and same: "\<And>n p k'. k' \<noteq> k \<Longrightarrow> occupies d' n p k' \<Longrightarrow> occupies d n p k'"
    and fresh: "\<And>n p k'. k' \<noteq> k \<Longrightarrow> occupies d' n p k \<Longrightarrow> \<not> occupies d n p k'"
  shows "ports_exclusive d'"
  unfolding ports_exclusive_def
proof (intro allI impI)
  fix n p a b
  assume a: "occupies d' n p a" and b: "occupies d' n p b"
  consider "a = k" "b = k" | "a = k" "b \<noteq> k" | "a \<noteq> k" "b = k" | "a \<noteq> k" "b \<noteq> k" by blast
  then show "a = b"
  proof cases
    case 2
    then show ?thesis using fresh same a b by blast
  next
    case 3
    then show ?thesis using fresh same a b by blast
  next
    case 4
    then have "occupies d n p a" and "occupies d n p b" using same a b by blast+
    then show ?thesis using inv by (auto simp: ports_exclusive_def)
  qed simp
qed

lemma ports_exclusive_mono:
  assumes "ports_exclusive d" and "\<And>n p k. occupies d' n p k \<Longrightarrow> occupies d n p k"
  shows "ports_exclusive d'"
  using assms unfolding ports_exclusive_def by blast

lemma occupies_frame:
  "forwards d' = forwards d \<Longrightarrow> route_ports d' = route_ports d \<Longrightarrow> tunnels d' = tunnels d \<Longrightarrow>
     route_hops d' = route_hops d \<Longrightarrow> occupies d' n p k = occupies d n p k"
  by (simp add: occupies_def occupies_entry_def occupies_exit_def)

end
