(* ===== verification/Net_Addr.thy ===== *)
theory Net_Addr
  imports Go_Text
begin

text \<open>
  Addresses: the parts of Go's \<open>net\<close> package the SSRF check of service/forward.go uses
  (\<open>net.ParseIP\<close>, \<open>IPNet.Contains\<close>) and the address helpers of that file. An
  \<open>net.IP\<close> is the list of its 16 bytes, as \<open>net.ParseIP\<close> returns it.
\<close>

section \<open>net.ParseIP\<close>

text \<open>One decimal field of a dotted quad: no leading zero, at most 255.\<close>

definition ipv4_field :: "string \<Rightarrow> nat option" where
  "ipv4_field s =
     (if s = [] \<or> (length s > 1 \<and> hd s = CHR ''0'') then None
      else (case undec 0 s of None \<Rightarrow> None | Some v \<Rightarrow> if v \<le> 255 then Some v else None))"

definition ipv4_fields :: "string \<Rightarrow> nat list option" where
  "ipv4_fields s =
     (case map ipv4_field (split_on (CHR ''.'') s) of
        [Some a, Some b, Some c, Some d] \<Rightarrow> Some [a, b, c, d]
      | _ \<Rightarrow> None)"

definition v4_prefix :: "nat list" where
  "v4_prefix = [0, 0, 0, 0, 0, 0, 0, 0, 0, 0, 255, 255]"

definition hex_val :: "char \<Rightarrow> nat option" where
  "hex_val c =
     (let n = (of_char c :: nat)
      in if 48 \<le> n \<and> n \<le> 57 then Some (n - 48)
         else if 97 \<le> n \<and> n \<le> 102 then Some (n - 87)
         else if 65 \<le> n \<and> n \<le> 70 then Some (n - 55)
         else None)"

text \<open>The longest run of hexadecimal digits: its value, its length and the rest.\<close>

fun hex_run :: "nat \<Rightarrow> nat \<Rightarrow> string \<Rightarrow> nat \<times> nat \<times> string" where
  "hex_run acc off [] = (acc, off, [])"
| "hex_run acc off (c # cs) =
     (case hex_val c of
        None \<Rightarrow> (acc, off, c # cs)
      | Some v \<Rightarrow> hex_run (acc * 16 + v) (Suc off) cs)"

text \<open>The loop of \<open>netip.parseIPv6\<close>: \<open>ip\<close> holds the bytes read, \<open>ellipsis\<close> the
  position of \<open>::\<close>. Each round writes two bytes (a dotted quad four and ends), so eight
  rounds fill the sixteen bytes: the fuel is 8.\<close>

fun ipv6_groups :: "nat \<Rightarrow> nat list \<Rightarrow> nat option \<Rightarrow> string \<Rightarrow> (nat list \<times> nat option) option" where
  "ipv6_groups 0 ip ellipsis s = (if s = [] then Some (ip, ellipsis) else None)"
| "ipv6_groups (Suc n) ip ellipsis s =
     (case hex_run 0 0 s of (acc, off, rest) \<Rightarrow>
        if off = 0 \<or> off > 4 \<or> acc > 65535 then None
        else if rest \<noteq> [] \<and> hd rest = CHR ''.'' then
          (if ellipsis = None \<and> length ip \<noteq> 12 \<or> length ip + 4 > 16 then None
           else map_option (\<lambda>q. (ip @ q, ellipsis)) (ipv4_fields s))
        else (let ip' = ip @ [acc div 256, acc mod 256]
              in if rest = [] then Some (ip', ellipsis)
                 else if hd rest \<noteq> CHR '':'' \<or> tl rest = [] then None
                 else (let s1 = tl rest
                       in if hd s1 = CHR '':'' then
                            (if ellipsis \<noteq> None then None
                             else if tl s1 = [] then Some (ip', Some (length ip'))
                             else ipv6_groups n ip' (Some (length ip')) (tl s1))
                          else ipv6_groups n ip' ellipsis s1)))"

definition expand_ellipsis :: "nat list \<Rightarrow> nat option \<Rightarrow> nat list option" where
  "expand_ellipsis ip ellipsis =
     (case ellipsis of
        None \<Rightarrow> if length ip < 16 then None else Some ip
      | Some e \<Rightarrow> if length ip < 16
                  then Some (take e ip @ replicate (16 - length ip) 0 @ drop e ip) else None)"

definition parse_ipv6 :: "string \<Rightarrow> nat list option" where
  "parse_ipv6 s =
     (if has_prefix s ''::'' then
        (if drop 2 s = [] then Some (replicate 16 0)
         else (case ipv6_groups 8 [] (Some 0) (drop 2 s) of
                 None \<Rightarrow> None | Some (ip, e) \<Rightarrow> expand_ellipsis ip e))
      else (case ipv6_groups 8 [] None s of
              None \<Rightarrow> None | Some (ip, e) \<Rightarrow> expand_ellipsis ip e))"

text \<open>The first of \<open>.\<close>, \<open>:\<close> and \<open>%\<close> decides the family; an address with a zone
  is not an IP.\<close>

definition ParseIP :: "string \<Rightarrow> nat list option" where
  "ParseIP s =
     (case dropWhile (\<lambda>c. c \<noteq> CHR ''.'' \<and> c \<noteq> CHR '':'' \<and> c \<noteq> CHR ''%'') s of
        [] \<Rightarrow> None
      | c # _ \<Rightarrow> if c = CHR ''.'' then map_option (\<lambda>q. v4_prefix @ q) (ipv4_fields s)
                 else if c = CHR '':'' then
                   (if CHR ''%'' \<in> set s then None else parse_ipv6 s)
                 else None)"

section \<open>Networks\<close>

definition To4 :: "nat list \<Rightarrow> nat list option" where
  "To4 ip = (if length ip = 4 then Some ip
             else if length ip = 16 \<and> take 12 ip = v4_prefix then Some (drop 12 ip) else None)"

text \<open>The first \<open>n\<close> bits of two addresses agree.\<close>

fun prefix_match :: "nat \<Rightarrow> nat list \<Rightarrow> nat list \<Rightarrow> bool" where
  "prefix_match n (a # as) (b # bs) =
     (if n = 0 then True
      else if n < 8 then a div 2 ^ (8 - n) = b div 2 ^ (8 - n)
      else a = b \<and> prefix_match (n - 8) as bs)"
| "prefix_match n as bs = True"

definition net_contains :: "nat list \<times> nat \<Rightarrow> nat list \<Rightarrow> bool" where
  "net_contains net ip =
     (case net of (addr, ones) \<Rightarrow>
        let x = (case To4 ip of Some v4 \<Rightarrow> v4 | None \<Rightarrow> ip)
        in length x = length addr \<and> prefix_match ones x addr)"

text \<open>\<open>isPrivateIP\<close> of service/forward.go; the networks are those of its CIDR list.\<close>

definition privateRanges :: "(nat list \<times> nat) list" where
  "privateRanges =
     [([127, 0, 0, 0], 8), ([10, 0, 0, 0], 8), ([172, 16, 0, 0], 12), ([192, 168, 0, 0], 16),
      ([169, 254, 0, 0], 16), (replicate 15 0 @ [1], 128),
      ([252] @ replicate 15 0, 7), ([254, 128] @ replicate 14 0, 10)]"

definition isPrivateIP :: "string \<Rightarrow> bool" where
  "isPrivateIP ipStr =
     (case ParseIP ipStr of
        None \<Rightarrow> False
      | Some ip \<Rightarrow> list_ex (\<lambda>network. net_contains network ip) privateRanges)"

section \<open>Address parts\<close>

definition extractIpFromAddress :: "string \<Rightarrow> string" where
  "extractIpFromAddress address0 =
     (let address = trim_space address0;
          by_colon = (case last_index (CHR '':'') address of
            None \<Rightarrow> address
          | Some lastColon \<Rightarrow> if 0 < lastColon then take lastColon address else address)
      in if address = [] then []
         else if has_prefix address ''['' then
           (case index_of (CHR '']'') address of
              Some closeBracket \<Rightarrow>
                if 1 < closeBracket then take (closeBracket - 1) (tl address) else by_colon
            | None \<Rightarrow> by_colon)
         else by_colon)"

text \<open>The digit loop of \<open>extractPortFromAddress\<close>; a Go \<open>int\<close> has 64 bits.\<close>

fun port_digits :: "int \<Rightarrow> string \<Rightarrow> int" where
  "port_digits port [] = port"
| "port_digits port (c # cs) =
     (if is_digit c then port_digits (i64 (port * 10 + int (digit_val c))) cs else -1)"

definition extractPortFromAddress :: "string \<Rightarrow> int" where
  "extractPortFromAddress address0 =
     (let address = trim_space address0;
          by_colon = (case last_index (CHR '':'') address of
            None \<Rightarrow> -1
          | Some lastColon \<Rightarrow> if 0 < lastColon \<and> lastColon + 1 < length address
              then port_digits 0 (drop (lastColon + 1) address) else -1)
      in if address = [] then -1
         else if has_prefix address ''['' then
           (case index_of (CHR '']'') address of
              Some closeBracket \<Rightarrow>
                if 1 < closeBracket \<and> closeBracket + 1 < length address
                   \<and> address ! (closeBracket + 1) = CHR '':''
                then port_digits 0 (drop (closeBracket + 2) address) else by_colon
            | None \<Rightarrow> by_colon)
         else by_colon)"

section \<open>Facts\<close>

lemma digit_not_zero: "0 < n \<Longrightarrow> n < 10 \<Longrightarrow> digit n \<noteq> CHR ''0''"
proof
  assume "0 < n" and "n < 10" and "digit n = CHR ''0''"
  then have "(48 + n :: nat) = of_char (CHR ''0'')" by (metis of_char_digit)
  with \<open>0 < n\<close> show False by simp
qed

lemma dec_no_leading_zero: "0 < n \<Longrightarrow> hd (dec n) \<noteq> CHR ''0''"
proof (induction n rule: dec.induct)
  case (1 n)
  show ?case
  proof (cases "n < 10")
    case True
    then show ?thesis using "1.prems" digit_not_zero by (simp add: dec.simps [of n])
  next
    case False
    have "dec n = dec (n div 10) @ [digit (n mod 10)]" using False by (subst dec.simps) simp
    then show ?thesis using "1.IH" False by simp
  qed
qed

lemma ipv4_field_dec: "n \<le> 255 \<Longrightarrow> ipv4_field (dec n) = Some n"
proof (cases "n = 0")
  case True
  then show ?thesis by (simp add: ipv4_field_def dec.simps [of 0])
next
  case False
  assume "n \<le> 255"
  with False dec_no_leading_zero [of n] show ?thesis by (simp add: ipv4_field_def)
qed

lemma dec_no_dot: "CHR ''.'' \<notin> set (dec n)" "CHR '':'' \<notin> set (dec n)" "CHR ''%'' \<notin> set (dec n)"
  using dec_digits [of "CHR ''.''" n] dec_digits [of "CHR '':''" n] dec_digits [of "CHR ''%''" n]
  by (auto simp: is_digit_def)

text \<open>The text of an IPv4 address is read back as that address.\<close>

definition ipv4_text :: "nat \<Rightarrow> nat \<Rightarrow> nat \<Rightarrow> nat \<Rightarrow> string" where
  "ipv4_text a b c d = dec a @ ''.'' @ dec b @ ''.'' @ dec c @ ''.'' @ dec d"

lemma ParseIP_ipv4_text:
  assumes "a \<le> 255" and "b \<le> 255" and "c \<le> 255" and "d \<le> 255"
  shows "ParseIP (ipv4_text a b c d) = Some (v4_prefix @ [a, b, c, d])"
proof -
  have drop: "dropWhile (\<lambda>x. x \<noteq> CHR ''.'' \<and> x \<noteq> CHR '':'' \<and> x \<noteq> CHR ''%'') (ipv4_text a b c d) =
      CHR ''.'' # dec b @ ''.'' @ dec c @ ''.'' @ dec d"
  proof -
    have "\<forall>x \<in> set (dec a). x \<noteq> CHR ''.'' \<and> x \<noteq> CHR '':'' \<and> x \<noteq> CHR ''%''"
      using dec_no_dot by metis
    then show ?thesis unfolding ipv4_text_def by (simp add: dropWhile_append2)
  qed
  have "split_on (CHR ''.'') (ipv4_text a b c d) = [dec a, dec b, dec c, dec d]"
    unfolding ipv4_text_def using dec_no_dot(1) by (simp add: split_on_sep split_on_no_sep)
  with assms have "ipv4_fields (ipv4_text a b c d) = Some [a, b, c, d]"
    by (simp add: ipv4_fields_def ipv4_field_dec)
  with drop show ?thesis by (simp add: ParseIP_def)
qed

lemma isPrivateIP_ipv4_text:
  assumes "a \<le> 255" and "b \<le> 255" and "c \<le> 255" and "d \<le> 255"
  shows "isPrivateIP (ipv4_text a b c d) \<longleftrightarrow>
    a = 127 \<or> a = 10 \<or> (a = 172 \<and> 16 \<le> b \<and> b \<le> 31) \<or> (a = 192 \<and> b = 168) \<or>
    (a = 169 \<and> b = 254)"
proof -
  have "b div 16 = 1 \<longleftrightarrow> 16 \<le> b \<and> b \<le> 31" by presburger
  then show ?thesis
    by (auto simp: isPrivateIP_def ParseIP_ipv4_text assms privateRanges_def net_contains_def
        To4_def v4_prefix_def)
qed

end
