(* ===== verification/Access.thy ===== *)
theory Access
  imports Ports Net_Addr
begin

text \<open>
  Who may do what: the SSRF check on targets, the node permissions of service/user.go and the
  ownership, permission, flow and quota checks of service/forward.go. A check returns
  \<open>None\<close> when it passes, the cause of the refusal otherwise.
\<close>

section \<open>Targets\<close>

definition check_host :: "'n env \<Rightarrow> string \<Rightarrow> err option" where
  "check_host e host =
     (if host = [] then None
      else if isPrivateIP host then Some (AccessErr (SsrfBlocked host))
      else if ParseIP host = None then
        (case LookupIP e host of
           None \<Rightarrow> None
         | Some ips \<Rightarrow> (case first_where isPrivateIP ips of
             None \<Rightarrow> None | Some ip \<Rightarrow> Some (AccessErr (SsrfBlocked host))))
      else None)"

fun first_refusal :: "('a \<Rightarrow> err option) \<Rightarrow> 'a list \<Rightarrow> err option" where
  "first_refusal check [] = None"
| "first_refusal check (x # xs) =
     (case check x of Some er \<Rightarrow> Some er | None \<Rightarrow> first_refusal check xs)"

definition validateRemoteAddr :: "'n env \<Rightarrow> string \<Rightarrow> int \<Rightarrow> err option" where
  "validateRemoteAddr e remoteAddr roleId =
     (if roleId = adminRoleId then None
      else first_refusal (\<lambda>addr. check_host e (extractIpFromAddress (trim_space addr)))
             (split_on (CHR '','') remoteAddr))"

lemma first_refusal_None: "first_refusal check xs = None \<longleftrightarrow> (\<forall>x \<in> set xs. check x = None)"
  by (induction xs) (auto split: option.splits)

lemma first_refusal_Some: "first_refusal check xs = Some er \<Longrightarrow> \<exists>x \<in> set xs. check x = Some er"
  by (induction xs) (auto split: option.splits)

section \<open>Nodes a user may use\<close>

definition UserHasNodeAccess :: "db \<Rightarrow> int \<Rightarrow> int \<Rightarrow> bool" where
  "UserHasNodeAccess d userId nodeId =
     (let total = count_where (\<lambda>un. un_UserId un = userId) (user_nodes d)
      in if total = 0 then True
         else count_where (\<lambda>un. un_UserId un = userId \<and> un_NodeId un = nodeId) (user_nodes d) > 0)"

definition UserHasGostNodeAccess :: "db \<Rightarrow> int \<Rightarrow> int \<Rightarrow> bool" where
  "UserHasGostNodeAccess d userId nodeId =
     (let total = count_where (\<lambda>un. un_UserId un = userId) (user_nodes d)
      in if total = 0 then True
         else count_where (\<lambda>un. un_UserId un = userId \<and> un_NodeId un = nodeId \<and>
                un_GostEnabled un = 1) (user_nodes d) > 0)"

text \<open>\<open>deriveUserPermissions\<close>: the two flags of the user row follow its node rows.\<close>

definition deriveUserPermissions :: "'n env \<Rightarrow> int \<Rightarrow> 'n world \<Rightarrow> 'n world" where
  "deriveUserPermissions e userId w =
     (let d = wdb w;
          total = count_where (\<lambda>un. un_UserId un = userId) (user_nodes d);
          xrayCount = count_where (\<lambda>un. un_UserId un = userId \<and> un_XrayEnabled un = 1) (user_nodes d);
          gostCount = count_where (\<lambda>un. un_UserId un = userId \<and> un_GostEnabled un = 1) (user_nodes d);
          (gost, xray) = (if total = 0 then (1, 1)
             else (if gostCount > 0 then 1 else 0, if xrayCount > 0 then 1 else 0))
      in db_exec e (users_update (update_where (\<lambda>u. u_ID u = userId)
           (\<lambda>u. u\<lparr>u_GostEnabled := gost, u_XrayEnabled := xray\<rparr>))) w)"

section \<open>Rows\<close>

definition validateForwardExists :: "db \<Rightarrow> int \<Rightarrow> int \<Rightarrow> int \<Rightarrow> Forward option" where
  "validateForwardExists d forwardId userId roleId =
     (case firstForward d forwardId of
        None \<Rightarrow> None
      | Some forward \<Rightarrow>
          if roleId \<noteq> adminRoleId \<and> userId \<noteq> f_UserId forward then None else Some forward)"

text \<open>\<open>getRequiredNodes\<close>: the entry node, and for a tunnel forward the exit node.\<close>

definition getRequiredNodes :: "db \<Rightarrow> Tunnel \<Rightarrow> err + Node \<times> Node option" where
  "getRequiredNodes d tunnel =
     (case GetNodeById d (t_InNodeId tunnel) of
        None \<Rightarrow> Inl (PortErr EntryNodeNotFound)
      | Some inNode \<Rightarrow>
          if t_Type tunnel = tunnelTypeTunnelForward
          then (case GetNodeById d (t_OutNodeId tunnel) of
                  None \<Rightarrow> Inl (PortErr ExitNodeNotFound)
                | Some outNode \<Rightarrow> Inr (inNode, Some outNode))
          else Inr (inNode, None))"

section \<open>Quota, permission and flow\<close>

definition checkForwardQuota ::
  "db \<Rightarrow> int \<Rightarrow> int \<Rightarrow> UserTunnel \<Rightarrow> User \<Rightarrow> int option \<Rightarrow> err option" where
  "checkForwardQuota d userId tunnelId userTunnel user excludeForwardId =
     (let userForwardCount = count_where (\<lambda>f. f_UserId f = userId \<and>
              not_excluded excludeForwardId (f_ID f)) (forwards d);
          tunnelForwardCount = count_where (\<lambda>f. f_UserId f = userId \<and> f_TunnelId f = tunnelId \<and>
              not_excluded excludeForwardId (f_ID f)) (forwards d)
      in if u_Num user \<noteq> 0 \<and> userForwardCount \<ge> u_Num user
         then Some (AccessErr (UserForwardQuota (u_Num user)))
         else if ut_Num userTunnel \<noteq> 0 \<and> tunnelForwardCount \<ge> ut_Num userTunnel
         then Some (AccessErr (TunnelForwardQuota (ut_Num userTunnel)))
         else None)"

text \<open>The byte arithmetic of the flow limits, in Go's \<open>int64\<close>.\<close>

definition flow_used_up :: "int \<Rightarrow> int \<Rightarrow> int \<Rightarrow> bool" where
  "flow_used_up flow inFlow outFlow =
     (flow \<noteq> 0 \<and> i64 (flow * bytesToGB) \<le> i64 (inFlow + outFlow))"

definition checkUserPermissions ::
  "'n env \<Rightarrow> db \<Rightarrow> int \<Rightarrow> int \<Rightarrow> Tunnel \<Rightarrow> int option \<Rightarrow> err + int option \<times> UserTunnel option" where
  "checkUserPermissions e d userId roleId tunnel excludeForwardId =
     (if roleId = adminRoleId then Inr (None, None)
      else case firstUser d userId of
        None \<Rightarrow> Inl (AccessErr UserNotFound)
      | Some user \<Rightarrow>
          if u_ExpTime user \<noteq> 0 \<and> u_ExpTime user \<le> now e then Inl (AccessErr AccountExpired)
          else case getUserTunnel d userId (t_ID tunnel) of
            None \<Rightarrow> Inl (AccessErr NoTunnelPermission)
          | Some ut \<Rightarrow>
              if ut_Status ut \<noteq> 1 then Inl (AccessErr TunnelPermissionDisabled)
              else if ut_ExpTime ut \<noteq> 0 \<and> ut_ExpTime ut \<le> now e
              then Inl (AccessErr TunnelPermissionExpired)
              else if flow_used_up (u_Flow user) (u_InFlow user) (u_OutFlow user)
              then Inl (AccessErr UserFlowUsedUp)
              else if flow_used_up (ut_Flow ut) (ut_InFlow ut) (ut_OutFlow ut)
              then Inl (AccessErr TunnelFlowUsedUp)
              else (case checkForwardQuota d userId (t_ID tunnel) ut user excludeForwardId of
                      Some er \<Rightarrow> Inl er
                    | None \<Rightarrow> Inr (ut_SpeedId ut, Some ut)))"

definition checkUserFlowLimits :: "'n env \<Rightarrow> db \<Rightarrow> int \<Rightarrow> Tunnel \<Rightarrow> err option" where
  "checkUserFlowLimits e d userId tunnel =
     (case firstUser d userId of
        None \<Rightarrow> Some (AccessErr UserNotFound)
      | Some user \<Rightarrow>
          if u_ExpTime user \<noteq> 0 \<and> u_ExpTime user \<le> now e then Some (AccessErr AccountExpired)
          else case getUserTunnel d userId (t_ID tunnel) of
            None \<Rightarrow> Some (AccessErr NoTunnelPermission)
          | Some ut \<Rightarrow>
              if ut_ExpTime ut \<noteq> 0 \<and> ut_ExpTime ut \<le> now e
              then Some (AccessErr TunnelPermissionExpired)
              else if flow_used_up (u_Flow user) (u_InFlow user) (u_OutFlow user)
              then Some (AccessErr UserFlowUsedUp)
              else if flow_used_up (ut_Flow ut) (ut_InFlow ut) (ut_OutFlow ut)
              then Some (AccessErr TunnelFlowUsedUp)
              else None)"

text \<open>The account check at the start of the operations of a signed-in user.\<close>

definition check_account :: "db \<Rightarrow> int \<Rightarrow> int \<Rightarrow> err option" where
  "check_account d userId roleId =
     (if roleId = adminRoleId then None
      else case firstUser d userId of
        None \<Rightarrow> Some (AccessErr UserNotFound)
      | Some user \<Rightarrow> if u_Status user = 0 then Some (AccessErr AccountDisabled) else None)"

text \<open>The node check of \<open>CreateForward\<close>: a node that is gone is left to the later checks.\<close>

definition check_nodes :: "db \<Rightarrow> int \<Rightarrow> int \<Rightarrow> Tunnel \<Rightarrow> err option" where
  "check_nodes d userId roleId tunnel =
     (let denied = (\<lambda>nodeId. case GetNodeById d nodeId of None \<Rightarrow> False
            | Some node \<Rightarrow> \<not> UserHasGostNodeAccess d userId (n_ID node))
      in if roleId = adminRoleId then None
         else if denied (t_InNodeId tunnel) then Some (AccessErr EntryNodeForbidden)
         else if t_Type tunnel = tunnelTypeTunnelForward \<and> denied (t_OutNodeId tunnel)
         then Some (AccessErr ExitNodeForbidden)
         else None)"

section \<open>Facts\<close>

lemma validateForwardExists_Some:
  "validateForwardExists d k userId roleId = Some f \<Longrightarrow>
     firstForward d k = Some f \<and> f \<in> set (forwards d) \<and> f_ID f = k \<and>
     (roleId = adminRoleId \<or> f_UserId f = userId)"
  by (auto simp: validateForwardExists_def dest: firstForward_Some split: option.splits if_splits)

lemma getRequiredNodes_Inr:
  "getRequiredNodes d t = Inr (i, out) \<Longrightarrow>
     GetNodeById d (t_InNodeId t) = Some i \<and>
     (if t_Type t = tunnelTypeTunnelForward
      then \<exists>n. GetNodeById d (t_OutNodeId t) = Some n \<and> out = Some n else out = None)"
  by (auto simp: getRequiredNodes_def split: option.splits if_splits)

lemma getRequiredNodes_listen:
  "getRequiredNodes d (t\<lparr>t_TcpListenAddr := a, t_UdpListenAddr := b\<rparr>) = getRequiredNodes d t"
  by (simp add: getRequiredNodes_def cong: option.case_cong if_cong)

text \<open>What a passed permission check guarantees.\<close>

lemma checkUserPermissions_Inr:
  assumes "checkUserPermissions e d userId roleId t excl = Inr (limiter, ut)" and "roleId \<noteq> adminRoleId"
  shows "\<exists>u x. firstUser d userId = Some u \<and> getUserTunnel d userId (t_ID t) = Some x \<and>
     ut = Some x \<and> limiter = ut_SpeedId x \<and> (u_ExpTime u = 0 \<or> now e < u_ExpTime u) \<and>
     ut_Status x = 1 \<and> (ut_ExpTime x = 0 \<or> now e < ut_ExpTime x) \<and>
     \<not> flow_used_up (u_Flow u) (u_InFlow u) (u_OutFlow u) \<and>
     \<not> flow_used_up (ut_Flow x) (ut_InFlow x) (ut_OutFlow x) \<and>
     checkForwardQuota d userId (t_ID t) x u excl = None"
  using assms by (auto simp: checkUserPermissions_def split: option.splits if_splits)

lemma checkForwardQuota_None:
  "checkForwardQuota d userId tid x u excl = None \<longleftrightarrow>
     (u_Num u \<noteq> 0 \<longrightarrow> count_where (\<lambda>f. f_UserId f = userId \<and> not_excluded excl (f_ID f))
        (forwards d) < u_Num u) \<and>
     (ut_Num x \<noteq> 0 \<longrightarrow> count_where (\<lambda>f. f_UserId f = userId \<and> f_TunnelId f = tid \<and>
        not_excluded excl (f_ID f)) (forwards d) < ut_Num x)"
  by (auto simp: checkForwardQuota_def Let_def)

end
