(* ===== verification/Gost_Services.thy ===== *)
theory Gost_Services
  imports Access
begin

text \<open>
  The services of a tunnel forward on its nodes (service/forward.go, \<open>createGostServices\<close> to
  \<open>updateForwardStatusToError\<close>). A tunnel of type 1 has one pair of services on the entry node;
  a tunnel of type 2 has a chain and a pair of services on the entry node and a relay
  service on the exit node. An operation returns the error text, empty for success.
  A nil \<open>outNode\<close> that the code would dereference is the error \<open>nil_panic\<close>; callers get
  \<open>outNode\<close> from \<open>getRequiredNodes\<close>, which returns it for every tunnel of type 2.
\<close>

definition nil_panic :: string where
  "nil_panic = ''nil pointer''"

definition is_ok :: "GostResponse \<Rightarrow> bool" where
  "is_ok r = isGostSuccess (Some r)"

definition service_ifname :: "Tunnel \<Rightarrow> Forward \<Rightarrow> string" where
  "service_ifname tunnel forward =
     (if t_Type tunnel \<noteq> tunnelTypeTunnelForward then f_InterfaceName forward else [])"

section \<open>Creating\<close>

text \<open>The first part of \<open>createGostServices\<close>: chain and remote service of a type 2 tunnel.\<close>

definition createRemotePart ::
  "'n env \<Rightarrow> Forward \<Rightarrow> Tunnel \<Rightarrow> Node \<Rightarrow> Node option \<Rightarrow> string \<Rightarrow> 'n world \<Rightarrow> string \<times> 'n world" where
  "createRemotePart e forward tunnel inNode outNode serviceName w =
     (let chainRemoteAddr = formatRemoteAddr (t_OutIp tunnel) (f_OutPort forward);
          (chainResult, w1) = AddChains e (n_ID inNode) serviceName chainRemoteAddr
             (t_Protocol tunnel) (t_InterfaceName tunnel) w
      in if \<not> is_ok chainResult
         then (g_Msg chainResult, snd (DeleteChains e (n_ID inNode) serviceName w1))
         else case outNode of
           None \<Rightarrow> (nil_panic, w1)
         | Some out \<Rightarrow>
             (let (remoteResult, w2) = AddRemoteService e (n_ID out) serviceName
                    (f_OutPort forward) (f_RemoteAddr forward) (t_Protocol tunnel)
                    (f_Strategy forward) (f_InterfaceName forward) w1
              in if \<not> is_ok remoteResult
                 then (let w3 = snd (DeleteChains e (n_ID inNode) serviceName w2)
                       in (g_Msg remoteResult,
                           snd (DeleteRemoteService e (n_ID out) serviceName w3)))
                 else ([], w2)))"

definition createGostServices ::
  "'n env \<Rightarrow> Forward \<Rightarrow> Tunnel \<Rightarrow> int option \<Rightarrow> Node \<Rightarrow> Node option \<Rightarrow> string \<Rightarrow> 'n world
     \<Rightarrow> string \<times> 'n world" where
  "createGostServices e forward tunnel limiter inNode outNode serviceName w =
     (let (remoteErr, w1) =
            (if t_Type tunnel = tunnelTypeTunnelForward
             then createRemotePart e forward tunnel inNode outNode serviceName w else ([], w))
      in if remoteErr \<noteq> [] then (remoteErr, w1)
         else
           (let (serviceResult, w2) = AddService e (n_ID inNode) serviceName (f_InPort forward)
                  limiter (f_RemoteAddr forward) (t_Type tunnel) tunnel (f_Strategy forward)
                  (service_ifname tunnel forward) w1
            in if \<not> is_ok serviceResult
               then (let w3 = snd (DeleteChains e (n_ID inNode) serviceName w2);
                         w4 = (case outNode of None \<Rightarrow> w3
                               | Some out \<Rightarrow> snd (DeleteRemoteService e (n_ID out) serviceName w3))
                     in (g_Msg serviceResult, w4))
               else ([], w2)))"

section \<open>Updating\<close>

definition is_not_found :: "GostResponse \<Rightarrow> bool" where
  "is_not_found r = contains_str (g_Msg r) gostNotFoundMsg"

text \<open>An update that falls back to an add when the node does not know the object.\<close>

definition update_or_add ::
  "('n world \<Rightarrow> GostResponse \<times> 'n world) \<Rightarrow> ('n world \<Rightarrow> GostResponse \<times> 'n world) \<Rightarrow> 'n world
     \<Rightarrow> GostResponse \<times> 'n world" where
  "update_or_add update add w =
     (let (r, w1) = update w in if is_not_found r then add w1 else (r, w1))"

definition syncRemotePart ::
  "'n env \<Rightarrow> Forward \<Rightarrow> Tunnel \<Rightarrow> Node \<Rightarrow> Node option \<Rightarrow> string \<Rightarrow> 'n world \<Rightarrow> string \<times> 'n world" where
  "syncRemotePart e forward tunnel inNode outNode serviceName w =
     (let chainRemoteAddr = formatRemoteAddr (t_OutIp tunnel) (f_OutPort forward);
          (chainResult, w1) = update_or_add
             (UpdateChains e (n_ID inNode) serviceName chainRemoteAddr (t_Protocol tunnel)
                (t_InterfaceName tunnel))
             (AddChains e (n_ID inNode) serviceName chainRemoteAddr (t_Protocol tunnel)
                (t_InterfaceName tunnel)) w
      in if \<not> is_ok chainResult then (g_Msg chainResult, w1)
         else case outNode of
           None \<Rightarrow> (nil_panic, w1)
         | Some out \<Rightarrow>
             (let (remoteResult, w2) = update_or_add
                    (UpdateRemoteService e (n_ID out) serviceName (f_OutPort forward)
                       (f_RemoteAddr forward) (t_Protocol tunnel) (f_Strategy forward)
                       (f_InterfaceName forward))
                    (AddRemoteService e (n_ID out) serviceName (f_OutPort forward)
                       (f_RemoteAddr forward) (t_Protocol tunnel) (f_Strategy forward)
                       (f_InterfaceName forward)) w1
              in if \<not> is_ok remoteResult then (g_Msg remoteResult, w2) else ([], w2)))"

definition syncGostServices ::
  "'n env \<Rightarrow> Forward \<Rightarrow> Tunnel \<Rightarrow> int option \<Rightarrow> Node \<Rightarrow> Node option \<Rightarrow> string \<Rightarrow> 'n world
     \<Rightarrow> string \<times> 'n world" where
  "syncGostServices e forward tunnel limiter inNode outNode serviceName w =
     (let (remoteErr, w1) =
            (if t_Type tunnel = tunnelTypeTunnelForward
             then syncRemotePart e forward tunnel inNode outNode serviceName w else ([], w))
      in if remoteErr \<noteq> [] then (remoteErr, w1)
         else
           (let (serviceResult, w2) = update_or_add
                  (UpdateService e (n_ID inNode) serviceName (f_InPort forward) limiter
                     (f_RemoteAddr forward) (t_Type tunnel) tunnel (f_Strategy forward)
                     (service_ifname tunnel forward))
                  (AddService e (n_ID inNode) serviceName (f_InPort forward) limiter
                     (f_RemoteAddr forward) (t_Type tunnel) tunnel (f_Strategy forward)
                     (service_ifname tunnel forward)) w1
            in if \<not> is_ok serviceResult then (g_Msg serviceResult, w2) else ([], w2)))"

definition set_forward :: "int \<Rightarrow> (Forward \<Rightarrow> Forward) \<Rightarrow> db \<Rightarrow> db" where
  "set_forward k f = forwards_update (update_where (\<lambda>r. f_ID r = k) f)"

definition updateForwardStatusToError :: "'n env \<Rightarrow> int \<Rightarrow> 'n world \<Rightarrow> 'n world" where
  "updateForwardStatusToError e forwardId =
     db_exec e (set_forward forwardId (\<lambda>f. f\<lparr>f_Status := forwardStatusError\<rparr>))"

definition updateGostServices ::
  "'n env \<Rightarrow> Forward \<Rightarrow> Tunnel \<Rightarrow> int option \<Rightarrow> Node \<Rightarrow> Node option \<Rightarrow> string \<Rightarrow> 'n world
     \<Rightarrow> string \<times> 'n world" where
  "updateGostServices e forward tunnel limiter inNode outNode serviceName w =
     (let (errStr, w1) = syncGostServices e forward tunnel limiter inNode outNode serviceName w
      in if errStr \<noteq> [] then (errStr, updateForwardStatusToError e (f_ID forward) w1)
         else (errStr, w1))"

section \<open>Deleting\<close>

text \<open>The choice by listen address the delete, pause and resume paths share.\<close>

definition multi_ip :: "string \<Rightarrow> bool" where
  "multi_ip listenIp \<longleftrightarrow> listenIp \<noteq> [] \<and> contains_str listenIp '',''"

definition delete_main ::
  "'n env \<Rightarrow> int \<Rightarrow> string \<Rightarrow> string \<Rightarrow> 'n world \<Rightarrow> GostResponse \<times> 'n world" where
  "delete_main e nodeId serviceName listenIp =
     (if multi_ip listenIp then DeleteServiceMultiIP e nodeId serviceName listenIp
      else DeleteService e nodeId serviceName)"

definition deleteGostServicesWithIP ::
  "'n env \<Rightarrow> Tunnel \<Rightarrow> Node \<Rightarrow> Node option \<Rightarrow> string \<Rightarrow> string \<Rightarrow> 'n world \<Rightarrow> string \<times> 'n world" where
  "deleteGostServicesWithIP e tunnel inNode outNode serviceName listenIp w =
     (let (serviceResult, w1) = delete_main e (n_ID inNode) serviceName listenIp w
      in if \<not> is_ok serviceResult \<and> \<not> is_not_found serviceResult then (g_Msg serviceResult, w1)
         else if t_Type tunnel \<noteq> tunnelTypeTunnelForward then ([], w1)
         else
           (let (chainResult, w2) = DeleteChains e (n_ID inNode) serviceName w1
            in if \<not> is_ok chainResult \<and> \<not> is_not_found chainResult then (g_Msg chainResult, w2)
               else case outNode of
                 None \<Rightarrow> ([], w2)
               | Some out \<Rightarrow>
                   (let (remoteResult, w3) = DeleteRemoteService e (n_ID out) serviceName w2
                    in if \<not> is_ok remoteResult \<and> \<not> is_not_found remoteResult
                       then (g_Msg remoteResult, w3) else ([], w3))))"

definition deleteGostServices ::
  "'n env \<Rightarrow> Tunnel \<Rightarrow> Node \<Rightarrow> Node option \<Rightarrow> string \<Rightarrow> 'n world \<Rightarrow> string \<times> 'n world" where
  "deleteGostServices e tunnel inNode outNode serviceName =
     deleteGostServicesWithIP e tunnel inNode outNode serviceName []"

definition deleteOldGostServices :: "'n env \<Rightarrow> Forward \<Rightarrow> Tunnel \<Rightarrow> 'n world \<Rightarrow> 'n world" where
  "deleteOldGostServices e forward oldTunnel w =
     (let d = wdb w;
          oldUserTunnel = getUserTunnel d (f_UserId forward) (t_ID oldTunnel);
          serviceName = buildServiceName (f_ID forward) (f_UserId forward) oldUserTunnel;
          required = getRequiredNodes d oldTunnel;
          w1 = (case required of
              Inl er \<Rightarrow> w
            | Inr (oldInNode, oldOutNode) \<Rightarrow>
                snd (delete_main e (n_ID oldInNode) serviceName (f_ListenIp forward) w))
      in if t_Type oldTunnel \<noteq> tunnelTypeTunnelForward then w1
         else
           (let (w2, outNode) = (case required of
                Inl er \<Rightarrow> (w1, GetNodeById d (t_OutNodeId oldTunnel))
              | Inr (oldInNode, oldOutNode) \<Rightarrow>
                  (snd (DeleteChains e (n_ID oldInNode) serviceName w1), oldOutNode))
            in case outNode of
                 None \<Rightarrow> w2
               | Some out \<Rightarrow> snd (DeleteRemoteService e (n_ID out) serviceName w2)))"

section \<open>Frames\<close>

lemma wrapper_db [frame_simps]:
  "wdb (snd (AddService e n name p lm ra ft t st ifn w)) = wdb w"
  "wdb (snd (UpdateService e n name p lm ra ft t st ifn w)) = wdb w"
  "wdb (snd (AddChains e n name ra pr ifn w)) = wdb w"
  "wdb (snd (UpdateChains e n name ra pr ifn w)) = wdb w"
  "wdb (snd (DeleteChains e n name w)) = wdb w"
  "wdb (snd (AddRemoteService e n name p ra pr st ifn w)) = wdb w"
  "wdb (snd (UpdateRemoteService e n name p ra pr st ifn w)) = wdb w"
  "wdb (snd (DeleteRemoteService e n name w)) = wdb w"
  "wdb (snd (DeleteService e n name w)) = wdb w"
  "wdb (snd (DeleteServiceMultiIP e n name ip w)) = wdb w"
  "wdb (snd (PauseService e n name w)) = wdb w"
  "wdb (snd (PauseServiceMultiIP e n name ip w)) = wdb w"
  "wdb (snd (PauseRemoteService e n name w)) = wdb w"
  "wdb (snd (ResumeService e n name w)) = wdb w"
  "wdb (snd (ResumeServiceMultiIP e n name ip w)) = wdb w"
  "wdb (snd (ResumeRemoteService e n name w)) = wdb w"
  "wdb (snd (UpdateForwarder e n name ra st w)) = wdb w"
  "wdb (snd (UpdateRemoteForwarder e n name ra st w)) = wdb w"
  by (simp_all add: msg_defs frame_simps Let_def)

lemma delete_main_db [frame_simps]: "wdb (snd (delete_main e n name ip w)) = wdb w"
  by (simp add: delete_main_def frame_simps)

lemma update_or_add_db:
  "(\<And>w. wdb (snd (u w)) = wdb w) \<Longrightarrow> (\<And>w. wdb (snd (a w)) = wdb w) \<Longrightarrow>
     wdb (snd (update_or_add u a w)) = wdb w"
  by (simp add: update_or_add_def case_prod_beta Let_def)

lemma createGostServices_db [frame_simps]:
  "wdb (snd (createGostServices e f t lm i out name w)) = wdb w"
  by (simp add: createGostServices_def createRemotePart_def case_prod_beta Let_def frame_simps
      split: option.split)

lemma syncGostServices_db [frame_simps]:
  "wdb (snd (syncGostServices e f t lm i out name w)) = wdb w"
  by (simp add: syncGostServices_def syncRemotePart_def case_prod_beta Let_def frame_simps
      update_or_add_db split: option.split)

lemma deleteGostServicesWithIP_db [frame_simps]:
  "wdb (snd (deleteGostServicesWithIP e t i out name ip w)) = wdb w"
  by (simp add: deleteGostServicesWithIP_def case_prod_beta Let_def frame_simps
      split: option.split)

lemma deleteOldGostServices_db [frame_simps]: "wdb (deleteOldGostServices e f t w) = wdb w"
  by (simp add: deleteOldGostServices_def case_prod_beta Let_def frame_simps
      split: option.split sum.split)

end
