(* ===== verification/Route_Api.thy ===== *)
theory Route_Api
  imports Panel_Reply
begin

text \<open>
  Multi-hop routes (service/route.go): \<open>CreateRoute\<close>, \<open>UpdateRoute\<close>, \<open>DeleteRoute\<close> and
  the loader the forwards use. A route owns an ordered list of hops; the invariant
  \<open>routes_wf\<close> says the hops of every route are numbered from 0, at least two, on pairwise
  different nodes.
\<close>

record RouteDto =
  rd_Name :: string
  rd_NodeIds :: "int list"
  rd_Protocol :: string
  rd_TcpListenAddr :: string
  rd_UdpListenAddr :: string
  rd_InterfaceName :: string

record RouteUpdateDto = RouteDto +
  rd_ID :: int
  rd_Status :: "int option"

text \<open>The loop of \<open>validateRouteNodes\<close>; \<open>seen\<close> is its map.\<close>

fun validate_nodes :: "db \<Rightarrow> int list \<Rightarrow> int list \<Rightarrow> err + Node list" where
  "validate_nodes d seen [] = Inr []"
| "validate_nodes d seen (nodeId # rest) =
     (if nodeId \<le> 0 then Inl (RouteErr RouteInvalidNode)
      else if nodeId \<in> set seen then Inl (RouteErr RouteDuplicateNode)
      else case GetNodeById d nodeId of
        None \<Rightarrow> Inl (RouteErr RouteNodeNotFound)
      | Some node \<Rightarrow>
          (case validate_nodes d (nodeId # seen) rest of
             Inl er \<Rightarrow> Inl er | Inr found \<Rightarrow> Inr (node # found)))"

definition validateRouteNodes :: "db \<Rightarrow> int list \<Rightarrow> err + Node list" where
  "validateRouteNodes d nodeIds =
     (if length nodeIds < 2 then Inl (RouteErr RouteTooShort) else validate_nodes d [] nodeIds)"

definition normalizeRouteProtocol :: "string \<Rightarrow> string" where
  "normalizeRouteProtocol protocol = (if protocol = [] then ''tls'' else protocol)"

definition normalizeRouteListenAddrs :: "string \<Rightarrow> string \<Rightarrow> string \<times> string" where
  "normalizeRouteListenAddrs tcpListenAddr udpListenAddr =
     (if tcpListenAddr = [] then ''::'' else tcpListenAddr,
      if udpListenAddr = [] then ''::'' else udpListenAddr)"

definition hop_row :: "int \<Rightarrow> int \<Rightarrow> nat \<times> Node \<Rightarrow> RouteHop" where
  "hop_row routeId t = (\<lambda>(i, node).
     \<lparr>h_ID = 0, h_RouteId = routeId, h_HopOrder = int i, h_NodeId = n_ID node,
      h_NodeIp = n_ServerIp node, h_CreatedTime = t, h_UpdatedTime = t\<rparr>)"

definition hop_rows :: "int \<Rightarrow> int \<Rightarrow> Node list \<Rightarrow> RouteHop list" where
  "hop_rows routeId t ns = map (hop_row routeId t) (zip [0..<length ns] ns)"

definition CreateRoute :: "'n env \<Rightarrow> RouteDto \<Rightarrow> 'n world \<Rightarrow> reply \<times> 'n world" where
  "CreateRoute e dto w =
     (let d = wdb w in
      case validateRouteNodes d (rd_NodeIds dto) of
        Inl er \<Rightarrow> (Err er, w)
      | Inr found \<Rightarrow>
          if count_where (\<lambda>r. text_eq e (r_Name r) (rd_Name dto)) (routes d) > 0
          then (Err (RouteErr RouteNameExists), w)
          else
            (let (tcp, udp) = normalizeRouteListenAddrs (rd_TcpListenAddr dto) (rd_UdpListenAddr dto);
                 route = \<lparr>r_ID = next_key T_route d, r_Name = rd_Name dto,
                   r_Protocol = normalizeRouteProtocol (rd_Protocol dto),
                   r_TcpListenAddr = tcp, r_UdpListenAddr = udp,
                   r_InterfaceName = rd_InterfaceName dto, r_CreatedTime = now e,
                   r_UpdatedTime = now e, r_Status = 1,
                   r_Inx = max_or_zero r_Inx (routes d) + 1\<rparr>;
                 (r, w1) = transaction e
                   ((Some (RouteErr RouteSaveFailed), insertRoute route) #
                    map (\<lambda>hop. (Some (RouteErr RouteSaveFailed), insertRouteHop hop))
                      (hop_rows (r_ID route) (now e) found))
                   (RouteErr RouteSaveFailed) w
             in case r of Some er \<Rightarrow> (Err er, w1) | None \<Rightarrow> (Ok (Created_route route), w1)))"

definition set_route :: "int \<Rightarrow> (Route \<Rightarrow> Route) \<Rightarrow> db \<Rightarrow> db" where
  "set_route k f = routes_update (update_where (\<lambda>r. r_ID r = k) f)"

text \<open>The first statements of the transaction of \<open>UpdateRoute\<close>: the route row, and the status
  when one is given (whose failure is ignored).\<close>

definition update_route_row ::
  "'n env \<Rightarrow> RouteUpdateDto \<Rightarrow> (err option \<times> (db \<Rightarrow> db)) list" where
  "update_route_row e dto =
     (let (tcp, udp) = normalizeRouteListenAddrs (rd_TcpListenAddr dto) (rd_UdpListenAddr dto)
      in (Some (RouteErr RouteSaveFailed), set_route (rd_ID dto) (\<lambda>r. r\<lparr>r_Name := rd_Name dto,
            r_Protocol := normalizeRouteProtocol (rd_Protocol dto),
            r_TcpListenAddr := tcp, r_UdpListenAddr := udp,
            r_InterfaceName := rd_InterfaceName dto, r_UpdatedTime := now e\<rparr>)) #
         (case rd_Status dto of None \<Rightarrow> []
          | Some s \<Rightarrow> [(None, set_route (rd_ID dto) (\<lambda>r. r\<lparr>r_Status := s\<rparr>))]))"

definition UpdateRoute :: "'n env \<Rightarrow> RouteUpdateDto \<Rightarrow> 'n world \<Rightarrow> reply \<times> 'n world" where
  "UpdateRoute e dto w =
     (let d = wdb w; k = rd_ID dto in
      case firstRoute d k of
        None \<Rightarrow> (Err (RouteErr RouteNotFound), w)
      | Some route \<Rightarrow>
          if count_where (\<lambda>r. text_eq e (r_Name r) (rd_Name dto) \<and> r_ID r \<noteq> k) (routes d) > 0
          then (Err (RouteErr RouteNameExists), w)
          else if count_where (\<lambda>f. f_RouteId f = k) (forwards d) > 0 then
            (let (ok, w1) = db_write e (set_route k (\<lambda>r. r\<lparr>r_Name := rd_Name dto,
                   r_UpdatedTime := now e,
                   r_Status := (case rd_Status dto of None \<Rightarrow> r_Status r | Some s \<Rightarrow> s)\<rparr>)) w
             in (if ok then Ok Done else Err (RouteErr RouteSaveFailed), w1))
          else case validateRouteNodes d (rd_NodeIds dto) of
            Inl er \<Rightarrow> (Err er, w)
          | Inr found \<Rightarrow>
              (let fail = Some (RouteErr RouteSaveFailed);
                   (r, w1) = transaction e
                     (update_route_row e dto @
                      (fail, route_hops_update (delete_where (\<lambda>h. h_RouteId h = k))) #
                      map (\<lambda>hop. (fail, insertRouteHop hop)) (hop_rows k (now e) found))
                     (RouteErr RouteSaveFailed) w
               in case r of Some er \<Rightarrow> (Err er, w1) | None \<Rightarrow> (Ok Done, w1)))"

definition DeleteRoute :: "'n env \<Rightarrow> int \<Rightarrow> 'n world \<Rightarrow> reply \<times> 'n world" where
  "DeleteRoute e k w =
     (let d = wdb w in
      case firstRoute d k of
        None \<Rightarrow> (Err (RouteErr RouteNotFound), w)
      | Some route \<Rightarrow>
          if count_where (\<lambda>f. f_RouteId f = k) (forwards d) > 0
          then (Err (RouteErr RouteInUse), w)
          else
            (let fail = Some (RouteErr RouteDeleteFailed);
                 (r, w1) = transaction e
                   [(fail, route_hops_update (delete_where (\<lambda>h. h_RouteId h = k))),
                    (fail, routes_update (delete_where (\<lambda>r. r_ID r = r_ID route)))]
                   (RouteErr RouteDeleteFailed) w
             in case r of Some er \<Rightarrow> (Err er, w1) | None \<Rightarrow> (Ok Done, w1)))"

definition route_hop_list :: "db \<Rightarrow> int \<Rightarrow> RouteHop list" where
  "route_hop_list d routeId =
     order_by h_HopOrder (find_where (\<lambda>h. h_RouteId h = routeId) (route_hops d))"

definition LoadRouteWithHops :: "db \<Rightarrow> int \<Rightarrow> err + Route \<times> RouteHop list" where
  "LoadRouteWithHops d routeId =
     (case firstRoute d routeId of
        None \<Rightarrow> Inl (RouteErr RouteNotFound)
      | Some route \<Rightarrow>
          (let hops = route_hop_list d routeId
           in if length hops < 2 then Inl (RouteErr RouteTooShort) else Inr (route, hops)))"

section \<open>Well-formed routes\<close>

definition hops_wf :: "RouteHop list \<Rightarrow> bool" where
  "hops_wf hops \<longleftrightarrow> 2 \<le> length hops \<and> map h_HopOrder hops = map int [0..<length hops] \<and>
     distinct (map h_NodeId hops)"

definition routes_wf :: "db \<Rightarrow> bool" where
  "routes_wf d \<longleftrightarrow> distinct (map r_ID (routes d)) \<and>
     (\<forall>r \<in> set (routes d). r_ID r < seq d T_route) \<and>
     (\<forall>h \<in> set (route_hops d). h_RouteId h < seq d T_route) \<and>
     (\<forall>r \<in> set (routes d). hops_wf (route_hop_list d (r_ID r)))"

lemma validate_nodes_Inr:
  "validate_nodes d seen ids = Inr ns \<Longrightarrow>
     map n_ID ns = ids \<and> distinct ids \<and> set ids \<inter> set seen = {} \<and> set ns \<subseteq> set (nodes d)"
  by (induction d seen ids arbitrary: ns rule: validate_nodes.induct)
     (auto simp: subset_iff split: if_splits option.splits sum.splits dest!: GetNodeById_Some)

lemma hop_rows_simps:
  "map h_HopOrder (hop_rows k t ns) = map int [0..<length ns]"
  "map h_NodeId (hop_rows k t ns) = map n_ID ns"
  "length (hop_rows k t ns) = length ns"
  by (auto simp: hop_rows_def hop_row_def comp_def case_prod_beta map_zip_map intro!: nth_equalityI)

text \<open>The part of a hop row the invariant reads, and what writing hop rows does to it.\<close>

abbreviation hop_core :: "RouteHop \<Rightarrow> int \<times> int \<times> int" where
  "hop_core h \<equiv> (h_RouteId h, h_HopOrder h, h_NodeId h)"

lemma insert_hops:
  "routes (fold insertRouteHop hs d) = routes d \<and>
   seq (fold insertRouteHop hs d) T_route = seq d T_route \<and>
   forwards (fold insertRouteHop hs d) = forwards d \<and>
   (\<exists>hs'. route_hops (fold insertRouteHop hs d) = route_hops d @ hs' \<and>
      map hop_core hs' = map hop_core hs)"
proof (induction hs arbitrary: d)
  case (Cons h hs)
  let ?h = "h\<lparr>h_ID := next_key T_route_hop d\<rparr>"
  have d1: "routes (insertRouteHop h d) = routes d" "seq (insertRouteHop h d) T_route = seq d T_route"
    "forwards (insertRouteHop h d) = forwards d"
    "route_hops (insertRouteHop h d) = route_hops d @ [?h]"
    by (simp_all add: insertRouteHop_def bump_key_def insert_row_def)
  from Cons.IH [of "insertRouteHop h d"] obtain hs'
    where "route_hops (fold insertRouteHop hs (insertRouteHop h d)) = (route_hops d @ [?h]) @ hs'"
      and "map hop_core hs' = map hop_core hs"
    unfolding d1 by blast
  then have "route_hops (fold insertRouteHop (h # hs) d) = route_hops d @ (?h # hs')"
    and "map hop_core (?h # hs') = map hop_core (h # hs)" by simp_all
  moreover from Cons.IH [of "insertRouteHop h d"]
  have "routes (fold insertRouteHop (h # hs) d) = routes d"
    "seq (fold insertRouteHop (h # hs) d) T_route = seq d T_route"
    "forwards (fold insertRouteHop (h # hs) d) = forwards d"
    unfolding d1 by simp_all
  ultimately show ?case by blast
qed simp

lemma hops_wf_cong: "map hop_core hs = map hop_core hs' \<Longrightarrow> hops_wf hs = hops_wf hs'"
proof -
  assume eq: "map hop_core hs = map hop_core hs'"
  from arg_cong [OF eq, where f = "map (fst \<circ> snd)"] arg_cong [OF eq, where f = "map (snd \<circ> snd)"]
    map_eq_imp_length_eq [OF eq]
  show ?thesis by (simp add: hops_wf_def comp_def)
qed

lemma hops_wf_sorted: "hops_wf hs \<Longrightarrow> order_by h_HopOrder hs = hs"
proof -
  have "sorted (map int [0..<n])" for n by (simp add: sorted_iff_nth_mono)
  then show "hops_wf hs \<Longrightarrow> order_by h_HopOrder hs = hs"
    unfolding hops_wf_def order_by_def by (metis sort_key_id_if_sorted)
qed

lemma hop_rows_wf:
  assumes "validateRouteNodes d ids = Inr ns"
  shows "hops_wf (hop_rows k t ns)"
proof -
  from assms have two: "\<not> length ids < 2" and v: "validate_nodes d [] ids = Inr ns"
    by (auto simp: validateRouteNodes_def split: if_splits)
  from validate_nodes_Inr [OF v] have "map n_ID ns = ids" "distinct ids" by simp_all
  with two show ?thesis
    by (auto simp: hops_wf_def hop_rows_simps dest: map_eq_imp_length_eq)
qed

text \<open>Writing the hops of route \<open>k\<close>, of which there were none, makes that route
  well-formed and leaves the others alone.\<close>

lemma insert_hops_list:
  assumes none: "\<forall>h \<in> set (route_hops d). h_RouteId h \<noteq> k"
    and hs: "\<forall>h \<in> set hs. h_RouteId h = k" and wf: "hops_wf hs"
  shows "hops_wf (route_hop_list (fold insertRouteHop hs d) k)"
    and "j \<noteq> k \<Longrightarrow> route_hop_list (fold insertRouteHop hs d) j = route_hop_list d j"
    and "\<forall>h \<in> set (route_hops (fold insertRouteHop hs d)).
           h_RouteId h = k \<or> h \<in> set (route_hops d)"
proof -
  from insert_hops obtain hs' where app: "route_hops (fold insertRouteHop hs d) = route_hops d @ hs'"
    and core: "map hop_core hs' = map hop_core hs" by blast
  from arg_cong [OF core, where f = "\<lambda>l. fst ` set l"] hs have id': "\<forall>h \<in> set hs'. h_RouteId h = k"
    by (auto simp: image_image image_iff)
  have wf': "hops_wf hs'" using hops_wf_cong [OF core] wf by simp
  have old: "find_where (\<lambda>h. h_RouteId h = k) (route_hops d) = []"
    using none by (simp add: find_where_def filter_empty_conv)
  have new: "find_where (\<lambda>h. h_RouteId h = k) hs' = hs'"
    using id' by (simp add: find_where_def)
  have split: "find_where p (route_hops d @ hs') = find_where p (route_hops d) @ find_where p hs'" for p
    by (simp add: find_where_def)
  show "hops_wf (route_hop_list (fold insertRouteHop hs d) k)"
    using wf' by (simp add: route_hop_list_def app split old new hops_wf_sorted)
  have "j \<noteq> k \<Longrightarrow> find_where (\<lambda>h. h_RouteId h = j) hs' = []"
    using id' by (auto simp: find_where_def filter_empty_conv)
  then show "j \<noteq> k \<Longrightarrow> route_hop_list (fold insertRouteHop hs d) j = route_hop_list d j"
    by (simp add: route_hop_list_def app split)
  show "\<forall>h \<in> set (route_hops (fold insertRouteHop hs d)). h_RouteId h = k \<or> h \<in> set (route_hops d)"
    using id' app by auto
qed

section \<open>Every operation keeps routes well-formed\<close>

lemma routes_wf_change:
  assumes wf: "routes_wf d" and ids: "map r_ID (routes d') = map r_ID (routes d)"
    and hops: "\<And>h. h \<in> set (route_hops d') \<Longrightarrow> h_RouteId h < seq d T_route"
    and seq: "seq d' T_route = seq d T_route"
    and lists: "\<And>k. k \<in> set (map r_ID (routes d)) \<Longrightarrow> hops_wf (route_hop_list d' k)"
  shows "routes_wf d'"
proof -
  from ids have set: "r_ID ` set (routes d') = r_ID ` set (routes d)"
    by (metis set_map)
  have key: "r_ID r \<in> set (map r_ID (routes d))" if "r \<in> set (routes d')" for r
    using that set by auto
  moreover have "\<forall>k \<in> set (map r_ID (routes d)). k < seq d T_route"
    using wf by (auto simp: routes_wf_def)
  ultimately have "\<forall>r \<in> set (routes d'). r_ID r < seq d T_route" by blast
  moreover have "\<forall>r \<in> set (routes d'). hops_wf (route_hop_list d' (r_ID r))"
    using key lists by blast
  moreover have "distinct (map r_ID (routes d))" using wf by (simp add: routes_wf_def)
  ultimately show ?thesis unfolding routes_wf_def seq ids using hops by blast
qed

lemma routes_wf_frame:
  "routes_wf d \<Longrightarrow> routes d' = routes d \<Longrightarrow> route_hops d' = route_hops d \<Longrightarrow>
     seq d' T_route = seq d T_route \<Longrightarrow> routes_wf d'"
  by (simp add: routes_wf_def route_hop_list_def)

lemma fold_tx_hops:
  "fold (\<lambda>s. snd s) (map (\<lambda>hop. (er, insertRouteHop hop)) hs) d = fold insertRouteHop hs d"
  by (simp add: fold_map comp_def)

lemma hop_rows_RouteId: "h \<in> set (hop_rows k t ns) \<Longrightarrow> h_RouteId h = k"
  by (auto simp: hop_rows_def hop_row_def)

lemma CreateRoute_wf:
  assumes wf: "routes_wf (wdb w)"
  shows "routes_wf (wdb (snd (CreateRoute e dto w)))"
proof (cases "validateRouteNodes (wdb w) (rd_NodeIds dto)")
  case (Inr ns)
  let ?d = "wdb w" and ?k = "next_key T_route (wdb w)"
  let ?hs = "hop_rows ?k (now e) ns"
  have ins: "routes_wf (fold insertRouteHop ?hs (insertRoute r ?d))"
    if k: "r_ID r = ?k" for r
  proof -
    let ?d1 = "insertRoute r ?d"
    have d1: "routes ?d1 = routes ?d @ [r]" "route_hops ?d1 = route_hops ?d"
      "seq ?d1 T_route = ?k + 1"
      using k by (simp_all add: insertRoute_def bump_key_def insert_row_def next_key_def)
    have old: "\<forall>h \<in> set (route_hops ?d). h_RouteId h < ?k" "\<forall>x \<in> set (routes ?d). r_ID x < ?k"
      using wf by (auto simp: routes_wf_def next_key_def)
    have none: "\<forall>h \<in> set (route_hops ?d1). h_RouteId h \<noteq> ?k" using old d1 by auto
    have rid: "\<forall>h \<in> set ?hs. h_RouteId h = ?k" using hop_rows_RouteId by blast
    note hops = insert_hops_list [OF none rid hop_rows_wf [OF Inr]]
    have same: "route_hop_list ?d1 j = route_hop_list ?d j" for j
      by (simp add: route_hop_list_def d1)
    have frame: "routes (fold insertRouteHop ?hs ?d1) = routes ?d @ [r]"
      "seq (fold insertRouteHop ?hs ?d1) T_route = ?k + 1"
      using insert_hops [of ?hs ?d1] d1 by simp_all
    have "hops_wf (route_hop_list (fold insertRouteHop ?hs ?d1) (r_ID x))"
      if "x \<in> set (routes ?d @ [r])" for x
    proof (cases "r_ID x = ?k")
      case False
      with that k have "x \<in> set (routes ?d)" by auto
      with False show ?thesis using wf hops(2) same by (simp add: routes_wf_def)
    qed (use hops(1) in simp)
    moreover have "\<forall>h \<in> set (route_hops (fold insertRouteHop ?hs ?d1)). h_RouteId h < ?k + 1"
      using hops(3) old d1 by fastforce
    moreover have "distinct (map r_ID (routes ?d))" using wf by (simp add: routes_wf_def)
    ultimately show ?thesis
      unfolding routes_wf_def frame using old k by (auto simp: less_le)
  qed
  show ?thesis
    using wf ins Inr
    by (auto simp: CreateRoute_def Let_def fold_tx_hops list_all_iff split: prod.splits option.splits
        dest!: transaction_Some transaction_None [rotated])
qed (simp add: CreateRoute_def wf)

lemma set_route_frame [simp]:
  "route_hops (set_route k f d) = route_hops d" "seq (set_route k f d) = seq d"
  "(\<And>r. r_ID (f r) = r_ID r) \<Longrightarrow> map r_ID (routes (set_route k f d)) = map r_ID (routes d)"
  by (auto simp: set_route_def update_where_def)

lemma routes_wf_set_route:
  assumes wf: "routes_wf d" and f: "\<And>r. r_ID (f r) = r_ID r"
  shows "routes_wf (set_route k f d)"
proof (rule routes_wf_change [OF wf])
  show "map r_ID (routes (set_route k f d)) = map r_ID (routes d)" using f by simp
  show "h_RouteId h < seq d T_route" if "h \<in> set (route_hops (set_route k f d))" for h
    using that wf by (simp add: routes_wf_def)
  show "hops_wf (route_hop_list (set_route k f d) j)" if "j \<in> set (map r_ID (routes d))" for j
    using that wf by (auto simp: routes_wf_def route_hop_list_def)
qed simp

lemma delete_other_hops:
  assumes "j \<noteq> k"
  shows "find_where (\<lambda>h. h_RouteId h = j) (delete_where (\<lambda>h. h_RouteId h = k) hs) =
     find_where (\<lambda>h. h_RouteId h = j) hs"
  unfolding find_where_def delete_where_def using assms by (induction hs) auto

text \<open>Replacing the hops of one route.\<close>

lemma replace_hops_wf:
  assumes wf: "routes_wf d" and v: "validateRouteNodes d0 ids = Inr ns" and k: "k < seq d T_route"
  shows "routes_wf (fold insertRouteHop (hop_rows k t ns)
           (route_hops_update (delete_where (\<lambda>h. h_RouteId h = k)) d))"
proof -
  let ?d1 = "route_hops_update (delete_where (\<lambda>h. h_RouteId h = k)) d"
  let ?d2 = "fold insertRouteHop (hop_rows k t ns) ?d1"
  have none: "\<forall>h \<in> set (route_hops ?d1). h_RouteId h \<noteq> k" by simp
  have rid: "\<forall>h \<in> set (hop_rows k t ns). h_RouteId h = k" using hop_rows_RouteId by blast
  note hops = insert_hops_list [OF none rid hop_rows_wf [OF v]]
  have same: "route_hop_list ?d1 j = route_hop_list d j" if "j \<noteq> k" for j
    using that by (simp add: route_hop_list_def delete_other_hops)
  show ?thesis
  proof (rule routes_wf_change [OF wf])
    show "map r_ID (routes ?d2) = map r_ID (routes d)" "seq ?d2 T_route = seq d T_route"
      using insert_hops [of "hop_rows k t ns" ?d1] by simp_all
    show "h_RouteId h < seq d T_route" if "h \<in> set (route_hops ?d2)" for h
      using hops(3) that k wf by (auto simp: routes_wf_def)
    show "hops_wf (route_hop_list ?d2 j)" if "j \<in> set (map r_ID (routes d))" for j
    proof (cases "j = k")
      case False
      then show ?thesis using hops(2) same that wf by (auto simp: routes_wf_def)
    qed (use hops(1) in simp)
  qed
qed

lemma update_route_row_wf:
  assumes "s \<in> set (update_route_row e dto)" and "routes_wf d"
  shows "routes_wf (snd s d) \<and> seq (snd s d) = seq d"
  using assms
  by (auto simp: update_route_row_def Let_def case_prod_beta intro!: routes_wf_set_route
      split: option.splits)

lemma replace_route_wf:
  assumes wf: "routes_wf (wdb w)" and v: "validateRouteNodes d0 ids = Inr ns"
    and k: "k < seq (wdb w) T_route"
    and t: "transaction e (update_route_row e dto @
          (Some er, route_hops_update (delete_where (\<lambda>h. h_RouteId h = k))) #
          map (\<lambda>hop. (Some er, insertRouteHop hop)) (hop_rows k t0 ns)) ce w = (r', w')"
  shows "routes_wf (wdb w')"
proof (cases r')
  case None
  let ?a = "update_route_row e dto"
  let ?b = "(Some er, route_hops_update (delete_where (\<lambda>h. h_RouteId h = k))) #
          map (\<lambda>hop. (Some er, insertRouteHop hop)) (hop_rows k t0 ns)"
  have some: "list_all (\<lambda>s. fst s \<noteq> None) ?b" by (auto simp: list_all_iff)
  from transaction_split [OF t [unfolded None] some] obtain w1
    where a: "tx_steps e ?a w = (None, w1)" and w': "wdb w' = fold (\<lambda>s. snd s) ?b (wdb w1)"
    by blast
  have "routes_wf (wdb (snd (tx_steps e ?a w))) \<and> seq (wdb (snd (tx_steps e ?a w))) = seq (wdb w)"
  proof (rule tx_steps_inv [where P = "\<lambda>d. routes_wf d \<and> seq d = seq (wdb w)"])
    show "routes_wf (snd s d) \<and> seq (snd s d) = seq (wdb w)"
      if "s \<in> set ?a" "routes_wf d \<and> seq d = seq (wdb w)" for s d
      using update_route_row_wf [OF that(1)] that(2) by simp
  qed (use wf in simp)
  with a k have "routes_wf (wdb w1)" "k < seq (wdb w1) T_route" by simp_all
  from replace_hops_wf [OF this(1) v this(2)] show ?thesis by (simp add: w' fold_tx_hops)
next
  case (Some er)
  with transaction_Some t wf show ?thesis by metis
qed

lemma UpdateRoute_wf:
  assumes wf: "routes_wf (wdb w)"
  shows "routes_wf (wdb (snd (UpdateRoute e dto w)))"
proof -
  have k: "rd_ID dto < seq (wdb w) T_route" if "firstRoute (wdb w) (rd_ID dto) = Some r" for r
    using firstRoute_Some [OF that] wf by (auto simp: routes_wf_def)
  show ?thesis
    using wf k
    by (auto simp: UpdateRoute_def Let_def case_prod_beta split: option.splits sum.splits
        intro!: routes_wf_set_route replace_route_wf [OF wf _ _ prod.collapse [symmetric]])
qed

lemma DeleteRoute_wf:
  assumes wf: "routes_wf (wdb w)"
  shows "routes_wf (wdb (snd (DeleteRoute e k w)))"
proof -
  let ?d = "wdb w"
  have "routes_wf (routes_update (delete_where (\<lambda>r. r_ID r = k))
          (route_hops_update (delete_where (\<lambda>h. h_RouteId h = k)) ?d))" (is "routes_wf ?d'")
  proof -
    have same: "route_hop_list ?d' j = route_hop_list ?d j" if "j \<noteq> k" for j
    using that by (simp add: route_hop_list_def delete_other_hops)
    then show ?thesis using wf
      by (auto simp: routes_wf_def delete_where_def distinct_map_filter)
  qed
  then show ?thesis
    using wf
    by (auto simp: DeleteRoute_def Let_def split: prod.splits option.splits
        dest!: transaction_Some transaction_None [rotated] firstRoute_Some)
qed

end
