(* ===== verification/Route_Forward.thy ===== *)
theory Route_Forward
  imports Gost_Services Route_Api
begin

text \<open>
  Forwards over a multi-hop route (service/forward.go, \<open>createRouteForward\<close> to
  \<open>setRouteForwardServicesPaused\<close>). Hop 0 runs the entry services, every later hop a relay
  service on its port of \<open>route_ports\<close>, and every hop but the last a chain to the next.
\<close>

record ForwardDto =
  fd_Name :: string
  fd_TunnelId :: int
  fd_RouteId :: int
  fd_RemoteAddr :: string
  fd_Strategy :: string
  fd_InPort :: "int option"
  fd_ListenIp :: string
  fd_InterfaceName :: string

record ForwardUpdateDto = ForwardDto +
  fd_ID :: int

definition loadForwardRoutePorts :: "db \<Rightarrow> int \<Rightarrow> err + ForwardRoutePort list" where
  "loadForwardRoutePorts d forwardId =
     (let ports = order_by p_HopOrder (find_where (\<lambda>p. p_ForwardId p = forwardId) (route_ports d))
      in if ports = [] then Inl (RouteErr RoutePortsNotFound) else Inr ports)"

text \<open>A Go map from hop order to port: the zero value for a missing hop, the last of two
  entries for one hop.\<close>

definition routePortByHop :: "ForwardRoutePort list \<Rightarrow> int \<Rightarrow> int" where
  "routePortByHop ports =
     foldl (\<lambda>result port. result(p_HopOrder port := p_RelayPort port)) (\<lambda>_. 0) ports"

definition nodeOnline :: "'n env \<Rightarrow> int \<Rightarrow> bool" where
  "nodeOnline e nodeId = nodeSessions e nodeId"

section \<open>Removing the services\<close>

text \<open>Run deletions in order, skipping offline nodes, up to the first error.\<close>

fun delete_online ::
  "'n env \<Rightarrow> (int \<times> ('n world \<Rightarrow> GostResponse \<times> 'n world)) list \<Rightarrow> 'n world \<Rightarrow> string \<times> 'n world" where
  "delete_online e [] w = ([], w)"
| "delete_online e ((nodeId, delete) # rest) w =
     (if \<not> nodeOnline e nodeId then delete_online e rest w
      else (let (r, w1) = delete w;
                errMsg = gostDeleteError (Some r)
            in if errMsg \<noteq> [] then (errMsg, w1) else delete_online e rest w1))"

definition cleanup_calls ::
  "'n env \<Rightarrow> string \<Rightarrow> RouteHop list \<Rightarrow> ForwardRoutePort list
     \<Rightarrow> (int \<times> ('n world \<Rightarrow> GostResponse \<times> 'n world)) list" where
  "cleanup_calls e serviceName hops ports =
     (case hops of [] \<Rightarrow> [] | h # _ \<Rightarrow>
        (h_NodeId h, DeleteRouteServices e (h_NodeId h)
           [serviceName @ ''_tcp'', serviceName @ ''_udp'']) #
        map (\<lambda>(i, hop). (h_NodeId hop, DeleteRouteChain e (h_NodeId hop)
                            (routeChainName serviceName (int i))))
          (zip [0..<length hops - 1] hops)) @
     map (\<lambda>port. (p_NodeId port, DeleteRouteServices e (p_NodeId port)
                     [routeRelayServiceName serviceName (p_HopOrder port)])) ports"

definition cleanupRouteForwardServices :: "'n env \<Rightarrow> Forward \<Rightarrow> 'n world \<Rightarrow> string \<times> 'n world" where
  "cleanupRouteForwardServices e forward w =
     (if f_RouteId forward = 0 then ([], w)
      else
        (let d = wdb w;
             hops = (case LoadRouteWithHops d (f_RouteId forward) of Inl _ \<Rightarrow> [] | Inr (_, hs) \<Rightarrow> hs);
             ports = (case loadForwardRoutePorts d (f_ID forward) of Inl _ \<Rightarrow> [] | Inr ps \<Rightarrow> ps);
             serviceName = buildServiceName (f_ID forward) (f_UserId forward) None
         in delete_online e (cleanup_calls e serviceName hops ports) w))"

section \<open>Creating the services\<close>

text \<open>One round of the loop: the chain of hop \<open>i\<close> to hop \<open>i + 1\<close>, then the relay service of
  hop \<open>i\<close>.\<close>

fun create_relays ::
  "'n env \<Rightarrow> Forward \<Rightarrow> Route \<Rightarrow> RouteHop list \<Rightarrow> (int \<Rightarrow> int) \<Rightarrow> string \<Rightarrow> nat list \<Rightarrow> 'n world
     \<Rightarrow> string \<times> 'n world" where
  "create_relays e forward route hops portByHop serviceName [] w = ([], w)"
| "create_relays e forward route hops portByHop serviceName (i # is) w =
     (let source = hops ! i;
          nxt = hops ! (i + 1);
          chainName = routeChainName serviceName (int i);
          chainRemoteAddr = formatRemoteAddr (h_NodeIp nxt) (portByHop (h_HopOrder nxt));
          (chainResult, w1) = AddRouteChain e (h_NodeId source) chainName chainRemoteAddr
             (r_Protocol route) (r_InterfaceName route) w
      in if \<not> is_ok chainResult
         then (g_Msg chainResult, snd (cleanupRouteForwardServices e forward w1))
         else
           (let (relayResult, w2) = AddRouteRelayService e (h_NodeId source)
                  (routeRelayServiceName serviceName (h_HopOrder source))
                  (portByHop (h_HopOrder source)) chainName (r_Protocol route)
                  (r_InterfaceName route) w1
            in if \<not> is_ok relayResult
               then (g_Msg relayResult, snd (cleanupRouteForwardServices e forward w2))
               else create_relays e forward route hops portByHop serviceName is w2))"

definition create_entry ::
  "'n env \<Rightarrow> Forward \<Rightarrow> Route \<Rightarrow> RouteHop list \<Rightarrow> (int \<Rightarrow> int) \<Rightarrow> int option \<Rightarrow> string \<Rightarrow> 'n world
     \<Rightarrow> string \<times> 'n world" where
  "create_entry e forward route hops portByHop limiter serviceName w =
     (let entry = hops ! 0;
          nxt = hops ! 1;
          entryChainName = routeChainName serviceName 0;
          entryRemoteAddr = formatRemoteAddr (h_NodeIp nxt) (portByHop (h_HopOrder nxt));
          (chainResult, w1) = AddRouteChain e (h_NodeId entry) entryChainName entryRemoteAddr
             (r_Protocol route) (r_InterfaceName route) w
      in if \<not> is_ok chainResult
         then (g_Msg chainResult, snd (cleanupRouteForwardServices e forward w1))
         else
           (let listenAddr = (if f_ListenIp forward \<noteq> [] then f_ListenIp forward
                              else r_TcpListenAddr route);
                (entryResult, w2) = AddRouteEntryService e (h_NodeId entry) serviceName
                  (f_InPort forward) limiter listenAddr entryChainName (r_Protocol route)
                  (r_InterfaceName route) w1
            in if \<not> is_ok entryResult
               then (g_Msg entryResult, snd (cleanupRouteForwardServices e forward w2))
               else ([], w2)))"

definition createRouteGostServices ::
  "'n env \<Rightarrow> Forward \<Rightarrow> Route \<Rightarrow> RouteHop list \<Rightarrow> ForwardRoutePort list \<Rightarrow> int option \<Rightarrow> string
     \<Rightarrow> 'n world \<Rightarrow> string \<times> 'n world" where
  "createRouteGostServices e forward route hops ports limiter serviceName w =
     (if length hops < 2 \<or> length ports \<noteq> length hops - 1
      then (''invalid route deployment'', w)
      else
        (let portByHop = routePortByHop ports;
             lastHop = last hops;
             (terminalResult, w1) = AddRouteTerminalService e (h_NodeId lastHop)
               (routeRelayServiceName serviceName (h_HopOrder lastHop))
               (portByHop (h_HopOrder lastHop)) (f_RemoteAddr forward) (r_Protocol route)
               (f_Strategy forward) (f_InterfaceName forward) w
         in if \<not> is_ok terminalResult then (g_Msg terminalResult, w1)
            else
              (let (relayErr, w2) = create_relays e forward route hops portByHop serviceName
                     (rev [1..<length hops - 1]) w1
               in if relayErr \<noteq> [] then (relayErr, w2)
                  else create_entry e forward route hops portByHop limiter serviceName w2)))"

section \<open>Pausing and resuming\<close>

fun send_all ::
  "('n world \<Rightarrow> GostResponse \<times> 'n world) list \<Rightarrow> 'n world \<Rightarrow> string \<times> 'n world" where
  "send_all [] w = ([], w)"
| "send_all (call # calls) w =
     (let (r, w1) = call w in if \<not> is_ok r then (g_Msg r, w1) else send_all calls w1)"

definition setRouteForwardServicesPaused ::
  "'n env \<Rightarrow> Forward \<Rightarrow> bool \<Rightarrow> 'n world \<Rightarrow> err option \<times> 'n world" where
  "setRouteForwardServicesPaused e forward paused w =
     (case LoadRouteWithHops (wdb w) (f_RouteId forward) of
        Inl er \<Rightarrow> (Some er, w)
      | Inr (route, hops) \<Rightarrow>
          (case loadForwardRoutePorts (wdb w) (f_ID forward) of
             Inl er \<Rightarrow> (Some er, w)
           | Inr ports \<Rightarrow>
               (let serviceName = buildServiceName (f_ID forward) (f_UserId forward) None;
                    send = (if paused then PauseRouteServices e else ResumeRouteServices e);
                    (errMsg, w1) = send_all
                      (send (h_NodeId (hops ! 0)) [serviceName @ ''_tcp'', serviceName @ ''_udp''] #
                       map (\<lambda>port. send (p_NodeId port)
                               [routeRelayServiceName serviceName (p_HopOrder port)]) ports) w
                in (if errMsg \<noteq> [] then Some (GostErr errMsg) else None, w1))))"

section \<open>The handlers\<close>

text \<open>The row a new or changed route forward is stored as, and its port rows.\<close>

definition stamp_port :: "int \<Rightarrow> Route \<Rightarrow> int \<Rightarrow> ForwardRoutePort \<Rightarrow> ForwardRoutePort" where
  "stamp_port forwardId route t p =
     p\<lparr>p_ForwardId := forwardId, p_RouteId := r_ID route, p_CreatedTime := t, p_UpdatedTime := t\<rparr>"

definition createRouteForward ::
  "'n env \<Rightarrow> ForwardDto \<Rightarrow> int \<Rightarrow> int \<Rightarrow> string \<Rightarrow> 'n world \<Rightarrow> reply \<times> 'n world" where
  "createRouteForward e dto userId roleId userName w =
     (let d = wdb w in
      if roleId \<noteq> adminRoleId then (Err (RouteErr RouteAdminOnly), w)
      else case LoadRouteWithHops d (fd_RouteId dto) of
        Inl er \<Rightarrow> (Err er, w)
      | Inr (route, hops) \<Rightarrow>
          if r_Status route \<noteq> tunnelStatusActive then (Err (RouteErr RouteDisabled), w)
          else case allocateRouteForwardPorts d route hops (fd_InPort dto) None of
            Inl er \<Rightarrow> (Err er, w)
          | Inr (inPort, ports) \<Rightarrow>
              (let forward =
                     \<lparr>f_ID = next_key T_forward d, f_UserId = userId, f_UserName = userName,
                      f_Name = fd_Name dto, f_TunnelId = 0, f_RouteId = fd_RouteId dto,
                      f_InPort = inPort, f_OutPort = p_RelayPort (last ports),
                      f_RemoteAddr = fd_RemoteAddr dto, f_Strategy = fd_Strategy dto,
                      f_ListenIp = fd_ListenIp dto, f_InterfaceName = fd_InterfaceName dto,
                      f_InFlow = 0, f_OutFlow = 0, f_CreatedTime = now e, f_UpdatedTime = now e,
                      f_Status = forwardStatusActive, f_Inx = max_or_zero f_Inx (forwards d) + 1\<rparr>;
                   ports' = map (stamp_port (f_ID forward) route (now e)) ports;
                   fail = Some (RouteErr RouteForwardSaveFailed);
                   (r, w1) = transaction e
                     ((fail, insertForward forward) # map (\<lambda>p. (fail, insertRoutePort p)) ports')
                     (RouteErr RouteForwardSaveFailed) w
               in case r of
                    Some er \<Rightarrow> (Err er, w1)
                  | None \<Rightarrow>
                      (let (gostErr, w2) = createRouteGostServices e forward route hops ports' None
                             (buildServiceName (f_ID forward) (f_UserId forward) None) w1
                       in if gostErr \<noteq> []
                          then (Err (GostErr gostErr),
                                updateForwardStatusToError e (f_ID forward) w2)
                          else (OkMsg, w2))))"

definition updateRouteForward ::
  "'n env \<Rightarrow> ForwardUpdateDto \<Rightarrow> Forward \<Rightarrow> int \<Rightarrow> int \<Rightarrow> 'n world \<Rightarrow> reply \<times> 'n world" where
  "updateRouteForward e dto existing userId roleId w =
     (let d = wdb w;
          routeId = (if fd_RouteId dto = 0 then f_RouteId existing else fd_RouteId dto) in
      if roleId \<noteq> adminRoleId then (Err (RouteErr RouteAdminOnly), w)
      else if routeId = 0 then (Err (RouteErr RouteIdRequired), w)
      else case LoadRouteWithHops d routeId of
        Inl er \<Rightarrow> (Err er, w)
      | Inr (route, hops) \<Rightarrow>
          if r_Status route \<noteq> tunnelStatusActive then (Err (RouteErr RouteDisabled), w)
          else
            (let specifiedInPort = (case fd_InPort dto of None \<Rightarrow> f_InPort existing | Some p \<Rightarrow> p) in
             case allocateRouteForwardPorts d route hops (Some specifiedInPort)
                    (Some (f_ID existing)) of
               Inl er \<Rightarrow> (Err er, w)
             | Inr (inPort, ports) \<Rightarrow>
                 (let (cleanupErr, w1) = cleanupRouteForwardServices e existing w in
                  if cleanupErr \<noteq> [] then (Err (GostErr cleanupErr), w1)
                  else
                    (let change = (\<lambda>f. f\<lparr>f_Name := fd_Name dto, f_TunnelId := 0,
                            f_RouteId := routeId, f_RemoteAddr := fd_RemoteAddr dto,
                            f_Strategy := fd_Strategy dto, f_ListenIp := fd_ListenIp dto,
                            f_InterfaceName := fd_InterfaceName dto, f_InPort := inPort,
                            f_OutPort := p_RelayPort (last ports),
                            f_Status := forwardStatusActive, f_UpdatedTime := now e\<rparr>);
                         updated = change existing;
                         ports' = map (stamp_port (f_ID existing) route (now e)) ports;
                         fail = Some (RouteErr RouteForwardSaveFailed);
                         (r, w2) = transaction e
                           ((fail, route_ports_update
                               (delete_where (\<lambda>p. p_ForwardId p = f_ID existing))) #
                            (fail, set_forward (f_ID existing) change) #
                            map (\<lambda>p. (fail, insertRoutePort p)) ports')
                           (RouteErr RouteForwardSaveFailed) w1
                     in case r of
                          Some er \<Rightarrow> (Err er, w2)
                        | None \<Rightarrow>
                            (let (gostErr, w3) = createRouteGostServices e updated route hops ports'
                                   None (buildServiceName (f_ID updated) (f_UserId updated) None) w2
                             in if gostErr \<noteq> []
                                then (Err (GostErr gostErr),
                                      updateForwardStatusToError e (f_ID updated) w3)
                                else (Ok Done, w3))))))"

definition deleteRouteForward :: "'n env \<Rightarrow> Forward \<Rightarrow> 'n world \<Rightarrow> reply \<times> 'n world" where
  "deleteRouteForward e forward w =
     (let (cleanupErr, w1) = cleanupRouteForwardServices e forward w in
      if cleanupErr \<noteq> [] then (Err (GostErr cleanupErr), w1)
      else
        (let fail = Some (RouteErr RouteForwardDeleteFailed);
             (r, w2) = transaction e
               [(fail, route_ports_update (delete_where (\<lambda>p. p_ForwardId p = f_ID forward))),
                (fail, forwards_update (delete_where (\<lambda>f. f_ID f = f_ID forward)))]
               (RouteErr RouteForwardDeleteFailed) w1
         in case r of Some er \<Rightarrow> (Err er, w2) | None \<Rightarrow> (Ok Done, w2)))"

definition set_status :: "'n env \<Rightarrow> int \<Rightarrow> int \<Rightarrow> 'n world \<Rightarrow> 'n world" where
  "set_status e k status =
     db_exec e (set_forward k (\<lambda>f. f\<lparr>f_Status := status, f_UpdatedTime := now e\<rparr>))"

definition pauseRouteForward :: "'n env \<Rightarrow> Forward \<Rightarrow> 'n world \<Rightarrow> reply \<times> 'n world" where
  "pauseRouteForward e forward w =
     (let (errMsg, w1) = setRouteForwardServicesPaused e forward True w
      in case errMsg of
           Some er \<Rightarrow> (Err er, w1)
         | None \<Rightarrow> (Ok Done, set_status e (f_ID forward) forwardStatusPaused w1))"

definition resumeRouteForward :: "'n env \<Rightarrow> Forward \<Rightarrow> 'n world \<Rightarrow> reply \<times> 'n world" where
  "resumeRouteForward e forward w =
     (case LoadRouteWithHops (wdb w) (f_RouteId forward) of
        Inl er \<Rightarrow> (Err er, w)
      | Inr (route, hops) \<Rightarrow>
          if r_Status route \<noteq> tunnelStatusActive then (Err (RouteErr RouteDisabled), w)
          else
            (let (errMsg, w1) = setRouteForwardServicesPaused e forward False w
             in case errMsg of
                  Some er \<Rightarrow> (Err er, w1)
                | None \<Rightarrow> (Ok Done, set_status e (f_ID forward) forwardStatusActive w1)))"

section \<open>Frames\<close>

lemma route_wrapper_db [frame_simps]:
  "wdb (snd (AddRouteChain e n name ra pr ifn w)) = wdb w"
  "wdb (snd (DeleteRouteChain e n name w)) = wdb w"
  "wdb (snd (AddRouteRelayService e n name p ch pr ifn w)) = wdb w"
  "wdb (snd (AddRouteTerminalService e n name p ra pr st ifn w)) = wdb w"
  "wdb (snd (AddRouteEntryService e n name p lm la ch pr ifn w)) = wdb w"
  "wdb (snd (DeleteRouteServices e n names w)) = wdb w"
  "wdb (snd (PauseRouteServices e n names w)) = wdb w"
  "wdb (snd (ResumeRouteServices e n names w)) = wdb w"
  by (simp_all add: msg_defs frame_simps)

lemma delete_online_db:
  "\<forall>c \<in> set calls. \<forall>w. wdb (snd (snd c w)) = wdb w \<Longrightarrow> wdb (snd (delete_online e calls w)) = wdb w"
proof (induction calls arbitrary: w)
  case (Cons c calls)
  obtain n del where c: "c = (n, del)" by (cases c)
  have "wdb (snd (delete_online e calls (snd (del w)))) = wdb (snd (del w))"
    and "wdb (snd (delete_online e calls w)) = wdb w" and "wdb (snd (del w)) = wdb w"
    using Cons c by simp_all
  then show ?case by (simp add: c Let_def case_prod_beta)
qed simp

lemma cleanup_calls_db: "c \<in> set (cleanup_calls e name hops ports) \<Longrightarrow> wdb (snd (snd c w)) = wdb w"
  by (auto simp: cleanup_calls_def frame_simps split: list.splits)

lemma cleanup_db [frame_simps]: "wdb (snd (cleanupRouteForwardServices e f w)) = wdb w"
proof -
  have "wdb (snd (delete_online e (cleanup_calls e name hops ports) w)) = wdb w" for name hops ports
  proof (rule delete_online_db, intro ballI allI)
    show "wdb (snd (snd c w)) = wdb w" if "c \<in> set (cleanup_calls e name hops ports)" for c w
      using that by (rule cleanup_calls_db)
  qed
  then show ?thesis by (simp add: cleanupRouteForwardServices_def Let_def)
qed

lemma create_relays_db [frame_simps]:
  "wdb (snd (create_relays e f r hops pbh name is w)) = wdb w"
proof (induction "is" arbitrary: w)
  case (Cons i "is")
  then show ?case
    by (simp add: Let_def case_prod_beta frame_simps del: append.simps)
qed simp

lemma createRouteGostServices_db [frame_simps]:
  "wdb (snd (createRouteGostServices e f r hops ports lm name w)) = wdb w"
  by (simp add: createRouteGostServices_def create_entry_def Let_def case_prod_beta frame_simps)

lemma send_all_db:
  "\<forall>c \<in> set calls. \<forall>w. wdb (snd (c w)) = wdb w \<Longrightarrow> wdb (snd (send_all calls w)) = wdb w"
proof (induction calls arbitrary: w)
  case (Cons c calls)
  have "wdb (snd (send_all calls (snd (c w)))) = wdb (snd (c w))" and "wdb (snd (c w)) = wdb w"
    using Cons by simp_all
  then show ?case by (simp add: Let_def case_prod_beta)
qed simp

lemma setPaused_db [frame_simps]: "wdb (snd (setRouteForwardServicesPaused e f b w)) = wdb w"
proof -
  have "wdb (snd (send_all
      ((if b then PauseRouteServices e else ResumeRouteServices e) n ns #
       map (\<lambda>port. (if b then PauseRouteServices e else ResumeRouteServices e) (p_NodeId port)
          (nms port)) ports) w)) = wdb w" for n ns nms ports
    by (rule send_all_db) (auto simp: frame_simps)
  then show ?thesis
    by (auto simp: setRouteForwardServicesPaused_def Let_def case_prod_beta simp del: send_all.simps
        split: sum.split)
qed

end
