(* ===== verification/Forward_Api.thy ===== *)
theory Forward_Api
  imports Route_Forward
begin

text \<open>
  The operations on forwards of service/forward.go: create, update, delete, force delete,
  pause, resume, reorder and the refresh \<open>UpdateForwardA\<close>. A request on a forward of a route
  goes to the handlers of \<open>Route_Forward\<close>.
\<close>

text \<open>The listen address of the tunnel, replaced by the forward's own when it has one.\<close>

definition with_listen_ip :: "string \<Rightarrow> Tunnel \<Rightarrow> Tunnel" where
  "with_listen_ip listenIp tunnel =
     (if listenIp \<noteq> [] then tunnel\<lparr>t_TcpListenAddr := listenIp, t_UdpListenAddr := listenIp\<rparr>
      else tunnel)"

definition delete_forward_row :: "int \<Rightarrow> db \<Rightarrow> db" where
  "delete_forward_row k = forwards_update (delete_where (\<lambda>f. f_ID f = k))"

section \<open>Create\<close>

definition CreateForward ::
  "'n env \<Rightarrow> ForwardDto \<Rightarrow> int \<Rightarrow> int \<Rightarrow> string \<Rightarrow> 'n world \<Rightarrow> reply \<times> 'n world" where
  "CreateForward e dto userId roleId userName w =
     (let d = wdb w in
      case validateRemoteAddr e (fd_RemoteAddr dto) roleId of
        Some er \<Rightarrow> (Err er, w)
      | None \<Rightarrow>
          if fd_RouteId dto \<noteq> 0 then createRouteForward e dto userId roleId userName w
          else if fd_TunnelId dto = 0 then (Err (ForwardErr TunnelOrRouteRequired), w)
          else case firstTunnel d (fd_TunnelId dto) of
            None \<Rightarrow> (Err (TunnelErr TunnelNotFound), w)
          | Some tunnel \<Rightarrow>
              if t_Status tunnel \<noteq> tunnelStatusActive then (Err (TunnelErr TunnelDisabled), w)
              else case check_nodes d userId roleId tunnel of
                Some er \<Rightarrow> (Err er, w)
              | None \<Rightarrow>
                  (case checkUserPermissions e d userId roleId tunnel None of
                     Inl er \<Rightarrow> (Err er, w)
                   | Inr (limiter, userTunnel) \<Rightarrow>
                       (case allocatePorts d tunnel (fd_InPort dto) None of
                          Inl er \<Rightarrow> (Err er, w)
                        | Inr (inPort, outPort) \<Rightarrow>
                            (let forward =
                                   \<lparr>f_ID = next_key T_forward d, f_UserId = userId,
                                    f_UserName = userName, f_Name = fd_Name dto,
                                    f_TunnelId = fd_TunnelId dto, f_RouteId = 0,
                                    f_InPort = inPort, f_OutPort = outPort,
                                    f_RemoteAddr = fd_RemoteAddr dto, f_Strategy = fd_Strategy dto,
                                    f_ListenIp = fd_ListenIp dto,
                                    f_InterfaceName = fd_InterfaceName dto,
                                    f_InFlow = 0, f_OutFlow = 0, f_CreatedTime = now e,
                                    f_UpdatedTime = now e, f_Status = forwardStatusActive,
                                    f_Inx = max_or_zero f_Inx (forwards d) + 1\<rparr>;
                                 (ok, w1) = db_write e (insertForward forward) w
                             in if \<not> ok then (Err (ForwardErr ForwardCreateFailed), w1)
                                else case getRequiredNodes (wdb w1) tunnel of
                                  Inl er \<Rightarrow> (Err er, db_exec e (delete_forward_row (f_ID forward)) w1)
                                | Inr (inNode, outNode) \<Rightarrow>
                                    (let (gostErr, w2) = createGostServices e forward
                                           (with_listen_ip (f_ListenIp forward) tunnel) limiter
                                           inNode outNode
                                           (buildServiceName (f_ID forward) (f_UserId forward)
                                              userTunnel) w1
                                     in if gostErr \<noteq> []
                                        then (Err (GostErr gostErr),
                                              updateForwardStatusToError e (f_ID forward) w2)
                                        else (OkMsg, w2))))))"

section \<open>Update\<close>

text \<open>Step 4: the permission to move the forward to another tunnel.\<close>

definition update_permission ::
  "'n env \<Rightarrow> db \<Rightarrow> ForwardUpdateDto \<Rightarrow> Forward \<Rightarrow> Tunnel \<Rightarrow> int \<Rightarrow> int
     \<Rightarrow> err + int option \<times> UserTunnel option" where
  "update_permission e d dto existForward tunnel userId roleId =
     (if f_TunnelId existForward = fd_TunnelId dto then Inr (None, None)
      else if roleId \<noteq> adminRoleId
      then checkUserPermissions e d userId roleId tunnel (Some (fd_ID dto))
      else if userId = f_UserId existForward then Inr (None, None)
      else case firstUser d (f_UserId existForward) of
        None \<Rightarrow> Inl (AccessErr UserNotFound)
      | Some originalUser \<Rightarrow>
          (case getUserTunnel d (f_UserId existForward) (fd_TunnelId dto) of
             None \<Rightarrow> Inl (AccessErr NoTunnelPermission)
           | Some ut \<Rightarrow>
               if ut_Status ut \<noteq> 1 then Inl (AccessErr TunnelPermissionDisabled)
               else if ut_ExpTime ut \<noteq> 0 \<and> ut_ExpTime ut \<le> now e
               then Inl (AccessErr TunnelPermissionExpired)
               else (case checkForwardQuota d (f_UserId existForward) (fd_TunnelId dto) ut
                            originalUser (Some (fd_ID dto)) of
                       Some er \<Rightarrow> Inl er
                     | None \<Rightarrow> Inr (ut_SpeedId ut, Some ut))))"

text \<open>Step 5: the permission row the service name is built from.\<close>

definition update_user_tunnel ::
  "db \<Rightarrow> Forward \<Rightarrow> Tunnel \<Rightarrow> int \<Rightarrow> int \<Rightarrow> UserTunnel option \<Rightarrow> err + UserTunnel option" where
  "update_user_tunnel d existForward tunnel userId roleId permUserTunnel =
     (let own = (if roleId \<noteq> adminRoleId
                 then (case getUserTunnel d userId (t_ID tunnel) of
                         None \<Rightarrow> Inl (AccessErr NoTunnelPermission) | Some ut \<Rightarrow> Inr (Some ut))
                 else Inr (getUserTunnel d (f_UserId existForward) (t_ID tunnel)))
      in case own of
           Inl er \<Rightarrow> Inl er
         | Inr ut \<Rightarrow> Inr (if permUserTunnel \<noteq> None then permUserTunnel else ut))"

text \<open>Step 6: the ports, kept unless the tunnel or the entry port changes.\<close>

definition update_ports ::
  "db \<Rightarrow> ForwardUpdateDto \<Rightarrow> Forward \<Rightarrow> Tunnel \<Rightarrow> err + int \<times> int" where
  "update_ports d dto existForward tunnel =
     (let tunnelChanged = (f_TunnelId existForward \<noteq> fd_TunnelId dto);
          inPortChanged = (case fd_InPort dto of None \<Rightarrow> False
             | Some p \<Rightarrow> p \<noteq> f_InPort existForward)
      in if tunnelChanged \<or> inPortChanged
         then allocatePorts d tunnel
                (if fd_InPort dto = None \<and> \<not> tunnelChanged then Some (f_InPort existForward)
                 else fd_InPort dto) (Some (fd_ID dto))
         else Inr (f_InPort existForward, f_OutPort existForward))"

text \<open>The branch for an unchanged tunnel and listen address: a hot update of the forwarder when
  only the targets change, nothing when nothing the services depend on changes, a full
  update otherwise.\<close>

definition update_in_place ::
  "'n env \<Rightarrow> Forward \<Rightarrow> Forward \<Rightarrow> Tunnel \<Rightarrow> int option \<Rightarrow> Node \<Rightarrow> Node option \<Rightarrow> string \<Rightarrow> 'n world
     \<Rightarrow> err option \<times> 'n world" where
  "update_in_place e existForward updated tunnel limiter inNode outNode serviceName w =
     (let portSame = (f_InPort existForward = f_InPort updated);
          interfaceSame = (f_InterfaceName existForward = f_InterfaceName updated);
          addrChanged = (f_RemoteAddr existForward \<noteq> f_RemoteAddr updated
                         \<or> f_Strategy existForward \<noteq> f_Strategy updated);
          full = (\<lambda>w. let (gostErr, w1) = updateGostServices e updated tunnel limiter inNode outNode
                             serviceName w
                      in if gostErr \<noteq> []
                         then (Some (GostErr gostErr), updateForwardStatusToError e (f_ID updated) w1)
                         else (None, w1))
      in if portSame \<and> interfaceSame \<and> addrChanged then
           (let (hotOk, w1) =
                  (if t_Type tunnel = tunnelTypePortForward then
                     (let (r, w1) = UpdateForwarder e (n_ID inNode) serviceName
                            (f_RemoteAddr updated) (f_Strategy updated) w
                      in (is_ok r, w1))
                   else case outNode of
                     Some out \<Rightarrow>
                       if t_Type tunnel = tunnelTypeTunnelForward then
                         (let (r, w1) = UpdateRemoteForwarder e (n_ID out) serviceName
                                (f_RemoteAddr updated) (f_Strategy updated) w
                          in (is_ok r, w1))
                       else (False, w)
                   | None \<Rightarrow> (False, w))
            in if hotOk then (None, w1) else full w1)
         else if portSame \<and> interfaceSame then (None, w)
         else full w)"

text \<open>Step 8: the services follow the new forward.\<close>

definition update_services ::
  "'n env \<Rightarrow> Forward \<Rightarrow> Forward \<Rightarrow> Tunnel \<Rightarrow> int option \<Rightarrow> Node \<Rightarrow> Node option \<Rightarrow> string \<Rightarrow> 'n world
     \<Rightarrow> err option \<times> 'n world" where
  "update_services e existForward updated tunnel limiter inNode outNode serviceName w =
     (let tunnelChanged = (f_TunnelId existForward \<noteq> f_TunnelId updated)
      in if tunnelChanged \<or> f_ListenIp existForward \<noteq> f_ListenIp updated then
           (case (if tunnelChanged then firstTunnel (wdb w) (f_TunnelId existForward)
                  else Some tunnel) of
              None \<Rightarrow> (Some (ForwardErr OldTunnelNotFound), w)
            | Some oldTunnel \<Rightarrow>
                (let w1 = deleteOldGostServices e existForward oldTunnel w;
                     (gostErr, w2) = createGostServices e updated tunnel limiter inNode outNode
                       serviceName w1
                 in if gostErr \<noteq> []
                    then (Some (ForwardErr (NewConfigFailed gostErr)),
                          db_exec e (set_forward (f_ID updated)
                            (\<lambda>f. f\<lparr>f_TunnelId := f_TunnelId updated, f_InPort := f_InPort updated,
                                  f_OutPort := f_OutPort updated, f_ListenIp := f_ListenIp updated,
                                  f_Status := forwardStatusError\<rparr>)) w2)
                    else (None, w2)))
         else update_in_place e existForward updated tunnel limiter inNode outNode serviceName w)"

definition UpdateForward ::
  "'n env \<Rightarrow> ForwardUpdateDto \<Rightarrow> int \<Rightarrow> int \<Rightarrow> 'n world \<Rightarrow> reply \<times> 'n world" where
  "UpdateForward e dto userId roleId w =
     (let d = wdb w in
      case check_account d userId roleId of
        Some er \<Rightarrow> (Err er, w)
      | None \<Rightarrow>
      (case validateRemoteAddr e (fd_RemoteAddr dto) roleId of
        Some er \<Rightarrow> (Err er, w)
      | None \<Rightarrow>
      (case validateForwardExists d (fd_ID dto) userId roleId of
        None \<Rightarrow> (Err (ForwardErr ForwardNotFound), w)
      | Some existForward \<Rightarrow>
          if f_RouteId existForward \<noteq> 0 \<or> fd_RouteId dto \<noteq> 0
          then updateRouteForward e dto existForward userId roleId w
          else
      (case firstTunnel d (fd_TunnelId dto) of
        None \<Rightarrow> (Err (TunnelErr TunnelNotFound), w)
      | Some tunnel \<Rightarrow>
          if t_Status tunnel \<noteq> tunnelStatusActive then (Err (TunnelErr TunnelDisabled), w)
          else
      (case update_permission e d dto existForward tunnel userId roleId of
        Inl er \<Rightarrow> (Err er, w)
      | Inr (limiter, permUserTunnel) \<Rightarrow>
      (case update_user_tunnel d existForward tunnel userId roleId permUserTunnel of
        Inl er \<Rightarrow> (Err er, w)
      | Inr userTunnel \<Rightarrow>
      (case update_ports d dto existForward tunnel of
        Inl er \<Rightarrow> (Err er, w)
      | Inr (inPort, outPort) \<Rightarrow>
      (case getRequiredNodes d tunnel of
        Inl er \<Rightarrow> (Err er, w)
      | Inr (inNode, outNode) \<Rightarrow>
          (let change = (\<lambda>f. f\<lparr>f_Name := fd_Name dto, f_TunnelId := fd_TunnelId dto,
                  f_RemoteAddr := fd_RemoteAddr dto, f_Strategy := fd_Strategy dto,
                  f_ListenIp := fd_ListenIp dto, f_InterfaceName := fd_InterfaceName dto,
                  f_InPort := inPort, f_OutPort := outPort, f_Status := forwardStatusActive,
                  f_UpdatedTime := now e\<rparr>);
               updated = change existForward;
               (er, w1) = update_services e existForward updated
                 (with_listen_ip (fd_ListenIp dto) tunnel) limiter inNode outNode
                 (buildServiceName (f_ID updated) (f_UserId updated) userTunnel) w
           in case er of
                Some x \<Rightarrow> (Err x, w1)
              | None \<Rightarrow>
                  (let (ok, w2) = db_write e (set_forward (fd_ID dto) change) w1
                   in (if ok then Ok Done else Err (ForwardErr ForwardUpdateFailed), w2)))))))))))"

section \<open>Delete\<close>

text \<open>The permission row of the service name: a user's own, which must exist, or the owner's.\<close>

definition own_user_tunnel ::
  "db \<Rightarrow> Forward \<Rightarrow> Tunnel \<Rightarrow> int \<Rightarrow> int \<Rightarrow> err + UserTunnel option" where
  "own_user_tunnel d forward tunnel userId roleId =
     (if roleId \<noteq> adminRoleId
      then (case getUserTunnel d userId (t_ID tunnel) of
              None \<Rightarrow> Inl (AccessErr NoTunnelPermission) | Some ut \<Rightarrow> Inr (Some ut))
      else Inr (getUserTunnel d (f_UserId forward) (t_ID tunnel)))"

definition DeleteForward :: "'n env \<Rightarrow> int \<Rightarrow> int \<Rightarrow> int \<Rightarrow> 'n world \<Rightarrow> reply \<times> 'n world" where
  "DeleteForward e k userId roleId w =
     (let d = wdb w in
      case validateForwardExists d k userId roleId of
        None \<Rightarrow> (Err (ForwardErr ForwardNotFound), w)
      | Some forward \<Rightarrow>
          if f_RouteId forward \<noteq> 0 then deleteRouteForward e forward w
          else case firstTunnel d (f_TunnelId forward) of
            None \<Rightarrow> (Err (TunnelErr TunnelNotFound), w)
          | Some tunnel \<Rightarrow>
              (case own_user_tunnel d forward tunnel userId roleId of
                 Inl er \<Rightarrow> (Err er, w)
               | Inr userTunnel \<Rightarrow>
                   (let (gostErr, w1) =
                          (case getRequiredNodes d tunnel of
                             Inl _ \<Rightarrow> ([], w)
                           | Inr (inNode, outNode) \<Rightarrow>
                               if nodeOnline e (n_ID inNode) \<and>
                                  (case outNode of None \<Rightarrow> True | Some out \<Rightarrow> nodeOnline e (n_ID out))
                               then deleteGostServicesWithIP e tunnel inNode outNode
                                      (buildServiceName (f_ID forward) (f_UserId forward) userTunnel)
                                      (f_ListenIp forward) w
                               else ([], w))
                    in if gostErr \<noteq> [] then (Err (GostErr gostErr), w1)
                       else (let (ok, w2) = db_write e (delete_forward_row k) w1
                             in (if ok then Ok Done else Err (ForwardErr ForwardDeleteFailed), w2)))))"

definition ForceDeleteForward :: "'n env \<Rightarrow> int \<Rightarrow> 'n world \<Rightarrow> reply \<times> 'n world" where
  "ForceDeleteForward e k w =
     (case firstForward (wdb w) k of
        None \<Rightarrow> (Err (ForwardErr ForwardNotFound), w)
      | Some forward \<Rightarrow>
          (let w1 = (if f_RouteId forward \<noteq> 0 then snd (cleanupRouteForwardServices e forward w)
                     else case firstTunnel (wdb w) (f_TunnelId forward) of
                       None \<Rightarrow> w
                     | Some tunnel \<Rightarrow> deleteOldGostServices e forward tunnel w);
               w2 = db_exec e (route_ports_update (delete_where (\<lambda>p. p_ForwardId p = k))) w1;
               (ok, w3) = db_write e (delete_forward_row k) w2
           in (if ok then Ok Done else Err (ForwardErr ForwardDeleteFailed), w3)))"

section \<open>Pause and resume\<close>

definition pause_main ::
  "'n env \<Rightarrow> int \<Rightarrow> string \<Rightarrow> string \<Rightarrow> 'n world \<Rightarrow> GostResponse \<times> 'n world" where
  "pause_main e nodeId serviceName listenIp =
     (if multi_ip listenIp then PauseServiceMultiIP e nodeId serviceName listenIp
      else PauseService e nodeId serviceName)"

definition resume_main ::
  "'n env \<Rightarrow> int \<Rightarrow> string \<Rightarrow> string \<Rightarrow> 'n world \<Rightarrow> GostResponse \<times> 'n world" where
  "resume_main e nodeId serviceName listenIp =
     (if multi_ip listenIp then ResumeServiceMultiIP e nodeId serviceName listenIp
      else ResumeService e nodeId serviceName)"

definition PauseForward :: "'n env \<Rightarrow> int \<Rightarrow> int \<Rightarrow> int \<Rightarrow> 'n world \<Rightarrow> reply \<times> 'n world" where
  "PauseForward e k userId roleId w =
     (let d = wdb w in
      case check_account d userId roleId of
        Some er \<Rightarrow> (Err er, w)
      | None \<Rightarrow>
      (case validateForwardExists d k userId roleId of
        None \<Rightarrow> (Err (ForwardErr ForwardNotFound), w)
      | Some forward \<Rightarrow>
          if f_RouteId forward \<noteq> 0 then pauseRouteForward e forward w
          else
      (case firstTunnel d (f_TunnelId forward) of
        None \<Rightarrow> (Err (TunnelErr TunnelNotFound), w)
      | Some tunnel \<Rightarrow>
      (case own_user_tunnel d forward tunnel userId roleId of
        Inl er \<Rightarrow> (Err er, w)
      | Inr userTunnel \<Rightarrow>
      (case getRequiredNodes d tunnel of
        Inl er \<Rightarrow> (Err er, w)
      | Inr (inNode, outNode) \<Rightarrow>
          (let serviceName = buildServiceName (f_ID forward) (f_UserId forward) userTunnel;
               (result, w1) = pause_main e (n_ID inNode) serviceName (f_ListenIp forward) w
           in if \<not> is_ok result then (Err (ForwardErr (PauseFailed (g_Msg result))), w1)
              else case outNode of
                Some out \<Rightarrow>
                  if t_Type tunnel = tunnelTypeTunnelForward then
                    (let (remoteResult, w2) = PauseRemoteService e (n_ID out) serviceName w1
                     in if \<not> is_ok remoteResult
                        then (Err (ForwardErr (RemotePauseFailed (g_Msg remoteResult))), w2)
                        else (Ok Done, set_status e k forwardStatusPaused w2))
                  else (Ok Done, set_status e k forwardStatusPaused w1)
              | None \<Rightarrow> (Ok Done, set_status e k forwardStatusPaused w1)))))))"

definition resume_permission ::
  "'n env \<Rightarrow> db \<Rightarrow> Forward \<Rightarrow> Tunnel \<Rightarrow> int \<Rightarrow> int \<Rightarrow> err + UserTunnel option" where
  "resume_permission e d forward tunnel userId roleId =
     (if roleId \<noteq> adminRoleId then
        (case checkUserFlowLimits e d userId tunnel of
           Some er \<Rightarrow> Inl er
         | None \<Rightarrow>
             (case getUserTunnel d userId (t_ID tunnel) of
                None \<Rightarrow> Inl (AccessErr NoTunnelPermission)
              | Some ut \<Rightarrow> if ut_Status ut \<noteq> 1 then Inl (AccessErr TunnelPermissionDisabled)
                          else Inr (Some ut)))
      else Inr (getUserTunnel d (f_UserId forward) (t_ID tunnel)))"

definition ResumeForward :: "'n env \<Rightarrow> int \<Rightarrow> int \<Rightarrow> int \<Rightarrow> 'n world \<Rightarrow> reply \<times> 'n world" where
  "ResumeForward e k userId roleId w =
     (let d = wdb w in
      case check_account d userId roleId of
        Some er \<Rightarrow> (Err er, w)
      | None \<Rightarrow>
      (case validateForwardExists d k userId roleId of
        None \<Rightarrow> (Err (ForwardErr ForwardNotFound), w)
      | Some forward \<Rightarrow>
          if f_RouteId forward \<noteq> 0 then resumeRouteForward e forward w
          else
      (case firstTunnel d (f_TunnelId forward) of
        None \<Rightarrow> (Err (TunnelErr TunnelNotFound), w)
      | Some tunnel \<Rightarrow>
          if t_Status tunnel \<noteq> tunnelStatusActive then (Err (TunnelErr TunnelDisabled), w)
          else
      (case resume_permission e d forward tunnel userId roleId of
        Inl er \<Rightarrow> (Err er, w)
      | Inr userTunnel \<Rightarrow>
      (case getRequiredNodes d tunnel of
        Inl er \<Rightarrow> (Err er, w)
      | Inr (inNode, outNode) \<Rightarrow>
          (let serviceName = buildServiceName (f_ID forward) (f_UserId forward) userTunnel;
               (result, w1) = resume_main e (n_ID inNode) serviceName (f_ListenIp forward) w
           in if \<not> is_ok result then (Err (ForwardErr (ResumeFailed (g_Msg result))), w1)
              else case outNode of
                Some out \<Rightarrow>
                  if t_Type tunnel = tunnelTypeTunnelForward then
                    (let (remoteResult, w2) = ResumeRemoteService e (n_ID out) serviceName w1
                     in if \<not> is_ok remoteResult
                        then (Err (ForwardErr (RemoteResumeFailed (g_Msg remoteResult))), w2)
                        else (Ok Done, set_status e k forwardStatusActive w2))
                  else (Ok Done, set_status e k forwardStatusActive w1)
              | None \<Rightarrow> (Ok Done, set_status e k forwardStatusActive w1)))))))"

section \<open>Order and refresh\<close>

text \<open>\<open>items\<close> is the decoded \<open>forwards\<close> parameter, pairs of id and position.\<close>

definition UpdateForwardOrder ::
  "'n env \<Rightarrow> (int \<times> int) list \<Rightarrow> int \<Rightarrow> int \<Rightarrow> 'n world \<Rightarrow> reply \<times> 'n world" where
  "UpdateForwardOrder e items userId roleId w =
     (if items = [] then (Err (ForwardErr OrderEmpty), w)
      else if roleId \<noteq> adminRoleId \<and>
        count_where (\<lambda>f. f_ID f \<in> set (map fst items) \<and> f_UserId f = userId) (forwards (wdb w))
          \<noteq> int (length items)
      then (Err (ForwardErr OrderNotOwn), w)
      else (Ok Done, fold (\<lambda>(k, inx). db_exec e (set_forward k (\<lambda>f. f\<lparr>f_Inx := inx\<rparr>))) items w))"

definition limiter_of :: "UserTunnel option \<Rightarrow> int option" where
  "limiter_of userTunnel = (case userTunnel of None \<Rightarrow> None | Some ut \<Rightarrow> ut_SpeedId ut)"

definition UpdateForwardA :: "'n env \<Rightarrow> Forward \<Rightarrow> 'n world \<Rightarrow> 'n world" where
  "UpdateForwardA e forward w =
     (let d = wdb w in
      case firstTunnel d (f_TunnelId forward) of
        None \<Rightarrow> w
      | Some tunnel0 \<Rightarrow>
          (let tunnel = with_listen_ip (f_ListenIp forward) tunnel0;
               userTunnel = getUserTunnel d (f_UserId forward) (t_ID tunnel)
           in case getRequiredNodes d tunnel of
                Inl _ \<Rightarrow> w
              | Inr (inNode, outNode) \<Rightarrow>
                  snd (updateGostServices e forward tunnel (limiter_of userTunnel) inNode outNode
                         (buildServiceName (f_ID forward) (f_UserId forward) userTunnel) w)))"

end
