(* ===== verification/Tunnel_Api.thy ===== *)
theory Tunnel_Api
  imports Forward_Api
begin

text \<open>
  Tunnels, tunnel permissions, speed limits and nodes: the operations of service/tunnel.go,
  service/user_tunnel.go, service/speed_limit.go and service/node.go that change the panel's
  state or send commands.
\<close>

section \<open>Tunnels\<close>

record TunnelDto =
  td_Name :: string
  td_InNodeId :: int
  td_OutNodeId :: "int option"
  td_Type :: int
  td_Flow :: int
  td_TrafficRatio :: "rat option"
  td_InterfaceName :: string
  td_Protocol :: string
  td_TcpListenAddr :: string
  td_UdpListenAddr :: string

definition or_default :: "string \<Rightarrow> string \<Rightarrow> string" where
  "or_default s def = (if s \<noteq> [] then s else def)"

text \<open>The exit node and address of a new tunnel.\<close>

definition tunnel_exit :: "db \<Rightarrow> TunnelDto \<Rightarrow> Node \<Rightarrow> err + int \<times> string" where
  "tunnel_exit d dto inNode =
     (if td_Type dto \<noteq> 2 then Inr (td_InNodeId dto, n_ServerIp inNode)
      else case td_OutNodeId dto of
        None \<Rightarrow> Inl (TunnelErr TunnelNeedsExitNode)
      | Some out \<Rightarrow>
          if out = td_InNodeId dto then Inl (TunnelErr TunnelSameNode)
          else (case GetNodeById d out of
                  None \<Rightarrow> Inl (PortErr ExitNodeNotFound)
                | Some outNode \<Rightarrow> Inr (out, n_ServerIp outNode)))"

definition CreateTunnel :: "'n env \<Rightarrow> TunnelDto \<Rightarrow> 'n world \<Rightarrow> reply \<times> 'n world" where
  "CreateTunnel e dto w =
     (let d = wdb w in
      if count_where (\<lambda>t. text_eq e (t_Name t) (td_Name dto)) (tunnels d) > 0
      then (Err (TunnelErr TunnelNameExists), w)
      else case GetNodeById d (td_InNodeId dto) of
        None \<Rightarrow> (Err (PortErr EntryNodeNotFound), w)
      | Some inNode \<Rightarrow>
          (case tunnel_exit d dto inNode of
             Inl er \<Rightarrow> (Err er, w)
           | Inr (outNodeId, outIp) \<Rightarrow>
               (let tunnel =
                      \<lparr>t_ID = next_key T_tunnel d, t_Name = td_Name dto,
                       t_TrafficRatio = (case td_TrafficRatio dto of None \<Rightarrow> 1 | Some r \<Rightarrow> r),
                       t_InNodeId = td_InNodeId dto, t_InIp = n_ServerIp inNode,
                       t_OutNodeId = outNodeId, t_OutIp = outIp, t_Type = td_Type dto,
                       t_Protocol = or_default (td_Protocol dto) ''tls'', t_Flow = td_Flow dto,
                       t_TcpListenAddr = or_default (td_TcpListenAddr dto) ''::'',
                       t_UdpListenAddr = or_default (td_UdpListenAddr dto) ''::'',
                       t_InterfaceName = td_InterfaceName dto, t_CreatedTime = now e,
                       t_UpdatedTime = now e, t_Status = 1, t_Inx = 0\<rparr>;
                    (ok, w1) = db_write e (insertTunnel tunnel) w
                in (if ok then Ok (Created_tunnel tunnel) else Err (TunnelErr TunnelSaveFailed),
                    w1))))"

record TunnelUpdateDto =
  tu_ID :: int
  tu_Name :: string
  tu_Flow :: int
  tu_TrafficRatio :: "rat option"
  tu_Protocol :: string
  tu_TcpListenAddr :: string
  tu_UdpListenAddr :: string
  tu_InterfaceName :: string

definition set_tunnel :: "int \<Rightarrow> (Tunnel \<Rightarrow> Tunnel) \<Rightarrow> db \<Rightarrow> db" where
  "set_tunnel k f = tunnels_update (update_where (\<lambda>t. t_ID t = k) f)"

definition UpdateTunnel :: "'n env \<Rightarrow> TunnelUpdateDto \<Rightarrow> 'n world \<Rightarrow> reply \<times> 'n world" where
  "UpdateTunnel e dto w =
     (let d = wdb w in
      case firstTunnel d (tu_ID dto) of
        None \<Rightarrow> (Err (TunnelErr TunnelNotFound), w)
      | Some tunnel \<Rightarrow>
          if count_where (\<lambda>t. text_eq e (t_Name t) (tu_Name dto) \<and> t_ID t \<noteq> tu_ID dto) (tunnels d) > 0
          then (Err (TunnelErr TunnelNameExists), w)
          else
            (let (ok, w1) = db_write e (set_tunnel (tu_ID dto) (\<lambda>t. t\<lparr>t_Name := tu_Name dto,
                   t_Flow := tu_Flow dto, t_Protocol := tu_Protocol dto,
                   t_TcpListenAddr := tu_TcpListenAddr dto,
                   t_UdpListenAddr := tu_UdpListenAddr dto,
                   t_InterfaceName := tu_InterfaceName dto, t_UpdatedTime := now e,
                   t_TrafficRatio := (case tu_TrafficRatio dto of
                      None \<Rightarrow> t_TrafficRatio t | Some r \<Rightarrow> r)\<rparr>)) w
             in (if ok then Ok Done else Err (TunnelErr TunnelSaveFailed), w1)))"

definition UpdateTunnelOrder :: "'n env \<Rightarrow> (int \<times> int) list \<Rightarrow> 'n world \<Rightarrow> reply \<times> 'n world" where
  "UpdateTunnelOrder e items w =
     (Ok Done, fold (\<lambda>(k, inx). db_exec e (set_tunnel k (\<lambda>t. t\<lparr>t_Inx := inx\<rparr>))) items w)"

definition DeleteTunnel :: "'n env \<Rightarrow> int \<Rightarrow> 'n world \<Rightarrow> reply \<times> 'n world" where
  "DeleteTunnel e k w =
     (let d = wdb w in
      case firstTunnel d k of
        None \<Rightarrow> (Err (TunnelErr TunnelNotFound), w)
      | Some tunnel \<Rightarrow>
          if count_where (\<lambda>f. f_TunnelId f = k) (forwards d) > 0
          then (Err (TunnelErr TunnelInUse), w)
          else
            (let w1 = db_exec e (user_tunnels_update
                   (delete_where (\<lambda>ut. ut_TunnelId ut = k))) w;
                 w2 = db_exec e (tunnels_update (delete_where (\<lambda>t. t_ID t = t_ID tunnel))) w1
             in (Ok Done, w2)))"

section \<open>Speed limits\<close>

record SpeedLimitDto =
  sd_Name :: string
  sd_Speed :: int
  sd_TunnelId :: int

text \<open>A limiter command to the entry node of a tunnel, when there is one.\<close>

definition on_entry_node ::
  "db \<Rightarrow> int \<Rightarrow> (int \<Rightarrow> 'n world \<Rightarrow> GostResponse \<times> 'n world) \<Rightarrow> 'n world \<Rightarrow> 'n world" where
  "on_entry_node d nodeId call w =
     (case GetNodeById d nodeId of None \<Rightarrow> w | Some inNode \<Rightarrow> snd (call (n_ID inNode) w))"

definition CreateSpeedLimit :: "'n env \<Rightarrow> SpeedLimitDto \<Rightarrow> 'n world \<Rightarrow> reply \<times> 'n world" where
  "CreateSpeedLimit e dto w =
     (case firstTunnel (wdb w) (sd_TunnelId dto) of
        None \<Rightarrow> (Err (TunnelErr TunnelNotFound), w)
      | Some tunnel \<Rightarrow>
          (let sl = \<lparr>sl_ID = next_key T_speed_limit (wdb w), sl_Name = sd_Name dto,
                 sl_Speed = sd_Speed dto, sl_TunnelId = sd_TunnelId dto,
                 sl_TunnelName = t_Name tunnel, sl_CreatedTime = now e, sl_UpdatedTime = now e,
                 sl_Status = 1\<rparr>;
               (ok, w1) = db_write e (insertSpeedLimit sl) w
           in if \<not> ok then (Err (TunnelErr SpeedLimitSaveFailed), w1)
              else (Ok (Created_speed_limit sl),
                    on_entry_node (wdb w1) (t_InNodeId tunnel)
                      (\<lambda>n. AddLimiters e n (sl_ID sl) (itoa (sl_Speed sl))) w1)))"

record SpeedLimitUpdateDto =
  su_ID :: int
  su_Name :: string
  su_Speed :: "int option"

definition UpdateSpeedLimit :: "'n env \<Rightarrow> SpeedLimitUpdateDto \<Rightarrow> 'n world \<Rightarrow> reply \<times> 'n world" where
  "UpdateSpeedLimit e dto w =
     (case firstSpeedLimit (wdb w) (su_ID dto) of
        None \<Rightarrow> (Err (TunnelErr SpeedLimitNotFound), w)
      | Some sl0 \<Rightarrow>
          (let sl = sl0\<lparr>sl_Name := (if su_Name dto \<noteq> [] then su_Name dto else sl_Name sl0),
                 sl_Speed := (case su_Speed dto of None \<Rightarrow> sl_Speed sl0 | Some s \<Rightarrow> s),
                 sl_UpdatedTime := now e\<rparr>;
               w1 = db_exec e (speed_limits_update
                      (update_where (\<lambda>s. sl_ID s = sl_ID sl) (\<lambda>_. sl))) w
           in (Ok Done,
               (case firstTunnel (wdb w1) (sl_TunnelId sl) of
                  None \<Rightarrow> w1
                | Some tunnel \<Rightarrow> on_entry_node (wdb w1) (t_InNodeId tunnel)
                    (\<lambda>n. UpdateLimiters e n (sl_ID sl) (itoa (sl_Speed sl))) w1))))"

definition DeleteSpeedLimit :: "'n env \<Rightarrow> int \<Rightarrow> 'n world \<Rightarrow> reply \<times> 'n world" where
  "DeleteSpeedLimit e k w =
     (case firstSpeedLimit (wdb w) k of
        None \<Rightarrow> (Err (TunnelErr SpeedLimitNotFound), w)
      | Some sl \<Rightarrow>
          if count_where (\<lambda>ut. ut_SpeedId ut = Some k) (user_tunnels (wdb w)) > 0
          then (Err (TunnelErr SpeedLimitInUse), w)
          else
            (let w1 = (case firstTunnel (wdb w) (sl_TunnelId sl) of
                   None \<Rightarrow> w
                 | Some tunnel \<Rightarrow> on_entry_node (wdb w) (t_InNodeId tunnel)
                     (\<lambda>n. DeleteLimiters e n (sl_ID sl)) w)
             in (Ok Done, db_exec e (speed_limits_update
                   (delete_where (\<lambda>s. sl_ID s = sl_ID sl))) w1)))"

section \<open>Tunnel permissions\<close>

record UserTunnelDto =
  utd_UserId :: int
  utd_TunnelId :: int
  utd_Num :: int
  utd_Flow :: int
  utd_FlowResetType :: int
  utd_FlowResetDay :: int
  utd_ExpTime :: int
  utd_SpeedId :: "int option"

text \<open>\<open>pkg.AddLimiters\<close> for an existing speed limit.\<close>

definition add_speed_limiter :: "'n env \<Rightarrow> int \<Rightarrow> int \<Rightarrow> 'n world \<Rightarrow> 'n world" where
  "add_speed_limiter e speedId inNodeId w =
     (if 0 < speedId then
        (case firstSpeedLimit (wdb w) speedId of
           None \<Rightarrow> w
         | Some speedLimit \<Rightarrow> on_entry_node (wdb w) inNodeId
             (\<lambda>n. AddLimiters e n speedId (itoa (sl_Speed speedLimit))) w)
      else w)"

definition AssignUserTunnel :: "'n env \<Rightarrow> UserTunnelDto \<Rightarrow> 'n world \<Rightarrow> reply \<times> 'n world" where
  "AssignUserTunnel e dto w =
     (let d = wdb w in
      case firstUser d (utd_UserId dto) of
        None \<Rightarrow> (Err (AccessErr UserNotFound), w)
      | Some user \<Rightarrow>
      (case firstTunnel d (utd_TunnelId dto) of
        None \<Rightarrow> (Err (TunnelErr TunnelNotFound), w)
      | Some tunnel \<Rightarrow>
          if count_where (\<lambda>ut. ut_UserId ut = utd_UserId dto \<and> ut_TunnelId ut = utd_TunnelId dto)
               (user_tunnels d) > 0
          then (Err (TunnelErr UserTunnelExists), w)
          else
            (let ut = \<lparr>ut_ID = next_key T_user_tunnel d, ut_UserId = utd_UserId dto,
                   ut_TunnelId = utd_TunnelId dto, ut_SpeedId = utd_SpeedId dto,
                   ut_Num = utd_Num dto, ut_Flow = utd_Flow dto, ut_InFlow = 0, ut_OutFlow = 0,
                   ut_FlowResetType = utd_FlowResetType dto,
                   ut_FlowResetDay = utd_FlowResetDay dto, ut_ExpTime = utd_ExpTime dto,
                   ut_Status = 1\<rparr>;
                 w1 = (case utd_SpeedId dto of
                         None \<Rightarrow> w | Some s \<Rightarrow> add_speed_limiter e s (t_InNodeId tunnel) w);
                 (ok, w2) = db_write e (insertUserTunnel ut) w1
             in (if ok then Ok (Created_user_tunnel ut) else Err (TunnelErr UserTunnelSaveFailed),
                 w2))))"

text \<open>The loop of \<open>RemoveUserTunnel\<close> over the forwards of the permission. A tunnel row that is
  gone leaves the zero tunnel in the code, whose node 0 does not exist.\<close>

definition remove_forward ::
  "'n env \<Rightarrow> Tunnel option \<Rightarrow> UserTunnel \<Rightarrow> Forward \<Rightarrow> 'n world \<Rightarrow> 'n world" where
  "remove_forward e tunnel ut fwd w =
     (let serviceName = buildServiceName (f_ID fwd) (f_UserId fwd) (Some ut);
          inNode = (case tunnel of None \<Rightarrow> GetNodeById (wdb w) 0
                    | Some t \<Rightarrow> GetNodeById (wdb w) (t_InNodeId t));
          w1 = (case inNode of
                  None \<Rightarrow> w
                | Some n \<Rightarrow>
                    (let w1 = snd (delete_main e (n_ID n) serviceName (f_ListenIp fwd) w)
                     in case tunnel of
                          None \<Rightarrow> w1
                        | Some t \<Rightarrow>
                            if t_Type t = 2 then
                              (let w2 = snd (DeleteChains e (n_ID n) serviceName w1)
                               in case GetNodeById (wdb w2) (t_OutNodeId t) of
                                    None \<Rightarrow> w2
                                  | Some out \<Rightarrow> snd (DeleteRemoteService e (n_ID out) serviceName w2))
                            else w1))
      in db_exec e (delete_forward_row (f_ID fwd)) w1)"

definition user_tunnel_forwards :: "db \<Rightarrow> UserTunnel \<Rightarrow> Forward list" where
  "user_tunnel_forwards d ut =
     find_where (\<lambda>f. f_UserId f = ut_UserId ut \<and> f_TunnelId f = ut_TunnelId ut) (forwards d)"

definition RemoveUserTunnel :: "'n env \<Rightarrow> int \<Rightarrow> 'n world \<Rightarrow> reply \<times> 'n world" where
  "RemoveUserTunnel e k w =
     (case firstUserTunnel (wdb w) k of
        None \<Rightarrow> (Err (TunnelErr UserTunnelNotFound), w)
      | Some ut \<Rightarrow>
          (let tunnel = firstTunnel (wdb w) (ut_TunnelId ut);
               w1 = fold (remove_forward e tunnel ut) (user_tunnel_forwards (wdb w) ut) w
           in (Ok Done, db_exec e (user_tunnels_update
                 (delete_where (\<lambda>x. ut_ID x = ut_ID ut))) w1)))"

record UserTunnelUpdateDto =
  utu_ID :: int
  utu_Num :: "int option"
  utu_Flow :: "int option"
  utu_FlowResetType :: "int option"
  utu_FlowResetDay :: "int option"
  utu_ExpTime :: "int option"
  utu_SpeedId :: "int option"
  utu_Status :: "int option"

definition updateForwardWithNewSpeed ::
  "'n env \<Rightarrow> Forward \<Rightarrow> Tunnel \<Rightarrow> UserTunnel \<Rightarrow> 'n world \<Rightarrow> 'n world" where
  "updateForwardWithNewSpeed e fwd tunnel0 ut w =
     (let tunnel = with_listen_ip (f_ListenIp fwd) tunnel0;
          serviceName = buildServiceName (f_ID fwd) (f_UserId fwd) (Some ut)
      in case GetNodeById (wdb w) (t_InNodeId tunnel) of
           None \<Rightarrow> w
         | Some inNode \<Rightarrow>
             snd (UpdateService e (n_ID inNode) serviceName (f_InPort fwd) (ut_SpeedId ut)
                    (f_RemoteAddr fwd) (t_Type tunnel) tunnel (f_Strategy fwd)
                    (if t_Type tunnel \<noteq> 2 then f_InterfaceName fwd else []) w))"

definition pauseForwardForDisable ::
  "'n env \<Rightarrow> Forward \<Rightarrow> Tunnel \<Rightarrow> UserTunnel \<Rightarrow> 'n world \<Rightarrow> 'n world" where
  "pauseForwardForDisable e fwd tunnel ut w =
     (case GetNodeById (wdb w) (t_InNodeId tunnel) of
        None \<Rightarrow> w
      | Some inNode \<Rightarrow>
          (let serviceName = buildServiceName (f_ID fwd) (f_UserId fwd) (Some ut);
               w1 = snd (pause_main e (n_ID inNode) serviceName (f_ListenIp fwd) w);
               w2 = (if t_Type tunnel = 2 then
                       (case GetNodeById (wdb w1) (t_OutNodeId tunnel) of
                          None \<Rightarrow> w1
                        | Some out \<Rightarrow> snd (PauseRemoteService e (n_ID out) serviceName w1))
                     else w1)
           in db_exec e (set_forward (f_ID fwd) (\<lambda>f. f\<lparr>f_Status := 0\<rparr>)) w2))"

text \<open>The change of speed: the limiter on the entry node, then every forward's services.\<close>

definition change_speed ::
  "'n env \<Rightarrow> UserTunnel \<Rightarrow> int \<Rightarrow> 'n world \<Rightarrow> 'n world" where
  "change_speed e ut speedId w =
     (case firstTunnel (wdb w) (ut_TunnelId ut) of
        None \<Rightarrow> w
      | Some tunnel \<Rightarrow>
          (case GetNodeById (wdb w) (t_InNodeId tunnel) of
             None \<Rightarrow> w
           | Some inNode \<Rightarrow>
               if ut_SpeedId ut = Some speedId then w
               else
                 (let w1 = add_speed_limiter e speedId (t_InNodeId tunnel) w
                  in fold (\<lambda>fwd. updateForwardWithNewSpeed e fwd tunnel
                             (ut\<lparr>ut_SpeedId := Some speedId\<rparr>))
                       (user_tunnel_forwards (wdb w1) ut) w1)))"

definition user_tunnel_updates :: "UserTunnelUpdateDto \<Rightarrow> UserTunnel \<Rightarrow> UserTunnel" where
  "user_tunnel_updates dto ut =
     (let set = (\<lambda>new old. case new of None \<Rightarrow> old | Some x \<Rightarrow> x)
      in ut\<lparr>ut_Num := set (utu_Num dto) (ut_Num ut), ut_Flow := set (utu_Flow dto) (ut_Flow ut),
            ut_FlowResetType := set (utu_FlowResetType dto) (ut_FlowResetType ut),
            ut_FlowResetDay := set (utu_FlowResetDay dto) (ut_FlowResetDay ut),
            ut_ExpTime := set (utu_ExpTime dto) (ut_ExpTime ut),
            ut_Status := set (utu_Status dto) (ut_Status ut),
            ut_SpeedId := (case utu_SpeedId dto of None \<Rightarrow> ut_SpeedId ut | Some s \<Rightarrow> Some s)\<rparr>)"

definition no_updates :: "UserTunnelUpdateDto \<Rightarrow> bool" where
  "no_updates dto \<longleftrightarrow> utu_Num dto = None \<and> utu_Flow dto = None \<and> utu_FlowResetType dto = None \<and>
     utu_FlowResetDay dto = None \<and> utu_ExpTime dto = None \<and> utu_Status dto = None \<and>
     utu_SpeedId dto = None"

definition UpdateUserTunnel :: "'n env \<Rightarrow> UserTunnelUpdateDto \<Rightarrow> 'n world \<Rightarrow> reply \<times> 'n world" where
  "UpdateUserTunnel e dto w =
     (case firstUserTunnel (wdb w) (utu_ID dto) of
        None \<Rightarrow> (Err (TunnelErr UserTunnelNotFound), w)
      | Some ut \<Rightarrow>
          (let w1 = (case utu_SpeedId dto of None \<Rightarrow> w | Some s \<Rightarrow> change_speed e ut s w);
               active = filter (\<lambda>f. f_Status f = 1) (user_tunnel_forwards (wdb w1) ut);
               w2 = (if utu_Status dto = Some 0 then
                       (case firstTunnel (wdb w1) (ut_TunnelId ut) of
                          None \<Rightarrow> w1
                        | Some tunnel \<Rightarrow>
                            fold (\<lambda>fwd. pauseForwardForDisable e fwd tunnel ut) active w1)
                     else w1);
               w3 = (if no_updates dto then w2
                     else db_exec e (user_tunnels_update (update_where
                            (\<lambda>x. ut_ID x = ut_ID ut) (user_tunnel_updates dto))) w2)
           in (Ok Done, w3)))"

section \<open>Nodes\<close>

record NodeDto =
  nd_Name :: string
  nd_Ip :: string
  nd_EntryIps :: string
  nd_ServerIp :: string
  nd_PortSta :: int
  nd_PortEnd :: int
  nd_GroupName :: string

datatype node_reply = Node_ok | Node_created Node | Bad_port_range | Node_failed

text \<open>\<open>secret\<close> is the fresh random secret; the disguise names are left out.\<close>

definition CreateNode :: "'n env \<Rightarrow> string \<Rightarrow> NodeDto \<Rightarrow> 'n world \<Rightarrow> node_reply \<times> 'n world" where
  "CreateNode e secret dto w =
     (if nd_PortSta dto \<ge> nd_PortEnd dto then (Bad_port_range, w)
      else
        (let node = \<lparr>n_ID = next_key T_node (wdb w), n_Name = nd_Name dto, n_Secret = secret,
               n_Ip = nd_Ip dto, n_EntryIps = nd_EntryIps dto, n_ServerIp = nd_ServerIp dto,
               n_PortSta = nd_PortSta dto, n_PortEnd = nd_PortEnd dto,
               n_GroupName = nd_GroupName dto, n_CreatedTime = now e, n_UpdatedTime = now e,
               n_Status = 0, n_Inx = 0, n_Version = [], n_XrayStatus = 0\<rparr>;
             (ok, w1) = db_write e (insertNode node) w
         in (if ok then Node_created node else Node_failed, w1)))"

record NodeUpdateDto =
  nu_ID :: int
  nu_Name :: string
  nu_Ip :: string
  nu_EntryIps :: string
  nu_ServerIp :: string
  nu_PortSta :: "int option"
  nu_PortEnd :: "int option"
  nu_GroupName :: "string option"

definition set_node :: "int \<Rightarrow> (Node \<Rightarrow> Node) \<Rightarrow> db \<Rightarrow> db" where
  "set_node k f = nodes_update (update_where (\<lambda>n. n_ID n = k) f)"

definition node_updates :: "'n env \<Rightarrow> NodeUpdateDto \<Rightarrow> Node \<Rightarrow> Node" where
  "node_updates e dto n =
     n\<lparr>n_UpdatedTime := now e,
       n_Name := (if nu_Name dto \<noteq> [] then nu_Name dto else n_Name n),
       n_Ip := (if nu_Ip dto \<noteq> [] then nu_Ip dto else n_Ip n),
       n_EntryIps := nu_EntryIps dto,
       n_ServerIp := (if nu_ServerIp dto \<noteq> [] then nu_ServerIp dto else n_ServerIp n),
       n_PortSta := (case nu_PortSta dto of None \<Rightarrow> n_PortSta n | Some p \<Rightarrow> p),
       n_PortEnd := (case nu_PortEnd dto of None \<Rightarrow> n_PortEnd n | Some p \<Rightarrow> p),
       n_GroupName := (case nu_GroupName dto of None \<Rightarrow> n_GroupName n | Some g \<Rightarrow> g)\<rparr>"

definition UpdateNode :: "'n env \<Rightarrow> NodeUpdateDto \<Rightarrow> 'n world \<Rightarrow> node_reply \<times> 'n world" where
  "UpdateNode e dto w =
     (case GetNodeById (wdb w) (nu_ID dto) of
        None \<Rightarrow> (Node_failed, w)
      | Some node \<Rightarrow>
          (let k = nu_ID dto;
               w1 = (if nu_ServerIp dto \<noteq> [] \<and> n_ServerIp node \<noteq> nu_ServerIp dto then
                       db_exec e (tunnels_update (update_where (\<lambda>t. t_OutNodeId t = k)
                           (\<lambda>t. t\<lparr>t_OutIp := nu_ServerIp dto\<rparr>)))
                        (db_exec e (tunnels_update (update_where (\<lambda>t. t_InNodeId t = k)
                           (\<lambda>t. t\<lparr>t_InIp := nu_ServerIp dto\<rparr>))) w)
                     else w);
               (ok, w2) = db_write e (set_node k (node_updates e dto)) w1
           in (if ok then Node_ok else Node_failed, w2)))"

definition DeleteNode :: "'n env \<Rightarrow> int \<Rightarrow> 'n world \<Rightarrow> node_reply \<times> 'n world" where
  "DeleteNode e k w =
     (case GetNodeById (wdb w) k of
        None \<Rightarrow> (Node_failed, w)
      | Some node \<Rightarrow>
          if count_where (\<lambda>t. t_InNodeId t = k \<or> t_OutNodeId t = k) (tunnels (wdb w)) > 0
          then (Node_failed, w)
          else
            (let w1 = fold (\<lambda>ib w. db_exec e (xray_clients_update
                         (delete_where (\<lambda>c. xc_InboundId c = xi_ID ib)))
                         (snd (XrayRemoveInbound e k (xi_Tag ib) w)))
                       (find_where (\<lambda>ib. xi_NodeId ib = k) (xray_inbounds (wdb w))) w;
                 w2 = db_exec e (xray_inbounds_update (delete_where (\<lambda>ib. xi_NodeId ib = k))) w1;
                 w3 = db_exec e (user_nodes_update (delete_where (\<lambda>un. un_NodeId un = k))) w2
             in (Node_ok, db_exec e (nodes_update (delete_where (\<lambda>n. n_ID n = n_ID node))) w3)))"

definition UpdateNodeOrder :: "'n env \<Rightarrow> (int \<times> int) list \<Rightarrow> 'n world \<Rightarrow> node_reply \<times> 'n world" where
  "UpdateNodeOrder e items w =
     (Node_ok, fold (\<lambda>(k, inx). db_exec e (set_node k (\<lambda>n. n\<lparr>n_Inx := inx\<rparr>))) items w)"

end
