(* ===== verification/Panel_Inv.thy ===== *)
theory Panel_Inv
  imports Tunnel_Api
begin

text \<open>
  The invariant of the panel's database, \<open>panel_inv\<close>: no two forwards share a port of a node,
  routes are well-formed, and keys are fresh. The locale \<open>db_invariant\<close> is the interface
  between an invariant and the handlers: an invariant that depends on a view of the database
  only is kept by every write that leaves the view alone. It is interpreted on \<open>panel_inv\<close>
  with the view \<open>ports_view\<close>, and every operation of the panel is shown to keep the
  invariant.
\<close>

section \<open>The interface of an invariant\<close>

locale db_invariant =
  fixes I :: "db \<Rightarrow> bool" and V :: "db \<Rightarrow> 'v"
  assumes view: "V d' = V d \<Longrightarrow> I d \<Longrightarrow> I d'"
begin

lemma keep_exec: "I (wdb w) \<Longrightarrow> (\<And>d. I d \<Longrightarrow> I (f d)) \<Longrightarrow> I (wdb (db_exec e f w))"
  using db_exec_db [of e f w] by auto

lemma keep_write:
  "I (wdb w) \<Longrightarrow> (\<And>d. I d \<Longrightarrow> I (f d)) \<Longrightarrow> I (wdb (snd (db_write e f w)))"
  by simp

lemma keep_exec_view: "I (wdb w) \<Longrightarrow> (\<And>d. V (f d) = V d) \<Longrightarrow> I (wdb (db_exec e f w))"
  using keep_exec view by blast

lemma keep_write_view:
  "I (wdb w) \<Longrightarrow> (\<And>d. V (f d) = V d) \<Longrightarrow> I (wdb (snd (db_write e f w)))"
  using keep_write view by blast

lemma keep_fold:
  "I (wdb w) \<Longrightarrow> (\<And>x w. x \<in> set xs \<Longrightarrow> I (wdb w) \<Longrightarrow> I (wdb (step x w))) \<Longrightarrow>
     I (wdb (fold step xs w))"
  by (induction xs arbitrary: w) auto

lemma keep_frame: "wdb w' = wdb w \<Longrightarrow> I (wdb w) \<Longrightarrow> I (wdb w')"
  by simp

end

section \<open>The invariant\<close>

abbreviation f_core :: "Forward \<Rightarrow> int \<times> int \<times> int \<times> int \<times> int" where
  "f_core f \<equiv> (f_ID f, f_TunnelId f, f_RouteId f, f_InPort f, f_OutPort f)"

abbreviation p_core :: "ForwardRoutePort \<Rightarrow> int \<times> int \<times> int" where
  "p_core p \<equiv> (p_ForwardId p, p_NodeId p, p_RelayPort p)"

abbreviation t_core :: "Tunnel \<Rightarrow> int \<times> int \<times> int" where
  "t_core t \<equiv> (t_ID t, t_InNodeId t, t_OutNodeId t)"

definition ports_view :: "db \<Rightarrow> (int \<times> int \<times> int \<times> int \<times> int) list \<times> (int \<times> int \<times> int) list
    \<times> (int \<times> int \<times> int) list \<times> RouteHop list \<times> int list \<times> int \<times> int \<times> int" where
  "ports_view d = (map f_core (forwards d), map p_core (route_ports d), map t_core (tunnels d),
     route_hops d, map r_ID (routes d), seq d T_forward, seq d T_tunnel, seq d T_route)"

definition keys_wf :: "db \<Rightarrow> bool" where
  "keys_wf d \<longleftrightarrow> distinct (map f_ID (forwards d)) \<and> distinct (map t_ID (tunnels d)) \<and>
     (\<forall>f \<in> set (forwards d). f_ID f < seq d T_forward \<and> f_TunnelId f < seq d T_tunnel \<and>
        f_RouteId f < seq d T_route) \<and>
     (\<forall>p \<in> set (route_ports d). p_ForwardId p < seq d T_forward) \<and>
     (\<forall>t \<in> set (tunnels d). 0 < t_ID t \<and> t_ID t < seq d T_tunnel) \<and>
     (\<forall>h \<in> set (route_hops d). 0 < h_RouteId h) \<and>
     (\<forall>r \<in> set (routes d). 0 < r_ID r) \<and> 0 < seq d T_tunnel \<and> 0 < seq d T_route"

definition panel_inv :: "db \<Rightarrow> bool" where
  "panel_inv d \<longleftrightarrow> ports_exclusive d \<and> routes_wf d \<and> keys_wf d"

text \<open>Each part of the invariant depends on the view only.\<close>

lemma bex_core: "map c xs = map c' ys \<Longrightarrow> (\<exists>x \<in> set xs. Q (c x)) = (\<exists>y \<in> set ys. Q (c' y))"
  by (metis (no_types, lifting) image_iff list.set_map)

lemma ball_core: "map c xs = map c' ys \<Longrightarrow> (\<forall>x \<in> set xs. Q (c x)) = (\<forall>y \<in> set ys. Q (c' y))"
  by (metis (no_types, lifting) image_iff list.set_map)

lemma occupies_view:
  assumes "map f_core (forwards d') = map f_core (forwards d)"
    and "map p_core (route_ports d') = map p_core (route_ports d)"
    and "map t_core (tunnels d') = map t_core (tunnels d)" and "route_hops d' = route_hops d"
  shows "occupies d' n p k = occupies d n p k"
proof -
  have t1: "(\<exists>t \<in> set (tunnels d'). t_ID t = a \<and> t_InNodeId t = n) =
      (\<exists>t \<in> set (tunnels d). t_ID t = a \<and> t_InNodeId t = n)" for a
    using bex_core [OF assms(3), of "\<lambda>(i, x, y). i = a \<and> x = n"] by simp
  have t2: "(\<exists>t \<in> set (tunnels d'). t_ID t = a \<and> t_OutNodeId t = n) =
      (\<exists>t \<in> set (tunnels d). t_ID t = a \<and> t_OutNodeId t = n)" for a
    using bex_core [OF assms(3), of "\<lambda>(i, x, y). i = a \<and> y = n"] by simp
  have f: "(\<exists>f \<in> set (forwards d'). f_ID f = k \<and> (occupies_entry d n p f \<or> occupies_exit d n p f)) =
      (\<exists>f \<in> set (forwards d). f_ID f = k \<and> (occupies_entry d n p f \<or> occupies_exit d n p f))"
    unfolding occupies_entry_def occupies_exit_def
    using bex_core [OF assms(1), of "\<lambda>(i, t, r, a, b). i = k \<and> ((a = p \<and>
        ((\<exists>x \<in> set (tunnels d). t_ID x = t \<and> t_InNodeId x = n) \<or>
         (\<exists>h \<in> set (route_hops d). h_RouteId h = r \<and> h_HopOrder h = 0 \<and> h_NodeId h = n))) \<or>
        (b = p \<and> (\<exists>x \<in> set (tunnels d). t_ID x = t \<and> t_OutNodeId x = n)))"] by simp
  have p: "(\<exists>rp \<in> set (route_ports d'). p_ForwardId rp = k \<and> p_NodeId rp = n \<and> p_RelayPort rp = p) =
      (\<exists>rp \<in> set (route_ports d). p_ForwardId rp = k \<and> p_NodeId rp = n \<and> p_RelayPort rp = p)"
    using bex_core [OF assms(2), of "\<lambda>(i, x, y). i = k \<and> x = n \<and> y = p"] by simp
  have "occupies_entry d' n p f = occupies_entry d n p f"
    "occupies_exit d' n p f = occupies_exit d n p f" for f
    unfolding occupies_entry_def occupies_exit_def t1 t2 assms(4) by simp_all
  then show ?thesis unfolding occupies_def p by (simp only: f)
qed

lemma ports_exclusive_view: "ports_view d' = ports_view d \<Longrightarrow> ports_exclusive d \<Longrightarrow> ports_exclusive d'"
  unfolding ports_exclusive_def using occupies_view [of d' d] by (simp add: ports_view_def)

lemma keys_wf_view: "ports_view d' = ports_view d \<Longrightarrow> keys_wf d \<Longrightarrow> keys_wf d'"
proof -
  assume v: "ports_view d' = ports_view d" and k: "keys_wf d"
  from v have f: "map f_core (forwards d') = map f_core (forwards d)"
    and p: "map p_core (route_ports d') = map p_core (route_ports d)"
    and t: "map t_core (tunnels d') = map t_core (tunnels d)"
    and r: "map r_ID (routes d') = map r_ID (routes d)"
    and h: "route_hops d' = route_hops d"
    and s: "seq d' T_forward = seq d T_forward" "seq d' T_tunnel = seq d T_tunnel"
      "seq d' T_route = seq d T_route"
    by (simp_all add: ports_view_def)
  have d: "map f_ID (forwards d') = map f_ID (forwards d)" "map t_ID (tunnels d') = map t_ID (tunnels d)"
    using arg_cong [OF f, of "map fst"] arg_cong [OF t, of "map fst"] by (simp_all add: comp_def)
  show ?thesis
    using k
      ball_core [OF f, of "\<lambda>(i, t, r, a, b). i < seq d T_forward \<and> t < seq d T_tunnel \<and> r < seq d T_route"]
      ball_core [OF p, of "\<lambda>(i, x, y). i < seq d T_forward"]
      ball_core [OF t, of "\<lambda>(i, x, y). 0 < i \<and> i < seq d T_tunnel"] ball_core [OF r, of "\<lambda>i. 0 < i"]
    unfolding keys_wf_def d h s by simp
qed

lemma routes_wf_view:
  assumes v: "ports_view d' = ports_view d" and wf: "routes_wf d"
  shows "routes_wf d'"
proof (rule routes_wf_change [OF wf])
  from v have h: "route_hops d' = route_hops d" by (simp add: ports_view_def)
  show "map r_ID (routes d') = map r_ID (routes d)" "seq d' T_route = seq d T_route"
    using v by (simp_all add: ports_view_def)
  show "h_RouteId h < seq d T_route" if "h \<in> set (route_hops d')" for h
    using that wf unfolding h by (simp add: routes_wf_def)
  show "hops_wf (route_hop_list d' k)" if "k \<in> set (map r_ID (routes d))" for k
    using that wf by (auto simp: routes_wf_def route_hop_list_def h)
qed

interpretation panel: db_invariant panel_inv ports_view
  by unfold_locales (auto simp: panel_inv_def intro: ports_exclusive_view routes_wf_view keys_wf_view)

section \<open>Changing the ports of one forward\<close>

text \<open>Only forward \<open>k\<close> changes, to tunnel \<open>t\<close>, route \<open>r\<close> and ports \<open>i\<close>, \<open>out\<close> and
  \<open>S\<close>, none of which another forward holds.\<close>

lemma ports_exclusive_row:
  assumes inv: "ports_exclusive d"
    and t: "tunnels d' = tunnels d" and h: "route_hops d' = route_hops d"
    and f_other: "\<And>f. f \<in> set (forwards d') \<Longrightarrow> f_ID f \<noteq> k \<Longrightarrow> f \<in> set (forwards d)"
    and f_k: "\<And>f. f \<in> set (forwards d') \<Longrightarrow> f_ID f = k \<Longrightarrow> f_core f = (k, tid, rid, i, out)"
    and p_other: "\<And>p. p \<in> set (route_ports d') \<Longrightarrow> p_ForwardId p \<noteq> k \<Longrightarrow> p \<in> set (route_ports d)"
    and p_k: "\<And>p. p \<in> set (route_ports d') \<Longrightarrow> p_ForwardId p = k \<Longrightarrow> (p_NodeId p, p_RelayPort p) \<in> S"
    and entry: "\<And>n k'. i \<noteq> 0 \<Longrightarrow> k' \<noteq> k \<Longrightarrow>
        (\<exists>x \<in> set (tunnels d). t_ID x = tid \<and> t_InNodeId x = n) \<or>
        (\<exists>x \<in> set (route_hops d). h_RouteId x = rid \<and> h_HopOrder x = 0 \<and> h_NodeId x = n) \<Longrightarrow>
        \<not> occupies d n i k'"
    and exit: "\<And>n k'. out \<noteq> 0 \<Longrightarrow> k' \<noteq> k \<Longrightarrow>
        (\<exists>x \<in> set (tunnels d). t_ID x = tid \<and> t_OutNodeId x = n) \<Longrightarrow> \<not> occupies d n out k'"
    and relay: "\<And>n p k'. (n, p) \<in> S \<Longrightarrow> p \<noteq> 0 \<Longrightarrow> k' \<noteq> k \<Longrightarrow> \<not> occupies d n p k'"
  shows "ports_exclusive d'"
proof (rule ports_exclusive_change [OF inv])
  have row: "occupies_entry d' n p f = occupies_entry d n p f"
    "occupies_exit d' n p f = occupies_exit d n p f" for n p f
    by (simp_all add: occupies_entry_def occupies_exit_def t h)
  show "occupies d n p k'" if "k' \<noteq> k" "occupies d' n p k'" for n p k'
    using that f_other p_other unfolding occupies_def row by metis
  show "\<not> occupies d n p k'" if k': "k' \<noteq> k" and o: "occupies d' n p k" for n p k'
  proof -
    from o have p: "p \<noteq> 0" by (simp add: occupies_def)
    from o consider f where "f \<in> set (forwards d')" "f_ID f = k" "occupies_entry d n p f"
      | f where "f \<in> set (forwards d')" "f_ID f = k" "occupies_exit d n p f"
      | rp where "rp \<in> set (route_ports d')" "p_ForwardId rp = k" "p_NodeId rp = n" "p_RelayPort rp = p"
      unfolding occupies_def row by blast
    then show ?thesis
    proof cases
      case 1
      with f_k [OF 1(1,2)] p entry [OF _ k'] show ?thesis by (auto simp: occupies_entry_def)
    next
      case 2
      with f_k [OF 2(1,2)] p exit [OF _ k'] show ?thesis by (auto simp: occupies_exit_def)
    next
      case 3
      with p_k [OF 3(1,2)] p relay [OF _ _ k'] show ?thesis by auto
    qed
  qed
qed

lemma free_port_other: "free_port d n excl p \<Longrightarrow> not_excluded excl k' \<Longrightarrow> \<not> occupies d n p k'"
  by (simp add: free_port_def)

lemma keys_wf_tunnel_unique:
  "keys_wf d \<Longrightarrow> t \<in> set (tunnels d) \<Longrightarrow> x \<in> set (tunnels d) \<Longrightarrow> t_ID x = t_ID t \<Longrightarrow> x = t"
  unfolding keys_wf_def distinct_map by (auto dest: inj_onD)

text \<open>The ports of a tunnel forward just allocated are held by nobody else.\<close>

lemma allocated_entry:
  assumes wf: "keys_wf d" and t: "tunnel \<in> set (tunnels d)"
    and a: "allocatePorts d tunnel sp excl = Inr (i, out)" and k': "not_excluded excl k'"
    and at: "(\<exists>x \<in> set (tunnels d). t_ID x = t_ID tunnel \<and> t_InNodeId x = n) \<or>
        (\<exists>x \<in> set (route_hops d). h_RouteId x = 0 \<and> h_HopOrder x = 0 \<and> h_NodeId x = n)"
  shows "\<not> occupies d n i k'"
proof -
  have "\<forall>x \<in> set (route_hops d). h_RouteId x \<noteq> 0" using wf by (auto simp: keys_wf_def)
  with at keys_wf_tunnel_unique [OF wf t] have "n = t_InNodeId tunnel" by auto
  with allocatePorts_Inr [OF a] free_port_other k' show ?thesis by blast
qed

lemma allocated_exit:
  assumes wf: "keys_wf d" and t: "tunnel \<in> set (tunnels d)"
    and a: "allocatePorts d tunnel sp excl = Inr (i, out)" and k': "not_excluded excl k'"
    and at: "\<exists>x \<in> set (tunnels d). t_ID x = t_ID tunnel \<and> t_OutNodeId x = n" and out: "out \<noteq> 0"
  shows "\<not> occupies d n out k'"
proof -
  from at keys_wf_tunnel_unique [OF wf t] have "n = t_OutNodeId tunnel" by auto
  with allocatePorts_Inr [OF a] free_port_other k' out show ?thesis by (auto split: if_splits)
qed

section \<open>Writes on forwards\<close>

lemma panel_invD: "panel_inv d \<Longrightarrow> ports_exclusive d" "panel_inv d \<Longrightarrow> routes_wf d"
    "panel_inv d \<Longrightarrow> keys_wf d"
  by (simp_all add: panel_inv_def)

lemma insertForward_simps [simp]:
  "forwards (insertForward f d) = forwards d @ [f\<lparr>f_ID := seq d T_forward\<rparr>]"
  "route_ports (insertForward f d) = route_ports d" "tunnels (insertForward f d) = tunnels d"
  "route_hops (insertForward f d) = route_hops d" "routes (insertForward f d) = routes d"
  "seq (insertForward f d) = (seq d)(T_forward := seq d T_forward + 1)"
  "nodes (insertForward f d) = nodes d"
  by (simp_all add: insertForward_def bump_key_def next_key_def insert_row_def)

lemma delete_forward_row_simps [simp]:
  "forwards (delete_forward_row k d) = delete_where (\<lambda>f. f_ID f = k) (forwards d)"
  "route_ports (delete_forward_row k d) = route_ports d"
  "tunnels (delete_forward_row k d) = tunnels d" "routes (delete_forward_row k d) = routes d"
  "route_hops (delete_forward_row k d) = route_hops d" "seq (delete_forward_row k d) = seq d"
  by (simp_all add: delete_forward_row_def)

lemma set_forward_simps [simp]:
  "forwards (set_forward k g d) = update_where (\<lambda>f. f_ID f = k) g (forwards d)"
  "route_ports (set_forward k g d) = route_ports d"
  "tunnels (set_forward k g d) = tunnels d" "routes (set_forward k g d) = routes d"
  "route_hops (set_forward k g d) = route_hops d" "seq (set_forward k g d) = seq d"
  by (simp_all add: set_forward_def)

lemma set_forward_view: "(\<And>f. f_core (g f) = f_core f) \<Longrightarrow> ports_view (set_forward k g d) = ports_view d"
  by (simp add: ports_view_def update_where_def)

lemma keys_wf_insertForward:
  assumes "keys_wf d" and "f_TunnelId f < seq d T_tunnel" and "f_RouteId f < seq d T_route"
  shows "keys_wf (insertForward f d)"
proof -
  have "seq d T_forward \<notin> f_ID ` set (forwards d)" using assms by (auto simp: keys_wf_def)
  then show ?thesis using assms by (auto simp: keys_wf_def)
qed

lemma delete_forward_row_inv: "panel_inv d \<Longrightarrow> panel_inv (delete_forward_row k d)"
proof -
  assume inv: "panel_inv d"
  have "occupies (delete_forward_row k d) n p j \<Longrightarrow> occupies d n p j" for n p j
    by (auto simp: occupies_def occupies_entry_def occupies_exit_def)
  with inv have "ports_exclusive (delete_forward_row k d)"
    by (meson panel_invD ports_exclusive_mono)
  moreover have "routes_wf (delete_forward_row k d)"
    by (rule routes_wf_frame [OF panel_invD(2) [OF inv]]) simp_all
  moreover have "keys_wf (delete_forward_row k d)"
    using panel_invD(3) [OF inv] by (auto simp: keys_wf_def delete_where_def distinct_map_filter)
  ultimately show ?thesis by (simp add: panel_inv_def)
qed

lemma delete_route_ports_inv:
  "panel_inv d \<Longrightarrow> panel_inv (route_ports_update (delete_where q) d)" (is "_ \<Longrightarrow> panel_inv ?d")
proof -
  assume inv: "panel_inv d"
  have "occupies ?d n p j \<Longrightarrow> occupies d n p j" for n p j
    by (auto simp: occupies_def occupies_entry_def occupies_exit_def)
  with inv have "ports_exclusive ?d" by (meson panel_invD ports_exclusive_mono)
  moreover have "routes_wf ?d" by (rule routes_wf_frame [OF panel_invD(2) [OF inv]]) simp_all
  moreover have "keys_wf ?d" using panel_invD(3) [OF inv] by (auto simp: keys_wf_def)
  ultimately show ?thesis by (simp add: panel_inv_def)
qed

lemma insert_tunnel_forward_inv:
  assumes inv: "panel_inv d" and t: "tunnel \<in> set (tunnels d)"
    and a: "allocatePorts d tunnel sp None = Inr (i, out)"
    and f: "f_TunnelId f = t_ID tunnel" "f_RouteId f = 0" "f_InPort f = i" "f_OutPort f = out"
  shows "panel_inv (insertForward f d)"
proof -
  let ?k = "seq d T_forward"
  note wf = panel_invD(3) [OF inv]
  have "ports_exclusive (insertForward f d)"
  proof (rule ports_exclusive_row [OF panel_invD(1) [OF inv], where k = ?k and S = "{}"])
    show "f_core x = (?k, t_ID tunnel, 0, i, out)"
      if "x \<in> set (forwards (insertForward f d))" "f_ID x = ?k" for x
      using that f wf by (auto simp: keys_wf_def)
    show "(p_NodeId p, p_RelayPort p) \<in> {}"
      if "p \<in> set (route_ports (insertForward f d))" "p_ForwardId p = ?k" for p
      using that wf by (auto simp: keys_wf_def)
  qed (use allocated_entry [OF wf t a] allocated_exit [OF wf t a] in auto)
  moreover have "keys_wf (insertForward f d)"
    by (rule keys_wf_insertForward) (use wf t f in \<open>auto simp: keys_wf_def\<close>)
  moreover have "routes_wf (insertForward f d)"
    by (rule routes_wf_frame [OF panel_invD(2) [OF inv]]) simp_all
  ultimately show ?thesis by (simp add: panel_inv_def)
qed

lemma keys_wf_set_forward:
  assumes "keys_wf d" and "\<And>f. f_ID (g f) = f_ID f"
    and "\<And>f. f \<in> set (forwards d) \<Longrightarrow> f_ID f = k \<Longrightarrow>
       f_TunnelId (g f) < seq d T_tunnel \<and> f_RouteId (g f) < seq d T_route"
  shows "keys_wf (set_forward k g d)"
proof -
  have "map f_ID (update_where (\<lambda>f. f_ID f = k) g (forwards d)) = map f_ID (forwards d)"
    using assms(2) by (auto simp: update_where_def)
  then show ?thesis using assms by (auto simp: keys_wf_def set_update_where)
qed

lemma set_tunnel_forward_inv:
  assumes inv: "panel_inv d" and f0: "f0 \<in> set (forwards d)" "f_ID f0 = k" "f_RouteId f0 = 0"
    and t: "tunnel \<in> set (tunnels d)"
    and a: "allocatePorts d tunnel sp (Some k) = Inr (i, out) \<or>
       (t_ID tunnel = f_TunnelId f0 \<and> i = f_InPort f0 \<and> out = f_OutPort f0)"
    and g: "\<And>f. f_core (g f) = (f_ID f, t_ID tunnel, f_RouteId f, i, out)"
  shows "panel_inv (set_forward k g d)"
proof -
  note wf = panel_invD(3) [OF inv] and ex = panel_invD(1) [OF inv]
  have uniq: "f = f0" if "f \<in> set (forwards d)" "f_ID f = k" for f
    using wf f0 that unfolding keys_wf_def distinct_map by (auto dest: inj_onD)
  have g': "f_ID (g f) = f_ID f" "f_TunnelId (g f) = t_ID tunnel" "f_RouteId (g f) = f_RouteId f" for f
    using g by simp_all
  have "ports_exclusive (set_forward k g d)"
  proof (rule ports_exclusive_row [OF ex, where k = k
        and S = "{(p_NodeId p, p_RelayPort p) |p. p \<in> set (route_ports d) \<and> p_ForwardId p = k}"])
    show "f_core x = (k, t_ID tunnel, 0, i, out)"
      if "x \<in> set (forwards (set_forward k g d))" "f_ID x = k" for x
    proof -
      from that(1) obtain f where f: "f \<in> set (forwards d)"
        and x: "x = (if f_ID f = k then g f else f)" by (auto simp: set_update_where)
      from x that(2) g' have "f_ID f = k" by (auto split: if_splits)
      with uniq [OF f] x g f0 show ?thesis by simp
    qed
    show "x \<in> set (forwards d)"
      if "x \<in> set (forwards (set_forward k g d))" "f_ID x \<noteq> k" for x
      using that g' by (auto simp: set_update_where)
    show "\<not> occupies d n i k'"
      if "i \<noteq> 0" "k' \<noteq> k" and at: "(\<exists>x \<in> set (tunnels d). t_ID x = t_ID tunnel \<and> t_InNodeId x = n) \<or>
        (\<exists>x \<in> set (route_hops d). h_RouteId x = 0 \<and> h_HopOrder x = 0 \<and> h_NodeId x = n)" for n k'
      using a
    proof
      assume "allocatePorts d tunnel sp (Some k) = Inr (i, out)"
      from allocated_entry [OF wf t this _ at] that(2) show ?thesis by simp
    next
      assume same: "t_ID tunnel = f_TunnelId f0 \<and> i = f_InPort f0 \<and> out = f_OutPort f0"
      with at f0 have "occupies_entry d n i f0" by (auto simp: occupies_entry_def)
      with f0 that(1) have "occupies d n i k" by (auto simp: occupies_def)
      with ex that(2) show ?thesis by (auto simp: ports_exclusive_def)
    qed
    show "\<not> occupies d n out k'"
      if "out \<noteq> 0" "k' \<noteq> k" and at: "\<exists>x \<in> set (tunnels d). t_ID x = t_ID tunnel \<and> t_OutNodeId x = n" for n k'
      using a
    proof
      assume "allocatePorts d tunnel sp (Some k) = Inr (i, out)"
      from allocated_exit [OF wf t this _ at that(1)] that(2) show ?thesis by simp
    next
      assume same: "t_ID tunnel = f_TunnelId f0 \<and> i = f_InPort f0 \<and> out = f_OutPort f0"
      with at f0 have "occupies_exit d n out f0" by (auto simp: occupies_exit_def)
      with f0 that(1) have "occupies d n out k" by (auto simp: occupies_def)
      with ex that(2) show ?thesis by (auto simp: ports_exclusive_def)
    qed
    show "\<not> occupies d n p k'"
      if "(n, p) \<in> {(p_NodeId p, p_RelayPort p) |p. p \<in> set (route_ports d) \<and> p_ForwardId p = k}"
        "p \<noteq> 0" "k' \<noteq> k" for n p k'
    proof -
      from that have "occupies d n p k" by (auto simp: occupies_def)
      with ex that(3) show ?thesis by (auto simp: ports_exclusive_def)
    qed
  qed auto
  moreover have "keys_wf (set_forward k g d)"
    by (rule keys_wf_set_forward [OF wf]) (use g' wf t in \<open>auto simp: keys_wf_def\<close>)
  moreover have "routes_wf (set_forward k g d)"
    by (rule routes_wf_frame [OF panel_invD(2) [OF inv]]) simp_all
  ultimately show ?thesis by (simp add: panel_inv_def)
qed

section \<open>Writes of route forwards\<close>

lemma insert_route_ports:
  "forwards (fold insertRoutePort ps d) = forwards d \<and> tunnels (fold insertRoutePort ps d) = tunnels d \<and>
   routes (fold insertRoutePort ps d) = routes d \<and>
   route_hops (fold insertRoutePort ps d) = route_hops d \<and>
   (\<forall>t. t \<noteq> T_forward_route_port \<longrightarrow> seq (fold insertRoutePort ps d) t = seq d t) \<and>
   p_core ` set (route_ports (fold insertRoutePort ps d)) =
     p_core ` set (route_ports d) \<union> p_core ` set ps"
proof (induction ps arbitrary: d)
  case (Cons p ps)
  let ?d = "insertRoutePort p d"
  have d: "forwards ?d = forwards d" "tunnels ?d = tunnels d" "routes ?d = routes d"
    "route_hops ?d = route_hops d" "\<forall>t. t \<noteq> T_forward_route_port \<longrightarrow> seq ?d t = seq d t"
    "p_core ` set (route_ports ?d) = insert (p_core p) (p_core ` set (route_ports d))"
    by (simp_all add: insertRoutePort_def bump_key_def)
  from Cons.IH [of ?d] d show ?case by simp
qed simp

lemma route_entry_hop:
  assumes wf: "routes_wf d" and l: "LoadRouteWithHops d rid = Inr (route, hops)"
    and x: "x \<in> set (route_hops d)" "h_RouteId x = rid" "h_HopOrder x = 0"
  shows "x = hd hops"
proof -
  from l have r: "firstRoute d rid = Some route" and hops: "hops = route_hop_list d rid"
    by (auto simp: LoadRouteWithHops_def Let_def split: option.splits if_splits)
  from firstRoute_Some [OF r] wf hops have h: "hops_wf hops" by (auto simp: routes_wf_def)
  from x hops have "x \<in> set hops" by (simp add: route_hop_list_def)
  then obtain j where j: "j < length hops" "hops ! j = x" by (auto simp: in_set_conv_nth)
  have "h_HopOrder (hops ! j) = map h_HopOrder hops ! j" using j(1) by simp
  also have "\<dots> = map int [0..<length hops] ! j" using h by (simp add: hops_wf_def)
  also have "\<dots> = int j" using j(1) by simp
  finally have "h_HopOrder (hops ! j) = int j" .
  with x j have "j = 0" by simp
  with j h show ?thesis by (cases hops) (auto simp: hops_wf_def)
qed

lemma route_forward_exclusive:
  assumes inv: "panel_inv d" and l: "LoadRouteWithHops d rid = Inr (route, hops)"
    and a: "allocateRouteForwardPorts d route hops sp excl = Inr (i, ports)"
    and excl: "\<And>k'. k' \<noteq> k \<Longrightarrow> not_excluded excl k'"
    and t: "tunnels d' = tunnels d" and h: "route_hops d' = route_hops d"
    and f_other: "\<And>f. f \<in> set (forwards d') \<Longrightarrow> f_ID f \<noteq> k \<Longrightarrow> f \<in> set (forwards d)"
    and f_k: "\<And>f. f \<in> set (forwards d') \<Longrightarrow> f_ID f = k \<Longrightarrow> f_core f = (k, 0, rid, i, out)"
    and p_other: "\<And>p. p \<in> set (route_ports d') \<Longrightarrow> p_ForwardId p \<noteq> k \<Longrightarrow>
       p_core p \<in> p_core ` set (route_ports d)"
    and p_k: "\<And>p. p \<in> set (route_ports d') \<Longrightarrow> p_ForwardId p = k \<Longrightarrow>
       (p_NodeId p, p_RelayPort p) \<in> (\<lambda>p. (p_NodeId p, p_RelayPort p)) ` set ports"
  shows "ports_exclusive d'"
proof -
  from allocateRouteForwardPorts_Inr [OF a] obtain h0 hs where hops: "hops = h0 # hs"
    and free0: "free_port d (h_NodeId h0) excl i"
    and free: "\<forall>rp \<in> set ports. free_port d (p_NodeId rp) excl (p_RelayPort rp)" by blast
  note wf = panel_invD(3) [OF inv]
  have entry: "\<not> occupies d n i k'" if "k' \<noteq> k"
    "(\<exists>x \<in> set (tunnels d). t_ID x = 0 \<and> t_InNodeId x = n) \<or>
     (\<exists>x \<in> set (route_hops d). h_RouteId x = rid \<and> h_HopOrder x = 0 \<and> h_NodeId x = n)" for n k'
  proof -
    have "\<forall>x \<in> set (tunnels d). t_ID x \<noteq> 0" using wf by (auto simp: keys_wf_def)
    with that(2) route_entry_hop [OF panel_invD(2) [OF inv] l] hops have "n = h_NodeId h0" by auto
    with free0 free_port_other excl that(1) show ?thesis by blast
  qed
  have no_exit: "\<not> (\<exists>x \<in> set (tunnels d). t_ID x = 0 \<and> t_OutNodeId x = n)" for n
    using wf by (auto simp: keys_wf_def)
  have relay: "\<not> occupies d n p k'"
    if "(n, p) \<in> (\<lambda>p. (p_NodeId p, p_RelayPort p)) ` set ports" "k' \<noteq> k" for n p k'
    using that free free_port_other excl by auto
  show ?thesis
  proof (rule ports_exclusive_change [OF panel_invD(1) [OF inv], where k = k])
    have row: "occupies_entry d' n p f = occupies_entry d n p f"
      "occupies_exit d' n p f = occupies_exit d n p f" for n p f
      by (simp_all add: occupies_entry_def occupies_exit_def t h)
    show "occupies d n p k'" if k': "k' \<noteq> k" and o: "occupies d' n p k'" for n p k'
    proof -
      from o have p: "p \<noteq> 0" by (simp add: occupies_def)
      from o consider f where "f \<in> set (forwards d')" "f_ID f = k'"
          "occupies_entry d n p f \<or> occupies_exit d n p f"
        | rp where "rp \<in> set (route_ports d')" "p_ForwardId rp = k'" "p_NodeId rp = n" "p_RelayPort rp = p"
        unfolding occupies_def row by blast
      then show ?thesis
      proof cases
        case 1
        with f_other k' p show ?thesis by (auto simp: occupies_def)
      next
        case 2
        with p_other [OF 2(1)] k' p show ?thesis by (auto simp: occupies_def)
      qed
    qed
    show "\<not> occupies d n p k'" if k': "k' \<noteq> k" and o: "occupies d' n p k" for n p k'
    proof -
      from o consider f where "f \<in> set (forwards d')" "f_ID f = k" "occupies_entry d n p f"
        | f where "f \<in> set (forwards d')" "f_ID f = k" "occupies_exit d n p f"
        | rp where "rp \<in> set (route_ports d')" "p_ForwardId rp = k" "p_NodeId rp = n" "p_RelayPort rp = p"
        unfolding occupies_def row by blast
      then show ?thesis
      proof cases
        case 1
        with f_k [OF 1(1,2)] entry [OF k'] show ?thesis by (auto simp: occupies_entry_def)
      next
        case 2
        with f_k [OF 2(1,2)] no_exit [of n] show ?thesis by (auto simp: occupies_exit_def)
      next
        case 3
        with p_k [OF 3(1,2)] relay [OF _ k'] show ?thesis by auto
      qed
    qed
  qed
qed

lemma stamp_port_core: "p_core (stamp_port k route t p) = (k, p_NodeId p, p_RelayPort p)"
  by (simp add: stamp_port_def)

lemma insert_route_forward_inv:
  assumes inv: "panel_inv d" and l: "LoadRouteWithHops d rid = Inr (route, hops)"
    and a: "allocateRouteForwardPorts d route hops sp None = Inr (i, ports)"
    and f: "f_TunnelId f = 0" "f_RouteId f = rid" "f_InPort f = i" "f_OutPort f = out"
    and k: "k = seq d T_forward"
  shows "panel_inv (fold insertRoutePort (map (stamp_port k route t) ports) (insertForward f d))"
    (is "panel_inv ?d'")
proof -
  let ?ps = "map (stamp_port k route t) ports"
  note wf = panel_invD(3) [OF inv]
  from insert_route_ports [of ?ps "insertForward f d"]
  have d': "forwards ?d' = forwards d @ [f\<lparr>f_ID := k\<rparr>]" "tunnels ?d' = tunnels d"
    "routes ?d' = routes d" "route_hops ?d' = route_hops d"
    "seq ?d' T_forward = k + 1" "seq ?d' T_tunnel = seq d T_tunnel" "seq ?d' T_route = seq d T_route"
    "p_core ` set (route_ports ?d') = p_core ` set (route_ports d) \<union> p_core ` set ?ps"
    by (simp_all add: k)
  have core: "p_core p \<in> p_core ` set (route_ports d) \<or>
      (p_ForwardId p = k \<and> (p_NodeId p, p_RelayPort p) \<in> (\<lambda>p. (p_NodeId p, p_RelayPort p)) ` set ports)"
    if "p \<in> set (route_ports ?d')" for p
  proof -
    from that d'(8) have "p_core p \<in> p_core ` set (route_ports d) \<union> p_core ` set ?ps" by blast
    then show ?thesis by (force simp: stamp_port_def)
  qed
  have rid: "rid < seq d T_route"
    using l panel_invD(2) [OF inv] firstRoute_Some
    by (fastforce simp: LoadRouteWithHops_def Let_def routes_wf_def split: option.splits if_splits)
  have old: "k' < k" if "c \<in> p_core ` set (route_ports d)" "fst c = k'" for c k'
    using that wf k by (auto simp: keys_wf_def)
  have "ports_exclusive ?d'"
  proof (rule route_forward_exclusive [OF inv l a, where k = k and out = out])
    show "f_core x = (k, 0, rid, i, out)" if "x \<in> set (forwards ?d')" "f_ID x = k" for x
      using that wf k f unfolding d' by (auto simp: keys_wf_def)
    show "(p_NodeId p, p_RelayPort p) \<in> (\<lambda>p. (p_NodeId p, p_RelayPort p)) ` set ports"
      if "p \<in> set (route_ports ?d')" "p_ForwardId p = k" for p
      using core [OF that(1)] old [of "p_core p" k] that(2) by auto
    show "p_core p \<in> p_core ` set (route_ports d)"
      if "p \<in> set (route_ports ?d')" "p_ForwardId p \<noteq> k" for p
      using core [OF that(1)] that(2) by auto
  qed (use d' in auto)
  moreover have "keys_wf ?d'"
  proof -
    have "k \<notin> f_ID ` set (forwards d)" using wf k by (auto simp: keys_wf_def)
    moreover have "\<forall>p \<in> set (route_ports ?d'). p_ForwardId p < k + 1"
      using core old by fastforce
    moreover have "0 < seq d T_tunnel" using wf by (simp add: keys_wf_def)
    ultimately show ?thesis using wf rid f k unfolding keys_wf_def d' by auto
  qed
  moreover have "routes_wf ?d'"
    by (rule routes_wf_frame [OF panel_invD(2) [OF inv]]) (simp_all add: d')
  ultimately show ?thesis by (simp add: panel_inv_def)
qed

lemma update_route_forward_inv:
  assumes inv: "panel_inv d" and l: "LoadRouteWithHops d rid = Inr (route, hops)"
    and a: "allocateRouteForwardPorts d route hops sp (Some k) = Inr (i, ports)"
    and f0: "f0 \<in> set (forwards d)" "f_ID f0 = k"
    and g: "\<And>f. f_core (g f) = (f_ID f, 0, rid, i, out)"
  shows "panel_inv (fold insertRoutePort (map (stamp_port k route t) ports)
           (set_forward k g (route_ports_update (delete_where (\<lambda>p. p_ForwardId p = k)) d)))"
    (is "panel_inv ?d'")
proof -
  let ?ps = "map (stamp_port k route t) ports"
  let ?d1 = "set_forward k g (route_ports_update (delete_where (\<lambda>p. p_ForwardId p = k)) d)"
  note wf = panel_invD(3) [OF inv]
  have g': "f_ID (g f) = f_ID f" "f_TunnelId (g f) = 0" "f_RouteId (g f) = rid" for f
    using g by simp_all
  from insert_route_ports [of ?ps ?d1]
  have d': "forwards ?d' = update_where (\<lambda>f. f_ID f = k) g (forwards d)" "tunnels ?d' = tunnels d"
    "routes ?d' = routes d" "route_hops ?d' = route_hops d"
    "seq ?d' T_forward = seq d T_forward" "seq ?d' T_tunnel = seq d T_tunnel"
    "seq ?d' T_route = seq d T_route"
    "p_core ` set (route_ports ?d') =
       p_core ` {p \<in> set (route_ports d). p_ForwardId p \<noteq> k} \<union> p_core ` set ?ps"
    by simp_all
  have core: "p_core p \<in> p_core ` {p \<in> set (route_ports d). p_ForwardId p \<noteq> k} \<or>
      (p_ForwardId p = k \<and> (p_NodeId p, p_RelayPort p) \<in> (\<lambda>p. (p_NodeId p, p_RelayPort p)) ` set ports)"
    if "p \<in> set (route_ports ?d')" for p
  proof -
    from that d'(8) have "p_core p \<in> p_core ` {p \<in> set (route_ports d). p_ForwardId p \<noteq> k} \<union>
        p_core ` set ?ps" by blast
    then show ?thesis by (force simp: stamp_port_def)
  qed
  have rid: "rid < seq d T_route"
    using l panel_invD(2) [OF inv] firstRoute_Some
    by (fastforce simp: LoadRouteWithHops_def Let_def routes_wf_def split: option.splits if_splits)
  have "ports_exclusive ?d'"
  proof (rule route_forward_exclusive [OF inv l a, where k = k and out = out])
    show "f_core x = (k, 0, rid, i, out)" if "x \<in> set (forwards ?d')" "f_ID x = k" for x
      using that g unfolding d' by (auto simp: set_update_where split: if_splits)
    show "x \<in> set (forwards d)" if "x \<in> set (forwards ?d')" "f_ID x \<noteq> k" for x
      using that g' unfolding d' by (auto simp: set_update_where split: if_splits)
    show "(p_NodeId p, p_RelayPort p) \<in> (\<lambda>p. (p_NodeId p, p_RelayPort p)) ` set ports"
      if "p \<in> set (route_ports ?d')" "p_ForwardId p = k" for p
      using core [OF that(1)] that(2) by auto
    show "p_core p \<in> p_core ` set (route_ports d)"
      if "p \<in> set (route_ports ?d')" "p_ForwardId p \<noteq> k" for p
      using core [OF that(1)] that(2) by auto
  qed (use d' in auto)
  moreover have "keys_wf ?d'"
  proof -
    have k: "k < seq d T_forward" using wf f0 by (auto simp: keys_wf_def)
    have "keys_wf (set_forward k g d)"
      by (rule keys_wf_set_forward [OF wf]) (use g' wf rid in \<open>auto simp: keys_wf_def\<close>)
    moreover have "\<forall>p \<in> set (route_ports ?d'). p_ForwardId p < seq d T_forward"
      using core k wf by (fastforce simp: keys_wf_def)
    ultimately show ?thesis unfolding keys_wf_def d' by simp
  qed
  moreover have "routes_wf ?d'"
    by (rule routes_wf_frame [OF panel_invD(2) [OF inv]]) (simp_all add: d')
  ultimately show ?thesis by (simp add: panel_inv_def)
qed

end
