(* ===== verification/Panel_Steps.thy ===== *)
theory Panel_Steps
  imports Panel_Inv
begin

text \<open>
  The operations of the panel as one step relation, and the invariant \<open>panel_inv\<close> of every
  state it reaches: the facts are proved per operation with the interface \<open>panel\<close>, then
  by rule induction.
\<close>

section \<open>Operations on forwards\<close>

lemma status_view:
  "ports_view (set_forward k (\<lambda>f. f\<lparr>f_Status := s\<rparr>) d) = ports_view d"
  "ports_view (set_forward k (\<lambda>f. f\<lparr>f_Status := s, f_UpdatedTime := t\<rparr>) d) = ports_view d"
  "ports_view (set_forward k (\<lambda>f. f\<lparr>f_Inx := x\<rparr>) d) = ports_view d"
  by (simp_all add: set_forward_view)

lemma statusToError_inv: "panel_inv (wdb w) \<Longrightarrow> panel_inv (wdb (updateForwardStatusToError e k w))"
  unfolding updateForwardStatusToError_def by (erule panel.keep_exec_view) (rule status_view)

lemma set_status_inv: "panel_inv (wdb w) \<Longrightarrow> panel_inv (wdb (set_status e k s w))"
  unfolding set_status_def by (erule panel.keep_exec_view) (rule status_view)

lemma updateGostServices_inv:
  "panel_inv (wdb w) \<Longrightarrow> panel_inv (wdb (snd (updateGostServices e f t lm i out name w)))"
  by (simp add: updateGostServices_def case_prod_beta Let_def frame_simps statusToError_inv)

text \<open>A transaction whose statements all report their failure either runs to the end or
  changes nothing.\<close>

lemma transaction_all:
  assumes inv: "P (wdb w)" and all: "list_all (\<lambda>s. fst s \<noteq> None) ss"
    and run: "P (fold (\<lambda>s. snd s) ss (wdb w))"
  shows "P (wdb (snd (transaction e ss ce w)))"
proof -
  obtain r w' where t: "transaction e ss ce w = (r, w')" by (cases "transaction e ss ce w")
  show ?thesis
  proof (cases r)
    case None
    with transaction_None [OF all] t run show ?thesis by (metis snd_conv)
  next
    case (Some x)
    with transaction_Some t inv show ?thesis by (metis snd_conv)
  qed
qed

lemma fold_tx_ports:
  "fold (\<lambda>s. snd s) (map (\<lambda>p. (er, insertRoutePort p)) ps) d = fold insertRoutePort ps d"
  by (simp add: fold_map comp_def)

lemma createRouteForward_inv:
  assumes inv: "panel_inv (wdb w)"
  shows "panel_inv (wdb (snd (createRouteForward e dto userId roleId userName w)))"
proof -
  have tx: "panel_inv (wdb (snd (transaction e ((Some er, insertForward f) #
        map (\<lambda>p. (Some er, insertRoutePort p))
          (map (stamp_port (next_key T_forward (wdb w)) route (now e)) ports)) ce w)))"
    if l: "LoadRouteWithHops (wdb w) rid = Inr (route, hops)"
      and a: "allocateRouteForwardPorts (wdb w) route hops sp None = Inr (i, ports)"
      and f: "f_TunnelId f = 0" "f_RouteId f = rid" "f_InPort f = i"
    for rid route hops sp i ports er f ce
    using inv
  proof (rule transaction_all)
    show "panel_inv (fold (\<lambda>s. snd s) ((Some er, insertForward f) #
        map (\<lambda>p. (Some er, insertRoutePort p))
          (map (stamp_port (next_key T_forward (wdb w)) route (now e)) ports)) (wdb w))"
      using insert_route_forward_inv [OF inv l a f refl, of "next_key T_forward (wdb w)"]
      by (simp only: fold.simps fold_tx_ports comp_def snd_conv next_key_def)
  qed (simp add: list_all_iff)
  show ?thesis
    using inv
    by (auto simp: createRouteForward_def Let_def case_prod_beta frame_simps
        simp del: map_map list.map_comp split: sum.split option.split intro!: tx statusToError_inv)
qed

lemma updateRouteForward_inv:
  assumes inv: "panel_inv (wdb w)" and f0: "existing \<in> set (forwards (wdb w))"
  shows "panel_inv (wdb (snd (updateRouteForward e dto existing userId roleId w)))"
proof -
  have tx: "panel_inv (wdb (snd (transaction e
        ((Some er, route_ports_update (delete_where (\<lambda>p. p_ForwardId p = f_ID existing))) #
         (Some er, set_forward (f_ID existing) g) #
         map (\<lambda>p. (Some er, insertRoutePort p))
          (map (stamp_port (f_ID existing) route (now e)) ports)) ce w')))"
    if l: "LoadRouteWithHops (wdb w) rid = Inr (route, hops)"
      and a: "allocateRouteForwardPorts (wdb w) route hops sp (Some (f_ID existing)) = Inr (i, ports)"
      and w': "wdb w' = wdb w"
      and g: "\<And>f. f_core (g f) = (f_ID f, 0, rid, i, out)"
    for rid route hops sp i ports er g ce w' out
  proof (rule transaction_all)
    show "panel_inv (wdb w')" using inv w' by simp
    show "panel_inv (fold (\<lambda>s. snd s)
        ((Some er, route_ports_update (delete_where (\<lambda>p. p_ForwardId p = f_ID existing))) #
         (Some er, set_forward (f_ID existing) g) #
         map (\<lambda>p. (Some er, insertRoutePort p))
          (map (stamp_port (f_ID existing) route (now e)) ports)) (wdb w'))"
      using update_route_forward_inv [OF inv l a f0 refl g]
      by (simp only: fold.simps fold_tx_ports comp_def snd_conv w')
  qed (simp add: list_all_iff)
  define rid where "rid = (if fd_RouteId dto = 0 then f_RouteId existing else fd_RouteId dto)"
  define sp where "sp = (case fd_InPort dto of None \<Rightarrow> f_InPort existing | Some p \<Rightarrow> p)"
  note unf = updateRouteForward_def Let_def rid_def [symmetric] sp_def [symmetric]
  show ?thesis
  proof (cases "LoadRouteWithHops (wdb w) rid")
    case (Inl er)
    then show ?thesis using inv unfolding unf by simp
  next
    case (Inr rh)
    obtain route hops where l: "LoadRouteWithHops (wdb w) rid = Inr (route, hops)"
      using Inr by (cases rh) auto
    show ?thesis
    proof (cases "allocateRouteForwardPorts (wdb w) route hops (Some sp) (Some (f_ID existing))")
      case (Inl er)
      then show ?thesis using inv l unfolding unf by simp
    next
      case (Inr ip)
      obtain i ports where a: "allocateRouteForwardPorts (wdb w) route hops (Some sp)
          (Some (f_ID existing)) = Inr (i, ports)"
        using Inr by (cases ip) auto
      note t = tx [OF l a cleanup_db]
      show ?thesis
        using inv unfolding unf
        by (simp add: l a case_prod_beta frame_simps del: map_map list.map_comp split: option.split)
           (auto simp del: map_map list.map_comp simp: frame_simps intro!: statusToError_inv t)
    qed
  qed
qed

lemma deleteRouteForward_inv:
  assumes inv: "panel_inv (wdb w)"
  shows "panel_inv (wdb (snd (deleteRouteForward e f w)))"
proof -
  have tx: "panel_inv (wdb (snd (transaction e
      [(Some er, route_ports_update (delete_where (\<lambda>p. p_ForwardId p = f_ID f))),
       (Some er, forwards_update (delete_where (\<lambda>x. f_ID x = f_ID f)))] ce w')))"
    if "wdb w' = wdb w" for er ce w'
    by (rule transaction_all)
       (use inv that delete_forward_row_inv [OF delete_route_ports_inv [OF inv]] in
         \<open>simp_all add: delete_forward_row_def\<close>)
  show ?thesis
    using inv
    by (auto simp: deleteRouteForward_def Let_def case_prod_beta frame_simps
        simp del: map_map list.map_comp split: option.split intro!: tx)
qed

lemma pauseRouteForward_inv:
  "panel_inv (wdb w) \<Longrightarrow> panel_inv (wdb (snd (pauseRouteForward e f w)))"
  by (auto simp: pauseRouteForward_def Let_def case_prod_beta frame_simps split: option.split
      intro!: set_status_inv)

lemma resumeRouteForward_inv:
  "panel_inv (wdb w) \<Longrightarrow> panel_inv (wdb (snd (resumeRouteForward e f w)))"
  by (auto simp: resumeRouteForward_def Let_def case_prod_beta frame_simps
      split: option.split sum.split intro!: set_status_inv)

lemma CreateForward_inv:
  assumes inv: "panel_inv (wdb w)"
  shows "panel_inv (wdb (snd (CreateForward e dto userId roleId userName w)))"
proof -
  have new: "panel_inv (wdb (snd (db_write e (insertForward f) w)))"
    if "firstTunnel (wdb w) tid = Some tunnel"
      and a: "allocatePorts (wdb w) tunnel sp None = Inr (i, out)"
      and "f_TunnelId f = tid" "f_RouteId f = 0" "f_InPort f = i" "f_OutPort f = out"
    for tid tunnel sp i out f
    using firstTunnel_Some [OF that(1)] insert_tunnel_forward_inv [OF inv _ a, of f] inv that by simp
  have del: "panel_inv (wdb (db_exec e (delete_forward_row k) w'))" if "panel_inv (wdb w')" for k w'
    using that by (rule panel.keep_exec) (rule delete_forward_row_inv)
  show ?thesis
    using inv
    by (auto simp: CreateForward_def Let_def case_prod_beta frame_simps createRouteForward_inv
        simp del: wdb_db_write
        split: sum.split option.split intro!: new del statusToError_inv)
qed

lemma update_in_place_inv:
  assumes inv: "panel_inv (wdb w)"
  shows "panel_inv (wdb (snd (update_in_place e f u t lm i out name w)))"
  using inv
  by (auto simp: update_in_place_def Let_def case_prod_beta frame_simps split: option.split
      intro!: statusToError_inv updateGostServices_inv)

lemma updateGostServices_ok:
  "fst (updateGostServices e f t lm i out name w) = [] \<Longrightarrow>
     wdb (snd (updateGostServices e f t lm i out name w)) = wdb w"
  by (auto simp: updateGostServices_def Let_def case_prod_beta frame_simps split: if_splits)

lemma update_in_place_ok:
  "fst (update_in_place e f u t lm i out name w) = None \<Longrightarrow>
     wdb (snd (update_in_place e f u t lm i out name w)) = wdb w"
  by (auto simp: update_in_place_def Let_def case_prod_beta frame_simps updateGostServices_ok
      split: option.splits if_splits)

lemma update_services_ok:
  "fst (update_services e f u t lm i out name w) = None \<Longrightarrow>
     wdb (snd (update_services e f u t lm i out name w)) = wdb w"
  by (auto simp: update_services_def Let_def case_prod_beta frame_simps update_in_place_ok
      split: option.splits if_splits)

lemma update_services_inv:
  assumes inv: "panel_inv (wdb w)"
    and set: "\<And>g. (\<And>f. f_core (g f) = (f_ID f, f_TunnelId u, f_RouteId f, f_InPort u, f_OutPort u)) \<Longrightarrow>
       panel_inv (set_forward (f_ID u) g (wdb w))"
  shows "panel_inv (wdb (snd (update_services e f u t lm i out name w)))"
proof -
  have exec: "panel_inv (wdb (db_exec e (set_forward (f_ID u)
      (\<lambda>f. f\<lparr>f_TunnelId := f_TunnelId u, f_InPort := f_InPort u, f_OutPort := f_OutPort u,
            f_ListenIp := f_ListenIp u, f_Status := forwardStatusError\<rparr>)) w'))"
    if "wdb w' = wdb w" for w'
  proof -
    have "panel_inv (set_forward (f_ID u)
      (\<lambda>f. f\<lparr>f_TunnelId := f_TunnelId u, f_InPort := f_InPort u, f_OutPort := f_OutPort u,
            f_ListenIp := f_ListenIp u, f_Status := forwardStatusError\<rparr>) (wdb w))"
      by (rule set) simp
    with inv that db_exec_db show ?thesis by metis
  qed
  show ?thesis
    using inv
    by (auto simp: update_services_def Let_def case_prod_beta frame_simps split: option.split
        intro!: exec update_in_place_inv)
qed

text \<open>The ports the update chose are the forward's own or freshly allocated.\<close>

lemma update_ports_cases:
  assumes "update_ports d dto existForward tunnel = Inr (i, out)"
  shows "(\<exists>sp. allocatePorts d tunnel sp (Some (fd_ID dto)) = Inr (i, out)) \<or>
     (fd_TunnelId dto = f_TunnelId existForward \<and> i = f_InPort existForward \<and>
      out = f_OutPort existForward)"
  using assms by (auto simp: update_ports_def Let_def split: if_splits)

lemma UpdateForward_inv:
  assumes inv: "panel_inv (wdb w)"
  shows "panel_inv (wdb (snd (UpdateForward e dto userId roleId w)))"
proof (cases "check_account (wdb w) userId roleId = None \<and>
    validateRemoteAddr e (fd_RemoteAddr dto) roleId = None")
  case False
  then show ?thesis using inv by (auto simp: UpdateForward_def Let_def split: option.split)
next
  case True
  then have pre: "check_account (wdb w) userId roleId = None"
    "validateRemoteAddr e (fd_RemoteAddr dto) roleId = None" by simp_all
  show ?thesis
  proof (cases "validateForwardExists (wdb w) (fd_ID dto) userId roleId")
    case None
    then show ?thesis using inv pre by (simp add: UpdateForward_def Let_def)
  next
    case (Some f0)
    from validateForwardExists_Some [OF Some] have f0: "f0 \<in> set (forwards (wdb w))" "f_ID f0 = fd_ID dto"
      by simp_all
    show ?thesis
    proof (cases "f_RouteId f0 \<noteq> 0 \<or> fd_RouteId dto \<noteq> 0")
      case True
      then show ?thesis using inv pre Some updateRouteForward_inv [OF inv f0(1)]
        by (simp add: UpdateForward_def Let_def)
    next
      case False
      have set: "panel_inv (set_forward (fd_ID dto) g (wdb w))"
        if t: "firstTunnel (wdb w) (fd_TunnelId dto) = Some tunnel"
          and p: "update_ports (wdb w) dto f0 tunnel = Inr (i, out)"
          and g: "\<And>f. f_core (g f) = (f_ID f, fd_TunnelId dto, f_RouteId f, i, out)"
        for tunnel i out g
      proof -
        from firstTunnel_Some [OF t] have t': "tunnel \<in> set (tunnels (wdb w))" "t_ID tunnel = fd_TunnelId dto"
          by simp_all
        from update_ports_cases [OF p] obtain sp
          where "allocatePorts (wdb w) tunnel sp (Some (fd_ID dto)) = Inr (i, out) \<or>
            (t_ID tunnel = f_TunnelId f0 \<and> i = f_InPort f0 \<and> out = f_OutPort f0)"
          using t' by metis
        moreover have "f_RouteId f0 = 0" using False by simp
        ultimately show ?thesis
          using set_tunnel_forward_inv [OF inv f0 _ t'(1), of sp i out g] g t' by metis
      qed
      have saved: "panel_inv (wdb (snd (db_write e (set_forward (fd_ID dto) g)
          (snd (update_services e f u t lm a b name w)))))"
        if "fst (update_services e f u t lm a b name w) = None"
          and "panel_inv (set_forward (fd_ID dto) g (wdb w))" for g f u t lm a b name
        using update_services_ok [OF that(1)] that(2) inv by simp
      show ?thesis
        using inv pre Some False f0
        by (auto simp: UpdateForward_def Let_def case_prod_beta simp del: wdb_db_write
            split: option.split sum.split intro!: saved set update_services_inv)
    qed
  qed
qed

lemma delete_exec_inv: "panel_inv (wdb w) \<Longrightarrow> panel_inv (wdb (db_exec e (delete_forward_row k) w))"
  by (erule panel.keep_exec) (rule delete_forward_row_inv)

lemma delete_write_inv:
  "panel_inv (wdb w) \<Longrightarrow> panel_inv (wdb (snd (db_write e (delete_forward_row k) w)))"
  by (erule panel.keep_write) (rule delete_forward_row_inv)

lemma delete_ports_exec_inv:
  "panel_inv (wdb w) \<Longrightarrow> panel_inv (wdb (db_exec e (route_ports_update (delete_where q)) w))"
  by (erule panel.keep_exec) (rule delete_route_ports_inv)

lemma DeleteForward_inv:
  "panel_inv (wdb w) \<Longrightarrow> panel_inv (wdb (snd (DeleteForward e k userId roleId w)))"
  by (auto simp: DeleteForward_def Let_def case_prod_beta frame_simps deleteRouteForward_inv
      simp del: wdb_db_write split: option.split sum.split intro!: delete_write_inv)

lemma ForceDeleteForward_inv:
  "panel_inv (wdb w) \<Longrightarrow> panel_inv (wdb (snd (ForceDeleteForward e k w)))"
  by (auto simp: ForceDeleteForward_def Let_def case_prod_beta frame_simps
      simp del: wdb_db_write split: option.split intro!: delete_write_inv delete_ports_exec_inv)

lemma pause_main_db [frame_simps]:
  "wdb (snd (pause_main e n name ip w)) = wdb w" "wdb (snd (resume_main e n name ip w)) = wdb w"
  by (simp_all add: pause_main_def resume_main_def frame_simps)

lemma PauseForward_inv:
  "panel_inv (wdb w) \<Longrightarrow> panel_inv (wdb (snd (PauseForward e k userId roleId w)))"
  by (auto simp: PauseForward_def Let_def case_prod_beta frame_simps pauseRouteForward_inv
      split: option.split sum.split intro!: set_status_inv)

lemma ResumeForward_inv:
  "panel_inv (wdb w) \<Longrightarrow> panel_inv (wdb (snd (ResumeForward e k userId roleId w)))"
  by (auto simp: ResumeForward_def Let_def case_prod_beta frame_simps resumeRouteForward_inv
      split: option.split sum.split intro!: set_status_inv)

lemma UpdateForwardOrder_inv:
  assumes "panel_inv (wdb w)"
  shows "panel_inv (wdb (snd (UpdateForwardOrder e items userId roleId w)))"
proof -
  have "panel_inv (wdb (fold (\<lambda>(k, inx). db_exec e (set_forward k (\<lambda>f. f\<lparr>f_Inx := inx\<rparr>))) items w))"
    using assms by (rule panel.keep_fold) (auto intro!: panel.keep_exec_view simp: status_view)
  with assms show ?thesis by (simp add: UpdateForwardOrder_def)
qed

lemma UpdateForwardA_inv: "panel_inv (wdb w) \<Longrightarrow> panel_inv (wdb (UpdateForwardA e f w))"
  by (auto simp: UpdateForwardA_def Let_def split: option.split sum.split
      intro!: updateGostServices_inv)

section \<open>Operations on routes\<close>

text \<open>What every statement of the route transactions keeps, hop rows of the unused route
  \<open>k\<close> included.\<close>

definition hops_step :: "db \<Rightarrow> int \<Rightarrow> db \<Rightarrow> bool" where
  "hops_step d0 k d \<longleftrightarrow> ports_exclusive d \<and> keys_wf d \<and> forwards d = forwards d0 \<and>
     seq d T_route \<ge> seq d0 T_route"

lemma hops_step_insert:
  assumes "hops_step d0 k d" and "h_RouteId h = k" and "0 < k"
    and "\<forall>f \<in> set (forwards d0). f_RouteId f \<noteq> k"
  shows "hops_step d0 k (insertRouteHop h d)"
proof -
  let ?d = "insertRouteHop h d"
  have d: "forwards ?d = forwards d" "route_ports ?d = route_ports d" "tunnels ?d = tunnels d"
    "routes ?d = routes d" "set (route_hops ?d) = insert (h\<lparr>h_ID := next_key T_route_hop d\<rparr>) (set (route_hops d))"
    "seq ?d T_forward = seq d T_forward" "seq ?d T_tunnel = seq d T_tunnel"
    "seq ?d T_route = seq d T_route"
    by (simp_all add: insertRouteHop_def bump_key_def)
  have "occupies ?d n p j \<Longrightarrow> occupies d n p j" for n p j
    using assms unfolding occupies_def occupies_entry_def occupies_exit_def d hops_step_def by auto
  with assms(1) have "ports_exclusive ?d" unfolding hops_step_def by (meson ports_exclusive_mono)
  moreover have "keys_wf ?d" using assms unfolding hops_step_def keys_wf_def d by auto
  ultimately show ?thesis using assms(1) by (simp add: hops_step_def d)
qed

lemma hops_step_delete: "hops_step d0 k d \<Longrightarrow> hops_step d0 k (route_hops_update (delete_where q) d)"
proof -
  assume h: "hops_step d0 k d"
  let ?d = "route_hops_update (delete_where q) d"
  have "occupies ?d n p j \<Longrightarrow> occupies d n p j" for n p j
    by (auto simp: occupies_def occupies_entry_def occupies_exit_def)
  with h have "ports_exclusive ?d" unfolding hops_step_def by (meson ports_exclusive_mono)
  with h show ?thesis by (auto simp: hops_step_def keys_wf_def)
qed

lemma hops_step_set_route:
  assumes h: "hops_step d0 k d" and g: "\<And>r. r_ID (g r) = r_ID r"
  shows "hops_step d0 k (set_route j g d)"
proof -
  have "occupies (set_route j g d) n p i = occupies d n p i" for n p i
    by (rule occupies_frame) (simp_all add: set_route_def)
  moreover have "map r_ID (routes (set_route j g d)) = map r_ID (routes d)" using g by simp
  from ball_core [OF this, of "\<lambda>i. 0 < i"]
  have "(\<forall>r \<in> set (routes (set_route j g d)). 0 < r_ID r) \<longleftrightarrow> (\<forall>r \<in> set (routes d). 0 < r_ID r)" .
  ultimately show ?thesis
    using h by (auto simp: hops_step_def keys_wf_def ports_exclusive_def set_route_def)
qed

lemma hops_step_insertRoute:
  assumes h: "hops_step d0 k d"
  shows "hops_step d0 k (insertRoute r d)"
proof -
  have "occupies (insertRoute r d) n p i = occupies d n p i" for n p i
    by (rule occupies_frame) (simp_all add: insertRoute_def bump_key_def)
  then show ?thesis
    using h by (auto simp: hops_step_def keys_wf_def ports_exclusive_def insertRoute_def
        bump_key_def next_key_def intro: less_imp_le)
qed

lemma hops_step_deleteRoute:
  assumes h: "hops_step d0 k d"
  shows "hops_step d0 k (routes_update (delete_where q) d)"
proof -
  have "occupies (routes_update (delete_where q) d) n p i = occupies d n p i" for n p i
    by (rule occupies_frame) simp_all
  then show ?thesis
    using h by (auto simp: hops_step_def keys_wf_def ports_exclusive_def)
qed

lemma hops_step_start:
  "panel_inv d \<Longrightarrow> hops_step d k d"
  by (simp add: hops_step_def panel_inv_def)

lemma hops_step_inv: "hops_step d0 k d \<Longrightarrow> routes_wf d \<Longrightarrow> panel_inv d"
  by (simp add: hops_step_def panel_inv_def)

lemma CreateRoute_inv:
  assumes inv: "panel_inv (wdb w)"
  shows "panel_inv (wdb (snd (CreateRoute e dto w)))"
proof -
  let ?k = "seq (wdb w) T_route"
  have k: "0 < ?k" "\<forall>f \<in> set (forwards (wdb w)). f_RouteId f \<noteq> ?k"
    using panel_invD(3) [OF inv] by (auto simp: keys_wf_def)
  have tx: "hops_step (wdb w) ?k (wdb (snd (transaction e ((er, insertRoute r) #
      map (\<lambda>hop. (er, insertRouteHop hop)) (hop_rows ?k t ns)) ce w)))" for er r t ns ce
    by (rule transaction_inv)
       (auto simp: hops_step_start inv
         intro: hops_step_insertRoute hops_step_insert [OF _ hop_rows_RouteId k])
  have "hops_step (wdb w) ?k (wdb (snd (CreateRoute e dto w)))"
    by (auto simp: CreateRoute_def Let_def case_prod_beta next_key_def hops_step_start inv
        split: sum.split option.split intro!: tx)
  then show ?thesis by (rule hops_step_inv) (rule CreateRoute_wf [OF panel_invD(2) [OF inv]])
qed

lemma UpdateRoute_inv:
  assumes inv: "panel_inv (wdb w)"
  shows "panel_inv (wdb (snd (UpdateRoute e dto w)))"
proof -
  let ?k = "rd_ID dto" and ?P = "\<lambda>d. hops_step (wdb w) (rd_ID dto) d"
  have row: "?P (snd s d)" if "s \<in> set (update_route_row e dto)" "?P d" for s d
    using that by (auto simp: update_route_row_def Let_def case_prod_beta
        intro!: hops_step_set_route split: option.splits)
  have tx: "?P (wdb (snd (transaction e (update_route_row e dto @
      (er, route_hops_update (delete_where q)) #
      map (\<lambda>hop. (er, insertRouteHop hop)) (hop_rows ?k t ns)) ce w)))"
    if k: "0 < ?k" "\<forall>f \<in> set (forwards (wdb w)). f_RouteId f \<noteq> ?k" for er q t ns ce
  proof (rule transaction_inv)
    show "?P (snd s d)" if s: "s \<in> set (update_route_row e dto @
      (er, route_hops_update (delete_where q)) #
      map (\<lambda>hop. (er, insertRouteHop hop)) (hop_rows ?k t ns))" and d: "?P d" for s d
    proof -
      from s consider "s \<in> set (update_route_row e dto)"
        | "s = (er, route_hops_update (delete_where q))"
        | h where "h \<in> set (hop_rows ?k t ns)" "s = (er, insertRouteHop h)"
        by auto
      then show ?thesis
      proof cases
        case 3
        with hops_step_insert [OF d hop_rows_RouteId k] show ?thesis by simp
      qed (use row hops_step_delete d in auto)
    qed
  qed (simp add: hops_step_start inv)
  have pos: "0 < ?k" if "firstRoute (wdb w) ?k = Some r" for r
    using firstRoute_Some [OF that] panel_invD(3) [OF inv] by (auto simp: keys_wf_def)
  have "?P (wdb (snd (UpdateRoute e dto w)))"
    using pos
    by (auto simp: UpdateRoute_def Let_def case_prod_beta hops_step_start inv count_where_pos
        split: sum.split option.split intro!: tx hops_step_set_route)
  then show ?thesis by (rule hops_step_inv) (rule UpdateRoute_wf [OF panel_invD(2) [OF inv]])
qed

lemma DeleteRoute_inv:
  assumes inv: "panel_inv (wdb w)"
  shows "panel_inv (wdb (snd (DeleteRoute e k w)))"
proof -
  have "hops_step (wdb w) k (wdb (snd (transaction e
      [(er, route_hops_update (delete_where p)), (er, routes_update (delete_where q))] ce w)))"
    for er p q ce
    by (rule transaction_inv)
       (auto simp: hops_step_start inv intro: hops_step_delete hops_step_deleteRoute)
  then have "hops_step (wdb w) k (wdb (snd (DeleteRoute e k w)))"
    by (auto simp: DeleteRoute_def Let_def case_prod_beta hops_step_start inv split: option.split)
  then show ?thesis by (rule hops_step_inv) (rule DeleteRoute_wf [OF panel_invD(2) [OF inv]])
qed

section \<open>Operations on tunnels, permissions and nodes\<close>

lemma set_tunnel_view: "(\<And>t. t_core (g t) = t_core t) \<Longrightarrow> ports_view (set_tunnel k g d) = ports_view d"
  by (simp add: ports_view_def set_tunnel_def update_where_def)

lemma insertTunnel_inv:
  assumes inv: "panel_inv d"
  shows "panel_inv (insertTunnel t d)"
proof -
  let ?d = "insertTunnel t d"
  note wf = panel_invD(3) [OF inv]
  have d: "forwards ?d = forwards d" "route_ports ?d = route_ports d" "routes ?d = routes d"
    "route_hops ?d = route_hops d" "tunnels ?d = tunnels d @ [t\<lparr>t_ID := seq d T_tunnel\<rparr>]"
    "seq ?d = (seq d)(T_tunnel := seq d T_tunnel + 1)"
    by (simp_all add: insertTunnel_def bump_key_def next_key_def insert_row_def)
  have old: "\<forall>f \<in> set (forwards d). f_TunnelId f \<noteq> seq d T_tunnel"
    "\<forall>x \<in> set (tunnels d). t_ID x \<noteq> seq d T_tunnel"
    using wf by (auto simp: keys_wf_def)
  have "occupies ?d n p j \<Longrightarrow> occupies d n p j" for n p j
    using old unfolding occupies_def occupies_entry_def occupies_exit_def d by auto
  with inv have "ports_exclusive ?d" by (meson panel_invD ports_exclusive_mono)
  moreover have "keys_wf ?d" using wf old unfolding keys_wf_def d by (auto intro: less_imp_le)
  moreover have "routes_wf ?d"
    by (rule routes_wf_frame [OF panel_invD(2) [OF inv]]) (simp_all add: d)
  ultimately show ?thesis by (simp add: panel_inv_def)
qed

lemma deleteTunnel_inv:
  assumes inv: "panel_inv d"
  shows "panel_inv (tunnels_update (delete_where q) d)" (is "panel_inv ?d")
proof -
  have "occupies ?d n p j \<Longrightarrow> occupies d n p j" for n p j
    by (auto simp: occupies_def occupies_entry_def occupies_exit_def)
  with inv have "ports_exclusive ?d" by (meson panel_invD ports_exclusive_mono)
  moreover have "keys_wf ?d"
    using panel_invD(3) [OF inv] by (auto simp: keys_wf_def delete_where_def distinct_map_filter)
  moreover have "routes_wf ?d" by (rule routes_wf_frame [OF panel_invD(2) [OF inv]]) simp_all
  ultimately show ?thesis by (simp add: panel_inv_def)
qed

text \<open>Tables the invariant does not read.\<close>

lemma other_view [simp]:
  "ports_view (user_tunnels_update f d) = ports_view d" "ports_view (users_update f1 d) = ports_view d"
  "ports_view (nodes_update f2 d) = ports_view d" "ports_view (user_nodes_update f3 d) = ports_view d"
  "ports_view (speed_limits_update f4 d) = ports_view d"
  "ports_view (xray_inbounds_update f5 d) = ports_view d"
  "ports_view (xray_clients_update f6 d) = ports_view d"
  "ports_view (set_node k g d) = ports_view d"
  "ports_view (insertUserTunnel ut d) = ports_view d" "ports_view (insertNode n d) = ports_view d"
  "ports_view (insertSpeedLimit sl d) = ports_view d"
  by (simp_all add: ports_view_def set_node_def insertUserTunnel_def insertNode_def
      insertSpeedLimit_def bump_key_def)

lemma on_entry_node_db [frame_simps]:
  "(\<And>n w. wdb (snd (call n w)) = wdb w) \<Longrightarrow> wdb (on_entry_node d k call w) = wdb w"
  by (simp add: on_entry_node_def split: option.split)

lemma limiter_db [frame_simps]:
  "wdb (snd (AddLimiters e n k s w)) = wdb w" "wdb (snd (UpdateLimiters e n k s w)) = wdb w"
  "wdb (snd (DeleteLimiters e n k w)) = wdb w" "wdb (snd (XrayRemoveInbound e n tag w)) = wdb w"
  "wdb (snd (XrayRemoveClient e n tag em w)) = wdb w" "wdb (snd (GetServiceNames e n w)) = wdb w"
  by (simp_all add: msg_defs frame_simps)

lemma add_speed_limiter_db [frame_simps]: "wdb (add_speed_limiter e s n w) = wdb w"
  by (simp add: add_speed_limiter_def frame_simps split: option.split)

lemma tunnel_ops_inv:
  assumes inv: "panel_inv (wdb w)"
  shows "panel_inv (wdb (snd (CreateTunnel e td w)))"
    and "panel_inv (wdb (snd (UpdateTunnel e tu w)))"
    and "panel_inv (wdb (snd (UpdateTunnelOrder e items w)))"
    and "panel_inv (wdb (snd (DeleteTunnel e k w)))"
proof -
  show "panel_inv (wdb (snd (CreateTunnel e td w)))"
    using inv by (auto simp: CreateTunnel_def Let_def case_prod_beta simp del: wdb_db_write
        split: option.split sum.split intro!: panel.keep_write insertTunnel_inv)
  show "panel_inv (wdb (snd (UpdateTunnel e tu w)))"
    using inv by (auto simp: UpdateTunnel_def Let_def case_prod_beta simp del: wdb_db_write
        split: option.split intro!: panel.keep_write_view set_tunnel_view)
  have "panel_inv (wdb (fold (\<lambda>(k, inx). db_exec e (set_tunnel k (\<lambda>t. t\<lparr>t_Inx := inx\<rparr>))) items w))"
    using inv by (rule panel.keep_fold) (auto intro!: panel.keep_exec_view set_tunnel_view)
  then show "panel_inv (wdb (snd (UpdateTunnelOrder e items w)))"
    by (simp add: UpdateTunnelOrder_def)
  have "panel_inv (wdb (db_exec e (tunnels_update (delete_where p))
      (db_exec e (user_tunnels_update (delete_where q)) w)))" for p q
    by (rule panel.keep_exec [OF panel.keep_exec_view [OF inv]]) (simp_all add: deleteTunnel_inv)
  then show "panel_inv (wdb (snd (DeleteTunnel e k w)))"
    using inv by (auto simp: DeleteTunnel_def Let_def split: option.split)
qed

lemma speed_ops_inv:
  assumes inv: "panel_inv (wdb w)"
  shows "panel_inv (wdb (snd (CreateSpeedLimit e sd w)))"
    and "panel_inv (wdb (snd (UpdateSpeedLimit e su w)))"
    and "panel_inv (wdb (snd (DeleteSpeedLimit e k w)))"
  using inv
  by (auto simp: CreateSpeedLimit_def UpdateSpeedLimit_def DeleteSpeedLimit_def Let_def
      case_prod_beta frame_simps simp del: wdb_db_write split: option.split
      intro!: panel.keep_write_view panel.keep_exec_view)

lemma remove_forward_inv:
  "panel_inv (wdb w) \<Longrightarrow> panel_inv (wdb (remove_forward e t ut f w))"
  by (auto simp: remove_forward_def Let_def frame_simps split: option.split intro!: delete_exec_inv)

lemma pauseForwardForDisable_inv:
  "panel_inv (wdb w) \<Longrightarrow> panel_inv (wdb (pauseForwardForDisable e f t ut w))"
  by (auto simp: pauseForwardForDisable_def Let_def frame_simps split: option.split
      intro!: panel.keep_exec_view status_view)

lemma updateForwardWithNewSpeed_db [frame_simps]: "wdb (updateForwardWithNewSpeed e f t ut w) = wdb w"
  by (simp add: updateForwardWithNewSpeed_def Let_def frame_simps split: option.split)

lemma change_speed_inv: "panel_inv (wdb w) \<Longrightarrow> panel_inv (wdb (change_speed e ut s w))"
  by (auto simp: change_speed_def Let_def frame_simps split: option.split intro!: panel.keep_fold)

lemma permission_ops_inv:
  assumes inv: "panel_inv (wdb w)"
  shows "panel_inv (wdb (snd (AssignUserTunnel e utd w)))"
    and "panel_inv (wdb (snd (RemoveUserTunnel e k w)))"
    and "panel_inv (wdb (snd (UpdateUserTunnel e utu w)))"
proof -
  show "panel_inv (wdb (snd (AssignUserTunnel e utd w)))"
    using inv by (auto simp: AssignUserTunnel_def Let_def case_prod_beta frame_simps
        simp del: wdb_db_write split: option.split intro!: panel.keep_write_view)
  have "panel_inv (wdb (fold (remove_forward e t ut) fs w))" for t ut fs
    using inv by (rule panel.keep_fold) (rule remove_forward_inv)
  then show "panel_inv (wdb (snd (RemoveUserTunnel e k w)))"
    using inv by (auto simp: RemoveUserTunnel_def Let_def split: option.split
        intro!: panel.keep_exec_view)
  have pause: "panel_inv (wdb (fold (\<lambda>f. pauseForwardForDisable e f t ut) fs w'))"
    if "panel_inv (wdb w')" for t ut fs w'
    using that by (rule panel.keep_fold) (rule pauseForwardForDisable_inv)
  show "panel_inv (wdb (snd (UpdateUserTunnel e utu w)))"
    using inv by (auto simp: UpdateUserTunnel_def Let_def split: option.split
        intro!: panel.keep_exec_view pause change_speed_inv)
qed

lemma node_ops_inv:
  assumes inv: "panel_inv (wdb w)"
  shows "panel_inv (wdb (snd (CreateNode e secret nd w)))"
    and "panel_inv (wdb (snd (UpdateNode e nu w)))"
    and "panel_inv (wdb (snd (DeleteNode e k w)))"
    and "panel_inv (wdb (snd (UpdateNodeOrder e items w)))"
proof -
  show "panel_inv (wdb (snd (CreateNode e secret nd w)))"
    using inv by (auto simp: CreateNode_def Let_def case_prod_beta simp del: wdb_db_write
        intro!: panel.keep_write_view)
  have ips: "ports_view (tunnels_update (update_where q (\<lambda>t. t\<lparr>t_OutIp := ip\<rparr>)) d) = ports_view d"
    "ports_view (tunnels_update (update_where q (\<lambda>t. t\<lparr>t_InIp := ip\<rparr>)) d) = ports_view d" for q ip d
    by (simp_all add: ports_view_def update_where_def)
  show "panel_inv (wdb (snd (UpdateNode e nu w)))"
    using inv by (auto simp: UpdateNode_def Let_def case_prod_beta simp del: wdb_db_write
        split: option.split intro!: panel.keep_write_view panel.keep_exec_view simp: ips)
  have clients: "panel_inv (wdb (fold (\<lambda>ib w. db_exec e (xray_clients_update (q ib))
      (snd (XrayRemoveInbound e k (xi_Tag ib) w))) ibs w))" for q ibs
    using inv by (rule panel.keep_fold) (auto intro!: panel.keep_exec_view simp: frame_simps)
  show "panel_inv (wdb (snd (DeleteNode e k w)))"
    using inv by (auto simp: DeleteNode_def Let_def split: option.split
        intro!: panel.keep_exec_view clients)
  have "panel_inv (wdb (fold (\<lambda>(k, inx). db_exec e (set_node k (\<lambda>n. n\<lparr>n_Inx := inx\<rparr>))) items w))"
    using inv by (rule panel.keep_fold) (auto intro!: panel.keep_exec_view)
  then show "panel_inv (wdb (snd (UpdateNodeOrder e items w)))"
    by (simp add: UpdateNodeOrder_def)
qed

end
