(* ===== verification/Sample.thy ===== *)
theory Sample
  imports Panel_Steps
begin

text \<open>
  A small concrete panel for the witnesses: an administrator (1) and a user (2), two nodes with
  the ports 1000 to 1003, a direct tunnel (1) on node 1 and a two-node tunnel (2) from node 1 to
  node 2, the user's permission on both, and a route (1) from node 1 to node 2. The environment
  answers every command \<open>OK\<close>.
\<close>

definition sample_node :: "int \<Rightarrow> string \<Rightarrow> Node" where
  "sample_node k ip = \<lparr>n_ID = k, n_Name = ''n'', n_Secret = [], n_Ip = ip, n_EntryIps = [],
     n_ServerIp = ip, n_PortSta = 1000, n_PortEnd = 1003, n_GroupName = [], n_CreatedTime = 0,
     n_UpdatedTime = 0, n_Status = 1, n_Inx = 0, n_Version = [], n_XrayStatus = 0\<rparr>"

definition sample_tunnel :: "int \<Rightarrow> int \<Rightarrow> int \<Rightarrow> Tunnel" where
  "sample_tunnel k type out = \<lparr>t_ID = k, t_Name = ''t'', t_TrafficRatio = 1, t_InNodeId = 1,
     t_InIp = ''10.0.0.1'', t_OutNodeId = out, t_OutIp = ''10.0.0.2'', t_Type = type,
     t_Protocol = ''tls'', t_Flow = 2, t_TcpListenAddr = ''::'', t_UdpListenAddr = ''::'',
     t_InterfaceName = [], t_CreatedTime = 0, t_UpdatedTime = 0, t_Status = 1, t_Inx = 0\<rparr>"

definition sample_user :: "int \<Rightarrow> int \<Rightarrow> User" where
  "sample_user k role = \<lparr>u_ID = k, u_User = ''u'', u_RoleId = role, u_ExpTime = 0, u_Flow = 5,
     u_InFlow = 0, u_OutFlow = 0, u_XrayFlow = 0, u_XrayInFlow = 0, u_XrayOutFlow = 0,
     u_FlowResetType = 0, u_FlowResetDay = 0, u_Num = 2, u_GostEnabled = 1, u_XrayEnabled = 1,
     u_Status = 1, u_Pwd = [], u_CreatedTime = 0, u_UpdatedTime = 0\<rparr>"

definition sample_permission :: "int \<Rightarrow> UserTunnel" where
  "sample_permission k = \<lparr>ut_ID = k, ut_UserId = 2, ut_TunnelId = k, ut_SpeedId = None, ut_Num = 2,
     ut_Flow = 5, ut_InFlow = 0, ut_OutFlow = 0, ut_FlowResetType = 0, ut_FlowResetDay = 0,
     ut_ExpTime = 0, ut_Status = 1\<rparr>"

definition sample_hop :: "int \<Rightarrow> RouteHop" where
  "sample_hop i = \<lparr>h_ID = i + 1, h_RouteId = 1, h_HopOrder = i, h_NodeId = i + 1,
     h_NodeIp = ''10.0.0.9'', h_CreatedTime = 0, h_UpdatedTime = 0\<rparr>"

definition sample_route :: Route where
  "sample_route = \<lparr>r_ID = 1, r_Name = ''r'', r_Protocol = ''tls'', r_TcpListenAddr = ''::'',
     r_UdpListenAddr = ''::'', r_InterfaceName = [], r_CreatedTime = 0, r_UpdatedTime = 0,
     r_Status = 1, r_Inx = 1\<rparr>"

definition sample_db :: db where
  "sample_db = \<lparr>forwards = [], route_ports = [],
     nodes = [sample_node 1 ''10.0.0.1'', sample_node 2 ''10.0.0.2''],
     tunnels = [sample_tunnel 1 1 1, sample_tunnel 2 2 2],
     users = [sample_user 1 0, sample_user 2 1],
     user_tunnels = [sample_permission 1, sample_permission 2], user_nodes = [],
     speed_limits = [], routes = [sample_route], route_hops = [sample_hop 0, sample_hop 1],
     xray_inbounds = [], xray_clients = [], statistics_flows = [], forward_flows = [],
     xray_flows = [], user_flows = [], monitor_latencies = [], vite_configs = [], seq = (\<lambda>_. 10)\<rparr>"

definition ok_transport :: "int \<Rightarrow> msg \<Rightarrow> unit \<Rightarrow> GostResponse option \<times> unit" where
  "ok_transport n m s = (Some \<lparr>g_Msg = ''OK'', g_Data = None\<rparr>, s)"

definition sample_env :: "unit env" where
  "sample_env = \<lparr>now = 1000, nodeSessions = (\<lambda>_. True), transport = ok_transport,
     ShouldSniffNode = (\<lambda>_. False), db_ok = (\<lambda>_. True), text_eq = (=),
     LookupIP = (\<lambda>_. None),
     bcryptHash = Some, bcryptMatches = (=), md5_hex = (\<lambda>s. s), captchaVerify = (\<lambda>_ _. True)\<rparr>"

definition sample_world :: "unit world" where
  "sample_world = \<lparr>wdb = sample_db, wops = 0, wnet = (), wsent = []\<rparr>"

definition sample_dto :: "int \<Rightarrow> int \<Rightarrow> int option \<Rightarrow> ForwardDto" where
  "sample_dto tunnelId routeId inPort = \<lparr>fd_Name = ''f'', fd_TunnelId = tunnelId,
     fd_RouteId = routeId, fd_RemoteAddr = ''8.8.8.8:53'', fd_Strategy = ''fifo'',
     fd_InPort = inPort, fd_ListenIp = [], fd_InterfaceName = []\<rparr>"

text \<open>The panel with one running forward (10) of the user on the two-node tunnel.\<close>

definition sample_forward :: Forward where
  "sample_forward = \<lparr>f_ID = 10, f_UserId = 2, f_UserName = ''u'', f_Name = ''f'', f_TunnelId = 2,
     f_RouteId = 0, f_InPort = 1000, f_OutPort = 1000, f_RemoteAddr = ''8.8.8.8:53'',
     f_Strategy = ''fifo'', f_ListenIp = [], f_InterfaceName = [], f_InFlow = 0, f_OutFlow = 0,
     f_CreatedTime = 0, f_UpdatedTime = 0, f_Status = 1, f_Inx = 1\<rparr>"

definition busy_world :: "unit world" where
  "busy_world = sample_world\<lparr>wdb := sample_db\<lparr>forwards := [sample_forward], seq := (\<lambda>_. 11)\<rparr>\<rparr>"

end
