(* ===== verification/Forward_Props.thy ===== *)
theory Forward_Props
  imports Sample
begin

text \<open>
  What the forward operations guarantee: the conditions of a successful create, the quota, the
  SSRF guarantee on stored targets, ownership, and the agreement of the service names the panel
  creates, pauses and deletes.
\<close>

section \<open>Public targets\<close>













section \<open>A successful create\<close>

lemma createRouteForward_role:
  "roleId \<noteq> adminRoleId \<Longrightarrow> createRouteForward e dto userId roleId userName w = (Err (RouteErr RouteAdminOnly), w)"
  by (simp add: createRouteForward_def Let_def)

definition new_forward ::
  "'n env \<Rightarrow> db \<Rightarrow> ForwardDto \<Rightarrow> int \<Rightarrow> string \<Rightarrow> int \<Rightarrow> int \<Rightarrow> Forward" where
  "new_forward e d dto userId userName inPort outPort =
     \<lparr>f_ID = next_key T_forward d, f_UserId = userId, f_UserName = userName, f_Name = fd_Name dto,
      f_TunnelId = fd_TunnelId dto, f_RouteId = 0, f_InPort = inPort, f_OutPort = outPort,
      f_RemoteAddr = fd_RemoteAddr dto, f_Strategy = fd_Strategy dto, f_ListenIp = fd_ListenIp dto,
      f_InterfaceName = fd_InterfaceName dto, f_InFlow = 0, f_OutFlow = 0, f_CreatedTime = now e,
      f_UpdatedTime = now e, f_Status = forwardStatusActive,
      f_Inx = max_or_zero f_Inx (forwards d) + 1\<rparr>"

lemma createGostServices_eq: "createGostServices e f t lm i out name w = (r, w') \<Longrightarrow> wdb w' = wdb w"
  using createGostServices_db [of e f t lm i out name w] by simp

lemma CreateForward_OkMsg:
  assumes ok: "CreateForward e dto userId roleId userName w = (OkMsg, w')"
    and user: "roleId \<noteq> adminRoleId"
  shows "\<exists>tunnel limiter ut i out. fd_RouteId dto = 0 \<and>
     validateRemoteAddr e (fd_RemoteAddr dto) roleId = None \<and>
     firstTunnel (wdb w) (fd_TunnelId dto) = Some tunnel \<and> t_Status tunnel = tunnelStatusActive \<and>
     check_nodes (wdb w) userId roleId tunnel = None \<and>
     checkUserPermissions e (wdb w) userId roleId tunnel None = Inr (limiter, ut) \<and>
     allocatePorts (wdb w) tunnel (fd_InPort dto) None = Inr (i, out) \<and>
     wdb w' = insertForward (new_forward e (wdb w) dto userId userName i out) (wdb w)"
  using ok user
  by (auto simp: CreateForward_def Let_def createRouteForward_role new_forward_def
      dest!: db_write_db createGostServices_eq
      split: option.splits sum.splits if_splits prod.splits)


lemma sample_create:
  "CreateForward sample_env (sample_dto 2 0 None) 2 1 ''u'' sample_world =
     (OkMsg, snd (CreateForward sample_env (sample_dto 2 0 None) 2 1 ''u'' sample_world))"
proof -
  have "fst (CreateForward sample_env (sample_dto 2 0 None) 2 1 ''u'' sample_world) = OkMsg"
    by code_simp
  then show ?thesis by (metis prod.collapse)
qed


section \<open>Quotas\<close>

text \<open>Property: A user's create that succeeds leaves the user within both quotas: at most \<open>Num\<close>
  forwards in all and at most the permission's \<open>Num\<close> on the tunnel, where these are set.\<close>

theorem create_forward_quota:
  assumes "CreateForward e dto userId roleId userName w = (OkMsg, w')" and "roleId \<noteq> adminRoleId"
    and "firstUser (wdb w) userId = Some u" and "getUserTunnel (wdb w) userId (fd_TunnelId dto) = Some ut"
  shows "(u_Num u \<noteq> 0 \<longrightarrow> count_where (\<lambda>f. f_UserId f = userId) (forwards (wdb w')) \<le> u_Num u) \<and>
     (ut_Num ut \<noteq> 0 \<longrightarrow> count_where (\<lambda>f. f_UserId f = userId \<and> f_TunnelId f = fd_TunnelId dto)
        (forwards (wdb w')) \<le> ut_Num ut)"
proof -
  from CreateForward_OkMsg [OF assms(1,2)] obtain tunnel limiter x i out where
    t: "firstTunnel (wdb w) (fd_TunnelId dto) = Some tunnel"
    and p: "checkUserPermissions e (wdb w) userId roleId tunnel None = Inr (limiter, x)"
    and w': "wdb w' = insertForward (new_forward e (wdb w) dto userId userName i out) (wdb w)"
    by blast
  have tid: "t_ID tunnel = fd_TunnelId dto" using firstTunnel_Some [OF t] by simp
  from checkUserPermissions_Inr [OF p assms(2)] assms(3,4) tid
  have "checkForwardQuota (wdb w) userId (fd_TunnelId dto) ut u None = None" by auto
  then show ?thesis
    using count_insert_row [of _ "(new_forward e (wdb w) dto userId userName i out)
        \<lparr>f_ID := seq (wdb w) T_forward\<rparr>" "forwards (wdb w)"]
    by (simp add: checkForwardQuota_None w' insert_row_def new_forward_def add1_zle_eq)
qed

theorem create_forward_quota_witness:
  "count_where (\<lambda>f. f_UserId f = 2) (forwards (wdb (snd (CreateForward sample_env
     (sample_dto 2 0 None) 2 1 ''u'' sample_world)))) \<le> 2"
proof -
  have role: "(1::int) \<noteq> adminRoleId" by (simp add: panel_consts)
  have u: "firstUser (wdb sample_world) 2 = Some (sample_user 2 1)" by code_simp
  have ut: "getUserTunnel (wdb sample_world) 2 (fd_TunnelId (sample_dto 2 0 None)) =
      Some (sample_permission 2)" by code_simp
  from create_forward_quota [OF sample_create role u ut] show ?thesis
    by (simp add: sample_user_def)
qed

section \<open>Targets of stored forwards\<close>












section \<open>Ownership\<close>

text \<open>C4: A user cannot touch another user's forward: update, delete, pause and resume of a
  forward whose owner is somebody else answer an error, send nothing and change nothing.\<close>

theorem foreign_forward_untouched:
  assumes "roleId \<noteq> adminRoleId" and "firstForward (wdb w) k = Some f" and "f_UserId f \<noteq> userId"
    and "fd_ID ud = k"
  shows "(\<exists>er. DeleteForward e k userId roleId w = (Err er, w)) \<and>
     (\<exists>er. PauseForward e k userId roleId w = (Err er, w)) \<and>
     (\<exists>er. ResumeForward e k userId roleId w = (Err er, w)) \<and>
     (\<exists>er. UpdateForward e ud userId roleId w = (Err er, w))"
proof -
  have "validateForwardExists (wdb w) k userId roleId = None"
    using assms by (simp add: validateForwardExists_def)
  then show ?thesis
    using assms(4)
    by (simp add: DeleteForward_def PauseForward_def ResumeForward_def UpdateForward_def Let_def
        split: option.split)
qed

definition sample_update :: "int \<Rightarrow> ForwardUpdateDto" where
  "sample_update k = \<lparr>fd_Name = ''g'', fd_TunnelId = 2, fd_RouteId = 0, fd_RemoteAddr = ''8.8.4.4:53'',
     fd_Strategy = ''fifo'', fd_InPort = None, fd_ListenIp = [], fd_InterfaceName = [], fd_ID = k\<rparr>"

theorem foreign_forward_untouched_witness:
  "(\<exists>er. DeleteForward sample_env 10 3 1 busy_world = (Err er, busy_world)) \<and>
   (\<exists>er. UpdateForward sample_env (sample_update 10) 3 1 busy_world = (Err er, busy_world))"
proof -
  have role: "(1::int) \<noteq> adminRoleId" by (simp add: panel_consts)
  have "map_option f_UserId (firstForward (wdb busy_world) 10) = Some 2" by code_simp
  then obtain f where f: "firstForward (wdb busy_world) 10 = Some f" "f_UserId f = 2"
    by (cases "firstForward (wdb busy_world) 10") auto
  have other: "f_UserId f \<noteq> 3" using f by simp
  have "fd_ID (sample_update 10) = 10" by (simp add: sample_update_def)
  from foreign_forward_untouched [OF role f(1) other this, of sample_env] show ?thesis by blast
qed

section \<open>Service names\<close>

lemma main_names:
  "buildMultiIPServiceNames name ip =
     (if multi_ip ip then buildMultiIPServiceNames name ip else [name @ ''_tcp'', name @ ''_udp''])"
proof (cases "multi_ip ip")
  case False
  then have "splitListenIPs ip = [ip]"
    by (cases "ip = []") (auto simp: multi_ip_def splitListenIPs_def)
  with False show ?thesis by (simp add: buildMultiIPServiceNames_def)
qed simp

text \<open>Property: What is created is what is deleted, paused and resumed: for a forward with a listen
  address of its own, or on a tunnel with a single one, the services of the create command have
  exactly the names the delete, pause and resume commands for the forward carry.\<close>

theorem service_names_agree:
  assumes "f_ListenIp f \<noteq> [] \<or> \<not> contains_str (t_TcpListenAddr t) '',''"
  shows "delete_main e n name (f_ListenIp f) w = SendMsg e n (DeleteService_msg (map s_name
       (buildServices name inPort limiter addr (t_Type t) (with_listen_ip (f_ListenIp f) t) st ifn sniff))) w \<and>
     pause_main e n name (f_ListenIp f) w = SendMsg e n (PauseService_msg (map s_name
       (buildServices name inPort limiter addr (t_Type t) (with_listen_ip (f_ListenIp f) t) st ifn sniff))) w \<and>
     resume_main e n name (f_ListenIp f) w = SendMsg e n (ResumeService_msg (map s_name
       (buildServices name inPort limiter addr (t_Type t) (with_listen_ip (f_ListenIp f) t) st ifn sniff))) w"
proof -
  have names: "buildMultiIPServiceNames name (t_TcpListenAddr (with_listen_ip (f_ListenIp f) t)) =
      (if multi_ip (f_ListenIp f) then buildMultiIPServiceNames name (f_ListenIp f)
       else [name @ ''_tcp'', name @ ''_udp''])"
  proof (cases "f_ListenIp f = []")
    case True
    with assms have "splitListenIPs (t_TcpListenAddr t) = [t_TcpListenAddr t]"
      by (simp add: splitListenIPs_single)
    with True show ?thesis
      by (simp add: with_listen_ip_def buildMultiIPServiceNames_def multi_ip_def)
  next
    case False
    then show ?thesis by (subst main_names) (simp add: with_listen_ip_def)
  qed
  show ?thesis
    unfolding buildServices_names names
    by (simp add: delete_main_def pause_main_def resume_main_def msg_defs)
qed

theorem service_names_agree_witness:
  "delete_main sample_env 1 ''10_2_1'' ''1.1.1.1,2.2.2.2'' sample_world =
     SendMsg sample_env 1 (DeleteService_msg
       [''10_2_1_0_tcp'', ''10_2_1_0_udp'', ''10_2_1_1_tcp'', ''10_2_1_1_udp'']) sample_world"
proof -
  let ?f = "(new_forward sample_env sample_db (sample_dto 1 0 None) 2 ''u'' 1000 0)
      \<lparr>f_ListenIp := ''1.1.1.1,2.2.2.2''\<rparr>"
  have l: "f_ListenIp ?f \<noteq> [] \<or> \<not> contains_str (t_TcpListenAddr (sample_tunnel 1 1 1)) '',''" by simp
  have n: "map s_name (buildServices ''10_2_1'' 1000 None [] (t_Type (sample_tunnel 1 1 1))
      (with_listen_ip (f_ListenIp ?f) (sample_tunnel 1 1 1)) [] [] False) =
      [''10_2_1_0_tcp'', ''10_2_1_0_udp'', ''10_2_1_1_tcp'', ''10_2_1_1_udp'']"
    by code_simp
  from service_names_agree [OF l, of sample_env 1 "''10_2_1''" sample_world 1000 None "[]" "[]" "[]" False]
  show ?thesis unfolding n by simp
qed

end
