(* ===== verification/Flow.thy ===== *)
theory Flow
  imports Tunnel_Api "HOL-Library.Log_Nat"
begin

text \<open>
  Traffic accounting (service/flow.go): the reports of the nodes are added to the forward, the
  user and the permission they name, and forwards over a limit are paused. The products of
  the report with the tunnel's ratio are computed in \<open>float64\<close> by the code; \<open>f64_round\<close>
  is that rounding on rationals. The counters are columns the database adds to
  (\<open>in_flow + ?\<close>), so their sums are not wrapped; what Go computes from them is.
\<close>

section \<open>float64 products\<close>

text \<open>Round to nearest, ties to even.\<close>

definition round_even :: "rat \<Rightarrow> int" where
  "round_even x =
     (let f = \<lfloor>x\<rfloor>; r = x - of_int f
      in if r < 1 / 2 then f else if r > 1 / 2 then f + 1 else if even f then f else f + 1)"

text \<open>A float64 has 53 significant bits and the smallest one is \<open>2 ^ -1074\<close>: in units of
  that, \<open>f64_shift\<close> bits of a positive number are rounded off. Values of \<open>2 ^ 1024\<close> and more
  do not occur.\<close>

definition f64_shift :: "rat \<Rightarrow> nat" where
  "f64_shift y = floorlog 2 (nat \<lfloor>y\<rfloor>) - 53"

definition f64_scale :: nat where
  "f64_scale = 1074"

definition f64_pos :: "rat \<Rightarrow> rat" where
  "f64_pos x =
     (let y = x * 2 ^ f64_scale; s = f64_shift y
      in of_int (round_even (y / 2 ^ s)) * 2 ^ s / 2 ^ f64_scale)"

definition f64_round :: "rat \<Rightarrow> rat" where
  "f64_round x = (if x < 0 then - f64_pos (- x) else f64_pos x)"

text \<open>\<open>int64(math.Floor(x))\<close>; out of range, the result of amd64.\<close>

definition int64_floor :: "rat \<Rightarrow> int" where
  "int64_floor x =
     (let f = \<lfloor>x\<rfloor> in if - (2 ^ 63) \<le> f \<and> f < 2 ^ 63 then f else - (2 ^ 63))"

definition scaled_flow :: "int \<Rightarrow> rat \<Rightarrow> int \<Rightarrow> int" where
  "scaled_flow bytes trafficRatio flowType =
     int64_floor (f64_round (f64_round (f64_round (of_int bytes) * trafficRatio) *
       f64_round (of_int flowType)))"

section \<open>Pausing\<close>

text \<open>One round of the loop of \<open>pauseForwardServices\<close>. It addresses the nodes of the tunnel row
  without looking them up.\<close>

definition pause_one :: "'n env \<Rightarrow> Forward \<Rightarrow> 'n world \<Rightarrow> 'n world" where
  "pause_one e fwd w =
     (if f_Status fwd = forwardStatusPaused then w
      else case firstTunnel (wdb w) (f_TunnelId fwd) of
        None \<Rightarrow> w
      | Some tunnel \<Rightarrow>
          (let svcName = buildServiceName (f_ID fwd) (f_UserId fwd)
                 (getUserTunnel (wdb w) (f_UserId fwd) (f_TunnelId fwd));
               w1 = snd (pause_main e (t_InNodeId tunnel) svcName (f_ListenIp fwd) w);
               w2 = (if t_Type tunnel = 2
                     then snd (PauseRemoteService e (t_OutNodeId tunnel) svcName w1) else w1)
           in db_exec e (set_forward (f_ID fwd) (\<lambda>f. f\<lparr>f_Status := forwardStatusPaused\<rparr>)) w2))"

definition pauseForwardServices :: "'n env \<Rightarrow> Forward list \<Rightarrow> 'n world \<Rightarrow> 'n world" where
  "pauseForwardServices e fwds w = fold (pause_one e) fwds w"

definition pauseAllUserServices :: "'n env \<Rightarrow> int \<Rightarrow> 'n world \<Rightarrow> 'n world" where
  "pauseAllUserServices e userId w =
     pauseForwardServices e (find_where (\<lambda>f. f_UserId f = userId) (forwards (wdb w))) w"

definition pauseSpecificForward :: "'n env \<Rightarrow> int \<Rightarrow> int \<Rightarrow> 'n world \<Rightarrow> 'n world" where
  "pauseSpecificForward e tunnelId userId w =
     pauseForwardServices e (find_where (\<lambda>f. f_TunnelId f = tunnelId \<and> f_UserId f = userId)
       (forwards (wdb w))) w"

section \<open>Limits\<close>

definition user_over_limit :: "'n env \<Rightarrow> User \<Rightarrow> bool" where
  "user_over_limit e user \<longleftrightarrow>
     (u_Flow user \<noteq> 0 \<and> i64 (u_Flow user * bytesToGB) < i64 (u_InFlow user + u_OutFlow user)) \<or>
     (u_ExpTime user > 0 \<and> u_ExpTime user \<le> now e) \<or> u_Status user \<noteq> 1"

definition checkUserLimits :: "'n env \<Rightarrow> int \<Rightarrow> 'n world \<Rightarrow> 'n world" where
  "checkUserLimits e userId w =
     (case firstUser (wdb w) userId of
        None \<Rightarrow> w
      | Some user \<Rightarrow> if user_over_limit e user then pauseAllUserServices e userId w else w)"

definition permission_over_limit :: "'n env \<Rightarrow> UserTunnel \<Rightarrow> bool" where
  "permission_over_limit e ut \<longleftrightarrow>
     (ut_Flow ut \<noteq> 0 \<and> i64 (ut_InFlow ut + ut_OutFlow ut) \<ge> i64 (ut_Flow ut * bytesToGB)) \<or>
     (ut_ExpTime ut > 0 \<and> ut_ExpTime ut \<le> now e) \<or> ut_Status ut \<noteq> 1"

definition checkUserTunnelLimits :: "'n env \<Rightarrow> int \<Rightarrow> int \<Rightarrow> 'n world \<Rightarrow> 'n world" where
  "checkUserTunnelLimits e userTunnelId userId w =
     (case firstUserTunnel (wdb w) userTunnelId of
        None \<Rightarrow> w
      | Some ut \<Rightarrow> if permission_over_limit e ut
                  then pauseSpecificForward e (ut_TunnelId ut) userId w else w)"

section \<open>A report\<close>

text \<open>\<open>FlowDto\<close>: the service name and the bytes up and down.\<close>

record FlowDto =
  fl_N :: string
  fl_U :: int
  fl_D :: int

definition flow_rate :: "db \<Rightarrow> Forward \<Rightarrow> int \<times> rat" where
  "flow_rate d forward =
     (if f_TunnelId forward = 0 then (1, 1)
      else case firstTunnel d (f_TunnelId forward) of
        None \<Rightarrow> (1, 1)
      | Some tunnel \<Rightarrow> (if t_Flow tunnel > 0 then t_Flow tunnel else 1,
                       if t_TrafficRatio tunnel > 0 then t_TrafficRatio tunnel else 1))"

text \<open>The three counter updates.\<close>

definition add_flows :: "'n env \<Rightarrow> int \<Rightarrow> int \<Rightarrow> int \<Rightarrow> int \<Rightarrow> int \<Rightarrow> 'n world \<Rightarrow> 'n world" where
  "add_flows e forwardId userId userTunnelId d u w =
     (let w1 = db_exec e (set_forward forwardId
            (\<lambda>f. f\<lparr>f_InFlow := f_InFlow f + d, f_OutFlow := f_OutFlow f + u\<rparr>)) w;
          w2 = db_exec e (users_update (update_where (\<lambda>x. u_ID x = userId)
            (\<lambda>x. x\<lparr>u_InFlow := u_InFlow x + d, u_OutFlow := u_OutFlow x + u\<rparr>))) w1
      in if userTunnelId = 0 then w2
         else db_exec e (user_tunnels_update (update_where (\<lambda>x. ut_ID x = userTunnelId)
            (\<lambda>x. x\<lparr>ut_InFlow := ut_InFlow x + d, ut_OutFlow := ut_OutFlow x + u\<rparr>))) w2)"

text \<open>\<open>processFlowData\<close>, for names whose first three parts are numbers as \<open>buildServiceName\<close>
  writes them. A part that is not a number goes into the statements as text; what the database
  does with it is the parameter \<open>other\<close>.\<close>

definition processFlowData ::
  "'n env \<Rightarrow> ('n world \<Rightarrow> 'n world) \<Rightarrow> FlowDto \<Rightarrow> 'n world \<Rightarrow> 'n world" where
  "processFlowData e other flowData w =
     (case split_on (CHR ''_'') (fl_N flowData) of
        p1 # p2 # p3 # _ \<Rightarrow>
          (case (parse_int p1, parse_int p2, parse_int p3) of
             (Some forwardId, Some userId, Some userTunnelId) \<Rightarrow>
               (case firstForward (wdb w) forwardId of
                  None \<Rightarrow> w
                | Some forward \<Rightarrow>
                    (let (flowType, trafficRatio) = flow_rate (wdb w) forward;
                         d = scaled_flow (fl_D flowData) trafficRatio flowType;
                         u = scaled_flow (fl_U flowData) trafficRatio flowType;
                         w1 = add_flows e forwardId userId userTunnelId d u w
                     in if userTunnelId = 0 then w1
                        else checkUserTunnelLimits e userTunnelId userId
                               (checkUserLimits e userId w1)))
           | _ \<Rightarrow> other w)
      | _ \<Rightarrow> w)"

text \<open>\<open>ProcessFlowUpload\<close>; \<open>report\<close> is the decrypted and decoded body, \<open>None\<close> when it is
  malformed.\<close>

definition ProcessFlowUpload ::
  "'n env \<Rightarrow> ('n world \<Rightarrow> 'n world) \<Rightarrow> string \<Rightarrow> FlowDto option \<Rightarrow> 'n world \<Rightarrow> 'n world" where
  "ProcessFlowUpload e other secret report w =
     (if count_where (\<lambda>n. n_Secret n = secret) (nodes (wdb w)) = 0 then w
      else case report of
        None \<Rightarrow> w
      | Some flowData \<Rightarrow>
          if fl_N flowData = ''web_api'' then w else processFlowData e other flowData w)"

section \<open>Xray traffic\<close>

definition disable_client :: "'n env \<Rightarrow> XrayClient \<Rightarrow> 'n world \<Rightarrow> 'n world" where
  "disable_client e client w =
     (let w1 = db_exec e (xray_clients_update (update_where (\<lambda>c. xc_ID c = xc_ID client)
            (\<lambda>c. c\<lparr>xc_Enable := 0\<rparr>))) w
      in case first_where (\<lambda>ib. xi_ID ib = xc_InboundId client) (xray_inbounds (wdb w1)) of
           None \<Rightarrow> w1
         | Some inbound \<Rightarrow>
             snd (XrayRemoveClient e (xi_NodeId inbound) (xi_Tag inbound) (xc_Email client) w1))"

definition checkUserXrayLimits :: "'n env \<Rightarrow> int \<Rightarrow> 'n world \<Rightarrow> 'n world" where
  "checkUserXrayLimits e userId w =
     (case firstUser (wdb w) userId of
        None \<Rightarrow> w
      | Some user \<Rightarrow>
          if u_XrayFlow user = 0 then w
          else if i64 (u_XrayInFlow user + u_XrayOutFlow user) \<ge> i64 (u_XrayFlow user * bytesToGB)
          then fold (disable_client e)
                 (find_where (\<lambda>c. xc_UserId c = userId \<and> xc_Enable c = 1) (xray_clients (wdb w))) w
          else w)"

text \<open>One client of \<open>ProcessXrayFlowUpload\<close>: its email and the bytes up and down.\<close>

definition xray_report :: "'n env \<Rightarrow> string \<times> int \<times> int \<Rightarrow> 'n world \<Rightarrow> 'n world" where
  "xray_report e report w =
     (case report of (email, up, down) \<Rightarrow>
        if email = [] \<or> (up = 0 \<and> down = 0) then w
        else case first_where (\<lambda>c. text_eq e (xc_Email c) email) (xray_clients (wdb w)) of
          None \<Rightarrow> w
        | Some client \<Rightarrow>
            (let w1 = db_exec e (xray_clients_update (update_where (\<lambda>c. xc_ID c = xc_ID client)
                   (\<lambda>c. c\<lparr>xc_UpTraffic := xc_UpTraffic c + up,
                         xc_DownTraffic := xc_DownTraffic c + down\<rparr>))) w;
                 w2 = db_exec e (users_update (update_where (\<lambda>u. u_ID u = xc_UserId client)
                   (\<lambda>u. u\<lparr>u_XrayInFlow := u_XrayInFlow u + down,
                         u_XrayOutFlow := u_XrayOutFlow u + up\<rparr>))) w1;
                 w3 = checkUserXrayLimits e (xc_UserId client) w2
             in if xc_TotalTraffic client \<le> 0 then w3
                else case first_where (\<lambda>c. xc_ID c = xc_ID client) (xray_clients (wdb w3)) of
                  None \<Rightarrow> w3
                | Some updated \<Rightarrow>
                    if i64 (xc_UpTraffic updated + xc_DownTraffic updated) \<ge> xc_TotalTraffic client
                       \<and> xc_Enable updated = 1
                    then disable_client e client w3 else w3))"

definition ProcessXrayFlowUpload ::
  "'n env \<Rightarrow> string \<Rightarrow> (string \<times> int \<times> int) list option \<Rightarrow> 'n world \<Rightarrow> 'n world" where
  "ProcessXrayFlowUpload e secret clients w =
     (if count_where (\<lambda>n. n_Secret n = secret) (nodes (wdb w)) = 0 then w
      else case clients of None \<Rightarrow> w | Some cs \<Rightarrow> fold (xray_report e) cs w)"

section \<open>Exact products\<close>

lemma round_even_int [simp]: "round_even (of_int n) = n"
  by (simp add: round_even_def)

lemma f64_pos_int: "0 \<le> n \<Longrightarrow> n < 2 ^ 53 \<Longrightarrow> f64_pos (of_int n) = of_int n"
proof -
  assume n: "0 \<le> n" "n < 2 ^ 53"
  let ?y = "of_int n * 2 ^ f64_scale :: rat"
  have y: "?y = of_int (n * 2 ^ f64_scale)" by simp
  have shift: "f64_shift ?y \<le> f64_scale"
  proof (cases "n = 0")
    case True
    then show ?thesis by (simp add: f64_shift_def floorlog_def)
  next
    case False
    have "nat \<lfloor>?y\<rfloor> = nat n * 2 ^ f64_scale"
      unfolding y floor_of_int using n by (simp add: nat_mult_distrib nat_power_eq)
    moreover have "floorlog 2 (nat n * 2 ^ f64_scale) = floorlog 2 (nat n) + f64_scale"
      using False n by (intro floorlog_power) auto
    moreover have "floorlog 2 (nat n) \<le> 53"
      using n by (intro floorlog_leI) (auto simp: nat_less_iff)
    ultimately show ?thesis by (simp add: f64_shift_def)
  qed
  define s where "s = f64_shift ?y"
  have p: "(2 ^ f64_scale :: rat) = 2 ^ s * 2 ^ (f64_scale - s)"
    using shift by (simp add: s_def flip: power_add)
  have "?y = of_int (n * 2 ^ (f64_scale - s)) * 2 ^ s" by (simp add: p)
  then have div: "?y / 2 ^ s = of_int (n * 2 ^ (f64_scale - s))"
    by (metis nonzero_mult_div_cancel_right power_not_zero zero_neq_numeral)
  have "f64_pos (of_int n) = of_int (n * 2 ^ (f64_scale - s)) * 2 ^ s / 2 ^ f64_scale"
    unfolding f64_pos_def Let_def s_def [symmetric] div round_even_int ..
  also have "\<dots> = of_int n" by (simp add: p)
  finally show ?thesis .
qed

lemma int64_floor_int: "- (2 ^ 63) \<le> n \<Longrightarrow> n < 2 ^ 63 \<Longrightarrow> int64_floor (of_int n) = n"
  by (simp add: int64_floor_def Let_def floor_of_int)

lemma f64_round_int: "- (2 ^ 53) < n \<Longrightarrow> n < 2 ^ 53 \<Longrightarrow> f64_round (of_int n) = of_int n"
  using f64_pos_int [of n] f64_pos_int [of "- n"] by (auto simp: f64_round_def)

text \<open>With an integral ratio the products are exact.\<close>

lemma scaled_flow_exact:
  assumes "0 \<le> b" and "b < 2 ^ 53" and "0 < r" and "0 < k" and "b * r * k < 2 ^ 53" and "k < 2 ^ 53"
  shows "scaled_flow b (of_int r) k = b * r * k"
proof -
  have br: "b * r < 2 ^ 53"
  proof -
    have "b * r * 1 \<le> b * r * k" using assms by (intro mult_left_mono) auto
    with assms show ?thesis by simp
  qed
  have pos: "0 \<le> b * r" "0 \<le> b * r * k" using assms by simp_all
  have "f64_round (f64_round (of_int b) * of_int r) = of_int (b * r)"
    using f64_round_int [of b] f64_round_int [of "b * r"] assms br pos by simp
  moreover have "f64_round (of_int (b * r) * f64_round (of_int k)) = of_int (b * r * k)"
    using f64_round_int [of k] f64_round_int [of "b * r * k"] assms pos by simp
  ultimately have "scaled_flow b (of_int r) k = int64_floor (of_int (b * r * k))"
    by (simp only: scaled_flow_def)
  also have "\<dots> = b * r * k"
  proof (rule int64_floor_int)
    show "- (2 ^ 63) \<le> b * r * k" by (rule order_trans [OF _ pos(2)]) simp
    show "b * r * k < 2 ^ 63" by (rule less_trans [OF assms(5)]) simp
  qed
  finally show ?thesis .
qed

section \<open>What pausing does to the database\<close>

lemma pause_db [frame_simps]:
  "wdb (snd (pause_main e n name ip w)) = wdb w" "wdb (snd (PauseRemoteService e n name w)) = wdb w"
  by (simp_all add: pause_main_def frame_simps)

lemma pause_one_db:
  "db_ok e = (\<lambda>_. True) \<Longrightarrow>
   wdb (pause_one e f w) =
     (if f_Status f = 0 \<or> firstTunnel (wdb w) (f_TunnelId f) = None then wdb w
      else set_forward (f_ID f) (\<lambda>f. f\<lparr>f_Status := 0\<rparr>) (wdb w))"
  by (simp add: pause_one_def panel_consts Let_def frame_simps split: option.split)

text \<open>The forwards a pause stops: active ones on a tunnel that exists.\<close>

definition stoppable :: "db \<Rightarrow> Forward \<Rightarrow> bool" where
  "stoppable d f \<longleftrightarrow> f_Status f \<noteq> 0 \<and> firstTunnel d (f_TunnelId f) \<noteq> None"

lemma update_where_twice:
  "update_where p g (update_where q g xs) = update_where (\<lambda>x. p x \<or> q x) g xs"
  if "\<And>x. p (g x) = p x" "\<And>x. g (g x) = g x"
  using that by (induction xs) (auto simp: update_where_def)

lemma pauseForwardServices_db:
  assumes "db_ok e = (\<lambda>_. True)"
  shows "wdb (pauseForwardServices e fs w) =
    (wdb w)\<lparr>forwards := update_where (\<lambda>g. \<exists>f \<in> set fs. f_ID f = f_ID g \<and> stoppable (wdb w) f)
       (\<lambda>g. g\<lparr>f_Status := 0\<rparr>) (forwards (wdb w))\<rparr>"
proof (induction fs arbitrary: w)
  case Nil
  then show ?case by (simp add: pauseForwardServices_def update_where_def)
next
  case (Cons f fs)
  let ?w = "pause_one e f w"
  have t: "firstTunnel (wdb ?w) = firstTunnel (wdb w)"
    by (rule ext) (simp add: pause_one_db [OF assms] firstTunnel_def set_forward_def)
  then have st: "stoppable (wdb ?w) = stoppable (wdb w)" by (rule_tac ext) (simp add: stoppable_def)
  have one: "wdb ?w = (wdb w)\<lparr>forwards := update_where (\<lambda>g. f_ID f = f_ID g \<and> stoppable (wdb w) f)
      (\<lambda>g. g\<lparr>f_Status := 0\<rparr>) (forwards (wdb w))\<rparr>"
  proof (cases "stoppable (wdb w) f")
    case True
    then have "wdb ?w = set_forward (f_ID f) (\<lambda>f. f\<lparr>f_Status := 0\<rparr>) (wdb w)"
      unfolding pause_one_db [OF assms] stoppable_def by (simp only: if_False simp_thms)
    moreover have "update_where (\<lambda>g. f_ID f = f_ID g \<and> stoppable (wdb w) f) h xs =
        update_where (\<lambda>g. f_ID g = f_ID f) h xs" for h :: "Forward \<Rightarrow> Forward" and xs
      using True by (auto simp: update_where_def)
    ultimately show ?thesis by (simp add: set_forward_def)
  next
    case False
    then have "wdb ?w = wdb w" by (simp add: pause_one_db [OF assms] stoppable_def)
    with False show ?thesis by (simp add: update_where_none)
  qed
  have "wdb (pauseForwardServices e (f # fs) w) = wdb (pauseForwardServices e fs ?w)"
    by (simp add: pauseForwardServices_def)
  also have "\<dots> = (wdb ?w)\<lparr>forwards := update_where
      (\<lambda>g. \<exists>f \<in> set fs. f_ID f = f_ID g \<and> stoppable (wdb w) f)
       (\<lambda>g. g\<lparr>f_Status := 0\<rparr>) (forwards (wdb ?w))\<rparr>"
    unfolding Cons.IH st ..
  also have "\<dots> = (wdb w)\<lparr>forwards := update_where
      (\<lambda>g. \<exists>f \<in> set (f # fs). f_ID f = f_ID g \<and> stoppable (wdb w) f)
       (\<lambda>g. g\<lparr>f_Status := 0\<rparr>) (forwards (wdb w))\<rparr>"
    unfolding one by (simp add: update_where_twice disj_commute)
  finally show ?case .
qed

end
