(* ===== verification/Flow_Props.thy ===== *)
theory Flow_Props
  imports Flow Sample
begin

text \<open>
  What a traffic report does: the counters of exactly the rows its service name was built from
  grow by the scaled bytes, and a user or permission over a limit has no running forward left.
\<close>

section \<open>Reading the service name back\<close>

definition int64 :: "int \<Rightarrow> bool" where
  "int64 x \<longleftrightarrow> - (2 ^ 63) \<le> x \<and> x < 2 ^ 63"

lemma split_service_name:
  assumes "rest = [] \<or> hd rest = CHR ''_''"
  shows "\<exists>r. split_on (CHR ''_'') (buildServiceName k u (Some ut) @ rest) =
     itoa k # itoa u # itoa (ut_ID ut) # r"
proof (cases rest)
  case Nil
  then show ?thesis
    using itoa_no_sep(1) by (simp add: buildServiceName_def split_on_sep split_on_no_sep)
next
  case (Cons c cs)
  with assms have "rest = CHR ''_'' # cs" by simp
  then show ?thesis
    using itoa_no_sep(1) by (simp add: buildServiceName_def split_on_sep split_on_no_sep)
qed

lemma processFlowData_named:
  assumes "fl_N rep = buildServiceName k u (Some ut) @ rest" and "rest = [] \<or> hd rest = CHR ''_''"
    and "int64 k" and "int64 u" and "int64 (ut_ID ut)" and "ut_ID ut \<noteq> 0"
    and "firstForward (wdb w) k = Some f" and "flow_rate (wdb w) f = (c, r)"
  shows "processFlowData e other rep w =
     checkUserTunnelLimits e (ut_ID ut) u (checkUserLimits e u
       (add_flows e k u (ut_ID ut) (scaled_flow (fl_D rep) r c) (scaled_flow (fl_U rep) r c) w))"
proof -
  from split_service_name [OF assms(2)] obtain r' where
    "split_on (CHR ''_'') (fl_N rep) = itoa k # itoa u # itoa (ut_ID ut) # r'"
    using assms(1) by metis
  with assms show ?thesis
    by (simp add: processFlowData_def parse_int_itoa int64_def Let_def)
qed

section \<open>Counters\<close>

definition f_count :: "Forward \<Rightarrow> int \<times> int \<times> int" where
  "f_count f = (f_ID f, f_InFlow f, f_OutFlow f)"

lemma pause_counts:
  assumes "db_ok e = (\<lambda>_. True)"
  shows "map f_count (forwards (wdb (pauseForwardServices e fs w))) = map f_count (forwards (wdb w))"
    and "users (wdb (pauseForwardServices e fs w)) = users (wdb w)"
    and "user_tunnels (wdb (pauseForwardServices e fs w)) = user_tunnels (wdb w)"
  by (simp_all add: pauseForwardServices_db [OF assms] update_where_def f_count_def)

lemma limits_counts:
  assumes "db_ok e = (\<lambda>_. True)"
  shows "map f_count (forwards (wdb (checkUserLimits e u w))) = map f_count (forwards (wdb w))"
    and "users (wdb (checkUserLimits e u w)) = users (wdb w)"
    and "user_tunnels (wdb (checkUserLimits e u w)) = user_tunnels (wdb w)"
    and "map f_count (forwards (wdb (checkUserTunnelLimits e k u w))) = map f_count (forwards (wdb w))"
    and "users (wdb (checkUserTunnelLimits e k u w)) = users (wdb w)"
    and "user_tunnels (wdb (checkUserTunnelLimits e k u w)) = user_tunnels (wdb w)"
  by (simp_all add: checkUserLimits_def checkUserTunnelLimits_def pauseAllUserServices_def
      pauseSpecificForward_def pause_counts [OF assms] split: option.split)

text \<open>C5: Accounting. With an integral traffic ratio \<open>r\<close> and a report inside the exact range of
  float64, a report for the service of forward \<open>k\<close>, user \<open>u\<close> and permission \<open>ut\<close> (the name
  as the panel built it, with any suffix) adds \<open>D * r * c\<close> and \<open>U * r * c\<close> to the in and out
  counters of those three rows and leaves every other counter alone, whether or not the limit
  checks pause anything.\<close>

theorem flow_report_accounting:
  assumes "db_ok e = (\<lambda>_. True)"
    and "fl_N rep = buildServiceName k u (Some ut) @ rest" and "rest = [] \<or> hd rest = CHR ''_''"
    and "int64 k" and "int64 u" and "int64 (ut_ID ut)" and "ut_ID ut \<noteq> 0"
    and "firstForward (wdb w) k = Some f" and "f_TunnelId f \<noteq> 0"
    and "firstTunnel (wdb w) (f_TunnelId f) = Some t"
    and "t_Flow t = c" and "0 < c" and "c < 2 ^ 53" and "t_TrafficRatio t = of_int r" and "0 < r"
    and "0 \<le> fl_D rep" and "fl_D rep < 2 ^ 53" and "fl_D rep * r * c < 2 ^ 53"
    and "0 \<le> fl_U rep" and "fl_U rep < 2 ^ 53" and "fl_U rep * r * c < 2 ^ 53"
  shows "map f_count (forwards (wdb (processFlowData e other rep w))) =
       map (\<lambda>x. if f_ID x = k
                then (k, f_InFlow x + fl_D rep * r * c, f_OutFlow x + fl_U rep * r * c)
                else f_count x) (forwards (wdb w)) \<and>
     users (wdb (processFlowData e other rep w)) =
       map (\<lambda>x. if u_ID x = u then x\<lparr>u_InFlow := u_InFlow x + fl_D rep * r * c,
                                     u_OutFlow := u_OutFlow x + fl_U rep * r * c\<rparr> else x)
         (users (wdb w)) \<and>
     user_tunnels (wdb (processFlowData e other rep w)) =
       map (\<lambda>x. if ut_ID x = ut_ID ut then x\<lparr>ut_InFlow := ut_InFlow x + fl_D rep * r * c,
                                             ut_OutFlow := ut_OutFlow x + fl_U rep * r * c\<rparr> else x)
         (user_tunnels (wdb w))"
proof -
  have rate: "flow_rate (wdb w) f = (c, of_int r)"
    using assms(9-15) by (simp add: flow_rate_def)
  have d: "scaled_flow (fl_D rep) (of_int r) c = fl_D rep * r * c"
    and u: "scaled_flow (fl_U rep) (of_int r) c = fl_U rep * r * c"
    using assms by (simp_all add: scaled_flow_exact)
  show ?thesis
    unfolding processFlowData_named [OF assms(2-8) rate] d u
    using assms(7)
    by (simp add: limits_counts [OF assms(1)] add_flows_def db_exec_ok [OF assms(1)] Let_def
        set_forward_def update_where_def f_count_def)
qed

definition sample_report :: FlowDto where
  "sample_report = \<lparr>fl_N = ''10_2_2_tcp'', fl_U = 7, fl_D = 30\<rparr>"

lemma busy_rows:
  "map f_count (forwards (wdb busy_world)) = [(10, 0, 0)]"
  "map_option f_TunnelId (firstForward (wdb busy_world) 10) = Some 2"
  "firstTunnel (wdb busy_world) 2 = Some (sample_tunnel 2 2 2)"
  by code_simp+

lemma sample_report_name: "fl_N sample_report = buildServiceName 10 2 (Some (sample_permission 2)) @ ''_tcp''"
  by code_simp

theorem flow_report_accounting_witness:
  "map u_InFlow (users (wdb (processFlowData sample_env (\<lambda>w. w) sample_report busy_world))) =
     map (\<lambda>x. if u_ID x = 2 then u_InFlow x + 60 else u_InFlow x) (users (wdb busy_world))"
proof -
  from busy_rows(2) obtain f where f: "firstForward (wdb busy_world) 10 = Some f" "f_TunnelId f = 2"
    by (cases "firstForward (wdb busy_world) 10") auto
  have ok: "db_ok sample_env = (\<lambda>_. True)" by (simp add: sample_env_def)
  have rest: "''_tcp'' = [] \<or> hd ''_tcp'' = CHR ''_''" by simp
  have ids: "int64 10" "int64 2" "int64 (ut_ID (sample_permission 2))"
    by (simp_all add: int64_def sample_permission_def)
  have ut: "ut_ID (sample_permission 2) \<noteq> 0" by (simp add: sample_permission_def)
  have nz: "f_TunnelId f \<noteq> 0" using f by simp
  have t: "firstTunnel (wdb busy_world) (f_TunnelId f) = Some (sample_tunnel 2 2 2)"
    using f busy_rows(3) by simp
  have flow: "t_Flow (sample_tunnel 2 2 2) = 2" "t_TrafficRatio (sample_tunnel 2 2 2) = of_int 1"
    by (simp_all add: sample_tunnel_def)
  have b: "fl_D sample_report = 30" "fl_U sample_report = 7" by (simp_all add: sample_report_def)
  have "users (wdb (processFlowData sample_env (\<lambda>w. w) sample_report busy_world)) =
       map (\<lambda>x. if u_ID x = 2 then x\<lparr>u_InFlow := u_InFlow x + fl_D sample_report * 1 * 2,
          u_OutFlow := u_OutFlow x + fl_U sample_report * 1 * 2\<rparr> else x) (users (wdb busy_world))"
    using flow_report_accounting [OF ok sample_report_name rest ids ut f(1) nz t flow(1) _ _ flow(2),
        of "\<lambda>w. w"] b by simp
  then show ?thesis by (simp add: b comp_def if_distrib cong: if_cong)
qed

section \<open>Enforcement\<close>

text \<open>Pausing a set of forwards stops every one of them that is on a tunnel.\<close>

lemma pause_stops:
  assumes "db_ok e = (\<lambda>_. True)" and fs: "fs = find_where p (forwards (wdb w))"
    and p: "\<And>f s. p (f\<lparr>f_Status := s\<rparr>) = p f"
    and g: "g \<in> set (forwards (wdb (pauseForwardServices e fs w)))" "p g"
    and t: "firstTunnel (wdb (pauseForwardServices e fs w)) (f_TunnelId g) \<noteq> None"
  shows "f_Status g = 0"
proof -
  let ?q = "\<lambda>g. \<exists>f \<in> set fs. f_ID f = f_ID g \<and> stoppable (wdb w) f"
  note db = pauseForwardServices_db [OF assms(1), of fs w]
  from g(1) have "g \<in> (\<lambda>x. if ?q x then x\<lparr>f_Status := 0\<rparr> else x) ` set (forwards (wdb w))"
    by (simp add: db set_update_where)
  then obtain x where x: "x \<in> set (forwards (wdb w))"
    and gx: "g = (if ?q x then x\<lparr>f_Status := 0\<rparr> else x)"
    by blast
  show ?thesis
  proof (cases "?q x")
    case False
    with gx have "g = x" by metis
    moreover have "firstTunnel (wdb w) (f_TunnelId g) \<noteq> None"
      using t by (simp add: db firstTunnel_def)
    ultimately show ?thesis using False x g(2) fs by (auto simp: stoppable_def)
  next
    case True
    with gx have "g = x\<lparr>f_Status := 0\<rparr>" by metis
    then show ?thesis by simp
  qed
qed

lemma limits_tables:
  assumes "db_ok e = (\<lambda>_. True)"
  shows "tunnels (wdb (checkUserTunnelLimits e k u w)) = tunnels (wdb w)"
    and "\<And>g. g \<in> set (forwards (wdb (checkUserTunnelLimits e k u w))) \<Longrightarrow>
       \<exists>x \<in> set (forwards (wdb w)). g = x \<or> g = x\<lparr>f_Status := 0\<rparr>"
proof -
  show "tunnels (wdb (checkUserTunnelLimits e k u w)) = tunnels (wdb w)"
    by (simp add: checkUserTunnelLimits_def pauseSpecificForward_def
        pauseForwardServices_db [OF assms] split: option.split)
  show "\<And>g. g \<in> set (forwards (wdb (checkUserTunnelLimits e k u w))) \<Longrightarrow>
       \<exists>x \<in> set (forwards (wdb w)). g = x \<or> g = x\<lparr>f_Status := 0\<rparr>"
    by (auto simp: checkUserTunnelLimits_def pauseSpecificForward_def
        pauseForwardServices_db [OF assms] set_update_where split: option.splits if_splits)
qed

lemma report_stops:
  assumes "db_ok e = (\<lambda>_. True)"
    and "fl_N rep = buildServiceName k u (Some ut) @ rest" and "rest = [] \<or> hd rest = CHR ''_''"
    and "int64 k" and "int64 u" and "int64 (ut_ID ut)" and "ut_ID ut \<noteq> 0"
    and "firstForward (wdb w) k = Some f" and "w' = processFlowData e other rep w"
    and "g \<in> set (forwards (wdb w'))" and "f_UserId g = u"
    and "firstTunnel (wdb w') (f_TunnelId g) \<noteq> None"
    and "(\<exists>x. firstUser (wdb w') u = Some x \<and> user_over_limit e x) \<or>
         (\<exists>x. firstUserTunnel (wdb w') (ut_ID ut) = Some x \<and> permission_over_limit e x \<and>
            ut_TunnelId x = f_TunnelId g)"
  shows "f_Status g = 0"
proof -
  obtain c r where rate: "flow_rate (wdb w) f = (c, r)" by (cases "flow_rate (wdb w) f")
  define w1 where "w1 = add_flows e k u (ut_ID ut) (scaled_flow (fl_D rep) r c)
      (scaled_flow (fl_U rep) r c) w"
  define w2 where "w2 = checkUserLimits e u w1"
  have w': "w' = checkUserTunnelLimits e (ut_ID ut) u w2"
    unfolding assms(9) w2_def w1_def by (rule processFlowData_named [OF assms(2-8) rate])
  have users: "users (wdb w') = users (wdb w1)" "user_tunnels (wdb w') = user_tunnels (wdb w2)"
    by (simp_all add: w' w2_def limits_counts [OF assms(1)])
  from assms(13) show ?thesis
  proof
    assume "\<exists>x. firstUser (wdb w') u = Some x \<and> user_over_limit e x"
    then have over: "w2 = pauseAllUserServices e u w1"
      unfolding w2_def checkUserLimits_def users firstUser_def by (auto split: option.splits)
    from limits_tables(2) [OF assms(1)] assms(10) w' obtain x
      where x: "x \<in> set (forwards (wdb w2))" "g = x \<or> g = x\<lparr>f_Status := 0\<rparr>" by blast
    have "f_Status x = 0"
    proof (rule pause_stops [OF assms(1) refl, where p = "\<lambda>f. f_UserId f = u" and w = w1])
      show "x \<in> set (forwards (wdb (pauseForwardServices e
          (find_where (\<lambda>f. f_UserId f = u) (forwards (wdb w1))) w1)))"
        using x(1) over by (simp add: pauseAllUserServices_def)
      show "f_UserId x = u" using x(2) assms(11) by auto
      have "firstTunnel (wdb w2) (f_TunnelId x) \<noteq> None"
        using assms(12) x(2) by (auto simp: firstTunnel_def w' limits_tables(1) [OF assms(1)])
      then show "firstTunnel (wdb (pauseForwardServices e
          (find_where (\<lambda>f. f_UserId f = u) (forwards (wdb w1))) w1)) (f_TunnelId x) \<noteq> None"
        using over by (simp add: pauseAllUserServices_def)
    qed simp
    with x(2) show ?thesis by auto
  next
    assume "\<exists>x. firstUserTunnel (wdb w') (ut_ID ut) = Some x \<and> permission_over_limit e x \<and>
            ut_TunnelId x = f_TunnelId g"
    then have over: "w' = pauseSpecificForward e (f_TunnelId g) u w2"
      unfolding w' checkUserTunnelLimits_def firstUserTunnel_def
      using users(2) by (auto simp: w' checkUserTunnelLimits_def firstUserTunnel_def split: option.splits)
    show ?thesis
    proof (rule pause_stops [OF assms(1) refl,
          where p = "\<lambda>x. f_TunnelId x = f_TunnelId g \<and> f_UserId x = u" and w = w2])
      show "g \<in> set (forwards (wdb (pauseForwardServices e (find_where
          (\<lambda>x. f_TunnelId x = f_TunnelId g \<and> f_UserId x = u) (forwards (wdb w2))) w2)))"
        using assms(10) over by (simp add: pauseSpecificForward_def)
      show "firstTunnel (wdb (pauseForwardServices e (find_where
          (\<lambda>x. f_TunnelId x = f_TunnelId g \<and> f_UserId x = u) (forwards (wdb w2))) w2)) (f_TunnelId g) \<noteq> None"
        using assms(12) over by (simp add: pauseSpecificForward_def)
    qed (use assms(11) in simp_all)
  qed
qed

text \<open>The commands that pause a forward, to the nodes that have a session.\<close>

definition pause_commands :: "'n env \<Rightarrow> Tunnel \<Rightarrow> string \<Rightarrow> string \<Rightarrow> (int \<times> msg) set" where
  "pause_commands e t name ip =
     (if nodeSessions e (t_InNodeId t)
      then {(t_InNodeId t, PauseService_msg (if multi_ip ip then buildMultiIPServiceNames name ip
         else [name @ ''_tcp'', name @ ''_udp'']))} else {}) \<union>
     (if t_Type t = 2 \<and> nodeSessions e (t_OutNodeId t)
      then {(t_OutNodeId t, PauseService_msg [name @ ''_tls''])} else {})"

text \<open>\<open>sent_new C w w'\<close>: on the way from \<open>w\<close> to \<open>w'\<close> at least the commands of \<open>C\<close> were sent.\<close>

definition sent_new :: "(int \<times> msg) set \<Rightarrow> 'n world \<Rightarrow> 'n world \<Rightarrow> bool" where
  "sent_new C w w' \<longleftrightarrow> (\<exists>ms. wsent w' = wsent w @ ms \<and> C \<subseteq> set ms)"

lemma sent_new_trans: "sent_new C w v \<Longrightarrow> sent_new D v z \<Longrightarrow> sent_new (C \<union> D) w z"
  by (fastforce simp: sent_new_def)

lemma sent_new_refl: "wsent w' = wsent w \<Longrightarrow> sent_new {} w w'"
  by (simp add: sent_new_def)

lemma sent_new_SendMsg: "sent_new (if nodeSessions e n then {(n, m)} else {}) w (snd (SendMsg e n m w))"
  by (auto simp: sent_new_def SendMsg_def Let_def split: option.splits prod.splits)

lemma sent_new_exec: "sent_new {} w (db_exec e f w)"
  by (rule sent_new_refl) (simp add: db_exec_def db_write_def Let_def)

lemma sent_new_pause_main:
  "sent_new (if nodeSessions e n then {(n, PauseService_msg (if multi_ip ip then buildMultiIPServiceNames name ip
     else [name @ ''_tcp'', name @ ''_udp'']))} else {}) w (snd (pause_main e n name ip w))"
proof (cases "multi_ip ip")
  case True
  show ?thesis unfolding pause_main_def PauseServiceMultiIP_def if_P [OF True] by (rule sent_new_SendMsg)
next
  case False
  show ?thesis unfolding pause_main_def PauseService_def if_not_P [OF False] by (rule sent_new_SendMsg)
qed

lemma sent_new_pause_one:
  assumes "f_Status f \<noteq> 0" and t: "firstTunnel (wdb w) (f_TunnelId f) = Some t"
    and n: "name = buildServiceName (f_ID f) (f_UserId f) (getUserTunnel (wdb w) (f_UserId f) (f_TunnelId f))"
  shows "sent_new (pause_commands e t name (f_ListenIp f)) w (pause_one e f w)"
proof -
  let ?w1 = "snd (pause_main e (t_InNodeId t) name (f_ListenIp f) w)"
  let ?w2 = "if t_Type t = 2 then snd (PauseRemoteService e (t_OutNodeId t) name ?w1) else ?w1"
  have r: "sent_new (if t_Type t = 2 \<and> nodeSessions e (t_OutNodeId t)
      then {(t_OutNodeId t, PauseService_msg [name @ ''_tls''])} else {}) ?w1 ?w2"
    using sent_new_SendMsg [of e "t_OutNodeId t" "PauseService_msg [name @ ''_tls'']" ?w1] sent_new_refl [of ?w1 ?w1]
    by (auto simp: PauseRemoteService_def)
  have "pause_one e f w = db_exec e (set_forward (f_ID f) (\<lambda>f. f\<lparr>f_Status := forwardStatusPaused\<rparr>)) ?w2"
    using assms by (simp add: pause_one_def panel_consts Let_def)
  with sent_new_trans [OF sent_new_trans [OF sent_new_pause_main r] sent_new_exec] show ?thesis
    by (simp add: pause_commands_def)
qed

lemma sent_new_pause_any: "sent_new {} w (pause_one e f w)"
proof (cases "f_Status f \<noteq> 0 \<and> firstTunnel (wdb w) (f_TunnelId f) \<noteq> None")
  case True
  then obtain t where "f_Status f \<noteq> 0" "firstTunnel (wdb w) (f_TunnelId f) = Some t" by auto
  from sent_new_pause_one [OF this refl] show ?thesis by (auto simp: sent_new_def)
next
  case False
  then have "pause_one e f w = w" by (auto simp: pause_one_def panel_consts)
  then show ?thesis by (simp add: sent_new_refl)
qed

text \<open>Pausing a list sends the commands of each of its running forwards.\<close>

lemma sent_new_pause:
  assumes "db_ok e = (\<lambda>_. True)"
  shows "sent_new {} w (pauseForwardServices e fs w)"
    and "f \<in> set fs \<Longrightarrow> f_Status f \<noteq> 0 \<Longrightarrow> firstTunnel (wdb w) (f_TunnelId f) = Some t \<Longrightarrow>
      sent_new (pause_commands e t (buildServiceName (f_ID f) (f_UserId f)
        (getUserTunnel (wdb w) (f_UserId f) (f_TunnelId f))) (f_ListenIp f)) w (pauseForwardServices e fs w)"
proof -
  have any: "sent_new {} w (pauseForwardServices e fs w)" for fs w
  proof (induction fs arbitrary: w)
    case (Cons f fs)
    from sent_new_trans [OF sent_new_pause_any [of w e f] Cons] show ?case by (simp add: pauseForwardServices_def)
  qed (simp add: pauseForwardServices_def sent_new_refl)
  then show "sent_new {} w (pauseForwardServices e fs w)" .
  show "f \<in> set fs \<Longrightarrow> f_Status f \<noteq> 0 \<Longrightarrow> firstTunnel (wdb w) (f_TunnelId f) = Some t \<Longrightarrow>
      sent_new (pause_commands e t (buildServiceName (f_ID f) (f_UserId f)
        (getUserTunnel (wdb w) (f_UserId f) (f_TunnelId f))) (f_ListenIp f)) w (pauseForwardServices e fs w)"
  proof (induction fs arbitrary: w)
    case (Cons g fs)
    have same: "firstTunnel (wdb (pause_one e g w)) = firstTunnel (wdb w)"
      "getUserTunnel (wdb (pause_one e g w)) = getUserTunnel (wdb w)"
      by (intro ext, simp add: pause_one_db [OF assms] firstTunnel_def getUserTunnel_def set_forward_def)+
    have step: "pauseForwardServices e (g # fs) w = pauseForwardServices e fs (pause_one e g w)"
      by (simp add: pauseForwardServices_def)
    show ?case
    proof (cases "f = g")
      case True
      from sent_new_trans [OF sent_new_pause_one [OF Cons.prems(2,3) refl] any] show ?thesis
        by (simp add: step True)
    next
      case False
      then have "f \<in> set fs" using Cons.prems(1) by simp
      from sent_new_trans [OF sent_new_pause_any Cons.IH [OF this Cons.prems(2), of "pause_one e g w"]] Cons.prems(3)
      show ?thesis by (simp add: step same)
    qed
  qed simp
qed

text \<open>C6: Enforcement. When the database accepts the writes, a report leaves nothing on a tunnel running
  behind a limit. Let forward \<open>x\<close> of the reported user be on a tunnel, and let the user after the report
  be over the flow limit, expired or not active, or the reported permission, on the tunnel of \<open>x\<close>, be.
  Then all forwards of the user on that tunnel are stored as paused, and if \<open>x\<close> was running, the
  commands that pause its services were sent to the entry node and, on a tunnel with an exit, to the
  exit node. Forwards on routes are not on a tunnel; the code does not stop them.\<close>

theorem flow_report_enforces:
  assumes "db_ok e = (\<lambda>_. True)"
    and "fl_N rep = buildServiceName k u (Some ut) @ rest" and "rest = [] \<or> hd rest = CHR ''_''"
    and "int64 k" and "int64 u" and "int64 (ut_ID ut)" and "ut_ID ut \<noteq> 0"
    and "firstForward (wdb w) k = Some f" and "w' = processFlowData e other rep w"
    and "x \<in> set (forwards (wdb w))" and "f_UserId x = u"
    and "firstTunnel (wdb w) (f_TunnelId x) = Some t"
    and "(\<exists>y. firstUser (wdb w') u = Some y \<and> user_over_limit e y) \<or>
         (\<exists>y. firstUserTunnel (wdb w') (ut_ID ut) = Some y \<and> permission_over_limit e y \<and>
            ut_TunnelId y = f_TunnelId x)"
  shows "(\<forall>g \<in> set (forwards (wdb w')). f_UserId g = u \<and> f_TunnelId g = f_TunnelId x \<longrightarrow> f_Status g = 0) \<and>
    (f_Status x \<noteq> 0 \<longrightarrow> sent_new (pause_commands e t (buildServiceName (f_ID x) u
       (getUserTunnel (wdb w) u (f_TunnelId x))) (f_ListenIp x)) w w')"
proof -
  obtain c r where rate: "flow_rate (wdb w) f = (c, r)" by (cases "flow_rate (wdb w) f")
  define w1 where "w1 = add_flows e k u (ut_ID ut) (scaled_flow (fl_D rep) r c)
      (scaled_flow (fl_U rep) r c) w"
  define w2 where "w2 = checkUserLimits e u w1"
  have w': "w' = checkUserTunnelLimits e (ut_ID ut) u w2"
    unfolding assms(9) w2_def w1_def by (rule processFlowData_named [OF assms(2-8) rate])
  have one: "wsent w1 = wsent w" "tunnels (wdb w1) = tunnels (wdb w)"
    by (simp_all add: w1_def add_flows_def db_exec_def db_write_def Let_def set_forward_def)
  obtain x1 where x1: "x1 \<in> set (forwards (wdb w1))" "f_ID x1 = f_ID x" "f_UserId x1 = u"
    "f_TunnelId x1 = f_TunnelId x" "f_Status x1 = f_Status x" "f_ListenIp x1 = f_ListenIp x"
  proof
    let ?g = "\<lambda>f. f\<lparr>f_InFlow := f_InFlow f + scaled_flow (fl_D rep) r c, f_OutFlow := f_OutFlow f + scaled_flow (fl_U rep) r c\<rparr>"
    have "forwards (wdb w1) = update_where (\<lambda>f. f_ID f = k) ?g (forwards (wdb w))"
      by (simp add: w1_def add_flows_def db_exec_ok [OF assms(1)] Let_def set_forward_def)
    then show "(if f_ID x = k then ?g x else x) \<in> set (forwards (wdb w1))"
      using assms(10) by (auto simp: set_update_where)
  qed (use assms(11) in simp_all)
  have name: "buildServiceName i u (getUserTunnel (wdb w1) u j) = buildServiceName i u (getUserTunnel (wdb w) u j)" for i j
  proof -
    let ?p = "\<lambda>ut. ut_UserId ut = u \<and> ut_TunnelId ut = j"
    have "map_option ut_ID (first_where ?p (update_where q (\<lambda>y. y\<lparr>ut_InFlow := ut_InFlow y + d, ut_OutFlow := ut_OutFlow y + o'\<rparr>) uts)) =
        map_option ut_ID (first_where ?p uts)" for q d o' uts
      by (induction uts) (auto simp: first_where_def update_where_def)
    then have "map_option ut_ID (getUserTunnel (wdb w1) u j) = map_option ut_ID (getUserTunnel (wdb w) u j)"
      using assms(7) by (simp add: w1_def add_flows_def db_exec_ok [OF assms(1)] Let_def set_forward_def getUserTunnel_def)
    then show ?thesis by (auto simp: buildServiceName_def split: option.splits)
  qed
  let ?C = "pause_commands e t (buildServiceName (f_ID x) u (getUserTunnel (wdb w) u (f_TunnelId x))) (f_ListenIp x)"
  have t1: "firstTunnel (wdb w1) (f_TunnelId x1) = Some t" using assms(12) by (simp add: firstTunnel_def one x1)
  have sent: "sent_new ?C w (pauseForwardServices e fs w1)" if "x1 \<in> set fs" "f_Status x \<noteq> 0" for fs
  proof -
    have "f_Status x1 \<noteq> 0" using that x1 by simp
    from sent_new_pause(2) [OF assms(1) that(1) this t1] show ?thesis
      by (simp add: sent_new_def one x1 name)
  qed
  have tunnels: "tunnels (wdb w') = tunnels (wdb w)"
    unfolding w' w2_def checkUserLimits_def pauseAllUserServices_def
    by (simp add: limits_tables(1) [OF assms(1)] one pauseForwardServices_db [OF assms(1)] split: option.split)
  have rest: "sent_new {} w2 w'"
    unfolding w' checkUserTunnelLimits_def pauseSpecificForward_def
    by (auto split: option.split intro!: sent_new_pause(1) [OF assms(1)] sent_new_refl)
  have "f_Status x \<noteq> 0 \<Longrightarrow> sent_new ?C w w'"
  proof (cases "w2 = pauseAllUserServices e u w1")
    case True
    assume "f_Status x \<noteq> 0"
    with True have "sent_new ?C w w2" using sent x1 by (simp add: pauseAllUserServices_def find_where_def)
    from sent_new_trans [OF this rest] show ?thesis by simp
  next
    case False
    assume run: "f_Status x \<noteq> 0"
    have w2: "w2 = w1" using False by (auto simp: w2_def checkUserLimits_def split: option.splits if_splits)
    have "\<not> (\<exists>y. firstUser (wdb w') u = Some y \<and> user_over_limit e y)"
      using False unfolding w' w2_def checkUserLimits_def
      by (auto simp: firstUser_def limits_counts [OF assms(1)] split: option.splits)
    with assms(13) obtain y where y: "firstUserTunnel (wdb w') (ut_ID ut) = Some y" "permission_over_limit e y"
      "ut_TunnelId y = f_TunnelId x" by blast
    have "firstUserTunnel (wdb w2) (ut_ID ut) = Some y"
      using y(1) unfolding w' by (simp add: firstUserTunnel_def limits_counts [OF assms(1)])
    then have "w' = pauseSpecificForward e (f_TunnelId x) u w1" using y by (simp add: w' w2 checkUserTunnelLimits_def)
    then show ?thesis using sent [OF _ run] x1 by (simp add: pauseSpecificForward_def find_where_def)
  qed
  moreover have "f_Status g = 0" if "g \<in> set (forwards (wdb w'))" "f_UserId g = u" "f_TunnelId g = f_TunnelId x" for g
    using report_stops [OF assms(1-9) that(1,2)] assms(12,13) that(3) tunnels by (simp add: firstTunnel_def)
  ultimately show ?thesis by blast
qed

text \<open>The same panel with the user disabled.\<close>

definition disabled_world :: "unit world" where
  "disabled_world = busy_world\<lparr>wdb := users_update (map (\<lambda>u. u\<lparr>u_Status := 0\<rparr>)) (wdb busy_world)\<rparr>"

lemma sample_report_run:
  assumes "firstForward (wdb w) 10 = Some f" and "flow_rate (wdb w) f = (2, 1)"
  shows "processFlowData sample_env (\<lambda>w. w) sample_report w =
    checkUserTunnelLimits sample_env 2 2 (checkUserLimits sample_env 2
      (add_flows sample_env 10 2 2 60 14 w))"
proof -
  have rest: "''_tcp'' = [] \<or> hd ''_tcp'' = CHR ''_''" by simp
  have s: "scaled_flow 30 1 2 = 60" "scaled_flow 7 1 2 = 14"
    using scaled_flow_exact [of 30 1 2] scaled_flow_exact [of 7 1 2] by simp_all
  from processFlowData_named [OF sample_report_name rest _ _ _ _ assms, of sample_env "\<lambda>w. w"] s
  show ?thesis by (simp add: int64_def sample_permission_def sample_report_def)
qed

lemma disabled_run:
  "processFlowData sample_env (\<lambda>w. w) sample_report disabled_world =
    checkUserTunnelLimits sample_env 2 2 (checkUserLimits sample_env 2
      (add_flows sample_env 10 2 2 60 14 disabled_world))"
proof -
  have "map_option (flow_rate (wdb disabled_world)) (firstForward (wdb disabled_world) 10) = Some (2, 1)"
    by code_simp
  then show ?thesis using sample_report_run by (cases "firstForward (wdb disabled_world) 10") auto
qed

lemma disabled_rows:
  "map_option u_Status (firstUser (wdb (processFlowData sample_env (\<lambda>w. w) sample_report
     disabled_world)) 2) = Some 0"
  "map (\<lambda>f. (f_UserId f, f_TunnelId f)) (forwards (wdb (processFlowData sample_env
     (\<lambda>w. w) sample_report disabled_world))) = [(2, 2)]"
  unfolding disabled_run by code_simp+

lemma disabled_forward:
  "map (\<lambda>f. (f_ID f, f_UserId f, f_TunnelId f, f_Status f, f_ListenIp f)) (forwards (wdb disabled_world)) = [(10, 2, 2, 1, [])]"
  "firstTunnel (wdb disabled_world) 2 = Some (sample_tunnel 2 2 2)"
  "map_option ut_ID (getUserTunnel (wdb disabled_world) 2 2) = Some 2"
  by code_simp+

theorem flow_report_enforces_witness:
  "map f_Status (forwards (wdb disabled_world)) = [1] \<and>
   map f_Status (forwards (wdb (processFlowData sample_env (\<lambda>w. w) sample_report disabled_world))) = [0] \<and>
   {(1, PauseService_msg [''10_2_2_tcp'', ''10_2_2_udp'']), (2, PauseService_msg [''10_2_2_tls''])} \<subseteq>
     set (wsent (processFlowData sample_env (\<lambda>w. w) sample_report disabled_world))"
proof -
  let ?w' = "processFlowData sample_env (\<lambda>w. w) sample_report disabled_world"
  from disabled_forward(1) obtain x where x: "forwards (wdb disabled_world) = [x]" "f_ID x = 10" "f_UserId x = 2"
    "f_TunnelId x = 2" "f_Status x = 1" "f_ListenIp x = []" by auto
  then have f: "firstForward (wdb disabled_world) 10 = Some x" by (simp add: firstForward_def first_where_def)
  have ok: "db_ok sample_env = (\<lambda>_. True)" by (simp add: sample_env_def)
  have rest: "''_tcp'' = [] \<or> hd ''_tcp'' = CHR ''_''" by simp
  have ids: "int64 10" "int64 2" "int64 (ut_ID (sample_permission 2))" "ut_ID (sample_permission 2) \<noteq> 0"
    by (simp_all add: int64_def sample_permission_def)
  from disabled_rows(1) obtain y where y: "firstUser (wdb ?w') 2 = Some y" "u_Status y = 0"
    by (cases "firstUser (wdb ?w') 2") auto
  then have over: "(\<exists>y. firstUser (wdb ?w') 2 = Some y \<and> user_over_limit sample_env y) \<or>
         (\<exists>y. firstUserTunnel (wdb ?w') (ut_ID (sample_permission 2)) = Some y \<and>
            permission_over_limit sample_env y \<and> ut_TunnelId y = f_TunnelId x)"
    by (simp add: user_over_limit_def)
  have t: "firstTunnel (wdb disabled_world) (f_TunnelId x) = Some (sample_tunnel 2 2 2)"
    using disabled_forward(2) x by simp
  have mem: "x \<in> set (forwards (wdb disabled_world))" using x(1) by simp
  note props = flow_report_enforces [where other = "\<lambda>w. w", OF ok sample_report_name rest ids f refl mem x(3) t over]
  from disabled_rows(2) obtain g where g: "forwards (wdb ?w') = [g]" "f_UserId g = 2" "f_TunnelId g = 2"
    by (auto simp: Cons_eq_map_conv)
  then have "f_Status g = 0" using props x by simp
  moreover have name: "buildServiceName 10 2 (getUserTunnel (wdb disabled_world) 2 2) = ''10_2_2''"
  proof -
    have "itoa 10 = ''10''" "itoa 2 = ''2''" by code_simp+
    then show ?thesis using disabled_forward(3) by (auto simp: buildServiceName_def)
  qed
  moreover have "pause_commands sample_env (sample_tunnel 2 2 2) ''10_2_2'' [] =
      {(1, PauseService_msg [''10_2_2_tcp'', ''10_2_2_udp'']), (2, PauseService_msg [''10_2_2_tls''])}"
    by (simp add: pause_commands_def sample_env_def sample_tunnel_def multi_ip_def insert_commute)
  moreover have "f_Status x \<noteq> 0" using x(5) by simp
  from mp [OF conjunct2 [OF props] this] have "sent_new (pause_commands sample_env (sample_tunnel 2 2 2)
      (buildServiceName 10 2 (getUserTunnel (wdb disabled_world) 2 2)) []) disabled_world ?w'"
    unfolding x .
  ultimately have "sent_new {(1, PauseService_msg [''10_2_2_tcp'', ''10_2_2_udp'']), (2, PauseService_msg [''10_2_2_tls''])}
      disabled_world ?w'" and st: "f_Status g = 0" by (simp_all only:)
  then obtain ms where ms: "wsent ?w' = wsent disabled_world @ ms"
    "{(1, PauseService_msg [''10_2_2_tcp'', ''10_2_2_udp'']), (2, PauseService_msg [''10_2_2_tls''])} \<subseteq> set ms"
    unfolding sent_new_def by (elim exE conjE)
  have "set ms \<subseteq> set (wsent ?w')" unfolding ms(1) set_append by (rule Un_upper2)
  with ms(2) have new: "{(1, PauseService_msg [''10_2_2_tcp'', ''10_2_2_udp'']), (2, PauseService_msg [''10_2_2_tls''])} \<subseteq> set (wsent ?w')"
    by (rule subset_trans)
  have "map f_Status (forwards (wdb disabled_world)) = [1]" "map f_Status (forwards (wdb ?w')) = [0]"
    using x(1,5) g(1) st by simp_all
  with new show ?thesis by (intro conjI)
qed

end
