(* ===== verification/Reset_Flow.thy ===== *)
theory Reset_Flow
  imports Flow Sample
begin

text \<open>
  The daily task of task/reset_flow.go: periodic resets of the traffic counters and the
  disabling of expired users and permissions. The calendar is an argument: the day of the
  month, the weekday (0 is Sunday) and the number of days of the month.
\<close>

record calendar =
  dayOfMonth :: int
  dayOfWeek :: int
  daysInMonth :: int

text \<open>The two \<open>WHERE\<close> clauses.\<close>

definition monthly_due :: "calendar \<Rightarrow> int \<Rightarrow> int \<Rightarrow> int \<Rightarrow> bool" where
  "monthly_due c resetType status resetDay \<longleftrightarrow> resetType = 1 \<and> status = 1 \<and>
     (resetDay = dayOfMonth c \<or> (resetDay > daysInMonth c \<and> dayOfMonth c = daysInMonth c))"

definition weekly_due :: "calendar \<Rightarrow> int \<Rightarrow> int \<Rightarrow> int \<Rightarrow> bool" where
  "weekly_due c resetType status resetDay \<longleftrightarrow> resetType = 2 \<and> status = 1 \<and> resetDay = dayOfWeek c"

definition reset_user :: "'n env \<Rightarrow> User \<Rightarrow> 'n world \<Rightarrow> 'n world" where
  "reset_user e user = db_exec e (users_update (update_where (\<lambda>u. u_ID u = u_ID user)
     (\<lambda>u. u\<lparr>u_InFlow := 0, u_OutFlow := 0, u_XrayInFlow := 0, u_XrayOutFlow := 0\<rparr>)))"

definition reset_permission :: "'n env \<Rightarrow> UserTunnel \<Rightarrow> 'n world \<Rightarrow> 'n world" where
  "reset_permission e ut = db_exec e (user_tunnels_update (update_where (\<lambda>x. ut_ID x = ut_ID ut)
     (\<lambda>x. x\<lparr>ut_InFlow := 0, ut_OutFlow := 0\<rparr>)))"

text \<open>\<open>pauseSingleForward\<close>; a missing permission row leaves the zero id.\<close>

definition pauseSingleForward :: "'n env \<Rightarrow> Forward \<Rightarrow> 'n world \<Rightarrow> 'n world" where
  "pauseSingleForward e fwd w =
     (case firstTunnel (wdb w) (f_TunnelId fwd) of
        None \<Rightarrow> w
      | Some tunnel \<Rightarrow>
          (case GetNodeById (wdb w) (t_InNodeId tunnel) of
             None \<Rightarrow> w
           | Some inNode \<Rightarrow>
               (let serviceName = buildServiceName (f_ID fwd) (f_UserId fwd)
                      (getUserTunnel (wdb w) (f_UserId fwd) (t_ID tunnel));
                    w1 = snd (pause_main e (n_ID inNode) serviceName (f_ListenIp fwd) w);
                    w2 = (if t_Type tunnel = 2 then
                            (case GetNodeById (wdb w1) (t_OutNodeId tunnel) of
                               None \<Rightarrow> w1
                             | Some outNode \<Rightarrow>
                                 snd (PauseRemoteService e (n_ID outNode) serviceName w1))
                          else w1)
                in db_exec e (set_forward (f_ID fwd) (\<lambda>f. f\<lparr>f_Status := 0\<rparr>)) w2)))"

definition pauseUserForwards :: "'n env \<Rightarrow> int \<Rightarrow> 'n world \<Rightarrow> 'n world" where
  "pauseUserForwards e userId w = fold (pauseSingleForward e)
     (find_where (\<lambda>f. f_UserId f = userId \<and> f_Status f = 1) (forwards (wdb w))) w"

definition pauseUserTunnelForwards :: "'n env \<Rightarrow> int \<Rightarrow> int \<Rightarrow> 'n world \<Rightarrow> 'n world" where
  "pauseUserTunnelForwards e userId tunnelId w = fold (pauseSingleForward e)
     (find_where (\<lambda>f. f_UserId f = userId \<and> f_TunnelId f = tunnelId \<and> f_Status f = 1)
       (forwards (wdb w))) w"

definition expire_user :: "'n env \<Rightarrow> User \<Rightarrow> 'n world \<Rightarrow> 'n world" where
  "expire_user e user w = db_exec e (users_update (update_where (\<lambda>u. u_ID u = u_ID user)
     (\<lambda>u. u\<lparr>u_Status := 0\<rparr>))) (pauseUserForwards e (u_ID user) w)"

definition expire_permission :: "'n env \<Rightarrow> UserTunnel \<Rightarrow> 'n world \<Rightarrow> 'n world" where
  "expire_permission e ut w = db_exec e (user_tunnels_update (update_where (\<lambda>x. ut_ID x = ut_ID ut)
     (\<lambda>x. x\<lparr>ut_Status := 0\<rparr>))) (pauseUserTunnelForwards e (ut_UserId ut) (ut_TunnelId ut) w)"

definition user_expired :: "'n env \<Rightarrow> User \<Rightarrow> bool" where
  "user_expired e u \<longleftrightarrow> u_ExpTime u > 0 \<and> u_ExpTime u \<le> now e \<and> u_Status u = 1"

definition permission_expired :: "'n env \<Rightarrow> UserTunnel \<Rightarrow> bool" where
  "permission_expired e ut \<longleftrightarrow> ut_ExpTime ut > 0 \<and> ut_ExpTime ut \<le> now e \<and> ut_Status ut = 1"

definition users_to_reset :: "calendar \<Rightarrow> db \<Rightarrow> User list" where
  "users_to_reset c d =
     find_where (\<lambda>u. monthly_due c (u_FlowResetType u) (u_Status u) (u_FlowResetDay u)) (users d) @
     find_where (\<lambda>u. weekly_due c (u_FlowResetType u) (u_Status u) (u_FlowResetDay u)) (users d)"

definition permissions_to_reset :: "calendar \<Rightarrow> db \<Rightarrow> UserTunnel list" where
  "permissions_to_reset c d =
     find_where (\<lambda>x. monthly_due c (ut_FlowResetType x) (ut_Status x) (ut_FlowResetDay x))
       (user_tunnels d) @
     find_where (\<lambda>x. weekly_due c (ut_FlowResetType x) (ut_Status x) (ut_FlowResetDay x))
       (user_tunnels d)"

definition resetFlow :: "'n env \<Rightarrow> calendar \<Rightarrow> 'n world \<Rightarrow> 'n world" where
  "resetFlow e c w =
     (let w1 = fold (reset_user e) (users_to_reset c (wdb w)) w;
          w2 = fold (reset_permission e) (permissions_to_reset c (wdb w1)) w1;
          w3 = fold (expire_user e) (find_where (user_expired e) (users (wdb w2))) w2
      in fold (expire_permission e) (find_where (permission_expired e) (user_tunnels (wdb w3))) w3)"

section \<open>Once a month\<close>

text \<open>Property: A monthly reset falls on exactly one day of every month, whatever the length of the
  month: a reset day past the end of the month counts as its last day.\<close>

theorem monthly_once:
  assumes "1 \<le> resetDay" and "1 \<le> n"
  shows "\<exists>!day. 1 \<le> day \<and> day \<le> n \<and>
     monthly_due \<lparr>dayOfMonth = day, dayOfWeek = wd, daysInMonth = n\<rparr> 1 1 resetDay"
proof (cases "resetDay \<le> n")
  case True
  then show ?thesis using assms by (auto simp: monthly_due_def)
next
  case False
  then show ?thesis using assms by (auto simp: monthly_due_def)
qed

theorem monthly_once_witness:
  "\<exists>!day. 1 \<le> day \<and> day \<le> 28 \<and>
     monthly_due \<lparr>dayOfMonth = day, dayOfWeek = 3, daysInMonth = 28\<rparr> 1 1 31"
  by (rule monthly_once) simp_all

section \<open>The whole run\<close>

definition user_due :: "calendar \<Rightarrow> User \<Rightarrow> bool" where
  "user_due c u \<longleftrightarrow> monthly_due c (u_FlowResetType u) (u_Status u) (u_FlowResetDay u) \<or>
     weekly_due c (u_FlowResetType u) (u_Status u) (u_FlowResetDay u)"

definition permission_due :: "calendar \<Rightarrow> UserTunnel \<Rightarrow> bool" where
  "permission_due c x \<longleftrightarrow> monthly_due c (ut_FlowResetType x) (ut_Status x) (ut_FlowResetDay x) \<or>
     weekly_due c (ut_FlowResetType x) (ut_Status x) (ut_FlowResetDay x)"

lemma pauseSingle_tables:
  "users (wdb (pauseSingleForward e f w)) = users (wdb w)"
  "user_tunnels (wdb (pauseSingleForward e f w)) = user_tunnels (wdb w)"
proof -
  have x: "users (wdb (db_exec e (set_forward k g) w)) = users (wdb w)"
    "user_tunnels (wdb (db_exec e (set_forward k g) w)) = user_tunnels (wdb w)" for k g w
    using db_exec_db [of e "set_forward k g" w] by (auto simp: set_forward_def)
  show "users (wdb (pauseSingleForward e f w)) = users (wdb w)"
    "user_tunnels (wdb (pauseSingleForward e f w)) = user_tunnels (wdb w)"
    by (auto simp: pauseSingleForward_def Let_def x frame_simps split: option.split)
qed

lemma pause_fold_tables:
  "users (wdb (fold (pauseSingleForward e) fs w)) = users (wdb w)"
  "user_tunnels (wdb (fold (pauseSingleForward e) fs w)) = user_tunnels (wdb w)"
  by (induction fs arbitrary: w) (simp_all add: pauseSingle_tables)

lemma reset_users_fold:
  assumes ok: "db_ok e = (\<lambda>_. True)"
  shows "users (wdb (fold (reset_user e) us w)) =
     map (\<lambda>u. if u_ID u \<in> set (map u_ID us)
       then u\<lparr>u_InFlow := 0, u_OutFlow := 0, u_XrayInFlow := 0, u_XrayOutFlow := 0\<rparr> else u) (users (wdb w))"
    and "user_tunnels (wdb (fold (reset_user e) us w)) = user_tunnels (wdb w)"
proof -
  have "users (wdb (fold (reset_user e) us w)) = fold (\<lambda>k. update_where (\<lambda>u. u_ID u = k)
      (\<lambda>u. u\<lparr>u_InFlow := 0, u_OutFlow := 0, u_XrayInFlow := 0, u_XrayOutFlow := 0\<rparr>)) (map u_ID us)
      (users (wdb w))"
    by (induction us arbitrary: w) (simp_all add: reset_user_def db_exec_ok [OF ok])
  then show "users (wdb (fold (reset_user e) us w)) =
     map (\<lambda>u. if u_ID u \<in> set (map u_ID us)
       then u\<lparr>u_InFlow := 0, u_OutFlow := 0, u_XrayInFlow := 0, u_XrayOutFlow := 0\<rparr> else u) (users (wdb w))"
    by (simp add: fold_update_where)
  show "user_tunnels (wdb (fold (reset_user e) us w)) = user_tunnels (wdb w)"
    by (induction us arbitrary: w) (simp_all add: reset_user_def db_exec_ok [OF ok])
qed

lemma reset_permissions_fold:
  assumes ok: "db_ok e = (\<lambda>_. True)"
  shows "user_tunnels (wdb (fold (reset_permission e) us w)) =
     map (\<lambda>x. if ut_ID x \<in> set (map ut_ID us) then x\<lparr>ut_InFlow := 0, ut_OutFlow := 0\<rparr> else x)
       (user_tunnels (wdb w))"
    and "users (wdb (fold (reset_permission e) us w)) = users (wdb w)"
proof -
  have "user_tunnels (wdb (fold (reset_permission e) us w)) = fold (\<lambda>k. update_where (\<lambda>x. ut_ID x = k)
      (\<lambda>x. x\<lparr>ut_InFlow := 0, ut_OutFlow := 0\<rparr>)) (map ut_ID us) (user_tunnels (wdb w))"
    by (induction us arbitrary: w) (simp_all add: reset_permission_def db_exec_ok [OF ok])
  then show "user_tunnels (wdb (fold (reset_permission e) us w)) =
     map (\<lambda>x. if ut_ID x \<in> set (map ut_ID us) then x\<lparr>ut_InFlow := 0, ut_OutFlow := 0\<rparr> else x)
       (user_tunnels (wdb w))"
    by (simp add: fold_update_where)
  show "users (wdb (fold (reset_permission e) us w)) = users (wdb w)"
    by (induction us arbitrary: w) (simp_all add: reset_permission_def db_exec_ok [OF ok])
qed

lemma expire_users_fold:
  assumes ok: "db_ok e = (\<lambda>_. True)"
  shows "users (wdb (fold (expire_user e) us w)) =
     map (\<lambda>u. if u_ID u \<in> set (map u_ID us) then u\<lparr>u_Status := 0\<rparr> else u) (users (wdb w))"
    and "user_tunnels (wdb (fold (expire_user e) us w)) = user_tunnels (wdb w)"
proof -
  have "users (wdb (fold (expire_user e) us w)) = fold (\<lambda>k. update_where (\<lambda>u. u_ID u = k)
      (\<lambda>u. u\<lparr>u_Status := 0\<rparr>)) (map u_ID us) (users (wdb w))"
    by (induction us arbitrary: w)
       (simp_all add: expire_user_def pauseUserForwards_def pause_fold_tables db_exec_ok [OF ok])
  then show "users (wdb (fold (expire_user e) us w)) =
     map (\<lambda>u. if u_ID u \<in> set (map u_ID us) then u\<lparr>u_Status := 0\<rparr> else u) (users (wdb w))"
    by (simp add: fold_update_where)
  show "user_tunnels (wdb (fold (expire_user e) us w)) = user_tunnels (wdb w)"
    by (induction us arbitrary: w)
       (simp_all add: expire_user_def pauseUserForwards_def pause_fold_tables db_exec_ok [OF ok])
qed

lemma expire_permissions_fold:
  assumes ok: "db_ok e = (\<lambda>_. True)"
  shows "user_tunnels (wdb (fold (expire_permission e) us w)) =
     map (\<lambda>x. if ut_ID x \<in> set (map ut_ID us) then x\<lparr>ut_Status := 0\<rparr> else x) (user_tunnels (wdb w))"
    and "users (wdb (fold (expire_permission e) us w)) = users (wdb w)"
proof -
  have "user_tunnels (wdb (fold (expire_permission e) us w)) = fold (\<lambda>k. update_where (\<lambda>x. ut_ID x = k)
      (\<lambda>x. x\<lparr>ut_Status := 0\<rparr>)) (map ut_ID us) (user_tunnels (wdb w))"
    by (induction us arbitrary: w)
       (simp_all add: expire_permission_def pauseUserTunnelForwards_def pause_fold_tables
         db_exec_ok [OF ok])
  then show "user_tunnels (wdb (fold (expire_permission e) us w)) =
     map (\<lambda>x. if ut_ID x \<in> set (map ut_ID us) then x\<lparr>ut_Status := 0\<rparr> else x) (user_tunnels (wdb w))"
    by (simp add: fold_update_where)
  show "users (wdb (fold (expire_permission e) us w)) = users (wdb w)"
    by (induction us arbitrary: w)
       (simp_all add: expire_permission_def pauseUserTunnelForwards_def pause_fold_tables
         db_exec_ok [OF ok])
qed

text \<open>C7: Against a database that accepts every write, one run of the daily task does to every
  account exactly what the schedule says: the four counters are zeroed iff the monthly or weekly
  reset is due today, and the account is disabled iff it has expired; the permissions
  (user-tunnel rows) likewise. Nothing else in the two tables changes, whatever the nodes answer
  to the pause commands sent on the way.\<close>

theorem reset_flow_tables:
  assumes ok: "db_ok e = (\<lambda>_. True)"
    and uu: "distinct (map u_ID (users (wdb w)))"
    and pu: "distinct (map ut_ID (user_tunnels (wdb w)))"
  shows "users (wdb (resetFlow e c w)) = map (\<lambda>u.
      let u' = (if user_due c u then u\<lparr>u_InFlow := 0, u_OutFlow := 0, u_XrayInFlow := 0, u_XrayOutFlow := 0\<rparr>
                else u)
      in if user_expired e u then u'\<lparr>u_Status := 0\<rparr> else u') (users (wdb w)) \<and>
    user_tunnels (wdb (resetFlow e c w)) = map (\<lambda>x.
      let x' = (if permission_due c x then x\<lparr>ut_InFlow := 0, ut_OutFlow := 0\<rparr> else x)
      in if permission_expired e x then x'\<lparr>ut_Status := 0\<rparr> else x') (user_tunnels (wdb w))"
proof -
  let ?zu = "\<lambda>u. if user_due c u then u\<lparr>u_InFlow := 0, u_OutFlow := 0, u_XrayInFlow := 0, u_XrayOutFlow := 0\<rparr>
    else u"
  let ?zp = "\<lambda>x. if permission_due c x then x\<lparr>ut_InFlow := 0, ut_OutFlow := 0\<rparr> else x"
  define w1 where "w1 = fold (reset_user e) (users_to_reset c (wdb w)) w"
  define w2 where "w2 = fold (reset_permission e) (permissions_to_reset c (wdb w1)) w1"
  define w3 where "w3 = fold (expire_user e) (find_where (user_expired e) (users (wdb w2))) w2"
  have out: "resetFlow e c w =
      fold (expire_permission e) (find_where (permission_expired e) (user_tunnels (wdb w3))) w3"
    by (simp add: resetFlow_def Let_def w1_def w2_def w3_def)
  have u1: "users (wdb w1) = map ?zu (users (wdb w))"
    by (auto simp: w1_def reset_users_fold [OF ok] users_to_reset_def user_due_def
        key_selected [OF uu, unfolded set_map] simp del: set_find_where)
  have p1: "user_tunnels (wdb w1) = user_tunnels (wdb w)"
    by (simp add: w1_def reset_users_fold [OF ok])
  have p2: "user_tunnels (wdb w2) = map ?zp (user_tunnels (wdb w))"
    by (auto simp: w2_def p1 reset_permissions_fold [OF ok] permissions_to_reset_def permission_due_def
        key_selected [OF pu, unfolded set_map] simp del: set_find_where)
  have u2: "users (wdb w2) = map ?zu (users (wdb w))"
    by (simp add: w2_def u1 reset_permissions_fold [OF ok])
  have d2: "distinct (map u_ID (users (wdb w2)))"
    using uu by (simp add: u2 comp_def if_distrib cong: if_cong)
  have p3: "user_tunnels (wdb w3) = map ?zp (user_tunnels (wdb w))"
    by (simp add: w3_def p2 expire_users_fold [OF ok])
  have d3: "distinct (map ut_ID (user_tunnels (wdb w3)))"
    using pu by (simp add: p3 comp_def if_distrib cong: if_cong)
  have u3: "users (wdb w3) = map (\<lambda>u. if user_expired e u then u\<lparr>u_Status := 0\<rparr> else u) (users (wdb w2))"
    unfolding w3_def expire_users_fold(1) [OF ok]
    by (rule map_cong [OF refl]) (simp only: key_selected [OF d2])
  have p4: "user_tunnels (wdb (resetFlow e c w)) =
      map (\<lambda>x. if permission_expired e x then x\<lparr>ut_Status := 0\<rparr> else x) (user_tunnels (wdb w3))"
    unfolding out expire_permissions_fold(1) [OF ok]
    by (rule map_cong [OF refl]) (simp only: key_selected [OF d3])
  have u4: "users (wdb (resetFlow e c w)) = users (wdb w3)"
    by (simp add: out expire_permissions_fold [OF ok])
  show ?thesis
    by (auto simp: u4 u3 u2 p4 p3 user_expired_def permission_expired_def Let_def)
qed

text \<open>The sample panel on the 28th of a short month, user 2 due on the 31st and expired.\<close>

definition due_user :: User where
  "due_user = (sample_user 2 1)\<lparr>u_FlowResetType := 1, u_FlowResetDay := 31, u_InFlow := 7, u_ExpTime := 900\<rparr>"

definition due_world :: "unit world" where
  "due_world = busy_world\<lparr>wdb := (wdb busy_world)\<lparr>users := [sample_user 1 0, due_user]\<rparr>\<rparr>"

theorem reset_flow_tables_witness:
  "users (wdb (resetFlow sample_env \<lparr>dayOfMonth = 28, dayOfWeek = 3, daysInMonth = 28\<rparr> due_world)) =
     [sample_user 1 0, due_user\<lparr>u_InFlow := 0, u_OutFlow := 0, u_XrayInFlow := 0,
        u_XrayOutFlow := 0, u_Status := 0\<rparr>]"
proof -
  have ok: "db_ok sample_env = (\<lambda>_. True)" by (simp add: sample_env_def)
  have u: "distinct (map u_ID (users (wdb due_world)))"
    and p: "distinct (map ut_ID (user_tunnels (wdb due_world)))"
    by code_simp+
  show ?thesis
    unfolding conjunct1 [OF reset_flow_tables [OF ok u p]] by code_simp
qed

end
