(* ===== verification/User_Api.thy ===== *)
theory User_Api
  imports Tunnel_Api
begin

text \<open>
  Accounts (service/user.go): login, creation, update and deletion of users, their passwords and
  their counters. The token \<open>Login\<close> answers with is a function of the account and the clock
  and is not modelled (pkg/jwt.go); the answer carries the account it is made from.
\<close>

section \<open>Passwords\<close>

text \<open>pkg/password.go. A hash that cannot be computed is the empty string.\<close>

definition HashPassword :: "'n env \<Rightarrow> string \<Rightarrow> string" where
  "HashPassword e plain = (case bcryptHash e plain of None \<Rightarrow> [] | Some hash \<Rightarrow> hash)"

definition IsBcrypt :: "string \<Rightarrow> bool" where
  "IsBcrypt hashed \<longleftrightarrow> has_prefix hashed ''$2a$'' \<or> has_prefix hashed ''$2b$''"

definition legacyMd5Hash :: "'n env \<Rightarrow> string \<Rightarrow> string" where
  "legacyMd5Hash e input = md5_hex e (input @ ''admin_salt_2024'')"

definition CheckPassword :: "'n env \<Rightarrow> string \<Rightarrow> string \<Rightarrow> bool" where
  "CheckPassword e plain hashed =
     (if has_prefix hashed ''$2a$'' \<or> has_prefix hashed ''$2b$'' then bcryptMatches e hashed plain
      else hashed = legacyMd5Hash e plain)"

section \<open>Requests\<close>

record LoginDto =
  lo_Username :: string
  lo_Password :: string
  lo_CaptchaId :: string
  lo_CaptchaAnswer :: string

record NodePermission =
  np_NodeId :: int
  np_XrayEnabled :: "int option"
  np_GostEnabled :: "int option"

text \<open>A slice that is nil is \<open>None\<close> in an update; a create does not distinguish nil from empty.\<close>

record UserDto =
  ud_User :: string
  ud_Pwd :: string
  ud_Flow :: int
  ud_XrayFlow :: int
  ud_Num :: int
  ud_ExpTime :: int
  ud_FlowResetType :: int
  ud_FlowResetDay :: int
  ud_Status :: "int option"
  ud_NodeIds :: "int list"
  ud_NodePermissions :: "NodePermission list"

record UserUpdateDto =
  uud_ID :: int
  uud_User :: string
  uud_Pwd :: string
  uud_Flow :: int
  uud_XrayFlow :: int
  uud_Num :: int
  uud_ExpTime :: int
  uud_FlowResetType :: int
  uud_FlowResetDay :: int
  uud_Status :: "int option"
  uud_NodeIds :: "int list option"
  uud_NodePermissions :: "NodePermission list option"

record UpdatePasswordDto =
  up_OldPassword :: string
  up_NewPassword :: string
  up_NewUsername :: string

definition set_user :: "int \<Rightarrow> (User \<Rightarrow> User) \<Rightarrow> db \<Rightarrow> db" where
  "set_user k f = users_update (update_where (\<lambda>u. u_ID u = k) f)"

section \<open>Login\<close>

definition captcha_error :: "'n env \<Rightarrow> db \<Rightarrow> LoginDto \<Rightarrow> user_err option" where
  "captcha_error e d dto =
     (case first_where (\<lambda>c. text_eq e (vc_Name c) ''captcha_enabled'') (vite_configs d) of
        None \<Rightarrow> None
      | Some vc \<Rightarrow>
          if vc_Value vc \<noteq> ''true'' then None
          else if lo_CaptchaId dto = [] \<or> lo_CaptchaAnswer dto = [] then Some CaptchaMissing
          else if \<not> captchaVerify e (lo_CaptchaId dto) (lo_CaptchaAnswer dto) then Some CaptchaWrong
          else None)"

text \<open>The silent change from MD5 to bcrypt.\<close>

definition migrate_password :: "'n env \<Rightarrow> string \<Rightarrow> User \<Rightarrow> 'n world \<Rightarrow> 'n world" where
  "migrate_password e plain user w =
     (if IsBcrypt (u_Pwd user) then w
      else (let newHash = HashPassword e plain
            in if newHash = [] then w
               else db_exec e (set_user (u_ID user) (\<lambda>u. u\<lparr>u_Pwd := newHash\<rparr>)) w))"

definition defaultCredential :: string where "defaultCredential = ''admin_user''"

definition Login :: "'n env \<Rightarrow> LoginDto \<Rightarrow> 'n world \<Rightarrow> reply \<times> 'n world" where
  "Login e dto w =
     (case captcha_error e (wdb w) dto of
        Some er \<Rightarrow> (Err (UserErr er), w)
      | None \<Rightarrow>
          (case first_where (\<lambda>u. text_eq e (u_User u) (lo_Username dto)) (users (wdb w)) of
             None \<Rightarrow> (Err (UserErr WrongCredentials), w)
           | Some user \<Rightarrow>
               if \<not> CheckPassword e (lo_Password dto) (u_Pwd user) then (Err (UserErr WrongCredentials), w)
               else
                 (let w1 = migrate_password e (lo_Password dto) user w
                  in if u_Status user = 0 then (Err (UserErr UserStopped), w1)
                     else
                       (let w2 = (if u_RoleId user \<noteq> adminRoleId
                                  then deriveUserPermissions e (u_ID user) w1 else w1);
                            user1 = (if u_RoleId user \<noteq> adminRoleId then
                                       (case firstUser (wdb w2) (u_ID user) of None \<Rightarrow> user | Some u \<Rightarrow> u)
                                     else user)
                        in (Ok (Logged_in user1 (lo_Username dto = defaultCredential \<or>
                              lo_Password dto = defaultCredential)), w2)))))"

section \<open>Creating\<close>

definition permission_row :: "int \<Rightarrow> NodePermission \<Rightarrow> UserNode" where
  "permission_row userId np =
     \<lparr>un_ID = 0, un_UserId = userId, un_NodeId = np_NodeId np,
      un_XrayEnabled = (case np_XrayEnabled np of None \<Rightarrow> 1 | Some x \<Rightarrow> x),
      un_GostEnabled = (case np_GostEnabled np of None \<Rightarrow> 1 | Some x \<Rightarrow> x)\<rparr>"

definition node_row :: "int \<Rightarrow> int \<Rightarrow> UserNode" where
  "node_row userId nodeId =
     \<lparr>un_ID = 0, un_UserId = userId, un_NodeId = nodeId, un_XrayEnabled = 1, un_GostEnabled = 1\<rparr>"

definition add_user_nodes :: "'n env \<Rightarrow> UserNode list \<Rightarrow> 'n world \<Rightarrow> 'n world" where
  "add_user_nodes e rows = fold (\<lambda>un. db_exec e (insertUserNode un)) rows"

definition user_row :: "'n env \<Rightarrow> UserDto \<Rightarrow> User" where
  "user_row e dto =
     \<lparr>u_ID = 0, u_User = ud_User dto, u_RoleId = 1, u_ExpTime = ud_ExpTime dto, u_Flow = ud_Flow dto,
      u_InFlow = 0, u_OutFlow = 0, u_XrayFlow = ud_XrayFlow dto, u_XrayInFlow = 0, u_XrayOutFlow = 0,
      u_FlowResetType = ud_FlowResetType dto, u_FlowResetDay = ud_FlowResetDay dto, u_Num = ud_Num dto,
      u_GostEnabled = 1, u_XrayEnabled = 1,
      u_Status = (case ud_Status dto of None \<Rightarrow> 1 | Some s \<Rightarrow> s),
      u_Pwd = HashPassword e (ud_Pwd dto), u_CreatedTime = now e, u_UpdatedTime = now e\<rparr>"

definition CreateUser :: "'n env \<Rightarrow> UserDto \<Rightarrow> 'n world \<Rightarrow> reply \<times> 'n world" where
  "CreateUser e dto w =
     (if length (ud_Pwd dto) < 8 then (Err (UserErr PasswordTooShort), w)
      else if 0 < count_where (\<lambda>u. text_eq e (u_User u) (ud_User dto)) (users (wdb w))
      then (Err (UserErr UserNameExists), w)
      else
        (let userId = next_key T_user (wdb w);
             (ok, w1) = db_write e (insertUser (user_row e dto)) w
         in if \<not> ok then (Err (UserErr UserSaveFailed), w1)
            else
              (let w2 = (if ud_NodePermissions dto \<noteq> []
                         then add_user_nodes e (map (permission_row userId) (ud_NodePermissions dto)) w1
                         else add_user_nodes e (map (node_row userId) (ud_NodeIds dto)) w1)
               in (Ok Done, deriveUserPermissions e userId w2))))"

section \<open>Disabling\<close>

definition pause_user_forward :: "'n env \<Rightarrow> int \<Rightarrow> Forward \<Rightarrow> 'n world \<Rightarrow> 'n world" where
  "pause_user_forward e userId fwd w =
     (case firstTunnel (wdb w) (f_TunnelId fwd) of
        None \<Rightarrow> w
      | Some tunnel \<Rightarrow>
          (case GetNodeById (wdb w) (t_InNodeId tunnel) of
             None \<Rightarrow> w
           | Some inNode \<Rightarrow>
               (let serviceName = buildServiceName (f_ID fwd) userId
                      (getUserTunnel (wdb w) userId (t_ID tunnel));
                    w1 = snd (pause_main e (n_ID inNode) serviceName (f_ListenIp fwd) w);
                    w2 = (if t_Type tunnel = 2 then
                            (case GetNodeById (wdb w1) (t_OutNodeId tunnel) of
                               None \<Rightarrow> w1
                             | Some out \<Rightarrow> snd (PauseRemoteService e (n_ID out) serviceName w1))
                          else w1)
                in db_exec e (set_forward (f_ID fwd) (\<lambda>f. f\<lparr>f_Status := 0\<rparr>)) w2)))"

definition pauseAllUserForwards :: "'n env \<Rightarrow> int \<Rightarrow> 'n world \<Rightarrow> 'n world" where
  "pauseAllUserForwards e userId w =
     fold (pause_user_forward e userId)
       (find_where (\<lambda>f. f_UserId f = userId \<and> f_Status f = 1) (forwards (wdb w))) w"

definition clear_client :: "'n env \<Rightarrow> XrayClient \<Rightarrow> 'n world \<Rightarrow> 'n world" where
  "clear_client e client =
     db_exec e (xray_clients_update (update_where (\<lambda>c. xc_ID c = xc_ID client) (\<lambda>c. c\<lparr>xc_Enable := 0\<rparr>)))"

definition client_inbound :: "db \<Rightarrow> XrayClient \<Rightarrow> XrayInbound option" where
  "client_inbound d client = first_where (\<lambda>ib. xi_ID ib = xc_InboundId client) (xray_inbounds d)"

definition enabled_clients :: "db \<Rightarrow> int \<Rightarrow> XrayClient list" where
  "enabled_clients d userId = find_where (\<lambda>c. xc_UserId c = userId \<and> xc_Enable c = 1) (xray_clients d)"

definition remove_from_node :: "'n env \<Rightarrow> XrayClient \<Rightarrow> 'n world \<Rightarrow> 'n world" where
  "remove_from_node e client w =
     (case client_inbound (wdb w) client of
        None \<Rightarrow> w
      | Some inbound \<Rightarrow> snd (XrayRemoveClient e (xi_NodeId inbound) (xi_Tag inbound) (xc_Email client) w))"

definition disableAllUserXrayClients :: "'n env \<Rightarrow> int \<Rightarrow> 'n world \<Rightarrow> 'n world" where
  "disableAllUserXrayClients e userId w =
     fold (\<lambda>c w. clear_client e c (remove_from_node e c w)) (enabled_clients (wdb w) userId) w"

definition disableUserXrayClientsOnNodes :: "'n env \<Rightarrow> int \<Rightarrow> int list \<Rightarrow> 'n world \<Rightarrow> 'n world" where
  "disableUserXrayClientsOnNodes e userId nodeIds w =
     fold (\<lambda>c w. case client_inbound (wdb w) c of
              None \<Rightarrow> w
            | Some inbound \<Rightarrow>
                if xi_NodeId inbound \<in> set nodeIds then clear_client e c (remove_from_node e c w) else w)
       (enabled_clients (wdb w) userId) w"

section \<open>Updating\<close>

definition updated_user :: "'n env \<Rightarrow> UserUpdateDto \<Rightarrow> User \<Rightarrow> User" where
  "updated_user e dto u = u\<lparr>u_User := uud_User dto, u_Flow := uud_Flow dto, u_XrayFlow := uud_XrayFlow dto,
     u_Num := uud_Num dto, u_ExpTime := uud_ExpTime dto, u_FlowResetType := uud_FlowResetType dto,
     u_FlowResetDay := uud_FlowResetDay dto, u_UpdatedTime := now e,
     u_Status := (case uud_Status dto of None \<Rightarrow> u_Status u | Some s \<Rightarrow> s),
     u_Pwd := (if uud_Pwd dto = [] then u_Pwd u else HashPassword e (uud_Pwd dto))\<rparr>"

text \<open>The new rows of \<open>user_node\<close>, and the Xray clients on nodes that lost the permission.\<close>

definition replace_permissions :: "'n env \<Rightarrow> int \<Rightarrow> NodePermission list \<Rightarrow> 'n world \<Rightarrow> 'n world" where
  "replace_permissions e userId nps w =
     (let oldXrayNodes = map un_NodeId
            (find_where (\<lambda>un. un_UserId un = userId \<and> un_XrayEnabled un = 1) (user_nodes (wdb w)));
          rows = map (permission_row userId) nps;
          w1 = db_exec e (user_nodes_update (delete_where (\<lambda>un. un_UserId un = userId))) w;
          w2 = add_user_nodes e rows w1;
          newXrayNodes = map un_NodeId (filter (\<lambda>un. un_XrayEnabled un = 1) rows);
          lostNodeIds = remdups (filter (\<lambda>n. n \<notin> set newXrayNodes) oldXrayNodes)
      in if lostNodeIds \<noteq> [] then disableUserXrayClientsOnNodes e userId lostNodeIds w2 else w2)"

definition replace_nodes :: "'n env \<Rightarrow> int \<Rightarrow> int list \<Rightarrow> 'n world \<Rightarrow> 'n world" where
  "replace_nodes e userId nodeIds w =
     add_user_nodes e (map (node_row userId) nodeIds)
       (db_exec e (user_nodes_update (delete_where (\<lambda>un. un_UserId un = userId))) w)"

definition UpdateUser :: "'n env \<Rightarrow> UserUpdateDto \<Rightarrow> 'n world \<Rightarrow> reply \<times> 'n world" where
  "UpdateUser e dto w =
     (case firstUser (wdb w) (uud_ID dto) of
        None \<Rightarrow> (Err (AccessErr UserNotFound), w)
      | Some user \<Rightarrow>
          if u_RoleId user = adminRoleId then (Err (UserErr AdminProtected), w)
          else if 0 < count_where (\<lambda>u. text_eq e (u_User u) (uud_User dto) \<and> u_ID u \<noteq> uud_ID dto) (users (wdb w))
          then (Err (UserErr UserNameExists), w)
          else if uud_Pwd dto \<noteq> [] \<and> length (uud_Pwd dto) < 8 then (Err (UserErr PasswordTooShort), w)
          else
            (let w1 = (if uud_Status dto = Some 0 \<and> u_Status user = 1
                       then disableAllUserXrayClients e (uud_ID dto) (pauseAllUserForwards e (uud_ID dto) w)
                       else w);
                 (ok, w2) = db_write e (set_user (uud_ID dto) (updated_user e dto)) w1
             in if \<not> ok then (Err (UserErr UserSaveFailed), w2)
                else
                  (let w3 = (case uud_NodePermissions dto of
                               Some nps \<Rightarrow> replace_permissions e (uud_ID dto) nps w2
                             | None \<Rightarrow>
                                 (case uud_NodeIds dto of
                                    Some nodeIds \<Rightarrow> replace_nodes e (uud_ID dto) nodeIds w2
                                  | None \<Rightarrow> w2))
                   in (Ok Done, deriveUserPermissions e (uud_ID dto) w3))))"

section \<open>Deleting\<close>

definition deleteGostServicesForForward :: "'n env \<Rightarrow> Forward \<Rightarrow> int \<Rightarrow> 'n world \<Rightarrow> 'n world" where
  "deleteGostServicesForForward e fwd userId w =
     (case firstTunnel (wdb w) (f_TunnelId fwd) of
        None \<Rightarrow> w
      | Some tunnel \<Rightarrow>
          (case GetNodeById (wdb w) (t_InNodeId tunnel) of
             None \<Rightarrow> w
           | Some inNode \<Rightarrow>
               (let serviceName = buildServiceName (f_ID fwd) userId
                      (getUserTunnel (wdb w) userId (t_ID tunnel));
                    w1 = snd (delete_main e (n_ID inNode) serviceName (f_ListenIp fwd) w)
                in if t_Type tunnel = tunnelTypeTunnelForward then
                     (case GetNodeById (wdb w1) (t_OutNodeId tunnel) of
                        None \<Rightarrow> w1
                      | Some out \<Rightarrow>
                          snd (DeleteRemoteService e (n_ID out) serviceName
                            (snd (DeleteChains e (n_ID inNode) serviceName w1))))
                   else w1)))"

definition delete_user_forward :: "'n env \<Rightarrow> int \<Rightarrow> Forward \<Rightarrow> 'n world \<Rightarrow> 'n world" where
  "delete_user_forward e userId fwd w =
     db_exec e (delete_forward_row (f_ID fwd)) (deleteGostServicesForForward e fwd userId w)"

definition DeleteUser :: "'n env \<Rightarrow> int \<Rightarrow> 'n world \<Rightarrow> reply \<times> 'n world" where
  "DeleteUser e k w =
     (case firstUser (wdb w) k of
        None \<Rightarrow> (Err (AccessErr UserNotFound), w)
      | Some user \<Rightarrow>
          if u_RoleId user = adminRoleId then (Err (UserErr AdminProtected), w)
          else
            (let w1 = fold (delete_user_forward e k)
                   (find_where (\<lambda>f. f_UserId f = k) (forwards (wdb w))) w;
                 w2 = fold (remove_from_node e)
                   (find_where (\<lambda>c. xc_UserId c = k) (xray_clients (wdb w1))) w1;
                 w3 = db_exec e (xray_clients_update (delete_where (\<lambda>c. xc_UserId c = k))) w2;
                 w4 = db_exec e (user_tunnels_update (delete_where (\<lambda>ut. ut_UserId ut = k))) w3;
                 w5 = db_exec e (user_nodes_update (delete_where (\<lambda>un. un_UserId un = k))) w4;
                 w6 = db_exec e (statistics_flows_update (delete_where (\<lambda>s. sf_UserId s = k))) w5;
                 w7 = db_exec e (user_flows_update (delete_where (\<lambda>s. uf_UserId s = k))) w6;
                 (ok, w8) = db_write e (users_update (delete_where (\<lambda>u. u_ID u = k))) w7
             in (if ok then Ok Done else Err (UserErr UserSaveFailed), w8)))"

section \<open>Password and counters\<close>

definition UpdatePassword :: "'n env \<Rightarrow> int \<Rightarrow> UpdatePasswordDto \<Rightarrow> 'n world \<Rightarrow> reply \<times> 'n world" where
  "UpdatePassword e userId dto w =
     (case firstUser (wdb w) userId of
        None \<Rightarrow> (Err (AccessErr UserNotFound), w)
      | Some user \<Rightarrow>
          if \<not> CheckPassword e (up_OldPassword dto) (u_Pwd user) then (Err (UserErr WrongPassword), w)
          else if length (up_NewPassword dto) < 8 then (Err (UserErr PasswordTooShort), w)
          else if up_NewUsername dto \<noteq> [] \<and> up_NewUsername dto \<noteq> u_User user \<and>
            0 < count_where (\<lambda>u. text_eq e (u_User u) (up_NewUsername dto) \<and> u_ID u \<noteq> u_ID user) (users (wdb w))
          then (Err (UserErr UserNameExists), w)
          else
            (let newUsername = (if up_NewUsername dto \<noteq> [] then up_NewUsername dto else u_User user);
                 (ok, w1) = db_write e (set_user (u_ID user) (\<lambda>u. u\<lparr>u_User := newUsername,
                   u_Pwd := HashPassword e (up_NewPassword dto), u_UpdatedTime := now e\<rparr>)) w
             in (if ok then Ok Done else Err (UserErr UserSaveFailed), w1)))"

definition ResetFlow :: "'n env \<Rightarrow> int \<Rightarrow> int \<Rightarrow> 'n world \<Rightarrow> reply \<times> 'n world" where
  "ResetFlow e k flowType w =
     (if flowType = 1 then
        (case firstUser (wdb w) k of
           None \<Rightarrow> (Err (AccessErr UserNotFound), w)
         | Some _ \<Rightarrow> (OkMsg, db_exec e (set_user k
             (\<lambda>u. u\<lparr>u_InFlow := 0, u_OutFlow := 0, u_XrayInFlow := 0, u_XrayOutFlow := 0\<rparr>)) w))
      else
        (case firstUserTunnel (wdb w) k of
           None \<Rightarrow> (Err (TunnelErr UserTunnelNotFound), w)
         | Some _ \<Rightarrow> (OkMsg, db_exec e (user_tunnels_update (update_where (\<lambda>ut. ut_ID ut = k)
             (\<lambda>ut. ut\<lparr>ut_InFlow := 0, ut_OutFlow := 0\<rparr>))) w)))"

end
