(* ===== verification/Statistics.thy ===== *)
theory Statistics
  imports User_Api
begin

text \<open>
  The hourly statistics (service/statistics.go): increments of the users' counters, snapshots of
  the counters of forwards, Xray inbounds and users, and the removal of old rows. The wall clock
  is an argument where the code formats it (\<open>hour\<close>); \<open>now\<close> is in milliseconds.
\<close>

definition unix_now :: "'n env \<Rightarrow> int" where
  "unix_now e = now e div 1000"

text \<open>The last record of a user: \<open>Order("id DESC").First\<close>.\<close>

definition lastRecord :: "db \<Rightarrow> int \<Rightarrow> StatisticsFlow option" where
  "lastRecord d userId =
     first_where (\<lambda>_. True) (order_by (\<lambda>s. - sf_ID s) (find_where (\<lambda>s. sf_UserId s = userId) (statistics_flows d)))"

definition incrementalFlow :: "StatisticsFlow option \<Rightarrow> int \<Rightarrow> int" where
  "incrementalFlow previous totalFlow =
     (case previous of None \<Rightarrow> totalFlow
      | Some r \<Rightarrow> (let x = i64 (totalFlow - sf_TotalFlow r) in if x < 0 then 0 else x))"

definition record_user :: "'n env \<Rightarrow> string \<Rightarrow> User \<Rightarrow> 'n world \<Rightarrow> 'n world" where
  "record_user e hour user w =
     (let totalFlow = i64 (u_InFlow user + u_OutFlow user);
          flow = incrementalFlow (lastRecord (wdb w) (u_ID user)) totalFlow
      in db_exec e (insertStatisticsFlow \<lparr>sf_ID = 0, sf_UserId = u_ID user, sf_Flow = flow,
           sf_TotalFlow = totalFlow, sf_Time = hour, sf_CreatedTime = now e\<rparr>) w)"

definition RecordForwardFlowSnapshots :: "'n env \<Rightarrow> 'n world \<Rightarrow> 'n world" where
  "RecordForwardFlowSnapshots e w =
     fold (\<lambda>f. db_exec e (forward_flows_update (insert_row \<lparr>ff_ForwardId = f_ID f, ff_InFlow = f_InFlow f,
       ff_OutFlow = f_OutFlow f, ff_RecordTime = unix_now e\<rparr>))) (forwards (wdb w)) w"

text \<open>\<open>GROUP BY inbound_id\<close>, the groups in the order of their first row.\<close>

definition inbound_sums :: "XrayClient list \<Rightarrow> (int \<times> int \<times> int) list" where
  "inbound_sums cs =
     map (\<lambda>i. (i, sum_list (map xc_UpTraffic (filter (\<lambda>c. xc_InboundId c = i) cs)),
               sum_list (map xc_DownTraffic (filter (\<lambda>c. xc_InboundId c = i) cs))))
       (rev (remdups (rev (map xc_InboundId cs))))"

definition RecordXrayFlowSnapshots :: "'n env \<Rightarrow> 'n world \<Rightarrow> 'n world" where
  "RecordXrayFlowSnapshots e w =
     fold (\<lambda>(i, up, down). db_exec e (xray_flows_update (insert_row \<lparr>xf_InboundId = i, xf_UpFlow = up,
       xf_DownFlow = down, xf_RecordTime = unix_now e\<rparr>))) (inbound_sums (xray_clients (wdb w))) w"

definition RecordUserFlowSnapshots :: "'n env \<Rightarrow> 'n world \<Rightarrow> 'n world" where
  "RecordUserFlowSnapshots e w =
     fold (\<lambda>u. db_exec e (user_flows_update (insert_row \<lparr>uf_UserId = u_ID u,
         uf_GostFlow = i64 (u_InFlow u + u_OutFlow u), uf_XrayFlow = i64 (u_XrayInFlow u + u_XrayOutFlow u),
         uf_RecordTime = unix_now e\<rparr>)))
       (find_where (\<lambda>u. u_RoleId u \<noteq> 0) (users (wdb w))) w"

definition retention_days :: "'n env \<Rightarrow> db \<Rightarrow> int" where
  "retention_days e d =
     (case first_where (\<lambda>c. text_eq e (vc_Name c) ''monitor_retention_days'') (vite_configs d) of
        None \<Rightarrow> 7
      | Some cfg \<Rightarrow> (case parse_int (vc_Value cfg) of None \<Rightarrow> 7 | Some v \<Rightarrow> if 0 < v then v else 7))"

definition CleanOldMonitorData :: "'n env \<Rightarrow> 'n world \<Rightarrow> 'n world" where
  "CleanOldMonitorData e w =
     (let cutoff = i64 (unix_now e - i64 (retention_days e (wdb w) * 86400));
          w1 = db_exec e (forward_flows_update (delete_where (\<lambda>r. ff_RecordTime r < cutoff))) w;
          w2 = db_exec e (xray_flows_update (delete_where (\<lambda>r. xf_RecordTime r < cutoff))) w1;
          w3 = db_exec e (user_flows_update (delete_where (\<lambda>r. uf_RecordTime r < cutoff))) w2
      in db_exec e (monitor_latencies_update (delete_where (\<lambda>r. ml_RecordTime r < cutoff))) w3)"

definition RecordHourlyStatistics :: "'n env \<Rightarrow> string \<Rightarrow> 'n world \<Rightarrow> 'n world" where
  "RecordHourlyStatistics e hour w =
     (let w1 = fold (record_user e hour) (find_where (\<lambda>u. u_RoleId u \<noteq> 0) (users (wdb w))) w;
          cutoff = now e - 48 * 60 * 60 * 1000;
          w2 = db_exec e (statistics_flows_update (delete_where (\<lambda>s. sf_CreatedTime s < cutoff))) w1
      in CleanOldMonitorData e (RecordUserFlowSnapshots e (RecordXrayFlowSnapshots e
           (RecordForwardFlowSnapshots e w2))))"

end
