(* ===== verification/Startup.thy ===== *)
theory Startup
  imports User_Api
begin

text \<open>
  What the panel does when it starts (main.go): the administrator's account and the default
  configuration; and the callbacks of the node sessions. The random password is an argument;
  the flags of the node's protocols, which it reports as text, are not modelled.
\<close>

definition admin_row :: "string \<Rightarrow> User" where
  "admin_row newHash =
     \<lparr>u_ID = 0, u_User = ''admin_user'', u_RoleId = 0, u_ExpTime = 2727251700000, u_Flow = 99999,
      u_InFlow = 0, u_OutFlow = 0, u_XrayFlow = 0, u_XrayInFlow = 0, u_XrayOutFlow = 0,
      u_FlowResetType = 0, u_FlowResetDay = 0, u_Num = 99999, u_GostEnabled = 0, u_XrayEnabled = 0,
      u_Status = 1, u_Pwd = newHash, u_CreatedTime = 0, u_UpdatedTime = 0\<rparr>"

definition ensureAdminUser :: "'n env \<Rightarrow> string \<Rightarrow> 'n world \<Rightarrow> 'n world" where
  "ensureAdminUser e newPassword w =
     (case first_where (\<lambda>u. text_eq e (u_User u) ''admin_user'' \<and> u_RoleId u = 0) (users (wdb w)) of
        None \<Rightarrow>
          (let newHash = HashPassword e newPassword
           in if newHash = [] then w else db_exec e (insertUser (admin_row newHash)) w)
      | Some admin \<Rightarrow>
          if \<not> CheckPassword e ''admin_user'' (u_Pwd admin) then w
          else
            (let newHash = HashPassword e newPassword
             in if newHash = [] then w
                else db_exec e (set_user (u_ID admin) (\<lambda>u. u\<lparr>u_Pwd := newHash\<rparr>)) w))"

definition default_config :: "'n env \<Rightarrow> string \<Rightarrow> string \<Rightarrow> 'n world \<Rightarrow> 'n world" where
  "default_config e name defaultVal w =
     (if count_where (\<lambda>c. text_eq e (vc_Name c) name) (vite_configs (wdb w)) = 0
      then db_exec e (vite_configs_update (insert_row \<lparr>vc_Name = name, vc_Value = defaultVal\<rparr>)) w else w)"

definition knownKeys :: "string list" where
  "knownKeys = [''app_name'', ''site_name'', ''site_desc'', ''panel_addr'', ''captcha_enabled'',
     ''monitor_interval'', ''monitor_retention_days'', ''telegram_enabled'', ''telegram_bot_token'']"

definition ensureDefaultConfig :: "'n env \<Rightarrow> 'n world \<Rightarrow> 'n world" where
  "ensureDefaultConfig e w =
     (let w1 = default_config e ''app_name'' ''flux'' w;
          w2 = default_config e ''monitor_interval'' ''60'' w1;
          w3 = default_config e ''monitor_retention_days'' ''7'' w2
      in db_exec e (vite_configs_update (delete_where (\<lambda>c. \<not> list_ex (text_eq e (vc_Name c)) knownKeys))) w3)"

section \<open>Node sessions\<close>

definition ValidateNodeSecret :: "'n env \<Rightarrow> db \<Rightarrow> int \<Rightarrow> string \<Rightarrow> int" where
  "ValidateNodeSecret e d nodeId secret =
     (if nodeId > 0 then
        (case GetNodeById d nodeId of
           None \<Rightarrow> 0
         | Some node \<Rightarrow> if n_Secret node \<noteq> secret then 0 else n_ID node)
      else
        (case first_where (\<lambda>n. text_eq e (n_Secret n) secret) (nodes d) of
           None \<Rightarrow> 0
         | Some node \<Rightarrow> n_ID node))"

definition OnNodeOnline :: "'n env \<Rightarrow> int \<Rightarrow> string \<Rightarrow> 'n world \<Rightarrow> 'n world" where
  "OnNodeOnline e nodeId version =
     db_exec e (set_node nodeId (\<lambda>n. n\<lparr>n_Status := 1,
       n_Version := (if version \<noteq> [] then version else n_Version n)\<rparr>))"

definition OnNodeOffline :: "'n env \<Rightarrow> int \<Rightarrow> 'n world \<Rightarrow> 'n world" where
  "OnNodeOffline e nodeId = db_exec e (set_node nodeId (\<lambda>n. n\<lparr>n_Status := 0, n_XrayStatus := 0\<rparr>))"

end
