(* ===== verification/User_Steps.thy ===== *)
theory User_Steps
  imports Panel_Steps Statistics Startup
begin

text \<open>The account operations and the statistics keep the invariant of the panel's database.\<close>

lemma account_view [simp]:
  "ports_view (statistics_flows_update f7 d) = ports_view d" "ports_view (forward_flows_update f8 d) = ports_view d"
  "ports_view (xray_flows_update f9 d) = ports_view d" "ports_view (user_flows_update f10 d) = ports_view d"
  "ports_view (monitor_latencies_update f11 d) = ports_view d"
  "ports_view (set_user k g d) = ports_view d" "ports_view (insertUser u d) = ports_view d"
  "ports_view (insertUserNode un d) = ports_view d" "ports_view (insertStatisticsFlow s d) = ports_view d"
  by (simp_all add: ports_view_def set_user_def insertUser_def insertUserNode_def
      insertStatisticsFlow_def bump_key_def)

lemma deriveUserPermissions_inv: "panel_inv (wdb w) \<Longrightarrow> panel_inv (wdb (deriveUserPermissions e u w))"
  by (auto simp: deriveUserPermissions_def Let_def intro!: panel.keep_exec_view)

lemma migrate_password_inv: "panel_inv (wdb w) \<Longrightarrow> panel_inv (wdb (migrate_password e p u w))"
  by (auto simp: migrate_password_def Let_def intro!: panel.keep_exec_view)

lemma add_user_nodes_inv: "panel_inv (wdb w) \<Longrightarrow> panel_inv (wdb (add_user_nodes e rows w))"
  unfolding add_user_nodes_def by (rule panel.keep_fold) (auto intro!: panel.keep_exec_view)

lemma pauseAllUserForwards_inv: "panel_inv (wdb w) \<Longrightarrow> panel_inv (wdb (pauseAllUserForwards e u w))"
  unfolding pauseAllUserForwards_def
  by (rule panel.keep_fold) (auto simp: pause_user_forward_def Let_def frame_simps
      split: option.split intro!: panel.keep_exec_view status_view)

lemma remove_from_node_db [frame_simps]: "wdb (remove_from_node e c w) = wdb w"
  by (simp add: remove_from_node_def frame_simps split: option.split)

lemma clear_client_inv: "panel_inv (wdb w) \<Longrightarrow> panel_inv (wdb (clear_client e c w))"
  by (auto simp: clear_client_def intro!: panel.keep_exec_view)

lemma disable_inv:
  assumes "panel_inv (wdb w)"
  shows "panel_inv (wdb (disableAllUserXrayClients e u w))"
    and "panel_inv (wdb (disableUserXrayClientsOnNodes e u ns w))"
  unfolding disableAllUserXrayClients_def disableUserXrayClientsOnNodes_def
  by (rule panel.keep_fold [OF assms], auto simp: frame_simps intro!: clear_client_inv split: option.split)+

lemma replace_inv:
  assumes "panel_inv (wdb w)"
  shows "panel_inv (wdb (replace_permissions e u nps w))" and "panel_inv (wdb (replace_nodes e u ns w))"
  using assms by (auto simp: replace_permissions_def replace_nodes_def Let_def
      intro!: disable_inv add_user_nodes_inv panel.keep_exec_view)

lemma deleteGostServicesForForward_db [frame_simps]: "wdb (deleteGostServicesForForward e f u w) = wdb w"
  by (simp add: deleteGostServicesForForward_def Let_def frame_simps split: option.split)

lemma delete_user_forward_inv: "panel_inv (wdb w) \<Longrightarrow> panel_inv (wdb (delete_user_forward e u f w))"
  by (auto simp: delete_user_forward_def frame_simps intro!: delete_exec_inv)

lemma account_ops_inv:
  assumes inv: "panel_inv (wdb w)"
  shows "panel_inv (wdb (snd (Login e lo w)))"
    and "panel_inv (wdb (snd (CreateUser e ud w)))"
    and "panel_inv (wdb (snd (UpdateUser e uud w)))"
    and "panel_inv (wdb (snd (DeleteUser e k w)))"
    and "panel_inv (wdb (snd (UpdatePassword e k up w)))"
    and "panel_inv (wdb (snd (ResetFlow e k ty w)))"
proof -
  show "panel_inv (wdb (snd (Login e lo w)))"
    using inv by (auto simp: Login_def Let_def split: option.split
        intro!: deriveUserPermissions_inv migrate_password_inv)
  show "panel_inv (wdb (snd (CreateUser e ud w)))"
    using inv by (auto simp: CreateUser_def Let_def case_prod_beta simp del: wdb_db_write
        intro!: deriveUserPermissions_inv add_user_nodes_inv panel.keep_write_view)
  show "panel_inv (wdb (snd (UpdateUser e uud w)))"
    using inv by (auto simp: UpdateUser_def Let_def case_prod_beta simp del: wdb_db_write split: option.split
        intro!: deriveUserPermissions_inv replace_inv disable_inv pauseAllUserForwards_inv panel.keep_write_view)
  have f: "panel_inv (wdb (fold (delete_user_forward e k) fs w))" for fs
    using inv by (rule panel.keep_fold) (rule delete_user_forward_inv)
  have c: "panel_inv (wdb (fold (remove_from_node e) cs w'))" if "panel_inv (wdb w')" for cs w'
    using that by (rule panel.keep_fold) (simp add: frame_simps)
  show "panel_inv (wdb (snd (DeleteUser e k w)))"
    using inv by (auto simp: DeleteUser_def Let_def case_prod_beta simp del: wdb_db_write split: option.split
        intro!: panel.keep_write_view panel.keep_exec_view c f)
  show "panel_inv (wdb (snd (UpdatePassword e k up w)))"
    using inv by (auto simp: UpdatePassword_def Let_def case_prod_beta simp del: wdb_db_write split: option.split
        intro!: panel.keep_write_view)
  show "panel_inv (wdb (snd (ResetFlow e k ty w)))"
    using inv by (auto simp: ResetFlow_def split: option.split intro!: panel.keep_exec_view)
qed

lemma statistics_inv:
  assumes inv: "panel_inv (wdb w)"
  shows "panel_inv (wdb (RecordHourlyStatistics e hour w))"
proof -
  have 1: "panel_inv (wdb (fold (record_user e hour) us w'))" if "panel_inv (wdb w')" for us w'
    using that by (rule panel.keep_fold) (auto simp: record_user_def Let_def intro!: panel.keep_exec_view)
  have 2: "panel_inv (wdb (RecordForwardFlowSnapshots e w'))" if "panel_inv (wdb w')" for w'
    unfolding RecordForwardFlowSnapshots_def using that by (rule panel.keep_fold) (auto intro!: panel.keep_exec_view)
  have 3: "panel_inv (wdb (RecordXrayFlowSnapshots e w'))" if "panel_inv (wdb w')" for w'
    unfolding RecordXrayFlowSnapshots_def using that by (rule panel.keep_fold) (auto intro!: panel.keep_exec_view)
  have 4: "panel_inv (wdb (RecordUserFlowSnapshots e w'))" if "panel_inv (wdb w')" for w'
    unfolding RecordUserFlowSnapshots_def using that by (rule panel.keep_fold) (auto intro!: panel.keep_exec_view)
  show ?thesis using inv
    by (auto simp: RecordHourlyStatistics_def CleanOldMonitorData_def Let_def intro!: 1 2 3 4 panel.keep_exec_view)
qed

lemma startup_inv:
  assumes inv: "panel_inv (wdb w)"
  shows "panel_inv (wdb (ensureAdminUser e newPassword w))" and "panel_inv (wdb (ensureDefaultConfig e w))"
    and "panel_inv (wdb (OnNodeOnline e k v w))" and "panel_inv (wdb (OnNodeOffline e k w))"
proof -
  have v: "ports_view (vite_configs_update g d) = ports_view d" for g d by (simp add: ports_view_def)
  have 1: "panel_inv (wdb (default_config e name x w))" if "panel_inv (wdb w)" for name x w
    using that by (auto simp: default_config_def v intro!: panel.keep_exec_view)
  show "panel_inv (wdb (ensureDefaultConfig e w))"
    using inv by (auto simp: ensureDefaultConfig_def Let_def v intro!: panel.keep_exec_view 1)
  show "panel_inv (wdb (ensureAdminUser e newPassword w))" "panel_inv (wdb (OnNodeOnline e k v w))"
    "panel_inv (wdb (OnNodeOffline e k w))"
    using inv by (auto simp: ensureAdminUser_def OnNodeOnline_def OnNodeOffline_def Let_def split: option.split
        intro!: panel.keep_exec_view)
qed

end
