(* ===== verification/Reconcile.thy ===== *)
theory Reconcile
  imports Route_Forward
begin

text \<open>
  Synchronising a node with the database: \<open>CleanNodeConfigs\<close> (service/config_check.go), which
  removes from a node what it reports and the database does not know, and the GOST phases of
  \<open>ReconcileNode\<close> (service/reconcile.go), which add what is missing. The Xray phases (inbounds
  and certificates) are not modelled; they send no GOST command.

  Go visits the map of orphaned forwards in an arbitrary order; here it is the order in which
  they are first reported.
\<close>

section \<open>Cleaning a node\<close>

record GostConfigDto =
  gc_Limiters :: "string list"
  gc_Chains :: "string list"
  gc_Services :: "string list"

text \<open>The services, chains and limiters of one forward of a tunnel on the node.\<close>

definition tunnel_services :: "int \<Rightarrow> Tunnel \<Rightarrow> Forward \<Rightarrow> string \<Rightarrow> string list" where
  "tunnel_services nodeId tunnel fwd serviceName =
     (if t_InNodeId tunnel = nodeId then
        (if f_ListenIp fwd \<noteq> [] \<and> contains_str (f_ListenIp fwd) '','' then
           concat (map (\<lambda>i. [suffixed serviceName i @ ''_tcp'', suffixed serviceName i @ ''_udp''])
             [0..<length (split_on (CHR '','') (f_ListenIp fwd))])
         else [serviceName @ ''_tcp'', serviceName @ ''_udp'']) else []) @
     (if t_OutNodeId tunnel = nodeId \<and> t_Type tunnel = 2 then [serviceName @ ''_tls''] else [])"

definition tunnel_chains :: "int \<Rightarrow> Tunnel \<Rightarrow> string \<Rightarrow> string list" where
  "tunnel_chains nodeId tunnel serviceName =
     (if t_InNodeId tunnel = nodeId \<and> t_Type tunnel = 2 then [serviceName @ ''_chains''] else [])"

definition node_tunnels :: "db \<Rightarrow> int \<Rightarrow> Tunnel list" where
  "node_tunnels d nodeId =
     find_where (\<lambda>t. t_InNodeId t = nodeId \<or> t_OutNodeId t = nodeId) (tunnels d)"

definition tunnel_forwards :: "db \<Rightarrow> int \<Rightarrow> Forward list" where
  "tunnel_forwards d tunnelId = find_where (\<lambda>f. f_TunnelId f = tunnelId) (forwards d)"

text \<open>The join of \<open>forward\<close> and \<open>route_hop\<close>, without repetition.\<close>

definition node_route_forwards :: "db \<Rightarrow> int \<Rightarrow> Forward list" where
  "node_route_forwards d nodeId =
     find_where (\<lambda>f. f_RouteId f \<noteq> 0 \<and>
       list_ex (\<lambda>h. h_RouteId h = f_RouteId f \<and> h_NodeId h = nodeId) (route_hops d)) (forwards d)"

definition route_services :: "db \<Rightarrow> int \<Rightarrow> Forward \<Rightarrow> string list" where
  "route_services d nodeId fwd =
     (let serviceName = buildServiceName (f_ID fwd) (f_UserId fwd) None;
          hops = route_hop_list d (f_RouteId fwd);
          ports = find_where (\<lambda>p. p_ForwardId p = f_ID fwd) (route_ports d)
      in (if hops \<noteq> [] \<and> h_NodeId (hops ! 0) = nodeId
          then [serviceName @ ''_tcp'', serviceName @ ''_udp''] else []) @
         map (\<lambda>p. routeRelayServiceName serviceName (p_HopOrder p))
           (filter (\<lambda>p. p_NodeId p = nodeId) ports))"

definition route_chains :: "db \<Rightarrow> int \<Rightarrow> Forward \<Rightarrow> string list" where
  "route_chains d nodeId fwd =
     (let serviceName = buildServiceName (f_ID fwd) (f_UserId fwd) None;
          hops = route_hop_list d (f_RouteId fwd)
      in map (\<lambda>i. routeChainName serviceName (int i))
           (filter (\<lambda>i. h_NodeId (hops ! i) = nodeId \<and> i < length hops - 1) [0..<length hops]))"

definition fwd_service_name :: "db \<Rightarrow> Forward \<Rightarrow> string" where
  "fwd_service_name d fwd =
     buildServiceName (f_ID fwd) (f_UserId fwd) (getUserTunnel d (f_UserId fwd) (f_TunnelId fwd))"

definition validServices :: "db \<Rightarrow> int \<Rightarrow> string list" where
  "validServices d nodeId =
     concat (map (\<lambda>t. concat (map (\<lambda>f. tunnel_services nodeId t f (fwd_service_name d f))
       (tunnel_forwards d (t_ID t)))) (node_tunnels d nodeId)) @
     concat (map (route_services d nodeId) (node_route_forwards d nodeId))"

definition validChains :: "db \<Rightarrow> int \<Rightarrow> string list" where
  "validChains d nodeId =
     concat (map (\<lambda>t. concat (map (\<lambda>f. tunnel_chains nodeId t (fwd_service_name d f))
       (tunnel_forwards d (t_ID t)))) (node_tunnels d nodeId)) @
     concat (map (route_chains d nodeId) (node_route_forwards d nodeId))"

definition fwd_speed :: "db \<Rightarrow> Forward \<Rightarrow> int option" where
  "fwd_speed d fwd =
     (case getUserTunnel d (f_UserId fwd) (f_TunnelId fwd) of
        None \<Rightarrow> None
      | Some ut \<Rightarrow> (case ut_SpeedId ut of None \<Rightarrow> None | Some s \<Rightarrow> if 0 < s then Some s else None))"

definition validLimiters :: "db \<Rightarrow> int \<Rightarrow> string list" where
  "validLimiters d nodeId =
     concat (map (\<lambda>t. concat (map (\<lambda>f. case fwd_speed d f of None \<Rightarrow> [] | Some s \<Rightarrow> [itoa s])
       (tunnel_forwards d (t_ID t)))) (node_tunnels d nodeId))"

text \<open>Deleting one orphan.\<close>

definition clean_service :: "'n env \<Rightarrow> int \<Rightarrow> string \<Rightarrow> 'n world \<Rightarrow> 'n world" where
  "clean_service e nodeId name w =
     (if has_suffix name ''_tls'' then snd (DeleteRemoteService e nodeId (trim_suffix name ''_tls'') w)
      else if has_suffix name ''_tcp'' \<or> has_suffix name ''_udp''
      then snd (DeleteService e nodeId (take (length name - 4) name) w)
      else w)"

definition CleanNodeConfigs :: "'n env \<Rightarrow> string \<Rightarrow> GostConfigDto \<Rightarrow> 'n world \<Rightarrow> 'n world" where
  "CleanNodeConfigs e nodeIdStr gostConfig w =
     (case parse_int nodeIdStr of
        None \<Rightarrow> w
      | Some nodeId \<Rightarrow>
          (let d = wdb w;
               services = validServices d nodeId;
               chns = validChains d nodeId;
               limiters = validLimiters d nodeId;
               w1 = fold (clean_service e nodeId)
                      (filter (\<lambda>n. n \<notin> set services) (gc_Services gostConfig)) w;
               w2 = fold (\<lambda>n w. snd (DeleteChains e nodeId (trim_suffix n ''_chains'') w))
                      (filter (\<lambda>n. n \<notin> set chns) (gc_Chains gostConfig)) w1
           in fold (\<lambda>n w. case parse_int n of None \<Rightarrow> w | Some k \<Rightarrow> snd (DeleteLimiters e nodeId k w))
                (filter (\<lambda>n. n \<notin> set limiters) (gc_Limiters gostConfig)) w2))"

section \<open>Reconciling a node\<close>

datatype recon_err =
    Busy
  | LimiterError int string
  | TunnelError int err
  | SyncError int string
  | RouteError int err

record ReconcileResult =
  rr_Limiters :: int
  rr_Forwards :: int
  rr_OrphansCleaned :: int
  rr_Errors :: "recon_err list"

definition add_error :: "recon_err \<Rightarrow> ReconcileResult \<Rightarrow> ReconcileResult" where
  "add_error er r = r\<lparr>rr_Errors := rr_Errors r @ [er]\<rparr>"

text \<open>The permissions whose limiters a node needs, each limiter once (\<open>seen\<close>).\<close>

definition node_speeds :: "db \<Rightarrow> int \<Rightarrow> int list" where
  "node_speeds d nodeId =
     (let speeds = concat (map (\<lambda>t. concat (map (\<lambda>ut. case ut_SpeedId ut of
            None \<Rightarrow> [] | Some s \<Rightarrow> if 0 < s then [s] else [])
          (find_where (\<lambda>ut. ut_TunnelId ut = t_ID t) (user_tunnels d))))
        (find_where (\<lambda>t. t_InNodeId t = nodeId) (tunnels d)))
      in rev (remdups (rev speeds)))"

definition reconcileLimiters ::
  "'n env \<Rightarrow> int \<Rightarrow> ReconcileResult \<times> 'n world \<Rightarrow> ReconcileResult \<times> 'n world" where
  "reconcileLimiters e nodeId rw =
     fold (\<lambda>speedId (r, w).
       case firstSpeedLimit (wdb w) speedId of
         None \<Rightarrow> (r, w)
       | Some sl \<Rightarrow>
           (let (resp, w1) = AddLimiters e nodeId speedId (itoa (sl_Speed sl)) w;
                r1 = (if g_Msg resp \<noteq> ''OK'' then add_error (LimiterError speedId (g_Msg resp)) r else r)
            in (r1\<lparr>rr_Limiters := rr_Limiters r1 + 1\<rparr>, w1)))
       (node_speeds (wdb (snd rw)) nodeId) rw"

definition already_exists :: "GostResponse \<Rightarrow> bool" where
  "already_exists r = contains_str (g_Msg r) ''already exists''"

text \<open>The chain and remote service of a type 2 tunnel.\<close>

definition gentleSyncRemote ::
  "'n env \<Rightarrow> Forward \<Rightarrow> Tunnel \<Rightarrow> Node \<Rightarrow> Node option \<Rightarrow> string \<Rightarrow> 'n world \<Rightarrow> string \<times> 'n world" where
  "gentleSyncRemote e forward tunnel inNode outNode serviceName w =
     (let (r, w1) = AddChains e (n_ID inNode) serviceName
            (formatRemoteAddr (t_OutIp tunnel) (f_OutPort forward)) (t_Protocol tunnel)
            (t_InterfaceName tunnel) w
      in if \<not> is_ok r \<and> \<not> already_exists r then (g_Msg r, w1)
         else case outNode of
           None \<Rightarrow> (nil_panic, w1)
         | Some out \<Rightarrow>
             (let (r, w2) = AddRemoteService e (n_ID out) serviceName (f_OutPort forward)
                    (f_RemoteAddr forward) (t_Protocol tunnel) (f_Strategy forward)
                    (f_InterfaceName forward) w1
              in if is_ok r then ([], w2)
                 else if already_exists r then
                   (let (r, w3) = UpdateRemoteForwarder e (n_ID out) serviceName
                          (f_RemoteAddr forward) (f_Strategy forward) w2
                    in if g_Msg r \<noteq> gostSuccessMsg then (g_Msg r, w3) else ([], w3))
                 else (g_Msg r, w2)))"

definition gentleSyncGostServices ::
  "'n env \<Rightarrow> Forward \<Rightarrow> Tunnel \<Rightarrow> int option \<Rightarrow> Node \<Rightarrow> Node option \<Rightarrow> string \<Rightarrow> 'n world
     \<Rightarrow> string \<times> 'n world" where
  "gentleSyncGostServices e forward tunnel limiter inNode outNode serviceName w =
     (let (remoteErr, w1) =
            (if t_Type tunnel = tunnelTypeTunnelForward
             then gentleSyncRemote e forward tunnel inNode outNode serviceName w else ([], w))
      in if remoteErr \<noteq> [] then (remoteErr, w1)
         else
           (let (r, w2) = AddService e (n_ID inNode) serviceName (f_InPort forward) limiter
                  (f_RemoteAddr forward) (t_Type tunnel) tunnel (f_Strategy forward)
                  (service_ifname tunnel forward) w1
            in if is_ok r then ([], w2)
               else if already_exists r then
                 (if t_Type tunnel = tunnelTypePortForward then
                    (let (r, w3) = UpdateForwarder e (n_ID inNode) serviceName
                           (f_RemoteAddr forward) (f_Strategy forward) w2
                     in if g_Msg r \<noteq> gostSuccessMsg then (g_Msg r, w3) else ([], w3))
                  else ([], w2))
               else (g_Msg r, w2)))"

definition recover_status :: "'n env \<Rightarrow> Forward \<Rightarrow> 'n world \<Rightarrow> 'n world" where
  "recover_status e fwd =
     db_exec e (set_forward (f_ID fwd) (\<lambda>f. f\<lparr>f_Status := forwardStatusActive\<rparr>))"

text \<open>Keeping a paused forward paused on this node.\<close>

definition repause ::
  "'n env \<Rightarrow> int \<Rightarrow> Tunnel \<Rightarrow> Node option \<Rightarrow> Forward \<Rightarrow> string \<Rightarrow> 'n world \<Rightarrow> 'n world" where
  "repause e nodeId tunnel outNode fwd serviceName w =
     (let w1 = (if t_InNodeId tunnel = nodeId then
                  (if f_ListenIp fwd \<noteq> [] \<and> contains_str (f_ListenIp fwd) '',''
                   then snd (PauseServiceMultiIP e nodeId serviceName (f_ListenIp fwd) w)
                   else snd (PauseService e nodeId serviceName w))
                else w)
      in if t_Type tunnel = tunnelTypeTunnelForward \<and> t_OutNodeId tunnel = nodeId \<and> outNode \<noteq> None
         then snd (PauseRemoteService e nodeId serviceName w1) else w1)"

definition listen_override :: "Forward \<Rightarrow> Tunnel \<Rightarrow> Tunnel" where
  "listen_override fwd tunnel =
     (if f_ListenIp fwd \<noteq> []
      then tunnel\<lparr>t_TcpListenAddr := f_ListenIp fwd, t_UdpListenAddr := f_ListenIp fwd\<rparr> else tunnel)"

definition reconcile_one ::
  "'n env \<Rightarrow> int \<Rightarrow> Tunnel \<Rightarrow> Node \<Rightarrow> Node option \<Rightarrow> Forward \<Rightarrow> ReconcileResult \<times> 'n world
     \<Rightarrow> ReconcileResult \<times> 'n world" where
  "reconcile_one e nodeId tunnel inNode outNode fwd rw =
     (let (r, w) = rw;
          serviceName = fwd_service_name (wdb w) fwd;
          (errStr, w1) = gentleSyncGostServices e fwd (listen_override fwd tunnel)
            (fwd_speed (wdb w) fwd) inNode outNode serviceName w;
          r1 = (if errStr \<noteq> [] then add_error (SyncError (f_ID fwd) errStr) r else r);
          w2 = (if errStr = [] \<and> f_Status fwd = forwardStatusError then recover_status e fwd w1 else w1);
          w3 = (if f_Status fwd = forwardStatusPaused
                then repause e nodeId tunnel outNode fwd serviceName w2 else w2)
      in (r1\<lparr>rr_Forwards := rr_Forwards r1 + 1\<rparr>, w3))"

definition reconcile_tunnel ::
  "'n env \<Rightarrow> int \<Rightarrow> Tunnel \<Rightarrow> ReconcileResult \<times> 'n world \<Rightarrow> ReconcileResult \<times> 'n world" where
  "reconcile_tunnel e nodeId tunnel rw =
     (let (r, w) = rw;
          fwds = tunnel_forwards (wdb w) (t_ID tunnel)
      in case getRequiredNodes (wdb w) tunnel of
           Inl er \<Rightarrow> (add_error (TunnelError (t_ID tunnel) er) r, w)
         | Inr (inNode, outNode) \<Rightarrow> fold (reconcile_one e nodeId tunnel inNode outNode) fwds (r, w))"

definition reconcileForwards ::
  "'n env \<Rightarrow> int \<Rightarrow> ReconcileResult \<times> 'n world \<Rightarrow> ReconcileResult \<times> 'n world" where
  "reconcileForwards e nodeId rw =
     fold (reconcile_tunnel e nodeId) (node_tunnels (wdb (snd rw)) nodeId) rw"

section \<open>Route forwards\<close>

definition addOrUpdateRouteChain ::
  "'n env \<Rightarrow> int \<Rightarrow> string \<Rightarrow> string \<Rightarrow> string \<Rightarrow> string \<Rightarrow> 'n world \<Rightarrow> string \<times> 'n world" where
  "addOrUpdateRouteChain e nodeId chainName remoteAddr protocol interfaceName w =
     (let (r, w1) = AddRouteChain e nodeId chainName remoteAddr protocol interfaceName w
      in if is_ok r then ([], w1)
         else if already_exists r then
           (let (r, w2) = UpdateRouteChain e nodeId chainName remoteAddr protocol interfaceName w1
            in if is_ok r then ([], w2) else (g_Msg r, w2))
         else (g_Msg r, w1))"

definition sync_answer :: "GostResponse \<times> 'n world \<Rightarrow> string \<times> 'n world" where
  "sync_answer rw =
     (let (r, w) = rw in if \<not> is_ok r \<and> \<not> already_exists r then (g_Msg r, w) else ([], w))"

definition sync_hop ::
  "'n env \<Rightarrow> int \<Rightarrow> Forward \<Rightarrow> Route \<Rightarrow> RouteHop list \<Rightarrow> (int \<Rightarrow> int) \<Rightarrow> int option \<Rightarrow> string \<Rightarrow> nat
     \<Rightarrow> 'n world \<Rightarrow> string \<times> 'n world" where
  "sync_hop e nodeId forward route hops portByHop limiter serviceName hopIndex w =
     (let hop = hops ! hopIndex;
          relayPort = portByHop (h_HopOrder hop);
          service = routeRelayServiceName serviceName (h_HopOrder hop)
      in if hopIndex = 0 then
           sync_answer (AddRouteEntryService e nodeId serviceName (f_InPort forward) limiter
             (if f_ListenIp forward \<noteq> [] then f_ListenIp forward else r_TcpListenAddr route)
             (routeChainName serviceName 0) (r_Protocol route) (r_InterfaceName route) w)
         else if hopIndex = length hops - 1 then
           sync_answer (AddRouteTerminalService e nodeId service relayPort (f_RemoteAddr forward)
             (r_Protocol route) (f_Strategy forward) (f_InterfaceName forward) w)
         else
           sync_answer (AddRouteRelayService e nodeId service relayPort
             (routeChainName serviceName (int hopIndex)) (r_Protocol route) (r_InterfaceName route) w))"

definition gentleSyncRouteGostServicesOnNode ::
  "'n env \<Rightarrow> int \<Rightarrow> Forward \<Rightarrow> Route \<Rightarrow> RouteHop list \<Rightarrow> ForwardRoutePort list \<Rightarrow> int option \<Rightarrow> string
     \<Rightarrow> 'n world \<Rightarrow> string \<times> 'n world" where
  "gentleSyncRouteGostServicesOnNode e nodeId forward route hops ports limiter serviceName w =
     (if length hops < 2 \<or> length ports \<noteq> length hops - 1 then (''invalid route deployment'', w)
      else case find (\<lambda>i. h_NodeId (hops ! i) = nodeId) [0..<length hops] of
        None \<Rightarrow> ([], w)
      | Some hopIndex \<Rightarrow>
          (let portByHop = routePortByHop ports;
               (chainErr, w1) =
                 (if hopIndex < length hops - 1 then
                    (let next = hops ! (hopIndex + 1)
                     in addOrUpdateRouteChain e nodeId (routeChainName serviceName (int hopIndex))
                          (formatRemoteAddr (h_NodeIp next) (portByHop (h_HopOrder next)))
                          (r_Protocol route) (r_InterfaceName route) w)
                  else ([], w))
           in if chainErr \<noteq> [] then (chainErr, w1)
              else sync_hop e nodeId forward route hops portByHop limiter serviceName hopIndex w1))"

definition setRouteForwardServicesPausedOnNode ::
  "'n env \<Rightarrow> int \<Rightarrow> RouteHop list \<Rightarrow> ForwardRoutePort list \<Rightarrow> string \<Rightarrow> bool \<Rightarrow> 'n world
     \<Rightarrow> string \<times> 'n world" where
  "setRouteForwardServicesPausedOnNode e nodeId hops ports serviceName paused w =
     (let services = (if hops \<noteq> [] \<and> h_NodeId (hops ! 0) = nodeId
                      then [serviceName @ ''_tcp'', serviceName @ ''_udp''] else []) @
            map (\<lambda>p. routeRelayServiceName serviceName (p_HopOrder p))
              (filter (\<lambda>p. p_NodeId p = nodeId) ports)
      in if services = [] then ([], w)
         else
           (let (r, w1) = (if paused then PauseRouteServices e else ResumeRouteServices e) nodeId services w
            in if \<not> is_ok r then (g_Msg r, w1) else ([], w1)))"

definition reconcile_route_one ::
  "'n env \<Rightarrow> int \<Rightarrow> Forward \<Rightarrow> ReconcileResult \<times> 'n world \<Rightarrow> ReconcileResult \<times> 'n world" where
  "reconcile_route_one e nodeId fwd rw =
     (let (r, w) = rw
      in case LoadRouteWithHops (wdb w) (f_RouteId fwd) of
           Inl er \<Rightarrow> (add_error (RouteError (f_ID fwd) er) r, w)
         | Inr (route, hops) \<Rightarrow>
             (case loadForwardRoutePorts (wdb w) (f_ID fwd) of
                Inl er \<Rightarrow> (add_error (RouteError (f_ID fwd) er) r, w)
              | Inr ports \<Rightarrow>
                  (let serviceName = buildServiceName (f_ID fwd) (f_UserId fwd) None;
                       (errStr, w1) = gentleSyncRouteGostServicesOnNode e nodeId fwd route hops ports
                         None serviceName w;
                       r1 = (if errStr \<noteq> [] then add_error (SyncError (f_ID fwd) errStr) r else r);
                       w2 = (if errStr = [] \<and> f_Status fwd = forwardStatusError
                             then recover_status e fwd w1 else w1);
                       r2 = r1\<lparr>rr_Forwards := rr_Forwards r1 + 1\<rparr>
                   in if f_Status fwd = forwardStatusPaused then
                        (let (errStr, w3) = setRouteForwardServicesPausedOnNode e nodeId hops ports
                               serviceName True w2
                         in (if errStr \<noteq> [] then add_error (SyncError (f_ID fwd) errStr) r2 else r2, w3))
                      else (r2, w2))))"

definition reconcileRouteForwards ::
  "'n env \<Rightarrow> int \<Rightarrow> ReconcileResult \<times> 'n world \<Rightarrow> ReconcileResult \<times> 'n world" where
  "reconcileRouteForwards e nodeId rw =
     fold (reconcile_route_one e nodeId) (node_route_forwards (wdb (snd rw)) nodeId) rw"

section \<open>Orphans\<close>

text \<open>The forward a service name belongs to, \<open>None\<close> for a name the panel did not build.\<close>

definition name_forward :: "string \<Rightarrow> int option" where
  "name_forward name =
     (let parts = split_on (CHR ''_'') name
      in if length parts < 3 then None else parse_int (parts ! 0))"

definition forward_on_node :: "db \<Rightarrow> int \<Rightarrow> int \<Rightarrow> bool" where
  "forward_on_node d nodeId k \<longleftrightarrow> list_ex (\<lambda>f. f_ID f = k \<and>
     ((f_TunnelId f \<noteq> 0 \<and> list_ex (\<lambda>t. t_ID t = f_TunnelId f \<and>
         (t_InNodeId t = nodeId \<or> t_OutNodeId t = nodeId)) (tunnels d)) \<or>
      (f_RouteId f \<noteq> 0 \<and> list_ex (\<lambda>h. h_RouteId h = f_RouteId f \<and> h_NodeId h = nodeId)
         (route_hops d)))) (forwards d)"

definition cleanupOrphanServices ::
  "'n env \<Rightarrow> int \<Rightarrow> ReconcileResult \<times> 'n world \<Rightarrow> ReconcileResult \<times> 'n world" where
  "cleanupOrphanServices e nodeId rw =
     (let (r, w) = rw;
          (resp, w1) = GetServiceNames e nodeId w
      in case g_Data resp of
           Some (Service_names names) \<Rightarrow>
             if g_Msg resp \<noteq> gostSuccessMsg then (r, w1)
             else
               (let ids = remdups (map (\<lambda>n. the (name_forward n)) (filter (\<lambda>n. name_forward n \<noteq> None) names));
                    orphans = filter (\<lambda>k. \<not> forward_on_node (wdb w1) nodeId k) ids;
                    orphanNames = concat (map (\<lambda>k. filter (\<lambda>n. name_forward n = Some k) names) orphans)
                in if orphans = [] then (r, w1)
                   else
                     (let (delResp, w2) = SendMsg e nodeId (DeleteService_msg orphanNames) w1
                      in (if g_Msg delResp = gostSuccessMsg
                          then r\<lparr>rr_OrphansCleaned := rr_OrphansCleaned r + int (length orphans)\<rparr> else r,
                          w2)))
         | _ \<Rightarrow> (r, w1))"

text \<open>The GOST phases of \<open>ReconcileNode\<close>; \<open>locked\<close>: another run holds the node's lock. The
  counts of forwards are joins.\<close>

definition reconcileGost :: "'n env \<Rightarrow> bool \<Rightarrow> int \<Rightarrow> 'n world \<Rightarrow> ReconcileResult \<times> 'n world" where
  "reconcileGost e locked nodeId w =
     (let r0 = \<lparr>rr_Limiters = 0, rr_Forwards = 0, rr_OrphansCleaned = 0, rr_Errors = []\<rparr>
      in if locked then (add_error Busy r0, w)
         else
           (let d = wdb w;
                tunnelForwards = concat (map (\<lambda>t. tunnel_forwards d (t_ID t)) (node_tunnels d nodeId));
                rw1 = (if tunnelForwards \<noteq> []
                       then reconcileForwards e nodeId (reconcileLimiters e nodeId (r0, w)) else (r0, w));
                rw2 = (if node_route_forwards d nodeId \<noteq> [] then reconcileRouteForwards e nodeId rw1 else rw1)
            in cleanupOrphanServices e nodeId rw2))"

end
