(* ===== verification/Node_Socket.thy ===== *)
theory Node_Socket
  imports Panel_World "HOL-Library.AList"
begin

text \<open>
  The node's side of the command channel: go-node/x/socket (service.go, chain.go, limiter.go)
  and \<open>routeCommand\<close> of websocket_reporter.go over the registries of go-node/x/registry.

  A service object is a number with its configuration. \<open>svcReg\<close> is the service registry,
  \<open>svcOpen\<close> the listeners that are open: an object keeps its place in the registry when it is
  closed (paused), and an object that was created but never registered keeps its listener.
  \<open>cfgServices\<close>, \<open>cfgChains\<close> and \<open>cfgLimiters\<close> are the lists of the global
  configuration, a service with the flag \<open>paused\<close> of its metadata. Chains and limiters are
  looked up by name when they are used, as the wrappers of the registry do.

  What the operating system and the protocol libraries do is the parameter \<open>os\<close>: whether a
  listener opens (at the given attempt, with the given listeners open) and with which error,
  which listener and handler types exist, whether a handler or chain can be set up.
\<close>

record svc =
  sv_id :: nat
  sv_conf :: ServiceConfig

record gost_node =
  svcReg :: "(string \<times> svc) list"
  svcOpen :: "(nat \<times> ServiceConfig) list"
  svcNext :: nat
  cfgServices :: "(ServiceConfig \<times> bool) list"
  chainReg :: "(string \<times> ChainConfig) list"
  cfgChains :: "ChainConfig list"
  limReg :: "(string \<times> LimiterConfig) list"
  cfgLimiters :: "LimiterConfig list"

record os =
  Listen :: "nat \<Rightarrow> ServiceConfig \<Rightarrow> (nat \<times> ServiceConfig) list \<Rightarrow> string option"
  known_listener :: "string \<Rightarrow> bool"
  known_handler :: "string \<Rightarrow> bool"
  handler_error :: "ServiceConfig \<Rightarrow> string option"
  can_forward :: "string \<Rightarrow> bool"
  forwarder_error :: "ForwarderConfig \<Rightarrow> string option"
  chain_error :: "ChainConfig \<Rightarrow> string option"
  Xray :: "msg \<Rightarrow> string option"
  restarted :: gost_node

text \<open>How a command ends: with an error text or none, or with a nil dereference that ends the
  process.\<close>

datatype outcome = Replied "string option" gost_node | Crashed

section \<open>Registries\<close>

definition Register :: "string \<Rightarrow> 'a \<Rightarrow> (string \<times> 'a) list \<Rightarrow> (string \<times> 'a) list option" where
  "Register name v reg =
     (if name = [] then Some reg
      else if map_of reg name \<noteq> None then None else Some (reg @ [(name, v)]))"

definition Unregister :: "string \<Rightarrow> (string \<times> 'a) list \<Rightarrow> (string \<times> 'a) list" where
  "Unregister name reg = AList.delete name reg"

definition IsRegistered :: "string \<Rightarrow> (string \<times> 'a) list \<Rightarrow> bool" where
  "IsRegistered name reg \<longleftrightarrow> map_of reg name \<noteq> None"

definition Get :: "string \<Rightarrow> (string \<times> 'a) list \<Rightarrow> 'a option" where
  "Get name reg = (if name = [] then None else map_of reg name)"

section \<open>Service objects\<close>

text \<open>\<open>Close\<close> of a service object, and \<open>Unregister\<close> of the service registry, which
  closes the object too.\<close>

definition Close :: "svc \<Rightarrow> gost_node \<Rightarrow> gost_node" where
  "Close s nd = nd\<lparr>svcOpen := AList.delete (sv_id s) (svcOpen nd)\<rparr>"

definition UnregisterService :: "string \<Rightarrow> gost_node \<Rightarrow> gost_node" where
  "UnregisterService name nd =
     (case map_of (svcReg nd) name of
        None \<Rightarrow> nd
      | Some s \<Rightarrow> (Close s nd)\<lparr>svcReg := Unregister name (svcReg nd)\<rparr>)"

text \<open>\<open>ParseService\<close> as far as the panel's configurations exercise it: default types, the
  listener, then the handler. When the handler fails the listener is left open.\<close>

definition default_types :: "ServiceConfig \<Rightarrow> ServiceConfig" where
  "default_types c = c\<lparr>
     s_listener := (let l = s_listener c in
        if trim_space (ls_type l) = [] then l\<lparr>ls_type := ''tcp''\<rparr> else l),
     s_handler := (let h = s_handler c in
        if trim_space (hd_type h) = [] then h\<lparr>hd_type := ''auto''\<rparr> else h)\<rparr>"

definition ParseService ::
  "os \<Rightarrow> nat \<Rightarrow> ServiceConfig \<Rightarrow> gost_node \<Rightarrow> (string + svc) \<times> gost_node" where
  "ParseService os attempt c nd =
     (let c = default_types c in
      if \<not> known_listener os (ls_type (s_listener c))
      then (Inl (''unknown listener: '' @ ls_type (s_listener c)), nd)
      else case Listen os attempt c (svcOpen nd) of
        Some er \<Rightarrow> (Inl er, nd)
      | None \<Rightarrow>
          (let nd = nd\<lparr>svcOpen := svcOpen nd @ [(svcNext nd, c)], svcNext := Suc (svcNext nd)\<rparr>
           in if \<not> known_handler os (hd_type (s_handler c))
              then (Inl (''unknown handler: '' @ hd_type (s_handler c)), nd)
              else case handler_error os c of
                Some er \<Rightarrow> (Inl er, nd)
              | None \<Rightarrow> (Inr \<lparr>sv_id = svcNext nd - 1, sv_conf = c\<rparr>, nd)))"

text \<open>Setting the configuration of the first service of a name.\<close>

fun update_first :: "('a \<Rightarrow> bool) \<Rightarrow> ('a \<Rightarrow> 'a) \<Rightarrow> 'a list \<Rightarrow> 'a list" where
  "update_first p f [] = []"
| "update_first p f (x # xs) = (if p x then f x # xs else x # update_first p f xs)"

definition set_paused :: "bool \<Rightarrow> string \<Rightarrow> gost_node \<Rightarrow> gost_node" where
  "set_paused b name nd = nd\<lparr>cfgServices :=
     update_first (\<lambda>(c, _). s_name c = name) (\<lambda>(c, _). (c, b)) (cfgServices nd)\<rparr>"

definition emptyListError :: string where
  "emptyListError = ''services list cannot be empty''"

definition nameRequired :: string where
  "nameRequired = ''service name is required''"

definition svc_error :: "string \<Rightarrow> string \<Rightarrow> string" where
  "svc_error name what = ''service '' @ name @ what"

section \<open>Adding services\<close>

text \<open>The first phase of \<open>createServices\<close>.\<close>

fun parse_new ::
  "os \<Rightarrow> ServiceConfig list \<Rightarrow> gost_node \<Rightarrow> (string + svc list) \<times> gost_node" where
  "parse_new os [] nd = (Inr [], nd)"
| "parse_new os (c # cs) nd =
     (let name = trim_space (s_name c) in
      if name = [] then (Inl nameRequired, nd)
      else if IsRegistered name (svcReg nd) then (Inl (svc_error name '' already exists''), nd)
      else case ParseService os 0 (c\<lparr>s_name := name\<rparr>) nd of
        (Inl er, nd1) \<Rightarrow> (Inl (''create service '' @ name @ '' failed: '' @ er), nd1)
      | (Inr s, nd1) \<Rightarrow>
          (case parse_new os cs nd1 of
             (Inl er, nd2) \<Rightarrow> (Inl er, nd2)
           | (Inr ss, nd2) \<Rightarrow> (Inr (s # ss), nd2)))"

text \<open>The second phase, with the roll-back of the services registered so far.\<close>

definition roll_back_new :: "string list \<Rightarrow> gost_node \<Rightarrow> gost_node" where
  "roll_back_new names nd = fold (\<lambda>n nd. case Get n (svcReg nd) of
       None \<Rightarrow> nd | Some s \<Rightarrow> Close s (UnregisterService n nd)) names nd"

fun register_new ::
  "svc list \<Rightarrow> string list \<Rightarrow> gost_node \<Rightarrow> string option \<times> gost_node" where
  "register_new [] registered nd = (None, nd)"
| "register_new (s # ss) registered nd =
     (let name = s_name (sv_conf s) in
      case Register name s (svcReg nd) of
        None \<Rightarrow> (Some (svc_error name '' already exists''), roll_back_new registered nd)
      | Some reg \<Rightarrow> register_new ss (registered @ [name]) (nd\<lparr>svcReg := reg\<rparr>))"

definition createServices :: "os \<Rightarrow> ServiceConfig list \<Rightarrow> gost_node \<Rightarrow> outcome" where
  "createServices os data nd =
     (if data = [] then Replied (Some emptyListError) nd
      else case parse_new os data nd of
        (Inl er, nd1) \<Rightarrow> Replied (Some er) nd1
      | (Inr parsed, nd1) \<Rightarrow>
          (case register_new parsed [] nd1 of
             (Some er, nd2) \<Rightarrow> Replied (Some er) nd2
           | (None, nd2) \<Rightarrow> Replied None
               (nd2\<lparr>cfgServices := cfgServices nd2 @ map (\<lambda>s. (sv_conf s, False)) parsed\<rparr>)))"

section \<open>Updating services\<close>

fun first_error :: "('a \<Rightarrow> string option) \<Rightarrow> 'a list \<Rightarrow> string option" where
  "first_error f [] = None"
| "first_error f (x # xs) = (case f x of Some er \<Rightarrow> Some er | None \<Rightarrow> first_error f xs)"

text \<open>The check every list of names goes through.\<close>

definition missing :: "gost_node \<Rightarrow> string \<Rightarrow> string option" where
  "missing nd raw =
     (let name = trim_space raw in
      if name = [] then Some nameRequired
      else if Get name (svcReg nd) = None then Some (svc_error name '' not found'') else None)"

text \<open>The second phase of \<open>updateServices\<close>: \<open>None\<close> for the call of \<open>Close\<close> on a nil
  service, when a name is listed twice.\<close>

fun close_old :: "string list \<Rightarrow> gost_node \<Rightarrow> gost_node option" where
  "close_old [] nd = Some nd"
| "close_old (raw # rest) nd =
     (let name = trim_space raw in
      case Get name (svcReg nd) of
        None \<Rightarrow> None
      | Some s \<Rightarrow> close_old rest (UnregisterService name (Close s nd)))"

text \<open>The retry loop: attempts \<open>n\<close> to \<open>2\<close>, repeated only when the address is in use.\<close>

fun retry_parse ::
  "os \<Rightarrow> nat \<Rightarrow> nat \<Rightarrow> ServiceConfig \<Rightarrow> gost_node \<Rightarrow> (string + svc) \<times> gost_node" where
  "retry_parse os attempt 0 c nd = ParseService os attempt c nd"
| "retry_parse os attempt (Suc left) c nd =
     (case ParseService os attempt c nd of
        (Inr s, nd1) \<Rightarrow> (Inr s, nd1)
      | (Inl er, nd1) \<Rightarrow>
          if \<not> contains_str er ''address already in use'' then (Inl er, nd1)
          else retry_parse os (Suc attempt) left c nd1)"

fun recreate :: "os \<Rightarrow> ServiceConfig list \<Rightarrow> gost_node \<Rightarrow> string option \<times> gost_node" where
  "recreate os [] nd = (None, nd)"
| "recreate os (c # cs) nd =
     (let name = trim_space (s_name c) in
      case retry_parse os 0 2 (c\<lparr>s_name := name\<rparr>) nd of
        (Inl er, nd1) \<Rightarrow> (Some (''create service '' @ name @ '' failed: '' @ er), nd1)
      | (Inr s, nd1) \<Rightarrow>
          (case Register name s (svcReg nd1) of
             None \<Rightarrow> (Some (svc_error name '' already exists''), Close s nd1)
           | Some reg \<Rightarrow> recreate os cs (nd1\<lparr>svcReg := reg\<rparr>)))"

definition updateServices :: "os \<Rightarrow> ServiceConfig list \<Rightarrow> gost_node \<Rightarrow> outcome" where
  "updateServices os data nd =
     (if data = [] then Replied (Some emptyListError) nd
      else case first_error (missing nd) (map s_name data) of
        Some er \<Rightarrow> Replied (Some er) nd
      | None \<Rightarrow>
          (case close_old (map s_name data) nd of
             None \<Rightarrow> Crashed
           | Some nd1 \<Rightarrow>
               (case recreate os data nd1 of
                  (Some er, nd2) \<Rightarrow> Replied (Some er) nd2
                | (None, nd2) \<Rightarrow> Replied None (nd2\<lparr>cfgServices :=
                    fold (\<lambda>c. update_first (\<lambda>(c', _). s_name c' = s_name c) (\<lambda>_. (default_types c, False)))
                      data (cfgServices nd2)\<rparr>))))"

section \<open>Deleting services\<close>

definition deleteServices :: "string list \<Rightarrow> gost_node \<Rightarrow> outcome" where
  "deleteServices services nd =
     (if services = [] then Replied (Some emptyListError) nd
      else case first_error (missing nd) services of
        Some er \<Rightarrow> Replied (Some er) nd
      | None \<Rightarrow>
          (let toDelete = map (\<lambda>raw. (trim_space raw, the (Get (trim_space raw) (svcReg nd)))) services;
               nd1 = fold (\<lambda>(n, s) nd. Close s (UnregisterService n nd)) toDelete nd
           in Replied None (nd1\<lparr>cfgServices :=
                filter (\<lambda>(c, _). s_name c \<notin> fst ` set toDelete) (cfgServices nd1)\<rparr>)))"

section \<open>Pausing and resuming services\<close>

text \<open>The map built from \<open>cfg.Services\<close>: the last configuration of a name.\<close>

definition last_conf :: "gost_node \<Rightarrow> string \<Rightarrow> ServiceConfig option" where
  "last_conf nd name = map_option fst (find (\<lambda>(c, _). s_name c = name) (rev (cfgServices nd)))"

definition first_conf :: "gost_node \<Rightarrow> string \<Rightarrow> (ServiceConfig \<times> bool) option" where
  "first_conf nd name = find (\<lambda>(c, _). s_name c = name) (cfgServices nd)"

definition rollbackPaused :: "os \<Rightarrow> string \<times> ServiceConfig \<Rightarrow> gost_node \<Rightarrow> gost_node" where
  "rollbackPaused os pss nd =
     (case pss of (name, c) \<Rightarrow>
        (case ParseService os 0 c nd of
           (Inl _, nd1) \<Rightarrow> nd1
         | (Inr s, nd1) \<Rightarrow>
             (case Register name s (svcReg nd1) of
                None \<Rightarrow> Close s nd1
              | Some reg \<Rightarrow> set_paused False name (nd1\<lparr>svcReg := reg\<rparr>))))"

definition rollbackPausedServices ::
  "os \<Rightarrow> (string \<times> ServiceConfig) list \<Rightarrow> gost_node \<Rightarrow> gost_node" where
  "rollbackPausedServices os paused nd = fold (rollbackPaused os) paused nd"

text \<open>The second phase of \<open>pauseServices\<close>; the services paused so far, newest last.\<close>

fun pause_each ::
  "os \<Rightarrow> (string \<Rightarrow> ServiceConfig option) \<Rightarrow> (string \<times> svc) list \<Rightarrow> (string \<times> ServiceConfig) list
     \<Rightarrow> gost_node \<Rightarrow> string option \<times> gost_node" where
  "pause_each os confs [] paused nd = (None, nd)"
| "pause_each os confs ((name, s) # rest) paused nd =
     (case confs name of
        None \<Rightarrow> (Some (svc_error name '' configuration not found''),
                 rollbackPausedServices os paused nd)
      | Some c \<Rightarrow> pause_each os confs rest (paused @ [(name, c)]) (Close s nd))"

definition pauseServices :: "os \<Rightarrow> string list \<Rightarrow> gost_node \<Rightarrow> outcome" where
  "pauseServices os services nd =
     (if services = [] then Replied (Some emptyListError) nd
      else case first_error (missing nd) services of
        Some er \<Rightarrow> Replied (Some er) nd
      | None \<Rightarrow>
          (let toPause = map (\<lambda>raw. (trim_space raw, the (Get (trim_space raw) (svcReg nd)))) services
           in case pause_each os (last_conf nd) toPause [] nd of
                (Some er, nd1) \<Rightarrow> Replied (Some er) nd1
              | (None, nd1) \<Rightarrow> Replied None (fold (\<lambda>(n, _). set_paused True n) toPause nd1)))"

text \<open>The first phase of \<open>resumeServices\<close>: running services are skipped.\<close>

fun select_paused ::
  "gost_node \<Rightarrow> string list \<Rightarrow> string + (string \<times> svc \<times> ServiceConfig) list" where
  "select_paused nd [] = Inr []"
| "select_paused nd (raw # rest) =
     (let name = trim_space raw in
      if name = [] then Inl nameRequired
      else case Get name (svcReg nd) of
        None \<Rightarrow> Inl (svc_error name '' not found'')
      | Some s \<Rightarrow>
          (case first_conf nd name of
             None \<Rightarrow> Inl (svc_error name '' configuration not found'')
           | Some (c, paused) \<Rightarrow>
               (case select_paused nd rest of
                  Inl er \<Rightarrow> Inl er
                | Inr sel \<Rightarrow> Inr (if paused then (name, s, c) # sel else sel))))"

definition rollbackResumedServices :: "string list \<Rightarrow> gost_node \<Rightarrow> gost_node" where
  "rollbackResumedServices names nd = fold (\<lambda>n nd. set_paused True n
     (case Get n (svcReg nd) of None \<Rightarrow> nd | Some s \<Rightarrow> Close s nd)) names nd"

fun resume_each ::
  "os \<Rightarrow> (string \<times> svc \<times> ServiceConfig) list \<Rightarrow> string list \<Rightarrow> gost_node \<Rightarrow> string option \<times> gost_node" where
  "resume_each os [] resumed nd = (None, nd)"
| "resume_each os ((name, s, c) # rest) resumed nd =
     (case ParseService os 0 c (UnregisterService name (Close s nd)) of
        (Inl er, nd1) \<Rightarrow> (Some (''resume service '' @ name @ '' failed: '' @ er),
                           rollbackResumedServices resumed nd1)
      | (Inr s', nd1) \<Rightarrow>
          (case Register name s' (svcReg nd1) of
             None \<Rightarrow> (Some (svc_error name '' already exists''),
                       rollbackResumedServices resumed (Close s' nd1))
           | Some reg \<Rightarrow> resume_each os rest (resumed @ [name]) (nd1\<lparr>svcReg := reg\<rparr>)))"

definition resumeServices :: "os \<Rightarrow> string list \<Rightarrow> gost_node \<Rightarrow> outcome" where
  "resumeServices os services nd =
     (if services = [] then Replied (Some emptyListError) nd
      else case select_paused nd services of
        Inl er \<Rightarrow> Replied (Some er) nd
      | Inr sel \<Rightarrow>
          (case resume_each os sel [] nd of
             (Some er, nd1) \<Rightarrow> Replied (Some er) nd1
           | (None, nd1) \<Rightarrow> Replied None (fold (\<lambda>(n, _). set_paused False n) sel nd1)))"

section \<open>Hot update of the targets\<close>

fun forward_each ::
  "os \<Rightarrow> (string \<times> ForwarderConfig) list \<Rightarrow> gost_node \<Rightarrow> string option \<times> gost_node" where
  "forward_each os [] nd = (None, nd)"
| "forward_each os ((raw, fw) # rest) nd =
     (let name = trim_space raw in
      if name = [] then (Some nameRequired, nd)
      else case Get name (svcReg nd) of
        None \<Rightarrow> (Some (svc_error name '' not found''), nd)
      | Some s \<Rightarrow>
          if \<not> can_forward os (hd_type (s_handler (sv_conf s)))
          then (Some (svc_error name '' handler does not support Forward()''), nd)
          else case forwarder_error os fw of
            Some er \<Rightarrow> (Some (svc_error name ('': parse forwarder failed: '' @ er)), nd)
          | None \<Rightarrow> forward_each os rest (nd\<lparr>svcReg :=
              AList.update name (s\<lparr>sv_conf := (sv_conf s)\<lparr>s_forwarder := Some fw\<rparr>\<rparr>) (svcReg nd)\<rparr>))"

definition updateForwarder ::
  "os \<Rightarrow> (string \<times> ForwarderConfig) list \<Rightarrow> gost_node \<Rightarrow> outcome" where
  "updateForwarder os services nd =
     (if services = [] then Replied (Some emptyListError) nd
      else case forward_each os services nd of
        (Some er, nd1) \<Rightarrow> Replied (Some er) nd1
      | (None, nd1) \<Rightarrow> Replied None (nd1\<lparr>cfgServices :=
          fold (\<lambda>(n, fw). update_first (\<lambda>(c, _). s_name c = n)
             (\<lambda>(c, b). (c\<lparr>s_forwarder := Some fw\<rparr>, b))) services (cfgServices nd1)\<rparr>))"

end
