(* ===== verification/Node_Command.thy ===== *)
theory Node_Command
  imports Node_Socket
begin

text \<open>
  Chains and limiters of a node (chain.go and limiter.go of go-node/x/socket), the dispatch of
  commands (\<open>routeCommand\<close> of websocket_reporter.go) and the network of nodes as a
  \<open>transport\<close> for the panel.
\<close>

section \<open>Chains\<close>

definition chain_msg :: "string \<Rightarrow> string \<Rightarrow> string" where
  "chain_msg name what = ''chain '' @ name @ what"

definition createChain :: "os \<Rightarrow> ChainConfig \<Rightarrow> gost_node \<Rightarrow> outcome" where
  "createChain os data nd =
     (let name = trim_space (c_name data);
          data = data\<lparr>c_name := name\<rparr>
      in if name = [] then Replied (Some ''chain name is required'') nd
         else if IsRegistered name (chainReg nd)
         then Replied (Some (chain_msg name '' already exists'')) nd
         else case chain_error os data of
           Some er \<Rightarrow> Replied (Some (''create chain '' @ name @ '' failed: '' @ er)) nd
         | None \<Rightarrow>
             (case Register name data (chainReg nd) of
                None \<Rightarrow> Replied (Some (chain_msg name '' already exists'')) nd
              | Some reg \<Rightarrow>
                  Replied None (nd\<lparr>chainReg := reg, cfgChains := cfgChains nd @ [data]\<rparr>)))"

definition updateChain :: "os \<Rightarrow> string \<Rightarrow> ChainConfig \<Rightarrow> gost_node \<Rightarrow> outcome" where
  "updateChain os chain data nd =
     (let name = trim_space chain;
          data = data\<lparr>c_name := name\<rparr>
      in if \<not> IsRegistered name (chainReg nd)
         then Replied (Some (chain_msg name '' not found'')) nd
         else case chain_error os data of
           Some er \<Rightarrow> Replied (Some (''create chain '' @ name @ '' failed: '' @ er)) nd
         | None \<Rightarrow>
             (let nd1 = nd\<lparr>chainReg := Unregister name (chainReg nd)\<rparr>
              in case Register name data (chainReg nd1) of
                   None \<Rightarrow> Replied (Some (chain_msg name '' already exists'')) nd1
                 | Some reg \<Rightarrow> Replied None (nd1\<lparr>chainReg := reg, cfgChains :=
                     update_first (\<lambda>c. c_name c = name) (\<lambda>_. data) (cfgChains nd1)\<rparr>)))"

definition deleteChain :: "string \<Rightarrow> gost_node \<Rightarrow> outcome" where
  "deleteChain chain nd =
     (let name = trim_space chain
      in if \<not> IsRegistered name (chainReg nd)
         then Replied (Some (chain_msg name '' not found'')) nd
         else Replied None (nd\<lparr>chainReg := Unregister name (chainReg nd),
                cfgChains := filter (\<lambda>c. c_name c \<noteq> name) (cfgChains nd)\<rparr>))"

section \<open>Limiters\<close>

definition limiter_msg :: "string \<Rightarrow> string \<Rightarrow> string" where
  "limiter_msg name what = ''limiter '' @ name @ what"

definition createLimiter :: "LimiterConfig \<Rightarrow> gost_node \<Rightarrow> outcome" where
  "createLimiter data nd =
     (let name = trim_space (lm_name data);
          data = data\<lparr>lm_name := name\<rparr>
      in if name = [] then Replied (Some ''limiter name is required'') nd
         else if IsRegistered name (limReg nd)
         then Replied (Some (limiter_msg name '' already exists'')) nd
         else case Register name data (limReg nd) of
           None \<Rightarrow> Replied (Some (limiter_msg name '' already exists'')) nd
         | Some reg \<Rightarrow>
             Replied None (nd\<lparr>limReg := reg, cfgLimiters := cfgLimiters nd @ [data]\<rparr>))"

definition updateLimiter :: "string \<Rightarrow> LimiterConfig \<Rightarrow> gost_node \<Rightarrow> outcome" where
  "updateLimiter limiter data nd =
     (let name = trim_space limiter;
          data = data\<lparr>lm_name := name\<rparr>
      in if \<not> IsRegistered name (limReg nd)
         then Replied (Some (limiter_msg name '' not found'')) nd
         else
           (let nd1 = nd\<lparr>limReg := Unregister name (limReg nd)\<rparr>
            in case Register name data (limReg nd1) of
                 None \<Rightarrow> Replied (Some (limiter_msg name '' already exists'')) nd1
               | Some reg \<Rightarrow> Replied None (nd1\<lparr>limReg := reg, cfgLimiters :=
                   update_first (\<lambda>l. lm_name l = name) (\<lambda>_. data) (cfgLimiters nd1)\<rparr>)))"

definition deleteLimiter :: "string \<Rightarrow> gost_node \<Rightarrow> outcome" where
  "deleteLimiter limiter nd =
     (let name = trim_space limiter
      in if \<not> IsRegistered name (limReg nd)
         then Replied (Some (limiter_msg name '' not found'')) nd
         else Replied None (nd\<lparr>limReg := Unregister name (limReg nd),
                cfgLimiters := filter (\<lambda>l. lm_name l \<noteq> name) (cfgLimiters nd)\<rparr>))"

section \<open>Dispatch\<close>

definition routeCommand :: "os \<Rightarrow> msg \<Rightarrow> gost_node \<Rightarrow> outcome" where
  "routeCommand os m nd =
     (case m of
        AddService_msg data \<Rightarrow> createServices os data nd
      | UpdateService_msg data \<Rightarrow> updateServices os data nd
      | DeleteService_msg names \<Rightarrow> deleteServices names nd
      | PauseService_msg names \<Rightarrow> pauseServices os names nd
      | ResumeService_msg names \<Rightarrow> resumeServices os names nd
      | UpdateForwarder_msg services \<Rightarrow> updateForwarder os services nd
      | AddChains_msg data \<Rightarrow> createChain os data nd
      | UpdateChains_msg chain data \<Rightarrow> updateChain os chain data nd
      | DeleteChains_msg chain \<Rightarrow> deleteChain chain nd
      | AddLimiters_msg data \<Rightarrow> createLimiter data nd
      | UpdateLimiters_msg limiter data \<Rightarrow> updateLimiter limiter data nd
      | DeleteLimiters_msg limiter \<Rightarrow> deleteLimiter limiter nd
      | GetServiceNames_msg \<Rightarrow> Replied None nd
      | TcpPing_msg ip port \<Rightarrow> Replied None nd
      | VRemoveClient_msg tag email \<Rightarrow> Replied (Xray os m) nd
      | VRemoveInbound_msg tag \<Rightarrow> Replied (Xray os m) nd)"

text \<open>The data of the answer.\<close>

definition response_data :: "msg \<Rightarrow> gost_node \<Rightarrow> reply_data option" where
  "response_data m nd =
     (case m of
        GetServiceNames_msg \<Rightarrow> Some (Service_names (map fst (svcReg nd)))
      | TcpPing_msg ip port \<Rightarrow> Some Other_data
      | _ \<Rightarrow> None)"

text \<open>The answer of one node; a crashed process gives none and is restarted.\<close>

definition node_answer :: "os \<Rightarrow> msg \<Rightarrow> gost_node \<Rightarrow> GostResponse option \<times> gost_node" where
  "node_answer os m nd =
     (case routeCommand os m nd of
        Crashed \<Rightarrow> (None, restarted os)
      | Replied (Some er) nd1 \<Rightarrow> (Some \<lparr>g_Msg = er, g_Data = response_data m nd\<rparr>, nd1)
      | Replied None nd1 \<Rightarrow> (Some \<lparr>g_Msg = ''OK'', g_Data = response_data m nd\<rparr>, nd1))"

text \<open>The fleet: a state per node id, an operating system per node id.\<close>

type_synonym fleet = "int \<Rightarrow> gost_node"

definition fleet_transport ::
  "(int \<Rightarrow> os) \<Rightarrow> int \<Rightarrow> msg \<Rightarrow> fleet \<Rightarrow> GostResponse option \<times> fleet" where
  "fleet_transport oss nodeId m fl =
     (let (r, nd) = node_answer (oss nodeId) m (fl nodeId) in (r, fl(nodeId := nd)))"

definition empty_node :: gost_node where
  "empty_node = \<lparr>svcReg = [], svcOpen = [], svcNext = 0, cfgServices = [], chainReg = [],
     cfgChains = [], limReg = [], cfgLimiters = []\<rparr>"

end
