(* ===== verification/Node_Inv.thy ===== *)
theory Node_Inv
  imports Node_Command
begin

text \<open>
  The well-formedness of a node (\<open>node_wf\<close>), kept by every command whatever the operating
  system answers, and what a command can touch: services it does not name keep their
  configuration and go on listening (\<open>same_except\<close>).
\<close>

section \<open>Association lists as registries\<close>

lemma map_of_None_fst: "map_of xs k = None \<longleftrightarrow> k \<notin> fst ` set xs"
  by (rule map_of_eq_None_iff)

lemma fst_delete [simp]: "fst ` set (AList.delete k xs) = fst ` set xs - {k}"
  by (auto simp: AList.delete_eq)

lemma distinct_delete_map [simp]:
  "distinct (map f xs) \<Longrightarrow> distinct (map f (AList.delete k xs))"
  by (simp add: AList.delete_eq distinct_map_filter)

lemma set_delete: "set (AList.delete k xs) = {p \<in> set xs. fst p \<noteq> k}"
  by (auto simp: AList.delete_eq)

lemma Register_Some:
  "Register name v reg = Some reg' \<longleftrightarrow>
     (if name = [] then reg' = reg else name \<notin> fst ` set reg \<and> reg' = reg @ [(name, v)])"
  by (auto simp: Register_def map_of_None_fst [symmetric])

lemma Register_None: "Register name v reg = None \<longleftrightarrow> name \<noteq> [] \<and> name \<in> fst ` set reg"
  using map_of_None_fst [of reg name] by (auto simp: Register_def)

lemma Get_Some: "Get name reg = Some v \<longleftrightarrow> name \<noteq> [] \<and> map_of reg name = Some v"
  by (simp add: Get_def)

lemma Get_None: "Get name reg = None \<longleftrightarrow> name = [] \<or> name \<notin> fst ` set reg"
  using map_of_None_fst [of reg name] by (auto simp: Get_def)

section \<open>The invariant of the service objects\<close>

definition reg_names :: "gost_node \<Rightarrow> string set" where
  "reg_names nd = fst ` set (svcReg nd)"

definition conf_names :: "gost_node \<Rightarrow> string set" where
  "conf_names nd = (\<lambda>(c, _). s_name c) ` set (cfgServices nd)"

definition open_ids :: "gost_node \<Rightarrow> nat set" where
  "open_ids nd = fst ` set (svcOpen nd)"

definition reg_ids :: "gost_node \<Rightarrow> nat set" where
  "reg_ids nd = (\<lambda>(_, s). sv_id s) ` set (svcReg nd)"

definition svc_wf :: "gost_node \<Rightarrow> bool" where
  "svc_wf nd \<longleftrightarrow> distinct (map fst (svcReg nd)) \<and>
     distinct (map (\<lambda>(_, s). sv_id s) (svcReg nd)) \<and>
     (\<forall>(n, s) \<in> set (svcReg nd). n \<noteq> [] \<and> sv_id s < svcNext nd \<and> s_name (sv_conf s) = n) \<and>
     distinct (map fst (svcOpen nd)) \<and> (\<forall>i \<in> open_ids nd. i < svcNext nd)"

lemma svc_wfD:
  assumes "svc_wf nd"
  shows "distinct (map fst (svcReg nd))" and "[] \<notin> reg_names nd"
    and "i \<in> reg_ids nd \<Longrightarrow> i < svcNext nd" and "i \<in> open_ids nd \<Longrightarrow> i < svcNext nd"
    and "map_of (svcReg nd) n = Some s \<Longrightarrow> s_name (sv_conf s) = n"
  using assms by (auto simp: svc_wf_def reg_names_def reg_ids_def dest!: map_of_SomeD)

text \<open>Two registered services never share an object.\<close>

lemma svc_ids_inj:
  assumes "svc_wf nd" and "map_of (svcReg nd) a = Some s" and "map_of (svcReg nd) b = Some t"
    and "sv_id s = sv_id t"
  shows "a = b"
proof -
  have "inj_on (\<lambda>(_, s). sv_id s) (set (svcReg nd))"
    using assms(1) by (simp add: svc_wf_def distinct_map)
  from inj_onD [OF this _ map_of_SomeD [OF assms(2)] map_of_SomeD [OF assms(3)]] assms(4)
  show ?thesis by simp
qed

lemma Close_fields [simp]:
  "svcReg (Close s nd) = svcReg nd" "svcNext (Close s nd) = svcNext nd"
  "cfgServices (Close s nd) = cfgServices nd" "chainReg (Close s nd) = chainReg nd"
  "cfgChains (Close s nd) = cfgChains nd" "limReg (Close s nd) = limReg nd"
  "cfgLimiters (Close s nd) = cfgLimiters nd" "open_ids (Close s nd) = open_ids nd - {sv_id s}"
  "reg_names (Close s nd) = reg_names nd" "reg_ids (Close s nd) = reg_ids nd"
  by (simp_all add: Close_def open_ids_def reg_names_def reg_ids_def)

lemma UnregisterService_fields [simp]:
  "svcReg (UnregisterService n nd) = AList.delete n (svcReg nd)"
  "svcNext (UnregisterService n nd) = svcNext nd"
  "cfgServices (UnregisterService n nd) = cfgServices nd"
  "chainReg (UnregisterService n nd) = chainReg nd"
  "cfgChains (UnregisterService n nd) = cfgChains nd" "limReg (UnregisterService n nd) = limReg nd"
  "cfgLimiters (UnregisterService n nd) = cfgLimiters nd"
  "reg_names (UnregisterService n nd) = reg_names nd - {n}"
  by (auto simp: UnregisterService_def Unregister_def reg_names_def AList.delete_idem map_of_None_fst
      split: option.split)

lemma open_Unregister:
  "open_ids (UnregisterService n nd) =
     open_ids nd - (case map_of (svcReg nd) n of None \<Rightarrow> {} | Some s \<Rightarrow> {sv_id s})"
  by (auto simp: UnregisterService_def open_ids_def Close_def split: option.split)

lemma Close_wf: "svc_wf nd \<Longrightarrow> svc_wf (Close s nd)"
  by (auto simp: svc_wf_def) (simp add: Close_def)

lemma Unregister_wf: "svc_wf nd \<Longrightarrow> svc_wf (UnregisterService n nd)"
proof -
  assume wf: "svc_wf nd"
  show ?thesis
  proof (cases "map_of (svcReg nd) n")
    case None
    with wf show ?thesis by (simp add: UnregisterService_def)
  next
    case (Some s)
    have "svc_wf (Close s nd)" by (rule Close_wf [OF wf])
    then show ?thesis
      using Some by (auto simp: UnregisterService_def Unregister_def svc_wf_def set_delete open_ids_def)
  qed
qed

text \<open>What \<open>ParseService\<close> does: nothing, or one new listener; a new object is fresh.\<close>

lemma ParseService_cases:
  obtains "snd (ParseService os a c nd) = nd" "\<exists>er. fst (ParseService os a c nd) = Inl er"
  | "snd (ParseService os a c nd) = nd\<lparr>svcOpen := svcOpen nd @ [(svcNext nd, default_types c)],
        svcNext := Suc (svcNext nd)\<rparr>"
    "fst (ParseService os a c nd) = Inr \<lparr>sv_id = svcNext nd, sv_conf = default_types c\<rparr> \<or>
     (\<exists>er. fst (ParseService os a c nd) = Inl er)"
  by (atomize_elim) (auto simp: ParseService_def Let_def split: option.split)

lemma ParseService_fields [simp]:
  "svcReg (snd (ParseService os a c nd)) = svcReg nd"
  "cfgServices (snd (ParseService os a c nd)) = cfgServices nd"
  "chainReg (snd (ParseService os a c nd)) = chainReg nd"
  "cfgChains (snd (ParseService os a c nd)) = cfgChains nd"
  "limReg (snd (ParseService os a c nd)) = limReg nd"
  "cfgLimiters (snd (ParseService os a c nd)) = cfgLimiters nd"
  "reg_names (snd (ParseService os a c nd)) = reg_names nd"
  "reg_ids (snd (ParseService os a c nd)) = reg_ids nd"
  by (cases rule: ParseService_cases [of os a c nd]; simp add: reg_names_def reg_ids_def)+

lemma ParseService_open:
  "open_ids nd \<subseteq> open_ids (snd (ParseService os a c nd))"
  "open_ids (snd (ParseService os a c nd)) \<subseteq> insert (svcNext nd) (open_ids nd)"
  "svcNext nd \<le> svcNext (snd (ParseService os a c nd))"
  by (cases rule: ParseService_cases [of os a c nd]; auto simp: open_ids_def)+

lemma ParseService_Inr:
  assumes "ParseService os a c nd = (Inr s, nd1)"
  shows "sv_id s = svcNext nd" and "sv_conf s = default_types c" and "svcNext nd1 = Suc (svcNext nd)"
    and "open_ids nd1 = insert (svcNext nd) (open_ids nd)"
  using assms by (cases rule: ParseService_cases [of os a c nd]; auto simp: open_ids_def)+

lemma default_types_name [simp]: "s_name (default_types c) = s_name c"
  by (simp add: default_types_def)

lemma ParseService_wf: "svc_wf nd \<Longrightarrow> svc_wf (snd (ParseService os a c nd))"
  by (cases rule: ParseService_cases [of os a c nd])
     (auto simp: svc_wf_def open_ids_def)

text \<open>Registering a fresh object under a free name.\<close>

lemma Register_wf:
  assumes wf: "svc_wf nd" and r: "Register n s (svcReg nd) = Some reg" and n: "n \<noteq> []"
    and s: "sv_id s \<notin> reg_ids nd" "sv_id s < svcNext nd" "s_name (sv_conf s) = n"
  shows "svc_wf (nd\<lparr>svcReg := reg\<rparr>)"
  using assms by (auto simp: Register_Some svc_wf_def reg_ids_def open_ids_def case_prod_beta)

section \<open>What a command can touch\<close>

text \<open>What the rest of the system sees of a service: its configuration and whether its
  listener is open.\<close>

definition svc_view :: "gost_node \<Rightarrow> string \<Rightarrow> (ServiceConfig \<times> bool) option" where
  "svc_view nd n = map_option (\<lambda>s. (sv_conf s, sv_id s \<in> open_ids nd)) (map_of (svcReg nd) n)"

text \<open>The object \<open>s\<close> belongs to no service but \<open>name\<close>.\<close>

definition owned :: "gost_node \<Rightarrow> string \<Rightarrow> svc \<Rightarrow> bool" where
  "owned nd name s \<longleftrightarrow> sv_id s < svcNext nd \<and>
     (\<forall>n t. map_of (svcReg nd) n = Some t \<longrightarrow> sv_id t = sv_id s \<longrightarrow> n = name)"

text \<open>\<open>keeps A nd nd'\<close>: from a well-formed node, \<open>nd'\<close> is well-formed, services outside
  \<open>A\<close> are as before, and objects stay where they belong.\<close>

definition keeps :: "string set \<Rightarrow> gost_node \<Rightarrow> gost_node \<Rightarrow> bool" where
  "keeps A nd nd' \<longleftrightarrow> (svc_wf nd \<longrightarrow> svc_wf nd' \<and>
     (\<forall>n. n \<notin> A \<longrightarrow> svc_view nd' n = svc_view nd n) \<and>
     (\<forall>n s. owned nd n s \<longrightarrow> owned nd' n s) \<and> svcNext nd \<le> svcNext nd')"

interpretation keeps: step_preorder "keeps A" for A
  by unfold_locales (auto simp: keeps_def)

lemma keeps_mono: "keeps A nd nd' \<Longrightarrow> A \<subseteq> B \<Longrightarrow> keeps B nd nd'"
  by (auto simp: keeps_def)

lemma keepsD:
  assumes "keeps A nd nd'" and "svc_wf nd"
  shows "svc_wf nd'" and "n \<notin> A \<Longrightarrow> svc_view nd' n = svc_view nd n"
    and "owned nd m s \<Longrightarrow> owned nd' m s" and "svcNext nd \<le> svcNext nd'"
  using assms by (auto simp: keeps_def)

lemma registered_owned: "svc_wf nd \<Longrightarrow> map_of (svcReg nd) n = Some s \<Longrightarrow> owned nd n s"
  unfolding owned_def using svc_ids_inj [of nd n s] svc_wfD(3) [of nd "sv_id s"]
  by (force simp: reg_ids_def dest: map_of_SomeD)

lemma svc_view_eq:
  "map_of (svcReg nd') n = map_of (svcReg nd) n \<Longrightarrow>
   (\<And>s. map_of (svcReg nd) n = Some s \<Longrightarrow> sv_id s \<in> open_ids nd' \<longleftrightarrow> sv_id s \<in> open_ids nd) \<Longrightarrow>
   svc_view nd' n = svc_view nd n"
  by (cases "map_of (svcReg nd) n") (simp_all add: svc_view_def)

lemma keeps_Close:
  assumes "svc_wf nd \<Longrightarrow> owned nd n s" and "n \<in> A"
  shows "keeps A nd (Close s nd)"
  using assms by (auto simp: keeps_def Close_wf owned_def intro!: svc_view_eq)

lemma map_of_delete: "map_of (AList.delete k xs) n = (if n = k then None else map_of xs n)"
  by (induction xs) auto

lemma keeps_Unregister:
  assumes "n \<in> A"
  shows "keeps A nd (UnregisterService n nd)"
proof -
  have "svc_view (UnregisterService n nd) m = svc_view nd m" if "svc_wf nd" "m \<noteq> n" for m
  proof (cases "map_of (svcReg nd) n")
    case None
    then show ?thesis by (simp add: UnregisterService_def)
  next
    case (Some s)
    show ?thesis
    proof (rule svc_view_eq)
      show "map_of (svcReg (UnregisterService n nd)) m = map_of (svcReg nd) m"
        using that by (simp add: map_of_delete)
      show "sv_id t \<in> open_ids (UnregisterService n nd) \<longleftrightarrow> sv_id t \<in> open_ids nd"
        if "map_of (svcReg nd) m = Some t" for t
      proof -
        have "sv_id t \<noteq> sv_id s" using that \<open>m \<noteq> n\<close> svc_ids_inj [OF \<open>svc_wf nd\<close> that Some] by auto
        then show ?thesis by (simp add: open_Unregister Some)
      qed
    qed
  qed
  moreover have "owned (UnregisterService n nd) m s" if "owned nd m s" for m s
    using that by (auto simp: owned_def map_of_delete)
  ultimately show ?thesis using assms Unregister_wf unfolding keeps_def
    by (metis UnregisterService_fields(2) order_refl)
qed

lemma reg_id_old: "svc_wf nd \<Longrightarrow> map_of (svcReg nd) n = Some s \<Longrightarrow> sv_id s < svcNext nd"
  using svc_wfD(3) [of nd "sv_id s"] by (force simp: reg_ids_def dest: map_of_SomeD)

lemma keeps_Parse: "keeps A nd (snd (ParseService os a c nd))"
proof -
  let ?nd = "snd (ParseService os a c nd)"
  have "svc_view ?nd n = svc_view nd n" if "svc_wf nd" for n
  proof (rule svc_view_eq)
    show "sv_id s \<in> open_ids ?nd \<longleftrightarrow> sv_id s \<in> open_ids nd"
      if "map_of (svcReg nd) n = Some s" for s
      using reg_id_old [OF \<open>svc_wf nd\<close> that]
        ParseService_open(1,2) [where nd = nd and os = os and a = a and c = c] by auto
  qed simp
  then show ?thesis
    using ParseService_open(3) [where nd = nd and os = os and a = a and c = c]
    by (auto simp: keeps_def ParseService_wf owned_def intro: less_le_trans)
qed

text \<open>\<open>fresh\<close>: an object that was created and is not registered.\<close>

definition fresh :: "gost_node \<Rightarrow> svc \<Rightarrow> bool" where
  "fresh nd s \<longleftrightarrow> sv_id s < svcNext nd \<and> sv_id s \<notin> reg_ids nd"

lemma fresh_owned: "fresh nd s \<Longrightarrow> owned nd n s"
  by (force simp: fresh_def owned_def reg_ids_def dest: map_of_SomeD)

lemma Parse_fresh: "svc_wf nd \<Longrightarrow> ParseService os a c nd = (Inr s, nd1) \<Longrightarrow> fresh nd1 s"
  using ParseService_Inr [of os a c nd s nd1] ParseService_fields(8) [of os a c nd]
    svc_wfD(3) [of nd "sv_id s"]
  by (auto simp: fresh_def)

text \<open>Registering does not keep the objects of others apart unless the object is new; the
  objects the callers still hold are older.\<close>

lemma keeps_Register:
  assumes r: "Register n s (svcReg nd) = Some reg" and n: "n \<in> A" "n \<noteq> []"
    and s: "svc_wf nd \<Longrightarrow> fresh nd s" "s_name (sv_conf s) = n"
  shows "svc_wf nd \<Longrightarrow> svc_wf (nd\<lparr>svcReg := reg\<rparr>)"
    and "m \<notin> A \<Longrightarrow> svc_view (nd\<lparr>svcReg := reg\<rparr>) m = svc_view nd m"
    and "svc_wf nd \<Longrightarrow> owned nd m t \<Longrightarrow> sv_id t \<noteq> sv_id s \<Longrightarrow> owned (nd\<lparr>svcReg := reg\<rparr>) m t"
proof -
  show "svc_wf (nd\<lparr>svcReg := reg\<rparr>)" if "svc_wf nd"
    using Register_wf [OF that r n(2)] s that by (simp add: fresh_def)
  show "svc_view (nd\<lparr>svcReg := reg\<rparr>) m = svc_view nd m" if "m \<notin> A"
    using r n that by (auto simp: Register_Some svc_view_def map_add_def open_ids_def
        split: option.split if_splits)
  show "owned (nd\<lparr>svcReg := reg\<rparr>) m t" if "svc_wf nd" "owned nd m t" "sv_id t \<noteq> sv_id s"
    using r n that by (auto simp: Register_Some owned_def map_add_def split: option.splits if_splits)
qed

text \<open>The two together: a new object that is created and registered at once.\<close>

lemma keeps_Parse_Register:
  assumes p: "ParseService os a c nd = (Inr s, nd1)" and r: "Register n s (svcReg nd1) = Some reg"
    and n: "n \<in> A" "n \<noteq> []" "s_name c = n"
  shows "keeps A nd (nd1\<lparr>svcReg := reg\<rparr>)"
proof -
  have nd1: "snd (ParseService os a c nd) = nd1" using p by simp
  have k: "keeps A nd nd1" using keeps_Parse [of A nd os a c] by (simp add: p)
  note i = ParseService_Inr [OF p]
  show ?thesis
    unfolding keeps_def
  proof (intro impI conjI allI)
    assume wf: "svc_wf nd"
    note R = keeps_Register [OF r n(1,2) Parse_fresh [OF wf p]]
    show "svc_wf (nd1\<lparr>svcReg := reg\<rparr>)" using R(1) keepsD(1) [OF k wf] i n by simp
    show "svc_view (nd1\<lparr>svcReg := reg\<rparr>) m = svc_view nd m" if "m \<notin> A" for m
      using R(2) [OF _ that] keepsD(2) [OF k wf that] i n by simp
    show "owned (nd1\<lparr>svcReg := reg\<rparr>) m t" if "owned nd m t" for m t
    proof (rule R(3))
      show "sv_id t \<noteq> sv_id s" using that i by (simp add: owned_def)
    qed (use keepsD [OF k wf] that i n in simp_all)
    show "svcNext nd \<le> svcNext (nd1\<lparr>svcReg := reg\<rparr>)" using i by simp
  qed
qed

end
