(* ===== verification/Node_Frame.thy ===== *)
theory Node_Frame
  imports Node_Inv
begin

text \<open>
  Every command of the panel keeps a node well-formed and leaves alone the services it does not
  name, whatever the operating system answers.
\<close>

text \<open>Parts of the node the services do not depend on.\<close>

lemma keeps_conf [simp]: "keeps A nd (nd'\<lparr>cfgServices := cs\<rparr>) = keeps A nd nd'"
  "keeps A (nd\<lparr>cfgServices := cs\<rparr>) nd' = keeps A nd nd'"
  by (simp_all add: keeps_def svc_wf_def svc_view_def owned_def open_ids_def)

lemma keeps_set_paused [simp]: "keeps A nd (set_paused b n nd') = keeps A nd nd'"
  by (simp add: set_paused_def)

lemma keeps_fold_paused [simp]:
  "keeps A nd (fold (\<lambda>(n, _). set_paused b n) xs nd') = keeps A nd nd'"
proof (induction xs arbitrary: nd')
  case (Cons x xs)
  show ?case by (cases x) (simp add: Cons.IH)
qed simp

lemma keeps_trans_wf: "keeps A nd nd1 \<Longrightarrow> (svc_wf nd \<Longrightarrow> keeps A nd1 nd2) \<Longrightarrow> keeps A nd nd2"
  by (cases "svc_wf nd") (auto simp: keeps_def intro: order_trans)

lemma keeps_Close_registered:
  "map_of (svcReg nd) n = Some s \<Longrightarrow> n \<in> A \<Longrightarrow> keeps A nd (Close s nd)"
  by (rule keeps_Close [OF registered_owned])

lemma keeps_roll_back_new: "set names \<subseteq> A \<Longrightarrow> keeps A nd (roll_back_new names nd)"
  unfolding roll_back_new_def
proof (rule keeps.R_fold)
  fix n nd
  assume "set names \<subseteq> A" and "n \<in> set names"
  then have n: "n \<in> A" by auto
  show "keeps A nd (case Get n (svcReg nd) of None \<Rightarrow> nd | Some s \<Rightarrow> Close s (UnregisterService n nd))"
  proof (cases "Get n (svcReg nd)")
    case None
    then show ?thesis by (simp add: keeps.R_refl)
  next
    case (Some s)
    then have s: "map_of (svcReg nd) n = Some s" by (simp add: Get_Some)
    have "keeps A nd (Close s (UnregisterService n nd))"
    proof (rule keeps_trans_wf [OF keeps_Unregister [OF n]])
      assume wf: "svc_wf nd"
      show "keeps A (UnregisterService n nd) (Close s (UnregisterService n nd))"
        using keepsD(3) [OF keeps_Unregister [OF n] wf registered_owned [OF wf s]] n
        by (rule keeps_Close)
    qed
    with Some show ?thesis by simp
  qed
qed

section \<open>Adding\<close>

text \<open>The objects parsed in the first phase.\<close>

definition new_objects :: "gost_node \<Rightarrow> svc list \<Rightarrow> bool" where
  "new_objects nd ss \<longleftrightarrow> distinct (map sv_id ss) \<and> (\<forall>s \<in> set ss. fresh nd s \<and>
     s_name (sv_conf s) \<noteq> [])"

text \<open>The ways a run of the first phase can go.\<close>

lemma parse_new_induct [case_names nil stop fail more]:
  assumes "\<And>nd. P [] nd (Inr []) nd"
    and "\<And>c cs nd er. P (c # cs) nd (Inl er) nd"
    and "\<And>c cs nd er er' nd1. ParseService os 0 (c\<lparr>s_name := trim_space (s_name c)\<rparr>) nd = (Inl er, nd1) \<Longrightarrow>
       P (c # cs) nd (Inl er') nd1"
    and "\<And>c cs nd s nd1 r nd2. trim_space (s_name c) \<noteq> [] \<Longrightarrow>
       trim_space (s_name c) \<notin> reg_names nd \<Longrightarrow>
       ParseService os 0 (c\<lparr>s_name := trim_space (s_name c)\<rparr>) nd = (Inr s, nd1) \<Longrightarrow>
       P cs nd1 r nd2 \<Longrightarrow>
       P (c # cs) nd (case r of Inl er \<Rightarrow> Inl er | Inr ss \<Rightarrow> Inr (s # ss)) nd2"
  shows "P cs nd (fst (parse_new os cs nd)) (snd (parse_new os cs nd))"
proof (induction cs arbitrary: nd)
  case Nil
  show ?case using assms(1) by simp
next
  case (Cons c cs)
  let ?n = "trim_space (s_name c)"
  obtain r nd1 where p: "ParseService os 0 (c\<lparr>s_name := ?n\<rparr>) nd = (r, nd1)" by fastforce
  show ?case
  proof (cases "?n = [] \<or> IsRegistered ?n (svcReg nd)")
    case True
    then show ?thesis using assms(2) by (auto simp: Let_def)
  next
    case False
    then have n: "?n \<noteq> []" "?n \<notin> reg_names nd"
      by (auto simp: IsRegistered_def reg_names_def map_of_None_fst)
    show ?thesis
    proof (cases r)
      case (Inl er)
      with p assms(3) False show ?thesis by (simp add: Let_def)
    next
      case (Inr s)
      have eq: "parse_new os (c # cs) nd =
          (case fst (parse_new os cs nd1) of Inl er \<Rightarrow> Inl er | Inr ss \<Rightarrow> Inr (s # ss),
           snd (parse_new os cs nd1))"
        using False p Inr by (simp add: Let_def case_prod_beta split: sum.split prod.split)
      show ?thesis unfolding eq using assms(4) [OF n p [unfolded Inr] Cons] by simp
    qed
  qed
qed

lemma parse_new_keeps:
  "keeps A nd (snd (parse_new os cs nd)) \<and> svcReg (snd (parse_new os cs nd)) = svcReg nd \<and>
   cfgServices (snd (parse_new os cs nd)) = cfgServices nd"
proof (induction rule: parse_new_induct)
  case (fail c cs nd er er' nd1)
  then show ?case
    using keeps_Parse [of A nd os 0 "c\<lparr>s_name := trim_space (s_name c)\<rparr>"]
      ParseService_fields(1,2) [of os 0 "c\<lparr>s_name := trim_space (s_name c)\<rparr>" nd] by simp
next
  case (more c cs nd s nd1 r nd2)
  then show ?case
    using keeps_Parse [of A nd os 0 "c\<lparr>s_name := trim_space (s_name c)\<rparr>"]
      ParseService_fields(1,2) [of os 0 "c\<lparr>s_name := trim_space (s_name c)\<rparr>" nd]
    by (auto intro: keeps.R_trans)
qed (simp_all add: keeps.R_refl)

text \<open>The parsed objects have the names of the request, and are new and different.\<close>

lemma parse_new_Inr:
  "(fst (parse_new os cs nd) = Inr ss \<longrightarrow> svc_wf nd \<longrightarrow>
     map sv_conf ss = map (\<lambda>c. default_types (c\<lparr>s_name := trim_space (s_name c)\<rparr>)) cs \<and>
     new_objects (snd (parse_new os cs nd)) ss \<and> (\<forall>s \<in> set ss. svcNext nd \<le> sv_id s) \<and>
     (\<forall>s \<in> set ss. s_name (sv_conf s) \<notin> reg_names nd)) \<and>
   reg_ids (snd (parse_new os cs nd)) = reg_ids nd \<and> svcNext nd \<le> svcNext (snd (parse_new os cs nd))"
proof (induction arbitrary: ss rule: parse_new_induct)
  case (nil nd)
  then show ?case by (simp add: new_objects_def)
next
  case (fail c cs nd er er' nd1)
  let ?c = "c\<lparr>s_name := trim_space (s_name c)\<rparr>"
  show ?case
    using ParseService_open(3) [of nd os 0 ?c] ParseService_fields(8) [of os 0 ?c nd]
    by (simp add: fail)
next
  case (more c cs nd s nd1 r nd2)
  let ?c = "c\<lparr>s_name := trim_space (s_name c)\<rparr>"
  note i = ParseService_Inr [OF more.hyps(3)]
  have reg: "reg_names nd1 = reg_names nd" "reg_ids nd1 = reg_ids nd"
    and wf: "svc_wf nd \<Longrightarrow> svc_wf nd1"
    using ParseService_wf [of nd os 0 ?c] ParseService_fields(7,8) [of os 0 ?c nd]
    by (simp_all add: more.hyps(3))
  have up: "svcNext nd1 \<le> svcNext nd2" "reg_ids nd2 = reg_ids nd"
    using more.IH reg by simp_all
  have "svcNext nd \<notin> reg_ids nd" if "svc_wf nd" using svc_wfD(3) [OF that] by blast
  then have s: "fresh nd2 s" if "svc_wf nd" using up i that by (simp add: fresh_def)
  show ?case
  proof (cases r)
    case (Inr ss')
    with more.IH [of ss'] wf reg up i s more.hyps show ?thesis
      by (auto simp: new_objects_def) (metis Suc_n_not_le_n, metis Suc_leD)
  qed (use up i in simp)
qed simp

text \<open>The second phase; \<open>nd0\<close> is the node before the request.\<close>

lemma keeps_Register_since:
  assumes wf: "svc_wf nd0" and k: "keeps A nd0 nd" and s: "fresh nd s" "svcNext nd0 \<le> sv_id s"
    and n: "s_name (sv_conf s) = n" "n \<noteq> []" "n \<in> A" and r: "Register n s (svcReg nd) = Some reg"
  shows "keeps A nd0 (nd\<lparr>svcReg := reg\<rparr>)"
proof -
  have wf1: "svc_wf nd" by (rule keepsD(1) [OF k wf])
  note R = keeps_Register [OF r n(3,2) s(1) n(1)]
  have "owned (nd\<lparr>svcReg := reg\<rparr>) m t" if "owned nd0 m t" for m t
    using R(3) [OF wf1 keepsD(3) [OF k wf that]] that s(2) by (simp add: owned_def)
  then show ?thesis
    using R(1) [OF wf1] R(2) keepsD(2,4) [OF k wf] wf by (simp add: keeps_def)
qed

lemma keeps_register_new:
  "svc_wf nd0 \<Longrightarrow> keeps A nd0 nd \<Longrightarrow> new_objects nd ss \<Longrightarrow> \<forall>s \<in> set ss. svcNext nd0 \<le> sv_id s \<Longrightarrow>
   (\<lambda>s. s_name (sv_conf s)) ` set ss \<subseteq> A \<Longrightarrow> set registered \<subseteq> A \<Longrightarrow>
   keeps A nd0 (snd (register_new ss registered nd))"
proof (induction ss registered nd rule: register_new.induct)
  case (2 s ss registered nd)
  let ?n = "s_name (sv_conf s)"
  have n: "?n \<noteq> []" "?n \<in> A" and f: "fresh nd s" "svcNext nd0 \<le> sv_id s"
    using 2 by (auto simp: new_objects_def)
  show ?case
  proof (cases "Register ?n s (svcReg nd)")
    case None
    with 2 show ?thesis
      by (auto simp: Let_def intro: keeps.R_trans keeps_roll_back_new)
  next
    case (Some reg)
    then have "reg = svcReg nd @ [(?n, s)]" using n by (simp add: Register_Some)
    then have new: "new_objects (nd\<lparr>svcReg := reg\<rparr>) ss"
      using "2.prems"(3) by (auto simp: new_objects_def fresh_def reg_ids_def) (metis image_eqI)
    have "keeps A nd0 (nd\<lparr>svcReg := reg\<rparr>)"
      by (rule keeps_Register_since [OF 2(2,3) f refl n Some])
    from "2.IH" [OF refl Some "2.prems"(1) this new] "2.prems"(4-6) n Some show ?thesis
      by (simp add: Let_def)
  qed
qed simp

lemma createServices_keeps:
  assumes "createServices os data nd = Replied r nd'"
  shows "keeps ((\<lambda>c. trim_space (s_name c)) ` set data) nd nd'"
proof (cases "svc_wf nd")
  case wf: True
  let ?A = "(\<lambda>c. trim_space (s_name c)) ` set data"
  obtain q nd1 where p: "parse_new os data nd = (q, nd1)" by fastforce
  have k: "keeps ?A nd nd1" using parse_new_keeps [of ?A nd os data] p by simp
  show ?thesis
  proof (cases "data = []")
    case True
    with assms show ?thesis by (simp add: createServices_def keeps.R_refl)
  next
    case data: False
    show ?thesis
    proof (cases q)
      case (Inl er)
      with assms data p k show ?thesis by (simp add: createServices_def)
    next
      case (Inr ss)
      have new: "new_objects nd1 ss" "\<forall>s \<in> set ss. svcNext nd \<le> sv_id s"
        and confs: "map sv_conf ss = map (\<lambda>c. default_types (c\<lparr>s_name := trim_space (s_name c)\<rparr>)) data"
        using parse_new_Inr [of os data nd ss] p Inr wf by simp_all
      have "map (\<lambda>s. s_name (sv_conf s)) ss = map (\<lambda>c. trim_space (s_name c)) data"
        using arg_cong [OF confs, of "map s_name"] by (simp add: comp_def)
      then have "(\<lambda>s. s_name (sv_conf s)) ` set ss = ?A" by (metis list.set_map)
      then have "keeps ?A nd (snd (register_new ss [] nd1))"
        using keeps_register_new [OF wf k new] by simp
      with assms data p Inr show ?thesis
        by (auto simp: createServices_def split: prod.splits option.splits)
    qed
  qed
qed (simp add: keeps_def)

section \<open>Updating\<close>

lemma missing_None: "missing nd raw = None \<longleftrightarrow> trim_space raw \<in> reg_names nd \<and> trim_space raw \<noteq> []"
  by (auto simp: missing_def Let_def Get_None reg_names_def)

lemma first_error_None: "first_error f xs = None \<longleftrightarrow> (\<forall>x \<in> set xs. f x = None)"
  by (induction xs) (auto split: option.splits)

lemma close_old_keeps:
  "close_old names nd = Some nd' \<Longrightarrow> keeps (trim_space ` set names) nd nd'"
proof (induction names nd rule: close_old.induct)
  case (2 raw rest nd)
  let ?n = "trim_space raw" and ?A = "trim_space ` set (raw # rest)"
  obtain s where s: "Get ?n (svcReg nd) = Some s"
    using "2.prems" by (cases "Get ?n (svcReg nd)") (auto simp: Let_def)
  then have "keeps ?A nd (Close s nd)" by (intro keeps_Close_registered) (auto simp: Get_Some)
  moreover have "keeps ?A (Close s nd) (UnregisterService ?n (Close s nd))"
    by (rule keeps_Unregister) simp
  moreover have "keeps ?A (UnregisterService ?n (Close s nd)) nd'"
    by (rule keeps_mono [OF "2.IH" [OF refl s]]) (use "2.prems" s in \<open>auto simp: Let_def\<close>)
  ultimately show ?case by (meson keeps.R_trans)
qed (simp add: keeps.R_refl)

lemma retry_parse_last:
  "\<exists>a nd'. retry_parse os n left c nd = ParseService os a c nd' \<and> keeps A nd nd' \<and>
     svcReg nd' = svcReg nd \<and> cfgServices nd' = cfgServices nd"
proof (induction os n left c nd rule: retry_parse.induct)
  case (1 os attempt c nd)
  show ?case using keeps.R_refl by fastforce
next
  case (2 os attempt left c nd)
  obtain r nd1 where p: "ParseService os attempt c nd = (r, nd1)" by fastforce
  show ?case
  proof (cases "\<exists>er. r = Inl er \<and> contains_str er ''address already in use''")
    case True
    then obtain er where r: "r = Inl er" and u: "contains_str er ''address already in use''" by blast
    have "keeps A nd nd1" "svcReg nd1 = svcReg nd" "cfgServices nd1 = cfgServices nd"
      using keeps_Parse [of A nd os attempt c] ParseService_fields(1,2) [of os attempt c nd] p by simp_all
    moreover obtain a nd' where "retry_parse os (Suc attempt) left c nd1 = ParseService os a c nd'"
      "keeps A nd1 nd'" "svcReg nd' = svcReg nd1" "cfgServices nd' = cfgServices nd1"
      using 2 [OF p [symmetric] r] u by blast
    ultimately show ?thesis using p r u by (auto intro!: exI [of _ a] exI [of _ nd'] intro: keeps.R_trans)
  next
    case False
    then have "retry_parse os attempt (Suc left) c nd = ParseService os attempt c nd"
      by (auto simp: p split: sum.split)
    then show ?thesis using keeps.R_refl by fastforce
  qed
qed

lemma recreate_keeps:
  "keeps ((\<lambda>c. trim_space (s_name c)) ` set cs) nd (snd (recreate os cs nd))"
  if "\<forall>c \<in> set cs. trim_space (s_name c) \<noteq> []"
  using that
proof (induction os cs nd rule: recreate.induct)
  case (2 os c cs nd)
  let ?n = "trim_space (s_name c)" and ?A = "(\<lambda>c. trim_space (s_name c)) ` set (c # cs)"
  let ?c = "c\<lparr>s_name := ?n\<rparr>"
  obtain a nd' where e: "retry_parse os 0 2 ?c nd = ParseService os a ?c nd'" and k: "keeps ?A nd nd'"
    using retry_parse_last by blast
  obtain r nd1 where p: "ParseService os a ?c nd' = (r, nd1)" by fastforce
  have k1: "keeps ?A nd nd1"
    using keeps.R_trans [OF k keeps_Parse [of ?A nd' os a ?c]] p by simp
  show ?case
  proof (cases r)
    case (Inl er)
    with e p k1 show ?thesis by (simp add: Let_def)
  next
    case (Inr s)
    show ?thesis
    proof (cases "Register ?n s (svcReg nd1)")
      case None
      have "keeps ?A nd (Close s nd1)"
      proof (rule keeps_trans_wf [OF k])
        assume "svc_wf nd"
        then have wf: "svc_wf nd'" by (rule keepsD(1) [OF k])
        have "keeps ?A nd' nd1" using keeps_Parse [of ?A nd' os a ?c] p by simp
        moreover have "keeps ?A nd1 (Close s nd1)"
          by (rule keeps_Close [of _ ?n]) (use fresh_owned Parse_fresh [OF wf p [unfolded Inr]] in auto)
        ultimately show "keeps ?A nd' (Close s nd1)" by (rule keeps.R_trans)
      qed
      with None e p Inr show ?thesis by (simp add: Let_def)
    next
      case (Some reg)
      have "keeps ?A nd (nd1\<lparr>svcReg := reg\<rparr>)"
        using keeps.R_trans [OF k keeps_Parse_Register [OF p [unfolded Inr] Some]] "2.prems" by simp
      moreover have "keeps ?A (nd1\<lparr>svcReg := reg\<rparr>) (snd (recreate os cs (nd1\<lparr>svcReg := reg\<rparr>)))"
        by (rule keeps_mono [OF "2.IH" [OF refl e [unfolded p Inr, symmetric, unfolded p] refl Some]])
           (use "2.prems" in auto)
      ultimately show ?thesis using Some e p Inr by (auto simp: Let_def intro: keeps.R_trans)
    qed
  qed
qed (simp add: keeps.R_refl)

lemma updateServices_keeps:
  assumes "updateServices os data nd = Replied r nd'"
  shows "keeps ((\<lambda>c. trim_space (s_name c)) ` set data) nd nd'"
proof (cases "data = [] \<or> first_error (missing nd) (map s_name data) \<noteq> None")
  case True
  with assms show ?thesis
    by (auto simp: updateServices_def keeps.R_refl split: option.splits if_splits)
next
  case False
  let ?A = "(\<lambda>c. trim_space (s_name c)) ` set data"
  from False have ne: "\<forall>c \<in> set data. trim_space (s_name c) \<noteq> []"
    by (auto simp: first_error_None missing_None)
  from False assms obtain nd1 where c: "close_old (map s_name data) nd = Some nd1"
    by (auto simp: updateServices_def split: option.splits)
  have "keeps ?A nd nd1" using close_old_keeps [OF c] by (simp add: image_image)
  then have "keeps ?A nd (snd (recreate os data nd1))"
    by (rule keeps.R_trans) (rule recreate_keeps [OF ne])
  with assms False c show ?thesis
    by (auto simp: updateServices_def split: option.splits prod.splits)
qed

section \<open>Deleting, pausing, resuming\<close>

lemma keeps_close_all:
  assumes "\<forall>(n, s) \<in> set xs. owned nd n s \<and> n \<in> A" and wf: "svc_wf nd"
  shows "keeps A nd (fold (\<lambda>(n, s) nd. Close s (UnregisterService n nd)) xs nd)"
  using assms
proof (induction xs arbitrary: nd)
  case (Cons x xs)
  obtain n s where x: "x = (n, s)" by (cases x)
  let ?nd = "Close s (UnregisterService n nd)"
  have n: "n \<in> A" and o: "owned nd n s" using Cons.prems x by auto
  have k1: "keeps A nd (UnregisterService n nd)" by (rule keeps_Unregister [OF n])
  have k: "keeps A nd ?nd"
    by (rule keeps.R_trans [OF k1], rule keeps_Close [OF _ n], rule keepsD(3) [OF k1 Cons.prems(2) o])
  have "keeps A ?nd (fold (\<lambda>(n, s) nd. Close s (UnregisterService n nd)) xs ?nd)"
  proof (rule Cons.IH)
    show "\<forall>(n, s) \<in> set xs. owned ?nd n s \<and> n \<in> A"
      using Cons.prems(1) keepsD(3) [OF k Cons.prems(2)] by auto
  qed (rule keepsD(1) [OF k Cons.prems(2)])
  with k show ?case by (simp add: x keeps.R_trans)
qed (simp add: keeps.R_refl)

text \<open>The objects a request with only registered names captures.\<close>

lemma captured:
  assumes wf: "svc_wf nd" and ok: "first_error (missing nd) services = None"
  shows "\<forall>(n, s) \<in> set (map (\<lambda>raw. (trim_space raw, the (Get (trim_space raw) (svcReg nd)))) services).
    map_of (svcReg nd) n = Some s \<and> owned nd n s \<and> n \<in> trim_space ` set services"
proof -
  have "map_of (svcReg nd) (trim_space raw) = Some (the (Get (trim_space raw) (svcReg nd)))"
    if "raw \<in> set services" for raw
    using ok that by (auto simp: first_error_None missing_def Let_def Get_def split: if_splits)
  then show ?thesis using registered_owned [OF wf] by auto
qed

lemma deleteServices_keeps:
  assumes "deleteServices services nd = Replied r nd'"
  shows "keeps (trim_space ` set services) nd nd'"
proof (cases "svc_wf nd")
  case wf: True
  show ?thesis
  proof (cases "first_error (missing nd) services")
    case (Some er)
    with assms show ?thesis by (auto simp: deleteServices_def keeps.R_refl split: if_splits)
  next
    case None
    have "\<forall>(n, s) \<in> set (map (\<lambda>raw. (trim_space raw, the (Get (trim_space raw) (svcReg nd)))) services).
      owned nd n s \<and> n \<in> trim_space ` set services"
      using captured [OF wf None] by auto
    from keeps_close_all [OF this wf] None assms show ?thesis
      by (auto simp: deleteServices_def Let_def keeps.R_refl split: if_splits)
  qed
qed (simp add: keeps_def)

lemma keeps_rollbackPaused:
  assumes "fst pss \<in> A" and c: "s_name (snd pss) = fst pss"
  shows "keeps A nd (rollbackPaused os pss nd)"
proof -
  obtain name c where pss: "pss = (name, c)" by (cases pss)
  obtain r nd1 where p: "ParseService os 0 c nd = (r, nd1)" by fastforce
  have k: "keeps A nd nd1" using keeps_Parse [of A nd os 0 c] p by simp
  show ?thesis
  proof (cases r)
    case (Inl er)
    with k p pss show ?thesis by (simp add: rollbackPaused_def)
  next
    case (Inr s)
    note i = ParseService_Inr [OF p [unfolded Inr]]
    show ?thesis
    proof (cases "Register name s (svcReg nd1)")
      case None
      have "keeps A nd (Close s nd1)"
      proof (cases "svc_wf nd")
        case True
        have "owned nd1 name s" by (rule fresh_owned [OF Parse_fresh [OF True p [unfolded Inr]]])
        then show ?thesis using k assms pss by (auto intro: keeps.R_trans keeps_Close)
      qed (simp add: keeps_def)
      with None p pss Inr show ?thesis by (simp add: rollbackPaused_def)
    next
      case (Some reg)
      have "keeps A nd (nd1\<lparr>svcReg := reg\<rparr>)"
      proof (cases "name = []")
        case True
        with Some k show ?thesis by (simp add: Register_Some)
      next
        case False
        then show ?thesis using keeps_Parse_Register [OF p [unfolded Inr] Some] assms pss by simp
      qed
      with Some p pss Inr show ?thesis by (simp add: rollbackPaused_def)
    qed
  qed
qed

lemma last_conf_name: "last_conf nd name = Some c \<Longrightarrow> s_name c = name"
  by (auto simp: last_conf_def find_Some_iff)

lemma keeps_pause_each:
  "\<forall>(n, s) \<in> set xs. owned nd n s \<and> n \<in> A \<Longrightarrow> \<forall>(n, c) \<in> set paused. n \<in> A \<and> s_name c = n \<Longrightarrow>
   svc_wf nd \<Longrightarrow> (\<And>n c. confs n = Some c \<Longrightarrow> s_name c = n) \<Longrightarrow>
   keeps A nd (snd (pause_each os confs xs paused nd))"
proof (induction os confs xs paused nd rule: pause_each.induct)
  case (2 os confs name s rest paused nd)
  show ?case
  proof (cases "confs name")
    case None
    have "keeps A nd (rollbackPausedServices os paused nd)"
      unfolding rollbackPausedServices_def
      by (rule keeps.R_fold, rule keeps_rollbackPaused) (use "2.prems"(2) in auto)
    with None show ?thesis by simp
  next
    case (Some c)
    have k: "keeps A nd (Close s nd)"
      by (rule keeps_Close [of _ name]) (use "2.prems" in auto)
    have "keeps A (Close s nd) (snd (pause_each os confs rest (paused @ [(name, c)]) (Close s nd)))"
    proof (rule "2.IH" [OF Some])
      show "\<forall>(n, s') \<in> set rest. owned (Close s nd) n s' \<and> n \<in> A"
        using "2.prems"(1) keepsD(3) [OF k "2.prems"(3)] by auto
      show "\<forall>(n, c) \<in> set (paused @ [(name, c)]). n \<in> A \<and> s_name c = n"
        using "2.prems"(1,2,4) Some by auto
    qed (use keepsD(1) [OF k "2.prems"(3)] "2.prems"(4) in auto)
    with k Some show ?thesis by (auto intro: keeps.R_trans)
  qed
qed (simp add: keeps.R_refl)

lemma pauseServices_keeps:
  assumes "pauseServices os services nd = Replied r nd'"
  shows "keeps (trim_space ` set services) nd nd'"
proof (cases "svc_wf nd")
  case wf: True
  show ?thesis
  proof (cases "first_error (missing nd) services")
    case (Some er)
    with assms show ?thesis by (auto simp: pauseServices_def keeps.R_refl split: if_splits)
  next
    case None
    let ?xs = "map (\<lambda>raw. (trim_space raw, the (Get (trim_space raw) (svcReg nd)))) services"
    have "keeps (trim_space ` set services) nd (snd (pause_each os (last_conf nd) ?xs [] nd))"
      by (rule keeps_pause_each) (use captured [OF wf None] wf last_conf_name in auto)
    with None assms show ?thesis
      by (auto simp: pauseServices_def Let_def case_prod_beta keeps.R_refl
          split: if_splits option.splits prod.splits)
  qed
qed (simp add: keeps_def)

lemma keeps_rollbackResumed:
  "set names \<subseteq> A \<Longrightarrow> keeps A nd (rollbackResumedServices names nd)"
  unfolding rollbackResumedServices_def
  by (rule keeps.R_fold)
     (auto simp: Get_Some keeps.R_refl intro: keeps_Close_registered split: option.split)

lemma keeps_resume_each:
  "\<forall>(n, s, c) \<in> set xs. owned nd n s \<and> n \<in> A \<and> n \<noteq> [] \<and> s_name c = n \<Longrightarrow> set resumed \<subseteq> A \<Longrightarrow>
   svc_wf nd \<Longrightarrow> keeps A nd (snd (resume_each os xs resumed nd))"
proof (induction os xs resumed nd rule: resume_each.induct)
  case (2 os name s c rest resumed nd)
  let ?nd = "UnregisterService name (Close s nd)"
  have n: "name \<in> A" "name \<noteq> []" "s_name c = name" and o: "owned nd name s"
    using "2.prems"(1) by auto
  have k0: "keeps A nd ?nd"
    by (rule keeps.R_trans [OF keeps_Close [OF o n(1)] keeps_Unregister [OF n(1)]])
  have wf: "svc_wf ?nd" by (rule keepsD(1) [OF k0 "2.prems"(3)])
  obtain q nd1 where p: "ParseService os 0 c ?nd = (q, nd1)" by fastforce
  have k1: "keeps A nd nd1" using keeps.R_trans [OF k0 keeps_Parse [of A ?nd os 0 c]] p by simp
  show ?case
  proof (cases q)
    case (Inl er)
    with p k1 "2.prems"(2) show ?thesis by (auto intro: keeps.R_trans keeps_rollbackResumed)
  next
    case (Inr s')
    show ?thesis
    proof (cases "Register name s' (svcReg nd1)")
      case None
      have "keeps A nd (Close s' nd1)"
        using fresh_owned [OF Parse_fresh [OF wf p [unfolded Inr]]] n k1
        by (auto intro: keeps.R_trans keeps_Close)
      with None p Inr "2.prems"(2) show ?thesis by (auto intro: keeps.R_trans keeps_rollbackResumed)
    next
      case (Some reg)
      have k2: "keeps A nd (nd1\<lparr>svcReg := reg\<rparr>)"
        by (rule keeps.R_trans [OF k0 keeps_Parse_Register [OF p [unfolded Inr] Some n]])
      have "keeps A (nd1\<lparr>svcReg := reg\<rparr>)
          (snd (resume_each os rest (resumed @ [name]) (nd1\<lparr>svcReg := reg\<rparr>)))"
      proof (rule "2.IH" [OF p [unfolded Inr, symmetric] refl Some])
        show "\<forall>(n, s, c) \<in> set rest. owned (nd1\<lparr>svcReg := reg\<rparr>) n s \<and> n \<in> A \<and> n \<noteq> [] \<and> s_name c = n"
          using "2.prems"(1) keepsD(3) [OF k2 "2.prems"(3)] by auto
      qed (use "2.prems"(2) n keepsD(1) [OF k2 "2.prems"(3)] in auto)
      with k2 p Inr Some show ?thesis by (auto intro: keeps.R_trans)
    qed
  qed
qed (simp add: keeps.R_refl)

lemma select_paused_Inr:
  "select_paused nd services = Inr sel \<Longrightarrow> svc_wf nd \<Longrightarrow>
   \<forall>(n, s, c) \<in> set sel. owned nd n s \<and> n \<in> trim_space ` set services \<and> n \<noteq> [] \<and> s_name c = n"
proof (induction nd services arbitrary: sel rule: select_paused.induct)
  case (2 nd raw rest)
  let ?n = "trim_space raw"
  from "2.prems"(1) obtain s c b sel' where n: "?n \<noteq> []" and s: "Get ?n (svcReg nd) = Some s"
    and c: "first_conf nd ?n = Some (c, b)" and sel': "select_paused nd rest = Inr sel'"
    and sel: "sel = (if b then (?n, s, c) # sel' else sel')"
    by (auto simp: Let_def split: if_splits option.splits sum.splits)
  have "owned nd ?n s" by (rule registered_owned [OF "2.prems"(2)]) (use s in \<open>simp add: Get_Some\<close>)
  moreover have "s_name c = ?n" using c by (auto simp: first_conf_def find_Some_iff)
  moreover have "\<forall>(n, s, c) \<in> set sel'. owned nd n s \<and> n \<in> trim_space ` set rest \<and> n \<noteq> [] \<and> s_name c = n"
    by (rule "2.IH" [OF refl n s c _ sel' "2.prems"(2)]) simp
  ultimately show ?case using n sel by auto
qed simp

lemma resumeServices_keeps:
  assumes "resumeServices os services nd = Replied r nd'"
  shows "keeps (trim_space ` set services) nd nd'"
proof (cases "svc_wf nd")
  case wf: True
  show ?thesis
  proof (cases "select_paused nd services")
    case (Inl er)
    with assms show ?thesis by (auto simp: resumeServices_def keeps.R_refl split: if_splits)
  next
    case (Inr sel)
    have "keeps (trim_space ` set services) nd (snd (resume_each os sel [] nd))"
      by (rule keeps_resume_each) (use select_paused_Inr [OF Inr wf] wf in auto)
    with Inr assms show ?thesis
      by (auto simp: resumeServices_def case_prod_beta keeps.R_refl
          split: if_splits option.splits prod.splits)
  qed
qed (simp add: keeps_def)

section \<open>Hot update, chains, limiters\<close>

lemma keeps_set_object:
  assumes n: "map_of (svcReg nd) name = Some s" "name \<in> A"
    and s': "sv_id s' = sv_id s" "s_name (sv_conf s') = s_name (sv_conf s)"
  shows "keeps A nd (nd\<lparr>svcReg := AList.update name s' (svcReg nd)\<rparr>)"
proof -
  let ?reg = "AList.update name s' (svcReg nd)"
  have upd: "map_of ?reg m = (if m = name then Some s' else map_of (svcReg nd) m)" for m
    by (simp add: update_conv')
  have wf: "svc_wf (nd\<lparr>svcReg := ?reg\<rparr>)" if "svc_wf nd"
  proof -
    have "name \<in> fst ` set (svcReg nd)" using n(1) by (metis map_of_None_fst option.distinct(1))
    then have k: "map fst ?reg = map fst (svcReg nd)" by (simp add: update_keys)
    have "map (\<lambda>(_, s). sv_id s) (AList.update name s' xs) = map (\<lambda>(_, s). sv_id s) xs"
      if "map_of xs name = Some s" for xs
      using that s'(1) by (induction xs) auto
    from this [OF n(1)] have ids: "map (\<lambda>(_, s). sv_id s) ?reg = map (\<lambda>(_, s). sv_id s) (svcReg nd)" .
    have "a \<noteq> [] \<and> sv_id t < svcNext nd \<and> s_name (sv_conf t) = a" if "(a, t) \<in> set ?reg" for a t
    proof -
      have "distinct (map fst ?reg)" using \<open>svc_wf nd\<close> by (simp add: k svc_wf_def)
      with that have "map_of ?reg a = Some t" by simp
      then have "(a = name \<and> t = s') \<or> map_of (svcReg nd) a = Some t"
        by (auto simp: upd split: if_splits)
      then obtain u where "map_of (svcReg nd) a = Some u" "sv_id u = sv_id t"
        "s_name (sv_conf u) = s_name (sv_conf t)"
        using n(1) s' by auto
      with \<open>svc_wf nd\<close> show ?thesis by (auto simp: svc_wf_def dest!: map_of_SomeD)
    qed
    with \<open>svc_wf nd\<close> show ?thesis unfolding svc_wf_def by (auto simp: k ids open_ids_def)
  qed
  have "owned (nd\<lparr>svcReg := ?reg\<rparr>) m t" if "owned nd m t" for m t
    using that n(1) s'(1) by (auto simp: owned_def upd)
  moreover have "svc_view (nd\<lparr>svcReg := ?reg\<rparr>) m = svc_view nd m" if "m \<notin> A" for m
    using that n(2) by (intro svc_view_eq) (auto simp: upd open_ids_def)
  ultimately show ?thesis using wf by (simp add: keeps_def)
qed

lemma keeps_forward_each:
  "(\<lambda>(raw, _). trim_space raw) ` set xs \<subseteq> A \<Longrightarrow> keeps A nd (snd (forward_each os xs nd))"
proof (induction os xs nd rule: forward_each.induct)
  case (2 os raw fw rest nd)
  let ?n = "trim_space raw"
  show ?case
  proof (cases "Get ?n (svcReg nd)")
    case None
    then show ?thesis by (simp add: Let_def keeps.R_refl)
  next
    case (Some s)
    let ?nd = "nd\<lparr>svcReg := AList.update ?n (s\<lparr>sv_conf := (sv_conf s)\<lparr>s_forwarder := Some fw\<rparr>\<rparr>) (svcReg nd)\<rparr>"
    have k: "keeps A nd ?nd"
      by (rule keeps_set_object) (use Some "2.prems" in \<open>auto simp: Get_Some\<close>)
    have "keeps A ?nd (snd (forward_each os rest ?nd))"
      if "?n \<noteq> []" "can_forward os (hd_type (s_handler (sv_conf s)))" "forwarder_error os fw = None"
      by (rule "2.IH" [OF refl that(1) Some _ that(3)]) (use that "2.prems" in auto)
    with k Some show ?thesis
      by (auto simp: Let_def keeps.R_refl intro: keeps.R_trans split: option.split)
  qed
qed (simp add: keeps.R_refl)

lemma updateForwarder_keeps:
  assumes "updateForwarder os services nd = Replied r nd'"
  shows "keeps ((\<lambda>(raw, _). trim_space raw) ` set services) nd nd'"
  using assms keeps_forward_each [OF order_refl, of services nd os]
  by (auto simp: updateForwarder_def case_prod_beta keeps.R_refl split: if_splits option.splits prod.splits)

lemma keeps_chains [simp]: "keeps A nd (nd'\<lparr>chainReg := cr\<rparr>) = keeps A nd nd'"
  "keeps A nd (nd'\<lparr>cfgChains := cc\<rparr>) = keeps A nd nd'"
  "keeps A nd (nd'\<lparr>limReg := lr\<rparr>) = keeps A nd nd'"
  "keeps A nd (nd'\<lparr>cfgLimiters := lc\<rparr>) = keeps A nd nd'"
  by (simp_all add: keeps_def svc_wf_def svc_view_def owned_def open_ids_def)

lemma chain_keeps:
  "createChain os c nd = Replied r nd' \<Longrightarrow> keeps A nd nd'"
  "updateChain os k c nd = Replied r nd' \<Longrightarrow> keeps A nd nd'"
  "deleteChain k nd = Replied r nd' \<Longrightarrow> keeps A nd nd'"
  "createLimiter l nd = Replied r nd' \<Longrightarrow> keeps A nd nd'"
  "updateLimiter k l nd = Replied r nd' \<Longrightarrow> keeps A nd nd'"
  "deleteLimiter k nd = Replied r nd' \<Longrightarrow> keeps A nd nd'"
  by (auto simp: createChain_def updateChain_def deleteChain_def createLimiter_def updateLimiter_def
      deleteLimiter_def Let_def keeps.R_refl split: if_splits option.splits)

section \<open>Every command\<close>

text \<open>The services a command names.\<close>

definition touched :: "msg \<Rightarrow> string set" where
  "touched m = (case m of
     AddService_msg data \<Rightarrow> (\<lambda>c. trim_space (s_name c)) ` set data
   | UpdateService_msg data \<Rightarrow> (\<lambda>c. trim_space (s_name c)) ` set data
   | DeleteService_msg names \<Rightarrow> trim_space ` set names
   | PauseService_msg names \<Rightarrow> trim_space ` set names
   | ResumeService_msg names \<Rightarrow> trim_space ` set names
   | UpdateForwarder_msg services \<Rightarrow> (\<lambda>(raw, _). trim_space raw) ` set services
   | _ \<Rightarrow> {})"

lemma routeCommand_keeps:
  "routeCommand os m nd = Replied r nd' \<Longrightarrow> keeps (touched m) nd nd'"
  by (cases m) (auto simp: routeCommand_def touched_def keeps.R_refl createServices_keeps
      updateServices_keeps deleteServices_keeps pauseServices_keeps resumeServices_keeps
      updateForwarder_keeps chain_keeps)

end
