(* ===== verification/Footprint.thy ===== *)
theory Footprint
  imports Reset_Flow Node_Frame
begin

text \<open>
  The commands an operation on a forward sends. \<open>sent_by e P w w'\<close> says that going from \<open>w\<close>
  to \<open>w'\<close> only commands with \<open>P\<close> were sent, and that the nodes changed by them alone;
  \<open>msg_of k\<close> says that a command names services and chains of forward \<open>k\<close> only, whose
  names all begin with the forward's number. With the nodes of \<open>Node_Command\<close> this shows
  that an operation on one forward never disturbs the services of another.
\<close>

section \<open>Commands sent\<close>

definition sent_by :: "'n env \<Rightarrow> (msg \<Rightarrow> bool) \<Rightarrow> 'n world \<Rightarrow> 'n world \<Rightarrow> bool" where
  "sent_by e P w w' \<longleftrightarrow> (\<exists>ms. wsent w' = wsent w @ ms \<and> (\<forall>(n, m) \<in> set ms. P m) \<and>
     wnet w' = fold (\<lambda>(n, m) s. snd (transport e n m s)) ms (wnet w))"

interpretation sends: step_preorder "sent_by e P" for e P
proof
  show "sent_by e P s s" for s by (auto simp: sent_by_def)
  show "sent_by e P s u" if "sent_by e P s t" "sent_by e P t u" for s t u
  proof -
    from that(1) obtain ms where a: "wsent t = wsent s @ ms" "\<forall>(n, m) \<in> set ms. P m"
      "wnet t = fold (\<lambda>(n, m) s. snd (transport e n m s)) ms (wnet s)"
      by (auto simp: sent_by_def)
    from that(2) obtain ns where b: "wsent u = wsent t @ ns" "\<forall>(n, m) \<in> set ns. P m"
      "wnet u = fold (\<lambda>(n, m) s. snd (transport e n m s)) ns (wnet t)"
      by (auto simp: sent_by_def)
    show ?thesis
      unfolding sent_by_def by (rule exI [of _ "ms @ ns"]) (use a b in auto)
  qed
qed

lemma sent_same: "wsent w' = wsent w \<Longrightarrow> wnet w' = wnet w \<Longrightarrow> sent_by e P w w'"
  by (auto simp: sent_by_def)

text \<open>Each rule extends a history \<open>sent_by e P w0 w\<close> by one operation.\<close>

lemma sent_SendMsg:
  assumes "P m" and "sent_by e P w0 w"
  shows "sent_by e P w0 (snd (SendMsg e n m w))"
proof (rule sends.R_trans [OF assms(2)])
  show "sent_by e P w (snd (SendMsg e n m w))"
    unfolding sent_by_def
    by (rule exI [of _ "if nodeSessions e n then [(n, m)] else []"])
       (auto simp: SendMsg_def Let_def case_prod_beta assms(1) split: option.split)
qed

lemma sent_db:
  assumes "sent_by e P w0 w"
  shows "sent_by e P w0 (snd (db_write e f w))" and "sent_by e P w0 (db_exec e f w)"
  by (rule sends.R_trans [OF assms], rule sent_same; simp add: frame_simps)+

lemma sent_fold:
  assumes "sent_by e P w0 w" and "\<And>x w. x \<in> set xs \<Longrightarrow> sent_by e P w (step x w)"
  shows "sent_by e P w0 (fold step xs w)"
  using assms(1) sends.R_fold [of xs e P step w] assms(2) by (auto intro: sends.R_trans)

text \<open>The control structure of a handler, rule by rule.\<close>

lemma sent_ret: "sent_by e P w0 w \<Longrightarrow> sent_by e P w0 (snd (r, w))"
  by simp

lemma sent_if:
  "(c \<Longrightarrow> sent_by e P w0 (snd a)) \<Longrightarrow> (\<not> c \<Longrightarrow> sent_by e P w0 (snd b)) \<Longrightarrow>
   sent_by e P w0 (snd (if c then a else b))"
  by simp

lemma sent_bind:
  "sent_by e P w0 (snd x) \<Longrightarrow> (\<And>a w. sent_by e P w0 w \<Longrightarrow> sent_by e P w0 (snd (g a w))) \<Longrightarrow>
   sent_by e P w0 (snd (case x of (a, w) \<Rightarrow> g a w))"
  by (cases x) simp

lemma sent_pair:
  "(\<And>a b. x = (a, b) \<Longrightarrow> sent_by e P w0 (snd (g a b))) \<Longrightarrow>
   sent_by e P w0 (snd (case x of (a, b) \<Rightarrow> g a b))"
  by (cases x) simp

lemma sent_option:
  "(x = None \<Longrightarrow> sent_by e P w0 (snd a)) \<Longrightarrow> (\<And>y. x = Some y \<Longrightarrow> sent_by e P w0 (snd (b y))) \<Longrightarrow>
   sent_by e P w0 (snd (case x of None \<Rightarrow> a | Some y \<Rightarrow> b y))"
  by (cases x) simp_all

lemma sent_sum:
  "(\<And>y. x = Inl y \<Longrightarrow> sent_by e P w0 (snd (a y))) \<Longrightarrow> (\<And>y. x = Inr y \<Longrightarrow> sent_by e P w0 (snd (b y))) \<Longrightarrow>
   sent_by e P w0 (snd (case x of Inl y \<Rightarrow> a y | Inr y \<Rightarrow> b y))"
  by (cases x) simp_all

lemmas sent_vcg = sent_if sent_bind sent_pair sent_option sent_sum sent_ret

section \<open>Commands of one forward\<close>

definition own :: "int \<Rightarrow> string \<Rightarrow> bool" where
  "own k name \<longleftrightarrow> (\<exists>rest. name = itoa k @ CHR ''_'' # rest)"

definition msg_of :: "int \<Rightarrow> msg \<Rightarrow> bool" where
  "msg_of k m = (case m of
     AddService_msg data \<Rightarrow> \<forall>c \<in> set data. own k (s_name c)
   | UpdateService_msg data \<Rightarrow> (\<forall>c \<in> set data. own k (s_name c)) \<and>
       distinct (map (\<lambda>c. trim_space (s_name c)) data)
   | DeleteService_msg names \<Rightarrow> \<forall>n \<in> set names. own k n
   | PauseService_msg names \<Rightarrow> \<forall>n \<in> set names. own k n
   | ResumeService_msg names \<Rightarrow> \<forall>n \<in> set names. own k n
   | UpdateForwarder_msg services \<Rightarrow> \<forall>(n, fw) \<in> set services. own k n
   | AddChains_msg c \<Rightarrow> own k (c_name c)
   | UpdateChains_msg name c \<Rightarrow> own k name
   | DeleteChains_msg name \<Rightarrow> own k name
   | _ \<Rightarrow> False)"

lemma own_buildServiceName [simp]: "own k (buildServiceName k u ut)"
  by (simp add: own_def buildServiceName_def)

lemma own_append [simp]: "own k name \<Longrightarrow> own k (name @ suffix)"
  by (auto simp: own_def)

lemma own_suffixed [simp]: "own k name \<Longrightarrow> own k (suffixed name i)"
  by (simp add: suffixed_def)

lemma own_route [simp]:
  "own k name \<Longrightarrow> own k (routeChainName name i)" "own k name \<Longrightarrow> own k (routeRelayServiceName name i)"
  by (simp_all add: routeChainName_def routeRelayServiceName_def)

text \<open>A name belongs to one forward.\<close>

lemma own_unique: "own k name \<Longrightarrow> own k' name \<Longrightarrow> k = k'"
proof -
  have sp: "takeWhile (\<lambda>c. c \<noteq> CHR ''_'') (itoa k @ CHR ''_'' # rest) = itoa k" for k rest
    using itoa_no_sep(1) [of k] by (subst takeWhile_append2) auto
  assume "own k name" and "own k' name"
  then obtain r r' where "itoa k @ CHR ''_'' # r = itoa k' @ CHR ''_'' # r'"
    by (auto simp: own_def)
  then have "itoa k = itoa k'" using sp [of k r] sp [of k' r'] by (metis)
  then show ?thesis by simp
qed

lemma own_multi:
  "own k name \<Longrightarrow> n \<in> set (buildMultiIPServiceNames name ip) \<Longrightarrow> own k n"
  by (auto simp: buildMultiIPServiceNames_def Let_def split: if_splits)

lemma own_services:
  assumes "own k name" and "c \<in> set (buildServices name p lm ra ty t st ifn sn)"
  shows "own k (s_name c)"
proof -
  have "s_name c \<in> set (map s_name (buildServices name p lm ra ty t st ifn sn))" using assms(2) by simp
  then have "s_name c \<in> set (buildMultiIPServiceNames name (t_TcpListenAddr t))"
    unfolding buildServices_names .
  then show ?thesis by (rule own_multi [OF assms(1)])
qed

text \<open>A panel name that ends in a letter is not changed by trimming.\<close>

lemma own_trim_id:
  assumes "own k name" and "\<not> is_space (last suffix)" and "suffix \<noteq> []"
  shows "trim_space (name @ suffix) = name @ suffix"
proof -
  obtain rest where name: "name = itoa k @ CHR ''_'' # rest" using assms(1) by (auto simp: own_def)
  obtain a as where k: "itoa k = a # as" by (cases "itoa k") auto
  have "\<not> is_space a"
    using itoa_chars [of a k] by (auto simp: k is_space_def is_digit_def)
  then have lead: "dropWhile is_space (name @ suffix) = name @ suffix" by (simp add: name k)
  obtain b bs where r: "rev suffix = b # bs" using assms(3) by (cases "rev suffix") auto
  then have "b = last suffix" by (metis hd_rev list.sel(1))
  with assms(2) have "dropWhile is_space (b # bs @ rev name) = b # bs @ rev name" by simp
  then have "dropWhile is_space (rev (name @ suffix)) = rev (name @ suffix)"
    by (simp only: rev_append r append_Cons)
  then show ?thesis by (simp add: trim_space_def lead)
qed

lemma services_distinct:
  assumes "own k name"
  shows "distinct (map trim_space (buildMultiIPServiceNames name ip))"
proof -
  have sp: "\<not> is_space (CHR ''p'')" by (simp add: is_space_def)
  have t: "trim_space (x @ ''_tcp'') = x @ ''_tcp''" "trim_space (x @ ''_udp'') = x @ ''_udp''"
    if "own k x" for x
    using that sp by (intro own_trim_id; simp)+
  have "distinct (map trim_space (concat (map (\<lambda>i. [suffixed name i @ ''_tcp'', suffixed name i @ ''_udp''])
      is)))" if "distinct is" for "is"
  proof -
    have "map trim_space (concat (map (\<lambda>i. [suffixed name i @ ''_tcp'', suffixed name i @ ''_udp'']) is)) =
        concat (map (\<lambda>i. [suffixed name i @ ''_tcp'', suffixed name i @ ''_udp'']) is)"
      by (induction "is") (simp_all add: t assms)
    moreover have "distinct \<dots>"
      using that by (induction "is") (auto simp: suffixed_def)
    ultimately show ?thesis by simp
  qed
  from this [of "[0..<length (splitListenIPs ip)]"] show ?thesis
    by (simp add: buildMultiIPServiceNames_def Let_def t assms)
qed

text \<open>Trimming keeps the owner, so the node sees the same owner as the panel.\<close>

lemma own_trim: "own k name \<Longrightarrow> own k (trim_space name)"
proof -
  assume "own k name"
  then obtain rest where name: "name = itoa k @ CHR ''_'' # rest" by (auto simp: own_def)
  have ns: "\<not> is_space c" if "c \<in> set (itoa k)" for c
    using itoa_chars [OF that] by (auto simp: is_space_def is_digit_def)
  obtain a as where k: "itoa k = a # as" by (cases "itoa k") auto
  then have lead: "dropWhile is_space name = name" using ns by (simp add: name)
  have sep: "\<not> is_space (CHR ''_'')" by (simp add: is_space_def)
  have "dropWhile is_space (rev name) =
      dropWhile is_space (rev rest) @ [CHR ''_''] @ rev (itoa k) \<or>
    (\<exists>r. dropWhile is_space (rev name) = r @ CHR ''_'' # rev (itoa k))"
  proof (cases "\<exists>c \<in> set (rev rest). \<not> is_space c")
    case True
    then show ?thesis using sep by (auto simp: name dropWhile_append)
  next
    case False
    then have "dropWhile is_space (rev name) = CHR ''_'' # rev (itoa k)"
      using sep by (simp add: name dropWhile_append)
    then show ?thesis by auto
  qed
  then obtain r where "dropWhile is_space (rev name) = r @ CHR ''_'' # rev (itoa k)" by auto
  then have "trim_space name = itoa k @ CHR ''_'' # rev r"
    by (simp add: trim_space_def lead)
  then show ?thesis by (auto simp: own_def)
qed

lemma update_services_distinct:
  assumes "own k name"
  shows "distinct (map (\<lambda>c. trim_space (s_name c)) (buildServices name p lm ra ty t st ifn sn))"
proof -
  have "map (\<lambda>c. trim_space (s_name c)) (buildServices name p lm ra ty t st ifn sn) =
      map trim_space (map s_name (buildServices name p lm ra ty t st ifn sn))" by simp
  then show ?thesis unfolding buildServices_names by (simp only: services_distinct [OF assms])
qed

section \<open>The operations of the services\<close>

text \<open>The wrappers, each extending a history.\<close>

lemma sent_wrappers:
  assumes h: "sent_by e (msg_of k) w0 w" and o: "own k name"
  shows "sent_by e (msg_of k) w0 (snd (AddService e n name p lm ra ty t st ifn w))"
    and "sent_by e (msg_of k) w0 (snd (UpdateService e n name p lm ra ty t st ifn w))"
    and "sent_by e (msg_of k) w0 (snd (UpdateForwarder e n name ra st w))"
    and "sent_by e (msg_of k) w0 (snd (UpdateRemoteForwarder e n name ra st w))"
    and "sent_by e (msg_of k) w0 (snd (DeleteService e n name w))"
    and "sent_by e (msg_of k) w0 (snd (DeleteServiceMultiIP e n name ip w))"
    and "sent_by e (msg_of k) w0 (snd (AddRemoteService e n name p ra pr st ifn w))"
    and "sent_by e (msg_of k) w0 (snd (UpdateRemoteService e n name p ra pr st ifn w))"
    and "sent_by e (msg_of k) w0 (snd (DeleteRemoteService e n name w))"
    and "sent_by e (msg_of k) w0 (snd (PauseService e n name w))"
    and "sent_by e (msg_of k) w0 (snd (ResumeService e n name w))"
    and "sent_by e (msg_of k) w0 (snd (PauseServiceMultiIP e n name ip w))"
    and "sent_by e (msg_of k) w0 (snd (ResumeServiceMultiIP e n name ip w))"
    and "sent_by e (msg_of k) w0 (snd (PauseRemoteService e n name w))"
    and "sent_by e (msg_of k) w0 (snd (ResumeRemoteService e n name w))"
    and "sent_by e (msg_of k) w0 (snd (AddChains e n name ra pr ifn w))"
    and "sent_by e (msg_of k) w0 (snd (UpdateChains e n name ra pr ifn w))"
    and "sent_by e (msg_of k) w0 (snd (DeleteChains e n name w))"
    and "sent_by e (msg_of k) w0 (snd (AddRouteChain e n name ra pr ifn w))"
    and "sent_by e (msg_of k) w0 (snd (DeleteRouteChain e n name w))"
    and "sent_by e (msg_of k) w0 (snd (AddRouteEntryService e n name p lm la ch pr ifn w))"
    and "sent_by e (msg_of k) w0 (snd (AddRouteRelayService e n name p ch pr ifn w))"
    and "sent_by e (msg_of k) w0 (snd (AddRouteTerminalService e n name p ra pr st ifn w))"
  unfolding msg_defs Let_def
  by (rule sent_SendMsg [OF _ h];
      auto simp: msg_of_def o buildRemoteService_def buildChainData_def buildExactChainData_def
        buildRouteEntryServices_def buildRouteRelayService_def own_multi [OF o] own_services [OF o]
        update_services_distinct [OF o])+

lemma sent_names:
  assumes "sent_by e (msg_of k) w0 w" and "\<And>n. n \<in> set names \<Longrightarrow> own k n"
  shows "sent_by e (msg_of k) w0 (snd (DeleteRouteServices e n names w))"
    and "sent_by e (msg_of k) w0 (snd (PauseRouteServices e n names w))"
    and "sent_by e (msg_of k) w0 (snd (ResumeRouteServices e n names w))"
  unfolding msg_defs by (rule sent_SendMsg [OF _ assms(1)]; simp add: msg_of_def assms(2))+

lemma sent_switch:
  assumes "sent_by e (msg_of k) w0 w" and "own k name"
  shows "sent_by e (msg_of k) w0 (snd (delete_main e n name ip w))"
    and "sent_by e (msg_of k) w0 (snd (pause_main e n name ip w))"
    and "sent_by e (msg_of k) w0 (snd (resume_main e n name ip w))"
  by (simp_all add: delete_main_def pause_main_def resume_main_def sent_wrappers [OF assms])

lemma sent_update_or_add:
  assumes "\<And>w. sent_by e P w0 w \<Longrightarrow> sent_by e P w0 (snd (u w))"
    and "\<And>w. sent_by e P w0 w \<Longrightarrow> sent_by e P w0 (snd (a w))" and "sent_by e P w0 w"
  shows "sent_by e P w0 (snd (update_or_add u a w))"
  using assms by (auto simp: update_or_add_def Let_def case_prod_beta)

lemma sent_createGostServices:
  assumes h: "sent_by e (msg_of k) w0 w" and o: "own k name"
  shows "sent_by e (msg_of k) w0 (snd (createGostServices e f t lm i out name w))"
  using h by (auto simp: createGostServices_def createRemotePart_def Let_def case_prod_beta o
      split: option.split intro!: sent_wrappers)

lemma sent_updateGostServices:
  assumes h: "sent_by e (msg_of k) w0 w" and o: "own k name"
  shows "sent_by e (msg_of k) w0 (snd (updateGostServices e f t lm i out name w))"
  using h by (auto simp: updateGostServices_def updateForwardStatusToError_def syncGostServices_def
      syncRemotePart_def Let_def case_prod_beta o split: option.split
      intro!: sent_wrappers sent_db sent_update_or_add)

lemma sent_deleteGostServices:
  assumes h: "sent_by e (msg_of k) w0 w" and o: "own k name"
  shows "sent_by e (msg_of k) w0 (snd (deleteGostServicesWithIP e t i out name ip w))"
  using h by (auto simp: deleteGostServicesWithIP_def Let_def case_prod_beta o split: option.split
      intro!: sent_wrappers sent_switch)

lemma sent_deleteOld:
  assumes h: "sent_by e (msg_of (f_ID f)) w0 w"
  shows "sent_by e (msg_of (f_ID f)) w0 (deleteOldGostServices e f t w)"
  using h by (auto simp: deleteOldGostServices_def Let_def case_prod_beta
      split: option.split sum.split intro!: sent_wrappers sent_switch)

section \<open>Routes\<close>

lemma sent_delete_online:
  "sent_by e P w0 w \<Longrightarrow> (\<And>c w. c \<in> set calls \<Longrightarrow> sent_by e P w0 w \<Longrightarrow> sent_by e P w0 (snd (snd c w))) \<Longrightarrow>
   sent_by e P w0 (snd (delete_online e calls w))"
proof (induction calls arbitrary: w)
  case (Cons c calls)
  obtain n del where c: "c = (n, del)" by (cases c)
  have "sent_by e P w0 (snd (del w))" using Cons.prems(2) [of c w] Cons.prems(1) c by simp
  with Cons show ?case by (auto simp: c Let_def case_prod_beta)
qed simp

lemma sent_cleanup:
  assumes "sent_by e (msg_of (f_ID f)) w0 w"
  shows "sent_by e (msg_of (f_ID f)) w0 (snd (cleanupRouteForwardServices e f w))"
proof -
  have "sent_by e (msg_of (f_ID f)) w0 (snd (delete_online e
      (cleanup_calls e (buildServiceName (f_ID f) (f_UserId f) None) hops ports) w))" for hops ports
    by (rule sent_delete_online [OF assms])
       (auto simp: cleanup_calls_def intro!: sent_names sent_wrappers split: list.splits)
  with assms show ?thesis by (simp add: cleanupRouteForwardServices_def Let_def)
qed

lemma sent_create_relays:
  assumes "own (f_ID f) name"
  shows "sent_by e (msg_of (f_ID f)) w0 w \<Longrightarrow>
    sent_by e (msg_of (f_ID f)) w0 (snd (create_relays e f r hops pbh name is w))"
proof (induction "is" arbitrary: w)
  case (Cons i "is")
  then show ?case
    by (auto simp: Let_def case_prod_beta assms intro!: sent_wrappers sent_cleanup Cons.IH)
qed simp

lemma sent_createRoute:
  assumes "own (f_ID f) name" and "sent_by e (msg_of (f_ID f)) w0 w"
  shows "sent_by e (msg_of (f_ID f)) w0 (snd (createRouteGostServices e f r hops ports lm name w))"
  using assms by (auto simp: createRouteGostServices_def create_entry_def Let_def case_prod_beta
      intro!: sent_wrappers sent_cleanup sent_create_relays)

lemma sent_send_all:
  "sent_by e P w0 w \<Longrightarrow> (\<And>c w. c \<in> set calls \<Longrightarrow> sent_by e P w0 w \<Longrightarrow> sent_by e P w0 (snd (c w))) \<Longrightarrow>
   sent_by e P w0 (snd (send_all calls w))"
  by (induction calls arbitrary: w) (auto simp: Let_def case_prod_beta)

lemma sent_setPaused:
  assumes "sent_by e (msg_of (f_ID f)) w0 w"
  shows "sent_by e (msg_of (f_ID f)) w0 (snd (setRouteForwardServicesPaused e f b w))"
  using assms by (auto simp: setRouteForwardServicesPaused_def Let_def case_prod_beta
      split: sum.split intro!: sent_send_all sent_names)

section \<open>The handlers\<close>

lemma sent_transaction:
  "sent_by e P w0 w \<Longrightarrow> sent_by e P w0 (snd (transaction e ss ce w))"
  by (erule sends.R_trans) (rule sent_same; simp add: frame_simps)

lemma sent_transaction_eq:
  "transaction e ss ce w = (r, w') \<Longrightarrow> sent_by e P w0 w \<Longrightarrow> sent_by e P w0 w'"
  using sent_transaction [of e P w0 w ss ce] by simp

lemma sent_statusToError:
  "sent_by e P w0 w \<Longrightarrow> sent_by e P w0 (updateForwardStatusToError e k w)"
  "sent_by e P w0 w \<Longrightarrow> sent_by e P w0 (set_status e k s w)"
  by (simp_all add: updateForwardStatusToError_def set_status_def sent_db)

lemma sent_route_handlers:
  assumes h: "sent_by e (msg_of (f_ID f)) w0 w"
  shows "sent_by e (msg_of (f_ID f)) w0 (snd (deleteRouteForward e f w))"
    and "sent_by e (msg_of (f_ID f)) w0 (snd (pauseRouteForward e f w))"
    and "sent_by e (msg_of (f_ID f)) w0 (snd (resumeRouteForward e f w))"
    and "sent_by e (msg_of (f_ID f)) w0 (snd (updateRouteForward e dto f u r w))"
proof -
  show "sent_by e (msg_of (f_ID f)) w0 (snd (deleteRouteForward e f w))"
    using h by (auto simp: deleteRouteForward_def Let_def case_prod_beta split: option.split
        intro!: sent_transaction sent_cleanup)
  show "sent_by e (msg_of (f_ID f)) w0 (snd (pauseRouteForward e f w))"
    and "sent_by e (msg_of (f_ID f)) w0 (snd (resumeRouteForward e f w))"
    using h by (auto simp: pauseRouteForward_def resumeRouteForward_def Let_def case_prod_beta
        split: option.split sum.split intro!: sent_setPaused sent_statusToError)
  have c: "sent_by e (msg_of (f_ID f)) w0 (snd (createRouteGostServices e g route hops ports lm
      (buildServiceName (f_ID f) u' None) w'))"
    if "sent_by e (msg_of (f_ID f)) w0 w'" "f_ID g = f_ID f" for g route hops ports lm w' u'
    using sent_createRoute [of g "buildServiceName (f_ID f) u' None"] that by simp
  show "sent_by e (msg_of (f_ID f)) w0 (snd (updateRouteForward e dto f u r w))"
    unfolding updateRouteForward_def Let_def
    by (intro sent_vcg h sent_cleanup sent_transaction sent_statusToError) (simp_all add: c)
qed

lemma sent_CreateForward:
  "sent_by e (msg_of (next_key T_forward (wdb w))) w (snd (CreateForward e dto u r un w))"
proof -
  let ?k = "next_key T_forward (wdb w)"
  have c: "sent_by e (msg_of ?k) w0 (snd (createRouteGostServices e g route hops ports lm
      (buildServiceName ?k u' None) w'))"
    if "sent_by e (msg_of ?k) w0 w'" "f_ID g = ?k" for w0 g route hops ports lm w' u'
    using sent_createRoute [of g "buildServiceName ?k u' None"] that by simp
  have "sent_by e (msg_of ?k) w (snd (createRouteForward e dto u r un w))"
    by (auto simp: createRouteForward_def Let_def case_prod_beta sends.R_refl
        simp del: map_map list.map_comp split: option.split sum.split
        intro!: sent_transaction c sent_statusToError)
  then show ?thesis
    by (auto simp: CreateForward_def Let_def case_prod_beta sends.R_refl
        split: option.split sum.split intro!: sent_db sent_createGostServices sent_statusToError)
qed

lemma exists_ID: "validateForwardExists d k u r = Some f \<Longrightarrow> f_ID f = k"
  by (auto simp: validateForwardExists_def dest: firstForward_Some split: option.splits if_splits)

lemma sent_update_services:
  assumes "own (f_ID f) name" and "f_ID g = f_ID f" and "sent_by e (msg_of (f_ID f)) w0 w"
  shows "sent_by e (msg_of (f_ID f)) w0 (snd (update_services e f g t lm i out name w))"
  using assms by (auto simp: update_services_def update_in_place_def Let_def case_prod_beta
      split: option.split intro!: sent_db sent_statusToError sent_wrappers sent_updateGostServices
        sent_createGostServices sent_deleteOld)

lemma sent_handlers:
  "sent_by e (msg_of (fd_ID ud)) w (snd (UpdateForward e ud u r w))"
  "sent_by e (msg_of k) w (snd (DeleteForward e k u r w))"
  "sent_by e (msg_of k) w (snd (ForceDeleteForward e k w))"
  "sent_by e (msg_of k) w (snd (PauseForward e k u r w))"
  "sent_by e (msg_of k) w (snd (ResumeForward e k u r w))"
proof -
  show "sent_by e (msg_of (fd_ID ud)) w (snd (UpdateForward e ud u r w))"
  proof (cases "validateForwardExists (wdb w) (fd_ID ud) u r")
    case (Some f)
    note k = exists_ID [OF Some]
    have "sent_by e (msg_of (f_ID f)) w (snd (updateRouteForward e ud f u r w))"
      by (rule sent_route_handlers) (rule sends.R_refl)
    moreover have "sent_by e (msg_of (f_ID f)) w (snd (update_services e f g t lm i out
        (buildServiceName (f_ID f) u' ut) w))" if "f_ID g = f_ID f" for g t lm i out u' ut
      by (rule sent_update_services) (simp_all add: that sends.R_refl)
    ultimately show ?thesis
      unfolding UpdateForward_def Let_def k [symmetric] Some [unfolded k [symmetric]] option.case
      by (intro sent_vcg sends.R_refl sent_db) simp_all
  qed (simp add: UpdateForward_def Let_def sends.R_refl split: option.split)
  show "sent_by e (msg_of k) w (snd (DeleteForward e k u r w))"
  proof (cases "validateForwardExists (wdb w) k u r")
    case (Some f)
    with exists_ID [OF Some] show ?thesis
      by (auto simp: DeleteForward_def Let_def case_prod_beta sends.R_refl split: option.split sum.split
          intro!: sent_db sent_route_handlers sent_deleteGostServices)
  qed (simp add: DeleteForward_def Let_def sends.R_refl)
  show "sent_by e (msg_of k) w (snd (ForceDeleteForward e k w))"
  proof (cases "firstForward (wdb w) k")
    case (Some f)
    then have k: "f_ID f = k" by (auto dest: firstForward_Some)
    show ?thesis
      unfolding k [symmetric] using Some k
      by (auto simp: ForceDeleteForward_def Let_def case_prod_beta sends.R_refl split: option.split
          intro!: sent_db sent_cleanup sent_deleteOld)
  qed (simp add: ForceDeleteForward_def sends.R_refl)
  show "sent_by e (msg_of k) w (snd (PauseForward e k u r w))"
  proof (cases "validateForwardExists (wdb w) k u r")
    case (Some f)
    with exists_ID [OF Some] show ?thesis
      by (auto simp: PauseForward_def Let_def case_prod_beta sends.R_refl split: option.split sum.split
          intro!: sent_statusToError sent_route_handlers sent_switch sent_wrappers)
  qed (simp add: PauseForward_def Let_def sends.R_refl split: option.split)
  show "sent_by e (msg_of k) w (snd (ResumeForward e k u r w))"
  proof (cases "validateForwardExists (wdb w) k u r")
    case (Some f)
    with exists_ID [OF Some] show ?thesis
      by (auto simp: ResumeForward_def Let_def case_prod_beta sends.R_refl split: option.split sum.split
          intro!: sent_statusToError sent_route_handlers sent_switch sent_wrappers)
  qed (simp add: ResumeForward_def Let_def sends.R_refl split: option.split)
qed

section \<open>The nodes do what they are told\<close>

text \<open>An update that names every service once does not crash a node.\<close>

lemma close_old_Some:
  "distinct (map trim_space names) \<Longrightarrow> \<forall>raw \<in> set names. missing nd raw = None \<Longrightarrow>
   close_old names nd \<noteq> None"
proof (induction names nd rule: close_old.induct)
  case (2 raw rest nd)
  let ?n = "trim_space raw"
  from "2.prems"(2) obtain s where s: "Get ?n (svcReg nd) = Some s"
    by (auto simp: missing_def Let_def split: if_splits)
  have "close_old rest (UnregisterService ?n (Close s nd)) \<noteq> None"
  proof (rule "2.IH" [OF refl s])
    show "\<forall>raw \<in> set rest. missing (UnregisterService ?n (Close s nd)) raw = None"
      using "2.prems" by (auto simp: missing_None) (metis image_eqI)
  qed (use "2.prems"(1) in simp)
  with s show ?case by (simp add: Let_def)
qed simp

lemma no_crash: "msg_of k m \<Longrightarrow> routeCommand os m nd \<noteq> Crashed"
proof (cases m)
  case (UpdateService_msg data)
  assume "msg_of k m"
  then have "distinct (map trim_space (map s_name data))"
    by (simp add: msg_of_def UpdateService_msg comp_def)
  from close_old_Some [OF this, of nd] show ?thesis
    by (auto simp: routeCommand_def UpdateService_msg updateServices_def first_error_None
        split: option.split prod.split)
qed (auto simp: msg_of_def routeCommand_def createServices_def deleteServices_def pauseServices_def
    resumeServices_def updateForwarder_def createChain_def updateChain_def deleteChain_def
    createLimiter_def updateLimiter_def deleteLimiter_def Let_def
    split: option.split prod.split sum.split)

lemma msg_of_touched: "msg_of k m \<Longrightarrow> n \<in> touched m \<Longrightarrow> own k n"
  by (cases m) (auto simp: msg_of_def touched_def own_trim)

lemma node_answer_keeps:
  "msg_of k m \<Longrightarrow> keeps {n. own k n} nd (snd (node_answer os m nd))"
proof -
  assume m: "msg_of k m"
  obtain r nd' where r: "routeCommand os m nd = Replied r nd'"
    using no_crash [OF m, of os nd] by (cases "routeCommand os m nd") auto
  have "keeps {n. own k n} nd nd'"
    by (rule keeps_mono [OF routeCommand_keeps [OF r]]) (use msg_of_touched [OF m] in auto)
  with r show ?thesis by (simp add: node_answer_def split: option.split)
qed

lemma fleet_keeps:
  assumes "transport e = fleet_transport oss" and "sent_by e (msg_of k) w w'"
  shows "keeps {n. own k n} (wnet w node) (wnet w' node)"
proof -
  from assms(2) obtain ms where ms: "\<forall>(n, m) \<in> set ms. msg_of k m"
    and w': "wnet w' = fold (\<lambda>(n, m) s. snd (transport e n m s)) ms (wnet w)"
    by (auto simp: sent_by_def)
  have "keeps {n. own k n} (s node) (fold (\<lambda>(n, m) s. snd (transport e n m s)) ms s node)" for s
    using ms
  proof (induction ms arbitrary: s)
    case (Cons x ms)
    obtain n m where x: "x = (n, m)" by (cases x)
    have "keeps {n. own k n} (s node) (snd (transport e n m s) node)"
      using Cons.prems node_answer_keeps [of k m "s n" "oss n"]
      by (simp add: assms(1) fleet_transport_def case_prod_beta Let_def x keeps.R_refl)
    with Cons x show ?case by (auto intro: keeps.R_trans)
  qed (simp add: keeps.R_refl)
  then show ?thesis unfolding w' .
qed

section \<open>Isolation of forwards\<close>

text \<open>C10: Isolation. Whatever an operation on a forward does - create (of the new key), update,
  delete, force delete, pause or resume, successful or not, and whatever the operating systems
  of the nodes answer - a service of any other forward keeps its configuration and its listener
  on every node, and the nodes stay well-formed: one object per name, no object shared.\<close>

theorem forward_isolation:
  assumes "transport e = fleet_transport oss"
    and "w' = snd (UpdateForward e ud userId roleId w) \<and> k = fd_ID ud \<or>
         w' = snd (CreateForward e cd userId roleId userName w) \<and> k = next_key T_forward (wdb w) \<or>
         w' = snd (DeleteForward e k userId roleId w) \<or> w' = snd (ForceDeleteForward e k w) \<or>
         w' = snd (PauseForward e k userId roleId w) \<or> w' = snd (ResumeForward e k userId roleId w)"
    and "svc_wf (wnet w node)"
  shows "svc_wf (wnet w' node) \<and>
    (j \<noteq> k \<longrightarrow> svc_view (wnet w' node) (buildServiceName j u ut @ suffix) =
                svc_view (wnet w node) (buildServiceName j u ut @ suffix))"
proof -
  have "sent_by e (msg_of k) w w'"
    using assms(2) sent_handlers sent_CreateForward by metis
  note K = keepsD [OF fleet_keeps [OF assms(1) this, of node] assms(3)]
  have "own j (buildServiceName j u ut @ suffix)" by simp
  then have "j \<noteq> k \<Longrightarrow> buildServiceName j u ut @ suffix \<notin> {n. own k n}" using own_unique by blast
  then show ?thesis using K(1,2) by blast
qed

end
