(* ===== verification/Reconcile_Props.thy ===== *)
theory Reconcile_Props
  imports Reconcile Footprint Sample
begin

text \<open>
  Cleaning and reconciling never take away what the database wants: every deletion they send
  names services no forward of the node owns.
\<close>

section \<open>Cleaning\<close>

lemma sent_deletes:
  assumes "sent_by e P w0 w"
  shows "P (DeleteService_msg [name @ ''_tls'']) \<Longrightarrow> sent_by e P w0 (snd (DeleteRemoteService e n name w))"
    and "P (DeleteService_msg [name @ ''_tcp'', name @ ''_udp'']) \<Longrightarrow> sent_by e P w0 (snd (DeleteService e n name w))"
    and "P (DeleteChains_msg (name @ ''_chains'')) \<Longrightarrow> sent_by e P w0 (snd (DeleteChains e n name w))"
    and "P (DeleteLimiters_msg (itoa k)) \<Longrightarrow> sent_by e P w0 (snd (DeleteLimiters e n k w))"
  unfolding msg_defs by (rule sent_SendMsg [OF _ assms]; assumption)+

text \<open>A service is valid with its twin.\<close>

lemma valid_twins: "n @ ''_tcp'' \<in> set (validServices d k) \<longleftrightarrow> n @ ''_udp'' \<in> set (validServices d k)"
proof -
  have t: "n @ ''_tcp'' \<in> set (tunnel_services k t f s) \<longleftrightarrow> n @ ''_udp'' \<in> set (tunnel_services k t f s)" for t f s
    by (auto simp: tunnel_services_def)
  have r: "n @ ''_tcp'' \<in> set (route_services d k f) \<longleftrightarrow> n @ ''_udp'' \<in> set (route_services d k f)" for f
  proof -
    have "n @ ''_tcp'' \<noteq> routeRelayServiceName s i" "n @ ''_udp'' \<noteq> routeRelayServiceName s i" for s i
    proof -
      have "routeRelayServiceName s i = (s @ ''_route_'' @ itoa i) @ ''_tls''" by (simp add: routeRelayServiceName_def)
      then show "n @ ''_tcp'' \<noteq> routeRelayServiceName s i" "n @ ''_udp'' \<noteq> routeRelayServiceName s i"
        by (simp_all only: append_eq_append_conv list.size) simp_all
    qed
    then show ?thesis by (auto simp: route_services_def Let_def)
  qed
  show ?thesis by (simp add: validServices_def t r)
qed

definition spares :: "string set \<Rightarrow> string set \<Rightarrow> msg \<Rightarrow> bool" where
  "spares svcs chns m = (case m of
     DeleteService_msg names \<Rightarrow> set names \<inter> svcs = {}
   | DeleteChains_msg name \<Rightarrow> name \<notin> chns
   | DeleteLimiters_msg _ \<Rightarrow> True
   | _ \<Rightarrow> False)"

lemma clean_service_spares:
  assumes "name \<notin> set (validServices d k)" and "sent_by e (spares (set (validServices d k)) C) w0 w"
  shows "sent_by e (spares (set (validServices d k)) C) w0 (clean_service e n name w)"
proof -
  consider a where "name = a @ ''_tls''" | a where "\<not> has_suffix name ''_tls''" "name = a @ ''_tcp''"
    | a where "\<not> has_suffix name ''_tls''" "name = a @ ''_udp''"
    | "\<not> has_suffix name ''_tls''" "\<not> has_suffix name ''_tcp''" "\<not> has_suffix name ''_udp''"
    by (auto simp: has_suffix_iff)
  then show ?thesis
  proof cases
    case 1
    then show ?thesis using assms
      by (auto simp: clean_service_def spares_def intro!: sent_deletes)
  next
    case 2
    then have "has_suffix name ''_tcp''" by simp
    moreover have "a @ ''_udp'' \<notin> set (validServices d k)" using 2 assms(1) valid_twins by simp
    ultimately show ?thesis using assms 2
      by (simp add: clean_service_def) (auto simp: spares_def intro!: sent_deletes)
  next
    case 3
    then have "has_suffix name ''_udp''" by simp
    moreover have "a @ ''_tcp'' \<notin> set (validServices d k)" using 3 assms(1) valid_twins by simp
    ultimately show ?thesis using assms 3
      by (simp add: clean_service_def) (auto simp: spares_def intro!: sent_deletes)
  next
    case 4
    then show ?thesis using assms(2) by (simp add: clean_service_def)
  qed
qed

lemma sent_fold_from:
  assumes "sent_by e P w0 w" and "\<And>x w. x \<in> set xs \<Longrightarrow> sent_by e P w0 w \<Longrightarrow> sent_by e P w0 (step x w)"
  shows "sent_by e P w0 (fold step xs w)"
  using assms by (induction xs arbitrary: w) auto

lemma clean_spares:
  assumes "parse_int s = Some k" and "\<forall>n \<in> set (gc_Chains cfg). has_suffix n ''_chains''"
  shows "sent_by e (spares (set (validServices (wdb w) k)) (set (validChains (wdb w) k))) w (CleanNodeConfigs e s cfg w)"
proof -
  let ?P = "spares (set (validServices (wdb w) k)) (set (validChains (wdb w) k))"
  have "sent_by e ?P w (fold (clean_service e k) xs w)"
    if "\<forall>n \<in> set xs. n \<notin> set (validServices (wdb w) k)" for xs
    by (rule sent_fold_from [OF sends.R_refl]) (rule clean_service_spares, use that in auto)
  moreover have "sent_by e ?P w (fold (\<lambda>n w. snd (DeleteChains e k (trim_suffix n ''_chains'') w)) xs w1)"
    if "sent_by e ?P w w1" "\<forall>n \<in> set xs. n \<notin> set (validChains (wdb w) k) \<and> has_suffix n ''_chains''" for xs w1
  proof (rule sent_fold_from [OF that(1)], rule sent_deletes(3))
    fix n
    assume "n \<in> set xs"
    with that(2) have "n \<notin> set (validChains (wdb w) k)" "trim_suffix n ''_chains'' @ ''_chains'' = n"
      by (auto simp: has_suffix_iff)
    then show "?P (DeleteChains_msg (trim_suffix n ''_chains'' @ ''_chains''))" by (simp add: spares_def)
  qed
  moreover have "sent_by e ?P w (fold (\<lambda>n w. case parse_int n of None \<Rightarrow> w | Some j \<Rightarrow> snd (DeleteLimiters e k j w)) xs w1)"
    if "sent_by e ?P w w1" for xs w1
    by (rule sent_fold_from [OF that]) (auto simp: spares_def intro!: sent_deletes split: option.split)
  ultimately show ?thesis using assms by (simp add: CleanNodeConfigs_def Let_def)
qed

lemma CleanNodeConfigs_db: "wdb (CleanNodeConfigs e s cfg w) = wdb w"
proof -
  have del: "wdb (snd (DeleteLimiters e n j w)) = wdb w" for n j w by (simp add: msg_defs frame_simps)
  have 1: "wdb (fold (clean_service e k) xs w) = wdb w" for k xs w
    by (induction xs arbitrary: w) (simp_all add: clean_service_def frame_simps)
  have 2: "wdb (fold (\<lambda>n w. snd (DeleteChains e k (trim_suffix n ''_chains'') w)) xs w) = wdb w" for k xs w
    by (induction xs arbitrary: w) (simp_all add: frame_simps)
  have 3: "wdb (fold (\<lambda>n w. case parse_int n of None \<Rightarrow> w | Some j \<Rightarrow> snd (DeleteLimiters e k j w)) xs w) = wdb w" for k xs w
    by (induction xs arbitrary: w) (simp_all add: del split: option.split)
  show ?thesis by (simp add: CleanNodeConfigs_def Let_def 1 2 3 split: option.split)
qed

text \<open>When the names created and the names \<open>CleanNodeConfigs\<close> expects agree: no list of
  addresses, or a list of the forward with at least two addresses in it.\<close>

definition plain_listen :: "Forward \<Rightarrow> Tunnel \<Rightarrow> bool" where
  "plain_listen f t \<longleftrightarrow>
     (if f_ListenIp f = [] then \<not> contains_str (t_TcpListenAddr t) '',''
      else \<not> contains_str (f_ListenIp f) '','' \<or> 2 \<le> length (splitListenIPs (f_ListenIp f)))"

lemma split_le: "length (splitListenIPs a) \<le> length (split_on (CHR '','') a)"
proof (cases "contains_str a '',''")
  case True
  have "length (filter (\<lambda>p. p \<noteq> []) (map trim_space (split_on (CHR '','') a))) \<le> length (split_on (CHR '','') a)"
    by (rule order_trans [OF length_filter_le]) simp
  moreover have "0 < length (split_on (CHR '','') a)" by (simp add: split_on_length)
  ultimately show ?thesis by (auto simp: splitListenIPs_def Let_def Suc_le_eq simp del: length_filter_le)
next
  case False
  then show ?thesis by (simp add: splitListenIPs_def split_on_length)
qed

lemma plain_names:
  assumes "plain_listen f t" and "t_InNodeId t = k"
  shows "set (buildMultiIPServiceNames s (t_TcpListenAddr (listen_override f t))) \<subseteq> set (tunnel_services k t f s)"
proof (cases "f_ListenIp f \<noteq> [] \<and> contains_str (f_ListenIp f) '',''")
  case True
  then have two: "2 \<le> length (splitListenIPs (f_ListenIp f))" using assms(1) by (simp add: plain_listen_def)
  have mono: "set (concat (map F [0..<m])) \<subseteq> set (concat (map F [0..<n]))" if "m \<le> n"
    for F :: "nat \<Rightarrow> string list" and m n
    using that by force
  let ?F = "\<lambda>i. [suffixed s i @ ''_tcp'', suffixed s i @ ''_udp'']"
  have "buildMultiIPServiceNames s (t_TcpListenAddr (listen_override f t)) =
      concat (map ?F [0..<length (splitListenIPs (f_ListenIp f))])"
    using True two by (simp add: buildMultiIPServiceNames_def Let_def listen_override_def)
  then have "set (buildMultiIPServiceNames s (t_TcpListenAddr (listen_override f t))) \<subseteq>
      set (concat (map ?F [0..<length (split_on (CHR '','') (f_ListenIp f))]))"
    using mono [OF split_le, of ?F "f_ListenIp f"] by simp
  moreover have "set (concat (map ?F [0..<length (split_on (CHR '','') (f_ListenIp f))])) \<subseteq>
      set (tunnel_services k t f s)"
    using True assms(2) by (simp add: tunnel_services_def)
  ultimately show ?thesis by (rule order_trans)
next
  case False
  then have "\<not> contains_str (t_TcpListenAddr (listen_override f t)) '',''"
    using assms(1) by (auto simp: plain_listen_def listen_override_def)
  then show ?thesis using False assms(2)
    by (auto simp: buildMultiIPServiceNames_def Let_def splitListenIPs_single tunnel_services_def)
qed

lemma valid_of_forward:
  assumes "f \<in> set (forwards d)" and "t \<in> set (tunnels d)" and "f_TunnelId f = t_ID t"
    and "t_InNodeId t = k \<or> t_OutNodeId t = k"
  shows "set (tunnel_services k t f (fwd_service_name d f)) \<subseteq> set (validServices d k)"
    and "set (tunnel_chains k t (fwd_service_name d f)) \<subseteq> set (validChains d k)"
  using assms by (auto simp: validServices_def validChains_def node_tunnels_def tunnel_forwards_def)

text \<open>Property: Cleaning a node spares its forwards. Whatever a node reports, no service that the panel
  creates on it for a forward is named by a delete command of \<open>CleanNodeConfigs\<close>: not the entry
  services (unless the listen addresses are a list the two sides read differently, see
  \<open>plain_listen\<close>), not the service on the exit node, not the chain; nor a service or chain of a
  route forward.\<close>

theorem clean_spares_forwards:
  assumes "parse_int s = Some k" and "\<forall>n \<in> set (gc_Chains cfg). has_suffix n ''_chains''"
    and "f \<in> set (forwards (wdb w))"
  shows "\<exists>ms. wsent (CleanNodeConfigs e s cfg w) = wsent w @ ms \<and>
    (\<forall>t \<in> set (tunnels (wdb w)). t_ID t = f_TunnelId f \<longrightarrow>
      (t_InNodeId t = k \<and> plain_listen f t \<longrightarrow>
         (\<forall>(n, m) \<in> set ms. spares (set (buildMultiIPServiceNames (fwd_service_name (wdb w) f)
            (t_TcpListenAddr (listen_override f t)))) {} m)) \<and>
      (t_InNodeId t = k \<and> t_Type t = 2 \<longrightarrow>
         (\<forall>(n, m) \<in> set ms. spares {} {fwd_service_name (wdb w) f @ ''_chains''} m)) \<and>
      (t_OutNodeId t = k \<and> t_Type t = 2 \<longrightarrow>
         (\<forall>(n, m) \<in> set ms. spares {fwd_service_name (wdb w) f @ ''_tls''} {} m))) \<and>
    (f \<in> set (node_route_forwards (wdb w) k) \<longrightarrow>
       (\<forall>(n, m) \<in> set ms. spares (set (route_services (wdb w) k f)) (set (route_chains (wdb w) k f)) m))"
proof -
  let ?V = "set (validServices (wdb w) k)" and ?C = "set (validChains (wdb w) k)"
  obtain ms where ms: "wsent (CleanNodeConfigs e s cfg w) = wsent w @ ms" "\<forall>(n, m) \<in> set ms. spares ?V ?C m"
    using clean_spares [OF assms(1,2), of e w] by (auto simp: sent_by_def)
  have mono: "\<forall>(n, m) \<in> set ms. spares A B m" if "A \<subseteq> ?V" "B \<subseteq> ?C" for A B
    using ms(2) that by (fastforce simp: spares_def split: msg.splits)
  have T: "(t_InNodeId t = k \<and> plain_listen f t \<longrightarrow>
         (\<forall>(n, m) \<in> set ms. spares (set (buildMultiIPServiceNames (fwd_service_name (wdb w) f)
            (t_TcpListenAddr (listen_override f t)))) {} m)) \<and>
      (t_InNodeId t = k \<and> t_Type t = 2 \<longrightarrow>
         (\<forall>(n, m) \<in> set ms. spares {} {fwd_service_name (wdb w) f @ ''_chains''} m)) \<and>
      (t_OutNodeId t = k \<and> t_Type t = 2 \<longrightarrow>
         (\<forall>(n, m) \<in> set ms. spares {fwd_service_name (wdb w) f @ ''_tls''} {} m))"
    if t: "t \<in> set (tunnels (wdb w))" "t_ID t = f_TunnelId f" for t
  proof (intro conjI impI)
    note V = valid_of_forward [OF assms(3) t(1) t(2) [symmetric]]
    show "\<forall>(n, m) \<in> set ms. spares (set (buildMultiIPServiceNames (fwd_service_name (wdb w) f)
        (t_TcpListenAddr (listen_override f t)))) {} m" if "t_InNodeId t = k \<and> plain_listen f t"
      using that V(1) [of k] plain_names [of f t k] by (intro mono) (auto dest: subsetD)
    show "\<forall>(n, m) \<in> set ms. spares {} {fwd_service_name (wdb w) f @ ''_chains''} m"
      if "t_InNodeId t = k \<and> t_Type t = 2"
      using that V(2) [of k] by (intro mono) (auto simp: tunnel_chains_def)
    show "\<forall>(n, m) \<in> set ms. spares {fwd_service_name (wdb w) f @ ''_tls''} {} m"
      if "t_OutNodeId t = k \<and> t_Type t = 2"
      using that V(1) [of k] by (intro mono) (auto simp: tunnel_services_def split: if_splits)
  qed
  moreover have "\<forall>(n, m) \<in> set ms. spares (set (route_services (wdb w) k f)) (set (route_chains (wdb w) k f)) m"
    if "f \<in> set (node_route_forwards (wdb w) k)"
    using that by (intro mono) (auto simp: validServices_def validChains_def)
  ultimately show ?thesis using ms(1) by blast
qed

text \<open>The witness: node 1 of \<open>busy_world\<close> reports the services of forward 10 and of a forward that no
  longer exists.\<close>

definition sample_report :: GostConfigDto where
  "sample_report = \<lparr>gc_Limiters = [], gc_Chains = [''10_2_2_chains''],
     gc_Services = [''10_2_2_tcp'', ''10_2_2_udp'', ''9_2_2_tcp'']\<rparr>"

theorem clean_spares_forwards_witness:
  "{x \<in> set (wsent (CleanNodeConfigs sample_env ''1'' sample_report busy_world)).
      \<not> spares (set (buildMultiIPServiceNames ''10_2_2'' ''::'')) {} (snd x)} = {} \<and>
   wsent (CleanNodeConfigs sample_env ''1'' sample_report busy_world) =
     [(1, DeleteService_msg [''9_2_2_tcp'', ''9_2_2_udp''])]"
proof
  have p: "parse_int ''1'' = Some 1" and c: "\<forall>n \<in> set (gc_Chains sample_report). has_suffix n ''_chains''"
    and f: "sample_forward \<in> set (forwards (wdb busy_world))"
    and t: "sample_tunnel 2 2 2 \<in> set (tunnels (wdb busy_world))" by code_simp+
  have n: "fwd_service_name (wdb busy_world) sample_forward = ''10_2_2''"
    "t_TcpListenAddr (listen_override sample_forward (sample_tunnel 2 2 2)) = ''::''"
    "t_ID (sample_tunnel 2 2 2) = f_TunnelId sample_forward" "t_InNodeId (sample_tunnel 2 2 2) = 1"
    "plain_listen sample_forward (sample_tunnel 2 2 2)" "wsent busy_world = []" by code_simp+
  from clean_spares_forwards [OF p c f, of sample_env] t n
  show "{x \<in> set (wsent (CleanNodeConfigs sample_env ''1'' sample_report busy_world)).
      \<not> spares (set (buildMultiIPServiceNames ''10_2_2'' ''::'')) {} (snd x)} = {}"
    by fastforce
  show "wsent (CleanNodeConfigs sample_env ''1'' sample_report busy_world) =
     [(1, DeleteService_msg [''9_2_2_tcp'', ''9_2_2_udp''])]" by code_simp
qed

text \<open>What the hypothesis on the listen addresses is for: on a tunnel with two listen addresses the
  services of a forward without its own are named \<open>10_2_2_0_tcp\<close> and so on, and the panel
  deletes them as orphans.\<close>

definition two_address_world :: "unit world" where
  "two_address_world = busy_world\<lparr>wdb := (wdb busy_world)\<lparr>tunnels :=
     [(sample_tunnel 2 2 2)\<lparr>t_TcpListenAddr := ''10.0.0.1,10.0.0.2''\<rparr>]\<rparr>\<rparr>"

lemma clean_deletes_running_services:
  "map s_name (buildServices (fwd_service_name (wdb two_address_world) sample_forward) 1000 None ''8.8.8.8:53'' 2
     (listen_override sample_forward ((sample_tunnel 2 2 2)\<lparr>t_TcpListenAddr := ''10.0.0.1,10.0.0.2''\<rparr>)) [] [] False) =
     [''10_2_2_0_tcp'', ''10_2_2_0_udp'', ''10_2_2_1_tcp'', ''10_2_2_1_udp'']"
  "(1, DeleteService_msg [''10_2_2_0_tcp'', ''10_2_2_0_udp'']) \<in> set (wsent (CleanNodeConfigs sample_env ''1''
     \<lparr>gc_Limiters = [], gc_Chains = [], gc_Services = [''10_2_2_0_tcp'', ''10_2_2_0_udp'', ''10_2_2_1_tcp'',
        ''10_2_2_1_udp'']\<rparr> two_address_world))"
  by code_simp+

section \<open>Reconciling\<close>

text \<open>What reconciliation may change in the database: the status of a forward, to active.\<close>

definition recovers :: "db \<Rightarrow> db \<Rightarrow> bool" where
  "recovers d d' \<longleftrightarrow> (\<exists>g. (\<forall>f. g f = f \<or> g f = f\<lparr>f_Status := forwardStatusActive\<rparr>) \<and>
     d' = d\<lparr>forwards := map g (forwards d)\<rparr>)"

lemma recovers_refl [simp]: "recovers d d"
  unfolding recovers_def by (rule exI [of _ "\<lambda>f. f"]) simp

lemma recovers_trans: "recovers a b \<Longrightarrow> recovers b c \<Longrightarrow> recovers a c"
proof -
  assume "recovers a b" and "recovers b c"
  then obtain g h where g: "\<forall>f. g f = f \<or> g f = f\<lparr>f_Status := forwardStatusActive\<rparr>"
    "b = a\<lparr>forwards := map g (forwards a)\<rparr>"
    and h: "\<forall>f. h f = f \<or> h f = f\<lparr>f_Status := forwardStatusActive\<rparr>"
    "c = b\<lparr>forwards := map h (forwards b)\<rparr>" by (auto simp: recovers_def)
  have "\<forall>f. (h \<circ> g) f = f \<or> (h \<circ> g) f = f\<lparr>f_Status := forwardStatusActive\<rparr>"
  proof
    fix f
    show "(h \<circ> g) f = f \<or> (h \<circ> g) f = f\<lparr>f_Status := forwardStatusActive\<rparr>"
      using g(1)[rule_format, of f] h(1)[rule_format, of f]
        h(1)[rule_format, of "f\<lparr>f_Status := forwardStatusActive\<rparr>"] by auto
  qed
  with g(2) h(2) show ?thesis unfolding recovers_def by (intro exI [of _ "h \<circ> g"]) simp
qed

lemma recovers_step: "recovers d (wdb w) \<Longrightarrow> recovers d (wdb (recover_status e f w))"
proof -
  assume "recovers d (wdb w)"
  moreover have "recovers (wdb w) (wdb (recover_status e f w))"
  proof -
    have "recovers x (set_forward (f_ID f) (\<lambda>f. f\<lparr>f_Status := forwardStatusActive\<rparr>) x)" for x
      unfolding recovers_def set_forward_def update_where_def
      by (rule exI [of _ "\<lambda>r. if f_ID r = f_ID f then r\<lparr>f_Status := forwardStatusActive\<rparr> else r"]) simp
    then show ?thesis
      using db_exec_db [of e "set_forward (f_ID f) (\<lambda>f. f\<lparr>f_Status := forwardStatusActive\<rparr>)" w]
      by (auto simp: recover_status_def)
  qed
  ultimately show ?thesis by (rule recovers_trans)
qed

lemma recovers_fields:
  assumes "recovers d d'"
  shows "nodes d' = nodes d" "tunnels d' = tunnels d" "routes d' = routes d" "route_hops d' = route_hops d"
    "route_ports d' = route_ports d" "user_tunnels d' = user_tunnels d" "speed_limits d' = speed_limits d"
    "f \<in> set (forwards d') \<Longrightarrow> f_Status f \<noteq> forwardStatusActive \<Longrightarrow> f \<in> set (forwards d)"
    "forward_on_node d' n k = forward_on_node d n k"
proof -
  obtain g where g: "\<forall>f. g f = f \<or> g f = f\<lparr>f_Status := forwardStatusActive\<rparr>"
    "d' = d\<lparr>forwards := map g (forwards d)\<rparr>" using assms by (auto simp: recovers_def)
  show "nodes d' = nodes d" "tunnels d' = tunnels d" "routes d' = routes d" "route_hops d' = route_hops d"
    "route_ports d' = route_ports d" "user_tunnels d' = user_tunnels d" "speed_limits d' = speed_limits d"
    by (simp_all add: g(2))
  show "f \<in> set (forwards d)" if "f \<in> set (forwards d')" "f_Status f \<noteq> forwardStatusActive"
  proof -
    obtain r where r: "r \<in> set (forwards d)" "f = g r" using \<open>f \<in> set (forwards d')\<close> by (auto simp: g(2))
    then show ?thesis using g(1)[rule_format, of r] that(2) by auto
  qed
  have "f_ID (g f) = f_ID f \<and> f_TunnelId (g f) = f_TunnelId f \<and> f_RouteId (g f) = f_RouteId f" for f
    using g(1)[rule_format, of f] by auto
  then show "forward_on_node d' n k = forward_on_node d n k"
    by (simp add: forward_on_node_def g(2) list_ex_iff)
qed

text \<open>The commands reconciliation may send to a node, for the database \<open>d\<close>.\<close>

definition gentle :: "db \<Rightarrow> int \<Rightarrow> msg \<Rightarrow> bool" where
  "gentle d nodeId m = (case m of
     DeleteService_msg names \<Rightarrow> \<forall>n \<in> set names. \<exists>k. name_forward n = Some k \<and> \<not> forward_on_node d nodeId k
   | PauseService_msg names \<Rightarrow>
       \<exists>f \<in> set (forwards d). f_Status f = forwardStatusPaused \<and> (\<forall>n \<in> set names. own (f_ID f) n)
   | AddService_msg _ \<Rightarrow> True | UpdateForwarder_msg _ \<Rightarrow> True | AddChains_msg _ \<Rightarrow> True
   | UpdateChains_msg _ _ \<Rightarrow> True | AddLimiters_msg _ \<Rightarrow> True | GetServiceNames_msg \<Rightarrow> True
   | _ \<Rightarrow> False)"

definition hist :: "'n env \<Rightarrow> db \<Rightarrow> int \<Rightarrow> 'n world \<Rightarrow> 'n world \<Rightarrow> bool" where
  "hist e d nodeId w0 w \<longleftrightarrow> sent_by e (gentle d nodeId) w0 w \<and> recovers d (wdb w)"

lemma hist_SendMsg: "gentle d k m \<Longrightarrow> hist e d k w0 w \<Longrightarrow> hist e d k w0 (snd (SendMsg e n m w))"
  by (simp add: hist_def sent_SendMsg frame_simps)

lemma hist_wrappers:
  assumes "hist e d k w0 w"
  shows "hist e d k w0 (snd (AddLimiters e n i s w))" "hist e d k w0 (snd (AddChains e n nm ra pr ifn w))"
    "hist e d k w0 (snd (AddRemoteService e n nm p ra pr st ifn w))"
    "hist e d k w0 (snd (UpdateRemoteForwarder e n nm ra st w))"
    "hist e d k w0 (snd (AddService e n nm p lm ra ty t st ifn w))"
    "hist e d k w0 (snd (UpdateForwarder e n nm ra st w))"
    "hist e d k w0 (snd (AddRouteChain e n nm ra pr ifn w))"
    "hist e d k w0 (snd (UpdateRouteChain e n nm ra pr ifn w))"
    "hist e d k w0 (snd (AddRouteEntryService e n nm p lm la ch pr ifn w))"
    "hist e d k w0 (snd (AddRouteRelayService e n nm p ch pr ifn w))"
    "hist e d k w0 (snd (AddRouteTerminalService e n nm p ra pr st ifn w))"
    "hist e d k w0 (snd (GetServiceNames e n w))"
  unfolding msg_defs Let_def by (rule hist_SendMsg [OF _ assms]; simp add: gentle_def)+

lemma hist_recover: "hist e d k w0 w \<Longrightarrow> hist e d k w0 (recover_status e f w)"
  by (simp add: hist_def recovers_step) (simp add: recover_status_def sent_db)

lemma hist_pauses:
  assumes h: "hist e d k w0 w" and f: "f \<in> set (forwards d)" "f_Status f = forwardStatusPaused"
    and o: "own (f_ID f) name"
  shows "hist e d k w0 (snd (PauseService e n name w))" "hist e d k w0 (snd (PauseRemoteService e n name w))"
    "hist e d k w0 (snd (PauseServiceMultiIP e n name ip w))"
    "(\<And>s. s \<in> set names \<Longrightarrow> own (f_ID f) s) \<Longrightarrow> hist e d k w0 (snd (PauseRouteServices e n names w))"
proof -
  have "gentle d k (PauseService_msg ns)" if "\<forall>s \<in> set ns. own (f_ID f) s" for ns
    using f that by (auto simp: gentle_def)
  then show "hist e d k w0 (snd (PauseService e n name w))" "hist e d k w0 (snd (PauseRemoteService e n name w))"
    "hist e d k w0 (snd (PauseServiceMultiIP e n name ip w))"
    "(\<And>s. s \<in> set names \<Longrightarrow> own (f_ID f) s) \<Longrightarrow> hist e d k w0 (snd (PauseRouteServices e n names w))"
    unfolding msg_defs by (auto intro!: hist_SendMsg [OF _ h] simp: o own_multi [OF o])
qed

lemma hist_fold:
  assumes "hist e d k w0 (snd rw)"
    and "\<And>x rw. x \<in> set xs \<Longrightarrow> hist e d k w0 (snd rw) \<Longrightarrow> hist e d k w0 (snd (step x rw))"
  shows "hist e d k w0 (snd (fold step xs rw))"
  using assms by (induction xs arbitrary: rw) auto

lemma hist_limiters: "hist e d k w0 (snd rw) \<Longrightarrow> hist e d k w0 (snd (reconcileLimiters e n rw))"
  unfolding reconcileLimiters_def
  by (rule hist_fold) (auto simp: Let_def case_prod_beta intro!: hist_wrappers split: option.split)

lemma hist_gentleSync:
  "hist e d k w0 w \<Longrightarrow> hist e d k w0 (snd (gentleSyncGostServices e f t lm i out name w))"
  by (auto simp: gentleSyncGostServices_def gentleSyncRemote_def Let_def case_prod_beta
      intro!: hist_wrappers split: option.split)

lemma hist_repause:
  assumes "hist e d k w0 w" and "f \<in> set (forwards d)" "f_Status f = forwardStatusPaused"
  shows "hist e d k w0 (repause e n t out f (fwd_service_name d' f) w)"
  using assms by (auto simp: repause_def Let_def fwd_service_name_def intro!: hist_pauses)

lemma hist_reconcile_one:
  assumes h: "hist e d k w0 (snd rw)" and f: "f_Status f = forwardStatusPaused \<Longrightarrow> f \<in> set (forwards d)"
  shows "hist e d k w0 (snd (reconcile_one e n t i out f rw))"
proof -
  obtain r w where rw: "rw = (r, w)" by (cases rw)
  then have "hist e d k w0 w" using h by simp
  note g = hist_gentleSync [OF this]
  show ?thesis
    using f by (auto simp: reconcile_one_def rw Let_def case_prod_beta intro!: hist_repause hist_recover g)
qed

lemma paused_before: "hist e d k w0 w \<Longrightarrow> f \<in> set (forwards (wdb w)) \<Longrightarrow> f_Status f = forwardStatusPaused \<Longrightarrow>
    f \<in> set (forwards d)"
  by (rule recovers_fields(8)) (auto simp: hist_def forwardStatusPaused_def forwardStatusActive_def)

lemma hist_tunnel:
  assumes h: "hist e d k w0 (snd rw)"
  shows "hist e d k w0 (snd (reconcile_tunnel e n t rw))"
proof -
  obtain r w where rw: "rw = (r, w)" by (cases rw)
  have "hist e d k w0 (snd (fold (reconcile_one e n t i out) (tunnel_forwards (wdb w) (t_ID t)) (r, w)))" for i out
  proof (rule hist_fold)
    show "hist e d k w0 (snd (r, w))" using h rw by simp
    fix f and rw' :: "ReconcileResult \<times> 'a world"
    assume f: "f \<in> set (tunnel_forwards (wdb w) (t_ID t))" and h': "hist e d k w0 (snd rw')"
    show "hist e d k w0 (snd (reconcile_one e n t i out f rw'))"
      by (rule hist_reconcile_one [OF h']) (use paused_before [of e d k w0 w f] f h rw in \<open>auto simp: tunnel_forwards_def\<close>)
  qed
  then show ?thesis using h by (auto simp: reconcile_tunnel_def rw Let_def split: sum.split prod.split)
qed

lemma hist_forwards: "hist e d k w0 (snd rw) \<Longrightarrow> hist e d k w0 (snd (reconcileForwards e n rw))"
  unfolding reconcileForwards_def by (rule hist_fold) (auto intro: hist_tunnel)

lemma hist_hop: "hist e d k w0 w \<Longrightarrow> hist e d k w0 (snd (sync_hop e n f rt hops ph lm nm i w))"
  by (simp add: sync_hop_def sync_answer_def Let_def case_prod_beta hist_wrappers)

lemma hist_chain: "hist e d k w0 w \<Longrightarrow> hist e d k w0 (snd (addOrUpdateRouteChain e n ch ra pr ifn w))"
  by (simp add: addOrUpdateRouteChain_def Let_def case_prod_beta hist_wrappers)

lemma hist_route_sync:
  "hist e d k w0 w \<Longrightarrow> hist e d k w0 (snd (gentleSyncRouteGostServicesOnNode e n f rt hops ports lm nm w))"
  by (simp add: gentleSyncRouteGostServicesOnNode_def Let_def case_prod_beta hist_hop hist_chain split: option.split)

lemma hist_route_one:
  assumes h: "hist e d k w0 (snd rw)" and f: "f_Status f = forwardStatusPaused \<Longrightarrow> f \<in> set (forwards d)"
  shows "hist e d k w0 (snd (reconcile_route_one e n f rw))"
proof -
  obtain r w where rw: "rw = (r, w)" by (cases rw)
  then have w: "hist e d k w0 w" using h by simp
  let ?name = "buildServiceName (f_ID f) (f_UserId f) None"
  have pause: "hist e d k w0 (snd (setRouteForwardServicesPausedOnNode e n hops ports ?name True w1))"
    if "hist e d k w0 w1" "f_Status f = forwardStatusPaused" for hops ports w1
    using that f by (auto simp: setRouteForwardServicesPausedOnNode_def Let_def case_prod_beta
        intro!: hist_pauses(4) [where name = ?name])
  show ?thesis
    using w by (auto simp: reconcile_route_one_def rw Let_def case_prod_beta intro!: pause hist_recover hist_route_sync
        split: sum.split)
qed

lemma hist_routes: "hist e d k w0 (snd rw) \<Longrightarrow> hist e d k w0 (snd (reconcileRouteForwards e n rw))"
  unfolding reconcileRouteForwards_def
proof (rule hist_fold)
  fix f and rw' :: "ReconcileResult \<times> 'a world"
  assume "hist e d k w0 (snd rw)" "f \<in> set (node_route_forwards (wdb (snd rw)) n)" "hist e d k w0 (snd rw')"
  then show "hist e d k w0 (snd (reconcile_route_one e n f rw'))"
    using paused_before [of e d k w0 "snd rw" f] by (intro hist_route_one) (auto simp: node_route_forwards_def)
qed

lemma hist_orphans:
  assumes h: "hist e d k w0 (snd rw)"
  shows "hist e d k w0 (snd (cleanupOrphanServices e k rw))"
proof -
  obtain r w where rw: "rw = (r, w)" by (cases rw)
  have g: "hist e d k w0 (snd (GetServiceNames e k w))" using h rw by (simp add: hist_wrappers)
  have same: "forward_on_node (wdb (snd (GetServiceNames e k w))) k = forward_on_node d k"
    using recovers_fields(9) g by (auto simp: hist_def)
  show ?thesis
    using g by (auto simp: cleanupOrphanServices_def rw Let_def case_prod_beta same
        intro!: hist_SendMsg split: option.split reply_data.split) (auto simp: gentle_def)
qed

lemma hist_reconcileGost: "hist e (wdb w) k w (snd (reconcileGost e locked k w))"
proof -
  have "hist e (wdb w) k w w" by (simp add: hist_def sends.R_refl)
  then show ?thesis
    by (auto simp: reconcileGost_def Let_def intro!: hist_orphans hist_routes hist_forwards hist_limiters)
qed

text \<open>C12: Reconciliation is gentle. Every command it sends adds something, updates targets or a
  chain in place, pauses services of a forward that is paused in the database, or deletes
  services of forwards that do not run on the node; a running service of a forward of the node is
  never restarted or removed. In the database it only changes the status of forwards, to active.\<close>

theorem reconcile_is_gentle:
  shows "\<exists>ms. wsent (snd (reconcileGost e locked k w)) = wsent w @ ms \<and> {x \<in> set ms. \<not> gentle (wdb w) k (snd x)} = {} \<and>
    recovers (wdb w) (wdb (snd (reconcileGost e locked k w)))"
  using hist_reconcileGost [of e w k locked] by (fastforce simp: hist_def sent_by_def)

end
