(* ===== verification/Panel_Reach.thy ===== *)
theory Panel_Reach
  imports Reset_Flow User_Steps Reconcile_Props
begin

text \<open>
  The panel as a state machine. A step is one request handled by the panel (forwards,
  routes, tunnels, permissions, nodes, accounts), one traffic report of a node, one run of the
  daily task or of the hourly statistics, one reconciliation of a node, a start of the panel, a
  node that connects or leaves, or a change of the nodes on their own. Every rule lets
  the environment be anything: which database writes fail, which nodes are connected, what they
  answer and what the clock says may differ from step to step, so a theorem about the reachable
  worlds holds under every failure the model knows.
\<close>

inductive panel_step :: "'n world \<Rightarrow> 'n world \<Rightarrow> bool" where
  step_CreateForward: "panel_step w (snd (CreateForward e fd userId roleId userName w))"
| step_UpdateForward: "panel_step w (snd (UpdateForward e fu userId roleId w))"
| step_DeleteForward: "panel_step w (snd (DeleteForward e k userId roleId w))"
| step_ForceDeleteForward: "panel_step w (snd (ForceDeleteForward e k w))"
| step_PauseForward: "panel_step w (snd (PauseForward e k userId roleId w))"
| step_ResumeForward: "panel_step w (snd (ResumeForward e k userId roleId w))"
| step_UpdateForwardOrder: "panel_step w (snd (UpdateForwardOrder e items userId roleId w))"
| step_UpdateForwardA: "panel_step w (UpdateForwardA e f w)"
| step_CreateRoute: "panel_step w (snd (CreateRoute e rd w))"
| step_UpdateRoute: "panel_step w (snd (UpdateRoute e ru w))"
| step_DeleteRoute: "panel_step w (snd (DeleteRoute e k w))"
| step_CreateTunnel: "panel_step w (snd (CreateTunnel e td w))"
| step_UpdateTunnel: "panel_step w (snd (UpdateTunnel e tu w))"
| step_UpdateTunnelOrder: "panel_step w (snd (UpdateTunnelOrder e items w))"
| step_DeleteTunnel: "panel_step w (snd (DeleteTunnel e k w))"
| step_CreateSpeedLimit: "panel_step w (snd (CreateSpeedLimit e sd w))"
| step_UpdateSpeedLimit: "panel_step w (snd (UpdateSpeedLimit e su w))"
| step_DeleteSpeedLimit: "panel_step w (snd (DeleteSpeedLimit e k w))"
| step_AssignUserTunnel: "panel_step w (snd (AssignUserTunnel e utd w))"
| step_RemoveUserTunnel: "panel_step w (snd (RemoveUserTunnel e k w))"
| step_UpdateUserTunnel: "panel_step w (snd (UpdateUserTunnel e utu w))"
| step_CreateNode: "panel_step w (snd (CreateNode e secret nd w))"
| step_UpdateNode: "panel_step w (snd (UpdateNode e nu w))"
| step_DeleteNode: "panel_step w (snd (DeleteNode e k w))"
| step_UpdateNodeOrder: "panel_step w (snd (UpdateNodeOrder e items w))"
| step_ProcessFlowUpload: "(\<And>w. wdb (other w) = wdb w) \<Longrightarrow>
    panel_step w (ProcessFlowUpload e other secret report w)"
| step_ProcessXrayFlowUpload: "panel_step w (ProcessXrayFlowUpload e secret clients w)"
| step_resetFlow: "panel_step w (resetFlow e c w)"
| step_Login: "panel_step w (snd (Login e lo w))"
| step_CreateUser: "panel_step w (snd (CreateUser e ud w))"
| step_UpdateUser: "panel_step w (snd (UpdateUser e uud w))"
| step_DeleteUser: "panel_step w (snd (DeleteUser e k w))"
| step_UpdatePassword: "panel_step w (snd (UpdatePassword e k up w))"
| step_ResetFlow: "panel_step w (snd (ResetFlow e k flowType w))"
| step_RecordHourlyStatistics: "panel_step w (RecordHourlyStatistics e hour w)"
| step_reconcile: "panel_step w (snd (reconcileGost e locked k w))"
| step_CleanNodeConfigs: "panel_step w (CleanNodeConfigs e s cfg w)"
| step_ensureAdminUser: "panel_step w (ensureAdminUser e newPassword w)"
| step_ensureDefaultConfig: "panel_step w (ensureDefaultConfig e w)"
| step_OnNodeOnline: "panel_step w (OnNodeOnline e k v w)"
| step_OnNodeOffline: "panel_step w (OnNodeOffline e k w)"
| step_nodes: "panel_step w (w\<lparr>wnet := net\<rparr>)"

inductive_cases panel_stepE: "panel_step w w'"

text \<open>The worlds the panel can reach from an empty database.\<close>

inductive reachable :: "'n world \<Rightarrow> bool" where
  reachable_init: "wdb w = empty_db \<Longrightarrow> reachable w"
| reachable_step: "reachable w \<Longrightarrow> panel_step w w' \<Longrightarrow> reachable w'"

section \<open>Reports and the daily task keep the invariant\<close>

lemma pause_one_inv: "panel_inv (wdb w) \<Longrightarrow> panel_inv (wdb (pause_one e f w))"
  by (auto simp: pause_one_def Let_def frame_simps status_view split: option.split
      intro!: panel.keep_exec_view)

lemma pauseForwardServices_inv:
  "panel_inv (wdb w) \<Longrightarrow> panel_inv (wdb (pauseForwardServices e fs w))"
  unfolding pauseForwardServices_def by (rule panel.keep_fold) (auto intro: pause_one_inv)

lemma flows_view:
  "ports_view (set_forward k (\<lambda>f. f\<lparr>f_InFlow := f_InFlow f + a, f_OutFlow := f_OutFlow f + b\<rparr>) d) =
     ports_view d"
  by (simp add: set_forward_view)

lemma add_flows_inv: "panel_inv (wdb w) \<Longrightarrow> panel_inv (wdb (add_flows e f u ut a b w))"
  by (auto simp: add_flows_def Let_def flows_view intro!: panel.keep_exec_view)

lemma check_limits_inv:
  assumes "panel_inv (wdb w)"
  shows "panel_inv (wdb (checkUserLimits e u w))" and "panel_inv (wdb (checkUserTunnelLimits e t u w))"
  using assms
  by (auto simp: checkUserLimits_def checkUserTunnelLimits_def pauseAllUserServices_def
      pauseSpecificForward_def split: option.split intro: pauseForwardServices_inv)

lemma ProcessFlowUpload_inv:
  assumes inv: "panel_inv (wdb w)" and other: "\<And>w. wdb (other w) = wdb w"
  shows "panel_inv (wdb (ProcessFlowUpload e other secret report w))"
proof -
  have "panel_inv (wdb (processFlowData e other d w))" for d
    using inv by (auto simp: processFlowData_def Let_def other case_prod_beta
        split: list.split option.split intro!: add_flows_inv check_limits_inv)
  with inv show ?thesis by (auto simp: ProcessFlowUpload_def split: option.split)
qed

lemma disable_client_inv: "panel_inv (wdb w) \<Longrightarrow> panel_inv (wdb (disable_client e c w))"
  by (auto simp: disable_client_def Let_def frame_simps split: option.split
      intro!: panel.keep_exec_view)

lemma checkUserXrayLimits_inv: "panel_inv (wdb w) \<Longrightarrow> panel_inv (wdb (checkUserXrayLimits e u w))"
  by (auto simp: checkUserXrayLimits_def split: option.split
      intro!: panel.keep_fold disable_client_inv)

lemma xray_report_inv:
  assumes inv: "panel_inv (wdb w)"
  shows "panel_inv (wdb (xray_report e r w))"
proof -
  have "panel_inv (wdb (db_exec e (users_update f) (db_exec e (xray_clients_update g) w)))" for f g
    using inv by (auto intro!: panel.keep_exec_view)
  then show ?thesis
    using inv by (auto simp: xray_report_def Let_def case_prod_beta split: option.split
        intro!: disable_client_inv checkUserXrayLimits_inv)
qed

lemma ProcessXrayFlowUpload_inv:
  "panel_inv (wdb w) \<Longrightarrow> panel_inv (wdb (ProcessXrayFlowUpload e secret cs w))"
  by (auto simp: ProcessXrayFlowUpload_def split: option.split
      intro!: panel.keep_fold xray_report_inv)

lemma pauseSingleForward_inv: "panel_inv (wdb w) \<Longrightarrow> panel_inv (wdb (pauseSingleForward e f w))"
  by (auto simp: pauseSingleForward_def Let_def frame_simps status_view split: option.split
      intro!: panel.keep_exec_view)

lemma expire_inv:
  assumes "panel_inv (wdb w)"
  shows "panel_inv (wdb (expire_user e u w))" and "panel_inv (wdb (expire_permission e t w))"
  unfolding expire_user_def expire_permission_def pauseUserForwards_def pauseUserTunnelForwards_def
  using assms
  by (auto intro!: panel.keep_exec_view panel.keep_fold pauseSingleForward_inv)

lemma reset_inv:
  assumes "panel_inv (wdb w)"
  shows "panel_inv (wdb (reset_user e u w))" and "panel_inv (wdb (reset_permission e t w))"
  unfolding reset_user_def reset_permission_def
  using assms by (auto intro!: panel.keep_exec_view)

lemma resetFlow_inv: "panel_inv (wdb w) \<Longrightarrow> panel_inv (wdb (resetFlow e c w))"
  unfolding resetFlow_def Let_def
  by (rule panel.keep_fold, rule panel.keep_fold, rule panel.keep_fold, rule panel.keep_fold)
     (assumption | rule reset_inv expire_inv)+

lemma recovers_view: "recovers d d' \<Longrightarrow> ports_view d' = ports_view d"
proof -
  assume r: "recovers d d'"
  then obtain g where g: "\<forall>f. g f = f \<or> g f = f\<lparr>f_Status := forwardStatusActive\<rparr>"
    "d' = d\<lparr>forwards := map g (forwards d)\<rparr>" by (auto simp: recovers_def)
  have "f_core (g f) = f_core f" for f using g(1)[rule_format, of f] by auto
  then show ?thesis by (simp add: ports_view_def g(2))
qed

lemma reconcile_inv:
  assumes "panel_inv (wdb w)"
  shows "panel_inv (wdb (snd (reconcileGost e locked k w)))" and "panel_inv (wdb (CleanNodeConfigs e s cfg w))"
proof -
  have "recovers (wdb w) (wdb (snd (reconcileGost e locked k w)))"
    using hist_reconcileGost [of e w k locked] by (simp add: hist_def)
  then show "panel_inv (wdb (snd (reconcileGost e locked k w)))"
    using panel.view [OF recovers_view] assms by blast
  show "panel_inv (wdb (CleanNodeConfigs e s cfg w))"
    using assms by (simp add: CleanNodeConfigs_db)
qed

lemmas handlers_inv = CreateForward_inv UpdateForward_inv DeleteForward_inv ForceDeleteForward_inv
  PauseForward_inv ResumeForward_inv UpdateForwardOrder_inv UpdateForwardA_inv CreateRoute_inv
  UpdateRoute_inv DeleteRoute_inv tunnel_ops_inv speed_ops_inv permission_ops_inv node_ops_inv
  ProcessFlowUpload_inv ProcessXrayFlowUpload_inv resetFlow_inv account_ops_inv statistics_inv
  reconcile_inv startup_inv

lemma step_inv: "panel_step w w' \<Longrightarrow> panel_inv (wdb w) \<Longrightarrow> panel_inv (wdb w')"
  by (erule panel_stepE) (simp_all add: handlers_inv)

lemma empty_inv: "panel_inv empty_db"
  by (simp add: panel_inv_def empty_db_def ports_exclusive_def occupies_def occupies_entry_def
      occupies_exit_def routes_wf_def keys_wf_def)

lemma reachable_inv: "reachable w \<Longrightarrow> panel_inv (wdb w)"
  by (induction rule: reachable.induct) (auto simp: empty_inv intro: step_inv)

section \<open>What holds in every reachable world\<close>

text \<open>C1: No two forwards share a port. In every world the panel can reach - whatever requests,
  reports, failures of the database and answers of the nodes came before - a port of a node is
  held by at most one forward, counting the entry port of tunnel forwards and of route forwards
  (on the route's first node), the exit port on the tunnel's exit node and the relay ports of
  route forwards.\<close>

theorem ports_never_shared:
  assumes "reachable w" and "occupies (wdb w) nodeId port k" and "occupies (wdb w) nodeId port k'"
  shows "k = k'"
  using reachable_inv [OF assms(1)] assms(2,3)
  by (auto simp: panel_inv_def ports_exclusive_def)

text \<open>C8: Routes stay usable: in every reachable world each route's hops, read in hop order, are
  numbered from 0 without gaps, are at least two and are all on different nodes.\<close>

theorem routes_always_wf:
  assumes "reachable w" and "r \<in> set (routes (wdb w))"
  shows "hops_wf (route_hop_list (wdb w) (r_ID r))"
  using reachable_inv [OF assms(1)] assms(2) by (auto simp: panel_inv_def routes_wf_def)

text \<open>A run from the empty database: two nodes, a tunnel between them, a route over them, and
  a forward on either.\<close>

definition demo_dto :: "string \<Rightarrow> int \<Rightarrow> int \<Rightarrow> ForwardDto" where
  "demo_dto name tunnelId routeId = (sample_dto tunnelId routeId None)\<lparr>fd_Name := name\<rparr>"

definition demo_nodes :: "unit world" where
  "demo_nodes = snd (CreateNode sample_env ''s2'' (NodeDto.make ''b'' ''10.0.0.2'' [] ''10.0.0.2'' 1000 1003 [])
     (snd (CreateNode sample_env ''s1'' (NodeDto.make ''a'' ''10.0.0.1'' [] ''10.0.0.1'' 1000 1003 [])
       \<lparr>wdb = empty_db, wops = 0, wnet = (), wsent = []\<rparr>)))"

definition demo_paths :: "unit world" where
  "demo_paths = snd (CreateRoute sample_env (RouteDto.make ''r'' [1, 2] [] [] [] [])
     (snd (CreateTunnel sample_env (TunnelDto.make ''t'' 1 (Some 2) 2 1 None [] [] [] []) demo_nodes)))"

definition demo_world :: "unit world" where
  "demo_world = snd (CreateForward sample_env (demo_dto ''f'' 1 0) 1 0 ''admin'' demo_paths)"

definition demo_route :: "unit world" where
  "demo_route = snd (CreateForward sample_env (demo_dto ''g'' 0 1) 1 0 ''admin'' demo_paths)"

lemma reachable_demo: "reachable demo_paths" "reachable demo_world" "reachable demo_route"
proof -
  note step = reachable_step [OF _ step_CreateNode] reachable_step [OF _ step_CreateTunnel]
    reachable_step [OF _ step_CreateRoute] reachable_step [OF _ step_CreateForward]
  have "reachable demo_nodes" unfolding demo_nodes_def by (intro step reachable_init) simp
  then show p: "reachable demo_paths" unfolding demo_paths_def by (intro step)
  from p show "reachable demo_world" unfolding demo_world_def by (intro step)
  from p show "reachable demo_route" unfolding demo_route_def by (intro step)
qed

theorem ports_never_shared_witness:
  "{k. occupies (wdb demo_world) 1 1000 k} = {1} \<and> {k. occupies (wdb demo_route) 2 1000 k} = {1}"
proof -
  have o: "occupies (wdb demo_world) 1 1000 1" "occupies (wdb demo_route) 2 1000 1" by code_simp+
  have "k = 1" if "occupies (wdb demo_world) 1 1000 k" for k
    by (rule ports_never_shared [OF reachable_demo(2) that o(1)])
  moreover have "k = 1" if "occupies (wdb demo_route) 2 1000 k" for k
    by (rule ports_never_shared [OF reachable_demo(3) that o(2)])
  ultimately show ?thesis using o by auto
qed

theorem routes_always_wf_witness:
  "map r_ID (routes (wdb demo_paths)) = [1] \<and> hops_wf (route_hop_list (wdb demo_paths) 1)"
proof -
  have r: "map r_ID (routes (wdb demo_paths)) = [1]" by code_simp
  then obtain r where "r \<in> set (routes (wdb demo_paths))" "r_ID r = 1" by auto
  with r routes_always_wf [OF reachable_demo(1)] show ?thesis by metis
qed

end
