(* ===== verification/Node_Spec.thy ===== *)
theory Node_Spec
  imports Node_Frame
begin

text \<open>
  What a node promises the panel, as a machine on a map from service names to configurations
  and whether the service listens (\<open>spec_command\<close>), and the proof that the registries,
  listeners and configuration lists of \<open>Node_Socket\<close> implement it as long as the operating
  system opens every listener (\<open>node_refines\<close>).
\<close>

section \<open>The specification\<close>

type_synonym spec = "string \<Rightarrow> (ServiceConfig \<times> bool) option"

definition spec_start :: "ServiceConfig list \<Rightarrow> spec \<Rightarrow> spec" where
  "spec_start data \<sigma> = fold (\<lambda>c \<sigma>. \<sigma>(s_name c \<mapsto> (default_types c, True))) data \<sigma>"

definition spec_switch :: "bool \<Rightarrow> string list \<Rightarrow> spec \<Rightarrow> spec" where
  "spec_switch b names \<sigma> = (\<lambda>n. if n \<in> set names then map_option (\<lambda>(c, _). (c, b)) (\<sigma> n) else \<sigma> n)"

text \<open>\<open>None\<close> is an error reply, which leaves the services as they are.\<close>

definition spec_command :: "msg \<Rightarrow> spec \<Rightarrow> spec option" where
  "spec_command m \<sigma> = (case m of
     AddService_msg data \<Rightarrow>
       if data \<noteq> [] \<and> (\<forall>c \<in> set data. s_name c \<noteq> [] \<and> \<sigma> (s_name c) = None) \<and>
          distinct (map s_name data)
       then Some (spec_start data \<sigma>) else None
   | UpdateService_msg data \<Rightarrow>
       if data \<noteq> [] \<and> (\<forall>c \<in> set data. s_name c \<noteq> [] \<and> \<sigma> (s_name c) \<noteq> None)
       then Some (spec_start data \<sigma>) else None
   | DeleteService_msg names \<Rightarrow>
       if names \<noteq> [] \<and> (\<forall>n \<in> set names. n \<noteq> [] \<and> \<sigma> n \<noteq> None)
       then Some (\<lambda>n. if n \<in> set names then None else \<sigma> n) else None
   | PauseService_msg names \<Rightarrow>
       if names \<noteq> [] \<and> (\<forall>n \<in> set names. n \<noteq> [] \<and> \<sigma> n \<noteq> None)
       then Some (spec_switch False names \<sigma>) else None
   | ResumeService_msg names \<Rightarrow>
       if names \<noteq> [] \<and> (\<forall>n \<in> set names. n \<noteq> [] \<and> \<sigma> n \<noteq> None)
       then Some (spec_switch True names \<sigma>) else None
   | _ \<Rightarrow> Some \<sigma>)"

text \<open>The commands covered: the five that manage services, with names as the panel writes them,
  without surrounding space, and an update naming each service once. A hot update of targets is left out: when it fails at the
  second name the first already has its new targets.\<close>

definition tidy :: "msg \<Rightarrow> bool" where
  "tidy m = (case m of
     AddService_msg data \<Rightarrow> \<forall>c \<in> set data. trim_space (s_name c) = s_name c
   | UpdateService_msg data \<Rightarrow> (\<forall>c \<in> set data. trim_space (s_name c) = s_name c) \<and>
       distinct (map s_name data)
   | DeleteService_msg names \<Rightarrow> \<forall>n \<in> set names. trim_space n = n
   | PauseService_msg names \<Rightarrow> \<forall>n \<in> set names. trim_space n = n
   | ResumeService_msg names \<Rightarrow> \<forall>n \<in> set names. trim_space n = n
   | _ \<Rightarrow> False)"

definition reliable :: "os \<Rightarrow> bool" where
  "reliable os \<longleftrightarrow> Listen os = (\<lambda>_ _ _. None) \<and> known_listener os = (\<lambda>_. True) \<and>
     known_handler os = (\<lambda>_. True) \<and> handler_error os = (\<lambda>_. None)"

section \<open>The configuration mirrors the registry\<close>

definition conf_map :: "(ServiceConfig \<times> bool) list \<Rightarrow> (string \<times> ServiceConfig \<times> bool) list" where
  "conf_map cs = map (\<lambda>(c, b). (s_name c, c, b)) cs"

definition conf_at :: "gost_node \<Rightarrow> string \<Rightarrow> (ServiceConfig \<times> bool) option" where
  "conf_at nd = map_of (conf_map (cfgServices nd))"

definition node_sync :: "gost_node \<Rightarrow> bool" where
  "node_sync nd \<longleftrightarrow> svc_wf nd \<and> distinct (map fst (conf_map (cfgServices nd))) \<and>
     (\<forall>n. conf_at nd n = map_option (\<lambda>(c, r). (c, \<not> r)) (svc_view nd n)) \<and>
     (\<forall>n c r. svc_view nd n = Some (c, r) \<longrightarrow> default_types c = c)"

lemma default_idem [simp]: "default_types (default_types c) = default_types c"
proof -
  have "trim_space ''tcp'' \<noteq> []" "trim_space ''auto'' \<noteq> []" by code_simp+
  then show ?thesis by (simp add: default_types_def Let_def)
qed

lemma switch_twice [simp]:
  "(\<lambda>(c, _). (c, b)) \<circ> (\<lambda>(c, _). (c, b')) = (\<lambda>(c, _). (c, b))"
  by (auto simp: fun_eq_iff)

section \<open>Steps on the view\<close>

lemma view_None: "svc_view nd n = None \<longleftrightarrow> n \<notin> reg_names nd"
  by (simp add: svc_view_def reg_names_def map_of_None_fst)

lemma view_Unregister: "svc_wf nd \<Longrightarrow> svc_view (UnregisterService n nd) = (svc_view nd)(n := None)"
proof
  fix m
  assume wf: "svc_wf nd"
  show "svc_view (UnregisterService n nd) m = ((svc_view nd)(n := None)) m"
  proof (cases "m = n")
    case True
    then show ?thesis by (simp add: view_None)
  next
    case False
    then show ?thesis using keepsD(2) [OF keeps_Unregister [of n "{n}" nd] wf, of m] by simp
  qed
qed

lemma view_Close:
  assumes wf: "svc_wf nd" and s: "map_of (svcReg nd) n = Some s"
  shows "svc_view (Close s nd) = (svc_view nd)(n := map_option (\<lambda>(c, _). (c, False)) (svc_view nd n))"
proof
  fix m
  show "svc_view (Close s nd) m = ((svc_view nd)(n := map_option (\<lambda>(c, _). (c, False)) (svc_view nd n))) m"
  proof (cases "m = n")
    case True
    with s show ?thesis by (simp add: svc_view_def)
  next
    case False
    then show ?thesis
      using keepsD(2) [OF keeps_Close_registered [OF s, of "{n}"] wf, of m] by simp
  qed
qed

lemma view_Close_other:
  assumes "svc_wf nd" and "owned nd n s" and "n \<notin> reg_names nd"
  shows "svc_view (Close s nd) = svc_view nd"
proof
  fix m
  show "svc_view (Close s nd) m = svc_view nd m"
  proof (cases "m = n")
    case True
    then show ?thesis using assms(3) by (metis Close_fields(9) view_None)
  next
    case False
    then show ?thesis using keepsD(2) [OF keeps_Close [OF assms(2), of "{n}"] assms(1), of m] by simp
  qed
qed

lemma reliable_Parse:
  assumes "reliable os"
  shows "ParseService os a c nd = (Inr \<lparr>sv_id = svcNext nd, sv_conf = default_types c\<rparr>,
     nd\<lparr>svcOpen := svcOpen nd @ [(svcNext nd, default_types c)], svcNext := Suc (svcNext nd)\<rparr>)"
  using assms by (simp add: ParseService_def reliable_def Let_def)

lemma view_Parse: "svc_wf nd \<Longrightarrow> svc_view (snd (ParseService os a c nd)) = svc_view nd"
  using keepsD(2) [OF keeps_Parse [of "{}" nd os a c]] by auto

text \<open>Registering a new open object.\<close>

lemma view_Register:
  assumes n: "n \<notin> reg_names nd" "n \<noteq> []" and o: "sv_id s \<in> open_ids nd"
  shows "Register n s (svcReg nd) = Some (svcReg nd @ [(n, s)])"
    and "svc_view (nd\<lparr>svcReg := svcReg nd @ [(n, s)]\<rparr>) = (svc_view nd)(n \<mapsto> (sv_conf s, True))"
proof -
  show "Register n s (svcReg nd) = Some (svcReg nd @ [(n, s)])"
    using n by (simp add: Register_Some reg_names_def)
  let ?nd = "nd\<lparr>svcReg := svcReg nd @ [(n, s)]\<rparr>"
  have "map_of (svcReg ?nd) = (map_of (svcReg nd))(n \<mapsto> s)"
  proof
    fix m
    show "map_of (svcReg ?nd) m = ((map_of (svcReg nd))(n \<mapsto> s)) m"
      using n(1) map_of_None_fst [of "svcReg nd" n]
      by (cases "map_of (svcReg nd) m") (auto simp: map_add_def reg_names_def)
  qed
  moreover have "open_ids ?nd = open_ids nd" by (simp add: open_ids_def)
  ultimately show "svc_view ?nd = (svc_view nd)(n \<mapsto> (sv_conf s, True))"
    using o unfolding svc_view_def by (intro ext) simp
qed

text \<open>Parsing and registering a configuration under its free name.\<close>

lemma launch:
  assumes rel: "reliable os" and wf: "svc_wf nd" and n: "n \<notin> reg_names nd" "n \<noteq> []" "s_name c = n"
  obtains s nd1 reg where "ParseService os a c nd = (Inr s, nd1)" "Register n s (svcReg nd1) = Some reg"
    and "svc_wf (nd1\<lparr>svcReg := reg\<rparr>)" "cfgServices nd1 = cfgServices nd"
    and "svc_view (nd1\<lparr>svcReg := reg\<rparr>) = (svc_view nd)(n \<mapsto> (default_types c, True))"
    and "\<And>m t. owned nd m t \<Longrightarrow> owned (nd1\<lparr>svcReg := reg\<rparr>) m t"
proof -
  define s where "s = \<lparr>sv_id = svcNext nd, sv_conf = default_types c\<rparr>"
  define nd1 where "nd1 = nd\<lparr>svcOpen := svcOpen nd @ [(svcNext nd, default_types c)], svcNext := Suc (svcNext nd)\<rparr>"
  have p: "ParseService os a c nd = (Inr s, nd1)" by (simp add: reliable_Parse [OF rel] s_def nd1_def)
  have n1: "n \<notin> reg_names nd1" "sv_id s \<in> open_ids nd1"
    using n by (simp_all add: nd1_def s_def reg_names_def open_ids_def)
  note r = view_Register [OF n1(1) n(2) n1(2)]
  note k = keeps_Parse_Register [OF p r(1) _ n(2,3), of "{n}"]
  have "svc_view nd1 = svc_view nd" using view_Parse [OF wf, of os a c] p by simp
  then show ?thesis
    using that [OF p r(1)] keepsD(1,3) [OF k [OF singletonI] wf] r(2) by (simp add: s_def nd1_def)
qed

text \<open>Closing and unregistering an object that belongs to the name.\<close>

definition drop_service :: "string \<times> svc \<Rightarrow> gost_node \<Rightarrow> gost_node" where
  "drop_service = (\<lambda>(n, s) nd. Close s (UnregisterService n nd))"

lemma drop_service:
  assumes wf: "svc_wf nd" and o: "owned nd (fst p) (snd p)"
  shows "svc_view (drop_service p nd) = (svc_view nd)(fst p := None)"
    and "keeps {fst p} nd (drop_service p nd)" and "cfgServices (drop_service p nd) = cfgServices nd"
proof -
  obtain n s where p: "p = (n, s)" by (cases p)
  let ?nd = "UnregisterService n nd"
  have k: "keeps {n} nd ?nd" by (rule keeps_Unregister) simp
  have o: "owned ?nd n s" and w: "svc_wf ?nd" using keepsD [OF k wf] o by (simp_all add: p)
  have "svc_view (Close s ?nd) = svc_view ?nd" by (rule view_Close_other [OF w o]) simp
  then show "svc_view (drop_service p nd) = (svc_view nd)(fst p := None)"
    by (simp add: drop_service_def p view_Unregister [OF wf])
  show "keeps {fst p} nd (drop_service p nd)"
    using keeps.R_trans [OF k keeps_Close [OF o singletonI]] by (simp add: drop_service_def p)
qed (simp add: drop_service_def case_prod_beta)

lemma drop_services:
  "svc_wf nd \<Longrightarrow> \<forall>p \<in> set ps. owned nd (fst p) (snd p) \<Longrightarrow>
   svc_view (fold drop_service ps nd) = (\<lambda>n. if n \<in> fst ` set ps then None else svc_view nd n) \<and>
   cfgServices (fold drop_service ps nd) = cfgServices nd \<and> svc_wf (fold drop_service ps nd)"
proof (induction ps arbitrary: nd)
  case (Cons p ps)
  note d = drop_service [OF Cons.prems(1), of p]
  have o: "owned nd (fst p) (snd p)" using Cons.prems(2) by simp
  note k = keepsD(1,3) [OF d(2) [OF o] Cons.prems(1)]
  have "\<forall>p' \<in> set ps. owned (drop_service p nd) (fst p') (snd p')" using Cons.prems(2) k(2) by simp
  from Cons.IH [OF k(1) this] show ?case using d [OF o] by (auto simp: fun_eq_iff)
qed simp

text \<open>Lists of configurations.\<close>

lemma find_conf: "find (\<lambda>(c, _). s_name c = n) cs = map_of (conf_map cs) n"
  by (induction cs) (auto simp: conf_map_def)

lemma first_conf_at: "first_conf nd n = conf_at nd n"
  by (simp add: first_conf_def conf_at_def find_conf)

lemma last_conf_at:
  "distinct (map fst (conf_map (cfgServices nd))) \<Longrightarrow> last_conf nd n = map_option fst (conf_at nd n)"
proof -
  assume "distinct (map fst (conf_map (cfgServices nd)))"
  moreover have "conf_map (rev cs) = rev (conf_map cs)" for cs by (simp add: conf_map_def rev_map)
  moreover have "map_of (rev xs) = map_of xs" if "distinct (map fst xs)" for xs :: "(string \<times> ServiceConfig \<times> bool) list"
    using that by (intro map_of_eqI) (auto simp: rev_map [symmetric])
  ultimately show ?thesis by (simp add: last_conf_def conf_at_def find_conf)
qed

lemma conf_map_append [simp]: "conf_map (xs @ ys) = conf_map xs @ conf_map ys"
  by (simp add: conf_map_def)

lemma conf_filter:
  "conf_map (filter (\<lambda>(c, _). s_name c \<notin> A) cs) = filter (\<lambda>(n, _). n \<notin> A) (conf_map cs)"
  by (induction cs) (auto simp: conf_map_def)

lemma map_of_filter_keys: "map_of (filter (\<lambda>(n, _). n \<notin> A) xs) n = (if n \<in> A then None else map_of xs n)"
  by (induction xs) auto

text \<open>Replacing the first entry of a name by one of the same name.\<close>

lemma conf_update_first:
  assumes "\<And>c b. s_name c = n \<Longrightarrow> s_name (fst (f (c, b))) = n"
  shows "map fst (conf_map (update_first (\<lambda>(c, _). s_name c = n) f cs)) = map fst (conf_map cs)"
    and "map_of (conf_map (update_first (\<lambda>(c, _). s_name c = n) f cs)) =
      (map_of (conf_map cs))(n := map_option f (map_of (conf_map cs) n))"
proof -
  show "map fst (conf_map (update_first (\<lambda>(c, _). s_name c = n) f cs)) = map fst (conf_map cs)"
    by (induction cs) (auto simp: conf_map_def assms case_prod_beta)
  show "map_of (conf_map (update_first (\<lambda>(c, _). s_name c = n) f cs)) =
      (map_of (conf_map cs))(n := map_option f (map_of (conf_map cs) n))"
  proof (induction cs)
    case (Cons x cs)
    obtain c b where x: "x = (c, b)" by (cases x)
    obtain c' b' where f: "f (c, b) = (c', b')" by (cases "f (c, b)")
    show ?case using Cons assms [of c b] f by (auto simp: conf_map_def x fun_eq_iff)
  qed (simp add: conf_map_def)
qed

lemma conf_set_paused:
  "conf_at (set_paused b n nd) = (conf_at nd)(n := map_option (\<lambda>(c, _). (c, b)) (conf_at nd n))"
  "map fst (conf_map (cfgServices (set_paused b n nd))) = map fst (conf_map (cfgServices nd))"
  using conf_update_first [of n "\<lambda>(c, _). (c, b)" "cfgServices nd"]
  by (simp_all add: set_paused_def conf_at_def)

lemma svc_set_paused [simp]: "svc_view (set_paused b n nd) = svc_view nd"
  by (simp add: set_paused_def svc_view_def open_ids_def fun_eq_iff)

lemma conf_fold_paused:
  "conf_at (fold (\<lambda>(n, _). set_paused b n) xs nd) =
     (\<lambda>n. if n \<in> fst ` set xs then map_option (\<lambda>(c, _). (c, b)) (conf_at nd n) else conf_at nd n) \<and>
   map fst (conf_map (cfgServices (fold (\<lambda>(n, _). set_paused b n) xs nd))) =
     map fst (conf_map (cfgServices nd)) \<and>
   svc_view (fold (\<lambda>(n, _). set_paused b n) xs nd) = svc_view nd"
proof (induction xs arbitrary: nd)
  case (Cons x xs)
  obtain n y where "x = (n, y)" by (cases x)
  with Cons [of "set_paused b n nd"] show ?case
    by (cases "conf_at nd n") (auto simp: conf_set_paused fun_eq_iff case_prod_beta)
qed simp

text \<open>Folds of updates at distinct keys.\<close>

lemma fold_updates_other:
  "(\<And>x v. x \<in> set xs \<Longrightarrow> g x v = v(k x := h x (v (k x)))) \<Longrightarrow> n \<notin> k ` set xs \<Longrightarrow> fold g xs v n = v n"
  by (induction xs arbitrary: v) auto

lemma fold_updates:
  "(\<And>x v. x \<in> set xs \<Longrightarrow> g x v = v(k x := h x (v (k x)))) \<Longrightarrow> x \<in> set xs \<Longrightarrow>
   distinct (map k xs) \<Longrightarrow> fold g xs v (k x) = h x (v (k x))"
proof (induction xs arbitrary: v)
  case (Cons y xs)
  have step: "g x v = v(k x := h x (v (k x)))" if "x \<in> set xs" for x v
    by (rule Cons.prems(1)) (use that in simp)
  show ?case
  proof (cases "x = y")
    case True
    have "fold g xs (g y v) (k y) = g y v (k y)"
      by (rule fold_updates_other [OF step]) (use Cons.prems(3) in auto)
    with True Cons.prems(1) [of y v] show ?thesis by simp
  next
    case False
    then have x: "x \<in> set xs" using Cons.prems(2) by auto
    have k: "k x \<noteq> k y"
    proof
      assume "k x = k y"
      with imageI [OF x, of k] Cons.prems(3) show False by simp
    qed
    from Cons.IH [OF step x, of "g y v"] Cons.prems k show ?thesis by simp
  qed
qed simp

text \<open>The configuration list follows a step when the running state does.\<close>

lemma node_syncI:
  assumes "svc_wf nd" and "distinct (map fst (conf_map (cfgServices nd)))"
    and "\<And>n. conf_at nd n = map_option (\<lambda>(c, r). (c, \<not> r)) (svc_view nd n)"
    and "\<And>n c r. svc_view nd n = Some (c, r) \<Longrightarrow> default_types c = c"
  shows "node_sync nd"
  using assms by (simp add: node_sync_def)

lemma node_syncD:
  assumes "node_sync nd"
  shows "svc_wf nd" and "distinct (map fst (conf_map (cfgServices nd)))"
    and "conf_at nd n = map_option (\<lambda>(c, r). (c, \<not> r)) (svc_view nd n)"
    and "svc_view nd n = Some (c, r) \<Longrightarrow> default_types c = c"
  using assms by (auto simp: node_sync_def)

end
