(* ===== verification/Node_Refine.thy ===== *)
theory Node_Refine
  imports Node_Spec
begin

text \<open>
  The commands of a node implement the machine of \<open>Node_Spec\<close> when the operating system
  opens every listener.
\<close>

section \<open>Deleting\<close>

lemma tidy_names [simp]: "\<forall>n \<in> set names. trim_space n = n \<Longrightarrow> map trim_space names = names"
  by (induction names) auto

lemma missing_view:
  "trim_space n = n \<Longrightarrow> missing nd n = None \<longleftrightarrow> n \<noteq> [] \<and> svc_view nd n \<noteq> None"
  by (auto simp: missing_None view_None)

lemma missing_tidy:
  "\<forall>n \<in> set names. trim_space n = n \<Longrightarrow>
   first_error (missing nd) names = None \<longleftrightarrow> (\<forall>n \<in> set names. n \<noteq> [] \<and> svc_view nd n \<noteq> None)"
  by (auto simp: first_error_None missing_view)

lemma names_refused:
  assumes "\<not> (names \<noteq> [] \<and> (\<forall>n \<in> set names. n \<noteq> [] \<and> svc_view nd n \<noteq> None))"
    and "\<forall>n \<in> set names. trim_space n = n"
  obtains "names = []" | er where "first_error (missing nd) names = Some er"
  using assms missing_tidy [of names nd] by (cases "first_error (missing nd) names") auto

text \<open>Every answer of the specification at once.\<close>

definition answers :: "gost_node \<Rightarrow> spec option \<Rightarrow> outcome \<Rightarrow> bool" where
  "answers nd \<sigma> out \<longleftrightarrow> (\<exists>r nd'. out = Replied r nd' \<and> node_sync nd' \<and>
     (case \<sigma> of None \<Rightarrow> r \<noteq> None \<and> svc_view nd' = svc_view nd
      | Some \<sigma>' \<Rightarrow> r = None \<and> svc_view nd' = \<sigma>'))"

lemma answers_refused:
  "\<sigma> = None \<Longrightarrow> out = Replied (Some er) nd' \<Longrightarrow> node_sync nd' \<Longrightarrow> svc_view nd' = svc_view nd \<Longrightarrow>
   answers nd \<sigma> out"
  by (simp add: answers_def)

lemma answers_done:
  "\<sigma> = Some \<sigma>' \<Longrightarrow> out = Replied None nd' \<Longrightarrow> node_sync nd' \<Longrightarrow> svc_view nd' = \<sigma>' \<Longrightarrow>
   answers nd \<sigma> out"
  by (simp add: answers_def)

lemma delete_answers:
  assumes sync: "node_sync nd" and tidy: "\<forall>n \<in> set names. trim_space n = n"
  shows "answers nd (spec_command (DeleteService_msg names) (svc_view nd)) (deleteServices names nd)"
proof (cases "names \<noteq> [] \<and> (\<forall>n \<in> set names. n \<noteq> [] \<and> svc_view nd n \<noteq> None)")
  case False
  from False have no: "spec_command (DeleteService_msg names) (svc_view nd) = None"
    by (auto simp: spec_command_def)
  from names_refused [OF False tidy] have "\<exists>er. deleteServices names nd = Replied (Some er) nd"
    by cases (auto simp: deleteServices_def)
  then show ?thesis using answers_refused [OF no _ sync refl] by blast
next
  case True
  then have ok: "first_error (missing nd) names = None" using missing_tidy [OF tidy, of nd] by simp
  note wf = node_syncD(1) [OF sync]
  define xs where "xs = map (\<lambda>raw. (trim_space raw, the (Get (trim_space raw) (svcReg nd)))) names"
  let ?nd = "fold drop_service xs nd"
  let ?nd' = "?nd\<lparr>cfgServices := filter (\<lambda>(c, _). s_name c \<notin> fst ` set xs) (cfgServices ?nd)\<rparr>"
  have fst: "fst ` set xs = set names" using tidy by (force simp: xs_def)
  have "\<forall>p \<in> set xs. owned nd (fst p) (snd p)" using captured [OF wf ok] by (auto simp: xs_def)
  note d = drop_services [OF wf this, unfolded fst]
  have view: "svc_view ?nd' = (\<lambda>n. if n \<in> set names then None else svc_view nd n)"
    using d by (simp add: svc_view_def open_ids_def fun_eq_iff)
  have eq: "deleteServices names nd = Replied None ?nd'"
    using True ok by (simp add: deleteServices_def Let_def xs_def drop_service_def)
  have "node_sync ?nd'"
  proof (rule node_syncI)
    show "svc_wf ?nd'" using d by (simp add: svc_wf_def open_ids_def)
    show "distinct (map fst (conf_map (cfgServices ?nd')))"
      using node_syncD(2) [OF sync] d by (simp add: conf_filter distinct_map_filter)
    show "conf_at ?nd' n = map_option (\<lambda>(c, r). (c, \<not> r)) (svc_view ?nd' n)" for n
      using node_syncD(3) [OF sync, of n] d unfolding view
      by (simp add: conf_at_def conf_filter map_of_filter_keys fst)
    show "default_types c = c" if "svc_view ?nd' n = Some (c, r)" for n c r
      using that node_syncD(4) [OF sync] unfolding view by (auto split: if_splits)
  qed
  with True eq view show ?thesis by (auto simp: answers_def spec_command_def)
qed

section \<open>Pausing\<close>

lemma pause_each_all:
  "svc_wf nd \<Longrightarrow> \<forall>(n, s) \<in> set xs. map_of (svcReg nd) n = Some s \<and> confs n \<noteq> None \<Longrightarrow>
   \<exists>nd'. pause_each os confs xs paused nd = (None, nd') \<and> svc_wf nd' \<and>
     cfgServices nd' = cfgServices nd \<and> svc_view nd' = spec_switch False (map fst xs) (svc_view nd)"
proof (induction os confs xs paused nd rule: pause_each.induct)
  case (2 os confs name s rest paused nd)
  then obtain c where c: "confs name = Some c" and s: "map_of (svcReg nd) name = Some s" by auto
  have "\<forall>(n, s') \<in> set rest. map_of (svcReg (Close s nd)) n = Some s' \<and> confs n \<noteq> None"
    using "2.prems"(2) by auto
  from "2.IH" [OF c Close_wf [OF "2.prems"(1)] this] view_Close [OF "2.prems"(1) s] c show ?case
    by (auto simp: spec_switch_def fun_eq_iff option.map_comp split: prod.splits option.splits)
qed (auto simp: spec_switch_def)

lemma pause_answers:
  assumes sync: "node_sync nd" and tidy: "\<forall>n \<in> set names. trim_space n = n"
  shows "answers nd (spec_command (PauseService_msg names) (svc_view nd)) (pauseServices os names nd)"
proof (cases "names \<noteq> [] \<and> (\<forall>n \<in> set names. n \<noteq> [] \<and> svc_view nd n \<noteq> None)")
  case False
  from False have no: "spec_command (PauseService_msg names) (svc_view nd) = None"
    by (auto simp: spec_command_def)
  from names_refused [OF False tidy] have "\<exists>er. pauseServices os names nd = Replied (Some er) nd"
    by cases (auto simp: pauseServices_def)
  then show ?thesis using answers_refused [OF no _ sync refl] by blast
next
  case True
  then have ok: "first_error (missing nd) names = None" using missing_tidy [OF tidy, of nd] by simp
  note wf = node_syncD(1) [OF sync]
  define xs where "xs = map (\<lambda>raw. (trim_space raw, the (Get (trim_space raw) (svcReg nd)))) names"
  have fst: "map fst xs = names" using tidy by (simp add: xs_def comp_def)
  have reg: "\<forall>(n, s) \<in> set xs. map_of (svcReg nd) n = Some s \<and> last_conf nd n \<noteq> None"
  proof -
    have "map_of (svcReg nd) n = Some (the (Get n (svcReg nd)))" "conf_at nd n \<noteq> None" if "n \<in> set names" for n
      using True that node_syncD(3) [OF sync, of n] by (auto simp: svc_view_def Get_def)
    then show ?thesis using tidy by (auto simp: xs_def last_conf_at [OF node_syncD(2) [OF sync]])
  qed
  from pause_each_all [OF wf reg, of os "[]"] obtain nd1 where
    p: "pause_each os (last_conf nd) xs [] nd = (None, nd1)" and w: "svc_wf nd1"
    and cfg: "cfgServices nd1 = cfgServices nd" and v: "svc_view nd1 = spec_switch False names (svc_view nd)"
    by (auto simp: fst)
  let ?nd' = "fold (\<lambda>(n, _). set_paused True n) xs nd1"
  note cf = conf_fold_paused [of True xs nd1]
  have set: "fst ` set xs = set names" using arg_cong [OF fst, of set] by simp
  have eq: "pauseServices os names nd = Replied None ?nd'"
    using True ok p by (simp add: pauseServices_def Let_def xs_def)
  have "node_sync ?nd'"
  proof (rule node_syncI)
    show "svc_wf ?nd'" using keeps_fold_paused [of "{}" nd1 True xs nd1] w by (simp add: keeps.R_refl keeps_def)
    show "distinct (map fst (conf_map (cfgServices ?nd')))" using cf node_syncD(2) [OF sync] cfg by simp
    show "conf_at ?nd' n = map_option (\<lambda>(c, r). (c, \<not> r)) (svc_view ?nd' n)" for n
      using node_syncD(3) [OF sync, of n] cfg cf v
      by (cases "svc_view nd n") (auto simp: set spec_switch_def conf_at_def)
    show "default_types c = c" if "svc_view ?nd' n = Some (c, r)" for n c r
      using that node_syncD(4) [OF sync, of n] cf v by (auto simp: spec_switch_def split: if_splits)
  qed
  with True eq cf v show ?thesis by (auto simp: answers_def spec_command_def)
qed

section \<open>Resuming\<close>

lemma select_paused_view:
  assumes sync: "node_sync nd" and "\<forall>n \<in> set names. trim_space n = n"
  shows "if \<forall>n \<in> set names. n \<noteq> [] \<and> svc_view nd n \<noteq> None
    then \<exists>sel. select_paused nd names = Inr sel \<and>
      (\<forall>(n, s, c) \<in> set sel. n \<noteq> [] \<and> map_of (svcReg nd) n = Some s \<and> svc_view nd n = Some (c, False)) \<and>
      fst ` set sel = {n \<in> set names. \<exists>c. svc_view nd n = Some (c, False)}
    else \<exists>er. select_paused nd names = Inl er"
  using assms(2)
proof (induction names)
  case (Cons n names)
  have t: "trim_space n = n" and tn: "\<forall>n \<in> set names. trim_space n = n" using Cons.prems by simp_all
  note IH = Cons.IH [OF tn]
  show ?case
  proof (cases "n \<noteq> [] \<and> svc_view nd n \<noteq> None")
    case False
    then have "n = [] \<or> Get n (svcReg nd) = None" by (auto simp: svc_view_def Get_def)
    with False show ?thesis by (auto simp: t Let_def)
  next
    case True
    then obtain c r where v: "svc_view nd n = Some (c, r)" by auto
    then obtain s where s: "map_of (svcReg nd) n = Some s" by (auto simp: svc_view_def)
    have c: "first_conf nd n = Some (c, \<not> r)"
      using node_syncD(3) [OF sync, of n] v by (simp add: first_conf_at)
    show ?thesis
    proof (cases "\<forall>n \<in> set names. n \<noteq> [] \<and> svc_view nd n \<noteq> None")
      case False
      from IH [unfolded if_not_P [OF this]] obtain er where "select_paused nd names = Inl er" by blast
      with False True s c show ?thesis by (auto simp: t Get_def)
    next
      case ok: True
      from IH [unfolded if_P [OF this]] obtain sel where sel: "select_paused nd names = Inr sel"
        "\<forall>(n, s, c) \<in> set sel. n \<noteq> [] \<and> map_of (svcReg nd) n = Some s \<and> svc_view nd n = Some (c, False)"
        "fst ` set sel = {n \<in> set names. \<exists>c. svc_view nd n = Some (c, False)}" by blast
      have "select_paused nd (n # names) = Inr (if \<not> r then (n, s, c) # sel else sel)"
        using True s c sel(1) by (simp add: t Get_def)
      moreover have "\<forall>n \<in> set (n # names). n \<noteq> [] \<and> svc_view nd n \<noteq> None" using True ok by simp
      ultimately show ?thesis using sel True s v by (cases r) auto
    qed
  qed
qed simp

lemma resume_each_all:
  assumes "reliable os"
  shows "svc_wf nd \<Longrightarrow> \<forall>(n, s, c) \<in> set sel. n \<noteq> [] \<and> owned nd n s \<and> s_name c = n \<and>
     default_types c = c \<and> (\<exists>r. svc_view nd n = Some (c, r)) \<Longrightarrow>
   \<exists>nd'. resume_each os sel resumed nd = (None, nd') \<and> svc_wf nd' \<and>
     cfgServices nd' = cfgServices nd \<and> svc_view nd' = spec_switch True (map fst sel) (svc_view nd)"
proof (induction sel arbitrary: resumed nd)
  case (Cons p sel)
  obtain n s c where p: "p = (n, s, c)" by (cases p)
  then obtain r where h: "n \<noteq> []" "owned nd n s" "s_name c = n" "default_types c = c"
    "svc_view nd n = Some (c, r)" using Cons.prems(2) by auto
  let ?nd = "UnregisterService n (Close s nd)"
  have kc: "keeps {n} nd (Close s nd)" by (rule keeps_Close [OF h(2)]) simp
  have k: "keeps {n} nd ?nd" by (rule keeps.R_trans [OF kc keeps_Unregister]) simp
  note w = keepsD(1) [OF kc Cons.prems(1)] and wf = keepsD(1) [OF k Cons.prems(1)]
  have v0: "svc_view ?nd m = ((svc_view nd)(n := None)) m" for m
    using keepsD(2) [OF kc Cons.prems(1), of m] by (simp add: view_Unregister [OF w])
  have free: "n \<notin> reg_names ?nd" by simp
  from launch [OF assms wf free h(1,3), of 0] obtain s' nd1 reg where
    l: "ParseService os 0 c ?nd = (Inr s', nd1)" "Register n s' (svcReg nd1) = Some reg"
      "svc_wf (nd1\<lparr>svcReg := reg\<rparr>)" "cfgServices nd1 = cfgServices ?nd"
      "svc_view (nd1\<lparr>svcReg := reg\<rparr>) = (svc_view ?nd)(n \<mapsto> (default_types c, True))"
    and own: "\<And>m t. owned ?nd m t \<Longrightarrow> owned (nd1\<lparr>svcReg := reg\<rparr>) m t" by metis
  let ?nd1 = "nd1\<lparr>svcReg := reg\<rparr>"
  have v1: "svc_view ?nd1 = (svc_view nd)(n \<mapsto> (c, True))"
    using l(5) v0 h(4) by (auto simp: fun_eq_iff)
  have "\<forall>(n, s, c) \<in> set sel. n \<noteq> [] \<and> owned ?nd1 n s \<and> s_name c = n \<and>
     default_types c = c \<and> (\<exists>r. svc_view ?nd1 n = Some (c, r))"
    using Cons.prems own keepsD(3) [OF k Cons.prems(1)] h(5) unfolding v1 by fastforce
  from Cons.IH [OF l(3) this, of "resumed @ [n]"] l(1,2,4) h(5) show ?case
    by (auto simp: p v1 spec_switch_def fun_eq_iff)
qed (auto simp: spec_switch_def)

lemma resume_answers:
  assumes sync: "node_sync nd" and tidy: "\<forall>n \<in> set names. trim_space n = n" and os: "reliable os"
  shows "answers nd (spec_command (ResumeService_msg names) (svc_view nd)) (resumeServices os names nd)"
proof (cases "names \<noteq> [] \<and> (\<forall>n \<in> set names. n \<noteq> [] \<and> svc_view nd n \<noteq> None)")
  case False
  then have no: "spec_command (ResumeService_msg names) (svc_view nd) = None"
    by (auto simp: spec_command_def)
  have "\<exists>er. resumeServices os names nd = Replied (Some er) nd"
  proof (cases "names = []")
    case True
    then show ?thesis by (simp add: resumeServices_def)
  next
    case ne: False
    with False select_paused_view [OF sync tidy] obtain er where "select_paused nd names = Inl er" by metis
    with ne show ?thesis by (simp add: resumeServices_def)
  qed
  then show ?thesis using answers_refused [OF no _ sync refl] by blast
next
  case True
  note wf = node_syncD(1) [OF sync]
  from True select_paused_view [OF sync tidy] obtain sel where sel: "select_paused nd names = Inr sel"
    "\<forall>(n, s, c) \<in> set sel. n \<noteq> [] \<and> map_of (svcReg nd) n = Some s \<and> svc_view nd n = Some (c, False)"
    "fst ` set sel = {n \<in> set names. \<exists>c. svc_view nd n = Some (c, False)}" by auto
  have "\<forall>(n, s, c) \<in> set sel. n \<noteq> [] \<and> owned nd n s \<and> s_name c = n \<and>
     default_types c = c \<and> (\<exists>r. svc_view nd n = Some (c, r))"
  proof -
    have "n \<noteq> [] \<and> owned nd n s \<and> s_name c = n \<and> default_types c = c \<and> (\<exists>r. svc_view nd n = Some (c, r))"
      if "(n, s, c) \<in> set sel" for n s c
    proof -
      have h: "n \<noteq> []" "map_of (svcReg nd) n = Some s" "svc_view nd n = Some (c, False)"
        using sel(2) that by auto
      have "s_name c = n" using h(3) svc_wfD(5) [OF wf h(2)] h(2) by (simp add: svc_view_def)
      with h show ?thesis using registered_owned [OF wf h(2)] node_syncD(4) [OF sync h(3)] by blast
    qed
    then show ?thesis by blast
  qed
  from resume_each_all [OF os wf this, of "[]"] obtain nd1 where
    p: "resume_each os sel [] nd = (None, nd1)" and w: "svc_wf nd1"
    and cfg: "cfgServices nd1 = cfgServices nd"
    and v1: "svc_view nd1 = spec_switch True (map fst sel) (svc_view nd)" by blast
  have v: "svc_view nd1 = spec_switch True names (svc_view nd)"
  proof
    fix n
    show "svc_view nd1 n = spec_switch True names (svc_view nd) n"
    proof (cases "svc_view nd n")
      case None
      then show ?thesis by (simp add: v1 spec_switch_def)
    next
      case (Some p)
      then show ?thesis using sel(3) by (cases p) (cases "snd p", auto simp: v1 spec_switch_def)
    qed
  qed
  let ?nd' = "fold (\<lambda>(n, _). set_paused False n) sel nd1"
  note cf = conf_fold_paused [of False sel nd1]
  have "node_sync ?nd'"
  proof (rule node_syncI)
    show "svc_wf ?nd'" using keeps_fold_paused [of "{}" nd1 False sel nd1] w by (simp add: keeps.R_refl keeps_def)
    show "distinct (map fst (conf_map (cfgServices ?nd')))" using cf node_syncD(2) [OF sync] cfg by simp
    show "conf_at ?nd' n = map_option (\<lambda>(c, r). (c, \<not> r)) (svc_view ?nd' n)" for n
      using node_syncD(3) [OF sync, of n] cfg cf v1
      by (cases "svc_view nd n") (auto simp: spec_switch_def conf_at_def)
    show "default_types c = c" if "svc_view ?nd' n = Some (c, r)" for n c r
      using that node_syncD(4) [OF sync, of n] cf v by (auto simp: spec_switch_def split: if_splits)
  qed
  moreover have "spec_command (ResumeService_msg names) (svc_view nd) = Some (spec_switch True names (svc_view nd))"
    using True by (auto simp: spec_command_def)
  moreover have "resumeServices os names nd = Replied None ?nd'"
    using True sel(1) p by (simp add: resumeServices_def)
  ultimately show ?thesis using cf v by (intro answers_done) auto
qed

section \<open>Updating\<close>

lemma close_old_all:
  "svc_wf nd \<Longrightarrow> distinct names \<Longrightarrow> \<forall>n \<in> set names. trim_space n = n \<and> n \<noteq> [] \<and> n \<in> reg_names nd \<Longrightarrow>
   \<exists>nd'. close_old names nd = Some nd' \<and> svc_wf nd' \<and> cfgServices nd' = cfgServices nd \<and>
     svc_view nd' = (\<lambda>n. if n \<in> set names then None else svc_view nd n)"
proof (induction names arbitrary: nd)
  case (Cons n names)
  then have n: "trim_space n = n" "n \<noteq> []" "n \<in> reg_names nd" by simp_all
  then obtain s where s: "map_of (svcReg nd) n = Some s"
    using map_of_None_fst [of "svcReg nd" n] by (auto simp: reg_names_def)
  let ?nd = "UnregisterService n (Close s nd)"
  have w: "svc_wf (Close s nd)" and wf: "svc_wf ?nd" using Cons.prems(1) by (simp_all add: Close_wf Unregister_wf)
  have v: "svc_view ?nd = (svc_view nd)(n := None)"
    by (simp add: view_Unregister [OF w] view_Close [OF Cons.prems(1) s])
  have "\<forall>n \<in> set names. trim_space n = n \<and> n \<noteq> [] \<and> n \<in> reg_names ?nd" using Cons.prems by auto
  from Cons.IH [OF wf _ this] Cons.prems(2) n s v show ?case
    by (auto simp: Let_def Get_def fun_eq_iff)
qed simp

lemma spec_start_Cons:
  "spec_start (c # cs) \<sigma> = spec_start cs (\<sigma>(s_name c \<mapsto> (default_types c, True)))"
  by (simp add: spec_start_def)

lemma recreate_all:
  assumes os: "reliable os"
  shows "svc_wf nd \<Longrightarrow> distinct (map s_name cs) \<Longrightarrow>
    \<forall>c \<in> set cs. trim_space (s_name c) = s_name c \<and> s_name c \<noteq> [] \<and> s_name c \<notin> reg_names nd \<Longrightarrow>
    \<exists>nd'. recreate os cs nd = (None, nd') \<and> svc_wf nd' \<and> cfgServices nd' = cfgServices nd \<and>
      svc_view nd' = spec_start cs (svc_view nd)"
proof (induction cs arbitrary: nd)
  case (Cons c cs)
  let ?n = "s_name c"
  have c: "trim_space ?n = ?n" "?n \<noteq> []" "?n \<notin> reg_names nd" "c\<lparr>s_name := ?n\<rparr> = c"
    using Cons.prems(3) by simp_all
  from launch [OF os Cons.prems(1) c(3,2) refl, of 0] obtain s nd1 reg where
    l: "ParseService os 0 c nd = (Inr s, nd1)" "Register ?n s (svcReg nd1) = Some reg"
      "svc_wf (nd1\<lparr>svcReg := reg\<rparr>)" "cfgServices nd1 = cfgServices nd"
      "svc_view (nd1\<lparr>svcReg := reg\<rparr>) = (svc_view nd)(?n \<mapsto> (default_types c, True))" by metis
  have r: "retry_parse os 0 2 c nd = (Inr s, nd1)" using l(1) by (simp add: numeral_2_eq_2)
  have "c' \<in> set cs \<Longrightarrow> s_name c' \<notin> reg_names (nd1\<lparr>svcReg := reg\<rparr>)" for c'
  proof -
    assume c': "c' \<in> set cs"
    then have "s_name c' \<noteq> ?n" "svc_view nd (s_name c') = None"
      using Cons.prems(2,3) imageI [OF c', of s_name] by (metis distinct.simps(2) list.simps(9) list.set_map, auto simp: view_None)
    then have "svc_view (nd1\<lparr>svcReg := reg\<rparr>) (s_name c') = None" by (simp add: l(5))
    then show ?thesis by (simp add: view_None)
  qed
  then have "\<forall>c \<in> set cs. trim_space (s_name c) = s_name c \<and> s_name c \<noteq> [] \<and>
      s_name c \<notin> reg_names (nd1\<lparr>svcReg := reg\<rparr>)" using Cons.prems(3) by simp
  from Cons.IH [OF l(3) _ this] Cons.prems(2) obtain nd' where
    "recreate os cs (nd1\<lparr>svcReg := reg\<rparr>) = (None, nd')" "svc_wf nd'" "cfgServices nd' = cfgServices nd1"
    "svc_view nd' = spec_start cs (svc_view (nd1\<lparr>svcReg := reg\<rparr>))" by auto
  then show ?case using c r l(2,4,5) by (simp add: Let_def spec_start_Cons)
qed (simp add: spec_start_def)

text \<open>The configuration list after an update.\<close>

definition renew :: "ServiceConfig \<Rightarrow> (ServiceConfig \<times> bool) list \<Rightarrow> (ServiceConfig \<times> bool) list" where
  "renew c = update_first (\<lambda>(c', _). s_name c' = s_name c) (\<lambda>_. (default_types c, False))"

lemma conf_renew:
  "map fst (conf_map (fold renew data cs)) = map fst (conf_map cs)"
  "map_of (conf_map (fold renew data cs)) =
     fold (\<lambda>c m. m(s_name c := map_option (\<lambda>_. (default_types c, False)) (m (s_name c)))) data
       (map_of (conf_map cs))"
  by (induction data arbitrary: cs) (simp_all add: renew_def conf_update_first)

lemma start_at:
  "n \<notin> s_name ` set data \<Longrightarrow> spec_start data \<sigma> n = \<sigma> n"
  "c \<in> set data \<Longrightarrow> distinct (map s_name data) \<Longrightarrow> spec_start data \<sigma> (s_name c) = Some (default_types c, True)"
  unfolding spec_start_def
  by (rule fold_updates_other [where k = s_name and h = "\<lambda>c _. Some (default_types c, True)"], simp, simp)
     (rule fold_updates [where k = s_name and h = "\<lambda>c _. Some (default_types c, True)"], simp_all)

lemma renew_at:
  "n \<notin> s_name ` set data \<Longrightarrow> map_of (conf_map (fold renew data cs)) n = map_of (conf_map cs) n"
  "c \<in> set data \<Longrightarrow> distinct (map s_name data) \<Longrightarrow> map_of (conf_map (fold renew data cs)) (s_name c) =
     map_option (\<lambda>_. (default_types c, False)) (map_of (conf_map cs) (s_name c))"
  unfolding conf_renew
  by (rule fold_updates_other [where k = s_name and h = "\<lambda>c. map_option (\<lambda>_. (default_types c, False))"], simp, simp)
     (rule fold_updates [where k = s_name and h = "\<lambda>c. map_option (\<lambda>_. (default_types c, False))"], simp_all)

lemma update_answers:
  assumes sync: "node_sync nd" and tidy: "tidy (UpdateService_msg data)" and os: "reliable os"
  shows "answers nd (spec_command (UpdateService_msg data) (svc_view nd)) (updateServices os data nd)"
proof (cases "map s_name data \<noteq> [] \<and> (\<forall>n \<in> set (map s_name data). n \<noteq> [] \<and> svc_view nd n \<noteq> None)")
  case False
  have no: "spec_command (UpdateService_msg data) (svc_view nd) = None"
    using False by (auto simp: spec_command_def)
  have t: "\<forall>n \<in> set (map s_name data). trim_space n = n" using tidy by (simp add: tidy_def)
  have "\<exists>er. updateServices os data nd = Replied (Some er) nd"
    using False t by (rule names_refused) (auto simp: updateServices_def)
  then show ?thesis using answers_refused [OF no _ sync refl] by blast
next
  case True
  let ?names = "map s_name data"
  have t: "\<forall>n \<in> set ?names. trim_space n = n" "distinct ?names" using tidy by (auto simp: tidy_def)
  note wf = node_syncD(1) [OF sync]
  have ok: "first_error (missing nd) ?names = None" using True missing_tidy [OF t(1), of nd] by blast
  have "\<forall>n \<in> set ?names. trim_space n = n \<and> n \<noteq> [] \<and> n \<in> reg_names nd"
    using True t view_None [of nd] by blast
  from close_old_all [OF wf t(2) this] obtain nd1 where
    c: "close_old ?names nd = Some nd1" "svc_wf nd1" "cfgServices nd1 = cfgServices nd"
    "svc_view nd1 = (\<lambda>n. if n \<in> set ?names then None else svc_view nd n)" by blast
  have "s_name c \<notin> reg_names nd1" if "c \<in> set data" for c
    using c(4) that view_None [of nd1 "s_name c"] by simp
  then have "\<forall>c \<in> set data. trim_space (s_name c) = s_name c \<and> s_name c \<noteq> [] \<and> s_name c \<notin> reg_names nd1"
    using True t by auto
  from recreate_all [OF os c(2) t(2) this] obtain nd2 where
    r: "recreate os data nd1 = (None, nd2)" "svc_wf nd2" "cfgServices nd2 = cfgServices nd1"
    "svc_view nd2 = spec_start data (svc_view nd1)" by blast
  let ?nd' = "nd2\<lparr>cfgServices := fold renew data (cfgServices nd2)\<rparr>"
  have sv: "svc_view ?nd' = svc_view nd2" by (simp add: svc_view_def open_ids_def fun_eq_iff)
  have v: "svc_view nd2 = spec_start data (svc_view nd)"
  proof
    fix n
    show "svc_view nd2 n = spec_start data (svc_view nd) n"
      using start_at(1) [of n data] start_at(2) [OF _ t(2)] c(4) r(4) by (cases "n \<in> s_name ` set data") auto
  qed
  have cs: "cfgServices nd2 = cfgServices nd" using c(3) r(3) by simp
  have "node_sync ?nd'"
  proof (rule node_syncI)
    show "svc_wf ?nd'" using r(2) by (simp add: svc_wf_def open_ids_def)
    show "distinct (map fst (conf_map (cfgServices ?nd')))" using node_syncD(2) [OF sync] cs
      by (simp add: conf_renew)
    show "conf_at ?nd' n = map_option (\<lambda>(c, r). (c, \<not> r)) (svc_view ?nd' n)" for n
    proof (cases "n \<in> s_name ` set data")
      case False
      with node_syncD(3) [OF sync, of n] show ?thesis unfolding sv v by (simp add: conf_at_def cs renew_at start_at)
    next
      case n: True
      then obtain c where c: "c \<in> set data" "n = s_name c" by blast
      have "map_of (conf_map (cfgServices nd)) n \<noteq> None"
        using True c node_syncD(3) [OF sync, of n] by (auto simp: conf_at_def)
      then show ?thesis unfolding sv v using renew_at(2) [OF c(1) t(2), of "cfgServices nd"] start_at(2) [OF c(1) t(2), of "svc_view nd"]
        by (auto simp: conf_at_def cs c(2))
    qed
    show "default_types c = c" if "svc_view ?nd' n = Some (c, r)" for n c r
    proof (cases "n \<in> s_name ` set data")
      case False
      with that node_syncD(4) [OF sync, of n] show ?thesis unfolding sv v by (simp add: start_at)
    next
      case n: True
      then show ?thesis using that start_at(2) [OF _ t(2), of _ "svc_view nd"] unfolding sv v by auto
    qed
  qed
  moreover have "spec_command (UpdateService_msg data) (svc_view nd) = Some (spec_start data (svc_view nd))"
    using True by (simp add: spec_command_def)
  moreover have "updateServices os data nd = Replied None ?nd'"
    using True ok c(1) r(1) by (simp add: updateServices_def renew_def [abs_def])
  ultimately show ?thesis using v sv by (intro answers_done) simp_all
qed

section \<open>Adding\<close>

lemma parse_new_all:
  assumes os: "reliable os"
  shows "\<forall>c \<in> set cs. trim_space (s_name c) = s_name c \<Longrightarrow>
    if \<forall>c \<in> set cs. s_name c \<noteq> [] \<and> s_name c \<notin> reg_names nd
    then \<exists>ss nd'. parse_new os cs nd = (Inr ss, nd') \<and> (\<forall>s \<in> set ss. sv_id s \<in> open_ids nd') \<and>
      open_ids nd \<subseteq> open_ids nd'
    else \<exists>er nd'. parse_new os cs nd = (Inl er, nd')"
proof (induction cs arbitrary: nd)
  case (Cons c cs)
  let ?n = "s_name c"
  have t: "trim_space ?n = ?n" "c\<lparr>s_name := ?n\<rparr> = c" and tc: "\<forall>c \<in> set cs. trim_space (s_name c) = s_name c"
    using Cons.prems by simp_all
  show ?case
  proof (cases "?n \<noteq> [] \<and> ?n \<notin> reg_names nd")
    case False
    then show ?thesis by (auto simp: t Let_def IsRegistered_def reg_names_def map_of_None_fst)
  next
    case True
    obtain s nd1 where p: "ParseService os 0 c nd = (Inr s, nd1)" using reliable_Parse [OF os] by blast
    note i = ParseService_Inr [OF p]
    have names: "reg_names nd1 = reg_names nd" using ParseService_fields(7) [of os 0 c nd] p by simp
    have eq: "parse_new os (c # cs) nd = (case parse_new os cs nd1 of
        (Inl er, nd2) \<Rightarrow> (Inl er, nd2) | (Inr ss, nd2) \<Rightarrow> (Inr (s # ss), nd2))"
      using True p by (simp add: t IsRegistered_def reg_names_def map_of_None_fst)
    show ?thesis
    proof (cases "\<forall>c \<in> set cs. ?n \<noteq> [] \<and> s_name c \<noteq> [] \<and> s_name c \<notin> reg_names nd")
      case all: True
      then have "\<forall>c \<in> set cs. s_name c \<noteq> [] \<and> s_name c \<notin> reg_names nd1" by (simp add: names)
      from Cons.IH [OF tc, of nd1, unfolded if_P [OF this]] obtain ss nd2 where
        "parse_new os cs nd1 = (Inr ss, nd2)" "\<forall>s \<in> set ss. sv_id s \<in> open_ids nd2"
        "open_ids nd1 \<subseteq> open_ids nd2" by blast
      with i eq all True show ?thesis by auto
    next
      case no: False
      then have "\<not> (\<forall>c \<in> set cs. s_name c \<noteq> [] \<and> s_name c \<notin> reg_names nd1)" using True names by auto
      from Cons.IH [OF tc, of nd1, unfolded if_not_P [OF this]] obtain er nd2 where
        "parse_new os cs nd1 = (Inl er, nd2)" by blast
      with eq no True show ?thesis by auto
    qed
  qed
qed simp

lemma Get_drop: "(case Get n (svcReg nd) of None \<Rightarrow> nd | Some s \<Rightarrow> Close s (UnregisterService n nd)) =
    (case Get n (svcReg nd) of None \<Rightarrow> nd | Some s \<Rightarrow> drop_service (n, s) nd)"
  by (simp add: drop_service_def split: option.split)

lemma roll_back_all:
  "svc_wf nd \<Longrightarrow> svc_wf (roll_back_new names nd) \<and>
   svc_view (roll_back_new names nd) = (\<lambda>n. if n \<in> set names then None else svc_view nd n) \<and>
   cfgServices (roll_back_new names nd) = cfgServices nd"
  unfolding roll_back_new_def Get_drop
proof (induction names arbitrary: nd)
  case (Cons n names)
  let ?nd = "case Get n (svcReg nd) of None \<Rightarrow> nd | Some s \<Rightarrow> drop_service (n, s) nd"
  have "svc_wf ?nd \<and> svc_view ?nd = (svc_view nd)(n := None) \<and> cfgServices ?nd = cfgServices nd"
  proof (cases "Get n (svcReg nd)")
    case None
    then have "n \<notin> reg_names nd" using svc_wfD(2) [OF Cons.prems] unfolding Get_None reg_names_def by metis
    then have "svc_view nd n = None" by (simp add: view_None)
    then show ?thesis using None Cons.prems by (auto simp: fun_eq_iff)
  next
    case (Some s)
    have o: "owned nd (fst (n, s)) (snd (n, s))"
      using registered_owned [OF Cons.prems] Some by (simp add: Get_Some)
    note d = drop_service [OF Cons.prems o]
    show ?thesis using Some d(1,3) keepsD(1) [OF d(2) Cons.prems] by simp
  qed
  with Cons.IH [of ?nd] show ?case by (auto simp: fun_eq_iff)
qed simp

lemma register_new_all:
  assumes "svc_wf nd" and "new_objects nd ss" and "\<forall>s \<in> set ss. sv_id s \<in> open_ids nd"
  shows "if distinct (map (s_name \<circ> sv_conf) ss) \<and> (\<forall>s \<in> set ss. s_name (sv_conf s) \<notin> reg_names nd)
    then \<exists>nd'. register_new ss registered nd = (None, nd') \<and> svc_wf nd' \<and> cfgServices nd' = cfgServices nd \<and>
      svc_view nd' = fold (\<lambda>s \<sigma>. \<sigma>(s_name (sv_conf s) \<mapsto> (sv_conf s, True))) ss (svc_view nd)
    else \<exists>er nd'. register_new ss registered nd = (Some er, nd') \<and> svc_wf nd' \<and>
      cfgServices nd' = cfgServices nd \<and>
      svc_view nd' = (\<lambda>n. if n \<in> set registered then None else svc_view nd n)"
  using assms
proof (induction ss registered nd rule: register_new.induct)
  case (2 s ss registered nd)
  let ?n = "s_name (sv_conf s)"
  have n: "?n \<noteq> []" and f: "fresh nd s" and o: "sv_id s \<in> open_ids nd"
    using "2.prems" by (auto simp: new_objects_def)
  show ?case
  proof (cases "?n \<in> reg_names nd")
    case True
    then have "Register ?n s (svcReg nd) = None" using n by (simp add: Register_None reg_names_def)
    then show ?thesis using True roll_back_all [OF "2.prems"(1), of registered] by (simp add: Let_def)
  next
    case False
    note r = view_Register [OF False n o]
    let ?nd = "nd\<lparr>svcReg := svcReg nd @ [(?n, s)]\<rparr>"
    have wf: "svc_wf ?nd" using Register_wf [OF "2.prems"(1) r(1) n] f by (simp add: fresh_def)
    have new: "new_objects ?nd ss"
      using "2.prems"(2) by (auto simp: new_objects_def fresh_def reg_ids_def) (metis image_eqI)
    have op: "\<forall>s \<in> set ss. sv_id s \<in> open_ids ?nd" using "2.prems"(3) by (simp add: open_ids_def)
    have names: "reg_names ?nd = insert ?n (reg_names nd)" by (simp add: reg_names_def)
    have vn: "svc_view nd ?n = None" using False by (simp add: view_None)
    note IH = "2.IH" [OF refl r(1) wf new op]
    show ?thesis
    proof (cases "distinct (map (s_name \<circ> sv_conf) ss) \<and> (\<forall>s \<in> set ss. s_name (sv_conf s) \<notin> reg_names ?nd)")
      case True
      then have c: "distinct (map (s_name \<circ> sv_conf) (s # ss)) \<and>
          (\<forall>s' \<in> set (s # ss). s_name (sv_conf s') \<notin> reg_names nd)"
        using False by (auto simp: names)
      show ?thesis using IH [unfolded if_P [OF True]] r unfolding if_P [OF c] by (simp add: Let_def)
    next
      case no: False
      then have c: "\<not> (distinct (map (s_name \<circ> sv_conf) (s # ss)) \<and>
          (\<forall>s' \<in> set (s # ss). s_name (sv_conf s') \<notin> reg_names nd))"
        using imageI [of _ "set ss" "s_name \<circ> sv_conf"] by (fastforce simp: names)
      show ?thesis using IH [unfolded if_not_P [OF no]] r vn unfolding if_not_P [OF c]
        by (auto simp: Let_def fun_eq_iff)
    qed
  qed
qed simp

lemma sync_started:
  assumes sync: "node_sync nd" and dist: "distinct (map s_name data)"
    and free: "\<forall>c \<in> set data. svc_view nd (s_name c) = None" and wf: "svc_wf nd'"
    and v: "svc_view nd' = spec_start data (svc_view nd)"
    and cs: "conf_map (cfgServices nd') = conf_map (cfgServices nd) @ map (\<lambda>c. (s_name c, default_types c, False)) data"
  shows "node_sync nd'"
proof (rule node_syncI [OF wf])
  have no_conf: "conf_at nd n = None" if "n \<in> s_name ` set data" for n
    using that free node_syncD(3) [OF sync, of n] by auto
  then have "fst ` set (conf_map (cfgServices nd)) \<inter> s_name ` set data = {}"
    by (auto simp: conf_at_def map_of_None_fst)
  then show "distinct (map fst (conf_map (cfgServices nd')))"
    unfolding cs using node_syncD(2) [OF sync] dist by (simp add: comp_def)
  have at: "map_of (map (\<lambda>c. (s_name c, default_types c, False)) data) n =
      (if n \<in> s_name ` set data then map_option (\<lambda>(c, r). (c, \<not> r)) (spec_start data (svc_view nd) n) else None)" for n
  proof (cases "n \<in> s_name ` set data")
    case True
    then obtain c where c: "c \<in> set data" "n = s_name c" by blast
    have "map_of (map (\<lambda>c. (s_name c, default_types c, False)) data) n = Some (default_types c, False)"
      using c dist by (intro map_of_is_SomeI) (auto simp: comp_def)
    with True c start_at(2) [OF c(1) dist] show ?thesis by simp
  next
    case False
    then show ?thesis by (auto simp: map_of_eq_None_iff)
  qed
  show "conf_at nd' n = map_option (\<lambda>(c, r). (c, \<not> r)) (svc_view nd' n)" for n
  proof (cases "n \<in> s_name ` set data")
    case True
    with no_conf [OF True] at [of n] show ?thesis unfolding v
      unfolding conf_at_def cs by (simp add: map_add_def split: option.split)
  next
    case False
    with node_syncD(3) [OF sync, of n] at [of n] start_at(1) [OF False] show ?thesis
      unfolding v unfolding conf_at_def cs by (cases "svc_view nd n") (simp_all add: map_add_def)
  qed
  show "default_types c = c" if "svc_view nd' n = Some (c, r)" for n c r
  proof (cases "n \<in> s_name ` set data")
    case True
    then show ?thesis using that start_at(2) [OF _ dist, of _ "svc_view nd"] unfolding v by auto
  next
    case False
    with that node_syncD(4) [OF sync, of n] show ?thesis unfolding v by (simp add: start_at)
  qed
qed

text \<open>A request that is refused leaves the view; one that is accepted adds its services.\<close>

lemma create_answers:
  assumes sync: "node_sync nd" and tidy: "tidy (AddService_msg data)" and os: "reliable os"
  shows "answers nd (spec_command (AddService_msg data) (svc_view nd)) (createServices os data nd)"
proof (cases "data = []")
  case True
  then show ?thesis by (intro answers_refused [OF _ _ sync refl]) (simp_all add: spec_command_def createServices_def)
next
  case data: False
  note wf = node_syncD(1) [OF sync]
  have t: "\<forall>c \<in> set data. trim_space (s_name c) = s_name c" using tidy by (simp add: tidy_def)
  obtain q nd1 where p: "parse_new os data nd = (q, nd1)" by fastforce
  have k: "keeps {} nd nd1" "svcReg nd1 = svcReg nd" "cfgServices nd1 = cfgServices nd"
    using parse_new_keeps [of "{}" nd os data] p by simp_all
  have wf1: "svc_wf nd1" by (rule keepsD(1) [OF k(1) wf])
  have v1: "svc_view nd1 = svc_view nd" by (rule ext) (rule keepsD(2) [OF k(1) wf], simp)
  have same: "node_sync nd'" if "svc_wf nd'" "svc_view nd' = svc_view nd" "cfgServices nd' = cfgServices nd" for nd'
    using that node_syncD [OF sync] by (intro node_syncI) (auto simp: conf_at_def)
  show ?thesis
  proof (cases "\<forall>c \<in> set data. s_name c \<noteq> [] \<and> s_name c \<notin> reg_names nd")
    case False
    from parse_new_all [OF os t, of nd, unfolded if_not_P [OF this]] p obtain er where "q = Inl er" by auto
    then have "createServices os data nd = Replied (Some er) nd1" using data p by (simp add: createServices_def)
    moreover have "spec_command (AddService_msg data) (svc_view nd) = None"
      using False by (auto simp: spec_command_def view_None)
    ultimately show ?thesis by (rule answers_refused [rotated, OF _ same [OF wf1 v1 k(3)] v1])
  next
    case True
    from parse_new_all [OF os t, of nd, unfolded if_P [OF True]] p obtain ss where
      ss: "q = Inr ss" and op: "\<forall>s \<in> set ss. sv_id s \<in> open_ids nd1" by auto
    have new: "new_objects nd1 ss"
      and confs: "map sv_conf ss = map (\<lambda>c. default_types (c\<lparr>s_name := trim_space (s_name c)\<rparr>)) data"
      using parse_new_Inr [of os data nd ss] p ss wf by simp_all
    have confs: "map sv_conf ss = map default_types data"
      unfolding confs using t by simp
    have names: "map (s_name \<circ> sv_conf) ss = map s_name data"
      using arg_cong [OF confs, of "map s_name"] by (simp add: comp_def)
    have eq: "s_name ` set data = (s_name \<circ> sv_conf) ` set ss" using arg_cong [OF names, of set] by simp
    have free: "s_name (sv_conf s) \<notin> reg_names nd1" if "s \<in> set ss" for s
    proof -
      have "s_name (sv_conf s) \<in> s_name ` set data" unfolding eq using imageI [OF that, of "s_name \<circ> sv_conf"] by simp
      then obtain c where "c \<in> set data" "s_name (sv_conf s) = s_name c" by (rule imageE)
      with True k(2) show ?thesis by (simp add: reg_names_def)
    qed
    note all = register_new_all [OF wf1 new op, of "[]"]
    show ?thesis
    proof (cases "distinct (map s_name data)")
      case False
      then have "\<not> (distinct (map (s_name \<circ> sv_conf) ss) \<and> (\<forall>s \<in> set ss. s_name (sv_conf s) \<notin> reg_names nd1))"
        by (simp add: names)
      from all [unfolded if_not_P [OF this]] obtain er nd2 where
        r: "register_new ss [] nd1 = (Some er, nd2)" "svc_wf nd2" "cfgServices nd2 = cfgServices nd1"
        "svc_view nd2 = svc_view nd1" by auto
      have eq: "createServices os data nd = Replied (Some er) nd2"
        using r(1) data p ss by (simp add: createServices_def)
      have no: "spec_command (AddService_msg data) (svc_view nd) = None"
        using False by (simp add: spec_command_def)
      have sv: "svc_view nd2 = svc_view nd" using r(4) v1 by simp
      have "node_sync nd2" by (rule same [OF r(2) sv]) (use r(3) k(3) in simp)
      then show ?thesis by (rule answers_refused [OF no eq _ sv])
    next
      case dist: True
      have c: "distinct (map (s_name \<circ> sv_conf) ss) \<and> (\<forall>s \<in> set ss. s_name (sv_conf s) \<notin> reg_names nd1)"
        using dist free by (simp add: names)
      from all [unfolded if_P [OF c]] obtain nd2 where
        r: "register_new ss [] nd1 = (None, nd2)" "svc_wf nd2" "cfgServices nd2 = cfgServices nd"
        "svc_view nd2 = fold (\<lambda>s \<sigma>. \<sigma>(s_name (sv_conf s) \<mapsto> (sv_conf s, True))) ss (svc_view nd)"
        using v1 k(3) by auto
      have "fold (\<lambda>s \<sigma>. \<sigma>(s_name (sv_conf s) \<mapsto> (sv_conf s, True))) ss \<sigma> =
          fold (\<lambda>c \<sigma>. \<sigma>(s_name c \<mapsto> (c, True))) (map sv_conf ss) \<sigma>" for \<sigma>
        by (simp add: fold_map comp_def)
      then have v: "svc_view nd2 = spec_start data (svc_view nd)"
        unfolding r(4) confs by (simp add: spec_start_def fold_map comp_def)
      let ?nd' = "nd2\<lparr>cfgServices := cfgServices nd2 @ map (\<lambda>s. (sv_conf s, False)) ss\<rparr>"
      have sv: "svc_view ?nd' = svc_view nd2" by (simp add: svc_view_def open_ids_def fun_eq_iff)
      have cs: "conf_map (cfgServices ?nd') =
          conf_map (cfgServices nd) @ map (\<lambda>c. (s_name c, default_types c, False)) data"
      proof -
        have "conf_map (map (\<lambda>s. (sv_conf s, False)) ss) =
            map (\<lambda>c. (s_name c, c, False)) (map sv_conf ss)" by (simp add: conf_map_def comp_def)
        then show ?thesis by (simp add: r(3) confs comp_def)
      qed
      have "node_sync ?nd'"
      proof (rule sync_started [OF sync dist _ _ _ cs])
        show "\<forall>c \<in> set data. svc_view nd (s_name c) = None" using True by (simp add: view_None)
        show "svc_wf ?nd'" using r(2) by (simp add: svc_wf_def open_ids_def)
        show "svc_view ?nd' = spec_start data (svc_view nd)" using sv v by simp
      qed
      moreover have "spec_command (AddService_msg data) (svc_view nd) = Some (spec_start data (svc_view nd))"
        using data True dist by (simp add: spec_command_def view_None)
      moreover have "createServices os data nd = Replied None ?nd'"
        using data p ss r(1) by (simp add: createServices_def)
      ultimately show ?thesis using v sv by (intro answers_done) simp_all
    qed
  qed
qed

section \<open>The refinement\<close>

text \<open>C9: The node implements its specification: from a node whose configuration list mirrors its
  registry, on an operating system that opens every listener, each command that adds, updates,
  deletes, pauses or resumes services ends with the success or failure the specification gives,
  leaves the services in the state it gives (unchanged on failure, roll-backs included), and the
  configuration list again mirrors the registry.\<close>

theorem node_refines:
  assumes "node_sync nd" and "reliable os" and "tidy m"
  shows "\<exists>r nd'. routeCommand os m nd = Replied r nd' \<and> node_sync nd' \<and>
     (case spec_command m (svc_view nd) of
        None \<Rightarrow> r \<noteq> None \<and> svc_view nd' = svc_view nd
      | Some \<sigma> \<Rightarrow> r = None \<and> svc_view nd' = \<sigma>)"
  using assms create_answers [of nd _ os] update_answers [of nd _ os] delete_answers [of nd]
    pause_answers [of nd _ os] resume_answers [of nd _ os]
  unfolding answers_def by (cases m) (simp_all add: tidy_def routeCommand_def)

text \<open>An operating system on which everything succeeds, and the two services of a forward, for
  the witnesses.\<close>

definition ok_os :: os where
  "ok_os = \<lparr>Listen = (\<lambda>_ _ _. None), known_listener = (\<lambda>_. True), known_handler = (\<lambda>_. True),
     handler_error = (\<lambda>_. None), can_forward = (\<lambda>_. True), forwarder_error = (\<lambda>_. None),
     chain_error = (\<lambda>_. None), Xray = (\<lambda>_. None), restarted = empty_node\<rparr>"

definition sample_service :: "string \<Rightarrow> ServiceConfig" where
  "sample_service proto = \<lparr>s_name = ''10_2_1_'' @ proto, s_addr = '':1000'', s_interface = None,
     s_limiter = None, s_handler = \<lparr>hd_type = proto, hd_chain = None, hd_sniffing = False\<rparr>,
     s_listener = \<lparr>ls_type = proto, ls_keepAlive = False\<rparr>, s_forwarder = None\<rparr>"

lemma ok_os_reliable: "reliable ok_os"
  by (simp add: reliable_def ok_os_def)

lemma empty_node_sync: "node_sync empty_node"
  by (simp add: node_sync_def svc_wf_def empty_node_def conf_map_def conf_at_def svc_view_def open_ids_def)

lemma sample_services:
  "tidy (AddService_msg [sample_service ''tcp'', sample_service ''udp''])"
  "default_types (sample_service ''tcp'') = sample_service ''tcp''"
  "default_types (sample_service ''udp'') = sample_service ''udp''"
  by code_simp+

theorem node_refines_witness:
  "\<exists>nd. routeCommand ok_os (AddService_msg [sample_service ''tcp'', sample_service ''udp'']) empty_node =
       Replied None nd \<and> node_sync nd \<and>
     svc_view nd = (\<lambda>_. None)(''10_2_1_tcp'' \<mapsto> (sample_service ''tcp'', True),
       ''10_2_1_udp'' \<mapsto> (sample_service ''udp'', True))"
proof -
  have v: "svc_view empty_node = (\<lambda>_. None)" by (simp add: svc_view_def empty_node_def fun_eq_iff)
  have "spec_command (AddService_msg [sample_service ''tcp'', sample_service ''udp'']) (\<lambda>_. None) =
    Some ((\<lambda>_. None)(''10_2_1_tcp'' \<mapsto> (sample_service ''tcp'', True),
       ''10_2_1_udp'' \<mapsto> (sample_service ''udp'', True)))"
    by (simp add: spec_command_def spec_start_def sample_services) (simp add: sample_service_def)
  with node_refines [OF empty_node_sync ok_os_reliable sample_services(1)] v show ?thesis by auto
qed

end
