(* ===== verification/Node_Props.thy ===== *)
theory Node_Props
  imports Node_Refine Footprint Sample
begin

text \<open>
  Properties of the nodes that need no assumption on the operating system, and the fleet on which
  \<open>forward_isolation\<close> is applied.
\<close>

section \<open>Deleting is all or nothing\<close>

lemma drop_all_open:
  "open_ids (fold drop_service ps nd) \<subseteq> open_ids nd - (\<lambda>(_, s). sv_id s) ` set ps"
proof (induction ps arbitrary: nd)
  case (Cons p ps)
  have "open_ids (drop_service p nd) \<subseteq> open_ids nd - {sv_id (snd p)}"
    by (cases p) (auto simp: drop_service_def open_Unregister)
  with Cons [of "drop_service p nd"] show ?case by (auto simp: case_prod_beta)
qed simp

lemma delete_names:
  assumes "svc_wf nd" and "deleteServices names nd = Replied r nd'"
  shows "if r = None then reg_names nd' = reg_names nd - trim_space ` set names else nd' = nd"
proof (cases "names = [] \<or> first_error (missing nd) names \<noteq> None")
  case True
  then show ?thesis
    using assms(2) by (cases "names = []") (fastforce simp: deleteServices_def)+
next
  case False
  then have ok: "first_error (missing nd) names = None" and ne: "names \<noteq> []" by simp_all
  define xs where "xs = map (\<lambda>raw. (trim_space raw, the (Get (trim_space raw) (svcReg nd)))) names"
  have fst: "fst ` set xs = trim_space ` set names" by (force simp: xs_def)
  have "\<forall>p \<in> set xs. owned nd (fst p) (snd p)" using captured [OF assms(1) ok] by (auto simp: xs_def)
  note d = drop_services [OF assms(1) this, unfolded fst]
  have "n \<in> reg_names (fold drop_service xs nd) \<longleftrightarrow> n \<in> reg_names nd - trim_space ` set names" for n
    using view_None [of "fold drop_service xs nd" n] view_None [of nd n] d
    by (cases "n \<in> trim_space ` set names") simp_all
  moreover have "r = None" "reg_names nd' = reg_names (fold drop_service xs nd)"
    using assms(2) ne ok
    by (simp_all add: deleteServices_def Let_def xs_def drop_service_def) (auto simp: reg_names_def)
  ultimately show ?thesis by (simp add: set_eq_iff)
qed

text \<open>Property: A delete request is all or nothing: when one of its names is empty or not registered the
  node answers with an error and is exactly as before, the registered services of the request
  included; otherwise every named service is gone from the registry and from the configuration
  list, its listener is closed, and no other service changed.\<close>

theorem delete_all_or_nothing:
  assumes "svc_wf nd" and "deleteServices names nd = Replied r nd'"
  shows "case r of
      Some er \<Rightarrow> nd' = nd \<and> (names = [] \<or> (\<exists>n \<in> set names. trim_space n = [] \<or> trim_space n \<notin> reg_names nd))
    | None \<Rightarrow> names \<noteq> [] \<and> trim_space ` set names \<subseteq> reg_names nd \<and>
        reg_names nd' = reg_names nd - trim_space ` set names \<and>
        conf_names nd' = conf_names nd - trim_space ` set names \<and>
        (\<forall>n \<in> trim_space ` set names. \<forall>s. map_of (svcReg nd) n = Some s \<longrightarrow> sv_id s \<notin> open_ids nd') \<and>
        (\<forall>n. n \<notin> trim_space ` set names \<longrightarrow> svc_view nd' n = svc_view nd n)"
proof (cases "names = [] \<or> first_error (missing nd) names \<noteq> None")
  case True
  then obtain er where "r = Some er" "nd' = nd"
    using assms(2) by (cases "names = []") (fastforce simp: deleteServices_def)+
  moreover have "names = [] \<or> (\<exists>n \<in> set names. trim_space n = [] \<or> trim_space n \<notin> reg_names nd)"
    using True missing_None [of nd] by (auto simp: first_error_None)
  ultimately show ?thesis by simp
next
  case False
  then have ok: "first_error (missing nd) names = None" and ne: "names \<noteq> []" by simp_all
  define xs where "xs = map (\<lambda>raw. (trim_space raw, the (Get (trim_space raw) (svcReg nd)))) names"
  let ?A = "trim_space ` set names" and ?nd = "fold drop_service xs nd"
  have fst: "fst ` set xs = ?A" by (force simp: xs_def)
  have reg: "trim_space n \<noteq> [] \<and> trim_space n \<in> reg_names nd" if "n \<in> set names" for n
    using ok that missing_None [of nd n] by (simp add: first_error_None)
  have "\<forall>p \<in> set xs. owned nd (fst p) (snd p)" using captured [OF assms(1) ok] by (auto simp: xs_def)
  note d = drop_services [OF assms(1) this, unfolded fst]
  have nd': "r = None" "nd' = ?nd\<lparr>cfgServices := filter (\<lambda>(c, _). s_name c \<notin> ?A) (cfgServices ?nd)\<rparr>"
    using assms(2) ne ok unfolding fst [symmetric]
    by (simp_all add: deleteServices_def Let_def xs_def drop_service_def)
  have v: "svc_view nd' = (\<lambda>n. if n \<in> ?A then None else svc_view nd n)"
    using d by (simp add: nd' svc_view_def open_ids_def fun_eq_iff)
  have "n \<in> reg_names nd' \<longleftrightarrow> n \<in> reg_names nd - ?A" for n
    using view_None [of nd' n] view_None [of nd n] unfolding v by (cases "n \<in> ?A") simp_all
  then have "reg_names nd' = reg_names nd - ?A" by blast
  moreover have "conf_names nd' = conf_names nd - ?A"
    using d by (auto simp: nd' conf_names_def)
  moreover have "sv_id s \<notin> open_ids nd'" if "n \<in> ?A" "map_of (svcReg nd) n = Some s" for n s
  proof -
    obtain raw where raw: "raw \<in> set names" "n = trim_space raw" using \<open>n \<in> ?A\<close> by blast
    then have "(n, s) \<in> set xs" using that(2) reg [OF raw(1)] by (force simp: xs_def Get_def)
    then have "sv_id s \<in> (\<lambda>(_, s). sv_id s) ` set xs" by force
    then have "sv_id s \<notin> open_ids ?nd" using drop_all_open [of xs nd] by blast
    then show ?thesis by (simp add: nd' open_ids_def)
  qed
  ultimately show ?thesis using ne reg v by (auto simp: nd'(1))
qed

text \<open>The witness: a node that lost the TCP half of a pair refuses to delete the pair, and the UDP
  half goes on listening.\<close>

definition half_node :: gost_node where
  "half_node = empty_node\<lparr>svcReg := [(''10_2_1_udp'', \<lparr>sv_id = 0, sv_conf = sample_service ''udp''\<rparr>)],
     svcOpen := [(0, sample_service ''udp'')], svcNext := 1,
     cfgServices := [(sample_service ''udp'', False)]\<rparr>"

lemma half_node_wf: "svc_wf half_node"
  by (simp add: svc_wf_def half_node_def empty_node_def open_ids_def sample_service_def)

lemma half_node_refuses:
  "deleteServices [''10_2_1_tcp'', ''10_2_1_udp''] half_node =
     Replied (Some ''service 10_2_1_tcp not found'') half_node"
  by code_simp

theorem delete_all_or_nothing_witness:
  "deleteServices [''10_2_1_tcp'', ''10_2_1_udp''] half_node =
     Replied (Some ''service 10_2_1_tcp not found'') half_node \<and> ''10_2_1_tcp'' \<notin> reg_names half_node"
  using delete_all_or_nothing [OF half_node_wf half_node_refuses] half_node_refuses
  by (auto simp: reg_names_def half_node_def)

section \<open>The roll-back of a pause\<close>

lemma rollbackPaused_registered:
  assumes wf: "svc_wf nd" and n: "n \<in> reg_names nd"
  shows "svc_view (rollbackPaused os (n, c) nd) = svc_view nd \<and> svc_wf (rollbackPaused os (n, c) nd) \<and>
    reg_names (rollbackPaused os (n, c) nd) = reg_names nd \<and>
    cfgServices (rollbackPaused os (n, c) nd) = cfgServices nd"
proof -
  obtain r nd1 where p: "ParseService os 0 c nd = (r, nd1)" by fastforce
  have k: "keeps {} nd nd1" and f: "svcReg nd1 = svcReg nd" "cfgServices nd1 = cfgServices nd" "reg_names nd1 = reg_names nd"
    using keeps_Parse [of "{}" nd os 0 c] ParseService_fields(1,2,7) [of os 0 c nd] p by simp_all
  note K = keepsD [OF k wf]
  have v1: "svc_view nd1 = svc_view nd" using K(2) by auto
  show ?thesis
  proof (cases r)
    case (Inl er)
    with p f v1 K(1) show ?thesis by (simp add: rollbackPaused_def)
  next
    case (Inr s)
    have "n \<noteq> []" using n svc_wfD(2) [OF wf] by auto
    then have reg: "Register n s (svcReg nd1) = None" using n f by (simp add: Register_None reg_names_def)
    have o: "owned nd1 m s" for m using fresh_owned [OF Parse_fresh [OF wf p [unfolded Inr]]] .
    have "keeps {} nd1 (Close s nd1)"
    proof -
      have "svc_view (Close s nd1) m = svc_view nd1 m" for m
      proof -
        obtain m' where "m' \<noteq> m" by (metis list.distinct(1))
        then show ?thesis using keepsD(2) [OF keeps_Close [OF o singletonI] K(1), of m m'] by blast
      qed
      then show ?thesis using keepsD(1,3,4) [OF keeps_Close [OF o singletonI] K(1)] by (simp add: keeps_def)
    qed
    note C = keepsD [OF this K(1)]
    have "svc_view (Close s nd1) = svc_view nd" using C(2) v1 by auto
    then show ?thesis using reg p Inr C(1) f by (simp add: rollbackPaused_def)
  qed
qed

text \<open>Property: The roll-back of a pause that fails half-way restores nothing: pausing keeps a service in
  the registry, so the service the roll-back creates anew cannot be registered and is closed
  again. Whatever the operating system answers, every service stays as the failed pause left it.\<close>

theorem pause_rollback_restores_nothing:
  assumes "svc_wf nd" and "fst ` set paused \<subseteq> reg_names nd"
  shows "svc_view (rollbackPausedServices os paused nd) = svc_view nd \<and>
    cfgServices (rollbackPausedServices os paused nd) = cfgServices nd"
proof -
  have "svc_view (fold (rollbackPaused os) paused nd) = svc_view nd \<and>
    cfgServices (fold (rollbackPaused os) paused nd) = cfgServices nd"
    using assms
  proof (induction paused arbitrary: nd)
    case (Cons x paused)
    obtain n c where x: "x = (n, c)" by (cases x)
    then have "n \<in> reg_names nd" using Cons.prems(2) by auto
    note r = rollbackPaused_registered [OF Cons.prems(1) this, of os c]
    show ?case using Cons.IH [of "rollbackPaused os x nd"] r Cons.prems(2) by (simp add: x)
  qed simp
  then show ?thesis by (simp add: rollbackPausedServices_def)
qed

text \<open>The witness: the service was closed and is asked back.\<close>

theorem pause_rollback_restores_nothing_witness:
  "svc_view (rollbackPausedServices ok_os [(''10_2_1_udp'', sample_service ''udp'')]
     (half_node\<lparr>svcOpen := []\<rparr>)) ''10_2_1_udp'' = Some (sample_service ''udp'', False)"
proof -
  let ?nd = "half_node\<lparr>svcOpen := []\<rparr>"
  have wf: "svc_wf ?nd" by (simp add: svc_wf_def half_node_def empty_node_def open_ids_def sample_service_def)
  have "fst ` set [(''10_2_1_udp'', sample_service ''udp'')] \<subseteq> reg_names ?nd" by code_simp
  from pause_rollback_restores_nothing [OF wf this, of ok_os] show ?thesis
    by (simp add: svc_view_def half_node_def open_ids_def)
qed

section \<open>A fleet\<close>

text \<open>Every node runs a service of forward 11; the forward of \<open>Sample\<close> is 10.\<close>

definition other_node :: gost_node where
  "other_node = empty_node\<lparr>
     svcReg := [(''11_2_1_udp'', \<lparr>sv_id = 0, sv_conf = (sample_service ''udp'')\<lparr>s_name := ''11_2_1_udp''\<rparr>\<rparr>)],
     svcOpen := [(0, (sample_service ''udp'')\<lparr>s_name := ''11_2_1_udp''\<rparr>)], svcNext := 1\<rparr>"

definition fleet_env :: "fleet env" where
  "fleet_env = \<lparr>now = 1000, nodeSessions = (\<lambda>_. True), transport = fleet_transport (\<lambda>_. ok_os),
     ShouldSniffNode = (\<lambda>_. False), db_ok = (\<lambda>_. True), text_eq = (=), LookupIP = (\<lambda>_. None),
     bcryptHash = Some, bcryptMatches = (=), md5_hex = (\<lambda>s. s), captchaVerify = (\<lambda>_ _. True)\<rparr>"

definition fleet_world :: "fleet world" where
  "fleet_world = \<lparr>wdb = sample_db\<lparr>forwards := [sample_forward], seq := (\<lambda>_. 11)\<rparr>, wops = 0,
     wnet = (\<lambda>_. other_node), wsent = []\<rparr>"

lemma other_node_wf: "svc_wf other_node"
  by (simp add: svc_wf_def other_node_def empty_node_def open_ids_def)

theorem forward_isolation_witness:
  "svc_wf (wnet (snd (DeleteForward fleet_env 10 2 1 fleet_world)) 1) \<and>
   svc_view (wnet (snd (DeleteForward fleet_env 10 2 1 fleet_world)) 1)
     (buildServiceName 11 2 (Some (sample_permission 1)) @ ''_udp'') =
     Some ((sample_service ''udp'')\<lparr>s_name := ''11_2_1_udp''\<rparr>, True)"
proof -
  have "svc_view (wnet fleet_world 1) (buildServiceName 11 2 (Some (sample_permission 1)) @ ''_udp'') =
    Some ((sample_service ''udp'')\<lparr>s_name := ''11_2_1_udp''\<rparr>, True)" by code_simp
  with forward_isolation [where e = fleet_env and w = fleet_world and k = 10 and userId = 2 and roleId = 1
      and w' = "snd (DeleteForward fleet_env 10 2 1 fleet_world)" and node = 1 and j = 11 and u = 2
      and ut = "Some (sample_permission 1)" and suffix = "''_udp''"]
  show ?thesis using other_node_wf by (simp add: fleet_env_def fleet_world_def)
qed

end
