(* ===== verification/Failover.thy ===== *)
theory Failover
  imports Panel_Data Go_Text
begin

text \<open>
  Node groups, dynamic DNS and failover (service/group.go, service/ddns.go, service/failover.go,
  \<open>ddns.New\<close> and \<open>fqdn\<close> of pkg/ddns/provider.go).

  The tables of these components are the record \<open>gdb\<close>; the panel's own database, of which they
  read the nodes, is part of the environment \<open>genv\<close>. The registrars are the parameter
  \<open>SetRecord\<close>, which answers the n-th request sent (\<open>dns_sent\<close> keeps the requests); the JSON and
  AES libraries are \<open>apiToken\<close>, \<open>hookURL\<close>, \<open>Encrypt\<close> and \<open>Decrypt\<close>. The log messages leave out the code's fixed
  (Chinese) words. \<open>write_ok\<close> says which
  write statement of the database fails, counted by \<open>gops\<close>.
\<close>

record NodeGroup =
  ng_ID :: int
  ng_Name :: string
  ng_Type :: string
  ng_SwitchBack :: int
  ng_ActiveMemberId :: int
  ng_LastSwitchTime :: int
  ng_CreatedTime :: int
  ng_UpdatedTime :: int
  ng_Status :: int
  ng_Inx :: int

record GroupMember =
  gm_ID :: int
  gm_GroupId :: int
  gm_NodeId :: int
  gm_MemberIp :: string
  gm_Priority :: int
  gm_CreatedTime :: int
  gm_UpdatedTime :: int

record DdnsProvider =
  dp_ID :: int
  dp_Name :: string
  dp_Type :: string
  dp_Credential :: string
  dp_CreatedTime :: int
  dp_UpdatedTime :: int
  dp_Status :: int

record DdnsDomain =
  dd_ID :: int
  dd_ProviderId :: int
  dd_GroupId :: int
  dd_Domain :: string
  dd_RecordName :: string
  dd_RecordType :: string
  dd_AutoResolve :: int
  dd_CurrentRecord :: string
  dd_CurrentMemberId :: int
  dd_CreatedTime :: int
  dd_UpdatedTime :: int
  dd_Status :: int

record SystemLog =
  lg_Type :: string
  lg_Level :: string
  lg_Message :: string
  lg_CreatedTime :: int

record gdb =
  node_groups :: "NodeGroup list"
  group_members :: "GroupMember list"
  ddns_providers :: "DdnsProvider list"
  ddns_domains :: "DdnsDomain list"
  system_logs :: "SystemLog list"
  group_seq :: int
  member_seq :: int
  provider_seq :: int
  domain_seq :: int

text \<open>A request to a registrar: type and credential of the provider, domain, record name and
  type, address.\<close>

type_synonym dns_request = "string \<times> string \<times> string \<times> string \<times> string \<times> string"

record genv =
  g_now :: int
  g_online :: "int \<Rightarrow> bool"
  g_panel :: db
  write_ok :: "nat \<Rightarrow> bool"
  apiToken :: "string \<Rightarrow> string option"
  hookURL :: "string \<Rightarrow> string option"
  crypto_ready :: bool
  Encrypt :: "string \<Rightarrow> string option"
  Decrypt :: "string \<Rightarrow> string option"
  SetRecord :: "nat \<Rightarrow> dns_request \<Rightarrow> string option"

record gworld =
  gd :: gdb
  gops :: nat
  dns_sent :: "dns_request list"

interpretation group_tbl: keyed_table node_groups node_groups_update ng_ID
  by unfold_locales simp

interpretation member_tbl: keyed_table group_members group_members_update gm_ID
  by unfold_locales simp

interpretation provider_tbl: keyed_table ddns_providers ddns_providers_update dp_ID
  by unfold_locales simp

interpretation domain_tbl: keyed_table ddns_domains ddns_domains_update dd_ID
  by unfold_locales simp

section \<open>Statements and transactions\<close>

definition g_write :: "genv \<Rightarrow> (gdb \<Rightarrow> gdb) \<Rightarrow> gworld \<Rightarrow> bool \<times> gworld" where
  "g_write e f w =
     (let w1 = w\<lparr>gops := Suc (gops w)\<rparr>
      in if write_ok e (gops w) then (True, w1\<lparr>gd := f (gd w1)\<rparr>) else (False, w1))"

definition g_exec :: "genv \<Rightarrow> (gdb \<Rightarrow> gdb) \<Rightarrow> gworld \<Rightarrow> gworld" where
  "g_exec e f w = snd (g_write e f w)"

fun g_steps :: "genv \<Rightarrow> (gdb \<Rightarrow> gdb) list \<Rightarrow> gworld \<Rightarrow> bool \<times> gworld" where
  "g_steps e [] w = (True, w)"
| "g_steps e (f # fs) w =
     (let (ok, w1) = g_write e f w in if ok then g_steps e fs w1 else (False, w1))"

text \<open>\<open>DB.Transaction\<close>: the last write is the commit.\<close>

definition g_transaction :: "genv \<Rightarrow> (gdb \<Rightarrow> gdb) list \<Rightarrow> gworld \<Rightarrow> bool \<times> gworld" where
  "g_transaction e fs w =
     (let (ok, w1) = g_steps e (fs @ [\<lambda>d. d]) w
      in if ok then (True, w1) else (False, w1\<lparr>gd := gd w\<rparr>))"

definition WriteSystemLog :: "genv \<Rightarrow> string \<Rightarrow> string \<Rightarrow> string \<Rightarrow> gworld \<Rightarrow> gworld" where
  "WriteSystemLog e logType level message =
     g_exec e (system_logs_update (insert_row \<lparr>lg_Type = logType, lg_Level = level,
       lg_Message = message, lg_CreatedTime = g_now e\<rparr>))"

section \<open>Groups\<close>

datatype group_err =
    InvalidGroupType | GroupCreateFailed | GroupNotFound | GroupUpdateFailed | GroupInUse
  | GroupDeleteFailed | ProviderNotFound | ProviderInUse | ProviderCreateFailed | NoCryptoKey
  | EncryptFailed | DecryptFailed | BadProvider string | BadRecordType | DomainNotFound
  | DomainCreateFailed | NoMemberAvailable | NoMemberIp | DnsFailed string

type_synonym greply = "group_err option"

record GroupMemberDto =
  gmd_NodeId :: int
  gmd_MemberIp :: string
  gmd_Priority :: int

record GroupDto =
  gdt_Name :: string
  gdt_Type :: string
  gdt_SwitchBack :: int
  gdt_Members :: "GroupMemberDto list"

record GroupUpdateDto =
  gud_ID :: int
  gud_Name :: string
  gud_SwitchBack :: "int option"
  gud_Members :: "GroupMemberDto list option"

definition validGroupTypes :: "string list" where
  "validGroupTypes = [''entry'', ''exit'', ''forward'']"

definition insertGroup :: "NodeGroup \<Rightarrow> gdb \<Rightarrow> gdb" where
  "insertGroup g d = d\<lparr>node_groups := insert_row (g\<lparr>ng_ID := group_seq d\<rparr>) (node_groups d),
     group_seq := group_seq d + 1\<rparr>"

definition insertMember :: "GroupMember \<Rightarrow> gdb \<Rightarrow> gdb" where
  "insertMember m d = d\<lparr>group_members := insert_row (m\<lparr>gm_ID := member_seq d\<rparr>) (group_members d),
     member_seq := member_seq d + 1\<rparr>"

text \<open>The statements of \<open>replaceGroupMembers\<close>.\<close>

definition replaceGroupMembers :: "genv \<Rightarrow> int \<Rightarrow> GroupMemberDto list \<Rightarrow> (gdb \<Rightarrow> gdb) list" where
  "replaceGroupMembers e groupId members =
     group_members_update (delete_where (\<lambda>m. gm_GroupId m = groupId)) #
     map (\<lambda>m. insertMember \<lparr>gm_ID = 0, gm_GroupId = groupId, gm_NodeId = gmd_NodeId m,
            gm_MemberIp = gmd_MemberIp m, gm_Priority = gmd_Priority m, gm_CreatedTime = g_now e,
            gm_UpdatedTime = g_now e\<rparr>) members"

definition CreateGroup :: "genv \<Rightarrow> GroupDto \<Rightarrow> gworld \<Rightarrow> greply \<times> gworld" where
  "CreateGroup e d w =
     (if gdt_Type d \<notin> set validGroupTypes then (Some InvalidGroupType, w)
      else
        (let group = \<lparr>ng_ID = 0, ng_Name = gdt_Name d, ng_Type = gdt_Type d,
               ng_SwitchBack = gdt_SwitchBack d, ng_ActiveMemberId = 0, ng_LastSwitchTime = 0,
               ng_CreatedTime = g_now e, ng_UpdatedTime = g_now e, ng_Status = 1, ng_Inx = 0\<rparr>;
             (ok, w1) = g_transaction e
               (insertGroup group # replaceGroupMembers e (group_seq (gd w)) (gdt_Members d)) w
         in if ok then (None, w1) else (Some GroupCreateFailed, w1)))"

definition set_group :: "int \<Rightarrow> (NodeGroup \<Rightarrow> NodeGroup) \<Rightarrow> gdb \<Rightarrow> gdb" where
  "set_group k f = node_groups_update (update_where (\<lambda>g. ng_ID g = k) f)"

text \<open>The row \<open>UpdateGroup\<close> saves.\<close>

definition updated_group :: "genv \<Rightarrow> GroupUpdateDto \<Rightarrow> NodeGroup \<Rightarrow> NodeGroup" where
  "updated_group e d g =
     (let g1 = (if gud_Name d \<noteq> [] then g\<lparr>ng_Name := gud_Name d\<rparr> else g);
          g2 = (case gud_SwitchBack d of None \<Rightarrow> g1 | Some b \<Rightarrow> g1\<lparr>ng_SwitchBack := b\<rparr>)
      in g2\<lparr>ng_UpdatedTime := g_now e\<rparr>)"

definition UpdateGroup :: "genv \<Rightarrow> GroupUpdateDto \<Rightarrow> gworld \<Rightarrow> greply \<times> gworld" where
  "UpdateGroup e d w =
     (case group_tbl.by_key (gud_ID d) (gd w) of
        None \<Rightarrow> (Some GroupNotFound, w)
      | Some g \<Rightarrow>
          (let (ok, w1) = g_transaction e (set_group (ng_ID g) (\<lambda>_. updated_group e d g) #
                 (case gud_Members d of None \<Rightarrow> [] | Some ms \<Rightarrow> replaceGroupMembers e (ng_ID g) ms)) w
           in if ok then (None, w1) else (Some GroupUpdateFailed, w1)))"

definition DeleteGroup :: "genv \<Rightarrow> int \<Rightarrow> gworld \<Rightarrow> greply \<times> gworld" where
  "DeleteGroup e k w =
     (if 0 < count_where (\<lambda>dm. dd_GroupId dm = k) (ddns_domains (gd w)) then (Some GroupInUse, w)
      else
        (let (ok, w1) = g_transaction e
               [group_members_update (delete_where (\<lambda>m. gm_GroupId m = k)),
                node_groups_update (delete_where (\<lambda>g. ng_ID g = k))] w
         in if ok then (None, w1) else (Some GroupDeleteFailed, w1)))"

definition UpdateGroupOrder :: "genv \<Rightarrow> (int \<times> int) list \<Rightarrow> gworld \<Rightarrow> greply \<times> gworld" where
  "UpdateGroupOrder e items w =
     (None, fold (\<lambda>(k, i). g_exec e (set_group k (\<lambda>g. g\<lparr>ng_Inx := i\<rparr>))) items w)"

definition memberIP :: "genv \<Rightarrow> GroupMember \<Rightarrow> string" where
  "memberIP e m =
     (if gm_MemberIp m \<noteq> [] then gm_MemberIp m
      else case GetNodeById (g_panel e) (gm_NodeId m) of
        Some node \<Rightarrow> if n_ServerIp node \<noteq> [] then n_ServerIp node else n_Ip node
      | None \<Rightarrow> [])"

section \<open>DNS providers and domains\<close>

record DdnsProviderDto =
  dpd_Name :: string
  dpd_Type :: string
  dpd_Credential :: string

record DdnsDomainDto =
  ddd_ProviderId :: int
  ddd_GroupId :: int
  ddd_Domain :: string
  ddd_RecordName :: string
  ddd_RecordType :: string
  ddd_AutoResolve :: int

record DdnsDomainUpdateDto =
  ddu_ID :: int
  ddu_ProviderId :: int
  ddu_Domain :: string
  ddu_RecordName :: string
  ddu_RecordType :: string
  ddu_AutoResolve :: "int option"

text \<open>\<open>ddns.New\<close> with \<open>newCloudflare\<close> and \<open>newWebhook\<close>: the error, if any.\<close>

definition ddns_New :: "genv \<Rightarrow> string \<Rightarrow> string \<Rightarrow> string option" where
  "ddns_New e providerType credential =
     (if providerType = ''cloudflare'' then
        (case apiToken e credential of
           None \<Rightarrow> Some ''cloudflare credential invalid''
         | Some t \<Rightarrow> if t = [] then Some ''cloudflare credential missing apiToken'' else None)
      else if providerType = ''webhook'' then
        (case hookURL e credential of
           None \<Rightarrow> Some ''webhook credential invalid''
         | Some u \<Rightarrow> if trim_space u = [] then Some ''webhook credential missing url'' else None)
      else if providerType \<in> {''aliyun'', ''tencent'', ''huawei''}
      then Some (''ddns provider '' @ providerType @ '' not implemented yet'')
      else Some (''unsupported ddns provider type: '' @ providerType))"

definition CreateDdnsProvider :: "genv \<Rightarrow> DdnsProviderDto \<Rightarrow> gworld \<Rightarrow> greply \<times> gworld" where
  "CreateDdnsProvider e d w =
     (case ddns_New e (dpd_Type d) (dpd_Credential d) of
        Some er \<Rightarrow> (Some (BadProvider er), w)
      | None \<Rightarrow>
          if \<not> crypto_ready e then (Some NoCryptoKey, w)
          else case Encrypt e (dpd_Credential d) of
            None \<Rightarrow> (Some EncryptFailed, w)
          | Some encrypted \<Rightarrow>
              (let (ok, w1) = g_write e (\<lambda>db. db\<lparr>ddns_providers := insert_row
                     \<lparr>dp_ID = provider_seq db, dp_Name = dpd_Name d, dp_Type = dpd_Type d,
                      dp_Credential = encrypted, dp_CreatedTime = g_now e, dp_UpdatedTime = g_now e,
                      dp_Status = 1\<rparr> (ddns_providers db), provider_seq := provider_seq db + 1\<rparr>) w
               in if ok then (None, w1) else (Some ProviderCreateFailed, w1)))"

text \<open>The identifier of the row, the new name and credential (empty: keep).\<close>

definition UpdateDdnsProvider ::
  "genv \<Rightarrow> int \<Rightarrow> string \<Rightarrow> string \<Rightarrow> gworld \<Rightarrow> greply \<times> gworld" where
  "UpdateDdnsProvider e k name credential w =
     (case provider_tbl.by_key k (gd w) of
        None \<Rightarrow> (Some ProviderNotFound, w)
      | Some p \<Rightarrow>
          (let p1 = (if name \<noteq> [] then p\<lparr>dp_Name := name\<rparr> else p);
               save = (\<lambda>p. (None, g_exec e (ddns_providers_update
                 (update_where (\<lambda>r. dp_ID r = k) (\<lambda>_. p\<lparr>dp_UpdatedTime := g_now e\<rparr>))) w))
           in if credential = [] then save p1
              else case ddns_New e (dp_Type p) credential of
                Some er \<Rightarrow> (Some (BadProvider er), w)
              | None \<Rightarrow>
                  if \<not> crypto_ready e then (Some NoCryptoKey, w)
                  else case Encrypt e credential of
                    None \<Rightarrow> (Some EncryptFailed, w)
                  | Some encrypted \<Rightarrow> save (p1\<lparr>dp_Credential := encrypted\<rparr>)))"

definition DeleteDdnsProvider :: "genv \<Rightarrow> int \<Rightarrow> gworld \<Rightarrow> greply \<times> gworld" where
  "DeleteDdnsProvider e k w =
     (if 0 < count_where (\<lambda>dm. dd_ProviderId dm = k) (ddns_domains (gd w)) then (Some ProviderInUse, w)
      else (None, g_exec e (ddns_providers_update (delete_where (\<lambda>p. dp_ID p = k))) w))"

definition CreateDdnsDomain :: "genv \<Rightarrow> DdnsDomainDto \<Rightarrow> gworld \<Rightarrow> greply \<times> gworld" where
  "CreateDdnsDomain e d w =
     (if ddd_RecordType d \<noteq> ''A'' \<and> ddd_RecordType d \<noteq> ''AAAA'' then (Some BadRecordType, w)
      else if provider_tbl.by_key (ddd_ProviderId d) (gd w) = None then (Some ProviderNotFound, w)
      else if group_tbl.by_key (ddd_GroupId d) (gd w) = None then (Some GroupNotFound, w)
      else
        (let (ok, w1) = g_write e (\<lambda>db. db\<lparr>ddns_domains := insert_row
               \<lparr>dd_ID = domain_seq db, dd_ProviderId = ddd_ProviderId d, dd_GroupId = ddd_GroupId d,
                dd_Domain = ddd_Domain d, dd_RecordName = ddd_RecordName d,
                dd_RecordType = ddd_RecordType d, dd_AutoResolve = ddd_AutoResolve d,
                dd_CurrentRecord = [], dd_CurrentMemberId = 0, dd_CreatedTime = g_now e,
                dd_UpdatedTime = g_now e, dd_Status = 1\<rparr> (ddns_domains db),
               domain_seq := domain_seq db + 1\<rparr>) w
         in if ok then (None, w1) else (Some DomainCreateFailed, w1)))"

definition set_domain :: "int \<Rightarrow> (DdnsDomain \<Rightarrow> DdnsDomain) \<Rightarrow> gdb \<Rightarrow> gdb" where
  "set_domain k f = ddns_domains_update (update_where (\<lambda>r. dd_ID r = k) f)"

text \<open>The row \<open>UpdateDdnsDomain\<close> saves.\<close>

definition updated_domain :: "genv \<Rightarrow> DdnsDomainUpdateDto \<Rightarrow> DdnsDomain \<Rightarrow> DdnsDomain" where
  "updated_domain e d m =
     (let m1 = (if ddu_ProviderId d \<noteq> 0 then m\<lparr>dd_ProviderId := ddu_ProviderId d\<rparr> else m);
          m2 = (if ddu_Domain d \<noteq> [] then m1\<lparr>dd_Domain := ddu_Domain d\<rparr> else m1);
          m3 = (if ddu_RecordName d \<noteq> [] then m2\<lparr>dd_RecordName := ddu_RecordName d\<rparr> else m2);
          m4 = (if ddu_RecordType d \<noteq> [] then m3\<lparr>dd_RecordType := ddu_RecordType d\<rparr> else m3);
          m5 = (case ddu_AutoResolve d of None \<Rightarrow> m4 | Some a \<Rightarrow> m4\<lparr>dd_AutoResolve := a\<rparr>)
      in m5\<lparr>dd_UpdatedTime := g_now e\<rparr>)"

definition UpdateDdnsDomain :: "genv \<Rightarrow> DdnsDomainUpdateDto \<Rightarrow> gworld \<Rightarrow> greply \<times> gworld" where
  "UpdateDdnsDomain e d w =
     (case domain_tbl.by_key (ddu_ID d) (gd w) of
        None \<Rightarrow> (Some DomainNotFound, w)
      | Some m \<Rightarrow>
          if ddu_RecordType d \<noteq> [] \<and> ddu_RecordType d \<noteq> ''A'' \<and> ddu_RecordType d \<noteq> ''AAAA''
          then (Some BadRecordType, w)
          else (None, g_exec e (set_domain (dd_ID m) (\<lambda>_. updated_domain e d m)) w))"

definition DeleteDdnsDomain :: "genv \<Rightarrow> int \<Rightarrow> gworld \<Rightarrow> greply \<times> gworld" where
  "DeleteDdnsDomain e k w = (None, g_exec e (ddns_domains_update (delete_where (\<lambda>r. dd_ID r = k))) w)"

definition ddnsLabel :: "DdnsDomain \<Rightarrow> string" where
  "ddnsLabel m =
     (if dd_RecordName m = [] \<or> dd_RecordName m = ''@'' then dd_Domain m
      else dd_RecordName m @ ''.'' @ dd_Domain m)"

text \<open>\<open>providerFor\<close>: type and decrypted credential.\<close>

definition providerFor :: "genv \<Rightarrow> int \<Rightarrow> gworld \<Rightarrow> group_err + string \<times> string" where
  "providerFor e k w =
     (case provider_tbl.by_key k (gd w) of
        None \<Rightarrow> Inl ProviderNotFound
      | Some p \<Rightarrow>
          if \<not> crypto_ready e then Inl NoCryptoKey
          else case Decrypt e (dp_Credential p) of
            None \<Rightarrow> Inl DecryptFailed
          | Some credential \<Rightarrow>
              (case ddns_New e (dp_Type p) credential of
                 Some er \<Rightarrow> Inl (BadProvider er)
               | None \<Rightarrow> Inr (dp_Type p, credential)))"

definition applyDdnsRecord :: "genv \<Rightarrow> DdnsDomain \<Rightarrow> GroupMember \<Rightarrow> gworld \<Rightarrow> greply \<times> gworld" where
  "applyDdnsRecord e m member w =
     (let ip = memberIP e member
      in if ip = [] then (Some NoMemberIp, w)
         else case providerFor e (dd_ProviderId m) w of
           Inl er \<Rightarrow> (Some er, w)
         | Inr (ty, cred) \<Rightarrow>
             (let req = (ty, cred, dd_Domain m, dd_RecordName m, dd_RecordType m, ip);
                  answer = SetRecord e (length (dns_sent w)) req;
                  w1 = w\<lparr>dns_sent := dns_sent w @ [req]\<rparr>
              in case answer of
                   Some er \<Rightarrow> (Some (DnsFailed er),
                     WriteSystemLog e ''ddns'' ''error'' (ddnsLabel m @ '': '' @ er) w1)
                 | None \<Rightarrow>
                     (let m1 = m\<lparr>dd_CurrentRecord := ip, dd_CurrentMemberId := gm_NodeId member,
                                 dd_UpdatedTime := g_now e\<rparr>
                      in (None, WriteSystemLog e ''ddns'' ''info'' (ddnsLabel m @ '' -> '' @ ip)
                            (g_exec e (set_domain (dd_ID m) (\<lambda>_. m1)) w1)))))"

section \<open>Failover\<close>

definition failoverDebounceMs :: int where
  "failoverDebounceMs = 60 * 1000"

definition memberHealthy :: "genv \<Rightarrow> GroupMember \<Rightarrow> bool" where
  "memberHealthy e m = g_online e (gm_NodeId m)"

definition firstHealthy :: "genv \<Rightarrow> GroupMember list \<Rightarrow> GroupMember option" where
  "firstHealthy e members = find (memberHealthy e) members"

text \<open>\<open>WHERE group_id = ? ORDER BY priority ASC\<close>.\<close>

definition members_of :: "int \<Rightarrow> gdb \<Rightarrow> GroupMember list" where
  "members_of k d = order_by gm_Priority (find_where (\<lambda>m. gm_GroupId m = k) (group_members d))"

definition activeGroupMember :: "genv \<Rightarrow> int \<Rightarrow> gworld \<Rightarrow> GroupMember option" where
  "activeGroupMember e k w = firstHealthy e (members_of k (gd w))"

definition ResolveDdnsDomain :: "genv \<Rightarrow> int \<Rightarrow> gworld \<Rightarrow> greply \<times> gworld" where
  "ResolveDdnsDomain e k w =
     (case domain_tbl.by_key k (gd w) of
        None \<Rightarrow> (Some DomainNotFound, w)
      | Some m \<Rightarrow>
          (case activeGroupMember e (dd_GroupId m) w of
             None \<Rightarrow> (Some NoMemberAvailable, w)
           | Some member \<Rightarrow> applyDdnsRecord e m member w))"

definition applyGroupSwitch :: "genv \<Rightarrow> NodeGroup \<Rightarrow> GroupMember \<Rightarrow> gworld \<Rightarrow> gworld" where
  "applyGroupSwitch e g target w =
     (let w1 = g_exec e (set_group (ng_ID g) (\<lambda>r. r\<lparr>ng_ActiveMemberId := gm_NodeId target,
                 ng_LastSwitchTime := g_now e\<rparr>)) w;
          nodeName = (case GetNodeById (g_panel e) (gm_NodeId target) of Some n \<Rightarrow> n_Name n | None \<Rightarrow> []);
          w2 = WriteSystemLog e ''failover'' ''info'' (ng_Name g @ '' -> '' @ nodeName) w1;
          domains = find_where (\<lambda>m. dd_GroupId m = ng_ID g \<and> dd_AutoResolve m = 1) (ddns_domains (gd w2))
      in fold (\<lambda>m w. snd (applyDdnsRecord e m target w)) domains w2)"

definition evaluateGroupFailover :: "genv \<Rightarrow> NodeGroup \<Rightarrow> gworld \<Rightarrow> gworld" where
  "evaluateGroupFailover e g w =
     (let members = members_of (ng_ID g) (gd w)
      in if members = [] then w
         else case firstHealthy e members of
           None \<Rightarrow> w
         | Some best \<Rightarrow>
             if ng_SwitchBack g \<noteq> 1 \<and> ng_ActiveMemberId g \<noteq> 0 \<and>
                list_ex (\<lambda>m. gm_NodeId m = ng_ActiveMemberId g \<and> memberHealthy e m) members then w
             else if gm_NodeId best = ng_ActiveMemberId g then w
             else if ng_LastSwitchTime g \<noteq> 0 \<and> i64 (g_now e - ng_LastSwitchTime g) < failoverDebounceMs
             then w
             else applyGroupSwitch e g best w)"

definition EvaluateFailover :: "genv \<Rightarrow> gworld \<Rightarrow> gworld" where
  "EvaluateFailover e w = fold (evaluateGroupFailover e) (node_groups (gd w)) w"

end
