(* ===== verification/Failover_Props.thy ===== *)
theory Failover_Props
  imports Failover
begin

text \<open>
  Properties of the failover: which member a group is switched to, that it does not flap, that a
  DNS update that fails is not repeated, and the references between groups, members and domains.
\<close>

section \<open>What the operations change\<close>

lemma g_write_gd: "gd (snd (g_write e f w)) = gd w \<or> gd (snd (g_write e f w)) = f (gd w)"
  by (simp add: g_write_def Let_def)

lemma g_exec_gd: "gd (g_exec e f w) = gd w \<or> gd (g_exec e f w) = f (gd w)"
  using g_write_gd by (simp add: g_exec_def)

lemma g_write_ok: "\<forall>n. write_ok e n \<Longrightarrow> gd (snd (g_write e f w)) = f (gd w)"
  by (simp add: g_write_def Let_def)

lemma g_exec_ok: "\<forall>n. write_ok e n \<Longrightarrow> gd (g_exec e f w) = f (gd w)"
  by (simp add: g_exec_def g_write_ok)

lemma WriteSystemLog_gd [simp]:
  "node_groups (gd (WriteSystemLog e a b c w)) = node_groups (gd w)"
  "group_members (gd (WriteSystemLog e a b c w)) = group_members (gd w)"
  "ddns_providers (gd (WriteSystemLog e a b c w)) = ddns_providers (gd w)"
  "ddns_domains (gd (WriteSystemLog e a b c w)) = ddns_domains (gd w)"
  by (simp_all add: WriteSystemLog_def g_exec_def g_write_def Let_def)

lemma exec_domain_gd [simp]:
  "node_groups (gd (g_exec e (set_domain k f) w)) = node_groups (gd w)"
  "group_members (gd (g_exec e (set_domain k f) w)) = group_members (gd w)"
  "ddns_providers (gd (g_exec e (set_domain k f) w)) = ddns_providers (gd w)"
  by (simp_all add: set_domain_def g_exec_def g_write_def Let_def)

lemma exec_group_gd [simp]:
  "group_members (gd (g_exec e (set_group k f) w)) = group_members (gd w)"
  "ddns_providers (gd (g_exec e (set_group k f) w)) = ddns_providers (gd w)"
  "ddns_domains (gd (g_exec e (set_group k f) w)) = ddns_domains (gd w)"
  by (simp_all add: set_group_def g_exec_def g_write_def Let_def)

lemma applyDdnsRecord_gd [simp]:
  "node_groups (gd (snd (applyDdnsRecord e m t w))) = node_groups (gd w)"
  "group_members (gd (snd (applyDdnsRecord e m t w))) = group_members (gd w)"
  by (simp_all add: applyDdnsRecord_def Let_def split: sum.split option.split prod.split)

lemma fold_applyDdnsRecord_gd [simp]:
  "node_groups (gd (fold (\<lambda>m w. snd (applyDdnsRecord e m t w)) ms w)) = node_groups (gd w)"
  "group_members (gd (fold (\<lambda>m w. snd (applyDdnsRecord e m t w)) ms w)) = group_members (gd w)"
  by (induction ms arbitrary: w) simp_all

lemma applyGroupSwitch_members [simp]: "group_members (gd (applyGroupSwitch e g t w)) = group_members (gd w)"
  by (simp add: applyGroupSwitch_def Let_def)

definition switched :: "genv \<Rightarrow> GroupMember \<Rightarrow> NodeGroup \<Rightarrow> NodeGroup" where
  "switched e t r = r\<lparr>ng_ActiveMemberId := gm_NodeId t, ng_LastSwitchTime := g_now e\<rparr>"

lemma applyGroupSwitch_groups:
  "node_groups (gd (applyGroupSwitch e g t w)) =
     (if write_ok e (gops w) then update_where (\<lambda>r. ng_ID r = ng_ID g) (switched e t) (node_groups (gd w))
      else node_groups (gd w))"
  by (simp add: applyGroupSwitch_def Let_def g_exec_def g_write_def set_group_def switched_def [abs_def])

lemma evaluateGroup_members [simp]: "group_members (gd (evaluateGroupFailover e g w)) = group_members (gd w)"
  by (simp add: evaluateGroupFailover_def Let_def split: option.split)

lemma members_of_cong: "group_members d = group_members d' \<Longrightarrow> members_of k d = members_of k d'"
  by (simp add: members_of_def)

lemma set_members_of: "set (members_of k d) = {m \<in> set (group_members d). gm_GroupId m = k}"
  by (simp add: members_of_def)

text \<open>One group's evaluation: nothing, or the switch of its row to the first healthy member.\<close>

definition decides :: "genv \<Rightarrow> NodeGroup \<Rightarrow> GroupMember list \<Rightarrow> GroupMember option" where
  "decides e g members =
     (case firstHealthy e members of
        None \<Rightarrow> None
      | Some best \<Rightarrow>
          if ng_SwitchBack g \<noteq> 1 \<and> ng_ActiveMemberId g \<noteq> 0 \<and>
             list_ex (\<lambda>m. gm_NodeId m = ng_ActiveMemberId g \<and> memberHealthy e m) members then None
          else if gm_NodeId best = ng_ActiveMemberId g then None
          else if ng_LastSwitchTime g \<noteq> 0 \<and> i64 (g_now e - ng_LastSwitchTime g) < failoverDebounceMs
          then None else Some best)"

lemma evaluateGroup_decides:
  "evaluateGroupFailover e g w = (case decides e g (members_of (ng_ID g) (gd w)) of
     None \<Rightarrow> w | Some best \<Rightarrow> applyGroupSwitch e g best w)"
  by (simp add: evaluateGroupFailover_def decides_def firstHealthy_def Let_def split: option.split)

text \<open>A round: every row is switched or not, on its own.\<close>

definition round_row :: "genv \<Rightarrow> gdb \<Rightarrow> NodeGroup \<Rightarrow> NodeGroup" where
  "round_row e d g = (case decides e g (members_of (ng_ID g) d) of None \<Rightarrow> g | Some t \<Rightarrow> switched e t g)"

lemma switched_fields [simp]: "ng_ID (switched e t g) = ng_ID g"
  "ng_ActiveMemberId (switched e t g) = gm_NodeId t" "ng_LastSwitchTime (switched e t g) = g_now e"
  "ng_SwitchBack (switched e t g) = ng_SwitchBack g"
  by (simp_all add: switched_def)

lemma round_row_ID [simp]: "ng_ID (round_row e d g) = ng_ID g"
  by (simp add: round_row_def split: option.split)

lemma round_groups_any:
  assumes "distinct (map ng_ID gs)" and "set gs \<subseteq> set (node_groups (gd w))"
    and "distinct (map ng_ID (node_groups (gd w)))"
  shows "\<exists>S. node_groups (gd (fold (evaluateGroupFailover e) gs w)) =
      map (\<lambda>r. if ng_ID r \<in> S then round_row e (gd w) r else r) (node_groups (gd w)) \<and>
    S \<subseteq> ng_ID ` set gs \<and> ((\<forall>n. write_ok e n) \<longrightarrow> S = ng_ID ` set gs)"
  using assms
proof (induction gs arbitrary: w)
  case Nil
  show ?case by (rule exI [of _ "{}"]) simp
next
  case (Cons g gs)
  let ?w = "evaluateGroupFailover e g w"
  define P where "P (r :: NodeGroup) = (ng_ID r = ng_ID g \<and> (write_ok e (gops w) \<or> decides e g (members_of (ng_ID g) (gd w)) = None))" for r
  have g: "g \<in> set (node_groups (gd w))" using Cons.prems(2) by simp
  have one: "r = g" if "r \<in> set (node_groups (gd w))" "ng_ID r = ng_ID g" for r
    using Cons.prems(3) g that by (simp add: distinct_map inj_on_def)
  have rows: "node_groups (gd ?w) =
      map (\<lambda>r. if P r then round_row e (gd w) r else r) (node_groups (gd w))"
  proof (cases "decides e g (members_of (ng_ID g) (gd w))")
    case None
    then have "(if P r then round_row e (gd w) r else r) = r" if "r \<in> set (node_groups (gd w))" for r
      using one [OF that] by (auto simp: P_def round_row_def)
    then show ?thesis using None by (simp add: evaluateGroup_decides map_idI)
  next
    case (Some t)
    have "(if ng_ID r = ng_ID g then switched e t r else r) = round_row e (gd w) r"
      if "r \<in> set (node_groups (gd w))" "ng_ID r = ng_ID g" for r
      using Some one [OF that] by (simp add: round_row_def)
    then show ?thesis using Some
      by (auto simp: evaluateGroup_decides applyGroupSwitch_groups update_where_def P_def)
  qed
  have same: "round_row e (gd ?w) = round_row e (gd w)"
    using members_of_cong [OF evaluateGroup_members [of e g w]] by (simp add: fun_eq_iff round_row_def)
  have others: "(if P r then round_row e (gd w) r else r) = r" if "ng_ID r \<noteq> ng_ID g" for r :: NodeGroup
    using that by (simp add: P_def)
  have "set gs \<subseteq> set (node_groups (gd ?w))"
  proof
    fix r
    assume r: "r \<in> set gs"
    then have "ng_ID r \<noteq> ng_ID g" using Cons.prems(1) by (metis distinct.simps(2) image_eqI list.simps(9) list.set_map)
    from others [OF this] have "r = (if P r then round_row e (gd w) r else r)" by simp
    moreover have "r \<in> set (node_groups (gd w))" using r Cons.prems(2) by auto
    ultimately show "r \<in> set (node_groups (gd ?w))" unfolding rows set_map by (rule image_eqI)
  qed
  moreover have "distinct (map ng_ID (node_groups (gd ?w)))"
    using Cons.prems(3) unfolding rows by (simp add: comp_def if_distrib cong: if_cong)
  ultimately obtain S where S: "node_groups (gd (fold (evaluateGroupFailover e) gs ?w)) =
      map (\<lambda>r. if ng_ID r \<in> S then round_row e (gd w) r else r) (node_groups (gd ?w))"
    "S \<subseteq> ng_ID ` set gs" "(\<forall>n. write_ok e n) \<longrightarrow> S = ng_ID ` set gs"
    using Cons.IH [of ?w] Cons.prems(1) unfolding same by auto
  let ?S = "S \<union> {k. k = ng_ID g \<and> P g}"
  have ng: "ng_ID g \<notin> S" using S(2) Cons.prems(1) by auto
  have "node_groups (gd (fold (evaluateGroupFailover e) (g # gs) w)) =
      map (\<lambda>r. if ng_ID r \<in> ?S then round_row e (gd w) r else r) (node_groups (gd w))"
  proof -
    have "(if ng_ID (if P r then round_row e (gd w) r else r) \<in> S
             then round_row e (gd w) (if P r then round_row e (gd w) r else r)
             else if P r then round_row e (gd w) r else r) =
          (if ng_ID r \<in> ?S then round_row e (gd w) r else r)" for r :: NodeGroup
      using ng by (auto simp: P_def)
    then show ?thesis by (simp add: S(1) rows)
  qed
  moreover have "?S \<subseteq> ng_ID ` set (g # gs)" using S(2) by auto
  moreover have "(\<forall>n. write_ok e n) \<longrightarrow> ?S = ng_ID ` set (g # gs)" using S(3) by (auto simp: P_def)
  ultimately show ?case by blast
qed

section \<open>Which member a group is switched to\<close>

text \<open>Keys are unique and the switch times are times of day as \<open>int64\<close> holds them.\<close>

definition groups_wf :: "gworld \<Rightarrow> bool" where
  "groups_wf w \<longleftrightarrow> distinct (map ng_ID (node_groups (gd w))) \<and>
     (\<forall>g \<in> set (node_groups (gd w)). 0 \<le> ng_LastSwitchTime g \<and> ng_LastSwitchTime g < 2 ^ 63)"

lemma round_all:
  assumes "groups_wf w" and "\<forall>n. write_ok e n"
  shows "node_groups (gd (EvaluateFailover e w)) = map (round_row e (gd w)) (node_groups (gd w))"
proof -
  have d: "distinct (map ng_ID (node_groups (gd w)))" using assms(1) by (simp add: groups_wf_def)
  from round_groups_any [OF d order_refl d, of e] assms(2) show ?thesis by (auto simp: EvaluateFailover_def)
qed

lemma find_least:
  "find p (sort_key f xs) = Some x \<Longrightarrow> x \<in> set xs \<and> p x \<and> (\<forall>y \<in> set xs. p y \<longrightarrow> f x \<le> f y)"
proof -
  have least: "find p ys = Some x \<Longrightarrow> sorted (map f ys) \<Longrightarrow>
      x \<in> set ys \<and> p x \<and> (\<forall>y \<in> set ys. p y \<longrightarrow> f x \<le> f y)" for ys
    by (induction ys) (auto split: if_splits)
  assume "find p (sort_key f xs) = Some x"
  from least [OF this] show ?thesis by simp
qed

lemma firstHealthy_members:
  assumes "firstHealthy e (members_of k d) = Some m"
  shows "m \<in> set (members_of k d)" and "memberHealthy e m"
    and "m' \<in> set (members_of k d) \<Longrightarrow> memberHealthy e m' \<Longrightarrow> gm_Priority m \<le> gm_Priority m'"
proof -
  have "find (memberHealthy e) (sort_key gm_Priority (find_where (\<lambda>m. gm_GroupId m = k) (group_members d))) = Some m"
    using assms by (simp add: firstHealthy_def members_of_def order_by_def)
  note L = find_least [OF this]
  show "m \<in> set (members_of k d)" "memberHealthy e m" using L by (auto simp: set_members_of)
  show "m' \<in> set (members_of k d) \<Longrightarrow> memberHealthy e m' \<Longrightarrow> gm_Priority m \<le> gm_Priority m'"
    using L by (auto simp: set_members_of)
qed

text \<open>C13: After a failover round every group that is past its debounce interval and has an online
  member points at an online member; with switch-back it is one of the online members of the
  highest priority.\<close>

theorem failover_finds_healthy:
  assumes "groups_wf w" and "\<forall>n. write_ok e n" and "g \<in> set (node_groups (gd w))"
    and "\<exists>m \<in> set (members_of (ng_ID g) (gd w)). memberHealthy e m"
    and "ng_LastSwitchTime g = 0 \<or> ng_LastSwitchTime g + failoverDebounceMs \<le> g_now e"
    and "g_now e < 2 ^ 63"
  shows "\<exists>r \<in> set (node_groups (gd (EvaluateFailover e w))). ng_ID r = ng_ID g \<and>
    (\<exists>m \<in> set (members_of (ng_ID g) (gd w)). gm_NodeId m = ng_ActiveMemberId r \<and> memberHealthy e m \<and>
      (ng_SwitchBack g = 1 \<longrightarrow> (\<forall>m' \<in> set (members_of (ng_ID g) (gd w)).
        memberHealthy e m' \<longrightarrow> gm_Priority m \<le> gm_Priority m')))"
proof -
  let ?ms = "members_of (ng_ID g) (gd w)" and ?r = "round_row e (gd w) g"
  obtain best where best: "firstHealthy e ?ms = Some best"
    using assms(4) by (cases "firstHealthy e ?ms") (auto simp: firstHealthy_def find_None_iff)
  note B = firstHealthy_members [OF best]
  have r: "?r \<in> set (node_groups (gd (EvaluateFailover e w)))"
    unfolding round_all [OF assms(1,2)] using assms(3) by simp
  have late: "\<not> (ng_LastSwitchTime g \<noteq> 0 \<and> i64 (g_now e - ng_LastSwitchTime g) < failoverDebounceMs)"
    using assms(1,3,5,6) by (auto simp: groups_wf_def i64_id failoverDebounceMs_def)
  have "(\<exists>m \<in> set ?ms. gm_NodeId m = ng_ActiveMemberId ?r \<and> memberHealthy e m \<and>
      (ng_SwitchBack g = 1 \<longrightarrow> (\<forall>m' \<in> set ?ms. memberHealthy e m' \<longrightarrow> gm_Priority m \<le> gm_Priority m')))"
  proof (cases "ng_SwitchBack g \<noteq> 1 \<and> ng_ActiveMemberId g \<noteq> 0 \<and>
      list_ex (\<lambda>m. gm_NodeId m = ng_ActiveMemberId g \<and> memberHealthy e m) ?ms")
    case True
    then have "?r = g" using best by (simp add: round_row_def decides_def)
    with True show ?thesis by (auto simp: list_ex_iff)
  next
    case False
    then have "ng_ActiveMemberId ?r = gm_NodeId best"
      using best late by (auto simp: round_row_def decides_def)
    with B show ?thesis by auto
  qed
  with r show ?thesis by (intro bexI [of _ ?r]) simp_all
qed

section \<open>No flapping\<close>

definition active_of :: "int \<Rightarrow> gworld \<Rightarrow> int option" where
  "active_of k w = map_option ng_ActiveMemberId (group_tbl.by_key k (gd w))"

text \<open>The times of the rounds that changed the active member of a group.\<close>

fun switch_times :: "int \<Rightarrow> genv list \<Rightarrow> gworld \<Rightarrow> int list" where
  "switch_times k [] w = []"
| "switch_times k (e # es) w =
     (if active_of k (EvaluateFailover e w) \<noteq> active_of k w then [g_now e] else []) @
     switch_times k es (EvaluateFailover e w)"

lemma find_map_key:
  "(\<And>r. ng_ID (f r) = ng_ID r) \<Longrightarrow> find (\<lambda>r. ng_ID r = k) (map f gs) = map_option f (find (\<lambda>r. ng_ID r = k) gs)"
  by (induction gs) auto

text \<open>In a round the row of a group stays as it is, or it is switched at that time.\<close>

lemma round_cases:
  assumes "groups_wf w" and "0 < g_now e" and "g_now e < 2 ^ 63"
  shows "groups_wf (EvaluateFailover e w)"
    and "group_tbl.by_key k (gd (EvaluateFailover e w)) = group_tbl.by_key k (gd w) \<or>
    (\<exists>g t. group_tbl.by_key k (gd w) = Some g \<and>
       group_tbl.by_key k (gd (EvaluateFailover e w)) = Some (switched e t g) \<and>
       gm_NodeId t \<noteq> ng_ActiveMemberId g \<and>
       (0 < ng_LastSwitchTime g \<longrightarrow> ng_LastSwitchTime g + failoverDebounceMs \<le> g_now e))"
proof -
  have d: "distinct (map ng_ID (node_groups (gd w)))" using assms(1) by (simp add: groups_wf_def)
  from round_groups_any [OF d order_refl d, of e] obtain S where
    S: "node_groups (gd (EvaluateFailover e w)) =
      map (\<lambda>r. if ng_ID r \<in> S then round_row e (gd w) r else r) (node_groups (gd w))"
    by (auto simp: EvaluateFailover_def)
  have row: "0 \<le> ng_LastSwitchTime (round_row e (gd w) g) \<and> ng_LastSwitchTime (round_row e (gd w) g) < 2 ^ 63"
    if "g \<in> set (node_groups (gd w))" for g
  proof -
    have "0 \<le> ng_LastSwitchTime g \<and> ng_LastSwitchTime g < 2 ^ 63"
      using assms(1) that unfolding groups_wf_def by blast
    then show ?thesis using assms(2,3) by (simp add: round_row_def split: option.split)
  qed
  have "distinct (map ng_ID (node_groups (gd (EvaluateFailover e w))))"
    using d by (simp add: S comp_def if_distrib cong: if_cong)
  moreover have "0 \<le> ng_LastSwitchTime g \<and> ng_LastSwitchTime g < 2 ^ 63"
    if g: "g \<in> set (node_groups (gd (EvaluateFailover e w)))" for g
  proof -
    obtain r where r: "g = (if ng_ID r \<in> S then round_row e (gd w) r else r)" "r \<in> set (node_groups (gd w))"
      using g unfolding S set_map by (rule imageE)
    have "0 \<le> ng_LastSwitchTime r \<and> ng_LastSwitchTime r < 2 ^ 63"
      using assms(1) r(2) unfolding groups_wf_def by blast
    then show ?thesis using row [OF r(2)] unfolding r(1) by (simp split: if_split)
  qed
  ultimately show "groups_wf (EvaluateFailover e w)" by (simp add: groups_wf_def)
  have key: "group_tbl.by_key k (gd (EvaluateFailover e w)) =
      map_option (\<lambda>r. if ng_ID r \<in> S then round_row e (gd w) r else r) (group_tbl.by_key k (gd w))"
    unfolding S first_where_def by (rule find_map_key) simp
  show "group_tbl.by_key k (gd (EvaluateFailover e w)) = group_tbl.by_key k (gd w) \<or>
    (\<exists>g t. group_tbl.by_key k (gd w) = Some g \<and>
       group_tbl.by_key k (gd (EvaluateFailover e w)) = Some (switched e t g) \<and>
       gm_NodeId t \<noteq> ng_ActiveMemberId g \<and>
       (0 < ng_LastSwitchTime g \<longrightarrow> ng_LastSwitchTime g + failoverDebounceMs \<le> g_now e))"
  proof (cases "group_tbl.by_key k (gd w)")
    case None
    with key show ?thesis by simp
  next
    case (Some g)
    then have g: "g \<in> set (node_groups (gd w))" using group_tbl.by_key_Some by blast
    show ?thesis
    proof (cases "ng_ID g \<in> S \<and> decides e g (members_of (ng_ID g) (gd w)) \<noteq> None")
      case False
      with key Some show ?thesis by (auto simp: round_row_def split: option.splits)
    next
      case True
      then obtain t where t: "decides e g (members_of (ng_ID g) (gd w)) = Some t" by auto
      then have "gm_NodeId t \<noteq> ng_ActiveMemberId g"
        and late: "ng_LastSwitchTime g = 0 \<or> failoverDebounceMs \<le> i64 (g_now e - ng_LastSwitchTime g)"
        by (auto simp: decides_def split: option.splits if_splits)
      moreover have "i64 (g_now e - ng_LastSwitchTime g) = g_now e - ng_LastSwitchTime g"
        using assms g by (auto simp: groups_wf_def intro!: i64_id)
      ultimately show ?thesis using key Some True t by (auto simp: round_row_def)
    qed
  qed
qed

lemma switch_times_after:
  "groups_wf w \<Longrightarrow> \<forall>e \<in> set es. 0 < g_now e \<and> g_now e < 2 ^ 63 \<Longrightarrow> sorted (map g_now es) \<Longrightarrow>
   group_tbl.by_key k (gd w) = Some g \<Longrightarrow> 0 < ng_LastSwitchTime g \<Longrightarrow>
   \<forall>t \<in> set (switch_times k es w). ng_LastSwitchTime g + failoverDebounceMs \<le> t"
proof (induction es arbitrary: w g)
  case (Cons e es)
  note c = round_cases [OF Cons.prems(1), of e]
  have e: "0 < g_now e" "g_now e < 2 ^ 63" using Cons.prems(2) by simp_all
  have IH: "group_tbl.by_key k (gd (EvaluateFailover e w)) = Some g' \<Longrightarrow> 0 < ng_LastSwitchTime g' \<Longrightarrow>
      \<forall>t \<in> set (switch_times k es (EvaluateFailover e w)). ng_LastSwitchTime g' + failoverDebounceMs \<le> t" for g'
    using Cons.IH [OF c(1) [OF e]] Cons.prems(2,3) by simp
  from c(2) [OF e, of k] Cons.prems(4) consider
    "group_tbl.by_key k (gd (EvaluateFailover e w)) = Some g" |
    t where "group_tbl.by_key k (gd (EvaluateFailover e w)) = Some (switched e t g)"
      "0 < ng_LastSwitchTime g \<longrightarrow> ng_LastSwitchTime g + failoverDebounceMs \<le> g_now e" by auto
  then show ?case
  proof cases
    case 1
    with IH [OF 1] Cons.prems(4,5) show ?thesis by (simp add: active_of_def)
  next
    case 2
    have "ng_LastSwitchTime g + failoverDebounceMs \<le> g_now e" using 2(2) Cons.prems(5) by simp
    moreover have "\<forall>t \<in> set (switch_times k es (EvaluateFailover e w)). g_now e + failoverDebounceMs \<le> t"
      using IH [OF 2(1)] e(1) by simp
    moreover have "0 \<le> failoverDebounceMs" by (simp add: failoverDebounceMs_def)
    ultimately show ?thesis using Cons.prems(5) by force
  qed
qed simp

text \<open>Property: A group does not flap: over any sequence of rounds at increasing times, with nodes going
  up and down and statements failing as they may, two changes of its active member are at least
  the debounce interval apart.\<close>

theorem failover_never_flaps:
  assumes "groups_wf w" and "\<forall>e \<in> set es. 0 < g_now e \<and> g_now e < 2 ^ 63" and "sorted (map g_now es)"
  shows "sorted_wrt (\<lambda>s t. s + failoverDebounceMs \<le> t) (switch_times k es w)"
  using assms
proof (induction es arbitrary: w)
  case (Cons e es)
  have e: "0 < g_now e" "g_now e < 2 ^ 63" using Cons.prems(2) by simp_all
  note c = round_cases [OF Cons.prems(1) e]
  let ?w = "EvaluateFailover e w"
  have rest: "sorted_wrt (\<lambda>s t. s + failoverDebounceMs \<le> t) (switch_times k es ?w)"
    by (rule Cons.IH [OF c(1)]) (use Cons.prems in auto)
  show ?case
  proof (cases "active_of k ?w = active_of k w")
    case True
    with rest show ?thesis by simp
  next
    case False
    then obtain g t where "group_tbl.by_key k (gd ?w) = Some (switched e t g)"
      using c(2) [of k] by (auto simp: active_of_def)
    from switch_times_after [OF c(1) _ _ this, of es] Cons.prems e
    have "\<forall>t \<in> set (switch_times k es ?w). g_now e + failoverDebounceMs \<le> t" by simp
    with False rest show ?thesis by simp
  qed
qed simp

section \<open>DNS updates that fail\<close>

lemma applyDdnsRecord_failing:
  assumes "\<forall>n req. SetRecord e n req \<noteq> None"
  shows "ddns_domains (gd (snd (applyDdnsRecord e m t w))) = ddns_domains (gd w)"
proof -
  have no: "SetRecord e n req = None \<Longrightarrow> P" for n req P using assms by blast
  show ?thesis
    by (simp add: applyDdnsRecord_def Let_def split: sum.split option.split prod.split) (blast intro: no)
qed

lemma evaluateGroup_failing:
  assumes "\<forall>n req. SetRecord e n req \<noteq> None"
  shows "ddns_domains (gd (evaluateGroupFailover e g w)) = ddns_domains (gd w)"
proof -
  have "ddns_domains (gd (fold (\<lambda>m w. snd (applyDdnsRecord e m t w)) ms w)) = ddns_domains (gd w)" for t ms w
    by (induction ms arbitrary: w) (simp_all add: applyDdnsRecord_failing [OF assms])
  then show ?thesis
    by (simp add: evaluateGroup_decides applyGroupSwitch_def Let_def split: option.split)
qed

lemma settled:
  assumes best: "firstHealthy e (members_of (ng_ID g) d) = Some best"
    and late: "ng_LastSwitchTime g = 0 \<or> failoverDebounceMs \<le> i64 (g_now e - ng_LastSwitchTime g)"
    and same: "g_online e' = g_online e"
  shows "decides e' (round_row e d g) (members_of (ng_ID g) d) = None"
proof -
  have e': "memberHealthy e' = memberHealthy e" using same by (simp add: memberHealthy_def fun_eq_iff)
  then have best': "firstHealthy e' (members_of (ng_ID g) d) = Some best" using best by (simp add: firstHealthy_def)
  show ?thesis
  proof (cases "decides e g (members_of (ng_ID g) d)")
    case None
    then have "round_row e d g = g" by (simp add: round_row_def)
    moreover have "decides e' g (members_of (ng_ID g) d) = None"
      using None best best' late e' by (auto simp: decides_def split: if_splits)
    ultimately show ?thesis by simp
  next
    case (Some t)
    then have "t = best" using best by (auto simp: decides_def split: if_splits)
    then show ?thesis using Some best' by (simp add: round_row_def decides_def [of e'])
  qed
qed

text \<open>Property: A DNS update that fails during a switch is not repeated. When the registrars refuse the
  updates of a round, the groups are switched and the domains keep their old record, and every
  later round does nothing at all as long as the same nodes are online, even when the
  registrars work again.\<close>

theorem failed_dns_update_not_repeated:
  assumes "groups_wf w" and "\<forall>n. write_ok e n" and "\<forall>n req. SetRecord e n req \<noteq> None"
    and "\<forall>g \<in> set (node_groups (gd w)). firstHealthy e (members_of (ng_ID g) (gd w)) \<noteq> None \<and>
      (ng_LastSwitchTime g = 0 \<or> ng_LastSwitchTime g + failoverDebounceMs \<le> g_now e)"
    and "g_now e < 2 ^ 63" and "g_online e' = g_online e"
  shows "ddns_domains (gd (EvaluateFailover e w)) = ddns_domains (gd w) \<and>
    EvaluateFailover e' (EvaluateFailover e w) = EvaluateFailover e w"
proof
  have dom: "ddns_domains (gd (fold (evaluateGroupFailover e) gs w)) = ddns_domains (gd w)" for gs w
    by (induction gs arbitrary: w) (simp_all add: evaluateGroup_failing [OF assms(3)])
  then show "ddns_domains (gd (EvaluateFailover e w)) = ddns_domains (gd w)" by (simp add: EvaluateFailover_def)
  have mem: "group_members (gd (fold (evaluateGroupFailover e) gs w)) = group_members (gd w)" for gs w
    by (induction gs arbitrary: w) simp_all
  let ?w = "EvaluateFailover e w"
  have members: "members_of k (gd ?w) = members_of k (gd w)" for k
    by (rule members_of_cong) (simp add: EvaluateFailover_def mem)
  have quiet: "evaluateGroupFailover e' r ?w = ?w" if r: "r \<in> set (node_groups (gd ?w))" for r
  proof -
    obtain g where g: "r = round_row e (gd w) g" "g \<in> set (node_groups (gd w))"
      using r unfolding round_all [OF assms(1,2)] set_map by (rule imageE)
    then obtain best where best: "firstHealthy e (members_of (ng_ID g) (gd w)) = Some best"
      and l: "ng_LastSwitchTime g = 0 \<or> ng_LastSwitchTime g + failoverDebounceMs \<le> g_now e"
      using assms(4) by auto
    have "ng_LastSwitchTime g = 0 \<or> failoverDebounceMs \<le> i64 (g_now e - ng_LastSwitchTime g)"
      using l g(2) assms(1,5) by (auto simp: groups_wf_def failoverDebounceMs_def i64_id)
    from settled [OF best this assms(6)] g(1) show ?thesis
      by (simp add: evaluateGroup_decides members)
  qed
  have "fold (evaluateGroupFailover e') gs ?w = ?w" if "set gs \<subseteq> set (node_groups (gd ?w))" for gs
    using that by (induction gs) (simp_all add: quiet)
  then show "EvaluateFailover e' ?w = ?w" by (simp add: EvaluateFailover_def [of e'])
qed

section \<open>References\<close>

text \<open>Any operation of these components, in any environment.\<close>

inductive g_step :: "gworld \<Rightarrow> gworld \<Rightarrow> bool" where
  "g_step w (snd (CreateGroup e d w))"
| "g_step w (snd (UpdateGroup e du w))"
| "g_step w (snd (DeleteGroup e k w))"
| "g_step w (snd (UpdateGroupOrder e items w))"
| "g_step w (snd (CreateDdnsProvider e dp w))"
| "g_step w (snd (UpdateDdnsProvider e k nm cred w))"
| "g_step w (snd (DeleteDdnsProvider e k w))"
| "g_step w (snd (CreateDdnsDomain e dd w))"
| "g_step w (snd (UpdateDdnsDomain e ddu w))"
| "g_step w (snd (DeleteDdnsDomain e k w))"
| "g_step w (snd (ResolveDdnsDomain e k w))"
| "g_step w (EvaluateFailover e w)"

text \<open>Every member and every domain belongs to a group of the table.\<close>

definition refs_ok :: "gdb \<Rightarrow> bool" where
  "refs_ok d \<longleftrightarrow> gm_GroupId ` set (group_members d) \<subseteq> ng_ID ` set (node_groups d) \<and>
     dd_GroupId ` set (ddns_domains d) \<subseteq> ng_ID ` set (node_groups d)"

lemma refs_ok_updates [simp]:
  "refs_ok (ddns_providers_update f d) = refs_ok d" "refs_ok (provider_seq_update h d) = refs_ok d"
  "refs_ok (domain_seq_update h d) = refs_ok d" "refs_ok (group_seq_update h d) = refs_ok d"
  "refs_ok (member_seq_update h d) = refs_ok d" "refs_ok (system_logs_update l d) = refs_ok d"
  by (simp_all add: refs_ok_def)

lemma delete_refs:
  "refs_ok d \<Longrightarrow> refs_ok (ddns_domains_update (delete_where p) d)"
  "refs_ok d \<Longrightarrow> \<forall>r \<in> set (ddns_domains d). dd_GroupId r \<noteq> k \<Longrightarrow>
     refs_ok (node_groups_update (delete_where (\<lambda>g. ng_ID g = k))
       (group_members_update (delete_where (\<lambda>m. gm_GroupId m = k)) d))"
proof -
  show "refs_ok d \<Longrightarrow> refs_ok (ddns_domains_update (delete_where p) d)" by (auto simp: refs_ok_def)
  have other: "ng_ID ` {g \<in> S. ng_ID g \<noteq> k} = ng_ID ` S - {k}" for S :: "NodeGroup set" by auto
  show "refs_ok (node_groups_update (delete_where (\<lambda>g. ng_ID g = k))
      (group_members_update (delete_where (\<lambda>m. gm_GroupId m = k)) d))"
    if "refs_ok d" "\<forall>r \<in> set (ddns_domains d). dd_GroupId r \<noteq> k"
    using that by (auto simp: refs_ok_def other)
qed

lemma insert_domain_refs:
  "refs_ok d \<Longrightarrow> dd_GroupId r \<in> ng_ID ` set (node_groups d) \<Longrightarrow>
   refs_ok (d\<lparr>ddns_domains := insert_row r (ddns_domains d)\<rparr>)"
  by (auto simp: refs_ok_def)

lemma g_steps_gd: "fst (g_steps e fs w) \<Longrightarrow> gd (snd (g_steps e fs w)) = fold (\<lambda>f. f) fs (gd w)"
  by (induction fs arbitrary: w) (auto simp: g_write_def Let_def)

lemma g_transaction_gd:
  "gd (snd (g_transaction e fs w)) = gd w \<or> gd (snd (g_transaction e fs w)) = fold (\<lambda>f. f) fs (gd w)"
  using g_steps_gd [of e "fs @ [\<lambda>d. d]" w]
  by (auto simp: g_transaction_def Let_def split: prod.split)

text \<open>A transaction keeps what its statements together keep.\<close>

lemma g_transaction_inv: "P (gd w) \<Longrightarrow> P (fold (\<lambda>f. f) fs (gd w)) \<Longrightarrow> P (gd (snd (g_transaction e fs w)))"
  using g_transaction_gd [of e fs w] by auto

lemma g_exec_inv: "P (gd w) \<Longrightarrow> P (f (gd w)) \<Longrightarrow> P (gd (g_exec e f w))"
  using g_exec_gd [of e f w] by auto

lemma g_write_inv: "P (gd w) \<Longrightarrow> P (f (gd w)) \<Longrightarrow> P (gd (snd (g_write e f w)))"
  using g_write_gd [of e f w] by auto

lemma fold_insertMember:
  "node_groups (fold (\<lambda>f. f) (map (\<lambda>m. insertMember (F m)) ms) d) = node_groups d \<and>
   ddns_domains (fold (\<lambda>f. f) (map (\<lambda>m. insertMember (F m)) ms) d) = ddns_domains d \<and>
   gm_GroupId ` set (group_members (fold (\<lambda>f. f) (map (\<lambda>m. insertMember (F m)) ms) d)) =
     gm_GroupId ` set (group_members d) \<union> (gm_GroupId \<circ> F) ` set ms"
  by (induction ms arbitrary: d) (auto simp: insertMember_def)

lemma replaceGroupMembers_refs:
  "refs_ok d \<Longrightarrow> k \<in> ng_ID ` set (node_groups d) \<Longrightarrow> refs_ok (fold (\<lambda>f. f) (replaceGroupMembers e k ms) d)"
proof -
  assume d: "refs_ok d" "k \<in> ng_ID ` set (node_groups d)"
  let ?F = "\<lambda>m. \<lparr>gm_ID = 0, gm_GroupId = k, gm_NodeId = gmd_NodeId m, gm_MemberIp = gmd_MemberIp m,
    gm_Priority = gmd_Priority m, gm_CreatedTime = g_now e, gm_UpdatedTime = g_now e\<rparr>"
  let ?d = "group_members_update (delete_where (\<lambda>m. gm_GroupId m = k)) d"
  have "fold (\<lambda>f. f) (replaceGroupMembers e k ms) d = fold (\<lambda>f. f) (map (\<lambda>m. insertMember (?F m)) ms) ?d"
    by (simp add: replaceGroupMembers_def)
  then show ?thesis
    using d fold_insertMember [of ?F ms ?d] by (auto simp: refs_ok_def)
qed

lemma set_group_refs: "(\<And>g. ng_ID g = k \<Longrightarrow> ng_ID (f g) = ng_ID g) \<Longrightarrow> refs_ok (set_group k f d) = refs_ok d"
proof -
  assume "\<And>g. ng_ID g = k \<Longrightarrow> ng_ID (f g) = ng_ID g"
  then have "ng_ID \<circ> (\<lambda>r. if ng_ID r = k then f r else r) = ng_ID" by (simp add: fun_eq_iff)
  then have "ng_ID ` set (node_groups (set_group k f d)) = ng_ID ` set (node_groups d)"
    by (simp add: set_group_def set_update_where image_comp del: if_image_distrib)
  then show ?thesis by (simp add: refs_ok_def set_group_def)
qed

lemma set_domain_refs:
  "(\<And>r. r \<in> set (ddns_domains d) \<Longrightarrow> dd_ID r = k \<Longrightarrow> dd_GroupId (f r) \<in> ng_ID ` set (node_groups d)) \<Longrightarrow>
   refs_ok d \<Longrightarrow> refs_ok (set_domain k f d)"
  by (auto simp: refs_ok_def set_domain_def set_update_where)

lemma apply_refs:
  assumes m: "m \<in> set (ddns_domains (gd w0))" and d: "refs_ok (gd w0)"
    and w: "node_groups (gd w) = node_groups (gd w0)" and r: "refs_ok (gd w)"
  shows "refs_ok (gd (snd (applyDdnsRecord e m t w)))"
proof -
  have grp: "dd_GroupId m \<in> ng_ID ` set (node_groups (gd w))" using m d w by (auto simp: refs_ok_def)
  have log: "refs_ok (gd (WriteSystemLog e a b c w)) = refs_ok (gd w)" for a b c w
    by (simp add: refs_ok_def)
  have "refs_ok (gd (g_exec e (set_domain k (\<lambda>_. m\<lparr>dd_CurrentRecord := ip, dd_CurrentMemberId := i,
      dd_UpdatedTime := g_now e\<rparr>)) (w\<lparr>dns_sent := s\<rparr>)))" for k ip i s
    by (rule g_exec_inv) (use r grp in \<open>auto intro!: set_domain_refs\<close>)
  then show ?thesis using r by (simp add: applyDdnsRecord_def Let_def log split: sum.split option.split prod.split)
qed

lemma switch_refs: "refs_ok (gd w) \<Longrightarrow> refs_ok (gd (applyGroupSwitch e g t w))"
proof -
  assume d: "refs_ok (gd w)"
  let ?set = "g_exec e (set_group (ng_ID g) (\<lambda>r. r\<lparr>ng_ActiveMemberId := gm_NodeId t, ng_LastSwitchTime := g_now e\<rparr>)) w"
  define w1 where "w1 = WriteSystemLog e ''failover'' ''info'' (ng_Name g @ '' -> '' @
    (case GetNodeById (g_panel e) (gm_NodeId t) of Some n \<Rightarrow> n_Name n | None \<Rightarrow> [])) ?set"
  have "refs_ok (gd ?set)" by (rule g_exec_inv) (use d in \<open>simp_all add: set_group_refs\<close>)
  then have w1: "refs_ok (gd w1)" by (simp add: w1_def refs_ok_def)
  have "refs_ok (gd (fold (\<lambda>m w. snd (applyDdnsRecord e m t w)) ms w2))"
    if "set ms \<subseteq> set (ddns_domains (gd w1))" "refs_ok (gd w2)" "node_groups (gd w2) = node_groups (gd w1)" for ms w2
    using that
  proof (induction ms arbitrary: w2)
    case (Cons m ms)
    have "refs_ok (gd (snd (applyDdnsRecord e m t w2)))"
      by (rule apply_refs [OF _ w1]) (use Cons.prems in auto)
    with Cons show ?case by simp
  qed simp
  then have "refs_ok (gd (fold (\<lambda>m w. snd (applyDdnsRecord e m t w))
      (find_where (\<lambda>m. dd_GroupId m = ng_ID g \<and> dd_AutoResolve m = 1) (ddns_domains (gd w1))) w1))"
    using w1 by (metis (no_types, lifting) mem_Collect_eq set_find_where subsetI)
  then show ?thesis unfolding applyGroupSwitch_def Let_def w1_def .
qed

lemma failover_refs: "refs_ok (gd w) \<Longrightarrow> refs_ok (gd (EvaluateFailover e w))"
proof -
  have "refs_ok (gd w) \<Longrightarrow> refs_ok (gd (fold (evaluateGroupFailover e) gs w))" for gs
    by (induction gs arbitrary: w) (simp_all add: evaluateGroup_decides switch_refs split: option.split)
  then show "refs_ok (gd w) \<Longrightarrow> ?thesis" by (simp add: EvaluateFailover_def)
qed

lemma group_refs:
  assumes "refs_ok (gd w)"
  shows "refs_ok (gd (snd (CreateGroup e d w)))" and "refs_ok (gd (snd (UpdateGroup e du w)))"
    and "refs_ok (gd (snd (DeleteGroup e k w)))" and "refs_ok (gd (snd (UpdateGroupOrder e items w)))"
proof -
  have ins: "refs_ok (insertGroup g d)" "group_seq d \<in> ng_ID ` set (node_groups (insertGroup g d))" if "refs_ok d" for g d
    using that by (auto simp: insertGroup_def refs_ok_def)
  show "refs_ok (gd (snd (CreateGroup e d w)))"
  proof -
    have "refs_ok (fold (\<lambda>f. f) (insertGroup g # replaceGroupMembers e (group_seq (gd w)) ms) (gd w))" for g ms
      using replaceGroupMembers_refs [OF ins(1) ins(2)] assms by simp
    then have "refs_ok (gd (snd (g_transaction e (insertGroup g # replaceGroupMembers e (group_seq (gd w)) ms) w)))" for g ms
      using assms by (intro g_transaction_inv [where P = refs_ok])
    then show ?thesis using assms by (simp add: CreateGroup_def Let_def case_prod_beta)
  qed
  show "refs_ok (gd (snd (UpdateGroup e du w)))"
  proof (cases "group_tbl.by_key (gud_ID du) (gd w)")
    case None
    then show ?thesis using assms by (simp add: UpdateGroup_def)
  next
    case (Some g)
    let ?g = "updated_group e du g"
    have id: "ng_ID ?g = ng_ID g" by (simp add: updated_group_def Let_def split: option.split)
    have r: "refs_ok (set_group (ng_ID g) (\<lambda>_. ?g) (gd w))" using assms id by (simp add: set_group_refs)
    have "g \<in> set (node_groups (gd w))" using group_tbl.by_key_Some [OF Some] by simp
    then have "?g \<in> set (node_groups (set_group (ng_ID g) (\<lambda>_. ?g) (gd w)))"
      by (auto simp: set_group_def set_update_where)
    then have "ng_ID g \<in> ng_ID ` set (node_groups (set_group (ng_ID g) (\<lambda>_. ?g) (gd w)))"
      by (rule image_eqI [rotated]) (simp add: id)
    with r have "refs_ok (fold (\<lambda>f. f) (set_group (ng_ID g) (\<lambda>_. ?g) #
       (case gud_Members du of None \<Rightarrow> [] | Some ms \<Rightarrow> replaceGroupMembers e (ng_ID g) ms)) (gd w))"
      by (auto simp: replaceGroupMembers_refs split: option.split)
    note g_transaction_inv [where P = refs_ok, OF assms this]
    then show ?thesis by (simp add: UpdateGroup_def Some Let_def case_prod_beta)
  qed
  show "refs_ok (gd (snd (DeleteGroup e k w)))"
  proof (cases "0 < count_where (\<lambda>dm. dd_GroupId dm = k) (ddns_domains (gd w))")
    case True
    then show ?thesis using assms by (simp add: DeleteGroup_def)
  next
    case False
    then have "\<forall>r \<in> set (ddns_domains (gd w)). dd_GroupId r \<noteq> k" by (simp add: count_where_pos)
    then have "refs_ok (gd (snd (g_transaction e [group_members_update (delete_where (\<lambda>m. gm_GroupId m = k)),
        node_groups_update (delete_where (\<lambda>g. ng_ID g = k))] w)))"
      using assms delete_refs(2) by (intro g_transaction_inv [where P = refs_ok]) simp_all
    with False show ?thesis by (simp add: DeleteGroup_def Let_def case_prod_beta)
  qed
  have "refs_ok (gd (fold (\<lambda>(k, i). g_exec e (set_group k (\<lambda>g. g\<lparr>ng_Inx := i\<rparr>))) items w))"
    using assms
  proof (induction items arbitrary: w)
    case (Cons x items)
    obtain k i where x: "x = (k, i)" by (cases x)
    have "refs_ok (gd (g_exec e (set_group k (\<lambda>g. g\<lparr>ng_Inx := i\<rparr>)) w))"
      by (rule g_exec_inv [where P = refs_ok, OF Cons.prems]) (use Cons.prems in \<open>simp add: set_group_refs\<close>)
    from Cons.IH [OF this] show ?case by (simp add: x)
  qed simp
  then show "refs_ok (gd (snd (UpdateGroupOrder e items w)))" by (simp add: UpdateGroupOrder_def)
qed

lemma domain_refs:
  assumes "refs_ok (gd w)"
  shows "refs_ok (gd (snd (CreateDdnsProvider e dp w)))" and "refs_ok (gd (snd (UpdateDdnsProvider e k nm cred w)))"
    and "refs_ok (gd (snd (DeleteDdnsProvider e k w)))" and "refs_ok (gd (snd (CreateDdnsDomain e dd w)))"
    and "refs_ok (gd (snd (UpdateDdnsDomain e ddu w)))" and "refs_ok (gd (snd (DeleteDdnsDomain e k w)))"
    and "refs_ok (gd (snd (ResolveDdnsDomain e k w)))"
proof -
  show "refs_ok (gd (snd (CreateDdnsProvider e dp w)))"
    using assms by (simp add: CreateDdnsProvider_def Let_def case_prod_beta g_write_inv split: option.split)
  show "refs_ok (gd (snd (UpdateDdnsProvider e k nm cred w)))"
    using assms by (simp add: UpdateDdnsProvider_def Let_def g_exec_inv split: option.split)
  show "refs_ok (gd (snd (DeleteDdnsProvider e k w)))"
    using assms by (simp add: DeleteDdnsProvider_def g_exec_inv)
  show "refs_ok (gd (snd (CreateDdnsDomain e dd w)))"
  proof (cases "group_tbl.by_key (ddd_GroupId dd) (gd w)")
    case None
    then show ?thesis using assms by (simp add: CreateDdnsDomain_def)
  next
    case (Some g)
    then have "ddd_GroupId dd \<in> ng_ID ` set (node_groups (gd w))"
      using group_tbl.by_key_Some [OF Some] by force
    then have "refs_ok (gd (snd (g_write e (\<lambda>db. db\<lparr>ddns_domains := insert_row (r db) (ddns_domains db),
        domain_seq := domain_seq db + 1\<rparr>) w)))" if "\<And>db. dd_GroupId (r db) = ddd_GroupId dd" for r
      by (intro g_write_inv [where P = refs_ok, OF assms]) (use assms that in \<open>simp add: insert_domain_refs\<close>)
    then show ?thesis using assms by (simp add: CreateDdnsDomain_def Let_def case_prod_beta)
  qed
  show "refs_ok (gd (snd (DeleteDdnsDomain e k w)))"
    using assms by (simp add: DeleteDdnsDomain_def g_exec_inv delete_refs)
  have dom: "m \<in> set (ddns_domains (gd w))" "dd_GroupId m \<in> ng_ID ` set (node_groups (gd w))"
    if "domain_tbl.by_key k (gd w) = Some m" for k m
    using domain_tbl.by_key_Some [OF that] assms by (auto simp: refs_ok_def)
  show "refs_ok (gd (snd (UpdateDdnsDomain e ddu w)))"
  proof (cases "domain_tbl.by_key (ddu_ID ddu) (gd w)")
    case None
    then show ?thesis using assms by (simp add: UpdateDdnsDomain_def)
  next
    case (Some m)
    have "dd_GroupId (updated_domain e ddu m) = dd_GroupId m"
      by (simp add: updated_domain_def Let_def split: option.split)
    then have "refs_ok (gd (g_exec e (set_domain (dd_ID m) (\<lambda>_. updated_domain e ddu m)) w))"
      by (intro g_exec_inv [where P = refs_ok] set_domain_refs) (use assms dom(2) [OF Some] in simp_all)
    then show ?thesis using assms by (simp add: UpdateDdnsDomain_def Some)
  qed
  show "refs_ok (gd (snd (ResolveDdnsDomain e k w)))"
    using assms dom(1) by (auto simp: ResolveDdnsDomain_def split: option.split intro!: apply_refs)
qed

text \<open>Property: References hold for ever: through any sequence of operations on groups, providers and
  domains and of failover rounds, with any statement failing, every member and every domain
  belongs to a group that exists.\<close>

theorem group_references_hold:
  assumes "g_step\<^sup>*\<^sup>* w w'" and "refs_ok (gd w)"
  shows "refs_ok (gd w')"
  using assms
proof (induction rule: rtranclp_induct)
  case (step w1 w2)
  then have "refs_ok (gd w1)" by blast
  with step.hyps(2) show ?case
    by cases (simp_all add: group_refs domain_refs failover_refs)
qed

section \<open>Witnesses\<close>

text \<open>A group of two nodes, switched to node 1 long ago; node 1 is down. Its domain is served by a
  registrar that does not answer.\<close>

definition sample_member :: "int \<Rightarrow> GroupMember" where
  "sample_member k = \<lparr>gm_ID = k, gm_GroupId = 5, gm_NodeId = k, gm_MemberIp = ''192.0.2.1'',
     gm_Priority = k, gm_CreatedTime = 0, gm_UpdatedTime = 0\<rparr>"

definition sample_group :: NodeGroup where
  "sample_group = \<lparr>ng_ID = 5, ng_Name = ''g'', ng_Type = ''entry'', ng_SwitchBack = 1,
     ng_ActiveMemberId = 1, ng_LastSwitchTime = 1000, ng_CreatedTime = 0, ng_UpdatedTime = 0,
     ng_Status = 1, ng_Inx = 0\<rparr>"

definition sample_domain :: DdnsDomain where
  "sample_domain = \<lparr>dd_ID = 1, dd_ProviderId = 1, dd_GroupId = 5, dd_Domain = ''example.org'',
     dd_RecordName = ''vpn'', dd_RecordType = ''A'', dd_AutoResolve = 1, dd_CurrentRecord = ''192.0.2.9'',
     dd_CurrentMemberId = 1, dd_CreatedTime = 0, dd_UpdatedTime = 0, dd_Status = 1\<rparr>"

definition sample_gworld :: gworld where
  "sample_gworld = \<lparr>gd = \<lparr>node_groups = [sample_group], group_members = [sample_member 1, sample_member 2],
     ddns_providers = [\<lparr>dp_ID = 1, dp_Name = ''p'', dp_Type = ''webhook'', dp_Credential = ''c'',
       dp_CreatedTime = 0, dp_UpdatedTime = 0, dp_Status = 1\<rparr>],
     ddns_domains = [sample_domain], system_logs = [], group_seq = 6, member_seq = 3,
     provider_seq = 2, domain_seq = 2\<rparr>, gops = 0, dns_sent = []\<rparr>"

definition sample_genv :: "int \<Rightarrow> int \<Rightarrow> (nat \<Rightarrow> dns_request \<Rightarrow> string option) \<Rightarrow> genv" where
  "sample_genv t up dns = \<lparr>g_now = t, g_online = (\<lambda>n. n = up),
     g_panel = empty_db,
     write_ok = (\<lambda>_. True), apiToken = Some, hookURL = Some, crypto_ready = True, Encrypt = Some,
     Decrypt = Some, SetRecord = dns\<rparr>"

lemma sample_groups_wf: "groups_wf sample_gworld"
  by (simp add: groups_wf_def sample_gworld_def sample_group_def)

lemma sample_members: "members_of 5 (gd sample_gworld) = [sample_member 1, sample_member 2]"
  by code_simp

theorem failover_finds_healthy_witness:
  "\<exists>r \<in> set (node_groups (gd (EvaluateFailover (sample_genv 100000 2 (\<lambda>_ _. None)) sample_gworld))).
     ng_ID r = 5 \<and> ng_ActiveMemberId r = 2"
proof -
  let ?e = "sample_genv 100000 2 (\<lambda>_ _. None)"
  have "sample_group \<in> set (node_groups (gd sample_gworld))" by (simp add: sample_gworld_def)
  from failover_finds_healthy [OF sample_groups_wf _ this, of ?e]
  have "\<exists>r \<in> set (node_groups (gd (EvaluateFailover ?e sample_gworld))). ng_ID r = 5 \<and>
    (\<exists>m \<in> set [sample_member 1, sample_member 2]. gm_NodeId m = ng_ActiveMemberId r \<and> memberHealthy ?e m)"
    by (auto simp: sample_group_def sample_genv_def sample_members memberHealthy_def sample_member_def
        failoverDebounceMs_def)
  then show ?thesis by (auto simp: memberHealthy_def sample_genv_def sample_member_def)
qed

text \<open>Node 1 goes down and comes back ten seconds later: the second change waits.\<close>

theorem failover_never_flaps_witness:
  "switch_times 5 (map (\<lambda>(t, up). sample_genv t up (\<lambda>_ _. None)) [(100000, 2), (110000, 1), (170000, 1)])
     sample_gworld = [100000, 170000] \<and>
   sorted_wrt (\<lambda>s t. s + failoverDebounceMs \<le> t)
     (switch_times 5 (map (\<lambda>(t, up). sample_genv t up (\<lambda>_ _. None)) [(100000, 2), (110000, 1), (170000, 1)])
        sample_gworld)"
proof (rule conjI)
  show "switch_times 5 (map (\<lambda>(t, up). sample_genv t up (\<lambda>_ _. None)) [(100000, 2), (110000, 1), (170000, 1)])
     sample_gworld = [100000, 170000]" by code_simp
  show "sorted_wrt (\<lambda>s t. s + failoverDebounceMs \<le> t)
     (switch_times 5 (map (\<lambda>(t, up). sample_genv t up (\<lambda>_ _. None)) [(100000, 2), (110000, 1), (170000, 1)])
        sample_gworld)"
    by (rule failover_never_flaps [OF sample_groups_wf]) (auto simp: sample_genv_def)
qed

text \<open>The registrar refuses at the switch and works one minute later; nothing is sent.\<close>

theorem failed_dns_update_not_repeated_witness:
  "ddns_domains (gd (EvaluateFailover (sample_genv 100000 2 (\<lambda>_ _. Some ''down'')) sample_gworld)) = [sample_domain] \<and>
   EvaluateFailover (sample_genv 160000 2 (\<lambda>_ _. None))
     (EvaluateFailover (sample_genv 100000 2 (\<lambda>_ _. Some ''down'')) sample_gworld) =
   EvaluateFailover (sample_genv 100000 2 (\<lambda>_ _. Some ''down'')) sample_gworld"
proof -
  let ?e = "sample_genv 100000 2 (\<lambda>_ _. Some ''down'')"
  have best: "firstHealthy ?e (members_of 5 (gd sample_gworld)) = Some (sample_member 2)"
    by (simp add: sample_members firstHealthy_def memberHealthy_def sample_genv_def sample_member_def)
  have groups: "node_groups (gd sample_gworld) = [sample_group]" "ddns_domains (gd sample_gworld) = [sample_domain]"
    by (simp_all add: sample_gworld_def)
  show ?thesis
    using failed_dns_update_not_repeated [OF sample_groups_wf, of ?e "sample_genv 160000 2 (\<lambda>_ _. None)"] best
    by (simp add: groups sample_genv_def failoverDebounceMs_def) (simp add: sample_group_def)
qed

theorem group_references_hold_witness:
  "refs_ok (gd (EvaluateFailover (sample_genv 100000 2 (\<lambda>_ _. None))
     (snd (CreateGroup (sample_genv 9 2 (\<lambda>_ _. None)) \<lparr>gdt_Name = ''h'', gdt_Type = ''exit'', gdt_SwitchBack = 0,
        gdt_Members = [\<lparr>gmd_NodeId = 3, gmd_MemberIp = [], gmd_Priority = 0\<rparr>]\<rparr> sample_gworld))))"
proof (rule group_references_hold)
  show "refs_ok (gd sample_gworld)"
    by (simp add: refs_ok_def sample_gworld_def sample_group_def sample_member_def sample_domain_def)
qed (rule rtranclp.rtrancl_into_rtrancl [OF r_into_rtranclp]; rule g_step.intros)

end
