(* ===== verification/Reconcile_Node.thy ===== *)
theory Reconcile_Node
  imports Reconcile_Props Node_Props
begin

text \<open>
  Reconciliation against the nodes of \<open>Node_Command\<close>: a run that reports no error leaves no port
  forward of the node without its services.
\<close>

section \<open>Names a command registers and keeps\<close>

definition bad_text :: "string \<Rightarrow> bool" where
  "bad_text er \<longleftrightarrow> er \<noteq> [] \<and> er \<noteq> ''OK''"

lemma bad_texts: "bad_text emptyListError" "bad_text nameRequired" "bad_text (svc_error n x)"
  "bad_text (''create service '' @ x)"
  by (simp_all add: bad_text_def emptyListError_def nameRequired_def svc_error_def)

lemma parse_new_text: "fst (parse_new os cs nd) = Inl er \<Longrightarrow> bad_text er"
proof (induction cs arbitrary: nd)
  case (Cons c cs)
  let ?n = "trim_space (s_name c)"
  obtain q nd1 where p: "ParseService os 0 (c\<lparr>s_name := ?n\<rparr>) nd = (q, nd1)" by fastforce
  show ?case
  proof (cases "?n = [] \<or> IsRegistered ?n (svcReg nd) \<or> isl q")
    case True
    then show ?thesis using Cons.prems p bad_texts by (auto simp: Let_def isl_def split: if_splits)
  next
    case False
    then obtain s where "q = Inr s" by (cases q) auto
    with False p Cons.prems have "fst (parse_new os cs nd1) = Inl er"
      by (auto simp: Let_def split: prod.splits sum.splits)
    then show ?thesis by (rule Cons.IH)
  qed
qed simp

lemma register_new_text: "fst (register_new ss registered nd) = Some er \<Longrightarrow> bad_text er"
  by (induction ss registered nd rule: register_new.induct)
     (auto simp: Let_def bad_texts split: option.splits)

lemma forward_each_text: "fst (forward_each os xs nd) = Some er \<Longrightarrow> bad_text er"
  by (induction os xs nd rule: forward_each.induct)
     (auto simp: Let_def bad_texts split: option.splits if_splits)

lemma error_text:
  "createServices os data nd = Replied (Some er) nd' \<Longrightarrow> bad_text er"
  "updateForwarder os xs nd = Replied (Some er) nd' \<Longrightarrow> bad_text er"
  by (auto simp: createServices_def updateForwarder_def bad_texts split: if_splits prod.splits sum.splits
      option.splits dest!: arg_cong [where f = fst] dest: parse_new_text register_new_text forward_each_text)

text \<open>Services registered so far are rolled back, the others stay.\<close>

lemma roll_back_names: "reg_names (roll_back_new names nd) \<supseteq> reg_names nd - (set names - {[]})"
  unfolding roll_back_new_def
proof (induction names arbitrary: nd)
  case (Cons n names)
  let ?nd = "case Get n (svcReg nd) of None \<Rightarrow> nd | Some s \<Rightarrow> Close s (UnregisterService n nd)"
  have "reg_names ?nd \<supseteq> reg_names nd - ({n} - {[]})"
  proof (cases "Get n (svcReg nd)")
    case (Some s)
    then have "n \<noteq> []" by (simp add: Get_Some)
    with Some show ?thesis by simp
  qed simp
  moreover have "reg_names (fold (\<lambda>n nd. case Get n (svcReg nd) of None \<Rightarrow> nd
      | Some s \<Rightarrow> Close s (UnregisterService n nd)) names ?nd) \<supseteq> reg_names ?nd - (set names - {[]})"
    by (rule Cons.IH)
  ultimately show ?case by (simp only: fold.simps comp_apply list.set) blast
qed simp

lemma register_new_names:
  "R \<subseteq> reg_names nd \<Longrightarrow> set registered \<inter> R \<subseteq> {[]} \<Longrightarrow> R \<subseteq> reg_names (snd (register_new ss registered nd))"
proof (induction ss registered nd rule: register_new.induct)
  case (2 s ss registered nd)
  let ?n = "s_name (sv_conf s)"
  show ?case
  proof (cases "Register ?n s (svcReg nd)")
    case None
    then show ?thesis using roll_back_names [of nd registered] "2.prems" by (auto simp: Let_def)
  next
    case (Some reg)
    have "R \<subseteq> reg_names (nd\<lparr>svcReg := reg\<rparr>)"
      using "2.prems"(1) Some by (auto simp: Register_Some reg_names_def split: if_splits)
    moreover have "set (registered @ [?n]) \<inter> R \<subseteq> {[]}"
      using "2.prems" Some by (auto simp: Register_Some reg_names_def split: if_splits)
    ultimately show ?thesis using "2.IH" [OF refl Some] Some by (simp add: Let_def)
  qed
qed simp

lemma register_new_adds:
  "fst (register_new ss registered nd) = None \<Longrightarrow> \<forall>s \<in> set ss. s_name (sv_conf s) \<noteq> [] \<Longrightarrow>
   (\<lambda>s. s_name (sv_conf s)) ` set ss \<union> reg_names nd \<subseteq> reg_names (snd (register_new ss registered nd))"
proof (induction ss registered nd rule: register_new.induct)
  case (2 s ss registered nd)
  let ?n = "s_name (sv_conf s)"
  from "2.prems" obtain reg where r: "Register ?n s (svcReg nd) = Some reg"
    by (auto simp: Let_def split: option.splits)
  then have n: "reg_names (nd\<lparr>svcReg := reg\<rparr>) = insert ?n (reg_names nd)"
    using "2.prems"(2) by (auto simp: Register_Some reg_names_def)
  have "(\<lambda>s. s_name (sv_conf s)) ` set ss \<union> reg_names (nd\<lparr>svcReg := reg\<rparr>) \<subseteq>
      reg_names (snd (register_new ss (registered @ [?n]) (nd\<lparr>svcReg := reg\<rparr>)))"
    using "2.IH" [OF refl r] "2.prems" r by (simp add: Let_def)
  then show ?case using r n by (simp add: Let_def)
qed simp

lemma createServices_names:
  assumes c: "createServices os data nd = Replied r nd'" and wf: "svc_wf nd"
  shows "reg_names nd \<subseteq> reg_names nd'"
    and "r = None \<Longrightarrow> (\<lambda>c. trim_space (s_name c)) ` set data \<subseteq> reg_names nd'"
proof -
  obtain q nd1 where p: "parse_new os data nd = (q, nd1)" by fastforce
  have same: "reg_names nd1 = reg_names nd"
    using parse_new_keeps [of "{}" nd os data] p by (simp add: reg_names_def)
  have "reg_names nd \<subseteq> reg_names nd' \<and> (r = None \<longrightarrow> (\<lambda>c. trim_space (s_name c)) ` set data \<subseteq> reg_names nd')"
  proof (cases "data = []")
    case True
    with c show ?thesis by (simp add: createServices_def)
  next
    case ne: False
    show ?thesis
    proof (cases q)
      case (Inl er)
      with c ne p same show ?thesis by (auto simp: createServices_def)
    next
      case (Inr ss)
      obtain r' nd2 where reg: "register_new ss [] nd1 = (r', nd2)" by fastforce
      have new: "new_objects nd1 ss"
        and confs: "map sv_conf ss = map (\<lambda>c. default_types (c\<lparr>s_name := trim_space (s_name c)\<rparr>)) data"
        using parse_new_Inr [of os data nd ss] p Inr wf by simp_all
      have names: "(\<lambda>s. s_name (sv_conf s)) ` set ss = (\<lambda>c. trim_space (s_name c)) ` set data"
        using arg_cong [OF confs, of "\<lambda>cs. s_name ` set cs"] by (simp add: image_comp comp_def)
      have "reg_names nd \<subseteq> reg_names nd2"
        using register_new_names [of "reg_names nd" nd1 "[]" ss] same reg by simp
      moreover have "(\<lambda>s. s_name (sv_conf s)) ` set ss \<subseteq> reg_names nd2" if "r' = None"
        using register_new_adds [of ss "[]" nd1] that new reg by (simp add: new_objects_def)
      moreover have "reg_names nd' = reg_names nd2 \<and> r = r'"
        using c ne p Inr reg by (auto simp: createServices_def reg_names_def split: option.splits)
      ultimately show ?thesis using names by auto
    qed
  qed
  then show "reg_names nd \<subseteq> reg_names nd'"
    and "r = None \<Longrightarrow> (\<lambda>c. trim_space (s_name c)) ` set data \<subseteq> reg_names nd'" by auto
qed

lemma forward_each_names:
  "reg_names (snd (forward_each os xs nd)) = reg_names nd \<and>
   (fst (forward_each os xs nd) = None \<longrightarrow> (\<lambda>(raw, _). trim_space raw) ` set xs \<subseteq> reg_names nd)"
proof (induction os xs nd rule: forward_each.induct)
  case (2 os raw fw rest nd)
  let ?n = "trim_space raw"
  show ?case
  proof (cases "Get ?n (svcReg nd)")
    case None
    then show ?thesis by (simp add: Let_def)
  next
    case (Some s)
    let ?nd = "nd\<lparr>svcReg := AList.update ?n (s\<lparr>sv_conf := (sv_conf s)\<lparr>s_forwarder := Some fw\<rparr>\<rparr>) (svcReg nd)\<rparr>"
    have n: "?n \<in> reg_names nd" using Some by (force simp: Get_Some reg_names_def dest: map_of_SomeD)
    then have same: "reg_names ?nd = reg_names nd" by (auto simp: reg_names_def dom_update)
    show ?thesis
    proof (cases "?n \<noteq> [] \<and> can_forward os (hd_type (s_handler (sv_conf s))) \<and> forwarder_error os fw = None")
      case True
      then have t: "?n \<noteq> []" "\<not> \<not> can_forward os (hd_type (s_handler (sv_conf s)))" "forwarder_error os fw = None"
        by simp_all
      have
        "reg_names (snd (forward_each os rest ?nd)) = reg_names ?nd \<and>
         (fst (forward_each os rest ?nd) = None \<longrightarrow> (\<lambda>(raw, _). trim_space raw) ` set rest \<subseteq> reg_names ?nd)"
        by (rule "2.IH" [OF refl t(1) Some t(2,3)])
      with True Some n same show ?thesis by (simp add: Let_def)
    next
      case False
      with Some show ?thesis by (auto simp: Let_def split: option.split)
    qed
  qed
qed simp

lemma updateForwarder_names:
  assumes "updateForwarder os xs nd = Replied r nd'"
  shows "reg_names nd' = reg_names nd"
    and "r = None \<Longrightarrow> (\<lambda>(raw, _). trim_space raw) ` set xs \<subseteq> reg_names nd"
proof -
  have cfg: "reg_names (x\<lparr>cfgServices := c\<rparr>) = reg_names x" for x c by (simp add: reg_names_def)
  show "reg_names nd' = reg_names nd"
    and "r = None \<Longrightarrow> (\<lambda>(raw, _). trim_space raw) ` set xs \<subseteq> reg_names nd"
    using assms forward_each_names [of os xs nd]
    by (auto simp: updateForwarder_def cfg split: if_splits prod.splits option.splits)
qed

lemma deleteServices_names:
  assumes "deleteServices names nd = Replied r nd'" and "svc_wf nd"
  shows "reg_names nd - trim_space ` set names \<subseteq> reg_names nd'"
  using delete_names [OF assms(2,1)] by (auto split: if_splits)

lemma pause_names:
  assumes "pauseServices os names nd = Replied r nd'" and "svc_wf nd"
  shows "reg_names nd \<subseteq> reg_names nd'"
proof -
  have paused: "reg_names (set_paused b n nd) = reg_names nd" for b n nd by (simp add: set_paused_def reg_names_def)
  have fold: "reg_names (fold (\<lambda>(n, _). set_paused b n) xs nd) = reg_names nd" for b and xs :: "(string \<times> svc) list" and nd
    by (induction xs arbitrary: nd) (auto simp: paused)
  have rb: "reg_names nd \<subseteq> reg_names (rollbackPaused os p nd)" for os p nd
  proof -
    obtain n c where p: "p = (n, c)" by (cases p)
    obtain q nd1 where q: "ParseService os 0 c nd = (q, nd1)" by fastforce
    then have "reg_names nd1 = reg_names nd" using ParseService_fields(7) [of os 0 c nd] by simp
    then show ?thesis
      by (auto simp: p q rollbackPaused_def paused Register_Some reg_names_def set_paused_def
          split: sum.split option.split if_splits)
  qed
  have rbs: "reg_names nd \<subseteq> reg_names (rollbackPausedServices os ps nd)" for os ps nd
    unfolding rollbackPausedServices_def
    by (induction ps arbitrary: nd) (auto dest: subsetD [OF rb])
  have each: "reg_names nd \<subseteq> reg_names (snd (pause_each os confs xs ps nd))" for confs xs ps nd
  proof (induction os confs xs ps nd rule: pause_each.induct)
    case (2 os confs name s rest paused nd)
    then show ?case using rbs [of nd os paused] by (cases "confs name") auto
  qed simp
  show ?thesis
  proof (cases "names = [] \<or> first_error (missing nd) names \<noteq> None")
    case True
    with assms(1) show ?thesis by (auto simp: pauseServices_def split: if_splits)
  next
    case False
    let ?xs = "map (\<lambda>raw. (trim_space raw, the (Get (trim_space raw) (svcReg nd)))) names"
    obtain q nd1 where p: "pause_each os (last_conf nd) ?xs [] nd = (q, nd1)" by fastforce
    have le: "reg_names nd \<subseteq> reg_names nd1" using each [of nd "last_conf nd" ?xs "[]"] p by simp
    have "reg_names nd' = reg_names nd1"
    proof (cases q)
      case None
      then show ?thesis using assms(1) False p fold [of True ?xs nd1] by (simp add: pauseServices_def Let_def)
    next
      case (Some er)
      then show ?thesis using assms(1) False p by (simp add: pauseServices_def Let_def)
    qed
    with le show ?thesis by simp
  qed
qed

text \<open>A command of reconciliation keeps the registered names it does not delete.\<close>

lemma gentle_names:
  assumes "routeCommand os m nd = Replied r nd'" and "svc_wf nd" and "gentle d k m"
  shows "reg_names nd - {n. \<exists>n'. n = trim_space n' \<and> (\<exists>j. name_forward n' = Some j \<and> \<not> forward_on_node d k j)}
     \<subseteq> reg_names nd'"
proof (cases m)
  case (AddService_msg data)
  then have "createServices os data nd = Replied r nd'" using assms(1) by (simp add: routeCommand_def)
  from createServices_names(1) [OF this assms(2)] show ?thesis by blast
next
  case (UpdateForwarder_msg xs)
  then have "updateForwarder os xs nd = Replied r nd'" using assms(1) by (simp add: routeCommand_def)
  from updateForwarder_names(1) [OF this] show ?thesis by blast
next
  case (DeleteService_msg names)
  then have "deleteServices names nd = Replied r nd'" using assms(1) by (simp add: routeCommand_def)
  note kept = deleteServices_names [OF this assms(2)]
  have "trim_space ` set names \<subseteq>
      {n. \<exists>n'. n = trim_space n' \<and> (\<exists>j. name_forward n' = Some j \<and> \<not> forward_on_node d k j)}"
    using assms(3) unfolding gentle_def DeleteService_msg by auto
  with kept show ?thesis by blast
next
  case (PauseService_msg names)
  then have "pauseServices os names nd = Replied r nd'" using assms(1) by (simp add: routeCommand_def)
  from pause_names [OF this assms(2)] show ?thesis by blast
qed (use assms in \<open>auto simp: gentle_def routeCommand_def createChain_def updateChain_def createLimiter_def
       Let_def reg_names_def split: if_splits option.splits\<close>)

lemma gentle_answer:
  assumes "svc_wf nd" and "gentle d k m"
  shows "svc_wf (snd (node_answer os m nd))"
    and "\<forall>n \<in> A. \<forall>n'. n = trim_space n' \<longrightarrow> (\<forall>j. name_forward n' = Some j \<longrightarrow> forward_on_node d k j) \<Longrightarrow>
      A \<subseteq> reg_names nd \<Longrightarrow> A \<subseteq> reg_names (snd (node_answer os m nd))"
proof -
  have "routeCommand os m nd \<noteq> Crashed"
    using assms(2) by (cases m) (auto simp: gentle_def routeCommand_def createServices_def deleteServices_def
        pauseServices_def updateForwarder_def createChain_def updateChain_def createLimiter_def Let_def
        split: option.split prod.split sum.split)
  then obtain r nd' where r: "routeCommand os m nd = Replied r nd'" by (cases "routeCommand os m nd") auto
  then have eq: "snd (node_answer os m nd) = nd'" by (simp add: node_answer_def split: option.split)
  show "svc_wf (snd (node_answer os m nd))" using keepsD(1) [OF routeCommand_keeps [OF r] assms(1)] eq by simp
  show "A \<subseteq> reg_names (snd (node_answer os m nd))"
    if "\<forall>n \<in> A. \<forall>n'. n = trim_space n' \<longrightarrow> (\<forall>j. name_forward n' = Some j \<longrightarrow> forward_on_node d k j)"
      "A \<subseteq> reg_names nd"
    using that gentle_names [OF r assms] unfolding eq by fastforce
qed

text \<open>Along a reconciliation.\<close>

definition safe_names :: "db \<Rightarrow> int \<Rightarrow> string set \<Rightarrow> bool" where
  "safe_names d k A \<longleftrightarrow>
     (\<forall>n \<in> A. \<forall>n'. n = trim_space n' \<longrightarrow> (\<forall>j. name_forward n' = Some j \<longrightarrow> forward_on_node d k j))"

lemma fleet_names:
  assumes t: "transport e = fleet_transport oss" and s: "sent_by e (gentle d k) w w'"
    and wf: "\<forall>n. svc_wf (wnet w n)"
  shows "\<forall>n. svc_wf (wnet w' n)"
    and "safe_names d k A \<Longrightarrow> A \<subseteq> reg_names (wnet w i) \<Longrightarrow> A \<subseteq> reg_names (wnet w' i)"
proof -
  from s obtain ms where ms: "\<forall>(n, m) \<in> set ms. gentle d k m"
    and w': "wnet w' = fold (\<lambda>(n, m) s. snd (transport e n m s)) ms (wnet w)" by (auto simp: sent_by_def)
  have "(\<forall>n. svc_wf (fold (\<lambda>(n, m) s. snd (transport e n m s)) ms s n)) \<and>
    (safe_names d k A \<longrightarrow> A \<subseteq> reg_names (s i) \<longrightarrow>
      A \<subseteq> reg_names (fold (\<lambda>(n, m) s. snd (transport e n m s)) ms s i))" if "\<forall>n. svc_wf (s n)" for s
    using ms that
  proof (induction ms arbitrary: s)
    case (Cons x ms)
    obtain n m where x: "x = (n, m)" by (cases x)
    have g: "gentle d k m" using Cons.prems(1) x by simp
    let ?s = "snd (transport e n m s)"
    have s': "?s = s(n := snd (node_answer (oss n) m (s n)))"
      by (simp add: t fleet_transport_def case_prod_beta Let_def)
    note a = gentle_answer [OF Cons.prems(2)[rule_format, of n] g, where os = "oss n"]
    have wf: "\<forall>j. svc_wf (?s j)" using a(1) Cons.prems(2) by (simp add: s')
    have "A \<subseteq> reg_names (?s i)" if "safe_names d k A" "A \<subseteq> reg_names (s i)"
      using a(2) [of A] that unfolding s' safe_names_def by (cases "i = n") simp_all
    with Cons.IH [OF _ wf] Cons.prems(1) show ?case by (simp add: x)
  qed simp
  from this [OF wf] show "\<forall>n. svc_wf (wnet w' n)"
    and "safe_names d k A \<Longrightarrow> A \<subseteq> reg_names (wnet w i) \<Longrightarrow> A \<subseteq> reg_names (wnet w' i)"
    unfolding w' by auto
qed

text \<open>The names of a forward of the node are safe: only a name of the same forward, or one the
  panel cannot parse, trims to one of them.\<close>

lemma trim_hd: "n = trim_space n' \<Longrightarrow> \<not> is_space (hd n') \<Longrightarrow> \<exists>b. n' = n @ b"
proof -
  assume n: "n = trim_space n'" and h: "\<not> is_space (hd n')"
  then have "dropWhile is_space n' = n'" by (cases n') auto
  then have "n = rev (dropWhile is_space (rev n'))" by (simp add: n trim_space_def)
  then have "n' = n @ rev (takeWhile is_space (rev n'))"
    by (metis rev_append rev_rev_ident takeWhile_dropWhile_id)
  then show ?thesis by blast
qed

lemma parse_space: "is_space x \<Longrightarrow> parse_int (x # ps) = None"
  by (auto simp: parse_int_def unsigned_int_def is_space_def is_digit_def Let_def)

lemma safe_own:
  assumes "forward_on_node d k i" and "\<forall>n \<in> A. own i n" and "- (2 ^ 63) \<le> i" "i < 2 ^ 63"
  shows "safe_names d k A"
  unfolding safe_names_def
proof (intro ballI allI impI)
  fix n n' j
  assume n: "n \<in> A" "n = trim_space n'" and j: "name_forward n' = Some j"
  let ?p = "split_on (CHR ''_'') n' ! 0"
  have p: "parse_int ?p = Some j" using j by (simp add: name_forward_def Let_def split: if_splits)
  obtain x xs where n': "n' = x # xs"
  proof (cases n')
    case Nil
    with j show ?thesis by (simp add: name_forward_def)
  qed
  have "hd n' \<noteq> CHR ''_''" using p n' by (auto simp: parse_int_def)
  then obtain ps where ps: "?p = x # ps" using n' by (cases "split_on (CHR ''_'') xs") auto
  from p have "parse_int (x # ps) = Some j" by (simp only: ps)
  then have "\<not> is_space (hd n')" using parse_space [of x ps] n' by auto
  then obtain b where b: "n' = n @ b" using trim_hd [OF n(2)] by blast
  obtain rest where "n = itoa i @ CHR ''_'' # rest" using assms(2) n(1) by (auto simp: own_def)
  then have "?p = itoa i" using itoa_no_sep(1) [of i] by (simp add: b split_on_sep)
  then have "j = i" using p assms(3,4) by (simp add: parse_int_itoa)
  then show "forward_on_node d k j" using assms(1) by simp
qed

text \<open>A command that answers \<open>OK\<close> was carried out.\<close>

lemma ok_answer:
  assumes t: "transport e = fleet_transport oss" and ok: "g_Msg (fst (SendMsg e k m w)) = ''OK''"
    and m: "(\<exists>data. m = AddService_msg data) \<or> (\<exists>xs. m = UpdateForwarder_msg xs)"
  shows "routeCommand (oss k) m (wnet w k) = Replied None (wnet (snd (SendMsg e k m w)) k)"
proof -
  have on: "nodeSessions e k" using ok by (auto simp: SendMsg_def split: if_splits)
  show ?thesis
  proof (cases "routeCommand (oss k) m (wnet w k)")
    case Crashed
    with ok on show ?thesis
      by (simp add: SendMsg_def t fleet_transport_def node_answer_def Let_def)
  next
    case (Replied r nd)
    then have "r = None"
    proof (cases r)
      case (Some er)
      then have "bad_text er" using m Replied error_text by (auto simp: routeCommand_def)
      with ok on Replied Some show ?thesis
        by (auto simp: SendMsg_def t fleet_transport_def node_answer_def Let_def bad_text_def)
    qed
    then show ?thesis using on Replied
      by (simp add: SendMsg_def t fleet_transport_def node_answer_def Let_def)
  qed
qed

lemma answer_text: "g_Msg (fst (SendMsg e k m w)) \<noteq> []"
  by (auto simp: SendMsg_def Let_def case_prod_beta split: option.split)

lemma sync_registers:
  assumes t: "transport e = fleet_transport oss" and wf: "\<forall>n. svc_wf (wnet w n)"
    and ok: "gentleSyncGostServices e f tu lm i out name w = ([], w')" and ty: "t_Type tu = 1"
    and plain: "\<not> contains_str (t_TcpListenAddr tu) '',''" and o: "own j name"
  shows "{name @ ''_tcp'', name @ ''_udp''} \<subseteq> reg_names (wnet w' (n_ID i))"
proof -
  let ?A = "{name @ ''_tcp'', name @ ''_udp''}"
  let ?cs = "buildServices name (f_InPort f) lm (f_RemoteAddr f) (t_Type tu) tu (f_Strategy f)
     (service_ifname tu f) (ShouldSniffNode e (n_ID i))"
  have trim: "trim_space (name @ ''_tcp'') = name @ ''_tcp''" "trim_space (name @ ''_udp'') = name @ ''_udp''"
    by (rule own_trim_id [OF o], simp_all add: is_space_def)+
  have "map s_name ?cs = [name @ ''_tcp'', name @ ''_udp'']"
    unfolding buildServices_names using plain by (simp add: buildMultiIPServiceNames_def splitListenIPs_single Let_def)
  then have cs: "(\<lambda>c. trim_space (s_name c)) ` set ?cs = ?A"
    using trim arg_cong [of _ _ "\<lambda>ns. trim_space ` set ns"] by (fastforce simp: image_image)
  obtain r w2 where add: "AddService e (n_ID i) name (f_InPort f) lm (f_RemoteAddr f) (t_Type tu) tu
      (f_Strategy f) (service_ifname tu f) w = (r, w2)" by fastforce
  then have send: "SendMsg e (n_ID i) (AddService_msg ?cs) w = (r, w2)" by (simp add: msg_defs)
  show ?thesis
  proof (cases "is_ok r")
    case True
    then have "routeCommand (oss (n_ID i)) (AddService_msg ?cs) (wnet w (n_ID i)) = Replied None (wnet w2 (n_ID i))"
      using ok_answer [OF t, of "n_ID i" "AddService_msg ?cs" w] send
      by (simp add: is_ok_def isGostSuccess_def gostSuccessMsg_def)
    then have "createServices (oss (n_ID i)) ?cs (wnet w (n_ID i)) = Replied None (wnet w2 (n_ID i))"
      by (simp add: routeCommand_def)
    from createServices_names(2) [OF this] wf have "?A \<subseteq> reg_names (wnet w2 (n_ID i))" unfolding cs by blast
    moreover have "w' = w2" using ok add ty True by (simp add: gentleSyncGostServices_def tunnelTypeTunnelForward_def)
    ultimately show ?thesis by simp
  next
    case False
    let ?m = "UpdateForwarder_msg (map (\<lambda>proto. (name @ ''_'' @ proto, buildForwarder (f_RemoteAddr f) (f_Strategy f)))
        [''tcp'', ''udp''])"
    obtain r3 w3 where upd: "UpdateForwarder e (n_ID i) name (f_RemoteAddr f) (f_Strategy f) w2 = (r3, w3)" by fastforce
    have "g_Msg r \<noteq> []" using answer_text [of e "n_ID i" "AddService_msg ?cs" w] send by simp
    then have ex: "already_exists r" using ok add ty False
      by (auto simp: gentleSyncGostServices_def tunnelTypeTunnelForward_def split: if_splits)
    from upd have send3: "SendMsg e (n_ID i) ?m w2 = (r3, w3)" by (simp add: msg_defs Let_def)
    then have "g_Msg r3 \<noteq> []" using answer_text [of e "n_ID i" ?m w2] by simp
    with ex ok add ty False upd have w': "g_Msg r3 = gostSuccessMsg" "w' = w3"
      by (auto simp: gentleSyncGostServices_def tunnelTypeTunnelForward_def tunnelTypePortForward_def split: if_splits)
    have "updateForwarder (oss (n_ID i)) (map (\<lambda>proto. (name @ ''_'' @ proto,
        buildForwarder (f_RemoteAddr f) (f_Strategy f))) [''tcp'', ''udp'']) (wnet w2 (n_ID i)) =
        Replied None (wnet w3 (n_ID i))"
      using ok_answer [OF t, of "n_ID i" ?m w2] send3 w' by (simp add: routeCommand_def gostSuccessMsg_def)
    from updateForwarder_names [OF this] show ?thesis using trim w' by simp
  qed
qed

section \<open>A run without errors\<close>

lemma fold_errors:
  assumes "\<And>y rw. rr_Errors (fst (step y rw)) = [] \<Longrightarrow> rr_Errors (fst rw) = []"
    and "rr_Errors (fst (fold step xs rw)) = []"
  shows "rr_Errors (fst rw) = []"
  using assms(2)
proof (induction xs arbitrary: rw)
  case (Cons y xs)
  then have "rr_Errors (fst (step y rw)) = []" by simp
  then show ?case by (rule assms(1))
qed simp

text \<open>\<open>J\<close> holds along a fold, \<open>G\<close> once the element \<open>x\<close> has been visited without an error.\<close>

lemma fold_hits:
  assumes "x \<in> set xs" and "J rw" and J: "\<And>y rw. y \<in> set xs \<Longrightarrow> J rw \<Longrightarrow> J (step y rw)"
    and errs: "\<And>y rw. rr_Errors (fst (step y rw)) = [] \<Longrightarrow> rr_Errors (fst rw) = []"
    and hit: "\<And>rw. J rw \<Longrightarrow> rr_Errors (fst (step x rw)) = [] \<Longrightarrow> G (step x rw)"
    and G: "\<And>y rw. y \<in> set xs \<Longrightarrow> J rw \<Longrightarrow> G rw \<Longrightarrow> G (step y rw)"
    and ok: "rr_Errors (fst (fold step xs rw)) = []"
  shows "G (fold step xs rw)"
proof -
  have clean: "rr_Errors (fst rw) = []" if "rr_Errors (fst (fold step ys rw)) = []" for ys rw
    using errs that by (rule fold_errors)
  have keep: "G (fold step ys rw)" if "set ys \<subseteq> set xs" "J rw" "G rw" for ys rw
    using that by (induction ys arbitrary: rw) (auto simp: J G)
  have "x \<in> set ys \<Longrightarrow> set ys \<subseteq> set xs \<Longrightarrow> J rw \<Longrightarrow> rr_Errors (fst (fold step ys rw)) = [] \<Longrightarrow> G (fold step ys rw)"
    for ys rw
  proof (induction ys arbitrary: rw)
    case (Cons y ys)
    show ?case
    proof (cases "x = y")
      case True
      have "rr_Errors (fst (fold step ys (step y rw))) = []" using Cons.prems(4) by simp
      then have "rr_Errors (fst (step y rw)) = []" by (rule clean)
      with True have "G (step x rw)" using hit Cons.prems(3) by blast
      moreover have "J (step x rw)" using J Cons.prems(2,3) True by auto
      ultimately show ?thesis using keep [of ys "step x rw"] Cons.prems(2) True by simp
    next
      case False
      have "J (step y rw)" using J Cons.prems(2,3) by auto
      with Cons.IH [of "step y rw"] False Cons.prems show ?thesis by simp
    qed
  qed simp
  then show ?thesis using assms(1,2) ok by simp
qed

lemma add_error_errs [simp]: "rr_Errors (add_error er r) \<noteq> []"
  by (simp add: add_error_def)

lemma errors_stay:
  "rr_Errors (fst (reconcile_one e n t i out f rw)) = [] \<Longrightarrow> rr_Errors (fst rw) = []"
  "rr_Errors (fst (reconcile_route_one e n f rw)) = [] \<Longrightarrow> rr_Errors (fst rw) = []"
  "rr_Errors (fst (cleanupOrphanServices e n rw)) = rr_Errors (fst rw)"
proof -
  show "rr_Errors (fst rw) = []" if "rr_Errors (fst (reconcile_one e n t i out f rw)) = []"
    using that by (cases rw) (auto simp: reconcile_one_def Let_def case_prod_beta split: if_splits)
  show "rr_Errors (fst rw) = []" if "rr_Errors (fst (reconcile_route_one e n f rw)) = []"
    using that by (cases rw) (auto simp: reconcile_route_one_def Let_def case_prod_beta split: if_splits sum.splits)
  show "rr_Errors (fst (cleanupOrphanServices e n rw)) = rr_Errors (fst rw)"
    by (cases rw) (simp add: cleanupOrphanServices_def Let_def case_prod_beta split: option.split reply_data.split)
qed

lemma tunnel_errors_stay:
  assumes "rr_Errors (fst (reconcile_tunnel e n t rw)) = []"
  shows "rr_Errors (fst rw) = []"
proof -
  obtain r w where rw: "rw = (r, w)" by (cases rw)
  show ?thesis
  proof (cases "getRequiredNodes (wdb w) t")
    case (Inl er)
    then show ?thesis using assms by (simp add: reconcile_tunnel_def rw)
  next
    case (Inr io)
    then have "rr_Errors (fst (fold (reconcile_one e n t (fst io) (snd io)) (tunnel_forwards (wdb w) (t_ID t)) (r, w))) = []"
      using assms by (simp add: reconcile_tunnel_def rw case_prod_beta)
    then have "rr_Errors (fst (r, w)) = []" by (rule fold_errors [rotated]) (rule errors_stay(1))
    then show ?thesis by (simp add: rw)
  qed
qed

text \<open>What holds along a run for the database \<open>d\<close>.\<close>

definition run_ok :: "fleet env \<Rightarrow> db \<Rightarrow> int \<Rightarrow> ReconcileResult \<times> fleet world \<Rightarrow> bool" where
  "run_ok e d k rw \<longleftrightarrow> (\<forall>n. svc_wf (wnet (snd rw) n)) \<and> recovers d (wdb (snd rw))"

definition has_names :: "int \<Rightarrow> string set \<Rightarrow> ReconcileResult \<times> fleet world \<Rightarrow> bool" where
  "has_names k A rw \<longleftrightarrow> A \<subseteq> reg_names (wnet (snd rw) k)"

lemma run_step:
  assumes t: "transport e = fleet_transport oss"
    and h: "\<And>w. recovers d (wdb w) \<Longrightarrow> snd rw = w \<Longrightarrow> hist e d k w (snd rw')"
    and ok: "run_ok e d k rw"
  shows "run_ok e d k rw'" and "safe_names d k A \<Longrightarrow> has_names i A rw \<Longrightarrow> has_names i A rw'"
proof -
  have h': "hist e d k (snd rw) (snd rw')" using h ok by (simp add: run_ok_def)
  then have s: "sent_by e (gentle d k) (snd rw) (snd rw')" by (simp add: hist_def)
  have wf: "\<forall>n. svc_wf (wnet (snd rw) n)" using ok by (simp add: run_ok_def)
  note f = fleet_names [OF t s wf]
  show "run_ok e d k rw'" using f(1) h' by (simp add: run_ok_def hist_def)
  show "safe_names d k A \<Longrightarrow> has_names i A rw \<Longrightarrow> has_names i A rw'" using f(2) by (simp add: has_names_def)
qed

lemma hist_start: "recovers d (wdb w) \<Longrightarrow> hist e d k w w"
  by (simp add: hist_def sends.R_refl)

lemma recovers_forward:
  assumes "recovers d d'" and "f \<in> set (forwards d)"
  shows "\<exists>f' \<in> set (forwards d'). f_ID f' = f_ID f \<and> f_UserId f' = f_UserId f \<and> f_TunnelId f' = f_TunnelId f \<and>
    f_ListenIp f' = f_ListenIp f"
proof -
  obtain g where g: "\<forall>f. g f = f \<or> g f = f\<lparr>f_Status := forwardStatusActive\<rparr>"
    "d' = d\<lparr>forwards := map g (forwards d)\<rparr>" using assms(1) by (auto simp: recovers_def)
  have "g f \<in> set (forwards d')" using assms(2) by (simp add: g(2))
  moreover have "f_ID (g f) = f_ID f \<and> f_UserId (g f) = f_UserId f \<and> f_TunnelId (g f) = f_TunnelId f \<and>
      f_ListenIp (g f) = f_ListenIp f" using g(1)[rule_format, of f] by auto
  ultimately show ?thesis by blast
qed

lemma reconcile_one_adds:
  assumes t: "transport e = fleet_transport oss" and J: "run_ok e d k rw"
    and f: "f_Status f' = forwardStatusPaused \<Longrightarrow> f' \<in> set (forwards d)"
    and ty: "t_Type tu = 1" and plain: "\<not> contains_str (t_TcpListenAddr (listen_override f' tu)) '',''"
    and safe: "safe_names d k {name @ ''_tcp'', name @ ''_udp''}" and o: "own j name"
    and name: "fwd_service_name d f' = name" and i: "n_ID i = k"
    and ok: "rr_Errors (fst (reconcile_one e k tu i out f' rw)) = []"
  shows "has_names k {name @ ''_tcp'', name @ ''_udp''} (reconcile_one e k tu i out f' rw)"
proof -
  obtain r w where rw: "rw = (r, w)" by (cases rw)
  have name': "fwd_service_name (wdb w) f' = name"
    using recovers_fields [of d "wdb w"] J name by (simp add: run_ok_def rw fwd_service_name_def getUserTunnel_def)
  obtain er w1 where s: "gentleSyncGostServices e f' (listen_override f' tu) (fwd_speed (wdb w) f') i out name w = (er, w1)"
    by fastforce
  have er: "er = []" using ok s by (auto simp: reconcile_one_def rw name' Let_def split: if_splits)
  have ty': "t_Type (listen_override f' tu) = 1" using ty by (simp add: listen_override_def)
  have wf: "\<forall>n. svc_wf (wnet w n)" and rec: "recovers d (wdb w)" using J by (simp_all add: run_ok_def rw)
  have names: "{name @ ''_tcp'', name @ ''_udp''} \<subseteq> reg_names (wnet w1 k)"
    using sync_registers [OF t wf s [unfolded er] ty' plain o] i by simp
  have h1: "hist e d k w w1" using hist_gentleSync [OF hist_start [OF rec]] s by (metis snd_conv)
  have J1: "run_ok e d k (r, w1)"
    by (rule run_step(1) [OF t _ J]) (use h1 in \<open>auto simp: rw\<close>)
  let ?w2 = "if er = [] \<and> f_Status f' = forwardStatusError then recover_status e f' w1 else w1"
  let ?w3 = "if f_Status f' = forwardStatusPaused then repause e k tu out f' name ?w2 else ?w2"
  have w3: "snd (reconcile_one e k tu i out f' rw) = ?w3"
    using s by (simp add: reconcile_one_def rw name' Let_def)
  have "hist e d k w1 (snd (reconcile_one e k tu i out f' rw))" if "recovers d (wdb w1)"
  proof -
    have "hist e d k w1 ?w2" using hist_start [OF that] by (simp add: hist_recover)
    then show ?thesis unfolding w3 using hist_repause [of e d k w1 ?w2 f' k tu out d] f name
      by (cases "f_Status f' = forwardStatusPaused") simp_all
  qed
  moreover have "recovers d (wdb w1)" using J1 by (simp add: run_ok_def)
  ultimately have h2: "hist e d k w1 (snd (reconcile_one e k tu i out f' rw))" by blast
  show ?thesis
    by (rule run_step(2) [OF t _ J1 safe]) (use h2 names in \<open>auto simp: has_names_def\<close>)
qed

lemma reconcile_tunnel_adds:
  assumes t: "transport e = fleet_transport oss" and J: "run_ok e d k rw" and f: "f \<in> set (forwards d)"
    and link: "t_ID tu = f_TunnelId f" "f_TunnelId f \<noteq> 0" "t_InNodeId tu = k" "t_Type tu = 1"
    and plain: "\<not> contains_str (t_TcpListenAddr (listen_override f tu)) '',''"
    and safe: "safe_names d k {fwd_service_name d f @ ''_tcp'', fwd_service_name d f @ ''_udp''}"
    and o: "own j (fwd_service_name d f)" and ok: "rr_Errors (fst (reconcile_tunnel e k tu rw)) = []"
  shows "has_names k {fwd_service_name d f @ ''_tcp'', fwd_service_name d f @ ''_udp''} (reconcile_tunnel e k tu rw)"
proof -
  let ?A = "{fwd_service_name d f @ ''_tcp'', fwd_service_name d f @ ''_udp''}"
  obtain r w where rw: "rw = (r, w)" by (cases rw)
  have rec: "recovers d (wdb w)" using J by (simp add: run_ok_def rw)
  obtain f' where f': "f' \<in> set (forwards (wdb w))" "f_ID f' = f_ID f" "f_UserId f' = f_UserId f"
    "f_TunnelId f' = f_TunnelId f" "f_ListenIp f' = f_ListenIp f" using recovers_forward [OF rec f] by blast
  obtain i out where nodes: "getRequiredNodes (wdb w) tu = Inr (i, out)"
    using ok by (auto simp: reconcile_tunnel_def rw split: sum.splits)
  have "GetNodeById (wdb w) k = Some i"
    using nodes link by (auto simp: getRequiredNodes_def split: option.splits if_splits)
  then have i: "n_ID i = k" using GetNodeById_Some by blast
  let ?xs = "tunnel_forwards (wdb w) (t_ID tu)" and ?step = "reconcile_one e k tu i out"
  have tun: "reconcile_tunnel e k tu rw = fold ?step ?xs rw" by (simp add: reconcile_tunnel_def rw nodes)
  have "has_names k ?A (fold ?step ?xs rw)"
  proof (rule fold_hits [where J = "run_ok e d k" and x = f'])
    show "f' \<in> set ?xs" using f' link by (simp add: tunnel_forwards_def)
    show "run_ok e d k rw" by (rule J)
    show "rr_Errors (fst (fold ?step ?xs rw)) = []" using ok by (simp add: tun)
    have paused: "f_Status y = forwardStatusPaused \<Longrightarrow> y \<in> set (forwards d)" if "y \<in> set ?xs" for y
      using paused_before [OF hist_start [OF rec]] that by (simp add: tunnel_forwards_def)
    fix y and rw' :: "ReconcileResult \<times> fleet world"
    assume J: "run_ok e d k rw'"
    show "run_ok e d k (?step y rw')" if "y \<in> set ?xs"
      by (rule run_step(1) [OF t _ J]) (use paused [OF that] in \<open>auto intro: hist_reconcile_one hist_start\<close>)
    show "has_names k ?A (?step y rw')" if "y \<in> set ?xs" "has_names k ?A rw'"
      by (rule run_step(2) [OF t _ J safe that(2)])
        (use paused [OF that(1)] in \<open>auto intro: hist_reconcile_one hist_start\<close>)
    show "has_names k ?A (?step f' rw')" if "rr_Errors (fst (?step f' rw')) = []"
    proof (rule reconcile_one_adds [OF t J _ link(4) _ safe o _ i that])
      show "f_Status f' = forwardStatusPaused \<Longrightarrow> f' \<in> set (forwards d)"
        by (rule paused) (use f' link in \<open>simp_all add: tunnel_forwards_def\<close>)
      show "\<not> contains_str (t_TcpListenAddr (listen_override f' tu)) '',''"
        using plain f' by (simp add: listen_override_def split: if_splits)
      show "fwd_service_name d f' = fwd_service_name d f" using f' by (simp add: fwd_service_name_def)
    qed
  qed (rule errors_stay(1))
  then show ?thesis by (simp add: tun)
qed

text \<open>C11: Reconciliation restores port forwards. When the nodes run the commands of \<open>Node_Command\<close>
  and a reconciliation of a node reports no error, then afterwards every port forward of a
  single listen address that enters at the node has both its services registered there,
  whatever was registered before, and whatever the other phases of the run did.\<close>

theorem reconcile_restores:
  assumes t: "transport e = fleet_transport oss" and wf: "\<forall>n. svc_wf (wnet w n)"
    and f: "f \<in> set (forwards (wdb w))" and tu: "tu \<in> set (tunnels (wdb w))"
    and link: "t_ID tu = f_TunnelId f" "f_TunnelId f \<noteq> 0" "t_InNodeId tu = k" "t_Type tu = 1"
    and plain: "\<not> contains_str (t_TcpListenAddr (listen_override f tu)) '',''"
    and range: "- (2 ^ 63) \<le> f_ID f" "f_ID f < 2 ^ 63"
    and ok: "rr_Errors (fst (reconcileGost e locked k w)) = []"
  shows "{fwd_service_name (wdb w) f @ ''_tcp'', fwd_service_name (wdb w) f @ ''_udp''} \<subseteq>
    reg_names (wnet (snd (reconcileGost e locked k w)) k)"
proof -
  let ?d = "wdb w" and ?name = "fwd_service_name (wdb w) f"
  let ?A = "{?name @ ''_tcp'', ?name @ ''_udp''}"
  let ?r0 = "\<lparr>rr_Limiters = 0, rr_Forwards = 0, rr_OrphansCleaned = 0, rr_Errors = []\<rparr>"
  have o: "own (f_ID f) ?name" by (simp add: fwd_service_name_def)
  have on: "forward_on_node ?d k (f_ID f)"
    using f tu link unfolding forward_on_node_def list_ex_iff by blast
  have safe: "safe_names ?d k ?A" by (rule safe_own [OF on _ range]) (simp add: o)
  have free: "\<not> locked" using ok by (auto simp: reconcileGost_def)
  have fwds: "f \<in> set (tunnel_forwards ?d (t_ID tu))" and tuns: "tu \<in> set (node_tunnels ?d k)"
    using f tu link by (simp_all add: tunnel_forwards_def node_tunnels_def)
  have J0: "run_ok e ?d k (reconcileLimiters e k (?r0, w))"
    by (rule run_step(1) [OF t, where rw = "(?r0, w)"])
      (use wf in \<open>auto simp: run_ok_def intro!: hist_limiters hist_start\<close>)
  let ?rw1 = "reconcileForwards e k (reconcileLimiters e k (?r0, w))"
  let ?rw2 = "if node_route_forwards ?d k \<noteq> [] then reconcileRouteForwards e k ?rw1 else ?rw1"
  have ne: "concat (map (\<lambda>t. tunnel_forwards ?d (t_ID t)) (node_tunnels ?d k)) \<noteq> []"
  proof -
    have "f \<in> set (concat (map (\<lambda>t. tunnel_forwards ?d (t_ID t)) (node_tunnels ?d k)))"
      using fwds tuns by auto
    then show ?thesis by (metis emptyE empty_set)
  qed
  have gost: "reconcileGost e locked k w = cleanupOrphanServices e k ?rw2"
    using free ne unfolding reconcileGost_def Let_def by (simp only: if_False if_True not_False_eq_True)
  have J1: "run_ok e ?d k ?rw1"
    by (rule run_step(1) [OF t _ J0]) (auto intro!: hist_forwards hist_start)
  have J2: "run_ok e ?d k ?rw2"
    by (rule run_step(1) [OF t _ J1]) (auto intro!: hist_routes hist_start)
  have errs: "rr_Errors (fst ?rw1) = []"
  proof -
    have "rr_Errors (fst ?rw2) = []" using ok unfolding gost errors_stay(3) .
    moreover have "rr_Errors (fst ?rw1) = []" if "rr_Errors (fst (reconcileRouteForwards e k ?rw1)) = []"
      using errors_stay(2) that unfolding reconcileRouteForwards_def by (rule fold_errors)
    ultimately show ?thesis by (cases "node_route_forwards ?d k = []") simp_all
  qed
  have tuns0: "node_tunnels (wdb (snd (reconcileLimiters e k (?r0, w)))) k = node_tunnels ?d k"
  proof -
    have "recovers ?d (wdb (snd (reconcileLimiters e k (?r0, w))))" using J0 by (simp add: run_ok_def)
    then show ?thesis by (simp only: node_tunnels_def recovers_fields(2))
  qed
  have "has_names k ?A ?rw1"
    unfolding reconcileForwards_def
  proof (rule fold_hits [where J = "run_ok e ?d k" and x = tu])
    show "tu \<in> set (node_tunnels (wdb (snd (reconcileLimiters e k (?r0, w)))) k)" using tuns tuns0 by simp
    show "run_ok e ?d k (reconcileLimiters e k (?r0, w))" by (rule J0)
    show "rr_Errors (fst (fold (reconcile_tunnel e k) (node_tunnels (wdb (snd (reconcileLimiters e k (?r0, w)))) k)
        (reconcileLimiters e k (?r0, w)))) = []" using errs by (simp add: reconcileForwards_def)
    fix y rw
    assume J: "run_ok e ?d k rw"
    note step = run_step [OF t _ J, of "reconcile_tunnel e k y rw"]
    show "run_ok e ?d k (reconcile_tunnel e k y rw)" by (rule step(1)) (auto intro: hist_tunnel hist_start)
    show "has_names k ?A (reconcile_tunnel e k y rw)" if "has_names k ?A rw"
      by (rule step(2) [OF _ safe that]) (auto intro: hist_tunnel hist_start)
    show "has_names k ?A (reconcile_tunnel e k tu rw)" if "rr_Errors (fst (reconcile_tunnel e k tu rw)) = []"
      by (rule reconcile_tunnel_adds [OF t J f link plain safe o that])
  qed (rule tunnel_errors_stay)
  note names1 = this
  have "has_names k ?A ?rw2"
    by (rule run_step(2) [OF t _ J1 safe names1]) (auto intro!: hist_routes hist_start)
  then have "has_names k ?A (reconcileGost e locked k w)"
    by (rule run_step(2) [OF t _ J2 safe, rotated]) (auto simp: gost intro!: hist_orphans hist_start)
  then show ?thesis by (simp add: has_names_def)
qed

text \<open>The witness: node 1 lost its services, and forward 10 of \<open>fleet_world\<close> runs there.\<close>

definition restore_world :: "fleet world" where
  "restore_world = fleet_world\<lparr>wdb := (wdb fleet_world)\<lparr>tunnels := [sample_tunnel 1 1 1],
     forwards := [sample_forward\<lparr>f_TunnelId := 1\<rparr>]\<rparr>\<rparr>"

lemma restore_run: "rr_Errors (fst (reconcileGost fleet_env False 1 restore_world)) = []"
  by code_simp

theorem reconcile_restores_witness:
  "{''10_2_1_tcp'', ''10_2_1_udp''} \<subseteq> reg_names (wnet (snd (reconcileGost fleet_env False 1 restore_world)) 1) \<and>
   ''10_2_1_tcp'' \<notin> reg_names (wnet restore_world 1)"
proof
  let ?f = "sample_forward\<lparr>f_TunnelId := 1\<rparr>"
  have t: "transport fleet_env = fleet_transport (\<lambda>_. ok_os)" by (simp add: fleet_env_def)
  have wf: "\<forall>n. svc_wf (wnet restore_world n)"
    using other_node_wf by (simp add: restore_world_def fleet_world_def)
  have f: "?f \<in> set (forwards (wdb restore_world))" and tu: "sample_tunnel 1 1 1 \<in> set (tunnels (wdb restore_world))"
    by (simp_all add: restore_world_def)
  have link: "t_ID (sample_tunnel 1 1 1) = f_TunnelId ?f" "f_TunnelId ?f \<noteq> 0" "t_InNodeId (sample_tunnel 1 1 1) = 1"
    "t_Type (sample_tunnel 1 1 1) = 1" "\<not> contains_str (t_TcpListenAddr (listen_override ?f (sample_tunnel 1 1 1))) '',''"
    "- (2 ^ 63) \<le> f_ID ?f" "f_ID ?f < 2 ^ 63" by code_simp+
  have name: "fwd_service_name (wdb restore_world) ?f = ''10_2_1''" by code_simp
  from reconcile_restores [OF t wf f tu link restore_run] name
  show "{''10_2_1_tcp'', ''10_2_1_udp''} \<subseteq> reg_names (wnet (snd (reconcileGost fleet_env False 1 restore_world)) 1)"
    by simp
  show "''10_2_1_tcp'' \<notin> reg_names (wnet restore_world 1)" by code_simp
qed

end
