(* ===== verification/Type_Inv.thy ===== *)
theory Type_Inv
  imports Panel_Reach
begin

text \<open>
  The types of the panel's rows, as an invariant of every reachable world: the status of a
  forward is one of its three values, a forward runs over a tunnel or over a route and not both,
  accounts have a role and switches that are 0 or 1 and a key of their own, and a user has one
  permission row per node. The locale \<open>db_invariant\<close> is interpreted on it with its own view.
\<close>

definition forward_typed :: "Forward \<Rightarrow> bool" where
  "forward_typed f \<longleftrightarrow> f_Status f \<in> {-1, 0, 1} \<and> (f_TunnelId f = 0) \<noteq> (f_RouteId f = 0)"

definition user_typed :: "User \<Rightarrow> bool" where
  "user_typed u \<longleftrightarrow> u_RoleId u \<in> {0, 1} \<and> u_GostEnabled u \<in> {0, 1} \<and> u_XrayEnabled u \<in> {0, 1}"

abbreviation un_pair :: "UserNode \<Rightarrow> int \<times> int" where
  "un_pair un \<equiv> (un_UserId un, un_NodeId un)"

definition typed :: "db \<Rightarrow> bool" where
  "typed d \<longleftrightarrow> (\<forall>f \<in> set (forwards d). forward_typed f) \<and>
     (\<forall>u \<in> set (users d). user_typed u \<and> u_ID u < seq d T_user) \<and> distinct (map u_ID (users d)) \<and>
     distinct (map un_pair (user_nodes d))"

abbreviation u_core :: "User \<Rightarrow> int \<times> int \<times> int \<times> int" where
  "u_core u \<equiv> (u_ID u, u_RoleId u, u_GostEnabled u, u_XrayEnabled u)"

definition typed_view :: "db \<Rightarrow> (int \<times> int \<times> int) list \<times> (int \<times> int \<times> int \<times> int) list
    \<times> (int \<times> int) list \<times> int" where
  "typed_view d = (map (\<lambda>f. (f_Status f, f_TunnelId f, f_RouteId f)) (forwards d), map u_core (users d),
     map un_pair (user_nodes d), seq d T_user)"

lemma typed_by_view: "typed_view d' = typed_view d \<Longrightarrow> typed d \<Longrightarrow> typed d'"
proof -
  assume v: "typed_view d' = typed_view d" and t: "typed d"
  have f: "map (\<lambda>f. (f_Status f, f_TunnelId f, f_RouteId f)) (forwards d') =
      map (\<lambda>f. (f_Status f, f_TunnelId f, f_RouteId f)) (forwards d)"
    and u: "map u_core (users d') = map u_core (users d)"
    and rest: "map un_pair (user_nodes d') = map un_pair (user_nodes d)" "seq d' T_user = seq d T_user"
    using v by (simp_all add: typed_view_def)
  have "(\<forall>x \<in> set (forwards d'). forward_typed x) = (\<forall>x \<in> set (forwards d). forward_typed x)"
    using ball_core [OF f, of "\<lambda>(s, a, b). s \<in> {-1, 0, 1} \<and> (a = 0) \<noteq> (b = 0)"] by (simp add: forward_typed_def)
  moreover have "(\<forall>x \<in> set (users d'). user_typed x \<and> u_ID x < seq d T_user) =
      (\<forall>x \<in> set (users d). user_typed x \<and> u_ID x < seq d T_user)"
    using ball_core [OF u, of "\<lambda>(i, r, g, x). (r \<in> {0, 1} \<and> g \<in> {0, 1} \<and> x \<in> {0, 1}) \<and> i < seq d T_user"]
    by (simp add: user_typed_def)
  moreover have "map u_ID (users d') = map u_ID (users d)"
    using arg_cong [OF u, of "map fst"] by (simp add: comp_def)
  ultimately show ?thesis using t unfolding typed_def rest by simp
qed

interpretation ty: db_invariant typed typed_view
  by unfold_locales (rule typed_by_view)

section \<open>The changes of the database\<close>

lemma typed_view_simps [simp]:
  "typed_view (route_ports_update f d) = typed_view d" "typed_view (tunnels_update f1 d) = typed_view d"
  "typed_view (nodes_update f2 d) = typed_view d" "typed_view (user_tunnels_update f3 d) = typed_view d"
  "typed_view (speed_limits_update f4 d) = typed_view d" "typed_view (routes_update f5 d) = typed_view d"
  "typed_view (route_hops_update f6 d) = typed_view d" "typed_view (xray_inbounds_update f7 d) = typed_view d"
  "typed_view (xray_clients_update f8 d) = typed_view d" "typed_view (statistics_flows_update f9 d) = typed_view d"
  "typed_view (forward_flows_update g d) = typed_view d" "typed_view (xray_flows_update g1 d) = typed_view d"
  "typed_view (user_flows_update g2 d) = typed_view d" "typed_view (monitor_latencies_update g3 d) = typed_view d"
  "typed_view (insertRoutePort p d) = typed_view d" "typed_view (insertRoute r d) = typed_view d"
  "typed_view (insertRouteHop h d) = typed_view d" "typed_view (insertTunnel t d) = typed_view d"
  "typed_view (insertNode n d) = typed_view d" "typed_view (insertUserTunnel ut d) = typed_view d"
  "typed_view (insertSpeedLimit sl d) = typed_view d" "typed_view (insertStatisticsFlow sf d) = typed_view d"
  "typed_view (set_tunnel k g4 d) = typed_view d" "typed_view (set_route k g5 d) = typed_view d"
  "typed_view (set_node k g6 d) = typed_view d"
  by (simp_all add: typed_view_def bump_key_def insertRoutePort_def insertRoute_def insertRouteHop_def
      insertTunnel_def insertNode_def insertUserTunnel_def insertSpeedLimit_def insertStatisticsFlow_def
      set_tunnel_def set_route_def set_node_def)

lemma typed_set_forward:
  assumes "typed d" and "\<And>f. f \<in> set (forwards d) \<Longrightarrow> f_ID f = k \<Longrightarrow> forward_typed f \<Longrightarrow> forward_typed (g f)"
  shows "typed (set_forward k g d)"
  using assms by (auto simp: typed_def set_forward_def set_update_where)

lemma typed_status: "typed d \<Longrightarrow> s \<in> {-1, 0, 1} \<Longrightarrow> typed (set_forward k (\<lambda>f. f\<lparr>f_Status := s\<rparr>) d)"
  by (rule typed_set_forward) (auto simp: forward_typed_def)

lemma typed_insertForward: "typed d \<Longrightarrow> forward_typed f \<Longrightarrow> typed (insertForward f d)"
  by (simp add: typed_def insertForward_def bump_key_def forward_typed_def)

lemma typed_delete:
  "typed d \<Longrightarrow> typed (forwards_update (delete_where p) d)"
  "typed d \<Longrightarrow> typed (users_update (delete_where q) d)"
  "typed d \<Longrightarrow> typed (user_nodes_update (delete_where r) d)"
  "typed d \<Longrightarrow> typed (delete_forward_row k d)"
  by (auto simp: typed_def delete_where_def distinct_map_filter delete_forward_row_def)

lemma typed_users:
  assumes "typed d" and "\<And>u. user_typed u \<Longrightarrow> user_typed (g u) \<and> u_ID (g u) = u_ID u"
  shows "typed (users_update (update_where p g) d)"
proof -
  have "map u_ID (update_where p g xs) = map u_ID xs" if "\<forall>x \<in> set xs. user_typed x" for xs
    using that assms(2) by (induction xs) (auto simp: update_where_def)
  then show ?thesis using assms by (auto simp: typed_def set_update_where)
qed

lemma typed_insertUser: "typed d \<Longrightarrow> user_typed u \<Longrightarrow> typed (insertUser u d)"
  by (auto simp: typed_def insertUser_def bump_key_def next_key_def user_typed_def insert_row_def)

lemma typed_insertUserNode: "typed d \<Longrightarrow> typed (insertUserNode un d)"
  by (auto simp: typed_def insertUserNode_def bump_key_def insert_row_def list_ex_iff)

lemmas typed_writes = typed_set_forward typed_status typed_insertForward typed_delete typed_users
  typed_insertUser typed_insertUserNode

section \<open>The handlers\<close>

lemma typed_transaction:
  "typed (wdb w) \<Longrightarrow> list_all (\<lambda>s. \<forall>d. typed d \<longrightarrow> typed (snd s d)) ss \<Longrightarrow>
     typed (wdb (snd (transaction e ss ce w)))"
  by (rule transaction_inv) (auto simp: list_all_iff)

lemma typed_to_error: "typed (wdb w) \<Longrightarrow> typed (wdb (updateForwardStatusToError e k w))"
  unfolding updateForwardStatusToError_def
  by (erule ty.keep_exec) (auto simp: forwardStatusError_def intro!: typed_status)

lemma typed_set_status:
  "typed (wdb w) \<Longrightarrow> s \<in> {-1, 0, 1} \<Longrightarrow> typed (wdb (set_status e k s w))"
  unfolding set_status_def by (erule ty.keep_exec) (rule typed_set_forward, auto simp: forward_typed_def)

lemma typed_updateGost: "typed (wdb w) \<Longrightarrow> typed (wdb (snd (updateGostServices e f t lm i out name w)))"
  by (auto simp: updateGostServices_def case_prod_beta Let_def frame_simps intro!: typed_to_error)

lemma statuses [simp]:
  "forwardStatusActive \<in> {-1, 0, 1}" "forwardStatusPaused \<in> {-1, 0, 1}" "forwardStatusError \<in> {-1, 0, 1}"
  by (simp_all add: panel_consts)

lemma typed_ports:
  "typed d \<Longrightarrow> typed (route_ports_update f d)" "typed d \<Longrightarrow> typed (insertRoutePort p d)"
  "typed d \<Longrightarrow> typed (insertRoute r d)" "typed d \<Longrightarrow> typed (insertRouteHop h d)"
  "typed d \<Longrightarrow> typed (route_hops_update f1 d)" "typed d \<Longrightarrow> typed (routes_update f2 d)"
  "typed d \<Longrightarrow> typed (set_route k f3 d)"
  by (rule ty.view [of _ d], simp, assumption)+

lemma typed_tx_ports: "list_all (\<lambda>s. \<forall>d. typed d \<longrightarrow> typed (snd s d)) (map (\<lambda>p. (er, insertRoutePort p)) ps)"
  by (simp add: list_all_iff typed_ports)

lemma typed_route_forwards:
  assumes ty: "typed (wdb w)"
  shows "fd_RouteId dto \<noteq> 0 \<Longrightarrow> typed (wdb (snd (createRouteForward e dto userId roleId userName w)))"
    and "typed (wdb (snd (updateRouteForward e du f userId roleId w)))"
    and "typed (wdb (snd (deleteRouteForward e f w)))"
    and "typed (wdb (snd (pauseRouteForward e f w)))"
    and "typed (wdb (snd (resumeRouteForward e f w)))"
proof -
  have del: "typed (wdb (snd (transaction e [(er, route_ports_update p), (er, forwards_update (delete_where q))] ce w')))"
    if "typed (wdb w')" for er p q ce w'
    using that by (rule typed_transaction) (simp add: typed_ports typed_delete)
  show "typed (wdb (snd (deleteRouteForward e f w)))"
    using ty by (auto simp: deleteRouteForward_def Let_def case_prod_beta frame_simps split: option.split intro!: del)
  show "typed (wdb (snd (pauseRouteForward e f w)))" "typed (wdb (snd (resumeRouteForward e f w)))"
    using ty by (auto simp: pauseRouteForward_def resumeRouteForward_def Let_def case_prod_beta frame_simps
        split: option.split sum.split intro!: typed_set_status simp: panel_consts)
  have new: "typed (wdb (snd (transaction e ((er, insertForward g) # map (\<lambda>p. (er, insertRoutePort p)) ps) ce w)))"
    if "forward_typed g" for er g ps ce
    using ty by (rule typed_transaction) (simp add: typed_tx_ports typed_insertForward that)
  show "typed (wdb (snd (createRouteForward e dto userId roleId userName w)))" if "fd_RouteId dto \<noteq> 0"
    using ty that by (auto simp: createRouteForward_def Let_def case_prod_beta frame_simps forward_typed_def panel_consts
        simp del: map_map list.map_comp split: sum.split option.split intro!: new typed_to_error)
  have upd: "typed (wdb (snd (transaction e ((er, route_ports_update q) # (er, set_forward k g) #
      map (\<lambda>p. (er, insertRoutePort p)) ps) ce w')))"
    if "typed (wdb w')" "\<And>f. forward_typed (g f)" for er q k g ps ce w'
    using that(1) by (rule typed_transaction) (simp add: typed_tx_ports typed_ports typed_set_forward that(2))
  define rid where "rid = (if fd_RouteId du = 0 then f_RouteId f else fd_RouteId du)"
  define sp where "sp = (case fd_InPort du of None \<Rightarrow> f_InPort f | Some p \<Rightarrow> p)"
  note unf = updateRouteForward_def Let_def rid_def [symmetric] sp_def [symmetric]
  show "typed (wdb (snd (updateRouteForward e du f userId roleId w)))"
  proof (cases "roleId = adminRoleId \<and> rid \<noteq> 0 \<and> (\<exists>route hops i ps. LoadRouteWithHops (wdb w) rid = Inr (route, hops) \<and>
      allocateRouteForwardPorts (wdb w) route hops (Some sp) (Some (f_ID f)) = Inr (i, ps))")
    case True
    then obtain route hops i ps where l: "roleId = adminRoleId" "rid \<noteq> 0"
      "LoadRouteWithHops (wdb w) rid = Inr (route, hops)"
      "allocateRouteForwardPorts (wdb w) route hops (Some sp) (Some (f_ID f)) = Inr (i, ps)" by blast
    have w1: "typed (wdb (snd (cleanupRouteForwardServices e f w)))" using ty by (simp add: frame_simps)
    note u = upd [OF w1]
    show ?thesis
      using ty l(2) unfolding unf
      by (simp add: l case_prod_beta frame_simps del: map_map list.map_comp split: option.split)
         (auto simp: l(2) forward_typed_def panel_consts frame_simps simp del: map_map list.map_comp
           intro!: typed_to_error u)
  next
    case False
    then show ?thesis using ty unfolding unf by (auto split: sum.split)
  qed
qed

lemma typed_CreateForward:
  assumes ty: "typed (wdb w)"
  shows "typed (wdb (snd (CreateForward e dto userId roleId userName w)))"
proof -
  have new: "typed (wdb (snd (db_write e (insertForward f) w)))" if "forward_typed f" for f
    using ty by (rule ty.keep_write) (rule typed_insertForward [OF _ that])
  have del: "typed (wdb (db_exec e (delete_forward_row k) w'))" if "typed (wdb w')" for k w'
    using that by (rule ty.keep_exec) (rule typed_delete)
  show ?thesis
    using ty by (auto simp: CreateForward_def Let_def case_prod_beta frame_simps typed_route_forwards forward_typed_def
        panel_consts
        simp del: wdb_db_write split: sum.split option.split intro!: new del typed_to_error)
qed

lemma typed_update_services:
  assumes ty: "typed (wdb w)" and link: "\<And>f. f \<in> set (forwards (wdb w)) \<Longrightarrow> f_ID f = f_ID u \<Longrightarrow> f_RouteId f = 0"
    and t: "f_TunnelId u \<noteq> 0"
  shows "typed (wdb (snd (update_services e f u tn lm i out name w)))"
proof -
  have place: "typed (wdb (snd (update_in_place e f u tn lm i out name w')))" if "typed (wdb w')" for w'
    using that by (auto simp: update_in_place_def Let_def case_prod_beta frame_simps split: option.split
        intro!: typed_to_error typed_updateGost)
  have exec: "typed (wdb (db_exec e (set_forward (f_ID u) (\<lambda>f. f\<lparr>f_TunnelId := f_TunnelId u, f_InPort := f_InPort u,
      f_OutPort := f_OutPort u, f_ListenIp := f_ListenIp u, f_Status := forwardStatusError\<rparr>)) w'))"
    if "wdb w' = wdb w" for w'
  proof -
    have "typed (set_forward (f_ID u) (\<lambda>f. f\<lparr>f_TunnelId := f_TunnelId u, f_InPort := f_InPort u,
      f_OutPort := f_OutPort u, f_ListenIp := f_ListenIp u, f_Status := forwardStatusError\<rparr>) (wdb w))"
      using ty by (rule typed_set_forward) (use link t in \<open>auto simp: forward_typed_def forwardStatusError_def\<close>)
    with ty that db_exec_db show ?thesis by metis
  qed
  show ?thesis
    using ty by (auto simp: update_services_def Let_def case_prod_beta frame_simps split: option.split intro!: exec place)
qed

lemma typed_UpdateForward:
  assumes inv: "panel_inv (wdb w)" and ty: "typed (wdb w)"
  shows "typed (wdb (snd (UpdateForward e dto userId roleId w)))"
proof (cases "\<exists>f0. validateForwardExists (wdb w) (fd_ID dto) userId roleId = Some f0 \<and> f_RouteId f0 = 0 \<and>
    fd_RouteId dto = 0")
  case False
  then show ?thesis using ty
    by (auto simp: UpdateForward_def Let_def typed_route_forwards split: option.split)
next
  case True
  then obtain f0 where f0: "validateForwardExists (wdb w) (fd_ID dto) userId roleId = Some f0" "f_RouteId f0 = 0"
    "fd_RouteId dto = 0" by blast
  from validateForwardExists_Some [OF f0(1)] have m: "f0 \<in> set (forwards (wdb w))" "f_ID f0 = fd_ID dto" by simp_all
  have "distinct (map f_ID (forwards (wdb w)))" using panel_invD(3) [OF inv] by (simp add: keys_wf_def)
  then have link: "f_RouteId f = 0" if "f \<in> set (forwards (wdb w))" "f_ID f = fd_ID dto" for f
    using that m f0(2) by (metis distinct_map inj_on_def)
  have t: "fd_TunnelId dto \<noteq> 0" if "firstTunnel (wdb w) (fd_TunnelId dto) = Some tn" for tn
    using firstTunnel_Some [OF that] panel_invD(3) [OF inv] by (auto simp: keys_wf_def)
  have saved: "typed (wdb (snd (db_write e (set_forward (fd_ID dto) g) (snd (update_services e f u tn lm a b name w)))))"
    if "fst (update_services e f u tn lm a b name w) = None"
      "\<And>f. f_RouteId f = 0 \<Longrightarrow> forward_typed (g f)" for g f u tn lm a b name
    using update_services_ok [OF that(1)] ty that(2) link by (simp add: typed_set_forward)
  show ?thesis
    using ty f0 m(2) by (auto simp: UpdateForward_def Let_def case_prod_beta forward_typed_def panel_consts simp del: wdb_db_write
        split: option.split sum.split intro!: saved typed_update_services link dest: t)
qed

lemma typed_forward_ops:
  assumes ty: "typed (wdb w)"
  shows "typed (wdb (snd (DeleteForward e k userId roleId w)))"
    and "typed (wdb (snd (ForceDeleteForward e k w)))"
    and "typed (wdb (snd (PauseForward e k userId roleId w)))"
    and "typed (wdb (snd (ResumeForward e k userId roleId w)))"
    and "typed (wdb (snd (UpdateForwardOrder e items userId roleId w)))"
    and "typed (wdb (UpdateForwardA e f w))"
proof -
  have del: "typed (wdb (snd (db_write e (delete_forward_row k) w')))" if "typed (wdb w')" for w'
    using that by (rule ty.keep_write) (rule typed_delete)
  show "typed (wdb (snd (DeleteForward e k userId roleId w)))" "typed (wdb (snd (ForceDeleteForward e k w)))"
    using ty by (auto simp: DeleteForward_def ForceDeleteForward_def Let_def case_prod_beta frame_simps
        typed_route_forwards simp del: wdb_db_write split: option.split sum.split intro!: del ty.keep_exec_view)
  show "typed (wdb (snd (PauseForward e k userId roleId w)))" "typed (wdb (snd (ResumeForward e k userId roleId w)))"
    using ty by (auto simp: PauseForward_def ResumeForward_def Let_def case_prod_beta frame_simps panel_consts
        typed_route_forwards split: option.split sum.split intro!: typed_set_status)
  have "typed (wdb (fold (\<lambda>(k, inx). db_exec e (set_forward k (\<lambda>f. f\<lparr>f_Inx := inx\<rparr>))) items w))"
    using ty by (rule ty.keep_fold) (auto intro!: ty.keep_exec typed_set_forward simp: forward_typed_def)
  with ty show "typed (wdb (snd (UpdateForwardOrder e items userId roleId w)))"
    by (simp add: UpdateForwardOrder_def)
  show "typed (wdb (UpdateForwardA e f w))"
    using ty by (auto simp: UpdateForwardA_def Let_def split: option.split sum.split intro!: typed_updateGost)
qed

lemma typed_route_ops:
  assumes ty: "typed (wdb w)"
  shows "typed (wdb (snd (CreateRoute e rd w)))" and "typed (wdb (snd (UpdateRoute e ru w)))"
    and "typed (wdb (snd (DeleteRoute e k w)))"
proof -
  have tx: "typed (wdb (snd (transaction e ss ce w)))"
    if "list_all (\<lambda>s. \<forall>d. typed d \<longrightarrow> typed (snd s d)) ss" for ss ce
    using ty that by (rule typed_transaction)
  have hops: "list_all (\<lambda>s. \<forall>d. typed d \<longrightarrow> typed (snd s d)) (map (\<lambda>h. (er, insertRouteHop h)) hs)" for er hs
    by (simp add: list_all_iff typed_ports)
  have row: "list_all (\<lambda>s. \<forall>d. typed d \<longrightarrow> typed (snd s d)) (update_route_row e ru)"
    by (auto simp: update_route_row_def list_all_iff Let_def case_prod_beta typed_ports split: option.splits)
  show "typed (wdb (snd (CreateRoute e rd w)))"
    using ty by (auto simp: CreateRoute_def Let_def case_prod_beta typed_ports hops simp del: map_map list.map_comp
        split: sum.split option.split intro!: tx)
  show "typed (wdb (snd (UpdateRoute e ru w)))"
    using ty by (auto simp: UpdateRoute_def Let_def case_prod_beta typed_ports hops row simp del: map_map list.map_comp
        split: sum.split option.split intro!: tx)
  show "typed (wdb (snd (DeleteRoute e k w)))"
    using ty by (auto simp: DeleteRoute_def Let_def case_prod_beta typed_ports split: option.split intro!: tx)
qed

lemma typed_tunnel_ops:
  assumes ty: "typed (wdb w)"
  shows "typed (wdb (snd (CreateTunnel e td w)))" and "typed (wdb (snd (UpdateTunnel e tu w)))"
    and "typed (wdb (snd (UpdateTunnelOrder e items w)))" and "typed (wdb (snd (DeleteTunnel e k w)))"
    and "typed (wdb (snd (CreateSpeedLimit e sd w)))" and "typed (wdb (snd (UpdateSpeedLimit e su w)))"
    and "typed (wdb (snd (DeleteSpeedLimit e k w)))" and "typed (wdb (snd (CreateNode e secret nd w)))"
    and "typed (wdb (snd (UpdateNode e nu w)))" and "typed (wdb (snd (UpdateNodeOrder e items w)))"
    and "typed (wdb (snd (DeleteNode e k w)))"
proof -
  have fold: "typed (wdb (fold (\<lambda>(k, inx). db_exec e (g k inx)) items w))"
    if "\<And>k inx d. typed_view (g k inx d) = typed_view d" for g :: "int \<Rightarrow> int \<Rightarrow> db \<Rightarrow> db"
    using ty by (rule ty.keep_fold) (auto intro!: ty.keep_exec_view that)
  show "typed (wdb (snd (UpdateTunnelOrder e items w)))" "typed (wdb (snd (UpdateNodeOrder e items w)))"
    by (auto simp: UpdateTunnelOrder_def UpdateNodeOrder_def intro!: fold)
  have clients: "typed (wdb (fold (\<lambda>ib w. db_exec e (xray_clients_update (q ib))
      (snd (XrayRemoveInbound e k (xi_Tag ib) w))) ibs w))" for q ibs
    using ty by (rule ty.keep_fold) (auto intro!: ty.keep_exec_view simp: frame_simps)
  show "typed (wdb (snd (DeleteNode e k w)))"
    using ty by (auto simp: DeleteNode_def Let_def split: option.split
        intro!: ty.keep_exec_view ty.keep_exec [where f = "user_nodes_update f" for f] typed_delete clients)
  show "typed (wdb (snd (CreateTunnel e td w)))" "typed (wdb (snd (UpdateTunnel e tu w)))"
    "typed (wdb (snd (DeleteTunnel e k w)))" "typed (wdb (snd (CreateSpeedLimit e sd w)))"
    "typed (wdb (snd (UpdateSpeedLimit e su w)))" "typed (wdb (snd (DeleteSpeedLimit e k w)))"
    "typed (wdb (snd (CreateNode e secret nd w)))" "typed (wdb (snd (UpdateNode e nu w)))"
    using ty by (auto simp: CreateTunnel_def UpdateTunnel_def DeleteTunnel_def CreateSpeedLimit_def UpdateSpeedLimit_def
        DeleteSpeedLimit_def CreateNode_def UpdateNode_def Let_def case_prod_beta frame_simps simp del: wdb_db_write
        split: option.split sum.split intro!: ty.keep_write_view ty.keep_exec_view)
qed

lemma typed_permission_ops:
  assumes ty: "typed (wdb w)"
  shows "typed (wdb (snd (AssignUserTunnel e utd w)))" and "typed (wdb (snd (RemoveUserTunnel e k w)))"
    and "typed (wdb (snd (UpdateUserTunnel e utu w)))"
proof -
  show "typed (wdb (snd (AssignUserTunnel e utd w)))"
    using ty by (auto simp: AssignUserTunnel_def Let_def case_prod_beta frame_simps
        simp del: wdb_db_write split: option.split intro!: ty.keep_write_view)
  have rm: "typed (wdb (remove_forward e t ut f w'))" if "typed (wdb w')" for t ut f w'
    using that by (auto simp: remove_forward_def Let_def frame_simps split: option.split
        intro!: ty.keep_exec typed_delete)
  have "typed (wdb (fold (remove_forward e t ut) fs w))" for t ut fs
    using ty by (rule ty.keep_fold) (rule rm)
  then show "typed (wdb (snd (RemoveUserTunnel e k w)))"
    using ty by (auto simp: RemoveUserTunnel_def Let_def split: option.split intro!: ty.keep_exec_view)
  have p1: "typed (wdb (pauseForwardForDisable e f t ut w'))" if "typed (wdb w')" for f t ut w'
    using that by (auto simp: pauseForwardForDisable_def Let_def frame_simps split: option.split
        intro!: ty.keep_exec typed_status)
  have pause: "typed (wdb (fold (\<lambda>f. pauseForwardForDisable e f t ut) fs w'))" if "typed (wdb w')" for t ut fs w'
    using that by (rule ty.keep_fold) (rule p1)
  have speed: "typed (wdb (change_speed e ut s w'))" if "typed (wdb w')" for ut s w'
    using that by (auto simp: change_speed_def Let_def frame_simps split: option.split intro!: ty.keep_fold)
  show "typed (wdb (snd (UpdateUserTunnel e utu w)))"
    using ty by (auto simp: UpdateUserTunnel_def Let_def split: option.split
        intro!: ty.keep_exec_view pause speed)
qed

section \<open>Reports, the daily task, accounts and statistics\<close>

lemma typed_pause:
  assumes "typed (wdb w)"
  shows "typed (wdb (pause_one e f w))" and "typed (wdb (pauseSingleForward e f w))"
    and "typed (wdb (pause_user_forward e k f w))"
  using assms
  by (auto simp: pause_one_def pauseSingleForward_def pause_user_forward_def Let_def frame_simps panel_consts
      split: option.split intro!: ty.keep_exec typed_status)

lemma typed_pauses:
  assumes "typed (wdb w)"
  shows "typed (wdb (pauseForwardServices e fs w))" and "typed (wdb (fold (pauseSingleForward e) fs w))"
    and "typed (wdb (fold (pause_user_forward e k) fs w))"
  unfolding pauseForwardServices_def by (rule ty.keep_fold [OF assms], erule typed_pause)+

lemma typed_user_exec:
  "typed (wdb w) \<Longrightarrow> (\<And>u. user_typed u \<Longrightarrow> user_typed (g u) \<and> u_ID (g u) = u_ID u) \<Longrightarrow>
     typed (wdb (db_exec e (users_update (update_where p g)) w))"
  by (erule ty.keep_exec) (rule typed_users)

lemma typed_view_users [simp]:
  "(\<And>u. u_core (g u) = u_core u) \<Longrightarrow> typed_view (users_update (update_where p g) d) = typed_view d"
  by (auto simp: typed_view_def update_where_def)

lemma typed_check_limits:
  assumes "typed (wdb w)"
  shows "typed (wdb (checkUserLimits e u w))" and "typed (wdb (checkUserTunnelLimits e t u w))"
  using assms by (auto simp: checkUserLimits_def checkUserTunnelLimits_def pauseAllUserServices_def
      pauseSpecificForward_def split: option.split intro: typed_pauses)

lemma typed_add_flows: "typed (wdb w) \<Longrightarrow> typed (wdb (add_flows e f u ut a b w))"
  unfolding add_flows_def Let_def
  by (auto intro!: ty.keep_exec_view typed_user_exec ty.keep_exec [where f = "set_forward k g" for k g]
      typed_set_forward simp: forward_typed_def user_typed_def)

lemma typed_ProcessFlowUpload:
  assumes ty: "typed (wdb w)" and other: "\<And>w. wdb (other w) = wdb w"
  shows "typed (wdb (ProcessFlowUpload e other secret report w))"
proof -
  have "typed (wdb (processFlowData e other d w))" for d
    using ty by (auto simp: processFlowData_def Let_def other case_prod_beta
        split: list.split option.split intro!: typed_add_flows typed_check_limits)
  with ty show ?thesis by (auto simp: ProcessFlowUpload_def split: option.split)
qed

lemma typed_disable_client: "typed (wdb w) \<Longrightarrow> typed (wdb (disable_client e c w))"
  by (auto simp: disable_client_def Let_def frame_simps split: option.split intro!: ty.keep_exec_view)

lemma typed_xray_report:
  assumes ty: "typed (wdb w)"
  shows "typed (wdb (xray_report e r w))"
proof -
  have l: "typed (wdb (checkUserXrayLimits e u w'))" if "typed (wdb w')" for u w'
    using that by (auto simp: checkUserXrayLimits_def split: option.split intro!: ty.keep_fold typed_disable_client)
  show ?thesis using ty
    by (auto simp: xray_report_def Let_def case_prod_beta user_typed_def split: option.split
        intro!: typed_disable_client l typed_user_exec ty.keep_exec_view)
qed

lemma typed_ProcessXrayFlowUpload: "typed (wdb w) \<Longrightarrow> typed (wdb (ProcessXrayFlowUpload e secret cs w))"
  by (auto simp: ProcessXrayFlowUpload_def split: option.split intro!: ty.keep_fold typed_xray_report)

lemma typed_resetFlow:
  assumes ty: "typed (wdb w)"
  shows "typed (wdb (resetFlow e c w))"
proof -
  have 1: "typed (wdb (reset_user e u w'))" "typed (wdb (reset_permission e t w'))" if "typed (wdb w')" for u t w'
    unfolding reset_user_def reset_permission_def
    using that by (auto intro!: typed_user_exec ty.keep_exec_view simp: user_typed_def)
  have 2: "typed (wdb (expire_user e u w'))" "typed (wdb (expire_permission e t w'))" if "typed (wdb w')" for u t w'
    unfolding expire_user_def expire_permission_def pauseUserForwards_def pauseUserTunnelForwards_def
    using that by (auto intro!: typed_user_exec ty.keep_exec_view typed_pauses simp: user_typed_def)
  show ?thesis unfolding resetFlow_def Let_def
    by (rule ty.keep_fold, rule ty.keep_fold, rule ty.keep_fold, rule ty.keep_fold) (rule ty | erule 1 2)+
qed

lemma typed_derive: "typed (wdb w) \<Longrightarrow> typed (wdb (deriveUserPermissions e u w))"
  by (auto simp: deriveUserPermissions_def Let_def user_typed_def intro!: typed_user_exec)

lemma typed_user_row [simp]: "user_typed (user_row e ud)"
  by (simp add: user_row_def user_typed_def)

lemma typed_add_user_nodes: "typed (wdb w) \<Longrightarrow> typed (wdb (add_user_nodes e rows w))"
  unfolding add_user_nodes_def by (rule ty.keep_fold) (auto intro!: ty.keep_exec typed_insertUserNode)

lemma typed_disable:
  assumes "typed (wdb w)"
  shows "typed (wdb (disableAllUserXrayClients e u w))"
    and "typed (wdb (disableUserXrayClientsOnNodes e u ns w))"
  unfolding disableAllUserXrayClients_def disableUserXrayClientsOnNodes_def clear_client_def
  by (rule ty.keep_fold [OF assms], auto simp: frame_simps intro!: ty.keep_exec_view split: option.split)+

lemma typed_replace:
  assumes "typed (wdb w)"
  shows "typed (wdb (replace_permissions e u nps w))" and "typed (wdb (replace_nodes e u ns w))"
proof -
  have "typed (wdb (db_exec e (user_nodes_update (delete_where p)) w))" for p
    using assms by (rule ty.keep_exec) (rule typed_delete)
  then show "typed (wdb (replace_permissions e u nps w))" "typed (wdb (replace_nodes e u ns w))"
    by (auto simp: replace_permissions_def replace_nodes_def Let_def intro!: typed_disable typed_add_user_nodes)
qed

lemma typed_account_ops:
  assumes ty: "typed (wdb w)"
  shows "typed (wdb (snd (Login e lo w)))" and "typed (wdb (snd (CreateUser e ud w)))"
    and "typed (wdb (snd (UpdateUser e uud w)))" and "typed (wdb (snd (DeleteUser e k w)))"
    and "typed (wdb (snd (UpdatePassword e k up w)))" and "typed (wdb (snd (ResetFlow e k flowType w)))"
proof -
  have mig: "typed (wdb (migrate_password e p u w))" for p u
    using ty by (auto simp: migrate_password_def set_user_def Let_def user_typed_def intro!: typed_user_exec)
  show "typed (wdb (snd (Login e lo w)))"
    using ty by (auto simp: Login_def Let_def split: option.split intro!: typed_derive mig)
  have ins: "typed (wdb (snd (db_write e (insertUser (user_row e ud)) w)))"
    using ty by (rule ty.keep_write) (rule typed_insertUser, auto)
  show "typed (wdb (snd (CreateUser e ud w)))"
    using ty ins by (auto simp: CreateUser_def Let_def case_prod_beta simp del: wdb_db_write
        intro!: typed_derive typed_add_user_nodes)
  have set: "typed (wdb (snd (db_write e (set_user k g) w')))"
    if "typed (wdb w')" "\<And>u. user_typed u \<Longrightarrow> user_typed (g u) \<and> u_ID (g u) = u_ID u" for k g w'
    unfolding set_user_def using that(1) by (rule ty.keep_write) (rule typed_users, auto simp: that(2))
  show "typed (wdb (snd (UpdateUser e uud w)))"
    using ty by (auto simp: UpdateUser_def Let_def case_prod_beta user_typed_def updated_user_def pauseAllUserForwards_def
        simp del: wdb_db_write split: option.split intro!: typed_derive typed_replace typed_disable typed_pauses set)
  show "typed (wdb (snd (UpdatePassword e k up w)))"
    using ty by (auto simp: UpdatePassword_def Let_def case_prod_beta user_typed_def simp del: wdb_db_write
        split: option.split intro!: set)
  show "typed (wdb (snd (ResetFlow e k flowType w)))"
    using ty by (auto simp: ResetFlow_def set_user_def user_typed_def split: option.split
        intro!: typed_user_exec ty.keep_exec_view)
  have f1: "typed (wdb (delete_user_forward e k f w'))" if "typed (wdb w')" for f w'
    using that by (auto simp: delete_user_forward_def frame_simps intro!: ty.keep_exec typed_delete)
  have f: "typed (wdb (fold (delete_user_forward e k) fs w))" for fs
    using ty by (rule ty.keep_fold) (rule f1)
  have c: "typed (wdb (fold (remove_from_node e) cs w'))" if "typed (wdb w')" for cs w'
    using that by (rule ty.keep_fold) (simp add: frame_simps)
  have d: "typed (wdb (db_exec e (user_nodes_update (delete_where p)) w'))"
    "typed (wdb (snd (db_write e (users_update (delete_where q)) w')))" if "typed (wdb w')" for p q w'
    using that ty.keep_exec ty.keep_write typed_delete by blast+
  show "typed (wdb (snd (DeleteUser e k w)))"
    using ty by (auto simp: DeleteUser_def Let_def case_prod_beta simp del: wdb_db_write split: option.split
        intro!: d ty.keep_exec_view c f)
qed

lemma typed_statistics:
  assumes ty: "typed (wdb w)"
  shows "typed (wdb (RecordHourlyStatistics e hour w))"
proof -
  have v: "typed (wdb (fold (\<lambda>x. db_exec e (g x)) xs w'))"
    if "\<And>x d. typed_view (g x d) = typed_view d" "typed (wdb w')" for g w' and xs :: "'b list"
    using that(2) by (rule ty.keep_fold) (auto intro!: ty.keep_exec_view that(1))
  have r: "typed (wdb (fold (record_user e hour) us w))" for us
    using ty by (rule ty.keep_fold) (auto simp: record_user_def Let_def intro!: ty.keep_exec_view)
  show ?thesis
    unfolding RecordHourlyStatistics_def RecordUserFlowSnapshots_def RecordXrayFlowSnapshots_def
      RecordForwardFlowSnapshots_def CleanOldMonitorData_def Let_def case_prod_unfold
    by (intro ty.keep_exec_view v r) (simp_all)
qed

lemma typed_reconcile:
  assumes ty: "typed (wdb w)"
  shows "typed (wdb (snd (reconcileGost e locked k w)))" and "typed (wdb (CleanNodeConfigs e s cfg w))"
proof -
  have "recovers (wdb w) (wdb (snd (reconcileGost e locked k w)))"
    using hist_reconcileGost [of e w k locked] by (simp add: hist_def)
  then obtain g where g: "\<forall>f. g f = f \<or> g f = f\<lparr>f_Status := forwardStatusActive\<rparr>"
    "wdb (snd (reconcileGost e locked k w)) = (wdb w)\<lparr>forwards := map g (forwards (wdb w))\<rparr>"
    by (auto simp: recovers_def)
  have "forward_typed (g f)" if "forward_typed f" for f
    using g(1)[rule_format, of f] that by (auto simp: forward_typed_def panel_consts)
  with ty show "typed (wdb (snd (reconcileGost e locked k w)))" by (auto simp: g(2) typed_def)
  show "typed (wdb (CleanNodeConfigs e s cfg w))" using ty by (simp add: CleanNodeConfigs_db)
qed

lemma typed_startup:
  assumes ty: "typed (wdb w)"
  shows "typed (wdb (ensureAdminUser e newPassword w))" and "typed (wdb (ensureDefaultConfig e w))"
    and "typed (wdb (OnNodeOnline e k v w))" and "typed (wdb (OnNodeOffline e k w))"
proof -
  have v: "typed_view (vite_configs_update g d) = typed_view d" for g d by (simp add: typed_view_def)
  have 1: "typed (wdb (default_config e name x w))" if "typed (wdb w)" for name x w
    using that by (auto simp: default_config_def v intro!: ty.keep_exec_view)
  show "typed (wdb (ensureDefaultConfig e w))"
    using ty by (auto simp: ensureDefaultConfig_def Let_def v intro!: ty.keep_exec_view 1)
  have i: "typed (wdb (db_exec e (insertUser (admin_row p)) w))" for p
    using ty by (rule ty.keep_exec) (rule typed_insertUser, auto simp: admin_row_def user_typed_def)
  show "typed (wdb (ensureAdminUser e newPassword w))"
    using ty by (auto simp: ensureAdminUser_def set_user_def user_typed_def Let_def split: option.split
        intro!: i typed_user_exec)
  show "typed (wdb (OnNodeOnline e k v w))" "typed (wdb (OnNodeOffline e k w))"
    using ty by (auto simp: OnNodeOnline_def OnNodeOffline_def intro!: ty.keep_exec_view)
qed

section \<open>Every reachable world\<close>

lemmas handlers_typed = typed_CreateForward typed_UpdateForward typed_forward_ops typed_route_ops typed_tunnel_ops
  typed_permission_ops typed_ProcessFlowUpload typed_ProcessXrayFlowUpload typed_resetFlow typed_account_ops
  typed_statistics typed_reconcile typed_startup

lemma step_typed: "panel_step w w' \<Longrightarrow> panel_inv (wdb w) \<Longrightarrow> typed (wdb w) \<Longrightarrow> typed (wdb w')"
  by (erule panel_stepE) (simp_all add: handlers_typed)

lemma reachable_typed: "reachable w \<Longrightarrow> typed (wdb w)"
proof (induction rule: reachable.induct)
  case (reachable_init w)
  then show ?case by (simp add: typed_def empty_db_def)
next
  case (reachable_step w w')
  then show ?case using step_typed reachable_inv by blast
qed

text \<open>C14: The rows keep their types. In every world the panel can reach, the status of each
  forward is active, paused or failed and the forward runs over a tunnel or over a route but
  never both or neither; each account is an administrator or a user with switches that are 0 or
  1; no two forwards and no two accounts share a key, and no user has two permission rows for the same node.\<close>

theorem rows_typed:
  assumes "reachable w"
  shows "{f \<in> set (forwards (wdb w)). \<not> forward_typed f} = {} \<and> {u \<in> set (users (wdb w)). \<not> user_typed u} = {} \<and>
     distinct (map f_ID (forwards (wdb w))) \<and> distinct (map u_ID (users (wdb w))) \<and>
     distinct (map un_pair (user_nodes (wdb w)))"
  using reachable_typed [OF assms] panel_invD(3) [OF reachable_inv [OF assms]] by (auto simp: typed_def keys_wf_def)

definition demo_user :: UserDto where
  "demo_user = \<lparr>ud_User = ''bob'', ud_Pwd = ''bobs_secret'', ud_Flow = 10, ud_XrayFlow = 0, ud_Num = 5, ud_ExpTime = 0,
     ud_FlowResetType = 0, ud_FlowResetDay = 0, ud_Status = None, ud_NodeIds = [1, 2, 1], ud_NodePermissions = []\<rparr>"

definition demo_users :: "unit world" where
  "demo_users = snd (CreateUser sample_env demo_user (ensureAdminUser sample_env ''0123456789ab'' demo_nodes))"

lemma reachable_users: "reachable demo_users"
  unfolding demo_users_def demo_nodes_def
  by (intro reachable_step [OF _ step_CreateUser] reachable_step [OF _ step_ensureAdminUser]
      reachable_step [OF _ step_CreateNode] reachable_init) simp

theorem rows_typed_witness:
  "map u_ID (users (wdb demo_users)) = [1, 2] \<and> map un_pair (user_nodes (wdb demo_users)) = [(2, 1), (2, 2)] \<and>
   list_all user_typed (users (wdb demo_users)) \<and> map f_Status (forwards (wdb demo_world)) = [1] \<and>
   list_all forward_typed (forwards (wdb demo_world))"
proof -
  have "map u_ID (users (wdb demo_users)) = [1, 2]" "map un_pair (user_nodes (wdb demo_users)) = [(2, 1), (2, 2)]"
    unfolding demo_users_def demo_user_def by code_simp+
  moreover have "map f_Status (forwards (wdb demo_world)) = [1]" by code_simp
  ultimately show ?thesis using rows_typed [OF reachable_users] rows_typed [OF reachable_demo(2)] by (auto simp: list_all_iff)
qed

end
