(* ===== verification/User_Props.thy ===== *)
theory User_Props
  imports Type_Inv
begin

text \<open>
  What the account operations guarantee: administrators are out of reach of the user management,
  names stay unique, a login needs the password of an active account and never locks it out, and
  a deleted user leaves no row behind except the reserved ports of route forwards.
\<close>

section \<open>Operations that leave the accounts alone\<close>

interpretation users_kept: db_invariant "\<lambda>d. users d = us" users for us
  by unfold_locales simp

lemma users_simps [simp]:
  "users (set_forward k f1 d) = users d" "users (insertUserNode un d) = users d"
  "users (delete_forward_row k d) = users d" "users (insertUser u d) = users d @ [u\<lparr>u_ID := next_key T_user d\<rparr>]"
  "users (set_user k f2 d) = update_where (\<lambda>u. u_ID u = k) f2 (users d)"
  by (simp_all add: set_forward_def insertUserNode_def delete_forward_row_def insertUser_def set_user_def bump_key_def
      insert_row_def)

lemma users_exec: "(\<And>d. users (f d) = users d) \<Longrightarrow> users (wdb (db_exec e f w)) = users (wdb w)"
  by (rule users_kept.keep_exec_view) simp

lemma users_fold: "(\<And>x w. users (wdb (step x w)) = users (wdb w)) \<Longrightarrow> users (wdb (fold step xs w)) = users (wdb w)"
  by (rule users_kept.keep_fold) simp_all

lemma users_frame [simp]:
  "users (wdb (pauseAllUserForwards e u w)) = users (wdb w)"
  "users (wdb (disableAllUserXrayClients e u w)) = users (wdb w)"
  "users (wdb (disableUserXrayClientsOnNodes e u ns w)) = users (wdb w)"
  "users (wdb (add_user_nodes e rows w)) = users (wdb w)"
  "users (wdb (delete_user_forward e u f w)) = users (wdb w)"
  unfolding pauseAllUserForwards_def disableAllUserXrayClients_def disableUserXrayClientsOnNodes_def
    add_user_nodes_def clear_client_def delete_user_forward_def pause_user_forward_def
  by (auto simp: Let_def frame_simps users_exec intro!: users_fold split: option.split)

lemma users_replace [simp]:
  "users (wdb (replace_permissions e u nps w)) = users (wdb w)" "users (wdb (replace_nodes e u ns w)) = users (wdb w)"
  by (simp_all add: replace_permissions_def replace_nodes_def Let_def users_exec)

lemma users_folds [simp]:
  "users (wdb (fold (delete_user_forward e k) fs w)) = users (wdb w)"
  "users (wdb (fold (remove_from_node e) cs w)) = users (wdb w)"
  by (auto intro!: users_fold simp: frame_simps)

lemma derive_users:
  "users (wdb (deriveUserPermissions e k w)) = users (wdb w) \<or>
   (\<exists>g x. users (wdb (deriveUserPermissions e k w)) =
      update_where (\<lambda>u. u_ID u = k) (\<lambda>u. u\<lparr>u_GostEnabled := g, u_XrayEnabled := x\<rparr>) (users (wdb w)))"
proof -
  have "\<exists>g x. deriveUserPermissions e k w = db_exec e (users_update (update_where (\<lambda>u. u_ID u = k)
      (\<lambda>u. u\<lparr>u_GostEnabled := g, u_XrayEnabled := x\<rparr>))) w"
    by (simp only: deriveUserPermissions_def Let_def case_prod_beta) blast
  then obtain g x where "deriveUserPermissions e k w = db_exec e (users_update (update_where (\<lambda>u. u_ID u = k)
      (\<lambda>u. u\<lparr>u_GostEnabled := g, u_XrayEnabled := x\<rparr>))) w" by blast
  note r = this db_exec_db [of e "users_update (update_where (\<lambda>u. u_ID u = k)
      (\<lambda>u. u\<lparr>u_GostEnabled := g, u_XrayEnabled := x\<rparr>))" w]
  from r(2) show ?thesis
  proof
    assume "wdb (db_exec e (users_update (update_where (\<lambda>u. u_ID u = k)
      (\<lambda>u. u\<lparr>u_GostEnabled := g, u_XrayEnabled := x\<rparr>))) w) = users_update (update_where (\<lambda>u. u_ID u = k)
      (\<lambda>u. u\<lparr>u_GostEnabled := g, u_XrayEnabled := x\<rparr>)) (wdb w)"
    with r(1) show ?thesis by (intro disjI2 exI [of _ g] exI [of _ x]) simp
  qed (use r(1) in simp)
qed

section \<open>Administrators\<close>

definition admins :: "db \<Rightarrow> User list" where
  "admins d = filter (\<lambda>u. u_RoleId u = 0) (users d)"

lemma filter_update_where:
  "(\<And>x. x \<in> set xs \<Longrightarrow> p x \<Longrightarrow> \<not> q x \<and> \<not> q (f x)) \<Longrightarrow> filter q (update_where p f xs) = filter q xs"
  by (induction xs) (auto simp: update_where_def)

lemma filter_delete_where: "(\<And>x. x \<in> set xs \<Longrightarrow> p x \<Longrightarrow> \<not> q x) \<Longrightarrow> filter q (delete_where p xs) = filter q xs"
  by (induction xs) (auto simp: delete_where_def)

lemma admins_derive:
  assumes "\<And>u. u \<in> set (users (wdb w)) \<Longrightarrow> u_ID u = k \<Longrightarrow> u_RoleId u \<noteq> 0"
  shows "admins (wdb (deriveUserPermissions e k w)) = admins (wdb w)"
  using derive_users [of e k w] assms by (auto simp: admins_def filter_update_where)

lemma same_row:
  assumes "distinct (map u_ID (users d))" and "firstUser d k = Some u" and "v \<in> set (users d)" and "u_ID v = k"
  shows "v = u"
  using assms firstUser_Some by (metis distinct_map inj_on_def)

lemma admins_set:
  assumes "\<And>u. u \<in> set (users (wdb w)) \<Longrightarrow> u_ID u = k \<Longrightarrow> u_RoleId u \<noteq> 0 \<and> u_RoleId (f u) \<noteq> 0"
  shows "admins (wdb (snd (db_write e (set_user k f) w))) = admins (wdb w)"
  using assms by (auto simp: admins_def filter_update_where)

text \<open>C15: The user management cannot touch an administrator: in a reachable world the creation,
  the update and the deletion of a user, whoever is named in the request and whatever writes
  fail, leave every administrator's row as it is.\<close>

theorem admins_protected:
  assumes "reachable w"
  shows "admins (wdb (snd (CreateUser e ud w))) = admins (wdb w) \<and>
    admins (wdb (snd (UpdateUser e uud w))) = admins (wdb w) \<and>
    admins (wdb (snd (DeleteUser e k w))) = admins (wdb w)"
proof (intro conjI)
  have ty: "distinct (map u_ID (users (wdb w)))" "\<forall>u \<in> set (users (wdb w)). u_ID u < next_key T_user (wdb w)"
    using reachable_typed [OF assms] by (auto simp: typed_def next_key_def)
  show "admins (wdb (snd (CreateUser e ud w))) = admins (wdb w)"
  proof -
    define w1 where "w1 = snd (db_write e (insertUser (user_row e ud)) w)"
    have same: "admins (wdb w1) = admins (wdb w)" by (simp add: w1_def admins_def user_row_def)
    have d: "admins (wdb (deriveUserPermissions e (next_key T_user (wdb w)) w2)) = admins (wdb w)"
      if "users (wdb w2) = users (wdb w1)" for w2
    proof -
      have "u_RoleId u \<noteq> 0" if "u \<in> set (users (wdb w1))" "u_ID u = next_key T_user (wdb w)" for u
        using that ty(2) by (auto simp: w1_def user_row_def split: if_splits)
      with that have "admins (wdb (deriveUserPermissions e (next_key T_user (wdb w)) w2)) = admins (wdb w2)"
        by (intro admins_derive) auto
      with that same show ?thesis by (simp add: admins_def)
    qed
    show ?thesis
      by (auto simp: CreateUser_def Let_def case_prod_beta d same simp flip: w1_def simp del: wdb_db_write)
  qed
  show "admins (wdb (snd (UpdateUser e uud w))) = admins (wdb w)"
  proof (cases "\<exists>u. firstUser (wdb w) (uud_ID uud) = Some u \<and> u_RoleId u \<noteq> adminRoleId")
    case False
    then show ?thesis by (auto simp: UpdateUser_def split: option.split)
  next
    case True
    then obtain u where u: "firstUser (wdb w) (uud_ID uud) = Some u" "u_RoleId u \<noteq> 0" by (auto simp: panel_consts)
    have nr: "u_RoleId v \<noteq> 0" if "users (wdb w') = users (wdb w)" "v \<in> set (users (wdb w'))" "u_ID v = uud_ID uud" for v w'
      using same_row [OF ty(1) u(1)] that u(2) by metis
    have set: "admins (wdb (snd (db_write e (set_user (uud_ID uud) (updated_user e uud)) w'))) = admins (wdb w)"
      "\<forall>v \<in> set (users (wdb (snd (db_write e (set_user (uud_ID uud) (updated_user e uud)) w')))).
         u_ID v = uud_ID uud \<longrightarrow> u_RoleId v \<noteq> 0"
      if "users (wdb w') = users (wdb w)" for w'
    proof -
      show "admins (wdb (snd (db_write e (set_user (uud_ID uud) (updated_user e uud)) w'))) = admins (wdb w)"
        by (subst admins_set) (use nr [OF that] in \<open>auto simp: updated_user_def admins_def that\<close>)
      show "\<forall>v \<in> set (users (wdb (snd (db_write e (set_user (uud_ID uud) (updated_user e uud)) w')))).
         u_ID v = uud_ID uud \<longrightarrow> u_RoleId v \<noteq> 0"
        using nr [OF that] by (auto simp: set_update_where updated_user_def)
    qed
    have d: "admins (wdb (deriveUserPermissions e (uud_ID uud) w3)) = admins (wdb w)"
      if "users (wdb w3) = users (wdb (snd (db_write e (set_user (uud_ID uud) (updated_user e uud)) w')))"
        "users (wdb w') = users (wdb w)" for w3 w'
      using set [OF that(2)] that(1) by (subst admins_derive) (auto simp: admins_def simp del: wdb_db_write)
    show ?thesis using u
      by (auto simp: UpdateUser_def Let_def case_prod_beta set d simp del: wdb_db_write split: option.split)
  qed
  show "admins (wdb (snd (DeleteUser e k w))) = admins (wdb w)"
  proof (cases "\<exists>u. firstUser (wdb w) k = Some u \<and> u_RoleId u \<noteq> adminRoleId")
    case False
    then show ?thesis by (auto simp: DeleteUser_def split: option.split)
  next
    case True
    then obtain u where u: "firstUser (wdb w) k = Some u" "u_RoleId u \<noteq> 0" by (auto simp: panel_consts)
    have "filter (\<lambda>u. u_RoleId u = 0) (delete_where (\<lambda>u. u_ID u = k) (users (wdb w))) =
        filter (\<lambda>u. u_RoleId u = 0) (users (wdb w))"
      using same_row [OF ty(1) u(1)] u(2) by (intro filter_delete_where) auto
    then show ?thesis using u
      by (simp add: DeleteUser_def Let_def case_prod_beta panel_consts admins_def users_exec)
  qed
qed

theorem admins_protected_witness:
  "map u_ID (admins (wdb demo_users)) = [1] \<and> admins (wdb (snd (DeleteUser sample_env 1 demo_users))) = admins (wdb demo_users) \<and>
   map u_ID (users (wdb (snd (DeleteUser sample_env 2 demo_users)))) = [1]"
proof -
  have "map u_ID (admins (wdb demo_users)) = [1]" by code_simp
  moreover have "map u_ID (users (wdb (snd (DeleteUser sample_env 2 demo_users)))) = [1]" by code_simp
  ultimately show ?thesis using admins_protected [OF reachable_users] by blast
qed

section \<open>Names\<close>

text \<open>No two accounts with different keys have names the database compares as equal.\<close>

definition names_unique :: "'n env \<Rightarrow> db \<Rightarrow> bool" where
  "names_unique e d \<longleftrightarrow> (\<forall>u \<in> set (users d). \<forall>v \<in> set (users d). text_eq e (u_User u) (u_User v) \<longrightarrow> u_ID u = u_ID v)"

abbreviation u_name :: "User \<Rightarrow> int \<times> string" where
  "u_name u \<equiv> (u_ID u, u_User u)"

definition name_view :: "db \<Rightarrow> (int \<times> string) list" where
  "name_view d = map u_name (users d)"

lemma names_unique_view:
  "names_unique e d \<longleftrightarrow>
     (\<forall>p \<in> set (name_view d). \<forall>q \<in> set (name_view d). text_eq e (snd p) (snd q) \<longrightarrow> fst p = fst q)"
  by (auto simp: names_unique_def name_view_def)

lemma names_by_view: "name_view d' = name_view d \<Longrightarrow> names_unique e d \<Longrightarrow> names_unique e d'"
  by (simp add: names_unique_view)

interpretation names: db_invariant "names_unique e" name_view for e
  by unfold_locales (rule names_by_view)

lemma name_view_same: "users d' = users d \<Longrightarrow> name_view d' = name_view d"
  by (simp add: name_view_def)

lemma names_same: "users (wdb w') = users (wdb w) \<Longrightarrow> names_unique e (wdb w) \<Longrightarrow> names_unique e (wdb w')"
  by (rule names_by_view) (rule name_view_same)

lemma names_derive: "names_unique e (wdb w) \<Longrightarrow> names_unique e (wdb (deriveUserPermissions e k w))"
  unfolding deriveUserPermissions_def Let_def case_prod_beta
  by (erule names.keep_exec_view) (auto simp: name_view_def update_where_def)

text \<open>The name a row takes is compared with the names of the other keys.\<close>

lemma names_set:
  assumes sym: "\<And>a b. text_eq e a b = text_eq e b a" and n: "names_unique e d"
    and f: "\<And>u. u_ID (f u) = u_ID u" "\<And>u. u \<in> set (users d) \<Longrightarrow> u_ID u = k \<Longrightarrow> u_User (f u) = name"
    and new: "\<And>u. u \<in> set (users d) \<Longrightarrow> u_ID u \<noteq> k \<Longrightarrow> \<not> text_eq e (u_User u) name"
  shows "names_unique e (set_user k f d)"
  unfolding names_unique_def
proof (intro ballI impI)
  fix u v assume m: "u \<in> set (users (set_user k f d))" "v \<in> set (users (set_user k f d))"
    and t: "text_eq e (u_User u) (u_User v)"
  have r: "(x \<in> set (users d) \<and> u_ID x \<noteq> k \<and> \<not> text_eq e (u_User x) name) \<or> (u_ID x = k \<and> u_User x = name)"
    if "x \<in> set (users (set_user k f d))" for x
    using that new f by (auto simp: set_update_where split: if_splits)
  show "u_ID u = u_ID v"
    using r [OF m(1)] r [OF m(2)] t n sym unfolding names_unique_def by metis
qed

text \<open>Property: Account names stay unique. If no two accounts have equal names, in the sense of the
  database's comparison (which is symmetric), then none have after a user is created or updated
  and after an account changes its own name and password.\<close>

theorem account_names_unique:
  assumes "names_unique e (wdb w)" and "\<And>a b. text_eq e a b = text_eq e b a"
  shows "names_unique e (wdb (snd (CreateUser e ud w))) \<and> names_unique e (wdb (snd (UpdateUser e uud w))) \<and>
    names_unique e (wdb (snd (UpdatePassword e k up w)))"
proof (intro conjI)
  note n = assms(1) and sym = assms(2)
  show "names_unique e (wdb (snd (CreateUser e ud w)))"
  proof (cases "0 < count_where (\<lambda>u. text_eq e (u_User u) (ud_User ud)) (users (wdb w))")
    case True
    then show ?thesis using n by (simp add: CreateUser_def)
  next
    case False
    then have new: "\<not> text_eq e (u_User u) (ud_User ud)" if "u \<in> set (users (wdb w))" for u
      using that by (auto simp: count_where_pos)
    moreover have "\<not> text_eq e (ud_User ud) (u_User u)" if "u \<in> set (users (wdb w))" for u
      using new [OF that] sym by metis
    ultimately have i: "names_unique e (insertUser (user_row e ud) (wdb w))"
      using n by (auto simp: names_unique_def user_row_def)
    define w1 where "w1 = snd (db_write e (insertUser (user_row e ud)) w)"
    have i: "names_unique e (wdb w1)" unfolding w1_def using i n by simp
    have d: "names_unique e (wdb (deriveUserPermissions e k w2))" if "users (wdb w2) = users (wdb w1)" for k w2
      using names_derive [OF names_same [OF that i]] .
    show ?thesis using False n i
      by (auto simp: CreateUser_def Let_def case_prod_beta simp flip: w1_def simp del: wdb_db_write intro!: d)
  qed
  show "names_unique e (wdb (snd (UpdateUser e uud w)))"
  proof (cases "0 < count_where (\<lambda>u. text_eq e (u_User u) (uud_User uud) \<and> u_ID u \<noteq> uud_ID uud) (users (wdb w))")
    case True
    then show ?thesis using n by (auto simp: UpdateUser_def split: option.split)
  next
    case False
    then have new: "\<not> text_eq e (u_User u) (uud_User uud)" if "u \<in> set (users (wdb w))" "u_ID u \<noteq> uud_ID uud" for u
      using that by (auto simp: count_where_pos)
    have s: "names_unique e (wdb (snd (db_write e (set_user (uud_ID uud) (updated_user e uud)) w')))"
      if "users (wdb w') = users (wdb w)" for w'
      using n new that names_same [OF that n]
      by (auto simp: updated_user_def intro!: names_set [OF sym])
    have d: "names_unique e (wdb (deriveUserPermissions e (uud_ID uud) w3))"
      if "users (wdb w3) = users (wdb (snd (db_write e (set_user (uud_ID uud) (updated_user e uud)) w')))"
        "users (wdb w') = users (wdb w)" for w3 w'
      using names_derive [OF names_same [OF that(1) s [OF that(2)]]] .
    show ?thesis using n False
      by (auto simp: UpdateUser_def Let_def case_prod_beta simp del: wdb_db_write split: option.split intro!: d s)
  qed
  show "names_unique e (wdb (snd (UpdatePassword e k up w)))"
  proof (cases "firstUser (wdb w) k")
    case None
    then show ?thesis using n by (simp add: UpdatePassword_def)
  next
    case (Some user)
    define name where "name = (if up_NewUsername up \<noteq> [] then up_NewUsername up else u_User user)"
    have old: "\<not> text_eq e (u_User u) (u_User user)" if "u \<in> set (users (wdb w))" "u_ID u \<noteq> u_ID user" for u
      using n that firstUser_Some [OF Some] by (auto simp: names_unique_def)
    have new: "\<not> text_eq e (u_User u) name" if "u \<in> set (users (wdb w))" "u_ID u \<noteq> u_ID user"
      "\<not> (up_NewUsername up \<noteq> [] \<and> up_NewUsername up \<noteq> u_User user \<and>
        0 < count_where (\<lambda>u. text_eq e (u_User u) (up_NewUsername up) \<and> u_ID u \<noteq> u_ID user) (users (wdb w)))" for u
      using that old by (auto simp: name_def count_where_pos)
    have s: "names_unique e (wdb (snd (db_write e (set_user (u_ID user) (\<lambda>u. u\<lparr>u_User := name,
        u_Pwd := h, u_UpdatedTime := now e\<rparr>)) w)))"
      if "\<not> (up_NewUsername up \<noteq> [] \<and> up_NewUsername up \<noteq> u_User user \<and>
        0 < count_where (\<lambda>u. text_eq e (u_User u) (up_NewUsername up) \<and> u_ID u \<noteq> u_ID user) (users (wdb w)))" for h
      using n new [OF _ _ that] by (auto intro!: names_set [OF sym])
    show ?thesis using n
      unfolding UpdatePassword_def Let_def Some option.case name_def [symmetric]
      by (auto simp: case_prod_beta simp del: wdb_db_write intro!: s)
  qed
qed

theorem account_names_unique_witness:
  "names_unique sample_env (wdb (snd (CreateUser sample_env demo_user demo_users))) \<and>
   fst (CreateUser sample_env demo_user demo_users) = Err (UserErr UserNameExists)"
proof -
  have "name_view (wdb demo_users) = [(1, ''admin_user''), (2, ''bob'')]" by code_simp
  then have "names_unique sample_env (wdb demo_users)" by (simp add: names_unique_view sample_env_def)
  then have "names_unique sample_env (wdb (snd (CreateUser sample_env demo_user demo_users)))"
    using account_names_unique by (metis eq_commute sample_env_def env.select_convs(6))
  moreover have "fst (CreateUser sample_env demo_user demo_users) = Err (UserErr UserNameExists)" by code_simp
  ultimately show ?thesis by simp
qed

section \<open>Login\<close>

lemma Login_Ok:
  assumes "fst (Login e lo w) = Ok (Logged_in u b)"
  obtains user where "first_where (\<lambda>u. text_eq e (u_User u) (lo_Username lo)) (users (wdb w)) = Some user"
    "captcha_error e (wdb w) lo = None" "CheckPassword e (lo_Password lo) (u_Pwd user)" "u_Status user \<noteq> 0"
    "u_ID u = u_ID user"
    "snd (Login e lo w) = (if u_RoleId user \<noteq> adminRoleId
       then deriveUserPermissions e (u_ID user) (migrate_password e (lo_Password lo) user w)
       else migrate_password e (lo_Password lo) user w)"
proof -
  have "\<exists>user. first_where (\<lambda>u. text_eq e (u_User u) (lo_Username lo)) (users (wdb w)) = Some user \<and>
      captcha_error e (wdb w) lo = None \<and> CheckPassword e (lo_Password lo) (u_Pwd user) \<and> u_Status user \<noteq> 0 \<and>
      u_ID u = u_ID user \<and> snd (Login e lo w) = (if u_RoleId user \<noteq> adminRoleId
       then deriveUserPermissions e (u_ID user) (migrate_password e (lo_Password lo) user w)
       else migrate_password e (lo_Password lo) user w)"
    using assms by (auto simp: Login_def Let_def dest: firstUser_Some split: option.splits if_splits)
  then show ?thesis using that by blast
qed

text \<open>C16: A login needs an active account and its password: whoever is logged in is the account
  the database finds under the given name, its stored password accepts the given one, the
  account is not stopped and the captcha check passed.\<close>

theorem login_sound:
  assumes "fst (Login e lo w) = Ok (Logged_in u b)"
  shows "captcha_error e (wdb w) lo = None \<and>
    {v \<in> set (users (wdb w)). u_ID v = u_ID u \<and> text_eq e (u_User v) (lo_Username lo) \<and>
       CheckPassword e (lo_Password lo) (u_Pwd v) \<and> u_Status v \<noteq> 0} \<noteq> {}"
  using assms by (rule Login_Ok) (auto dest: first_where_Some)

definition demo_login :: LoginDto where
  "demo_login = \<lparr>lo_Username = ''bob'', lo_Password = ''bobs_secret'', lo_CaptchaId = [], lo_CaptchaAnswer = []\<rparr>"

definition logged_in :: "reply \<Rightarrow> int option" where
  "logged_in r = (case r of Ok (Logged_in u b) \<Rightarrow> Some (u_ID u) | _ \<Rightarrow> None)"

lemma logged_in_Some: "logged_in r = Some k \<longleftrightarrow> (\<exists>u b. r = Ok (Logged_in u b) \<and> u_ID u = k)"
  by (simp add: logged_in_def split: reply.split payload.split)

text \<open>What a login leaves as it was.\<close>

definition keeps_login :: "'n env \<Rightarrow> string \<Rightarrow> db \<Rightarrow> db \<Rightarrow> bool" where
  "keeps_login e p d d' \<longleftrightarrow> vite_configs d' = vite_configs d \<and> (\<exists>g. users d' = map g (users d) \<and>
     (\<forall>u. u_ID (g u) = u_ID u \<and> u_User (g u) = u_User u \<and> u_Status (g u) = u_Status u \<and>
        (CheckPassword e p (u_Pwd u) \<longrightarrow> CheckPassword e p (u_Pwd (g u)))))"

lemma keeps_login_refl: "keeps_login e p d d"
  unfolding keeps_login_def by (rule conjI [OF refl exI [of _ "\<lambda>u. u"]]) simp

lemma keeps_login_set:
  assumes "\<And>u. u_ID (f u) = u_ID u \<and> u_User (f u) = u_User u \<and> u_Status (f u) = u_Status u \<and>
        (CheckPassword e p (u_Pwd u) \<longrightarrow> CheckPassword e p (u_Pwd (f u)))"
  shows "keeps_login e p (wdb w) (wdb (db_exec e (users_update (update_where q f)) w))"
proof -
  have "keeps_login e p d (users_update (update_where q f) d)" for d
    unfolding keeps_login_def using assms
    by (auto simp: update_where_def intro!: exI [of _ "\<lambda>u. if q u then f u else u"])
  then show ?thesis
    using db_exec_db [of e "users_update (update_where q f)" w] keeps_login_refl by metis
qed

lemma keeps_login_trans:
  assumes "keeps_login e p a b" and "keeps_login e p b c"
  shows "keeps_login e p a c"
proof -
  let ?P = "\<lambda>g. \<forall>u. u_ID (g u) = u_ID u \<and> u_User (g u) = u_User u \<and> u_Status (g u) = u_Status u \<and>
        (CheckPassword e p (u_Pwd u) \<longrightarrow> CheckPassword e p (u_Pwd (g u)))"
  from assms(1) obtain g where g: "users b = map g (users a)" "?P g" unfolding keeps_login_def by blast
  from assms(2) obtain h where h: "users c = map h (users b)" "?P h" unfolding keeps_login_def by blast
  have "users c = map (h \<circ> g) (users a)" "?P (h \<circ> g)" using g h by auto
  with assms show ?thesis unfolding keeps_login_def by (intro conjI exI [of _ "h \<circ> g"]) auto
qed

lemma find_map: "first_where q (map g xs) = map_option g (first_where (\<lambda>x. q (g x)) xs)"
  by (induction xs) (simp_all add: first_where_def)

lemma Login_again:
  assumes k: "keeps_login e (lo_Password lo) d (wdb w')" and c: "captcha_error e d lo = None"
    and f: "first_where (\<lambda>u. text_eq e (u_User u) (lo_Username lo)) (users d) = Some user"
      "CheckPassword e (lo_Password lo) (u_Pwd user)" "u_Status user \<noteq> 0"
  shows "logged_in (fst (Login e lo w')) = Some (u_ID user)"
proof -
  from k obtain g where v: "vite_configs (wdb w') = vite_configs d" and us: "users (wdb w') = map g (users d)"
    and g: "\<And>u. u_ID (g u) = u_ID u \<and> u_User (g u) = u_User u \<and> u_Status (g u) = u_Status u \<and>
        (CheckPassword e (lo_Password lo) (u_Pwd u) \<longrightarrow> CheckPassword e (lo_Password lo) (u_Pwd (g u)))"
    unfolding keeps_login_def by blast
  have "captcha_error e (wdb w') lo = None" using c v by (simp add: captcha_error_def)
  moreover have "first_where (\<lambda>u. text_eq e (u_User u) (lo_Username lo)) (users (wdb w')) = Some (g user)"
    using f(1) g by (simp add: us find_map)
  moreover have "CheckPassword e (lo_Password lo) (u_Pwd (g user))" "u_Status (g user) \<noteq> 0" "u_ID (g user) = u_ID user"
    using g f by simp_all
  ultimately show ?thesis
    by (auto simp: Login_def Let_def logged_in_def dest: firstUser_Some split: option.split)
qed

text \<open>Property: A login never locks the account out. Whatever the login wrote - the password moves
  silently from MD5 to bcrypt and the switches are recomputed, and any of these writes may
  fail - the same name and password log the same account in again once a captcha, if one is
  asked for, is solved. What is relied on: a bcrypt hash has a bcrypt prefix and matches its
  password.\<close>

theorem login_repeatable:
  assumes "logged_in (fst (Login e lo w)) = Some k"
    and "\<And>p h. bcryptHash e p = Some h \<Longrightarrow> IsBcrypt h \<and> bcryptMatches e h p"
    and "lo_Username lo' = lo_Username lo" and "lo_Password lo' = lo_Password lo"
    and "captcha_error e (wdb w) lo' = None"
  shows "logged_in (fst (Login e lo' (snd (Login e lo w)))) = Some k"
proof -
  from assms(1) obtain u b where l: "fst (Login e lo w) = Ok (Logged_in u b)" and k: "u_ID u = k"
    by (auto simp: logged_in_Some)
  from l obtain user where u: "first_where (\<lambda>u. text_eq e (u_User u) (lo_Username lo)) (users (wdb w)) = Some user"
    "captcha_error e (wdb w) lo = None" "CheckPassword e (lo_Password lo) (u_Pwd user)" "u_Status user \<noteq> 0"
    "u_ID u = u_ID user"
    and s: "snd (Login e lo w) = (if u_RoleId user \<noteq> adminRoleId
       then deriveUserPermissions e (u_ID user) (migrate_password e (lo_Password lo) user w)
       else migrate_password e (lo_Password lo) user w)" by (rule Login_Ok)
  let ?p = "lo_Password lo"
  have hash: "CheckPassword e ?p (HashPassword e ?p)" if "HashPassword e ?p \<noteq> []"
    using that assms(2) [of ?p] by (auto simp: HashPassword_def CheckPassword_def IsBcrypt_def split: option.splits)
  have m: "keeps_login e ?p (wdb w) (wdb (migrate_password e ?p user w))"
    using hash by (auto simp: migrate_password_def set_user_def Let_def keeps_login_refl intro!: keeps_login_set)
  have d: "keeps_login e ?p (wdb w') (wdb (deriveUserPermissions e x w'))" for x w'
    unfolding deriveUserPermissions_def Let_def case_prod_beta by (rule keeps_login_set) simp
  have "keeps_login e ?p (wdb w) (wdb (snd (Login e lo w)))"
    using m keeps_login_trans [OF m d] by (simp add: s)
  then show ?thesis
    using Login_again [of e lo' "wdb w" "snd (Login e lo w)" user] assms(3-5) u k by simp
qed

text \<open>The sample environment with hashes that look like bcrypt's, and an account whose
  password is still the MD5 of an older version.\<close>

definition bcrypt_env :: "unit env" where
  "bcrypt_env = sample_env\<lparr>bcryptHash := (\<lambda>p. Some (''$2a$'' @ p)), bcryptMatches := (\<lambda>h p. h = ''$2a$'' @ p),
     md5_hex := rev\<rparr>"

definition legacy_world :: "unit world" where
  "legacy_world = demo_users\<lparr>wdb := set_user 2 (\<lambda>u. u\<lparr>u_Pwd := legacyMd5Hash bcrypt_env ''bobs_secret''\<rparr>) (wdb demo_users)\<rparr>"

theorem login_sound_witness:
  "logged_in (fst (Login bcrypt_env demo_login legacy_world)) = Some 2 \<and>
   {v \<in> set (users (wdb legacy_world)). u_ID v = 2 \<and> CheckPassword bcrypt_env ''bobs_secret'' (u_Pwd v)} \<noteq> {}"
proof -
  have l: "logged_in (fst (Login bcrypt_env demo_login legacy_world)) = Some 2" by code_simp
  then obtain u b where "fst (Login bcrypt_env demo_login legacy_world) = Ok (Logged_in u b)" "u_ID u = 2"
    by (auto simp: logged_in_Some)
  with login_sound [OF this(1)] l show ?thesis by (auto simp: demo_login_def)
qed

theorem login_repeatable_witness:
  "logged_in (fst (Login bcrypt_env demo_login (snd (Login bcrypt_env demo_login legacy_world)))) = Some 2 \<and>
   map u_Pwd (users (wdb (snd (Login bcrypt_env demo_login legacy_world)))) \<noteq> map u_Pwd (users (wdb legacy_world))"
proof -
  have l: "logged_in (fst (Login bcrypt_env demo_login legacy_world)) = Some 2" by code_simp
  have "IsBcrypt h \<and> bcryptMatches bcrypt_env h p" if "bcryptHash bcrypt_env p = Some h" for p h
    using that by (auto simp: bcrypt_env_def IsBcrypt_def)
  moreover have "captcha_error bcrypt_env (wdb legacy_world) demo_login = None" by code_simp
  ultimately have "logged_in (fst (Login bcrypt_env demo_login (snd (Login bcrypt_env demo_login legacy_world)))) = Some 2"
    using login_repeatable [OF l] by blast
  moreover have "map u_Pwd (users (wdb (snd (Login bcrypt_env demo_login legacy_world)))) \<noteq> map u_Pwd (users (wdb legacy_world))"
    by code_simp
  ultimately show ?thesis by simp
qed

section \<open>Deletion\<close>

lemma delete_forwards_fold:
  assumes "db_ok e = (\<lambda>_. True)"
  shows "wdb (fold (delete_user_forward e k) fs w) =
    forwards_update (delete_where (\<lambda>g. f_ID g \<in> f_ID ` set fs)) (wdb w)"
proof (induction fs arbitrary: w)
  case Nil
  then show ?case by (simp add: delete_where_def)
next
  case (Cons f fs)
  have "wdb (delete_user_forward e k f w) = forwards_update (delete_where (\<lambda>g. f_ID g = f_ID f)) (wdb w)"
    by (simp add: delete_user_forward_def delete_forward_row_def assms frame_simps)
  then show ?case by (simp add: Cons delete_where_def conj_commute)
qed

lemma remove_fold_db: "wdb (fold (remove_from_node e) cs w) = wdb w"
  by (induction cs arbitrary: w) (simp_all add: frame_simps)

text \<open>Property: What the deletion of a user removes, and what it forgets. When every write succeeds,
  exactly the user's forwards go and no table of accounts, clients, permissions or statistics
  mentions the user any more; but the ports his route forwards had reserved stay reserved.\<close>

theorem deleted_user_leaves:
  assumes "reachable w" and "db_ok e = (\<lambda>_. True)" and "fst (DeleteUser e k w) = Ok Done"
  shows "forwards (wdb (snd (DeleteUser e k w))) = filter (\<lambda>f. f_UserId f \<noteq> k) (forwards (wdb w)) \<and>
    {u \<in> set (users (wdb (snd (DeleteUser e k w)))). u_ID u = k} = {} \<and>
    {c \<in> set (xray_clients (wdb (snd (DeleteUser e k w)))). xc_UserId c = k} = {} \<and>
    {ut \<in> set (user_tunnels (wdb (snd (DeleteUser e k w)))). ut_UserId ut = k} = {} \<and>
    {un \<in> set (user_nodes (wdb (snd (DeleteUser e k w)))). un_UserId un = k} = {} \<and>
    {s \<in> set (statistics_flows (wdb (snd (DeleteUser e k w)))). sf_UserId s = k} = {} \<and>
    {s \<in> set (user_flows (wdb (snd (DeleteUser e k w)))). uf_UserId s = k} = {} \<and>
    route_ports (wdb (snd (DeleteUser e k w))) = route_ports (wdb w)"
proof -
  have "distinct (map f_ID (forwards (wdb w)))"
    using reachable_inv [OF assms(1)] by (simp add: panel_inv_def keys_wf_def)
  then have same: "f_ID g \<in> f_ID ` {f \<in> set (forwards (wdb w)). f_UserId f = k} \<longleftrightarrow> f_UserId g = k"
    if "g \<in> set (forwards (wdb w))" for g
    using that by (auto simp: distinct_map inj_on_def)
  have f: "delete_where (\<lambda>g. f_ID g \<in> f_ID ` {f \<in> set (forwards (wdb w)). f_UserId f = k}) (forwards (wdb w)) =
      filter (\<lambda>f. f_UserId f \<noteq> k) (forwards (wdb w))"
    using same by (auto simp: delete_where_def intro!: filter_cong)
  show ?thesis
    using assms(3) by (auto simp: DeleteUser_def Let_def case_prod_beta assms(2) delete_forwards_fold remove_fold_db f
        split: option.splits if_splits)
qed

text \<open>A forward over a route for the user of \<open>demo_users\<close>.\<close>

definition routed_world :: "unit world" where
  "routed_world = snd (CreateForward sample_env (demo_dto ''g'' 0 1) 2 0 ''bob''
     (snd (CreateRoute sample_env (RouteDto.make ''r'' [1, 2] [] [] [] []) demo_users)))"

lemma reachable_routed: "reachable routed_world"
  unfolding routed_world_def
  by (intro reachable_step [OF _ step_CreateForward] reachable_step [OF _ step_CreateRoute] reachable_users)

theorem deleted_user_leaves_witness:
  "map f_UserId (forwards (wdb routed_world)) = [2] \<and> forwards (wdb (snd (DeleteUser sample_env 2 routed_world))) = [] \<and>
   map (\<lambda>p. (p_NodeId p, p_RelayPort p)) (route_ports (wdb (snd (DeleteUser sample_env 2 routed_world)))) = [(2, 1000)]"
proof -
  have f: "map f_UserId (forwards (wdb routed_world)) = [2]" by code_simp
  have p: "map (\<lambda>p. (p_NodeId p, p_RelayPort p)) (route_ports (wdb routed_world)) = [(2, 1000)]" by code_simp
  have ok: "fst (DeleteUser sample_env 2 routed_world) = Ok Done" by code_simp
  have "filter (\<lambda>f. f_UserId f \<noteq> 2) (forwards (wdb routed_world)) = []" using f by (auto simp: filter_empty_conv)
  with deleted_user_leaves [OF reachable_routed _ ok] f p show ?thesis by (simp add: sample_env_def)
qed

end
