(* ===== verification/Statistics_Props.thy ===== *)
theory Statistics_Props
  imports Statistics Sample
begin

text \<open>
  The hourly increments of an account add up: as long as its counters only grow, the recorded
  flows sum to the counters' total, whatever was recorded for others.
\<close>

definition user_records :: "db \<Rightarrow> int \<Rightarrow> StatisticsFlow list" where
  "user_records d k = find_where (\<lambda>s. sf_UserId s = k) (statistics_flows d)"

definition recorded_flow :: "db \<Rightarrow> int \<Rightarrow> int" where
  "recorded_flow d k = sum_list (map sf_Flow (user_records d k))"

definition account_total :: "User \<Rightarrow> int" where
  "account_total u = u_InFlow u + u_OutFlow u"

lemma first_sorted:
  assumes "r \<in> set xs" and "\<And>s. s \<in> set xs \<Longrightarrow> s \<noteq> r \<Longrightarrow> sf_ID s < sf_ID r"
  shows "first_where (\<lambda>_. True) (order_by (\<lambda>s. - sf_ID s) xs) = Some r"
proof -
  obtain y ys where y: "sort_key (\<lambda>s. - sf_ID s) xs = y # ys"
    using assms(1) by (cases "sort_key (\<lambda>s. - sf_ID s) xs") (metis empty_iff empty_set set_sort, blast)
  then have "sorted (map (\<lambda>s. - sf_ID s) (y # ys))" and s: "set (y # ys) = set xs"
    by (metis sorted_sort_key, metis set_sort)
  with assms(1) have "sf_ID r \<le> sf_ID y" by auto
  moreover have "y \<in> set xs" using s by auto
  ultimately have "y = r" using assms(2) [of y] by fastforce
  then show ?thesis by (simp add: order_by_def y first_where_def)
qed

text \<open>The state of the records of an account: fresh keys, and the sum equal to the last total.\<close>

definition records_ok :: "db \<Rightarrow> int \<Rightarrow> int \<Rightarrow> bool" where
  "records_ok d k ttl \<longleftrightarrow> (\<forall>s \<in> set (statistics_flows d). sf_ID s < seq d T_statistics_flow) \<and>
     recorded_flow d k = ttl \<and>
     (case lastRecord d k of None \<Rightarrow> ttl = 0 | Some r \<Rightarrow> sf_TotalFlow r = ttl)"

lemma record_user_step:
  assumes ok: "db_ok e = (\<lambda>_. True)" and r: "records_ok (wdb w) (u_ID u) ttl"
    and t: "0 \<le> ttl" "ttl \<le> account_total u" "account_total u < 2 ^ 63"
  shows "records_ok (wdb (record_user e hour u w)) (u_ID u) (account_total u)"
proof -
  let ?d = "wdb w"
  define row where "row = \<lparr>sf_ID = seq ?d T_statistics_flow, sf_UserId = u_ID u, sf_Flow = account_total u - ttl,
    sf_TotalFlow = account_total u, sf_Time = hour, sf_CreatedTime = now e\<rparr>"
  have [simp]: "i64 (account_total u) = account_total u" "i64 (account_total u - ttl) = account_total u - ttl"
    using t by (auto intro!: i64_id)
  have inc: "incrementalFlow (lastRecord ?d (u_ID u)) (account_total u) = account_total u - ttl"
  proof (cases "lastRecord ?d (u_ID u)")
    case None
    with r show ?thesis by (simp add: records_ok_def incrementalFlow_def)
  next
    case (Some s)
    with r have "sf_TotalFlow s = ttl" by (simp add: records_ok_def)
    with Some t(2) show ?thesis by (simp add: incrementalFlow_def)
  qed
  have d: "wdb (record_user e hour u w) = bump_key T_statistics_flow (statistics_flows_update (insert_row row) ?d)"
    using inc by (simp add: record_user_def Let_def ok insertStatisticsFlow_def row_def next_key_def
        flip: account_total_def)
  have fresh: "sf_ID s < sf_ID row" if "s \<in> set (statistics_flows ?d)" for s
    using r that by (simp add: records_ok_def row_def)
  have rec: "user_records (wdb (record_user e hour u w)) (u_ID u) = user_records ?d (u_ID u) @ [row]"
    by (simp add: user_records_def d bump_key_def insert_row_def find_where_def row_def)
  have "lastRecord (wdb (record_user e hour u w)) (u_ID u) = Some row"
    unfolding lastRecord_def user_records_def [symmetric] rec
    by (rule first_sorted) (auto simp: user_records_def intro: fresh)
  moreover have "recorded_flow (wdb (record_user e hour u w)) (u_ID u) = account_total u"
    using r by (simp add: recorded_flow_def rec row_def records_ok_def)
  moreover have "\<forall>s \<in> set (statistics_flows (wdb (record_user e hour u w))).
      sf_ID s < seq (wdb (record_user e hour u w)) T_statistics_flow"
    using fresh by (auto simp: d bump_key_def insert_row_def row_def intro: less_imp_le)
  ultimately show ?thesis by (simp add: records_ok_def row_def)
qed

text \<open>A run of the statistics over the states of one account, hour by hour.\<close>

definition hourly_records :: "'n env \<Rightarrow> (string \<times> User) list \<Rightarrow> 'n world \<Rightarrow> 'n world" where
  "hourly_records e = fold (\<lambda>(hour, u). record_user e hour u)"

lemma hourly_records_ok:
  assumes ok: "db_ok e = (\<lambda>_. True)"
  shows "records_ok (wdb w) k ttl \<Longrightarrow> 0 \<le> ttl \<Longrightarrow> sorted (ttl # map (account_total \<circ> snd) hs) \<Longrightarrow>
    list_all (\<lambda>(hour, u). u_ID u = k \<and> account_total u < 2 ^ 63) hs \<Longrightarrow>
    records_ok (wdb (hourly_records e hs w)) k (last (ttl # map (account_total \<circ> snd) hs))"
proof (induction hs arbitrary: w ttl)
  case Nil
  then show ?case by (simp add: hourly_records_def)
next
  case (Cons h hs)
  obtain hour u where h: "h = (hour, u)" by (cases h)
  have "records_ok (wdb (record_user e hour u w)) k (account_total u)"
    using record_user_step [OF ok, of w u ttl hour] Cons.prems by (auto simp: h)
  from Cons.IH [OF this] show ?case using Cons.prems by (auto simp: h hourly_records_def)
qed

text \<open>Property: The statistics lose and invent nothing while counters grow. Record an account hour by
  hour, starting with no record of it, its counters never decreasing: the flows recorded for it
  add up to the total of its counters at the last hour.\<close>

theorem statistics_conserve:
  assumes "db_ok e = (\<lambda>_. True)" and "user_records (wdb w) k = []"
    and "{s \<in> set (statistics_flows (wdb w)). seq (wdb w) T_statistics_flow \<le> sf_ID s} = {}"
    and "hs \<noteq> []" and "sorted (0 # map (account_total \<circ> snd) hs)"
    and "list_all (\<lambda>(hour, u). u_ID u = k \<and> account_total u < 2 ^ 63) hs"
  shows "recorded_flow (wdb (hourly_records e hs w)) k = account_total (snd (last hs))"
proof -
  have "lastRecord (wdb w) k = None"
    using assms(2) by (simp add: lastRecord_def user_records_def order_by_def first_where_def)
  then have "records_ok (wdb w) k 0"
    using assms(2,3) by (auto simp: records_ok_def recorded_flow_def)
  from hourly_records_ok [OF assms(1) this _ assms(5,6)] assms(4) show ?thesis
    by (simp add: records_ok_def last_map)
qed

definition grown_user :: "int \<Rightarrow> int \<Rightarrow> User" where
  "grown_user i out = (sample_user 2 1)\<lparr>u_InFlow := i, u_OutFlow := out\<rparr>"

theorem statistics_conserve_witness:
  "recorded_flow (wdb (hourly_records sample_env
     [(''09:00'', grown_user 5 1), (''10:00'', grown_user 5 1), (''11:00'', grown_user 40 2)]
     \<lparr>wdb = sample_db, wops = 0, wnet = (), wsent = []\<rparr>)) 2 = 42"
  by (subst statistics_conserve)
     (simp_all add: sample_env_def user_records_def find_where_def sample_db_def grown_user_def sample_user_def account_total_def)

end
