(* ===== verification/Node_Match.thy ===== *)
theory Node_Match
  imports Net_Addr "HOL-Library.AList"
begin

text \<open>
  The address matchers of a node (go-node/x/internal/matcher, x/internal/net/addr.go) and what is
  built on them: bypass lists (x/bypass), admission lists (x/admission) and the host table
  (x/hosts). Of third-party code the glob compiler and the CIDR trie are parameters. A Go map is
  an association list whose keys are distinct. A loop of the code that shortens its name is a
  \<open>partial_function\<close>: not returning would be \<open>None\<close>.
\<close>

record libs =
  glob_compile :: "string \<Rightarrow> (string \<Rightarrow> bool) option"
  ranger_contains :: "(nat list \<times> nat) list \<Rightarrow> nat list \<Rightarrow> bool"

section \<open>Standard library\<close>

text \<open>\<open>net.SplitHostPort\<close>; on an error host and port are empty.\<close>

definition SplitHostPort :: "string \<Rightarrow> string \<times> string" where
  "SplitHostPort hostport =
     (case last_index (CHR '':'') hostport of
        None \<Rightarrow> ([], [])
      | Some i \<Rightarrow>
          (let brackets = (\<lambda>host j k.
                 if CHR ''['' \<in> set (drop j hostport) \<or> CHR '']'' \<in> set (drop k hostport) then ([], [])
                 else (host, drop (Suc i) hostport))
           in if has_prefix hostport ''['' then
                (case index_of (CHR '']'') hostport of
                   None \<Rightarrow> ([], [])
                 | Some e \<Rightarrow> if Suc e = i then brackets (take (e - 1) (tl hostport)) 1 (Suc e) else ([], []))
              else if CHR '':'' \<in> set (take i hostport) then ([], [])
              else brackets (take i hostport) 0 0))"

definition host_of :: "string \<Rightarrow> string" where
  "host_of addr = (case SplitHostPort addr of (host, _) \<Rightarrow> if host = [] then addr else host)"

text \<open>\<open>strconv.Atoi\<close> with its error ignored: 0 for a text that is no number, the nearest
  value for one out of range.\<close>

definition Atoi :: "string \<Rightarrow> int" where
  "Atoi s =
     (let r = (case s of
                 [] \<Rightarrow> None
               | c # cs \<Rightarrow> if c = CHR ''-'' then map_option uminus (unsigned_int cs)
                          else if c = CHR ''+'' then unsigned_int cs
                          else unsigned_int s)
      in case r of None \<Rightarrow> 0
         | Some x \<Rightarrow> if x < - (2 ^ 63) then - (2 ^ 63) else if 2 ^ 63 \<le> x then 2 ^ 63 - 1 else x)"

text \<open>\<open>netip.Addr\<close>: the length in bits, the bytes and the zone.\<close>

type_synonym netip = "nat \<times> nat list \<times> string"

definition ParseAddr :: "string \<Rightarrow> netip option" where
  "ParseAddr s =
     (case dropWhile (\<lambda>c. c \<noteq> CHR ''.'' \<and> c \<noteq> CHR '':'' \<and> c \<noteq> CHR ''%'') s of
        [] \<Rightarrow> None
      | c # _ \<Rightarrow>
          if c = CHR ''.'' then map_option (\<lambda>q. (32, q, [])) (ipv4_fields s)
          else if c = CHR '':'' then
            (case index_of (CHR ''%'') s of
               None \<Rightarrow> map_option (\<lambda>q. (128, q, [])) (parse_ipv6 s)
             | Some i \<Rightarrow> if drop (Suc i) s = [] then None
                         else map_option (\<lambda>q. (128, q, drop (Suc i) s)) (parse_ipv6 (take i s)))
          else None)"

fun lex_less :: "nat list \<Rightarrow> nat list \<Rightarrow> bool" where
  "lex_less [] [] = False"
| "lex_less [] (y # ys) = True"
| "lex_less (x # xs) [] = False"
| "lex_less (x # xs) (y # ys) = (x < y \<or> (x = y \<and> lex_less xs ys))"

definition netip_less :: "netip \<Rightarrow> netip \<Rightarrow> bool" where
  "netip_less a b =
     (case (a, b) of ((n, xs, z), (m, ys, z')) \<Rightarrow>
        n < m \<or> (n = m \<and> (lex_less xs ys \<or> (xs = ys \<and> lex_less (map of_char z) (map of_char z')))))"

text \<open>\<open>net.ParseCIDR\<close>: the masked network.\<close>

fun mask_bytes :: "nat \<Rightarrow> nat list \<Rightarrow> nat list" where
  "mask_bytes n [] = []"
| "mask_bytes n (b # bs) =
     (if 8 \<le> n then b # mask_bytes (n - 8) bs else (b div 2 ^ (8 - n) * 2 ^ (8 - n)) # mask_bytes 0 bs)"

definition ParseCIDR :: "string \<Rightarrow> (nat list \<times> nat) option" where
  "ParseCIDR s =
     (case index_of (CHR ''/'') s of
        None \<Rightarrow> None
      | Some i \<Rightarrow>
          (case (ParseAddr (take i s), unsigned_int (drop (Suc i) s)) of
             (Some (bits, bytes, zone), Some n) \<Rightarrow>
               if zone \<noteq> [] \<or> int bits < n \<or> 16777215 \<le> n then None
               else Some (mask_bytes (nat n) bytes, nat n)
           | _ \<Rightarrow> None))"

section \<open>Ranges\<close>

record PortRange =
  pr_Min :: int
  pr_Max :: int

definition PortRange_Parse :: "string \<Rightarrow> PortRange option" where
  "PortRange_Parse s =
     (case split_on (CHR ''-'') s of
        [_] \<Rightarrow>
          (case parse_int s of
             None \<Rightarrow> None
           | Some port \<Rightarrow> if port < 0 \<or> 65535 < port then None else Some \<lparr>pr_Min = port, pr_Max = port\<rparr>)
      | [lo, hi] \<Rightarrow>
          (case (parse_int lo, parse_int hi) of
             (Some x, Some y) \<Rightarrow> Some \<lparr>pr_Min = x, pr_Max = y\<rparr>
           | _ \<Rightarrow> None)
      | _ \<Rightarrow> None)"

definition PortRange_Contains :: "PortRange \<Rightarrow> int \<Rightarrow> bool" where
  "PortRange_Contains pr port \<longleftrightarrow> pr_Min pr \<le> port \<and> port \<le> pr_Max pr"

definition port_ok :: "PortRange option \<Rightarrow> int \<Rightarrow> bool" where
  "port_ok pr port = (case pr of None \<Rightarrow> True | Some r \<Rightarrow> PortRange_Contains r port)"

record IPRange =
  ir_Min :: netip
  ir_Max :: netip

definition IPRange_Parse :: "string \<Rightarrow> IPRange option" where
  "IPRange_Parse s =
     (case split_on (CHR ''-'') s of
        [_] \<Rightarrow> map_option (\<lambda>a. \<lparr>ir_Min = a, ir_Max = a\<rparr>) (ParseAddr (trim_space s))
      | [lo, hi] \<Rightarrow>
          (case (ParseAddr (trim_space lo), ParseAddr (trim_space hi)) of
             (Some x, Some y) \<Rightarrow> Some \<lparr>ir_Min = x, ir_Max = y\<rparr>
           | _ \<Rightarrow> None)
      | _ \<Rightarrow> None)"

definition IPRange_Contains :: "IPRange \<Rightarrow> netip \<Rightarrow> bool" where
  "IPRange_Contains r a \<longleftrightarrow> \<not> (netip_less a (ir_Min r) \<or> netip_less (ir_Max r) a)"

section \<open>Matchers\<close>

text \<open>The loop that tries the suffixes of a name at its dots.\<close>

partial_function (option) suffix_walk :: "(string \<Rightarrow> 'v option) \<Rightarrow> string \<Rightarrow> 'v option option" where
  "suffix_walk hit host =
     (case index_of (CHR ''.'') host of
        None \<Rightarrow> Some None
      | Some index \<Rightarrow>
          if 0 < index then
            (case hit (drop index host) of
               Some v \<Rightarrow> Some (Some v)
             | None \<Rightarrow> suffix_walk hit (drop (Suc index) host))
          else Some None)"

type_synonym addrMatcher = "(string \<times> PortRange option) list"

definition add_addr :: "string \<Rightarrow> addrMatcher \<Rightarrow> addrMatcher" where
  "add_addr addr m =
     (case SplitHostPort addr of (host, port) \<Rightarrow>
        if host = [] then AList.update addr None m
        else AList.update host (PortRange_Parse port) m)"

definition AddrMatcher :: "string list \<Rightarrow> addrMatcher" where
  "AddrMatcher addrs = fold add_addr addrs []"

definition addr_hit :: "addrMatcher \<Rightarrow> int \<Rightarrow> string \<Rightarrow> unit option" where
  "addr_hit m port key =
     (case map_of m key of None \<Rightarrow> None | Some pr \<Rightarrow> if port_ok pr port then Some () else None)"

definition addr_Match :: "addrMatcher \<Rightarrow> string \<Rightarrow> bool option" where
  "addr_Match m addr =
     (if m = [] then Some False
      else
        (let host = host_of addr; port = Atoi (snd (SplitHostPort addr))
         in if addr_hit m port host \<noteq> None then Some True
            else if addr_hit m port (CHR ''.'' # host) \<noteq> None then Some True
            else map_option (\<lambda>r. r \<noteq> None) (suffix_walk (addr_hit m port) host)))"

definition domain_hit :: "string list \<Rightarrow> string \<Rightarrow> unit option" where
  "domain_hit domains key = (if key \<in> set domains then Some () else None)"

definition domain_Match :: "string list \<Rightarrow> string \<Rightarrow> bool option" where
  "domain_Match domains domain =
     (if domains = [] then Some False
      else if domain \<in> set domains then Some True
      else if CHR ''.'' # domain \<in> set domains then Some True
      else map_option (\<lambda>r. r \<noteq> None) (suffix_walk (domain_hit domains) domain))"

definition cidr_Match :: "libs \<Rightarrow> (nat list \<times> nat) list \<Rightarrow> string \<Rightarrow> bool" where
  "cidr_Match l inets ip = (case ParseIP ip of None \<Rightarrow> False | Some netIP \<Rightarrow> ranger_contains l inets netIP)"

text \<open>A pattern the glob compiler refuses is a panic, here \<open>None\<close>.\<close>

type_synonym wildcardPattern = "(string \<Rightarrow> bool) \<times> PortRange option"

definition wildcard_pattern :: "libs \<Rightarrow> string \<Rightarrow> wildcardPattern option" where
  "wildcard_pattern l pattern =
     map_option (\<lambda>g. (g, PortRange_Parse (snd (SplitHostPort pattern)))) (glob_compile l (host_of pattern))"

fun WildcardMatcher :: "libs \<Rightarrow> string list \<Rightarrow> wildcardPattern list option" where
  "WildcardMatcher l [] = Some []"
| "WildcardMatcher l (p # ps) =
     (case wildcard_pattern l p of
        None \<Rightarrow> None
      | Some x \<Rightarrow> map_option (\<lambda>xs. x # xs) (WildcardMatcher l ps))"

definition wildcard_Match :: "wildcardPattern list \<Rightarrow> string \<Rightarrow> bool" where
  "wildcard_Match patterns addr =
     (let host = host_of addr; port = Atoi (snd (SplitHostPort addr))
      in list_ex (\<lambda>(glob, pr). glob host \<and> port_ok pr port) patterns)"

definition ipRange_Match :: "IPRange list \<Rightarrow> string \<Rightarrow> bool" where
  "ipRange_Match ranges addr =
     (case ParseAddr (host_of addr) of
        None \<Rightarrow> False
      | Some a \<Rightarrow> list_ex (\<lambda>r. IPRange_Contains r a) ranges)"

section \<open>Rule files\<close>

definition parseLine :: "string \<Rightarrow> string" where
  "parseLine s = trim_space (case index_of (CHR ''#'') s of None \<Rightarrow> s | Some n \<Rightarrow> take n s)"

definition parsePatterns :: "string list \<Rightarrow> string list" where
  "parsePatterns ls = filter (\<lambda>s. s \<noteq> []) (map parseLine ls)"

text \<open>What a loader offers: a list of items, or a reader of lines (\<open>None\<close> after an error).\<close>

datatype loader = Lister "string list" | Reader "string list option"

definition read_patterns :: "string list option \<Rightarrow> string list" where
  "read_patterns r = (case r of None \<Rightarrow> [] | Some ls \<Rightarrow> parsePatterns ls)"

definition load_patterns :: "loader option \<Rightarrow> loader option \<Rightarrow> string list option option \<Rightarrow> string list" where
  "load_patterns file redis http =
     (case file of None \<Rightarrow> [] | Some (Lister ls) \<Rightarrow> parsePatterns ls | Some (Reader r) \<Rightarrow> read_patterns r) @
     (case redis of None \<Rightarrow> [] | Some (Lister ls) \<Rightarrow> ls | Some (Reader r) \<Rightarrow> read_patterns r) @
     (case http of None \<Rightarrow> [] | Some r \<Rightarrow> read_patterns r)"

section \<open>Bypass\<close>

datatype pattern_kind = Cidr "nat list \<times> nat" | Wildcard string | Range IPRange | Addr string

definition classify :: "string \<Rightarrow> pattern_kind" where
  "classify pattern =
     (case ParseCIDR pattern of
        Some inet \<Rightarrow> Cidr inet
      | None \<Rightarrow>
          if CHR ''*'' \<in> set pattern \<or> CHR ''?'' \<in> set pattern then Wildcard pattern
          else (case IPRange_Parse pattern of Some r \<Rightarrow> Range r | None \<Rightarrow> Addr pattern))"

record localBypass =
  bp_cidrs :: "(nat list \<times> nat) list"
  bp_addrs :: addrMatcher
  bp_wildcards :: "wildcardPattern list"
  bp_ranges :: "IPRange list"
  bp_whitelist :: bool

definition bypass_reload :: "libs \<Rightarrow> bool \<Rightarrow> string list \<Rightarrow> localBypass option" where
  "bypass_reload l whitelist patterns =
     (let ks = map classify patterns;
          addrs = List.map_filter (\<lambda>k. case k of Addr a \<Rightarrow> Some a | _ \<Rightarrow> None) ks;
          inets = List.map_filter (\<lambda>k. case k of Cidr n \<Rightarrow> Some n | _ \<Rightarrow> None) ks;
          wildcards = List.map_filter (\<lambda>k. case k of Wildcard p \<Rightarrow> Some p | _ \<Rightarrow> None) ks;
          ipRanges = List.map_filter (\<lambda>k. case k of Range r \<Rightarrow> Some r | _ \<Rightarrow> None) ks
      in map_option (\<lambda>ws. \<lparr>bp_cidrs = inets, bp_addrs = AddrMatcher addrs, bp_wildcards = ws,
             bp_ranges = ipRanges, bp_whitelist = whitelist\<rparr>) (WildcardMatcher l wildcards))"

definition bypass_matched :: "libs \<Rightarrow> localBypass \<Rightarrow> string \<Rightarrow> bool option" where
  "bypass_matched l bp addr =
     (if ipRange_Match (bp_ranges bp) addr then Some True
      else case addr_Match (bp_addrs bp) addr of
        None \<Rightarrow> None
      | Some True \<Rightarrow> Some True
      | Some False \<Rightarrow>
          if ParseIP (host_of addr) \<noteq> None \<and> cidr_Match l (bp_cidrs bp) (host_of addr) then Some True
          else Some (wildcard_Match (bp_wildcards bp) addr))"

definition bypass_Contains :: "libs \<Rightarrow> localBypass \<Rightarrow> string \<Rightarrow> bool option" where
  "bypass_Contains l bp addr =
     (if addr = [] then Some False
      else map_option (\<lambda>matched. (\<not> bp_whitelist bp \<and> matched) \<or> (bp_whitelist bp \<and> \<not> matched))
             (bypass_matched l bp addr))"

text \<open>\<open>bypassGroup.Contains\<close>, from the kind and the answer of each bypass.\<close>

definition group_Contains :: "(bool \<times> bool) list \<Rightarrow> bool" where
  "group_Contains results =
     (let whitelist = map snd (filter fst results); blacklist = map snd (filter (\<lambda>r. \<not> fst r) results);
          status = (if whitelist \<noteq> [] then False \<notin> set whitelist else False)
      in if \<not> status \<and> blacklist \<noteq> [] then True \<in> set blacklist else status)"

section \<open>Admission\<close>

text \<open>\<open>net.IP.String\<close>.\<close>

definition hex_digit :: "nat \<Rightarrow> char" where
  "hex_digit n = (if n < 10 then digit n else char_of (87 + n))"

fun hex_text :: "nat \<Rightarrow> string" where
  "hex_text n = (if n < 16 then [hex_digit n] else hex_text (n div 16) @ [hex_digit (n mod 16)])"

declare hex_text.simps [simp del]

fun groups16 :: "nat list \<Rightarrow> nat list" where
  "groups16 (a # b # bs) = (a * 256 + b) # groups16 bs"
| "groups16 bs = []"

text \<open>The first longest run of at least two zero groups: its start and its length.\<close>

definition zero_run :: "nat list \<Rightarrow> nat \<times> nat" where
  "zero_run gs = fold (\<lambda>i best. let n = length (takeWhile (\<lambda>g. g = 0) (drop i gs))
     in if 2 \<le> n \<and> snd best < n then (i, n) else best) [0..<length gs] (length gs, 0)"

fun join_with :: "string \<Rightarrow> string list \<Rightarrow> string" where
  "join_with sep [] = []"
| "join_with sep [x] = x"
| "join_with sep (x # y # zs) = x @ sep @ join_with sep (y # zs)"

definition ip_String :: "nat list \<Rightarrow> string" where
  "ip_String ip =
     (case To4 ip of
        Some bs \<Rightarrow> join_with ''.'' (map dec bs)
      | None \<Rightarrow>
          (case zero_run (groups16 ip) of (i, n) \<Rightarrow>
             if n = 0 then join_with '':'' (map hex_text (groups16 ip))
             else join_with '':'' (map hex_text (take i (groups16 ip))) @ ''::'' @
                  join_with '':'' (map hex_text (drop (i + n) (groups16 ip)))))"

record localAdmission =
  ad_ips :: "string list"
  ad_cidrs :: "(nat list \<times> nat) list"
  ad_whitelist :: bool

text \<open>A pattern that is neither an address nor a network is resolved; \<open>resolve\<close> is
  \<open>net.ResolveIPAddr\<close>.\<close>

definition admission_reload :: "(string \<Rightarrow> nat list option) \<Rightarrow> bool \<Rightarrow> string list \<Rightarrow> localAdmission" where
  "admission_reload resolve whitelist patterns =
     \<lparr>ad_ips = List.map_filter (\<lambda>p. case ParseIP p of
          Some ip \<Rightarrow> Some (ip_String ip)
        | None \<Rightarrow> if ParseCIDR p \<noteq> None then None else map_option ip_String (resolve p)) patterns,
      ad_cidrs = List.map_filter (\<lambda>p. if ParseIP p \<noteq> None then None else ParseCIDR p) patterns,
      ad_whitelist = whitelist\<rparr>"

definition admission_matched :: "libs \<Rightarrow> localAdmission \<Rightarrow> string \<Rightarrow> bool" where
  "admission_matched l p addr \<longleftrightarrow> addr \<in> set (ad_ips p) \<or> cidr_Match l (ad_cidrs p) addr"

definition Admit :: "libs \<Rightarrow> localAdmission \<Rightarrow> string \<Rightarrow> bool" where
  "Admit l p addr =
     (if addr = [] then True
      else (let matched = admission_matched l p (host_of addr)
            in (\<not> ad_whitelist p \<and> \<not> matched) \<or> (ad_whitelist p \<and> matched)))"

definition group_Admit :: "libs \<Rightarrow> localAdmission option list \<Rightarrow> string \<Rightarrow> bool" where
  "group_Admit l ads addr = list_all (\<lambda>a. case a of None \<Rightarrow> True | Some p \<Rightarrow> Admit l p addr) ads"

section \<open>Host table\<close>

type_synonym hostTable = "(string \<times> nat list list) list"

text \<open>One mapping: an address is stored once for a name.\<close>

definition add_mapping :: "string \<times> nat list \<Rightarrow> hostTable \<Rightarrow> hostTable" where
  "add_mapping m t =
     (case m of (hostname, ip) \<Rightarrow>
        let ips = (case map_of t hostname of None \<Rightarrow> [] | Some x \<Rightarrow> x)
        in AList.update hostname (if ip \<in> set ips then ips else ips @ [ip]) t)"

definition hosts_reload :: "(string \<times> nat list) list \<Rightarrow> hostTable" where
  "hosts_reload mappings = fold add_mapping mappings []"

definition blank_tabs :: "string \<Rightarrow> string" where
  "blank_tabs s = map (\<lambda>c. if c = CHR 0x09 then CHR '' '' else c) s"

definition fields_of :: "string \<Rightarrow> string list" where
  "fields_of line = filter (\<lambda>s. s \<noteq> []) (map trim_space (split_on (CHR '' '') line))"

definition hosts_parseLine :: "string \<Rightarrow> (string \<times> nat list) list" where
  "hosts_parseLine s =
     (let line0 = trim_space (blank_tabs s);
          line = (case index_of (CHR ''#'') line0 of None \<Rightarrow> line0 | Some n \<Rightarrow> take n line0)
      in case fields_of line of
           addr # names \<Rightarrow>
             if names = [] then []
             else (case ParseIP addr of None \<Rightarrow> [] | Some ip \<Rightarrow> map (\<lambda>v. (v, ip)) names)
         | [] \<Rightarrow> [])"

text \<open>\<open>Lookup\<close>; the second result of the code is never set and is left out.\<close>

definition hosts_Lookup :: "hostTable \<Rightarrow> string \<Rightarrow> string \<Rightarrow> nat list list option" where
  "hosts_Lookup t network host =
     (let found = (case map_of t host of
            Some ips \<Rightarrow> Some (Some ips)
          | None \<Rightarrow> (case map_of t (CHR ''.'' # host) of
                       Some ips \<Rightarrow> Some (Some ips)
                     | None \<Rightarrow> suffix_walk (map_of t) host))
      in case found of
           None \<Rightarrow> None
         | Some None \<Rightarrow> Some []
         | Some (Some ips) \<Rightarrow>
             Some (if network = ''ip4'' then List.map_filter To4 ips
                   else if network = ''ip6'' then filter (\<lambda>ip. To4 ip = None) ips
                   else ips))"

end
