(* ===== verification/Node_Match_Props.thy ===== *)
theory Node_Match_Props
  imports Node_Match
begin

text \<open>
  The matchers return on every input and agree with the meaning of a rule: a name covers itself,
  and a rule with a leading dot covers the name after the dot and everything below it. A bypass
  list is then the disjunction of its patterns.
\<close>

section \<open>The loop over the suffixes\<close>

lemma index_of_Some: "index_of c s = Some i \<Longrightarrow> \<exists>a b. s = a @ c # b \<and> c \<notin> set a \<and> length a = i"
proof (induction s arbitrary: i)
  case (Cons x xs)
  show ?case
  proof (cases "x = c")
    case True
    with Cons.prems show ?thesis by (intro exI [of _ "[]"] exI [of _ xs]) auto
  next
    case False
    with Cons.prems obtain j where "index_of c xs = Some j" "i = Suc j" by auto
    with Cons.IH obtain a b where "xs = a @ c # b" "c \<notin> set a" "length a = j" by blast
    with False \<open>i = Suc j\<close> show ?thesis by (intro exI [of _ "x # a"] exI [of _ b]) auto
  qed
qed simp

lemma suffix_walk_step:
  "suffix_walk hit (a @ CHR ''.'' # b) =
     (if a = [] then Some None
      else (case hit (CHR ''.'' # b) of Some v \<Rightarrow> Some (Some v) | None \<Rightarrow> suffix_walk hit b))"
  if "CHR ''.'' \<notin> set a"
  using that by (subst suffix_walk.simps) (simp add: index_of_append split: option.split)

lemma suffix_walk_end: "CHR ''.'' \<notin> set s \<Longrightarrow> suffix_walk hit s = Some None"
  by (subst suffix_walk.simps) (simp add: index_of_None [THEN iffD2])

text \<open>Names by their first dot.\<close>

lemma dot_induct [case_names plain dot]:
  assumes "\<And>s. CHR ''.'' \<notin> set s \<Longrightarrow> P s" and "\<And>a b. CHR ''.'' \<notin> set a \<Longrightarrow> P b \<Longrightarrow> P (a @ CHR ''.'' # b)"
  shows "P s"
proof (induction s rule: length_induct)
  case (1 s)
  show ?case
  proof (cases "index_of (CHR ''.'') s")
    case None
    then show ?thesis using assms(1) by (simp add: index_of_None)
  next
    case (Some i)
    then obtain a b where "s = a @ CHR ''.'' # b" "CHR ''.'' \<notin> set a" using index_of_Some by blast
    with 1 assms(2) show ?thesis by simp
  qed
qed

lemma suffix_walk_total: "\<exists>r. suffix_walk hit s = Some r"
proof (induction s rule: dot_induct)
  case (plain s)
  then show ?case by (simp add: suffix_walk_end)
next
  case (dot a b)
  then show ?case by (cases "hit (CHR ''.'' # b)") (auto simp: suffix_walk_step)
qed

text \<open>C25: The matchers return. The loops that cut a name at its dots end on every input, whatever
  the rules: matching an address against a list of addresses, a name against a list of domains,
  looking a host up and deciding a bypass all give an answer.\<close>

theorem matchers_return:
  "addr_Match m addr \<noteq> None \<and> domain_Match domains domain \<noteq> None \<and> hosts_Lookup t network host \<noteq> None \<and>
   bypass_Contains l bp addr \<noteq> None"
proof -
  have w: "suffix_walk hit s \<noteq> None" for hit :: "string \<Rightarrow> 'c option" and s
    using suffix_walk_total [of hit s] by auto
  have a: "addr_Match m addr \<noteq> None" for m using w by (auto simp: addr_Match_def Let_def)
  moreover have "bypass_Contains l bp addr \<noteq> None"
    using a [of "bp_addrs bp"] by (auto simp: bypass_Contains_def bypass_matched_def split: option.split bool.split)
  moreover have "domain_Match domains domain \<noteq> None" using w by (auto simp: domain_Match_def)
  moreover have "hosts_Lookup t network host \<noteq> None"
  proof -
    obtain r where "suffix_walk (map_of t) host = Some r" using suffix_walk_total by blast
    then show ?thesis by (auto simp: hosts_Lookup_def Let_def split: option.split)
  qed
  ultimately show ?thesis by blast
qed

section \<open>What a rule covers\<close>

text \<open>Names without empty labels, except after a final dot.\<close>

definition plain_name :: "string \<Rightarrow> bool" where
  "plain_name s \<longleftrightarrow> \<not> has_prefix s ''.'' \<and> \<not> contains_str s ''..''"

definition rule_covers :: "string \<Rightarrow> string \<Rightarrow> bool" where
  "rule_covers rule name \<longleftrightarrow> rule = name \<or> (has_prefix rule ''.'' \<and> (tl rule = name \<or> has_suffix name rule))"

lemma plain_dot:
  assumes "plain_name (a @ CHR ''.'' # b)" and "CHR ''.'' \<notin> set a"
  shows "a \<noteq> []" and "plain_name b"
proof -
  show "a \<noteq> []" using assms(1) by (auto simp: plain_name_def)
  have "\<not> contains_str b ''..''"
  proof
    assume "contains_str b ''..''"
    then obtain x y where "b = x @ ''..'' @ y" by (auto simp: contains_str_iff)
    then have "a @ CHR ''.'' # b = (a @ CHR ''.'' # x) @ ''..'' @ y" by simp
    then have "contains_str (a @ CHR ''.'' # b) ''..''" unfolding contains_str_iff by blast
    with assms(1) show False by (simp add: plain_name_def)
  qed
  moreover have "\<not> has_prefix b ''.''"
  proof
    assume "has_prefix b ''.''"
    then obtain y where "b = ''.'' @ y" by (auto simp: has_prefix_iff)
    then have "a @ CHR ''.'' # b = a @ ''..'' @ y" by simp
    then have "contains_str (a @ CHR ''.'' # b) ''..''" unfolding contains_str_iff by blast
    with assms(1) show False by (simp add: plain_name_def)
  qed
  ultimately show "plain_name b" by (simp add: plain_name_def)
qed

lemma dot_suffix:
  assumes "CHR ''.'' \<notin> set a"
  shows "has_suffix (a @ CHR ''.'' # b) (CHR ''.'' # s) \<longleftrightarrow> s = b \<or> has_suffix b (CHR ''.'' # s)"
proof
  assume "has_suffix (a @ CHR ''.'' # b) (CHR ''.'' # s)"
  then obtain r where r: "a @ CHR ''.'' # b = r @ CHR ''.'' # s" by (auto simp: has_suffix_iff)
  then consider t where "a = r @ t" "t @ CHR ''.'' # b = CHR ''.'' # s"
    | t where "r = a @ t" "CHR ''.'' # b = t @ CHR ''.'' # s"
    by (auto simp: append_eq_append_conv2)
  then show "s = b \<or> has_suffix b (CHR ''.'' # s)"
  proof cases
    case 1
    with assms show ?thesis by (cases t) auto
  next
    case 2
    then show ?thesis by (cases t) (auto simp: has_suffix_iff)
  qed
next
  assume "s = b \<or> has_suffix b (CHR ''.'' # s)"
  then show "has_suffix (a @ CHR ''.'' # b) (CHR ''.'' # s)"
    by (auto simp: has_suffix_iff)
qed

text \<open>On a plain name the loop finds a hit exactly when some suffix at a dot is one.\<close>

lemma suffix_walk_hits:
  "plain_name s \<Longrightarrow> suffix_walk hit s = Some r \<Longrightarrow>
     r \<noteq> None \<longleftrightarrow> (\<exists>x. has_suffix s (CHR ''.'' # x) \<and> hit (CHR ''.'' # x) \<noteq> None)"
proof (induction s arbitrary: r rule: dot_induct)
  case (plain s)
  have "\<not> has_suffix s (CHR ''.'' # x)" for x using plain(1) by (auto simp: has_suffix_iff)
  with plain show ?case by (auto simp: suffix_walk_end)
next
  case (dot a b)
  have p: "a \<noteq> []" "plain_name b" using plain_dot dot by blast+
  show ?case
  proof (cases "hit (CHR ''.'' # b)")
    case None
    with dot p show ?thesis by (auto simp: suffix_walk_step dot_suffix)
  next
    case (Some v)
    with dot p show ?thesis by (auto simp: suffix_walk_step dot_suffix intro!: exI [of _ b])
  qed
qed

lemma covers_iff:
  "rule_covers rule name \<longleftrightarrow> rule = name \<or> rule = CHR ''.'' # name \<or> (\<exists>x. rule = CHR ''.'' # x \<and> has_suffix name rule)"
  by (cases rule) (auto simp: rule_covers_def)

text \<open>The three steps of a matcher over the rules \<open>R\<close>.\<close>

definition walk_finds :: "(string \<Rightarrow> 'v option) \<Rightarrow> string \<Rightarrow> bool" where
  "walk_finds hit name \<longleftrightarrow>
     hit name \<noteq> None \<or> hit (CHR ''.'' # name) \<noteq> None \<or> suffix_walk hit name \<noteq> Some None"

lemma walk_covers:
  assumes "plain_name name" and "\<And>key. hit key \<noteq> None \<longleftrightarrow> key \<in> R"
  shows "walk_finds hit name \<longleftrightarrow> (\<exists>rule \<in> R. rule_covers rule name)"
proof -
  obtain r where r: "suffix_walk hit name = Some r" using suffix_walk_total by blast
  have "r \<noteq> None \<longleftrightarrow> (\<exists>x. has_suffix name (CHR ''.'' # x) \<and> CHR ''.'' # x \<in> R)"
    using suffix_walk_hits [OF assms(1) r] assms(2) by simp
  then show ?thesis unfolding walk_finds_def assms(2) covers_iff r by auto
qed

text \<open>Property: The domain matcher is its reference: on a name without empty labels the look-ups in the
  table of rules, over the suffixes of the name, find exactly the rules that cover the name -
  itself, or with a leading dot the name after the dot and every name below it.\<close>

theorem domain_match_reference:
  assumes "plain_name name"
  shows "domain_Match domains name = Some (list_ex (\<lambda>rule. rule_covers rule name) domains)"
proof (cases "domains = []")
  case True
  then show ?thesis by (simp add: domain_Match_def)
next
  case False
  obtain r where r: "suffix_walk (domain_hit domains) name = Some r" using suffix_walk_total by blast
  have "domain_Match domains name = Some (walk_finds (domain_hit domains) name)"
    using False r by (auto simp: domain_Match_def walk_finds_def domain_hit_def)
  also have "\<dots> = Some (\<exists>rule \<in> set domains. rule_covers rule name)"
    by (subst walk_covers [OF assms, of _ "set domains"]) (simp_all add: domain_hit_def)
  finally show ?thesis by (simp add: list_ex_iff)
qed

theorem domain_match_reference_witness:
  "domain_Match [''example.org'', ''.example.com''] ''a.b.example.com'' = Some True \<and>
   domain_Match [''example.org'', ''.example.com''] ''notexample.com'' = Some False"
proof -
  have "plain_name ''a.b.example.com''" "plain_name ''notexample.com''" by code_simp+
  note m = this [THEN domain_match_reference]
  show ?thesis unfolding m by code_simp
qed

section \<open>A bypass list is the disjunction of its patterns\<close>

definition addr_key :: "string \<Rightarrow> string" where
  "addr_key a = (if fst (SplitHostPort a) = [] then a else fst (SplitHostPort a))"

definition addr_range :: "string \<Rightarrow> PortRange option" where
  "addr_range a = (if fst (SplitHostPort a) = [] then None else PortRange_Parse (snd (SplitHostPort a)))"

definition addr_port :: "string \<Rightarrow> int" where
  "addr_port addr = Atoi (snd (SplitHostPort addr))"

definition pattern_covers :: "libs \<Rightarrow> string \<Rightarrow> string \<Rightarrow> bool" where
  "pattern_covers l p addr =
     (case classify p of
        Cidr n \<Rightarrow> (case ParseIP (host_of addr) of None \<Rightarrow> False | Some ip \<Rightarrow> net_contains n ip)
      | Range r \<Rightarrow> (case ParseAddr (host_of addr) of None \<Rightarrow> False | Some a \<Rightarrow> IPRange_Contains r a)
      | Wildcard q \<Rightarrow> (case wildcard_pattern l q of
            None \<Rightarrow> False | Some (glob, pr) \<Rightarrow> glob (host_of addr) \<and> port_ok pr (addr_port addr))
      | Addr a \<Rightarrow> rule_covers (addr_key a) (host_of addr) \<and> port_ok (addr_range a) (addr_port addr))"

lemma add_addr_update: "add_addr a m = AList.update (addr_key a) (addr_range a) m"
  by (simp add: add_addr_def addr_key_def addr_range_def split: prod.split)

lemma fold_add_addr:
  "map_of (fold add_addr addrs m) = map_of m ++ map_of (rev (map (\<lambda>a. (addr_key a, addr_range a)) addrs))"
  by (induction addrs arbitrary: m) (simp_all add: add_addr_update update_conv' map_add_def fun_eq_iff split: option.split)

text \<open>Of two entries for the same host the later one decides.\<close>

lemma later_port_wins:
  assumes "addr_key a = addr_key b" and "addr_key a = host" and "addr_range b = Some r" and "\<not> PortRange_Contains r port"
  shows "addr_hit (AddrMatcher [a, b]) port host = None"
  using assms by (simp add: AddrMatcher_def addr_hit_def add_addr_update update_conv' port_ok_def)

lemma addr_hits:
  assumes "distinct (map addr_key addrs)"
  shows "addr_hit (AddrMatcher addrs) port key \<noteq> None \<longleftrightarrow> (\<exists>a \<in> set addrs. addr_key a = key \<and> port_ok (addr_range a) port)"
proof -
  let ?xs = "rev (map (\<lambda>a. (addr_key a, addr_range a)) addrs)"
  have "distinct (map fst ?xs)" using assms by (simp add: comp_def flip: rev_map)
  then have "map_of ?xs key = Some pr \<longleftrightarrow> (key, pr) \<in> set ?xs" for pr by (rule map_of_eq_Some_iff)
  then have "map_of (AddrMatcher addrs) key = Some pr \<longleftrightarrow> (\<exists>a \<in> set addrs. addr_key a = key \<and> addr_range a = pr)" for pr
    by (auto simp: AddrMatcher_def fold_add_addr)
  moreover have "addr_hit (AddrMatcher addrs) port key \<noteq> None \<longleftrightarrow>
      (\<exists>pr. map_of (AddrMatcher addrs) key = Some pr \<and> port_ok pr port)"
    by (simp add: addr_hit_def split: option.split)
  ultimately show ?thesis by auto
qed

lemma addr_reference:
  assumes "plain_name (host_of addr)" and "distinct (map addr_key addrs)"
  shows "addr_Match (AddrMatcher addrs) addr =
    Some (\<exists>a \<in> set addrs. rule_covers (addr_key a) (host_of addr) \<and> port_ok (addr_range a) (addr_port addr))"
proof -
  let ?m = "AddrMatcher addrs" and ?p = "addr_port addr" and ?h = "host_of addr"
  obtain r where r: "suffix_walk (addr_hit ?m ?p) ?h = Some r" using suffix_walk_total by blast
  have e: "\<not> walk_finds (addr_hit ?m ?p) ?h" if "?m = []"
  proof -
    have "suffix_walk (\<lambda>_. None :: unit option) s = Some None" for s
      by (induction s rule: dot_induct) (simp_all add: suffix_walk_end suffix_walk_step)
    moreover have "addr_hit ?m ?p = (\<lambda>_. None)" using that by (simp add: addr_hit_def fun_eq_iff)
    ultimately show ?thesis by (simp add: walk_finds_def)
  qed
  have "addr_Match ?m addr = Some (walk_finds (addr_hit ?m ?p) ?h)"
    using e r by (auto simp: addr_Match_def walk_finds_def addr_port_def Let_def)
  also have "walk_finds (addr_hit ?m ?p) ?h \<longleftrightarrow>
      (\<exists>rule \<in> addr_key ` {a \<in> set addrs. port_ok (addr_range a) ?p}. rule_covers rule ?h)"
    by (rule walk_covers [OF assms(1)], subst addr_hits [OF assms(2)]) auto
  finally show ?thesis by auto
qed

lemma wildcards_covers:
  "WildcardMatcher l qs = Some ws \<Longrightarrow>
     wildcard_Match ws addr \<longleftrightarrow> (\<exists>q \<in> set qs. case wildcard_pattern l q of
        None \<Rightarrow> False | Some (glob, pr) \<Rightarrow> glob (host_of addr) \<and> port_ok pr (addr_port addr))"
proof (induction qs arbitrary: ws)
  case Nil
  then show ?case by (simp add: wildcard_Match_def Let_def)
next
  case (Cons q qs)
  then obtain g pr xs where x: "wildcard_pattern l q = Some (g, pr)" "WildcardMatcher l qs = Some xs" "ws = (g, pr) # xs"
    by (auto split: option.splits)
  then have "wildcard_Match ws addr \<longleftrightarrow> (g (host_of addr) \<and> port_ok pr (addr_port addr)) \<or> wildcard_Match xs addr"
    by (simp add: wildcard_Match_def addr_port_def Let_def)
  with Cons.IH [OF x(2)] x(1) show ?case by simp
qed

definition addr_patterns :: "string list \<Rightarrow> string list" where
  "addr_patterns ps = List.map_filter (\<lambda>k. case k of Addr a \<Rightarrow> Some a | _ \<Rightarrow> None) (map classify ps)"

lemma set_kinds:
  "set (List.map_filter (\<lambda>k. case k of Addr a \<Rightarrow> Some a | _ \<Rightarrow> None) (map classify ps)) = {a. \<exists>p \<in> set ps. classify p = Addr a}"
  "set (List.map_filter (\<lambda>k. case k of Cidr n \<Rightarrow> Some n | _ \<Rightarrow> None) (map classify ps)) = {n. \<exists>p \<in> set ps. classify p = Cidr n}"
  "set (List.map_filter (\<lambda>k. case k of Wildcard q \<Rightarrow> Some q | _ \<Rightarrow> None) (map classify ps)) = {q. \<exists>p \<in> set ps. classify p = Wildcard q}"
  "set (List.map_filter (\<lambda>k. case k of Range r \<Rightarrow> Some r | _ \<Rightarrow> None) (map classify ps)) = {r. \<exists>p \<in> set ps. classify p = Range r}"
  by (induction ps) (auto simp: map_filter_simps split: pattern_kind.splits)

lemma covers_kinds:
  "classify p = Cidr n \<Longrightarrow> pattern_covers l p addr \<longleftrightarrow> (\<exists>ip. ParseIP (host_of addr) = Some ip \<and> net_contains n ip)"
  "classify p = Range r \<Longrightarrow> pattern_covers l p addr \<longleftrightarrow> (\<exists>a. ParseAddr (host_of addr) = Some a \<and> IPRange_Contains r a)"
  "classify p = Wildcard q \<Longrightarrow> pattern_covers l p addr \<longleftrightarrow> (case wildcard_pattern l q of
      None \<Rightarrow> False | Some (glob, pr) \<Rightarrow> glob (host_of addr) \<and> port_ok pr (addr_port addr))"
  "classify p = Addr a \<Longrightarrow> pattern_covers l p addr \<longleftrightarrow>
     rule_covers (addr_key a) (host_of addr) \<and> port_ok (addr_range a) (addr_port addr)"
  unfolding pattern_covers_def by (simp_all split: option.split)

text \<open>C24: A bypass list means its patterns. Built from any list of patterns - networks, ranges,
  wildcards, hosts with or without ports - the four indexes of the bypass answer as the
  disjunction of the patterns, negated for a white list. What is needed: the name has no empty
  labels, no host is listed twice (of two entries for one host only the later port range is
  kept, \<open>later_port_wins\<close>), and the trie of networks answers as its networks do.\<close>

theorem bypass_reference:
  assumes "bypass_reload l whitelist patterns = Some bp" and "addr \<noteq> []" and "plain_name (host_of addr)"
    and "distinct (map addr_key (addr_patterns patterns))"
    and "\<And>nets ip. ranger_contains l nets ip = list_ex (\<lambda>n. net_contains n ip) nets"
  shows "bypass_Contains l bp addr = Some (list_ex (\<lambda>p. pattern_covers l p addr) patterns \<noteq> whitelist)"
proof -
  define inets where "inets = List.map_filter (\<lambda>k. case k of Cidr n \<Rightarrow> Some n | _ \<Rightarrow> None) (map classify patterns)"
  define qs where "qs = List.map_filter (\<lambda>k. case k of Wildcard q \<Rightarrow> Some q | _ \<Rightarrow> None) (map classify patterns)"
  define rs where "rs = List.map_filter (\<lambda>k. case k of Range r \<Rightarrow> Some r | _ \<Rightarrow> None) (map classify patterns)"
  obtain ws where ws: "WildcardMatcher l qs = Some ws"
    and bp: "bp = \<lparr>bp_cidrs = inets, bp_addrs = AddrMatcher (addr_patterns patterns), bp_wildcards = ws,
      bp_ranges = rs, bp_whitelist = whitelist\<rparr>"
    using assms(1) by (auto simp: bypass_reload_def Let_def inets_def qs_def rs_def addr_patterns_def)
  let ?addr = "\<exists>a \<in> set (addr_patterns patterns). rule_covers (addr_key a) (host_of addr) \<and> port_ok (addr_range a) (addr_port addr)"
  let ?wild = "\<exists>q \<in> set qs. case wildcard_pattern l q of
        None \<Rightarrow> False | Some (glob, pr) \<Rightarrow> glob (host_of addr) \<and> port_ok pr (addr_port addr)"
  have "bypass_matched l bp addr = Some (ipRange_Match rs addr \<or> ?addr \<or> cidr_Match l inets (host_of addr) \<or> ?wild)"
  proof -
    have "addr_Match (bp_addrs bp) addr = Some ?addr" using addr_reference [OF assms(3,4)] by (simp add: bp)
    moreover have "wildcard_Match (bp_wildcards bp) addr = ?wild" by (simp only: bp localBypass.simps wildcards_covers [OF ws])
    moreover have "cidr_Match l inets (host_of addr) \<Longrightarrow> ParseIP (host_of addr) \<noteq> None"
      by (auto simp: cidr_Match_def split: option.splits)
    ultimately show ?thesis
      by (cases ?addr) (auto simp only: bypass_matched_def bp localBypass.simps option.case bool.case simp_thms split: if_splits)
  qed
  also have "ipRange_Match rs addr \<or> ?addr \<or> cidr_Match l inets (host_of addr) \<or> ?wild \<longleftrightarrow>
      (\<exists>p \<in> set patterns. pattern_covers l p addr)"
  proof -
    have 1: "ipRange_Match rs addr \<longleftrightarrow> (\<exists>p \<in> set patterns. \<exists>r. classify p = Range r \<and> pattern_covers l p addr)"
      by (auto simp: ipRange_Match_def rs_def list_ex_iff set_kinds covers_kinds split: option.split)
    have 2: "cidr_Match l inets (host_of addr) \<longleftrightarrow> (\<exists>p \<in> set patterns. \<exists>n. classify p = Cidr n \<and> pattern_covers l p addr)"
    proof -
      have "cidr_Match l inets (host_of addr) \<longleftrightarrow> (\<exists>n \<in> set inets. \<exists>ip. ParseIP (host_of addr) = Some ip \<and> net_contains n ip)"
        by (simp add: cidr_Match_def assms(5) list_ex_iff split: option.split)
      then show ?thesis unfolding inets_def set_kinds using covers_kinds(1) by blast
    qed
    have 3: "?wild \<longleftrightarrow> (\<exists>p \<in> set patterns. \<exists>q. classify p = Wildcard q \<and> pattern_covers l p addr)"
      unfolding qs_def set_kinds using covers_kinds(3) by blast
    have 4: "?addr \<longleftrightarrow> (\<exists>p \<in> set patterns. \<exists>a. classify p = Addr a \<and> pattern_covers l p addr)"
      unfolding addr_patterns_def set_kinds using covers_kinds(4) by blast
    have "(\<exists>r. classify p = Range r) \<or> (\<exists>n. classify p = Cidr n) \<or> (\<exists>q. classify p = Wildcard q) \<or> (\<exists>a. classify p = Addr a)"
      for p by (cases "classify p") auto
    then show ?thesis unfolding 1 2 3 4 by blast
  qed
  finally show ?thesis using assms(2) by (auto simp: bypass_Contains_def bp list_ex_iff)
qed

text \<open>Globs with a star at the front only, and a trie that is its list.\<close>

definition star_libs :: libs where
  "star_libs = \<lparr>glob_compile = (\<lambda>p. if has_prefix p ''*'' then Some (\<lambda>s. has_suffix s (tl p)) else None),
     ranger_contains = (\<lambda>nets ip. list_ex (\<lambda>n. net_contains n ip) nets)\<rparr>"

definition demo_patterns :: "string list" where
  "demo_patterns = [''10.0.0.0/8'', ''*.cdn.net:443'', ''192.168.1.5-192.168.1.9'', ''.example.com:80-90'']"

definition demo_bypass :: localBypass where
  "demo_bypass = the (bypass_reload star_libs True demo_patterns)"

theorem bypass_reference_witness:
  "bypass_Contains star_libs demo_bypass ''10.1.2.3:22'' = Some False \<and>
   bypass_Contains star_libs demo_bypass ''a.example.com:85'' = Some False \<and>
   bypass_Contains star_libs demo_bypass ''a.example.com:91'' = Some True \<and>
   bypass_Contains star_libs demo_bypass ''192.168.1.10:80'' = Some True"
proof -
  have "bypass_reload star_libs True demo_patterns \<noteq> None" by code_simp
  then have bp: "bypass_reload star_libs True demo_patterns = Some demo_bypass" by (auto simp: demo_bypass_def)
  have d: "distinct (map addr_key (addr_patterns demo_patterns))" by code_simp
  have l: "ranger_contains star_libs nets ip = list_ex (\<lambda>n. net_contains n ip) nets" for nets ip
    by (simp add: star_libs_def)
  note m = bypass_reference [OF bp _ _ d l]
  have p: "plain_name (host_of ''10.1.2.3:22'')" "plain_name (host_of ''a.example.com:85'')"
    "plain_name (host_of ''a.example.com:91'')" "plain_name (host_of ''192.168.1.10:80'')" by code_simp+
  have c: "list_ex (\<lambda>p. pattern_covers star_libs p ''10.1.2.3:22'') demo_patterns"
    "list_ex (\<lambda>p. pattern_covers star_libs p ''a.example.com:85'') demo_patterns"
    "\<not> list_ex (\<lambda>p. pattern_covers star_libs p ''a.example.com:91'') demo_patterns"
    "\<not> list_ex (\<lambda>p. pattern_covers star_libs p ''192.168.1.10:80'') demo_patterns" by code_simp+
  show ?thesis using m p c by simp
qed

section \<open>Groups\<close>

text \<open>Property: A group bypasses an address exactly when it has white lists and all of them bypass it,
  or when one of its black lists does; with no list at all it bypasses nothing.\<close>

theorem bypass_group_meaning:
  "group_Contains rs \<longleftrightarrow> ({r \<in> set rs. fst r} \<noteq> {} \<and> {r \<in> set rs. fst r \<and> \<not> snd r} = {}) \<or>
     {r \<in> set rs. \<not> fst r \<and> snd r} \<noteq> {}"
proof -
  have w: "map snd (filter fst rs) \<noteq> [] \<longleftrightarrow> {r \<in> set rs. fst r} \<noteq> {}"
    by (force simp: filter_empty_conv)
  have f: "False \<notin> set (map snd (filter fst rs)) \<longleftrightarrow> {r \<in> set rs. fst r \<and> \<not> snd r} = {}" by force
  have b: "True \<in> set (map snd (filter (\<lambda>r. \<not> fst r) rs)) \<longleftrightarrow> {r \<in> set rs. \<not> fst r \<and> snd r} \<noteq> {}" by force
  have e: "True \<notin> set (map snd (filter (\<lambda>r. \<not> fst r) rs))" if "map snd (filter (\<lambda>r. \<not> fst r) rs) = []"
    unfolding that by simp
  show ?thesis unfolding group_Contains_def Let_def using w f b e by argo
qed

end
