(* ===== verification/Node_Limit.thy ===== *)
theory Node_Limit
  imports Node_Match
begin

text \<open>
  The connection limits of a node (go-node/x/limiter/conn and its wrapper). Limiters are shared
  by pointer - the global limiter belongs to the group of every client - so they live in a store
  and a group holds their places. The trie of networks is a parameter that gives the entry it
  finds first. A connection is counted in by \<open>Allow 1\<close> and out by \<open>Allow (-1)\<close>.
\<close>

section \<open>One limiter\<close>

record llimiter =
  ll_limit :: int
  ll_current :: int

definition NewLimiter :: "int \<Rightarrow> llimiter" where
  "NewLimiter n = \<lparr>ll_limit = n, ll_current = 0\<rparr>"

text \<open>\<open>atomic.AddInt64\<close>, and \<open>Allow\<close> when nothing comes between its two additions.\<close>

definition add_current :: "int \<Rightarrow> llimiter \<Rightarrow> llimiter" where
  "add_current n l = l\<lparr>ll_current := i64 (ll_current l + n)\<rparr>"

definition over_limit :: "llimiter \<Rightarrow> bool" where
  "over_limit l \<longleftrightarrow> ll_current l > ll_limit l"

definition take_back :: "int \<Rightarrow> llimiter \<Rightarrow> llimiter" where
  "take_back n l = (if 0 < n then add_current (- n) l else l)"

definition Allow :: "int \<Rightarrow> llimiter \<Rightarrow> bool \<times> llimiter" where
  "Allow n l =
     (let l1 = add_current n l
      in if over_limit l1 then (False, take_back n l1) else (True, l1))"

section \<open>Groups over a store\<close>

type_synonym store = "llimiter list"

definition allow_at :: "int \<Rightarrow> nat \<Rightarrow> store \<Rightarrow> bool \<times> store" where
  "allow_at n i st = (case Allow n (st ! i) of (b, l) \<Rightarrow> (b, st[i := l]))"

text \<open>The loop of \<open>limiterGroup.Allow\<close> from place \<open>k\<close>: its answer and where it ended.\<close>

fun allow_loop :: "int \<Rightarrow> nat list \<Rightarrow> nat \<Rightarrow> store \<Rightarrow> (bool \<times> nat) \<times> store" where
  "allow_loop n [] k st = ((False, k), st)"
| "allow_loop n [r] k st = (case allow_at n r st of (b, st1) \<Rightarrow> ((b, k), st1))"
| "allow_loop n (r # r' # rs) k st =
     (case allow_at n r st of (b, st1) \<Rightarrow>
        if b then allow_loop n (r' # rs) (Suc k) st1 else ((False, k), st1))"

definition group_Allow :: "int \<Rightarrow> nat list \<Rightarrow> store \<Rightarrow> bool \<times> store" where
  "group_Allow n refs st =
     (case allow_loop n refs 0 st of ((b, i), st1) \<Rightarrow>
        (b, if \<not> b \<and> 0 < i \<and> 0 < n
            then fold (\<lambda>r s. snd (allow_at (- n) r s)) (take i refs) st1 else st1))"

definition group_Limit :: "nat list \<Rightarrow> store \<Rightarrow> int" where
  "group_Limit refs st = (case refs of [] \<Rightarrow> 0 | r # _ \<Rightarrow> ll_limit (st ! r))"

definition newLimiterGroup :: "nat list \<Rightarrow> store \<Rightarrow> nat list" where
  "newLimiterGroup refs st = sort_key (\<lambda>r. ll_limit (st ! r)) refs"

section \<open>Generators\<close>

datatype generator = PerCall int | Shared nat

definition generate :: "generator \<Rightarrow> store \<Rightarrow> nat option \<times> store" where
  "generate g st =
     (case g of
        PerCall n \<Rightarrow> if n \<le> 0 then (None, st) else (Some (length st), st @ [NewLimiter n])
      | Shared r \<Rightarrow> (Some r, st))"

section \<open>The limiter of a node\<close>

record connLimiter =
  cl_ips :: "(string \<times> generator) list"
  cl_cidrs :: "((nat list \<times> nat) \<times> generator) list"
  cl_limits :: "(string \<times> nat list option) list"
  cl_store :: store

definition parseLimit :: "string \<Rightarrow> string \<times> int" where
  "parseLimit s =
     (case filter (\<lambda>v. v \<noteq> []) (split_on (CHR '' '') (trim_space (blank_tabs s))) of
        key # limit # _ \<Rightarrow> (key, Atoi limit)
      | _ \<Rightarrow> ([], 0))"

definition add_limit :: "string \<Rightarrow> connLimiter \<Rightarrow> connLimiter" where
  "add_limit s l =
     (case parseLimit s of (key, limit) \<Rightarrow>
        let shared = l\<lparr>cl_ips := AList.update key (Shared (length (cl_store l))) (cl_ips l),
              cl_store := cl_store l @ [NewLimiter limit]\<rparr>
        in if key = [] \<or> limit \<le> 0 then l
           else if key = ''$'' then shared
           else if key = ''$$'' then l\<lparr>cl_ips := AList.update key (PerCall limit) (cl_ips l)\<rparr>
           else if ParseIP key \<noteq> None then shared
           else (case ParseCIDR key of
                   None \<Rightarrow> l
                 | Some ipNet \<Rightarrow> l\<lparr>cl_cidrs := cl_cidrs l @ [(ipNet, PerCall limit)]\<rparr>))"

definition limiter_reload :: "string list \<Rightarrow> connLimiter \<Rightarrow> connLimiter" where
  "limiter_reload ls l = fold add_limit ls \<lparr>cl_ips = [], cl_cidrs = [], cl_limits = [], cl_store = cl_store l\<rparr>"

text \<open>The limiter of an entry, if there is one.\<close>

definition entry_limiter :: "generator option \<Rightarrow> store \<Rightarrow> nat list \<times> store" where
  "entry_limiter g st =
     (case g of
        None \<Rightarrow> ([], st)
      | Some g' \<Rightarrow> (case generate g' st of (None, st1) \<Rightarrow> ([], st1) | (Some r, st1) \<Rightarrow> ([r], st1)))"

definition Limiter ::
  "((nat list \<times> nat) list \<Rightarrow> nat list \<Rightarrow> nat option) \<Rightarrow> string \<Rightarrow> connLimiter \<Rightarrow> nat list option \<times> connLimiter" where
  "Limiter containing key l =
     (case map_of (cl_limits l) key of
        Some g \<Rightarrow> (g, l)
      | None \<Rightarrow>
          (let st0 = cl_store l;
               (own, st1) = (if ParseIP key = None then ([], st0) else entry_limiter (map_of (cl_ips l) key) st0);
               (net, st2) =
                 (case ParseIP key of
                    None \<Rightarrow> (own, st1)
                  | Some ip \<Rightarrow>
                      if own \<noteq> [] then (own, st1)
                      else (case containing (map fst (cl_cidrs l)) ip of
                              None \<Rightarrow> ([], st1)
                            | Some i \<Rightarrow> entry_limiter (Some (snd (cl_cidrs l ! i))) st1));
               (each, st3) = (if net = [] then entry_limiter (map_of (cl_ips l) ''$$'') st2 else (net, st2));
               (all, st4) = entry_limiter (map_of (cl_ips l) ''$'') st3;
               lims = each @ all;
               g = (if lims = [] then None else Some (newLimiterGroup lims st4))
           in (g, l\<lparr>cl_limits := AList.update key g (cl_limits l), cl_store := st4\<rparr>)))"

section \<open>The wrapped listener\<close>

datatype accepted = Unlimited | Limited "nat list" | Refused

definition Accept ::
  "((nat list \<times> nat) list \<Rightarrow> nat list \<Rightarrow> nat option) \<Rightarrow> string \<Rightarrow> connLimiter \<Rightarrow> accepted \<times> connLimiter" where
  "Accept containing remoteAddr l =
     (case Limiter containing (fst (SplitHostPort remoteAddr)) l of
        (None, l1) \<Rightarrow> (Unlimited, l1)
      | (Some refs, l1) \<Rightarrow>
          (case group_Allow 1 refs (cl_store l1) of
             (b, st) \<Rightarrow> (if b then Limited refs else Refused, l1\<lparr>cl_store := st\<rparr>)))"

definition Close :: "nat list \<Rightarrow> connLimiter \<Rightarrow> connLimiter" where
  "Close refs l = l\<lparr>cl_store := snd (group_Allow (-1) refs (cl_store l))\<rparr>"

section \<open>Interleavings\<close>

text \<open>Many goroutines over one limiter. \<open>Allow 1\<close> is two atomic steps, the addition, whose result
  decides, and the taking back after a refusal; \<open>Allow (-1)\<close> is a single addition. A connection is
  open when the first addition stays within the limit, and otherwise the goroutine is about to take
  it back; at most \<open>m\<close> goroutines are in between. \<open>serverConn.Close\<close> has no guard: a connection
  that is closed already may be closed again, any number of times, which \<open>lc_again\<close> counts.\<close>

record lim_conf =
  lc_lim :: llimiter
  lc_open :: nat
  lc_pending :: nat
  lc_closed :: nat
  lc_again :: nat

inductive lim_step :: "nat \<Rightarrow> lim_conf \<Rightarrow> lim_conf \<Rightarrow> bool" for m where
  admit: "lc_pending c < m \<Longrightarrow> \<not> over_limit (add_current 1 (lc_lim c)) \<Longrightarrow>
    lim_step m c (c\<lparr>lc_lim := add_current 1 (lc_lim c), lc_open := Suc (lc_open c)\<rparr>)"
| refuse: "lc_pending c < m \<Longrightarrow> over_limit (add_current 1 (lc_lim c)) \<Longrightarrow>
    lim_step m c (c\<lparr>lc_lim := add_current 1 (lc_lim c), lc_pending := Suc (lc_pending c)\<rparr>)"
| undo: "lc_pending c = Suc k \<Longrightarrow>
    lim_step m c (c\<lparr>lc_lim := take_back 1 (lc_lim c), lc_pending := k\<rparr>)"
| close: "lc_open c = Suc k \<Longrightarrow>
    lim_step m c (c\<lparr>lc_lim := snd (Allow (- 1) (lc_lim c)), lc_open := k, lc_closed := Suc (lc_closed c)\<rparr>)"
| close_again: "0 < lc_closed c \<Longrightarrow>
    lim_step m c (c\<lparr>lc_lim := snd (Allow (- 1) (lc_lim c)), lc_again := Suc (lc_again c)\<rparr>)"

inductive_cases lim_stepE: "lim_step m c c'"

definition lim_start :: "int \<Rightarrow> lim_conf" where
  "lim_start n = \<lparr>lc_lim = NewLimiter n, lc_open = 0, lc_pending = 0, lc_closed = 0, lc_again = 0\<rparr>"

inductive lim_reach :: "nat \<Rightarrow> int \<Rightarrow> lim_conf \<Rightarrow> bool" for m n where
  start: "lim_reach m n (lim_start n)"
| step: "lim_reach m n c \<Longrightarrow> lim_step m c c' \<Longrightarrow> lim_reach m n c'"

end
