(* ===== verification/Node_Limit_Props.thy ===== *)
theory Node_Limit_Props
  imports Node_Limit
begin

text \<open>
  Connection limits under every interleaving: a connection that is closed again takes room that is
  not there, and apart from that the limit holds. A group of limiters counts a connection in
  everywhere or nowhere.
\<close>

section \<open>Interleavings\<close>

lemma i64_small: "\<bar>x\<bar> < 2 ^ 63 \<Longrightarrow> i64 x = x"
  by (intro i64_id) auto

lemma add_limit [simp]: "ll_limit (add_current n l) = ll_limit l"
  by (simp add: add_current_def)

lemma count_out: "snd (Allow (- 1) l) = add_current (- 1) l"
  by (simp add: Allow_def take_back_def Let_def)

lemma Allow_one_iff: "fst (Allow 1 l) \<longleftrightarrow> \<not> over_limit (add_current 1 l)"
  by (simp add: Allow_def Let_def)

text \<open>\<open>Allow\<close> is one of two runs of the atomic steps: it is admitted, or it is refused and takes its
  addition back.\<close>

lemma Allow_steps:
  assumes "lc_pending c < m"
  shows "lim_step m c (c\<lparr>lc_lim := snd (Allow 1 (lc_lim c)), lc_open := Suc (lc_open c)\<rparr>) \<or>
    (\<exists>c1. lim_step m c c1 \<and> lim_step m c1 (c\<lparr>lc_lim := snd (Allow 1 (lc_lim c))\<rparr>))"
proof (cases "over_limit (add_current 1 (lc_lim c))")
  case True
  let ?c1 = "c\<lparr>lc_lim := add_current 1 (lc_lim c), lc_pending := Suc (lc_pending c)\<rparr>"
  have "lim_step m ?c1 (?c1\<lparr>lc_lim := take_back 1 (lc_lim ?c1), lc_pending := lc_pending c\<rparr>)"
    by (rule lim_step.undo) simp
  with lim_step.refuse [OF assms True] True show ?thesis
    by (intro disjI2 exI [of _ ?c1]) (simp add: Allow_def)
next
  case False
  with lim_step.admit [OF assms False] show ?thesis by (simp add: Allow_def Let_def)
qed

text \<open>What every interleaving keeps.\<close>

definition lim_inv :: "nat \<Rightarrow> int \<Rightarrow> lim_conf \<Rightarrow> bool" where
  "lim_inv m n c \<longleftrightarrow> ll_limit (lc_lim c) = n \<and>
     ll_current (lc_lim c) = int (lc_open c) + int (lc_pending c) - int (lc_again c) \<and>
     int (lc_open c) \<le> n + int (lc_again c) \<and> lc_pending c \<le> m"

definition lim_room :: "nat \<Rightarrow> int \<Rightarrow> lim_conf \<Rightarrow> bool" where
  "lim_room m n c \<longleftrightarrow> n + int m + int (lc_again c) < 2 ^ 62"

lemma lim_inv_add:
  assumes "lim_inv m n c" and "lim_room m n c" and "\<bar>d\<bar> \<le> 1" and "0 \<le> n"
  shows "ll_current (add_current d (lc_lim c)) = int (lc_open c) + int (lc_pending c) - int (lc_again c) + d"
proof -
  have "\<bar>int (lc_open c) + int (lc_pending c) - int (lc_again c) + d\<bar> < 2 ^ 63"
    using assms by (auto simp: lim_inv_def lim_room_def)
  then show ?thesis using assms(1) by (simp add: lim_inv_def add_current_def i64_small)
qed

lemma lim_inv_step:
  assumes "lim_step m c c'" and "lim_room m n c" and "lim_inv m n c" and "0 \<le> n"
  shows "lim_inv m n c'"
  using assms(1,3) lim_inv_add [OF assms(3,2) _ assms(4), of 1] lim_inv_add [OF assms(3,2) _ assms(4), of "-1"]
  by (auto simp: lim_inv_def over_limit_def count_out take_back_def elim!: lim_stepE)

lemma lim_room_step: "lim_step m c c' \<Longrightarrow> lim_room m n c' \<Longrightarrow> lim_room m n c"
  by (auto simp: lim_room_def elim!: lim_stepE)

lemma lim_reach_inv: "lim_reach m n c \<Longrightarrow> lim_room m n c \<Longrightarrow> 0 \<le> n \<Longrightarrow> lim_inv m n c"
proof (induction rule: lim_reach.induct)
  case start
  then show ?case by (simp add: lim_inv_def lim_start_def NewLimiter_def)
qed (blast intro: lim_inv_step lim_room_step)

text \<open>C26: The connections open under a limit. Whatever the interleaving of goroutines that open and
  close connections over a shared limiter, with the additions of \<open>Allow\<close> as its atomic steps and with
  connections that are closed any number of times: the open ones exceed the limit by at most the
  number of closes beyond the first of their connection, so never when every connection is closed
  once; the counter is the open ones and the refused ones not yet taken back, less those closes; and
  \<open>Allow\<close> admits the next connection exactly while these stay below the limit.\<close>

theorem open_connections_bound:
  assumes "lim_reach m n c" and "0 \<le> n" and "n + int m + int (lc_again c) < 2 ^ 62"
  shows "int (lc_open c) \<le> n + int (lc_again c) \<and>
    ll_current (lc_lim c) = int (lc_open c) + int (lc_pending c) - int (lc_again c) \<and>
    fst (Allow 1 (lc_lim c)) = (int (lc_open c) + int (lc_pending c) < n + int (lc_again c))"
proof -
  have room: "lim_room m n c" using assms(3) by (simp add: lim_room_def)
  have inv: "lim_inv m n c" using lim_reach_inv [OF assms(1) room assms(2)] .
  show ?thesis
    using inv lim_inv_add [OF inv room _ assms(2), of 1]
    by (auto simp: lim_inv_def Allow_one_iff over_limit_def)
qed

text \<open>Runs: closing again, and admitting while the counter allows it.\<close>

lemma close_again_many:
  assumes "lim_reach m n c" and "0 < lc_closed c" and "lc_again c = 0" and "ll_current (lc_lim c) = 0"
  shows "int k < 2 ^ 62 \<Longrightarrow> \<exists>c'. lim_reach m n c' \<and> lc_open c' = lc_open c \<and> lc_pending c' = lc_pending c \<and>
    0 < lc_closed c' \<and> lc_again c' = k \<and> ll_limit (lc_lim c') = ll_limit (lc_lim c) \<and> ll_current (lc_lim c') = - int k"
proof (induction k)
  case 0
  then show ?case using assms by auto
next
  case (Suc k)
  then obtain c' where c': "lim_reach m n c'" "lc_open c' = lc_open c" "lc_pending c' = lc_pending c"
    "0 < lc_closed c'" "lc_again c' = k" "ll_limit (lc_lim c') = ll_limit (lc_lim c)"
    "ll_current (lc_lim c') = - int k" by auto
  have down: "ll_current (add_current (- 1) (lc_lim c')) = - int (Suc k)"
    using c'(7) Suc.prems by (simp add: add_current_def i64_small)
  let ?c = "c'\<lparr>lc_lim := snd (Allow (- 1) (lc_lim c')), lc_again := Suc (lc_again c')\<rparr>"
  have "lim_reach m n ?c" by (rule lim_reach.step [OF c'(1) lim_step.close_again [OF c'(4)]])
  with c' down show ?case by (intro exI [of _ ?c]) (simp add: count_out)
qed

lemma admit_many:
  assumes "lim_reach m n c" and "lc_pending c = 0" and "0 < m" and "n < 2 ^ 62" and "int a < 2 ^ 62"
    and "ll_limit (lc_lim c) = n" and "ll_current (lc_lim c) = - int a" and "lc_open c = 0" and "lc_again c = a"
  shows "int k \<le> n + int a \<Longrightarrow> \<exists>c'. lim_reach m n c' \<and> lc_open c' = k \<and> lc_pending c' = 0 \<and> lc_again c' = a \<and>
    ll_limit (lc_lim c') = n \<and> ll_current (lc_lim c') = int k - int a"
proof (induction k)
  case 0
  then show ?case using assms by auto
next
  case (Suc k)
  then obtain c' where c': "lim_reach m n c'" "lc_open c' = k" "lc_pending c' = 0" "lc_again c' = a"
    "ll_limit (lc_lim c') = n" "ll_current (lc_lim c') = int k - int a" by auto
  have up: "ll_current (add_current 1 (lc_lim c')) = int k + 1 - int a"
    using c'(6) Suc.prems assms(4,5) by (simp add: add_current_def i64_small)
  let ?c = "c'\<lparr>lc_lim := add_current 1 (lc_lim c'), lc_open := Suc (lc_open c')\<rparr>"
  have "lim_step m c' ?c"
    by (rule lim_step.admit) (use up c' Suc.prems assms(3) in \<open>auto simp: over_limit_def\<close>)
  from lim_reach.step [OF c'(1) this] show ?case
    using up c' by (intro exI [of _ ?c]) simp
qed

text \<open>Property: The bound is reached: for every positive limit and every number of repeated closes there
  is a run after which the limit is exceeded by exactly that number.\<close>

theorem repeated_closes_exceed_limit:
  assumes "0 < n" and "n < 2 ^ 62" and "int k < 2 ^ 62"
  shows "\<exists>c. lim_reach 1 n c \<and> lc_again c = k \<and> int (lc_open c) = n + int k"
proof -
  let ?c0 = "lim_start n"
  let ?c1 = "?c0\<lparr>lc_lim := add_current 1 (lc_lim ?c0), lc_open := Suc (lc_open ?c0)\<rparr>"
  let ?c2 = "?c1\<lparr>lc_lim := snd (Allow (- 1) (lc_lim ?c1)), lc_open := 0, lc_closed := Suc (lc_closed ?c1)\<rparr>"
  note steps = lim_start_def NewLimiter_def add_current_def i64_small over_limit_def count_out
  have 1: "lim_reach 1 n ?c1"
    by (rule lim_reach.step [OF lim_reach.start lim_step.admit]) (use assms in \<open>simp_all add: steps\<close>)
  have "lim_reach 1 n ?c2" by (rule lim_reach.step [OF 1 lim_step.close]) (simp add: steps)
  from close_again_many [OF this, of k] obtain c3 where c3: "lim_reach 1 n c3" "lc_open c3 = 0"
    "lc_pending c3 = 0" "lc_again c3 = k" "ll_limit (lc_lim c3) = n" "ll_current (lc_lim c3) = - int k"
    using assms by (auto simp: steps)
  from admit_many [OF c3(1,3) _ assms(2,3) c3(5,6,2,4), of "nat (n + int k)"] show ?thesis
    using assms(1) by auto
qed

theorem repeated_closes_exceed_limit_witness: "\<exists>c. lim_reach 1 5 c \<and> lc_again c = 2 \<and> int (lc_open c) = 7"
  using repeated_closes_exceed_limit [of 5 2] by simp

text \<open>A limit of one, a connection that is closed twice: two are open then.\<close>

definition doubled_conf :: lim_conf where
  "doubled_conf = \<lparr>lc_lim = \<lparr>ll_limit = 1, ll_current = 1\<rparr>, lc_open = 2, lc_pending = 0, lc_closed = 1,
     lc_again = 1\<rparr>"

lemma reach_doubled: "lim_reach 1 1 doubled_conf"
proof -
  note steps = lim_start_def NewLimiter_def add_current_def i64_small over_limit_def count_out
  let ?admit = "\<lambda>c. c\<lparr>lc_lim := add_current 1 (lc_lim c), lc_open := Suc (lc_open c)\<rparr>"
  let ?c1 = "?admit (lim_start 1)"
  let ?c2 = "?c1\<lparr>lc_lim := snd (Allow (- 1) (lc_lim ?c1)), lc_open := 0, lc_closed := Suc (lc_closed ?c1)\<rparr>"
  let ?c3 = "?c2\<lparr>lc_lim := snd (Allow (- 1) (lc_lim ?c2)), lc_again := Suc (lc_again ?c2)\<rparr>"
  have 1: "lim_reach 1 1 ?c1"
    by (rule lim_reach.step [OF lim_reach.start lim_step.admit]) (simp_all add: steps)
  have 2: "lim_reach 1 1 ?c2" by (rule lim_reach.step [OF 1 lim_step.close]) (simp add: steps)
  have 3: "lim_reach 1 1 ?c3" by (rule lim_reach.step [OF 2 lim_step.close_again]) simp
  have 4: "lim_reach 1 1 (?admit ?c3)"
    by (rule lim_reach.step [OF 3 lim_step.admit]) (simp_all add: steps)
  have "lim_reach 1 1 (?admit (?admit ?c3))"
    by (rule lim_reach.step [OF 4 lim_step.admit]) (simp_all add: steps)
  then show ?thesis by (simp add: doubled_conf_def steps numeral_2_eq_2)
qed

theorem open_connections_bound_witness:
  "int (lc_open doubled_conf) = 1 + int (lc_again doubled_conf) \<and> \<not> fst (Allow 1 (lc_lim doubled_conf))"
  using open_connections_bound [OF reach_doubled] by (simp add: doubled_conf_def)

section \<open>Groups\<close>

definition has_room :: "store \<Rightarrow> nat \<Rightarrow> bool" where
  "has_room st r \<longleftrightarrow> ll_current (st ! r) + 1 \<le> ll_limit (st ! r)"

definition count_in :: "nat list \<Rightarrow> store \<Rightarrow> store" where
  "count_in refs st = fold (\<lambda>r s. s[r := add_current 1 (s ! r)]) refs st"

text \<open>Counters stay clear of the ends of \<open>int64\<close>.\<close>

definition counters_ok :: "nat list \<Rightarrow> store \<Rightarrow> bool" where
  "counters_ok refs st \<longleftrightarrow> list_all (\<lambda>r. r < length st \<and> \<bar>ll_current (st ! r)\<bar> < 2 ^ 62) refs"

lemma add_back: "\<bar>ll_current l\<bar> < 2 ^ 62 \<Longrightarrow> add_current (- 1) (add_current 1 l) = l"
  by (simp add: add_current_def i64_small)

lemma Allow_one:
  "\<bar>ll_current l\<bar> < 2 ^ 62 \<Longrightarrow> Allow 1 l = (if ll_current l + 1 \<le> ll_limit l then (True, add_current 1 l) else (False, l))"
  by (simp add: Allow_def over_limit_def take_back_def add_back Let_def) (simp add: add_current_def i64_small)

lemma allow_at_one:
  "\<bar>ll_current (st ! r)\<bar> < 2 ^ 62 \<Longrightarrow>
   allow_at 1 r st = (if has_room st r then (True, st[r := add_current 1 (st ! r)]) else (False, st))"
  by (simp add: allow_at_def Allow_one has_room_def)

lemma other_places:
  "r \<notin> set refs \<Longrightarrow> counters_ok refs (st[r := l]) = counters_ok refs st"
  "r' \<noteq> r \<Longrightarrow> has_room (st[r := l]) r' = has_room st r'"
proof -
  assume "r \<notin> set refs"
  then have "st[r := l] ! x = st ! x" if "x \<in> set refs" for x using that by (metis nth_list_update_neq)
  then show "counters_ok refs (st[r := l]) = counters_ok refs st" by (simp add: counters_ok_def list_all_iff)
qed (simp add: has_room_def)

lemma loop_one:
  "refs \<noteq> [] \<Longrightarrow> distinct refs \<Longrightarrow> counters_ok refs st \<Longrightarrow>
   allow_loop 1 refs k st =
     (if list_all (has_room st) refs then ((True, k + length refs - 1), count_in refs st)
      else let j = length (takeWhile (has_room st) refs) in ((False, k + j), count_in (take j refs) st))"
proof (induction refs arbitrary: k st)
  case (Cons r rs)
  let ?st = "st[r := add_current 1 (st ! r)]"
  have r: "allow_at 1 r st = (if has_room st r then (True, ?st) else (False, st))"
    using Cons.prems by (intro allow_at_one) (simp add: counters_ok_def)
  show ?case
  proof (cases "has_room st r \<and> rs \<noteq> []")
    case False
    with r show ?thesis by (cases rs) (auto simp: count_in_def)
  next
    case True
    then obtain r' rs' where rs: "rs = r' # rs'" by (cases rs) auto
    have ok: "counters_ok rs ?st" using Cons.prems by (subst other_places) (auto simp: counters_ok_def)
    have e: "has_room ?st x = has_room st x" if "x \<in> set rs" for x
      using that Cons.prems by (intro other_places) auto
    have l: "list_all (has_room ?st) rs = list_all (has_room st) rs"
      unfolding list_all_iff using e by blast
    have t: "takeWhile (has_room ?st) rs = takeWhile (has_room st) rs"
      by (rule takeWhile_cong [OF refl e])
    have "allow_loop 1 (r # rs) k st = allow_loop 1 rs (Suc k) ?st"
      using True r by (simp add: rs)
    also have "\<dots> = (if list_all (has_room st) rs then ((True, Suc k + length rs - 1), count_in rs ?st)
      else let j = length (takeWhile (has_room st) rs) in ((False, Suc k + j), count_in (take j rs) ?st))"
      using Cons.IH [OF _ _ ok] Cons.prems True unfolding l t by simp
    finally show ?thesis using True by (simp add: count_in_def Let_def)
  qed
qed simp

lemma take_back:
  "distinct refs \<Longrightarrow> counters_ok refs st \<Longrightarrow>
   fold (\<lambda>r s. snd (allow_at (- 1) r s)) refs (count_in refs st) = st"
proof (induction refs arbitrary: st rule: rev_induct)
  case (snoc r refs)
  have swap: "count_in refs (s[r := l]) = (count_in refs s)[r := l]" if "r \<notin> set refs" for s l
    using that
  proof (induction refs arbitrary: s)
    case (Cons a refs)
    then have "s[r := l, a := x] = s[a := x, r := l]" for x by (simp add: list_update_swap)
    with Cons show ?case by (simp add: count_in_def)
  qed (simp add: count_in_def)
  have keep: "count_in refs s ! r = s ! r" if "r \<notin> set refs" for s
    using that by (induction refs arbitrary: s) (auto simp: count_in_def)
  have undo: "snd (allow_at (- 1) x s) = s[x := add_current (- 1) (s ! x)]" for x s
    using count_out [of "s ! x"] by (auto simp: allow_at_def split: prod.split)
  have "count_in (refs @ [r]) st = count_in refs (st[r := add_current 1 (st ! r)])"
    using snoc.prems swap keep by (simp add: count_in_def)
  then have "fold (\<lambda>r s. snd (allow_at (- 1) r s)) refs (count_in (refs @ [r]) st) = st[r := add_current 1 (st ! r)]"
    using snoc.prems by (simp add: snoc.IH other_places counters_ok_def list_all_iff nth_list_update)
  then show ?case using snoc.prems by (simp add: undo counters_ok_def add_back)
qed (simp add: count_in_def)

text \<open>Property: A group of limiters is all or nothing: a connection is allowed exactly when every limiter
  of the group has room, and is then counted in each; otherwise the roll-back leaves every
  counter as it was.\<close>

theorem group_allow_exact:
  assumes "refs \<noteq> []" and "distinct refs" and "counters_ok refs st"
  shows "group_Allow 1 refs st = (if list_all (has_room st) refs then (True, count_in refs st) else (False, st))"
proof (cases "list_all (has_room st) refs")
  case True
  then show ?thesis by (simp add: group_Allow_def loop_one [OF assms])
next
  case False
  let ?j = "length (takeWhile (has_room st) refs)"
  have "counters_ok (take ?j refs) st" using assms(3) by (auto simp: counters_ok_def list_all_iff dest: in_set_takeD)
  with assms(2) have "fold (\<lambda>r s. snd (allow_at (- 1) r s)) (take ?j refs) (count_in (take ?j refs) st) = st"
    by (intro take_back) auto
  moreover have "count_in (take 0 refs) st = st" by (simp add: count_in_def)
  ultimately show ?thesis using False by (auto simp: group_Allow_def loop_one [OF assms] Let_def count_in_def)
qed

definition demo_limits :: connLimiter where
  "demo_limits = limiter_reload [''$ 2'', ''$$ 1'', ''10.0.0.0/8 5''] \<lparr>cl_ips = [], cl_cidrs = [], cl_limits = [], cl_store = []\<rparr>"

definition first_net :: "(nat list \<times> nat) list \<Rightarrow> nat list \<Rightarrow> nat option" where
  "first_net nets ip = index_of CHR ''1'' (map (\<lambda>n. if net_contains n ip then CHR ''1'' else CHR ''0'') nets)"

theorem group_allow_exact_witness:
  "fst (Accept first_net ''1.2.3.4:5'' demo_limits) = Limited [1, 0] \<and>
   fst (Accept first_net ''1.2.3.4:6'' (snd (Accept first_net ''1.2.3.4:5'' demo_limits))) = Refused \<and>
   group_Allow 1 [1, 0] [\<lparr>ll_limit = 2, ll_current = 1\<rparr>, \<lparr>ll_limit = 1, ll_current = 1\<rparr>] =
     (False, [\<lparr>ll_limit = 2, ll_current = 1\<rparr>, \<lparr>ll_limit = 1, ll_current = 1\<rparr>])"
proof -
  have "fst (Accept first_net ''1.2.3.4:5'' demo_limits) = Limited [1, 0]" by code_simp
  moreover have "fst (Accept first_net ''1.2.3.4:6'' (snd (Accept first_net ''1.2.3.4:5'' demo_limits))) = Refused" by code_simp
  moreover have "group_Allow 1 [1, 0] [\<lparr>ll_limit = 2, ll_current = 1\<rparr>, \<lparr>ll_limit = 1, ll_current = 1\<rparr>] =
     (False, [\<lparr>ll_limit = 2, ll_current = 1\<rparr>, \<lparr>ll_limit = 1, ll_current = 1\<rparr>])"
    by (subst group_allow_exact) (simp_all add: counters_ok_def has_room_def)
  ultimately show ?thesis by blast
qed

end
