(* ===== verification/Node_Select.thy ===== *)
theory Node_Select
  imports Node_Match "HOL-Library.Word"
begin

text \<open>
  How a node chooses its way: the selection strategies and filters (go-node/x/selector), the
  choice of a node within a hop (x/hop) and the route of a chain (x/chain). Bypass lists and
  routing matchers are asked as functions; the random numbers, the clock, the checksum and
  \<open>sort.Slice\<close>, which is not stable, are parameters.
\<close>

section \<open>Nodes\<close>

record node_filter =
  nf_Host :: string
  nf_Protocol :: string
  nf_Path :: string

record select_opts =
  so_Network :: string
  so_Addr :: string
  so_Host :: string
  so_Protocol :: string
  so_Path :: string

text \<open>A node of a hop. Metadata that is absent is \<open>None\<close>, and so is a missing marker; the marker
  is the number of failures and the time of the last one.\<close>

record chain_node =
  cn_Name :: string
  cn_Addr :: string
  cn_Priority :: int
  cn_Bypass :: "(string \<Rightarrow> string \<Rightarrow> bool) option"
  cn_Matcher :: "(select_opts \<Rightarrow> bool) option"
  cn_Filter :: "node_filter option"
  cn_Multiplex :: bool
  cn_weight :: int
  cn_backup :: bool
  cn_maxFails :: "int option"
  cn_failTimeout :: "int option"
  cn_marker :: "(int \<times> int) option"

section \<open>Filters\<close>

text \<open>Times in nanoseconds; \<open>DefaultFailTimeout\<close> is ten seconds.\<close>

definition fail_alive :: "int \<Rightarrow> int \<Rightarrow> int \<Rightarrow> chain_node \<Rightarrow> bool" where
  "fail_alive now maxFails0 failTimeout0 v =
     (let maxFails1 = (case cn_maxFails v of None \<Rightarrow> maxFails0 | Some m \<Rightarrow> m);
          failTimeout1 = (case cn_failTimeout v of None \<Rightarrow> failTimeout0 | Some t \<Rightarrow> t);
          maxFails = (if maxFails1 \<le> 0 then 1 else maxFails1);
          failTimeout = (if failTimeout1 \<le> 0 then 10 * 10 ^ 9 else failTimeout1)
      in case cn_marker v of
           None \<Rightarrow> True
         | Some (count, time) \<Rightarrow> count < maxFails \<or> failTimeout \<le> now - time)"

definition FailFilter :: "int \<Rightarrow> int \<Rightarrow> int \<Rightarrow> chain_node list \<Rightarrow> chain_node list" where
  "FailFilter now maxFails failTimeout vs =
     (if length vs \<le> 1 then vs else filter (fail_alive now maxFails failTimeout) vs)"

definition BackupFilter :: "chain_node list \<Rightarrow> chain_node list" where
  "BackupFilter vs =
     (if length vs \<le> 1 then vs
      else (let l = filter (\<lambda>v. \<not> cn_backup v) vs; backups = filter cn_backup vs
            in if l = [] then backups else l))"

section \<open>Strategies\<close>

text \<open>Round robin: \<open>atomic.AddUint64\<close> on the counter.\<close>

definition RoundRobin :: "64 word \<Rightarrow> 'v list \<Rightarrow> 'v option \<times> 64 word" where
  "RoundRobin counter vs =
     (if vs = [] then (None, counter)
      else (let n = counter + 1 - 1 in (Some (vs ! (unat n mod length vs)), counter + 1)))"

definition Fifo :: "'v list \<Rightarrow> 'v option" where
  "Fifo vs = (case vs of [] \<Rightarrow> None | v # _ \<Rightarrow> Some v)"

text \<open>\<open>hash\<close> is the CRC-32 of the source in the context, if there is one.\<close>

definition Hash :: "nat option \<Rightarrow> (nat \<Rightarrow> nat) \<Rightarrow> 'v list \<Rightarrow> 'v option" where
  "Hash hash intn vs =
     (if vs = [] then None
      else case hash of
        Some value \<Rightarrow> Some (vs ! (value mod length vs))
      | None \<Rightarrow> Some (vs ! intn (length vs)))"

record 'v weighted =
  rw_items :: "('v \<times> int) list"
  rw_sum :: int

definition rw_Add :: "'v \<Rightarrow> int \<Rightarrow> 'v weighted \<Rightarrow> 'v weighted" where
  "rw_Add item weight rw = rw\<lparr>rw_items := rw_items rw @ [(item, weight)], rw_sum := i64 (rw_sum rw + weight)\<rparr>"

text \<open>The loop of \<open>Next\<close> over the items; past the end, the last one.\<close>

fun rw_pick :: "int \<Rightarrow> ('v \<times> int) list \<Rightarrow> 'v option" where
  "rw_pick weight [] = None"
| "rw_pick weight [(v, w)] = Some v"
| "rw_pick weight ((v, w) # x # xs) = (if weight - w \<le> 0 then Some v else rw_pick (weight - w) (x # xs))"

definition rw_Next :: "int \<Rightarrow> 'v weighted \<Rightarrow> 'v option" where
  "rw_Next random rw =
     (if rw_items rw = [] then None else if rw_sum rw \<le> 0 then None else rw_pick (random + 1) (rw_items rw))"

definition rw_fill :: "('v \<Rightarrow> int) \<Rightarrow> 'v list \<Rightarrow> 'v weighted" where
  "rw_fill weight vs =
     fold (\<lambda>v. rw_Add v (if weight v \<le> 0 then 1 else weight v)) vs \<lparr>rw_items = [], rw_sum = 0\<rparr>"

definition Random :: "('v \<Rightarrow> int) \<Rightarrow> (int \<Rightarrow> int) \<Rightarrow> 'v list \<Rightarrow> 'v option" where
  "Random weight intn vs =
     (if vs = [] then None else (let rw = rw_fill weight vs in rw_Next (intn (rw_sum rw)) rw))"

text \<open>\<open>defaultSelector.Select\<close>.\<close>

definition Select_default :: "('v list \<Rightarrow> 'v list) list \<Rightarrow> ('v list \<Rightarrow> 'v option) \<Rightarrow> 'v list \<Rightarrow> 'v option" where
  "Select_default filters strategy vs =
     (let l = fold (\<lambda>f xs. f xs) filters vs in if l = [] then None else strategy l)"

section \<open>A hop\<close>

definition checkHost :: "string \<Rightarrow> node_filter \<Rightarrow> bool" where
  "checkHost host f =
     (let vhost = nf_Host f
      in if vhost = [] then True
         else if host = [] then False
         else (let h = host_of host
               in vhost = h \<or> (hd vhost = CHR ''.'' \<and> has_suffix h (tl vhost))))"

definition checkProtocol :: "string \<Rightarrow> node_filter \<Rightarrow> bool" where
  "checkProtocol protocol f \<longleftrightarrow> nf_Protocol f = [] \<or> nf_Protocol f = protocol"

definition checkPath :: "string \<Rightarrow> node_filter \<Rightarrow> bool" where
  "checkPath path f \<longleftrightarrow> nf_Path f = [] \<or> has_prefix path (nf_Path f)"

definition isEligible :: "chain_node \<Rightarrow> select_opts \<Rightarrow> bool" where
  "isEligible node opts =
     (case cn_Filter node of
        None \<Rightarrow> True
      | Some f \<Rightarrow> checkHost (so_Host opts) f \<and> checkProtocol (so_Protocol opts) f \<and> checkPath (so_Path opts) f)"

record chain_hop =
  hp_nodes :: "chain_node option list"
  hp_bypass :: "(string \<Rightarrow> string \<Rightarrow> bool) option"
  hp_selector :: "(chain_node list \<Rightarrow> chain_node option) option"

definition bypassed :: "(string \<Rightarrow> string \<Rightarrow> bool) option \<Rightarrow> select_opts \<Rightarrow> bool" where
  "bypassed bp opts = (case bp of None \<Rightarrow> False | Some contains \<Rightarrow> contains (so_Network opts) (so_Addr opts))"

definition usable :: "select_opts \<Rightarrow> chain_node \<Rightarrow> bool" where
  "usable opts node =
     (if bypassed (cn_Bypass node) opts then False
      else case cn_Matcher node of
        Some m \<Rightarrow> m opts
      | None \<Rightarrow> isEligible node opts)"

type_synonym sorter = "(chain_node \<Rightarrow> int) \<Rightarrow> chain_node list \<Rightarrow> chain_node list"

definition hop_Select :: "sorter \<Rightarrow> chain_hop \<Rightarrow> select_opts \<Rightarrow> chain_node option" where
  "hop_Select sort_slice p opts =
     (if bypassed (hp_bypass p) opts then None
      else case filter (usable opts) (List.map_filter (\<lambda>n. n) (hp_nodes p)) of
        [] \<Rightarrow> None
      | [n] \<Rightarrow> Some n
      | nodes \<Rightarrow>
          (let sorted_nodes = sort_slice (\<lambda>n. - cn_Priority n) nodes
           in if cn_Priority (hd sorted_nodes) > 0 then Some (hd sorted_nodes)
              else case hp_selector p of
                Some s \<Rightarrow> s sorted_nodes
              | None \<Rightarrow> Some (hd sorted_nodes)))"

section \<open>A chain\<close>

text \<open>A node of a route carries the route its transport dials through.\<close>

datatype route_node = RouteNode chain_node "route_node list"

fun Route_loop :: "sorter \<Rightarrow> select_opts \<Rightarrow> chain_hop list \<Rightarrow> route_node list \<Rightarrow> route_node list" where
  "Route_loop srt opts [] rt = rt"
| "Route_loop srt opts (h # hs) rt =
     (case hop_Select srt h opts of
        None \<Rightarrow> rt
      | Some node \<Rightarrow>
          if cn_Multiplex node then Route_loop srt opts hs [RouteNode node rt]
          else Route_loop srt opts hs (rt @ [RouteNode node []]))"

definition chain_Route :: "sorter \<Rightarrow> chain_hop list \<Rightarrow> string \<Rightarrow> string \<Rightarrow> string \<Rightarrow> route_node list option" where
  "chain_Route srt hops network address host =
     (if hops = [] then None
      else Some (Route_loop srt \<lparr>so_Network = network, so_Addr = address, so_Host = host, so_Protocol = [], so_Path = []\<rparr>
        hops []))"

text \<open>\<open>routePath\<close>.\<close>

fun node_path :: "route_node \<Rightarrow> chain_node list" where
  "node_path (RouteNode n rt) = concat (map node_path rt) @ [n]"

definition routePath :: "route_node list option \<Rightarrow> chain_node list" where
  "routePath route = (case route of None \<Rightarrow> [] | Some rt \<Rightarrow> concat (map node_path rt))"

end
