(* ===== verification/Node_Select_Props.thy ===== *)
theory Node_Select_Props
  imports Node_Select Node_Match_Props "HOL-Library.Multiset"
begin

text \<open>
  The strategies are fair, a hop chooses among its usable nodes by priority, and a route lists the
  chosen nodes of its chain whatever is multiplexed.
\<close>

section \<open>Round robin\<close>

text \<open>A run of selections from one list.\<close>

fun rr_run :: "nat \<Rightarrow> 64 word \<Rightarrow> 'v list \<Rightarrow> 'v option list" where
  "rr_run 0 c vs = []"
| "rr_run (Suc k) c vs = (case RoundRobin c vs of (v, c') \<Rightarrow> v # rr_run k c' vs)"

lemma rr_run_map:
  "vs \<noteq> [] \<Longrightarrow> unat c + k \<le> 2 ^ 64 \<Longrightarrow> rr_run k c vs = map (\<lambda>i. Some (vs ! ((unat c + i) mod length vs))) [0..<k]"
proof (induction k arbitrary: c)
  case (Suc k)
  show ?case
  proof (cases "k = 0")
    case True
    then show ?thesis using Suc.prems by (simp add: RoundRobin_def)
  next
    case False
    then have u: "unat (c + 1) = unat c + 1"
      using Suc.prems by (simp add: unat_word_ariths)
    then have "rr_run (Suc k) c vs =
        Some (vs ! (unat c mod length vs)) # map (\<lambda>i. Some (vs ! ((unat c + Suc i) mod length vs))) [0..<k]"
      using Suc by (simp add: RoundRobin_def)
    also have "\<dots> = map (\<lambda>i. Some (vs ! ((unat c + i) mod length vs))) (0 # map Suc [0..<k])" by simp
    also have "0 # map Suc [0..<k] = [0..<Suc k]" by (simp add: map_Suc_upt upt_conv_Cons)
    finally show ?thesis .
  qed
qed simp

lemma residues_once:
  fixes a n :: nat
  assumes "0 < n"
  shows "bij_betw (\<lambda>i. (a + i) mod n) {0..<n} {0..<n}"
proof -
  have le: "i = j" if "i \<le> j" "j < n" "(a + j) mod n = (a + i) mod n" for i j :: nat
  proof -
    have "n dvd (a + j) - (a + i)" using that by (subst mod_eq_dvd_iff_nat [symmetric]) auto
    with that show ?thesis by (auto dest: dvd_imp_le)
  qed
  have "inj_on (\<lambda>i. (a + i) mod n) {0..<n}"
  proof (rule inj_onI)
    fix i j assume "i \<in> {0..<n}" "j \<in> {0..<n}" "(a + i) mod n = (a + j) mod n"
    then show "i = j" using le [of i j] le [of j i] by (cases "i \<le> j") auto
  qed
  moreover have "(\<lambda>i. (a + i) mod n) ` {0..<n} \<subseteq> {0..<n}" using assms by auto
  ultimately show ?thesis
    by (simp add: bij_betw_def endo_inj_surj)
qed

lemma image_mset_residues:
  "0 < n \<Longrightarrow> image_mset (\<lambda>i. (a + i) mod n) (mset [0..<n]) = mset [0..<n]"
proof -
  assume "0 < n"
  then have b: "bij_betw (\<lambda>i. (a + i) mod n) {0..<n} {0..<n}" by (rule residues_once)
  then have "image_mset (\<lambda>i. (a + i) mod n) (mset_set {0..<n}) = mset_set {0..<n}"
    by (simp add: image_mset_mset_set bij_betw_def)
  then show ?thesis by simp
qed

text \<open>Property: Round robin is fair: in as many consecutive selections as there are nodes, from any value
  of the counter that does not wrap around meanwhile, every node is chosen exactly as often as it
  is listed.\<close>

theorem round_robin_fair:
  assumes "vs \<noteq> []" and "unat c + length vs \<le> 2 ^ 64"
  shows "mset (rr_run (length vs) c vs) = mset (map Some vs)"
proof -
  let ?n = "length vs"
  have "mset (rr_run ?n c vs) = image_mset (\<lambda>i. Some (vs ! i)) (image_mset (\<lambda>i. (unat c + i) mod ?n) (mset [0..<?n]))"
    by (simp add: rr_run_map [OF assms] multiset.map_comp comp_def)
  also have "image_mset (\<lambda>i. (unat c + i) mod ?n) (mset [0..<?n]) = mset [0..<?n]"
    using assms(1) by (intro image_mset_residues) simp
  also have "image_mset (\<lambda>i. Some (vs ! i)) (mset [0..<?n]) = mset (map (\<lambda>i. Some (vs ! i)) [0..<?n])" by simp
  also have "map (\<lambda>i. Some (vs ! i)) [0..<?n] = map Some vs" by (rule nth_equalityI) simp_all
  finally show ?thesis .
qed

theorem round_robin_fair_witness:
  "mset (rr_run 3 7 ''abc'') = {# Some (CHR ''a''), Some (CHR ''b''), Some (CHR ''c'') #} \<and>
   rr_run 3 7 ''abc'' = [Some (CHR ''b''), Some (CHR ''c''), Some (CHR ''a'')]"
proof -
  have "mset (rr_run (length ''abc'') 7 ''abc'') = mset (map Some ''abc'')"
    by (rule round_robin_fair) simp_all
  moreover have "rr_run 3 7 ''abc'' = [Some (CHR ''b''), Some (CHR ''c''), Some (CHR ''a'')]" by code_simp
  ultimately show ?thesis by (simp add: numeral_3_eq_3)
qed

section \<open>Weights\<close>

lemma rw_pick_key: "rw_pick x xs = Some v \<Longrightarrow> v \<in> fst ` set xs"
  by (induction x xs rule: rw_pick.induct) (auto split: if_splits)

text \<open>How many of the numbers from 1 to the sum pick an item: its weight.\<close>

lemma rw_pick_count:
  "distinct (map fst xs) \<Longrightarrow> list_all (\<lambda>(v, w). 0 < w) xs \<Longrightarrow> (v, w) \<in> set xs \<Longrightarrow>
     card {x \<in> {1..sum_list (map snd xs)}. rw_pick x xs = Some v} = nat w"
proof (induction xs)
  case (Cons y xs)
  obtain v0 w0 where y: "y = (v0, w0)" by (cases y)
  have w0: "0 < w0" using Cons.prems y by simp
  show ?case
  proof (cases "xs = []")
    case True
    with Cons.prems y have "{x \<in> {1..sum_list (map snd (y # xs))}. rw_pick x (y # xs) = Some v} = {1..w}" by auto
    then show ?thesis by simp
  next
    case False
    let ?S = "sum_list (map snd xs)"
    let ?R = "{x \<in> {1..?S}. rw_pick x xs = Some v}"
    have S: "0 \<le> ?S" using Cons.prems by (intro sum_list_nonneg) (auto simp: list_all_iff)
    have step: "rw_pick x (y # xs) = (if x \<le> w0 then Some v0 else rw_pick (x - w0) xs)" for x
      using False y by (cases xs) auto
    have sy: "snd y = w0" by (simp add: y)
    have split: "{x \<in> {1..sum_list (map snd (y # xs))}. rw_pick x (y # xs) = Some v} =
        {x \<in> {1..w0}. v0 = v} \<union> (\<lambda>x. x + w0) ` ?R"
    proof (rule set_eqI)
      fix x
      show "x \<in> {x \<in> {1..sum_list (map snd (y # xs))}. rw_pick x (y # xs) = Some v} \<longleftrightarrow>
          x \<in> {x \<in> {1..w0}. v0 = v} \<union> (\<lambda>x. x + w0) ` ?R"
      proof (cases "x \<le> w0")
        case True
        then show ?thesis using S w0 sy by (auto simp: step)
      next
        case f: False
        have "x \<in> (\<lambda>x. x + w0) ` ?R \<longleftrightarrow> x - w0 \<in> ?R"
          by (metis (no_types, lifting) add.commute diff_add_cancel image_iff add_diff_cancel_right')
        then show ?thesis using f w0 sy by (auto simp: step)
      qed
    qed
    show ?thesis
    proof (cases "v0 = v")
      case True
      with Cons.prems y have "v \<notin> fst ` set xs" "w = w0" by (auto simp: image_iff)
      then have e: "?R = {}" using rw_pick_key by fastforce
      have "{x \<in> {1..w0}. v0 = v} = {1..w0}" using True by auto
      then show ?thesis unfolding split e using \<open>w = w0\<close> by simp
    next
      case ne: False
      have "card ?R = nat w" using Cons ne y by auto
      then show ?thesis unfolding split using ne by (simp add: card_image)
    qed
  qed
qed simp

lemma shift_down: "{x \<in> {0..<S}. P (x + 1)} = (\<lambda>x. x - 1) ` {x \<in> {1..S}. P x}" for S :: int
proof (intro equalityI subsetI)
  fix x assume "x \<in> {x \<in> {0..<S}. P (x + 1)}"
  then show "x \<in> (\<lambda>x. x - 1) ` {x \<in> {1..S}. P x}" by (intro image_eqI [of _ _ "x + 1"]) auto
qed auto

definition weight_of :: "('v \<Rightarrow> int) \<Rightarrow> 'v \<Rightarrow> int" where
  "weight_of weight v = (if weight v \<le> 0 then 1 else weight v)"

lemma rw_fill_items:
  assumes "sum_list (map (weight_of weight) vs) < 2 ^ 63"
  shows "rw_fill weight vs = \<lparr>rw_items = map (\<lambda>v. (v, weight_of weight v)) vs, rw_sum = sum_list (map (weight_of weight) vs)\<rparr>"
  using assms
proof (induction vs rule: rev_induct)
  case (snoc v vs)
  have p: "0 \<le> sum_list (map (weight_of weight) vs)" by (intro sum_list_nonneg) (auto simp: weight_of_def)
  have v: "0 < weight_of weight v" by (simp add: weight_of_def)
  have "rw_fill weight (vs @ [v]) = rw_Add v (weight_of weight v) (rw_fill weight vs)"
    by (simp add: rw_fill_def weight_of_def)
  with snoc p v show ?case by (simp add: rw_Add_def i64_id)
qed (simp add: rw_fill_def)

text \<open>Property: Random selection is exactly weighted: of the equally likely numbers the generator can
  return, a node is chosen by as many as its weight, a missing or non-positive weight counting
  as one.\<close>

theorem random_exactly_weighted:
  assumes "distinct vs" and "v \<in> set vs" and "sum_list (map (weight_of weight) vs) < 2 ^ 63"
  shows "card {x \<in> {0..<sum_list (map (weight_of weight) vs)}. Random weight (\<lambda>_. x) vs = Some v} = nat (weight_of weight v)"
proof -
  let ?S = "sum_list (map (weight_of weight) vs)"
  let ?xs = "map (\<lambda>v. (v, weight_of weight v)) vs"
  have sum: "sum_list (map snd ?xs) = ?S" by (simp add: comp_def)
  have pos: "0 < ?S"
  proof -
    have "weight_of weight v \<le> ?S" using assms(2)
      by (intro member_le_sum_list) (auto simp: weight_of_def)
    then show ?thesis by (auto simp: weight_of_def split: if_splits)
  qed
  have r: "Random weight (\<lambda>_. x) vs = rw_pick (x + 1) ?xs" for x
    using assms pos by (auto simp: Random_def Let_def rw_fill_items rw_Next_def)
  have "{x \<in> {0..<?S}. Random weight (\<lambda>_. x) vs = Some v} = (\<lambda>x. x - 1) ` {x \<in> {1..?S}. rw_pick x ?xs = Some v}"
    unfolding r by (rule shift_down)
  moreover have "card ((\<lambda>x. x - 1) ` {x \<in> {1..?S}. rw_pick x ?xs = Some v}) = card {x \<in> {1..?S}. rw_pick x ?xs = Some v}"
    by (rule card_image) (simp add: inj_on_def)
  moreover have "card {x \<in> {1..?S}. rw_pick x ?xs = Some v} = nat (weight_of weight v)"
    unfolding sum [symmetric] using assms(1,2)
    by (intro rw_pick_count) (auto simp: comp_def list_all_iff weight_of_def)
  ultimately show ?thesis by simp
qed

theorem random_exactly_weighted_witness:
  "card {x \<in> {0..<6}. Random (\<lambda>c. if c = CHR ''a'' then 5 else 0) (\<lambda>_. x) ''ab'' = Some (CHR ''a'')} = 5"
  using random_exactly_weighted [of "''ab''" "CHR ''a''" "\<lambda>c. if c = CHR ''a'' then 5 else 0"]
  by (simp add: weight_of_def)

section \<open>Hops and chains\<close>

definition usable_nodes :: "chain_hop \<Rightarrow> select_opts \<Rightarrow> chain_node list" where
  "usable_nodes p opts = filter (usable opts) (List.map_filter (\<lambda>n. n) (hp_nodes p))"

text \<open>Property: A hop chooses a usable node of the best priority. Whenever a hop selects a node, the hop
  does not bypass the target, the node is one of its nodes, does not bypass the target itself and
  its matcher or filter accepts the request, and no usable node with a positive priority has a
  better one; \<open>sort.Slice\<close> need only sort and a selector only choose.\<close>

theorem hop_select_best:
  assumes "hop_Select srt p opts = Some n"
    and "\<And>f xs. mset (srt f xs) = mset xs \<and> sorted (map f (srt f xs))"
    and "\<And>s xs v. hp_selector p = Some s \<Longrightarrow> s xs = Some v \<Longrightarrow> v \<in> set xs"
  shows "\<not> bypassed (hp_bypass p) opts \<and> n \<in> set (usable_nodes p opts) \<and>
    {m \<in> set (usable_nodes p opts). 0 < cn_Priority m \<and> cn_Priority n < cn_Priority m} = {}"
proof -
  let ?l = "usable_nodes p opts" and ?s = "srt (\<lambda>n. - cn_Priority n) (usable_nodes p opts)"
  have b: "\<not> bypassed (hp_bypass p) opts" using assms(1) by (auto simp: hop_Select_def split: if_splits)
  have set: "set ?s = set ?l" using assms(2) by (metis set_mset_mset)
  have best: "cn_Priority m \<le> cn_Priority (hd ?s)" if "m \<in> set ?l" for m
  proof -
    have "m \<in> set ?s" using that set by simp
    moreover have "sorted (map (\<lambda>n. - cn_Priority n) ?s)" using assms(2) by blast
    ultimately show ?thesis by (cases ?s) (auto simp: image_iff)
  qed
  consider "?l = [n]" | x y zs where "?l = x # y # zs"
    using assms(1) b by (cases ?l rule: remdups_adj.cases) (auto simp: hop_Select_def usable_nodes_def split: list.splits)
  then show ?thesis
  proof cases
    case 1
    with b show ?thesis by simp
  next
    case 2
    then have ne: "?s \<noteq> []" using set by auto
    have sel: "(if cn_Priority (hd ?s) > 0 then Some (hd ?s)
        else case hp_selector p of Some s \<Rightarrow> s ?s | None \<Rightarrow> Some (hd ?s)) = Some n"
    proof -
      have c: "filter (usable opts) (List.map_filter (\<lambda>n. n) (hp_nodes p)) = x # y # zs"
        using 2 by (simp add: usable_nodes_def)
      show ?thesis unfolding 2 using assms(1) by (simp add: hop_Select_def b c Let_def)
    qed
    have "n \<in> set ?s" using sel ne assms(3) by (auto split: if_splits option.splits)
    moreover have "n = hd ?s" if "0 < cn_Priority (hd ?s)" using sel that by simp
    ultimately show ?thesis using b set best by (fastforce dest: best)
  qed
qed

definition hop_node :: "string \<Rightarrow> int \<Rightarrow> bool \<Rightarrow> chain_node" where
  "hop_node name priority mux = \<lparr>cn_Name = name, cn_Addr = name, cn_Priority = priority, cn_Bypass = None,
     cn_Matcher = None, cn_Filter = None, cn_Multiplex = mux, cn_weight = 0, cn_backup = False, cn_maxFails = None,
     cn_failTimeout = None, cn_marker = None\<rparr>"

definition demo_hop :: chain_hop where
  "demo_hop = \<lparr>hp_nodes = [Some (hop_node ''a'' 0 False), None, Some (hop_node ''b'' 7 True), Some (hop_node ''c'' 3 False)],
     hp_bypass = None, hp_selector = Some Fifo\<rparr>"

definition demo_opts :: select_opts where
  "demo_opts = \<lparr>so_Network = ''tcp'', so_Addr = ''1.1.1.1:80'', so_Host = [], so_Protocol = [], so_Path = []\<rparr>"

theorem hop_select_best_witness:
  "map_option cn_Name (hop_Select (\<lambda>f. sort_key f) demo_hop demo_opts) = Some ''b'' \<and>
   {m \<in> set (usable_nodes demo_hop demo_opts). 0 < cn_Priority m \<and> 7 < cn_Priority m} = {}"
proof -
  have s: "map_option cn_Name (hop_Select (\<lambda>f. sort_key f) demo_hop demo_opts) = Some ''b''"
    "map_option cn_Priority (hop_Select (\<lambda>f. sort_key f) demo_hop demo_opts) = Some 7" by code_simp+
  then obtain n where n: "hop_Select (\<lambda>f. sort_key f) demo_hop demo_opts = Some n" "cn_Priority n = 7" by auto
  have l: "v \<in> set xs" if "hp_selector demo_hop = Some s" "s xs = Some v" for s v and xs :: "chain_node list"
    using that by (auto simp: demo_hop_def Fifo_def split: list.splits)
  from hop_select_best [OF n(1) _ l] s(1) n(2) show ?thesis by simp
qed

lemma Route_loop_path:
  "concat (map node_path (Route_loop srt opts hs rt)) =
     concat (map node_path rt) @ map the (takeWhile (\<lambda>n. n \<noteq> None) (map (\<lambda>h. hop_Select srt h opts) hs))"
  by (induction hs arbitrary: rt) (auto split: option.split)

text \<open>Property: A route lists the chosen nodes. Whatever the hops of a chain and whichever nodes multiplex
  their connections - which nests the route so far in the node's transport - the path of the route
  is the sequence of nodes the hops select, in order, up to the first hop that selects none.\<close>

theorem route_path_is_selection:
  "routePath (chain_Route srt hops network address host) =
     map the (takeWhile (\<lambda>n. n \<noteq> None) (map (\<lambda>h. hop_Select srt h
       \<lparr>so_Network = network, so_Addr = address, so_Host = host, so_Protocol = [], so_Path = []\<rparr>) hops))"
  by (simp add: chain_Route_def routePath_def Route_loop_path)

text \<open>Property: The host filter of a node takes foreign domains in. A filter \<open>.d\<close> accepts every host that
  ends with the letters of \<open>d\<close>, also where no dot stands before them, which the rules of the
  domain matcher with the same text do not cover.\<close>

theorem host_filter_takes_foreign:
  assumes "a \<noteq> []" and "last a \<noteq> CHR ''.''" and "CHR '':'' \<notin> set (a @ d)"
  shows "checkHost (a @ d) \<lparr>nf_Host = CHR ''.'' # d, nf_Protocol = protocol, nf_Path = path\<rparr> \<and>
    \<not> rule_covers (CHR ''.'' # d) (a @ d)"
proof
  have "host_of (a @ d) = a @ d"
    using assms(3) by (simp add: host_of_def SplitHostPort_def last_index_None [THEN iffD2])
  then show "checkHost (a @ d) \<lparr>nf_Host = CHR ''.'' # d, nf_Protocol = protocol, nf_Path = path\<rparr>"
    using assms(1) by (simp add: checkHost_def)
  have "CHR ''.'' # d \<noteq> a @ d" using assms(1,2) by (cases a rule: rev_cases) (auto simp: Cons_eq_append_conv)
  moreover have "d \<noteq> a @ d" using assms(1) by simp
  moreover have "\<not> has_suffix (a @ d) (CHR ''.'' # d)"
  proof
    assume "has_suffix (a @ d) (CHR ''.'' # d)"
    then obtain r where "a @ d = (r @ [CHR ''.'']) @ d" by (auto simp: has_suffix_iff)
    then have "a = r @ [CHR ''.'']" by (simp only: append_same_eq)
    with assms(2) show False by simp
  qed
  ultimately show "\<not> rule_covers (CHR ''.'' # d) (a @ d)" by (simp add: rule_covers_def)
qed

theorem host_filter_takes_foreign_witness:
  "checkHost ''evilexample.com'' \<lparr>nf_Host = ''.example.com'', nf_Protocol = [], nf_Path = []\<rparr>"
  using host_filter_takes_foreign [of "''evil''" "''example.com''" "[]" "[]"] by simp

end
