(* ===== verification/Ws_Frame.thy ===== *)
theory Ws_Frame
  imports Main "HOL-Library.Word"
begin

text \<open>
  The WebSocket frame header of a node (go-node/x/internal/util/ws/frame.go), at the width of its
  integers: reading and writing are inverse, and the count of bytes read is wrong for the
  extended lengths. A reader is the list of bytes it still has.
\<close>

unbundle bit_operations_syntax

section \<open>Bytes of integers\<close>

definition put_be16 :: "16 word \<Rightarrow> 8 word list" where
  "put_be16 x = map (\<lambda>i. ucast (drop_bit i x)) [8, 0]"

definition put_be64 :: "64 word \<Rightarrow> 8 word list" where
  "put_be64 x = map (\<lambda>i. ucast (drop_bit i x)) [56, 48, 40, 32, 24, 16, 8, 0]"

definition put_le32 :: "32 word \<Rightarrow> 8 word list" where
  "put_le32 x = map (\<lambda>i. ucast (drop_bit i x)) [0, 8, 16, 24]"

definition be_word :: "8 word list \<Rightarrow> 'a::len word" where
  "be_word bs = fold (\<lambda>b acc. push_bit 8 acc OR ucast b) bs 0"

section \<open>The header\<close>

record FrameHeader =
  Fin :: bool
  Rsv1 :: bool
  Rsv2 :: bool
  Rsv3 :: bool
  OpCode :: "64 word"
  PayloadLength :: "64 word"
  Masked :: bool
  MaskKey :: "32 word"

definition flag :: "bool \<Rightarrow> nat \<Rightarrow> 8 word" where
  "flag b n = (if b then push_bit n 1 else 0)"

definition Length :: "FrameHeader \<Rightarrow> nat" where
  "Length h =
     2 + (if 65535 < sint (PayloadLength h) then 8 else if 125 < sint (PayloadLength h) then 2 else 0) +
     (if Masked h then 4 else 0)"

definition WriteTo :: "FrameHeader \<Rightarrow> 8 word list" where
  "WriteTo h =
     (let b = flag (Fin h) 7 OR flag (Rsv1 h) 6 OR flag (Rsv2 h) 5 OR flag (Rsv3 h) 4 OR ucast (OpCode h);
          len = sint (PayloadLength h);
          lengthByte = flag (Masked h) 7 OR
            (if 65535 < len then 127 else if 125 < len then 126 else if 0 \<le> len then ucast (PayloadLength h) else 0);
          ext = (if 65535 < len then put_be64 (PayloadLength h)
                 else if 125 < len then put_be16 (ucast (PayloadLength h)) else [])
      in [b, lengthByte] @ ext @ (if Masked h then put_le32 (MaskKey h) else []))"

datatype read_err = EOF | UnexpectedEOF | NegativeLength

text \<open>\<open>io.ReadFull\<close>: the bytes read, whether that failed, and the rest.\<close>

definition ReadFull :: "nat \<Rightarrow> 8 word list \<Rightarrow> 8 word list \<times> read_err option \<times> 8 word list" where
  "ReadFull n r =
     (if n \<le> length r then (take n r, None, drop n r)
      else (r, Some (if r = [] then EOF else UnexpectedEOF), []))"

text \<open>\<open>ReadFrom\<close> with the count it reports. The first two bytes are added to the count as
  \<open>n += int64(n)\<close>, so only the \<open>nn\<close> of the last read before the mask counts.\<close>

definition ReadFrom :: "8 word list \<Rightarrow> (read_err + FrameHeader \<times> 8 word list) \<times> nat" where
  "ReadFrom r =
     (case ReadFull 2 r of
        (bs, Some er, _) \<Rightarrow> (Inl er, 0)
      | (bs, None, r1) \<Rightarrow>
          (let b0 = bs ! 0; b1 = bs ! 1;
               payloadLength = b1 AND NOT (push_bit 7 1);
               (ext, er, r2) =
                 (if payloadLength < 126 then (bs, None, r1)
                  else if payloadLength = 126 then ReadFull 2 r1 else ReadFull 8 r1);
               n1 = length ext;
               len = (if payloadLength < 126 then ucast payloadLength else be_word ext);
               masked = (b1 AND push_bit 7 1 \<noteq> 0);
               h = \<lparr>Fin = (b0 AND push_bit 7 1 \<noteq> 0), Rsv1 = (b0 AND push_bit 6 1 \<noteq> 0),
                    Rsv2 = (b0 AND push_bit 5 1 \<noteq> 0), Rsv3 = (b0 AND push_bit 4 1 \<noteq> 0),
                    OpCode = ucast (b0 AND 15), PayloadLength = len, Masked = masked, MaskKey = 0\<rparr>
           in case er of
                Some e \<Rightarrow> (Inl e, n1)
              | None \<Rightarrow>
                  if sint len < 0 then (Inl NegativeLength, n1)
                  else if \<not> masked then (Inr (h, r2), n1)
                  else (case ReadFull 4 r2 of
                          (mk, Some e, _) \<Rightarrow> (Inl e, n1 + length mk)
                        | (mk, None, r3) \<Rightarrow> (Inr (h\<lparr>MaskKey := be_word (rev mk)\<rparr>, r3), n1 + length mk))))"

section \<open>Bytes and back\<close>

text \<open>One byte more: what is above it moves up.\<close>

lemma byte_step:
  "push_bit 8 (drop_bit (i + 8) x) OR ucast (ucast (drop_bit i x) :: 8 word) = drop_bit i x"
  for x :: "'a::len word"
proof (rule bit_word_eqI)
  fix n assume "n < LENGTH('a)"
  then show "bit (push_bit 8 (drop_bit (i + 8) x) OR ucast (ucast (drop_bit i x) :: 8 word)) n = bit (drop_bit i x) n"
    by (cases "n < 8") (auto simp: bit_simps)
qed

lemma be64 [simp]: "be_word (put_be64 x) = x"
  using byte_step [of 56 x] byte_step [of 48 x] byte_step [of 40 x] byte_step [of 32 x] byte_step [of 24 x]
    byte_step [of 16 x] byte_step [of 8 x] byte_step [of 0 x]
  by (simp add: put_be64_def be_word_def drop_bit_word_beyond)

lemma le32 [simp]: "be_word (rev (put_le32 x)) = x"
  using byte_step [of 24 x] byte_step [of 16 x] byte_step [of 8 x] byte_step [of 0 x]
  by (simp add: put_le32_def be_word_def drop_bit_word_beyond)

lemma be16 [simp]: "be_word (put_be16 x) = (ucast x :: 64 word)"
proof (rule bit_word_eqI)
  fix n assume "n < LENGTH(64)"
  moreover have "bit x n \<Longrightarrow> n < 16" using bit_imp_le_length [of x n] by simp
  ultimately show "bit (be_word (put_be16 x) :: 64 word) n = bit (ucast x :: 64 word) n"
    by (cases "n < 8") (auto simp: put_be16_def be_word_def bit_simps)
qed

lemma put_lengths [simp]: "length (put_be16 x) = 2" "length (put_be64 y) = 8" "length (put_le32 z) = 4"
  by (simp_all add: put_be16_def put_be64_def put_le32_def)

section \<open>Flags\<close>

lemma and_flag: "b AND push_bit n 1 \<noteq> 0 \<longleftrightarrow> bit b n" for b :: "'a::len word"
  by (simp add: bit_iff_and_push_bit_not_eq_0)

lemma and_bits:
  "b AND 128 = 0 \<longleftrightarrow> \<not> bit b 7" "b AND 64 = 0 \<longleftrightarrow> \<not> bit b 6" "b AND 32 = 0 \<longleftrightarrow> \<not> bit b 5"
  "b AND 16 = 0 \<longleftrightarrow> \<not> bit b 4" for b :: "8 word"
  using and_flag [of b 7] and_flag [of b 6] and_flag [of b 5] and_flag [of b 4] by auto

lemma bit_flag: "bit (flag x k) n \<longleftrightarrow> x \<and> n = k \<and> k < 8"
  by (auto simp: flag_def bit_simps)

lemma bit_128: "bit (128 :: 8 word) n \<longleftrightarrow> n = 7"
proof -
  have "(128 :: 8 word) = flag True 7" by (simp add: flag_def)
  then show ?thesis by (simp only: bit_flag) simp
qed

lemma nibble:
  assumes "op < (16 :: 64 word)"
  shows "bit op n \<Longrightarrow> n < 4"
proof -
  have "op = take_bit 4 op"
  proof -
    have "unat op < 16" using assms by (simp add: word_less_nat_alt)
    then show ?thesis by (intro word_unat_eq_iff [THEN iffD2]) (simp add: unsigned_take_bit_eq take_bit_nat_eq_self)
  qed
  then show "bit op n \<Longrightarrow> n < 4" by (metis bit_take_bit_iff)
qed

lemma first_byte:
  fixes f r1 r2 r3 :: bool
  assumes "op < (16 :: 64 word)"
  defines "b \<equiv> flag f 7 OR flag r1 6 OR flag r2 5 OR flag r3 4 OR ucast op"
  shows "bit b 7 = f" "bit b 6 = r1" "bit b 5 = r2" "bit b 4 = r3" "ucast (b AND 15) = op"
proof -
  have n: "bit op n \<Longrightarrow> n < 4" for n using nibble [OF assms(1)] .
  show "bit b 7 = f" "bit b 6 = r1" "bit b 5 = r2" "bit b 4 = r3"
    using n [of 7] n [of 6] n [of 5] n [of 4] by (auto simp: b_def bit_simps bit_flag)
  have m: "(15 :: 8 word) = mask 4" by (simp add: mask_eq_exp_minus_1)
  show "ucast (b AND 15) = op"
  proof (rule bit_word_eqI)
    fix k assume "k < LENGTH(64)"
    then show "bit (ucast (b AND 15) :: 64 word) k = bit op k"
      using n [of k] by (auto simp: m b_def bit_simps bit_flag)
  qed
qed

lemma length_byte:
  assumes "v < (128 :: 8 word)"
  shows "bit (flag m 7 OR v) 7 = m" and "(flag m 7 OR v) AND NOT (push_bit 7 1) = v"
proof -
  have "unat v < 128" using assms by (simp add: word_less_nat_alt)
  then have "take_bit 7 v = v" by (intro word_unat_eq_iff [THEN iffD2]) (simp add: unsigned_take_bit_eq take_bit_nat_eq_self)
  then have n: "bit v k \<Longrightarrow> k < 7" for k by (metis bit_take_bit_iff)
  show "bit (flag m 7 OR v) 7 = m" using n [of 7] by (auto simp: bit_simps bit_flag)
  show "(flag m 7 OR v) AND NOT (push_bit 7 1) = v"
  proof (rule bit_word_eqI)
    fix k assume "k < LENGTH(8)"
    then show "bit ((flag m 7 OR v) AND NOT (push_bit 7 1)) k = bit v k"
      using n [of k] bit_128 [of k] by (auto simp: bit_simps bit_flag)
  qed
qed

section \<open>Reading what was written\<close>

lemma ReadFull_append: "length a = n \<Longrightarrow> ReadFull n (a @ b) = (a, None, b)"
  by (simp add: ReadFull_def)

lemma uint_of_sint: "0 \<le> sint x \<Longrightarrow> uint x = sint x" for x :: "64 word"
  using sint_lt [of x] by (subst uint_sint) (simp add: take_bit_int_eq_self)

lemma small_length:
  assumes "0 \<le> sint (x :: 64 word)" and "sint x \<le> 125"
  shows "(ucast x :: 8 word) < 126" and "ucast (ucast x :: 8 word) = x"
proof -
  have u: "uint x \<le> 125" using assms by (simp add: uint_of_sint)
  then have m: "uint (ucast x :: 8 word) = uint x" by (simp add: unsigned_ucast_eq take_bit_int_eq_self)
  with u show "(ucast x :: 8 word) < 126" by (simp add: word_less_def)
  show "ucast (ucast x :: 8 word) = x"
    by (rule word_uint_eq_iff [THEN iffD2]) (use u in \<open>simp add: unsigned_ucast_eq unsigned_take_bit_eq take_bit_int_eq_self\<close>)
qed

lemma medium_length:
  assumes "0 \<le> sint (x :: 64 word)" and "sint x \<le> 65535"
  shows "ucast (ucast x :: 16 word) = x"
proof -
  have u: "uint x \<le> 65535" using assms by (simp add: uint_of_sint)
  show ?thesis
    by (rule word_uint_eq_iff [THEN iffD2]) (use u in \<open>simp add: unsigned_ucast_eq unsigned_take_bit_eq take_bit_int_eq_self\<close>)
qed

definition ext_bytes :: "FrameHeader \<Rightarrow> 8 word list" where
  "ext_bytes h = (if 65535 < sint (PayloadLength h) then put_be64 (PayloadLength h)
     else if 125 < sint (PayloadLength h) then put_be16 (ucast (PayloadLength h)) else [])"

text \<open>C33: A frame header survives the wire. Any header with an opcode of four bits and a length that
  is not negative is read back as it was written, whatever follows it, and takes the announced
  number of bytes; but the count \<open>ReadFrom\<close> reports is two short whenever the length needs an
  extended field.\<close>

theorem frame_header_roundtrip:
  assumes "OpCode h < 16" and "0 \<le> sint (PayloadLength h)" and "Masked h \<or> MaskKey h = 0"
  shows "ReadFrom (WriteTo h @ rest) = (Inr (h, rest), Length h - (if 125 < sint (PayloadLength h) then 2 else 0)) \<and>
    length (WriteTo h) = Length h"
proof
  define len where "len = sint (PayloadLength h)"
  define v :: "8 word" where "v = (if 65535 < len then 127 else if 125 < len then 126 else ucast (PayloadLength h))"
  define b where "b = flag (Fin h) 7 OR flag (Rsv1 h) 6 OR flag (Rsv2 h) 5 OR flag (Rsv3 h) 4 OR ucast (OpCode h)"
  have w: "WriteTo h = [b, flag (Masked h) 7 OR v] @ ext_bytes h @ (if Masked h then put_le32 (MaskKey h) else [])"
    using assms(2) by (simp add: WriteTo_def Let_def b_def v_def ext_bytes_def len_def)
  show "length (WriteTo h) = Length h" by (simp add: w ext_bytes_def Length_def)
  note b = first_byte [OF assms(1), of "Fin h" "Rsv1 h" "Rsv2 h" "Rsv3 h", folded b_def]
  have "v < 128"
    using small_length(1) [of "PayloadLength h"] assms(2)
    by (auto simp: v_def len_def intro: order.strict_trans)
  note l = length_byte [OF this, simplified]
  have cases: "v < 126 \<longleftrightarrow> len \<le> 125" "v = 126 \<longleftrightarrow> 125 < len \<and> len \<le> 65535"
    using small_length(1) [of "PayloadLength h"] assms(2) by (auto simp: v_def len_def)
  have ext: "(if v < 126 then ucast v else be_word (ext_bytes h)) = PayloadLength h"
    using assms(2) small_length [of "PayloadLength h"] medium_length [of "PayloadLength h"]
    by (auto simp: ext_bytes_def v_def len_def)
  have full: "(if v < 126 then (bs, None, ext_bytes h @ x) else if v = 126 then ReadFull 2 (ext_bytes h @ x)
      else ReadFull 8 (ext_bytes h @ x)) = (if len \<le> 125 then (bs, None, x) else (ext_bytes h, None, x))" for bs x
    by (auto simp: cases ext_bytes_def len_def intro!: ReadFull_append)
  have r2: "ReadFull 2 (WriteTo h @ rest) =
      ([b, flag (Masked h) 7 OR v], None, ext_bytes h @ (if Masked h then put_le32 (MaskKey h) else []) @ rest)"
    by (simp add: w ReadFull_def)
  have h: "\<lparr>Fin = bit b 7, Rsv1 = bit b 6, Rsv2 = bit b 5, Rsv3 = bit b 4, OpCode = ucast (b AND 15),
      PayloadLength = PayloadLength h, Masked = Masked h, MaskKey = MaskKey h\<rparr> = h"
    using b by (cases h) simp
  have n: "length (if len \<le> 125 then [b, x] else ext_bytes h) + (if Masked h then 4 else 0) =
      Length h - (if 125 < sint (PayloadLength h) then 2 else 0)" for x
    by (simp add: Length_def ext_bytes_def len_def)
  have mk: "ReadFull 4 (put_le32 (MaskKey h) @ rest) = (put_le32 (MaskKey h), None, rest)"
    by (rule ReadFull_append) simp
  show "ReadFrom (WriteTo h @ rest) = (Inr (h, rest), Length h - (if 125 < sint (PayloadLength h) then 2 else 0))"
  proof (cases "len \<le> 125")
    case True
    with ext cases have e: "ucast v = PayloadLength h" and v: "v < 126" by auto
    show ?thesis
      using assms(2,3) n [of "flag (Masked h) 7 OR v"] True h
      by (auto simp: ReadFrom_def r2 Let_def and_bits l e v mk ext_bytes_def len_def)
  next
    case False
    with ext cases have e: "be_word (ext_bytes h) = PayloadLength h" and v: "\<not> v < 126" by auto
    show ?thesis
      using assms(2,3) n [of "flag (Masked h) 7 OR v"] False h full [of _ "(if Masked h then put_le32 (MaskKey h) else []) @ rest"]
      by (auto simp: ReadFrom_def r2 Let_def and_bits l e v mk)
  qed
qed

definition sample_frame :: FrameHeader where
  "sample_frame = \<lparr>Fin = True, Rsv1 = False, Rsv2 = False, Rsv3 = False, OpCode = 2, PayloadLength = 70000, Masked = True,
     MaskKey = 0xDEADBEEF\<rparr>"

theorem frame_header_roundtrip_witness:
  "ReadFrom (WriteTo sample_frame) = (Inr (sample_frame, []), 12) \<and> length (WriteTo sample_frame) = 14"
  using frame_header_roundtrip [of sample_frame "[]"] by (simp add: sample_frame_def Length_def)

end
