(* ===== verification/Node_Report.thy ===== *)
theory Node_Report
  imports Flow "HOL-Library.Word"
begin

text \<open>
  How a node counts and reports the traffic of a service (go-node/x/observer/stats,
  x/service/traffic_reporter.go and \<open>observeStats\<close> of x/service/service.go), with the counters at
  their width. The goroutines that carry traffic, the one that reports and the panel's answers
  interleave: the atomic operations are the steps of an inductive relation. The panel configures
  no observer for its services, so \<open>observeStats\<close> sends no events here. The HTTP client and the
  cipher are the outcome of a step.
\<close>

section \<open>The counters\<close>

datatype Kind = KindTotalConns | KindCurrentConns | KindInputBytes | KindOutputBytes | KindTotalErrs

record Stats =
  st_updated :: bool
  st_totalConns :: "64 word"
  st_currentConns :: "64 word"
  st_inputBytes :: "64 word"
  st_outputBytes :: "64 word"
  st_totalErrs :: "64 word"

definition NewStats :: Stats where
  "NewStats = \<lparr>st_updated = False, st_totalConns = 0, st_currentConns = 0, st_inputBytes = 0,
     st_outputBytes = 0, st_totalErrs = 0\<rparr>"

text \<open>\<open>Add\<close> is two atomic operations, the addition and the flag. A negative \<open>int64\<close> becomes the
  two's complement.\<close>

definition add_counter :: "Kind \<Rightarrow> int \<Rightarrow> Stats \<Rightarrow> Stats" where
  "add_counter kind n s =
     (case kind of
        KindTotalConns \<Rightarrow> (if 0 < n then s\<lparr>st_totalConns := st_totalConns s + word_of_int n\<rparr> else s)
      | KindCurrentConns \<Rightarrow> s\<lparr>st_currentConns := st_currentConns s + word_of_int n\<rparr>
      | KindInputBytes \<Rightarrow> s\<lparr>st_inputBytes := st_inputBytes s + word_of_int n\<rparr>
      | KindOutputBytes \<Rightarrow> s\<lparr>st_outputBytes := st_outputBytes s + word_of_int n\<rparr>
      | KindTotalErrs \<Rightarrow> (if 0 < n then s\<lparr>st_totalErrs := st_totalErrs s + word_of_int n\<rparr> else s))"

definition set_updated :: "Stats \<Rightarrow> Stats" where
  "set_updated s = s\<lparr>st_updated := True\<rparr>"

definition Stats_Add :: "Kind \<Rightarrow> int \<Rightarrow> Stats \<Rightarrow> Stats" where
  "Stats_Add kind n s = set_updated (add_counter kind n s)"

definition Stats_Get :: "Kind \<Rightarrow> Stats \<Rightarrow> 64 word" where
  "Stats_Get kind s =
     (case kind of
        KindTotalConns \<Rightarrow> st_totalConns s
      | KindCurrentConns \<Rightarrow> st_currentConns s
      | KindInputBytes \<Rightarrow> st_inputBytes s
      | KindOutputBytes \<Rightarrow> st_outputBytes s
      | KindTotalErrs \<Rightarrow> st_totalErrs s)"

text \<open>\<open>ResetTraffic\<close> is two atomic operations: it stores one counter, then the other.\<close>

definition store_input :: "64 word \<Rightarrow> Stats \<Rightarrow> Stats" where
  "store_input v s = s\<lparr>st_inputBytes := v\<rparr>"

definition store_output :: "64 word \<Rightarrow> Stats \<Rightarrow> Stats" where
  "store_output v s = s\<lparr>st_outputBytes := v\<rparr>"

definition reset_stores :: "64 word \<Rightarrow> 64 word \<Rightarrow> (Stats \<Rightarrow> Stats) list" where
  "reset_stores input output = [store_input input, store_output output]"

definition ResetTraffic :: "64 word \<Rightarrow> 64 word \<Rightarrow> Stats \<Rightarrow> Stats" where
  "ResetTraffic input output s = fold (\<lambda>store. store) (reset_stores input output) s"

definition Stats_Reset :: "Stats \<Rightarrow> Stats" where
  "Stats_Reset s = NewStats"

definition IsUpdated :: "Stats \<Rightarrow> bool \<times> Stats" where
  "IsUpdated s = (st_updated s, s\<lparr>st_updated := False\<rparr>)"

section \<open>A counted connection\<close>

text \<open>\<open>WrapConn\<close> and the wrapped \<open>Close\<close>, which counts a connection out once.\<close>

definition wrap_open :: "Stats \<Rightarrow> Stats" where
  "wrap_open s = Stats_Add KindCurrentConns 1 (Stats_Add KindTotalConns 1 s)"

definition wrap_close :: "bool \<times> Stats \<Rightarrow> bool \<times> Stats" where
  "wrap_close c = (case c of (was_closed, s) \<Rightarrow> (True, if was_closed then s else Stats_Add KindCurrentConns (- 1) s))"

section \<open>Reports\<close>

record TrafficReportItem =
  ri_N :: string
  ri_U :: int
  ri_D :: int

definition report_item :: "string \<Rightarrow> 64 word \<Rightarrow> 64 word \<Rightarrow> TrafficReportItem" where
  "report_item name inputBytes outputBytes =
     \<lparr>ri_N = name, ri_U = sint outputBytes, ri_D = sint inputBytes\<rparr>"

text \<open>What the panel decodes from the item's JSON.\<close>

definition flow_dto :: "TrafficReportItem \<Rightarrow> FlowDto" where
  "flow_dto i = \<lparr>fl_N = ri_N i, fl_U = ri_U i, fl_D = ri_D i\<rparr>"

text \<open>\<open>sendTrafficReport\<close> from the HTTP response: its status and its body if it could be read.\<close>

definition sendTrafficReport :: "(int \<times> string option) option \<Rightarrow> bool" where
  "sendTrafficReport resp =
     (case resp of
        None \<Rightarrow> False
      | Some (status, body) \<Rightarrow>
          (if status \<noteq> 200 then False
           else case body of None \<Rightarrow> False | Some b \<Rightarrow> trim_space b = ''ok''))"

section \<open>Interleavings\<close>

text \<open>Where the reporting goroutine of a service is within one tick. \<open>Wait\<close> is the select; the
  others hold the values it has read.\<close>

datatype report_pc =
    Wait
  | Read_in
  | Read_out "64 word"
  | Send "64 word" "64 word"
  | Reload_in "64 word" "64 word"
  | Reload_out "64 word" "64 word" "64 word"
  | Store_in "64 word" "64 word"
  | Store_out "64 word" "64 word"

text \<open>\<open>rc_in\<close> and \<open>rc_out\<close> are the bytes that really passed, \<open>rc_flags\<close> the goroutines between
  the two operations of \<open>Add\<close>, \<open>rc_got\<close> the reports the panel has taken. The others account for what
  goes wrong, for each direction: the bytes that passed while their counter was about to be
  overwritten, those of reports that were answered \<open>ok\<close> and not taken, those of reports that were taken
  and whose answer did not arrive.\<close>

record report_conf =
  rc_stats :: Stats
  rc_pc :: report_pc
  rc_in :: nat
  rc_out :: nat
  rc_flags :: nat
  rc_got :: "TrafficReportItem list"
  rc_lost_in :: int
  rc_lost_out :: int
  rc_dropped_in :: int
  rc_dropped_out :: int
  rc_repeated_in :: int
  rc_repeated_out :: int

text \<open>Between the second reading of a counter and its storing.\<close>

definition in_window :: "report_pc \<Rightarrow> bool" where
  "in_window pc = (case pc of Reload_out _ _ _ \<Rightarrow> True | Store_in _ _ \<Rightarrow> True | _ \<Rightarrow> False)"

definition out_window :: "report_pc \<Rightarrow> bool" where
  "out_window pc = (case pc of Store_in _ _ \<Rightarrow> True | Store_out _ _ \<Rightarrow> True | _ \<Rightarrow> False)"

text \<open>Traffic may pass at any time, also inside the windows. The panel may take a report or not and its
  answer may arrive or not, in every combination: it answers \<open>ok\<close> also to a report it cannot use, and
  the answer to a report it took may be lost.\<close>

inductive rep_step :: "string \<Rightarrow> report_conf \<Rightarrow> report_conf \<Rightarrow> bool" for name where
  bytes_in:
    "rep_step name c
      (c\<lparr>rc_stats := add_counter KindInputBytes (int n) (rc_stats c), rc_in := rc_in c + n,
        rc_flags := Suc (rc_flags c),
        rc_lost_in := rc_lost_in c + (if in_window (rc_pc c) then int n else 0)\<rparr>)"
| bytes_out:
    "rep_step name c
      (c\<lparr>rc_stats := add_counter KindOutputBytes (int n) (rc_stats c), rc_out := rc_out c + n,
        rc_flags := Suc (rc_flags c),
        rc_lost_out := rc_lost_out c + (if out_window (rc_pc c) then int n else 0)\<rparr>)"
| flag: "rc_flags c = Suc k \<Longrightarrow>
    rep_step name c (c\<lparr>rc_stats := set_updated (rc_stats c), rc_flags := k\<rparr>)"
| tick: "rc_pc c = Wait \<Longrightarrow> IsUpdated (rc_stats c) = (b, s) \<Longrightarrow>
    rep_step name c (c\<lparr>rc_stats := s, rc_pc := (if b then Read_in else Wait)\<rparr>)"
| read_in: "rc_pc c = Read_in \<Longrightarrow>
    rep_step name c (c\<lparr>rc_pc := Read_out (Stats_Get KindInputBytes (rc_stats c))\<rparr>)"
| read_out: "rc_pc c = Read_out i \<Longrightarrow> o' = Stats_Get KindOutputBytes (rc_stats c) \<Longrightarrow>
    rep_step name c (c\<lparr>rc_pc := (if o' > 0 \<or> i > 0 then Send i o' else Wait)\<rparr>)"
| send: "rc_pc c = Send i o' \<Longrightarrow> ok = sendTrafficReport resp \<Longrightarrow>
    rep_step name c
      (c\<lparr>rc_got := (if taken then rc_got c @ [report_item name i o'] else rc_got c),
        rc_pc := (if ok then Reload_in i o' else Wait),
        rc_dropped_in := rc_dropped_in c + (if ok \<and> \<not> taken then uint i else 0),
        rc_dropped_out := rc_dropped_out c + (if ok \<and> \<not> taken then uint o' else 0),
        rc_repeated_in := rc_repeated_in c + (if taken \<and> \<not> ok then uint i else 0),
        rc_repeated_out := rc_repeated_out c + (if taken \<and> \<not> ok then uint o' else 0)\<rparr>)"
| reload_in: "rc_pc c = Reload_in i o' \<Longrightarrow>
    rep_step name c
      (c\<lparr>rc_pc := Reload_out i o' (Stats_Get KindInputBytes (rc_stats c) - i)\<rparr>)"
| reload_out: "rc_pc c = Reload_out i o' a \<Longrightarrow>
    rep_step name c
      (c\<lparr>rc_pc := Store_in a (Stats_Get KindOutputBytes (rc_stats c) - o')\<rparr>)"
| store_in: "rc_pc c = Store_in a b \<Longrightarrow>
    rep_step name c (c\<lparr>rc_stats := (reset_stores a b ! 0) (rc_stats c), rc_pc := Store_out a b\<rparr>)"
| store_out: "rc_pc c = Store_out a b \<Longrightarrow>
    rep_step name c (c\<lparr>rc_stats := (reset_stores a b ! 1) (rc_stats c), rc_pc := Wait\<rparr>)"

inductive_cases rep_stepE: "rep_step name c c'"

definition rep_start :: report_conf where
  "rep_start = \<lparr>rc_stats = NewStats, rc_pc = Wait, rc_in = 0, rc_out = 0, rc_flags = 0, rc_got = [],
     rc_lost_in = 0, rc_lost_out = 0, rc_dropped_in = 0, rc_dropped_out = 0, rc_repeated_in = 0,
     rc_repeated_out = 0\<rparr>"

inductive rep_reach :: "string \<Rightarrow> report_conf \<Rightarrow> bool" for name where
  start: "rep_reach name rep_start"
| step: "rep_reach name c \<Longrightarrow> rep_step name c c' \<Longrightarrow> rep_reach name c'"

text \<open>The steps are the operations of the code when nothing comes between them.\<close>

lemma Stats_Add_steps:
  "\<exists>c1. rep_step name c c1 \<and>
     rep_step name c1 (c1\<lparr>rc_stats := Stats_Add KindInputBytes (int n) (rc_stats c), rc_flags := rc_flags c\<rparr>)"
proof -
  let ?c1 = "c\<lparr>rc_stats := add_counter KindInputBytes (int n) (rc_stats c), rc_in := rc_in c + n,
    rc_flags := Suc (rc_flags c), rc_lost_in := rc_lost_in c + (if in_window (rc_pc c) then int n else 0)\<rparr>"
  have "rep_step name ?c1 (?c1\<lparr>rc_stats := set_updated (rc_stats ?c1), rc_flags := rc_flags c\<rparr>)"
    by (rule flag) simp
  with bytes_in [of name c n] show ?thesis
    by (intro exI [of _ ?c1]) (simp only: Stats_Add_def, simp)
qed

lemma ResetTraffic_steps:
  assumes "rc_pc c = Store_in a b"
  shows "\<exists>c1. rep_step name c c1 \<and>
    rep_step name c1 (c\<lparr>rc_stats := ResetTraffic a b (rc_stats c), rc_pc := Wait\<rparr>)"
proof -
  let ?c1 = "c\<lparr>rc_stats := (reset_stores a b ! 0) (rc_stats c), rc_pc := Store_out a b\<rparr>"
  have "rep_step name ?c1 (?c1\<lparr>rc_stats := (reset_stores a b ! 1) (rc_stats ?c1), rc_pc := Wait\<rparr>)"
    by (rule store_out) simp
  with store_in [OF assms] show ?thesis
    by (intro exI [of _ ?c1]) (simp add: ResetTraffic_def reset_stores_def)
qed

end
