(* ===== verification/Node_Report_Props.thy ===== *)
theory Node_Report_Props
  imports Node_Report Flow_Props
begin

text \<open>
  Every byte is accounted for: what is reported and what is still counted is what passed, less what is
  overwritten between the second reading of a counter and its storing and what the panel drops, and
  again what it takes without an answer. The reports then end up in the counters of the panel.
\<close>

section \<open>Conservation\<close>

definition reported_in :: "report_conf \<Rightarrow> int" where
  "reported_in c = sum_list (map ri_D (rc_got c))"

definition reported_out :: "report_conf \<Rightarrow> int" where
  "reported_out c = sum_list (map ri_U (rc_got c))"

text \<open>What a counter holds that no report has taken: its value, less what has been taken and is not
  subtracted yet; the value about to be stored, where the counter is about to be overwritten.\<close>

definition due_in :: "report_conf \<Rightarrow> int" where
  "due_in c = (case rc_pc c of
      Reload_in i _ \<Rightarrow> uint (st_inputBytes (rc_stats c)) - uint i
    | Reload_out _ _ a \<Rightarrow> uint a
    | Store_in a _ \<Rightarrow> uint a
    | _ \<Rightarrow> uint (st_inputBytes (rc_stats c)))"

definition due_out :: "report_conf \<Rightarrow> int" where
  "due_out c = (case rc_pc c of
      Reload_in _ i \<Rightarrow> uint (st_outputBytes (rc_stats c)) - uint i
    | Reload_out _ i _ \<Rightarrow> uint (st_outputBytes (rc_stats c)) - uint i
    | Store_in _ b \<Rightarrow> uint b
    | Store_out _ b \<Rightarrow> uint b
    | _ \<Rightarrow> uint (st_outputBytes (rc_stats c)))"

text \<open>The values the reporter holds are at most the counters.\<close>

fun held_ok :: "report_pc \<Rightarrow> Stats \<Rightarrow> bool" where
  "held_ok (Read_out i) s \<longleftrightarrow> i \<le> st_inputBytes s"
| "held_ok (Send i o') s \<longleftrightarrow> i \<le> st_inputBytes s \<and> o' \<le> st_outputBytes s"
| "held_ok (Reload_in i o') s \<longleftrightarrow> i \<le> st_inputBytes s \<and> o' \<le> st_outputBytes s"
| "held_ok (Reload_out i o' a) s \<longleftrightarrow> o' \<le> st_outputBytes s \<and> a \<le> st_inputBytes s"
| "held_ok (Store_in a b) s \<longleftrightarrow> a \<le> st_inputBytes s \<and> b \<le> st_outputBytes s"
| "held_ok (Store_out a b) s \<longleftrightarrow> b \<le> st_outputBytes s"
| "held_ok _ s \<longleftrightarrow> True"

text \<open>The law of each direction, which every step keeps.\<close>

definition balance_in :: "report_conf \<Rightarrow> bool" where
  "balance_in c \<longleftrightarrow> 0 \<le> rc_lost_in c \<and> 0 \<le> rc_dropped_in c \<and> 0 \<le> rc_repeated_in c \<and>
     reported_in c + due_in c + rc_lost_in c + rc_dropped_in c = int (rc_in c) + rc_repeated_in c"

definition balance_out :: "report_conf \<Rightarrow> bool" where
  "balance_out c \<longleftrightarrow> 0 \<le> rc_lost_out c \<and> 0 \<le> rc_dropped_out c \<and> 0 \<le> rc_repeated_out c \<and>
     reported_out c + due_out c + rc_lost_out c + rc_dropped_out c = int (rc_out c) + rc_repeated_out c"

definition rep_inv :: "string \<Rightarrow> report_conf \<Rightarrow> bool" where
  "rep_inv name c \<longleftrightarrow> list_all (\<lambda>i. ri_N i = name \<and> 0 \<le> ri_U i \<and> 0 \<le> ri_D i) (rc_got c) \<and> held_ok (rc_pc c) (rc_stats c) \<and>
     balance_in c \<and> balance_out c \<and>
     uint (st_inputBytes (rc_stats c)) \<le> int (rc_in c) \<and> uint (st_outputBytes (rc_stats c)) \<le> int (rc_out c)"

lemma word_minus: "(i :: 64 word) \<le> x \<Longrightarrow> uint (x - i) = uint x - uint i"
  by (simp add: uint_minus_simple_alt)

lemma word_plus: "uint (x :: 64 word) + int n < 2 ^ 64 \<Longrightarrow> uint (x + of_nat n) = uint x + int n"
proof -
  assume b: "uint x + int n < 2 ^ 64"
  have "0 \<le> uint x" by simp
  with b have "int n < 2 ^ 64" by linarith
  then have "uint (of_nat n :: 64 word) = int n"
    by (simp add: uint_nat unat_of_nat)
  with b show ?thesis by (simp add: uint_word_ariths(1) mod_pos_pos_trivial)
qed

lemma word_le_plus: "(i :: 64 word) \<le> x \<Longrightarrow> uint x + int n < 2 ^ 64 \<Longrightarrow> i \<le> x + of_nat n"
  by (simp only: word_le_def word_plus)

lemma word_sint: "uint (x :: 64 word) < 2 ^ 63 \<Longrightarrow> sint x = uint x"
proof -
  assume "uint x < 2 ^ 63"
  moreover have "0 \<le> uint x" by simp
  ultimately have "signed_take_bit 63 (uint x) = uint x"
    by (intro signed_take_bit_int_eq_self) linarith+
  then show ?thesis by (simp add: sint_uint)
qed

text \<open>What a step does to the two counters and to what is held.\<close>

lemmas rep_defs = add_counter_def Stats_Get_def set_updated_def IsUpdated_def store_input_def store_output_def
  reset_stores_def report_item_def reported_in_def reported_out_def

lemma add_in:
  assumes "uint (st_inputBytes (rc_stats c)) + int n < 2 ^ 64" and "held_ok (rc_pc c) (rc_stats c)"
  defines "s \<equiv> add_counter KindInputBytes (int n) (rc_stats c)"
  shows "uint (st_inputBytes s) = uint (st_inputBytes (rc_stats c)) + int n"
    and "st_outputBytes s = st_outputBytes (rc_stats c)"
    and "held_ok (rc_pc c) s"
proof -
  have i: "st_inputBytes s = st_inputBytes (rc_stats c) + of_nat n" by (simp add: s_def add_counter_def)
  show "uint (st_inputBytes s) = uint (st_inputBytes (rc_stats c)) + int n" unfolding i by (rule word_plus [OF assms(1)])
  show o: "st_outputBytes s = st_outputBytes (rc_stats c)" by (simp add: s_def add_counter_def)
  have "v \<le> st_inputBytes s" if "v \<le> st_inputBytes (rc_stats c)" for v
    unfolding i by (rule word_le_plus [OF that assms(1)])
  with assms(2) o show "held_ok (rc_pc c) s" by (cases "rc_pc c") auto
qed

lemma add_out:
  assumes "uint (st_outputBytes (rc_stats c)) + int n < 2 ^ 64" and "held_ok (rc_pc c) (rc_stats c)"
  defines "s \<equiv> add_counter KindOutputBytes (int n) (rc_stats c)"
  shows "uint (st_outputBytes s) = uint (st_outputBytes (rc_stats c)) + int n"
    and "st_inputBytes s = st_inputBytes (rc_stats c)"
    and "held_ok (rc_pc c) s"
proof -
  have i: "st_outputBytes s = st_outputBytes (rc_stats c) + of_nat n" by (simp add: s_def add_counter_def)
  show "uint (st_outputBytes s) = uint (st_outputBytes (rc_stats c)) + int n" unfolding i by (rule word_plus [OF assms(1)])
  show o: "st_inputBytes s = st_inputBytes (rc_stats c)" by (simp add: s_def add_counter_def)
  have "v \<le> st_outputBytes s" if "v \<le> st_outputBytes (rc_stats c)" for v
    unfolding i by (rule word_le_plus [OF that assms(1)])
  with assms(2) o show "held_ok (rc_pc c) s" by (cases "rc_pc c") auto
qed

lemmas rep_cases = rep_inv_def balance_in_def balance_out_def due_in_def due_out_def in_window_def out_window_def

lemma rep_inv_traffic:
  assumes "rep_inv name c" and "int (rc_in c) + int n < 2 ^ 63"
  shows "rep_inv name (c\<lparr>rc_stats := add_counter KindInputBytes (int n) (rc_stats c), rc_in := rc_in c + n,
        rc_flags := Suc (rc_flags c), rc_lost_in := rc_lost_in c + (if in_window (rc_pc c) then int n else 0)\<rparr>)"
    (is "rep_inv name ?c")
proof -
  have h: "held_ok (rc_pc c) (rc_stats c)" and b: "uint (st_inputBytes (rc_stats c)) + int n < 2 ^ 64"
    using assms by (auto simp: rep_inv_def)
  note a = add_in [OF b h]
  have "due_in ?c = due_in c + (if in_window (rc_pc c) then 0 else int n)" "due_out ?c = due_out c"
    using a by (cases "rc_pc c"; simp add: due_in_def due_out_def in_window_def)+
  then show ?thesis
    using assms(1) a by (simp add: rep_inv_def balance_in_def balance_out_def reported_in_def reported_out_def)
qed

lemma rep_inv_traffic_out:
  assumes "rep_inv name c" and "int (rc_out c) + int n < 2 ^ 63"
  shows "rep_inv name (c\<lparr>rc_stats := add_counter KindOutputBytes (int n) (rc_stats c), rc_out := rc_out c + n,
        rc_flags := Suc (rc_flags c), rc_lost_out := rc_lost_out c + (if out_window (rc_pc c) then int n else 0)\<rparr>)"
    (is "rep_inv name ?c")
proof -
  have h: "held_ok (rc_pc c) (rc_stats c)" and b: "uint (st_outputBytes (rc_stats c)) + int n < 2 ^ 64"
    using assms by (auto simp: rep_inv_def)
  note a = add_out [OF b h]
  have "due_out ?c = due_out c + (if out_window (rc_pc c) then 0 else int n)" "due_in ?c = due_in c"
    using a by (cases "rc_pc c"; simp add: due_in_def due_out_def out_window_def)+
  then show ?thesis
    using assms(1) a by (simp add: rep_inv_def balance_in_def balance_out_def reported_in_def reported_out_def)
qed

lemma rep_inv_step:
  assumes "rep_step name c c'" and "rep_inv name c"
    and "int (rc_in c') < 2 ^ 63" and "int (rc_out c') < 2 ^ 63"
  shows "rep_inv name c'"
  using assms(1)
proof cases
  case (bytes_in n)
  with assms(2-) show ?thesis using rep_inv_traffic [of name c n] by auto
next
  case (bytes_out n)
  with assms(2-) show ?thesis using rep_inv_traffic_out [of name c n] by auto
next
  case (flag k)
  with assms(2) show ?thesis
    by (cases "rc_pc c") (auto simp: rep_cases rep_defs)
next
  case (tick b s)
  with assms(2) show ?thesis by (auto simp: rep_cases rep_defs)
next
  case read_in
  with assms(2) show ?thesis by (auto simp: rep_cases rep_defs)
next
  case (read_out i o')
  with assms(2) show ?thesis by (auto simp: rep_cases rep_defs)
next
  case (send i o' ok resp taken)
  then have s: "sint o' = uint o'" "sint i = uint i"
    using assms(2-) by (auto simp: rep_inv_def word_le_def intro!: word_sint)
  moreover have "0 \<le> uint i" "0 \<le> uint o'" by simp_all
  ultimately show ?thesis
    using send assms(2) by (cases ok; cases taken; simp add: rep_cases rep_defs)
next
  case (reload_in i o')
  with assms(2) show ?thesis by (auto simp: rep_cases rep_defs word_minus intro: word_sub_le)
next
  case (reload_out i o' a)
  with assms(2) show ?thesis by (auto simp: rep_cases rep_defs word_minus intro: word_sub_le)
next
  case (store_in a b)
  with assms(2) show ?thesis by (auto simp: rep_cases rep_defs word_le_def)
next
  case (store_out a b)
  with assms(2) show ?thesis by (auto simp: rep_cases rep_defs word_le_def)
qed

lemma rep_reach_inv:
  assumes "rep_reach name c" and "int (rc_in c) < 2 ^ 63" and "int (rc_out c) < 2 ^ 63"
  shows "rep_inv name c"
  using assms
proof (induction rule: rep_reach.induct)
  case start
  then show ?case by (simp add: rep_cases rep_start_def NewStats_def reported_in_def reported_out_def)
next
  case (step c c')
  have "rc_in c \<le> rc_in c'" "rc_out c \<le> rc_out c'" using step.hyps(2) by (cases; simp)+
  with step.prems have "int (rc_in c) < 2 ^ 63" "int (rc_out c) < 2 ^ 63" by linarith+
  then show ?case using step rep_inv_step by blast
qed

text \<open>C35: No byte is reported twice or lost outside what the steps name. Whatever the interleaving of the
  goroutines that carry traffic with the one that reports, and whatever the panel answers: in each
  direction the bytes reported, those still in the counter, those overwritten by a reset and those of
  reports answered \<open>ok\<close> but not taken are the bytes that passed and those of reports that were taken
  without an answer. So nothing is reported twice as long as no answer to a report that was taken is lost,
  and the reported and the counted are exactly what passed if besides no traffic passes between the second
  reading of a counter and its storing and the panel answers \<open>ok\<close> to what it took only.\<close>

theorem reports_conserve_traffic:
  assumes "rep_reach name c" and "rc_pc c = Wait"
    and "int (rc_in c) < 2 ^ 63" and "int (rc_out c) < 2 ^ 63"
  shows "reported_in c + uint (st_inputBytes (rc_stats c)) + rc_lost_in c + rc_dropped_in c =
       int (rc_in c) + rc_repeated_in c \<and>
     reported_out c + uint (st_outputBytes (rc_stats c)) + rc_lost_out c + rc_dropped_out c =
       int (rc_out c) + rc_repeated_out c \<and>
     (rc_repeated_in c = 0 \<and> rc_repeated_out c = 0 \<longrightarrow>
        reported_in c + uint (st_inputBytes (rc_stats c)) \<le> int (rc_in c) \<and>
        reported_out c + uint (st_outputBytes (rc_stats c)) \<le> int (rc_out c))"
  using rep_reach_inv [OF assms(1,3,4)] assms(2) by (auto simp: rep_cases)

section \<open>Runs\<close>

definition answered :: "(int \<times> string option) option" where
  "answered = Some (200, Some ''ok'')"

lemma send_answered [simp]: "sendTrafficReport answered" "\<not> sendTrafficReport None"
  by (simp_all add: answered_def sendTrafficReport_def trim_space_def is_space_def)

definition at_send :: "report_conf \<Rightarrow> report_conf" where
  "at_send c = c\<lparr>rc_stats := (rc_stats c)\<lparr>st_updated := False\<rparr>, rc_flags := 0,
     rc_pc := Send (st_inputBytes (rc_stats c)) (st_outputBytes (rc_stats c))\<rparr>"

text \<open>After some traffic whose flag is set, the next tick comes to the sending.\<close>

lemma run_to_send:
  assumes "rep_reach name c" and "rc_pc c = Wait" and "rc_flags c = Suc 0"
    and "0 < st_inputBytes (rc_stats c)"
  shows "rep_reach name (at_send c)"
proof -
  let ?c1 = "c\<lparr>rc_stats := set_updated (rc_stats c), rc_flags := 0\<rparr>"
  let ?s2 = "(rc_stats c)\<lparr>st_updated := False\<rparr>"
  let ?c2 = "?c1\<lparr>rc_stats := ?s2, rc_pc := (if True then Read_in else Wait)\<rparr>"
  let ?c3 = "?c2\<lparr>rc_pc := Read_out (Stats_Get KindInputBytes (rc_stats ?c2))\<rparr>"
  let ?o = "Stats_Get KindOutputBytes (rc_stats ?c3)"
  let ?i = "Stats_Get KindInputBytes (rc_stats ?c2)"
  let ?c4 = "?c3\<lparr>rc_pc := (if ?o > 0 \<or> ?i > 0 then Send ?i ?o else Wait)\<rparr>"
  have 1: "rep_reach name ?c1" by (rule rep_reach.step [OF assms(1) rep_step.flag [OF assms(3)]])
  have 2: "rep_reach name ?c2"
    by (rule rep_reach.step [OF 1 rep_step.tick]) (use assms(2) in \<open>simp_all add: IsUpdated_def set_updated_def\<close>)
  have 3: "rep_reach name ?c3" by (rule rep_reach.step [OF 2 rep_step.read_in]) simp
  have 4: "rep_reach name ?c4" by (rule rep_reach.step [OF 3 rep_step.read_out]) simp_all
  moreover have "?c4 = at_send c" using assms(4) by (simp add: at_send_def Stats_Get_def)
  ultimately show ?thesis by simp
qed

text \<open>The steps of an answered report of \<open>i\<close> and \<open>o'\<close> bytes that is taken, up to the first store.\<close>

definition at_store :: "string \<Rightarrow> 64 word \<Rightarrow> 64 word \<Rightarrow> report_conf \<Rightarrow> report_conf" where
  "at_store name i o' c = c\<lparr>rc_got := rc_got c @ [report_item name i o'],
     rc_pc := Store_in (st_inputBytes (rc_stats c) - i) (st_outputBytes (rc_stats c) - o')\<rparr>"

lemma run_to_store:
  assumes "rep_reach name c" and "rc_pc c = Send i o'"
  shows "rep_reach name (at_store name i o' c)"
proof -
  let ?c1 = "c\<lparr>rc_got := rc_got c @ [report_item name i o'], rc_pc := Reload_in i o'\<rparr>"
  let ?c2 = "?c1\<lparr>rc_pc := Reload_out i o' (Stats_Get KindInputBytes (rc_stats ?c1) - i)\<rparr>"
  let ?c3 = "?c2\<lparr>rc_pc := Store_in (Stats_Get KindInputBytes (rc_stats ?c1) - i) (Stats_Get KindOutputBytes (rc_stats ?c2) - o')\<rparr>"
  have 1: "rep_reach name ?c1"
    using rep_reach.step [OF assms(1) rep_step.send [OF assms(2) refl, where name = name and resp = answered and taken = True]] by simp
  have 2: "rep_reach name ?c2" by (rule rep_reach.step [OF 1 rep_step.reload_in]) simp
  have "rep_reach name ?c3" by (rule rep_reach.step [OF 2 rep_step.reload_out]) simp
  then show ?thesis by (simp add: at_store_def Stats_Get_def)
qed

lemma run_stores:
  assumes "rep_reach name c" and "rc_pc c = Store_in a b"
  shows "rep_reach name (c\<lparr>rc_stats := ResetTraffic a b (rc_stats c), rc_pc := Wait\<rparr>)"
  using ResetTraffic_steps [OF assms(2)] rep_reach.step assms(1) by blast

text \<open>The first traffic of a service.\<close>

definition first_bytes :: "nat \<Rightarrow> report_conf" where
  "first_bytes n = rep_start\<lparr>rc_stats := NewStats\<lparr>st_inputBytes := of_nat n\<rparr>, rc_in := n, rc_flags := 1\<rparr>"

lemma run_first_bytes: "rep_reach name (first_bytes n)"
  using rep_reach.step [OF rep_reach.start rep_step.bytes_in [of name rep_start n]]
  by (simp add: first_bytes_def rep_start_def add_counter_def NewStats_def in_window_def)

text \<open>Property: The subtraction of what was reported is not atomic: bytes that pass between the second
  reading of the counter and its storing are overwritten. For every \<open>n\<close> there is a run of the
  panel answering every report in which \<open>n\<close> bytes passed that are neither reported nor counted.\<close>

theorem reset_race_loses_traffic:
  "\<exists>c. rep_reach name c \<and> rc_pc c = Wait \<and> rc_lost_in c = int n \<and> rc_dropped_in c = 0 \<and> rc_repeated_in c = 0 \<and>
     reported_in c + uint (st_inputBytes (rc_stats c)) + int n = int (rc_in c)"
proof -
  let ?c1 = "at_send (first_bytes 1)"
  let ?c2 = "at_store name 1 0 ?c1"
  let ?c3 = "?c2\<lparr>rc_stats := add_counter KindInputBytes (int n) (rc_stats ?c2), rc_in := rc_in ?c2 + n,
    rc_flags := Suc (rc_flags ?c2), rc_lost_in := rc_lost_in ?c2 + (if in_window (rc_pc ?c2) then int n else 0)\<rparr>"
  let ?c4 = "?c3\<lparr>rc_stats := ResetTraffic 0 0 (rc_stats ?c3), rc_pc := Wait\<rparr>"
  have s: "rc_stats (first_bytes 1) = NewStats\<lparr>st_inputBytes := 1\<rparr>" "rc_pc (first_bytes 1) = Wait" "rc_flags (first_bytes 1) = Suc 0"
    by (simp_all add: first_bytes_def rep_start_def)
  have 1: "rep_reach name ?c1" by (rule run_to_send [OF run_first_bytes]) (simp_all only: s, simp)
  have 2: "rep_reach name ?c2" by (rule run_to_store [OF 1]) (simp add: at_send_def first_bytes_def rep_start_def NewStats_def)
  have 3: "rep_reach name ?c3" by (rule rep_reach.step [OF 2 rep_step.bytes_in])
  have 4: "rep_reach name ?c4" by (rule run_stores [OF 3]) (simp add: at_store_def at_send_def first_bytes_def rep_start_def NewStats_def)
  have "rc_pc ?c4 = Wait \<and> rc_lost_in ?c4 = int n \<and> rc_dropped_in ?c4 = 0 \<and> rc_repeated_in ?c4 = 0 \<and>
      reported_in ?c4 + uint (st_inputBytes (rc_stats ?c4)) + int n = int (rc_in ?c4)"
    by (simp add: at_store_def at_send_def first_bytes_def rep_start_def reported_in_def report_item_def
        ResetTraffic_def reset_stores_def store_input_def store_output_def in_window_def)
  with 4 show ?thesis by (intro exI [of _ ?c4] conjI) (rule 4, (elim conjE, assumption)+)
qed

text \<open>Property: A report whose answer is lost is sent again with everything it held. For every \<open>n\<close> and
  \<open>k\<close> there is a run, in which no byte passes inside a window, in which \<open>n\<close> bytes passed and the panel
  took \<open>k\<close> times as many.\<close>

theorem lost_answer_reports_again:
  assumes "0 < n" and "int n < 2 ^ 63"
  shows "\<exists>c. rep_reach name c \<and> rc_pc c = Wait \<and> rc_lost_in c = 0 \<and> rc_in c = n \<and> reported_in c = int k * int n"
proof -
  let ?P = "\<lambda>k c. rep_reach name c \<and> rc_pc c = Wait \<and> rc_flags c = Suc 0 \<and> rc_lost_in c = 0 \<and> rc_in c = n \<and>
    st_inputBytes (rc_stats c) = of_nat n \<and> reported_in c = int k * int n"
  have "unat (of_nat n :: 64 word) = n" using assms(2) by (simp add: unat_of_nat)
  then have n: "uint (of_nat n :: 64 word) = int n" by (simp add: uint_nat)
  then have "sint (of_nat n :: 64 word) = int n" using word_sint assms(2) by metis
  moreover have "(0 :: 64 word) < of_nat n" using n assms(1) by (simp add: word_less_def)
  ultimately have w: "sint (of_nat n :: 64 word) = int n" "(0 :: 64 word) < of_nat n" .
  have "\<exists>c. ?P k c"
  proof (induction k)
    case 0
    have "?P 0 (first_bytes n)"
      using run_first_bytes by (simp add: first_bytes_def rep_start_def reported_in_def)
    then show ?case by blast
  next
    case (Suc k)
    then obtain c where c: "?P k c" by blast
    let ?c1 = "at_send c"
    have 1: "rep_reach name ?c1" by (rule run_to_send) (use c w in simp_all)
    have pc: "rc_pc ?c1 = Send (of_nat n) (st_outputBytes (rc_stats c))" using c by (simp add: at_send_def)
    note 2 = rep_reach.step [OF 1 rep_step.send [OF pc refl, where name = name and resp = None and taken = True], simplified]
    note 3 = rep_reach.step [OF 2 rep_step.bytes_in [of name _ 0]]
    show ?case
      by (rule exI, intro conjI, rule 3)
        (use c w in \<open>simp_all add: at_send_def reported_in_def report_item_def add_counter_def in_window_def algebra_simps\<close>)
  qed
  then show ?thesis by blast
qed

theorem lost_answer_reports_again_witness:
  "\<exists>c. rep_reach ''10_2_2_tcp'' c \<and> rc_pc c = Wait \<and> rc_lost_in c = 0 \<and> rc_in c = 1000 \<and> reported_in c = 3000"
  using lost_answer_reports_again [of 1000 "''10_2_2_tcp''" 3] by simp

text \<open>A run of one report, answered, with five bytes that pass while the counter is reset.\<close>

definition one_report :: report_conf where
  "one_report = \<lparr>rc_stats = NewStats, rc_pc = Wait, rc_in = 35, rc_out = 0, rc_flags = 1,
     rc_got = [\<lparr>ri_N = ''10_2_2_tcp'', ri_U = 0, ri_D = 30\<rparr>], rc_lost_in = 5, rc_lost_out = 0,
     rc_dropped_in = 0, rc_dropped_out = 0, rc_repeated_in = 0, rc_repeated_out = 0\<rparr>"

lemma one_report_reached: "rep_reach ''10_2_2_tcp'' one_report"
proof -
  let ?N = "''10_2_2_tcp''"
  let ?c1 = "at_send (first_bytes 30)"
  let ?c2 = "at_store ?N 30 0 ?c1"
  let ?c3 = "?c2\<lparr>rc_stats := add_counter KindInputBytes (int 5) (rc_stats ?c2), rc_in := rc_in ?c2 + 5,
    rc_flags := Suc (rc_flags ?c2), rc_lost_in := rc_lost_in ?c2 + (if in_window (rc_pc ?c2) then int 5 else 0)\<rparr>"
  let ?c4 = "?c3\<lparr>rc_stats := ResetTraffic 0 0 (rc_stats ?c3), rc_pc := Wait\<rparr>"
  have s: "rc_stats (first_bytes 30) = NewStats\<lparr>st_inputBytes := 30\<rparr>" "rc_pc (first_bytes 30) = Wait"
    "rc_flags (first_bytes 30) = Suc 0"
    by (simp_all add: first_bytes_def rep_start_def)
  have 1: "rep_reach ?N ?c1" by (rule run_to_send [OF run_first_bytes]) (simp_all only: s, simp)
  have 2: "rep_reach ?N ?c2" by (rule run_to_store [OF 1]) (simp add: at_send_def first_bytes_def rep_start_def NewStats_def)
  have 3: "rep_reach ?N ?c3" by (rule rep_reach.step [OF 2 rep_step.bytes_in])
  have 4: "rep_reach ?N ?c4" by (rule run_stores [OF 3]) (simp add: at_store_def at_send_def first_bytes_def rep_start_def NewStats_def)
  have "?c4 = one_report"
    by (simp add: at_store_def at_send_def first_bytes_def rep_start_def one_report_def report_item_def NewStats_def
        add_counter_def ResetTraffic_def reset_stores_def store_input_def store_output_def in_window_def)
  with 4 show ?thesis by simp
qed

theorem reports_conserve_traffic_witness:
  "rep_reach ''10_2_2_tcp'' one_report \<and>
   reported_in one_report + uint (st_inputBytes (rc_stats one_report)) = 30 \<and> rc_lost_in one_report = 5"
  using one_report_reached reports_conserve_traffic [OF one_report_reached]
  by (simp add: one_report_def)

section \<open>From the node's counters to the panel's\<close>

definition credit :: "int \<Rightarrow> int \<Rightarrow> int \<Rightarrow> User \<Rightarrow> User" where
  "credit u d o' x = (if u_ID x = u then x\<lparr>u_InFlow := u_InFlow x + d, u_OutFlow := u_OutFlow x + o'\<rparr> else x)"

lemma credit_credit: "credit u d2 o2 (credit u d1 o1 x) = credit u (d1 + d2) (o1 + o2) x"
  by (simp add: credit_def algebra_simps)

lemma credit_zero: "credit u 0 0 x = x"
  by (simp add: credit_def)

text \<open>Which tunnel a forward runs over is not touched by a report.\<close>

definition f_route :: "Forward \<Rightarrow> int \<times> int" where
  "f_route f = (f_ID f, f_TunnelId f)"

lemma route_of: "map_option f_TunnelId (firstForward d k) = map_of (map f_route (forwards d)) k"
proof -
  have "map_option f_TunnelId (first_where (\<lambda>f. f_ID f = k) fs) = map_of (map f_route fs) k" for fs
    by (induction fs) (auto simp: first_where_def f_route_def)
  then show ?thesis by (simp add: firstForward_def)
qed

lemma limits_routes:
  assumes "db_ok e = (\<lambda>_. True)"
  shows "map f_route (forwards (wdb (checkUserLimits e u w))) = map f_route (forwards (wdb w))"
    and "tunnels (wdb (checkUserLimits e u w)) = tunnels (wdb w)"
    and "map f_route (forwards (wdb (checkUserTunnelLimits e k u w))) = map f_route (forwards (wdb w))"
    and "tunnels (wdb (checkUserTunnelLimits e k u w)) = tunnels (wdb w)"
  by (simp_all add: checkUserLimits_def checkUserTunnelLimits_def pauseAllUserServices_def
      pauseSpecificForward_def pauseForwardServices_db [OF assms] update_where_def f_route_def split: option.split)

lemma flow_rate_routes:
  assumes "map f_route (forwards d') = map f_route (forwards d)" and "tunnels d' = tunnels d"
    and "firstForward d k = Some f"
  obtains f' where "firstForward d' k = Some f'" and "flow_rate d' f' = flow_rate d f"
proof -
  have "map_option f_TunnelId (firstForward d' k) = Some (f_TunnelId f)"
    using assms(3) unfolding route_of assms(1) by (simp add: route_of [symmetric])
  then obtain f' where "firstForward d' k = Some f'" "f_TunnelId f' = f_TunnelId f" by auto
  with assms(2) that show ?thesis by (simp add: flow_rate_def firstTunnel_def)
qed

lemma report_credits:
  fixes e :: "'n env" and other :: "'n world \<Rightarrow> 'n world"
  assumes "db_ok e = (\<lambda>_. True)"
    and "fl_N rep = buildServiceName k u (Some ut) @ rest" and "rest = [] \<or> hd rest = CHR ''_''"
    and "int64 k" and "int64 u" and "int64 (ut_ID ut)" and "ut_ID ut \<noteq> 0"
    and "firstForward (wdb w) k = Some f" and "flow_rate (wdb w) f = (m, r)"
  defines "w' \<equiv> processFlowData e other rep w"
  shows "users (wdb w') = map (credit u (scaled_flow (fl_D rep) r m) (scaled_flow (fl_U rep) r m)) (users (wdb w))"
    and "\<exists>f'. firstForward (wdb w') k = Some f' \<and> flow_rate (wdb w') f' = (m, r)"
proof -
  let ?d = "scaled_flow (fl_D rep) r m" and ?u = "scaled_flow (fl_U rep) r m"
  let ?w1 = "add_flows e k u (ut_ID ut) ?d ?u w"
  have w': "w' = checkUserTunnelLimits e (ut_ID ut) u (checkUserLimits e u ?w1)"
    unfolding w'_def by (rule processFlowData_named [OF assms(2-9)])
  have add: "users (wdb ?w1) = map (credit u ?d ?u) (users (wdb w))"
    "map f_route (forwards (wdb ?w1)) = map f_route (forwards (wdb w))" "tunnels (wdb ?w1) = tunnels (wdb w)"
    by (simp_all add: add_flows_def db_exec_ok [OF assms(1)] Let_def set_forward_def update_where_def
        f_route_def credit_def)
  show "users (wdb w') = map (credit u ?d ?u) (users (wdb w))"
    by (simp add: w' limits_counts [OF assms(1)] add)
  have routes: "map f_route (forwards (wdb w')) = map f_route (forwards (wdb w))" "tunnels (wdb w') = tunnels (wdb w)"
    by (simp_all add: w' limits_routes [OF assms(1)] add)
  show "\<exists>f'. firstForward (wdb w') k = Some f' \<and> flow_rate (wdb w') f' = (m, r)"
    using flow_rate_routes [OF routes assms(8)] assms(9) by metis
qed

text \<open>The reports of one service after each other, and what they charge.\<close>

definition upload_all ::
  "'n env \<Rightarrow> ('n world \<Rightarrow> 'n world) \<Rightarrow> TrafficReportItem list \<Rightarrow> 'n world \<Rightarrow> 'n world" where
  "upload_all e other items = fold (\<lambda>i. processFlowData e other (flow_dto i)) items"

definition charged :: "(TrafficReportItem \<Rightarrow> int) \<Rightarrow> rat \<Rightarrow> int \<Rightarrow> TrafficReportItem list \<Rightarrow> int" where
  "charged bytes r m items = sum_list (map (\<lambda>i. scaled_flow (bytes i) r m) items)"

lemma upload_all_credits:
  fixes e :: "'n env" and other :: "'n world \<Rightarrow> 'n world"
  assumes "db_ok e = (\<lambda>_. True)"
    and name: "rest = [] \<or> hd rest = CHR ''_''" "int64 k" "int64 u" "int64 (ut_ID ut)" "ut_ID ut \<noteq> 0"
  shows "list_all (\<lambda>i. ri_N i = buildServiceName k u (Some ut) @ rest) items \<Longrightarrow>
    firstForward (wdb w) k = Some f \<Longrightarrow> flow_rate (wdb w) f = (m, r) \<Longrightarrow>
    users (wdb (upload_all e other items w)) =
      map (credit u (charged ri_D r m items) (charged ri_U r m items)) (users (wdb w))"
proof (induction items arbitrary: w f)
  case Nil
  then show ?case by (simp add: upload_all_def charged_def credit_zero)
next
  case (Cons i items)
  let ?w = "processFlowData e other (flow_dto i) w"
  have n: "fl_N (flow_dto i) = buildServiceName k u (Some ut) @ rest" "fl_D (flow_dto i) = ri_D i" "fl_U (flow_dto i) = ri_U i"
    using Cons.prems(1) by (simp_all add: flow_dto_def)
  note one = report_credits [OF assms(1) n(1) name Cons.prems(2,3), unfolded n, of other]
  obtain f' where f': "firstForward (wdb ?w) k = Some f'" "flow_rate (wdb ?w) f' = (m, r)" using one(2) by blast
  have "users (wdb (upload_all e other (i # items) w)) = users (wdb (upload_all e other items ?w))"
    by (simp add: upload_all_def)
  also have "\<dots> = map (credit u (charged ri_D r m items) (charged ri_U r m items)) (users (wdb ?w))"
    using Cons.prems(1) by (intro Cons.IH [OF _ f']) simp
  finally show ?case unfolding one by (simp add: credit_credit charged_def)
qed

text \<open>Where the ratio is a whole number and no product leaves the exact range of a double, what is charged
  is the bytes times the ratio and the factor.\<close>

lemma charged_exact:
  assumes "0 < m" and "m < 2 ^ 53" and "0 < r"
  shows "list_all (\<lambda>i. 0 \<le> bytes i) items \<Longrightarrow> sum_list (map bytes items) * r * m < 2 ^ 53 \<Longrightarrow>
    charged bytes (of_int r) m items = sum_list (map bytes items) * r * m"
proof (induction items)
  case Nil
  then show ?case by (simp add: charged_def)
next
  case (Cons i items)
  let ?S = "sum_list (map bytes items)"
  have pos: "0 \<le> bytes i" "0 \<le> ?S" using Cons.prems(1) by (auto simp: list_all_iff intro!: sum_list_nonneg)
  have rm: "x \<le> x * r * m" "0 \<le> x * r * m" if "0 \<le> x" for x
  proof -
    have "x * 1 \<le> x * (r * m)" using that assms by (intro mult_left_mono) (auto simp: mult_pos_pos int_one_le_iff_zero_less)
    then show "x \<le> x * r * m" by (simp add: mult.assoc)
    then show "0 \<le> x * r * m" using that by linarith
  qed
  have split: "(bytes i + ?S) * r * m = bytes i * r * m + ?S * r * m" by (simp add: algebra_simps)
  then have b: "bytes i * r * m < 2 ^ 53" "?S * r * m < 2 ^ 53" "bytes i < 2 ^ 53"
    using Cons.prems(2) rm(2) [OF pos(1)] rm(2) [OF pos(2)] rm(1) [OF pos(1)] by simp_all
  have "scaled_flow (bytes i) (of_int r) m = bytes i * r * m"
    using pos(1) b assms by (intro scaled_flow_exact) simp_all
  with Cons.IH Cons.prems(1) b(2) split show ?case by (simp add: charged_def)
qed

text \<open>C34: From the wire to the account. Take any run of a service of forward \<open>k\<close>, user \<open>u\<close> and permission
  \<open>ut\<close>, with traffic at any time and any answers, and let the panel process the reports it took. Then only
  the counters of that account change, by the scaled bytes of exactly these reports. The bytes of these
  reports are those that passed and those taken without an answer, less what is still in the node's
  counter, what a reset overwrote and what the panel answered without taking it. Where the ratio of the
  tunnel is a whole number and the products are in range, the charge is these bytes times the ratio and
  the factor of the direction. Database statements succeed.\<close>

theorem traffic_reaches_account:
  fixes e :: "'n env" and other :: "'n world \<Rightarrow> 'n world"
  assumes "rep_reach (buildServiceName k u (Some ut) @ rest) c" and "rc_pc c = Wait"
    and "int (rc_in c) < 2 ^ 63" and "int (rc_out c) < 2 ^ 63"
    and "rest = [] \<or> hd rest = CHR ''_''" and "int64 k" and "int64 u" and "int64 (ut_ID ut)" and "ut_ID ut \<noteq> 0"
    and "db_ok e = (\<lambda>_. True)" and "firstForward (wdb w) k = Some f" and "flow_rate (wdb w) f = (m, r)"
  shows "users (wdb (upload_all e other (rc_got c) w)) =
      map (credit u (charged ri_D r m (rc_got c)) (charged ri_U r m (rc_got c))) (users (wdb w)) \<and>
    reported_in c = int (rc_in c) + rc_repeated_in c - rc_lost_in c - rc_dropped_in c
      - uint (st_inputBytes (rc_stats c)) \<and>
    reported_out c = int (rc_out c) + rc_repeated_out c - rc_lost_out c - rc_dropped_out c
      - uint (st_outputBytes (rc_stats c)) \<and>
    (r = of_int q \<and> 0 < q \<and> 0 < m \<and> m < 2 ^ 53 \<and> reported_in c * q * m < 2 ^ 53 \<and> reported_out c * q * m < 2 ^ 53 \<longrightarrow>
      charged ri_D r m (rc_got c) = reported_in c * q * m \<and> charged ri_U r m (rc_got c) = reported_out c * q * m)"
proof -
  from rep_reach_inv [OF assms(1,3,4)]
  have items: "list_all (\<lambda>i. ri_N i = buildServiceName k u (Some ut) @ rest) (rc_got c)"
    and pos: "list_all (\<lambda>i. 0 \<le> ri_D i) (rc_got c)" "list_all (\<lambda>i. 0 \<le> ri_U i) (rc_got c)"
    and law: "balance_in c" "balance_out c"
    by (auto simp: rep_inv_def list_all_iff)
  note users = upload_all_credits [OF assms(10,5-9) items assms(11,12), of other]
  have exact: "charged ri_D r m (rc_got c) = reported_in c * q * m \<and> charged ri_U r m (rc_got c) = reported_out c * q * m"
    if "r = of_int q" "0 < q" "0 < m" "m < 2 ^ 53" "reported_in c * q * m < 2 ^ 53" "reported_out c * q * m < 2 ^ 53"
    using that charged_exact [OF that(3,4,2) pos(1)] charged_exact [OF that(3,4,2) pos(2)]
    by (simp add: reported_in_def reported_out_def)
  show ?thesis
    using users law exact assms(2) by (simp add: balance_in_def balance_out_def due_in_def due_out_def)
qed

theorem traffic_reaches_account_witness:
  "users (wdb (upload_all sample_env (\<lambda>w. w) (rc_got one_report) busy_world)) =
     map (credit 2 60 0) (users (wdb busy_world))"
proof -
  have name: "buildServiceName 10 2 (Some (sample_permission 2)) @ ''_tcp'' = ''10_2_2_tcp''" by code_simp
  have reach: "rep_reach (buildServiceName 10 2 (Some (sample_permission 2)) @ ''_tcp'') one_report"
    unfolding name by (rule one_report_reached)
  obtain f where f: "firstForward (wdb busy_world) 10 = Some f" "f_TunnelId f = 2" using busy_rows by auto
  then have rate: "flow_rate (wdb busy_world) f = (2, of_int 1)"
    using busy_rows by (simp add: flow_rate_def sample_tunnel_def)
  have "charged ri_D (of_int 1) 2 (rc_got one_report) = 60 \<and> charged ri_U (of_int 1) 2 (rc_got one_report) = 0"
    using traffic_reaches_account [OF reach _ _ _ _ _ _ _ _ _ f(1) rate, of sample_env "\<lambda>w. w" 1]
    by (simp add: one_report_def int64_def sample_permission_def sample_env_def reported_in_def reported_out_def)
  then show ?thesis
    using traffic_reaches_account [OF reach _ _ _ _ _ _ _ _ _ f(1) rate, of sample_env "\<lambda>w. w" 1]
    by (simp add: one_report_def int64_def sample_permission_def sample_env_def)
qed

end
