(* ===== verification/Node_Protocol.thy ===== *)
theory Node_Protocol
  imports Go_Text
begin

text \<open>
  The protocol switches of a node and the life of a service (go-node/x/service/service.go and
  status.go, \<open>handleSetProtocol\<close> of x/socket/websocket_reporter.go): what is recognised as HTTP, TLS
  or SOCKS, the connection that blocks it, the states of the accept loop and the ring of events.
  Bytes are characters; the clock and the message of an event are its argument.
\<close>

section \<open>Recognition\<close>

definition byte_at :: "string \<Rightarrow> nat \<Rightarrow> nat" where
  "byte_at data i = of_char (data ! i)"

definition detectHTTP :: "string \<Rightarrow> bool" where
  "detectHTTP data =
     (if length data < 3 then False
      else if 3 \<le> length data \<and> data ! 0 = CHR ''G'' \<and> data ! 1 = CHR ''E'' \<and> data ! 2 = CHR ''T'' then True
      else if 4 \<le> length data \<and> data ! 0 = CHR ''P'' \<and> data ! 1 = CHR ''O'' \<and> data ! 2 = CHR ''S'' \<and>
        data ! 3 = CHR ''T'' then True
      else if 3 \<le> length data \<and> data ! 0 = CHR ''P'' \<and> data ! 1 = CHR ''U'' \<and> data ! 2 = CHR ''T'' then True
      else if 6 \<le> length data \<and> data ! 0 = CHR ''D'' \<and> data ! 1 = CHR ''E'' \<and> data ! 2 = CHR ''L'' \<and>
        data ! 3 = CHR ''E'' \<and> data ! 4 = CHR ''T'' \<and> data ! 5 = CHR ''E'' then True
      else if 4 \<le> length data \<and> data ! 0 = CHR ''H'' \<and> data ! 1 = CHR ''E'' \<and> data ! 2 = CHR ''A'' \<and>
        data ! 3 = CHR ''D'' then True
      else if 7 \<le> length data \<and> data ! 0 = CHR ''O'' \<and> data ! 1 = CHR ''P'' \<and> data ! 2 = CHR ''T'' \<and>
        data ! 3 = CHR ''I'' \<and> data ! 4 = CHR ''O'' \<and> data ! 5 = CHR ''N'' \<and> data ! 6 = CHR ''S'' then True
      else if 5 \<le> length data \<and> data ! 0 = CHR ''P'' \<and> data ! 1 = CHR ''A'' \<and> data ! 2 = CHR ''T'' \<and>
        data ! 3 = CHR ''C'' \<and> data ! 4 = CHR ''H'' then True
      else 7 \<le> length data \<and> data ! 0 = CHR ''C'' \<and> data ! 1 = CHR ''O'' \<and> data ! 2 = CHR ''N'' \<and>
        data ! 3 = CHR ''N'' \<and> data ! 4 = CHR ''E'' \<and> data ! 5 = CHR ''C'' \<and> data ! 6 = CHR ''T'')"

definition detectTLS :: "string \<Rightarrow> bool" where
  "detectTLS data =
     (if length data < 5 then False
      else byte_at data 0 = 22 \<and> byte_at data 1 = 3 \<and> 1 \<le> byte_at data 2 \<and> byte_at data 2 \<le> 4)"

definition detectSOCKS :: "string \<Rightarrow> bool" where
  "detectSOCKS data =
     (if length data = 0 then False
      else if byte_at data 0 = 4 then
        (if length data < 7 then False
         else let cmd = byte_at data 1 in \<not> (cmd \<noteq> 1 \<and> cmd \<noteq> 2))
      else if byte_at data 0 = 5 then
        (if length data < 2 then False
         else let nMethods = byte_at data 1
              in if length data < 2 + nMethods then False
                 else list_ex (\<lambda>m. of_char m = (0 :: nat) \<or> of_char m = (2 :: nat)) (take nMethods (drop 2 data)))
      else False)"

section \<open>The switches\<close>

record protocol_block =
  pb_http :: int
  pb_tls :: int
  pb_socks :: int
  pb_needWrap :: bool

definition SetProtocolBlock :: "int \<Rightarrow> int \<Rightarrow> int \<Rightarrow> protocol_block" where
  "SetProtocolBlock httpOn tlsOn socksOn =
     \<lparr>pb_http = httpOn, pb_tls = tlsOn, pb_socks = socksOn, pb_needWrap = (tlsOn + socksOn + httpOn > 0)\<rparr>"

text \<open>\<open>handleSetProtocol\<close>: the three optional values of the command, and the result of rewriting
  config.json. It answers whether the command succeeded.\<close>

definition protocol_value :: "int option \<Rightarrow> int option" where
  "protocol_value v = (case v of None \<Rightarrow> Some 0 | Some x \<Rightarrow> if x \<noteq> 0 \<and> x \<noteq> 1 then None else Some x)"

definition handleSetProtocol ::
  "bool \<Rightarrow> int option \<times> int option \<times> int option \<Rightarrow> protocol_block \<Rightarrow> bool \<times> protocol_block" where
  "handleSetProtocol written req b =
     (case req of (http, tls, socks) \<Rightarrow>
        (case protocol_value http of
           None \<Rightarrow> (False, b)
         | Some httpVal \<Rightarrow>
             (case protocol_value tls of
                None \<Rightarrow> (False, b)
              | Some tlsVal \<Rightarrow>
                  (case protocol_value socks of
                     None \<Rightarrow> (False, b)
                   | Some socksVal \<Rightarrow> (written, SetProtocolBlock httpVal tlsVal socksVal)))))"

section \<open>The connection that blocks\<close>

definition detectProtocol :: "protocol_block \<Rightarrow> string \<Rightarrow> string \<Rightarrow> bool" where
  "detectProtocol b network data =
     (if network = ''udp'' \<or> network = ''udp4'' \<or> network = ''udp6'' then False
      else if pb_http b = 1 \<and> detectHTTP data then True
      else if pb_tls b = 1 \<and> detectTLS data then True
      else if pb_socks b = 1 \<and> detectSOCKS data then True
      else False)"

text \<open>\<open>detectConn.Read\<close>: the flag \<open>detected\<close> and what the reader got; \<open>None\<close> is the connection
  closed.\<close>

definition detect_Read :: "protocol_block \<Rightarrow> string \<Rightarrow> bool \<Rightarrow> string \<Rightarrow> string option \<times> bool" where
  "detect_Read b network detected data =
     (if 0 < length data \<and> \<not> detected
      then (if detectProtocol b network data then (None, True) else (Some data, True))
      else (Some data, detected))"

text \<open>The reads of one connection, up to the one that is blocked.\<close>

fun detect_reads :: "protocol_block \<Rightarrow> string \<Rightarrow> bool \<Rightarrow> string list \<Rightarrow> string option" where
  "detect_reads b network detected [] = Some []"
| "detect_reads b network detected (data # rest) =
     (case detect_Read b network detected data of
        (None, _) \<Rightarrow> None
      | (Some d, detected') \<Rightarrow> map_option (\<lambda>r. d @ r) (detect_reads b network detected' rest))"

section \<open>The accept loop\<close>

datatype State = StateRunning | StateReady | StateFailed | StateClosed

datatype accept_result = Temporary | Fatal | Accepted

text \<open>\<open>Serve\<close>: the delay in seconds before the next attempt and the state of the service; \<open>True\<close>
  when the loop has returned.\<close>

definition serve_step :: "accept_result \<Rightarrow> nat \<times> State \<times> bool \<Rightarrow> nat \<times> State \<times> bool" where
  "serve_step r s =
     (case s of (tempDelay, state, returned) \<Rightarrow>
        if returned then s
        else case r of
          Temporary \<Rightarrow>
            (let d = (if tempDelay = 0 then 1 else tempDelay * 2)
             in (if d > 5 then 5 else d, StateFailed, False))
        | Fatal \<Rightarrow> (tempDelay, StateClosed, True)
        | Accepted \<Rightarrow> (if tempDelay > 0 then (0, StateReady, False) else (tempDelay, state, False)))"

definition Serve :: "accept_result list \<Rightarrow> nat \<times> State \<times> bool" where
  "Serve rs = fold serve_step rs (0, StateReady, False)"

section \<open>Events\<close>

definition MaxEventSize :: nat where
  "MaxEventSize = 20"

definition addEvent :: "'e \<Rightarrow> 'e list \<Rightarrow> 'e list" where
  "addEvent event events =
     (if length events = MaxEventSize then drop 1 events @ [event] else events @ [event])"

end
