(* ===== verification/Node_Protocol_Props.thy ===== *)
theory Node_Protocol_Props
  imports Node_Protocol
begin

text \<open>
  The recognisers agree with a reference given by prefixes and field formats, a client that
  sends its first byte alone is never blocked, the accept loop's delay is bounded, and the ring
  keeps the last events.
\<close>

section \<open>Reference\<close>

definition http_methods :: "string list" where
  "http_methods = [''GET'', ''POST'', ''PUT'', ''DELETE'', ''HEAD'', ''OPTIONS'', ''PATCH'', ''CONNECT'']"

lemma prefix_upt: "has_prefix s p \<longleftrightarrow> length p \<le> length s \<and> list_all (\<lambda>i. s ! i = p ! i) [0..<length p]"
proof
  assume "has_prefix s p"
  then obtain r where "s = p @ r" by (auto simp: has_prefix_iff)
  then show "length p \<le> length s \<and> list_all (\<lambda>i. s ! i = p ! i) [0..<length p]"
    by (simp add: list_all_iff nth_append)
next
  assume a: "length p \<le> length s \<and> list_all (\<lambda>i. s ! i = p ! i) [0..<length p]"
  then have "take (length p) s = p" by (intro nth_equalityI) (auto simp: list_all_iff)
  then show "has_prefix s p" by (metis append_take_drop_id has_prefix_iff)
qed

lemma detectHTTP_methods: "detectHTTP data = list_ex (has_prefix data) http_methods"
proof -
  have G: "has_prefix data ''GET'' \<longleftrightarrow> 3 \<le> length data \<and> data ! 0 = CHR ''G'' \<and> data ! 1 = CHR ''E'' \<and> data ! 2 = CHR ''T''"
    and P: "has_prefix data ''POST'' \<longleftrightarrow> 4 \<le> length data \<and> data ! 0 = CHR ''P'' \<and> data ! 1 = CHR ''O'' \<and>
      data ! 2 = CHR ''S'' \<and> data ! 3 = CHR ''T''"
    and U: "has_prefix data ''PUT'' \<longleftrightarrow> 3 \<le> length data \<and> data ! 0 = CHR ''P'' \<and> data ! 1 = CHR ''U'' \<and> data ! 2 = CHR ''T''"
    and D: "has_prefix data ''DELETE'' \<longleftrightarrow> 6 \<le> length data \<and> data ! 0 = CHR ''D'' \<and> data ! 1 = CHR ''E'' \<and>
      data ! 2 = CHR ''L'' \<and> data ! 3 = CHR ''E'' \<and> data ! 4 = CHR ''T'' \<and> data ! 5 = CHR ''E''"
    and H: "has_prefix data ''HEAD'' \<longleftrightarrow> 4 \<le> length data \<and> data ! 0 = CHR ''H'' \<and> data ! 1 = CHR ''E'' \<and>
      data ! 2 = CHR ''A'' \<and> data ! 3 = CHR ''D''"
    and O: "has_prefix data ''OPTIONS'' \<longleftrightarrow> 7 \<le> length data \<and> data ! 0 = CHR ''O'' \<and> data ! 1 = CHR ''P'' \<and>
      data ! 2 = CHR ''T'' \<and> data ! 3 = CHR ''I'' \<and> data ! 4 = CHR ''O'' \<and> data ! 5 = CHR ''N'' \<and> data ! 6 = CHR ''S''"
    and A: "has_prefix data ''PATCH'' \<longleftrightarrow> 5 \<le> length data \<and> data ! 0 = CHR ''P'' \<and> data ! 1 = CHR ''A'' \<and>
      data ! 2 = CHR ''T'' \<and> data ! 3 = CHR ''C'' \<and> data ! 4 = CHR ''H''"
    and C: "has_prefix data ''CONNECT'' \<longleftrightarrow> 7 \<le> length data \<and> data ! 0 = CHR ''C'' \<and> data ! 1 = CHR ''O'' \<and>
      data ! 2 = CHR ''N'' \<and> data ! 3 = CHR ''N'' \<and> data ! 4 = CHR ''E'' \<and> data ! 5 = CHR ''C'' \<and> data ! 6 = CHR ''T''"
    by (simp_all add: prefix_upt upt_rec numeral_eq_Suc)
  have if_or: "(if a then True else b) = (a \<or> b)" "(if a then False else b) = (\<not> a \<and> b)" for a b by simp_all
  have short: "has_prefix data m \<Longrightarrow> \<not> length data < 3" if "m \<in> set http_methods" for m
    using that by (auto simp: http_methods_def G P U D H O A C)
  have "detectHTTP data = (\<not> length data < 3 \<and> list_ex (has_prefix data) http_methods)"
    unfolding detectHTTP_def if_or http_methods_def list_ex_Cons_iff list_ex_Nil_iff G P U D H O A C simp_thms ..
  then show ?thesis using short by (auto simp: list_ex_iff)
qed

definition tls_record :: "string \<Rightarrow> bool" where
  "tls_record data \<longleftrightarrow> list_ex (\<lambda>v. has_prefix data [CHR 0x16, CHR 0x03, v]) [CHR 0x01, CHR 0x02, CHR 0x03, CHR 0x04]
     \<and> 5 \<le> length data"

text \<open>A SOCKS4 request with a known command, or a SOCKS5 greeting that is complete and offers no
  authentication or a password.\<close>

definition socks_greeting :: "string \<Rightarrow> bool" where
  "socks_greeting data \<longleftrightarrow>
     (7 \<le> length data \<and> (has_prefix data [CHR 0x04, CHR 0x01] \<or> has_prefix data [CHR 0x04, CHR 0x02])) \<or>
     (\<exists>n methods rest. data = CHR 0x05 # n # methods @ rest \<and> length methods = of_char n \<and>
        (CHR 0x00 \<in> set methods \<or> CHR 0x02 \<in> set methods))"

lemma code_char: "of_char c = n \<longleftrightarrow> c = char_of n" if "n < 256" for n :: nat
  using that by auto

lemma char_codes:
  "char_of (0 :: nat) = CHR 0x00" "char_of (1 :: nat) = CHR 0x01" "char_of (2 :: nat) = CHR 0x02"
  "char_of (3 :: nat) = CHR 0x03" "char_of (4 :: nat) = CHR 0x04" "char_of (5 :: nat) = CHR 0x05"
  "char_of (22 :: nat) = CHR 0x16"
  by code_simp+

text \<open>The byte codes the recognisers compare with.\<close>

lemma byte_codes:
  "of_char c = (0 :: nat) \<longleftrightarrow> c = CHR 0x00" "of_char c = (1 :: nat) \<longleftrightarrow> c = CHR 0x01"
  "of_char c = (2 :: nat) \<longleftrightarrow> c = CHR 0x02" "of_char c = (3 :: nat) \<longleftrightarrow> c = CHR 0x03"
  "of_char c = (4 :: nat) \<longleftrightarrow> c = CHR 0x04" "of_char c = (5 :: nat) \<longleftrightarrow> c = CHR 0x05"
  "of_char c = (22 :: nat) \<longleftrightarrow> c = CHR 0x16"
  unfolding char_codes [symmetric] by (rule code_char; simp)+

lemma detectTLS_record: "detectTLS data = tls_record data"
proof -
  have r: "has_prefix data [a, b, v] \<longleftrightarrow> 3 \<le> length data \<and> data ! 0 = a \<and> data ! 1 = b \<and> data ! 2 = v" for a b v
    by (simp add: prefix_upt upt_rec numeral_eq_Suc)
  have "1 \<le> x \<and> x \<le> 4 \<longleftrightarrow> x = 1 \<or> x = 2 \<or> x = 3 \<or> x = 4" for x :: nat by auto
  then have v: "1 \<le> byte_at data 2 \<and> byte_at data 2 \<le> 4 \<longleftrightarrow>
      data ! 2 = CHR 0x01 \<or> data ! 2 = CHR 0x02 \<or> data ! 2 = CHR 0x03 \<or> data ! 2 = CHR 0x04"
    by (simp only: byte_at_def byte_codes)
  have "detectTLS data \<longleftrightarrow> 5 \<le> length data \<and> data ! 0 = CHR 0x16 \<and> data ! 1 = CHR 0x03 \<and>
      (data ! 2 = CHR 0x01 \<or> data ! 2 = CHR 0x02 \<or> data ! 2 = CHR 0x03 \<or> data ! 2 = CHR 0x04)"
    unfolding detectTLS_def v by (simp add: byte_at_def byte_codes not_less)
  moreover have "tls_record data \<longleftrightarrow> 5 \<le> length data \<and> data ! 0 = CHR 0x16 \<and> data ! 1 = CHR 0x03 \<and>
      (data ! 2 = CHR 0x01 \<or> data ! 2 = CHR 0x02 \<or> data ! 2 = CHR 0x03 \<or> data ! 2 = CHR 0x04)"
    unfolding tls_record_def list_ex_Cons_iff list_ex_Nil_iff r by auto
  ultimately show ?thesis by simp
qed

lemma detectSOCKS_greeting: "detectSOCKS data = socks_greeting data"
proof -
  have r: "has_prefix data [a, b] \<longleftrightarrow> 2 \<le> length data \<and> data ! 0 = a \<and> data ! 1 = b" for a b
    by (simp add: prefix_upt upt_rec numeral_eq_Suc)
  have v5: "(\<exists>n methods rest. data = CHR 0x05 # n # methods @ rest \<and> length methods = of_char n \<and>
        (CHR 0x00 \<in> set methods \<or> CHR 0x02 \<in> set methods)) \<longleftrightarrow>
      2 \<le> length data \<and> data ! 0 = CHR 0x05 \<and> 2 + of_char (data ! 1) \<le> length data \<and>
        list_ex (\<lambda>m. m = CHR 0x00 \<or> m = CHR 0x02) (take (of_char (data ! 1)) (drop 2 data))" (is "?l \<longleftrightarrow> ?r")
  proof
    assume ?l
    then obtain n methods rest where d: "data = CHR 0x05 # n # methods @ rest" "length methods = of_char n"
      and m: "CHR 0x00 \<in> set methods \<or> CHR 0x02 \<in> set methods" by blast
    have "drop 2 data = methods @ rest" "data ! 0 = CHR 0x05" "data ! 1 = n" "length data = 2 + of_char n + length rest"
      using d by simp_all
    with m d(2) show ?r by (auto simp: list_ex_iff)
  next
    assume ?r
    then obtain c n tail where d: "data = c # n # tail"
      by (metis One_nat_def Suc_le_length_iff numeral_2_eq_2)
    then have "c = CHR 0x05" using \<open>?r\<close> by simp
    note d = d [unfolded this]
    let ?k = "of_char n :: nat"
    have "data = CHR 0x05 # n # take ?k tail @ drop ?k tail" "length (take ?k tail) = ?k"
      "CHR 0x00 \<in> set (take ?k tail) \<or> CHR 0x02 \<in> set (take ?k tail)"
      using \<open>?r\<close> d by (auto simp: list_ex_iff)
    then show ?l by blast
  qed
  have five: "byte_at data 0 = 5 \<longleftrightarrow> data ! 0 = CHR 0x05" and four: "byte_at data 0 = 4 \<longleftrightarrow> data ! 0 = CHR 0x04"
    by (simp_all only: byte_at_def byte_codes)
  have cmd: "\<not> (byte_at data 1 \<noteq> 1 \<and> byte_at data 1 \<noteq> 2) \<longleftrightarrow> data ! 1 = CHR 0x01 \<or> data ! 1 = CHR 0x02"
    by (simp only: byte_at_def byte_codes) blast
  have methods: "list_ex (\<lambda>m. of_char m = (0 :: nat) \<or> of_char m = (2 :: nat)) ms =
      list_ex (\<lambda>m. m = CHR 0x00 \<or> m = CHR 0x02) ms" for ms
    by (simp only: byte_codes)
  consider "data = []" | "data \<noteq> []" "data ! 0 = CHR 0x04" | "data \<noteq> []" "data ! 0 = CHR 0x05"
    | "data \<noteq> []" "data ! 0 \<noteq> CHR 0x04" "data ! 0 \<noteq> CHR 0x05" by blast
  then show ?thesis
    unfolding socks_greeting_def v5 r detectSOCKS_def five four Let_def cmd methods
    by cases (simp_all add: byte_at_def not_less conj_commute)
qed

text \<open>C40: What a node blocks. A first read of a connection that is not UDP is blocked exactly when a
  switch is on whose protocol it shows: an HTTP method at the start, a TLS record header of
  version 1 to 4, or a SOCKS request or greeting as the reference describes them.\<close>

theorem protocol_block_reference:
  "detectProtocol b network data \<longleftrightarrow> network \<notin> {''udp'', ''udp4'', ''udp6''} \<and>
     (pb_http b = 1 \<and> list_ex (has_prefix data) http_methods \<or> pb_tls b = 1 \<and> tls_record data \<or>
      pb_socks b = 1 \<and> socks_greeting data)"
  by (simp add: detectProtocol_def detectHTTP_methods detectTLS_record detectSOCKS_greeting)

text \<open>Property: The block looks at the first read only. Whatever the switches, a client whose first byte
  arrives alone passes with everything it sends.\<close>

theorem split_request_passes:
  "detect_reads b network False ([c] # rest) = Some (c # concat rest)"
proof -
  have later: "detect_reads b network True rest = Some (concat rest)"
    by (induction rest) (simp_all add: detect_Read_def)
  have "\<not> detectProtocol b network [c]"
    by (simp add: detectProtocol_def detectHTTP_def detectTLS_def detectSOCKS_def)
  then show ?thesis by (simp add: detect_Read_def later)
qed

section \<open>The accept loop and the events\<close>

lemma serve_delay: "fst s \<in> {0, 1, 2, 4, 5} \<Longrightarrow> fst (fold serve_step rs s) \<in> {0, 1, 2, 4, 5}"
proof (induction rs arbitrary: s)
  case (Cons r rs)
  have "fst (serve_step r s) \<in> {0, 1, 2, 4, 5}"
    using Cons.prems by (cases s; cases r) (auto simp: serve_step_def Let_def)
  then show ?case using Cons.IH by simp
qed simp

text \<open>Property: The delay after a failed accept is at most five seconds, and a service that has
  returned is closed.\<close>

theorem serve_delay_bounded:
  "case Serve rs of (tempDelay, state, returned) \<Rightarrow>
     tempDelay \<le> 5 \<and> (returned \<longleftrightarrow> state = StateClosed) \<and> (state = StateReady \<longrightarrow> tempDelay = 0)"
proof -
  have "case fold serve_step rs s of (d, state, returned) \<Rightarrow>
      (returned \<longleftrightarrow> state = StateClosed) \<and> (state = StateReady \<longrightarrow> d = 0)"
    if "case s of (d, state, returned) \<Rightarrow> (returned \<longleftrightarrow> state = StateClosed) \<and> (state = StateReady \<longrightarrow> d = 0)" for s
    using that
  proof (induction rs arbitrary: s)
    case (Cons r rs)
    have "case serve_step r s of (d, state, returned) \<Rightarrow> (returned \<longleftrightarrow> state = StateClosed) \<and> (state = StateReady \<longrightarrow> d = 0)"
      using Cons.prems by (cases s; cases r) (auto simp: serve_step_def Let_def)
    then show ?case using Cons.IH by simp
  qed simp
  from this [of "(0, StateReady, False)"] serve_delay [of "(0, StateReady, False)" rs]
  show ?thesis by (auto simp: Serve_def split: prod.splits)
qed

text \<open>Property: The ring of events holds the last twenty.\<close>

theorem events_are_last: "fold addEvent evs [] = drop (length evs - MaxEventSize) evs"
proof (induction evs rule: rev_induct)
  case (snoc e evs)
  have "fold addEvent (evs @ [e]) [] = addEvent e (drop (length evs - MaxEventSize) evs)"
    by (simp add: snoc)
  also have "\<dots> = drop (length (evs @ [e]) - MaxEventSize) (evs @ [e])"
  proof (cases "length evs < MaxEventSize")
    case True
    then show ?thesis by (simp add: addEvent_def)
  next
    case False
    then have "length evs - MaxEventSize + 1 = Suc (length evs) - MaxEventSize" by simp
    with False show ?thesis by (simp add: addEvent_def add.commute MaxEventSize_def)
  qed
  finally show ?case .
qed simp

end
