(* ===== verification/Rate_Limit.thy ===== *)
theory Rate_Limit
  imports Main
begin

text \<open>
  The rate limit of logins and captchas (go-backend/middleware/rate_limit.go): a window per client
  address. Times are integers of the monotonic clock; the mutex makes each call one step.
\<close>

record ipRecord =
  ir_count :: nat
  ir_resetAt :: int

type_synonym ip_records = "string \<Rightarrow> ipRecord option"

definition newRateLimiter :: ip_records where
  "newRateLimiter = (\<lambda>_. None)"

definition allow_ip :: "nat \<Rightarrow> int \<Rightarrow> int \<Rightarrow> string \<Rightarrow> ip_records \<Rightarrow> bool \<times> ip_records" where
  "allow_ip limit window now ip records =
     (case records ip of
        None \<Rightarrow> (True, records(ip \<mapsto> \<lparr>ir_count = 1, ir_resetAt = now + window\<rparr>))
      | Some rec \<Rightarrow>
          if ir_resetAt rec < now
          then (True, records(ip \<mapsto> \<lparr>ir_count = 1, ir_resetAt = now + window\<rparr>))
          else (let rec' = rec\<lparr>ir_count := Suc (ir_count rec)\<rparr>
                in (ir_count rec' \<le> limit, records(ip \<mapsto> rec'))))"

definition cleanup :: "int \<Rightarrow> ip_records \<Rightarrow> ip_records" where
  "cleanup now records =
     (\<lambda>ip. case records ip of None \<Rightarrow> None | Some rec \<Rightarrow> if ir_resetAt rec < now then None else Some rec)"

datatype limiter_event = Request int string | Cleanup int

fun event_time :: "limiter_event \<Rightarrow> int" where
  "event_time (Request t ip) = t"
| "event_time (Cleanup t) = t"

text \<open>The answers of the middleware to the requests, with the address and the time of each;
  \<open>False\<close> is the status 429.\<close>

fun serve_all :: "nat \<Rightarrow> int \<Rightarrow> limiter_event list \<Rightarrow> ip_records \<Rightarrow> (int \<times> string \<times> bool) list \<times> ip_records" where
  "serve_all limit window [] s = ([], s)"
| "serve_all limit window (Request t ip # es) s =
     (case allow_ip limit window t ip s of
        (b, s1) \<Rightarrow> (case serve_all limit window es s1 of (as, s2) \<Rightarrow> ((t, ip, b) # as, s2)))"
| "serve_all limit window (Cleanup t # es) s = serve_all limit window es (cleanup t s)"

definition accepted :: "string \<Rightarrow> (int \<times> string \<times> bool) list \<Rightarrow> nat" where
  "accepted ip as = length (filter (\<lambda>(t, i, b). i = ip \<and> b) as)"

lemma accepted_simps [simp]:
  "accepted ip [] = 0" "accepted ip ((t, i, b) # as) = (if i = ip \<and> b then Suc (accepted ip as) else accepted ip as)"
  by (simp_all add: accepted_def)

section \<open>At most twice the limit in any window\<close>

text \<open>Once the record lasts to the end of the interval, what is left of the limit is left.\<close>

lemma accepted_within_record:
  "s ip = Some rec \<Longrightarrow> \<forall>e \<in> set es. event_time e \<le> ir_resetAt rec \<Longrightarrow>
   accepted ip (fst (serve_all limit window es s)) \<le> limit - ir_count rec"
proof (induction es arbitrary: s rec)
  case (Cons e es)
  show ?case
  proof (cases e)
    case (Request t i)
    show ?thesis
    proof (cases "i = ip")
      case True
      let ?rec = "rec\<lparr>ir_count := Suc (ir_count rec)\<rparr>"
      have "accepted ip (fst (serve_all limit window es (s(ip \<mapsto> ?rec)))) \<le> limit - ir_count ?rec"
        by (rule Cons.IH) (use Cons.prems in auto)
      with True Request Cons.prems show ?thesis
        by (auto simp: allow_ip_def Let_def split: prod.splits)
    next
      case False
      obtain b s1 where a: "allow_ip limit window t i s = (b, s1)" by fastforce
      then have "s1 ip = Some rec"
        using False Cons.prems(1) by (auto simp: allow_ip_def Let_def split: option.splits if_splits)
      then have "accepted ip (fst (serve_all limit window es s1)) \<le> limit - ir_count rec"
        by (rule Cons.IH) (use Cons.prems in auto)
      with False Request a show ?thesis by (auto split: prod.splits)
    qed
  next
    case (Cleanup t)
    then have "cleanup t s ip = Some rec" using Cons.prems by (auto simp: cleanup_def)
    then have "accepted ip (fst (serve_all limit window es (cleanup t s))) \<le> limit - ir_count rec"
      by (rule Cons.IH) (use Cons.prems in auto)
    with Cleanup show ?thesis by simp
  qed
qed simp

definition left_over :: "nat \<Rightarrow> string \<Rightarrow> ip_records \<Rightarrow> nat" where
  "left_over limit ip s = (case s ip of None \<Rightarrow> 0 | Some rec \<Rightarrow> limit - ir_count rec)"

lemma accepted_interval:
  assumes "0 < limit"
  shows "\<forall>e \<in> set es. t0 \<le> event_time e \<and> event_time e \<le> t0 + window \<Longrightarrow>
    accepted ip (fst (serve_all limit window es s)) \<le> left_over limit ip s + limit"
proof (induction es arbitrary: s)
  case (Cons e es)
  show ?case
  proof (cases e)
    case (Cleanup t)
    have "left_over limit ip (cleanup t s) \<le> left_over limit ip s"
      by (simp add: left_over_def cleanup_def split: option.split)
    moreover have "accepted ip (fst (serve_all limit window es (cleanup t s))) \<le> left_over limit ip (cleanup t s) + limit"
      by (rule Cons.IH) (use Cons.prems in auto)
    ultimately show ?thesis using Cleanup by simp
  next
    case (Request t i)
    obtain b s1 where a: "allow_ip limit window t i s = (b, s1)" by fastforce
    have IH: "accepted ip (fst (serve_all limit window es s1)) \<le> left_over limit ip s1 + limit"
      by (rule Cons.IH) (use Cons.prems in auto)
    have step: "accepted ip (fst (serve_all limit window (e # es) s)) =
        (if i = ip \<and> b then Suc (accepted ip (fst (serve_all limit window es s1)))
         else accepted ip (fst (serve_all limit window es s1)))"
      using Request a by (simp split: prod.splits)
    consider "i \<noteq> ip" | "i = ip" "s ip = None \<or> ir_resetAt (the (s ip)) < t"
      | rec where "i = ip" "s ip = Some rec" "\<not> ir_resetAt rec < t" by (cases "s ip") auto
    then show ?thesis
    proof cases
      case 1
      then have "s1 ip = s ip" using a by (auto simp: allow_ip_def Let_def split: option.splits if_splits)
      then have "left_over limit ip s1 = left_over limit ip s" by (simp add: left_over_def)
      with step IH 1 show ?thesis by simp
    next
      case 2
      let ?rec = "\<lparr>ir_count = 1, ir_resetAt = t + window\<rparr>"
      have s1: "b" "s1 ip = Some ?rec"
        using a 2 by (auto simp: allow_ip_def Let_def split: option.splits if_splits)
      have "accepted ip (fst (serve_all limit window es s1)) \<le> limit - 1"
        using accepted_within_record [of s1 ip ?rec es limit window] s1(2) Cons.prems Request by fastforce
      then have "Suc (accepted ip (fst (serve_all limit window es s1))) \<le> limit" using assms by simp
      with step s1(1) show ?thesis by simp
    next
      case 3
      let ?rec = "rec\<lparr>ir_count := Suc (ir_count rec)\<rparr>"
      have s1: "b = (Suc (ir_count rec) \<le> limit)" "s1 ip = Some ?rec"
        using a 3 by (auto simp: allow_ip_def Let_def)
      have "left_over limit ip s1 = limit - Suc (ir_count rec)" "left_over limit ip s = limit - ir_count rec"
        using s1(2) 3 by (simp_all add: left_over_def)
      with step IH s1(1) show ?thesis by auto
    qed
  qed
qed simp

text \<open>C39: The rate limit. Whatever requests and clean-ups came before, in any interval as long as
  the window at most twice the limit of requests of one address is let through.\<close>

theorem rate_limit_bound:
  assumes "0 < limit" and "list_all (\<lambda>e. t0 \<le> event_time e \<and> event_time e \<le> t0 + window) es"
  shows "accepted ip (fst (serve_all limit window es (snd (serve_all limit window history newRateLimiter)))) \<le> 2 * limit"
proof -
  let ?s = "snd (serve_all limit window history newRateLimiter)"
  have "left_over limit ip ?s \<le> limit" by (simp add: left_over_def split: option.split)
  moreover have "accepted ip (fst (serve_all limit window es ?s)) \<le> left_over limit ip ?s + limit"
    by (rule accepted_interval [OF assms(1)]) (use assms(2) in \<open>simp add: list_all_iff\<close>)
  ultimately show ?thesis by simp
qed

text \<open>With a limit of 2 in a window of 60 that began before the interval, three requests pass in it: one at the
  end of that window and two at the start of the next.\<close>

theorem rate_limit_bound_witness:
  "accepted ''1.2.3.4'' (fst (serve_all 2 60 [Request 50 ''1.2.3.4'', Request 61 ''1.2.3.4'', Request 62 ''1.2.3.4'', Request 63 ''1.2.3.4'']
     (snd (serve_all 2 60 [Request 0 ''1.2.3.4''] newRateLimiter)))) \<le> 4 \<and>
   accepted ''1.2.3.4'' (fst (serve_all 2 60 [Request 50 ''1.2.3.4'', Request 61 ''1.2.3.4'', Request 62 ''1.2.3.4'', Request 63 ''1.2.3.4'']
     (snd (serve_all 2 60 [Request 0 ''1.2.3.4''] newRateLimiter)))) = 3"
  using rate_limit_bound [of 2 50 60 "[Request 50 ''1.2.3.4'', Request 61 ''1.2.3.4'', Request 62 ''1.2.3.4'', Request 63 ''1.2.3.4'']"
      "''1.2.3.4''" "[Request 0 ''1.2.3.4'']"]
  by (simp add: allow_ip_def newRateLimiter_def)

section \<open>Clean-up is not seen\<close>

text \<open>At time \<open>t\<close> and later an expired record is as good as none.\<close>

definition same_at :: "int \<Rightarrow> ip_records \<Rightarrow> ip_records \<Rightarrow> bool" where
  "same_at t s s' \<longleftrightarrow> (\<forall>ip. s ip = s' ip \<or>
     (\<forall>rec. s ip = Some rec \<longrightarrow> ir_resetAt rec < t) \<and> (\<forall>rec. s' ip = Some rec \<longrightarrow> ir_resetAt rec < t))"

lemma same_allow:
  assumes "same_at t s s'" and "allow_ip limit window t ip s = (b, s1)" and "allow_ip limit window t ip s' = (b', s1')"
  shows "b' = b \<and> same_at t s1 s1'"
proof -
  have "s ip = s' ip \<or> (\<forall>rec. s ip = Some rec \<longrightarrow> ir_resetAt rec < t) \<and> (\<forall>rec. s' ip = Some rec \<longrightarrow> ir_resetAt rec < t)"
    using assms(1) by (simp add: same_at_def)
  then have "b' = b \<and> s1 ip = s1' ip"
    using assms(2,3) by (auto simp: allow_ip_def Let_def split: option.splits if_splits)
  moreover have "s1 i = s i" "s1' i = s' i" if "i \<noteq> ip" for i
    using assms(2,3) that by (auto simp: allow_ip_def Let_def split: option.splits if_splits)
  ultimately show ?thesis using assms(1) unfolding same_at_def by metis
qed

fun without_cleanups :: "limiter_event list \<Rightarrow> limiter_event list" where
  "without_cleanups [] = []"
| "without_cleanups (Request t ip # es) = Request t ip # without_cleanups es"
| "without_cleanups (Cleanup t # es) = without_cleanups es"

lemma same_later: "same_at t s s' \<Longrightarrow> t \<le> t' \<Longrightarrow> same_at t' s s'"
  unfolding same_at_def by (meson less_le_trans)

lemma serve_same:
  "sorted (map event_time es) \<Longrightarrow> same_at t s s' \<Longrightarrow> \<forall>e \<in> set es. t \<le> event_time e \<Longrightarrow>
   fst (serve_all limit window es s) = fst (serve_all limit window (without_cleanups es) s')"
proof (induction es arbitrary: t s s')
  case (Cons e es)
  have rest: "sorted (map event_time es)" "\<forall>x \<in> set es. event_time e \<le> event_time x" using Cons.prems(1) by auto
  have now: "same_at (event_time e) s s'" using Cons.prems by (auto intro: same_later)
  show ?case
  proof (cases e)
    case (Request u ip)
    obtain b s1 b' s1' where a: "allow_ip limit window u ip s = (b, s1)" "allow_ip limit window u ip s' = (b', s1')"
      by fastforce
    have eq: "b' = b" "same_at u s1 s1'"
      using same_allow [OF _ a] now Request by simp_all
    have IH: "fst (serve_all limit window es s1) = fst (serve_all limit window (without_cleanups es) s1')"
      by (rule Cons.IH [OF rest(1) eq(2)]) (use rest(2) Request in simp)
    show ?thesis using IH Request a eq(1) by (simp add: case_prod_beta)
  next
    case (Cleanup u)
    have "cleanup u s ip = s ip \<or> cleanup u s ip = None \<and> (\<forall>rec. s ip = Some rec \<longrightarrow> ir_resetAt rec < u)" for ip
      by (simp add: cleanup_def split: option.split)
    moreover have "s ip = s' ip \<or> (\<forall>rec. s ip = Some rec \<longrightarrow> ir_resetAt rec < u) \<and> (\<forall>rec. s' ip = Some rec \<longrightarrow> ir_resetAt rec < u)" for ip
      using now Cleanup by (simp add: same_at_def)
    ultimately have "same_at u (cleanup u s) s'"
      unfolding same_at_def by (smt (verit) option.distinct(1))
    with Cons.IH [OF rest(1), of u "cleanup u s" s'] rest(2) Cleanup show ?thesis by simp
  qed
qed simp

text \<open>Property: Clean-up only frees memory: with a clock that does not go back, the answers to all
  requests are those of a limiter that is never cleaned.\<close>

theorem cleanup_unobservable:
  assumes "sorted (map event_time es)"
  shows "fst (serve_all limit window es newRateLimiter) = fst (serve_all limit window (without_cleanups es) newRateLimiter)"
proof (cases es)
  case (Cons e rest)
  show ?thesis
    by (rule serve_same [of _ "event_time e"]) (use assms Cons in \<open>auto simp: same_at_def\<close>)
qed simp

theorem cleanup_unobservable_witness:
  "fst (serve_all 1 60 [Request 0 ''a'', Request 1 ''a'', Cleanup 30, Request 40 ''a'', Cleanup 61, Request 62 ''a''] newRateLimiter) =
     [(0, ''a'', True), (1, ''a'', False), (40, ''a'', False), (62, ''a'', True)]"
  by (subst cleanup_unobservable) (simp_all add: allow_ip_def newRateLimiter_def)

end
