(* ===== verification/Panel_Token.thy ===== *)
theory Panel_Token
  imports Go_Text Panel_Data
begin

text \<open>
  The tokens of a login (go-backend/pkg/jwt.go) and the middlewares that read them
  (middleware/jwt.go, role.go). Base64 is written out as Go's \<open>RawURLEncoding\<close> has it; HMAC-SHA256
  and JSON are parameters, a JSON object a list of claims. Times are Unix seconds.
\<close>

section \<open>Base64\<close>

definition b64_char :: "nat \<Rightarrow> char" where
  "b64_char i =
     (if i < 26 then char_of (65 + i)
      else if i < 52 then char_of (71 + i)
      else if i < 62 then char_of (i - 4)
      else if i = 62 then CHR ''-'' else CHR ''_'')"

definition b64_val :: "char \<Rightarrow> nat option" where
  "b64_val c =
     (let n = of_char c
      in if 65 \<le> n \<and> n \<le> 90 then Some (n - 65)
         else if 97 \<le> n \<and> n \<le> 122 then Some (n - 71)
         else if 48 \<le> n \<and> n \<le> 57 then Some (n + 4)
         else if c = CHR ''-'' then Some 62
         else if c = CHR ''_'' then Some 63 else None)"

fun b64_encode :: "string \<Rightarrow> string" where
  "b64_encode [] = []"
| "b64_encode [a] =
     (let n = of_char a in [b64_char (n div 4), b64_char (n mod 4 * 16)])"
| "b64_encode [a, b] =
     (let n = of_char a; m = of_char b
      in [b64_char (n div 4), b64_char (n mod 4 * 16 + m div 16), b64_char (m mod 16 * 4)])"
| "b64_encode (a # b # c # rest) =
     (let n = of_char a; m = of_char b; k = of_char c
      in b64_char (n div 4) # b64_char (n mod 4 * 16 + m div 16) # b64_char (m mod 16 * 4 + k div 64)
         # b64_char (k mod 64) # b64_encode rest)"

fun b64_groups :: "nat list \<Rightarrow> string option" where
  "b64_groups [] = Some []"
| "b64_groups [p] = None"
| "b64_groups [p, q] = Some [char_of (p * 4 + q div 16)]"
| "b64_groups [p, q, r] = Some [char_of (p * 4 + q div 16), char_of (q mod 16 * 16 + r div 4)]"
| "b64_groups (p # q # r # s # rest) =
     map_option (\<lambda>t. char_of (p * 4 + q div 16) # char_of (q mod 16 * 16 + r div 4) # char_of (r mod 4 * 64 + s) # t)
       (b64_groups rest)"

fun all_some :: "'a option list \<Rightarrow> 'a list option" where
  "all_some [] = Some []"
| "all_some (None # xs) = None"
| "all_some (Some x # xs) = map_option ((#) x) (all_some xs)"

text \<open>\<open>DecodeString\<close> skips line breaks.\<close>

definition b64_decode :: "string \<Rightarrow> string option" where
  "b64_decode s =
     Option.bind (all_some (map b64_val (filter (\<lambda>c. of_char c \<noteq> (10 :: nat) \<and> of_char c \<noteq> (13 :: nat)) s))) b64_groups"

section \<open>Tokens\<close>

datatype claim = Num rat | Str string | Other

type_synonym claims = "(string \<times> claim) list"

record token_libs =
  hmac_sha256 :: "string \<Rightarrow> string \<Rightarrow> string"
  json_marshal :: "claims \<Rightarrow> string"
  json_unmarshal :: "string \<Rightarrow> claims option"
  jwt_secret :: string

definition expireDuration :: int where
  "expireDuration = 7 * 24 * 3600"

definition token_header :: claims where
  "token_header = [(''alg'', Str ''HmacSHA256''), (''typ'', Str ''JWT'')]"

definition token_payload :: "int \<Rightarrow> User \<Rightarrow> claims" where
  "token_payload now user =
     [(''sub'', Str (itoa (u_ID user))), (''iat'', Num (of_int now)), (''exp'', Num (of_int (now + expireDuration))),
      (''user'', Str (u_User user)), (''name'', Str (u_User user)), (''role_id'', Num (of_int (u_RoleId user)))]"

definition calcSignature :: "token_libs \<Rightarrow> string \<Rightarrow> string \<Rightarrow> string" where
  "calcSignature l header payload = b64_encode (hmac_sha256 l (jwt_secret l) (header @ ''.'' @ payload))"

definition GenerateToken :: "token_libs \<Rightarrow> int \<Rightarrow> User \<Rightarrow> string" where
  "GenerateToken l now user =
     (let encodedHeader = b64_encode (json_marshal l token_header);
          encodedPayload = b64_encode (json_marshal l (token_payload now user));
          signature = calcSignature l encodedHeader encodedPayload
      in encodedHeader @ ''.'' @ encodedPayload @ ''.'' @ signature)"

definition decodePayload :: "token_libs \<Rightarrow> string \<Rightarrow> claims option" where
  "decodePayload l encoded = Option.bind (b64_decode encoded) (json_unmarshal l)"

text \<open>The conversion of a \<open>float64\<close> to an integer drops the fraction.\<close>

definition trunc :: "rat \<Rightarrow> int" where
  "trunc x = (if x < 0 then - \<lfloor>- x\<rfloor> else \<lfloor>x\<rfloor>)"

definition ValidateToken :: "token_libs \<Rightarrow> int \<Rightarrow> string \<Rightarrow> bool" where
  "ValidateToken l now token =
     (case split_on (CHR ''.'') token of
        [header, payload, signature] \<Rightarrow>
          (if calcSignature l header payload \<noteq> signature then False
           else case decodePayload l payload of
             None \<Rightarrow> False
           | Some p \<Rightarrow> (case map_of p ''exp'' of Some (Num until) \<Rightarrow> trunc until > now | _ \<Rightarrow> False))
      | _ \<Rightarrow> False)"

definition parsePayload :: "token_libs \<Rightarrow> string \<Rightarrow> claims option" where
  "parsePayload l token =
     (case split_on (CHR ''.'') token of [_, payload, _] \<Rightarrow> decodePayload l payload | _ \<Rightarrow> None)"

text \<open>\<open>strToInt64\<close>: a JSON number without fraction or exponent, or \<open>null\<close>, which leaves 0.\<close>

definition json_digits :: "string \<Rightarrow> bool" where
  "json_digits s \<longleftrightarrow> s = ''0'' \<or> (s \<noteq> [] \<and> list_all is_digit s \<and> hd s \<noteq> CHR ''0'')"

definition json_trim :: "string \<Rightarrow> string" where
  "json_trim s =
     (let space = (\<lambda>c. of_char c \<in> {9 :: nat, 10, 13, 32}) in rev (dropWhile space (rev (dropWhile space s))))"

definition strToInt64 :: "string \<Rightarrow> int option" where
  "strToInt64 s =
     (let t = json_trim s
      in if t = ''null'' then Some 0
         else if json_digits (if has_prefix t ''-'' then tl t else t) then parse_int t else None)"

definition GetUserIdFromToken :: "token_libs \<Rightarrow> string \<Rightarrow> int option" where
  "GetUserIdFromToken l token =
     (case parsePayload l token of
        None \<Rightarrow> None
      | Some p \<Rightarrow> (case map_of p ''sub'' of Some (Str sub) \<Rightarrow> strToInt64 sub | _ \<Rightarrow> None))"

definition GetRoleIdFromToken :: "token_libs \<Rightarrow> string \<Rightarrow> int option" where
  "GetRoleIdFromToken l token =
     (case parsePayload l token of
        None \<Rightarrow> None
      | Some p \<Rightarrow> (case map_of p ''role_id'' of Some (Num r) \<Rightarrow> Some (trunc r) | _ \<Rightarrow> None))"

definition GetNameFromToken :: "token_libs \<Rightarrow> string \<Rightarrow> string option" where
  "GetNameFromToken l token =
     (case parsePayload l token of
        None \<Rightarrow> None
      | Some p \<Rightarrow> (case map_of p ''name'' of Some (Str n) \<Rightarrow> Some n | _ \<Rightarrow> None))"

section \<open>The middlewares\<close>

record identity =
  id_userId :: int
  id_roleId :: int
  id_userName :: string

datatype jwt_refusal = NotLoggedIn | TokenInvalid | TokenUnreadable

text \<open>The errors of the role and the name are dropped, which leaves 0 and the empty name.\<close>

definition JWT :: "token_libs \<Rightarrow> int \<Rightarrow> string \<Rightarrow> jwt_refusal + identity" where
  "JWT l now token =
     (if token = [] then Inl NotLoggedIn
      else if \<not> ValidateToken l now token then Inl TokenInvalid
      else case GetUserIdFromToken l token of
        None \<Rightarrow> Inl TokenUnreadable
      | Some userId \<Rightarrow>
          Inr \<lparr>id_userId = userId,
               id_roleId = (case GetRoleIdFromToken l token of None \<Rightarrow> 0 | Some r \<Rightarrow> r),
               id_userName = (case GetNameFromToken l token of None \<Rightarrow> [] | Some n \<Rightarrow> n)\<rparr>)"

text \<open>\<open>Admin\<close>: whether the request goes on.\<close>

definition Admin :: "identity option \<Rightarrow> bool" where
  "Admin i = (case i of None \<Rightarrow> False | Some x \<Rightarrow> id_roleId x = 0)"

end
