(* ===== verification/Panel_Token_Props.thy ===== *)
theory Panel_Token_Props
  imports Panel_Token
begin

text \<open>
  A token is accepted for seven days and carries the account it was made from; what is accepted was
  signed with the panel's secret.
\<close>

section \<open>Base64 is read back\<close>

lemma b64_char_code:
  assumes "i < 64"
  shows "of_char (b64_char i) =
    (if i < 26 then 65 + i else if i < 52 then 71 + i else if i < 62 then i - 4 else if i = 62 then 45 else 95 :: nat)"
  using assms by (simp add: b64_char_def)

lemma b64_val_char: "i < 64 \<Longrightarrow> b64_val (b64_char i) = Some i"
proof -
  assume i: "i < 64"
  consider "i < 26" | "26 \<le> i" "i < 52" | "52 \<le> i" "i < 62" | "i = 62" | "i = 63" using i by linarith
  then show ?thesis
    by cases (auto simp: b64_val_def b64_char_def Let_def)
qed

lemma b64_char_plain: "i < 64 \<Longrightarrow> b64_char i \<noteq> CHR ''.'' \<and> of_char (b64_char i) \<noteq> (10 :: nat) \<and> of_char (b64_char i) \<noteq> (13 :: nat)"
proof -
  assume i: "i < 64"
  have "of_char (b64_char i) \<noteq> (46 :: nat) \<and> of_char (b64_char i) \<noteq> (10 :: nat) \<and> of_char (b64_char i) \<noteq> (13 :: nat)"
    unfolding b64_char_code [OF i] by auto
  then show ?thesis by auto
qed

text \<open>The six-bit groups of a text.\<close>

fun sextets :: "string \<Rightarrow> nat list" where
  "sextets [] = []"
| "sextets [a] = [of_char a div 4, of_char a mod 4 * 16]"
| "sextets [a, b] = [of_char a div 4, of_char a mod 4 * 16 + of_char b div 16, of_char b mod 16 * 4]"
| "sextets (a # b # c # rest) =
     (of_char a div 4) # (of_char a mod 4 * 16 + of_char b div 16) # (of_char b mod 16 * 4 + of_char c div 64)
     # (of_char c mod 64) # sextets rest"

lemma encode_sextets: "b64_encode s = map b64_char (sextets s)"
  by (induction s rule: sextets.induct) (simp_all add: Let_def)

lemma group_bounds:
  assumes "n < 256" and "m < 256" and "k < 256"
  shows "n div 4 < 64" "n mod 4 * 16 < 64" "n mod 4 * 16 + m div 16 < 64" "m mod 16 * 4 < 64"
    "m mod 16 * 4 + k div 64 < 64" "k mod 64 < (64 :: nat)"
  using assms by (auto simp: less_mult_imp_div_less)

lemma sextets_lt: "i \<in> set (sextets s) \<Longrightarrow> i < 64"
proof (induction s rule: sextets.induct)
  case (4 a b c rest)
  then show ?case
    using group_bounds [OF nat_of_char_less_256 [of a] nat_of_char_less_256 [of b] nat_of_char_less_256 [of c]]
    by auto
next
  case (3 a b)
  then show ?case
    using group_bounds [OF nat_of_char_less_256 [of a] nat_of_char_less_256 [of b] nat_of_char_less_256 [of b]] by auto
next
  case (2 a)
  then show ?case
    using group_bounds [OF nat_of_char_less_256 [of a] nat_of_char_less_256 [of a] nat_of_char_less_256 [of a]] by auto
qed simp

lemma regroup:
  "n div 4 * 4 + (n mod 4 * 16 + m div 16) div 16 = n" if "m < 256" for n m :: nat
proof -
  have "m div 16 < 16" using that by (simp add: less_mult_imp_div_less)
  then have "(n mod 4 * 16 + m div 16) div 16 = n mod 4" by simp
  then show ?thesis by simp
qed

lemma regroup2:
  "(x * 16 + m div 16) mod 16 * 16 + (m mod 16 * 4 + k div 64) div 4 = m" if "m < 256" "k < 256" for x m k :: nat
proof -
  have "m div 16 < 16" "k div 64 < 4" using that by (simp_all add: less_mult_imp_div_less)
  then have "(x * 16 + m div 16) mod 16 = m div 16" "(m mod 16 * 4 + k div 64) div 4 = m mod 16" by simp_all
  then show ?thesis by simp
qed

lemma regroup3: "(x * 4 + k div 64) mod 4 * 64 + k mod 64 = k" if "k < 256" for x k :: nat
proof -
  have "k div 64 < 4" using that by (simp add: less_mult_imp_div_less)
  then have "(x * 4 + k div 64) mod 4 = k div 64" by simp
  then show ?thesis by simp
qed

lemma groups_sextets: "b64_groups (sextets s) = Some s"
proof (induction s rule: sextets.induct)
  case (4 a b c rest)
  have "of_char b < (256 :: nat)" "of_char c < (256 :: nat)" by (rule nat_of_char_less_256)+
  then show ?case
    by (simp only: sextets.simps b64_groups.simps 4 regroup regroup2 regroup3 option.map char_of_char)
next
  case (3 a b)
  have "of_char b < (256 :: nat)" by (rule nat_of_char_less_256)
  moreover from this have "(of_char a mod 4 * 16 + of_char b div 16) mod 16 * 16 + of_char b mod 16 * 4 div 4 = (of_char b :: nat)"
    using regroup2 [of "of_char b" 0 "of_char a mod 4"] by simp
  ultimately show ?case by (simp only: sextets.simps b64_groups.simps regroup char_of_char)
qed simp_all

lemma all_some_map: "(\<And>x. x \<in> set xs \<Longrightarrow> f x = Some (g x)) \<Longrightarrow> all_some (map f xs) = Some (map g xs)"
  by (induction xs) auto

lemma encode_plain: "c \<in> set (b64_encode s) \<Longrightarrow> c \<noteq> CHR ''.'' \<and> of_char c \<noteq> (10 :: nat) \<and> of_char c \<noteq> (13 :: nat)"
  using b64_char_plain sextets_lt unfolding encode_sextets by fastforce

lemma b64_decode_encode: "b64_decode (b64_encode s) = Some s"
proof -
  have "filter (\<lambda>c. of_char c \<noteq> (10 :: nat) \<and> of_char c \<noteq> (13 :: nat)) (b64_encode s) = b64_encode s"
    using encode_plain by (intro filter_True) blast
  moreover have "all_some (map b64_val (b64_encode s)) = Some (sextets s)"
  proof -
    have "map b64_val (b64_encode s) = map Some (sextets s)"
      using b64_val_char sextets_lt by (simp add: encode_sextets)
    then show ?thesis using all_some_map [of "sextets s" Some "\<lambda>x. x"] by simp
  qed
  ultimately show ?thesis by (simp add: b64_decode_def groups_sextets)
qed

section \<open>Account numbers in JSON\<close>

lemma digit_zero:
  assumes "n < 10"
  shows "digit n = CHR ''0'' \<longleftrightarrow> n = 0"
proof -
  have "of_char (digit n) = (of_char (CHR ''0'') :: nat) \<longleftrightarrow> n = 0"
    unfolding of_char_digit [OF assms] by simp
  then show ?thesis by (metis of_char_eq_iff)
qed

lemma hd_dec_zero: "0 < n \<Longrightarrow> hd (dec n) \<noteq> CHR ''0''"
proof (induction n rule: dec.induct)
  case (1 n)
  then show ?case by (cases "n < 10") (simp_all add: dec.simps [of n] digit_zero hd_append div_greater_zero_iff)
qed

lemma dec_json: "json_digits (dec n)"
proof (cases "n = 0")
  case True
  then show ?thesis by (simp add: json_digits_def dec.simps digit_zero)
next
  case False
  then show ?thesis using hd_dec_zero [of n] dec_digits by (auto simp: json_digits_def list_all_iff)
qed

lemma strToInt64_itoa:
  assumes "- (2 ^ 63) \<le> x" and "x < 2 ^ 63"
  shows "strToInt64 (itoa x) = Some x"
proof -
  have c: "of_char c \<notin> {9 :: nat, 10, 13, 32} \<and> c \<noteq> CHR ''n''" if "c \<in> set (itoa x)" for c
    using itoa_chars [OF that] by (auto simp: is_digit_def)
  have t: "json_trim (itoa x) = itoa x"
  proof -
    define space where "space = (\<lambda>c. of_char c \<in> {9 :: nat, 10, 13, 32})"
    have "dropWhile space xs = xs" if "set xs = set (itoa x)" for xs
      using that c by (cases xs) (auto simp: space_def)
    then show ?thesis by (simp add: json_trim_def Let_def flip: space_def del: insert_iff)
  qed
  have "itoa x \<noteq> ''null''" using c [of "CHR ''n''"] by (metis list.set_intros(1))
  moreover have "json_digits (if has_prefix (itoa x) ''-'' then tl (itoa x) else itoa x)"
  proof (cases "x < 0")
    case True
    then show ?thesis by (simp add: itoa_def dec_json)
  next
    case False
    then have "\<not> has_prefix (itoa x) ''-''"
      using hd_dec_digit [of "nat x"] by (cases "dec (nat x)") (auto simp: itoa_def)
    with False show ?thesis by (simp add: itoa_def dec_json)
  qed
  ultimately show ?thesis
    using parse_int_itoa [OF assms] by (simp only: strToInt64_def Let_def t if_False if_True)
qed

section \<open>Tokens\<close>

lemma split_token:
  "split_on (CHR ''.'') (b64_encode h @ CHR ''.'' # b64_encode p @ CHR ''.'' # b64_encode g) =
     [b64_encode h, b64_encode p, b64_encode g]"
proof -
  have "CHR ''.'' \<notin> set (b64_encode s)" for s using encode_plain by blast
  then show ?thesis by (simp add: split_on_sep split_on_no_sep)
qed

lemma trunc_int [simp]: "trunc (of_int n) = n"
  by (simp add: trunc_def)

lemma trunc_add [simp]: "trunc (of_int n + numeral k) = n + numeral k"
  using trunc_int [of "n + numeral k"] by simp

lemma parse_generated:
  assumes "json_unmarshal l (json_marshal l (token_payload now u)) = Some (token_payload now u)"
  shows "parsePayload l (GenerateToken l now u) = Some (token_payload now u)"
  using assms by (simp add: parsePayload_def GenerateToken_def calcSignature_def Let_def split_token
      decodePayload_def b64_decode_encode)

text \<open>C38: A token carries its account for seven days. The middleware accepts what a login generated
  exactly until it expires, and hands the request on with the number, the role and the name of
  the account, whatever the secret and the signature function, if JSON reads the payload back.\<close>

theorem token_roundtrip:
  assumes "json_unmarshal l (json_marshal l (token_payload now u)) = Some (token_payload now u)"
    and "- (2 ^ 63) \<le> u_ID u" and "u_ID u < 2 ^ 63"
  shows "JWT l t (GenerateToken l now u) =
    (if t < now + 604800 then Inr \<lparr>id_userId = u_ID u, id_roleId = u_RoleId u, id_userName = u_User u\<rparr>
     else Inl TokenInvalid)"
proof -
  note p = parse_generated [OF assms(1)]
  have "ValidateToken l t (GenerateToken l now u) \<longleftrightarrow> t < now + 604800"
    using assms(1)
    by (simp add: ValidateToken_def GenerateToken_def calcSignature_def Let_def split_token decodePayload_def
        b64_decode_encode, simp add: token_payload_def expireDuration_def)
  moreover have "GetUserIdFromToken l (GenerateToken l now u) = Some (u_ID u)"
    using strToInt64_itoa [OF assms(2,3)] by (simp add: GetUserIdFromToken_def p, simp add: token_payload_def)
  moreover have "GetRoleIdFromToken l (GenerateToken l now u) = Some (u_RoleId u)"
    by (simp add: GetRoleIdFromToken_def p, simp add: token_payload_def)
  moreover have "GetNameFromToken l (GenerateToken l now u) = Some (u_User u)"
    by (simp add: GetNameFromToken_def p, simp add: token_payload_def)
  moreover have "GenerateToken l now u \<noteq> []" by (simp add: GenerateToken_def Let_def)
  ultimately show ?thesis by (simp add: JWT_def)
qed

text \<open>Property: Nothing is accepted that was not signed: the third part of an accepted token is the
  signature of the first two under the panel's secret.\<close>

theorem accepted_is_signed:
  assumes "JWT l t token = Inr i"
  shows "\<exists>h p. split_on (CHR ''.'') token = [h, p, calcSignature l h p]"
  using assms by (auto simp: JWT_def ValidateToken_def split: if_splits list.splits)

text \<open>A library whose JSON is one text per payload.\<close>

definition demo_libs :: "claims \<Rightarrow> token_libs" where
  "demo_libs p = \<lparr>hmac_sha256 = (\<lambda>k c. k @ c), json_marshal = (\<lambda>q. if q = p then ''payload'' else ''header''),
     json_unmarshal = (\<lambda>s. if s = ''payload'' then Some p else None), jwt_secret = ''secret''\<rparr>"

definition demo_account :: User where
  "demo_account = \<lparr>u_ID = 7, u_User = ''bob'', u_RoleId = 1, u_ExpTime = 0, u_Flow = 0, u_InFlow = 0, u_OutFlow = 0,
     u_XrayFlow = 0, u_XrayInFlow = 0, u_XrayOutFlow = 0, u_FlowResetType = 0, u_FlowResetDay = 0, u_Num = 0,
     u_GostEnabled = 1, u_XrayEnabled = 1, u_Status = 1, u_Pwd = [], u_CreatedTime = 0, u_UpdatedTime = 0\<rparr>"

theorem token_roundtrip_witness:
  "JWT (demo_libs (token_payload 1000 demo_account)) 605000 (GenerateToken (demo_libs (token_payload 1000 demo_account)) 1000 demo_account) =
     Inr \<lparr>id_userId = 7, id_roleId = 1, id_userName = ''bob''\<rparr> \<and>
   JWT (demo_libs (token_payload 1000 demo_account)) 606000 (GenerateToken (demo_libs (token_payload 1000 demo_account)) 1000 demo_account) =
     Inl TokenInvalid"
  using token_roundtrip [of "demo_libs (token_payload 1000 demo_account)" 1000 demo_account 605000]
    token_roundtrip [of "demo_libs (token_payload 1000 demo_account)" 1000 demo_account 606000]
  by (simp add: demo_libs_def, simp add: demo_account_def)

end
