(* ===== verification/Panel_Session.thy ===== *)
theory Panel_Session
  imports Startup Panel_Token "HOL-Library.Word"
begin

text \<open>
  The sessions of nodes and administrators (go-backend/pkg/ws.go): the handshake, the sorting of
  messages, and the two protocols behind the function \<open>SendMsg\<close> of \<open>Panel_World\<close> - who holds the
  session of a node, and which answer goes to which request - as step relations over the atomic
  operations of the maps. JSON, AES and \<open>url.Parse\<close> are parameters.
\<close>

section \<open>The handshake\<close>

record ws_request =
  wq_id :: string
  wq_type :: string
  wq_secret :: string
  wq_subprotocols :: "string list"

datatype handshake = Unauthorized | InvalidNodeId | Node_session int | Admin_session "string option"

text \<open>\<open>HandleConnection\<close> up to the upgrade; an administrator is answered with the subprotocol that
  carried the token.\<close>

definition handshake_of :: "'n env \<Rightarrow> token_libs \<Rightarrow> int \<Rightarrow> db \<Rightarrow> ws_request \<Rightarrow> handshake" where
  "handshake_of e l t d q =
     (if wq_type q = ''1'' then
        (if wq_secret q = [] then Unauthorized
         else case (if wq_id q = [] then Some 0 else parse_int (wq_id q)) of
           None \<Rightarrow> InvalidNodeId
         | Some reqNodeId \<Rightarrow>
             (let resolved = ValidateNodeSecret e d reqNodeId (wq_secret q)
              in if resolved = 0 then Unauthorized else Node_session resolved))
      else
        (let selected = find (ValidateToken l t) (wq_subprotocols q);
             token = (case selected of None \<Rightarrow> wq_secret q | Some sp \<Rightarrow> if sp = [] then wq_secret q else sp)
         in if \<not> ValidateToken l t token then Unauthorized
            else Admin_session (case selected of None \<Rightarrow> None | Some sp \<Rightarrow> if sp = [] then None else Some sp)))"

text \<open>\<open>CheckOrigin\<close>: the allowed origins, the header, the host of the request.\<close>

definition CheckOrigin :: "(string \<Rightarrow> string option) \<Rightarrow> string list \<Rightarrow> string \<Rightarrow> string \<Rightarrow> bool" where
  "CheckOrigin url_host allowed origin host =
     (allowed = [] \<or> origin = [] \<or> origin \<in> set allowed \<or> url_host origin = Some host)"

section \<open>Messages of a node\<close>

definition containsSubstring :: "string \<Rightarrow> string \<Rightarrow> bool" where
  "containsSubstring s sub \<longleftrightarrow>
     list_ex (\<lambda>i. take (length sub) (drop i s) = sub) [0..<Suc (length s) - length sub]"

definition containsStr :: "string \<Rightarrow> string \<Rightarrow> bool" where
  "containsStr s substr \<longleftrightarrow>
     length substr \<le> length s \<and> (s = substr \<or> 0 < length s \<and> containsSubstring s substr)"

text \<open>The parsers of the wrapper (\<open>encrypted\<close> and \<open>data\<close>) and of an answer (\<open>requestId\<close> and the
  rest), and the cipher of a secret.\<close>

record ws_libs =
  parse_wrapper :: "string \<Rightarrow> (bool \<times> string) option"
  parse_response :: "string \<Rightarrow> (string \<times> GostResponse) option"
  ws_decrypt :: "string \<Rightarrow> string \<Rightarrow> string option"

definition decryptIfNeeded :: "ws_libs \<Rightarrow> string \<Rightarrow> string \<Rightarrow> string" where
  "decryptIfNeeded l payload secret =
     (if secret = [] then payload
      else case parse_wrapper l payload of
        None \<Rightarrow> payload
      | Some (encrypted, data) \<Rightarrow>
          if \<not> encrypted \<or> data = [] then payload
          else case ws_decrypt l secret data of None \<Rightarrow> payload | Some plain \<Rightarrow> plain)"

datatype node_message = System_info string | Answer string GostResponse | Ignored | Broadcast string

text \<open>How \<open>readNodeMessages\<close> sorts a message; an empty text of an answer becomes \<open>OK\<close>.\<close>

definition sort_message :: "ws_libs \<Rightarrow> string \<Rightarrow> node_message" where
  "sort_message l decrypted =
     (if containsStr decrypted ''memory_usage'' then System_info decrypted
      else if containsStr decrypted ''requestId'' then
        (case parse_response l decrypted of
           None \<Rightarrow> Ignored
         | Some (rid, r) \<Rightarrow>
             if rid = [] then Ignored
             else Answer rid (if g_Msg r = [] then r\<lparr>g_Msg := ''OK''\<rparr> else r))
      else Broadcast decrypted)"

section \<open>Who holds the session of a node\<close>

text \<open>Where the goroutines of one connection are: the handler of the request up to \<open>Stored\<close>, then
  the reader, whose deferred clean-up follows \<open>Failed\<close>.\<close>

datatype conn_pc =
    Upgraded | Closed_old | Stored | Reading | Failed | Checked | Deleted | Info_deleted | Last | Gone

record 'n ws_state =
  ws_sessions :: "int \<Rightarrow> nat option"
  ws_info :: "int \<Rightarrow> string option"
  ws_open :: "nat \<Rightarrow> bool"
  ws_pc :: "nat \<Rightarrow> (int \<times> conn_pc) option"
  ws_world :: "'n world"

definition busy_pc :: "conn_pc \<Rightarrow> bool" where
  "busy_pc p \<longleftrightarrow> p \<in> {Closed_old, Stored, Checked, Deleted, Info_deleted}"

text \<open>No other connection of the node is between the first and the last operation of its connect or
  its clean-up.\<close>

definition alone :: "int \<Rightarrow> nat \<Rightarrow> 'n ws_state \<Rightarrow> bool" where
  "alone nodeId c s \<longleftrightarrow> (\<forall>c' p. ws_pc s c' = Some (nodeId, p) \<longrightarrow> c' = c \<or> \<not> busy_pc p)"

definition goto :: "nat \<Rightarrow> int \<Rightarrow> conn_pc \<Rightarrow> 'n ws_state \<Rightarrow> 'n ws_state" where
  "goto c nodeId p s = s\<lparr>ws_pc := (ws_pc s)(c \<mapsto> (nodeId, p))\<rparr>"

text \<open>Loading the old session and closing its connection is one step. With \<open>race\<close> the operations of different connections of a node interleave freely, as the code
  lets them; without it a connect or a clean-up is not interrupted by another.\<close>

inductive session_step :: "'n env \<Rightarrow> bool \<Rightarrow> 'n ws_state \<Rightarrow> 'n ws_state \<Rightarrow> bool" for e race where
  upgrade: "ws_pc s c = None \<Longrightarrow> secret \<noteq> [] \<Longrightarrow>
    ValidateNodeSecret e (wdb (ws_world s)) reqNodeId secret = nodeId \<Longrightarrow> nodeId \<noteq> 0 \<Longrightarrow>
    session_step e race s (goto c nodeId Upgraded (s\<lparr>ws_open := (ws_open s)(c := True)\<rparr>))"
| close_old: "ws_pc s c = Some (nodeId, Upgraded) \<Longrightarrow> race \<or> alone nodeId c s \<Longrightarrow>
    session_step e race s (goto c nodeId Closed_old
      (case ws_sessions s nodeId of None \<Rightarrow> s | Some old \<Rightarrow> s\<lparr>ws_open := (ws_open s)(old := False)\<rparr>))"
| store: "ws_pc s c = Some (nodeId, Closed_old) \<Longrightarrow>
    session_step e race s (goto c nodeId Stored (s\<lparr>ws_sessions := (ws_sessions s)(nodeId \<mapsto> c)\<rparr>))"
| online: "ws_pc s c = Some (nodeId, Stored) \<Longrightarrow>
    session_step e race s (goto c nodeId Reading (s\<lparr>ws_world := OnNodeOnline e nodeId version (ws_world s)\<rparr>))"
| system_info: "ws_pc s c = Some (nodeId, Reading) \<Longrightarrow>
    session_step e race s (s\<lparr>ws_info := (ws_info s)(nodeId \<mapsto> info)\<rparr>)"
| read_error: "ws_pc s c = Some (nodeId, Reading) \<Longrightarrow> session_step e race s (goto c nodeId Failed s)"
| check: "ws_pc s c = Some (nodeId, Failed) \<Longrightarrow> race \<or> alone nodeId c s \<Longrightarrow>
    session_step e race s (goto c nodeId (if ws_sessions s nodeId = Some c then Checked else Last) s)"
| delete: "ws_pc s c = Some (nodeId, Checked) \<Longrightarrow>
    session_step e race s (goto c nodeId Deleted (s\<lparr>ws_sessions := (ws_sessions s)(nodeId := None)\<rparr>))"
| delete_info: "ws_pc s c = Some (nodeId, Deleted) \<Longrightarrow>
    session_step e race s (goto c nodeId Info_deleted (s\<lparr>ws_info := (ws_info s)(nodeId := None)\<rparr>))"
| offline: "ws_pc s c = Some (nodeId, Info_deleted) \<Longrightarrow>
    session_step e race s (goto c nodeId Last (s\<lparr>ws_world := OnNodeOffline e nodeId (ws_world s)\<rparr>))"
| close: "ws_pc s c = Some (nodeId, Last) \<Longrightarrow>
    session_step e race s (goto c nodeId Gone (s\<lparr>ws_open := (ws_open s)(c := False)\<rparr>))"

inductive_cases session_stepE: "session_step e race s s'"

definition ws_start :: "'n world \<Rightarrow> 'n ws_state" where
  "ws_start w = \<lparr>ws_sessions = (\<lambda>_. None), ws_info = (\<lambda>_. None), ws_open = (\<lambda>_. False), ws_pc = (\<lambda>_. None),
     ws_world = w\<rparr>"

inductive session_reach :: "'n env \<Rightarrow> bool \<Rightarrow> 'n world \<Rightarrow> 'n ws_state \<Rightarrow> bool" for e race w where
  start: "session_reach e race w (ws_start w)"
| step: "session_reach e race w s \<Longrightarrow> session_step e race s s' \<Longrightarrow> session_reach e race w s'"

section \<open>Which answer goes to which request\<close>

text \<open>A goroutine in \<open>SendMsgWithTimeout\<close> has a channel of its own, named by its number; the
  answers carry the number of the request they were sent for. \<open>rq_held\<close> is what the reader of a
  connection has taken from the table and not yet put into the channel.\<close>

datatype sender_pc =
    Waiting string
  | Timed_out string
  | Returned string "(string \<times> GostResponse) option"

record req_state =
  rq_pending :: "string \<Rightarrow> nat option"
  rq_chan :: "nat \<Rightarrow> (string \<times> GostResponse) list"
  rq_pc :: "nat \<Rightarrow> sender_pc option"
  rq_held :: "nat \<Rightarrow> (nat \<times> string \<times> GostResponse) option"

fun request_of :: "sender_pc \<Rightarrow> string" where
  "request_of (Waiting rid) = rid"
| "request_of (Timed_out rid) = rid"
| "request_of (Returned rid r) = rid"

definition chan_cap :: nat where
  "chan_cap = 1"

text \<open>The number of a request is new (\<open>generateUUID\<close>). A full channel blocks the reader.\<close>

inductive req_step :: "req_state \<Rightarrow> req_state \<Rightarrow> bool" where
  register: "rq_pc s k = None \<Longrightarrow> rid \<noteq> [] \<Longrightarrow> (\<forall>k' p. rq_pc s k' = Some p \<longrightarrow> request_of p \<noteq> rid) \<Longrightarrow>
    req_step s (s\<lparr>rq_pending := (rq_pending s)(rid \<mapsto> k), rq_pc := (rq_pc s)(k \<mapsto> Waiting rid)\<rparr>)"
| take: "rq_held s r = None \<Longrightarrow> rq_pending s rid = Some k \<Longrightarrow>
    req_step s (s\<lparr>rq_pending := (rq_pending s)(rid := None), rq_held := (rq_held s)(r \<mapsto> (k, rid, x))\<rparr>)"
| put: "rq_held s r = Some (k, rid, x) \<Longrightarrow> length (rq_chan s k) < chan_cap \<Longrightarrow>
    req_step s (s\<lparr>rq_chan := (rq_chan s)(k := rq_chan s k @ [(rid, x)]), rq_held := (rq_held s)(r := None)\<rparr>)"
| receive: "rq_pc s k = Some (Waiting rid) \<Longrightarrow> rq_chan s k = a # as \<Longrightarrow>
    req_step s (s\<lparr>rq_chan := (rq_chan s)(k := as), rq_pc := (rq_pc s)(k \<mapsto> Returned rid (Some a))\<rparr>)"
| timeout: "rq_pc s k = Some (Waiting rid) \<Longrightarrow>
    req_step s (s\<lparr>rq_pc := (rq_pc s)(k \<mapsto> Timed_out rid)\<rparr>)"
| forget: "rq_pc s k = Some (Timed_out rid) \<Longrightarrow>
    req_step s (s\<lparr>rq_pending := (rq_pending s)(rid := None), rq_pc := (rq_pc s)(k \<mapsto> Returned rid None)\<rparr>)"

inductive_cases req_stepE: "req_step s s'"

definition req_start :: req_state where
  "req_start = \<lparr>rq_pending = (\<lambda>_. None), rq_chan = (\<lambda>_. []), rq_pc = (\<lambda>_. None), rq_held = (\<lambda>_. None)\<rparr>"

inductive req_reach :: "req_state \<Rightarrow> bool" where
  start: "req_reach req_start"
| step: "req_reach s \<Longrightarrow> req_step s s' \<Longrightarrow> req_reach s'"

section \<open>Random names\<close>

definition hex_digit :: "8 word \<Rightarrow> char" where
  "hex_digit n = (if n < 10 then char_of (48 + unat n) else char_of (87 + unat n))"

definition hex_of :: "8 word list \<Rightarrow> string" where
  "hex_of bs = concat (map (\<lambda>b. [hex_digit (drop_bit 4 b), hex_digit (take_bit 4 b)]) bs)"

text \<open>\<open>GenerateUUIDv4\<close> from 16 random bytes.\<close>

definition GenerateUUIDv4 :: "8 word list \<Rightarrow> string" where
  "GenerateUUIDv4 b =
     (let b1 = b[6 := or (and (b ! 6) 0x0f) 0x40];
          b2 = b1[8 := or (and (b1 ! 8) 0x3f) 0x80]
      in hex_of (take 4 b2) @ ''-'' @ hex_of (take 2 (drop 4 b2)) @ ''-'' @ hex_of (take 2 (drop 6 b2)) @ ''-''
         @ hex_of (take 2 (drop 8 b2)) @ ''-'' @ hex_of (take 6 (drop 10 b2)))"

definition GenerateRandomString :: "8 word list \<Rightarrow> nat \<Rightarrow> string" where
  "GenerateRandomString b len =
     (let hex = hex_of (take ((len + 1) div 2) b) in if length hex > len then take len hex else hex)"

end
