(* ===== verification/Panel_Session_Props.thy ===== *)
theory Panel_Session_Props
  imports Panel_Session Sample
begin

text \<open>
  The registered session of a node always has a reader, and the status of a node mirrors it, if
  connects and clean-ups of a node do not interleave; interleaved, a node that is connected can be
  left unregistered. Every request gets its own answer or a timeout, and the reader of a node is
  never blocked.
\<close>

section \<open>Messages\<close>

lemma containsSubstring_iff: "length sub \<le> length s \<Longrightarrow> containsSubstring s sub \<longleftrightarrow> contains_str s sub"
proof
  assume "length sub \<le> length s" "containsSubstring s sub"
  then obtain i where "take (length sub) (drop i s) = sub" by (auto simp: containsSubstring_def list_ex_iff)
  then have "s = take i s @ sub @ drop (length sub) (drop i s)" by (metis append_take_drop_id)
  then show "contains_str s sub" unfolding contains_str_iff by blast
next
  assume "contains_str s sub"
  then obtain a b where s: "s = a @ sub @ b" by (auto simp: contains_str_iff)
  then have "take (length sub) (drop (length a) s) = sub" "length a < Suc (length s) - length sub" by auto
  then show "containsSubstring s sub" by (force simp: containsSubstring_def list_ex_iff)
qed

lemma containsStr_iff: "containsStr s sub = contains_str s sub"
proof -
  have "contains_str s sub \<Longrightarrow> length sub \<le> length s" by (auto simp: contains_str_iff)
  moreover have "contains_str s s" by (auto simp: contains_str_iff intro: exI [of _ "[]"])
  moreover have "contains_str [] sub \<Longrightarrow> sub = []" by simp
  ultimately show ?thesis
    using containsSubstring_iff by (auto simp: containsStr_def)
qed

text \<open>Property: An answer that mentions \<open>memory_usage\<close> anywhere, for example in the text of a
  configuration, is taken for a report of the node's load, and its request times out.\<close>

theorem answer_taken_for_load:
  "contains_str m ''memory_usage'' \<Longrightarrow> sort_message l m = System_info m"
  by (simp add: sort_message_def containsStr_iff)

section \<open>Sessions\<close>

definition served :: "'n ws_state \<Rightarrow> bool" where
  "served s \<longleftrightarrow> (\<forall>nid c. ws_sessions s nid = Some c \<longrightarrow>
     (\<exists>p. ws_pc s c = Some (nid, p) \<and> p \<in> {Stored, Reading, Failed, Checked}))"

lemma servedD: "served s \<Longrightarrow> ws_sessions s nid = Some c \<Longrightarrow>
    ws_pc s c = Some (nid, Stored) \<or> ws_pc s c = Some (nid, Reading) \<or> ws_pc s c = Some (nid, Failed) \<or>
    ws_pc s c = Some (nid, Checked)"
  unfolding served_def by blast

lemma served_step: "session_step e race s s' \<Longrightarrow> served s \<Longrightarrow> served s'"
  unfolding served_def [of s']
  by (erule session_stepE) (auto simp: goto_def dest: servedD split: if_splits option.splits)

text \<open>C36: Whatever the interleaving of connects and disconnects and whatever the database answers,
  the session registered for a node belongs to a connection of that node whose reader runs or
  still has its clean-up to do; so a command is never handed to a connection nobody watches.\<close>

theorem registered_session_is_served:
  assumes "session_reach e race w s" and "ws_sessions s nid = Some c"
  shows "ws_pc s c \<in> {Some (nid, Stored), Some (nid, Reading), Some (nid, Failed), Some (nid, Checked)}"
proof -
  have "served s"
    using assms(1)
  proof (induction rule: session_reach.induct)
    case start
    show ?case by (simp add: served_def ws_start_def)
  next
    case (step s s')
    then show ?case using served_step by blast
  qed
  with assms(2) show ?thesis by (auto simp: served_def)
qed

subsection \<open>Without interleaving\<close>

definition one_busy :: "'n ws_state \<Rightarrow> bool" where
  "one_busy s \<longleftrightarrow> (\<forall>nid c p c' p'. ws_pc s c = Some (nid, p) \<longrightarrow> ws_pc s c' = Some (nid, p') \<longrightarrow>
     busy_pc p \<longrightarrow> busy_pc p' \<longrightarrow> c = c')"

definition held :: "'n ws_state \<Rightarrow> bool" where
  "held s \<longleftrightarrow> (\<forall>nid c p. ws_pc s c = Some (nid, p) \<longrightarrow>
     (p \<in> {Stored, Checked} \<longrightarrow> ws_sessions s nid = Some c) \<and>
     (p \<in> {Deleted, Info_deleted} \<longrightarrow> ws_sessions s nid = None))"

definition current :: "'n ws_state \<Rightarrow> bool" where
  "current s \<longleftrightarrow> (\<forall>nid c p. ws_pc s c = Some (nid, p) \<longrightarrow> p \<in> {Stored, Reading, Failed} \<longrightarrow> ws_open s c \<longrightarrow>
     ws_sessions s nid = Some c \<and> (\<forall>c'. ws_pc s c' \<noteq> Some (nid, Closed_old)))"

lemma one_busyD: "one_busy s \<Longrightarrow> ws_pc s c = Some (nid, p) \<Longrightarrow> busy_pc p \<Longrightarrow> ws_pc s c' = Some (nid, p') \<Longrightarrow> busy_pc p' \<Longrightarrow> c' = c"
  unfolding one_busy_def by blast

lemma aloneD: "alone nid c s \<Longrightarrow> ws_pc s c' = Some (nid, p) \<Longrightarrow> busy_pc p \<Longrightarrow> c' = c"
  unfolding alone_def by blast

lemma busy_simps [simp]:
  "\<not> busy_pc Upgraded" "busy_pc Closed_old" "busy_pc Stored" "\<not> busy_pc Reading" "\<not> busy_pc Failed"
  "busy_pc Checked" "busy_pc Deleted" "busy_pc Info_deleted" "\<not> busy_pc Last" "\<not> busy_pc Gone"
  by (simp_all add: busy_pc_def)

lemma one_busy_step: "session_step e False s s' \<Longrightarrow> one_busy s \<Longrightarrow> one_busy s'"
  unfolding one_busy_def [of s']
  by (erule session_stepE) (auto simp: goto_def dest: one_busyD aloneD split: if_splits option.splits)

lemma heldD:
  assumes "held s" and "ws_pc s c = Some (nid, p)"
  shows "p = Stored \<Longrightarrow> ws_sessions s nid = Some c" "p = Checked \<Longrightarrow> ws_sessions s nid = Some c"
    "p = Deleted \<Longrightarrow> ws_sessions s nid = None" "p = Info_deleted \<Longrightarrow> ws_sessions s nid = None"
  using assms unfolding held_def by blast+

lemma held_step: "session_step e False s s' \<Longrightarrow> one_busy s \<Longrightarrow> held s \<Longrightarrow> held s'"
  unfolding held_def [of s']
  by (erule session_stepE) (auto simp: goto_def dest: one_busyD aloneD heldD split: if_splits option.splits)

lemma currentD:
  assumes "current s" and "ws_pc s c = Some (nid, p)" and "p = Stored \<or> p = Reading \<or> p = Failed" and "ws_open s c"
  shows "ws_sessions s nid = Some c" "ws_pc s c' \<noteq> Some (nid, Closed_old)"
  using assms unfolding current_def by blast+

text \<open>What \<open>current\<close> asks of one connection.\<close>

definition current_at :: "'n ws_state \<Rightarrow> int \<Rightarrow> nat \<Rightarrow> bool" where
  "current_at s nid c \<longleftrightarrow> ws_open s c \<longrightarrow>
     ws_pc s c = Some (nid, Stored) \<or> ws_pc s c = Some (nid, Reading) \<or> ws_pc s c = Some (nid, Failed) \<longrightarrow>
     ws_sessions s nid = Some c \<and> (\<forall>c'. ws_pc s c' \<noteq> Some (nid, Closed_old))"

lemma current_at: "current s \<longleftrightarrow> (\<forall>nid c. current_at s nid c)"
  unfolding current_def current_at_def by blast

lemma current_step:
  assumes "session_step e False s s'" and "one_busy s" and "held s" and "current s"
  shows "current s'"
  unfolding current_at
proof (intro allI)
  fix nid d
  have at: "current_at s nid d" using assms(4) by (simp add: current_at)
  from assms(1) show "current_at s' nid d"
  proof cases
    case (close_old c n)
    show ?thesis
    proof (cases "n = nid \<and> c \<noteq> d")
      case True
      then show ?thesis using close_old at assms(4)
        by (auto simp: current_at_def goto_def split: option.splits)
    next
      case False
      then show ?thesis using close_old at by (auto simp: current_at_def goto_def split: option.splits)
    qed
  next
    case (store c n)
    have only: "ws_pc s c' = Some (n, Closed_old) \<Longrightarrow> c' = c" for c'
      using one_busyD [OF assms(2) store(2), of c' Closed_old] by simp
    show ?thesis using store at by (auto simp: current_at_def goto_def dest: only)
  next
    case (online c n version)
    have only: "ws_pc s c' = Some (n, Closed_old) \<Longrightarrow> c' = c" for c'
      using one_busyD [OF assms(2) online(2), of c' Closed_old] by simp
    have own: "ws_sessions s n = Some c" using heldD(1) [OF assms(3) online(2)] by simp
    show ?thesis using online at own by (auto simp: current_at_def goto_def dest: only)
  next
    case (delete c n)
    have own: "ws_sessions s n = Some c" using heldD(2) [OF assms(3) delete(2)] by simp
    show ?thesis using delete at own by (auto simp: current_at_def goto_def)
  qed (use at in \<open>auto simp: current_at_def goto_def\<close>)
qed

lemma set_node_status:
  assumes "db_ok e = (\<lambda>_. True)" and "n \<in> set (nodes (wdb (OnNodeOnline e nid version w)))"
  shows "n_ID n = nid \<and> n_Status n = 1 \<or> n \<in> set (nodes (wdb w)) \<and> n_ID n \<noteq> nid"
  using assms by (auto simp: OnNodeOnline_def set_node_def update_where_def)

lemma unset_node_status:
  assumes "db_ok e = (\<lambda>_. True)" and "n \<in> set (nodes (wdb (OnNodeOffline e nid w)))"
  shows "n_ID n = nid \<and> n_Status n = 0 \<or> n \<in> set (nodes (wdb w)) \<and> n_ID n \<noteq> nid"
  using assms by (auto simp: OnNodeOffline_def set_node_def update_where_def)

text \<open>A connection of the node is about to write the status, or to give the session up.\<close>

definition mid_pc :: "conn_pc \<Rightarrow> bool" where
  "mid_pc p \<longleftrightarrow> p \<in> {Stored, Deleted, Info_deleted}"

definition mid :: "'n ws_state \<Rightarrow> int \<Rightarrow> bool" where
  "mid s nid \<longleftrightarrow> (\<exists>c p. ws_pc s c = Some (nid, p) \<and> mid_pc p)"

lemma mid_stays:
  "mid s nid \<Longrightarrow> (\<And>p0. ws_pc s c = Some (nid, p0) \<Longrightarrow> \<not> mid_pc p0) \<Longrightarrow>
   (\<And>c'. c' \<noteq> c \<Longrightarrow> ws_pc s' c' = ws_pc s c') \<Longrightarrow> mid s' nid"
  unfolding mid_def by metis

lemma mid_now: "ws_pc s' c = Some (nid, p) \<Longrightarrow> mid_pc p \<Longrightarrow> mid s' nid"
  unfolding mid_def by blast

lemma mid_same: "ws_pc s' = ws_pc s \<Longrightarrow> mid s' = mid s"
  unfolding mid_def by (rule ext) simp

definition status_at :: "'n ws_state \<Rightarrow> Node \<Rightarrow> bool" where
  "status_at s n \<longleftrightarrow> n_Status n = (if ws_sessions s (n_ID n) = None then 0 else 1) \<or> mid s (n_ID n)"

definition statuses :: "'n ws_state \<Rightarrow> bool" where
  "statuses s \<longleftrightarrow> (\<forall>n \<in> set (nodes (wdb (ws_world s))). status_at s n)"

lemma status_kept:
  assumes "status_at s n" and "ws_sessions s' (n_ID n) = ws_sessions s (n_ID n)"
    and "\<And>p0. ws_pc s c = Some (n_ID n, p0) \<Longrightarrow> \<not> mid_pc p0" and "\<And>c'. c' \<noteq> c \<Longrightarrow> ws_pc s' c' = ws_pc s c'"
  shows "status_at s' n"
  using assms mid_stays [OF _ assms(3,4)] by (auto simp: status_at_def)

lemma statuses_step:
  assumes "session_step e False s s'" and "db_ok e = (\<lambda>_. True)" and "held s" and "statuses s"
  shows "statuses s'"
  unfolding statuses_def
proof
  fix n
  assume n: "n \<in> set (nodes (wdb (ws_world s')))"
  have at: "n \<in> set (nodes (wdb (ws_world s))) \<Longrightarrow> status_at s n" using assms(4) by (simp add: statuses_def)
  from assms(1) show "status_at s' n"
  proof cases
    case (online c nid version)
    have own: "ws_sessions s nid = Some c" using heldD(1) [OF assms(3) online(2)] by simp
    from n online have "n_ID n = nid \<and> n_Status n = 1 \<or> n \<in> set (nodes (wdb (ws_world s))) \<and> n_ID n \<noteq> nid"
      using set_node_status [OF assms(2)] by (simp add: goto_def)
    then show ?thesis
    proof
      assume "n_ID n = nid \<and> n_Status n = 1"
      then show ?thesis using online own by (simp add: status_at_def goto_def)
    next
      assume "n \<in> set (nodes (wdb (ws_world s))) \<and> n_ID n \<noteq> nid"
      then show ?thesis using at online by - (rule status_kept [of s n _ c], auto simp: goto_def mid_pc_def)
    qed
  next
    case (offline c nid)
    have own: "ws_sessions s nid = None" using heldD(4) [OF assms(3) offline(2)] by simp
    from n offline have "n_ID n = nid \<and> n_Status n = 0 \<or> n \<in> set (nodes (wdb (ws_world s))) \<and> n_ID n \<noteq> nid"
      using unset_node_status [OF assms(2)] by (simp add: goto_def)
    then show ?thesis
    proof
      assume "n_ID n = nid \<and> n_Status n = 0"
      then show ?thesis using offline own by (simp add: status_at_def goto_def)
    next
      assume "n \<in> set (nodes (wdb (ws_world s))) \<and> n_ID n \<noteq> nid"
      then show ?thesis using at offline by - (rule status_kept [of s n _ c], auto simp: goto_def mid_pc_def)
    qed
  next
    case (store c nid)
    show ?thesis
    proof (cases "n_ID n = nid")
      case True
      then show ?thesis using store mid_now [of s' c nid Stored] by (simp add: status_at_def goto_def mid_pc_def)
    next
      case False
      then show ?thesis using at n store by - (rule status_kept [of s n _ c], auto simp: goto_def mid_pc_def)
    qed
  next
    case (delete c nid)
    show ?thesis
    proof (cases "n_ID n = nid")
      case True
      then show ?thesis using delete mid_now [of s' c nid Deleted] by (simp add: status_at_def goto_def mid_pc_def)
    next
      case False
      then show ?thesis using at n delete by - (rule status_kept [of s n _ c], auto simp: goto_def mid_pc_def)
    qed
  next
    case (delete_info c nid)
    show ?thesis
    proof (cases "n_ID n = nid")
      case True
      then show ?thesis using delete_info mid_now [of s' c nid Info_deleted] by (simp add: status_at_def goto_def mid_pc_def)
    next
      case False
      then show ?thesis using at n delete_info by - (rule status_kept [of s n _ c], auto simp: goto_def mid_pc_def)
    qed
  next
    case (system_info c nid info)
    then show ?thesis using at n mid_same [of s' s] by (simp add: status_at_def)
  next
    case (upgrade c secret reqNodeId nid)
    then show ?thesis using at n by - (rule status_kept [of s n _ c], auto simp: goto_def mid_pc_def)
  next
    case (close_old c nid)
    then show ?thesis using at n
      by - (rule status_kept [of s n _ c], auto simp: goto_def mid_pc_def split: option.splits)
  next
    case (read_error c nid)
    then show ?thesis using at n by - (rule status_kept [of s n _ c], auto simp: goto_def mid_pc_def)
  next
    case (check c nid)
    then show ?thesis using at n by - (rule status_kept [of s n _ c], auto simp: goto_def mid_pc_def)
  next
    case (close c nid)
    then show ?thesis using at n by - (rule status_kept [of s n _ c], auto simp: goto_def mid_pc_def)
  qed
qed

definition idle :: "'n ws_state \<Rightarrow> int \<Rightarrow> bool" where
  "idle s nid \<longleftrightarrow> (\<forall>c p. ws_pc s c = Some (nid, p) \<longrightarrow> \<not> busy_pc p)"

text \<open>Property: If connects and clean-ups of a node do not interleave and the database works, then
  whenever none is under way the status of a node is 1 exactly when a session is registered, and
  an open connection that is being read is the registered one.\<close>

theorem status_mirrors_session:
  assumes "session_reach e False w s" and "db_ok e = (\<lambda>_. True)" and "list_all (\<lambda>n. n_Status n = 0) (nodes (wdb w))"
    and "n \<in> set (nodes (wdb (ws_world s)))" and "idle s (n_ID n)"
  shows "n_Status n = (if ws_sessions s (n_ID n) = None then 0 else 1) \<and>
    {c. ws_open s c \<and> ws_pc s c = Some (n_ID n, Reading)} \<subseteq> set_option (ws_sessions s (n_ID n))"
proof -
  have "one_busy s \<and> held s \<and> current s \<and> statuses s"
    using assms(1)
  proof (induction rule: session_reach.induct)
    case start
    show ?case
      using assms(3) by (simp add: one_busy_def held_def current_def statuses_def status_at_def ws_start_def list_all_iff)
  next
    case (step s s')
    then show ?case
      using one_busy_step held_step current_step statuses_step assms(2) by blast
  qed
  then have "current s" "status_at s n" using assms(4) by (auto simp: statuses_def)
  moreover have "\<not> mid s (n_ID n)" using assms(5) by (force simp: mid_def idle_def mid_pc_def)
  ultimately show ?thesis by (auto simp: status_at_def dest: currentD(1))
qed

subsection \<open>With interleaving\<close>

lemma first_where_update:
  "(\<And>x. p (f x) = p x) \<Longrightarrow> first_where p (update_where q f xs) = map_option (\<lambda>x. if q x then f x else x) (first_where p xs)"
  by (induction xs) (auto simp: first_where_def update_where_def)

lemma secret_kept:
  assumes "db_ok e = (\<lambda>_. True)"
  shows "ValidateNodeSecret e (wdb (OnNodeOnline e k v w)) nid secret = ValidateNodeSecret e (wdb w) nid secret"
  using assms
  by (auto simp: ValidateNodeSecret_def GetNodeById_def OnNodeOnline_def set_node_def first_where_update
      split: option.split)

text \<open>Property: A reconnect can leave its node unregistered. The handler closes the old connection before
  it registers the new one, and the old reader's clean-up compares and deletes in two operations:
  for every node that may connect there is a run after which its new connection is open and being
  read, no session is registered for it, its status is 0 and every other connection is gone.\<close>

theorem reconnect_unregisters:
  fixes e :: "'n env"
  assumes "db_ok e = (\<lambda>_. True)" and "secret \<noteq> []" and "ValidateNodeSecret e (wdb w) reqNodeId secret = nid"
    and "nid \<noteq> 0"
  shows "\<exists>s c. session_reach e True w s \<and> ws_open s c \<and> ws_pc s c = Some (nid, Reading) \<and>
     ws_sessions s nid = None \<and> {n \<in> set (nodes (wdb (ws_world s))). n_ID n = nid \<and> n_Status n \<noteq> 0} = {} \<and>
     {c'. c' \<noteq> c \<and> ws_open s c'} = {}"
proof -
  let ?R = "session_reach e True w"
  let ?up = "\<lambda>c (s :: 'n ws_state). goto c nid Upgraded (s\<lparr>ws_open := (ws_open s)(c := True)\<rparr>)"
  let ?close_old = "\<lambda>c (s :: 'n ws_state). goto c nid Closed_old
      (case ws_sessions s nid of None \<Rightarrow> s | Some old \<Rightarrow> s\<lparr>ws_open := (ws_open s)(old := False)\<rparr>)"
  let ?store = "\<lambda>c (s :: 'n ws_state). goto c nid Stored (s\<lparr>ws_sessions := (ws_sessions s)(nid \<mapsto> c)\<rparr>)"
  let ?on = "\<lambda>c (s :: 'n ws_state). goto c nid Reading (s\<lparr>ws_world := OnNodeOnline e nid [] (ws_world s)\<rparr>)"
  let ?check = "\<lambda>c (s :: 'n ws_state). goto c nid (if ws_sessions s nid = Some c then Checked else Last) s"
  let ?del = "\<lambda>c (s :: 'n ws_state). goto c nid Deleted (s\<lparr>ws_sessions := (ws_sessions s)(nid := None)\<rparr>)"
  let ?deli = "\<lambda>c (s :: 'n ws_state). goto c nid Info_deleted (s\<lparr>ws_info := (ws_info s)(nid := None)\<rparr>)"
  let ?off = "\<lambda>c (s :: 'n ws_state). goto c nid Last (s\<lparr>ws_world := OnNodeOffline e nid (ws_world s)\<rparr>)"
  let ?close = "\<lambda>c (s :: 'n ws_state). goto c nid Gone (s\<lparr>ws_open := (ws_open s)(c := False)\<rparr>)"
  define s0 where "s0 = ws_start w"
  define s4 where "s4 = ?on 1 (?store 1 (?close_old 1 (?up 1 s0)))"
  define s8 where "s8 = ?check 1 (goto 1 nid Failed (?close_old 2 (?up 2 s4)))"
  define s10 where "s10 = ?on 2 (?store 2 s8)"
  define s14 where "s14 = ?close 1 (?off 1 (?deli 1 (?del 1 s10)))"
  have go: "?R s \<Longrightarrow> session_step e True s s' \<Longrightarrow> ?R s'" for s s' by (rule session_reach.step)
  have up: "?R s \<Longrightarrow> ws_pc s c = None \<Longrightarrow> ValidateNodeSecret e (wdb (ws_world s)) reqNodeId secret = nid \<Longrightarrow> ?R (?up c s)" for s c
    by (rule go, assumption, rule session_step.upgrade) (use assms in simp_all)
  have co: "?R s \<Longrightarrow> ws_pc s c = Some (nid, Upgraded) \<Longrightarrow> ?R (?close_old c s)" for s c
    by (rule go, assumption, rule session_step.close_old) simp_all
  have st: "?R s \<Longrightarrow> ws_pc s c = Some (nid, Closed_old) \<Longrightarrow> ?R (?store c s)" for s c
    by (rule go, assumption, rule session_step.store)
  have on: "?R s \<Longrightarrow> ws_pc s c = Some (nid, Stored) \<Longrightarrow> ?R (?on c s)" for s c
    by (rule go, assumption, rule session_step.online)
  have er: "?R s \<Longrightarrow> ws_pc s c = Some (nid, Reading) \<Longrightarrow> ?R (goto c nid Failed s)" for s c
    by (rule go, assumption, rule session_step.read_error)
  have ch: "?R s \<Longrightarrow> ws_pc s c = Some (nid, Failed) \<Longrightarrow> ?R (?check c s)" for s c
    by (rule go, assumption, rule session_step.check) simp_all
  have de: "?R s \<Longrightarrow> ws_pc s c = Some (nid, Checked) \<Longrightarrow> ?R (?del c s)" for s c
    by (rule go, assumption, rule session_step.delete)
  have di: "?R s \<Longrightarrow> ws_pc s c = Some (nid, Deleted) \<Longrightarrow> ?R (?deli c s)" for s c
    by (rule go, assumption, rule session_step.delete_info)
  have off: "?R s \<Longrightarrow> ws_pc s c = Some (nid, Info_deleted) \<Longrightarrow> ?R (?off c s)" for s c
    by (rule go, assumption, rule session_step.offline)
  have cl: "?R s \<Longrightarrow> ws_pc s c = Some (nid, Last) \<Longrightarrow> ?R (?close c s)" for s c
    by (rule go, assumption, rule session_step.close)
  have 0: "?R s0" unfolding s0_def by (rule session_reach.start)
  have 4: "?R s4" unfolding s4_def
    by (intro on st co up 0) (use assms in \<open>simp_all add: s0_def ws_start_def goto_def\<close>)
  have f4: "ws_pc s4 = [1 \<mapsto> (nid, Reading)]" "ws_sessions s4 = [nid \<mapsto> 1]" "ws_open s4 = (\<lambda>_. False)(1 := True)"
    "ws_world s4 = OnNodeOnline e nid [] w"
    by (simp_all add: s4_def s0_def ws_start_def goto_def)
  have 8: "?R s8" unfolding s8_def
    by (intro ch er co up 4) (use assms secret_kept [OF assms(1)] in \<open>simp_all add: f4 goto_def\<close>)
  have f8: "ws_pc s8 = [1 \<mapsto> (nid, Checked), 2 \<mapsto> (nid, Closed_old)]" "ws_sessions s8 = [nid \<mapsto> 1]"
    "ws_open s8 = (\<lambda>_. False)(2 := True)" "ws_world s8 = OnNodeOnline e nid [] w"
    by (auto simp: s8_def f4 goto_def fun_eq_iff)
  have 10: "?R s10" unfolding s10_def by (intro on st 8) (simp_all add: f8 goto_def)
  have f10: "ws_pc s10 = [1 \<mapsto> (nid, Checked), 2 \<mapsto> (nid, Reading)]" "ws_open s10 = (\<lambda>_. False)(2 := True)"
    by (auto simp: s10_def f8 goto_def fun_eq_iff)
  have 14: "?R s14" unfolding s14_def by (intro cl off di de 10) (simp_all add: f10 goto_def)
  have f14: "ws_pc s14 2 = Some (nid, Reading)" "ws_open s14 = (\<lambda>_. False)(2 := True)" "ws_sessions s14 nid = None"
    "ws_world s14 = OnNodeOffline e nid (ws_world s10)"
    by (simp_all add: s14_def f10 goto_def fun_eq_iff)
  have "{n \<in> set (nodes (wdb (ws_world s14))). n_ID n = nid \<and> n_Status n \<noteq> 0} = {}"
    unfolding f14 using unset_node_status [OF assms(1)] by blast
  with 14 f14 show ?thesis by (intro exI [of _ s14] exI [of _ 2]) auto
qed

subsection \<open>Sample runs\<close>

definition session_world :: "unit world" where
  "session_world = sample_world\<lparr>wdb := sample_db\<lparr>nodes :=
     [(sample_node 1 ''10.0.0.1'')\<lparr>n_Status := 0, n_Secret := ''s1''\<rparr>]\<rparr>\<rparr>"

lemma session_secret: "ValidateNodeSecret sample_env (wdb session_world) 0 ''s1'' = 1"
  by (simp add: ValidateNodeSecret_def session_world_def sample_world_def sample_db_def sample_node_def
      sample_env_def first_where_def)

definition connected :: "unit ws_state" where
  "connected = (ws_start session_world)\<lparr>ws_sessions := [1 \<mapsto> 5], ws_open := (\<lambda>_. False)(5 := True),
     ws_pc := [5 \<mapsto> (1, Reading)], ws_world := OnNodeOnline sample_env 1 ''1.0'' session_world\<rparr>"

lemma connected_reached: "session_reach sample_env race session_world connected"
proof -
  let ?s1 = "goto 5 1 Upgraded ((ws_start session_world)\<lparr>ws_open := (ws_open (ws_start session_world))(5 := True)\<rparr>)"
  let ?s2 = "goto 5 1 Closed_old (case ws_sessions ?s1 1 of None \<Rightarrow> ?s1 | Some old \<Rightarrow> ?s1\<lparr>ws_open := (ws_open ?s1)(old := False)\<rparr>)"
  let ?s3 = "goto 5 1 Stored (?s2\<lparr>ws_sessions := (ws_sessions ?s2)(1 \<mapsto> 5)\<rparr>)"
  let ?s4 = "goto 5 1 Reading (?s3\<lparr>ws_world := OnNodeOnline sample_env 1 ''1.0'' (ws_world ?s3)\<rparr>)"
  have 1: "session_reach sample_env race session_world ?s1"
    by (rule session_reach.step [OF session_reach.start session_step.upgrade [where secret = "''s1''" and reqNodeId = 0]])
       (simp_all add: ws_start_def session_secret)
  have 2: "session_reach sample_env race session_world ?s2"
    by (rule session_reach.step [OF 1 session_step.close_old]) (simp_all add: ws_start_def goto_def alone_def)
  have 3: "session_reach sample_env race session_world ?s3"
    by (rule session_reach.step [OF 2 session_step.store]) (simp add: ws_start_def goto_def)
  have 4: "session_reach sample_env race session_world ?s4"
    by (rule session_reach.step [OF 3 session_step.online]) (simp add: ws_start_def goto_def)
  moreover have "?s4 = connected" by (simp add: connected_def ws_start_def goto_def)
  ultimately show ?thesis by simp
qed

theorem registered_session_is_served_witness:
  "ws_pc connected 5 \<in> {Some (1, Stored), Some (1, Reading), Some (1, Failed), Some (1, Checked)}"
  by (rule registered_session_is_served [OF connected_reached [of True]]) (simp add: connected_def)

theorem status_mirrors_session_witness:
  "map n_Status (nodes (wdb (ws_world connected))) = [1] \<and> ws_sessions connected 1 = Some 5 \<and>
   {c. ws_open connected c \<and> ws_pc connected c = Some (1, Reading)} \<subseteq> {5}"
proof -
  let ?n = "(sample_node 1 ''10.0.0.1'')\<lparr>n_Status := 1, n_Secret := ''s1'', n_Version := ''1.0''\<rparr>"
  have nodes: "nodes (wdb (ws_world connected)) = [?n]"
    by (simp add: connected_def OnNodeOnline_def set_node_def update_where_def session_world_def sample_world_def
        sample_db_def sample_node_def sample_env_def)
  have idle: "idle connected (n_ID ?n)" by (simp add: idle_def connected_def)
  have "n_Status ?n = (if ws_sessions connected (n_ID ?n) = None then 0 else 1) \<and>
      {c. ws_open connected c \<and> ws_pc connected c = Some (n_ID ?n, Reading)} \<subseteq> set_option (ws_sessions connected (n_ID ?n))"
    by (rule status_mirrors_session [OF connected_reached _ _ _ idle])
       (simp_all add: nodes, simp_all add: sample_env_def session_world_def sample_world_def)
  then show ?thesis unfolding nodes by (simp add: sample_node_def connected_def)
qed

theorem reconnect_unregisters_witness:
  "\<exists>s c. session_reach sample_env True session_world s \<and> ws_open s c \<and> ws_pc s c = Some (1, Reading) \<and>
     ws_sessions s 1 = None"
  using reconnect_unregisters [of sample_env "''s1''" session_world 0 1] session_secret
  by (auto simp: sample_env_def)

section \<open>Requests\<close>

definition req_of :: "req_state \<Rightarrow> nat \<Rightarrow> string option" where
  "req_of s k = map_option request_of (rq_pc s k)"

text \<open>Every request number belongs to one goroutine; it is in the table only while that goroutine
  waits and nothing was taken for it; what a reader holds or a channel carries is for it alone.\<close>

definition req_unique :: "req_state \<Rightarrow> bool" where
  "req_unique s \<longleftrightarrow> (\<forall>k k' rid. req_of s k = Some rid \<longrightarrow> req_of s k' = Some rid \<longrightarrow> k' = k)"

definition req_table :: "req_state \<Rightarrow> bool" where
  "req_table s \<longleftrightarrow> (\<forall>rid k. rq_pending s rid = Some k \<longrightarrow> req_of s k = Some rid \<and> rq_chan s k = [] \<and>
     (\<forall>r x. rq_held s r \<noteq> Some (k, x)))"

definition req_held :: "req_state \<Rightarrow> bool" where
  "req_held s \<longleftrightarrow> (\<forall>r k rid x. rq_held s r = Some (k, rid, x) \<longrightarrow> req_of s k = Some rid \<and> rq_chan s k = [] \<and>
     rq_pending s rid = None \<and> (\<forall>r' y. rq_held s r' = Some (k, y) \<longrightarrow> r' = r))"

definition req_chan :: "req_state \<Rightarrow> bool" where
  "req_chan s \<longleftrightarrow> (\<forall>k a as. rq_chan s k = a # as \<longrightarrow> as = [] \<and> req_of s k = Some (fst a) \<and> rq_pending s (fst a) = None)"

definition req_done :: "req_state \<Rightarrow> bool" where
  "req_done s \<longleftrightarrow> (\<forall>k rid a. rq_pc s k = Some (Returned rid a) \<longrightarrow>
     rq_pending s rid = None \<and> (\<forall>b. a = Some b \<longrightarrow> fst b = rid))"

lemma req_uniqueD: "req_unique s \<Longrightarrow> req_of s k = Some rid \<Longrightarrow> req_of s k' = Some rid \<Longrightarrow> k' = k"
  unfolding req_unique_def by blast

lemma req_tableD:
  assumes "req_table s" and "rq_pending s rid = Some k"
  shows "req_of s k = Some rid" "rq_chan s k = []" "rq_held s r \<noteq> Some (k, x)"
  using assms unfolding req_table_def by blast+

lemma req_heldD:
  assumes "req_held s" and "rq_held s r = Some (k, rid, x)"
  shows "req_of s k = Some rid" "rq_chan s k = []" "rq_pending s rid = None" "rq_held s r' = Some (k, y) \<Longrightarrow> r' = r"
  using assms unfolding req_held_def by blast+

lemma req_chanD:
  assumes "req_chan s" and "rq_chan s k = a # as"
  shows "as = []" "req_of s k = Some (fst a)" "rq_pending s (fst a) = None"
  using assms unfolding req_chan_def by blast+

lemma req_doneD:
  assumes "req_done s" and "rq_pc s k = Some (Returned rid a)"
  shows "rq_pending s rid = None" "a = Some b \<Longrightarrow> fst b = rid"
  using assms unfolding req_done_def by blast+

lemma req_of_new [simp]: "rq_pc s k = None \<Longrightarrow> req_of s k = None"
  by (simp add: req_of_def)

lemma req_of_pc [simp]: "rq_pc s k = Some p \<Longrightarrow> req_of s k = Some (request_of p)"
  by (simp add: req_of_def)

lemma req_of_upd: "req_of s' k = (if k = j then Some rid else req_of s k)" if "rq_pc s' = (rq_pc s)(j \<mapsto> p)" "request_of p = rid"
  using that by (simp add: req_of_def)

lemma req_step_of:
  assumes "req_step s s'"
  shows "(\<exists>k rid. req_of s k = None \<and> (\<forall>k'. req_of s k' \<noteq> Some rid) \<and> req_of s' = (req_of s)(k \<mapsto> rid)) \<or> req_of s' = req_of s"
  using assms
proof cases
  case (register k rid)
  then have "req_of s' = (req_of s)(k \<mapsto> rid)" "req_of s k = None" by (auto simp: req_of_def)
  moreover have "\<forall>k'. req_of s k' \<noteq> Some rid" using register by (auto simp: req_of_def)
  ultimately show ?thesis by blast
qed (auto simp: req_of_def fun_eq_iff)

lemma req_unique_step: "req_step s s' \<Longrightarrow> req_unique s \<Longrightarrow> req_unique s'"
  using req_step_of [of s s'] unfolding req_unique_def by (auto split: if_splits)

lemma req_of_cases:
  "req_of (s\<lparr>rq_pending := P, rq_pc := (rq_pc s)(k \<mapsto> Waiting rid)\<rparr>) = (req_of s)(k \<mapsto> rid)"
  "req_of (s\<lparr>rq_pending := P, rq_held := H\<rparr>) = req_of s"
  "req_of (s\<lparr>rq_chan := C, rq_held := H\<rparr>) = req_of s"
  "rq_pc s k = Some (Waiting rid) \<Longrightarrow> req_of (s\<lparr>rq_chan := C, rq_pc := (rq_pc s)(k \<mapsto> Returned rid a)\<rparr>) = req_of s"
  "rq_pc s k = Some (Waiting rid) \<Longrightarrow> req_of (s\<lparr>rq_pc := (rq_pc s)(k \<mapsto> Timed_out rid)\<rparr>) = req_of s"
  "rq_pc s k = Some (Timed_out rid) \<Longrightarrow> req_of (s\<lparr>rq_pending := P, rq_pc := (rq_pc s)(k \<mapsto> Returned rid a)\<rparr>) = req_of s"
  by (auto simp: req_of_def fun_eq_iff)

lemma not_requested: "\<forall>k' p. rq_pc s k' = Some p \<longrightarrow> request_of p \<noteq> rid \<Longrightarrow> req_of s k \<noteq> Some rid"
  by (auto simp: req_of_def)

lemma req_table_step:
  assumes "req_step s s'" and "req_table s" and "req_held s" and "req_chan s" and "req_unique s"
  shows "req_table s'"
  unfolding req_table_def
proof (intro allI impI)
  fix rid k
  assume p: "rq_pending s' rid = Some k"
  from assms(1) show "req_of s' k = Some rid \<and> rq_chan s' k = [] \<and> (\<forall>r x. rq_held s' r \<noteq> Some (k, x))"
  proof cases
    case (register j rid')
    show ?thesis
    proof (cases "rid = rid'")
      case True
      with p register have k: "k = j" by simp
      have "rq_chan s j = []"
        using req_chanD(2) [OF assms(4), of j] req_of_new [OF register(2)] by (cases "rq_chan s j") auto
      moreover have "rq_held s r \<noteq> Some (j, x)" for r x
        using req_heldD(1) [OF assms(3), of r j "fst x" "snd x"] req_of_new [OF register(2)] by auto
      ultimately show ?thesis using register True k by (simp add: req_of_cases)
    next
      case False
      with p register have "rq_pending s rid = Some k" by simp
      note t = req_tableD [OF assms(2) this]
      have "k \<noteq> j" using t(1) req_of_new [OF register(2)] by auto
      then show ?thesis using register t by (simp add: req_of_cases)
    qed
  next
    case (take r rid' j x)
    with p have q: "rq_pending s rid = Some k" "rid \<noteq> rid'" by (auto split: if_splits)
    note t = req_tableD [OF assms(2) q(1)]
    have "k \<noteq> j" using t(1) req_tableD(1) [OF assms(2) take(3)] q(2) by auto
    then show ?thesis using take t by (auto simp: req_of_cases)
  next
    case (put r j rid' x)
    with p have q: "rq_pending s rid = Some k" by simp
    note t = req_tableD [OF assms(2) q]
    have "k \<noteq> j" using t(3) put by blast
    then show ?thesis using put t by (auto simp: req_of_cases)
  next
    case (receive j rid' a as)
    with p have q: "rq_pending s rid = Some k" by simp
    note t = req_tableD [OF assms(2) q]
    have "k \<noteq> j" using t(2) receive by auto
    then show ?thesis using receive t by (simp add: req_of_cases)
  next
    case (timeout j rid')
    with p have q: "rq_pending s rid = Some k" by simp
    show ?thesis using timeout req_tableD [OF assms(2) q] by (simp add: req_of_cases)
  next
    case (forget j rid')
    with p have q: "rq_pending s rid = Some k" by (auto split: if_splits)
    show ?thesis using forget req_tableD [OF assms(2) q] by (simp add: req_of_cases)
  qed
qed

lemma req_held_step:
  assumes "req_step s s'" and "req_table s" and "req_held s"
  shows "req_held s'"
  unfolding req_held_def
proof (intro allI impI)
  fix r k rid x
  assume h: "rq_held s' r = Some (k, rid, x)"
  from assms(1) show "req_of s' k = Some rid \<and> rq_chan s' k = [] \<and> rq_pending s' rid = None \<and>
      (\<forall>r' y. rq_held s' r' = Some (k, y) \<longrightarrow> r' = r)"
  proof cases
    case (register j rid')
    with h have q: "rq_held s r = Some (k, rid, x)" by simp
    note t = req_heldD [OF assms(3) q]
    have "k \<noteq> j" using t(1) req_of_new [OF register(2)] by auto
    moreover have "rid \<noteq> rid'" using t(1) not_requested [OF register(4)] by auto
    ultimately show ?thesis using register t by (auto simp: req_of_cases)
  next
    case (take r' rid' j y)
    note tab = req_tableD [OF assms(2) take(3)]
    show ?thesis
    proof (cases "r = r'")
      case True
      with h take tab show ?thesis by (auto simp: req_of_cases)
    next
      case False
      with h take have q: "rq_held s r = Some (k, rid, x)" by simp
      note t = req_heldD [OF assms(3) q]
      have "k \<noteq> j" using tab(3) q by blast
      with take t show ?thesis by (auto simp: req_of_cases)
    qed
  next
    case (put r' j rid' y)
    with h have q: "rq_held s r = Some (k, rid, x)" "r \<noteq> r'" by (auto split: if_splits)
    note t = req_heldD [OF assms(3) q(1)]
    have "k \<noteq> j" using t(4) put(2) q(2) by blast
    then show ?thesis using put t by (auto simp: req_of_cases)
  next
    case (receive j rid' a as)
    with h have q: "rq_held s r = Some (k, rid, x)" by simp
    note t = req_heldD [OF assms(3) q]
    have "k \<noteq> j" using t(2) receive by auto
    then show ?thesis using receive t by (auto simp: req_of_cases)
  next
    case (timeout j rid')
    with h have q: "rq_held s r = Some (k, rid, x)" by simp
    show ?thesis using timeout req_heldD [OF assms(3) q] by (auto simp: req_of_cases)
  next
    case (forget j rid')
    with h have q: "rq_held s r = Some (k, rid, x)" by simp
    show ?thesis using forget req_heldD [OF assms(3) q] by (auto simp: req_of_cases)
  qed
qed

lemma req_chan_step:
  assumes "req_step s s'" and "req_held s" and "req_chan s"
  shows "req_chan s'"
  unfolding req_chan_def
proof (intro allI impI)
  fix k a as
  assume c: "rq_chan s' k = a # as"
  from assms(1) show "as = [] \<and> req_of s' k = Some (fst a) \<and> rq_pending s' (fst a) = None"
  proof cases
    case (register j rid')
    with c have q: "rq_chan s k = a # as" by simp
    note t = req_chanD [OF assms(3) q]
    have "k \<noteq> j" using t(2) req_of_new [OF register(2)] by auto
    moreover have "fst a \<noteq> rid'" using t(2) not_requested [OF register(4)] by auto
    ultimately show ?thesis using register t by (simp add: req_of_cases)
  next
    case (take r rid' j y)
    with c have q: "rq_chan s k = a # as" by simp
    show ?thesis using take req_chanD [OF assms(3) q] by (simp add: req_of_cases)
  next
    case (put r j rid' y)
    note t = req_heldD [OF assms(2) put(2)]
    show ?thesis
    proof (cases "k = j")
      case True
      then have "a = (rid', y)" "as = []" using c put(1) t(2) by simp_all
      with True put(1) t show ?thesis by (simp add: req_of_cases)
    next
      case False
      with c put have q: "rq_chan s k = a # as" by simp
      show ?thesis using put req_chanD [OF assms(3) q] by (simp add: req_of_cases)
    qed
  next
    case (receive j rid' b bs)
    show ?thesis
    proof (cases "k = j")
      case True
      with c receive req_chanD(1) [OF assms(3) receive(3)] show ?thesis by simp
    next
      case False
      with c receive have q: "rq_chan s k = a # as" by simp
      show ?thesis using receive req_chanD [OF assms(3) q] by (simp add: req_of_cases)
    qed
  next
    case (timeout j rid')
    with c have q: "rq_chan s k = a # as" by simp
    show ?thesis using timeout req_chanD [OF assms(3) q] by (simp add: req_of_cases)
  next
    case (forget j rid')
    with c have q: "rq_chan s k = a # as" by simp
    show ?thesis using forget req_chanD [OF assms(3) q] by (simp add: req_of_cases)
  qed
qed

lemma req_done_step:
  assumes "req_step s s'" and "req_chan s" and "req_done s"
  shows "req_done s'"
  unfolding req_done_def
proof (intro allI impI)
  fix k rid a
  assume r: "rq_pc s' k = Some (Returned rid a)"
  from assms(1) show "rq_pending s' rid = None \<and> (\<forall>b. a = Some b \<longrightarrow> fst b = rid)"
  proof cases
    case (register j rid')
    with r have q: "rq_pc s k = Some (Returned rid a)" by (auto split: if_splits)
    have "rid \<noteq> rid'" using req_of_pc [OF q] not_requested [OF register(4)] by auto
    then show ?thesis using register req_doneD [OF assms(3) q] by simp
  next
    case (receive j rid' b bs)
    show ?thesis
    proof (cases "k = j")
      case True
      then have e: "rid = rid'" "a = Some b" using r receive by simp_all
      have "Some rid' = Some (fst b)" using req_chanD(2) [OF assms(2) receive(3)] req_of_pc [OF receive(2)] by simp
      then show ?thesis using receive e req_chanD(3) [OF assms(2) receive(3)] by simp
    next
      case False
      with r receive have q: "rq_pc s k = Some (Returned rid a)" by simp
      show ?thesis using receive req_doneD [OF assms(3) q] by simp
    qed
  next
    case (forget j rid')
    show ?thesis
    proof (cases "k = j")
      case True
      with r forget show ?thesis by simp
    next
      case False
      with r forget have q: "rq_pc s k = Some (Returned rid a)" by simp
      show ?thesis using forget req_doneD [OF assms(3) q] by simp
    qed
  next
    case (timeout j rid')
    with r have q: "rq_pc s k = Some (Returned rid a)" by (auto split: if_splits)
    show ?thesis using timeout req_doneD [OF assms(3) q] by simp
  qed (use r req_doneD [OF assms(3), of k rid a] in auto)
qed

text \<open>C37: Every request is answered once, by its own answer. Whatever the interleaving of senders,
  readers and timeouts: a reader that holds an answer finds room in the channel, so it is never
  blocked; a request that has returned is not in the table any more; and what it returned is the
  message that carried its number, or nothing after the timeout.\<close>

theorem requests_answered_once:
  assumes "req_reach s"
  shows "(\<forall>r k rid x. rq_held s r = Some (k, rid, x) \<longrightarrow> length (rq_chan s k) < chan_cap) \<and>
    (\<forall>k rid a. rq_pc s k = Some (Returned rid a) \<longrightarrow> rq_pending s rid = None \<and> (\<forall>b. a = Some b \<longrightarrow> fst b = rid))"
proof -
  have "req_unique s \<and> req_table s \<and> req_held s \<and> req_chan s \<and> req_done s"
    using assms
  proof (induction rule: req_reach.induct)
    case start
    show ?case
      by (simp add: req_unique_def req_table_def req_held_def req_chan_def req_done_def req_start_def req_of_def)
  next
    case (step s s')
    then show ?case
      using req_unique_step req_table_step req_held_step req_chan_step req_done_step by blast
  qed
  then show ?thesis
    unfolding req_held_def req_done_def chan_cap_def by auto
qed

definition answered_state :: req_state where
  "answered_state = \<lparr>rq_pending = (\<lambda>_. None), rq_chan = (\<lambda>_. []),
     rq_pc = [3 \<mapsto> Returned ''id'' (Some (''id'', \<lparr>g_Msg = ''OK'', g_Data = None\<rparr>))], rq_held = (\<lambda>_. None)\<rparr>"

lemma answered_reached: "req_reach answered_state"
proof -
  let ?x = "\<lparr>g_Msg = ''OK'', g_Data = None\<rparr> :: GostResponse"
  let ?s1 = "req_start\<lparr>rq_pending := (rq_pending req_start)(''id'' \<mapsto> 3), rq_pc := (rq_pc req_start)(3 \<mapsto> Waiting ''id'')\<rparr>"
  let ?s2 = "?s1\<lparr>rq_pending := (rq_pending ?s1)(''id'' := None), rq_held := (rq_held ?s1)(0 \<mapsto> (3, ''id'', ?x))\<rparr>"
  let ?s3 = "?s2\<lparr>rq_chan := (rq_chan ?s2)(3 := rq_chan ?s2 3 @ [(''id'', ?x)]), rq_held := (rq_held ?s2)(0 := None)\<rparr>"
  let ?s4 = "?s3\<lparr>rq_chan := (rq_chan ?s3)(3 := []), rq_pc := (rq_pc ?s3)(3 \<mapsto> Returned ''id'' (Some (''id'', ?x)))\<rparr>"
  have 1: "req_reach ?s1"
    by (rule req_reach.step [OF req_reach.start req_step.register]) (simp_all add: req_start_def)
  have 2: "req_reach ?s2" by (rule req_reach.step [OF 1 req_step.take]) (simp_all add: req_start_def)
  have 3: "req_reach ?s3"
    by (rule req_reach.step [OF 2 req_step.put]) (simp_all add: req_start_def chan_cap_def)
  have 4: "req_reach ?s4" by (rule req_reach.step [OF 3 req_step.receive]) (simp_all add: req_start_def)
  moreover have "?s4 = answered_state" by (simp add: answered_state_def req_start_def fun_eq_iff)
  ultimately show ?thesis by simp
qed

theorem requests_answered_once_witness:
  "rq_pc answered_state 3 = Some (Returned ''id'' (Some (''id'', \<lparr>g_Msg = ''OK'', g_Data = None\<rparr>))) \<and>
   rq_pending answered_state ''id'' = None"
  using requests_answered_once [OF answered_reached] by (auto simp: answered_state_def)

section \<open>Random names\<close>

lemma hex_of_length: "length (hex_of bs) = 2 * length bs"
  by (induction bs) (simp_all add: hex_of_def)

text \<open>Property: The length of the names a random source of enough bytes gives.\<close>

lemma random_name_length: "length b = 16 \<Longrightarrow> length (GenerateUUIDv4 b) = 36"
  "(len + 1) div 2 \<le> length b \<Longrightarrow> length (GenerateRandomString b len) = len"
  by (auto simp: GenerateUUIDv4_def GenerateRandomString_def hex_of_length Let_def min_def)

end
