(* ===== verification/Go_Json.thy ===== *)
theory Go_Json
  imports Go_Text "HOL-Library.Finite_Map"
begin

text \<open>
  The values of Go's \<open>encoding/json\<close> as the code handles them: what \<open>json.Unmarshal\<close> puts into
  an \<open>interface{}\<close>. An object is a finite map, as a Go map is; a number is the text that
  \<open>json.Marshal\<close> prints for it. The helpers are the type assertions of the code, which yield the
  zero value (an empty string, a nil slice, no map) when the value has another type.
\<close>

datatype json =
    JNull
  | JBool bool
  | JNum string
  | JStr string
  | JArr "json list"
  | JObj "(string, json) fmap"

type_synonym json_obj = "(string, json) fmap"

definition JInt :: "int \<Rightarrow> json" where
  "JInt n = JNum (itoa n)"

definition json_obj :: "(string \<times> json) list \<Rightarrow> json" where
  "json_obj kvs = JObj (fmap_of_list kvs)"

definition as_obj :: "json option \<Rightarrow> json_obj option" where
  "as_obj j = (case j of Some (JObj m) \<Rightarrow> Some m | _ \<Rightarrow> None)"

definition as_list :: "json option \<Rightarrow> json list" where
  "as_list j = (case j of Some (JArr xs) \<Rightarrow> xs | _ \<Rightarrow> [])"

definition as_text :: "json option \<Rightarrow> string" where
  "as_text j = (case j of Some (JStr s) \<Rightarrow> s | _ \<Rightarrow> [])"

text \<open>A slice built by \<open>append\<close> from a nil slice is printed as \<open>null\<close> while it is empty.\<close>

definition JSlice :: "json list \<Rightarrow> json" where
  "JSlice xs = (if xs = [] then JNull else JArr xs)"

text \<open>\<open>m[key] == s\<close> for a value that must be an object.\<close>

definition key_is :: "string \<Rightarrow> string \<Rightarrow> json \<Rightarrow> bool" where
  "key_is key s j = (case j of JObj m \<Rightarrow> fmlookup m key = Some (JStr s) | _ \<Rightarrow> False)"

text \<open>A loop that changes the first element it looks for and stops.\<close>

fun update_first :: "('a \<Rightarrow> bool) \<Rightarrow> ('a \<Rightarrow> 'a) \<Rightarrow> 'a list \<Rightarrow> 'a list" where
  "update_first p f [] = []"
| "update_first p f (x # xs) = (if p x then f x # xs else x # update_first p f xs)"

lemma as_list_slice [simp]: "as_list (Some (JSlice xs)) = xs"
  by (simp add: as_list_def JSlice_def)

lemma as_list_arr [simp]: "as_list (Some (JArr xs)) = xs"
  by (simp add: as_list_def)

lemma as_obj_Some [simp]: "as_obj (Some (JObj m)) = Some m"
  by (simp add: as_obj_def)

lemma as_text_Some [simp]: "as_text (Some (JStr s)) = s"
  by (simp add: as_text_def)

lemma key_is_obj [simp]: "key_is key s (JObj m) \<longleftrightarrow> fmlookup m key = Some (JStr s)"
  by (simp add: key_is_def)

lemma key_is_objE: "key_is key s j \<Longrightarrow> (\<And>m. j = JObj m \<Longrightarrow> fmlookup m key = Some (JStr s) \<Longrightarrow> P) \<Longrightarrow> P"
  by (auto simp: key_is_def split: json.splits)

lemma filter_update_first:
  "(\<And>x. p x \<Longrightarrow> q (f x) = q x) \<Longrightarrow> (\<And>x. p x \<Longrightarrow> \<not> q x) \<Longrightarrow>
   filter q (update_first p f xs) = filter q xs"
  by (induction xs) auto

lemma find_update_first:
  "(\<And>x. p x \<Longrightarrow> p (f x)) \<Longrightarrow> find p (update_first p f xs) = map_option f (find p xs)"
  by (induction xs) auto

lemma update_first_none: "find p xs = None \<Longrightarrow> update_first p f xs = xs"
  by (induction xs) (auto split: if_splits)

lemma update_first_twice:
  "(\<And>x. p x \<Longrightarrow> p (f x)) \<Longrightarrow>
   update_first p g (update_first p f xs) = update_first p (\<lambda>x. g (f x)) xs"
  by (induction xs) auto

lemma update_first_same: "(\<And>x. p x \<Longrightarrow> find p xs = Some x \<Longrightarrow> f x = x) \<Longrightarrow> update_first p f xs = xs"
  by (induction xs) auto

lemma update_first_cong:
  "(\<And>x. find p xs = Some x \<Longrightarrow> f x = g x) \<Longrightarrow> update_first p f xs = update_first p g xs"
  by (induction xs) auto

end
