(* ===== verification/Xray_Data.thy ===== *)
theory Xray_Data
  imports Go_Json Access
begin

text \<open>
  The panel's Xray tables with all their columns (model/xray_inbound.go, model/xray_client.go,
  model/xray_tls_cert.go), the commands of pkg/xray.go, and the world their handlers run in.
  \<open>Panel_Data\<close> keeps the few columns of inbounds and clients that deletion and accounting touch;
  here the rest of the panel's database is read only (\<open>x_panel\<close>).

  \<open>x_parse\<close> and \<open>x_print\<close> are \<open>json.Unmarshal\<close> and \<open>json.Marshal\<close> on the settings texts,
  \<open>x_uuid\<close> and \<open>x_random\<close> the generated secrets, \<open>x_ok\<close> says which write statement succeeds,
  \<open>x_transport\<close> is what a node answers. \<open>x_send\<close> is \<open>SendMsg\<close> with these messages.
\<close>

section \<open>Tables\<close>

record Inbound =
  ib_ID :: int
  ib_NodeId :: int
  ib_UserId :: int
  ib_Tag :: string
  ib_Protocol :: string
  ib_Listen :: string
  ib_Port :: int
  ib_SettingsJson :: string
  ib_StreamSettingsJson :: string
  ib_SniffingJson :: string
  ib_Remark :: string
  ib_CustomEntry :: string
  ib_Enable :: int
  ib_CreatedTime :: int
  ib_UpdatedTime :: int

record Client =
  cl_ID :: int
  cl_InboundId :: int
  cl_UserId :: int
  cl_Email :: string
  cl_UuidOrPassword :: string
  cl_Flow :: string
  cl_AlterId :: int
  cl_TotalTraffic :: int
  cl_UpTraffic :: int
  cl_DownTraffic :: int
  cl_ExpTime :: "int option"
  cl_LimitIp :: int
  cl_Reset :: int
  cl_Enable :: int
  cl_Remark :: string
  cl_CreatedTime :: int
  cl_UpdatedTime :: int

record Cert =
  ce_ID :: int
  ce_NodeId :: int
  ce_Domain :: string
  ce_PublicKey :: string
  ce_PrivateKey :: string
  ce_AutoRenew :: int
  ce_AcmeEnabled :: int
  ce_AcmeEmail :: string
  ce_ChallengeType :: string
  ce_DnsProvider :: string
  ce_DnsConfig :: string
  ce_LastRenewTime :: "int option"
  ce_RenewError :: string
  ce_ExpireTime :: "int option"
  ce_CreatedTime :: int
  ce_UpdatedTime :: int

record xdb =
  inbounds :: "Inbound list"
  clients :: "Client list"
  certs :: "Cert list"
  inbound_seq :: int
  client_seq :: int
  cert_seq :: int

interpretation inbound_tbl: keyed_table inbounds inbounds_update ib_ID
  by unfold_locales simp

interpretation client_tbl: keyed_table clients clients_update cl_ID
  by unfold_locales simp

interpretation cert_tbl: keyed_table certs certs_update ce_ID
  by unfold_locales simp

definition firstInbound :: "xdb \<Rightarrow> int \<Rightarrow> Inbound option" where
  "firstInbound d k = first_where (\<lambda>i. ib_ID i = k) (inbounds d)"

definition firstClient :: "xdb \<Rightarrow> int \<Rightarrow> Client option" where
  "firstClient d k = first_where (\<lambda>c. cl_ID c = k) (clients d)"

definition firstCert :: "xdb \<Rightarrow> int \<Rightarrow> Cert option" where
  "firstCert d k = first_where (\<lambda>c. ce_ID c = k) (certs d)"

definition insertInbound :: "Inbound \<Rightarrow> xdb \<Rightarrow> xdb" where
  "insertInbound i d = d\<lparr>inbounds := insert_row (i\<lparr>ib_ID := inbound_seq d\<rparr>) (inbounds d),
     inbound_seq := inbound_seq d + 1\<rparr>"

definition insertClient :: "Client \<Rightarrow> xdb \<Rightarrow> xdb" where
  "insertClient c d = d\<lparr>clients := insert_row (c\<lparr>cl_ID := client_seq d\<rparr>) (clients d),
     client_seq := client_seq d + 1\<rparr>"

definition insertCert :: "Cert \<Rightarrow> xdb \<Rightarrow> xdb" where
  "insertCert c d = d\<lparr>certs := insert_row (c\<lparr>ce_ID := cert_seq d\<rparr>) (certs d),
     cert_seq := cert_seq d + 1\<rparr>"

text \<open>\<open>DB.Model(&row).Updates\<close> and \<open>DB.Save(&row)\<close>.\<close>

definition set_inbound :: "int \<Rightarrow> (Inbound \<Rightarrow> Inbound) \<Rightarrow> xdb \<Rightarrow> xdb" where
  "set_inbound k f = inbounds_update (update_where (\<lambda>i. ib_ID i = k) f)"

definition set_client :: "int \<Rightarrow> (Client \<Rightarrow> Client) \<Rightarrow> xdb \<Rightarrow> xdb" where
  "set_client k f = clients_update (update_where (\<lambda>c. cl_ID c = k) f)"

definition set_cert :: "int \<Rightarrow> (Cert \<Rightarrow> Cert) \<Rightarrow> xdb \<Rightarrow> xdb" where
  "set_cert k f = certs_update (update_where (\<lambda>c. ce_ID c = k) f)"

section \<open>Commands\<close>

text \<open>An inbound as it is sent: \<open>InboundConfig\<close> of go-node/x/xray/manager.go has the same keys.\<close>

record InboundConfig =
  ic_Tag :: string
  ic_Protocol :: string
  ic_Listen :: string
  ic_Port :: int
  ic_SettingsJSON :: string
  ic_StreamSettingsJSON :: string
  ic_SniffingJSON :: string

record UserConfig =
  uc_InboundTag :: string
  uc_Email :: string
  uc_UuidOrPassword :: string
  uc_Flow :: string
  uc_AlterId :: int
  uc_Protocol :: string

datatype xmsg =
    VStart | VStop | VRestart | VStatus
  | VAddInbound InboundConfig
  | VRemoveInbound string
  | VAddClient UserConfig
  | VRemoveClient string string
  | VGetTraffic
  | VApplyConfig "InboundConfig list"
  | VSwitchVersion string
  | VGetInboundTags
  | VDeployCert string string string

datatype xdata =
    Inbound_tags "string list"
  | Xray_status bool string
  | Xray_traffic "(string \<times> int \<times> int) list"

record xresponse =
  xr_Msg :: string
  xr_Data :: "xdata option"

record 'n xenv =
  x_now :: int
  x_panel :: db
  x_ok :: "nat \<Rightarrow> bool"
  x_online :: "int \<Rightarrow> bool"
  x_transport :: "int \<Rightarrow> xmsg \<Rightarrow> 'n \<Rightarrow> xresponse option \<times> 'n"
  x_parse :: "string \<Rightarrow> json option"
  x_print :: "json \<Rightarrow> string"
  x_uuid :: string
  x_random :: string

record 'n xworld =
  xd :: xdb
  xops :: nat
  xnet :: 'n
  xsent :: "(int \<times> xmsg) list"

definition x_write :: "'n xenv \<Rightarrow> (xdb \<Rightarrow> xdb) \<Rightarrow> 'n xworld \<Rightarrow> bool \<times> 'n xworld" where
  "x_write e f w =
     (let w1 = w\<lparr>xops := Suc (xops w)\<rparr>
      in if x_ok e (xops w) then (True, w1\<lparr>xd := f (xd w1)\<rparr>) else (False, w1))"

definition x_exec :: "'n xenv \<Rightarrow> (xdb \<Rightarrow> xdb) \<Rightarrow> 'n xworld \<Rightarrow> 'n xworld" where
  "x_exec e f w = snd (x_write e f w)"

definition x_send :: "'n xenv \<Rightarrow> int \<Rightarrow> xmsg \<Rightarrow> 'n xworld \<Rightarrow> xresponse \<times> 'n xworld" where
  "x_send e nodeId m w =
     (if \<not> x_online e nodeId then (\<lparr>xr_Msg = ''node offline'', xr_Data = None\<rparr>, w)
      else (let (r, net) = x_transport e nodeId m (xnet w);
                w1 = w\<lparr>xnet := net, xsent := xsent w @ [(nodeId, m)]\<rparr>
            in case r of
                 None \<Rightarrow> (\<lparr>xr_Msg = ''timeout'', xr_Data = None\<rparr>, w1)
               | Some result \<Rightarrow>
                   (if xr_Msg result = [] then result\<lparr>xr_Msg := ''OK''\<rparr> else result, w1)))"

definition inbound_config :: "Inbound \<Rightarrow> InboundConfig" where
  "inbound_config ib = \<lparr>ic_Tag = ib_Tag ib, ic_Protocol = ib_Protocol ib, ic_Listen = ib_Listen ib,
     ic_Port = ib_Port ib, ic_SettingsJSON = ib_SettingsJson ib,
     ic_StreamSettingsJSON = ib_StreamSettingsJson ib, ic_SniffingJSON = ib_SniffingJson ib\<rparr>"

definition XrayStop :: "'n xenv \<Rightarrow> int \<Rightarrow> 'n xworld \<Rightarrow> xresponse \<times> 'n xworld" where
  "XrayStop e nodeId = x_send e nodeId VStop"

definition XrayAddInbound ::
  "'n xenv \<Rightarrow> int \<Rightarrow> Inbound \<Rightarrow> 'n xworld \<Rightarrow> xresponse \<times> 'n xworld" where
  "XrayAddInbound e nodeId inbound = x_send e nodeId (VAddInbound (inbound_config inbound))"

definition XrayRemoveInbound_x ::
  "'n xenv \<Rightarrow> int \<Rightarrow> string \<Rightarrow> 'n xworld \<Rightarrow> xresponse \<times> 'n xworld" where
  "XrayRemoveInbound_x e nodeId tag = x_send e nodeId (VRemoveInbound tag)"

definition XrayAddClient ::
  "'n xenv \<Rightarrow> int \<Rightarrow> string \<Rightarrow> string \<Rightarrow> string \<Rightarrow> string \<Rightarrow> int \<Rightarrow> string \<Rightarrow> 'n xworld
     \<Rightarrow> xresponse \<times> 'n xworld" where
  "XrayAddClient e nodeId inboundTag email uuidOrPassword flow alterId protocol =
     x_send e nodeId (VAddClient \<lparr>uc_InboundTag = inboundTag, uc_Email = email,
       uc_UuidOrPassword = uuidOrPassword, uc_Flow = flow, uc_AlterId = alterId,
       uc_Protocol = protocol\<rparr>)"

text \<open>Every caller passes the node, tag and protocol of the inbound and the fields of the client.\<close>

definition add_client :: "'n xenv \<Rightarrow> Inbound \<Rightarrow> Client \<Rightarrow> 'n xworld \<Rightarrow> xresponse \<times> 'n xworld" where
  "add_client e ib c = XrayAddClient e (ib_NodeId ib) (ib_Tag ib) (cl_Email c)
     (cl_UuidOrPassword c) (cl_Flow c) (cl_AlterId c) (ib_Protocol ib)"

definition XrayRemoveClient_x ::
  "'n xenv \<Rightarrow> int \<Rightarrow> string \<Rightarrow> string \<Rightarrow> 'n xworld \<Rightarrow> xresponse \<times> 'n xworld" where
  "XrayRemoveClient_x e nodeId tag email = x_send e nodeId (VRemoveClient tag email)"

definition XrayApplyConfig ::
  "'n xenv \<Rightarrow> int \<Rightarrow> Inbound list \<Rightarrow> 'n xworld \<Rightarrow> xresponse \<times> 'n xworld" where
  "XrayApplyConfig e nodeId ibs = x_send e nodeId (VApplyConfig (map inbound_config ibs))"

definition XrayGetInboundTags :: "'n xenv \<Rightarrow> int \<Rightarrow> 'n xworld \<Rightarrow> xresponse \<times> 'n xworld" where
  "XrayGetInboundTags e nodeId = x_send e nodeId VGetInboundTags"

definition XrayDeployCert ::
  "'n xenv \<Rightarrow> int \<Rightarrow> string \<Rightarrow> string \<Rightarrow> string \<Rightarrow> 'n xworld \<Rightarrow> xresponse \<times> 'n xworld" where
  "XrayDeployCert e nodeId domain publicKey privateKey =
     x_send e nodeId (VDeployCert domain publicKey privateKey)"

section \<open>Frames\<close>

lemma x_write_net [frame_simps]:
  "xnet (snd (x_write e f w)) = xnet w" "xsent (snd (x_write e f w)) = xsent w"
  by (simp_all add: x_write_def Let_def)

lemma x_exec_net [frame_simps]: "xnet (x_exec e f w) = xnet w" "xsent (x_exec e f w) = xsent w"
  by (simp_all add: x_exec_def frame_simps)

lemma x_write_xd: "x_write e f w = (ok, w') \<Longrightarrow> xd w' = (if ok then f (xd w) else xd w)"
  by (auto simp: x_write_def Let_def split: if_splits)

lemma x_exec_xd: "xd (x_exec e f w) = f (xd w) \<or> xd (x_exec e f w) = xd w"
  by (simp add: x_exec_def x_write_def Let_def)

lemma x_send_xd [frame_simps]:
  "xd (snd (x_send e n m w)) = xd w" "xops (snd (x_send e n m w)) = xops w"
  by (simp_all add: x_send_def Let_def split: prod.split option.split)

lemma x_send_eqD: "x_send e n m w = (r, w') \<Longrightarrow> xd w' = xd w \<and> xops w' = xops w"
  by (metis snd_conv x_send_xd(1) x_send_xd(2))

lemma x_send_msg_nonempty: "x_send e n m w = (r, w') \<Longrightarrow> xr_Msg r \<noteq> []"
  by (auto simp: x_send_def Let_def split: prod.splits option.splits if_splits)

lemma firstInbound_Some: "firstInbound d k = Some i \<Longrightarrow> i \<in> set (inbounds d) \<and> ib_ID i = k"
  unfolding firstInbound_def by (rule inbound_tbl.by_key_Some)

lemma firstClient_Some: "firstClient d k = Some c \<Longrightarrow> c \<in> set (clients d) \<and> cl_ID c = k"
  unfolding firstClient_def by (rule client_tbl.by_key_Some)

lemma firstCert_Some: "firstCert d k = Some c \<Longrightarrow> c \<in> set (certs d) \<and> ce_ID c = k"
  unfolding firstCert_def by (rule cert_tbl.by_key_Some)

end
