(* ===== verification/Xray_Api.thy ===== *)
theory Xray_Api
  imports Xray_Data
begin

text \<open>
  The Xray requests of the panel: inbounds (service/xray_inbound.go), clients
  (service/xray_client.go), the hourly reset of clients (service/xray_scheduler.go) and
  certificates (service/xray_cert.go, the renewal of service/acme.go with the ACME exchange as
  the parameter \<open>acme\<close>). A handler changes its tables, tells the node at once, and rolls the
  tables back when the node refuses. A panic is the answer \<open>XCrashed\<close>: writing into the map of
  settings that are the text \<open>null\<close>.
\<close>

datatype xerr =
    XUserNotFound | NoXrayPermission | NoXrayNodeAccess | NodeXrayDisabled | XNodeNotFound
  | InboundPortTaken | InboundNotFound | InboundCreateFailed | NotOwnInbound
  | HotAddInboundFailed string | HotRemoveInboundFailed string
  | ClientNotFound | ClientCreateFailed | NotOwnClient | UnsupportedProtocol
  | HotAddClientFailed string | HotRemoveClientFailed string
  | CertNotFound | CertCreateFailed | AcmeDisabled | IssueFailed string

datatype xreply =
    XErr xerr
  | XOk
  | XInbound Inbound
  | XWarn string Inbound
  | XClient Client
  | XCert Cert
  | XCrashed

section \<open>Permissions\<close>

definition checkXrayPermission :: "db \<Rightarrow> int \<Rightarrow> int \<Rightarrow> xerr option" where
  "checkXrayPermission d userId roleId =
     (if roleId = 0 then None
      else case firstUser d userId of
             None \<Rightarrow> Some XUserNotFound
           | Some user \<Rightarrow> if u_XrayEnabled user \<noteq> 1 then Some NoXrayPermission else None)"

definition checkXrayNodeAccess :: "db \<Rightarrow> int \<Rightarrow> int \<Rightarrow> int \<Rightarrow> xerr option" where
  "checkXrayNodeAccess d userId roleId nodeId =
     (if roleId = 0 then None
      else case first_where (\<lambda>un. un_UserId un = userId \<and> un_NodeId un = nodeId) (user_nodes d) of
             None \<Rightarrow>
               (if count_where (\<lambda>un. un_UserId un = userId) (user_nodes d) = 0 then None
                else Some NoXrayNodeAccess)
           | Some un \<Rightarrow> if un_XrayEnabled un \<noteq> 1 then Some NodeXrayDisabled else None)"

definition getUserAccessibleXrayNodeIds :: "db \<Rightarrow> int \<Rightarrow> int list" where
  "getUserAccessibleXrayNodeIds d userId =
     (if count_where (\<lambda>un. un_UserId un = userId) (user_nodes d) = 0 then map n_ID (nodes d)
      else map un_NodeId (find_where (\<lambda>un. un_UserId un = userId \<and> un_XrayEnabled un = 1)
             (user_nodes d)))"

section \<open>Clients inside the settings of an inbound\<close>

definition blake3 :: string where "blake3 = ''2022-blake3-''"

text \<open>The object of one client in \<open>mergeClientsIntoSettings\<close>.\<close>

definition merge_client :: "string \<Rightarrow> string \<Rightarrow> Client \<Rightarrow> json" where
  "merge_client protocol ssMethod c =
     json_obj ([(''email'', JStr (cl_Email c)), (''level'', JInt 0)] @
       (if protocol = ''vmess'' then [(''id'', JStr (cl_UuidOrPassword c)), (''alterId'', JInt (cl_AlterId c))]
        else if protocol = ''vless'' then [(''id'', JStr (cl_UuidOrPassword c)), (''flow'', JStr (cl_Flow c))]
        else if protocol = ''trojan'' then [(''password'', JStr (cl_UuidOrPassword c))]
        else if protocol = ''shadowsocks'' then
          (''password'', JStr (cl_UuidOrPassword c)) #
          (if ssMethod \<noteq> [] then
             [(''method'', JStr (if has_prefix ssMethod blake3 then [] else ssMethod))]
           else [])
        else []))"

text \<open>\<open>None\<close>: the settings are the text \<open>null\<close>, which unmarshals to a nil map, and the
  assignment to it panics.\<close>

definition parsed_settings :: "'n xenv \<Rightarrow> string \<Rightarrow> json_obj option" where
  "parsed_settings e s =
     (case x_parse e s of Some (JObj m) \<Rightarrow> Some m | Some JNull \<Rightarrow> None | _ \<Rightarrow> Some fmempty)"

definition active_clients :: "xdb \<Rightarrow> int \<Rightarrow> Client list" where
  "active_clients d inboundId = find_where (\<lambda>c. cl_InboundId c = inboundId \<and> cl_Enable c = 1) (clients d)"

definition merged_settings :: "xdb \<Rightarrow> Inbound \<Rightarrow> json_obj \<Rightarrow> json_obj" where
  "merged_settings d inbound settings =
     (let ssMethod = as_text (fmlookup settings ''method'')
      in fmupd ''clients'' (JArr (map (merge_client (ib_Protocol inbound) ssMethod)
           (active_clients d (ib_ID inbound)))) settings)"

definition mergeClientsIntoSettings :: "'n xenv \<Rightarrow> xdb \<Rightarrow> Inbound \<Rightarrow> string option" where
  "mergeClientsIntoSettings e d inbound =
     map_option (\<lambda>settings. x_print e (JObj (merged_settings d inbound settings)))
       (parsed_settings e (ib_SettingsJson inbound))"

section \<open>Inbounds\<close>

record XrayInboundDto =
  xid_NodeId :: int
  xid_Tag :: string
  xid_Protocol :: string
  xid_Listen :: string
  xid_Port :: int
  xid_SettingsJson :: string
  xid_StreamSettingsJson :: string
  xid_SniffingJson :: string
  xid_Remark :: string
  xid_CustomEntry :: string

record XrayInboundUpdateDto =
  xiu_ID :: int
  xiu_Tag :: string
  xiu_Protocol :: string
  xiu_Listen :: string
  xiu_Port :: "int option"
  xiu_SettingsJson :: string
  xiu_StreamSettingsJson :: string
  xiu_SniffingJson :: string
  xiu_Remark :: string
  xiu_CustomEntry :: "string option"

text \<open>The words ``not installed'' that \<open>CreateXrayInbound\<close> looks for, in UTF-8.\<close>

definition not_installed :: string where
  "not_installed = map char_of [0xE6, 0x9C, 0xAA, 0xE5, 0xAE, 0x89, 0xE8, 0xA3, 0x85 :: nat]"

definition new_inbound :: "'n xenv \<Rightarrow> XrayInboundDto \<Rightarrow> int \<Rightarrow> int \<Rightarrow> Inbound" where
  "new_inbound e d userId roleId =
     \<lparr>ib_ID = 0, ib_NodeId = xid_NodeId d, ib_UserId = (if roleId \<noteq> 0 then userId else 0),
      ib_Tag = xid_Tag d, ib_Protocol = xid_Protocol d,
      ib_Listen = (if xid_Listen d \<noteq> [] then xid_Listen d else ''::''), ib_Port = xid_Port d,
      ib_SettingsJson = xid_SettingsJson d, ib_StreamSettingsJson = xid_StreamSettingsJson d,
      ib_SniffingJson = xid_SniffingJson d, ib_Remark = xid_Remark d,
      ib_CustomEntry = xid_CustomEntry d, ib_Enable = 1, ib_CreatedTime = x_now e,
      ib_UpdatedTime = x_now e\<rparr>"

text \<open>The end of \<open>CreateXrayInbound\<close>: the row exists, the node is told.\<close>

definition deploy_new_inbound ::
  "'n xenv \<Rightarrow> int \<Rightarrow> Inbound \<Rightarrow> 'n xworld \<Rightarrow> xreply \<times> 'n xworld" where
  "deploy_new_inbound e nodeId inbound w =
     (case mergeClientsIntoSettings e (xd w) inbound of
        None \<Rightarrow> (XCrashed, w)
      | Some settings \<Rightarrow>
          (let inbound1 = inbound\<lparr>ib_SettingsJson := settings\<rparr>;
               (result, w1) = XrayAddInbound e nodeId inbound1 w
           in if xr_Msg result \<noteq> ''OK'' then
                (if contains_str (xr_Msg result) not_installed then (XWarn (xr_Msg result) inbound1, w1)
                 else (XErr (HotAddInboundFailed (xr_Msg result)),
                       x_exec e (set_inbound (ib_ID inbound1) (\<lambda>i. i\<lparr>ib_Enable := - 1\<rparr>)) w1))
              else (XInbound inbound1, w1)))"

definition CreateXrayInbound ::
  "'n xenv \<Rightarrow> XrayInboundDto \<Rightarrow> int \<Rightarrow> int \<Rightarrow> 'n xworld \<Rightarrow> xreply \<times> 'n xworld" where
  "CreateXrayInbound e d userId roleId w =
     (case checkXrayPermission (x_panel e) userId roleId of Some r \<Rightarrow> (XErr r, w) | None \<Rightarrow>
      case checkXrayNodeAccess (x_panel e) userId roleId (xid_NodeId d) of Some r \<Rightarrow> (XErr r, w) | None \<Rightarrow>
      case GetNodeById (x_panel e) (xid_NodeId d) of None \<Rightarrow> (XErr XNodeNotFound, w) | Some node \<Rightarrow>
      if count_where (\<lambda>i. ib_NodeId i = xid_NodeId d \<and> ib_Port i = xid_Port d) (inbounds (xd w)) > 0
      then (XErr InboundPortTaken, w)
      else
        (let (ok, w1) = x_write e (insertInbound (new_inbound e d userId roleId)) w
         in if \<not> ok then (XErr InboundCreateFailed, w1)
            else
              (let inbound = (new_inbound e d userId roleId)\<lparr>ib_ID := inbound_seq (xd w)\<rparr>;
                   tag = ''inbound-'' @ itoa (ib_ID inbound);
                   (inbound1, w2) =
                     (if ib_Tag inbound = [] then
                        (inbound\<lparr>ib_Tag := tag\<rparr>,
                         x_exec e (set_inbound (ib_ID inbound) (\<lambda>i. i\<lparr>ib_Tag := tag\<rparr>)) w1)
                      else (inbound, w1))
               in deploy_new_inbound e (n_ID node) inbound1 w2)))"

text \<open>The checks that open every request on an existing inbound.\<close>

definition editable_inbound :: "'n xenv \<Rightarrow> xdb \<Rightarrow> int \<Rightarrow> int \<Rightarrow> int \<Rightarrow> xerr + Inbound" where
  "editable_inbound e d inboundId userId roleId =
     (case checkXrayPermission (x_panel e) userId roleId of Some r \<Rightarrow> Inl r | None \<Rightarrow>
      case firstInbound d inboundId of None \<Rightarrow> Inl InboundNotFound | Some inbound \<Rightarrow>
      case checkXrayNodeAccess (x_panel e) userId roleId (ib_NodeId inbound) of Some r \<Rightarrow> Inl r | None \<Rightarrow>
      if roleId \<noteq> 0 \<and> ib_UserId inbound \<noteq> userId then Inl NotOwnInbound else Inr inbound)"

definition updated_inbound :: "'n xenv \<Rightarrow> XrayInboundUpdateDto \<Rightarrow> Inbound \<Rightarrow> Inbound" where
  "updated_inbound e d i =
     (let set = (\<lambda>new old. if new \<noteq> [] then new else old)
      in i\<lparr>ib_UpdatedTime := x_now e, ib_Tag := set (xiu_Tag d) (ib_Tag i),
           ib_Protocol := set (xiu_Protocol d) (ib_Protocol i),
           ib_Listen := set (xiu_Listen d) (ib_Listen i),
           ib_Port := (case xiu_Port d of Some p \<Rightarrow> p | None \<Rightarrow> ib_Port i),
           ib_SettingsJson := set (xiu_SettingsJson d) (ib_SettingsJson i),
           ib_StreamSettingsJson := set (xiu_StreamSettingsJson d) (ib_StreamSettingsJson i),
           ib_SniffingJson := set (xiu_SniffingJson d) (ib_SniffingJson i),
           ib_Remark := set (xiu_Remark d) (ib_Remark i),
           ib_CustomEntry := (case xiu_CustomEntry d of Some c \<Rightarrow> c | None \<Rightarrow> ib_CustomEntry i)\<rparr>)"

definition reload_inbound :: "xdb \<Rightarrow> Inbound \<Rightarrow> Inbound" where
  "reload_inbound d i = (case firstInbound d (ib_ID i) of Some row \<Rightarrow> row | None \<Rightarrow> i)"

text \<open>The hot update of \<open>UpdateXrayInbound\<close>: the row is updated, \<open>old\<close> is the row before.\<close>

definition swap_inbound ::
  "'n xenv \<Rightarrow> Inbound \<Rightarrow> Inbound \<Rightarrow> 'n xworld \<Rightarrow> xreply \<times> 'n xworld" where
  "swap_inbound e old new w =
     (let (removed, w1) = XrayRemoveInbound_x e (ib_NodeId new) (ib_Tag old) w
      in if xr_Msg removed \<noteq> ''OK'' then
           (XErr (HotRemoveInboundFailed (xr_Msg removed)), x_exec e (set_inbound (ib_ID old) (\<lambda>_. old)) w1)
         else case mergeClientsIntoSettings e (xd w1) new of None \<Rightarrow> (XCrashed, w1) | Some settings \<Rightarrow>
           (let (added, w2) = XrayAddInbound e (ib_NodeId new) (new\<lparr>ib_SettingsJson := settings\<rparr>) w1
            in if xr_Msg added = ''OK'' then (XOk, w2)
               else case mergeClientsIntoSettings e (xd w2) old of None \<Rightarrow> (XCrashed, w2) | Some settings' \<Rightarrow>
                 (let old1 = old\<lparr>ib_SettingsJson := settings'\<rparr>;
                      w3 = snd (XrayAddInbound e (ib_NodeId old1) old1 w2)
                  in (XErr (HotAddInboundFailed (xr_Msg added)),
                      x_exec e (set_inbound (ib_ID old1) (\<lambda>_. old1)) w3))))"

definition UpdateXrayInbound ::
  "'n xenv \<Rightarrow> XrayInboundUpdateDto \<Rightarrow> int \<Rightarrow> int \<Rightarrow> 'n xworld \<Rightarrow> xreply \<times> 'n xworld" where
  "UpdateXrayInbound e d userId roleId w =
     (case editable_inbound e (xd w) (xiu_ID d) userId roleId of Inl r \<Rightarrow> (XErr r, w) | Inr old \<Rightarrow>
      if (case xiu_Port d of None \<Rightarrow> False
          | Some p \<Rightarrow> p \<noteq> ib_Port old \<and> count_where (\<lambda>i. ib_NodeId i = ib_NodeId old \<and> ib_Port i = p \<and>
              ib_ID i \<noteq> xiu_ID d) (inbounds (xd w)) > 0)
      then (XErr InboundPortTaken, w)
      else
        (let w1 = x_exec e (set_inbound (ib_ID old) (updated_inbound e d)) w;
             new = reload_inbound (xd w1) (updated_inbound e d old)
         in if ib_Enable old = 0 then (XOk, w1) else swap_inbound e old new w1))"

text \<open>\<open>stop_if_idle\<close>: the last enabled inbound of a node takes the proxy with it.\<close>

definition stop_if_idle :: "'n xenv \<Rightarrow> int \<Rightarrow> 'n xworld \<Rightarrow> 'n xworld" where
  "stop_if_idle e nodeId w =
     (if count_where (\<lambda>i. ib_NodeId i = nodeId \<and> ib_Enable i = 1) (inbounds (xd w)) = 0
      then snd (XrayStop e nodeId w) else w)"

definition DeleteXrayInbound ::
  "'n xenv \<Rightarrow> int \<Rightarrow> int \<Rightarrow> int \<Rightarrow> 'n xworld \<Rightarrow> xreply \<times> 'n xworld" where
  "DeleteXrayInbound e inboundId userId roleId w =
     (case editable_inbound e (xd w) inboundId userId roleId of Inl r \<Rightarrow> (XErr r, w) | Inr inbound \<Rightarrow>
        (let (msg, w1) =
           (if x_online e (ib_NodeId inbound) then
              (let (r, w1) = XrayRemoveInbound_x e (ib_NodeId inbound) (ib_Tag inbound) w in (xr_Msg r, w1))
            else (''OK'', w))
         in if msg \<noteq> ''OK'' then (XErr (HotRemoveInboundFailed msg), w1)
            else
              (let w2 = x_exec e (clients_update (delete_where (\<lambda>c. cl_InboundId c = inboundId))) w1;
                   w3 = x_exec e (inbounds_update (delete_where (\<lambda>i. ib_ID i = ib_ID inbound))) w2
               in (XOk, stop_if_idle e (ib_NodeId inbound) w3))))"

definition EnableXrayInbound ::
  "'n xenv \<Rightarrow> int \<Rightarrow> int \<Rightarrow> int \<Rightarrow> 'n xworld \<Rightarrow> xreply \<times> 'n xworld" where
  "EnableXrayInbound e inboundId userId roleId w =
     (case editable_inbound e (xd w) inboundId userId roleId of Inl r \<Rightarrow> (XErr r, w) | Inr inbound \<Rightarrow>
        (let flip = (\<lambda>v i. i\<lparr>ib_Enable := v, ib_UpdatedTime := x_now e\<rparr>);
             w1 = x_exec e (set_inbound (ib_ID inbound) (flip 1)) w;
             inbound1 = reload_inbound (xd w1) (flip 1 inbound)
         in case mergeClientsIntoSettings e (xd w1) inbound1 of None \<Rightarrow> (XCrashed, w1) | Some settings \<Rightarrow>
              (let (r, w2) = XrayAddInbound e (ib_NodeId inbound1) (inbound1\<lparr>ib_SettingsJson := settings\<rparr>) w1
               in if xr_Msg r \<noteq> ''OK'' then
                    (XErr (HotAddInboundFailed (xr_Msg r)),
                     x_exec e (set_inbound (ib_ID inbound1) (flip 0)) w2)
                  else (XOk, w2))))"

definition DisableXrayInbound ::
  "'n xenv \<Rightarrow> int \<Rightarrow> int \<Rightarrow> int \<Rightarrow> 'n xworld \<Rightarrow> xreply \<times> 'n xworld" where
  "DisableXrayInbound e inboundId userId roleId w =
     (case editable_inbound e (xd w) inboundId userId roleId of Inl r \<Rightarrow> (XErr r, w) | Inr inbound \<Rightarrow>
        (let (r, w1) = XrayRemoveInbound_x e (ib_NodeId inbound) (ib_Tag inbound) w
         in if xr_Msg r \<noteq> ''OK'' then (XErr (HotRemoveInboundFailed (xr_Msg r)), w1)
            else
              (let w2 = x_exec e (set_inbound (ib_ID inbound)
                     (\<lambda>i. i\<lparr>ib_Enable := 0, ib_UpdatedTime := x_now e\<rparr>)) w1
               in (XOk, stop_if_idle e (ib_NodeId inbound) w2))))"

end
