(* ===== verification/Xray_Clients.thy ===== *)
theory Xray_Clients
  imports Xray_Api
begin

text \<open>
  Xray clients (service/xray_client.go), the hourly reset of their traffic
  (service/xray_scheduler.go) and the certificates of a node (service/xray_cert.go,
  service/acme.go). The ACME exchange with a certificate authority is the parameter \<open>acme\<close>: an
  error text, or the two keys and the time of expiry.
\<close>

section \<open>Clients\<close>

record XrayClientDto =
  xcd_InboundId :: int
  xcd_UserId :: int
  xcd_UuidOrPassword :: string
  xcd_Flow :: string
  xcd_AlterId :: "int option"
  xcd_TotalTraffic :: "int option"
  xcd_ExpTime :: "int option"
  xcd_LimitIp :: "int option"
  xcd_Reset :: "int option"
  xcd_Remark :: string

record XrayClientUpdateDto =
  xcu_ID :: int
  xcu_Email :: string
  xcu_UuidOrPassword :: string
  xcu_Flow :: string
  xcu_AlterId :: "int option"
  xcu_TotalTraffic :: "int option"
  xcu_ExpTime :: "int option"
  xcu_LimitIp :: "int option"
  xcu_Reset :: "int option"
  xcu_Enable :: "int option"
  xcu_Remark :: string

definition or_else :: "'a option \<Rightarrow> 'a \<Rightarrow> 'a" where
  "or_else new old = (case new of Some x \<Rightarrow> x | None \<Rightarrow> old)"

definition new_client :: "'n xenv \<Rightarrow> XrayClientDto \<Rightarrow> int \<Rightarrow> Inbound \<Rightarrow> Client" where
  "new_client e d owner inbound =
     \<lparr>cl_ID = 0, cl_InboundId = xcd_InboundId d, cl_UserId = owner,
      cl_Email = itoa owner @ ''_'' @ itoa (x_now e) @ ''@flux'',
      cl_UuidOrPassword =
        (if xcd_UuidOrPassword d \<noteq> [] then xcd_UuidOrPassword d
         else if ib_Protocol inbound = ''shadowsocks'' then x_random e else x_uuid e),
      cl_Flow = xcd_Flow d, cl_AlterId = or_else (xcd_AlterId d) 0,
      cl_TotalTraffic = or_else (xcd_TotalTraffic d) 0, cl_UpTraffic = 0, cl_DownTraffic = 0,
      cl_ExpTime = xcd_ExpTime d, cl_LimitIp = or_else (xcd_LimitIp d) 0,
      cl_Reset = or_else (xcd_Reset d) 0, cl_Enable = 1, cl_Remark = xcd_Remark d,
      cl_CreatedTime = x_now e, cl_UpdatedTime = x_now e\<rparr>"

definition CreateXrayClient ::
  "'n xenv \<Rightarrow> XrayClientDto \<Rightarrow> int \<Rightarrow> int \<Rightarrow> 'n xworld \<Rightarrow> xreply \<times> 'n xworld" where
  "CreateXrayClient e d userId roleId w =
     (case checkXrayPermission (x_panel e) userId roleId of Some r \<Rightarrow> (XErr r, w) | None \<Rightarrow>
      case firstInbound (xd w) (xcd_InboundId d) of None \<Rightarrow> (XErr InboundNotFound, w) | Some inbound \<Rightarrow>
      case checkXrayNodeAccess (x_panel e) userId roleId (ib_NodeId inbound) of Some r \<Rightarrow> (XErr r, w) | None \<Rightarrow>
      let owner = (if roleId \<noteq> 0 then userId else xcd_UserId d)
      in if owner > 0 \<and> firstUser (x_panel e) owner = None then (XErr XUserNotFound, w)
         else
           (let (ok, w1) = x_write e (insertClient (new_client e d owner inbound)) w
            in if \<not> ok then (XErr ClientCreateFailed, w1)
               else
                 (let client = (new_client e d owner inbound)\<lparr>cl_ID := client_seq (xd w)\<rparr>;
                      (r, w2) = add_client e inbound client w1
                  in if xr_Msg r \<noteq> ''OK'' then
                       (XErr (HotAddClientFailed (xr_Msg r)),
                        x_exec e (clients_update (delete_where (\<lambda>c. cl_ID c = cl_ID client))) w2)
                     else (XClient client, w2))))"

text \<open>The checks that open an update and a deletion: the client, and its inbound if that exists.\<close>

definition editable_client ::
  "'n xenv \<Rightarrow> xdb \<Rightarrow> int \<Rightarrow> int \<Rightarrow> int \<Rightarrow> xerr + Client \<times> Inbound option" where
  "editable_client e d clientId userId roleId =
     (case checkXrayPermission (x_panel e) userId roleId of Some r \<Rightarrow> Inl r | None \<Rightarrow>
      case firstClient d clientId of None \<Rightarrow> Inl ClientNotFound | Some client \<Rightarrow>
      if roleId \<noteq> 0 \<and> cl_UserId client \<noteq> userId then Inl NotOwnClient
      else case firstInbound d (cl_InboundId client) of
             None \<Rightarrow> Inr (client, None)
           | Some inbound \<Rightarrow>
               (case checkXrayNodeAccess (x_panel e) userId roleId (ib_NodeId inbound) of
                  Some r \<Rightarrow> Inl r | None \<Rightarrow> Inr (client, Some inbound)))"

definition updated_client :: "'n xenv \<Rightarrow> XrayClientUpdateDto \<Rightarrow> Client \<Rightarrow> Client" where
  "updated_client e d c =
     (let set = (\<lambda>new old. if new \<noteq> [] then new else old)
      in c\<lparr>cl_UpdatedTime := x_now e, cl_Email := set (xcu_Email d) (cl_Email c),
           cl_UuidOrPassword := set (xcu_UuidOrPassword d) (cl_UuidOrPassword c),
           cl_Flow := set (xcu_Flow d) (cl_Flow c),
           cl_AlterId := or_else (xcu_AlterId d) (cl_AlterId c),
           cl_TotalTraffic := or_else (xcu_TotalTraffic d) (cl_TotalTraffic c),
           cl_ExpTime := (case xcu_ExpTime d of Some t \<Rightarrow> Some t | None \<Rightarrow> cl_ExpTime c),
           cl_LimitIp := or_else (xcu_LimitIp d) (cl_LimitIp c),
           cl_Reset := or_else (xcu_Reset d) (cl_Reset c),
           cl_Enable := or_else (xcu_Enable d) (cl_Enable c),
           cl_Remark := set (xcu_Remark d) (cl_Remark c)\<rparr>)"

definition reload_client :: "xdb \<Rightarrow> Client \<Rightarrow> Client" where
  "reload_client d c = (case firstClient d (cl_ID c) of Some row \<Rightarrow> row | None \<Rightarrow> c)"

text \<open>The hot update of \<open>UpdateXrayClient\<close>: the row is updated, \<open>old\<close> is the row before.\<close>

definition swap_client ::
  "'n xenv \<Rightarrow> Inbound \<Rightarrow> Client \<Rightarrow> Client \<Rightarrow> 'n xworld \<Rightarrow> xreply \<times> 'n xworld" where
  "swap_client e inbound old updated w =
     (let (removed, w1) =
        (if cl_Enable old = 1 then
           (let (r, w1) = XrayRemoveClient_x e (ib_NodeId inbound) (ib_Tag inbound) (cl_Email old) w
            in (xr_Msg r, w1))
         else (''OK'', w))
      in if removed \<noteq> ''OK'' then
           (XErr (HotRemoveClientFailed removed), x_exec e (set_client (cl_ID old) (\<lambda>_. old)) w1)
         else
           (let new = reload_client (xd w1) updated
            in if cl_Enable new \<noteq> 1 then (XOk, w1)
               else
                 (let (r, w2) = add_client e inbound new w1
                  in if xr_Msg r = ''OK'' then (XOk, w2)
                     else
                       (let w3 = x_exec e (set_client (cl_ID old) (\<lambda>_. old)) w2;
                            w4 = (if cl_Enable old = 1 then snd (add_client e inbound old w3) else w3)
                        in (XErr (HotAddClientFailed (xr_Msg r)), w4)))))"

definition UpdateXrayClient ::
  "'n xenv \<Rightarrow> XrayClientUpdateDto \<Rightarrow> int \<Rightarrow> int \<Rightarrow> 'n xworld \<Rightarrow> xreply \<times> 'n xworld" where
  "UpdateXrayClient e d userId roleId w =
     (case editable_client e (xd w) (xcu_ID d) userId roleId of Inl r \<Rightarrow> (XErr r, w) | Inr (old, inb) \<Rightarrow>
        (let w1 = x_exec e (set_client (cl_ID old) (updated_client e d)) w
         in case inb of None \<Rightarrow> (XOk, w1)
            | Some inbound \<Rightarrow> swap_client e inbound old (updated_client e d old) w1))"

definition DeleteXrayClient ::
  "'n xenv \<Rightarrow> int \<Rightarrow> int \<Rightarrow> int \<Rightarrow> 'n xworld \<Rightarrow> xreply \<times> 'n xworld" where
  "DeleteXrayClient e clientId userId roleId w =
     (case editable_client e (xd w) clientId userId roleId of Inl r \<Rightarrow> (XErr r, w) | Inr (client, inb) \<Rightarrow>
        (let (msg, w1) =
           (case inb of None \<Rightarrow> (''OK'', w)
            | Some inbound \<Rightarrow>
                if x_online e (ib_NodeId inbound) then
                  (let (r, w1) = XrayRemoveClient_x e (ib_NodeId inbound) (ib_Tag inbound) (cl_Email client) w
                   in (xr_Msg r, w1))
                else (''OK'', w))
         in if msg \<noteq> ''OK'' then (XErr (HotRemoveClientFailed msg), w1)
            else (XOk, x_exec e (clients_update (delete_where (\<lambda>c. cl_ID c = cl_ID client))) w1)))"

text \<open>The reset of the counters, and the client back on if it has a limit and was off; shared
  by the request and the hourly task.\<close>

definition reset_counters :: "'n xenv \<Rightarrow> Client \<Rightarrow> 'n xworld \<Rightarrow> 'n xworld" where
  "reset_counters e client w =
     (let w1 = x_exec e (set_client (cl_ID client) (\<lambda>c. c\<lparr>cl_UpTraffic := 0, cl_DownTraffic := 0,
            cl_UpdatedTime := x_now e\<rparr>)) w
      in if cl_Enable client = 0 \<and> cl_TotalTraffic client > 0 then
           (let w2 = x_exec e (set_client (cl_ID client) (\<lambda>c. c\<lparr>cl_Enable := 1\<rparr>)) w1
            in case firstInbound (xd w2) (cl_InboundId client) of
                 None \<Rightarrow> w2
               | Some inbound \<Rightarrow> snd (add_client e inbound client w2))
         else w1)"

definition ResetXrayClientTraffic ::
  "'n xenv \<Rightarrow> int \<Rightarrow> int \<Rightarrow> int \<Rightarrow> 'n xworld \<Rightarrow> xreply \<times> 'n xworld" where
  "ResetXrayClientTraffic e clientId userId roleId w =
     (case checkXrayPermission (x_panel e) userId roleId of Some r \<Rightarrow> (XErr r, w) | None \<Rightarrow>
      case firstClient (xd w) clientId of None \<Rightarrow> (XErr ClientNotFound, w) | Some client \<Rightarrow>
      if roleId \<noteq> 0 \<and> cl_UserId client \<noteq> userId then (XErr NotOwnClient, w)
      else (XOk, reset_counters e client w))"

section \<open>The hourly reset\<close>

text \<open>A client is due when its last change lies before the start of its current cycle.\<close>

definition cycle_start :: "int \<Rightarrow> Client \<Rightarrow> int" where
  "cycle_start t c =
     (let resetMs = i64 (cl_Reset c * 86400000); elapsed = i64 (t - cl_CreatedTime c)
      in i64 (cl_CreatedTime c + i64 (elapsed div resetMs * resetMs)))"

definition reset_due :: "int \<Rightarrow> Client \<Rightarrow> bool" where
  "reset_due t c \<longleftrightarrow> i64 (cl_Reset c * 86400000) > 0 \<and> i64 (t - cl_CreatedTime c) > 0 \<and>
     cl_UpdatedTime c < cycle_start t c"

definition checkClientTrafficReset :: "'n xenv \<Rightarrow> 'n xworld \<Rightarrow> 'n xworld" where
  "checkClientTrafficReset e w =
     fold (\<lambda>client w. if reset_due (x_now e) client then reset_counters e client w else w)
       (find_where (\<lambda>c. cl_Reset c > 0) (clients (xd w))) w"

section \<open>Certificates\<close>

record XrayTlsCertDto =
  xtd_NodeId :: int
  xtd_Domain :: string
  xtd_PublicKey :: string
  xtd_PrivateKey :: string
  xtd_AutoRenew :: "int option"
  xtd_AcmeEnabled :: "int option"
  xtd_AcmeEmail :: string
  xtd_ChallengeType :: string
  xtd_DnsProvider :: string
  xtd_DnsConfig :: string
  xtd_ExpireTime :: "int option"

definition CreateXrayTlsCert ::
  "'n xenv \<Rightarrow> XrayTlsCertDto \<Rightarrow> int \<Rightarrow> int \<Rightarrow> 'n xworld \<Rightarrow> xreply \<times> 'n xworld" where
  "CreateXrayTlsCert e d userId roleId w =
     (case checkXrayPermission (x_panel e) userId roleId of Some r \<Rightarrow> (XErr r, w) | None \<Rightarrow>
      case checkXrayNodeAccess (x_panel e) userId roleId (xtd_NodeId d) of Some r \<Rightarrow> (XErr r, w) | None \<Rightarrow>
      case GetNodeById (x_panel e) (xtd_NodeId d) of None \<Rightarrow> (XErr XNodeNotFound, w) | Some node \<Rightarrow>
      let cert = \<lparr>ce_ID = 0, ce_NodeId = xtd_NodeId d, ce_Domain = xtd_Domain d,
             ce_PublicKey = xtd_PublicKey d, ce_PrivateKey = xtd_PrivateKey d,
             ce_AutoRenew = or_else (xtd_AutoRenew d) 0, ce_AcmeEnabled = or_else (xtd_AcmeEnabled d) 0,
             ce_AcmeEmail = xtd_AcmeEmail d, ce_ChallengeType = xtd_ChallengeType d,
             ce_DnsProvider = xtd_DnsProvider d, ce_DnsConfig = xtd_DnsConfig d,
             ce_LastRenewTime = None, ce_RenewError = [], ce_ExpireTime = xtd_ExpireTime d,
             ce_CreatedTime = x_now e, ce_UpdatedTime = x_now e\<rparr>;
          (ok, w1) = x_write e (insertCert cert) w
      in if \<not> ok then (XErr CertCreateFailed, w1)
         else (XCert (cert\<lparr>ce_ID := cert_seq (xd w)\<rparr>),
           if xtd_PublicKey d \<noteq> [] \<and> xtd_PrivateKey d \<noteq> []
           then snd (XrayDeployCert e (n_ID node) (xtd_Domain d) (xtd_PublicKey d) (xtd_PrivateKey d) w1)
           else w1))"

definition usable_cert :: "'n xenv \<Rightarrow> xdb \<Rightarrow> int \<Rightarrow> int \<Rightarrow> int \<Rightarrow> xerr + Cert" where
  "usable_cert e d certId userId roleId =
     (case checkXrayPermission (x_panel e) userId roleId of Some r \<Rightarrow> Inl r | None \<Rightarrow>
      case firstCert d certId of None \<Rightarrow> Inl CertNotFound | Some cert \<Rightarrow>
      case checkXrayNodeAccess (x_panel e) userId roleId (ce_NodeId cert) of Some r \<Rightarrow> Inl r | None \<Rightarrow>
      Inr cert)"

definition DeleteXrayTlsCert ::
  "'n xenv \<Rightarrow> int \<Rightarrow> int \<Rightarrow> int \<Rightarrow> 'n xworld \<Rightarrow> xreply \<times> 'n xworld" where
  "DeleteXrayTlsCert e certId userId roleId w =
     (case usable_cert e (xd w) certId userId roleId of Inl r \<Rightarrow> (XErr r, w) | Inr cert \<Rightarrow>
        (XOk, x_exec e (certs_update (delete_where (\<lambda>c. ce_ID c = ce_ID cert))) w))"

text \<open>What a certificate authority answers: an error text, or public key, private key and expiry.\<close>

type_synonym acme = "Cert \<Rightarrow> string + string \<times> string \<times> int"

definition issueCertViaAcme ::
  "'n xenv \<Rightarrow> acme \<Rightarrow> Cert \<Rightarrow> 'n xworld \<Rightarrow> string option \<times> 'n xworld" where
  "issueCertViaAcme e ca cert w =
     (case ca cert of Inl msg \<Rightarrow> (Some msg, w)
      | Inr (pub, priv, expire) \<Rightarrow>
          (let w1 = x_exec e (set_cert (ce_ID cert) (\<lambda>c. c\<lparr>ce_PublicKey := pub, ce_PrivateKey := priv,
                 ce_ExpireTime := Some expire, ce_LastRenewTime := Some (x_now e), ce_RenewError := [],
                 ce_AutoRenew := 1, ce_UpdatedTime := x_now e\<rparr>)) w
           in (None, case GetNodeById (x_panel e) (ce_NodeId cert) of None \<Rightarrow> w1
                 | Some node \<Rightarrow> snd (XrayDeployCert e (n_ID node) (ce_Domain cert) pub priv w1))))"

definition note_renew_error :: "'n xenv \<Rightarrow> Cert \<Rightarrow> string \<Rightarrow> 'n xworld \<Rightarrow> 'n xworld" where
  "note_renew_error e cert msg = x_exec e (set_cert (ce_ID cert) (\<lambda>c. c\<lparr>ce_RenewError := msg,
     ce_UpdatedTime := x_now e\<rparr>))"

definition IssueCertificate ::
  "'n xenv \<Rightarrow> acme \<Rightarrow> int \<Rightarrow> int \<Rightarrow> int \<Rightarrow> 'n xworld \<Rightarrow> xreply \<times> 'n xworld" where
  "IssueCertificate e ca certId userId roleId w =
     (case usable_cert e (xd w) certId userId roleId of Inl r \<Rightarrow> (XErr r, w) | Inr cert \<Rightarrow>
      if ce_AcmeEnabled cert \<noteq> 1 then (XErr AcmeDisabled, w)
      else case issueCertViaAcme e ca cert w of
             (Some msg, w1) \<Rightarrow> (XErr (IssueFailed msg), note_renew_error e cert msg w1)
           | (None, w1) \<Rightarrow> (XOk, w1))"

definition RenewCertificate ::
  "'n xenv \<Rightarrow> acme \<Rightarrow> int \<Rightarrow> int \<Rightarrow> int \<Rightarrow> 'n xworld \<Rightarrow> xreply \<times> 'n xworld" where
  "RenewCertificate e ca certId userId roleId w =
     (case usable_cert e (xd w) certId userId roleId of Inl r \<Rightarrow> (XErr r, w) | Inr cert \<Rightarrow>
      if ce_AcmeEnabled cert \<noteq> 1 then (XErr AcmeDisabled, w)
      else case issueCertViaAcme e ca cert w of
             (Some msg, w1) \<Rightarrow> (XErr (IssueFailed msg), note_renew_error e cert msg w1)
           | (None, w1) \<Rightarrow> (XOk, w1))"

definition renewal_window :: "int \<Rightarrow> Cert \<Rightarrow> bool" where
  "renewal_window t cert \<longleftrightarrow> ce_AcmeEnabled cert = 1 \<and>
     (case ce_ExpireTime cert of None \<Rightarrow> False
      | Some expire \<Rightarrow> expire > 0 \<and> expire < t + 30 * 24 * 3600000 \<and> expire > t)"

definition RenewExpiringSoon :: "'n xenv \<Rightarrow> acme \<Rightarrow> 'n xworld \<Rightarrow> 'n xworld" where
  "RenewExpiringSoon e ca w =
     fold (\<lambda>cert w. case issueCertViaAcme e ca cert w of
             (Some msg, w1) \<Rightarrow> note_renew_error e cert msg w1
           | (None, w1) \<Rightarrow> w1)
       (find_where (renewal_window (x_now e)) (certs (xd w))) w"

section \<open>The requests together\<close>

text \<open>The requests of the routes under \<open>/api/v1/v\<close>, as one function of the user and role that
  the token carries.\<close>

datatype xreq =
    CreateInboundReq XrayInboundDto
  | UpdateInboundReq XrayInboundUpdateDto
  | DeleteInboundReq int
  | EnableInboundReq int
  | DisableInboundReq int
  | CreateClientReq XrayClientDto
  | UpdateClientReq XrayClientUpdateDto
  | DeleteClientReq int
  | ResetClientReq int
  | CreateCertReq XrayTlsCertDto
  | DeleteCertReq int
  | IssueCertReq int
  | RenewCertReq int

fun xserve ::
  "'n xenv \<Rightarrow> acme \<Rightarrow> xreq \<Rightarrow> int \<Rightarrow> int \<Rightarrow> 'n xworld \<Rightarrow> xreply \<times> 'n xworld" where
  "xserve e ca (CreateInboundReq d) u r w = CreateXrayInbound e d u r w"
| "xserve e ca (UpdateInboundReq d) u r w = UpdateXrayInbound e d u r w"
| "xserve e ca (DeleteInboundReq k) u r w = DeleteXrayInbound e k u r w"
| "xserve e ca (EnableInboundReq k) u r w = EnableXrayInbound e k u r w"
| "xserve e ca (DisableInboundReq k) u r w = DisableXrayInbound e k u r w"
| "xserve e ca (CreateClientReq d) u r w = CreateXrayClient e d u r w"
| "xserve e ca (UpdateClientReq d) u r w = UpdateXrayClient e d u r w"
| "xserve e ca (DeleteClientReq k) u r w = DeleteXrayClient e k u r w"
| "xserve e ca (ResetClientReq k) u r w = ResetXrayClientTraffic e k u r w"
| "xserve e ca (CreateCertReq d) u r w = CreateXrayTlsCert e d u r w"
| "xserve e ca (DeleteCertReq k) u r w = DeleteXrayTlsCert e k u r w"
| "xserve e ca (IssueCertReq k) u r w = IssueCertificate e ca k u r w"
| "xserve e ca (RenewCertReq k) u r w = RenewCertificate e ca k u r w"

end
