(* ===== verification/Xray_Reconcile.thy ===== *)
theory Xray_Reconcile
  imports Xray_Clients
begin

text \<open>
  The Xray phases of a node's reconciliation (service/reconcile.go): the inbounds and
  certificates are sent again, and inbounds the panel does not know are removed. A panic in the
  merge of clients into settings is \<open>None\<close>: the reconciliation runs in a goroutine of its own,
  which nothing recovers.
\<close>

record rec_result =
  rec_Inbounds :: int
  rec_Certs :: int
  rec_Orphans :: int
  rec_Errors :: "string list"

definition merge_all :: "'n xenv \<Rightarrow> xdb \<Rightarrow> Inbound list \<Rightarrow> Inbound list option" where
  "merge_all e d ibs =
     those (map (\<lambda>ib. map_option (\<lambda>s. ib\<lparr>ib_SettingsJson := s\<rparr>) (mergeClientsIntoSettings e d ib)) ibs)"

definition xray_not_running :: "string \<Rightarrow> bool" where
  "xray_not_running msg \<longleftrightarrow> contains_str msg ''not running'' \<or> contains_str msg ''connection refused'' \<or>
     contains_str msg ''dial'' \<and> contains_str msg ''10085''"

definition deployable :: "int \<Rightarrow> Inbound \<Rightarrow> bool" where
  "deployable nodeId ib \<longleftrightarrow> ib_NodeId ib = nodeId \<and> (ib_Enable ib = 1 \<or> ib_Enable ib = - 1)"

text \<open>Inbounds in the error state count as enabled from now on.\<close>

definition recover_inbounds :: "int \<Rightarrow> xdb \<Rightarrow> xdb" where
  "recover_inbounds nodeId = inbounds_update (update_where (\<lambda>i. ib_NodeId i = nodeId \<and> ib_Enable i = - 1)
     (\<lambda>i. i\<lparr>ib_Enable := 1\<rparr>))"

definition hot_add_rest :: "'n xenv \<Rightarrow> int \<Rightarrow> Inbound list \<Rightarrow> 'n xworld \<Rightarrow> 'n xworld" where
  "hot_add_rest e nodeId ibs w = fold (\<lambda>ib w. snd (XrayAddInbound e nodeId ib w)) ibs w"

definition reconcileXrayInbounds ::
  "'n xenv \<Rightarrow> int \<Rightarrow> rec_result \<Rightarrow> 'n xworld \<Rightarrow> rec_result option \<times> 'n xworld" where
  "reconcileXrayInbounds e nodeId res w =
     (let ibs = find_where (deployable nodeId) (inbounds (xd w))
      in if ibs = [] then (Some res, snd (XrayStop e nodeId w))
         else case merge_all e (xd w) ibs of None \<Rightarrow> (None, w) | Some merged \<Rightarrow>
           (let (first, w1) = XrayAddInbound e nodeId (hd merged) w
            in if xray_not_running (xr_Msg first) then
                 (let (r, w2) = XrayApplyConfig e nodeId merged w1;
                      res1 = res\<lparr>rec_Inbounds := int (length merged)\<rparr>
                  in if xr_Msg r \<noteq> ''OK''
                     then (Some (res1\<lparr>rec_Errors := rec_Errors res @ [''Xray ApplyConfig: '' @ xr_Msg r]\<rparr>), w2)
                     else (Some res1, x_exec e (recover_inbounds nodeId) w2))
               else
                 (Some (res\<lparr>rec_Inbounds := rec_Inbounds res + int (length merged)\<rparr>),
                  x_exec e (recover_inbounds nodeId) (hot_add_rest e nodeId (tl merged) w1))))"

definition deploy_cert :: "'n xenv \<Rightarrow> int \<Rightarrow> Cert \<Rightarrow> rec_result \<times> 'n xworld \<Rightarrow> rec_result \<times> 'n xworld" where
  "deploy_cert e nodeId cert rw =
     (let (res, w) = rw
      in if ce_PublicKey cert = [] \<or> ce_PrivateKey cert = [] then (res, w)
         else
           (let (r, w1) = XrayDeployCert e nodeId (ce_Domain cert) (ce_PublicKey cert) (ce_PrivateKey cert) w;
                errs = (if xr_Msg r \<noteq> ''OK'' then [ce_Domain cert @ '': '' @ xr_Msg r] else [])
            in (res\<lparr>rec_Certs := rec_Certs res + 1, rec_Errors := rec_Errors res @ errs\<rparr>, w1)))"

definition reconcileXrayCerts ::
  "'n xenv \<Rightarrow> int \<Rightarrow> rec_result \<Rightarrow> 'n xworld \<Rightarrow> rec_result \<times> 'n xworld" where
  "reconcileXrayCerts e nodeId res w =
     fold (deploy_cert e nodeId) (find_where (\<lambda>c. ce_NodeId c = nodeId) (certs (xd w))) (res, w)"

section \<open>Orphans\<close>

text \<open>A tag that names an inbound of the panel, with the number in it.\<close>

definition panel_tag :: "string \<Rightarrow> (string \<times> int) option" where
  "panel_tag tag =
     (if has_prefix tag ''inbound-'' then map_option (\<lambda>k. (tag, k)) (parse_int (drop 8 tag)) else None)"

definition panel_tags :: "string list \<Rightarrow> (string \<times> int) list" where
  "panel_tags tags = List.map_filter panel_tag tags"

definition known_inbound :: "int \<Rightarrow> xdb \<Rightarrow> int \<Rightarrow> bool" where
  "known_inbound nodeId d k = list_ex (\<lambda>i. ib_ID i = k \<and> ib_NodeId i = nodeId) (inbounds d)"

definition remove_orphan ::
  "'n xenv \<Rightarrow> int \<Rightarrow> string \<times> int \<Rightarrow> rec_result \<times> 'n xworld \<Rightarrow> rec_result \<times> 'n xworld" where
  "remove_orphan e nodeId t rw =
     (let (res, w) = rw; (r, w1) = XrayRemoveInbound_x e nodeId (fst t) w
      in (if xr_Msg r = ''OK'' then res\<lparr>rec_Orphans := rec_Orphans res + 1\<rparr> else res, w1))"

definition cleanupOrphanXrayInbounds ::
  "'n xenv \<Rightarrow> int \<Rightarrow> rec_result \<Rightarrow> 'n xworld \<Rightarrow> rec_result \<times> 'n xworld" where
  "cleanupOrphanXrayInbounds e nodeId res w =
     (let (resp, w1) = XrayGetInboundTags e nodeId w
      in if xr_Msg resp \<noteq> ''OK'' then (res, w1)
         else case xr_Data resp of
             Some (Inbound_tags tags) \<Rightarrow>
               fold (remove_orphan e nodeId)
                 (filter (\<lambda>t. \<not> known_inbound nodeId (xd w1) (snd t)) (panel_tags tags)) (res, w1)
           | _ \<Rightarrow> (res, w1))"

end
