(* ===== verification/Xray_Props.thy ===== *)
theory Xray_Props
  imports Xray_Reconcile
begin

text \<open>
  What the Xray requests keep: no two inbounds of a node share a port, a user's request leaves
  the rows of others alone, and a refused request leaves the tables as they were.
\<close>

section \<open>Look-ups after a statement\<close>

named_theorems xtable_simps \<open>tables after a statement\<close>

lemma xtable_other [xtable_simps]:
  "clients (set_inbound k f d) = clients d" "certs (set_inbound k f d) = certs d"
  "inbounds (set_client k g d) = inbounds d" "certs (set_client k g d) = certs d"
  "inbounds (set_cert k h d) = inbounds d" "clients (set_cert k h d) = clients d"
  "clients (insertInbound i d) = clients d" "certs (insertInbound i d) = certs d"
  "inbounds (insertClient c d) = inbounds d" "certs (insertClient c d) = certs d"
  "inbounds (insertCert x d) = inbounds d" "clients (insertCert x d) = clients d"
  "inbound_seq (set_inbound k f d) = inbound_seq d" "inbound_seq (set_client k g d) = inbound_seq d"
  "inbound_seq (set_cert k h d) = inbound_seq d" "inbound_seq (insertClient c d) = inbound_seq d"
  "inbound_seq (insertCert x d) = inbound_seq d"
  by (simp_all add: set_inbound_def set_client_def set_cert_def insertInbound_def insertClient_def
      insertCert_def)

lemma firstInbound_set [xtable_simps]:
  "(\<And>i. ib_ID (f i) = ib_ID i) \<Longrightarrow>
   firstInbound (set_inbound k f d) j = (if j = k then map_option f (firstInbound d j) else firstInbound d j)"
  unfolding set_inbound_def firstInbound_def by (subst inbound_tbl.by_key_update) (auto simp: option.map_ident)

lemma firstClient_set [xtable_simps]:
  "(\<And>c. cl_ID (f c) = cl_ID c) \<Longrightarrow>
   firstClient (set_client k f d) j = (if j = k then map_option f (firstClient d j) else firstClient d j)"
  unfolding set_client_def firstClient_def by (subst client_tbl.by_key_update) (auto simp: option.map_ident)

lemma firstInbound_cong: "inbounds d' = inbounds d \<Longrightarrow> firstInbound d' = firstInbound d"
  by (auto simp: firstInbound_def)

lemma firstClient_cong: "clients d' = clients d \<Longrightarrow> firstClient d' = firstClient d"
  by (auto simp: firstClient_def)

section \<open>Rows a request touches\<close>

definition touched :: "int set \<Rightarrow> int set \<Rightarrow> xdb \<Rightarrow> xdb \<Rightarrow> bool" where
  "touched I C d d' \<longleftrightarrow>
     (\<forall>j. j \<notin> I \<longrightarrow> firstInbound d' j = firstInbound d j) \<and>
     (\<forall>j. j \<notin> C \<longrightarrow> firstClient d' j = firstClient d j)"

interpretation touched_pre: step_preorder "touched I C"
  by unfold_locales (auto simp: touched_def)

named_theorems touched_intros \<open>what a statement touches\<close>

lemma touched_refl [touched_intros]: "touched I C d d"
  by (rule touched_pre.R_refl)

text \<open>A statement on one row.\<close>

lemma touched_inbound:
  assumes "k \<in> I" and "\<And>j. j \<noteq> k \<Longrightarrow> firstInbound d' j = firstInbound d j"
    and "clients d' = clients d" and "touched I C d0 d"
  shows "touched I C d0 d'"
  using assms firstClient_cong [OF assms(3)] unfolding touched_def by metis

lemma touched_client:
  assumes "k \<in> C" and "\<And>j. j \<noteq> k \<Longrightarrow> firstClient d' j = firstClient d j"
    and "inbounds d' = inbounds d" and "touched I C d0 d"
  shows "touched I C d0 d'"
  using assms firstInbound_cong [OF assms(3)] unfolding touched_def by metis

lemma touched_set_inbound [touched_intros]:
  assumes "k \<in> I" and "\<And>i. ib_ID (f i) = ib_ID i" and "touched I C d0 d"
  shows "touched I C d0 (set_inbound k f d)"
  by (rule touched_inbound [OF assms(1) _ _ assms(3)]) (simp_all add: xtable_simps assms(2))

text \<open>A saved row may have any other column, but the key of the row it replaces.\<close>

lemma touched_save_inbound [touched_intros]:
  assumes "ib_ID i = k" and "k \<in> I" and "touched I C d0 d"
  shows "touched I C d0 (set_inbound k (\<lambda>_. i) d)"
proof -
  have "find (\<lambda>r. ib_ID r = j) (map (\<lambda>r. if ib_ID r = k then i else r) t) = find (\<lambda>r. ib_ID r = j) t"
    if "j \<noteq> k" for j t
    using that assms(1) by (induction t) auto
  then have diff: "firstInbound (set_inbound k (\<lambda>_. i) d) j = firstInbound d j" if "j \<noteq> k" for j
    using that by (simp add: firstInbound_def set_inbound_def first_where_def update_where_def)
  show ?thesis
    by (rule touched_inbound [OF assms(2) diff _ assms(3)]) (simp_all add: xtable_simps)
qed

lemma touched_set_client [touched_intros]:
  assumes "k \<in> C" and "\<And>c. cl_ID (f c) = cl_ID c" and "touched I C d0 d"
  shows "touched I C d0 (set_client k f d)"
  by (rule touched_client [OF assms(1) _ _ assms(3)]) (simp_all add: xtable_simps assms(2))

lemma touched_save_client [touched_intros]:
  assumes "cl_ID c = k" and "k \<in> C" and "touched I C d0 d"
  shows "touched I C d0 (set_client k (\<lambda>_. c) d)"
proof -
  have "find (\<lambda>r. cl_ID r = j) (map (\<lambda>r. if cl_ID r = k then c else r) t) = find (\<lambda>r. cl_ID r = j) t"
    if "j \<noteq> k" for j t
    using that assms(1) by (induction t) auto
  then have diff: "firstClient (set_client k (\<lambda>_. c) d) j = firstClient d j" if "j \<noteq> k" for j
    using that by (simp add: firstClient_def set_client_def first_where_def update_where_def)
  show ?thesis
    by (rule touched_client [OF assms(2) diff _ assms(3)]) (simp_all add: xtable_simps)
qed

lemma touched_insert_inbound [touched_intros]:
  assumes "inbound_seq d \<in> I" and "touched I C d0 d"
  shows "touched I C d0 (insertInbound i d)"
proof -
  have diff: "firstInbound (insertInbound i d) j = firstInbound d j" if "j \<noteq> inbound_seq d" for j
    using that inbound_tbl.by_key_insert [of j "i\<lparr>ib_ID := inbound_seq d\<rparr>" d]
    by (auto simp: firstInbound_def insertInbound_def split: option.splits)
  show ?thesis
    by (rule touched_inbound [OF assms(1) diff _ assms(2)]) (simp_all add: xtable_simps)
qed

lemma touched_insert_client [touched_intros]:
  assumes "client_seq d \<in> C" and "touched I C d0 d"
  shows "touched I C d0 (insertClient c d)"
proof -
  have diff: "firstClient (insertClient c d) j = firstClient d j" if "j \<noteq> client_seq d" for j
    using that client_tbl.by_key_insert [of j "c\<lparr>cl_ID := client_seq d\<rparr>" d]
    by (auto simp: firstClient_def insertClient_def split: option.splits)
  show ?thesis
    by (rule touched_client [OF assms(1) diff _ assms(2)]) (simp_all add: xtable_simps)
qed

lemma touched_certs [touched_intros]:
  "touched I C d0 d \<Longrightarrow> touched I C d0 (set_cert k f d)"
  "touched I C d0 d \<Longrightarrow> touched I C d0 (insertCert x d)"
  "touched I C d0 d \<Longrightarrow> touched I C d0 (certs_update g d)"
  by (simp_all add: touched_def firstInbound_def firstClient_def set_cert_def insertCert_def)

lemma touched_delete_inbound [touched_intros]:
  assumes "k \<in> I" and "touched I C d0 d"
  shows "touched I C d0 (inbounds_update (delete_where (\<lambda>i. ib_ID i = k)) d)"
  using assms inbound_tbl.by_key_delete [of _ k d]
  by (auto simp: touched_def firstInbound_def firstClient_def)

lemma find_filter_other: "(\<And>x. find p t = Some x \<Longrightarrow> \<not> q x) \<Longrightarrow> find p (filter (\<lambda>x. \<not> q x) t) = find p t"
proof (induction t)
  case (Cons y t)
  show ?case
  proof (cases "p y")
    case True
    with Cons.prems [of y] show ?thesis by simp
  next
    case False
    with Cons.prems have "\<And>x. find p t = Some x \<Longrightarrow> \<not> q x" by simp
    with Cons.IH False show ?thesis by simp
  qed
qed simp

lemma touched_delete_clients [touched_intros]:
  assumes gone: "\<And>j c. firstClient d j = Some c \<Longrightarrow> q c \<Longrightarrow> j \<in> C"
    and "\<And>j. firstClient d j = None \<Longrightarrow> j \<in> C" and t: "touched I C d0 d"
  shows "touched I C d0 (clients_update (delete_where q) d)"
proof -
  have "firstClient (clients_update (delete_where q) d) j = firstClient d j" if "j \<notin> C" for j
    using that gone [of j] find_filter_other [of "\<lambda>r. cl_ID r = j" "clients d" q]
    by (auto simp: firstClient_def delete_where_def first_where_def)
  with t show ?thesis
    by (auto simp: touched_def firstInbound_def)
qed

lemma touched_exec [touched_intros]:
  "touched I C d0 (xd w) \<Longrightarrow> touched I C d0 (f (xd w)) \<Longrightarrow> touched I C d0 (xd (x_exec e f w))"
  using x_exec_xd [of e f w] by auto

section \<open>The invariant of the tables\<close>

text \<open>Keys are unique and below the counter, and the inbounds of a node have different ports.\<close>

definition port_free :: "int \<Rightarrow> int \<Rightarrow> int \<Rightarrow> xdb \<Rightarrow> bool" where
  "port_free k node port d \<longleftrightarrow>
     (\<forall>r \<in> set (inbounds d). ib_ID r \<noteq> k \<longrightarrow> \<not> (ib_NodeId r = node \<and> ib_Port r = port))"

definition ports_unique :: "xdb \<Rightarrow> bool" where
  "ports_unique d \<longleftrightarrow> (\<forall>i \<in> set (inbounds d). port_free (ib_ID i) (ib_NodeId i) (ib_Port i) d)"

definition xinv :: "xdb \<Rightarrow> bool" where
  "xinv d \<longleftrightarrow> distinct (map ib_ID (inbounds d)) \<and> (\<forall>i \<in> set (inbounds d). ib_ID i < inbound_seq d) \<and>
     distinct (map cl_ID (clients d)) \<and> (\<forall>c \<in> set (clients d). cl_ID c < client_seq d) \<and>
     distinct (map ce_ID (certs d)) \<and> (\<forall>c \<in> set (certs d). ce_ID c < cert_seq d) \<and>
     ports_unique d"

lemma port_free_own: "xinv d \<Longrightarrow> i \<in> set (inbounds d) \<Longrightarrow> port_free (ib_ID i) (ib_NodeId i) (ib_Port i) d"
  by (simp add: xinv_def ports_unique_def)

lemma port_free_set [simp]:
  "(\<And>i. ib_ID i = k \<Longrightarrow> ib_ID (f i) = k) \<Longrightarrow> port_free k n p (set_inbound k f d) = port_free k n p d"
  by (auto simp: port_free_def set_inbound_def set_update_where)

lemma distinct_keep_key:
  "(\<And>r. r \<in> set t \<Longrightarrow> q r \<Longrightarrow> key (f r) = key r) \<Longrightarrow> map key (update_where q f t) = map key t"
  by (simp add: update_where_def)

lemma xinv_set_inbound:
  assumes inv: "xinv d" and key: "\<And>i. i \<in> set (inbounds d) \<Longrightarrow> ib_ID i = k \<Longrightarrow> ib_ID (f i) = k"
    and free: "\<And>i. i \<in> set (inbounds d) \<Longrightarrow> ib_ID i = k \<Longrightarrow> port_free k (ib_NodeId (f i)) (ib_Port (f i)) d"
  shows "xinv (set_inbound k f d)"
proof -
  have keys: "map ib_ID (update_where (\<lambda>i. ib_ID i = k) f (inbounds d)) = map ib_ID (inbounds d)"
    using key by (intro distinct_keep_key) auto
  have rows: "ib_ID (if ib_ID r = k then f r else r) = ib_ID r" if "r \<in> set (inbounds d)" for r
    using key [OF that] by simp
  have free': "port_free k n p (set_inbound k f d) = port_free k n p d" for n p
    using key by (auto simp: port_free_def set_inbound_def set_update_where)
  have other: "port_free (ib_ID i) (ib_NodeId i) (ib_Port i) (set_inbound k f d)"
    if i: "i \<in> set (inbounds d)" and n: "ib_ID i \<noteq> k" for i
  proof -
    have "port_free (ib_ID i) (ib_NodeId i) (ib_Port i) d" using inv i by (rule port_free_own)
    moreover have "\<not> (ib_NodeId (f r) = ib_NodeId i \<and> ib_Port (f r) = ib_Port i)"
      if "r \<in> set (inbounds d)" and "ib_ID r = k" for r
      using free [OF that] i n unfolding port_free_def by metis
    ultimately show ?thesis
      by (auto simp: port_free_def set_inbound_def set_update_where)
  qed
  have "ports_unique (set_inbound k f d)"
    unfolding ports_unique_def
  proof
    fix i assume "i \<in> set (inbounds (set_inbound k f d))"
    then obtain r where r: "r \<in> set (inbounds d)" and i: "i = (if ib_ID r = k then f r else r)"
      by (auto simp: set_inbound_def set_update_where)
    show "port_free (ib_ID i) (ib_NodeId i) (ib_Port i) (set_inbound k f d)"
      using r i free [OF r] free' other [OF r] key [OF r] by (cases "ib_ID r = k") simp_all
  qed
  with inv keys show ?thesis
    using key by (auto simp: xinv_def set_inbound_def set_update_where)
qed

lemma xinv_insert_inbound:
  assumes "xinv d" and "port_free k (ib_NodeId i) (ib_Port i) d" and "k = inbound_seq d"
  shows "xinv (insertInbound i d)"
proof -
  have "ports_unique (insertInbound i d)"
    using assms unfolding xinv_def ports_unique_def port_free_def insertInbound_def insert_row_def
    by auto
  with assms show ?thesis
    by (auto simp: xinv_def insertInbound_def insert_row_def)
qed

lemma ports_unique_cong: "inbounds d' = inbounds d \<Longrightarrow> ports_unique d' = ports_unique d"
  by (simp add: ports_unique_def port_free_def)

lemma xinv_delete_inbound: "xinv d \<Longrightarrow> xinv (inbounds_update (delete_where q) d)"
  by (auto simp: xinv_def ports_unique_def port_free_def delete_where_def distinct_map_filter)

lemma xinv_set_client:
  assumes "xinv d" and key: "\<And>c. cl_ID c = k \<Longrightarrow> cl_ID (f c) = k"
  shows "xinv (set_client k f d)"
proof -
  have keys: "map cl_ID (update_where (\<lambda>i. cl_ID i = k) f (clients d)) = map cl_ID (clients d)"
    using key by (intro distinct_keep_key) auto
  then have "cl_ID ` set (clients (set_client k f d)) = cl_ID ` set (clients d)"
    by (metis set_client_def set_map client_tbl.get_upd)
  then have "\<forall>c \<in> set (clients (set_client k f d)). cl_ID c < client_seq d"
    using assms(1) unfolding xinv_def by (metis (no_types, opaque_lifting) imageE imageI)
  with assms(1) keys show ?thesis
    using ports_unique_cong [of "set_client k f d" d] by (simp add: xinv_def set_client_def)
qed

lemma xinv_insert_client: "xinv d \<Longrightarrow> xinv (insertClient c d)"
  by (auto simp: xinv_def ports_unique_def port_free_def insertClient_def insert_row_def)

lemma xinv_delete_clients: "xinv d \<Longrightarrow> xinv (clients_update (delete_where q) d)"
  by (auto simp: xinv_def ports_unique_def port_free_def delete_where_def distinct_map_filter)

lemma xinv_set_cert:
  assumes "xinv d" and "\<And>c. ce_ID (f c) = ce_ID c"
  shows "xinv (set_cert k f d)"
proof -
  have "map ce_ID (update_where (\<lambda>c. ce_ID c = k) f (certs d)) = map ce_ID (certs d)"
    using assms(2) by (intro distinct_keep_key) auto
  moreover have "\<forall>c \<in> set (update_where (\<lambda>c. ce_ID c = k) f (certs d)). ce_ID c < cert_seq d"
    using assms by (auto simp: xinv_def set_update_where)
  ultimately show ?thesis
    using assms(1) by (simp add: xinv_def ports_unique_def port_free_def set_cert_def)
qed

lemma xinv_certs:
  "xinv d \<Longrightarrow> xinv (insertCert x d)" "xinv d \<Longrightarrow> xinv (certs_update (delete_where q) d)"
  by (auto simp: xinv_def ports_unique_def port_free_def insertCert_def insert_row_def delete_where_def
      distinct_map_filter)

lemma xinv_exec: "xinv (xd w) \<Longrightarrow> xinv (f (xd w)) \<Longrightarrow> xinv (xd (x_exec e f w))"
  using x_exec_xd [of e f w] by auto

lemma port_free_exec:
  "port_free k n p (xd w) \<Longrightarrow> (\<And>i. ib_ID i = k \<Longrightarrow> ib_ID (f i) = k) \<Longrightarrow>
   port_free k n p (xd (x_exec e (set_inbound k f) w))"
  using x_exec_xd [of e "set_inbound k f" w] by auto

lemmas xinv_ops = xinv_exec xinv_delete_inbound xinv_set_client xinv_insert_client
  xinv_delete_clients xinv_certs xinv_set_cert

section \<open>Every request keeps the invariant\<close>

lemma editable_inboundD:
  "editable_inbound e d k u r = Inr i \<Longrightarrow> firstInbound d k = Some i \<and> (r \<noteq> 0 \<longrightarrow> ib_UserId i = u) \<and>
     checkXrayPermission (x_panel e) u r = None"
  by (auto simp: editable_inbound_def split: option.splits if_splits)

lemma editable_clientD:
  "editable_client e d k u r = Inr (c, inb) \<Longrightarrow> firstClient d k = Some c \<and> (r \<noteq> 0 \<longrightarrow> cl_UserId c = u) \<and>
     firstInbound d (cl_InboundId c) = inb"
  by (auto simp: editable_client_def split: option.splits if_splits)

text \<open>What sending leaves alone, for every command.\<close>

lemmas x_msg_defs = XrayStop_def XrayAddInbound_def XrayRemoveInbound_x_def XrayAddClient_def
  add_client_def XrayRemoveClient_x_def XrayApplyConfig_def XrayGetInboundTags_def XrayDeployCert_def

lemma x_msg_xd [simp]:
  "xd (snd (XrayStop e n w)) = xd w" "xd (snd (XrayAddInbound e n i w)) = xd w"
  "xd (snd (XrayRemoveInbound_x e n t w)) = xd w" "xd (snd (add_client e ib c w)) = xd w"
  "xd (snd (XrayRemoveClient_x e n t m w)) = xd w" "xd (snd (XrayDeployCert e n a b c' w)) = xd w"
  by (simp_all add: x_msg_defs frame_simps)

lemma x_msg_eqD:
  "XrayAddInbound e n i w = (r, w') \<Longrightarrow> xd w' = xd w"
  "XrayRemoveInbound_x e n t w = (r, w') \<Longrightarrow> xd w' = xd w"
  "XrayRemoveClient_x e n t m w = (r, w') \<Longrightarrow> xd w' = xd w"
  "add_client e ib c w = (r, w') \<Longrightarrow> xd w' = xd w"
  by (metis snd_conv x_msg_xd)+

lemma stop_if_idle_xd [simp]: "xd (stop_if_idle e n w) = xd w"
  by (simp add: stop_if_idle_def)

lemma ib_ID_updated [simp]: "ib_ID (updated_inbound e d i) = ib_ID i"
  by (simp add: updated_inbound_def Let_def)

lemma ib_NodeId_updated [simp]: "ib_NodeId (updated_inbound e d i) = ib_NodeId i"
  by (simp add: updated_inbound_def Let_def)

lemma ib_Port_updated:
  "ib_Port (updated_inbound e d i) = (case xiu_Port d of Some p \<Rightarrow> p | None \<Rightarrow> ib_Port i)"
  by (simp add: updated_inbound_def Let_def)

lemma cl_ID_updated [simp]: "cl_ID (updated_client e d c) = cl_ID c"
  by (simp add: updated_client_def Let_def)

lemma xinv_keep_ports:
  assumes "xinv d" and "\<And>i. ib_ID (f i) = ib_ID i" and "\<And>i. ib_NodeId (f i) = ib_NodeId i"
    and "\<And>i. ib_Port (f i) = ib_Port i"
  shows "xinv (set_inbound k f d)"
  using assms port_free_own [OF assms(1)] by (intro xinv_set_inbound) auto

lemma deploy_new_inbound_xd:
  "xd (snd (deploy_new_inbound e n i w)) = xd w \<or>
   xd (snd (deploy_new_inbound e n i w)) = set_inbound (ib_ID i) (\<lambda>i. i\<lparr>ib_Enable := - 1\<rparr>) (xd w)"
  using x_exec_xd
  by (auto simp: deploy_new_inbound_def Let_def x_exec_def x_write_def dest: x_msg_eqD split: option.splits prod.splits)

lemma deploy_new_inbound_xinv: "xinv (xd w) \<Longrightarrow> xinv (xd (snd (deploy_new_inbound e n i w)))"
  using deploy_new_inbound_xd [of e n i w] xinv_keep_ports by auto

lemma CreateXrayInbound_xinv:
  assumes inv: "xinv (xd w)"
  shows "xinv (xd (snd (CreateXrayInbound e d u r w)))"
proof -
  have "port_free k (ib_NodeId (new_inbound e d u r)) (ib_Port (new_inbound e d u r)) (xd w)"
    if "\<not> count_where (\<lambda>i. ib_NodeId i = xid_NodeId d \<and> ib_Port i = xid_Port d) (inbounds (xd w)) > 0" for k
    using that by (auto simp: count_where_pos port_free_def new_inbound_def)
  then show ?thesis
    using inv
    by (auto simp: CreateXrayInbound_def Let_def split: option.split prod.split
        dest!: x_write_xd intro!: deploy_new_inbound_xinv xinv_exec xinv_insert_inbound xinv_keep_ports)
qed

lemma reload_inbound_ID [simp]: "ib_ID (reload_inbound d i) = ib_ID i"
  by (auto simp: reload_inbound_def split: option.split dest: firstInbound_Some)

text \<open>The hot update runs on a table whose other rows are those from before.\<close>

lemma swap_inbound_xinv:
  assumes inv: "xinv (xd w)" and "port_free (ib_ID old) (ib_NodeId old) (ib_Port old) (xd w)"
  shows "xinv (xd (snd (swap_inbound e old new w)))"
  using assms
  by (auto simp: swap_inbound_def Let_def split: prod.splits option.splits dest!: x_msg_eqD
      intro!: xinv_exec xinv_set_inbound)

lemma UpdateXrayInbound_xinv:
  assumes inv: "xinv (xd w)"
  shows "xinv (xd (snd (UpdateXrayInbound e d u r w)))"
proof (cases "editable_inbound e (xd w) (xiu_ID d) u r")
  case (Inl x)
  with inv show ?thesis by (simp add: UpdateXrayInbound_def)
next
  case (Inr old)
  then have row: "old \<in> set (inbounds (xd w))" and k: "xiu_ID d = ib_ID old"
    using editable_inboundD [OF Inr] firstInbound_Some by auto
  note own = port_free_own [OF inv row]
  have same: "i = old" if "i \<in> set (inbounds (xd w))" and "ib_ID i = ib_ID old" for i
    using that row inv unfolding xinv_def distinct_map by (auto dest: inj_onD)
  show ?thesis
  proof (cases "case xiu_Port d of None \<Rightarrow> False
          | Some p \<Rightarrow> p \<noteq> ib_Port old \<and> count_where (\<lambda>i. ib_NodeId i = ib_NodeId old \<and> ib_Port i = p \<and>
              ib_ID i \<noteq> xiu_ID d) (inbounds (xd w)) > 0")
    case True
    with Inr inv show ?thesis by (simp add: UpdateXrayInbound_def)
  next
    case False
    then have "port_free (ib_ID old) (ib_NodeId old) (ib_Port (updated_inbound e d old)) (xd w)"
      using own k by (auto simp: ib_Port_updated port_free_def count_where_pos split: option.splits)
    then have upd: "xinv (set_inbound (ib_ID old) (updated_inbound e d) (xd w))"
      using inv same by (intro xinv_set_inbound) auto
    let ?w = "x_exec e (set_inbound (ib_ID old) (updated_inbound e d)) w"
    have "xinv (xd ?w)" using inv upd by (rule xinv_exec)
    moreover have "port_free (ib_ID old) (ib_NodeId old) (ib_Port old) (xd ?w)"
      using own by (rule port_free_exec) simp
    ultimately show ?thesis
      using Inr False by (simp add: UpdateXrayInbound_def Let_def swap_inbound_xinv)
  qed
qed

lemma inbound_switch_xinv:
  assumes "xinv (xd w)"
  shows "xinv (xd (snd (DeleteXrayInbound e k u r w)))" "xinv (xd (snd (EnableXrayInbound e k u r w)))"
    "xinv (xd (snd (DisableXrayInbound e k u r w)))"
  using assms
  by (auto simp: DeleteXrayInbound_def EnableXrayInbound_def DisableXrayInbound_def Let_def
      split: prod.splits option.splits sum.splits if_splits dest!: x_msg_eqD
      intro!: xinv_ops xinv_keep_ports)

lemma swap_client_xinv: "xinv (xd w) \<Longrightarrow> xinv (xd (snd (swap_client e ib old new w)))"
  by (auto simp: swap_client_def Let_def split: prod.splits if_splits dest!: x_msg_eqD intro!: xinv_ops)

lemma reset_counters_xinv: "xinv (xd w) \<Longrightarrow> xinv (xd (reset_counters e c w))"
  by (auto simp: reset_counters_def Let_def split: option.split intro!: xinv_ops)

lemma client_ops_xinv:
  assumes "xinv (xd w)"
  shows "xinv (xd (snd (CreateXrayClient e d u r w)))" "xinv (xd (snd (UpdateXrayClient e d' u r w)))"
    "xinv (xd (snd (DeleteXrayClient e k u r w)))" "xinv (xd (snd (ResetXrayClientTraffic e k u r w)))"
proof -
  show "xinv (xd (snd (CreateXrayClient e d u r w)))"
    using assms
    unfolding CreateXrayClient_def Let_def
    by (simp only: split: prod.split option.split if_split)
      (auto dest!: x_msg_eqD x_write_xd intro!: xinv_ops)
  show "xinv (xd (snd (UpdateXrayClient e d' u r w)))"
    using assms
    by (auto simp: UpdateXrayClient_def Let_def split: prod.splits option.splits sum.splits
        intro!: swap_client_xinv xinv_ops)
  show "xinv (xd (snd (DeleteXrayClient e k u r w)))"
    using assms
    by (auto simp: DeleteXrayClient_def Let_def split: prod.splits option.splits sum.splits if_splits
        dest!: x_msg_eqD intro!: xinv_ops)
  show "xinv (xd (snd (ResetXrayClientTraffic e k u r w)))"
    using assms
    by (auto simp: ResetXrayClientTraffic_def split: option.splits intro!: reset_counters_xinv)
qed

lemma issueCertViaAcme_xinv: "issueCertViaAcme e ca c w = (r, w') \<Longrightarrow> xinv (xd w) \<Longrightarrow> xinv (xd w')"
  by (auto simp: issueCertViaAcme_def Let_def split: sum.splits prod.splits option.splits intro!: xinv_ops)

lemma cert_ops_xinv:
  assumes "xinv (xd w)"
  shows "xinv (xd (snd (CreateXrayTlsCert e d u r w)))" "xinv (xd (snd (DeleteXrayTlsCert e k u r w)))"
    "xinv (xd (snd (IssueCertificate e ca k u r w)))" "xinv (xd (snd (RenewCertificate e ca k u r w)))"
  using assms
  by (auto simp: CreateXrayTlsCert_def DeleteXrayTlsCert_def IssueCertificate_def RenewCertificate_def
      note_renew_error_def Let_def split: prod.splits option.splits sum.splits
      dest!: x_write_xd intro!: xinv_ops intro: issueCertViaAcme_xinv)

lemma xserve_xinv: "xinv (xd w) \<Longrightarrow> xinv (xd (snd (xserve e ca q u r w)))"
  by (cases q) (simp_all add: CreateXrayInbound_xinv UpdateXrayInbound_xinv inbound_switch_xinv
      client_ops_xinv cert_ops_xinv)

section \<open>The panel as a state machine\<close>

text \<open>A request of any user, a task of the panel, a phase of a reconciliation, or a node that
  changes by itself.\<close>

inductive xstep :: "'n xworld \<Rightarrow> 'n xworld \<Rightarrow> bool" where
  step_request: "xstep w (snd (xserve e ca q u r w))"
| step_reset: "xstep w (checkClientTrafficReset e w)"
| step_renew: "xstep w (RenewExpiringSoon e ca w)"
| step_reconcile: "xstep w (snd (reconcileXrayInbounds e n res w))"
| step_certs: "xstep w (snd (reconcileXrayCerts e n res w))"
| step_orphans: "xstep w (snd (cleanupOrphanXrayInbounds e n res w))"
| step_node: "xstep w (w\<lparr>xnet := n\<rparr>)"

inductive xreach :: "'n xworld \<Rightarrow> bool" where
  reach_start: "inbounds (xd w) = [] \<Longrightarrow> clients (xd w) = [] \<Longrightarrow> certs (xd w) = [] \<Longrightarrow> xreach w"
| reach_step: "xreach w \<Longrightarrow> xstep w w' \<Longrightarrow> xreach w'"

lemma fold_xinv:
  "xinv (xd w) \<Longrightarrow> (\<And>x v. xinv (xd v) \<Longrightarrow> xinv (xd (f x v))) \<Longrightarrow> xinv (xd (fold f xs w))"
  by (induction xs arbitrary: w) auto

lemma fold_snd_xd:
  "(\<And>x v. xd (snd (f x v)) = xd (snd v)) \<Longrightarrow> xd (snd (fold f xs (a, w))) = xd w"
proof -
  assume f: "\<And>x v. xd (snd (f x v)) = xd (snd v)"
  have "xd (snd (fold f xs v)) = xd (snd v)" for v
    by (induction xs arbitrary: v) (simp_all add: f)
  then show ?thesis by simp
qed

lemma recover_inbounds_xinv: "xinv d \<Longrightarrow> xinv (recover_inbounds n d)"
proof -
  assume inv: "xinv d"
  have keys: "map ib_ID (inbounds (recover_inbounds n d)) = map ib_ID (inbounds d)"
    by (simp add: recover_inbounds_def distinct_keep_key)
  have "\<exists>r \<in> set (inbounds d). ib_ID i = ib_ID r \<and> ib_NodeId i = ib_NodeId r \<and> ib_Port i = ib_Port r"
    if "i \<in> set (inbounds (recover_inbounds n d))" for i
    using that by (auto simp: recover_inbounds_def set_update_where)
  with inv have "ports_unique (recover_inbounds n d)"
    unfolding xinv_def ports_unique_def port_free_def by metis
  moreover have "\<forall>i \<in> set (inbounds (recover_inbounds n d)). ib_ID i < inbound_seq d"
    using inv by (auto simp: xinv_def recover_inbounds_def set_update_where)
  ultimately show ?thesis
    using inv keys by (simp add: xinv_def) (simp add: recover_inbounds_def)
qed

lemma hot_add_rest_xd [simp]: "xd (hot_add_rest e n ibs w) = xd w"
proof -
  have "xd (fold (\<lambda>ib w. snd (XrayAddInbound e n ib w)) ibs w) = xd w"
    by (induction ibs arbitrary: w) simp_all
  then show ?thesis by (simp add: hot_add_rest_def)
qed

lemma reconcile_xinv:
  assumes "xinv (xd w)"
  shows "xinv (xd (snd (reconcileXrayInbounds e n res w)))"
  using assms
  by (auto simp: reconcileXrayInbounds_def XrayApplyConfig_def Let_def
      split: option.split prod.split dest!: x_msg_eqD x_send_eqD
      intro!: xinv_exec recover_inbounds_xinv)

lemma reconcile_certs_xd: "xd (snd (reconcileXrayCerts e n res w)) = xd w"
  unfolding reconcileXrayCerts_def
  by (rule fold_snd_xd) (auto simp: deploy_cert_def Let_def XrayDeployCert_def split: prod.split dest: x_send_eqD)

lemma cleanup_orphans_xd: "xd (snd (cleanupOrphanXrayInbounds e n res w)) = xd w"
proof -
  have "xd (snd (remove_orphan e n x v)) = xd (snd v)" for x v
    by (auto simp: remove_orphan_def Let_def split: prod.split dest: x_msg_eqD)
  then show ?thesis
    by (auto simp: cleanupOrphanXrayInbounds_def XrayGetInboundTags_def Let_def fold_snd_xd
        split: prod.split option.split xdata.split dest: x_send_eqD)
qed

lemma task_xinv:
  assumes "xinv (xd w)"
  shows "xinv (xd (checkClientTrafficReset e w))" "xinv (xd (RenewExpiringSoon e ca w))"
  using assms unfolding checkClientTrafficReset_def RenewExpiringSoon_def
  by (auto intro!: fold_xinv reset_counters_xinv xinv_ops simp: note_renew_error_def
      split: option.split prod.split intro: issueCertViaAcme_xinv)

lemma xreach_xinv: "xreach w \<Longrightarrow> xinv (xd w)"
proof (induction rule: xreach.induct)
  case (reach_start w)
  then show ?case by (simp add: xinv_def ports_unique_def)
next
  case (reach_step w w')
  from reach_step.hyps(2) reach_step.IH show ?case
    by cases (simp_all add: xserve_xinv task_xinv reconcile_xinv reconcile_certs_xd cleanup_orphans_xd)
qed

text \<open>C17: However the requests of all users, the tasks and the reconciliations are interleaved,
  and whichever database statements and nodes fail, the keys of inbounds, of clients and of
  certificates are unique, and two inbounds of one node never share a port: not after an update that
  was rolled back either.\<close>

theorem inbound_ports_unique:
  assumes "xreach w"
  shows "distinct (map ib_ID (inbounds (xd w))) \<and> distinct (map cl_ID (clients (xd w))) \<and>
    distinct (map ce_ID (certs (xd w))) \<and>
    (\<forall>i \<in> set (inbounds (xd w)). \<forall>j \<in> set (inbounds (xd w)).
       ib_NodeId i = ib_NodeId j \<and> ib_Port i = ib_Port j \<longrightarrow> i = j)"
proof -
  have inv: "xinv (xd w)" using assms(1) by (rule xreach_xinv)
  have "i = j" if ij: "i \<in> set (inbounds (xd w))" "j \<in> set (inbounds (xd w))"
    "ib_NodeId i = ib_NodeId j" "ib_Port i = ib_Port j" for i j
  proof -
    have "ib_ID i = ib_ID j" using port_free_own [OF inv ij(2)] ij by (auto simp: port_free_def)
    with inv ij(1,2) show ?thesis unfolding xinv_def distinct_map by (auto dest: inj_onD)
  qed
  with inv show ?thesis by (simp add: xinv_def)
qed

end
