(* ===== verification/Xray_Owner.thy ===== *)
theory Xray_Owner
  imports Xray_Props
begin

text \<open>
  Who may change what, and what a refused request leaves behind: a user's request reaches only the
  user's own inbounds and clients and the clients on the user's inbounds, a request without the
  permission changes nothing, and a request that a node refuses leaves the tables as they were,
  with the exceptions the theorems spell out.
\<close>

section \<open>Only own rows\<close>

definition own_inbounds :: "int \<Rightarrow> xdb \<Rightarrow> int set" where
  "own_inbounds u d = {k. case firstInbound d k of None \<Rightarrow> True | Some i \<Rightarrow> ib_UserId i = u}"

definition own_clients :: "int \<Rightarrow> xdb \<Rightarrow> int set" where
  "own_clients u d = {k. case firstClient d k of None \<Rightarrow> True
     | Some c \<Rightarrow> cl_UserId c = u \<or> (\<exists>i. firstInbound d (cl_InboundId c) = Some i \<and> ib_UserId i = u)}"

lemma fresh_inbound: "xinv d \<Longrightarrow> inbound_seq d \<in> own_inbounds u d"
  by (auto simp: own_inbounds_def xinv_def split: option.split dest!: firstInbound_Some)

lemma fresh_client: "xinv d \<Longrightarrow> client_seq d \<in> own_clients u d"
  by (auto simp: own_clients_def xinv_def split: option.split dest!: firstClient_Some)

abbreviation own_change :: "int \<Rightarrow> 'n xworld \<Rightarrow> 'n xworld \<Rightarrow> bool" where
  "own_change u w w' \<equiv> touched (own_inbounds u (xd w)) (own_clients u (xd w)) (xd w) (xd w')"

lemma editable_inbound_own:
  "editable_inbound e d k u r = Inr i \<Longrightarrow> r \<noteq> 0 \<Longrightarrow>
     ib_ID i = k \<and> k \<in> own_inbounds u d \<and> firstInbound d k = Some i \<and> ib_UserId i = u"
  by (auto simp: own_inbounds_def dest!: editable_inboundD dest: firstInbound_Some)

lemma editable_client_own:
  "editable_client e d k u r = Inr (c, inb) \<Longrightarrow> r \<noteq> 0 \<Longrightarrow> cl_ID c = k \<and> k \<in> own_clients u d"
  by (auto simp: own_clients_def dest!: editable_clientD dest: firstClient_Some)

lemma own_clientI: "firstClient d k = Some c \<Longrightarrow> cl_ID c \<in> own_clients (cl_UserId c) d"
  using firstClient_Some [of d k c] by (simp add: own_clients_def)

lemma own_create_inbound:
  assumes "xinv (xd w)" and "r \<noteq> 0"
  shows "own_change u w (snd (CreateXrayInbound e d u r w))"
proof -
  have deploy: "touched I C d0 (xd (snd (deploy_new_inbound e n i w')))"
    if "touched I C d0 (xd w')" and "ib_ID i \<in> I" for I C d0 n i w'
    using that deploy_new_inbound_xd [of e n i w'] touched_set_inbound by auto
  show ?thesis
    using assms fresh_inbound [OF assms(1)]
    by (auto simp: CreateXrayInbound_def Let_def split: option.split prod.split
        dest!: x_write_xd intro!: deploy touched_exec touched_insert_inbound touched_set_inbound
          touched_refl)
qed

lemma own_update_inbound:
  assumes "r \<noteq> 0"
  shows "own_change u w (snd (UpdateXrayInbound e d u r w))"
proof -
  have swap: "touched I C d0 (xd (snd (swap_inbound e old new w')))"
    if "touched I C d0 (xd w')" and "ib_ID old \<in> I" for I C d0 old new w'
    using that
    by (auto simp: swap_inbound_def Let_def split: prod.splits option.splits dest!: x_msg_eqD
        intro!: touched_exec touched_save_inbound)
  show ?thesis
    using assms
    by (auto simp: UpdateXrayInbound_def Let_def split: sum.split option.split dest!: editable_inbound_own
        intro!: swap touched_exec touched_set_inbound touched_refl)
qed

lemma own_switch_inbound:
  assumes "r \<noteq> 0"
  shows "own_change u w (snd (EnableXrayInbound e k u r w))"
    "own_change u w (snd (DisableXrayInbound e k u r w))"
  using assms
  by (auto simp: EnableXrayInbound_def DisableXrayInbound_def Let_def
      split: sum.split option.splits prod.splits dest!: editable_inbound_own x_msg_eqD
      intro!: touched_exec touched_set_inbound touched_refl)

lemma own_delete_inbound:
  assumes "r \<noteq> 0"
  shows "own_change u w (snd (DeleteXrayInbound e k u r w))"
proof (cases "editable_inbound e (xd w) k u r")
  case (Inl x)
  then show ?thesis by (simp add: DeleteXrayInbound_def touched_refl)
next
  case (Inr i)
  note own = editable_inbound_own [OF Inr assms]
  let ?I = "own_inbounds u (xd w)" and ?C = "own_clients u (xd w)"
  have gone: "touched ?I ?C (xd w) (clients_update (delete_where (\<lambda>c. cl_InboundId c = k)) (xd w))"
    by (rule touched_delete_clients) (use own in \<open>auto simp: own_clients_def touched_refl\<close>)
  show ?thesis
    using Inr own gone
    by (auto simp: DeleteXrayInbound_def Let_def split: prod.splits if_splits dest!: x_msg_eqD
        intro!: touched_exec touched_delete_inbound simp: touched_refl)
qed

lemma own_client_ops:
  assumes inv: "xinv (xd w)" and r: "r \<noteq> 0"
  shows "own_change u w (snd (CreateXrayClient e d u r w))"
    "own_change u w (snd (UpdateXrayClient e d' u r w))"
    "own_change u w (snd (DeleteXrayClient e k u r w))"
    "own_change u w (snd (ResetXrayClientTraffic e k u r w))"
proof -
  have delete: "touched I C d0 (clients_update (delete_where (\<lambda>c. cl_ID c = k)) d)"
    if t: "touched I C d0 d" and "k \<in> C" for I C d0 d k
    by (rule touched_client [OF that(2) _ _ t])
      (use client_tbl.by_key_delete [of _ k d] in \<open>simp_all add: firstClient_def\<close>)
  show "own_change u w (snd (CreateXrayClient e d u r w))"
    using fresh_client [OF inv] unfolding CreateXrayClient_def Let_def
    by (simp only: split: prod.split option.split if_split)
      (auto dest!: x_msg_eqD x_write_xd intro!: touched_exec delete touched_insert_client touched_refl)
  have swap: "touched I C d0 (xd (snd (swap_client e ib old new w')))"
    if "touched I C d0 (xd w')" and "cl_ID old \<in> C" for I C d0 ib old new w'
    using that
    by (auto simp: swap_client_def Let_def split: prod.splits if_splits dest!: x_msg_eqD
        intro!: touched_exec touched_save_client)
  show "own_change u w (snd (UpdateXrayClient e d' u r w))"
    using r
    by (auto simp: UpdateXrayClient_def Let_def split: sum.split prod.split option.split
        dest!: editable_client_own intro!: swap touched_exec touched_set_client touched_refl)
  show "own_change u w (snd (DeleteXrayClient e k u r w))"
    using r
    by (auto simp: DeleteXrayClient_def Let_def split: sum.split prod.splits option.splits if_splits
        dest!: editable_client_own x_msg_eqD intro!: touched_exec delete simp: touched_refl)
  have reset: "touched I C d0 (xd (reset_counters e c w'))"
    if "touched I C d0 (xd w')" and "cl_ID c \<in> C" for I C d0 c w'
    using that
    by (auto simp: reset_counters_def Let_def split: option.split intro!: touched_exec touched_set_client)
  show "own_change u w (snd (ResetXrayClientTraffic e k u r w))"
    using r
    by (auto simp: ResetXrayClientTraffic_def split: option.split
        intro!: reset touched_refl own_clientI)
qed

lemma own_cert_ops:
  "own_change u w (snd (CreateXrayTlsCert e d u r w))" "own_change u w (snd (DeleteXrayTlsCert e k u r w))"
  "own_change u w (snd (IssueCertificate e ca k u r w))" "own_change u w (snd (RenewCertificate e ca k u r w))"
  by (auto simp: CreateXrayTlsCert_def DeleteXrayTlsCert_def IssueCertificate_def RenewCertificate_def
      issueCertViaAcme_def note_renew_error_def Let_def
      split: prod.splits option.splits sum.splits dest!: x_write_xd
      intro!: touched_exec touched_certs touched_refl)

lemma xserve_own: "xinv (xd w) \<Longrightarrow> r \<noteq> 0 \<Longrightarrow> own_change u w (snd (xserve e ca q u r w))"
  by (cases q) (simp_all add: own_create_inbound own_update_inbound own_switch_inbound
      own_delete_inbound own_client_ops own_cert_ops)

text \<open>C20: Whatever a user without the administrator's role requests, every inbound of another
  owner stays the row it was, and so does every client of another user, unless it sits on an
  inbound of the requester: the owner of an inbound may delete it with all its clients.\<close>

theorem foreign_rows_kept:
  assumes "xreach w" and "roleId \<noteq> 0" and "xserve e ca q u roleId w = (reply, w')"
    and "firstInbound (xd w) k = Some i" and "ib_UserId i \<noteq> u"
    and "firstClient (xd w) j = Some c" and "cl_UserId c \<noteq> u"
    and "firstInbound (xd w) (cl_InboundId c) = Some ib" and "ib_UserId ib \<noteq> u"
  shows "firstInbound (xd w') k = Some i \<and> firstClient (xd w') j = Some c"
proof -
  have "own_change u w w'"
    using xserve_own [OF xreach_xinv [OF assms(1)] assms(2), of u e ca q] assms(3) by simp
  moreover have "k \<notin> own_inbounds u (xd w)" and "j \<notin> own_clients u (xd w)"
    using assms(4-9) by (auto simp: own_inbounds_def own_clients_def)
  ultimately show ?thesis
    using assms(4,6) by (simp add: touched_def)
qed

section \<open>Without the permission\<close>

lemma no_permission:
  "r \<noteq> 0 \<Longrightarrow> (\<And>v. firstUser d u = Some v \<Longrightarrow> u_XrayEnabled v \<noteq> 1) \<Longrightarrow>
   \<exists>x. checkXrayPermission d u r = Some x"
  by (auto simp: checkXrayPermission_def split: option.split)

text \<open>Property: an account without Xray permission, or none at all, changes nothing: neither the
  tables nor the nodes, with any request.\<close>

theorem no_permission_no_effect:
  assumes "roleId \<noteq> 0" and "\<And>v. firstUser (x_panel e) u = Some v \<Longrightarrow> u_XrayEnabled v \<noteq> 1"
  shows "\<exists>r. xserve e ca q u roleId w = (XErr r, w)"
proof -
  obtain x where x: "checkXrayPermission (x_panel e) u roleId = Some x"
    using no_permission [OF assms] by blast
  show ?thesis
    by (cases q) (simp_all add: CreateXrayInbound_def UpdateXrayInbound_def DeleteXrayInbound_def
        EnableXrayInbound_def DisableXrayInbound_def CreateXrayClient_def UpdateXrayClient_def
        DeleteXrayClient_def ResetXrayClientTraffic_def CreateXrayTlsCert_def DeleteXrayTlsCert_def
        IssueCertificate_def RenewCertificate_def editable_inbound_def editable_client_def
        usable_cert_def x)
qed

section \<open>Roll-back\<close>

definition same_rows :: "xdb \<Rightarrow> xdb \<Rightarrow> bool" where
  "same_rows d d' \<longleftrightarrow> inbounds d' = inbounds d \<and> clients d' = clients d \<and> certs d' = certs d"

lemma same_rows_refl [simp]: "same_rows d d"
  by (simp add: same_rows_def)

lemma inbound_unique: "xinv d \<Longrightarrow> firstInbound d k = Some i \<Longrightarrow> j \<in> set (inbounds d) \<Longrightarrow> ib_ID j = k \<Longrightarrow> j = i"
  using inbound_tbl.by_key_unique [of d j] by (simp add: xinv_def firstInbound_def)

lemma client_unique: "xinv d \<Longrightarrow> firstClient d k = Some c \<Longrightarrow> j \<in> set (clients d) \<Longrightarrow> cl_ID j = k \<Longrightarrow> j = c"
  using client_tbl.by_key_unique [of d j] by (simp add: xinv_def firstClient_def)

lemma set_inbound_twice:
  "(\<And>i. ib_ID (f i) = ib_ID i) \<Longrightarrow> set_inbound k g (set_inbound k f d) = set_inbound k (\<lambda>i. g (f i)) d"
  by (simp add: set_inbound_def update_where_def comp_def)

lemma set_client_twice:
  "(\<And>c. cl_ID (f c) = cl_ID c) \<Longrightarrow> set_client k g (set_client k f d) = set_client k (\<lambda>c. g (f c)) d"
  by (simp add: set_client_def update_where_def comp_def)

lemma set_inbound_self: "xinv d \<Longrightarrow> firstInbound d k = Some i \<Longrightarrow> set_inbound (ib_ID i) (\<lambda>_. i) d = d"
  using inbound_unique [of d k i] firstInbound_Some [of d k i]
  by (simp add: set_inbound_def update_where_def map_idI)

lemma set_client_self: "xinv d \<Longrightarrow> firstClient d k = Some c \<Longrightarrow> set_client (cl_ID c) (\<lambda>_. c) d = d"
  using client_unique [of d k c] firstClient_Some [of d k c]
  by (simp add: set_client_def update_where_def map_idI)

lemma insert_client_undo:
  "xinv d \<Longrightarrow> same_rows d (clients_update (delete_where (\<lambda>c. cl_ID c = client_seq d)) (insertClient x d))"
  by (auto simp: same_rows_def insertClient_def insert_row_def delete_where_def xinv_def
      filter_id_conv)

lemma x_exec_ok: "x_ok e = (\<lambda>_. True) \<Longrightarrow> xd (x_exec e f w) = f (xd w)"
  by (simp add: x_exec_def x_write_def Let_def)

lemma x_write_ok: "x_ok e = (\<lambda>_. True) \<Longrightarrow> x_write e f w = (True, x_exec e f w)"
  by (simp add: x_exec_def x_write_def Let_def)

text \<open>The errors by which a request reports that the node refused the change.\<close>

fun node_refusal :: "xerr \<Rightarrow> bool" where
  "node_refusal (HotAddInboundFailed m) = True"
| "node_refusal (HotRemoveInboundFailed m) = True"
| "node_refusal (HotRemoveClientFailed m) = True"
| "node_refusal (HotAddClientFailed m) = True"
| "node_refusal _ = False"

fun add_refused :: "xerr \<Rightarrow> bool" where
  "add_refused (HotAddInboundFailed m) = True"
| "add_refused _ = False"

text \<open>The inbounds that a request leaves when the node refused to add one: a new inbound stays, marked
  with -1; an updated one is the old row with the clients merged into its settings; an enabled one is
  disabled, with the time of the attempt.\<close>

fun refused_inbounds :: "'n xenv \<Rightarrow> xreq \<Rightarrow> int \<Rightarrow> int \<Rightarrow> xdb \<Rightarrow> Inbound list" where
  "refused_inbounds e (CreateInboundReq x) u r d =
     inbounds d @ [(new_inbound e x u r)\<lparr>ib_ID := inbound_seq d, ib_Enable := - 1,
       ib_Tag := (if xid_Tag x = [] then ''inbound-'' @ itoa (inbound_seq d) else xid_Tag x)\<rparr>]"
| "refused_inbounds e (UpdateInboundReq x) u r d =
     update_where (\<lambda>i. ib_ID i = xiu_ID x)
       (\<lambda>i. i\<lparr>ib_SettingsJson := or_else (mergeClientsIntoSettings e d i) (ib_SettingsJson i)\<rparr>) (inbounds d)"
| "refused_inbounds e (EnableInboundReq k) u r d =
     update_where (\<lambda>i. ib_ID i = k) (\<lambda>i. i\<lparr>ib_Enable := 0, ib_UpdatedTime := x_now e\<rparr>) (inbounds d)"
| "refused_inbounds e q u r d = inbounds d"

definition refused_rows :: "'n xenv \<Rightarrow> xreq \<Rightarrow> int \<Rightarrow> int \<Rightarrow> xerr \<Rightarrow> xdb \<Rightarrow> xdb \<Rightarrow> bool" where
  "refused_rows e q u r er d d' \<longleftrightarrow>
     clients d' = clients d \<and> certs d' = certs d \<and>
     inbounds d' = (if add_refused er then refused_inbounds e q u r d else inbounds d)"

lemma merge_set_inbound [simp]:
  "mergeClientsIntoSettings e (set_inbound k f d) i = mergeClientsIntoSettings e d i"
  by (simp add: mergeClientsIntoSettings_def merged_settings_def active_clients_def xtable_simps)

lemma checks_no_refusal:
  "editable_inbound e d k u r = Inl er \<Longrightarrow> \<not> node_refusal er"
  "editable_client e d k u r = Inl er \<Longrightarrow> \<not> node_refusal er"
  "usable_cert e d k u r = Inl er \<Longrightarrow> \<not> node_refusal er"
  "checkXrayPermission d' u r = Some er \<Longrightarrow> \<not> node_refusal er"
  "checkXrayNodeAccess d' u r n = Some er \<Longrightarrow> \<not> node_refusal er"
  by (auto simp: editable_inbound_def editable_client_def usable_cert_def checkXrayPermission_def
      checkXrayNodeAccess_def split: option.splits if_splits)

lemma update_where_cong:
  "(\<And>x. x \<in> set xs \<Longrightarrow> p x \<Longrightarrow> f x = g x) \<Longrightarrow> update_where p f xs = update_where p g xs"
  by (auto simp: update_where_def)

lemma update_inbound_refused:
  assumes inv: "xinv (xd w)" and ok: "x_ok e = (\<lambda>_. True)"
    and res: "UpdateXrayInbound e d u r w = (XErr er, w')" and "node_refusal er"
  shows "refused_rows e (UpdateInboundReq d) u r er (xd w) (xd w')"
proof -
  have settings: "update_where (\<lambda>j. ib_ID j = ib_ID i) (\<lambda>_. i\<lparr>ib_SettingsJson := s\<rparr>) (inbounds (xd w)) =
      update_where (\<lambda>i. ib_ID i = k)
        (\<lambda>i. i\<lparr>ib_SettingsJson := or_else (mergeClientsIntoSettings e (xd w) i) (ib_SettingsJson i)\<rparr>) (inbounds (xd w))"
    if "firstInbound (xd w) k = Some i" "mergeClientsIntoSettings e (xd w) i = Some s" for i k s
    using that inbound_unique [OF inv that(1)] firstInbound_Some [OF that(1)]
    by (simp, intro update_where_cong) (auto simp: or_else_def)
  show ?thesis
    using res \<open>node_refusal er\<close> set_inbound_self [OF inv]
    by (auto simp: UpdateXrayInbound_def swap_inbound_def Let_def x_exec_ok [OF ok] set_inbound_twice
        refused_rows_def
        split: sum.splits option.splits prod.splits if_splits dest!: x_msg_eqD editable_inboundD
        dest: firstInbound_Some checks_no_refusal)
       (auto simp: set_inbound_def intro!: settings)
qed

lemma insert_inbound_refused:
  assumes "xinv d"
  shows "inbounds (set_inbound (inbound_seq d) f (insertInbound x d)) = inbounds d @ [f (x\<lparr>ib_ID := inbound_seq d\<rparr>)]"
    "clients (set_inbound (inbound_seq d) f (insertInbound x d)) = clients d"
    "certs (set_inbound (inbound_seq d) f (insertInbound x d)) = certs d"
proof -
  have "update_where (\<lambda>i. ib_ID i = inbound_seq d) f (inbounds d) = inbounds d"
    using assms by (auto simp: update_where_def xinv_def intro!: map_idI)
  then show "inbounds (set_inbound (inbound_seq d) f (insertInbound x d)) = inbounds d @ [f (x\<lparr>ib_ID := inbound_seq d\<rparr>)]"
    by (simp add: set_inbound_def insertInbound_def insert_row_def update_where_def)
qed (simp_all add: set_inbound_def insertInbound_def)

lemma create_inbound_refused:
  assumes inv: "xinv (xd w)" and ok: "x_ok e = (\<lambda>_. True)"
    and res: "CreateXrayInbound e d u r w = (XErr er, w')" and "node_refusal er"
  shows "refused_rows e (CreateInboundReq d) u r er (xd w) (xd w')"
  using res \<open>node_refusal er\<close>
  by (auto simp: CreateXrayInbound_def deploy_new_inbound_def Let_def x_exec_ok [OF ok] x_write_ok [OF ok]
      refused_rows_def set_inbound_twice insert_inbound_refused [OF inv] new_inbound_def
      split: sum.splits option.splits prod.splits if_splits dest!: x_msg_eqD dest: checks_no_refusal)

lemma enable_inbound_refused:
  assumes inv: "xinv (xd w)" and ok: "x_ok e = (\<lambda>_. True)"
    and res: "EnableXrayInbound e k u r w = (XErr er, w')" and "node_refusal er"
  shows "refused_rows e (EnableInboundReq k) u r er (xd w) (xd w')"
proof -
  have "ib_ID (reload_inbound d i) = ib_ID i" for d i
    by (auto simp: reload_inbound_def split: option.split dest: firstInbound_Some)
  with res \<open>node_refusal er\<close> show ?thesis
    by (auto simp: EnableXrayInbound_def Let_def x_exec_ok [OF ok] set_inbound_twice refused_rows_def
        split: sum.splits option.splits prod.splits if_splits
        dest!: x_msg_eqD editable_inboundD dest: checks_no_refusal)
      (auto simp: set_inbound_def update_where_def dest!: firstInbound_Some intro!: map_cong)
qed

lemma update_client_refused:
  assumes inv: "xinv (xd w)" and ok: "x_ok e = (\<lambda>_. True)"
    and res: "UpdateXrayClient e d u r w = (XErr er, w')" and "node_refusal er"
  shows "xd w' = xd w"
  using res \<open>node_refusal er\<close> set_client_self [OF inv]
  by (auto simp: UpdateXrayClient_def swap_client_def Let_def x_exec_ok [OF ok] set_client_twice
      split: sum.splits option.splits prod.splits if_splits dest!: x_msg_eqD editable_clientD
      dest: firstClient_Some checks_no_refusal)

lemma create_client_refused:
  assumes inv: "xinv (xd w)" and ok: "x_ok e = (\<lambda>_. True)"
    and res: "CreateXrayClient e d u r w = (XErr er, w')" and "node_refusal er"
  shows "same_rows (xd w) (xd w') \<and> \<not> add_refused er"
  using res \<open>node_refusal er\<close> insert_client_undo [OF inv]
  by (auto simp: CreateXrayClient_def Let_def x_write_ok [OF ok] x_exec_ok [OF ok]
      split: option.splits prod.splits if_splits dest!: x_msg_eqD dest: checks_no_refusal)

lemma removals_refused:
  "DeleteXrayInbound e k u r w = (XErr er, w') \<Longrightarrow> node_refusal er \<Longrightarrow> xd w' = xd w"
  "DisableXrayInbound e k u r w = (XErr er, w') \<Longrightarrow> node_refusal er \<Longrightarrow> xd w' = xd w"
  "DeleteXrayClient e k u r w = (XErr er, w') \<Longrightarrow> node_refusal er \<Longrightarrow> xd w' = xd w"
  by (auto simp: DeleteXrayInbound_def DisableXrayInbound_def DeleteXrayClient_def Let_def
      split: sum.splits option.splits prod.splits if_splits dest!: x_msg_eqD dest: checks_no_refusal)

lemma never_refused:
  "ResetXrayClientTraffic e k u r w = (XErr er, w') \<Longrightarrow> \<not> node_refusal er"
  "CreateXrayTlsCert e d' u r w = (XErr er, w') \<Longrightarrow> \<not> node_refusal er"
  "DeleteXrayTlsCert e k u r w = (XErr er, w') \<Longrightarrow> \<not> node_refusal er"
  "IssueCertificate e ca k u r w = (XErr er, w') \<Longrightarrow> \<not> node_refusal er"
  "RenewCertificate e ca k u r w = (XErr er, w') \<Longrightarrow> \<not> node_refusal er"
  by (auto simp: ResetXrayClientTraffic_def CreateXrayTlsCert_def DeleteXrayTlsCert_def IssueCertificate_def
      RenewCertificate_def Let_def
      split: sum.splits option.splits prod.splits if_splits dest: checks_no_refusal)

text \<open>C21: When a request fails because its node refuses the change, the tables are exactly these.
  Clients and certificates are as before, and so are the inbounds, unless the node refused to add an
  inbound. Then a created inbound stays in the table, marked with -1; an updated inbound is the row
  before the update, except that the clients are merged into its settings; an enabled inbound is
  disabled. All other inbounds keep their rows. Database statements succeed.\<close>

theorem refused_change_rows:
  assumes "xreach w" and "x_ok e = (\<lambda>_. True)" and "xserve e ca q u r w = (XErr er, w')"
    and "node_refusal er"
  shows "clients (xd w') = clients (xd w) \<and> certs (xd w') = certs (xd w) \<and>
    inbounds (xd w') = (if add_refused er then refused_inbounds e q u r (xd w) else inbounds (xd w))"
proof -
  have inv: "xinv (xd w)" using assms(1) by (rule xreach_xinv)
  note refused = create_inbound_refused [OF inv assms(2)] update_inbound_refused [OF inv assms(2)]
    enable_inbound_refused [OF inv assms(2)]
  have "refused_rows e q u r er (xd w) (xd w')"
    using assms(3,4)
    by (cases q) (auto simp: same_rows_def refused_rows_def never_refused
        dest: refused [unfolded refused_rows_def] removals_refused
          create_client_refused [OF inv assms(2)] update_client_refused [OF inv assms(2)])
  then show ?thesis by (simp add: refused_rows_def)
qed

end
