(* ===== verification/Xray_Quota.thy ===== *)
theory Xray_Quota
  imports Xray_Owner
begin

text \<open>
  The hourly reset of client traffic: which rows it changes, and that a client is reset at most
  once in a cycle.
\<close>

definition reset_client :: "int \<Rightarrow> Client \<Rightarrow> Client" where
  "reset_client t c = c\<lparr>cl_UpTraffic := 0, cl_DownTraffic := 0, cl_UpdatedTime := t,
     cl_Enable := (if cl_Enable c = 0 \<and> cl_TotalTraffic c > 0 then 1 else cl_Enable c)\<rparr>"

definition after_reset :: "int \<Rightarrow> Client \<Rightarrow> Client" where
  "after_reset t c = (if cl_Reset c > 0 \<and> reset_due t c then reset_client t c else c)"

lemma reset_counters_clients:
  assumes ok: "x_ok e = (\<lambda>_. True)"
  shows "clients (xd (reset_counters e c w)) =
    update_where (\<lambda>r. cl_ID r = cl_ID c) (\<lambda>r. r\<lparr>cl_UpTraffic := 0, cl_DownTraffic := 0,
      cl_UpdatedTime := x_now e,
      cl_Enable := (if cl_Enable c = 0 \<and> cl_TotalTraffic c > 0 then 1 else cl_Enable r)\<rparr>) (clients (xd w))"
  by (auto simp: reset_counters_def Let_def x_exec_ok [OF ok] set_client_def update_where_def
      split: option.split)

lemma fold_reset:
  assumes ok: "x_ok e = (\<lambda>_. True)" and dist: "distinct (map cl_ID (clients (xd w)))"
    and cs: "set cs \<subseteq> set (clients (xd w))" "distinct (map cl_ID cs)"
  shows "clients (xd (fold (\<lambda>c w. if reset_due (x_now e) c then reset_counters e c w else w) cs w)) =
    map (\<lambda>r. if r \<in> set cs \<and> reset_due (x_now e) r then reset_client (x_now e) r else r) (clients (xd w))"
  using cs
proof (induction cs rule: rev_induct)
  case (snoc c cs)
  let ?f = "\<lambda>c w. if reset_due (x_now e) c then reset_counters e c w else w"
  let ?g = "\<lambda>cs r. if r \<in> set cs \<and> reset_due (x_now e) r then reset_client (x_now e) r else r"
  have IH: "clients (xd (fold ?f cs w)) = map (?g cs) (clients (xd w))" using snoc by simp
  have c: "c \<in> set (clients (xd w))" "c \<notin> set cs" using snoc.prems by auto
  have same: "r = c" if "r \<in> set (clients (xd w))" and "cl_ID r = cl_ID c" for r
    using that c(1) dist by (auto simp: distinct_map dest: inj_onD)
  have key: "cl_ID (?g cs r) = cl_ID r" for r by (simp add: reset_client_def)
  show ?case
  proof (cases "reset_due (x_now e) c")
    case False
    then have "?g (cs @ [c]) = ?g cs" by (auto simp: fun_eq_iff)
    with False IH show ?thesis by simp
  next
    case True
    have "clients (xd (fold ?f (cs @ [c]) w)) =
        map (\<lambda>r. if cl_ID (?g cs r) = cl_ID c then (?g cs r)\<lparr>cl_UpTraffic := 0, cl_DownTraffic := 0,
          cl_UpdatedTime := x_now e,
          cl_Enable := (if cl_Enable c = 0 \<and> cl_TotalTraffic c > 0 then 1 else cl_Enable (?g cs r))\<rparr>
          else ?g cs r) (clients (xd w))"
      using True by (simp only: fold_append comp_apply fold.simps id_apply if_True
          reset_counters_clients [OF ok] IH) (simp add: update_where_def)
    also have "\<dots> = map (?g (cs @ [c])) (clients (xd w))"
    proof (rule map_cong [OF refl])
      fix r assume r: "r \<in> set (clients (xd w))"
      show "(if cl_ID (?g cs r) = cl_ID c then (?g cs r)\<lparr>cl_UpTraffic := 0, cl_DownTraffic := 0,
          cl_UpdatedTime := x_now e,
          cl_Enable := (if cl_Enable c = 0 \<and> cl_TotalTraffic c > 0 then 1 else cl_Enable (?g cs r))\<rparr>
          else ?g cs r) = ?g (cs @ [c]) r"
      proof (cases "cl_ID r = cl_ID c")
        case True
        then have "r = c" using same r by blast
        then show ?thesis using c(2) \<open>reset_due (x_now e) c\<close> by (simp add: reset_client_def)
      next
        case False
        then show ?thesis using key [of r] by auto
      qed
    qed
    finally show ?thesis .
  qed
qed simp

lemma checkClientTrafficReset_clients:
  assumes "x_ok e = (\<lambda>_. True)" and "distinct (map cl_ID (clients (xd w)))"
  shows "clients (xd (checkClientTrafficReset e w)) = map (after_reset (x_now e)) (clients (xd w))"
proof -
  have "distinct (map cl_ID (filter (\<lambda>c. cl_Reset c > 0) (clients (xd w))))"
    using assms(2) by (simp add: distinct_map_filter)
  then have "clients (xd (checkClientTrafficReset e w)) =
    map (\<lambda>r. if r \<in> set (filter (\<lambda>c. cl_Reset c > 0) (clients (xd w))) \<and> reset_due (x_now e) r
      then reset_client (x_now e) r else r) (clients (xd w))"
    unfolding checkClientTrafficReset_def find_where_def
    by (intro fold_reset [OF assms]) auto
  then show ?thesis by (simp add: after_reset_def)
qed

section \<open>Once in a cycle\<close>

text \<open>Times and cycles for which Go's arithmetic does not wrap.\<close>

definition plain_times :: "int \<Rightarrow> Client \<Rightarrow> bool" where
  "plain_times t c \<longleftrightarrow> 0 < cl_Reset c \<and> cl_Reset c \<le> 1000000 \<and> 0 \<le> cl_CreatedTime c \<and>
     cl_CreatedTime c \<le> t \<and> t < 2 ^ 62"

lemma i64_time: "0 \<le> v \<Longrightarrow> v < 2 ^ 62 \<Longrightarrow> i64 v = v"
  by (rule i64_id) auto

lemma cycle_start_plain:
  assumes "plain_times t c"
  shows "cycle_start t c = cl_CreatedTime c +
      (t - cl_CreatedTime c) div (cl_Reset c * 86400000) * (cl_Reset c * 86400000)"
    and "i64 (cl_Reset c * 86400000) = cl_Reset c * 86400000"
    and "i64 (t - cl_CreatedTime c) = t - cl_CreatedTime c"
proof -
  let ?m = "cl_Reset c * 86400000" and ?x = "t - cl_CreatedTime c"
  have m: "0 < ?m" "?m < 2 ^ 62" and x: "0 \<le> ?x" "?x < 2 ^ 62"
    using assms by (auto simp: plain_times_def)
  have p: "0 \<le> ?x div ?m * ?m" "?x div ?m * ?m \<le> ?x"
    using m x pos_mod_sign [OF m(1), of ?x] by (auto simp: pos_imp_zdiv_nonneg_iff minus_mod_eq_div_mult [symmetric]
        intro: zmod_le_nonneg_dividend)
  show i: "i64 ?m = ?m" "i64 ?x = ?x" using m x by (auto intro!: i64_id)
  have "i64 (?x div ?m * ?m) = ?x div ?m * ?m"
    using p(1) order_le_less_trans [OF p(2) x(2)] by (rule i64_time)
  moreover have "i64 (cl_CreatedTime c + ?x div ?m * ?m) = cl_CreatedTime c + ?x div ?m * ?m"
  proof (rule i64_time)
    have c: "0 \<le> cl_CreatedTime c" and t: "t < 2 ^ 62" using assms by (simp_all add: plain_times_def)
    have "cl_CreatedTime c + ?x div ?m * ?m \<le> t" using p(2) by linarith
    then show "cl_CreatedTime c + ?x div ?m * ?m < 2 ^ 62" using t by (rule order_le_less_trans)
    show "0 \<le> cl_CreatedTime c + ?x div ?m * ?m" using c p(1) by (rule add_nonneg_nonneg)
  qed
  ultimately show "cycle_start t c = cl_CreatedTime c + ?x div ?m * ?m"
    by (simp add: cycle_start_def Let_def i)
qed

lemma cycle_start_le: "plain_times t c \<Longrightarrow> cycle_start t c \<le> t"
  using cycle_start_plain(1) [of t c] pos_mod_sign [of "cl_Reset c * 86400000" "t - cl_CreatedTime c"]
  by (auto simp: plain_times_def minus_mod_eq_div_mult [symmetric])

lemma cycle_start_same:
  assumes "plain_times t c" and "plain_times t' c" and "t \<le> t'" and "cycle_start t' c \<le> t"
  shows "cycle_start t' c = cycle_start t c"
proof -
  let ?m = "cl_Reset c * 86400000" and ?x = "t - cl_CreatedTime c" and ?y = "t' - cl_CreatedTime c"
  have m: "0 < ?m" using assms(1) by (simp add: plain_times_def)
  have "?y div ?m * ?m \<le> ?x" using assms(4) cycle_start_plain(1) [OF assms(2)] by simp
  then have "(?y div ?m * ?m) div ?m \<le> ?x div ?m" using m by (intro zdiv_mono1)
  then have "?y div ?m \<le> ?x div ?m" using m by simp
  moreover have "?x div ?m \<le> ?y div ?m" using m assms(3) by (intro zdiv_mono1) auto
  ultimately have "?x div ?m = ?y div ?m" by simp
  then show ?thesis
    by (simp only: cycle_start_plain(1) [OF assms(1)] cycle_start_plain(1) [OF assms(2)])
qed

lemma after_reset_not_due:
  assumes t: "plain_times t c" and t': "plain_times t' c" and "t \<le> t'" and cyc: "cycle_start t' c \<le> t"
    and upd: "cl_CreatedTime c \<le> cl_UpdatedTime c"
  shows "\<not> reset_due t' (after_reset t c)"
proof (cases "reset_due t c")
  case True
  then have r: "after_reset t c = reset_client t c" using t by (simp add: after_reset_def plain_times_def)
  have "cycle_start t' (reset_client t c) = cycle_start t' c"
    by (simp add: cycle_start_def reset_client_def)
  then have "\<not> cl_UpdatedTime (reset_client t c) < cycle_start t' (reset_client t c)"
    using cyc by (simp add: reset_client_def)
  then show ?thesis unfolding r reset_due_def by blast
next
  case False
  then have r: "after_reset t c = c" by (simp add: after_reset_def)
  have cs: "cycle_start t' c = cycle_start t c" using t t' assms(3) cyc by (rule cycle_start_same)
  have "cycle_start t c \<le> cl_UpdatedTime c"
  proof (cases "t = cl_CreatedTime c")
    case True
    then show ?thesis using cycle_start_plain(1) [OF t] upd by simp
  next
    case neq: False
    then show ?thesis
      using False t cycle_start_plain(2,3) [OF t] by (auto simp: reset_due_def plain_times_def)
  qed
  then show ?thesis by (simp add: r reset_due_def cs)
qed

text \<open>C22: A run of the hourly task sets the counters of exactly the clients whose last change lies
  before their current cycle to zero, turns those with a limit on again, and leaves every other
  client alone; and no client it has seen is due at any later time of the same cycle, so the task
  never resets a client twice in one cycle.\<close>

theorem reset_once_per_cycle:
  assumes "xreach w" and "x_ok e = (\<lambda>_. True)" and "firstClient (xd w) k = Some c"
    and "plain_times (x_now e) c" and "cl_CreatedTime c \<le> cl_UpdatedTime c"
    and "plain_times t c" and "x_now e \<le> t" and "cycle_start t c \<le> x_now e"
  shows "firstClient (xd (checkClientTrafficReset e w)) k = Some (after_reset (x_now e) c) \<and>
    \<not> reset_due t (after_reset (x_now e) c)"
proof
  have inv: "xinv (xd w)" using assms(1) by (rule xreach_xinv)
  then have "clients (xd (checkClientTrafficReset e w)) = map (after_reset (x_now e)) (clients (xd w))"
    using assms(2) by (intro checkClientTrafficReset_clients) (simp_all add: xinv_def)
  moreover have "find (\<lambda>r. cl_ID r = k) (map (after_reset s) t) = map_option (after_reset s) (find (\<lambda>r. cl_ID r = k) t)"
    for s t
    by (induction t) (simp_all add: after_reset_def reset_client_def)
  ultimately show "firstClient (xd (checkClientTrafficReset e w)) k = Some (after_reset (x_now e) c)"
    using assms(3) by (simp add: firstClient_def first_where_def)
  show "\<not> reset_due t (after_reset (x_now e) c)"
    using assms(4,6,7,8,5) by (rule after_reset_not_due)
qed

text \<open>Property: an edit of the client counts as a reset: after any change of the row in a cycle the
  task leaves the traffic of that cycle in place.\<close>

theorem edit_skips_reset:
  assumes "cycle_start t c \<le> x_now e" and "xcu_Reset d = None"
  shows "\<not> reset_due t (updated_client e d c)"
  using assms by (auto simp: reset_due_def updated_client_def cycle_start_def or_else_def Let_def
      split: option.split)

end
