(* ===== verification/Xray_Sync_Props.thy ===== *)
theory Xray_Sync_Props
  imports Xray_Quota
begin

text \<open>
  What a reconciliation does to the Xray inbounds of a node: when it panics, which rows it changes,
  and which inbounds it removes from the node.
\<close>

section \<open>Settings that are null\<close>

lemma those_None: "None \<in> set xs \<Longrightarrow> those xs = None"
  by (induction xs) (auto split: option.split)

lemma reconcile_crash:
  assumes "i \<in> set (inbounds (xd w))" and "deployable n i" and "x_parse e (ib_SettingsJson i) = Some JNull"
  shows "reconcileXrayInbounds e n res w = (None, w)"
proof -
  let ?ibs = "find_where (deployable n) (inbounds (xd w))"
  have i: "i \<in> set ?ibs" using assms(1,2) by simp
  have "mergeClientsIntoSettings e (xd w) i = None"
    using assms(3) by (simp add: mergeClientsIntoSettings_def parsed_settings_def)
  then have "merge_all e (xd w) ?ibs = None"
    unfolding merge_all_def using i by (intro those_None) (auto simp: image_iff intro!: bexI [of _ i])
  moreover have "?ibs \<noteq> []" using i by (metis empty_iff empty_set)
  ultimately show ?thesis by (simp add: reconcileXrayInbounds_def Let_def)
qed

text \<open>Property: A user with the Xray permission can make every reconciliation of a node panic: a new inbound
  whose settings are the text \<open>null\<close> panics in the request, after its row is stored as enabled, and
  from then on so does each reconciliation of its node, which runs in a goroutine that nothing
  recovers.\<close>

theorem null_settings_crash:
  assumes "checkXrayPermission (x_panel e) u r = None"
    and "checkXrayNodeAccess (x_panel e) u r (xid_NodeId d) = None"
    and "GetNodeById (x_panel e) (xid_NodeId d) = Some node"
    and "count_where (\<lambda>i. ib_NodeId i = xid_NodeId d \<and> ib_Port i = xid_Port d) (inbounds (xd w)) = 0"
    and "x_ok e = (\<lambda>_. True)" and "xid_SettingsJson d = ''null''" and "x_parse e ''null'' = Some JNull"
    and "x_parse e' ''null'' = Some JNull"
  shows "\<exists>w'. CreateXrayInbound e d u r w = (XCrashed, w') \<and>
    reconcileXrayInbounds e' (xid_NodeId d) res w' = (None, w')"
proof -
  let ?i = "(new_inbound e d u r)\<lparr>ib_ID := inbound_seq (xd w)\<rparr>"
  let ?tag = "''inbound-'' @ itoa (inbound_seq (xd w))"
  define w1 where "w1 = x_exec e (insertInbound (new_inbound e d u r)) w"
  define w2 where "w2 = (if ib_Tag ?i = [] then x_exec e (set_inbound (inbound_seq (xd w)) (\<lambda>i. i\<lparr>ib_Tag := ?tag\<rparr>)) w1 else w1)"
  define i2 where "i2 = (if ib_Tag ?i = [] then ?i\<lparr>ib_Tag := ?tag\<rparr> else ?i)"
  have null: "mergeClientsIntoSettings e (xd w2) i2 = None"
    using assms(6,7) by (simp add: i2_def new_inbound_def mergeClientsIntoSettings_def parsed_settings_def)
  have res: "CreateXrayInbound e d u r w = (XCrashed, w2)"
    using assms(1-5) null
    by (simp add: CreateXrayInbound_def deploy_new_inbound_def Let_def x_write_ok w1_def [symmetric]
        w2_def i2_def split: if_splits)
  have "i2 \<in> set (inbounds (xd w2))"
    by (auto simp: w2_def w1_def i2_def x_exec_ok [OF assms(5)] insertInbound_def insert_row_def
        set_inbound_def update_where_def)
  moreover have "deployable (xid_NodeId d) i2" and "ib_SettingsJson i2 = ''null''"
    using assms(6) by (simp_all add: i2_def new_inbound_def deployable_def)
  ultimately show ?thesis
    using res reconcile_crash [of i2 w2 "xid_NodeId d" e' res] assms(8) by auto
qed

section \<open>Rows in the error state\<close>

text \<open>Property: a reconciliation that reaches the end of its hot additions turns every inbound of the
  node that is in the error state into an enabled one, whatever the node answered to it: an answer
  other than ``not running'' does not count as a failure.\<close>

theorem reconcile_forgets_errors:
  assumes "x_ok e = (\<lambda>_. True)" and "reconcileXrayInbounds e n res w = (Some res', w')"
    and "rec_Errors res' = rec_Errors res" and "i \<in> set (inbounds (xd w'))" and "ib_NodeId i = n"
  shows "ib_Enable i \<noteq> - 1"
proof -
  have "\<forall>j \<in> set (inbounds (recover_inbounds n d)). ib_NodeId j = n \<longrightarrow> ib_Enable j \<noteq> - 1" for d
  proof
    fix j assume "j \<in> set (inbounds (recover_inbounds n d))"
    then obtain r where "j = (if ib_NodeId r = n \<and> ib_Enable r = - 1 then r\<lparr>ib_Enable := 1\<rparr> else r)"
      unfolding recover_inbounds_def inbound_tbl.get_upd set_update_where by (elim imageE)
    then show "ib_NodeId j = n \<longrightarrow> ib_Enable j \<noteq> - 1" by simp
  qed
  then have rec: "ib_Enable i \<noteq> - 1" if "i \<in> set (inbounds (recover_inbounds n d))" for d
    using that assms(5) by blast
  have none: "ib_Enable i \<noteq> - 1" if "find_where (deployable n) (inbounds (xd w)) = []" and "i \<in> set (inbounds (xd w))"
    using that assms(5) by (auto simp: find_where_def filter_empty_conv deployable_def)
  show ?thesis
  proof (cases "find_where (deployable n) (inbounds (xd w)) = []")
    case True
    then have "w' = snd (XrayStop e n w)" using assms(2) by (simp add: reconcileXrayInbounds_def Let_def)
    then show ?thesis using none [OF True] assms(4) by simp
  next
    case False
    then obtain merged where m: "merge_all e (xd w) (find_where (deployable n) (inbounds (xd w))) = Some merged"
      using assms(2) by (auto simp: reconcileXrayInbounds_def Let_def split: option.splits)
    obtain first w1 where f: "XrayAddInbound e n (hd merged) w = (first, w1)" by force
    obtain r w2 where r: "XrayApplyConfig e n merged w1 = (r, w2)" by force
    have "\<exists>v. w' = x_exec e (recover_inbounds n) v"
    proof (cases "xray_not_running (xr_Msg first)")
      case True
      then have "xr_Msg r = ''OK''"
        using assms(2,3) False m f r by (auto simp: reconcileXrayInbounds_def Let_def split: if_splits)
      then show ?thesis using True assms(2) False m f r by (auto simp: reconcileXrayInbounds_def Let_def)
    next
      case no: False
      then show ?thesis using assms(2) False m f by (auto simp: reconcileXrayInbounds_def Let_def)
    qed
    then show ?thesis using rec assms(4) by (auto simp: x_exec_ok [OF assms(1)])
  qed
qed

section \<open>Orphans\<close>

lemma fold_remove_sent:
  assumes on: "x_online e n"
  shows "xsent (snd (fold (remove_orphan e n) ts (res, w))) =
    xsent w @ map (\<lambda>t. (n, VRemoveInbound (fst t))) ts"
proof (induction ts arbitrary: res w)
  case (Cons t ts)
  obtain r w1 where r: "XrayRemoveInbound_x e n (fst t) w = (r, w1)" by force
  then have "xsent w1 = xsent w @ [(n, VRemoveInbound (fst t))]"
    using on by (auto simp: XrayRemoveInbound_x_def x_send_def Let_def split: prod.splits option.splits)
  then show ?case
    using r Cons.IH by (simp add: remove_orphan_def Let_def)
qed simp

text \<open>Property: The clean-up removes from a connected node exactly the inbounds whose tag is \<open>inbound-\<close> and a
  number that is not the key of an inbound the panel has on this node, in the order the node lists
  them. An inbound of the panel with a tag of its own is safe if it does not look like that; one
  that the user tagged \<open>inbound-\<close> and another number is taken for an orphan.\<close>

theorem orphan_cleanup_exact:
  assumes "x_online e n"
    and "XrayGetInboundTags e n w = (\<lparr>xr_Msg = ''OK'', xr_Data = Some (Inbound_tags tags)\<rparr>, w1)"
    and "cleanupOrphanXrayInbounds e n res w = (res', w')"
  shows "xsent w' = xsent w1 @ map (\<lambda>tag. (n, VRemoveInbound tag))
    (filter (\<lambda>tag. \<exists>k. panel_tag tag = Some (tag, k) \<and>
       \<not> list_ex (\<lambda>i. ib_ID i = k \<and> ib_NodeId i = n) (inbounds (xd w))) tags) \<and> xd w' = xd w"
proof
  have d: "xd w1 = xd w" using assms(2) by (simp add: XrayGetInboundTags_def x_send_eqD)
  have tag: "panel_tag t = Some p \<Longrightarrow> fst p = t" for t p
    by (auto simp: panel_tag_def split: if_splits)
  have "map fst (filter (\<lambda>t. \<not> known_inbound n (xd w) (snd t)) (panel_tags ts)) =
      filter (\<lambda>tag. \<exists>k. panel_tag tag = Some (tag, k) \<and> \<not> known_inbound n (xd w) k) ts" for ts
  proof (induction ts)
    case (Cons t ts)
    then show ?case
      using tag [of t] by (cases "panel_tag t") (auto simp: panel_tags_def List.map_filter_simps)
  qed (simp add: panel_tags_def List.map_filter_simps)
  then have fsts: "map (\<lambda>t. (n, VRemoveInbound (fst t)))
        (filter (\<lambda>t. \<not> known_inbound n (xd w) (snd t)) (panel_tags tags)) =
      map (\<lambda>tag. (n, VRemoveInbound tag))
        (filter (\<lambda>tag. \<exists>k. panel_tag tag = Some (tag, k) \<and> \<not> known_inbound n (xd w) k) tags)"
    by (metis (no_types, lifting) map_map comp_apply map_eq_conv)
  have "w' = snd (fold (remove_orphan e n)
      (filter (\<lambda>t. \<not> known_inbound n (xd w) (snd t)) (panel_tags tags)) (res, w1))"
    using assms(2,3) d by (simp add: cleanupOrphanXrayInbounds_def)
  then show "xsent w' = xsent w1 @ map (\<lambda>tag. (n, VRemoveInbound tag))
    (filter (\<lambda>tag. \<exists>k. panel_tag tag = Some (tag, k) \<and>
       \<not> list_ex (\<lambda>i. ib_ID i = k \<and> ib_NodeId i = n) (inbounds (xd w))) tags)"
    using fold_remove_sent [OF assms(1)] fsts by (simp add: known_inbound_def)
  show "xd w' = xd w"
    using cleanup_orphans_xd [of e n res w] assms(3) by simp
qed

end
