(* ===== verification/Xray_Link.thy ===== *)
theory Xray_Link
  imports Xray_Clients
begin

text \<open>
  The share links of clients (service/xray_client.go): the link of each protocol, and the list a
  subscription delivers. \<open>url.QueryEscape\<close> and \<open>url.Values.Encode\<close> are written out; \<open>lib_b64\<close> is
  \<open>base64.StdEncoding\<close> and \<open>lib_stream\<close>, \<open>lib_method\<close> are \<open>json.Unmarshal\<close> into the code's structs
  (\<open>None\<close> for an error).
\<close>

section \<open>Query strings\<close>

definition hex_digit :: "nat \<Rightarrow> char" where
  "hex_digit n = (if n < 10 then digit n else char_of (55 + n))"

definition unreserved :: "char \<Rightarrow> bool" where
  "unreserved c \<longleftrightarrow> is_digit c \<or> (65::nat) \<le> of_char c \<and> of_char c \<le> (90::nat) \<or>
     (97::nat) \<le> of_char c \<and> of_char c \<le> (122::nat) \<or> c \<in> set ''-_.~''"

definition QueryEscape :: "string \<Rightarrow> string" where
  "QueryEscape s = concat (map (\<lambda>c. if unreserved c then [c] else if c = CHR '' '' then ''+''
     else [CHR ''%'', hex_digit (of_char c div 16), hex_digit (of_char c mod 16)]) s)"

text \<open>\<open>url.Values\<close> with one value per key; \<open>Set\<close> replaces, \<open>Encode\<close> sorts by key.\<close>

type_synonym url_values = "(string \<times> string) list"

definition url_set :: "string \<Rightarrow> string \<Rightarrow> url_values \<Rightarrow> url_values" where
  "url_set k v ps = filter (\<lambda>p. fst p \<noteq> k) ps @ [(k, v)]"

definition key_le :: "string \<Rightarrow> string \<Rightarrow> bool" where
  "key_le a b \<longleftrightarrow> ord.lexordp_eq (<) (map (of_char :: char \<Rightarrow> nat) a) (map of_char b)"

fun insert_param :: "string \<times> string \<Rightarrow> url_values \<Rightarrow> url_values" where
  "insert_param p [] = [p]"
| "insert_param p (q # qs) = (if key_le (fst p) (fst q) then p # q # qs else q # insert_param p qs)"

fun join_with :: "string \<Rightarrow> string list \<Rightarrow> string" where
  "join_with sep [] = []"
| "join_with sep [s] = s"
| "join_with sep (s # ss) = s @ sep @ join_with sep ss"

definition url_encode :: "url_values \<Rightarrow> string" where
  "url_encode ps = join_with ''&'' (map (\<lambda>(k, v). QueryEscape k @ ''='' @ QueryEscape v)
     (foldr insert_param ps []))"

section \<open>Transport settings\<close>

record streamSettings =
  ss_Network :: string
  ss_Security :: string
  ss_WsPath :: string
  ss_WsHost :: string
  ss_GrpcServiceName :: string
  ss_TcpHeaderType :: string
  ss_TcpPaths :: "string list"
  ss_TcpHosts :: "string list"
  ss_HttpupgradePath :: string
  ss_HttpupgradeHost :: string
  ss_XhttpPath :: string
  ss_XhttpHost :: string
  ss_KcpHeaderType :: string
  ss_KcpSeed :: string
  ss_TlsServerName :: string
  ss_TlsFingerprint :: string
  ss_TlsAlpn :: "string list"
  ss_RealityServerNames :: "string list"
  ss_RealityPublicKey :: string
  ss_RealityShortIds :: "string list"
  ss_RealitySpiderX :: string
  ss_RealityFingerprint :: string

definition no_stream :: streamSettings where
  "no_stream = \<lparr>ss_Network = [], ss_Security = [], ss_WsPath = [], ss_WsHost = [],
     ss_GrpcServiceName = [], ss_TcpHeaderType = [], ss_TcpPaths = [], ss_TcpHosts = [],
     ss_HttpupgradePath = [], ss_HttpupgradeHost = [], ss_XhttpPath = [], ss_XhttpHost = [],
     ss_KcpHeaderType = [], ss_KcpSeed = [], ss_TlsServerName = [], ss_TlsFingerprint = [],
     ss_TlsAlpn = [], ss_RealityServerNames = [], ss_RealityPublicKey = [], ss_RealityShortIds = [],
     ss_RealitySpiderX = [], ss_RealityFingerprint = []\<rparr>"

record link_lib =
  lib_b64 :: "string \<Rightarrow> string"
  lib_print :: "json \<Rightarrow> string"
  lib_stream :: "string \<Rightarrow> streamSettings option"
  lib_method :: "string \<Rightarrow> string option"

definition parseStreamSettings :: "link_lib \<Rightarrow> string \<Rightarrow> streamSettings" where
  "parseStreamSettings l s = (if s = [] then no_stream else or_else (lib_stream l s) no_stream)"

text \<open>\<open>parseInboundSettings\<close>: of the settings only \<open>method\<close> is read.\<close>

definition parseInboundSettings :: "link_lib \<Rightarrow> string \<Rightarrow> string" where
  "parseInboundSettings l s = (if s = [] then [] else or_else (lib_method l s) [])"

definition first_or_empty :: "string list \<Rightarrow> string" where
  "first_or_empty xs = (case xs of [] \<Rightarrow> [] | x # _ \<Rightarrow> x)"

definition streamPath :: "streamSettings \<Rightarrow> string" where
  "streamPath ss =
     (let n = ss_Network ss
      in if n = ''ws'' then ss_WsPath ss
         else if n = ''grpc'' then ss_GrpcServiceName ss
         else if n = ''httpupgrade'' then ss_HttpupgradePath ss
         else if n = ''xhttp'' \<or> n = ''splithttp'' then ss_XhttpPath ss
         else if n = ''tcp'' then first_or_empty (ss_TcpPaths ss)
         else if n = ''kcp'' \<or> n = ''mkcp'' then ss_KcpSeed ss
         else [])"

definition streamHost :: "streamSettings \<Rightarrow> string" where
  "streamHost ss =
     (let n = ss_Network ss
      in if n = ''ws'' then ss_WsHost ss
         else if n = ''httpupgrade'' then ss_HttpupgradeHost ss
         else if n = ''xhttp'' \<or> n = ''splithttp'' then ss_XhttpHost ss
         else if n = ''tcp'' then first_or_empty (ss_TcpHosts ss)
         else [])"

definition streamHeaderType :: "streamSettings \<Rightarrow> string" where
  "streamHeaderType ss =
     (let n = ss_Network ss
      in if n = ''tcp'' then ss_TcpHeaderType ss
         else if n = ''kcp'' \<or> n = ''mkcp'' then ss_KcpHeaderType ss
         else [])"

definition network_or_tcp :: "streamSettings \<Rightarrow> string" where
  "network_or_tcp ss = (if ss_Network ss = [] then ''tcp'' else ss_Network ss)"

definition set_if :: "bool \<Rightarrow> string \<Rightarrow> string \<Rightarrow> url_values \<Rightarrow> url_values" where
  "set_if b k v ps = (if b then url_set k v ps else ps)"

definition addTransportParams :: "streamSettings \<Rightarrow> url_values \<Rightarrow> url_values" where
  "addTransportParams ss ps =
     (let p1 = url_set ''type'' (network_or_tcp ss) ps;
          p2 = set_if (streamPath ss \<noteq> []) ''path'' (streamPath ss) p1;
          p3 = set_if (streamHost ss \<noteq> []) ''host'' (streamHost ss) p2;
          ht = streamHeaderType ss;
          p4 = set_if (ht \<noteq> [] \<and> ht \<noteq> ''none'') ''headerType'' ht p3;
          p5 = set_if (ss_Network ss = ''grpc'') ''serviceName'' (ss_GrpcServiceName ss) p4;
          p6 = set_if (ss_Network ss \<in> {''kcp'', ''mkcp''} \<and> ss_KcpSeed ss \<noteq> []) ''seed'' (ss_KcpSeed ss) p5;
          p7 = url_set ''security'' (if ss_Security ss = [] then ''none'' else ss_Security ss) p6;
          tls = (ss_Security ss = ''tls'');
          p8 = set_if (tls \<and> ss_TlsServerName ss \<noteq> []) ''sni'' (ss_TlsServerName ss) p7;
          p9 = set_if (tls \<and> ss_TlsFingerprint ss \<noteq> []) ''fp'' (ss_TlsFingerprint ss) p8;
          p10 = set_if (tls \<and> ss_TlsAlpn ss \<noteq> []) ''alpn'' (join_with '','' (ss_TlsAlpn ss)) p9;
          reality = (ss_Security ss = ''reality'');
          p11 = set_if (reality \<and> ss_RealityServerNames ss \<noteq> []) ''sni''
                  (first_or_empty (ss_RealityServerNames ss)) p10;
          p12 = set_if (reality \<and> ss_RealityPublicKey ss \<noteq> []) ''pbk'' (ss_RealityPublicKey ss) p11;
          p13 = set_if (reality \<and> ss_RealityShortIds ss \<noteq> []) ''sid''
                  (first_or_empty (ss_RealityShortIds ss)) p12;
          p14 = set_if (reality \<and> ss_RealitySpiderX ss \<noteq> []) ''spx'' (ss_RealitySpiderX ss) p13
      in set_if (reality \<and> ss_RealityFingerprint ss \<noteq> []) ''fp'' (ss_RealityFingerprint ss) p14)"

section \<open>Links\<close>

definition generateVmessLink ::
  "link_lib \<Rightarrow> Client \<Rightarrow> string \<Rightarrow> int \<Rightarrow> string \<Rightarrow> streamSettings \<Rightarrow> string" where
  "generateVmessLink l c host port remark ss =
     (let tls = (ss_Security ss = ''tls'');
          ht = streamHeaderType ss;
          config = json_obj [(''v'', JStr ''2''), (''ps'', JStr remark), (''add'', JStr host),
            (''port'', JInt port), (''id'', JStr (cl_UuidOrPassword c)), (''aid'', JInt (cl_AlterId c)),
            (''scy'', JStr ''auto''), (''net'', JStr (network_or_tcp ss)),
            (''type'', JStr (if ht = [] then ''none'' else ht)), (''host'', JStr (streamHost ss)),
            (''path'', JStr (streamPath ss)), (''tls'', JStr (if tls then ''tls'' else [])),
            (''sni'', JStr (if tls then ss_TlsServerName ss else [])),
            (''fp'', JStr (if tls then ss_TlsFingerprint ss else [])),
            (''alpn'', JStr (if tls then join_with '','' (ss_TlsAlpn ss) else []))]
      in ''vmess://'' @ lib_b64 l (lib_print l config))"

definition generateVlessLink ::
  "Client \<Rightarrow> string \<Rightarrow> int \<Rightarrow> string \<Rightarrow> streamSettings \<Rightarrow> string" where
  "generateVlessLink c host port remark ss =
     (let p1 = url_set ''encryption'' ''none'' [];
          p2 = set_if (cl_Flow c \<noteq> []) ''flow'' (cl_Flow c) p1
      in ''vless://'' @ cl_UuidOrPassword c @ ''@'' @ host @ '':'' @ itoa port @ ''?'' @
         url_encode (addTransportParams ss p2) @ ''#'' @ QueryEscape remark)"

definition generateTrojanLink ::
  "Client \<Rightarrow> string \<Rightarrow> int \<Rightarrow> string \<Rightarrow> streamSettings \<Rightarrow> string" where
  "generateTrojanLink c host port remark ss =
     ''trojan://'' @ cl_UuidOrPassword c @ ''@'' @ host @ '':'' @ itoa port @ ''?'' @
     url_encode (addTransportParams ss []) @ ''#'' @ QueryEscape remark"

definition generateShadowsocksLink ::
  "link_lib \<Rightarrow> Client \<Rightarrow> string \<Rightarrow> int \<Rightarrow> string \<Rightarrow> string \<Rightarrow> string" where
  "generateShadowsocksLink l c host port remark mthd =
     (let m = (if mthd = [] then ''aes-256-gcm'' else mthd)
      in ''ss://'' @ lib_b64 l (m @ '':'' @ cl_UuidOrPassword c) @ ''@'' @ host @ '':'' @ itoa port @
         ''#'' @ QueryEscape remark)"

definition link_remark :: "Client \<Rightarrow> Inbound \<Rightarrow> string" where
  "link_remark c ib = (if cl_Remark c \<noteq> [] then cl_Remark c
     else if ib_Remark ib \<noteq> [] then ib_Remark ib else ib_Tag ib)"

definition generateProtocolLink :: "link_lib \<Rightarrow> Client \<Rightarrow> Inbound \<Rightarrow> Node \<Rightarrow> string" where
  "generateProtocolLink l c ib node =
     (let host = (if ib_CustomEntry ib \<noteq> [] then ib_CustomEntry ib else n_ServerIp node);
          ss = parseStreamSettings l (ib_StreamSettingsJson ib);
          p = ib_Protocol ib
      in if p = ''vmess'' then generateVmessLink l c host (ib_Port ib) (link_remark c ib) ss
         else if p = ''vless'' then generateVlessLink c host (ib_Port ib) (link_remark c ib) ss
         else if p = ''trojan'' then generateTrojanLink c host (ib_Port ib) (link_remark c ib) ss
         else if p = ''shadowsocks'' then generateShadowsocksLink l c host (ib_Port ib) (link_remark c ib)
           (parseInboundSettings l (ib_SettingsJson ib))
         else [])"

record share_link =
  sh_Link :: string
  sh_Protocol :: string
  sh_Remark :: string
  sh_NodeName :: string

section \<open>Subscriptions\<close>

text \<open>The clients a subscription starts from: for an administrator all, or with scope \<open>mine\<close>
  those on inbounds without an owner; for a user the own ones.\<close>

definition subscribed_clients :: "xdb \<Rightarrow> User \<Rightarrow> string \<Rightarrow> Client list" where
  "subscribed_clients d user scope =
     (if u_RoleId user = 0 then
        (if scope = ''mine'' then
           find_where (\<lambda>c. cl_Enable c = 1 \<and> list_ex (\<lambda>i. ib_UserId i = 0 \<and> ib_ID i = cl_InboundId c)
             (inbounds d)) (clients d)
         else find_where (\<lambda>c. cl_Enable c = 1) (clients d))
      else find_where (\<lambda>c. cl_UserId c = u_ID user \<and> cl_Enable c = 1) (clients d))"

text \<open>One turn of the loop: \<open>None\<close> is \<open>continue\<close> or an empty link.\<close>

definition subscription_link :: "link_lib \<Rightarrow> db \<Rightarrow> xdb \<Rightarrow> User \<Rightarrow> Client \<Rightarrow> share_link option" where
  "subscription_link l p d user c =
     (case firstInbound d (cl_InboundId c) of None \<Rightarrow> None | Some ib \<Rightarrow>
      if ib_Enable ib \<noteq> 1 then None
      else case GetNodeById p (ib_NodeId ib) of None \<Rightarrow> None | Some node \<Rightarrow>
      if u_RoleId user \<noteq> 0 \<and> \<not> UserHasNodeAccess p (u_ID user) (n_ID node) then None
      else
        (let link = generateProtocolLink l c ib node
         in if link = [] then None
            else Some \<lparr>sh_Link = link, sh_Protocol = ib_Protocol ib, sh_Remark = link_remark c ib,
                   sh_NodeName = n_Name node\<rparr>))"

definition GetSubscriptionLinks ::
  "link_lib \<Rightarrow> db \<Rightarrow> xdb \<Rightarrow> int \<Rightarrow> string \<Rightarrow> xerr + share_link list" where
  "GetSubscriptionLinks l p d userId scope =
     (case firstUser p userId of None \<Rightarrow> Inl XUserNotFound | Some user \<Rightarrow>
      if u_RoleId user \<noteq> 0 \<and> u_XrayEnabled user \<noteq> 1 then Inr []
      else Inr (List.map_filter (subscription_link l p d user) (subscribed_clients d user scope)))"

definition GetClientLink ::
  "link_lib \<Rightarrow> db \<Rightarrow> xdb \<Rightarrow> int \<Rightarrow> int \<Rightarrow> int \<Rightarrow> xerr + string \<times> string \<times> string" where
  "GetClientLink l p d clientId userId roleId =
     (case checkXrayPermission p userId roleId of Some r \<Rightarrow> Inl r | None \<Rightarrow>
      case firstClient d clientId of None \<Rightarrow> Inl ClientNotFound | Some c \<Rightarrow>
      if roleId \<noteq> 0 \<and> cl_UserId c \<noteq> userId then Inl NotOwnClient
      else case firstInbound d (cl_InboundId c) of None \<Rightarrow> Inl InboundNotFound | Some ib \<Rightarrow>
      case checkXrayNodeAccess p userId roleId (ib_NodeId ib) of Some r \<Rightarrow> Inl r | None \<Rightarrow>
      case GetNodeById p (ib_NodeId ib) of None \<Rightarrow> Inl XNodeNotFound | Some node \<Rightarrow>
      let link = generateProtocolLink l c ib node
      in if link = [] then Inl UnsupportedProtocol else Inr (link, ib_Protocol ib, link_remark c ib))"

section \<open>What a subscription shows\<close>

lemma set_map_filter: "set (List.map_filter f xs) = {y. \<exists>x \<in> set xs. f x = Some y}"
  by (auto simp: List.map_filter_def) force+

text \<open>Property: Every link in the subscription of a user who is no administrator belongs to an enabled
  client of that user, on an enabled inbound, on an existing node the user may use, and the user
  holds the Xray permission.\<close>

theorem subscription_links_active:
  assumes "GetSubscriptionLinks l p d userId scope = Inr links" and "s \<in> set links"
    and "firstUser p userId = Some user" and "u_RoleId user \<noteq> 0"
  shows "\<exists>c ib node. c \<in> set (clients d) \<and> cl_UserId c = userId \<and> cl_Enable c = 1 \<and>
    firstInbound d (cl_InboundId c) = Some ib \<and> ib_Enable ib = 1 \<and>
    GetNodeById p (ib_NodeId ib) = Some node \<and> UserHasNodeAccess p userId (ib_NodeId ib) \<and>
    u_XrayEnabled user = 1 \<and> sh_Link s = generateProtocolLink l c ib node \<and> sh_Link s \<noteq> []"
proof -
  have x: "u_XrayEnabled user = 1" and s: "links = List.map_filter (subscription_link l p d user)
      (subscribed_clients d user scope)"
    using assms by (auto simp: GetSubscriptionLinks_def List.map_filter_def split: if_splits)
  have id: "u_ID user = userId" using assms(3) firstUser_Some by blast
  from assms(2) s obtain c where c: "c \<in> set (subscribed_clients d user scope)"
    and l: "subscription_link l p d user c = Some s"
    by (auto simp: set_map_filter)
  from l obtain ib node where "firstInbound d (cl_InboundId c) = Some ib" and "ib_Enable ib = 1"
    and n: "GetNodeById p (ib_NodeId ib) = Some node" and "UserHasNodeAccess p userId (n_ID node)"
    and "sh_Link s = generateProtocolLink l c ib node" and "sh_Link s \<noteq> []"
    using assms(4) id
    by (auto simp: subscription_link_def Let_def split: option.splits if_splits)
  moreover have "n_ID node = ib_NodeId ib" using GetNodeById_Some [OF n] by simp
  ultimately show ?thesis
    using c x id assms(4) by (auto simp: subscribed_clients_def)
qed

text \<open>Property: When an administrator withdraws a user's Xray permission on one node, the request for the
  link of a single client on it is refused, but the user's subscription goes on delivering the very
  link: it looks only at whether the user may use the node at all.\<close>

theorem subscription_ignores_withdrawal:
  assumes "firstUser p userId = Some user" and "u_RoleId user \<noteq> 0" and "u_XrayEnabled user = 1"
    and "firstClient d k = Some c" and "cl_UserId c = userId" and "cl_Enable c = 1"
    and "firstInbound d (cl_InboundId c) = Some ib" and "ib_Enable ib = 1"
    and "GetNodeById p (ib_NodeId ib) = Some node" and "generateProtocolLink l c ib node \<noteq> []"
    and "first_where (\<lambda>un. un_UserId un = userId \<and> un_NodeId un = ib_NodeId ib) (user_nodes p) = Some un"
    and "un_XrayEnabled un = 0"
  shows "GetClientLink l p d k userId (u_RoleId user) = Inl NodeXrayDisabled \<and>
    (\<exists>links. GetSubscriptionLinks l p d userId scope = Inr links \<and>
       generateProtocolLink l c ib node \<in> set (map sh_Link links))"
proof
  show "GetClientLink l p d k userId (u_RoleId user) = Inl NodeXrayDisabled"
    using assms by (simp add: GetClientLink_def checkXrayPermission_def checkXrayNodeAccess_def)
  have id: "u_ID user = userId" using assms(1) firstUser_Some by blast
  have node: "n_ID node = ib_NodeId ib" using GetNodeById_Some [OF assms(9)] by simp
  have "un \<in> set (user_nodes p) \<and> un_UserId un = userId \<and> un_NodeId un = ib_NodeId ib"
    using first_where_Some [OF assms(11)] by simp
  then have acc: "UserHasNodeAccess p userId (ib_NodeId ib)"
    unfolding UserHasNodeAccess_def Let_def count_where_pos by auto
  have "c \<in> set (clients d)" using firstClient_Some [OF assms(4)] by simp
  then have c: "c \<in> set (subscribed_clients d user scope)"
    using assms id by (simp add: subscribed_clients_def)
  define s where "s = \<lparr>sh_Link = generateProtocolLink l c ib node, sh_Protocol = ib_Protocol ib,
    sh_Remark = link_remark c ib, sh_NodeName = n_Name node\<rparr>"
  have "subscription_link l p d user c = Some s"
    using assms acc id node by (simp add: subscription_link_def s_def)
  then have "s \<in> set (List.map_filter (subscription_link l p d user) (subscribed_clients d user scope))"
    using c by (auto simp: set_map_filter)
  moreover have "sh_Link s = generateProtocolLink l c ib node" by (simp add: s_def)
  moreover have "GetSubscriptionLinks l p d userId scope =
      Inr (List.map_filter (subscription_link l p d user) (subscribed_clients d user scope))"
    using assms by (simp add: GetSubscriptionLinks_def)
  ultimately show "\<exists>links. GetSubscriptionLinks l p d userId scope = Inr links \<and>
       generateProtocolLink l c ib node \<in> set (map sh_Link links)"
    by (metis image_eqI set_map)
qed

section \<open>Escaped text\<close>

lemma hex_digit_unreserved: "n < 16 \<Longrightarrow> unreserved (hex_digit n)"
  by (cases "n < 10") (auto simp: hex_digit_def unreserved_def)

text \<open>Property: what is escaped into a link holds no character that structures the link.\<close>

theorem escaped_text_clean:
  "set (QueryEscape s) \<subseteq> {c. unreserved c} \<union> set ''+%''"
proof -
  have "(of_char c :: nat) div 16 < 16" for c :: char
    using nat_of_char_less_256 [of c] by (simp add: less_mult_imp_div_less)
  then show ?thesis
    by (auto simp: QueryEscape_def hex_digit_unreserved split: if_splits)
qed

end
