(* ===== verification/Xray_Manager.thy ===== *)
theory Xray_Manager
  imports Xray_Clients
begin

text \<open>
  The node's side of Xray (go-node/x/xray/manager.go, grpc_client.go, the \<open>V\<close> commands of
  socket/websocket_reporter.go): the manager of the proxy process and of its configuration file.

  The proxy is a program of its own, so its state has any type \<open>'x\<close>; the record \<open>xray_bin\<close> holds
  what the code gets from it and from the operating system: \<open>spawn\<close> starts it, \<open>alive\<close> tells
  whether it still runs after a pause, and the \<open>cli\<close> functions are its commands \<open>adi\<close>, \<open>rmi\<close>, \<open>adu\<close>,
  \<open>rmu\<close> and \<open>statsquery\<close> (an error text, or success). \<open>jparse\<close> is \<open>json.Unmarshal\<close> on a settings text.

  A file is \<open>Missing\<close>, \<open>Broken\<close> (no JSON object) or the object it holds: printing a configuration
  and reading it again gives it back. A write that fails leaves the file as it was.
\<close>

datatype cfg_file = Missing | Broken | Config json_obj

record 'x xray_bin =
  look_path :: bool
  persisted :: bool
  copy_ok :: bool
  can_write :: bool
  spawn :: "cfg_file \<Rightarrow> 'x \<Rightarrow> 'x option"
  alive :: "'x \<Rightarrow> bool"
  terminate :: "'x \<Rightarrow> 'x"
  cli_adi :: "json \<Rightarrow> 'x \<Rightarrow> string option \<times> 'x"
  cli_rmi :: "string \<Rightarrow> 'x \<Rightarrow> string option \<times> 'x"
  cli_adu :: "json \<Rightarrow> 'x \<Rightarrow> string option \<times> 'x"
  cli_rmu :: "string \<Rightarrow> string \<Rightarrow> 'x \<Rightarrow> string option \<times> 'x"
  cli_stats :: "bool \<Rightarrow> 'x \<Rightarrow> (string + (string \<times> int) list) \<times> 'x"
  bin_version :: string
  jparse :: "string \<Rightarrow> json option"

text \<open>\<open>XrayManager\<close>; \<open>xm_certs\<close> are the certificate files written beside it.\<close>

record 'x manager =
  xm_file :: cfg_file
  xm_running :: bool
  xm_proc :: 'x
  xm_certs :: "string \<rightharpoonup> string"

section \<open>The configuration file\<close>

definition inbound_obj :: "'x xray_bin \<Rightarrow> InboundConfig \<Rightarrow> json" where
  "inbound_obj B ic =
     (let part = (\<lambda>key text. if text = [] then []
                    else case jparse B text of None \<Rightarrow> [] | Some j \<Rightarrow> [(key, j)])
      in json_obj ([(''listen'', JStr (ic_Listen ic)), (''port'', JInt (ic_Port ic)),
           (''protocol'', JStr (ic_Protocol ic)), (''tag'', JStr (ic_Tag ic))] @
           part ''settings'' (ic_SettingsJSON ic) @ part ''streamSettings'' (ic_StreamSettingsJSON ic) @
           part ''sniffing'' (ic_SniffingJSON ic)))"

definition api_inbound :: json where
  "api_inbound = json_obj [(''listen'', JStr ''127.0.0.1''), (''port'', JInt 10085),
     (''protocol'', JStr ''dokodemo-door''), (''settings'', json_obj [(''address'', JStr ''127.0.0.1'')]),
     (''tag'', JStr ''api'')]"

definition buildBaseConfig :: "'x xray_bin \<Rightarrow> InboundConfig list \<Rightarrow> json_obj" where
  "buildBaseConfig B ics = fmap_of_list
     [(''log'', json_obj [(''loglevel'', JStr ''warning'')]), (''stats'', json_obj []),
      (''api'', json_obj [(''tag'', JStr ''api''),
         (''services'', JArr [JStr ''HandlerService'', JStr ''LoggerService'', JStr ''StatsService''])]),
      (''policy'', json_obj
         [(''levels'', json_obj [(''0'', json_obj [(''statsUserUplink'', JBool True),
            (''statsUserDownlink'', JBool True)])]),
          (''system'', json_obj [(''statsInboundUplink'', JBool True), (''statsInboundDownlink'', JBool True),
            (''statsOutboundUplink'', JBool True), (''statsOutboundDownlink'', JBool True)])]),
      (''routing'', json_obj [(''rules'', JArr [json_obj [(''inboundTag'', JArr [JStr ''api'']),
         (''outboundTag'', JStr ''api''), (''type'', JStr ''field'')]])]),
      (''outbounds'', JArr [json_obj [(''protocol'', JStr ''freedom''), (''tag'', JStr ''direct'')],
         json_obj [(''protocol'', JStr ''blackhole''), (''tag'', JStr ''blocked'')]]),
      (''inbounds'', JArr (api_inbound # map (inbound_obj B) ics))]"

definition writeConfig :: "'x xray_bin \<Rightarrow> json_obj \<Rightarrow> 'x manager \<Rightarrow> string option \<times> 'x manager" where
  "writeConfig B c m =
     (if can_write B then (None, m\<lparr>xm_file := Config c\<rparr>) else (Some ''write failed'', m))"

definition updateConfigFile ::
  "'x xray_bin \<Rightarrow> (json_obj \<Rightarrow> json_obj) \<Rightarrow> 'x manager \<Rightarrow> 'x manager" where
  "updateConfigFile B mutate m =
     (case xm_file m of Config c \<Rightarrow> snd (writeConfig B (mutate c) m) | _ \<Rightarrow> m)"

definition ensureBaseConfig :: "'x xray_bin \<Rightarrow> 'x manager \<Rightarrow> string option \<times> 'x manager" where
  "ensureBaseConfig B m =
     (if xm_file m \<noteq> Missing then (None, m) else writeConfig B (buildBaseConfig B []) m)"

definition file_inbounds :: "json_obj \<Rightarrow> json list" where
  "file_inbounds c = as_list (fmlookup c ''inbounds'')"

definition put_inbound :: "string \<Rightarrow> json \<Rightarrow> json_obj \<Rightarrow> json_obj" where
  "put_inbound tag ob c =
     fmupd ''inbounds'' (JArr (filter (\<lambda>j. \<not> key_is ''tag'' tag j) (file_inbounds c) @ [ob])) c"

definition drop_inbound :: "string \<Rightarrow> json_obj \<Rightarrow> json_obj" where
  "drop_inbound tag c =
     fmupd ''inbounds'' (JSlice (filter (\<lambda>j. \<not> key_is ''tag'' tag j) (file_inbounds c))) c"

section \<open>The process\<close>

definition settle :: "'x xray_bin \<Rightarrow> 'x manager \<Rightarrow> 'x manager" where
  "settle B m = m\<lparr>xm_running := (xm_running m \<and> alive B (xm_proc m))\<rparr>"

definition xStart :: "'x xray_bin \<Rightarrow> 'x manager \<Rightarrow> string option \<times> 'x manager" where
  "xStart B m =
     (if xm_running m then (Some ''service is already running'', m)
      else case ensureBaseConfig B m of
          (Some er, m1) \<Rightarrow> (Some (''failed to ensure base config: '' @ er), m1)
        | (None, m1) \<Rightarrow>
            (case spawn B (xm_file m1) (xm_proc m1) of
               None \<Rightarrow> (Some ''failed to start service'', m1)
             | Some x \<Rightarrow> (None, m1\<lparr>xm_running := True, xm_proc := x\<rparr>)))"

definition xStop :: "'x xray_bin \<Rightarrow> 'x manager \<Rightarrow> 'x manager" where
  "xStop B m = (if xm_running m then m\<lparr>xm_running := False, xm_proc := terminate B (xm_proc m)\<rparr>
     else m\<lparr>xm_running := False\<rparr>)"

definition xRestart :: "'x xray_bin \<Rightarrow> 'x manager \<Rightarrow> string option \<times> 'x manager" where
  "xRestart B m = xStart B (xStop B m)"

definition EnsureBinary :: "'x xray_bin \<Rightarrow> string option" where
  "EnsureBinary B =
     (if look_path B then None
      else if persisted B \<and> copy_ok B then None
      else Some ''secondary binary not installed, please switch version in node management first'')"

definition restore_config :: "'x xray_bin \<Rightarrow> cfg_file \<Rightarrow> 'x manager \<Rightarrow> 'x manager" where
  "restore_config B old m =
     (if old = Missing then m
      else snd (xStart B (if can_write B then m\<lparr>xm_file := old\<rparr> else m)))"

definition ApplyConfig ::
  "'x xray_bin \<Rightarrow> InboundConfig list \<Rightarrow> 'x manager \<Rightarrow> string option \<times> 'x manager" where
  "ApplyConfig B ics m =
     (case writeConfig B (buildBaseConfig B ics) m of
        (Some er, m1) \<Rightarrow> (Some (''failed to write config: '' @ er), m1)
      | (None, m1) \<Rightarrow>
          (case (if xm_running m1 then xRestart B m1 else xStart B m1) of
             (Some er, m2) \<Rightarrow>
               (Some (''service start failed: '' @ er), restore_config B (xm_file m) m2)
           | (None, m2) \<Rightarrow>
               (let m3 = settle B m2
                in if xm_running m3 then (None, m3)
                   else (Some ''invalid config, service crashed after start, rolled back'',
                         restore_config B (xm_file m) m3))))"

section \<open>Commands to the running proxy\<close>

definition wrapped :: "json \<Rightarrow> json" where
  "wrapped ib = json_obj [(''inbounds'', JArr [ib])]"

definition on_proc ::
  "('x \<Rightarrow> string option \<times> 'x) \<Rightarrow> 'x manager \<Rightarrow> string option \<times> 'x manager" where
  "on_proc cmd m = (let (r, x) = cmd (xm_proc m) in (r, m\<lparr>xm_proc := x\<rparr>))"

definition AddInbound :: "'x xray_bin \<Rightarrow> json \<Rightarrow> 'x manager \<Rightarrow> string option \<times> 'x manager" where
  "AddInbound B ib = on_proc (cli_adi B (wrapped ib))"

definition RemoveInbound :: "'x xray_bin \<Rightarrow> string \<Rightarrow> 'x manager \<Rightarrow> string option \<times> 'x manager" where
  "RemoveInbound B tag = on_proc (cli_rmi B tag)"

definition user_fields :: "UserConfig \<Rightarrow> (string \<times> json) list" where
  "user_fields uc =
     (if uc_Protocol uc = ''vmess'' then
        [(''id'', JStr (uc_UuidOrPassword uc)), (''alterId'', JInt (uc_AlterId uc))]
      else if uc_Protocol uc = ''vless'' then
        [(''id'', JStr (uc_UuidOrPassword uc)), (''flow'', JStr (uc_Flow uc))]
      else if uc_Protocol uc \<in> {''trojan'', ''shadowsocks''} then
        [(''password'', JStr (uc_UuidOrPassword uc))]
      else [])"

definition AddUser :: "'x xray_bin \<Rightarrow> UserConfig \<Rightarrow> 'x manager \<Rightarrow> string option \<times> 'x manager" where
  "AddUser B uc m =
     (if uc_Protocol uc \<notin> {''vmess'', ''vless'', ''trojan'', ''shadowsocks''}
      then (Some (''unsupported protocol: '' @ uc_Protocol uc), m)
      else on_proc (cli_adu B (wrapped (json_obj [(''tag'', JStr (uc_InboundTag uc)),
             (''settings'', json_obj [(''clients'', JArr [json_obj ([(''email'', JStr (uc_Email uc)),
                (''level'', JInt 0)] @ user_fields uc)])])]))) m)"

definition RemoveUser :: "'x xray_bin \<Rightarrow> string \<Rightarrow> string \<Rightarrow> 'x manager \<Rightarrow> string option \<times> 'x manager" where
  "RemoveUser B tag email = on_proc (cli_rmu B tag email)"

section \<open>Inbounds\<close>

definition hot_add_running :: "'x xray_bin \<Rightarrow> InboundConfig \<Rightarrow> 'x manager \<Rightarrow> string option \<times> 'x manager" where
  "hot_add_running B ic m =
     (case AddInbound B (inbound_obj B ic) m of
        (Some er, m1) \<Rightarrow> (Some (''hot add inbound failed: '' @ er), m1)
      | (None, m1) \<Rightarrow> (None, updateConfigFile B (put_inbound (ic_Tag ic) (inbound_obj B ic)) m1))"

definition HotAddInbound :: "'x xray_bin \<Rightarrow> InboundConfig \<Rightarrow> 'x manager \<Rightarrow> string option \<times> 'x manager" where
  "HotAddInbound B ic m =
     (if xm_running m then hot_add_running B ic m
      else case EnsureBinary B of
          Some er \<Rightarrow> (Some (''failed to ensure binary: '' @ er), m)
        | None \<Rightarrow>
            (let m1 = snd (ensureBaseConfig B m);
                 m2 = updateConfigFile B (put_inbound (ic_Tag ic) (inbound_obj B ic)) m1
             in case xStart B m2 of
                  (Some er, m3) \<Rightarrow> (Some (''failed to start service: '' @ er), m3)
                | (None, m3) \<Rightarrow>
                    (let m4 = settle B m3
                     in if xm_running m4 then (None, m4)
                        else (Some ''service crashed after start, check inbound config'', m4))))"

definition HotRemoveInbound :: "'x xray_bin \<Rightarrow> string \<Rightarrow> 'x manager \<Rightarrow> string option \<times> 'x manager" where
  "HotRemoveInbound B tag m =
     (if \<not> xm_running m then (Some ''service is not running'', m)
      else case RemoveInbound B tag m of
          (Some er, m1) \<Rightarrow> (Some (''hot remove inbound failed: '' @ er), m1)
        | (None, m1) \<Rightarrow> (None, updateConfigFile B (drop_inbound tag) m1))"

section \<open>Users\<close>

text \<open>The object of a user in \<open>HotAddUser\<close>; a legacy Shadowsocks client repeats the method.\<close>

definition user_obj :: "UserConfig \<Rightarrow> json_obj \<Rightarrow> json" where
  "user_obj uc settings =
     (let ssMethod = as_text (fmlookup settings ''method'')
      in json_obj ([(''email'', JStr (uc_Email uc)), (''level'', JInt 0)] @ user_fields uc @
           (if uc_Protocol uc = ''shadowsocks'' \<and> ssMethod \<noteq> [] then
              [(''method'', JStr (if has_prefix ssMethod blake3 then [] else ssMethod))]
            else [])))"

definition settings_of :: "json \<Rightarrow> json_obj option" where
  "settings_of j = (case j of JObj ib \<Rightarrow> as_obj (fmlookup ib ''settings'') | _ \<Rightarrow> None)"

definition with_settings :: "(json_obj \<Rightarrow> json_obj) \<Rightarrow> json \<Rightarrow> json" where
  "with_settings f j =
     (case j of
        JObj ib \<Rightarrow> JObj (fmupd ''settings'' (JObj (f (or_else (as_obj (fmlookup ib ''settings'')) fmempty))) ib)
      | _ \<Rightarrow> j)"

definition change_inbound :: "(json \<Rightarrow> bool) \<Rightarrow> (json_obj \<Rightarrow> json_obj) \<Rightarrow> json_obj \<Rightarrow> json_obj" where
  "change_inbound p f c =
     (case fmlookup c ''inbounds'' of
        Some (JArr xs) \<Rightarrow> fmupd ''inbounds'' (JArr (update_first p (with_settings f) xs)) c
      | _ \<Rightarrow> c)"

definition clients_of :: "json_obj \<Rightarrow> json list" where
  "clients_of settings = as_list (fmlookup settings ''clients'')"

definition append_client :: "UserConfig \<Rightarrow> json_obj \<Rightarrow> json_obj" where
  "append_client uc settings =
     fmupd ''clients'' (JArr (clients_of settings @ [user_obj uc settings])) settings"

definition config_add_user :: "UserConfig \<Rightarrow> json_obj \<Rightarrow> json_obj" where
  "config_add_user uc = change_inbound (key_is ''tag'' (uc_InboundTag uc)) (append_client uc)"

text \<open>Removing by email passes over an inbound that has no settings.\<close>

definition tagged_settings :: "string \<Rightarrow> json \<Rightarrow> bool" where
  "tagged_settings tag j \<longleftrightarrow> key_is ''tag'' tag j \<and> settings_of j \<noteq> None"

definition drop_client :: "string \<Rightarrow> json_obj \<Rightarrow> json_obj" where
  "drop_client email settings = fmupd ''clients''
     (JSlice (filter (\<lambda>c. \<not> key_is ''email'' email c) (clients_of settings))) settings"

definition config_drop_user :: "string \<Rightarrow> string \<Rightarrow> json_obj \<Rightarrow> json_obj" where
  "config_drop_user tag email = change_inbound (tagged_settings tag) (drop_client email)"

definition removed_client :: "string \<Rightarrow> string \<Rightarrow> cfg_file \<Rightarrow> json option" where
  "removed_client tag email f =
     (case f of
        Config c \<Rightarrow>
          (case find (tagged_settings tag) (file_inbounds c) of
             None \<Rightarrow> None
           | Some ib \<Rightarrow>
               (case rev (filter (key_is ''email'' email) (clients_of (or_else (settings_of ib) fmempty))) of
                  [] \<Rightarrow> None | x # _ \<Rightarrow> Some x))
      | _ \<Rightarrow> None)"

definition config_restore_user :: "string \<Rightarrow> json \<Rightarrow> json_obj \<Rightarrow> json_obj" where
  "config_restore_user tag client = change_inbound (tagged_settings tag)
     (\<lambda>settings. fmupd ''clients'' (JArr (clients_of settings @ [client])) settings)"

text \<open>The fix of Shadowsocks clients in \<open>reloadInbound\<close>.\<close>

definition with_method :: "string \<Rightarrow> json \<Rightarrow> json" where
  "with_method ssMethod client =
     (case client of
        JObj c \<Rightarrow>
          (if has_prefix ssMethod blake3 then JObj (fmupd ''method'' (JStr []) c)
           else if fmlookup c ''method'' = None then JObj (fmupd ''method'' (JStr ssMethod) c)
           else client)
      | _ \<Rightarrow> client)"

definition reload_obj :: "json \<Rightarrow> json" where
  "reload_obj j =
     (if \<not> key_is ''protocol'' ''shadowsocks'' j then j
      else case settings_of j of
          None \<Rightarrow> j
        | Some settings \<Rightarrow>
            (let ssMethod = as_text (fmlookup settings ''method'')
             in case fmlookup settings ''clients'' of
                  Some (JArr cs) \<Rightarrow>
                    (if ssMethod = [] then j
                     else with_settings (fmupd ''clients'' (JArr (map (with_method ssMethod) cs))) j)
                | _ \<Rightarrow> j))"

definition reloadInbound :: "'x xray_bin \<Rightarrow> string \<Rightarrow> 'x manager \<Rightarrow> string option \<times> 'x manager" where
  "reloadInbound B tag m =
     (case xm_file m of
        Missing \<Rightarrow> (Some ''failed to read config'', m)
      | Broken \<Rightarrow> (Some ''failed to parse config'', m)
      | Config c \<Rightarrow>
          (case find (key_is ''tag'' tag) (file_inbounds c) of
             None \<Rightarrow> (Some (''inbound '' @ tag @ '' not found in config''), m)
           | Some ib \<Rightarrow> AddInbound B (reload_obj ib) (snd (RemoveInbound B tag m))))"

definition HotAddUser :: "'x xray_bin \<Rightarrow> UserConfig \<Rightarrow> 'x manager \<Rightarrow> string option \<times> 'x manager" where
  "HotAddUser B uc m =
     (if \<not> xm_running m then (Some ''service is not running'', m)
      else
        (let m1 = updateConfigFile B (config_add_user uc) m
         in case AddUser B uc m1 of
              (None, m2) \<Rightarrow> (None, m2)
            | (Some er, m2) \<Rightarrow>
                (case reloadInbound B (uc_InboundTag uc) m2 of
                   (None, m3) \<Rightarrow> (None, m3)
                 | (Some er', m3) \<Rightarrow>
                     (let m4 = updateConfigFile B (config_drop_user (uc_InboundTag uc) (uc_Email uc)) m3;
                          m5 = snd (reloadInbound B (uc_InboundTag uc) m4)
                      in (Some (''hot add user failed: adu: '' @ er @ '', reload: '' @ er'), m5)))))"

definition HotRemoveUser :: "'x xray_bin \<Rightarrow> string \<Rightarrow> string \<Rightarrow> 'x manager \<Rightarrow> string option \<times> 'x manager" where
  "HotRemoveUser B tag email m =
     (if \<not> xm_running m then (Some ''service is not running'', m)
      else
        (let removed = removed_client tag email (xm_file m);
             m1 = updateConfigFile B (config_drop_user tag email) m
         in case RemoveUser B tag email m1 of
              (None, m2) \<Rightarrow> (None, m2)
            | (Some er, m2) \<Rightarrow>
                (case reloadInbound B tag m2 of
                   (None, m3) \<Rightarrow> (None, m3)
                 | (Some er', m3) \<Rightarrow>
                     (Some (''hot remove user failed: rmu: '' @ er @ '', reload: '' @ er'),
                      case removed of
                        None \<Rightarrow> m3
                      | Some client \<Rightarrow>
                          snd (reloadInbound B tag (updateConfigFile B (config_restore_user tag client) m3))))))"

end
