(* ===== verification/Xray_Node.thy ===== *)
theory Xray_Node
  imports Xray_Manager
begin

text \<open>
  The commands a node answers (\<open>routeCommand\<close> and the \<open>handleXray\<close> functions of
  socket/websocket_reporter.go), a fleet of such nodes as the panel's \<open>x_transport\<close>, the traffic
  statistics and their upload (xray/grpc_client.go, xray/traffic_reporter.go), and the change of
  the proxy's version (\<open>SwitchVersion\<close> of xray/manager.go).
\<close>

section \<open>Traffic\<close>

text \<open>\<open>strings.Split(s, ">>>")\<close>.\<close>

function split_arrows :: "string \<Rightarrow> string \<Rightarrow> string list" where
  "split_arrows acc [] = [rev acc]"
| "split_arrows acc (c # cs) =
     (if has_prefix (c # cs) ''>>>'' then rev acc # split_arrows [] (drop 2 cs)
      else split_arrows (c # acc) cs)"
  by pat_completeness auto
termination by (relation "measure (\<lambda>(_, s). length s)") auto

record TrafficStat =
  ts_Email :: string
  ts_Uplink :: int
  ts_Downlink :: int

text \<open>The map of \<open>extractUserStats\<close>, as the list of its entries in the order they appear.\<close>

definition stat_entry :: "string \<Rightarrow> TrafficStat list \<Rightarrow> TrafficStat list" where
  "stat_entry email ts = (if list_ex (\<lambda>t. ts_Email t = email) ts then ts
     else ts @ [\<lparr>ts_Email = email, ts_Uplink = 0, ts_Downlink = 0\<rparr>])"

definition add_stat :: "string \<times> int \<Rightarrow> TrafficStat list \<Rightarrow> TrafficStat list" where
  "add_stat s ts =
     (let parts = split_arrows [] (fst s)
      in if length parts \<ge> 4 \<and> parts ! 0 = ''user'' then
           (let email = parts ! 1; direction = parts ! 3
            in map (\<lambda>t. if ts_Email t \<noteq> email then t
                 else if direction = ''uplink'' then t\<lparr>ts_Uplink := snd s\<rparr>
                 else if direction = ''downlink'' then t\<lparr>ts_Downlink := snd s\<rparr> else t)
               (stat_entry email ts))
         else ts)"

definition extractUserStats :: "(string \<times> int) list \<Rightarrow> TrafficStat list" where
  "extractUserStats stats =
     filter (\<lambda>t. ts_Uplink t > 0 \<or> ts_Downlink t > 0) (fold add_stat stats [])"

definition QueryTraffic ::
  "'x xray_bin \<Rightarrow> bool \<Rightarrow> 'x manager \<Rightarrow> (string + TrafficStat list) \<times> 'x manager" where
  "QueryTraffic B reset m =
     (case cli_stats B reset (xm_proc m) of
        (Inl er, x) \<Rightarrow> (Inl (''api statsquery failed: '' @ er), m\<lparr>xm_proc := x\<rparr>)
      | (Inr stats, x) \<Rightarrow> (Inr (extractUserStats stats), m\<lparr>xm_proc := x\<rparr>))"

text \<open>One tick of the reporter: what reaches the panel, if the upload succeeds.\<close>

definition reportTraffic ::
  "'x xray_bin \<Rightarrow> bool \<Rightarrow> 'x manager \<Rightarrow> TrafficStat list option \<times> 'x manager" where
  "reportTraffic B delivered m =
     (case QueryTraffic B True m of
        (Inl er, m1) \<Rightarrow> (None, m1)
      | (Inr stats, m1) \<Rightarrow>
          (let nonZeroStats = filter (\<lambda>t. ts_Uplink t > 0 \<or> ts_Downlink t > 0) stats
           in (if nonZeroStats = [] \<or> \<not> delivered then None else Some nonZeroStats, m1)))"

section \<open>Commands\<close>

definition GetInboundTags :: "'x manager \<Rightarrow> string + string list" where
  "GetInboundTags m =
     (case xm_file m of
        Config c \<Rightarrow> Inr (List.map_filter (\<lambda>j. case j of
            JObj ib \<Rightarrow> (case fmlookup ib ''tag'' of Some (JStr t) \<Rightarrow> Some t | _ \<Rightarrow> None)
          | _ \<Rightarrow> None) (file_inbounds c))
      | _ \<Rightarrow> Inl ''failed to read config'')"

definition handleXrayDeployCert ::
  "'x xray_bin \<Rightarrow> string \<Rightarrow> string \<Rightarrow> string \<Rightarrow> 'x manager \<Rightarrow> string option \<times> 'x manager" where
  "handleXrayDeployCert B domain publicKey privateKey m =
     (if \<not> can_write B then (Some ''write failed'', m)
      else (None, m\<lparr>xm_certs := (xm_certs m)(''certs/'' @ domain @ ''.crt'' \<mapsto> publicKey,
             ''certs/'' @ domain @ ''.key'' \<mapsto> privateKey)\<rparr>))"

text \<open>The version is changed in a goroutine of its own (\<open>SwitchVersion\<close> below).\<close>

definition routeV ::
  "'x xray_bin \<Rightarrow> xmsg \<Rightarrow> 'x manager \<Rightarrow> (string option \<times> xdata option) \<times> 'x manager" where
  "routeV B msg m =
     (let plain = (\<lambda>(r, m1). ((r, None), m1))
      in case msg of
        VStart \<Rightarrow> plain (xStart B m)
      | VStop \<Rightarrow> plain (None, xStop B m)
      | VRestart \<Rightarrow> plain (xRestart B m)
      | VStatus \<Rightarrow> ((None, Some (Xray_status (xm_running m) (bin_version B))), m)
      | VAddInbound ic \<Rightarrow> plain (HotAddInbound B ic m)
      | VRemoveInbound tag \<Rightarrow> plain (HotRemoveInbound B tag m)
      | VAddClient uc \<Rightarrow> plain (HotAddUser B uc m)
      | VRemoveClient tag email \<Rightarrow> plain (HotRemoveUser B tag email m)
      | VGetTraffic \<Rightarrow>
          (case QueryTraffic B True m of
             (Inl er, m1) \<Rightarrow> ((Some er, None), m1)
           | (Inr stats, m1) \<Rightarrow> ((None, Some (Xray_traffic
               (map (\<lambda>t. (ts_Email t, ts_Uplink t, ts_Downlink t)) stats))), m1))
      | VApplyConfig ics \<Rightarrow> plain (ApplyConfig B ics m)
      | VSwitchVersion version \<Rightarrow> plain (if version = [] then Some ''empty version'' else None, m)
      | VGetInboundTags \<Rightarrow>
          (case GetInboundTags m of Inl er \<Rightarrow> ((Some er, None), m)
           | Inr tags \<Rightarrow> ((None, Some (Inbound_tags tags)), m))
      | VDeployCert domain pub priv \<Rightarrow> plain (handleXrayDeployCert B domain pub priv m))"

definition xray_answer :: "string option \<times> xdata option \<Rightarrow> xresponse" where
  "xray_answer rd = \<lparr>xr_Msg = (case fst rd of Some er \<Rightarrow> er | None \<Rightarrow> ''OK''), xr_Data = snd rd\<rparr>"

text \<open>A fleet of nodes.\<close>

definition xray_transport ::
  "(int \<Rightarrow> 'x xray_bin) \<Rightarrow> int \<Rightarrow> xmsg \<Rightarrow> (int \<Rightarrow> 'x manager) \<Rightarrow>
     xresponse option \<times> (int \<Rightarrow> 'x manager)" where
  "xray_transport Bs nodeId msg net =
     (let (r, m) = routeV (Bs nodeId) msg (net nodeId) in (Some (xray_answer r), net(nodeId := m)))"

section \<open>Changing the version\<close>

text \<open>The three places of the binary: installed, backup and the copy that survives a restart of
  the container. \<open>sv_copy\<close> says which call of \<open>copyFile\<close> succeeds; one that fails leaves \<open>sv_torn\<close>
  behind. \<open>sv_download\<close> is the binary of the release, \<open>sv_start\<close> whether a binary starts.\<close>

record 'b disk =
  installed :: "'b option"
  backup :: "'b option"
  kept :: "'b option"

record 'b sv_env =
  sv_arch :: bool
  sv_download :: "string \<Rightarrow> string + 'b"
  sv_copy :: "nat \<Rightarrow> bool"
  sv_torn :: 'b
  sv_chmod :: bool
  sv_start :: "'b option \<Rightarrow> bool"

definition copyFile :: "'b sv_env \<Rightarrow> nat \<Rightarrow> 'b \<Rightarrow> bool \<times> 'b" where
  "copyFile e n src = (if sv_copy e n then (True, src) else (False, sv_torn e))"

text \<open>Putting the backup in place again, if there is one.\<close>

definition restore_backup :: "'b sv_env \<Rightarrow> 'b disk \<Rightarrow> 'b disk" where
  "restore_backup e d =
     (case backup d of None \<Rightarrow> d | Some b \<Rightarrow> d\<lparr>installed := Some (snd (copyFile e 2 b))\<rparr>)"

definition SwitchVersion :: "'b sv_env \<Rightarrow> string \<Rightarrow> 'b disk \<Rightarrow> string option \<times> 'b disk" where
  "SwitchVersion e version d =
     (if \<not> sv_arch e then (Some ''unsupported architecture'', d)
      else case sv_download e version of
          Inl er \<Rightarrow> (Some er, d)
        | Inr new \<Rightarrow>
            (let (backed, d1) =
               (case installed d of
                  None \<Rightarrow> (True, d)
                | Some old \<Rightarrow> (let (ok, b) = copyFile e 0 old in (ok, d\<lparr>backup := Some b\<rparr>)))
             in if \<not> backed then (Some ''failed to backup old binary'', d1)
                else
                  (let (ok, b) = copyFile e 1 new; d2 = d1\<lparr>installed := Some b\<rparr>
                   in if \<not> ok then (Some ''failed to replace binary'', restore_backup e d2)
                      else if \<not> sv_chmod e then (Some ''failed to chmod binary'', restore_backup e d2)
                      else
                        (let d3 = d2\<lparr>kept := Some (snd (copyFile e 3 b))\<rparr>
                         in if sv_start e (installed d3) then (None, d3)
                            else (Some ''failed to start new version'', restore_backup e d3)))))"

end
