(* ===== verification/Xray_Agree.thy ===== *)
theory Xray_Agree
  imports Xray_Node Xray_Owner "HOL-Library.Multiset"
begin

text \<open>
  Panel and node together: after the requests on clients the node's configuration file lists for
  an inbound exactly the enabled clients of the panel's table, a failed command leaves the list
  as it was, and what the two programs' different ideas of ``not running'' and ``not installed''
  lead to.
\<close>

section \<open>The file after a change of one inbound\<close>

lemma key_is_with_settings [simp]: "key \<noteq> ''settings'' \<Longrightarrow> key_is key s (with_settings f j) = key_is key s j"
  by (auto simp: with_settings_def key_is_def split: json.split)

lemma settings_of_with_settings:
  "settings_of j = Some st \<Longrightarrow> settings_of (with_settings f j) = Some (f st)"
  by (auto simp: with_settings_def settings_of_def or_else_def split: json.splits)

lemma find_tagged:
  "find (key_is ''tag'' tag) xs = Some ob \<Longrightarrow> settings_of ob = Some st \<Longrightarrow>
   find (tagged_settings tag) xs = Some ob"
  by (induction xs) (auto simp: tagged_settings_def split: if_splits)

text \<open>The settings of an inbound in a configuration.\<close>

definition entry_settings :: "string \<Rightarrow> json_obj \<Rightarrow> json_obj option" where
  "entry_settings tag c =
     (case find (key_is ''tag'' tag) (file_inbounds c) of Some ob \<Rightarrow> settings_of ob | None \<Rightarrow> None)"

lemma file_inbounds_nonempty:
  "file_inbounds c = x # xs \<Longrightarrow> fmlookup c ''inbounds'' = Some (JArr (x # xs))"
  by (auto simp: file_inbounds_def as_list_def split: option.splits json.splits)

lemma change_inbound_inbounds:
  "file_inbounds (change_inbound p f c) = update_first p (with_settings f) (file_inbounds c)"
  by (auto simp: change_inbound_def file_inbounds_def as_list_def split: option.split json.split)

lemma entry_settings_change:
  assumes st: "entry_settings tag c = Some st"
    and p: "p = key_is ''tag'' tag \<or> p = tagged_settings tag"
  shows "entry_settings tag (change_inbound p f c) = Some (f st)"
proof -
  obtain ob where ob: "find (key_is ''tag'' tag) (file_inbounds c) = Some ob" "settings_of ob = Some st"
    using st by (auto simp: entry_settings_def split: option.splits)
  have "find (key_is ''tag'' tag) (update_first p (with_settings f) xs) = Some (with_settings f ob)"
    if "find (key_is ''tag'' tag) xs = Some ob" for xs
    using that p ob(2) by (induction xs) (auto simp: tagged_settings_def split: if_splits)
  then show ?thesis
    using ob settings_of_with_settings [OF ob(2)]
    by (simp add: entry_settings_def change_inbound_inbounds)
qed

lemma clients_append [simp]: "clients_of (append_client uc st) = clients_of st @ [user_obj uc st]"
  by (simp add: append_client_def clients_of_def)

lemma clients_drop [simp]:
  "clients_of (drop_client email st) = filter (\<lambda>c. \<not> key_is ''email'' email c) (clients_of st)"
  by (simp add: drop_client_def clients_of_def)

lemma method_kept [simp]:
  "fmlookup (append_client uc st) ''method'' = fmlookup st ''method''"
  "fmlookup (drop_client email st) ''method'' = fmlookup st ''method''"
  by (simp_all add: append_client_def drop_client_def)

section \<open>The file after a command\<close>

lemma on_proc_file [simp]:
  "on_proc f m = (r, m') \<Longrightarrow> xm_file m' = xm_file m \<and> xm_running m' = xm_running m"
  by (auto simp: on_proc_def split: prod.splits)

lemma cli_file:
  "AddInbound B j m = (r, m') \<Longrightarrow> xm_file m' = xm_file m \<and> xm_running m' = xm_running m"
  "RemoveInbound B t m = (r, m') \<Longrightarrow> xm_file m' = xm_file m \<and> xm_running m' = xm_running m"
  "AddUser B uc m = (r, m') \<Longrightarrow> xm_file m' = xm_file m \<and> xm_running m' = xm_running m"
  "RemoveUser B t em m = (r, m') \<Longrightarrow> xm_file m' = xm_file m \<and> xm_running m' = xm_running m"
  by (auto simp: AddInbound_def RemoveInbound_def AddUser_def RemoveUser_def split: if_splits
      dest: on_proc_file)

lemma reloadInbound_file:
  "reloadInbound B t m = (r, m') \<Longrightarrow> xm_file m' = xm_file m \<and> xm_running m' = xm_running m"
  by (auto simp: reloadInbound_def split: cfg_file.splits option.splits dest!: cli_file(1))
    (metis cli_file(2) prod.collapse)+

lemma updateConfigFile_running [simp]: "xm_running (updateConfigFile B f m) = xm_running m"
  by (simp add: updateConfigFile_def writeConfig_def split: cfg_file.split)

lemma updateConfigFile_file:
  "can_write B \<Longrightarrow> xm_file m = Config c \<Longrightarrow> xm_file (updateConfigFile B f m) = Config (f c)"
  by (simp add: updateConfigFile_def writeConfig_def)

lemma HotAddUser_ok:
  "HotAddUser B uc m = (None, m') \<Longrightarrow>
     xm_running m \<and> xm_running m' \<and> xm_file m' = xm_file (updateConfigFile B (config_add_user uc) m)"
  by (auto simp: HotAddUser_def Let_def split: if_splits prod.splits option.splits
      dest!: cli_file reloadInbound_file)

lemma HotRemoveUser_ok:
  "HotRemoveUser B tag email m = (None, m') \<Longrightarrow>
     xm_running m \<and> xm_running m' \<and> xm_file m' = xm_file (updateConfigFile B (config_drop_user tag email) m)"
  by (auto simp: HotRemoveUser_def Let_def split: if_splits prod.splits option.splits
      dest!: cli_file reloadInbound_file)

section \<open>A failed command\<close>

lemma entry_settings_other:
  assumes "t \<noteq> tag" and "p = key_is ''tag'' tag \<or> p = tagged_settings tag"
  shows "entry_settings t (change_inbound p f c) = entry_settings t c"
proof -
  have clash: "\<not> (key_is ''tag'' t x \<and> p x)" for x
    using assms by (auto simp: tagged_settings_def key_is_def split: json.splits)
  have "find (key_is ''tag'' t) (update_first p (with_settings f) xs) = find (key_is ''tag'' t) xs" for xs
    using clash by (induction xs) auto
  then show ?thesis
    by (simp add: entry_settings_def change_inbound_inbounds)
qed

lemma reloadInbound_snd [simp]:
  "xm_file (snd (reloadInbound B t m)) = xm_file m" "xm_running (snd (reloadInbound B t m)) = xm_running m"
  using reloadInbound_file [of B t m] by (metis prod.collapse)+

lemma updateConfigFile_cong:
  "xm_file m = xm_file m2 \<Longrightarrow> xm_file (updateConfigFile B f m) = xm_file (updateConfigFile B f m2)"
  by (simp add: updateConfigFile_def writeConfig_def split: cfg_file.split)

lemma HotAddUser_failed:
  assumes "HotAddUser B uc m = (Some er, m')" and run: "xm_running m"
  shows "xm_running m' \<and> xm_file m' = xm_file (updateConfigFile B
       (config_drop_user (uc_InboundTag uc) (uc_Email uc)) (updateConfigFile B (config_add_user uc) m))"
proof -
  let ?m1 = "updateConfigFile B (config_add_user uc) m"
  obtain r2 m2 where m2: "AddUser B uc ?m1 = (r2, m2)" by force
  obtain r3 m3 where m3: "reloadInbound B (uc_InboundTag uc) m2 = (r3, m3)" by force
  let ?m4 = "updateConfigFile B (config_drop_user (uc_InboundTag uc) (uc_Email uc)) m3"
  have f: "xm_file m3 = xm_file ?m1" "xm_running m3 = xm_running m"
    using cli_file(3) [OF m2] reloadInbound_file [OF m3] by simp_all
  have "m' = snd (reloadInbound B (uc_InboundTag uc) ?m4)"
    using assms m2 m3 by (auto simp: HotAddUser_def Let_def split: option.splits)
  then show ?thesis
    using f run updateConfigFile_cong [OF f(1)] by simp
qed

text \<open>Property: When a node cannot add a user, neither directly nor by loading the inbound again, its
  configuration file lists for the inbound the clients it listed before, and every other inbound
  keeps its settings; the proxy's manager goes on running. The email must be new in the inbound:
  the roll-back removes every client that has it.\<close>

theorem failed_add_user_restores:
  assumes "HotAddUser B uc m = (Some er, m')" and "xm_running m" and "xm_file m = Config c"
    and "can_write B" and "entry_settings (uc_InboundTag uc) c = Some st"
    and "\<not> list_ex (key_is ''email'' (uc_Email uc)) (clients_of st)"
  shows "\<exists>c' st'. xm_file m' = Config c' \<and> entry_settings (uc_InboundTag uc) c' = Some st' \<and>
    clients_of st' = clients_of st \<and> xm_running m' \<and>
    (t = uc_InboundTag uc \<or> entry_settings t c' = entry_settings t c)"
proof -
  let ?tag = "uc_InboundTag uc" and ?email = "uc_Email uc"
  let ?c1 = "config_add_user uc c"
  let ?c2 = "config_drop_user ?tag ?email ?c1"
  have cfg: "xm_file m' = Config ?c2" and run: "xm_running m'"
    using HotAddUser_failed [OF assms(1,2)] updateConfigFile_file [OF assms(4)] assms(3) by simp_all
  have e1: "entry_settings ?tag ?c1 = Some (append_client uc st)"
    unfolding config_add_user_def using assms(5) by (rule entry_settings_change) simp
  have e2: "entry_settings ?tag ?c2 = Some (drop_client ?email (append_client uc st))"
    unfolding config_drop_user_def using e1 by (rule entry_settings_change) simp
  have mine: "key_is ''email'' ?email (user_obj uc st)"
    by (simp add: user_obj_def json_obj_def Let_def)
  have "clients_of (drop_client ?email (append_client uc st)) = clients_of st"
    using assms(6) mine by (simp add: filter_id_conv list_ex_iff)
  moreover have "entry_settings t ?c2 = entry_settings t c" if "t \<noteq> ?tag"
    using that entry_settings_other by (simp add: config_drop_user_def config_add_user_def)
  ultimately show ?thesis using cfg run e2 by blast
qed

section \<open>One object on both sides\<close>

text \<open>Property: The panel and the node, in two programs, build the same object for a client: what
  \<open>mergeClientsIntoSettings\<close> puts into the settings it sends with an inbound is what \<open>HotAddUser\<close>
  appends to the settings in the file, for every protocol and every Shadowsocks method.\<close>

theorem client_objects_agree:
  "user_obj \<lparr>uc_InboundTag = tag, uc_Email = cl_Email c, uc_UuidOrPassword = cl_UuidOrPassword c,
     uc_Flow = cl_Flow c, uc_AlterId = cl_AlterId c, uc_Protocol = protocol\<rparr> settings =
   merge_client protocol (as_text (fmlookup settings ''method'')) c"
  by (simp add: user_obj_def merge_client_def user_fields_def Let_def)

section \<open>The node's list of clients mirrors the panel's\<close>

text \<open>The file holds an entry for the inbound; its clients are, in any order, the objects of the
  enabled clients of the table, and its method is that of the settings in the table.\<close>

definition mirrors :: "'n xenv \<Rightarrow> xdb \<Rightarrow> Inbound \<Rightarrow> 'x manager \<Rightarrow> bool" where
  "mirrors e d ib m \<longleftrightarrow>
     (\<exists>c st settings. xm_file m = Config c \<and> entry_settings (ib_Tag ib) c = Some st \<and>
        parsed_settings e (ib_SettingsJson ib) = Some settings \<and>
        as_text (fmlookup st ''method'') = as_text (fmlookup settings ''method'') \<and>
        mset (clients_of st) = image_mset
          (merge_client (ib_Protocol ib) (as_text (fmlookup settings ''method'')))
          (mset (active_clients d (ib_ID ib))))"

abbreviation user_of :: "Inbound \<Rightarrow> Client \<Rightarrow> UserConfig" where
  "user_of ib c \<equiv> \<lparr>uc_InboundTag = ib_Tag ib, uc_Email = cl_Email c,
     uc_UuidOrPassword = cl_UuidOrPassword c, uc_Flow = cl_Flow c, uc_AlterId = cl_AlterId c,
     uc_Protocol = ib_Protocol ib\<rparr>"

lemma user_of_obj:
  "user_obj (user_of ib c) settings =
   merge_client (ib_Protocol ib) (as_text (fmlookup settings ''method'')) c"
  by (simp add: user_obj_def merge_client_def user_fields_def Let_def)

lemma mirror_add:
  assumes m: "mirrors e d ib m" and ok: "HotAddUser B (user_of ib c) m = (None, m')"
    and cw: "can_write B"
    and act: "mset (active_clients d' (ib_ID ib)) = add_mset c (mset (active_clients d (ib_ID ib)))"
  shows "mirrors e d' ib m'"
proof -
  obtain cf st settings where m_unf: "xm_file m = Config cf" "entry_settings (ib_Tag ib) cf = Some st"
    "parsed_settings e (ib_SettingsJson ib) = Some settings"
    "as_text (fmlookup st ''method'') = as_text (fmlookup settings ''method'')"
    "mset (clients_of st) = image_mset (merge_client (ib_Protocol ib)
       (as_text (fmlookup settings ''method''))) (mset (active_clients d (ib_ID ib)))"
    using m by (auto simp: mirrors_def)
  have "xm_file m' = Config (config_add_user (user_of ib c) cf)"
    using HotAddUser_ok [OF ok] updateConfigFile_file [OF cw m_unf(1)] by simp
  moreover have "entry_settings (ib_Tag ib) (config_add_user (user_of ib c) cf) =
      Some (append_client (user_of ib c) st)"
    unfolding config_add_user_def using m_unf(2) by (intro entry_settings_change) simp_all
  ultimately show ?thesis
    using m_unf(3-5) act unfolding mirrors_def by (auto simp: user_of_obj)
qed

lemma key_is_merge [simp]: "key_is ''email'' em (merge_client p m c) \<longleftrightarrow> cl_Email c = em"
  by (simp add: merge_client_def json_obj_def)

lemma mirror_drop:
  assumes m: "mirrors e d ib m" and ok: "HotRemoveUser B (ib_Tag ib) em m = (None, m')"
    and cw: "can_write B"
    and act: "mset (active_clients d' (ib_ID ib)) =
      filter_mset (\<lambda>c. cl_Email c \<noteq> em) (mset (active_clients d (ib_ID ib)))"
  shows "mirrors e d' ib m'"
proof -
  obtain cf st settings where m_unf: "xm_file m = Config cf" "entry_settings (ib_Tag ib) cf = Some st"
    "parsed_settings e (ib_SettingsJson ib) = Some settings"
    "as_text (fmlookup st ''method'') = as_text (fmlookup settings ''method'')"
    "mset (clients_of st) = image_mset (merge_client (ib_Protocol ib)
       (as_text (fmlookup settings ''method''))) (mset (active_clients d (ib_ID ib)))"
    using m by (auto simp: mirrors_def)
  have "xm_file m' = Config (config_drop_user (ib_Tag ib) em cf)"
    using HotRemoveUser_ok [OF ok] updateConfigFile_file [OF cw m_unf(1)] by simp
  moreover have "entry_settings (ib_Tag ib) (config_drop_user (ib_Tag ib) em cf) =
      Some (drop_client em st)"
    unfolding config_drop_user_def using m_unf(2) by (intro entry_settings_change) simp_all
  moreover have "mset (clients_of (drop_client em st)) = image_mset (merge_client (ib_Protocol ib)
       (as_text (fmlookup settings ''method''))) (mset (active_clients d' (ib_ID ib)))"
    unfolding clients_drop mset_filter m_unf(5) act filter_mset_image_mset by (simp add: comp_def)
  ultimately show ?thesis
    using m_unf(3,4) unfolding mirrors_def by auto
qed

section \<open>Sending to the fleet\<close>

lemma HotAddUser_error: "HotAddUser B uc m = (Some er, m') \<Longrightarrow> er \<noteq> ''OK'' \<and> er \<noteq> []"
  by (auto simp: HotAddUser_def Let_def split: if_splits prod.splits option.splits)

lemma HotRemoveUser_error: "HotRemoveUser B t em m = (Some er, m') \<Longrightarrow> er \<noteq> ''OK'' \<and> er \<noteq> []"
  by (auto simp: HotRemoveUser_def Let_def split: if_splits prod.splits option.splits)

lemma fleet_add_client:
  assumes "x_transport e = xray_transport Bs" and "add_client e ib c w = (r, w')" and "xr_Msg r = ''OK''"
  obtains m' where "HotAddUser (Bs (ib_NodeId ib)) (user_of ib c) (xnet w (ib_NodeId ib)) = (None, m')"
    and "xnet w' = (xnet w)(ib_NodeId ib := m')" and "xd w' = xd w" and "xops w' = xops w"
proof -
  obtain rr m' where h: "HotAddUser (Bs (ib_NodeId ib)) (user_of ib c) (xnet w (ib_NodeId ib)) = (rr, m')"
    by force
  have "rr = None \<and> xnet w' = (xnet w)(ib_NodeId ib := m') \<and> xd w' = xd w \<and> xops w' = xops w"
    using assms h HotAddUser_error [of "Bs (ib_NodeId ib)" "user_of ib c" "xnet w (ib_NodeId ib)" _ m']
    by (cases rr) (auto simp: add_client_def XrayAddClient_def x_send_def xray_transport_def routeV_def
        xray_answer_def Let_def split: if_splits)
  with h that show ?thesis by blast
qed

lemma fleet_remove_client:
  assumes "x_transport e = xray_transport Bs" and "XrayRemoveClient_x e n t em w = (r, w')"
    and "xr_Msg r = ''OK''"
  obtains m' where "HotRemoveUser (Bs n) t em (xnet w n) = (None, m')"
    and "xnet w' = (xnet w)(n := m')" and "xd w' = xd w" and "xops w' = xops w"
proof -
  obtain rr m' where h: "HotRemoveUser (Bs n) t em (xnet w n) = (rr, m')"
    by force
  have "rr = None \<and> xnet w' = (xnet w)(n := m') \<and> xd w' = xd w \<and> xops w' = xops w"
    using assms h HotRemoveUser_error [of "Bs n" t em "xnet w n" _ m']
    by (cases rr) (auto simp: XrayRemoveClient_x_def x_send_def xray_transport_def routeV_def
        xray_answer_def Let_def split: if_splits)
  with h that show ?thesis by blast
qed

section \<open>Requests on clients\<close>

text \<open>The clients of one inbound have different emails.\<close>

definition emails_differ :: "xdb \<Rightarrow> int \<Rightarrow> bool" where
  "emails_differ d k \<longleftrightarrow> inj_on cl_Email {c \<in> set (clients d). cl_InboundId c = k}"

definition without_client :: "int \<Rightarrow> xdb \<Rightarrow> xdb" where
  "without_client k = clients_update (delete_where (\<lambda>c. cl_ID c = k))"

lemma active_without:
  assumes inv: "xinv d" and c: "firstClient d k = Some c" and em: "emails_differ d (cl_InboundId c)"
  shows "active_clients (without_client k d) (cl_InboundId c) =
    filter (\<lambda>x. cl_Email x \<noteq> cl_Email c) (active_clients d (cl_InboundId c))"
proof -
  have row: "c \<in> set (clients d)" "cl_ID c = k" using firstClient_Some [OF c] by simp_all
  have "cl_Email x \<noteq> cl_Email c \<longleftrightarrow> cl_ID x \<noteq> k" if "x \<in> set (clients d)" and "cl_InboundId x = cl_InboundId c" for x
    using that row em client_unique [OF inv c that(1)] unfolding emails_differ_def inj_on_def by blast
  then show ?thesis
    by (auto simp: active_clients_def find_where_def without_client_def delete_where_def intro!: filter_cong)
qed

lemma active_change:
  assumes inv: "xinv d" and c: "firstClient d k = Some c"
    and "cl_InboundId (f c) = cl_InboundId c"
  shows "mset (active_clients (set_client k f d) (cl_InboundId c)) =
    (if cl_Enable (f c) = 1 then {#f c#} else {#}) + mset (active_clients (without_client k d) (cl_InboundId c))"
    and "cl_Enable c \<noteq> 1 \<Longrightarrow>
      active_clients (without_client k d) (cl_InboundId c) = active_clients d (cl_InboundId c)"
proof -
  obtain xs ys where xs: "clients d = xs @ c # ys"
    using firstClient_Some [OF c] split_list by metis
  have k: "cl_ID c = k" using firstClient_Some [OF c] by simp
  have other: "cl_ID x \<noteq> k" if "x \<in> set xs \<union> set ys" for x
    using that inv xs k unfolding xinv_def by auto (metis imageI)+
  have set: "clients (set_client k f d) = xs @ f c # ys"
    using other xs k by (auto simp: set_client_def update_where_def map_idI)
  have del: "clients (without_client k d) = xs @ ys"
    using other xs k by (auto simp: without_client_def delete_where_def filter_id_conv)
  show "mset (active_clients (set_client k f d) (cl_InboundId c)) =
    (if cl_Enable (f c) = 1 then {#f c#} else {#}) + mset (active_clients (without_client k d) (cl_InboundId c))"
    using assms(3) by (simp add: active_clients_def find_where_def set del)
  show "active_clients (without_client k d) (cl_InboundId c) = active_clients d (cl_InboundId c)"
    if "cl_Enable c \<noteq> 1"
    using that by (simp add: active_clients_def find_where_def xs del)
qed

lemma create_client_mirrored:
  assumes fleet: "x_transport e = xray_transport Bs" and res: "CreateXrayClient e d u r w = (XClient c, w')"
    and ib: "firstInbound (xd w) (xcd_InboundId d) = Some ib" and cw: "can_write (Bs (ib_NodeId ib))"
    and mir: "mirrors e (xd w) ib (xnet w (ib_NodeId ib))"
  shows "mirrors e (xd w') ib (xnet w' (ib_NodeId ib))"
proof -
  obtain w1 resp where w1: "x_write e (insertClient (new_client e d (cl_UserId c) ib)) w = (True, w1)"
    and c: "c = (new_client e d (cl_UserId c) ib)\<lparr>cl_ID := client_seq (xd w)\<rparr>"
    and add: "add_client e ib c w1 = (resp, w')" and ok: "xr_Msg resp = ''OK''"
    using res ib unfolding CreateXrayClient_def Let_def
    by (auto split: option.splits prod.splits if_splits) (simp_all add: new_client_def)
  obtain m' where m': "HotAddUser (Bs (ib_NodeId ib)) (user_of ib c) (xnet w1 (ib_NodeId ib)) = (None, m')"
    "xnet w' = (xnet w1)(ib_NodeId ib := m')" "xd w' = xd w1"
    using fleet_add_client [OF fleet add ok] by blast
  have net: "xnet w1 = xnet w" using w1 x_write_net(1) by (metis snd_conv)
  have "xd w1 = insertClient (new_client e d (cl_UserId c) ib) (xd w)"
    using x_write_xd [OF w1] by simp
  then have "clients (xd w1) = clients (xd w) @ [c]"
    using c by (simp add: insertClient_def insert_row_def)
  moreover have "cl_Enable c = 1" "cl_InboundId c = ib_ID ib"
    using c firstInbound_Some [OF ib] by (metis (no_types, lifting) Client.select_convs Client.update_convs new_client_def)+
  ultimately have "mset (active_clients (xd w1) (ib_ID ib)) = add_mset c (mset (active_clients (xd w) (ib_ID ib)))"
    by (simp add: active_clients_def find_where_def)
  then show ?thesis
    using mirror_add [OF mir _ cw] m' net by simp
qed

lemma delete_client_mirrored:
  assumes inv: "xinv (xd w)" and ok: "x_ok e = (\<lambda>_. True)" and fleet: "x_transport e = xray_transport Bs"
    and res: "DeleteXrayClient e k u r w = (XOk, w')" and c: "firstClient (xd w) k = Some c"
    and ib: "firstInbound (xd w) (cl_InboundId c) = Some ib" and cw: "can_write (Bs (ib_NodeId ib))"
    and on: "x_online e (ib_NodeId ib)" and em: "emails_differ (xd w) (cl_InboundId c)"
    and mir: "mirrors e (xd w) ib (xnet w (ib_NodeId ib))"
  shows "mirrors e (xd w') ib (xnet w' (ib_NodeId ib))"
proof -
  have row: "cl_ID c = k" "ib_ID ib = cl_InboundId c" using firstClient_Some [OF c] firstInbound_Some [OF ib] by simp_all
  obtain w1 resp where rem: "XrayRemoveClient_x e (ib_NodeId ib) (ib_Tag ib) (cl_Email c) w = (resp, w1)"
    and msg: "xr_Msg resp = ''OK''"
    and w': "w' = x_exec e (clients_update (delete_where (\<lambda>x. cl_ID x = cl_ID c))) w1"
    using res c ib on unfolding DeleteXrayClient_def Let_def
    by (auto split: sum.splits option.splits prod.splits if_splits dest!: editable_clientD)
  obtain m' where m': "HotRemoveUser (Bs (ib_NodeId ib)) (ib_Tag ib) (cl_Email c) (xnet w (ib_NodeId ib)) = (None, m')"
    "xnet w1 = (xnet w)(ib_NodeId ib := m')" "xd w1 = xd w"
    using fleet_remove_client [OF fleet rem msg] by blast
  have "xd w' = without_client k (xd w)"
    using w' m'(3) row by (simp add: x_exec_ok [OF ok] without_client_def)
  then have "mset (active_clients (xd w') (ib_ID ib)) =
      filter_mset (\<lambda>x. cl_Email x \<noteq> cl_Email c) (mset (active_clients (xd w) (ib_ID ib)))"
    using active_without [OF inv c em] row by simp
  then have "mirrors e (xd w') ib m'" by (rule mirror_drop [OF mir m'(1) cw])
  then show ?thesis using w' m'(2) by (simp add: frame_simps)
qed

lemma update_client_mirrored:
  assumes inv: "xinv (xd w)" and ok: "x_ok e = (\<lambda>_. True)" and fleet: "x_transport e = xray_transport Bs"
    and res: "UpdateXrayClient e d u r w = (XOk, w')" and c: "firstClient (xd w) (xcu_ID d) = Some c"
    and ib: "firstInbound (xd w) (cl_InboundId c) = Some ib" and cw: "can_write (Bs (ib_NodeId ib))"
    and em: "emails_differ (xd w) (cl_InboundId c)"
    and mir: "mirrors e (xd w) ib (xnet w (ib_NodeId ib))"
  shows "mirrors e (xd w') ib (xnet w' (ib_NodeId ib))"
proof -
  let ?f = "updated_client e d" and ?n = "ib_NodeId ib"
  have row: "cl_ID c = xcu_ID d" "ib_ID ib = cl_InboundId c"
    using firstClient_Some [OF c] firstInbound_Some [OF ib] by simp_all
  have fc: "cl_InboundId (?f c) = cl_InboundId c" by (simp add: updated_client_def Let_def)
  note act = active_change [OF inv c, of ?f, OF fc]
  define w1 where "w1 = x_exec e (set_client (cl_ID c) ?f) w"
  have d1: "xd w1 = set_client (xcu_ID d) ?f (xd w)" and n1: "xnet w1 = xnet w"
    using row by (simp_all add: w1_def x_exec_ok [OF ok] frame_simps)
  have swap: "swap_client e ib c (?f c) w1 = (XOk, w')"
    using res c ib unfolding UpdateXrayClient_def Let_def w1_def
    by (auto split: sum.splits option.splits prod.splits dest!: editable_clientD)
  have new: "reload_client (xd w1) (?f c) = ?f c"
    using c row by (simp add: reload_client_def d1 firstClient_set)
  have drop: "\<exists>w2. mirrors e (without_client (xcu_ID d) (xd w)) ib (xnet w2 ?n) \<and> xd w2 = xd w1 \<and>
      (if cl_Enable (?f c) \<noteq> 1 then w' = w2
       else \<exists>resp. add_client e ib (?f c) w2 = (resp, w') \<and> xr_Msg resp = ''OK'')"
  proof (cases "cl_Enable c = 1")
    case True
    obtain resp w2 where rem: "XrayRemoveClient_x e ?n (ib_Tag ib) (cl_Email c) w1 = (resp, w2)"
      by force
    have msg: "xr_Msg resp = ''OK''"
      using swap True rem by (auto simp: swap_client_def Let_def split: if_splits)
    obtain m' where m': "HotRemoveUser (Bs ?n) (ib_Tag ib) (cl_Email c) (xnet w1 ?n) = (None, m')"
      "xnet w2 = (xnet w1)(?n := m')" "xd w2 = xd w1"
      using fleet_remove_client [OF fleet rem msg] by blast
    have "mirrors e (without_client (xcu_ID d) (xd w)) ib m'"
      using m'(1) n1 active_without [OF inv c em] row by (intro mirror_drop [OF mir _ cw]) simp_all
    then show ?thesis
      using swap True rem msg m' new
      by (intro exI [of _ w2]) (auto simp: swap_client_def Let_def split: if_splits prod.splits)
  next
    case False
    then have "mirrors e (without_client (xcu_ID d) (xd w)) ib (xnet w1 ?n)"
      using mir act(2) row n1 by (simp add: mirrors_def)
    then show ?thesis
      using swap False new
      by (intro exI [of _ w1]) (auto simp: swap_client_def Let_def split: if_splits prod.splits)
  qed
  then obtain w2 where mid: "mirrors e (without_client (xcu_ID d) (xd w)) ib (xnet w2 ?n)" and d2: "xd w2 = xd w1"
    and rest: "if cl_Enable (?f c) \<noteq> 1 then w' = w2
       else \<exists>resp. add_client e ib (?f c) w2 = (resp, w') \<and> xr_Msg resp = ''OK''"
    by blast
  show ?thesis
  proof (cases "cl_Enable (?f c) = 1")
    case True
    then obtain resp where add: "add_client e ib (?f c) w2 = (resp, w')" "xr_Msg resp = ''OK''"
      using rest by auto
    obtain m' where m': "HotAddUser (Bs ?n) (user_of ib (?f c)) (xnet w2 ?n) = (None, m')"
      "xnet w' = (xnet w2)(?n := m')" "xd w' = xd w2"
      using fleet_add_client [OF fleet add] by blast
    have "mset (active_clients (xd w') (ib_ID ib)) =
        add_mset (?f c) (mset (active_clients (without_client (xcu_ID d) (xd w)) (ib_ID ib)))"
      using act(1) True row m'(3) d2 d1 by simp
    then have "mirrors e (xd w') ib m'" by (rule mirror_add [OF mid m'(1) cw])
    then show ?thesis using m'(2) by simp
  next
    case False
    then show ?thesis
      using rest mid act(1) row d2 d1 by (simp add: mirrors_def)
  qed
qed

text \<open>The inbound a request on clients is about.\<close>

fun client_target :: "xdb \<Rightarrow> xreq \<Rightarrow> Inbound option" where
  "client_target d (CreateClientReq q) = firstInbound d (xcd_InboundId q)"
| "client_target d (UpdateClientReq q) =
     (case firstClient d (xcu_ID q) of None \<Rightarrow> None | Some c \<Rightarrow> firstInbound d (cl_InboundId c))"
| "client_target d (DeleteClientReq k) =
     (case firstClient d k of None \<Rightarrow> None | Some c \<Rightarrow> firstInbound d (cl_InboundId c))"
| "client_target d _ = None"

definition succeeded :: "xreply \<Rightarrow> bool" where
  "succeeded reply = (case reply of XOk \<Rightarrow> True | XClient c \<Rightarrow> True | _ \<Rightarrow> False)"

lemma create_client_reply: "CreateXrayClient e d u r w = (reply, w') \<Longrightarrow> succeeded reply \<Longrightarrow> \<exists>c. reply = XClient c"
  unfolding CreateXrayClient_def Let_def by (auto simp: succeeded_def split: option.splits prod.splits if_splits)

lemma change_client_reply:
  "UpdateXrayClient e d u r w = (reply, w') \<Longrightarrow> succeeded reply \<Longrightarrow> reply = XOk"
  "DeleteXrayClient e k u r w = (reply, w') \<Longrightarrow> succeeded reply \<Longrightarrow> reply = XOk"
  unfolding UpdateXrayClient_def DeleteXrayClient_def swap_client_def Let_def
  by (auto simp: succeeded_def split: option.splits prod.splits if_splits sum.splits)

text \<open>C18: Panel and node agree on the clients of an inbound: if the node's configuration file lists
  exactly the panel's enabled clients of the inbound, then it does so again after every request that
  creates, changes or deletes a client of it and succeeds. The emails of the inbound's clients must
  differ, since a node tells clients apart by email, and the node must be connected.\<close>

theorem client_changes_mirrored:
  assumes "xreach w" and "x_ok e = (\<lambda>_. True)" and "x_transport e = xray_transport Bs"
    and "xserve e ca q u r w = (reply, w')" and "succeeded reply"
    and "client_target (xd w) q = Some ib" and "can_write (Bs (ib_NodeId ib))"
    and "x_online e (ib_NodeId ib)" and "emails_differ (xd w) (ib_ID ib)"
    and "mirrors e (xd w) ib (xnet w (ib_NodeId ib))"
  shows "mirrors e (xd w') ib (xnet w' (ib_NodeId ib))"
proof -
  have inv: "xinv (xd w)" using assms(1) by (rule xreach_xinv)
  have key: "cl_InboundId c = ib_ID ib" if "firstInbound (xd w) (cl_InboundId c) = Some ib" for c
    using firstInbound_Some [OF that] by simp
  consider (create) d where "q = CreateClientReq d" | (update) d where "q = UpdateClientReq d"
    | (delete) k where "q = DeleteClientReq k"
    using assms(6) by (cases q) auto
  then show ?thesis
  proof cases
    case create
    then obtain c where "reply = XClient c" using create_client_reply assms(4,5) by fastforce
    then show ?thesis
      using create assms(4,6) by (auto intro: create_client_mirrored [OF assms(3) _ _ assms(7,10)])
  next
    case update
    then obtain c where c: "firstClient (xd w) (xcu_ID d) = Some c" "firstInbound (xd w) (cl_InboundId c) = Some ib"
      using assms(6) by (auto split: option.splits)
    have "UpdateXrayClient e d u r w = (XOk, w')"
      using update assms(4,5) change_client_reply(1) by fastforce
    then show ?thesis
      using update_client_mirrored [OF inv assms(2,3) _ c assms(7) _ assms(10)] key [OF c(2)] assms(9) by simp
  next
    case delete
    then obtain c where c: "firstClient (xd w) k = Some c" "firstInbound (xd w) (cl_InboundId c) = Some ib"
      using assms(6) by (auto split: option.splits)
    have "DeleteXrayClient e k u r w = (XOk, w')"
      using delete assms(4,5) change_client_reply(2) by fastforce
    then show ?thesis
      using delete_client_mirrored [OF inv assms(2,3) _ c assms(7,8) _ assms(10)] key [OF c(2)] assms(9) by simp
  qed
qed

section \<open>Enabling an inbound\<close>

lemma settings_of_inbound_obj:
  "ic_SettingsJSON ic \<noteq> [] \<Longrightarrow> jparse B (ic_SettingsJSON ic) = Some (JObj st) \<Longrightarrow>
   settings_of (inbound_obj B ic) = Some st"
  by (simp add: settings_of_def inbound_obj_def json_obj_def Let_def)

lemma tag_of_inbound_obj [simp]: "key_is ''tag'' t (inbound_obj B ic) \<longleftrightarrow> ic_Tag ic = t"
  by (simp add: inbound_obj_def json_obj_def Let_def)

lemma entry_put: "key_is ''tag'' tag ob \<Longrightarrow> entry_settings tag (put_inbound tag ob c) = settings_of ob"
proof -
  assume ob: "key_is ''tag'' tag ob"
  have "find (key_is ''tag'' tag) (filter (\<lambda>j. \<not> key_is ''tag'' tag j) xs @ [ob]) = Some ob" for xs
    using ob by (induction xs) auto
  then show ?thesis by (simp add: entry_settings_def put_inbound_def file_inbounds_def)
qed

lemma xStart_file: "xm_file m = Config c \<Longrightarrow> xm_file (snd (xStart B m)) = Config c"
  by (auto simp: xStart_def ensureBaseConfig_def split: option.split prod.split)

lemma HotAddInbound_ok:
  assumes "HotAddInbound B ic m = (None, m')" and "xm_file m = Config c" and "can_write B"
  shows "xm_file m' = Config (put_inbound (ic_Tag ic) (inbound_obj B ic) c) \<and> xm_running m'"
proof (cases "xm_running m")
  case True
  then show ?thesis
    using assms by (auto simp: HotAddInbound_def hot_add_running_def updateConfigFile_def writeConfig_def
        split: prod.splits option.splits dest!: cli_file(1))
next
  case False
  let ?m2 = "updateConfigFile B (put_inbound (ic_Tag ic) (inbound_obj B ic)) m"
  have e: "snd (ensureBaseConfig B m) = m" using assms(2) by (simp add: ensureBaseConfig_def)
  have "xm_file ?m2 = Config (put_inbound (ic_Tag ic) (inbound_obj B ic) c)"
    using updateConfigFile_file [OF assms(3,2)] .
  then have "xm_file (snd (xStart B ?m2)) = Config (put_inbound (ic_Tag ic) (inbound_obj B ic) c)"
    by (rule xStart_file)
  then show ?thesis
    using False assms e by (auto simp: HotAddInbound_def Let_def settle_def split: prod.splits option.splits if_splits)
qed

lemma HotAddInbound_error: "HotAddInbound B ic m = (Some er, m') \<Longrightarrow> er \<noteq> ''OK'' \<and> er \<noteq> []"
  by (auto simp: HotAddInbound_def hot_add_running_def Let_def split: if_splits prod.splits option.splits)

lemma fleet_add_inbound:
  assumes "x_transport e = xray_transport Bs" and "XrayAddInbound e n i w = (r, w')" and "xr_Msg r = ''OK''"
  obtains m' where "HotAddInbound (Bs n) (inbound_config i) (xnet w n) = (None, m')"
    and "xnet w' = (xnet w)(n := m')" and "xd w' = xd w"
proof -
  obtain rr m' where h: "HotAddInbound (Bs n) (inbound_config i) (xnet w n) = (rr, m')"
    by force
  have "rr = None \<and> xnet w' = (xnet w)(n := m') \<and> xd w' = xd w"
    using assms h HotAddInbound_error [of "Bs n" "inbound_config i" "xnet w n" _ m']
    by (cases rr) (auto simp: XrayAddInbound_def x_send_def xray_transport_def routeV_def
        xray_answer_def Let_def split: if_splits)
  with h that show ?thesis by blast
qed

text \<open>C19: Enabling an inbound makes panel and node agree: when the request succeeds, the node's
  configuration file holds the inbound with exactly the panel's enabled clients, and the proxy runs,
  whether it had to be started or not. The node must read back the settings the panel prints.\<close>

theorem enable_establishes_mirror:
  assumes "xreach w" and "x_ok e = (\<lambda>_. True)" and "x_transport e = xray_transport Bs"
    and "EnableXrayInbound e k u r w = (XOk, w')" and "firstInbound (xd w) k = Some ib"
    and "xm_file (xnet w (ib_NodeId ib)) = Config c" and "can_write (Bs (ib_NodeId ib))"
    and "parsed_settings e (ib_SettingsJson ib) = Some settings"
    and "x_print e (JObj (merged_settings (xd w) ib settings)) = text" and "text \<noteq> []"
    and "jparse (Bs (ib_NodeId ib)) text = Some (JObj (merged_settings (xd w) ib settings))"
  shows "mirrors e (xd w') ib (xnet w' (ib_NodeId ib)) \<and> xm_running (xnet w' (ib_NodeId ib))"
proof -
  let ?n = "ib_NodeId ib" and ?on = "\<lambda>i. i\<lparr>ib_Enable := 1, ib_UpdatedTime := x_now e\<rparr>"
  have k: "ib_ID ib = k" using firstInbound_Some [OF assms(5)] by simp
  define w1 where "w1 = x_exec e (set_inbound (ib_ID ib) ?on) w"
  have d1: "xd w1 = set_inbound k ?on (xd w)" and n1: "xnet w1 = xnet w"
    using k by (simp_all add: w1_def x_exec_ok [OF assms(2)] frame_simps)
  have row: "reload_inbound (xd w1) (?on ib) = ?on ib"
    using assms(5) k by (simp add: reload_inbound_def d1 firstInbound_set)
  have merge: "mergeClientsIntoSettings e (xd w1) (?on ib) = Some text"
    using assms(8,9) by (simp add: d1 mergeClientsIntoSettings_def merged_settings_def active_clients_def xtable_simps)
  let ?i = "(?on ib)\<lparr>ib_SettingsJson := text\<rparr>"
  obtain resp where add: "XrayAddInbound e ?n ?i w1 = (resp, w')" and ok: "xr_Msg resp = ''OK''"
    using assms(4,5) merge row unfolding EnableXrayInbound_def Let_def w1_def
    by (auto split: sum.splits prod.splits if_splits dest!: editable_inboundD)
  obtain m' where m': "HotAddInbound (Bs ?n) (inbound_config ?i) (xnet w1 ?n) = (None, m')"
    "xnet w' = (xnet w1)(?n := m')" "xd w' = xd w1"
    using fleet_add_inbound [OF assms(3) add ok] by blast
  have f: "xm_file m' = Config (put_inbound (ib_Tag ib) (inbound_obj (Bs ?n) (inbound_config ?i)) c)" "xm_running m'"
    using HotAddInbound_ok [OF m'(1) _ assms(7)] assms(6) n1 by (simp_all add: inbound_config_def)
  have st: "entry_settings (ib_Tag ib) (put_inbound (ib_Tag ib) (inbound_obj (Bs ?n) (inbound_config ?i)) c) =
      Some (merged_settings (xd w) ib settings)"
    using assms(10,11) by (subst entry_put) (simp_all add: inbound_config_def settings_of_inbound_obj)
  have "mirrors e (xd w') ib m'"
    unfolding mirrors_def using f(1) st assms(8) m'(3) d1
    by (auto simp: merged_settings_def clients_of_def active_clients_def xtable_simps Let_def)
  then show ?thesis using f(2) m'(2) by simp
qed

section \<open>A proxy that does not run\<close>

lemma remove_inbound_stopped:
  assumes "x_transport e = xray_transport Bs" and "x_online e n" and "\<not> xm_running (xnet w n)"
  shows "fst (XrayRemoveInbound_x e n t w) = \<lparr>xr_Msg = ''service is not running'', xr_Data = None\<rparr>"
    and "xd (snd (XrayRemoveInbound_x e n t w)) = xd w"
  using assms
  by (simp_all add: XrayRemoveInbound_x_def x_send_def xray_transport_def routeV_def HotRemoveInbound_def
      xray_answer_def Let_def)

lemma stop_stops:
  assumes "x_transport e = xray_transport Bs" and "x_online e n"
  shows "\<not> xm_running (xnet (snd (XrayStop e n w)) n)"
  using assms by (simp add: XrayStop_def x_send_def xray_transport_def routeV_def xStop_def xray_answer_def Let_def)

text \<open>C23: An inbound that was disabled last cannot be deleted while its node is connected: disabling
  it stops the proxy, the deletion asks the stopped proxy to remove the inbound, is told
  ``service is not running'', and gives up without touching the tables.\<close>

theorem disabled_inbound_undeletable:
  assumes "xreach w" and "x_ok e = (\<lambda>_. True)" and "x_transport e = xray_transport Bs"
    and "DisableXrayInbound e k u r w = (XOk, w1)" and "firstInbound (xd w) k = Some ib"
    and "x_online e (ib_NodeId ib)"
    and "\<not> list_ex (\<lambda>i. ib_NodeId i = ib_NodeId ib \<and> ib_Enable i = 1 \<and> ib_ID i \<noteq> k) (inbounds (xd w))"
  shows "\<exists>w2. DeleteXrayInbound e k u r w1 = (XErr (HotRemoveInboundFailed ''service is not running''), w2) \<and>
    xd w2 = xd w1"
proof -
  let ?n = "ib_NodeId ib" and ?off = "\<lambda>i. i\<lparr>ib_Enable := 0, ib_UpdatedTime := x_now e\<rparr>"
  have k: "ib_ID ib = k" using firstInbound_Some [OF assms(5)] by simp
  have ed: "editable_inbound e (xd w) k u r = Inr ib"
    using assms(4,5) unfolding DisableXrayInbound_def by (auto split: sum.splits dest!: editable_inboundD)
  obtain w0 resp where rem: "XrayRemoveInbound_x e ?n (ib_Tag ib) w = (resp, w0)"
    and w1: "w1 = stop_if_idle e ?n (x_exec e (set_inbound k ?off) w0)"
    using assms(4) ed k unfolding DisableXrayInbound_def Let_def by (auto split: prod.splits if_splits)
  let ?w = "x_exec e (set_inbound k ?off) w0"
  have d: "xd ?w = set_inbound k ?off (xd w)"
    using x_msg_eqD(2) [OF rem] by (simp add: x_exec_ok [OF assms(2)])
  have "count_where (\<lambda>i. ib_NodeId i = ?n \<and> ib_Enable i = 1) (inbounds (xd ?w)) = 0"
    using assms(7) by (subst d) (auto simp: count_where_zero set_inbound_def list_ex_iff set_update_where)
  then have stopped: "\<not> xm_running (xnet w1 ?n)" and d1: "xd w1 = set_inbound k ?off (xd w)"
    using stop_stops [OF assms(3,6)] w1 d by (simp_all add: stop_if_idle_def)
  have first: "firstInbound (xd w1) k = Some (?off ib)"
    using assms(5) by (simp add: d1 firstInbound_set)
  have ed1: "editable_inbound e (xd w1) k u r = Inr (?off ib)"
    using ed first assms(5) by (auto simp: editable_inbound_def split: option.splits if_splits)
  show ?thesis
    using ed1 assms(6) remove_inbound_stopped [OF assms(3,6) stopped, of "ib_Tag ib"]
    by (cases "XrayRemoveInbound_x e ?n (ib_Tag ib) w1") (simp add: DeleteXrayInbound_def Let_def)
qed

section \<open>A node without the binary\<close>

text \<open>What the node says when its proxy is not installed.\<close>

definition no_binary_error :: string where
  "no_binary_error = ''failed to ensure binary: secondary binary not installed, please switch version in node management first''"

lemma no_binary_not_recognised: "\<not> contains_str no_binary_error not_installed"
  by code_simp

text \<open>Property: The answer of a node without the proxy is not the one the panel looks for: creating an
  inbound there never ends in the warning that the inbound is saved for later, but in an error, with
  the row in the error state.\<close>

theorem missing_binary_is_an_error:
  assumes "x_transport e = xray_transport Bs" and "x_ok e = (\<lambda>_. True)" and "x_online e nodeId"
    and "\<not> xm_running (xnet w nodeId)" and "\<not> look_path (Bs nodeId)" and "\<not> persisted (Bs nodeId)"
    and "mergeClientsIntoSettings e (xd w) i = Some text"
  shows "\<exists>w'. deploy_new_inbound e nodeId i w = (XErr (HotAddInboundFailed no_binary_error), w') \<and>
    xd w' = set_inbound (ib_ID i) (\<lambda>r. r\<lparr>ib_Enable := - 1\<rparr>) (xd w)"
proof -
  let ?i = "i\<lparr>ib_SettingsJson := text\<rparr>"
  have h: "HotAddInbound (Bs nodeId) (inbound_config ?i) (xnet w nodeId) = (Some no_binary_error, xnet w nodeId)"
    using assms(4-6) by (simp add: HotAddInbound_def EnsureBinary_def no_binary_error_def)
  then obtain w0 where "XrayAddInbound e nodeId ?i w = (\<lparr>xr_Msg = no_binary_error, xr_Data = None\<rparr>, w0)"
    and "xd w0 = xd w"
    using assms(1,3) by (simp add: XrayAddInbound_def x_send_def xray_transport_def routeV_def
        xray_answer_def Let_def no_binary_error_def)
  moreover have "no_binary_error \<noteq> ''OK''" by (simp add: no_binary_error_def)
  ultimately show ?thesis
    using assms(7) no_binary_not_recognised
    by (simp add: deploy_new_inbound_def Let_def x_exec_ok [OF assms(2)])
qed

end
