(* ===== verification/Xray_Node_Props.thy ===== *)
theory Xray_Node_Props
  imports Xray_Agree
begin

text \<open>
  The rest of the node: whose traffic the statistics of the proxy are read as, what a lost upload
  costs, and what a failed change of version leaves on the disk.
\<close>

section \<open>Statistics\<close>

lemma split_arrows_piece:
  "CHR ''>'' \<notin> set a \<Longrightarrow> split_arrows acc (a @ ''>>>'' @ rest) = (rev acc @ a) # split_arrows [] rest"
  by (induction a arbitrary: acc) auto

lemma split_arrows_last: "CHR ''>'' \<notin> set a \<Longrightarrow> split_arrows acc a = [rev acc @ a]"
  by (induction a arbitrary: acc) auto

text \<open>The name under which the proxy counts the traffic of an email.\<close>

definition stat_name :: "string \<Rightarrow> string \<Rightarrow> string" where
  "stat_name email direction = ''user>>>'' @ email @ ''>>>traffic>>>'' @ direction"

lemma split_stat_name:
  assumes "CHR ''>'' \<notin> set email" and "CHR ''>'' \<notin> set direction"
  shows "split_arrows [] (stat_name email direction) = [''user'', email, ''traffic'', direction]"
proof -
  have t: "split_arrows [] (''traffic>>>'' @ direction) = [''traffic'', direction]"
    using split_arrows_piece [of "''traffic''" "[]" direction] split_arrows_last [OF assms(2), of "[]"] by simp
  have e: "split_arrows [] (email @ ''>>>traffic>>>'' @ direction) = [email, ''traffic'', direction]"
    using split_arrows_piece [OF assms(1), of "[]" "''traffic>>>'' @ direction"] t by simp
  show ?thesis
    using split_arrows_piece [of "''user''" "[]" "email @ ''>>>traffic>>>'' @ direction"] e
    by (simp add: stat_name_def)
qed

lemma split_arrow_email:
  assumes "CHR ''>'' \<notin> set a" and "CHR ''>'' \<notin> set b" and "CHR ''>'' \<notin> set direction"
  shows "split_arrows [] (stat_name (a @ ''>>>'' @ b) direction) = [''user'', a, b, ''traffic'', direction]"
proof -
  have t: "split_arrows [] (''traffic>>>'' @ direction) = [''traffic'', direction]"
    using split_arrows_piece [of "''traffic''" "[]" direction] split_arrows_last [OF assms(3), of "[]"] by simp
  have b: "split_arrows [] (b @ ''>>>traffic>>>'' @ direction) = [b, ''traffic'', direction]"
    using split_arrows_piece [OF assms(2), of "[]" "''traffic>>>'' @ direction"] t by simp
  have a: "split_arrows [] (a @ ''>>>'' @ b @ ''>>>traffic>>>'' @ direction) = [a, b, ''traffic'', direction]"
    using split_arrows_piece [OF assms(1), of "[]" "b @ ''>>>traffic>>>'' @ direction"] b by simp
  show ?thesis
    using split_arrows_piece [of "''user''" "[]" "a @ ''>>>'' @ b @ ''>>>traffic>>>'' @ direction"] a
    by (simp add: stat_name_def)
qed

text \<open>Property: The two counters of an email are read back as its uplink and downlink; but an email that
  contains \<open>>>>\<close>, which the panel lets an owner choose, splits in two, the fourth part is no longer
  the direction, and its traffic is not counted at all.\<close>

theorem arrows_in_email_unmetered:
  assumes "CHR ''>'' \<notin> set a" and "CHR ''>'' \<notin> set b" and "0 < up"
  shows "extractUserStats [(stat_name a ''uplink'', up), (stat_name a ''downlink'', down)] =
      [\<lparr>ts_Email = a, ts_Uplink = up, ts_Downlink = down\<rparr>] \<and>
    extractUserStats [(stat_name (a @ ''>>>'' @ b) ''uplink'', up),
      (stat_name (a @ ''>>>'' @ b) ''downlink'', down)] = []"
proof -
  have up: "CHR ''>'' \<notin> set ''uplink''" and dn: "CHR ''>'' \<notin> set ''downlink''" by simp_all
  note parts = split_stat_name [OF assms(1) up] split_stat_name [OF assms(1) dn]
    split_arrow_email [OF assms(1,2) up] split_arrow_email [OF assms(1,2) dn]
  have one: "extractUserStats [(stat_name a ''uplink'', up), (stat_name a ''downlink'', down)] =
      [\<lparr>ts_Email = a, ts_Uplink = up, ts_Downlink = down\<rparr>]"
    using assms(3) by (simp add: extractUserStats_def add_stat_def stat_entry_def Let_def parts(1,2))
  have none: "extractUserStats [(stat_name (a @ ''>>>'' @ b) ''uplink'', up),
      (stat_name (a @ ''>>>'' @ b) ''downlink'', down)] = []"
    unfolding extractUserStats_def add_stat_def fold.simps comp_def fst_conv parts(3,4)
    by (simp add: stat_entry_def Let_def)
  show ?thesis using one none by blast
qed

text \<open>Property: the proxy's counters are set to zero by the query, so what a failed upload carried is
  never reported: the node is left in the same state whether the upload arrives or not.\<close>

theorem lost_upload_not_repeated:
  "snd (reportTraffic B True m) = snd (reportTraffic B False m)"
  by (simp add: reportTraffic_def Let_def split: prod.split sum.split)

section \<open>A change of version\<close>

text \<open>Property: A change of the proxy's version that fails leaves the old binary installed, as long as files
  can be copied; but when the new binary was in place and would not start, the copy that is kept for
  the next start of the container is the new one.\<close>

theorem failed_switch_restores:
  assumes "SwitchVersion e version d = (Some er, d')" and "\<forall>n. sv_copy e n" and "installed d = Some old"
  shows "installed d' = Some old \<and>
    (kept d' = kept d \<or>
     (\<exists>new. sv_download e version = Inr new \<and> \<not> sv_start e (Some new) \<and> kept d' = Some new))"
  using assms
  by (auto simp: SwitchVersion_def copyFile_def restore_backup_def Let_def split: if_splits sum.splits)

end
