(* ===== verification/Xray_Examples.thy ===== *)
theory Xray_Examples
  imports Xray_Sync_Props Xray_Link Xray_Node_Props Sample
begin

text \<open>
  The Xray properties on a concrete panel: node 1 of \<open>Sample\<close>, an inbound of the administrator (1)
  and one of the user 2, and a client of each on the first.
\<close>

definition x_env :: "(int \<Rightarrow> xmsg \<Rightarrow> 'n \<Rightarrow> xresponse option \<times> 'n) \<Rightarrow> 'n xenv" where
  "x_env tr = \<lparr>x_now = 1000, x_panel = sample_db, x_ok = (\<lambda>_. True), x_online = (\<lambda>_. True),
     x_transport = tr, x_parse = (\<lambda>s. if s = ''null'' then Some JNull else None),
     x_print = (\<lambda>_. ''S''), x_uuid = ''uuid'', x_random = ''random''\<rparr>"

lemma x_env_fields: "x_ok (x_env tr) = (\<lambda>_. True)" "x_transport (x_env tr) = tr"
  "x_print (x_env tr) j = ''S''" "x_online (x_env tr) n"
  by (simp_all add: x_env_def)

definition ok_node :: "int \<Rightarrow> xmsg \<Rightarrow> 'n \<Rightarrow> xresponse option \<times> 'n" where
  "ok_node n m s = (Some \<lparr>xr_Msg = ''OK'', xr_Data = None\<rparr>, s)"

text \<open>A node that refuses clients.\<close>

definition no_client_node :: "int \<Rightarrow> xmsg \<Rightarrow> 'n \<Rightarrow> xresponse option \<times> 'n" where
  "no_client_node n m s =
     (Some \<lparr>xr_Msg = (case m of VAddClient uc \<Rightarrow> ''hot add user failed'' | _ \<Rightarrow> ''OK''), xr_Data = None\<rparr>, s)"

text \<open>A node that refuses everything.\<close>

definition refusing_node :: "int \<Rightarrow> xmsg \<Rightarrow> 'n \<Rightarrow> xresponse option \<times> 'n" where
  "refusing_node n m s = (Some \<lparr>xr_Msg = ''hot add inbound failed'', xr_Data = None\<rparr>, s)"

lemma not_hot: "\<not> contains_str ''hot add inbound failed'' not_installed"
  by code_simp

definition sample_inbound_dto :: "int \<Rightarrow> string \<Rightarrow> XrayInboundDto" where
  "sample_inbound_dto port settings = \<lparr>xid_NodeId = 1, xid_Tag = [], xid_Protocol = ''vless'',
     xid_Listen = [], xid_Port = port, xid_SettingsJson = settings, xid_StreamSettingsJson = [],
     xid_SniffingJson = [], xid_Remark = [], xid_CustomEntry = []\<rparr>"

definition sample_client_dto :: "int \<Rightarrow> XrayClientDto" where
  "sample_client_dto owner = \<lparr>xcd_InboundId = 1, xcd_UserId = owner, xcd_UuidOrPassword = [],
     xcd_Flow = [], xcd_AlterId = None, xcd_TotalTraffic = None, xcd_ExpTime = None,
     xcd_LimitIp = None, xcd_Reset = Some 30, xcd_Remark = []\<rparr>"

definition x_start :: "'n \<Rightarrow> 'n xworld" where
  "x_start s = \<lparr>xd = \<lparr>inbounds = [], clients = [], certs = [], inbound_seq = 1, client_seq = 1,
     cert_seq = 1\<rparr>, xops = 0, xnet = s, xsent = []\<rparr>"

definition no_acme :: acme where "no_acme cert = Inl ''none''"

definition x_step :: "xreq \<Rightarrow> int \<Rightarrow> int \<Rightarrow> 'n xworld \<Rightarrow> 'n xworld" where
  "x_step q u r w = snd (xserve (x_env ok_node) no_acme q u r w)"

definition x_one :: "'n \<Rightarrow> 'n xworld" where
  "x_one s = x_step (CreateInboundReq (sample_inbound_dto 443 [])) 1 0 (x_start s)"

definition x_two :: "'n \<Rightarrow> 'n xworld" where
  "x_two s = x_step (CreateInboundReq (sample_inbound_dto 444 [])) 2 1 (x_one s)"

definition x_three :: "'n \<Rightarrow> 'n xworld" where
  "x_three s = x_step (CreateClientReq (sample_client_dto 1)) 1 0 (x_two s)"

lemma x_step_reach: "xreach w \<Longrightarrow> xreach (x_step q u r w)"
  unfolding x_step_def by (rule reach_step, assumption, rule step_request)

lemma x_reach [simp]: "xreach (x_one s)" "xreach (x_two s)" "xreach (x_three s)"
  unfolding x_three_def x_two_def x_one_def
  by (intro x_step_reach reach_start, simp_all add: x_start_def)+

definition inbound_one :: Inbound where
  "inbound_one = \<lparr>ib_ID = 1, ib_NodeId = 1, ib_UserId = 0, ib_Tag = ''inbound-1'', ib_Protocol = ''vless'',
     ib_Listen = ''::'', ib_Port = 443, ib_SettingsJson = [], ib_StreamSettingsJson = [],
     ib_SniffingJson = [], ib_Remark = [], ib_CustomEntry = [], ib_Enable = 1, ib_CreatedTime = 1000,
     ib_UpdatedTime = 1000\<rparr>"

definition inbound_two :: Inbound where
  "inbound_two = inbound_one\<lparr>ib_ID := 2, ib_UserId := 2, ib_Tag := ''inbound-2'', ib_Port := 444\<rparr>"

definition client_one :: Client where
  "client_one = \<lparr>cl_ID = 1, cl_InboundId = 1, cl_UserId = 1, cl_Email = ''1_1000@flux'',
     cl_UuidOrPassword = ''uuid'', cl_Flow = [], cl_AlterId = 0, cl_TotalTraffic = 0, cl_UpTraffic = 0,
     cl_DownTraffic = 0, cl_ExpTime = None, cl_LimitIp = 0, cl_Reset = 30, cl_Enable = 1,
     cl_Remark = [], cl_CreatedTime = 1000, cl_UpdatedTime = 1000\<rparr>"

lemma itoa_small: "itoa 1 = ''1''" "itoa 2 = ''2''" "itoa 1000 = ''1000''"
  by code_simp+

lemma sample_lookups:
  "checkXrayPermission sample_db 1 0 = None" "checkXrayPermission sample_db 2 1 = None"
  "checkXrayNodeAccess sample_db 1 0 1 = None" "checkXrayNodeAccess sample_db 2 1 1 = None"
  "GetNodeById sample_db 1 = Some (sample_node 1 ''10.0.0.1'')"
  "firstUser sample_db 1 = Some (sample_user 1 0)" "firstUser sample_db 2 = Some (sample_user 2 1)"
  by code_simp+

lemmas x_eval = x_step_def x_env_def sample_lookups sample_inbound_dto_def sample_client_dto_def
  CreateXrayInbound_def new_inbound_def deploy_new_inbound_def mergeClientsIntoSettings_def
  parsed_settings_def merged_settings_def active_clients_def CreateXrayClient_def new_client_def
  add_client_def XrayAddClient_def XrayAddInbound_def x_send_def x_write_def x_exec_def ok_node_def
  insertInbound_def insertClient_def insert_row_def set_inbound_def update_where_def count_where_def
  firstInbound_def firstClient_def first_where_def or_else_def itoa_small sample_node_def Let_def

lemma x_one_db: "inbounds (xd (x_one s)) = [inbound_one] \<and> clients (xd (x_one s)) = [] \<and>
    inbound_seq (xd (x_one s)) = 2 \<and> client_seq (xd (x_one s)) = 1 \<and> xnet (x_one s) = s"
  by (simp add: x_one_def x_start_def inbound_one_def x_eval)

lemma x_two_db: "inbounds (xd (x_two s)) = [inbound_one, inbound_two] \<and> clients (xd (x_two s)) = [] \<and>
    inbound_seq (xd (x_two s)) = 3 \<and> client_seq (xd (x_two s)) = 1 \<and> xnet (x_two s) = s"
  using x_one_db [of s] unfolding x_two_def
  by (simp add: inbound_two_def inbound_one_def x_eval)

lemma x_three_db: "inbounds (xd (x_three s)) = [inbound_one, inbound_two] \<and>
    clients (xd (x_three s)) = [client_one] \<and> inbound_seq (xd (x_three s)) = 3 \<and>
    client_seq (xd (x_three s)) = 2 \<and> xnet (x_three s) = s"
  using x_two_db [of s] unfolding x_three_def
  by (simp add: inbound_two_def inbound_one_def client_one_def x_eval)

section \<open>Requests on the tables\<close>

theorem inbound_ports_unique_witness:
  "map ib_Port (inbounds (xd (x_three ()))) = [443, 444] \<and> distinct (map ib_ID (inbounds (xd (x_three ())))) \<and>
   distinct (map cl_ID (clients (xd (x_three ()))))"
  using inbound_ports_unique [of "x_three ()"] by (simp add: x_three_db inbound_one_def inbound_two_def)

theorem foreign_rows_kept_witness:
  "firstInbound (xd (snd (xserve (x_env ok_node) no_acme (DeleteInboundReq 2) 2 1 (x_three ())))) 1 = Some inbound_one \<and>
   firstClient (xd (snd (xserve (x_env ok_node) no_acme (DeleteInboundReq 2) 2 1 (x_three ())))) 1 = Some client_one"
  by (rule foreign_rows_kept [of "x_three ()" 1 "x_env ok_node" no_acme "DeleteInboundReq 2" 2
      "fst (xserve (x_env ok_node) no_acme (DeleteInboundReq 2) 2 1 (x_three ()))" _ 1 inbound_one 1 client_one inbound_one])
    (simp_all add: firstInbound_def firstClient_def first_where_def x_three_db inbound_one_def client_one_def)

definition refused_client :: xreq where "refused_client = CreateClientReq (sample_client_dto 2)"

definition refused_inbound :: xreq where "refused_inbound = CreateInboundReq (sample_inbound_dto 445 [])"

theorem refused_change_rows_witness:
  "fst (xserve (x_env no_client_node) no_acme refused_client 2 1 (x_two ())) =
     XErr (HotAddClientFailed ''hot add user failed'') \<and>
   clients (xd (snd (xserve (x_env no_client_node) no_acme refused_client 2 1 (x_two ())))) = [] \<and>
   fst (xserve (x_env refusing_node) no_acme refused_inbound 2 1 (x_two ())) =
     XErr (HotAddInboundFailed ''hot add inbound failed'') \<and>
   map ib_Enable (inbounds (xd (snd (xserve (x_env refusing_node) no_acme refused_inbound 2 1 (x_two ()))))) = [1, 1, -1]"
proof -
  let ?r = "xserve (x_env no_client_node) no_acme refused_client 2 1 (x_two ())"
  let ?s = "xserve (x_env refusing_node) no_acme refused_inbound 2 1 (x_two ())"
  have r: "fst ?r = XErr (HotAddClientFailed ''hot add user failed'')"
    using x_two_db [of "()"] by (simp add: x_eval no_client_node_def inbound_one_def refused_client_def)
  have s: "fst ?s = XErr (HotAddInboundFailed ''hot add inbound failed'')"
    using x_two_db [of "()"]
    by (simp add: x_eval refusing_node_def inbound_one_def inbound_two_def refused_inbound_def not_hot
        del: contains_str.simps)
  have "clients (xd (snd ?r)) = []"
    using refused_change_rows [of "x_two ()" "x_env no_client_node" no_acme refused_client 2 1
        "HotAddClientFailed ''hot add user failed''" "snd ?r"] r
    by (simp add: x_env_fields x_two_db prod_eq_iff)
  moreover have "map ib_Enable (inbounds (xd (snd ?s))) = [1, 1, -1]"
    using refused_change_rows [of "x_two ()" "x_env refusing_node" no_acme refused_inbound 2 1
        "HotAddInboundFailed ''hot add inbound failed''" "snd ?s"] s
    by (simp add: x_env_fields x_two_db prod_eq_iff refused_inbound_def inbound_one_def inbound_two_def)
  ultimately show ?thesis using r s by simp
qed

theorem null_settings_crash_witness:
  "\<exists>w'. CreateXrayInbound (x_env ok_node) (sample_inbound_dto 445 ''null'') 2 1 (x_two ()) = (XCrashed, w') \<and>
    reconcileXrayInbounds (x_env ok_node) 1 \<lparr>rec_Inbounds = 0, rec_Certs = 0, rec_Orphans = 0, rec_Errors = []\<rparr> w' = (None, w')"
  using null_settings_crash [of "x_env ok_node" 2 1 "sample_inbound_dto 445 ''null''" "sample_node 1 ''10.0.0.1''"
      "x_two ()" "x_env ok_node" "\<lparr>rec_Inbounds = 0, rec_Certs = 0, rec_Orphans = 0, rec_Errors = []\<rparr>"]
    x_two_db [of "()"]
  by (simp add: x_env_def sample_inbound_dto_def sample_lookups count_where_def inbound_one_def inbound_two_def)

section \<open>The hourly task\<close>

text \<open>31 days later the client with a cycle of 30 days is reset, and an hour after that it is not due.\<close>

theorem reset_once_per_cycle_witness:
  "firstClient (xd (checkClientTrafficReset ((x_env ok_node)\<lparr>x_now := 2678401000\<rparr>) (x_three ()))) 1 =
     Some (after_reset 2678401000 client_one) \<and>
   \<not> reset_due 2682001000 (after_reset 2678401000 client_one)"
proof -
  have p: "plain_times 2678401000 client_one" "plain_times 2682001000 client_one"
    by (simp_all add: plain_times_def client_one_def)
  have c: "cycle_start 2682001000 client_one \<le> 2678401000"
    using cycle_start_plain(1) [OF p(2)] by (simp add: client_one_def)
  have n: "x_now ((x_env ok_node)\<lparr>x_now := 2678401000\<rparr> :: unit xenv) = 2678401000" by simp
  show ?thesis
    using reset_once_per_cycle [of "x_three ()" "(x_env ok_node)\<lparr>x_now := 2678401000\<rparr>" 1 client_one 2682001000] p c
    by (simp add: x_env_def firstClient_def first_where_def x_three_db client_one_def)
qed

section \<open>Panel and node\<close>

definition sample_bin :: "unit xray_bin" where
  "sample_bin = \<lparr>look_path = True, persisted = False, copy_ok = False, can_write = True,
     spawn = (\<lambda>_ _. Some ()), alive = (\<lambda>_. True), terminate = (\<lambda>_. ()), cli_adi = (\<lambda>_ _. (None, ())),
     cli_rmi = (\<lambda>_ _. (None, ())), cli_adu = (\<lambda>_ _. (None, ())), cli_rmu = (\<lambda>_ _ _. (None, ())),
     cli_stats = (\<lambda>_ _. (Inr [], ())), bin_version = ''25.1.30'',
     jparse = (\<lambda>_. Some (JObj (fmupd ''clients'' (JArr []) fmempty)))\<rparr>"

definition sample_config :: json_obj where
  "sample_config = fmap_of_list [(''inbounds'', JArr [JObj (fmap_of_list
     [(''tag'', JStr ''inbound-1''), (''settings'', JObj fmempty)])])]"

definition sample_net :: "int \<Rightarrow> unit manager" where
  "sample_net n = \<lparr>xm_file = Config sample_config, xm_running = True, xm_proc = (), xm_certs = Map.empty\<rparr>"

abbreviation fleet_env :: "(int \<Rightarrow> unit manager) xenv" where
  "fleet_env \<equiv> x_env (xray_transport (\<lambda>_. sample_bin))"

lemma sample_mirror: "mirrors fleet_env (xd (x_one sample_net)) inbound_one (xnet (x_one sample_net) 1)"
  using x_one_db [of sample_net]
  by (simp add: mirrors_def sample_net_def sample_config_def entry_settings_def file_inbounds_def as_list_def
      settings_of_def clients_of_def active_clients_def find_where_def parsed_settings_def x_env_def
      inbound_one_def as_obj_def)

lemmas node_eval = xray_transport_def routeV_def xray_answer_def sample_bin_def sample_net_def
  HotAddUser_def HotAddInbound_def HotRemoveInbound_def hot_add_running_def AddUser_def AddInbound_def
  RemoveInbound_def on_proc_def inbound_config_def

theorem client_changes_mirrored_witness:
  "mirrors fleet_env
     (xd (snd (xserve fleet_env no_acme (CreateClientReq (sample_client_dto 1)) 1 0 (x_one sample_net)))) inbound_one
     (xnet (snd (xserve fleet_env no_acme (CreateClientReq (sample_client_dto 1)) 1 0 (x_one sample_net))) 1)"
proof -
  let ?r = "xserve fleet_env no_acme (CreateClientReq (sample_client_dto 1)) 1 0 (x_one sample_net)"
  have "succeeded (fst ?r)"
    using x_one_db [of sample_net]
    by (simp add: x_eval node_eval succeeded_def inbound_one_def)
  moreover have "ib_NodeId inbound_one = 1" "ib_ID inbound_one = 1" by (simp_all add: inbound_one_def)
  ultimately show ?thesis
    using client_changes_mirrored [of "x_one sample_net" fleet_env "\<lambda>_. sample_bin" no_acme
        "CreateClientReq (sample_client_dto 1)" 1 0 "fst ?r" "snd ?r" inbound_one]
      sample_mirror x_one_db [of sample_net]
    by (simp add: x_env_def sample_client_dto_def firstInbound_def first_where_def sample_bin_def emails_differ_def)
qed

theorem enable_establishes_mirror_witness:
  "mirrors fleet_env (xd (snd (EnableXrayInbound fleet_env 1 1 0 (x_one sample_net)))) inbound_one
     (xnet (snd (EnableXrayInbound fleet_env 1 1 0 (x_one sample_net))) 1) \<and>
   xm_running (xnet (snd (EnableXrayInbound fleet_env 1 1 0 (x_one sample_net))) 1)"
proof -
  let ?r = "EnableXrayInbound fleet_env 1 1 0 (x_one sample_net)"
  have r: "fst ?r = XOk"
    using x_one_db [of sample_net]
    by (simp add: EnableXrayInbound_def editable_inbound_def reload_inbound_def x_eval node_eval inbound_one_def)
  have i: "firstInbound (xd (x_one sample_net)) 1 = Some inbound_one" "ib_NodeId inbound_one = 1"
    using x_one_db [of sample_net] by (simp_all add: firstInbound_def first_where_def inbound_one_def)
  have m: "merged_settings (xd (x_one sample_net)) inbound_one fmempty = fmupd ''clients'' (JArr []) fmempty"
    using x_one_db [of sample_net] by (simp add: merged_settings_def active_clients_def find_where_def)
  have s: "parsed_settings fleet_env (ib_SettingsJson inbound_one) = Some fmempty"
    by (simp add: parsed_settings_def inbound_one_def x_env_def)
  have c: "xm_file (xnet (x_one sample_net) (ib_NodeId inbound_one)) = Config sample_config"
    using x_one_db [of sample_net] by (simp add: sample_net_def)
  have b: "can_write sample_bin"
    "jparse sample_bin ''S'' = Some (JObj (merged_settings (xd (x_one sample_net)) inbound_one fmempty))"
    by (simp_all add: sample_bin_def m)
  have "EnableXrayInbound fleet_env 1 1 0 (x_one sample_net) = (XOk, snd ?r)"
    using r by (metis prod.collapse)
  then show ?thesis
    using enable_establishes_mirror [OF x_reach(1) x_env_fields(1,2) _ i(1) c b(1) s x_env_fields(3) _ b(2)]
    unfolding i(2) by simp
qed

theorem disabled_inbound_undeletable_witness:
  "fst (DeleteXrayInbound fleet_env 1 1 0 (snd (DisableXrayInbound fleet_env 1 1 0 (x_one sample_net)))) =
     XErr (HotRemoveInboundFailed ''service is not running'')"
proof -
  let ?r = "DisableXrayInbound fleet_env 1 1 0 (x_one sample_net)"
  have r: "fst ?r = XOk"
    using x_one_db [of sample_net]
    by (simp add: DisableXrayInbound_def editable_inbound_def XrayRemoveInbound_x_def x_eval node_eval inbound_one_def)
  have i: "firstInbound (xd (x_one sample_net)) 1 = Some inbound_one"
    using x_one_db [of sample_net] by (simp add: firstInbound_def first_where_def inbound_one_def)
  have o: "\<not> list_ex (\<lambda>i. ib_NodeId i = ib_NodeId inbound_one \<and> ib_Enable i = 1 \<and> ib_ID i \<noteq> 1)
      (inbounds (xd (x_one sample_net)))"
    using x_one_db [of sample_net] by (simp add: inbound_one_def)
  have "DisableXrayInbound fleet_env 1 1 0 (x_one sample_net) = (XOk, snd ?r)"
    using r by (metis prod.collapse)
  then have "\<exists>w2. DeleteXrayInbound fleet_env 1 1 0 (snd ?r) = (XErr (HotRemoveInboundFailed ''service is not running''), w2) \<and>
      xd w2 = xd (snd ?r)"
    by (rule disabled_inbound_undeletable [OF x_reach(1) x_env_fields(1,2) _ i x_env_fields(4) o])
  then show ?thesis by auto
qed

end
