(* ===== verification/Audit_Text.thy ===== *)
theory Audit_Text
  imports Node_Match
begin

text \<open>
  What the connection audit uses of Go's \<open>strings\<close> and \<open>net\<close> packages, beyond \<open>Go_Text\<close>: \<open>Trim\<close> with
  a set of bytes, \<open>TrimPrefix\<close>, \<open>ToLower\<close> and \<open>ToUpper\<close> (ASCII), \<open>Index\<close> of a text, \<open>Count\<close> of a byte,
  \<open>SplitHostPort\<close> with its error and \<open>JoinHostPort\<close>; and the regular expressions of the log reader.
\<close>

definition trim_set :: "string \<Rightarrow> string \<Rightarrow> string" where
  "trim_set s cutset = rev (dropWhile (\<lambda>c. c \<in> set cutset) (rev (dropWhile (\<lambda>c. c \<in> set cutset) s)))"

definition trim_right :: "string \<Rightarrow> string \<Rightarrow> string" where
  "trim_right s cutset = rev (dropWhile (\<lambda>c. c \<in> set cutset) (rev s))"

definition trim_prefix :: "string \<Rightarrow> string \<Rightarrow> string" where
  "trim_prefix s p = (if has_prefix s p then drop (length p) s else s)"

definition to_lower :: "string \<Rightarrow> string" where
  "to_lower = map (\<lambda>c. let n = of_char c :: nat in if 65 \<le> n \<and> n \<le> 90 then char_of (n + 32) else c)"

definition to_upper :: "string \<Rightarrow> string" where
  "to_upper = map (\<lambda>c. let n = of_char c :: nat in if 97 \<le> n \<and> n \<le> 122 then char_of (n - 32) else c)"

text \<open>\<open>strings.Index\<close> as the text before the first occurrence and the text after it.\<close>

fun cut_at :: "string \<Rightarrow> string \<Rightarrow> (string \<times> string) option" where
  "cut_at sep [] = (if sep = [] then Some ([], []) else None)"
| "cut_at sep (c # cs) =
     (if has_prefix (c # cs) sep then Some ([], drop (length sep) (c # cs))
      else map_option (\<lambda>(a, b). (c # a, b)) (cut_at sep cs))"

definition split_addr :: "string \<Rightarrow> (string \<times> string) option" where
  "split_addr hostport =
     (case last_index (CHR '':'') hostport of
        None \<Rightarrow> None
      | Some i \<Rightarrow>
          (let brackets = (\<lambda>host j k.
                 if CHR ''['' \<in> set (drop j hostport) \<or> CHR '']'' \<in> set (drop k hostport) then None
                 else Some (host, drop (Suc i) hostport))
           in if has_prefix hostport ''['' then
                (case index_of (CHR '']'') hostport of
                   None \<Rightarrow> None
                 | Some e \<Rightarrow> if Suc e = i then brackets (take (e - 1) (tl hostport)) 1 (Suc e) else None)
              else if CHR '':'' \<in> set (take i hostport) then None
              else brackets (take i hostport) 0 0))"

definition JoinHostPort :: "string \<Rightarrow> int \<Rightarrow> string" where
  "JoinHostPort host port =
     (if CHR '':'' \<in> set host then ''['' @ host @ '']:'' @ itoa port else host @ '':'' @ itoa port)"

text \<open>A text of the form \<open>a:b\<close>: its two parts.\<close>

definition colon_pair :: "string \<Rightarrow> (string \<times> string) option" where
  "colon_pair addr = (if count_list addr (CHR '':'') = 1 then cut_at '':'' addr else None)"

section \<open>Facts\<close>

lemma SplitHostPort_split_addr: "SplitHostPort s = (case split_addr s of None \<Rightarrow> ([], []) | Some p \<Rightarrow> p)"
  unfolding SplitHostPort_def split_addr_def Let_def by (auto split: option.splits)

lemma has_prefix_drop: "has_prefix s p \<Longrightarrow> p @ drop (length p) s = s"
  by (auto simp: has_prefix_iff)

lemma cut_at_Some: "cut_at sep s = Some (a, b) \<Longrightarrow> s = a @ sep @ b"
proof (induction s arbitrary: a)
  case Nil
  then show ?case by (simp split: if_splits)
next
  case (Cons c cs)
  show ?case
  proof (cases "has_prefix (c # cs) sep")
    case True
    with Cons.prems have "a = [] \<and> b = drop (length sep) (c # cs)" by simp
    with True has_prefix_drop show ?thesis by (metis append_Nil)
  next
    case False
    with Cons.prems Cons.IH show ?thesis by auto
  qed
qed

lemma cut_at_None: "cut_at sep s = None \<longleftrightarrow> \<not> contains_str s sep"
  by (induction s) auto

lemma trim_suffix_prefix: "\<exists>r. s = trim_suffix s t @ r"
  by (metis append_Nil2 append_take_drop_id trim_suffix_def)

lemma to_lower_idem [simp]: "to_lower (to_lower s) = to_lower s"
proof -
  have "(let n = of_char c :: nat in if 65 \<le> n \<and> n \<le> 90 then char_of (n + 32) else c) = d \<Longrightarrow>
      (let n = of_char d :: nat in if 65 \<le> n \<and> n \<le> 90 then char_of (n + 32) else d) = d" for c d
    by (auto simp: Let_def split: if_splits)
  then show ?thesis unfolding to_lower_def by (simp add: comp_def)
qed

lemma trim_set_sub: "set (trim_set s cs) \<subseteq> set s"
  by (auto simp: trim_set_def dest!: set_dropWhileD)

section \<open>Regular expressions\<close>

text \<open>
  The regular expressions of go-node/x/service/singbox_audit.go, with the semantics of Go's \<open>regexp\<close>:
  the leftmost match, and of the matches at one position the first that a backtracking search finds.
  The repetitions of these patterns are all repetitions of a class of bytes. On valid UTF-8 the
  classes, which exclude ASCII bytes only, take whole characters.
\<close>

datatype re =
    Cls "char \<Rightarrow> bool"
  | Many "char \<Rightarrow> bool"
  | Seq re re
  | Alt re re
  | Opt re
  | Cap re
  | WordB
  | Eps

definition word_char :: "char \<Rightarrow> bool" where
  "word_char c \<longleftrightarrow> (let n = of_char c :: nat
     in 48 \<le> n \<and> n \<le> 57 \<or> 65 \<le> n \<and> n \<le> 90 \<or> 97 \<le> n \<and> n \<le> 122 \<or> n = 95)"

text \<open>The class \<open>\s\<close>: tab, line feed, form feed, carriage return, blank.\<close>

definition re_space :: "char \<Rightarrow> bool" where
  "re_space c \<longleftrightarrow> (of_char c :: nat) \<in> {9, 10, 12, 13, 32}"

definition is_word :: "char option \<Rightarrow> bool" where
  "is_word c = (case c of None \<Rightarrow> False | Some x \<Rightarrow> word_char x)"

definition first_char :: "string \<Rightarrow> char option" where
  "first_char s = (case s of [] \<Rightarrow> None | c # _ \<Rightarrow> Some c)"

text \<open>A match: the captured texts in order, the byte before the rest, and the rest.\<close>

type_synonym re_match = "string list \<times> char option \<times> string"

fun run_class :: "(char \<Rightarrow> bool) \<Rightarrow> char option \<Rightarrow> string \<Rightarrow> re_match list" where
  "run_class p prev [] = [([], prev, [])]"
| "run_class p prev (c # cs) = (if p c then run_class p (Some c) cs else []) @ [([], prev, c # cs)]"

text \<open>All matches at the start of a text, the preferred one first.\<close>

fun matches :: "re \<Rightarrow> char option \<Rightarrow> string \<Rightarrow> re_match list" where
  "matches (Cls p) prev s = (case s of [] \<Rightarrow> [] | c # cs \<Rightarrow> if p c then [([], Some c, cs)] else [])"
| "matches (Many p) prev s = run_class p prev s"
| "matches (Seq r1 r2) prev s =
     concat (map (\<lambda>(xs, p, t). map (\<lambda>(ys, q, u). (xs @ ys, q, u)) (matches r2 p t)) (matches r1 prev s))"
| "matches (Alt r1 r2) prev s = matches r1 prev s @ matches r2 prev s"
| "matches (Opt r) prev s = matches r prev s @ [([], prev, s)]"
| "matches (Cap r) prev s =
     map (\<lambda>(xs, p, t). (take (length s - length t) s # xs, p, t)) (matches r prev s)"
| "matches WordB prev s = (if is_word prev \<noteq> is_word (first_char s) then [([], prev, s)] else [])"
| "matches Eps prev s = [([], prev, s)]"

text \<open>\<open>FindStringSubmatch\<close> without the text of the whole match.\<close>

fun find_match :: "re \<Rightarrow> char option \<Rightarrow> string \<Rightarrow> re_match option" where
  "find_match r prev s =
     (case matches r prev s of
        m # _ \<Rightarrow> Some m
      | [] \<Rightarrow> (case s of [] \<Rightarrow> None | c # cs \<Rightarrow> find_match r (Some c) cs))"

declare find_match.simps [simp del]

definition FindStringSubmatch :: "re \<Rightarrow> string \<Rightarrow> string list option" where
  "FindStringSubmatch r s = map_option fst (find_match r None s)"

text \<open>\<open>FindAllStringSubmatch\<close> for a pattern that does not match the empty text.\<close>

function find_all :: "re \<Rightarrow> char option \<Rightarrow> string \<Rightarrow> string list list" where
  "find_all r prev s =
     (case find_match r prev s of
        None \<Rightarrow> []
      | Some (xs, p, t) \<Rightarrow> xs # (if length t < length s then find_all r p t else []))"
  by pat_completeness auto
termination by (relation "measure (\<lambda>(_, _, s). length s)") auto

declare find_all.simps [simp del]

definition FindAllStringSubmatch :: "re \<Rightarrow> string \<Rightarrow> string list list" where
  "FindAllStringSubmatch r s = find_all r None s"

section \<open>Building patterns\<close>

definition re_lit :: "string \<Rightarrow> re" where
  "re_lit s = foldr (\<lambda>c. Seq (Cls (\<lambda>x. x = c))) s Eps"

text \<open>With \<open>(?i)\<close>; the texts are in lower case.\<close>

definition re_nocase :: "string \<Rightarrow> re" where
  "re_nocase s = foldr (\<lambda>c. Seq (Cls (\<lambda>x. to_lower [x] = [c]))) s Eps"

definition re_alts :: "re list \<Rightarrow> re" where
  "re_alts rs = (case rev rs of [] \<Rightarrow> Eps | r # qs \<Rightarrow> foldr Alt (rev qs) r)"

definition re_seqs :: "re list \<Rightarrow> re" where
  "re_seqs rs = foldr Seq rs Eps"

definition re_plus :: "(char \<Rightarrow> bool) \<Rightarrow> re" where
  "re_plus p = Seq (Cls p) (Many p)"

definition token :: "char \<Rightarrow> bool" where
  "token c \<longleftrightarrow> \<not> re_space c \<and> c \<noteq> CHR '','' \<and> c \<noteq> CHR '';''"

section \<open>The patterns\<close>

definition singBoxLogIDPattern :: re where
  "singBoxLogIDPattern = re_seqs [WordB,
     re_alts [re_lit ''TRACE'', re_lit ''DEBUG'', re_lit ''INFO'', re_lit ''WARN'', re_lit ''ERROR''],
     re_plus re_space, re_lit ''['',
     Cap (re_plus (\<lambda>c. c \<noteq> CHR '']'' \<and> \<not> re_space c)),
     Opt (Seq (Cls re_space) (Many (\<lambda>c. c \<noteq> CHR '']''))), re_lit '']'']"

definition singBoxComponentTagPattern :: re where
  "singBoxComponentTagPattern = re_seqs [WordB, re_alts [re_lit ''inbound'', re_lit ''outbound''],
     re_lit ''/'', re_plus (\<lambda>c. c \<noteq> CHR ''[''), re_lit ''['',
     Cap (re_plus (\<lambda>c. c \<noteq> CHR '']'')), re_lit '']'']"

definition singBoxFromPattern :: re where
  "singBoxFromPattern = re_seqs [WordB, re_nocase ''from'', re_plus re_space, Cap (re_plus token)]"

definition singBoxToPattern :: re where
  "singBoxToPattern = re_seqs [WordB, re_nocase ''to'', re_plus re_space, Cap (re_plus token)]"

definition re_arrow :: re where
  "re_arrow = re_alts [re_lit ''-->'', re_lit ''->'', re_lit ''=>'']"

definition singBoxFlowPattern :: re where
  "singBoxFlowPattern = re_seqs [WordB, Cap (re_alts [re_nocase ''tcp'', re_nocase ''udp'']),
     re_plus re_space, Cap (re_plus token), re_plus re_space, re_arrow, re_plus re_space,
     Cap (re_plus token)]"

definition singBoxArrowPattern :: re where
  "singBoxArrowPattern = re_seqs [Cap (re_plus token), re_plus re_space, re_arrow, re_plus re_space,
     Cap (re_plus token)]"

section \<open>Facts\<close>

text \<open>A match never goes back: what is left is a part of the text.\<close>

lemma run_class_suffix: "(xs, p, t) \<in> set (run_class q prev s) \<Longrightarrow> \<exists>a. s = a @ t"
proof (induction q prev s arbitrary: xs p t rule: run_class.induct)
  case (2 q prev c cs)
  then show ?case by (auto split: if_splits) (metis append_Cons)
qed simp

lemma matches_suffix: "(xs, p, t) \<in> set (matches r prev s) \<Longrightarrow> \<exists>a. s = a @ t"
proof (induction r arbitrary: prev s xs p t)
  case (Seq r1 r2)
  then show ?case by (auto) (metis append.assoc)
qed (auto dest: run_class_suffix split: list.splits if_splits)

lemma matches_length: "(xs, p, t) \<in> set (matches r prev s) \<Longrightarrow> length t \<le> length s"
  by (auto dest!: matches_suffix)

end
