(* ===== verification/Audit_Panel.thy ===== *)
theory Audit_Panel
  imports Audit_Text Panel_World
begin

text \<open>
  The connection audit of the panel (service/audit.go, task/audit_cleanup.go): the events of a node
  become rows, with the forward, tunnel and route they belong to; noise is dropped; the table is cut
  to the newest rows of two sources and emptied every night. Cipher, JSON and the comparisons of
  the database are parameters. A statement fails as a whole: \<open>CreateInBatches\<close> is one transaction.
\<close>

record AuditEvent =
  ev_ServiceName :: string
  ev_ClientAddr :: string
  ev_ClientEmail :: string
  ev_TargetAddr :: string
  ev_Protocol :: string
  ev_UpBytes :: int
  ev_DownBytes :: int
  ev_DurationMs :: int
  ev_StartedTime :: int
  ev_EndedTime :: int
  ev_Error :: string

record ConnectionAudit =
  ca_ID :: int
  ca_NodeId :: int
  ca_NodeName :: string
  ca_ServiceName :: string
  ca_ForwardId :: int
  ca_ForwardName :: string
  ca_RouteId :: int
  ca_RouteName :: string
  ca_TunnelId :: int
  ca_TunnelName :: string
  ca_UserId :: int
  ca_UserName :: string
  ca_ClientAddr :: string
  ca_ClientIp :: string
  ca_ClientPort :: int
  ca_ClientEmail :: string
  ca_SourceType :: string
  ca_TargetHost :: string
  ca_TargetPort :: int
  ca_TargetAddr :: string
  ca_Protocol :: string
  ca_UpBytes :: int
  ca_DownBytes :: int
  ca_DurationMs :: int
  ca_StartedTime :: int
  ca_EndedTime :: int
  ca_Error :: string
  ca_CreatedTime :: int

record audit_db =
  audits :: "ConnectionAudit list"
  audit_seq :: int

text \<open>\<open>ap_encrypted\<close> reads the envelope of a body (the flag and the data), \<open>ap_crypto\<close> the cipher of a
  secret, \<open>ap_events\<close> the JSON of an upload, \<open>ap_secret\<close> the configured secret of external sources.\<close>

record audit_env =
  ap_now :: int
  ap_panel :: db
  ap_eq :: "string \<Rightarrow> string \<Rightarrow> bool"
  ap_like :: "string \<Rightarrow> string \<Rightarrow> bool"
  ap_secret :: "string option"
  ap_encrypted :: "string \<Rightarrow> (bool \<times> string) option"
  ap_crypto :: "string \<Rightarrow> (string \<Rightarrow> string option) option"
  ap_events :: "string \<Rightarrow> AuditEvent list option"

section \<open>Names and addresses\<close>

definition maxAuditBatchSize :: nat where "maxAuditBatchSize = 200"

definition singBoxNoiseTargets :: "string list" where
  "singBoxNoiseTargets = [''www.gstatic.com'', ''cp.cloudflare.com'', ''connectivitycheck.gstatic.com'',
     ''connectivitycheck.android.com'', ''clients3.google.com'', ''captive.apple.com'',
     ''www.msftconnecttest.com'', ''www.msftncsi.com'', ''detectportal.firefox.com'',
     ''config.immersivetranslate.com'']"

definition normalizeAuditServiceName :: "string \<Rightarrow> string" where
  "normalizeAuditServiceName text =
     (let name = trim_space text
      in if has_suffix name ''_tcp'' then trim_suffix name ''_tcp''
         else if has_suffix name ''_udp'' then trim_suffix name ''_udp''
         else case cut_at ''_route_'' name of
             Some (before, _) \<Rightarrow> before
           | None \<Rightarrow> trim_suffix name ''_tls'')"

definition parseAuditServiceName :: "string \<Rightarrow> int \<times> int \<times> int" where
  "parseAuditServiceName name =
     (case split_on (CHR ''_'') name of
        a # b # c # _ \<Rightarrow> (Atoi a, Atoi b, Atoi c)
      | _ \<Rightarrow> (0, 0, 0))"

definition splitHostPort :: "string \<Rightarrow> string \<times> int" where
  "splitHostPort text =
     (let addr = trim_space text
      in if addr = [] then ([], 0)
         else case split_addr addr of
             Some (host, port) \<Rightarrow> (trim_set host ''[]'', Atoi port)
           | None \<Rightarrow>
               (case colon_pair addr of
                  Some (host, port) \<Rightarrow> (host, Atoi port)
                | None \<Rightarrow> (trim_set addr ''[]'', 0)))"

definition firstAuditTarget :: "string \<Rightarrow> string" where
  "firstAuditTarget addr = trim_space (hd (split_on (CHR '','') addr))"

definition normalizeAuditProtocol :: "string \<Rightarrow> string" where
  "normalizeAuditProtocol protocol =
     (let p = to_lower (trim_space protocol) in if p = [] then ''tcp'' else p)"

section \<open>Records\<close>

definition isXrayAuditEvent :: "ConnectionAudit \<Rightarrow> bool" where
  "isXrayAuditEvent r \<longleftrightarrow> ca_ClientEmail r \<noteq> [] \<or> has_prefix (ca_ServiceName r) ''xray''"

definition isGostAuditEvent :: "ConnectionAudit \<Rightarrow> bool" where
  "isGostAuditEvent r \<longleftrightarrow> has_prefix (ca_ServiceName r) ''gost:''"

text \<open>The four parts of \<open>enrichAuditForward\<close>, in order.\<close>

definition forward_fields :: "Forward \<Rightarrow> ConnectionAudit \<Rightarrow> ConnectionAudit" where
  "forward_fields fwd r = r\<lparr>ca_ForwardName := f_Name fwd, ca_TunnelId := f_TunnelId fwd,
     ca_RouteId := f_RouteId fwd, ca_UserId := (if ca_UserId r = 0 then f_UserId fwd else ca_UserId r),
     ca_UserName := f_UserName fwd\<rparr>"

definition target_fields :: "Forward \<Rightarrow> ConnectionAudit \<Rightarrow> ConnectionAudit" where
  "target_fields fwd r =
     (if ca_TargetAddr r \<noteq> [] then r
      else case splitHostPort (firstAuditTarget (f_RemoteAddr fwd)) of
          (host, port) \<Rightarrow> r\<lparr>ca_TargetAddr := f_RemoteAddr fwd, ca_TargetHost := host, ca_TargetPort := port\<rparr>)"

definition tunnel_name :: "db \<Rightarrow> ConnectionAudit \<Rightarrow> ConnectionAudit" where
  "tunnel_name d r =
     (if ca_TunnelId r = 0 then r
      else case firstTunnel d (ca_TunnelId r) of
          None \<Rightarrow> r | Some tunnel \<Rightarrow> r\<lparr>ca_TunnelName := t_Name tunnel\<rparr>)"

definition route_name :: "db \<Rightarrow> ConnectionAudit \<Rightarrow> ConnectionAudit" where
  "route_name d r =
     (if ca_RouteId r = 0 then r
      else case firstRoute d (ca_RouteId r) of
          None \<Rightarrow> r | Some route \<Rightarrow> r\<lparr>ca_RouteName := r_Name route\<rparr>)"

definition enrichAuditForward :: "db \<Rightarrow> ConnectionAudit \<Rightarrow> ConnectionAudit" where
  "enrichAuditForward d record =
     (if ca_ForwardId record = 0 then record
      else case firstForward d (ca_ForwardId record) of
          None \<Rightarrow> record
        | Some fwd \<Rightarrow> route_name d (tunnel_name d (target_fields fwd (forward_fields fwd record))))"

text \<open>\<open>buildConnectionAuditRecord\<close> up to the choice of the source; the node is its key and name.\<close>

definition audit_times :: "int \<Rightarrow> AuditEvent \<Rightarrow> int \<times> int" where
  "audit_times t ev =
     (let ended = (if ev_EndedTime ev = 0 then t else ev_EndedTime ev);
          started = (if ev_StartedTime ev = 0 then i64 (ended - ev_DurationMs ev) else ev_StartedTime ev)
      in (if started < 0 then ended else started, ended))"

definition plain_record :: "int \<times> string \<Rightarrow> AuditEvent \<Rightarrow> int \<Rightarrow> ConnectionAudit" where
  "plain_record node ev t =
     (let (clientIp, clientPort) = splitHostPort (ev_ClientAddr ev);
          (targetHost, targetPort) = splitHostPort (ev_TargetAddr ev);
          (started, ended) = audit_times t ev
      in \<lparr>ca_ID = 0, ca_NodeId = fst node, ca_NodeName = snd node,
          ca_ServiceName = normalizeAuditServiceName (ev_ServiceName ev),
          ca_ForwardId = 0, ca_ForwardName = [], ca_RouteId = 0, ca_RouteName = [], ca_TunnelId = 0,
          ca_TunnelName = [], ca_UserId = 0, ca_UserName = [],
          ca_ClientAddr = ev_ClientAddr ev, ca_ClientIp = clientIp, ca_ClientPort = clientPort,
          ca_ClientEmail = trim_space (ev_ClientEmail ev), ca_SourceType = [],
          ca_TargetHost = targetHost, ca_TargetPort = targetPort, ca_TargetAddr = ev_TargetAddr ev,
          ca_Protocol = normalizeAuditProtocol (ev_Protocol ev),
          ca_UpBytes = ev_UpBytes ev, ca_DownBytes = ev_DownBytes ev, ca_DurationMs = ev_DurationMs ev,
          ca_StartedTime = started, ca_EndedTime = ended, ca_Error = ev_Error ev, ca_CreatedTime = t\<rparr>)"

definition buildConnectionAuditRecord ::
  "db \<Rightarrow> int \<times> string \<Rightarrow> AuditEvent \<Rightarrow> int \<Rightarrow> ConnectionAudit" where
  "buildConnectionAuditRecord d node ev t =
     (let record = plain_record node ev t;
          owned = (\<lambda>source name. case parseAuditServiceName name of (forwardId, userId, _) \<Rightarrow>
            enrichAuditForward d (record\<lparr>ca_SourceType := source, ca_ForwardId := forwardId, ca_UserId := userId\<rparr>))
      in if isXrayAuditEvent record then record\<lparr>ca_SourceType := ''xray''\<rparr>
         else if isGostAuditEvent record then owned ''gost'' (trim_prefix (ca_ServiceName record) ''gost:'')
         else owned ''singbox'' (ca_ServiceName record))"

definition hasAuditTarget :: "ConnectionAudit \<Rightarrow> bool" where
  "hasAuditTarget r \<longleftrightarrow> trim_space (ca_TargetHost r) \<noteq> [] \<or> trim_space (ca_TargetAddr r) \<noteq> []"

definition isAuditNoise :: "ConnectionAudit \<Rightarrow> bool" where
  "isAuditNoise r \<longleftrightarrow> \<not> hasAuditTarget r \<or> ca_TargetPort r = 53 \<or>
     to_lower (trim_space (ca_TargetHost r)) \<in> set singBoxNoiseTargets"

definition shouldStoreConnectionAudit :: "ConnectionAudit \<Rightarrow> bool" where
  "shouldStoreConnectionAudit r \<longleftrightarrow>
     (has_prefix (ca_ServiceName r) ''sing-box'' \<or> has_prefix (ca_ServiceName r) ''xray'' \<or>
      has_prefix (ca_ServiceName r) ''gost'') \<and> \<not> isAuditNoise r"

section \<open>Uploads\<close>

definition decrypt_body :: "audit_env \<Rightarrow> string \<Rightarrow> string \<Rightarrow> string" where
  "decrypt_body e rawData secret =
     (if rawData = [] then rawData
      else case ap_encrypted e rawData of
          None \<Rightarrow> rawData
        | Some (encrypted, encoded) \<Rightarrow>
            if \<not> encrypted \<or> encoded = [] then rawData
            else case ap_crypto e secret of
                None \<Rightarrow> rawData
              | Some decrypt \<Rightarrow> (case decrypt encoded of None \<Rightarrow> rawData | Some plain \<Rightarrow> plain))"

definition resolveAuditNode :: "audit_env \<Rightarrow> string \<Rightarrow> (int \<times> string) option" where
  "resolveAuditNode e secret =
     (case first_where (\<lambda>n. ap_eq e (n_Secret n) secret) (nodes (ap_panel e)) of
        Some node \<Rightarrow> Some (n_ID node, n_Name node)
      | None \<Rightarrow> if secret \<noteq> [] \<and> ap_secret e = Some secret then Some (0, ''x-ui:DMIT'') else None)"

definition audit_records :: "audit_env \<Rightarrow> int \<times> string \<Rightarrow> AuditEvent list \<Rightarrow> ConnectionAudit list" where
  "audit_records e node evs =
     filter (\<lambda>r. ca_ServiceName r \<noteq> [] \<and> ca_ClientIp r \<noteq> [] \<and> shouldStoreConnectionAudit r)
       (map (\<lambda>ev. buildConnectionAuditRecord (ap_panel e) node ev (ap_now e)) (take maxAuditBatchSize evs))"

fun number_rows :: "int \<Rightarrow> ConnectionAudit list \<Rightarrow> ConnectionAudit list" where
  "number_rows k [] = []"
| "number_rows k (r # rs) = r\<lparr>ca_ID := k\<rparr> # number_rows (k + 1) rs"

definition insert_audits :: "ConnectionAudit list \<Rightarrow> audit_db \<Rightarrow> audit_db" where
  "insert_audits rs d = d\<lparr>audits := audits d @ number_rows (audit_seq d) rs,
     audit_seq := audit_seq d + int (length rs)\<rparr>"

text \<open>The answer is always \<open>ok\<close>; the flag says whether the insertion succeeds.\<close>

definition ProcessConnectionAuditUpload ::
  "audit_env \<Rightarrow> bool \<Rightarrow> string \<Rightarrow> string \<Rightarrow> audit_db \<Rightarrow> audit_db" where
  "ProcessConnectionAuditUpload e ok rawData secret d =
     (case resolveAuditNode e secret of None \<Rightarrow> d | Some node \<Rightarrow>
      case ap_events e (decrypt_body e rawData secret) of None \<Rightarrow> d | Some evs \<Rightarrow>
      let records = audit_records e node evs
      in if records = [] \<or> \<not> ok then d else insert_audits records d)"

section \<open>Clean-up\<close>

text \<open>\<open>ORDER BY id DESC OFFSET maxRows - 1 LIMIT 1\<close>; the threshold stays 0 when there is no row.\<close>

definition audit_threshold :: "(ConnectionAudit \<Rightarrow> bool) \<Rightarrow> nat \<Rightarrow> audit_db \<Rightarrow> int" where
  "audit_threshold bucket maxRows d =
     (case drop (maxRows - 1) (rev (sort (map ca_ID (filter bucket (audits d))))) of
        [] \<Rightarrow> 0 | k # _ \<Rightarrow> k)"

definition trimAuditBucket ::
  "(bool \<times> bool) \<Rightarrow> (ConnectionAudit \<Rightarrow> bool) \<Rightarrow> nat \<Rightarrow> audit_db \<Rightarrow> audit_db" where
  "trimAuditBucket oks bucket maxRows d =
     (let threshold = audit_threshold bucket maxRows d
      in if \<not> fst oks \<or> threshold = 0 \<or> \<not> snd oks then d
         else d\<lparr>audits := delete_where (\<lambda>r. bucket r \<and> ca_ID r < threshold) (audits d)\<rparr>)"

definition from_external :: "ConnectionAudit \<Rightarrow> bool" where
  "from_external r \<longleftrightarrow> ca_NodeId r = 0"

definition trimConnectionAudit :: "(bool \<times> bool) \<Rightarrow> (bool \<times> bool) \<Rightarrow> audit_db \<Rightarrow> audit_db" where
  "trimConnectionAudit oks1 oks2 d =
     trimAuditBucket oks2 (\<lambda>r. \<not> from_external r) 200 (trimAuditBucket oks1 from_external 300 d)"

definition dailyClear :: "bool \<Rightarrow> audit_db \<Rightarrow> audit_db" where
  "dailyClear ok d = (if ok then d\<lparr>audits := []\<rparr> else d)"

section \<open>The page\<close>

record ConnectionAuditListDto =
  al_ClientIp :: string
  al_ClientEmail :: string
  al_Target :: string
  al_Service :: string
  al_ForwardId :: int
  al_NodeId :: int
  al_NodeName :: string
  al_Protocol :: string
  al_StartTime :: int
  al_EndTime :: int
  al_Page :: int
  al_PageSize :: int

definition connectionAuditVisibleScope :: "audit_env \<Rightarrow> ConnectionAudit \<Rightarrow> bool" where
  "connectionAuditVisibleScope e r \<longleftrightarrow>
     (ap_like e (ca_ServiceName r) ''sing-box%'' \<or> ap_like e (ca_ServiceName r) ''xray%'' \<or>
      ap_like e (ca_ServiceName r) ''gost%'') \<and>
     (\<not> ap_eq e (ca_TargetHost r) [] \<or> \<not> ap_eq e (ca_TargetAddr r) []) \<and>
     ca_TargetPort r \<noteq> 53 \<and>
     list_all (\<lambda>t. \<not> ap_eq e (to_lower (ca_TargetHost r)) t) singBoxNoiseTargets"

definition audit_filter :: "audit_env \<Rightarrow> ConnectionAuditListDto \<Rightarrow> ConnectionAudit \<Rightarrow> bool" where
  "audit_filter e q r \<longleftrightarrow>
     (let like = (\<lambda>s p. ap_like e s (''%'' @ p @ ''%''))
      in (al_ClientIp q \<noteq> [] \<longrightarrow> like (ca_ClientIp r) (al_ClientIp q)) \<and>
         (al_ClientEmail q \<noteq> [] \<longrightarrow> like (ca_ClientEmail r) (al_ClientEmail q)) \<and>
         (al_Target q \<noteq> [] \<longrightarrow> like (ca_TargetHost r) (al_Target q) \<or> like (ca_TargetAddr r) (al_Target q)) \<and>
         (al_Service q \<noteq> [] \<longrightarrow> like (ca_ServiceName r) (al_Service q)) \<and>
         (al_ForwardId q \<noteq> 0 \<longrightarrow> ca_ForwardId r = al_ForwardId q) \<and>
         (al_NodeId q \<noteq> 0 \<longrightarrow> ca_NodeId r = al_NodeId q) \<and>
         (al_NodeName q \<noteq> [] \<longrightarrow> ap_eq e (ca_NodeName r) (al_NodeName q)) \<and>
         (al_Protocol q \<notin> {[], ''all''} \<longrightarrow> ap_eq e (ca_Protocol r) (al_Protocol q)) \<and>
         (al_StartTime q > 0 \<longrightarrow> ca_EndedTime r \<ge> al_StartTime q) \<and>
         (al_EndTime q > 0 \<longrightarrow> ca_StartedTime r \<le> al_EndTime q))"

text \<open>\<open>ORDER BY ended_time DESC, id DESC\<close> with the total before the page is cut.\<close>

definition GetConnectionAudits ::
  "audit_env \<Rightarrow> ConnectionAuditListDto \<Rightarrow> audit_db \<Rightarrow> ConnectionAudit list \<times> nat \<times> int \<times> int" where
  "GetConnectionAudits e q d =
     (let page = (if al_Page q \<le> 0 then 1 else al_Page q);
          pageSize = (if al_PageSize q \<le> 0 \<or> al_PageSize q > 200 then 50 else al_PageSize q);
          found = filter (\<lambda>r. connectionAuditVisibleScope e r \<and> audit_filter e q r) (audits d);
          sorted = rev (sort_key ca_EndedTime (sort_key ca_ID found))
      in (take (nat pageSize) (drop (nat (i64 (i64 (page - 1) * pageSize))) sorted), length found, page, pageSize))"

end
