(* ===== verification/Audit_Node.thy ===== *)
theory Audit_Node
  imports Audit_Text Go_Json "HOL-Library.Word"
begin

text \<open>
  The connection audit of a node (go-node/x/service/audit_reporter.go, singbox_audit.go): the events of
  the GOST handlers and of the access log of sing-box, the bounded queue and the batches sent to the
  panel. Times are nanoseconds. The JSON reader is a parameter, with the integer part of a number.
\<close>

record ConnectionAuditEvent =
  ae_ServiceName :: string
  ae_ClientAddr :: string
  ae_TargetAddr :: string
  ae_Protocol :: string
  ae_UpBytes :: int
  ae_DownBytes :: int
  ae_DurationMs :: int
  ae_StartedTime :: int
  ae_EndedTime :: int
  ae_Error :: string

definition unix_milli :: "int \<Rightarrow> int" where "unix_milli t = t div 1000000"

text \<open>\<open>Duration.Milliseconds\<close> rounds towards zero.\<close>

definition milliseconds :: "int \<Rightarrow> int" where
  "milliseconds d = (if d < 0 then - (- d div 1000000) else d div 1000000)"

section \<open>Events of the handlers\<close>

text \<open>The part of \<open>HandlerRecorderObject\<close> the hook reads: the host and method of an HTTP request, the
  server name of a TLS handshake, the name and question of a DNS query; \<open>ro_Time\<close> is \<open>None\<close> for the
  zero time.\<close>

record HandlerRecorderObject =
  ro_Service :: string
  ro_RemoteAddr :: string
  ro_Host :: string
  ro_Dst :: string
  ro_Proto :: string
  ro_ClientIP :: string
  ro_HTTP :: "(string \<times> string) option"
  ro_TLS :: "string option"
  ro_DNS :: "(string \<times> string) option"
  ro_InputBytes :: "64 word"
  ro_OutputBytes :: "64 word"
  ro_Err :: string
  ro_Duration :: int
  ro_Time :: "int option"

definition cleanAuditTarget :: "string \<Rightarrow> string" where
  "cleanAuditTarget target = trim_suffix (trim_suffix (trim_prefix (trim_prefix (trim_space target)
     ''http://'') ''https://'') ''/'') ''.''"

definition atoi_ok :: "string \<Rightarrow> bool" where
  "atoi_ok s \<longleftrightarrow> parse_int s \<noteq> None"

definition defaultPortTarget :: "string \<Rightarrow> int \<Rightarrow> string" where
  "defaultPortTarget text port =
     (let host = trim_space text
      in if host = [] then []
         else if split_addr host \<noteq> None then host
         else if case colon_pair host of Some (_, p) \<Rightarrow> atoi_ok p | None \<Rightarrow> False then host
         else JoinHostPort (trim_set host ''[]'') port)"

definition first_nonempty :: "string list \<Rightarrow> string" where
  "first_nonempty ss = (case filter (\<lambda>s. s \<noteq> []) ss of [] \<Rightarrow> [] | s # _ \<Rightarrow> s)"

text \<open>The first source that is not blank; a cleaned name may be empty and still decides.\<close>

definition auditTargetFromRecorder :: "HandlerRecorderObject \<Rightarrow> string" where
  "auditTargetFromRecorder ro =
     (let http = (case ro_HTTP ro of Some (host, _) \<Rightarrow> trim_space host | None \<Rightarrow> []);
          tls = (case ro_TLS ro of Some name \<Rightarrow> trim_space name | None \<Rightarrow> []);
          dns = (case ro_DNS ro of Some (name, question) \<Rightarrow>
                   first_nonempty [trim_space name, trim_space question] | None \<Rightarrow> [])
      in if http \<noteq> [] then cleanAuditTarget http
         else if tls \<noteq> [] then cleanAuditTarget (defaultPortTarget tls 443)
         else if dns \<noteq> [] then cleanAuditTarget (trim_suffix dns ''.'')
         else if trim_space (ro_Host ro) \<noteq> [] then cleanAuditTarget (trim_space (ro_Host ro))
         else if trim_space (ro_Dst ro) \<noteq> [] then cleanAuditTarget (trim_space (ro_Dst ro))
         else [])"

definition auditClientAddr :: "HandlerRecorderObject \<Rightarrow> string" where
  "auditClientAddr ro =
     (if trim_space (ro_ClientIP ro) \<noteq> [] then trim_space (ro_ClientIP ro) else trim_space (ro_RemoteAddr ro))"

definition auditTargetPort :: "string \<Rightarrow> int" where
  "auditTargetPort target =
     (case split_addr target of
        Some (_, port) \<Rightarrow> Atoi port
      | None \<Rightarrow> (case colon_pair target of Some (_, port) \<Rightarrow> Atoi port | None \<Rightarrow> 0))"

text \<open>The protocols both tables of ports know.\<close>

definition known_port :: "int \<Rightarrow> string option" where
  "known_port port =
     (if port = 22 then Some ''ssh'' else if port = 53 then Some ''dns'' else if port = 80 then Some ''http''
      else if port = 443 then Some ''https'' else if port \<in> {25, 465, 587} then Some ''smtp'' else None)"

definition protocolFromPort :: "int \<Rightarrow> string" where
  "protocolFromPort port = (case known_port port of Some p \<Rightarrow> p | None \<Rightarrow> ''tcp'')"

definition auditProtocolFromRecorder :: "HandlerRecorderObject \<Rightarrow> string \<Rightarrow> string" where
  "auditProtocolFromRecorder ro target =
     (if ro_DNS ro \<noteq> None then ''dns''
      else case ro_HTTP ro of
          Some (_, meth) \<Rightarrow>
            if to_upper (trim_space meth) = ''CONNECT'' \<or> auditTargetPort target = 443 then ''https'' else ''http''
        | None \<Rightarrow>
            if ro_TLS ro \<noteq> None then ''https''
            else case known_port (auditTargetPort target) of
                Some p \<Rightarrow> p
              | None \<Rightarrow>
                  (let proto = to_lower (trim_space (ro_Proto ro))
                   in if proto \<noteq> [] then proto
                      else if has_suffix (to_lower (ro_Service ro)) ''_udp'' then ''udp'' else ''tcp''))"

definition reportHandlerAudit :: "int \<Rightarrow> HandlerRecorderObject \<Rightarrow> ConnectionAuditEvent option" where
  "reportHandlerAudit t ro =
     (if ro_Service ro = [] \<or> ro_ClientIP ro = [] then None
      else
        (let targetAddr = auditTargetFromRecorder ro;
             started = (case ro_Time ro of None \<Rightarrow> t | Some s \<Rightarrow> s);
             ended = (if ro_Duration ro \<le> 0 then t else started + ro_Duration ro)
         in if targetAddr = [] \<and> ro_Err ro = [] then None
            else Some \<lparr>ae_ServiceName = ro_Service ro, ae_ClientAddr = auditClientAddr ro,
              ae_TargetAddr = targetAddr, ae_Protocol = auditProtocolFromRecorder ro targetAddr,
              ae_UpBytes = sint (ro_OutputBytes ro), ae_DownBytes = sint (ro_InputBytes ro),
              ae_DurationMs = milliseconds (ro_Duration ro), ae_StartedTime = unix_milli started,
              ae_EndedTime = unix_milli ended, ae_Error = trim_space (ro_Err ro)\<rparr>))"

section \<open>The queue\<close>

text \<open>What is accepted, in order, is kept beside the state of the channel, the loop and the panel.\<close>

record audit_queue =
  aq_queue :: "ConnectionAuditEvent list"
  aq_batch :: "ConnectionAuditEvent list"
  aq_sent :: "ConnectionAuditEvent list list"
  aq_accepted :: "ConnectionAuditEvent list"

definition enqueueConnectionAudit :: "bool \<Rightarrow> ConnectionAuditEvent \<Rightarrow> audit_queue \<Rightarrow> audit_queue" where
  "enqueueConnectionAudit url_set ev q =
     (if \<not> url_set \<or> ae_ServiceName ev = [] \<or> ae_ClientAddr ev = [] \<or> length (aq_queue q) \<ge> 1024 then q
      else q\<lparr>aq_queue := aq_queue q @ [ev], aq_accepted := aq_accepted q @ [ev]\<rparr>)"

definition flush_batch :: "audit_queue \<Rightarrow> audit_queue" where
  "flush_batch q =
     (if aq_batch q = [] then q else q\<lparr>aq_sent := aq_sent q @ [aq_batch q], aq_batch := []\<rparr>)"

definition take_event :: "audit_queue \<Rightarrow> audit_queue" where
  "take_event q =
     (case aq_queue q of
        [] \<Rightarrow> q
      | ev # rest \<Rightarrow>
          (let q1 = q\<lparr>aq_queue := rest, aq_batch := aq_batch q @ [ev]\<rparr>
           in if length (aq_batch q1) \<ge> 100 then flush_batch q1 else q1))"

text \<open>The goroutines of the handlers and of the log enqueue, the loop receives or is woken by its ticker.\<close>

inductive queue_step :: "audit_queue \<Rightarrow> audit_queue \<Rightarrow> bool" where
  step_enqueue: "queue_step q (enqueueConnectionAudit url_set ev q)"
| step_receive: "queue_step q (take_event q)"
| step_tick: "queue_step q (flush_batch q)"

inductive queue_reach :: "audit_queue \<Rightarrow> bool" where
  queue_start: "queue_reach \<lparr>aq_queue = [], aq_batch = [], aq_sent = [], aq_accepted = []\<rparr>"
| queue_next: "queue_reach q \<Longrightarrow> queue_step q q' \<Longrightarrow> queue_reach q'"

section \<open>Lines of the access log\<close>

record singBoxAuditPartial =
  pa_serviceName :: string
  pa_clientAddr :: string
  pa_targetAddr :: string
  pa_protocol :: string
  pa_errorText :: string
  pa_started :: int
  pa_updated :: int

definition cleanSingBoxAddress :: "string \<Rightarrow> string" where
  "cleanSingBoxAddress addr =
     trim_space (trim_prefix (trim_prefix (trim_prefix
       (trim_right (trim_set (trim_space addr) (CHR 0x22 # CHR 0x27 # CHR 0x60 # '',;()'')) '':'')
       ''tcp://'') ''udp://'') ''tls://'')"

definition looksLikeAddress :: "string \<Rightarrow> bool" where
  "looksLikeAddress addr \<longleftrightarrow>
     addr \<noteq> [] \<and> \<not> contains_str addr ''://'' \<and>
     (split_addr addr \<noteq> None \<or>
      (case colon_pair addr of
         Some (_, port) \<Rightarrow> (case parse_int port of Some p \<Rightarrow> p > 0 | None \<Rightarrow> False)
       | None \<Rightarrow> CHR ''.'' \<in> set addr))"

definition singBoxProtocol :: "string \<Rightarrow> string \<Rightarrow> string" where
  "singBoxProtocol line target =
     (let lower = to_lower line; port = auditTargetPort target;
          names = (\<lambda>p. contains_str lower ('' '' @ p @ '' '') \<or> contains_str lower (''network='' @ p) \<or>
                       contains_str lower (''network:'' @ p))
      in if names ''udp'' then (if port = 53 then ''dns'' else ''udp'')
         else if port \<noteq> 0 then protocolFromPort port else ''tcp'')"

definition singBoxErrorText :: "string \<Rightarrow> string" where
  "singBoxErrorText line =
     (let lower = to_lower line
      in if \<not> contains_str lower ''error'' \<and> \<not> contains_str lower ''failed'' \<and> \<not> contains_str lower ''reject''
         then []
         else case cut_at '': '' line of
             Some (_, rest) \<Rightarrow> if rest \<noteq> [] then trim_space rest else trim_space line
           | None \<Rightarrow> trim_space line)"

definition singBoxServiceName :: "string \<Rightarrow> string" where
  "singBoxServiceName line =
     (case filter (\<lambda>tag. tag \<noteq> []) (map (\<lambda>m. trim_space (hd m))
        (FindAllStringSubmatch singBoxComponentTagPattern line)) of
        [] \<Rightarrow> [] | tag # _ \<Rightarrow> ''sing-box:'' @ tag)"

definition singBoxDefaultServiceName :: "string \<Rightarrow> string" where
  "singBoxDefaultServiceName text =
     (let name = trim_space text
      in if name = [] then ''sing-box''
         else if has_prefix name ''sing-box'' then name else ''sing-box:'' @ name)"

definition singBoxAddressMatch :: "re \<Rightarrow> string \<Rightarrow> string" where
  "singBoxAddressMatch pattern line =
     (case FindStringSubmatch pattern line of Some [addr] \<Rightarrow> cleanSingBoxAddress addr | _ \<Rightarrow> [])"

definition singBoxLogID :: "string \<Rightarrow> string" where
  "singBoxLogID line =
     (case FindStringSubmatch singBoxLogIDPattern line of Some [k] \<Rightarrow> trim_space k | _ \<Rightarrow> [])"

definition plain_event :: "string \<Rightarrow> string \<Rightarrow> string \<Rightarrow> string \<Rightarrow> int \<Rightarrow> string \<Rightarrow> ConnectionAuditEvent" where
  "plain_event name client target protocol t er = \<lparr>ae_ServiceName = singBoxDefaultServiceName name,
     ae_ClientAddr = client, ae_TargetAddr = target, ae_Protocol = protocol, ae_UpBytes = 0,
     ae_DownBytes = 0, ae_DurationMs = 0, ae_StartedTime = unix_milli t, ae_EndedTime = unix_milli t,
     ae_Error = er\<rparr>"

definition parseSingBoxFlowLine :: "string \<Rightarrow> int \<Rightarrow> ConnectionAuditEvent option" where
  "parseSingBoxFlowLine line t =
     (let (protocol, client, target) =
        (case FindStringSubmatch singBoxFlowPattern line of
           Some [p, c, d] \<Rightarrow> (to_lower p, c, d)
         | _ \<Rightarrow> (case FindStringSubmatch singBoxArrowPattern line of
                   Some [c, d] \<Rightarrow> ([], c, d) | _ \<Rightarrow> ([], [], [])));
          clientAddr = cleanSingBoxAddress client;
          targetAddr = cleanAuditTarget (cleanSingBoxAddress target)
      in if clientAddr = [] \<or> targetAddr = [] \<or> \<not> looksLikeAddress clientAddr \<or> \<not> looksLikeAddress targetAddr
         then None
         else Some (plain_event (singBoxServiceName line) clientAddr targetAddr
           (singBoxProtocol ('' '' @ protocol @ '' '' @ line) targetAddr) t (singBoxErrorText line)))"

text \<open>The reader of JSON, and \<open>int64(f)\<close> of a number given by its text.\<close>

record json_reader =
  jr_parse :: "string \<Rightarrow> json option"
  jr_int :: "string \<Rightarrow> int"

fun firstJSONString :: "json_reader \<Rightarrow> json_obj \<Rightarrow> string list \<Rightarrow> string" where
  "firstJSONString j m [] = []"
| "firstJSONString j m (key # keys) =
     (case fmlookup m key of
        Some (JStr s) \<Rightarrow> if trim_space s \<noteq> [] then trim_space s else firstJSONString j m keys
      | Some (JNum n) \<Rightarrow> itoa (jr_int j n)
      | _ \<Rightarrow> firstJSONString j m keys)"

definition parseSingBoxJSONAccessLogLine ::
  "json_reader \<Rightarrow> string \<Rightarrow> int \<Rightarrow> ConnectionAuditEvent option" where
  "parseSingBoxJSONAccessLogLine j line t =
     (let read = (\<lambda>m.
        (let text = firstJSONString j m;
             client = text [''clientAddr'', ''client_addr'', ''client'', ''source'', ''src'', ''from'',
               ''remote_addr'', ''remoteAddr''];
             target = text [''targetAddr'', ''target_addr'', ''target'', ''destination'', ''dest'', ''dst'',
               ''server'', ''domain''];
             message = text [''message'', ''msg'']
         in if target = [] \<and> message \<noteq> [] then parseSingBoxFlowLine message t
            else if client = [] \<or> target = [] then None
            else Some (plain_event (text [''serviceName'', ''service'', ''inbound'', ''inboundTag'',
                   ''inbound_tag'', ''tag''])
                 (cleanSingBoxAddress client) (cleanAuditTarget (cleanSingBoxAddress target))
                 (singBoxProtocol ('' '' @ text [''protocol'', ''network'', ''proto''] @ '' '') target) t
                 (text [''error'', ''err'']))))
      in case jr_parse j line of
          Some (JObj m) \<Rightarrow> read m
        | Some JNull \<Rightarrow> read fmempty
        | _ \<Rightarrow> None)"

definition singBoxPartialEvent :: "singBoxAuditPartial \<Rightarrow> int \<Rightarrow> ConnectionAuditEvent" where
  "singBoxPartialEvent p t = \<lparr>ae_ServiceName = singBoxDefaultServiceName (pa_serviceName p),
     ae_ClientAddr = cleanSingBoxAddress (pa_clientAddr p),
     ae_TargetAddr = cleanAuditTarget (cleanSingBoxAddress (pa_targetAddr p)),
     ae_Protocol = (if pa_protocol p = [] then singBoxProtocol [] (pa_targetAddr p) else pa_protocol p),
     ae_UpBytes = 0, ae_DownBytes = 0, ae_DurationMs = milliseconds (t - pa_started p),
     ae_StartedTime = unix_milli (pa_started p), ae_EndedTime = unix_milli t, ae_Error = pa_errorText p\<rparr>"

type_synonym pending = "string \<Rightarrow> singBoxAuditPartial option"

text \<open>What a line with an identifier adds to the partial record of its connection.\<close>

definition note_line :: "string \<Rightarrow> int \<Rightarrow> singBoxAuditPartial option \<Rightarrow> singBoxAuditPartial" where
  "note_line line t old =
     (let p0 = (case old of Some p \<Rightarrow> p | None \<Rightarrow> \<lparr>pa_serviceName = [], pa_clientAddr = [], pa_targetAddr = [],
                  pa_protocol = [], pa_errorText = [], pa_started = t, pa_updated = t\<rparr>);
          keep = (\<lambda>new old. if new = [] then old else new);
          target = singBoxAddressMatch singBoxToPattern line;
          p1 = p0\<lparr>pa_updated := t,
                pa_serviceName := (if pa_serviceName p0 = [] then singBoxServiceName line else pa_serviceName p0),
                pa_clientAddr := keep (singBoxAddressMatch singBoxFromPattern line) (pa_clientAddr p0),
                pa_targetAddr := (if target = [] then pa_targetAddr p0 else cleanAuditTarget target)\<rparr>
      in p1\<lparr>pa_protocol := keep (singBoxProtocol line (pa_targetAddr p1)) (pa_protocol p1),
            pa_errorText := keep (singBoxErrorText line) (pa_errorText p1)\<rparr>)"

definition partial_ready :: "singBoxAuditPartial \<Rightarrow> bool" where
  "partial_ready p \<longleftrightarrow> pa_clientAddr p \<noteq> [] \<and> (pa_targetAddr p \<noteq> [] \<or> pa_errorText p \<noteq> [])"

definition parseSingBoxAccessLogLine ::
  "json_reader \<Rightarrow> string \<Rightarrow> int \<Rightarrow> pending \<Rightarrow> ConnectionAuditEvent option \<times> pending" where
  "parseSingBoxAccessLogLine j text t pending =
     (let line = trim_space text
      in if line = [] then (None, pending)
         else case parseSingBoxJSONAccessLogLine j line t of
             Some ev \<Rightarrow> (Some ev, pending)
           | None \<Rightarrow>
               (case parseSingBoxFlowLine line t of
                  Some ev \<Rightarrow> (Some ev, pending)
                | None \<Rightarrow>
                    (let k = singBoxLogID line
                     in if k = [] then (None, pending)
                        else
                          (let p = note_line line t (pending k)
                           in if partial_ready p then (Some (singBoxPartialEvent p t), pending(k := None))
                              else (None, pending(k \<mapsto> p))))))"

definition cleanupSingBoxAuditPartials :: "int \<Rightarrow> pending \<Rightarrow> pending" where
  "cleanupSingBoxAuditPartials t pending = (\<lambda>k. case pending k of
     Some p \<Rightarrow> if t - pa_updated p > 600000000000 then None else Some p | None \<Rightarrow> None)"

text \<open>\<open>readSingBoxAccessLog\<close> for one line: the event goes to the queue.\<close>

definition read_line ::
  "json_reader \<Rightarrow> bool \<Rightarrow> string \<Rightarrow> int \<Rightarrow> pending \<times> audit_queue \<Rightarrow> pending \<times> audit_queue" where
  "read_line j url_set text t s =
     (case parseSingBoxAccessLogLine j text t (fst s) of
        (Some ev, pending) \<Rightarrow> (pending, enqueueConnectionAudit url_set ev (snd s))
      | (None, pending) \<Rightarrow> (pending, snd s))"

end
