(* ===== verification/Audit_Props.thy ===== *)
theory Audit_Props
  imports Audit_Panel Audit_Node Gost_Config Sample
begin

text \<open>
  The connection audit from the node to the table: no event is lost or repeated between the queue of a
  node and its uploads, which names of services the panel recognises, what the clean-up leaves, and
  which lines of a log belong together.
\<close>

section \<open>The queue of a node\<close>

text \<open>An event as the panel reads it: the node sends no email.\<close>

definition upload_of :: "ConnectionAuditEvent \<Rightarrow> AuditEvent" where
  "upload_of ev = \<lparr>ev_ServiceName = ae_ServiceName ev, ev_ClientAddr = ae_ClientAddr ev, ev_ClientEmail = [],
     ev_TargetAddr = ae_TargetAddr ev, ev_Protocol = ae_Protocol ev, ev_UpBytes = ae_UpBytes ev,
     ev_DownBytes = ae_DownBytes ev, ev_DurationMs = ae_DurationMs ev, ev_StartedTime = ae_StartedTime ev,
     ev_EndedTime = ae_EndedTime ev, ev_Error = ae_Error ev\<rparr>"

definition queue_inv :: "audit_queue \<Rightarrow> bool" where
  "queue_inv q \<longleftrightarrow> concat (aq_sent q) @ aq_batch q @ aq_queue q = aq_accepted q \<and>
     length (aq_queue q) \<le> 1024 \<and> length (aq_batch q) < 100 \<and>
     list_all (\<lambda>b. b \<noteq> [] \<and> length b \<le> 100) (aq_sent q)"

lemma queue_step_inv: "queue_step q q' \<Longrightarrow> queue_inv q \<Longrightarrow> queue_inv q'"
proof (induction rule: queue_step.induct)
  case (step_enqueue q url_set ev)
  then show ?case by (auto simp: queue_inv_def enqueueConnectionAudit_def)
next
  case (step_receive q)
  then show ?case
    by (auto simp: queue_inv_def take_event_def flush_batch_def Let_def split: list.splits)
next
  case (step_tick q)
  then show ?case by (auto simp: queue_inv_def flush_batch_def)
qed

lemma queue_reach_inv: "queue_reach q \<Longrightarrow> queue_inv q"
  by (induction rule: queue_reach.induct) (simp add: queue_inv_def, blast intro: queue_step_inv)

text \<open>C30: Between the queue and the uploads of a node no accepted audit event is lost, repeated or
  reordered, whatever the handlers, the log reader and the ticker do: the uploads, the open batch and
  the queue together are the accepted events in order. The queue never holds more than its capacity,
  and no upload is empty or so long that the panel would cut it.\<close>

theorem audit_queue_conserved:
  assumes "queue_reach q"
  shows "concat (aq_sent q) @ aq_batch q @ aq_queue q = aq_accepted q \<and> length (aq_queue q) \<le> 1024 \<and>
    list_all (\<lambda>b. b \<noteq> [] \<and> take maxAuditBatchSize (map upload_of b) = map upload_of b) (aq_sent q)"
proof -
  have "list_all (\<lambda>b. b \<noteq> [] \<and> length b \<le> 100) (aq_sent q) \<Longrightarrow>
      list_all (\<lambda>b. b \<noteq> [] \<and> take maxAuditBatchSize (map upload_of b) = map upload_of b) (aq_sent q)"
    by (auto simp: list_all_iff maxAuditBatchSize_def)
  with queue_reach_inv [OF assms] show ?thesis by (simp add: queue_inv_def)
qed

section \<open>Which services are recognised\<close>

lemma itoa_head: "\<exists>c cs. itoa f = c # cs \<and> (is_digit c \<or> c = CHR ''-'')"
proof (cases "f < 0")
  case True
  then show ?thesis by (simp add: itoa_def)
next
  case False
  then obtain c cs where "itoa f = c # cs" by (metis dec_nonempty itoa_def neq_Nil_conv)
  moreover have "is_digit c" using dec_digits [of c "nat f"] calculation False by (simp add: itoa_def)
  ultimately show ?thesis by blast
qed

definition numbered :: "string \<Rightarrow> bool" where
  "numbered s \<longleftrightarrow> s = [] \<or> is_digit (hd s) \<or> hd s = CHR ''-''"

lemma numbered_prefix: "numbered (a @ b) \<Longrightarrow> numbered a"
  by (cases a) (auto simp: numbered_def)

lemma numbered_not_space: "c = CHR ''-'' \<or> is_digit c \<Longrightarrow> \<not> is_space c"
  by (auto simp: is_space_def is_digit_def Let_def)

lemma numbered_trim_space: "numbered s \<Longrightarrow> numbered (trim_space s)"
proof -
  assume n: "numbered s"
  have "dropWhile is_space s = s"
    using n numbered_not_space by (cases s) (auto simp: numbered_def)
  then have "trim_space s = rev (dropWhile is_space (rev s))" by (simp add: trim_space_def)
  moreover have "\<exists>r. s = rev (dropWhile is_space (rev s)) @ r"
    by (metis rev_append rev_rev_ident takeWhile_dropWhile_id)
  ultimately show ?thesis using n numbered_prefix by metis
qed

lemma numbered_normalize: "numbered s \<Longrightarrow> numbered (normalizeAuditServiceName s)"
proof -
  assume "numbered s"
  then have t: "numbered (trim_space s)" by (rule numbered_trim_space)
  have suf: "numbered (trim_suffix (trim_space s) x)" for x
    using t trim_suffix_prefix [of "trim_space s" x] numbered_prefix by metis
  have cut: "cut_at x (trim_space s) = Some (a, b) \<Longrightarrow> numbered a" for x a b
    using t cut_at_Some numbered_prefix by metis
  show ?thesis
    unfolding normalizeAuditServiceName_def Let_def
    using suf cut by (auto split: option.splits)
qed

lemma numbered_not_stored:
  assumes "numbered (ca_ServiceName r)"
  shows "\<not> shouldStoreConnectionAudit r"
proof (cases "ca_ServiceName r")
  case (Cons c cs)
  with assms have "is_digit c \<or> c = CHR ''-''" by (simp add: numbered_def)
  then have "c \<noteq> CHR ''s''" "c \<noteq> CHR ''x''" "c \<noteq> CHR ''g''" by (auto simp: is_digit_def)
  with Cons show ?thesis by (simp add: shouldStoreConnectionAudit_def)
qed (simp add: shouldStoreConnectionAudit_def)

lemma enrich_parts [simp]: "ca_ServiceName (forward_fields fwd r) = ca_ServiceName r"
  "ca_ServiceName (target_fields fwd r) = ca_ServiceName r" "ca_ServiceName (tunnel_name d r) = ca_ServiceName r"
  "ca_ServiceName (route_name d r) = ca_ServiceName r"
  by (simp_all add: forward_fields_def target_fields_def tunnel_name_def route_name_def split: option.split prod.split)

lemma enrich_name [simp]: "ca_ServiceName (enrichAuditForward d r) = ca_ServiceName r"
  by (simp add: enrichAuditForward_def split: option.split)

lemma record_name:
  "ca_ServiceName (buildConnectionAuditRecord d node ev t) = normalizeAuditServiceName (ev_ServiceName ev)"
  by (simp add: buildConnectionAuditRecord_def plain_record_def Let_def split: prod.splits)

lemma report_service: "reportHandlerAudit t ro = Some ev \<Longrightarrow> ae_ServiceName ev = ro_Service ro"
  by (auto simp: reportHandlerAudit_def Let_def split: if_splits)

text \<open>An event of an upload that a GOST handler of a service of the panel reported.\<close>

definition handler_event :: "AuditEvent \<Rightarrow> bool" where
  "handler_event ev \<longleftrightarrow> (\<exists>t ro f u ut suffix reported. reportHandlerAudit t ro = Some reported \<and>
     ro_Service ro = buildServiceName f u ut @ suffix \<and> ev = upload_of reported)"

lemma handler_event_numbered:
  assumes "handler_event ev"
  shows "numbered (ev_ServiceName ev)"
proof -
  obtain t ro f u ut suffix reported where "reportHandlerAudit t ro = Some reported"
    and n: "ro_Service ro = buildServiceName f u ut @ suffix" and ev: "ev = upload_of reported"
    using assms by (auto simp: handler_event_def)
  then have "ev_ServiceName ev = buildServiceName f u ut @ suffix"
    using report_service by (metis AuditEvent.select_convs(1) upload_of_def)
  with itoa_head [of f] show ?thesis by (auto simp: buildServiceName_def numbered_def)
qed

lemma handler_event_not_stored:
  "handler_event ev \<Longrightarrow> \<not> shouldStoreConnectionAudit (buildConnectionAuditRecord d node ev t)"
  by (rule numbered_not_stored, subst record_name, rule numbered_normalize, rule handler_event_numbered)

lemma filter_map_drop:
  "(\<And>x. x \<in> set xs \<Longrightarrow> q x \<Longrightarrow> \<not> p (f x)) \<Longrightarrow> filter p (map f xs) = filter p (map f (filter (\<lambda>x. \<not> q x) xs))"
  by (induction xs) auto

lemma audit_records_no_handler:
  "audit_records e node evs = audit_records e node (filter (\<lambda>ev. \<not> handler_event ev) (take maxAuditBatchSize evs))"
proof -
  let ?evs = "filter (\<lambda>ev. \<not> handler_event ev) (take maxAuditBatchSize evs)"
  have "length ?evs \<le> maxAuditBatchSize"
    by (rule order_trans [OF length_filter_le]) simp
  then have "take maxAuditBatchSize ?evs = ?evs" by (rule take_all)
  then show ?thesis
    unfolding audit_records_def
    by (simp only:) (rule filter_map_drop, blast dest: handler_event_not_stored)
qed

text \<open>C31: No event of the GOST handlers ever reaches the table. The names the panel gives its services
  begin with the number of the forward, the node reports these names as they are, without the prefix
  gost: that would opt into storage, and the panel stores events of names with sing-box, xray or gost in
  front only. So the rows an upload adds are exactly those of the upload without its handler events: they
  are dropped also where the queue of the node mixes them with events of sing-box.\<close>

theorem gost_events_dropped:
  assumes "resolveAuditNode e secret = Some node" and "ap_events e (decrypt_body e rawData secret) = Some evs"
  shows "audits (ProcessConnectionAuditUpload e ok rawData secret d) = audits d @
    (if ok then number_rows (audit_seq d)
       (audit_records e node (filter (\<lambda>ev. \<not> handler_event ev) (take maxAuditBatchSize evs))) else [])"
  using assms audit_records_no_handler [of e node evs]
  by (auto simp: ProcessConnectionAuditUpload_def insert_audits_def Let_def)

section \<open>The table\<close>

inductive audit_step :: "audit_db \<Rightarrow> audit_db \<Rightarrow> bool" where
  step_upload: "audit_step d (ProcessConnectionAuditUpload e ok rawData secret d)"
| step_trim: "audit_step d (trimConnectionAudit oks1 oks2 d)"
| step_clear: "audit_step d (dailyClear ok d)"

inductive audit_reach :: "audit_db \<Rightarrow> bool" where
  audit_start: "audit_reach \<lparr>audits = [], audit_seq = 1\<rparr>"
| audit_next: "audit_reach d \<Longrightarrow> audit_step d d' \<Longrightarrow> audit_reach d'"

definition audit_inv :: "audit_db \<Rightarrow> bool" where
  "audit_inv d \<longleftrightarrow> sorted_wrt (<) (map ca_ID (audits d)) \<and> 0 < audit_seq d \<and>
     (\<forall>r \<in> set (audits d). 0 < ca_ID r \<and> ca_ID r < audit_seq d)"

lemma number_rows_ids: "map ca_ID (number_rows k rs) = map (\<lambda>i. k + int i) [0..<length rs]"
proof (induction rs arbitrary: k)
  case (Cons r rs)
  have "map (\<lambda>i. k + int i) [0..<Suc (length rs)] = k # map (\<lambda>i. k + 1 + int i) [0..<length rs]"
    by (simp add: upt_conv_Cons map_Suc_upt [symmetric] del: upt_Suc)
  with Cons show ?case by simp
qed simp

lemma insert_audits_inv: "audit_inv d \<Longrightarrow> audit_inv (insert_audits rs d)"
proof -
  assume inv: "audit_inv d"
  let ?n = "number_rows (audit_seq d) rs"
  have ids: "ca_ID ` set ?n = (\<lambda>i. audit_seq d + int i) ` {0..<length rs}"
    using number_rows_ids [of "audit_seq d" rs] by (metis set_map set_upt)
  have new: "audit_seq d \<le> ca_ID r \<and> ca_ID r < audit_seq d + int (length rs)" if "r \<in> set ?n" for r
  proof -
    have "ca_ID r \<in> ca_ID ` set ?n" using that by simp
    then show ?thesis unfolding ids by auto
  qed
  have "sorted_wrt (<) (map ca_ID ?n)"
    unfolding number_rows_ids by (simp add: sorted_wrt_map sorted_wrt_upt)
  with inv new show ?thesis
    by (force simp: audit_inv_def insert_audits_def sorted_wrt_append)
qed

lemma audit_inv_filter: "audit_inv d \<Longrightarrow> audit_inv (d\<lparr>audits := filter p (audits d)\<rparr>)"
  by (auto simp: audit_inv_def sorted_wrt_map intro: sorted_wrt_filter)

lemma audit_step_inv: "audit_step d d' \<Longrightarrow> audit_inv d \<Longrightarrow> audit_inv d'"
proof (induction rule: audit_step.induct)
  case (step_upload d e ok rawData secret)
  then show ?case
    by (auto simp: ProcessConnectionAuditUpload_def Let_def intro: insert_audits_inv split: option.splits)
next
  case (step_trim d oks1 oks2)
  have bucket: "audit_inv d \<Longrightarrow> audit_inv (trimAuditBucket oks b n d)" for oks b n d
    by (auto simp: trimAuditBucket_def Let_def delete_where_def intro: audit_inv_filter)
  from step_trim show ?case by (simp add: trimConnectionAudit_def bucket)
next
  case (step_clear d ok)
  then show ?case by (simp add: dailyClear_def audit_inv_def)
qed

lemma audit_reach_inv: "audit_reach d \<Longrightarrow> audit_inv d"
  by (induction rule: audit_reach.induct) (simp add: audit_inv_def, blast intro: audit_step_inv)

text \<open>Of an ascending list, what is not below the n-th last element is the last n.\<close>

lemma filter_last_n:
  assumes "sorted_wrt (<) (map k xs)" and "0 < n" and "n \<le> length xs"
  shows "filter (\<lambda>x. \<not> k x < k (xs ! (length xs - n))) xs = drop (length xs - n) (xs :: 'a list)"
    and "(k :: 'a \<Rightarrow> int) (xs ! (length xs - n)) \<in> k ` set xs"
proof -
  let ?i = "length xs - n"
  have i: "?i < length xs" using assms(2,3) by simp
  have lt: "k (xs ! a) < k (xs ! b)" if "a < b" "b < length xs" for a b
    using assms(1) that by (simp add: sorted_wrt_iff_nth_less)
  have "\<forall>x \<in> set (take ?i xs). k x < k (xs ! ?i)"
    using i lt by (auto simp: in_set_conv_nth)
  moreover have "\<forall>x \<in> set (drop ?i xs). \<not> k x < k (xs ! ?i)"
  proof
    fix x assume "x \<in> set (drop ?i xs)"
    then obtain m where m: "m < length xs - ?i" "x = xs ! (?i + m)"
      by (auto simp: in_set_conv_nth)
    moreover have "?i + m < length xs" using m(1) by simp
    ultimately show "\<not> k x < k (xs ! ?i)" using lt [of ?i "?i + m"] by (cases "m = 0") auto
  qed
  ultimately have "filter (\<lambda>x. \<not> k x < k (xs ! ?i)) (take ?i xs @ drop ?i xs) = drop ?i xs"
    by (simp only: filter_append) (simp add: filter_empty_conv)
  then show "filter (\<lambda>x. \<not> k x < k (xs ! ?i)) xs = drop ?i xs" by simp
  show "k (xs ! ?i) \<in> k ` set xs" using i by simp
qed

lemma trim_bucket_newest:
  assumes "audit_inv d" and "0 < n"
  shows "filter b (audits (trimAuditBucket (True, True) b n d)) =
      drop (length (filter b (audits d)) - n) (filter b (audits d))"
    and "filter (\<lambda>r. \<not> b r) (audits (trimAuditBucket (True, True) b n d)) = filter (\<lambda>r. \<not> b r) (audits d)"
proof -
  let ?xs = "filter b (audits d)"
  have s: "sorted_wrt (<) (map ca_ID ?xs)"
    using assms(1) by (auto simp: audit_inv_def sorted_wrt_map intro: sorted_wrt_filter)
  then have sort: "sort (map ca_ID ?xs) = map ca_ID ?xs"
    by (intro sort_key_id_if_sorted) (simp add: strict_sorted_imp_sorted)
  have pos: "\<forall>r \<in> set ?xs. 0 < ca_ID r" using assms(1) by (auto simp: audit_inv_def)
  have threshold: "audit_threshold b n d = (if n \<le> length ?xs then ca_ID (?xs ! (length ?xs - n)) else 0)"
  proof (cases "n \<le> length ?xs")
    case True
    then have "drop (n - 1) (rev (map ca_ID ?xs)) =
        rev (map ca_ID ?xs) ! (n - 1) # drop n (rev (map ca_ID ?xs))"
      using assms(2) by (metis Cons_nth_drop_Suc Suc_diff_1 diff_less le_trans length_map length_rev
          less_le_trans zero_less_one)
    then show ?thesis using True assms(2)
      by (simp add: audit_threshold_def sort rev_nth)
  qed (simp add: audit_threshold_def sort)
  show "filter b (audits (trimAuditBucket (True, True) b n d)) = drop (length ?xs - n) ?xs"
  proof (cases "n \<le> length ?xs")
    case True
    let ?t = "ca_ID (?xs ! (length ?xs - n))"
    have "?t \<noteq> 0" using filter_last_n(2) [OF s assms(2) True] pos by auto
    moreover have "filter b (filter (\<lambda>r. \<not> (b r \<and> ca_ID r < ?t)) (audits d)) =
        filter (\<lambda>r. \<not> ca_ID r < ?t) ?xs"
      by (simp add: conj_commute) (metis (mono_tags, lifting) filter_cong)
    ultimately show ?thesis
      using filter_last_n(1) [OF s assms(2) True] True
      by (simp add: trimAuditBucket_def threshold delete_where_def)
  qed (simp add: trimAuditBucket_def threshold)
  show "filter (\<lambda>r. \<not> b r) (audits (trimAuditBucket (True, True) b n d)) = filter (\<lambda>r. \<not> b r) (audits d)"
    by (auto simp: trimAuditBucket_def Let_def delete_where_def intro: filter_cong)
qed

text \<open>C32: In every reachable state the clean-up leaves exactly the newest rows, the last 300 of the
  external source and the last 200 of all nodes together, in their order, so the table holds at most
  500 rows after it.\<close>

theorem audit_trim_keeps_newest:
  assumes "audit_reach d"
    and "trimConnectionAudit (True, True) (True, True) d = d'"
  shows "filter from_external (audits d') =
      drop (length (filter from_external (audits d)) - 300) (filter from_external (audits d)) \<and>
    filter (\<lambda>r. \<not> from_external r) (audits d') =
      drop (length (filter (\<lambda>r. \<not> from_external r) (audits d)) - 200) (filter (\<lambda>r. \<not> from_external r) (audits d)) \<and>
    length (audits d') \<le> 500"
proof (intro conjI)
  have inv: "audit_inv d" using assms(1) by (rule audit_reach_inv)
  let ?d1 = "trimAuditBucket (True, True) from_external 300 d"
  have inv1: "audit_inv ?d1"
    using inv by (auto simp: trimAuditBucket_def Let_def delete_where_def intro: audit_inv_filter)
  note one = trim_bucket_newest [OF inv, of 300 from_external]
  note two = trim_bucket_newest [OF inv1, of 200 "\<lambda>r. \<not> from_external r"]
  show a: "filter from_external (audits d') =
      drop (length (filter from_external (audits d)) - 300) (filter from_external (audits d))"
    using one two by (simp add: assms(2) [symmetric] trimConnectionAudit_def)
  show b: "filter (\<lambda>r. \<not> from_external r) (audits d') =
      drop (length (filter (\<lambda>r. \<not> from_external r) (audits d)) - 200) (filter (\<lambda>r. \<not> from_external r) (audits d))"
    using one two by (simp add: assms(2) [symmetric] trimConnectionAudit_def)
  have "length (audits d') = length (filter from_external (audits d')) + length (filter (\<lambda>r. \<not> from_external r) (audits d'))"
    by (simp add: sum_length_filter_compl)
  then show "length (audits d') \<le> 500" unfolding a b by simp
qed

section \<open>What the page shows\<close>

lemma trim_space_snoc: "is_space c \<Longrightarrow> trim_space (s @ [c]) = trim_space s"
proof (cases "\<forall>x \<in> set s. is_space x")
  case True
  moreover assume "is_space c"
  ultimately have "\<forall>x \<in> set (s @ [c]). is_space x" by simp
  with True have "dropWhile is_space (s @ [c]) = []" "dropWhile is_space s = []"
    by (simp_all only: dropWhile_eq_Nil_conv)
  then show ?thesis by (simp only: trim_space_def)
next
  case False
  then obtain x where "x \<in> set s" "\<not> is_space x" by auto
  moreover assume "is_space c"
  ultimately show ?thesis by (simp add: trim_space_def dropWhile_append1)
qed

lemma trim_right_snoc: "trim_right (s @ [c]) '' '' = (if c = CHR '' '' then trim_right s '' '' else s @ [c])"
  by (simp add: trim_right_def)

lemma trim_space_trim_right: "trim_space (trim_right s '' '') = trim_space s"
proof (induction s rule: rev_induct)
  case (snoc c s)
  have "is_space (CHR '' '')" by (simp add: is_space_def)
  with snoc show ?case by (auto simp: trim_right_snoc trim_space_snoc)
qed (simp add: trim_right_def)

lemma lower_space: "is_space (hd (to_lower [c])) = is_space c" "hd (to_lower [c]) = CHR '' '' \<longleftrightarrow> c = CHR '' ''"
proof -
  have n: "of_char (hd (to_lower [c])) =
      (if (65 :: nat) \<le> of_char c \<and> of_char c \<le> (90 :: nat) then of_char c + 32 else (of_char c :: nat))"
    by (simp add: to_lower_def Let_def)
  then show "is_space (hd (to_lower [c])) = is_space c" by (simp add: is_space_def)
  have blank: "x = CHR '' '' \<longleftrightarrow> of_char x = (32 :: nat)" for x
  proof -
    have "of_char (CHR '' '') = (32 :: nat)" by simp
    then show ?thesis by (metis of_char_eq_iff)
  qed
  show "hd (to_lower [c]) = CHR '' '' \<longleftrightarrow> c = CHR '' ''" unfolding blank n by simp
qed

lemma to_lower_snoc: "to_lower (s @ [c]) = to_lower s @ [hd (to_lower [c])]"
  by (simp add: to_lower_def)

lemma trim_right_lower: "trim_right (to_lower s) '' '' = to_lower (trim_right s '' '')"
proof (induction s rule: rev_induct)
  case (snoc c s)
  then show ?case
    by (cases "c = CHR '' ''") (simp_all add: to_lower_snoc trim_right_snoc lower_space(2))
qed (simp add: trim_right_def to_lower_def)

lemma trim_space_lower: "trim_space (to_lower s) = to_lower (trim_space s)"
proof -
  have d: "dropWhile is_space (to_lower s) = to_lower (dropWhile is_space s)" for s
    by (induction s) (simp_all add: to_lower_def lower_space(1) [unfolded to_lower_def, simplified])
  have r: "rev (to_lower s) = to_lower (rev s)" for s by (simp add: to_lower_def rev_map)
  show ?thesis by (simp add: trim_space_def d r)
qed

lemma noise_plain: "t \<in> set singBoxNoiseTargets \<Longrightarrow> trim_space t = t \<and> to_lower (trim_right t '' '') = t"
  unfolding singBoxNoiseTargets_def list.set insert_iff empty_iff
  by (elim disjE FalseE; hypsubst; code_simp)

text \<open>Property: the filter of the page, written in SQL, agrees with the filter of the upload: every row
  that is stored is shown, for a collation that ignores case and trailing blanks.\<close>

theorem stored_rows_visible:
  assumes "shouldStoreConnectionAudit r"
    and "\<forall>s p. has_prefix s p \<longrightarrow> ap_like e s (p @ ''%'')"
    and "\<forall>s t. ap_eq e s t \<longleftrightarrow> to_lower (trim_right s '' '') = to_lower (trim_right t '' '')"
  shows "connectionAuditVisibleScope e r"
proof -
  have blank: "ap_eq e s [] \<Longrightarrow> trim_space s = []" for s
  proof -
    assume "ap_eq e s []"
    then have "trim_right s '' '' = []" using assms(3) by (simp add: to_lower_def trim_right_def)
    then show "trim_space s = []" using trim_space_trim_right [of s] by (simp add: trim_space_def)
  qed
  have noise: "to_lower (trim_space s) = t" if "ap_eq e (to_lower s) t" and "t \<in> set singBoxNoiseTargets" for s t
  proof -
    have t: "trim_space t = t" "to_lower (trim_right t '' '') = t" using noise_plain [OF that(2)] by simp_all
    have "to_lower (trim_right s '' '') = t"
      using that(1) assms(3) t(2) by (simp add: trim_right_lower)
    then have "trim_space (trim_right (to_lower s) '' '') = t" using t(1) by (simp add: trim_right_lower)
    then show ?thesis by (simp add: trim_space_trim_right trim_space_lower)
  qed
  show ?thesis
    using assms(1,2) blank noise
    by (force simp: connectionAuditVisibleScope_def shouldStoreConnectionAudit_def isAuditNoise_def
        hasAuditTarget_def list_all_iff)
qed

section \<open>The lines of a log\<close>

text \<open>Property: a line of the access log changes nothing but the partial record of its own connection,
  and the event it completes is made of that record only: connections are never mixed up.\<close>

theorem audit_lines_isolated:
  assumes "pending (singBoxLogID (trim_space text)) = pending' (singBoxLogID (trim_space text))"
  shows "fst (parseSingBoxAccessLogLine j text t pending) = fst (parseSingBoxAccessLogLine j text t pending')"
    and "(snd (parseSingBoxAccessLogLine j text t pending)) (singBoxLogID (trim_space text) := None) =
      pending (singBoxLogID (trim_space text) := None)"
proof -
  show "fst (parseSingBoxAccessLogLine j text t pending) = fst (parseSingBoxAccessLogLine j text t pending')"
    using assms by (simp add: parseSingBoxAccessLogLine_def Let_def split: option.split)
  show "(snd (parseSingBoxAccessLogLine j text t pending)) (singBoxLogID (trim_space text) := None) =
      pending (singBoxLogID (trim_space text) := None)"
    by (simp add: parseSingBoxAccessLogLine_def Let_def split: option.split)
qed

text \<open>Property: the word after \<open>to\<close> in an error message is taken for the target of the connection.\<close>

theorem error_word_is_target:
  "map_option (\<lambda>ev. (ae_ClientAddr ev, ae_TargetAddr ev, ae_Error ev))
     (fst (parseSingBoxAccessLogLine \<lparr>jr_parse = (\<lambda>_. None), jr_int = (\<lambda>_. 0)\<rparr>
        ''ERROR [7] in from 1.2.3.4:5: failed to read'' 0 (\<lambda>_. None))) =
   Some (''1.2.3.4:5'', ''read'', ''failed to read'')"
  by code_simp

section \<open>Examples\<close>

text \<open>The properties on concrete events, with node 1 of \<open>Sample\<close>.\<close>

definition sample_event :: ConnectionAuditEvent where
  "sample_event = \<lparr>ae_ServiceName = ''sing-box'', ae_ClientAddr = ''1.2.3.4:5'', ae_TargetAddr = ''claude.ai:443'',
     ae_Protocol = ''https'', ae_UpBytes = 1, ae_DownBytes = 2, ae_DurationMs = 3, ae_StartedTime = 4,
     ae_EndedTime = 7, ae_Error = []\<rparr>"

definition sample_queue :: audit_queue where
  "sample_queue = flush_batch (take_event (enqueueConnectionAudit True sample_event
     \<lparr>aq_queue = [], aq_batch = [], aq_sent = [], aq_accepted = []\<rparr>))"

theorem audit_queue_conserved_witness:
  "aq_sent sample_queue = [[sample_event]] \<and> aq_accepted sample_queue = [sample_event]"
proof -
  have "queue_reach sample_queue"
    unfolding sample_queue_def
    by (intro queue_next [OF _ step_tick] queue_next [OF _ step_receive] queue_next [OF _ step_enqueue] queue_start)
  from audit_queue_conserved [OF this] show ?thesis
    by (simp add: sample_queue_def flush_batch_def take_event_def enqueueConnectionAudit_def sample_event_def)
qed

text \<open>A handler event of a service of forward 1, as the node reports it.\<close>

definition sample_object :: HandlerRecorderObject where
  "sample_object = \<lparr>ro_Service = ''1_2_0_tcp'', ro_RemoteAddr = [], ro_Host = ''example.com:443'', ro_Dst = [],
     ro_Proto = [], ro_ClientIP = ''1.2.3.4'', ro_HTTP = None, ro_TLS = None, ro_DNS = None,
     ro_InputBytes = 1, ro_OutputBytes = 2, ro_Err = [], ro_Duration = 1, ro_Time = Some 1\<rparr>"

definition sample_audit :: "ConnectionAuditEvent list \<Rightarrow> audit_env" where
  "sample_audit evs = \<lparr>ap_now = 1000, ap_panel = sample_db, ap_eq = (=), ap_like = (\<lambda>_ _. True),
     ap_secret = None, ap_encrypted = (\<lambda>_. None), ap_crypto = (\<lambda>_. None),
     ap_events = (\<lambda>_. Some (map upload_of evs))\<rparr>"

definition sample_secret :: string where
  "sample_secret = n_Secret (hd (nodes sample_db))"

definition empty_audits :: audit_db where
  "empty_audits = \<lparr>audits = [], audit_seq = 1\<rparr>"

definition sample_handler_event :: AuditEvent where
  "sample_handler_event = upload_of (the (reportHandlerAudit 0 sample_object))"

definition mixed_audit :: audit_env where
  "mixed_audit = (sample_audit [])\<lparr>ap_events := \<lambda>_. Some [sample_handler_event, upload_of sample_event]\<rparr>"

theorem gost_events_dropped_witness:
  "map ca_ServiceName (audits (ProcessConnectionAuditUpload mixed_audit True ''body'' sample_secret empty_audits)) =
     [''sing-box''] \<and> ev_ServiceName sample_handler_event = ''1_2_0_tcp''"
proof -
  have "reportHandlerAudit 0 sample_object \<noteq> None" by code_simp
  moreover have "ro_Service sample_object = buildServiceName 1 2 None @ ''_tcp''" by code_simp
  ultimately have h: "handler_event sample_handler_event"
    unfolding handler_event_def sample_handler_event_def by (metis option.collapse)
  have n: "\<not> handler_event (upload_of sample_event)"
    using handler_event_numbered [of "upload_of sample_event"]
    by (auto simp: upload_of_def sample_event_def numbered_def is_digit_def)
  have node: "resolveAuditNode mixed_audit sample_secret = Some (1, n_Name (hd (nodes sample_db)))" by code_simp
  have r: "map ca_ServiceName (audit_records mixed_audit (1, n_Name (hd (nodes sample_db))) [upload_of sample_event]) =
    [''sing-box'']" by code_simp
  have k: "map ca_ServiceName (number_rows k rs) = map ca_ServiceName rs" for k rs
    by (induction k rs rule: number_rows.induct) simp_all
  have "map ca_ServiceName (audits (ProcessConnectionAuditUpload mixed_audit True ''body'' sample_secret empty_audits)) = [''sing-box'']"
    using gost_events_dropped [OF node, of "''body''" "[sample_handler_event, upload_of sample_event]" True empty_audits] h n r
    by (simp add: mixed_audit_def empty_audits_def maxAuditBatchSize_def k)
  moreover have "ev_ServiceName sample_handler_event = ''1_2_0_tcp''" by code_simp
  ultimately show ?thesis ..
qed

definition sample_audits :: audit_db where
  "sample_audits = ProcessConnectionAuditUpload (sample_audit [sample_event]) True ''body'' sample_secret empty_audits"

theorem audit_trim_keeps_newest_witness:
  "length (audits sample_audits) = 1 \<and>
   filter (\<lambda>r. \<not> from_external r) (audits (trimConnectionAudit (True, True) (True, True) sample_audits)) =
     filter (\<lambda>r. \<not> from_external r) (audits sample_audits)"
proof -
  have reach: "audit_reach sample_audits"
    unfolding sample_audits_def empty_audits_def by (rule audit_next [OF audit_start step_upload])
  have "length (audits sample_audits) = 1" by code_simp
  moreover have "length (filter (\<lambda>r. \<not> from_external r) (audits sample_audits)) \<le> 200"
    using calculation length_filter_le [of "\<lambda>r. \<not> from_external r" "audits sample_audits"] by simp
  ultimately show ?thesis
    using audit_trim_keeps_newest [OF reach refl] by simp
qed

end
