(* ===== verification/Node_Traffic.thy ===== *)
theory Node_Traffic
  imports Node_Limit Gost_Config
begin

text \<open>
  The speed limits of a node (go-node/x/limiter/traffic with its wrapper and cache): the limiters of
  services, connections and addresses, their reload, and the connection that reads and writes through
  them. A limiter is a token bucket of a library whose rate and burst are both its limit; waiting for
  tokens only takes time, so its state here is the limit. Limiters are shared by pointer and live in
  a store. The parser of sizes and the trie of networks are parameters; times are nanoseconds.
\<close>

section \<open>Waiting\<close>

text \<open>\<open>Wait\<close> of one limiter and of a group: how many bytes may pass.\<close>

definition limiter_Wait :: "int \<Rightarrow> nat \<Rightarrow> nat" where
  "limiter_Wait limit n = (if limit < int n then nat limit else n)"

definition group_Wait :: "int list \<Rightarrow> nat \<Rightarrow> nat" where
  "group_Wait limits n = fold (\<lambda>limit n. let v = limiter_Wait limit n in if v < n then v else n) limits n"

text \<open>\<open>Limit\<close> of a group whose limiters are sorted.\<close>

definition rate_Limit :: "int list \<Rightarrow> int" where
  "rate_Limit limits = (case limits of [] \<Rightarrow> 0 | x # _ \<Rightarrow> x)"

section \<open>The limits of a node\<close>

text \<open>Each direction has a cache of limiters of connections, with the time they expire, and a table of
  limiters of services and addresses.\<close>

record limit_side =
  sd_conn :: "(string \<times> (nat \<times> int)) list"
  sd_fixed :: "(string \<times> nat) list"

record traffic_limiter =
  tl_store :: "int list"
  tl_generator :: "int \<times> int"
  tl_cidrs :: "((nat list \<times> nat) \<times> (int \<times> int)) list"
  tl_inSide :: limit_side
  tl_outSide :: limit_side

definition no_limits :: traffic_limiter where
  "no_limits = \<lparr>tl_store = [], tl_generator = (0, 0), tl_cidrs = [],
     tl_inSide = \<lparr>sd_conn = [], sd_fixed = []\<rparr>, tl_outSide = \<lparr>sd_conn = [], sd_fixed = []\<rparr>\<rparr>"

datatype scope = ScopeService | ScopeClient | ScopeConn

definition expires :: "int \<Rightarrow> int" where "expires t = t + 15000000000"

definition cache_live :: "int \<Rightarrow> (string \<times> (nat \<times> int)) list \<Rightarrow> string \<Rightarrow> nat option" where
  "cache_live t c key = (case map_of c key of Some (r, x) \<Rightarrow> if t \<le> x then Some r else None | None \<Rightarrow> None)"

definition conn_limiter ::
  "int \<Rightarrow> string \<Rightarrow> int \<Rightarrow> int list \<times> limit_side \<Rightarrow> nat list \<times> int list \<times> limit_side" where
  "conn_limiter t key n s =
     (case cache_live t (sd_conn (snd s)) key of
        Some r \<Rightarrow> ([r], fst s, (snd s)\<lparr>sd_conn := AList.update key (r, expires t) (sd_conn (snd s))\<rparr>)
      | None \<Rightarrow>
          if n \<le> 0 then ([], s)
          else ([length (fst s)], fst s @ [n],
            (snd s)\<lparr>sd_conn := AList.update key (length (fst s), expires t) (sd_conn (snd s))\<rparr>))"

definition cidr_limit ::
  "((nat list \<times> nat) list \<Rightarrow> nat list \<Rightarrow> nat option) \<Rightarrow> (int \<times> int \<Rightarrow> int) \<Rightarrow>
     ((nat list \<times> nat) \<times> (int \<times> int)) list \<Rightarrow> string \<Rightarrow> int option" where
  "cidr_limit containing pick cidrs host =
     (case ParseIP host of None \<Rightarrow> None | Some ip \<Rightarrow>
        map_option (\<lambda>i. pick (snd (cidrs ! i))) (containing (map fst cidrs) ip))"

definition host_limiter ::
  "string \<Rightarrow> int option \<Rightarrow> int list \<times> limit_side \<Rightarrow> nat list \<times> int list \<times> limit_side" where
  "host_limiter host cidr s =
     (case map_of (sd_fixed (snd s)) host of
        Some r \<Rightarrow> ([r], s)
      | None \<Rightarrow>
          (case cidr of
             None \<Rightarrow> ([], s)
           | Some n \<Rightarrow>
               if n \<le> 0 then ([], s)
               else ([length (fst s)], fst s @ [n],
                 (snd s)\<lparr>sd_fixed := AList.update host (length (fst s)) (sd_fixed (snd s))\<rparr>)))"

text \<open>\<open>In\<close> and \<open>Out\<close> have the same body; \<open>n\<close> is the generator's limit of the direction.\<close>

definition obtain_limiter ::
  "int \<Rightarrow> scope \<Rightarrow> string \<Rightarrow> int \<Rightarrow> (string \<Rightarrow> int option) \<Rightarrow> int list \<times> limit_side \<Rightarrow>
     nat list option \<times> int list \<times> limit_side" where
  "obtain_limiter t scope key n cidr s =
     (case scope of
        ScopeService \<Rightarrow> (map_option (\<lambda>r. [r]) (map_of (sd_fixed (snd s)) ''$''), s)
      | ScopeClient \<Rightarrow> (None, s)
      | ScopeConn \<Rightarrow>
          (let (own, s1) = conn_limiter t key n s;
               host = fst (SplitHostPort key);
               (addr, s2) = host_limiter host (cidr host) s1;
               lims = own @ addr
           in (if lims = [] then None else Some (sort_key (\<lambda>r. fst s2 ! r) lims), s2)))"

definition traffic_In ::
  "((nat list \<times> nat) list \<Rightarrow> nat list \<Rightarrow> nat option) \<Rightarrow> int \<Rightarrow> scope \<Rightarrow> string \<Rightarrow> traffic_limiter \<Rightarrow>
     nat list option \<times> traffic_limiter" where
  "traffic_In containing t scope key l =
     (case obtain_limiter t scope key (fst (tl_generator l)) (cidr_limit containing fst (tl_cidrs l))
             (tl_store l, tl_inSide l) of
        (g, st, sd) \<Rightarrow> (g, l\<lparr>tl_store := st, tl_inSide := sd\<rparr>))"

definition traffic_Out ::
  "((nat list \<times> nat) list \<Rightarrow> nat list \<Rightarrow> nat option) \<Rightarrow> int \<Rightarrow> scope \<Rightarrow> string \<Rightarrow> traffic_limiter \<Rightarrow>
     nat list option \<times> traffic_limiter" where
  "traffic_Out containing t scope key l =
     (case obtain_limiter t scope key (snd (tl_generator l)) (cidr_limit containing snd (tl_cidrs l))
             (tl_store l, tl_outSide l) of
        (g, st, sd) \<Rightarrow> (g, l\<lparr>tl_store := st, tl_outSide := sd\<rparr>))"

section \<open>Reload\<close>

definition limit_line :: "string \<Rightarrow> string" where
  "limit_line s = trim_space (takeWhile (\<lambda>c. c \<noteq> CHR ''#'') s)"

text \<open>\<open>units.ParseBase2Bytes\<close> gives \<open>bytes\<close>; a size that is not positive, or no size, is 0.\<close>

definition parseTrafficLimit :: "(string \<Rightarrow> int) \<Rightarrow> string \<Rightarrow> string \<times> int \<times> int" where
  "parseTrafficLimit bytes s =
     (case filter (\<lambda>v. v \<noteq> []) (split_on (CHR '' '') (trim_space (blank_tabs s))) of
        key # a # rest \<Rightarrow> (key, max 0 (bytes a), (case rest of [] \<Rightarrow> 0 | b # _ \<Rightarrow> max 0 (bytes b)))
      | _ \<Rightarrow> ([], 0, 0))"

definition load_limits :: "(string \<Rightarrow> int) \<Rightarrow> string list \<Rightarrow> string list \<Rightarrow> (string \<times> (int \<times> int)) list" where
  "load_limits bytes limits loaded =
     fold (\<lambda>s m. case parseTrafficLimit bytes s of (key, v) \<Rightarrow> if key = [] then m else AList.update key v m)
       (limits @ map limit_line loaded) []"

definition set_fixed :: "string \<Rightarrow> int \<Rightarrow> int list \<times> limit_side \<Rightarrow> int list \<times> limit_side" where
  "set_fixed key n s =
     (case map_of (sd_fixed (snd s)) key of
        Some r \<Rightarrow>
          if n \<le> 0 then (fst s, (snd s)\<lparr>sd_fixed := AList.delete key (sd_fixed (snd s))\<rparr>)
          else ((fst s)[r := n], snd s)
      | None \<Rightarrow>
          if n > 0
          then (fst s @ [n], (snd s)\<lparr>sd_fixed := AList.update key (length (fst s)) (sd_fixed (snd s))\<rparr>)
          else s)"

text \<open>The cached limiters of connections are set to the limit before the reload.\<close>

definition conn_reload :: "int \<Rightarrow> int \<Rightarrow> int \<Rightarrow> int list \<times> limit_side \<Rightarrow> int list \<times> limit_side" where
  "conn_reload t old n s =
     (if n \<le> 0 then (fst s, (snd s)\<lparr>sd_conn := []\<rparr>)
      else if old \<noteq> n
      then (fold (\<lambda>(k, r, x) st. if t \<le> x then st[r := old] else st) (sd_conn (snd s)) (fst s), snd s)
      else s)"

definition recheck :: "(string \<Rightarrow> int option) \<Rightarrow> string \<times> nat \<Rightarrow> int list \<times> limit_side \<Rightarrow> int list \<times> limit_side" where
  "recheck cidr kr s =
     (let gone = (fst s, (snd s)\<lparr>sd_fixed := AList.delete (fst kr) (sd_fixed (snd s))\<rparr>)
      in case cidr (fst kr) of
          None \<Rightarrow> gone
        | Some n \<Rightarrow> if n \<le> 0 then gone else ((fst s)[snd kr := n], snd s))"

definition limit_value :: "(string \<times> (int \<times> int)) list \<Rightarrow> string \<Rightarrow> int \<times> int" where
  "limit_value values key = (case map_of values key of Some v \<Rightarrow> v | None \<Rightarrow> (0, 0))"

text \<open>The entries of single addresses, and of networks.\<close>

definition plain_values :: "(string \<times> (int \<times> int)) list \<Rightarrow> (string \<times> (int \<times> int)) list" where
  "plain_values = filter (\<lambda>(k, v). k \<noteq> ''$'' \<and> k \<noteq> ''$$'' \<and> ParseCIDR k = None)"

definition cidr_values :: "(string \<times> (int \<times> int)) list \<Rightarrow> ((nat list \<times> nat) \<times> (int \<times> int)) list" where
  "cidr_values values = List.map_filter (\<lambda>(k, v). if k = ''$'' \<or> k = ''$$'' then None
     else map_option (\<lambda>ipNet. (ipNet, v)) (ParseCIDR k)) values"

definition side_reload ::
  "int \<Rightarrow> (int \<times> int \<Rightarrow> int) \<Rightarrow> int \<Rightarrow> (string \<Rightarrow> int option) \<Rightarrow> (string \<times> (int \<times> int)) list \<Rightarrow>
     int list \<times> limit_side \<Rightarrow> int list \<times> limit_side" where
  "side_reload t pick old cidr values s =
     (let s1 = set_fixed ''$'' (pick (limit_value values ''$'')) s;
          s2 = conn_reload t old (pick (limit_value values ''$$'')) s1;
          plain = plain_values values;
          remaining = filter (\<lambda>(k, r). k \<noteq> ''$'' \<and> k \<notin> set (map fst plain)) (sd_fixed (snd s2));
          s3 = fold (\<lambda>(k, v). set_fixed k (pick v)) plain s2
      in fold (recheck cidr) remaining s3)"

definition traffic_reload ::
  "((nat list \<times> nat) list \<Rightarrow> nat list \<Rightarrow> nat option) \<Rightarrow> int \<Rightarrow> (string \<times> (int \<times> int)) list \<Rightarrow>
     traffic_limiter \<Rightarrow> traffic_limiter" where
  "traffic_reload containing t values l =
     (let cidrs = cidr_values values;
          (st1, inSide) = side_reload t fst (fst (tl_generator l)) (cidr_limit containing fst cidrs) values
            (tl_store l, tl_inSide l);
          (st2, outSide) = side_reload t snd (snd (tl_generator l)) (cidr_limit containing snd cidrs) values
            (st1, tl_outSide l)
      in \<lparr>tl_store = st2, tl_generator = limit_value values ''$$'', tl_cidrs = cidrs,
          tl_inSide = inSide, tl_outSide = outSide\<rparr>)"

section \<open>The cached limiter\<close>

text \<open>One key of \<open>cachedTrafficLimiter\<close>: the item, if there is one, is a limiter or none and the time
  of its expiry. \<open>fresh\<close> is what the limiter below answers and \<open>limit\<close> reads the limit of one.\<close>

type_synonym 'l cached = "('l option \<times> int) option"

definition cached_In ::
  "('l \<Rightarrow> int) \<Rightarrow> int \<Rightarrow> int \<Rightarrow> 'l option \<Rightarrow> 'l cached \<Rightarrow> 'l option \<times> 'l cached" where
  "cached_In limit refresh t fresh item =
     (let kept = (case item of Some (v, _) \<Rightarrow> v | None \<Rightarrow> None);
          expired = (case item of Some (_, x) \<Rightarrow> x > 0 \<and> t > x | None \<Rightarrow> True);
          limNew = (case fresh of None \<Rightarrow> kept | Some v \<Rightarrow> Some v);
          same = (case (kept, limNew) of
            (Some a, Some b) \<Rightarrow> limit a = limit b | (None, None) \<Rightarrow> True | _ \<Rightarrow> False)
      in if \<not> expired then (kept, item)
         else if item = None \<or> \<not> same then (limNew, Some (limNew, t + refresh))
         else (kept, Some (kept, t + refresh)))"

section \<open>The limited connection\<close>

text \<open>\<open>Read\<close> with the limits of the group in force, or none: the bytes it returns and the new buffer.
  \<open>room\<close> is the length of the reader's buffer and \<open>arrives\<close> what the connection below gives, at most
  \<open>room\<close> bytes, with its error.\<close>

definition unlimited :: "int list option \<Rightarrow> bool" where
  "unlimited gl \<longleftrightarrow> (case gl of None \<Rightarrow> True | Some limits \<Rightarrow> rate_Limit limits \<le> 0)"

definition limited_Read ::
  "int list option \<Rightarrow> nat \<Rightarrow> string \<Rightarrow> bool \<Rightarrow> string \<Rightarrow> string \<times> string \<times> bool" where
  "limited_Read gl room arrives failed rbuf =
     (let limits = (case gl of Some ls \<Rightarrow> ls | None \<Rightarrow> [])
      in if unlimited gl then (arrives, rbuf, True)
         else if rbuf \<noteq> [] then
           (let n = group_Wait limits (min room (length rbuf)) in (take n rbuf, drop n rbuf, False))
         else if failed then (arrives, rbuf, True)
         else (let n = group_Wait limits (length arrives) in (take n arrives, drop n arrives, True)))"

text \<open>\<open>Write\<close>: the chunks that go to the connection below, which takes all it is given, or \<open>None\<close>
  when a limiter lets nothing pass, so that the loop does not end.\<close>

function limited_Write :: "int list option \<Rightarrow> string \<Rightarrow> string list option" where
  "limited_Write gl b =
     (if unlimited gl then Some [b]
      else if b = [] then Some []
      else
        (let n = group_Wait (case gl of Some ls \<Rightarrow> ls | None \<Rightarrow> []) (length b)
         in if n = 0 then None else map_option ((#) (take n b)) (limited_Write gl (drop n b))))"
  by pat_completeness auto
termination by (relation "measure (\<lambda>(_, b). length b)") auto

declare limited_Write.simps [simp del]

text \<open>A packet that exceeds the limit is dropped.\<close>

definition packet_passes :: "int list option \<Rightarrow> nat \<Rightarrow> bool" where
  "packet_passes gl n \<longleftrightarrow>
     unlimited gl \<or> group_Wait (case gl of Some ls \<Rightarrow> ls | None \<Rightarrow> []) n = n"

section \<open>Reading and writing\<close>

lemma limiter_Wait_le: "limiter_Wait a n \<le> n"
  by (auto simp: limiter_Wait_def)

lemma group_Wait_Nil [simp]: "group_Wait [] n = n"
  by (simp add: group_Wait_def)

lemma group_Wait_Cons [simp]: "group_Wait (a # limits) n = group_Wait limits (limiter_Wait a n)"
  using limiter_Wait_le [of a n] by (simp add: group_Wait_def Let_def)

lemma group_Wait_le: "group_Wait limits n \<le> n"
proof (induction limits arbitrary: n)
  case (Cons a limits)
  have "group_Wait limits (limiter_Wait a n) \<le> limiter_Wait a n" by (rule Cons.IH)
  with limiter_Wait_le [of a n] show ?case by simp
qed simp

lemma group_Wait_limit: "l \<in> set limits \<Longrightarrow> 0 < l \<Longrightarrow> int (group_Wait limits n) \<le> l"
proof (induction limits arbitrary: n)
  case (Cons a limits)
  show ?case
  proof (cases "l = a")
    case True
    then have "int (limiter_Wait a n) \<le> l" using Cons.prems(2) by (auto simp: limiter_Wait_def)
    with group_Wait_le [of limits "limiter_Wait a n"] show ?thesis by simp
  next
    case False
    then show ?thesis using Cons by simp
  qed
qed simp

lemma group_Wait_pos: "\<forall>l \<in> set limits. 0 < l \<Longrightarrow> 0 < n \<Longrightarrow> 0 < group_Wait limits n"
  by (induction limits arbitrary: n) (auto simp: limiter_Wait_def)

text \<open>Property: a write through a limiter ends and sends all its bytes in order, in chunks within every
  limit.\<close>

theorem limited_write_complete:
  assumes pos: "\<forall>l \<in> set limits. 0 < l" and "limits \<noteq> []"
  shows "\<exists>chunks. limited_Write (Some limits) b = Some chunks \<and> concat chunks = b \<and>
    (\<forall>chunk \<in> set chunks. \<forall>l \<in> set limits. int (length chunk) \<le> l)"
proof (induction b rule: length_induct)
  case (1 b)
  have lim: "\<not> unlimited (Some limits)"
    using assms by (cases limits) (auto simp: unlimited_def rate_Limit_def)
  show ?case
  proof (cases "b = []")
    case True
    then show ?thesis using lim by (simp add: limited_Write.simps [of "Some limits" "[]"])
  next
    case False
    let ?n = "group_Wait limits (length b)"
    have n: "0 < ?n" using group_Wait_pos [OF pos] False by simp
    then have "length (drop ?n b) < length b" using False by simp
    with "1.IH" obtain chunks where rest: "limited_Write (Some limits) (drop ?n b) = Some chunks"
      "concat chunks = drop ?n b" "\<forall>chunk \<in> set chunks. \<forall>l \<in> set limits. int (length chunk) \<le> l"
      by blast
    have "limited_Write (Some limits) b = Some (take ?n b # chunks)"
      using lim False n rest(1) by (simp add: limited_Write.simps [of "Some limits" b] Let_def)
    moreover have "int (length (take ?n b)) \<le> l" if "l \<in> set limits" for l
      using group_Wait_limit [OF that, of "length b"] pos that by simp
    ultimately show ?thesis using rest(2,3) by (intro exI [of _ "take ?n b # chunks"]) simp
  qed
qed









text \<open>Property: a limiter that is removed stays in force for a key that has it cached.\<close>

theorem removed_limit_stays:
  "cached_In limit refresh t None (Some (Some v, x)) = (found, item) \<Longrightarrow> found = Some v"
  by (auto simp: cached_In_def Let_def split: if_splits)

text \<open>Property: a read without a limiter passes over bytes that wait in the buffer.\<close>

theorem unlimited_read_reorders: "limited_Read None room arrives failed (c # cs) = (arrives, c # cs, True)"
  by (simp add: limited_Read_def unlimited_def)

section \<open>What a reload does\<close>

text \<open>The limit in force for a key of a table, and a table whose limiters are its own: \<open>X\<close> are those of
  others.\<close>

definition limit_of :: "int list \<times> limit_side \<Rightarrow> string \<Rightarrow> int option" where
  "limit_of s key = map_option (\<lambda>r. fst s ! r) (map_of (sd_fixed (snd s)) key)"

definition fixed_ok :: "nat set \<Rightarrow> int list \<times> limit_side \<Rightarrow> bool" where
  "fixed_ok X s \<longleftrightarrow> distinct (map fst (sd_fixed (snd s))) \<and>
     inj_on (map_of (sd_fixed (snd s))) (dom (map_of (sd_fixed (snd s)))) \<and>
     ran (map_of (sd_fixed (snd s))) \<subseteq> {..<length (fst s)} - X \<and> X \<subseteq> {..<length (fst s)}"

text \<open>A step on a table that leaves the limiters of others and the cache of connections alone.\<close>

definition table_step :: "nat set \<Rightarrow> int list \<times> limit_side \<Rightarrow> int list \<times> limit_side \<Rightarrow> bool" where
  "table_step X s s' \<longleftrightarrow> fixed_ok X s' \<and> (\<forall>r \<in> X. fst s' ! r = fst s ! r) \<and>
     length (fst s) \<le> length (fst s') \<and> sd_conn (snd s') = sd_conn (snd s) \<and>
     ran (map_of (sd_fixed (snd s'))) \<subseteq> ran (map_of (sd_fixed (snd s))) \<union> {length (fst s)..<length (fst s')}"

lemma table_step_refl: "fixed_ok X s \<Longrightarrow> table_step X s s"
  by (simp add: table_step_def)

lemma table_step_trans:
  assumes a: "table_step X s s'" and b: "table_step X s' s''"
  shows "table_step X s s''"
proof -
  have l: "length (fst s) \<le> length (fst s')" "length (fst s') \<le> length (fst s'')"
    using a b by (simp_all add: table_step_def)
  have "ran (map_of (sd_fixed (snd s''))) \<subseteq>
      ran (map_of (sd_fixed (snd s))) \<union> {length (fst s)..<length (fst s')} \<union> {length (fst s')..<length (fst s'')}"
    using a b unfolding table_step_def by blast
  also have "\<dots> \<subseteq> ran (map_of (sd_fixed (snd s))) \<union> {length (fst s)..<length (fst s'')}"
    using l by auto
  finally show ?thesis using a b l by (simp add: table_step_def)
qed

definition positive :: "int \<Rightarrow> int option" where
  "positive n = (if 0 < n then Some n else None)"

lemma fixed_ok_delete:
  assumes "fixed_ok X (st, sd)"
  shows "table_step X (st, sd) (st, sd\<lparr>sd_fixed := AList.delete k (sd_fixed sd)\<rparr>)"
    and "limit_of (st, sd\<lparr>sd_fixed := AList.delete k (sd_fixed sd)\<rparr>) = (limit_of (st, sd))(k := None)"
proof -
  let ?F = "map_of (sd_fixed sd)"
  have "inj_on (?F(k := None)) (dom (?F(k := None)))"
    using assms by (auto simp: fixed_ok_def inj_on_def dom_def)
  moreover have "ran (?F(k := None)) \<subseteq> ran ?F" by (auto simp: ran_def)
  ultimately show "table_step X (st, sd) (st, sd\<lparr>sd_fixed := AList.delete k (sd_fixed sd)\<rparr>)"
    using assms by (auto simp: table_step_def fixed_ok_def AList.delete_conv' distinct_delete)
  show "limit_of (st, sd\<lparr>sd_fixed := AList.delete k (sd_fixed sd)\<rparr>) = (limit_of (st, sd))(k := None)"
    by (rule ext) (simp add: limit_of_def AList.delete_conv')
qed

lemma fixed_ok_set:
  assumes "fixed_ok X (st, sd)" and "map_of (sd_fixed sd) k = Some r"
  shows "table_step X (st, sd) (st[r := n], sd)"
    and "limit_of (st[r := n], sd) = (limit_of (st, sd))(k := Some n)"
proof -
  let ?F = "map_of (sd_fixed sd)"
  have r: "r \<in> ran ?F" using assms(2) by (auto simp: ran_def)
  with assms(1) have len: "r < length st" and "r \<notin> X" by (auto simp: fixed_ok_def)
  then have "\<forall>x \<in> X. st[r := n] ! x = st ! x" by (metis nth_list_update_neq)
  then show "table_step X (st, sd) (st[r := n], sd)"
    using assms(1) by (simp add: table_step_def fixed_ok_def)
  show "limit_of (st[r := n], sd) = (limit_of (st, sd))(k := Some n)"
  proof
    fix k'
    have "?F k' = Some r \<Longrightarrow> k' = k"
      using assms by (auto simp: fixed_ok_def inj_on_def dom_def)
    then show "limit_of (st[r := n], sd) k' = ((limit_of (st, sd))(k := Some n)) k'"
      using assms(2) len by (cases "?F k'") (auto simp: limit_of_def nth_list_update)
  qed
qed

lemma fixed_ok_new:
  assumes "fixed_ok X (st, sd)"
  shows "table_step X (st, sd) (st @ [n], sd\<lparr>sd_fixed := AList.update k (length st) (sd_fixed sd)\<rparr>)"
    and "limit_of (st @ [n], sd\<lparr>sd_fixed := AList.update k (length st) (sd_fixed sd)\<rparr>) =
      (limit_of (st, sd))(k := Some n)"
proof -
  let ?F = "map_of (sd_fixed sd)"
  have sub: "ran ?F \<subseteq> {..<length st} - X" using assms by (simp add: fixed_ok_def)
  have old: "r < length st \<and> r \<notin> X" if "?F j = Some r" for j r
  proof -
    from that have "r \<in> ran ?F" by (rule ranI)
    with sub have "r \<in> {..<length st} - X" by (rule subsetD)
    then show ?thesis by simp
  qed
  have "inj_on (?F(k \<mapsto> length st)) (dom (?F(k \<mapsto> length st)))"
  proof (rule inj_onI)
    fix a b
    assume "a \<in> dom (?F(k \<mapsto> length st))" and "b \<in> dom (?F(k \<mapsto> length st))"
      and eq: "(?F(k \<mapsto> length st)) a = (?F(k \<mapsto> length st)) b"
    then have d: "a \<noteq> k \<Longrightarrow> a \<in> dom ?F" "b \<noteq> k \<Longrightarrow> b \<in> dom ?F" by auto
    have "?F j \<noteq> Some (length st)" for j using old [of j "length st"] by auto
    with eq have "a = k \<longleftrightarrow> b = k" by (metis fun_upd_other fun_upd_same)
    moreover have "inj_on ?F (dom ?F)" using assms by (simp add: fixed_ok_def)
    ultimately show "a = b" using d eq by (cases "a = k") (simp_all add: inj_on_eq_iff)
  qed
  moreover have "ran (?F(k \<mapsto> length st)) \<subseteq> {..<Suc (length st)} - X"
  proof
    fix r assume "r \<in> ran (?F(k \<mapsto> length st))"
    then have "r = length st \<or> (\<exists>j. ?F j = Some r)" by (auto simp: ran_def split: if_splits)
    moreover have "length st \<notin> X" using assms by (auto simp: fixed_ok_def)
    ultimately show "r \<in> {..<Suc (length st)} - X" using old less_SucI by blast
  qed
  moreover have "X \<subseteq> {..<Suc (length st)}" using assms by (auto simp: fixed_ok_def)
  moreover have "ran (?F(k \<mapsto> length st)) \<subseteq> ran ?F \<union> {length st..<Suc (length st)}"
    by (auto simp: ran_def split: if_splits)
  moreover have "distinct (map fst (AList.update k (length st) (sd_fixed sd)))"
    using assms by (simp add: fixed_ok_def distinct_update)
  moreover have "\<forall>r \<in> X. (st @ [n]) ! r = st ! r" using assms by (auto simp: fixed_ok_def nth_append)
  ultimately show "table_step X (st, sd) (st @ [n], sd\<lparr>sd_fixed := AList.update k (length st) (sd_fixed sd)\<rparr>)"
    by (simp add: table_step_def fixed_ok_def AList.update_conv')
  show "limit_of (st @ [n], sd\<lparr>sd_fixed := AList.update k (length st) (sd_fixed sd)\<rparr>) =
      (limit_of (st, sd))(k := Some n)"
  proof
    fix j
    show "limit_of (st @ [n], sd\<lparr>sd_fixed := AList.update k (length st) (sd_fixed sd)\<rparr>) j =
        ((limit_of (st, sd))(k := Some n)) j"
      using old by (cases "?F j") (auto simp: limit_of_def AList.update_conv' nth_append)
  qed
qed

lemma set_fixed_step:
  assumes "fixed_ok X s"
  shows "table_step X s (set_fixed k n s)" and "limit_of (set_fixed k n s) = (limit_of s)(k := positive n)"
proof -
  obtain st sd where s: "s = (st, sd)" by force
  have ok: "fixed_ok X (st, sd)" using assms s by simp
  have none: "map_of (sd_fixed sd) k = None \<Longrightarrow> (limit_of (st, sd))(k := None) = limit_of (st, sd)"
    by (rule ext) (simp add: limit_of_def)
  show "table_step X s (set_fixed k n s)"
    unfolding s set_fixed_def
    using fixed_ok_delete(1) [OF ok] fixed_ok_set(1) [OF ok] fixed_ok_new(1) [OF ok] table_step_refl [OF ok]
    by (auto split: option.split)
  show "limit_of (set_fixed k n s) = (limit_of s)(k := positive n)"
    unfolding s set_fixed_def positive_def
    using fixed_ok_delete(2) [OF ok] fixed_ok_set(2) [OF ok] fixed_ok_new(2) [OF ok] none
    by (auto split: option.split)
qed

lemma fold_set_fixed:
  assumes "fixed_ok X s" and "distinct (map fst kvs)"
  shows "table_step X s (fold (\<lambda>(k, v). set_fixed k (pick v)) kvs s) \<and>
    limit_of (fold (\<lambda>(k, v). set_fixed k (pick v)) kvs s) =
      (\<lambda>k. case map_of kvs k of Some v \<Rightarrow> positive (pick v) | None \<Rightarrow> limit_of s k)"
  using assms
proof (induction kvs arbitrary: s)
  case Nil
  then show ?case by (simp add: table_step_refl)
next
  case (Cons kv kvs)
  obtain k v where kv: "kv = (k, v)" by force
  note one = set_fixed_step [OF Cons.prems(1), of k "pick v"]
  have ok: "fixed_ok X (set_fixed k (pick v) s)" using one(1) by (simp add: table_step_def)
  have new: "map_of kvs k = None" using Cons.prems(2) kv by (simp add: map_of_eq_None_iff)
  from Cons.IH [OF ok] Cons.prems(2)
  have step: "table_step X (set_fixed k (pick v) s) (fold (\<lambda>(k, v). set_fixed k (pick v)) kvs (set_fixed k (pick v) s))"
    and lim: "limit_of (fold (\<lambda>(k, v). set_fixed k (pick v)) kvs (set_fixed k (pick v) s)) =
      (\<lambda>k'. case map_of kvs k' of Some v \<Rightarrow> positive (pick v) | None \<Rightarrow> limit_of (set_fixed k (pick v) s) k')"
    by auto
  have "limit_of (fold (\<lambda>(k, v). set_fixed k (pick v)) (kv # kvs) s) =
      (\<lambda>k'. case map_of (kv # kvs) k' of Some v \<Rightarrow> positive (pick v) | None \<Rightarrow> limit_of s k')"
    using new by (auto simp: kv lim one(2) fun_eq_iff split: option.split)
  with table_step_trans [OF one(1) step] show ?case by (simp add: kv)
qed

text \<open>The table at the time of the snapshot still holds the limiters that are rechecked.\<close>

lemma recheck_step:
  assumes "fixed_ok X s" and "map_of (sd_fixed (snd s)) k = Some r"
  shows "table_step X s (recheck cidr (k, r) s)"
    and "limit_of (recheck cidr (k, r) s) = (limit_of s)(k := Option.bind (cidr k) positive)"
    and "k' \<noteq> k \<Longrightarrow> map_of (sd_fixed (snd (recheck cidr (k, r) s))) k' = map_of (sd_fixed (snd s)) k'"
proof -
  obtain st sd where s: "s = (st, sd)" by force
  have ok: "fixed_ok X (st, sd)" and m: "map_of (sd_fixed sd) k = Some r" using assms s by simp_all
  show "table_step X s (recheck cidr (k, r) s)"
    unfolding s recheck_def
    using fixed_ok_delete(1) [OF ok] fixed_ok_set(1) [OF ok m] by (auto simp: Let_def split: option.split)
  show "limit_of (recheck cidr (k, r) s) = (limit_of s)(k := Option.bind (cidr k) positive)"
    unfolding s recheck_def
    using fixed_ok_delete(2) [OF ok] fixed_ok_set(2) [OF ok m]
    by (auto simp: Let_def positive_def split: option.split)
  show "k' \<noteq> k \<Longrightarrow> map_of (sd_fixed (snd (recheck cidr (k, r) s))) k' = map_of (sd_fixed (snd s)) k'"
    by (simp add: s recheck_def Let_def AList.delete_conv' split: option.split)
qed

lemma fold_recheck:
  assumes "fixed_ok X s" and "distinct (map fst krs)"
    and "\<forall>(k, r) \<in> set krs. map_of (sd_fixed (snd s)) k = Some r"
  shows "table_step X s (fold (recheck cidr) krs s) \<and>
    limit_of (fold (recheck cidr) krs s) =
      (\<lambda>k. if k \<in> set (map fst krs) then Option.bind (cidr k) positive else limit_of s k)"
  using assms
proof (induction krs arbitrary: s)
  case Nil
  then show ?case by (simp add: table_step_refl)
next
  case (Cons kr krs)
  obtain k r where kr: "kr = (k, r)" by force
  have m: "map_of (sd_fixed (snd s)) k = Some r" using Cons.prems(3) kr by simp
  note one = recheck_step [OF Cons.prems(1) m, where cidr = cidr]
  let ?s = "recheck cidr (k, r) s"
  have ok: "fixed_ok X ?s" using one(1) by (simp add: table_step_def)
  have rest: "\<forall>(k', r') \<in> set krs. map_of (sd_fixed (snd ?s)) k' = Some r'"
  proof (clarify)
    fix k' r' assume in': "(k', r') \<in> set krs"
    then have "k' \<noteq> k" using Cons.prems(2) kr by (auto simp: image_iff)
    then show "map_of (sd_fixed (snd ?s)) k' = Some r'" using one(3) Cons.prems(3) in' by auto
  qed
  have d: "distinct (map fst krs)" and new: "k \<notin> set (map fst krs)" using Cons.prems(2) kr by auto
  from Cons.IH [OF ok d rest] have step: "table_step X ?s (fold (recheck cidr) krs ?s)"
    and lim: "limit_of (fold (recheck cidr) krs ?s) =
      (\<lambda>k. if k \<in> set (map fst krs) then Option.bind (cidr k) positive else limit_of ?s k)" by auto
  have "limit_of (fold (recheck cidr) (kr # krs) s) =
      (\<lambda>k. if k \<in> set (map fst (kr # krs)) then Option.bind (cidr k) positive else limit_of s k)"
    using new by (auto simp: kr lim one(2) fun_eq_iff)
  with table_step_trans [OF one(1) step] show ?case by (simp add: kr)
qed

section \<open>The limits after a reload\<close>

definition conn_refs :: "limit_side \<Rightarrow> nat set" where
  "conn_refs sd = (\<lambda>(k, r, x). r) ` set (sd_conn sd)"

definition side_refs :: "limit_side \<Rightarrow> nat set" where
  "side_refs sd = conn_refs sd \<union> ran (map_of (sd_fixed sd))"

text \<open>A side next to the limiters \<open>X\<close> of the other one, and what one of its operations may do.\<close>

definition side_ok :: "nat set \<Rightarrow> int list \<times> limit_side \<Rightarrow> bool" where
  "side_ok X s \<longleftrightarrow> fixed_ok (conn_refs (snd s) \<union> X) s \<and> conn_refs (snd s) \<inter> X = {}"

definition side_step :: "nat set \<Rightarrow> int list \<times> limit_side \<Rightarrow> int list \<times> limit_side \<Rightarrow> bool" where
  "side_step X s s' \<longleftrightarrow> side_ok X s' \<and> (\<forall>r \<in> X. fst s' ! r = fst s ! r) \<and>
     length (fst s) \<le> length (fst s') \<and>
     side_refs (snd s') \<subseteq> side_refs (snd s) \<union> {length (fst s)..<length (fst s')}"

lemma side_step_refl: "side_ok X s \<Longrightarrow> side_step X s s"
  by (simp add: side_step_def)

lemma side_step_trans:
  assumes a: "side_step X s s'" and b: "side_step X s' s''"
  shows "side_step X s s''"
proof -
  have l: "length (fst s) \<le> length (fst s')" "length (fst s') \<le> length (fst s'')"
    using a b by (simp_all add: side_step_def)
  have "side_refs (snd s'') \<subseteq>
      side_refs (snd s) \<union> {length (fst s)..<length (fst s')} \<union> {length (fst s')..<length (fst s'')}"
    using a b unfolding side_step_def by blast
  also have "\<dots> \<subseteq> side_refs (snd s) \<union> {length (fst s)..<length (fst s'')}"
    using l by auto
  finally show ?thesis using a b l by (simp add: side_step_def)
qed

lemma table_side_step:
  assumes "table_step (conn_refs (snd s) \<union> X) s s'" and "conn_refs (snd s) \<inter> X = {}"
  shows "side_step X s s'"
proof -
  have c: "conn_refs (snd s') = conn_refs (snd s)" using assms by (simp add: table_step_def conn_refs_def)
  have "side_refs (snd s') \<subseteq> side_refs (snd s) \<union> {length (fst s)..<length (fst s')}"
    using assms c unfolding table_step_def side_refs_def by blast
  then show ?thesis using assms c by (simp add: side_step_def side_ok_def table_step_def)
qed

text \<open>A change of the limiters of connections, and of their cache.\<close>

lemma fold_conn_set:
  "length (fold (\<lambda>(k, r, x) st. if t \<le> x then st[r := old] else st) items st) = length st"
  "j \<notin> (\<lambda>(k, r, x). r) ` set items \<Longrightarrow>
    fold (\<lambda>(k, r, x) st. if t \<le> x then st[r := old] else st) items st ! j = st ! j"
  by (induction items arbitrary: st) (auto split: prod.splits)

lemma conn_reload_step:
  assumes "side_ok X s"
  shows "side_step X s (conn_reload t old n s)" and "limit_of (conn_reload t old n s) = limit_of s"
    and "sd_fixed (snd (conn_reload t old n s)) = sd_fixed (snd s)"
proof -
  let ?F = "map_of (sd_fixed (snd s))"
  let ?s = "conn_reload t old n s"
  show F: "sd_fixed (snd ?s) = sd_fixed (snd s)" by (simp add: conn_reload_def)
  have c: "conn_refs (snd ?s) \<subseteq> conn_refs (snd s)" by (auto simp: conn_reload_def conn_refs_def)
  have len: "length (fst ?s) = length (fst s)" by (simp add: conn_reload_def fold_conn_set)
  have same: "fst ?s ! r = fst s ! r" if "r \<notin> conn_refs (snd s)" for r
    using that by (simp add: conn_reload_def fold_conn_set conn_refs_def)
  show "limit_of ?s = limit_of s"
  proof
    fix k
    have "r \<notin> conn_refs (snd s)" if "?F k = Some r" for r
      using assms ranI [of ?F k r] that by (auto simp: side_ok_def fixed_ok_def)
    then show "limit_of ?s k = limit_of s k"
      by (cases "?F k") (simp_all add: limit_of_def F same)
  qed
  have X: "fst ?s ! r = fst s ! r" if "r \<in> X" for r
    using that assms by (intro same) (auto simp: side_ok_def)
  have "fixed_ok (conn_refs (snd ?s) \<union> X) ?s"
    using assms c by (auto simp: side_ok_def fixed_ok_def F len)
  with assms c have ok: "side_ok X ?s" by (auto simp: side_ok_def)
  have "side_refs (snd ?s) \<subseteq> side_refs (snd s)" using c by (auto simp: side_refs_def F)
  with ok X show "side_step X s ?s" by (auto simp: side_step_def len)
qed

lemma conn_refs_update:
  "conn_refs (sd\<lparr>sd_conn := AList.update k (r, x) (sd_conn sd)\<rparr>) \<subseteq> insert r (conn_refs sd)"
proof -
  have upd: "set (AList.update k v l) \<subseteq> insert (k, v) (set l)" for k :: string and v :: "nat \<times> int" and l
    by (induction l) auto
  have "conn_refs (sd\<lparr>sd_conn := AList.update k (r, x) (sd_conn sd)\<rparr>) \<subseteq>
      (\<lambda>(k, r, x). r) ` insert (k, r, x) (set (sd_conn sd))"
    unfolding conn_refs_def using upd [of k "(r, x)" "sd_conn sd"] by (intro image_mono) simp
  then show ?thesis by (simp add: conn_refs_def)
qed

lemma cache_live_ref:
  assumes "cache_live t (sd_conn sd) k = Some r"
  shows "r \<in> conn_refs sd"
proof -
  from assms obtain x where "map_of (sd_conn sd) k = Some (r, x)"
    by (auto simp: cache_live_def split: option.splits if_splits)
  then have "(k, r, x) \<in> set (sd_conn sd)" by (rule map_of_SomeD)
  then show ?thesis unfolding conn_refs_def by (intro image_eqI) simp_all
qed

lemma conn_limiter_step:
  assumes ok: "side_ok X s" and lim: "conn_limiter t key n s = (rs, s')"
  shows "side_step X s s'" and "limit_of s' = limit_of s"
proof -
  obtain st sd where s: "s = (st, sd)" by force
  let ?F = "map_of (sd_fixed sd)"
  have ran: "r < length st" if "?F k = Some r" for k r
    using ok ranI [of ?F k r] that by (auto simp: s side_ok_def fixed_ok_def)
  have below: "conn_refs sd \<union> X \<subseteq> {..<length st}" using ok by (simp add: s side_ok_def fixed_ok_def)
  show "limit_of s' = limit_of s"
  proof
    fix k
    show "limit_of s' k = limit_of s k"
      using lim ran by (cases "?F k") (auto simp: s conn_limiter_def limit_of_def nth_append split: option.splits if_splits)
  qed
  consider (hit) r where "cache_live t (sd_conn sd) key = Some r"
      "s' = (st, sd\<lparr>sd_conn := AList.update key (r, expires t) (sd_conn sd)\<rparr>)"
    | (none) "s' = s"
    | (new) "s' = (st @ [n], sd\<lparr>sd_conn := AList.update key (length st, expires t) (sd_conn sd)\<rparr>)"
    using lim by (auto simp: s conn_limiter_def split: option.splits if_splits)
  then show "side_step X s s'"
  proof cases
    case hit
    have "conn_refs (snd s') \<subseteq> conn_refs sd"
      using conn_refs_update [where sd = sd and k = key and r = r and x = "expires t"] cache_live_ref [OF hit(1)] by (auto simp: hit(2))
    then show ?thesis using ok by (auto simp: s hit(2) side_step_def side_ok_def fixed_ok_def side_refs_def)
  next
    case none
    then show ?thesis using ok by (simp add: side_step_refl)
  next
    case new
    have c: "conn_refs (snd s') \<subseteq> insert (length st) (conn_refs sd)"
      using conn_refs_update [where sd = sd and k = key and r = "length st" and x = "expires t"] by (simp add: new)
    have "length st \<notin> ran ?F" using ran by (auto simp: ran_def)
    with c below ok show ?thesis
      by (fastforce simp: s new side_step_def side_ok_def fixed_ok_def side_refs_def nth_append less_Suc_eq)
  qed
qed

lemma host_limiter_step:
  assumes ok: "side_ok X s" and lim: "host_limiter host cidr s = (rs, s')"
  shows "side_step X s s'"
    and "limit_of s' = (if limit_of s host = None then (limit_of s)(host := Option.bind cidr positive) else limit_of s)"
proof -
  obtain st sd where s: "s = (st, sd)" by force
  have tab: "fixed_ok (conn_refs sd \<union> X) (st, sd)" and dis: "conn_refs (snd s) \<inter> X = {}"
    using ok by (simp_all add: s side_ok_def)
  have keep: "(limit_of (st, sd))(host := None) = limit_of (st, sd)" if "map_of (sd_fixed sd) host = None"
    using that by (auto simp: limit_of_def fun_eq_iff)
  have "table_step (conn_refs (snd s) \<union> X) s s'"
    using lim fixed_ok_new(1) [OF tab] table_step_refl [OF tab]
    by (auto simp: s host_limiter_def split: option.splits if_splits)
  then show "side_step X s s'" using dis by (rule table_side_step)
  show "limit_of s' = (if limit_of s host = None then (limit_of s)(host := Option.bind cidr positive) else limit_of s)"
    using lim fixed_ok_new(2) [OF tab] keep
    by (auto simp: s host_limiter_def limit_of_def [of _ host] positive_def split: option.splits if_splits)
qed

lemma obtain_step:
  assumes ok: "side_ok X s" and lim: "obtain_limiter t scope key n cidr s = (g, s')"
  shows "side_step X s s'"
proof (cases scope)
  case ScopeConn
  obtain own s1 where one: "conn_limiter t key n s = (own, s1)" by (metis surj_pair)
  obtain addr s2 where two: "host_limiter (fst (SplitHostPort key)) (cidr (fst (SplitHostPort key))) s1 = (addr, s2)"
    by (metis surj_pair)
  note first = conn_limiter_step(1) [OF ok one]
  then have "side_ok X s1" by (simp add: side_step_def)
  from side_step_trans [OF first host_limiter_step(1) [OF this two]] show ?thesis
    using lim by (simp add: ScopeConn obtain_limiter_def one two Let_def)
qed (use ok lim in \<open>auto simp: obtain_limiter_def side_step_refl\<close>)

lemma plain_distinct: "distinct (map fst vs) \<Longrightarrow> distinct (map fst (plain_values vs))"
  by (induction vs) (auto simp: plain_values_def)

lemma set_fixed_other: "k \<noteq> k' \<Longrightarrow> map_of (sd_fixed (snd (set_fixed k' n s))) k = map_of (sd_fixed (snd s)) k"
  by (auto simp: set_fixed_def AList.delete_conv' AList.update_conv' split: option.splits)

lemma fold_set_fixed_other:
  "k \<notin> set (map fst kvs) \<Longrightarrow>
    map_of (sd_fixed (snd (fold (\<lambda>(k, v). set_fixed k (pick v)) kvs s))) k = map_of (sd_fixed (snd s)) k"
  by (induction kvs arbitrary: s) (auto simp: set_fixed_other split: prod.splits)

lemma side_reload_step:
  assumes ok: "side_ok X s" and dv: "distinct (map fst vs)"
  shows "side_step X s (side_reload t pick old cidr vs s)"
    and "limit_of (side_reload t pick old cidr vs s) = (\<lambda>k.
      if k = ''$'' then positive (pick (limit_value vs ''$''))
      else case map_of (plain_values vs) k of
          Some v \<Rightarrow> positive (pick v)
        | None \<Rightarrow> if limit_of s k = None then None else Option.bind (cidr k) positive)"
proof -
  let ?s1 = "set_fixed ''$'' (pick (limit_value vs ''$'')) s"
  let ?s2 = "conn_reload t old (pick (limit_value vs ''$$'')) ?s1"
  let ?plain = "plain_values vs"
  let ?rem = "filter (\<lambda>(k, r). k \<noteq> ''$'' \<and> k \<notin> set (map fst ?plain)) (sd_fixed (snd ?s2))"
  let ?s3 = "fold (\<lambda>(k, v). set_fixed k (pick v)) ?plain ?s2"
  have re: "side_reload t pick old cidr vs s = fold (recheck cidr) ?rem ?s3"
    by (simp add: side_reload_def Let_def)
  have tab: "fixed_ok (conn_refs (snd s) \<union> X) s" and dis: "conn_refs (snd s) \<inter> X = {}"
    using ok by (simp_all add: side_ok_def)
  note one = table_side_step [OF set_fixed_step(1) [OF tab] dis]
  have ok1: "side_ok X ?s1" using one by (simp add: side_step_def)
  note two = conn_reload_step [OF ok1]
  have ok2: "side_ok X ?s2" using two(1) by (simp add: side_step_def)
  then have tab2: "fixed_ok (conn_refs (snd ?s2) \<union> X) ?s2" and dis2: "conn_refs (snd ?s2) \<inter> X = {}"
    by (simp_all add: side_ok_def)
  have three: "table_step (conn_refs (snd ?s2) \<union> X) ?s2 ?s3"
    and lim3: "limit_of ?s3 = (\<lambda>k. case map_of ?plain k of Some v \<Rightarrow> positive (pick v) | None \<Rightarrow> limit_of ?s2 k)"
    using fold_set_fixed [OF tab2 plain_distinct [OF dv], where pick = pick] by blast+
  have tab3: "fixed_ok (conn_refs (snd ?s2) \<union> X) ?s3" using three by (simp add: table_step_def)
  have d: "distinct (map fst (sd_fixed (snd ?s2)))" using tab2 by (simp add: fixed_ok_def)
  then have drem: "distinct (map fst ?rem)" by (rule distinct_map_filter)
  have held: "\<forall>(k, r) \<in> set ?rem. map_of (sd_fixed (snd ?s3)) k = Some r"
  proof (clarify)
    fix k r
    assume "(k, r) \<in> set ?rem"
    then have "(k, r) \<in> set (sd_fixed (snd ?s2))" and "k \<notin> set (map fst ?plain)" by simp_all
    then show "map_of (sd_fixed (snd ?s3)) k = Some r"
      using d by (simp add: fold_set_fixed_other map_of_is_SomeI)
  qed
  have four: "table_step (conn_refs (snd ?s2) \<union> X) ?s3 (fold (recheck cidr) ?rem ?s3)"
    and lim4: "limit_of (fold (recheck cidr) ?rem ?s3) =
      (\<lambda>k. if k \<in> set (map fst ?rem) then Option.bind (cidr k) positive else limit_of ?s3 k)"
    using fold_recheck [OF tab3 drem held] by blast+
  show "side_step X s (side_reload t pick old cidr vs s)"
    unfolding re by (rule side_step_trans [OF one side_step_trans [OF two(1)
      table_side_step [OF table_step_trans [OF three four] dis2]]])
  show "limit_of (side_reload t pick old cidr vs s) = (\<lambda>k.
      if k = ''$'' then positive (pick (limit_value vs ''$''))
      else case map_of ?plain k of
          Some v \<Rightarrow> positive (pick v)
        | None \<Rightarrow> if limit_of s k = None then None else Option.bind (cidr k) positive)"
  proof
    fix k
    have lim2: "limit_of ?s2 = (limit_of s)(''$'' := positive (pick (limit_value vs ''$'')))"
      using two(2) set_fixed_step(2) [OF tab] by simp
    have plain: "map_of ?plain ''$'' = None" by (auto simp: plain_values_def map_of_eq_None_iff)
    have mem: "k \<in> set (map fst ?rem) \<longleftrightarrow> k \<noteq> ''$'' \<and> map_of ?plain k = None \<and> limit_of ?s2 k \<noteq> None"
      by (force simp: limit_of_def map_of_eq_None_iff)
    show "limit_of (side_reload t pick old cidr vs s) k = (if k = ''$'' then positive (pick (limit_value vs ''$''))
      else case map_of ?plain k of
          Some v \<Rightarrow> positive (pick v)
        | None \<Rightarrow> if limit_of s k = None then None else Option.bind (cidr k) positive)"
      unfolding re lim4 mem lim3 lim2 using plain by (auto split: option.split)
  qed
qed

text \<open>The limiters of a node: both sides, and every operation on them.\<close>

definition traffic_inv :: "traffic_limiter \<Rightarrow> bool" where
  "traffic_inv l \<longleftrightarrow> side_ok (side_refs (tl_outSide l)) (tl_store l, tl_inSide l) \<and>
     side_ok (side_refs (tl_inSide l)) (tl_store l, tl_outSide l)"

lemma side_step_other:
  assumes step: "side_step (side_refs d) (st, c) (st', c')" and ok: "side_ok (side_refs c) (st, d)"
  shows "side_ok (side_refs c') (st', d)" and "limit_of (st', d) = limit_of (st, d)"
proof -
  have below: "side_refs d \<subseteq> {..<length st}"
    using ok by (auto simp: side_ok_def fixed_ok_def side_refs_def)
  have len: "length st \<le> length st'" and c': "side_refs c' \<subseteq> side_refs c \<union> {length st..<length st'}"
    and same: "\<forall>r \<in> side_refs d. st' ! r = st ! r"
    using step by (simp_all add: side_step_def)
  have dis: "side_refs d \<inter> side_refs c' = {}"
  proof -
    have "side_refs d \<inter> side_refs c = {}"
      using ok by (auto simp: side_ok_def fixed_ok_def side_refs_def)
    moreover have "side_refs d \<inter> {length st..<length st'} = {}" using below by auto
    ultimately show ?thesis using c' by blast
  qed
  have c_below: "side_refs c' \<subseteq> {..<length st'}"
    using c' len ok by (force simp: side_ok_def fixed_ok_def)
  show "side_ok (side_refs c') (st', d)"
    using ok below len dis c_below unfolding side_ok_def fixed_ok_def by (auto simp: side_refs_def)
  show "limit_of (st', d) = limit_of (st, d)"
  proof
    fix k
    show "limit_of (st', d) k = limit_of (st, d) k"
    proof (cases "map_of (sd_fixed d) k")
      case (Some r)
      then have "r \<in> ran (map_of (sd_fixed d))" by (rule ranI)
      then have "st' ! r = st ! r" using same by (simp add: side_refs_def)
      then show ?thesis by (simp add: limit_of_def Some)
    qed (simp add: limit_of_def)
  qed
qed

lemma traffic_In_inv: "traffic_inv l \<Longrightarrow> traffic_inv (snd (traffic_In containing t scope key l))"
  unfolding traffic_inv_def traffic_In_def
  by (auto split: prod.split dest: obtain_step side_step_other(1)) (auto simp: side_step_def dest: obtain_step)

lemma traffic_Out_inv: "traffic_inv l \<Longrightarrow> traffic_inv (snd (traffic_Out containing t scope key l))"
  unfolding traffic_inv_def traffic_Out_def
  by (auto split: prod.split dest: obtain_step side_step_other(1)) (auto simp: side_step_def dest: obtain_step)

lemma load_limits_distinct: "distinct (map fst (load_limits bytes limits loaded))"
proof -
  have "distinct (map fst m) \<Longrightarrow> distinct (map fst (fold (\<lambda>s m. case parseTrafficLimit bytes s of
      (key, v) \<Rightarrow> if key = [] then m else AList.update key v m) ls m))" for ls m
    by (induction ls arbitrary: m) (auto simp: distinct_update split: prod.split)
  then show ?thesis by (simp add: load_limits_def)
qed

lemma traffic_reload_step:
  assumes "traffic_inv l" and "distinct (map fst vs)" and new: "l' = traffic_reload containing t vs l"
  shows "traffic_inv l'"
    and "limit_of (tl_store l', tl_inSide l') = (\<lambda>k.
      if k = ''$'' then positive (fst (limit_value vs ''$''))
      else case map_of (plain_values vs) k of
          Some v \<Rightarrow> positive (fst v)
        | None \<Rightarrow> if limit_of (tl_store l, tl_inSide l) k = None then None
            else Option.bind (cidr_limit containing fst (cidr_values vs) k) positive)"
    and "limit_of (tl_store l', tl_outSide l') = (\<lambda>k.
      if k = ''$'' then positive (snd (limit_value vs ''$''))
      else case map_of (plain_values vs) k of
          Some v \<Rightarrow> positive (snd v)
        | None \<Rightarrow> if limit_of (tl_store l, tl_outSide l) k = None then None
            else Option.bind (cidr_limit containing snd (cidr_values vs) k) positive)"
proof -
  let ?cin = "cidr_limit containing fst (cidr_values vs)" and ?cout = "cidr_limit containing snd (cidr_values vs)"
  obtain st1 inSide where one: "side_reload t fst (fst (tl_generator l)) ?cin vs (tl_store l, tl_inSide l) = (st1, inSide)"
    by (metis surj_pair)
  obtain st2 outSide where two: "side_reload t snd (snd (tl_generator l)) ?cout vs (st1, tl_outSide l) = (st2, outSide)"
    by (metis surj_pair)
  have l': "tl_store l' = st2" "tl_inSide l' = inSide" "tl_outSide l' = outSide"
    by (simp_all add: new traffic_reload_def Let_def one two)
  have inv: "side_ok (side_refs (tl_outSide l)) (tl_store l, tl_inSide l)"
    "side_ok (side_refs (tl_inSide l)) (tl_store l, tl_outSide l)"
    using assms(1) by (simp_all add: traffic_inv_def)
  note in1 = side_reload_step [OF inv(1) assms(2), of t fst "fst (tl_generator l)" ?cin, unfolded one]
  note out1 = side_step_other [OF in1(1) inv(2)]
  note out2 = side_reload_step [OF out1(1) assms(2), of t snd "snd (tl_generator l)" ?cout, unfolded two]
  have ok_in: "side_ok (side_refs (tl_outSide l)) (st1, inSide)" using in1(1) by (simp add: side_step_def)
  note in2 = side_step_other [OF out2(1) ok_in]
  show "traffic_inv l'" using in2(1) out2(1) by (simp add: traffic_inv_def l' side_step_def)
  show "limit_of (tl_store l', tl_inSide l') = (\<lambda>k.
      if k = ''$'' then positive (fst (limit_value vs ''$''))
      else case map_of (plain_values vs) k of
          Some v \<Rightarrow> positive (fst v)
        | None \<Rightarrow> if limit_of (tl_store l, tl_inSide l) k = None then None
            else Option.bind (?cin k) positive)"
    unfolding l' in2(2) by (rule in1(2))
  show "limit_of (tl_store l', tl_outSide l') = (\<lambda>k.
      if k = ''$'' then positive (snd (limit_value vs ''$''))
      else case map_of (plain_values vs) k of
          Some v \<Rightarrow> positive (snd v)
        | None \<Rightarrow> if limit_of (tl_store l, tl_outSide l) k = None then None
            else Option.bind (?cout k) positive)"
    unfolding l' out2(2) out1(2) by (rule refl)
qed

inductive traffic_reach ::
  "((nat list \<times> nat) list \<Rightarrow> nat list \<Rightarrow> nat option) \<Rightarrow> (string \<Rightarrow> int) \<Rightarrow> traffic_limiter \<Rightarrow> bool"
  for containing bytes where
  reach_start: "traffic_reach containing bytes no_limits"
| reach_In: "traffic_reach containing bytes l \<Longrightarrow>
    traffic_reach containing bytes (snd (traffic_In containing t scope key l))"
| reach_Out: "traffic_reach containing bytes l \<Longrightarrow>
    traffic_reach containing bytes (snd (traffic_Out containing t scope key l))"
| reach_reload: "traffic_reach containing bytes l \<Longrightarrow>
    traffic_reach containing bytes (traffic_reload containing t (load_limits bytes limits loaded) l)"

lemma no_limits_inv: "traffic_inv no_limits"
  by (simp add: traffic_inv_def no_limits_def side_ok_def fixed_ok_def side_refs_def conn_refs_def)

lemma traffic_reach_inv: "traffic_reach containing bytes l \<Longrightarrow> traffic_inv l"
  by (induction rule: traffic_reach.induct)
    (auto intro: no_limits_inv traffic_In_inv traffic_Out_inv traffic_reload_step(1) load_limits_distinct)

text \<open>C27: Whatever a node has done with its limiters, after a reload the limits of the service and of every
  address are exactly those the configuration names; an address that is not named keeps a limiter only
  if it had one and a configured network contains it, with the limit of that network.\<close>

theorem reload_limits_exact:
  assumes "traffic_reach containing bytes l" and "vs = load_limits bytes limits loaded"
    and "l' = traffic_reload containing t vs l"
  shows "limit_of (tl_store l', tl_inSide l') key =
      (if key = ''$'' then positive (fst (limit_value vs ''$''))
       else case map_of (plain_values vs) key of
           Some v \<Rightarrow> positive (fst v)
         | None \<Rightarrow> if limit_of (tl_store l, tl_inSide l) key = None then None
             else Option.bind (cidr_limit containing fst (cidr_values vs) key) positive) \<and>
    limit_of (tl_store l', tl_outSide l') key =
      (if key = ''$'' then positive (snd (limit_value vs ''$''))
       else case map_of (plain_values vs) key of
           Some v \<Rightarrow> positive (snd v)
         | None \<Rightarrow> if limit_of (tl_store l, tl_outSide l) key = None then None
             else Option.bind (cidr_limit containing snd (cidr_values vs) key) positive)"
proof -
  have "distinct (map fst vs)" using assms(2) load_limits_distinct by simp
  note step = traffic_reload_step(2,3) [OF traffic_reach_inv [OF assms(1)] this assms(3)]
  show ?thesis unfolding step by (rule conjI [OF refl refl])
qed

section \<open>The speed limits of the panel\<close>

lemma panel_limit_parse:
  "parseTrafficLimit bytes (''$ '' @ itoa n @ ''MB '' @ itoa n @ ''MB'') =
    (''$'', max 0 (bytes (itoa n @ ''MB'')), max 0 (bytes (itoa n @ ''MB'')))"
proof -
  let ?m = "itoa n @ ''MB''"
  let ?s = "''$ '' @ itoa n @ ''MB '' @ itoa n @ ''MB''"
  have no: "CHR '' '' \<notin> set (itoa n)" "CHR 0x09 \<notin> set (itoa n)"
    using itoa_chars [of "CHR '' ''" n] itoa_chars [of "CHR 0x09" n] by (auto simp: is_digit_def)
  then have "blank_tabs (itoa n) = itoa n" by (auto simp: blank_tabs_def intro: map_idI)
  then have "blank_tabs ?s = ?s" by (simp add: blank_tabs_def)
  moreover have "trim_space ?s = ?s" by (rule trim_space_id) (simp add: is_space_def)
  moreover have "split_on (CHR '' '') ?s = [''$'', ?m, ?m]"
  proof -
    have m: "CHR '' '' \<notin> set ?m" using no by simp
    have "?s = ''$'' @ CHR '' '' # ?m @ CHR '' '' # ?m" by simp
    then show ?thesis using split_on_sep [OF m, of ?m] split_on_no_sep [OF m]
      by (simp only: split_on_sep [of "CHR '' ''" "''$''"]) simp
  qed
  ultimately show ?thesis by (simp add: parseTrafficLimit_def)
qed

text \<open>A speed of \<open>n\<close> megabit per second in bytes per second: what the pages of the panel call the number
  of a speed limit (the label speedMbps of lib/i18n).\<close>

definition mbps :: "int \<Rightarrow> int" where "mbps n = n * 125000"

text \<open>C28: The unit of a speed limit. The text the panel sends for the number \<open>n\<close> makes the node limit every
  service it is set on to \<open>n * 1048576\<close> bytes per second in each direction, which is more than eight
  times the \<open>n\<close> Mbps that its pages show for it. The parser of sizes is that of base-2 units, as
  documented.\<close>

theorem panel_speed_unit:
  assumes "0 < n" and "bytes (itoa n @ ''MB'') = n * 1048576"
    and "l = traffic_reload containing t (load_limits bytes (lm_limits (createLimiterData name (itoa n))) []) no_limits"
  shows "\<exists>i out. traffic_In containing t' ScopeService key l = (Some [i], l) \<and>
    traffic_Out containing t' ScopeService key l = (Some [out], l) \<and>
    tl_store l ! i = n * 1048576 \<and> tl_store l ! out = n * 1048576 \<and> 8 * mbps n < tl_store l ! i"
proof -
  let ?v = "n * 1048576"
  have vs: "load_limits bytes (lm_limits (createLimiterData name (itoa n))) [] = [(''$'', (?v, ?v))]"
    using assms(1,2) panel_limit_parse [of bytes n] by (simp add: load_limits_def createLimiterData_def)
  have "limit_of (tl_store l, tl_inSide l) ''$'' = Some ?v" "limit_of (tl_store l, tl_outSide l) ''$'' = Some ?v"
    using traffic_reload_step(2,3) [OF no_limits_inv _ assms(3)] assms(1)
    by (simp_all add: vs limit_value_def positive_def)
  then show ?thesis
    using assms(1) by (auto simp: limit_of_def traffic_In_def traffic_Out_def obtain_limiter_def mbps_def)
qed

text \<open>Property: a new limit of connections never reaches one that is in use: the cached limiters are set to
  the limit before the reload.\<close>

theorem connection_limit_lags:
  assumes "0 < n" and "n \<noteq> old" and "distinct (map fst (sd_conn (snd s)))"
    and "cache_live t (sd_conn (snd s)) key = Some r" and "r < length (fst s)"
  shows "cache_live t (sd_conn (snd (conn_reload t old n s))) key = Some r \<and>
    fst (conn_reload t old n s) ! r = old"
proof -
  obtain x where item: "(key, r, x) \<in> set (sd_conn (snd s))" and x: "t \<le> x"
    using assms(4) by (auto simp: cache_live_def dest: map_of_SomeD split: option.splits if_splits)
  have "r < length st \<Longrightarrow> (key, r, x) \<in> set items \<or> st ! r = old \<Longrightarrow>
      fold (\<lambda>(k, r, x) st. if t \<le> x then st[r := old] else st) items st ! r = old" for items st
  proof (induction items arbitrary: st)
    case (Cons i items)
    obtain k r' x' where i: "i = (k, r', x')" by (rule prod_cases3)
    have "(if t \<le> x' then st[r' := old] else st) ! r = old \<or> (key, r, x) \<in> set items"
      using Cons.prems x by (cases "r' = r") (auto simp: i)
    with Cons.IH [of "if t \<le> x' then st[r' := old] else st"] Cons.prems show ?case by (auto simp: i)
  qed auto
  from this [of "fst s" "sd_conn (snd s)"] item assms show ?thesis by (simp add: conn_reload_def)
qed

section \<open>Examples\<close>


definition sample_bytes :: "string \<Rightarrow> int" where
  "sample_bytes s = (if s = ''10MB'' then 10485760 else if s = ''5B'' then 5 else 3)"

text \<open>A node with a limit for its services and two addresses; then the service limit changes and one
  address is dropped.\<close>

definition sample_limits :: traffic_limiter where
  "sample_limits = traffic_reload (\<lambda>_ _. None) 1
     (load_limits sample_bytes [''$ 5B 5B'', ''10.0.0.1 5B'', ''10.0.0.2 5B''] []) no_limits"

theorem reload_limits_exact_witness:
  "let l = traffic_reload (\<lambda>_ _. None) 2 (load_limits sample_bytes [''$ 3B'', ''10.0.0.1 3B 3B''] []) sample_limits in
   limit_of (tl_store sample_limits, tl_inSide sample_limits) ''10.0.0.2'' = Some 5 \<and>
   limit_of (tl_store l, tl_inSide l) ''10.0.0.1'' = Some 3 \<and> limit_of (tl_store l, tl_inSide l) ''10.0.0.2'' = None \<and>
   limit_of (tl_store l, tl_outSide l) ''$'' = None"
proof -
  let ?vs = "load_limits sample_bytes [''$ 3B'', ''10.0.0.1 3B 3B''] []"
  let ?l = "traffic_reload (\<lambda>_ _. None) 2 ?vs sample_limits"
  have reach: "traffic_reach (\<lambda>_ _. None) sample_bytes sample_limits"
    unfolding sample_limits_def by (intro reach_reload reach_start)
  note exact = reload_limits_exact [OF reach refl refl, where limits = "[''$ 3B'', ''10.0.0.1 3B 3B'']" and loaded = "[]" and t = 2]
  have v: "?vs = [(''$'', (3, 0)), (''10.0.0.1'', (3, 3))]" by code_simp
  have plain: "plain_values [(''$'', (3, 0)), (''10.0.0.1'', (3, 3))] = [(''10.0.0.1'', (3, 3))]" by code_simp
  have "cidr_limit (\<lambda>_ _. None) fst m ''10.0.0.2'' = None" for m
    by (simp add: cidr_limit_def split: option.split)
  moreover have "limit_of (tl_store sample_limits, tl_inSide sample_limits) ''10.0.0.2'' = Some 5" by code_simp
  ultimately show ?thesis
    using exact [where key = "''10.0.0.1''"] exact [where key = "''10.0.0.2''"] exact [where key = "''$''"]
    unfolding v plain by (simp add: Let_def positive_def limit_value_def)
qed

definition sample_speed :: traffic_limiter where
  "sample_speed = traffic_reload (\<lambda>_ _. None) 1
     (load_limits sample_bytes (lm_limits (createLimiterData 7 (itoa 10))) []) no_limits"

theorem panel_speed_unit_witness:
  "\<exists>i. traffic_In (\<lambda>_ _. None) 3 ScopeService ''10.0.0.1:80'' sample_speed = (Some [i], sample_speed) \<and>
     tl_store sample_speed ! i = 10485760 \<and> mbps 10 = 1250000"
proof -
  have b: "sample_bytes (itoa 10 @ ''MB'') = 10 * 1048576" by code_simp
  from panel_speed_unit [where containing = "\<lambda>_ _. None" and t = 1 and name = 7 and t' = 3 and n = 10 and
      key = "''10.0.0.1:80''", OF _ b sample_speed_def] show ?thesis
    by (auto simp: mbps_def)
qed

end
