(* ===== verification/Spec2Isabelle.thy ===== *)
theory Spec2Isabelle
  imports Forward_Props Flow_Props Panel_Reach Node_Props Failover_Props Reconcile_Node User_Props Statistics_Props
    Node_Match_Props Node_Limit_Props Node_Select_Props Ws_Frame Node_Report_Props Node_Protocol_Props Rate_Limit
    Panel_Token_Props Panel_Session_Props Xray_Examples Audit_Props Node_Traffic
begin

text \<open>
  A verification library for flux-panel-plus: a panel (src/go-backend) that manages port forwards
  and Xray proxies over a fleet of GOST nodes (src/go-node).

  \<^bold>\<open>The program.\<close> Users create forwards; a forward runs over a tunnel (one node, or an entry and an
  exit node) or over a route of several nodes. The panel keeps everything in a relational
  database, allocates the ports, and sends commands over a WebSocket to the nodes, which start
  and stop listeners. The nodes report traffic; the panel adds it to counters and pauses what is
  over a limit. A daily task resets counters and stops what has expired, an hourly task records
  statistics, a reconciliation repairs a node that comes back, and failover points DNS records of
  a group at a healthy node. In a node, the traffic passes admission and bypass lists, connection
  limits and the choice of a next hop. Beside GOST a node runs the proxy Xray: the panel stores
  its inbounds, their clients and certificates, and sends every change to the node, which applies
  it to the running process and to a configuration file.

  \<^bold>\<open>How code becomes HOL.\<close> A table of the database is the list of its rows, a row a record with the
  columns of the Go struct. A handler is a function of an environment, its arguments and the
  world (database, state of the nodes, commands sent) and returns its answer and the next world.
  The environment is what the panel cannot control: which database statement fails
  (\<open>db_ok\<close>, by the number of the statement), which nodes are connected, what they answer
  (\<open>transport\<close>), the clock, and the libraries bcrypt, MD5, HMAC, JSON, ACME, captcha and name resolution. Theorems
  hold for every environment unless a hypothesis says otherwise. Errors are constructors of
  \<open>reply\<close>, Go strings are byte lists, \<open>int64\<close> arithmetic is wrapped by \<open>i64\<close> where the code
  computes, \<open>float64\<close> products are rounded by \<open>f64_round\<close>, and the bytes of frames and the round
  robin counter are machine words, as are the traffic counters of a node. Loops over rows are folds; a loop of the node that need not
  end is a \<open>partial_function\<close>, shown to return on every input (\<open>matchers_return\<close>); the search for
  a free port runs over the finite list of the node's ports. No definition uses fuel. Goroutines
  that share a counter are an inductive relation whose steps are the atomic operations.

  \<^bold>\<open>Foundations.\<close>
  \<^item> \<open>Prelude\<close>, \<open>Go_Text\<close>, \<open>Tables\<close>: Go's integers and \<open>strings\<close> package; GORM's queries on lists of
    rows with the locale \<open>keyed_table\<close>, and the locale \<open>step_preorder\<close> for relations between states
    that compose along folds.
  \<^item> \<open>Panel_Data\<close> (model/*.go): the tables; \<open>keyed_table\<close> is interpreted on them.
  \<^item> \<open>Gost_Config\<close> (pkg/gost.go): the configurations sent to nodes. \<open>Panel_World\<close> (pkg/gost.go,
    pkg/ws.go, pkg/xray.go): the world, the failing database, \<open>SendMsg\<close> and the command wrappers.
    \<open>Panel_Reply\<close>: the answers of the services.

  \<^bold>\<open>The panel, operation by operation\<close> (src/go-backend/service unless said otherwise).
  \<^item> \<open>Ports\<close> (forward.go): ports in use and their allocation. \<open>Net_Addr\<close> and \<open>Access\<close> (forward.go,
    user.go): the check of targets against private networks, permissions and quotas.
  \<^item> \<open>Gost_Services\<close>, \<open>Route_Api\<close> (route.go), \<open>Route_Forward\<close>, \<open>Forward_Api\<close> (forward.go): the services
    of a forward on its nodes and the requests on forwards and routes, with their roll-backs.
  \<^item> \<open>Tunnel_Api\<close> (tunnel.go, user_tunnel.go, speed_limit.go, node.go); \<open>User_Api\<close> (user.go,
    pkg/password.go); \<open>Startup\<close> (main.go).
  \<^item> \<open>Flow\<close> (flow.go): accounting of reports; \<open>Reset_Flow\<close> (task/reset_flow.go); \<open>Statistics\<close>
    (statistics.go); \<open>Reconcile\<close> (config_check.go, reconcile.go); \<open>Failover\<close> (group.go, ddns.go,
    failover.go).
  \<^item> \<open>Panel_Token\<close> (pkg/jwt.go, middleware/jwt.go, role.go): tokens with Base64 and the checks of a
    request; \<open>Rate_Limit\<close> (middleware/rate_limit.go): the windows of the login limiter;
    \<open>Panel_Session\<close> (pkg/ws.go): the handshake, the sorting of messages, and the goroutines that
    register sessions and wait for answers, as inductive relations of atomic steps.
  \<^item> \<open>Audit_Text\<close>, \<open>Audit_Panel\<close> (audit.go, task/audit_cleanup.go): the rows made of the audit events
    of the nodes, the filter of noise, the clean-up and the page.

  \<^bold>\<open>Xray\<close>, from the request to the proxy.
  \<^item> \<open>Go_Json\<close>: JSON values as Go's \<open>interface\<close> values, objects as finite maps; reading and printing are
    parameters. \<open>Xray_Data\<close> (model/xray_*.go, pkg/xray.go): the tables with all their columns, the
    commands, and a world of their own: the requests of this part read the tables of \<open>Panel_Data\<close>
    for permissions only.
  \<^item> \<open>Xray_Api\<close> (service/xray_inbound.go), \<open>Xray_Clients\<close> (xray_client.go, xray_scheduler.go,
    xray_cert.go, acme.go), \<open>Xray_Reconcile\<close> (reconcile.go), \<open>Xray_Link\<close> (the share links of
    xray_client.go, with \<open>QueryEscape\<close> and \<open>Values.Encode\<close> written out). \<open>xserve\<close> dispatches the
    requests as router/router.go does. A panic is the answer \<open>XCrashed\<close>.
  \<^item> \<open>Xray_Manager\<close> (go-node/x/xray/manager.go, grpc_client.go) and \<open>Xray_Node\<close> (the commands in
    socket/websocket_reporter.go, traffic_reporter.go, \<open>SwitchVersion\<close>): the configuration file and
    the process of a node. The record \<open>xray_bin\<close> holds what the proxy and the file system decide:
    whether it starts and stays alive, what each of its commands answers. The goroutine that
    notices the end of the process is the function \<open>settle\<close>, applied where the code waits.

  \<^bold>\<open>The node\<close> (src/go-node/x).
  \<^item> \<open>Node_Socket\<close>, \<open>Node_Command\<close> (socket/service.go, chain.go, limiter.go, websocket_reporter.go): the
    commands; a fleet of nodes is an instance of the panel's \<open>transport\<close>.
  \<^item> \<open>Node_Match\<close> (internal/matcher, internal/net, bypass, admission, hosts), \<open>Node_Limit\<close>
    (limiter/conn), \<open>Node_Traffic\<close> (limiter/traffic): the speed limits, their reload and the limited
    connection; a token bucket is its limit, since waiting for tokens only takes time.
    \<open>Node_Select\<close> (selector, hop, chain), \<open>Ws_Frame\<close> (internal/util/ws).
  \<^item> \<open>Node_Report\<close> (observer/stats, service/traffic_reporter.go, service/service.go): the counters of
    a service and the goroutine that reports them, interleaved with the traffic. \<open>Node_Protocol\<close>
    (service/service.go, status.go): the recognition of HTTP, TLS and SOCKS and its switches.
  \<^item> \<open>Audit_Node\<close> with the second half of \<open>Audit_Text\<close> (service/audit_reporter.go, singbox_audit.go): Go's regular expressions
    as the log reader uses them, the lines of the log, the events and their queue.

  \<^bold>\<open>What is shown.\<close>
  \<^item> The panel as a state machine: \<open>Panel_Reach\<close> has one rule per request, report, task and start;
    \<open>Panel_Inv\<close> and \<open>Panel_Steps\<close> prove through the locale \<open>db_invariant\<close> that every rule keeps the
    invariant, so no two forwards ever share a port and routes stay well-formed, whatever fails.
    \<open>Type_Inv\<close> interprets the same locale on the types of the rows, \<open>User_Steps\<close> adds the accounts.
  \<^item> \<open>Forward_Props\<close>: the checks behind a successful create, quotas, targets (an independent reading of
    the private networks of both versions on the bytes of an address), ownership, and the
    agreement of the names of services. \<open>Flow_Props\<close> and \<open>Reset_Flow\<close>: the accounting and the
    enforcement of limits, in the rows and in the commands sent to the nodes; the forwards on routes
    are not paused by the code. \<open>User_Props\<close>, \<open>Statistics_Props\<close>: logins, administrators, deletion, increments.
  \<^item> \<open>Node_Inv\<close>, \<open>Node_Frame\<close>: a node stays well-formed and a command leaves alone what it does not
    name. \<open>Node_Spec\<close>, \<open>Node_Refine\<close>: the registries, listeners and lists of a node implement a map
    from names to configurations. \<open>Footprint\<close> and \<open>Node_Props\<close> compose panel and nodes: an operation on
    a forward never disturbs another. \<open>Reconcile_Props\<close>, \<open>Reconcile_Node\<close>: a reconciliation is gentle,
    and one without an error leaves no port forward of the node without its services.
  \<^item> \<open>Failover_Props\<close>: a switch finds a healthy member, does not flap, and what a failed DNS update
    leaves behind.
  \<^item> \<open>Node_Match_Props\<close>, \<open>Node_Limit_Props\<close>, \<open>Node_Select_Props\<close>, \<open>Ws_Frame\<close>: matchers end and mean what
    their rules say, limits hold under interleaving up to one for every repeated close of a
    connection, strategies are fair, frames are read back.
  \<^item> \<open>Node_Traffic\<close>: after a reload the limits are those of the configuration, the number of a speed
    limit is in force on the node in base-2 megabytes per second, which is not the megabit per second the
    pages of the panel show, and a limited stream arrives as it was sent.
  \<^item> \<open>Node_Report_Props\<close>: an exact law of the bytes that passed, with traffic at any time and any answers
    of the panel: the configuration counts what a reset overwrites, what the panel drops and what it takes
    without an answer, and the panel charges the reports it took. \<open>Node_Protocol_Props\<close>: a connection is blocked exactly when its first read
    shows a protocol that is switched off. \<open>Rate_Limit\<close>: a bound for every interval.
    \<open>Panel_Token_Props\<close>: tokens are accepted until they expire. \<open>Panel_Session_Props\<close>: a registered
    session is read, and every request ends with its own answer or a timeout.
  \<^item> \<open>Xray_Props\<close>: the ports of inbounds stay unique in every reachable state. \<open>Xray_Owner\<close>: rows of
    others stay, and the exact rows after a change that the node refused. \<open>Xray_Quota\<close>: one reset in a cycle. \<open>Xray_Agree\<close>
    composes panel and node: both list the same clients of an inbound after every change that is
    answered with success. \<open>Xray_Sync_Props\<close>, \<open>Xray_Link\<close>, \<open>Xray_Node_Props\<close>: reconciliation,
    subscriptions, traffic and the change of the version.
  \<^item> \<open>Audit_Props\<close>: the queue of events loses and repeats nothing, no handler event of an upload is stored, the
    clean-up leaves the newest rows, the page shows what is stored.
  \<^item> \<open>Sample\<close> is a small concrete panel; the witnesses apply the theorems to it. \<open>Xray_Examples\<close> adds
    inbounds and clients.

  \<^bold>\<open>Not modelled.\<close> What is input and output only: the HTTP handlers, the Telegram bot, the dashboards,
  the views, listings and charts, self-updates and the installation commands; the broadcast to
  administrators. The encryption of the command channel. Of Xray: the proxy itself, a third-party
  program, the generation of X25519 keys, the download of a version and the ACME protocol. In the
  node, the protocol engine (handlers, listeners, dialers, TLS, sniffing), the timing of the token
  buckets, and the rule language of the router, which a library parses.
  Time is an argument; the timer loops that call
  the tasks are not modelled. Unicode: white space and letter case are those of ASCII.
\<close>

end
